(* ===== verification/PyRegex.thy ===== *)
theory PyRegex
  imports Prelude
begin

text \<open>
  The fragment of Python's \<open>re\<close> that the program's patterns use, with its backtracking
  semantics: \<open>ms\<close> returns every way the pattern can match at a position, in the order the
  engine tries them, so the head of the list is the match \<open>re\<close> reports. A position is the
  character before it (for look-behind), the rest of the text and the groups captured so far.
  \<open>finditer\<close> scans left to right for non-overlapping matches. The lemmas bound the width of
  every match and order the spans that \<open>finditer\<close> yields.
\<close>

section \<open>Patterns\<close>

datatype re =
    Eps
  | Cls "char \<Rightarrow> bool"                    \<comment> \<open>one character of a class\<close>
  | Seq re re
  | Alt re re                             \<comment> \<open>ordered choice\<close>
  | Rep "char \<Rightarrow> bool" nat "nat option"   \<comment> \<open>greedy \<open>[c]{m,n}\<close>; \<open>None\<close> is no upper bound\<close>
  | Lazy "char \<Rightarrow> bool"                   \<comment> \<open>\<open>[c]*?\<close>\<close>
  | NotBehind "char \<Rightarrow> bool"              \<comment> \<open>\<open>(?<![c])\<close>\<close>
  | Dollar                                \<comment> \<open>\<open>$\<close>: the end, or before a final newline\<close>
  | Grp re                                \<comment> \<open>a capturing group\<close>

type_synonym pos = "char option \<times> string \<times> string list"

definition lit :: "string \<Rightarrow> re" where
  "lit s = foldr (\<lambda>c. Seq (Cls ((=) c))) s Eps"

definition to_lower :: "char \<Rightarrow> char" where
  "to_lower c = (let n = (of_char c :: nat) in if 65 \<le> n \<and> n \<le> 90 then char_of (n + 32) else c)"

text \<open>A literal and a class under \<open>re.IGNORECASE\<close>.\<close>

definition lit_i :: "string \<Rightarrow> re" where
  "lit_i s = foldr (\<lambda>c. Seq (Cls (\<lambda>d. to_lower c = to_lower d))) s Eps"

definition cls_i :: "(char \<Rightarrow> bool) \<Rightarrow> char \<Rightarrow> bool" where
  "cls_i f d \<longleftrightarrow> f d \<or> f (to_lower d)"

definition in_range :: "char \<Rightarrow> char \<Rightarrow> char \<Rightarrow> bool" where
  "in_range a b c \<longleftrightarrow> (of_char a :: nat) \<le> of_char c \<and> (of_char c :: nat) \<le> of_char b"

abbreviation is_lower :: "char \<Rightarrow> bool" where "is_lower \<equiv> in_range (CHR ''a'') (CHR ''z'')"
abbreviation is_upper :: "char \<Rightarrow> bool" where "is_upper \<equiv> in_range (CHR ''A'') (CHR ''Z'')"
abbreviation is_digit :: "char \<Rightarrow> bool" where "is_digit \<equiv> in_range (CHR ''0'') (CHR ''9'')"
definition is_alpha :: "char \<Rightarrow> bool" where "is_alpha c \<longleftrightarrow> is_lower c \<or> is_upper c"
definition is_alnum :: "char \<Rightarrow> bool" where "is_alnum c \<longleftrightarrow> is_alpha c \<or> is_digit c"
definition is_word :: "char \<Rightarrow> bool" where "is_word c \<longleftrightarrow> is_alnum c \<or> c = CHR ''_''"

abbreviation opt_re :: "re \<Rightarrow> re" where "opt_re r \<equiv> Alt r Eps"

section \<open>Matching\<close>

definition advance :: "nat \<Rightarrow> pos \<Rightarrow> pos" where
  "advance j c = (case c of (p, s, gs) \<Rightarrow> (if j = 0 then p else Some (s ! (j - 1)), drop j s, gs))"

definition run_len :: "(char \<Rightarrow> bool) \<Rightarrow> nat option \<Rightarrow> string \<Rightarrow> nat" where
  "run_len f n s = (let k = length (takeWhile f s) in case n of None \<Rightarrow> k | Some m \<Rightarrow> min m k)"

fun ms :: "re \<Rightarrow> pos \<Rightarrow> pos list" where
  "ms Eps c = [c]"
| "ms (Cls f) (p, s, gs) = (case s of [] \<Rightarrow> [] | x # xs \<Rightarrow> if f x then [(Some x, xs, gs)] else [])"
| "ms (Seq a b) c = concat (map (ms b) (ms a c))"
| "ms (Alt a b) c = ms a c @ ms b c"
| "ms (Rep f m n) (p, s, gs) =
     map (\<lambda>j. advance j (p, s, gs)) (rev [m ..< Suc (run_len f n s)])"
| "ms (Lazy f) (p, s, gs) = map (\<lambda>j. advance j (p, s, gs)) [0 ..< Suc (run_len f None s)]"
| "ms (NotBehind f) (p, s, gs) =
     (case p of Some x \<Rightarrow> if f x then [] else [(p, s, gs)] | None \<Rightarrow> [(p, s, gs)])"
| "ms Dollar (p, s, gs) = (if s = [] \<or> s = [CHR 0x0A] then [(p, s, gs)] else [])"
| "ms (Grp r) (p, s, gs) =
     map (\<lambda>(p', s', gs'). (p', s', gs' @ [take (length s - length s') s])) (ms r (p, s, gs))"

text \<open>\<open>re.match(pattern, s)\<close>: is there a match at the start?\<close>

definition re_match :: "re \<Rightarrow> string \<Rightarrow> bool" where
  "re_match r s \<longleftrightarrow> ms r (None, s, []) \<noteq> []"

text \<open>
  \<open>pattern.finditer(s)\<close> as triples of start, end and captured groups. None of the program's
  scanned patterns matches the empty text (\<open>minw\<close> below is positive for each), so a scan
  always moves on.
\<close>

function scan :: "re \<Rightarrow> nat \<Rightarrow> char option \<Rightarrow> string \<Rightarrow> (nat \<times> nat \<times> string list) list" where
  "scan r i p s =
     (case ms r (p, s, []) of
        (p', s', gs) # _ \<Rightarrow>
          if length s' < length s
          then (i, i + (length s - length s'), gs) # scan r (i + (length s - length s')) p' s'
          else (case s of [] \<Rightarrow> [] | x # xs \<Rightarrow> scan r (Suc i) (Some x) xs)
      | [] \<Rightarrow> (case s of [] \<Rightarrow> [] | x # xs \<Rightarrow> scan r (Suc i) (Some x) xs))"
  by pat_completeness auto
termination
  by (relation "measure (\<lambda>(r, i, p, s). length s)") auto

declare scan.simps [simp del]

definition finditer :: "re \<Rightarrow> string \<Rightarrow> (nat \<times> nat \<times> string list) list" where
  "finditer r s = scan r 0 None s"

text \<open>\<open>pattern.search(s) is not None\<close>.\<close>

definition re_search :: "re \<Rightarrow> string \<Rightarrow> bool" where
  "re_search r s \<longleftrightarrow> finditer r s \<noteq> []"

section \<open>Width of a match\<close>

fun minw :: "re \<Rightarrow> nat" where
  "minw (Cls f) = 1"
| "minw (Seq a b) = minw a + minw b"
| "minw (Alt a b) = min (minw a) (minw b)"
| "minw (Rep f m n) = m"
| "minw (Grp r) = minw r"
| "minw _ = 0"

fun maxw :: "re \<Rightarrow> nat option" where
  "maxw (Cls f) = Some 1"
| "maxw (Seq a b) = (case maxw a of None \<Rightarrow> None | Some x \<Rightarrow> map_option ((+) x) (maxw b))"
| "maxw (Alt a b) = (case maxw a of None \<Rightarrow> None | Some x \<Rightarrow> map_option (max x) (maxw b))"
| "maxw (Rep f m n) = n"
| "maxw (Lazy f) = None"
| "maxw (Grp r) = maxw r"
| "maxw _ = Some 0"

text \<open>Every match is a suffix of the text, and its width lies between the two bounds.\<close>

definition reaches :: "re \<Rightarrow> string \<Rightarrow> string \<Rightarrow> bool" where
  "reaches r s s' \<longleftrightarrow> (\<exists>j \<le> length s. s' = drop j s \<and> minw r \<le> j \<and> (\<forall>w. maxw r = Some w \<longrightarrow> j \<le> w))"

lemma run_len_le: "run_len f n s \<le> length s"
  by (auto simp: run_len_def Let_def length_takeWhile_le min.coboundedI2 split: option.splits)

lemma run_len_cap: "run_len f (Some n) s \<le> n"
  by (simp add: run_len_def)

lemma reaches_Seq:
  assumes "reaches a s s'" and "reaches b s' s''"
  shows "reaches (Seq a b) s s''"
proof -
  obtain i where i: "i \<le> length s" "s' = drop i s" "minw a \<le> i" "\<forall>w. maxw a = Some w \<longrightarrow> i \<le> w"
    using assms(1) by (auto simp: reaches_def)
  obtain j where j: "j \<le> length s'" "s'' = drop j s'" "minw b \<le> j" "\<forall>w. maxw b = Some w \<longrightarrow> j \<le> w"
    using assms(2) by (auto simp: reaches_def)
  show ?thesis
    unfolding reaches_def
    using i j by (intro exI[of _ "i + j"]) (auto simp: add.commute split: option.splits intro: add_mono)
qed

lemma reaches_Alt:
  assumes "reaches a s s' \<or> reaches b s s'"
  shows "reaches (Alt a b) s s'"
proof -
  from assms obtain j where j: "j \<le> length s" "s' = drop j s" "min (minw a) (minw b) \<le> j"
      "\<forall>w. maxw (Alt a b) = Some w \<longrightarrow> j \<le> w"
    by (fastforce simp: reaches_def split: option.splits)
  then show ?thesis unfolding reaches_def by (intro exI[of _ j]) auto
qed

lemma ms_reaches: "(p', s', gs') \<in> set (ms r (p, s, gs)) \<Longrightarrow> reaches r s s'"
proof (induction r arbitrary: p s gs p' s' gs')
  case (Cls f)
  then show ?case
    by (cases s) (auto simp: reaches_def intro!: exI[of _ 1] split: if_splits)
next
  case (Seq a b)
  from Seq.prems obtain q t hs where a: "(q, t, hs) \<in> set (ms a (p, s, gs))"
      and b: "(p', s', gs') \<in> set (ms b (q, t, hs))"
    by auto
  show ?case by (rule reaches_Seq [OF Seq.IH(1) [OF a] Seq.IH(2) [OF b]])
next
  case (Alt a b)
  from Alt.prems have "reaches a s s' \<or> reaches b s s'" by (auto dest: Alt.IH)
  then show ?case by (rule reaches_Alt)
next
  case (Rep f m n)
  then obtain j where "m \<le> j" "j \<le> run_len f n s" "s' = drop j s"
    by (auto simp: advance_def less_Suc_eq_le simp del: upt_Suc)
  then show ?case
    unfolding reaches_def
    by (intro exI[of _ j]) (auto intro: le_trans[OF _ run_len_le] le_trans[OF _ run_len_cap])
next
  case (Lazy f)
  then obtain j where "j \<le> run_len f None s" "s' = drop j s"
    by (auto simp: advance_def less_Suc_eq_le simp del: upt_Suc)
  then show ?case
    unfolding reaches_def by (intro exI[of _ j]) (auto intro: le_trans[OF _ run_len_le])
next
  case (Grp r)
  then obtain hs where "(p', s', hs) \<in> set (ms r (p, s, gs))" by auto
  from Grp.IH [OF this] show ?case by (simp add: reaches_def)
next
  case (NotBehind f)
  then show ?case by (auto simp: reaches_def split: option.splits if_splits)
qed (auto simp: reaches_def split: if_splits)

section \<open>Spans of a scan\<close>

text \<open>
  A list of spans of a text of length \<open>n\<close>, starting no earlier than \<open>i\<close>: in order, non-empty,
  non-overlapping, inside the text.
\<close>

fun ordered_spans :: "nat \<Rightarrow> nat \<Rightarrow> (nat \<times> nat) list \<Rightarrow> bool" where
  "ordered_spans i n [] \<longleftrightarrow> True"
| "ordered_spans i n ((a, b) # ss) \<longleftrightarrow> i \<le> a \<and> a < b \<and> b \<le> n \<and> ordered_spans b n ss"

lemma ordered_spans_mono: "ordered_spans i n ss \<Longrightarrow> j \<le> i \<Longrightarrow> ordered_spans j n ss"
  by (cases ss) auto

lemma ordered_spans_bounds:
  "ordered_spans i n ss \<Longrightarrow> (a, b) \<in> set ss \<Longrightarrow> i \<le> a \<and> a < b \<and> b \<le> n"
  by (induction i n ss rule: ordered_spans.induct) fastforce+

abbreviation spans_of :: "(nat \<times> nat \<times> 'a) list \<Rightarrow> (nat \<times> nat) list" where
  "spans_of xs \<equiv> map (\<lambda>(a, b, g). (a, b)) xs"

lemma ms_suffix_le: "(p', s', gs') \<in> set (ms r (p, s, gs)) \<Longrightarrow> length s' \<le> length s"
  by (auto dest!: ms_reaches simp: reaches_def)

lemma scan_ordered: "ordered_spans i (i + length s) (spans_of (scan r i p s))"
proof (induction r i p s rule: scan.induct)
  case (1 r i p s)
  show ?case
  proof (cases "ms r (p, s, [])")
    case Nil
    with 1(1) show ?thesis
      by (subst scan.simps) (fastforce intro: ordered_spans_mono split: list.splits)
  next
    case (Cons c cs)
    obtain p' s' gs where c: "c = (p', s', gs)" by (cases c) auto
    from Cons c have le: "length s' \<le> length s" by (intro ms_suffix_le[of p' s' gs r p s "[]"]) auto
    show ?thesis
    proof (cases "length s' < length s")
      case True
      from 1(2)[OF Cons c[symmetric] refl True]
      have "ordered_spans (i + (length s - length s')) (i + length s)
              (spans_of (scan r (i + (length s - length s')) p' s'))"
        using le by simp
      with True Cons c le show ?thesis
        by (subst scan.simps) simp
    next
      case False
      with 1(3)[OF Cons c[symmetric] refl False] Cons c show ?thesis
        by (subst scan.simps) (fastforce intro: ordered_spans_mono split: list.splits)
    qed
  qed
qed

lemma finditer_ordered: "ordered_spans 0 (length s) (spans_of (finditer r s))"
  using scan_ordered[of 0 s r None] by (simp add: finditer_def)

lemma scan_width:
  "(a, b, gs) \<in> set (scan r i p s) \<Longrightarrow> maxw r = Some w \<Longrightarrow> b - a \<le> w"
proof (induction r i p s rule: scan.induct)
  case (1 r i p s)
  show ?case
  proof (cases "ms r (p, s, [])")
    case Nil
    with 1(4) have "(a, b, gs) \<in> set (case s of [] \<Rightarrow> [] | x # xs \<Rightarrow> scan r (Suc i) (Some x) xs)"
      by (subst (asm) scan.simps) simp
    with 1(1)[OF Nil] 1(5) show ?thesis by (auto split: list.splits)
  next
    case (Cons c cs)
    obtain p' s' g where c: "c = (p', s', g)" by (cases c) auto
    have r: "reaches r s s'" using Cons c by (intro ms_reaches[of p' s' g r p s "[]"]) auto
    show ?thesis
    proof (cases "length s' < length s")
      case True
      with Cons c 1(4) have
        "(a, b, gs) = (i, i + (length s - length s'), g) \<or>
         (a, b, gs) \<in> set (scan r (i + (length s - length s')) p' s')"
        by (subst (asm) scan.simps) simp
      with r 1(5) 1(2)[OF Cons c[symmetric] refl True] show ?thesis
        by (auto simp: reaches_def)
    next
      case False
      with Cons c 1(4) have "(a, b, gs) \<in> set (case s of [] \<Rightarrow> [] | x # xs \<Rightarrow> scan r (Suc i) (Some x) xs)"
        by (subst (asm) scan.simps) simp
      with 1(3)[OF Cons c[symmetric] refl False] 1(5) show ?thesis by (auto split: list.splits)
    qed
  qed
qed

text \<open>No match \<open>finditer\<close> reports is wider than the pattern's declared maximum.\<close>

lemma finditer_width:
  "(a, b, gs) \<in> set (finditer r s) \<Longrightarrow> maxw r = Some w \<Longrightarrow> b - a \<le> w"
  unfolding finditer_def by (rule scan_width)

text \<open>The groups of a reported match come from one match of the pattern.\<close>

lemma scan_from_ms:
  "(a, b, gs) \<in> set (scan r i p s) \<Longrightarrow> \<exists>p0 s0 p' s'. (p', s', gs) \<in> set (ms r (p0, s0, []))"
proof (induction r i p s rule: scan.induct)
  case (1 r i p s)
  show ?case
  proof (cases "ms r (p, s, [])")
    case Nil
    with 1(4) have "(a, b, gs) \<in> set (case s of [] \<Rightarrow> [] | x # xs \<Rightarrow> scan r (Suc i) (Some x) xs)"
      by (subst (asm) scan.simps) simp
    with 1(1)[OF Nil] show ?thesis by (auto split: list.splits)
  next
    case (Cons c cs)
    obtain p' s' g where c: "c = (p', s', g)" by (cases c) auto
    show ?thesis
    proof (cases "length s' < length s")
      case True
      with Cons c 1(4) have
        "gs = g \<or> (a, b, gs) \<in> set (scan r (i + (length s - length s')) p' s')"
        by (subst (asm) scan.simps) auto
      moreover have "(p', s', g) \<in> set (ms r (p, s, []))" using Cons c by simp
      ultimately show ?thesis using 1(2)[OF Cons c[symmetric] refl True] by blast
    next
      case False
      with Cons c 1(4) have "(a, b, gs) \<in> set (case s of [] \<Rightarrow> [] | x # xs \<Rightarrow> scan r (Suc i) (Some x) xs)"
        by (subst (asm) scan.simps) simp
      with 1(3)[OF Cons c[symmetric] refl False] show ?thesis by (auto split: list.splits)
    qed
  qed
qed

lemma minw_lit [simp]: "minw (lit s) = length s"
  by (induction s) (auto simp: lit_def)

lemma maxw_lit [simp]: "maxw (lit s) = Some (length s)"
  by (induction s) (auto simp: lit_def)

lemma minw_lit_i [simp]: "minw (lit_i s) = length s"
  by (induction s) (auto simp: lit_i_def)

lemma maxw_lit_i [simp]: "maxw (lit_i s) = Some (length s)"
  by (induction s) (auto simp: lit_i_def)

lemma ms_lit_append:
  "ms (lit l) (p, l @ s, gs) = [(if l = [] then p else Some (last l), s, gs)]"
  by (induction l arbitrary: p) (auto simp: lit_def)

lemma ms_lit_cases:
  "ms (lit l) (p, s, gs) =
     (if startswith s l then [(if l = [] then p else Some (last l), drop (length l) s, gs)] else [])"
proof (cases "startswith s l")
  case True
  then obtain t where "s = l @ t" by (auto simp: startswith_iff)
  then show ?thesis by (simp add: ms_lit_append)
next
  case False
  then have "ms (lit l) (p, s, gs) = []"
  proof (induction l arbitrary: p s)
    case (Cons a l)
    then show ?case
      by (cases s) (auto simp: lit_def startswith_def)
  qed simp
  with False show ?thesis by simp
qed

text \<open>A pattern without groups captures nothing; a group captures the text it matched.\<close>

fun nogrp :: "re \<Rightarrow> bool" where
  "nogrp (Seq a b) \<longleftrightarrow> nogrp a \<and> nogrp b"
| "nogrp (Alt a b) \<longleftrightarrow> nogrp a \<and> nogrp b"
| "nogrp (Grp r) \<longleftrightarrow> False"
| "nogrp _ \<longleftrightarrow> True"

lemma ms_SeqE:
  assumes "(p', s', gs') \<in> set (ms (Seq a b) c)"
  obtains q t hs where "(q, t, hs) \<in> set (ms a c)" "(p', s', gs') \<in> set (ms b (q, t, hs))"
  using assms by auto

lemma nogrp_groups: "nogrp r \<Longrightarrow> (p', s', gs') \<in> set (ms r (p, s, gs)) \<Longrightarrow> gs' = gs"
proof (induction r arbitrary: p s gs p' s' gs')
  case (Seq a b)
  from Seq.prems(2) obtain q t hs where
    "(q, t, hs) \<in> set (ms a (p, s, gs))" "(p', s', gs') \<in> set (ms b (q, t, hs))" by (rule ms_SeqE)
  with Seq.IH Seq.prems(1) show ?case by (metis nogrp.simps(1))
next
  case (Alt a b)
  then show ?case by (metis Un_iff ms.simps(4) nogrp.simps(2) set_append)
qed (auto simp: advance_def split: list.splits option.splits if_splits simp del: upt_Suc)

lemma nogrp_lit [simp]: "nogrp (lit s)"
  by (induction s) (auto simp: lit_def)

lemma grp_groups:
  assumes "nogrp r" and "(p', s', gs') \<in> set (ms (Grp r) (p, s, gs))"
  shows "gs' = gs @ [take (length s - length s') s] \<and> (p', s', gs) \<in> set (ms r (p, s, gs))"
  using assms nogrp_groups[OF assms(1)] by fastforce

text \<open>\<open>re.match\<close> with an identifier pattern \<open>^[first][rest]{0,n}$\<close>.\<close>

definition ident_re :: "(char \<Rightarrow> bool) \<Rightarrow> (char \<Rightarrow> bool) \<Rightarrow> nat option \<Rightarrow> re" where
  "ident_re f g n = Seq (Cls f) (Seq (Rep g 0 n) Dollar)"

lemma concat_map_rev_upt_ne:
  "concat (map F (rev [0..<Suc k])) \<noteq> [] \<longleftrightarrow> (\<exists>j \<le> k. F j \<noteq> [])"
  by (auto simp: less_Suc_eq_le simp del: upt_Suc)

text \<open>The texts an identifier pattern accepts: the identifiers, and those followed by one newline.\<close>

lemma re_match_ident_re:
  assumes "\<not> g (CHR 0x0A)"
  shows "re_match (ident_re f g n) s \<longleftrightarrow>
    (\<exists>x xs. (s = x # xs \<or> s = x # xs @ [CHR 0x0A]) \<and> f x \<and> list_all g xs \<and>
       (\<forall>m. n = Some m \<longrightarrow> length xs \<le> m))"
proof (cases s)
  case Nil
  then show ?thesis by (simp add: re_match_def ident_re_def)
next
  case (Cons y ys)
  let ?k = "length (takeWhile g ys)"
  have L: "re_match (ident_re f g n) s \<longleftrightarrow>
      f y \<and> (\<exists>j \<le> run_len g n ys. drop j ys = [] \<or> drop j ys = [CHR 0x0A])"
    using Cons
    by (simp add: re_match_def ident_re_def advance_def concat_map_rev_upt_ne o_def
        del: upt_Suc concat_eq_Nil_conv) blast
  have D: "list_all g (take j ys)" if "j \<le> run_len g n ys" for j
  proof -
    have "j \<le> ?k" using that by (auto simp: run_len_def Let_def split: option.splits)
    then have "take j ys = take j (takeWhile g ys)"
      by (metis min.absorb1 take_take takeWhile_eq_take)
    then have "set (take j ys) \<subseteq> set (takeWhile g ys)"
      by (metis set_take_subset)
    then show ?thesis by (auto simp: list_all_iff dest: set_takeWhileD)
  qed
  show ?thesis
  proof
    assume "re_match (ident_re f g n) s"
    then obtain j where j: "f y" "j \<le> run_len g n ys" "drop j ys = [] \<or> drop j ys = [CHR 0x0A]"
      using L by auto
    have "\<forall>m. n = Some m \<longrightarrow> j \<le> m" using j(2) by (auto dest: le_trans[OF _ run_len_cap])
    moreover have "ys = take j ys \<or> ys = take j ys @ [CHR 0x0A]"
      using j(3) append_take_drop_id[of j ys] by (auto simp del: append_take_drop_id)
    ultimately show "\<exists>x xs. (s = x # xs \<or> s = x # xs @ [CHR 0x0A]) \<and> f x \<and> list_all g xs \<and>
       (\<forall>m. n = Some m \<longrightarrow> length xs \<le> m)"
      using j D[OF j(2)] Cons by (intro exI[of _ y] exI[of _ "take j ys"]) auto
  next
    assume "\<exists>x xs. (s = x # xs \<or> s = x # xs @ [CHR 0x0A]) \<and> f x \<and> list_all g xs \<and>
       (\<forall>m. n = Some m \<longrightarrow> length xs \<le> m)"
    then obtain xs where xs: "ys = xs \<or> ys = xs @ [CHR 0x0A]" "f y" "list_all g xs"
        "\<forall>m. n = Some m \<longrightarrow> length xs \<le> m"
      using Cons by auto
    have "takeWhile g ys = xs"
      using xs(1,3) assms by (auto simp: list_all_iff takeWhile_append)
    then have "length xs \<le> run_len g n ys"
      using xs(4) by (auto simp: run_len_def Let_def split: option.splits)
    then show "re_match (ident_re f g n) s"
      using L xs by auto
  qed
qed

lemma concat_map_rev_upt_from:
  "concat (map F (rev [m..<Suc k])) \<noteq> [] \<longleftrightarrow> (\<exists>j. m \<le> j \<and> j \<le> k \<and> F j \<noteq> [])"
  by (auto simp: less_Suc_eq_le simp del: upt_Suc)

text \<open>\<open>[g]{m,}$\<close> from some position on.\<close>

lemma ms_rep_dollar:
  assumes "\<not> g (CHR 0x0A)"
  shows "ms (Seq (Rep g m None) Dollar) (p, s, gs) \<noteq> [] \<longleftrightarrow>
    (\<exists>ds. (s = ds \<or> s = ds @ [CHR 0x0A]) \<and> m \<le> length ds \<and> list_all g ds)"
proof -
  let ?k = "length (takeWhile g s)"
  have L: "ms (Seq (Rep g m None) Dollar) (p, s, gs) \<noteq> [] \<longleftrightarrow>
      (\<exists>j. m \<le> j \<and> j \<le> ?k \<and> (drop j s = [] \<or> drop j s = [CHR 0x0A]))"
    by (simp add: run_len_def advance_def concat_map_rev_upt_from o_def
        del: upt_Suc concat_eq_Nil_conv) blast
  show ?thesis unfolding L
  proof
    assume "\<exists>j. m \<le> j \<and> j \<le> ?k \<and> (drop j s = [] \<or> drop j s = [CHR 0x0A])"
    then obtain j where j: "m \<le> j" "j \<le> ?k" "drop j s = [] \<or> drop j s = [CHR 0x0A]" by blast
    have "take j s = take j (takeWhile g s)"
      using j(2) by (metis min.absorb1 take_take takeWhile_eq_take)
    then have "list_all g (take j s)"
      by (auto simp: list_all_iff dest!: in_set_takeD dest: set_takeWhileD)
    moreover have "s = take j s \<or> s = take j s @ [CHR 0x0A]"
      using j(3) append_take_drop_id[of j s] by (auto simp del: append_take_drop_id)
    moreover have "j \<le> length s" using j(2) length_takeWhile_le le_trans by blast
    ultimately show "\<exists>ds. (s = ds \<or> s = ds @ [CHR 0x0A]) \<and> m \<le> length ds \<and> list_all g ds"
      using j(1) by (intro exI[of _ "take j s"]) auto
  next
    assume "\<exists>ds. (s = ds \<or> s = ds @ [CHR 0x0A]) \<and> m \<le> length ds \<and> list_all g ds"
    then obtain ds where ds: "s = ds \<or> s = ds @ [CHR 0x0A]" "m \<le> length ds" "list_all g ds" by blast
    then have "takeWhile g s = ds"
      using assms by (auto simp: list_all_iff takeWhile_append)
    moreover from ds(1) have "drop (length ds) s = [] \<or> drop (length ds) s = [CHR 0x0A]" by auto
    ultimately show "\<exists>j. m \<le> j \<and> j \<le> ?k \<and> (drop j s = [] \<or> drop j s = [CHR 0x0A])"
      using ds(2) by (intro exI[of _ "length ds"]) simp
  qed
qed

end
