(* ===== verification/Models.thy ===== *)
theory Models
  imports PyRegex
begin

text \<open>
  The program's data: the error taxonomy (\<open>errors.py\<close>) and the contracts of \<open>models/\<close>
  (status enums, agents, workflows, plans, events, run results), with the validators the
  contracts declare. An enum is a datatype with its \<open>value\<close> texts; a pydantic model is a
  record, and what its fields and validators demand is a predicate on the record. The texts a
  pydantic \<open>pattern\<close> accepts end at the last character; a pattern checked with \<open>re.match\<close>
  also accepts one final newline, as \<open>$\<close> does in Python.
\<close>

section \<open>Errors (errors.py)\<close>

datatype error_class =
    ZiggyError | AgentLaunchError | ProtocolError | CapabilityError | PermissionDeniedError
  | StepTimeoutError | ResourceLimitError | ValidationError | ConfigError | TrustPolicyError
  | OrchestratorPlanInvalid | ServerBusyError | WorkspaceBusyError | PersistenceError
  | CancelledError | AbandonedError | EgressNotAcknowledgedError

fun error_code :: "error_class \<Rightarrow> string" where
  "error_code ZiggyError = ''ZiggyError''"
| "error_code AgentLaunchError = ''AgentLaunchError''"
| "error_code ProtocolError = ''ProtocolError''"
| "error_code CapabilityError = ''CapabilityError''"
| "error_code PermissionDeniedError = ''PermissionDeniedError''"
| "error_code StepTimeoutError = ''StepTimeoutError''"
| "error_code ResourceLimitError = ''ResourceLimitError''"
| "error_code ValidationError = ''ValidationError''"
| "error_code ConfigError = ''ConfigError''"
| "error_code TrustPolicyError = ''TrustPolicyError''"
| "error_code OrchestratorPlanInvalid = ''OrchestratorPlanInvalid''"
| "error_code ServerBusyError = ''ServerBusyError''"
| "error_code WorkspaceBusyError = ''WorkspaceBusyError''"
| "error_code PersistenceError = ''PersistenceError''"
| "error_code CancelledError = ''CancelledError''"
| "error_code AbandonedError = ''AbandonedError''"
| "error_code EgressNotAcknowledgedError = ''TrustPolicyError''"

text \<open>The class attribute \<open>exit_code\<close>: 1 unless a class overrides it.\<close>

fun error_exit_code :: "error_class \<Rightarrow> int" where
  "error_exit_code ValidationError = 2"
| "error_exit_code ConfigError = 2"
| "error_exit_code TrustPolicyError = 2"
| "error_exit_code EgressNotAcknowledgedError = 2"
| "error_exit_code CancelledError = 130"
| "error_exit_code _ = 1"

text \<open>\<open>ERROR_CLASSES\<close>: code to class.\<close>

definition ERROR_CLASSES :: "(string \<times> error_class) list" where
  "ERROR_CLASSES = map (\<lambda>c. (error_code c, c))
     [AgentLaunchError, ProtocolError, CapabilityError, PermissionDeniedError, StepTimeoutError,
      ResourceLimitError, ValidationError, ConfigError, TrustPolicyError, OrchestratorPlanInvalid,
      ServerBusyError, WorkspaceBusyError, PersistenceError, CancelledError, AbandonedError]"

record zerror =
  err_class :: error_class
  message :: string
  details :: "(string \<times> pyval) list"

record typed_error =
  te_code :: string
  te_message :: string
  te_details :: "(string \<times> pyval) list"

definition to_model :: "zerror \<Rightarrow> typed_error" where
  "to_model e = \<lparr>te_code = error_code (err_class e), te_message = message e, te_details = details e\<rparr>"

definition validation_error :: "string \<Rightarrow> zerror" where
  "validation_error m = \<lparr>err_class = ValidationError, message = m, details = []\<rparr>"

text \<open>Raising one error for all collected problems, or none.\<close>

definition raise_problems :: "string list \<Rightarrow> zerror + unit" where
  "raise_problems ps =
     (if ps = [] then Inr () else Inl (validation_error (join ''; '' ps)))"

lemma raise_problems_Inr [res_simps]: "raise_problems ps = Inr u \<longleftrightarrow> ps = []"
  by (simp add: raise_problems_def)

section \<open>Enums (models/common.py)\<close>

datatype run_kind = KAgent | KWorkflow | KOrchestrator
datatype run_status = RunSuccess | RunFailed | RunPartial | RunCancelled | RunAbandoned
datatype step_status = Success | Failed | Blocked | Skipped | Cancelled | Abandoned
datatype capture_status = Complete | Partial | Derived | Unavailable
datatype capture_profile = Metadata | Standard | Debug
datatype enforcement_scope = AcpMediated | AgentReported | OsEnforced
datatype permission_decision_kind = Approved | Denied
datatype config_source = SrcDefault | SrcUser | SrcEnv | SrcProject
datatype project_action = ActNone | ActApplied | ActTightened | ActIgnored | ActRejected

fun step_status_value :: "step_status \<Rightarrow> string" where
  "step_status_value Success = ''success''"
| "step_status_value Failed = ''failed''"
| "step_status_value Blocked = ''blocked''"
| "step_status_value Skipped = ''skipped''"
| "step_status_value Cancelled = ''cancelled''"
| "step_status_value Abandoned = ''abandoned''"

fun run_status_value :: "run_status \<Rightarrow> string" where
  "run_status_value RunSuccess = ''success''"
| "run_status_value RunFailed = ''failed''"
| "run_status_value RunPartial = ''partial''"
| "run_status_value RunCancelled = ''cancelled''"
| "run_status_value RunAbandoned = ''abandoned''"

fun capture_status_value :: "capture_status \<Rightarrow> string" where
  "capture_status_value Complete = ''complete''"
| "capture_status_value Partial = ''partial''"
| "capture_status_value Derived = ''derived''"
| "capture_status_value Unavailable = ''unavailable''"

fun profile_value :: "capture_profile \<Rightarrow> string" where
  "profile_value Metadata = ''metadata''"
| "profile_value Standard = ''standard''"
| "profile_value Debug = ''debug''"

text \<open>\<open>CaptureProfile(value)\<close>; \<open>None\<close> is the ValueError.\<close>

definition profile_of :: "string \<Rightarrow> capture_profile option" where
  "profile_of s = (if s = ''metadata'' then Some Metadata else if s = ''standard'' then Some Standard
     else if s = ''debug'' then Some Debug else None)"

lemma profile_of_value [simp]: "profile_of (profile_value p) = Some p"
  by (cases p) (simp_all add: profile_of_def)

fun profile_rank :: "capture_profile \<Rightarrow> nat" where
  "profile_rank Metadata = 0"
| "profile_rank Standard = 1"
| "profile_rank Debug = 2"

text \<open>Profiles are ordered by \<open>rank()\<close>.\<close>

instantiation capture_profile :: linorder
begin

definition less_eq_capture_profile :: "capture_profile \<Rightarrow> capture_profile \<Rightarrow> bool" where
  "less_eq_capture_profile a b \<longleftrightarrow> profile_rank a \<le> profile_rank b"

definition less_capture_profile :: "capture_profile \<Rightarrow> capture_profile \<Rightarrow> bool" where
  "less_capture_profile a b \<longleftrightarrow> profile_rank a < profile_rank b"

instance
proof
  fix a b :: capture_profile
  show "a \<le> b \<Longrightarrow> b \<le> a \<Longrightarrow> a = b"
    by (cases a; cases b) (auto simp: less_eq_capture_profile_def)
qed (auto simp: less_eq_capture_profile_def less_capture_profile_def)

end

definition STEP_OK :: "step_status set" where "STEP_OK = {Success}"
definition STEP_NEVER_RAN :: "step_status set" where "STEP_NEVER_RAN = {Blocked, Skipped}"

section \<open>Agents (models/agent.py)\<close>

record agent_config =
  ag_name :: string
  ag_builtin :: bool
  ag_command :: string
  ag_args :: "string list"
  ag_env :: "(string \<times> string) list"
  ag_inherit_env :: "string list"
  ag_working_dir :: "string option"
  ag_api_key_env :: "string option"
  ag_provider :: "string option"
  ag_permission_policy :: "string option"
  ag_orchestration_eligible :: bool
  ag_direct_tools_assumed :: bool

record workspace_lease =
  wl_hash :: string
  wl_workspace :: string
  wl_run_id :: string
  wl_owner_pid :: int
  wl_owner_process_start :: string
  wl_owner_process_group :: int
  wl_acquired_at :: string

text \<open>\<open>^[a-zA-Z][a-zA-Z0-9_-]{0,63}$\<close>: as a pydantic pattern, and with \<open>re.match\<close>.\<close>

definition is_ident_char :: "char \<Rightarrow> bool" where
  "is_ident_char c \<longleftrightarrow> is_word c \<or> c = CHR ''-''"

fun pattern_ident :: "string \<Rightarrow> bool" where
  "pattern_ident [] \<longleftrightarrow> False"
| "pattern_ident (x # xs) \<longleftrightarrow> is_alpha x \<and> list_all is_ident_char xs \<and> length xs \<le> 63"

definition STEP_ID_PATTERN :: re where
  "STEP_ID_PATTERN = ident_re is_alpha is_ident_char (Some 63)"

definition VAR_NAME_PATTERN :: re where
  "VAR_NAME_PATTERN = ident_re is_alpha is_word (Some 63)"

section \<open>Workflows (models/workflow.py)\<close>

datatype var_type = TString | TInteger | TBoolean | TJson

fun var_type_value :: "var_type \<Rightarrow> string" where
  "var_type_value TString = ''string''"
| "var_type_value TInteger = ''integer''"
| "var_type_value TBoolean = ''boolean''"
| "var_type_value TJson = ''json''"

text \<open>A default of \<open>None\<close> (also an explicit null) is \<open>PNone\<close>.\<close>

record variable_def =
  v_type :: var_type
  v_required :: bool
  v_default :: pyval
  v_secret :: bool
  v_max_bytes :: int
  v_description :: "string option"

record step_def =
  s_agent :: string
  s_prompt :: string
  s_inputs :: "(string \<times> string) list"
  s_depends_on :: "string list"
  s_working_dir :: "string option"
  s_timeout_seconds :: "int option"
  s_policy_profile :: "string option"

record workflow_def =
  w_name :: string
  w_description :: "string option"
  w_variables :: "(string \<times> variable_def) list"
  w_steps :: "(string \<times> step_def) list"

definition variable_def_ok :: "variable_def \<Rightarrow> bool" where
  "variable_def_ok d \<longleftrightarrow> 1 \<le> v_max_bytes d \<and> \<not> (v_required d \<and> v_default d \<noteq> PNone)"

definition step_source :: "string \<Rightarrow> bool" where
  "step_source s \<longleftrightarrow> (let ps = split_on (CHR ''.'') s in
     length ps = 4 \<and> ps ! 0 = ''steps'' \<and> ps ! 2 = ''outputs'')"

definition var_source :: "string \<Rightarrow> bool" where
  "var_source s \<longleftrightarrow> (let ps = split_on (CHR ''.'') s in length ps = 2 \<and> ps ! 0 = ''vars'')"

text \<open>\<open>StepDef._input_source_shape\<close>: the message of the first malformed source, if any.\<close>

fun input_source_shape :: "(string \<times> string) list \<Rightarrow> string option" where
  "input_source_shape [] = None"
| "input_source_shape ((name, source) # ins) =
     (if var_source source then input_source_shape ins
      else if step_source source then input_source_shape ins
      else Some (''input '' @ py_repr name @ '': source must be 'vars.<name>' or 'steps.<id>.outputs.<name>', got ''
                 @ py_repr source))"

definition step_def_ok :: "step_def \<Rightarrow> bool" where
  "step_def_ok s \<longleftrightarrow> s_prompt s \<noteq> [] \<and> input_source_shape (s_inputs s) = None
     \<and> distinct (keys (s_inputs s))
     \<and> (case s_timeout_seconds s of None \<Rightarrow> True | Some t \<Rightarrow> 1 \<le> t)"

definition workflow_def_ok :: "workflow_def \<Rightarrow> bool" where
  "workflow_def_ok w \<longleftrightarrow> pattern_ident (w_name w) \<and> w_steps w \<noteq> []
     \<and> distinct (keys (w_steps w)) \<and> distinct (keys (w_variables w))
     \<and> list_all (re_match VAR_NAME_PATTERN) (keys (w_variables w))
     \<and> list_all (re_match STEP_ID_PATTERN) (keys (w_steps w))
     \<and> list_all (variable_def_ok o snd) (w_variables w)
     \<and> list_all (step_def_ok o snd) (w_steps w)"

section \<open>Plans (models/plan.py)\<close>

definition MAX_RATIONALE_CHARS :: nat where "MAX_RATIONALE_CHARS = 2000"

record single_agent_plan =
  sp_rationale :: string
  sp_agent :: string
  sp_prompt :: string

record named_workflow_plan =
  np_rationale :: string
  np_workflow_name :: string
  np_variables :: "(string \<times> pyval) list"

record inline_step =
  i_id :: string
  i_agent :: string
  i_prompt :: string
  i_inputs :: "(string \<times> string) list"
  i_depends_on :: "string list"

record inline_plan =
  ip_rationale :: string
  ip_steps :: "inline_step list"

datatype plan =
    SingleAgentPlan single_agent_plan
  | NamedWorkflowPlan named_workflow_plan
  | InlineAgentWorkflowPlan inline_plan

text \<open>\<open>InlineStep._input_sources_shape\<close>.\<close>

fun inline_source_shape :: "(string \<times> string) list \<Rightarrow> bool" where
  "inline_source_shape [] \<longleftrightarrow> True"
| "inline_source_shape ((name, source) # ins) \<longleftrightarrow>
     (source = ''goal'' \<or> step_source source) \<and> inline_source_shape ins"

definition inline_step_ok :: "inline_step \<Rightarrow> bool" where
  "inline_step_ok s \<longleftrightarrow> pattern_ident (i_id s) \<and> inline_source_shape (i_inputs s)
     \<and> distinct (keys (i_inputs s))"

fun plan_ok :: "plan \<Rightarrow> bool" where
  "plan_ok (SingleAgentPlan p) \<longleftrightarrow> length (sp_rationale p) \<le> MAX_RATIONALE_CHARS"
| "plan_ok (NamedWorkflowPlan p) \<longleftrightarrow> length (np_rationale p) \<le> MAX_RATIONALE_CHARS
     \<and> distinct (keys (np_variables p))"
| "plan_ok (InlineAgentWorkflowPlan p) \<longleftrightarrow> length (ip_rationale p) \<le> MAX_RATIONALE_CHARS
     \<and> ip_steps p \<noteq> [] \<and> list_all inline_step_ok (ip_steps p)"

record plan_validation =
  pv_attempt_count :: int
  pv_repair_requested :: bool
  pv_errors :: "string list"
  pv_valid :: bool

definition plan_validation_ok :: "plan_validation \<Rightarrow> bool" where
  "plan_validation_ok v \<longleftrightarrow> 1 \<le> pv_attempt_count v \<and> pv_attempt_count v \<le> 2"

section \<open>Events (models/events.py)\<close>

record redaction_mark =
  rm_applied :: bool
  rm_counts :: "(string \<times> nat) list"

record event_envelope =
  ev_seq :: nat
  ev_ts :: string
  ev_offset_ms :: int
  ev_run_id :: string
  ev_step_id :: "string option"
  ev_attempt_no :: "int option"
  ev_session_id :: "string option"
  ev_type :: string
  ev_payload :: "(string \<times> pyval) list"
  ev_ref :: "string option"
  ev_capture_status :: capture_status
  ev_redaction :: redaction_mark

record tool_call_record =
  tc_id :: string
  tc_kind :: "string option"
  tc_title :: "string option"
  tc_status :: "string option"
  tc_locations :: "string list"
  tc_capture_status :: capture_status
  tc_payload_ref :: "string option"

record file_change =
  fc_path :: string
  fc_change_type :: string
  fc_capture_method :: string
  fc_attribution :: string
  fc_patch_ref :: "string option"
  fc_binary :: bool
  fc_capture_status :: capture_status

record permission_decision =
  pd_request_summary :: string
  pd_options_offered :: "string list"
  pd_decision :: permission_decision_kind
  pd_rule_id :: string
  pd_policy_name :: string
  pd_policy_source :: string
  pd_enforcement_scope :: enforcement_scope
  pd_ts :: string
  pd_client_response :: "string option"

record capture_summary_entry =
  cse_status :: capture_status
  cse_source :: string
  cse_event_count :: nat
  cse_byte_count :: nat
  cse_truncated :: bool
  cse_path :: "string option"

record redaction_summary =
  rs_total :: nat
  rs_by_kind :: "(string \<times> nat) list"
  rs_warnings :: "string list"

section \<open>Run results (models/result.py)\<close>

record agent_info =
  ai_name :: string
  ai_provider :: "string option"
  ai_protocol_version :: "int option"
  ai_agent_name :: "string option"
  ai_agent_title :: "string option"
  ai_agent_version :: "string option"
  ai_capabilities :: "(string \<times> pyval) list"
  ai_auth_methods :: "pyval list"
  ai_direct_tools_assumed :: bool
  ai_mediation :: string

record attempt =
  at_no :: int
  at_status :: step_status
  at_started_at :: string
  at_ended_at :: "string option"
  at_duration_ms :: "int option"
  at_stop_reason :: "string option"
  at_exit_code :: "int option"
  at_errors :: "typed_error list"

record step_result =
  sr_step_id :: string
  sr_agent :: "string option"
  sr_agent_info :: "agent_info option"
  sr_status :: step_status
  sr_inputs_resolved :: "(string \<times> pyval) list"
  sr_input_sources :: "(string \<times> string) list"
  sr_attempts :: "attempt list"
  sr_outputs :: "(string \<times> pyval) list"
  sr_tool_calls :: "tool_call_record list"
  sr_file_changes :: "file_change list"
  sr_permission_decisions :: "permission_decision list"
  sr_errors :: "typed_error list"

record egress_record =
  er_step_id :: string
  er_provider :: string
  er_input_sources :: "string list"
  er_acknowledged_by :: "string option"

record usage_summary =
  us_provider :: "string option"
  us_units :: "string option"
  us_input_tokens :: "int option"
  us_output_tokens :: "int option"
  us_cost :: "string option"
  us_currency :: "string option"
  us_capture_status :: string
  us_ceiling_enforceable :: bool

record policy_provenance =
  pp_policy_name :: string
  pp_ceiling_source :: string
  pp_rules :: "(string \<times> pyval) list list"
  pp_tightened_by :: "string list"
  pp_enforcement :: string
  pp_enforcement_scope_default :: enforcement_scope

record run_result =
  rr_run_id :: string
  rr_kind :: run_kind
  rr_target :: string
  rr_status :: run_status
  rr_started_at :: string
  rr_ended_at :: "string option"
  rr_duration_ms :: "int option"
  rr_workspace :: string
  rr_capture_profile :: capture_profile
  rr_persisted :: bool
  rr_config_fingerprint :: "string option"
  rr_policy :: "policy_provenance option"
  rr_steps :: "(string \<times> step_result) list"
  rr_plan :: "plan option"
  rr_plan_validation :: "plan_validation option"
  rr_errors :: "typed_error list"
  rr_capture :: "(string \<times> capture_summary_entry) list"
  rr_redaction :: redaction_summary
  rr_egress :: "egress_record list"
  rr_usage :: "usage_summary option"
  rr_result_path :: "string option"
  rr_events_path :: "string option"

text \<open>\<open>RunResult._check_contract\<close>.\<close>

definition run_result_ok :: "run_result \<Rightarrow> bool" where
  "run_result_ok r \<longleftrightarrow> rr_steps r \<noteq> []
     \<and> (rr_kind r = KOrchestrator \<longrightarrow> rr_plan_validation r \<noteq> None)"

section \<open>Facts about the contracts\<close>

lemma ident_char_not_newline [simp]: "\<not> is_ident_char (CHR 0x0A)" "\<not> is_word (CHR 0x0A)"
  by (simp_all add: is_ident_char_def is_word_def is_alnum_def is_alpha_def in_range_def)

text \<open>What \<open>re.match\<close> accepts is what the same pydantic pattern accepts, or that and a newline.\<close>

lemma re_match_STEP_ID_PATTERN:
  "re_match STEP_ID_PATTERN s \<longleftrightarrow> pattern_ident s \<or> (\<exists>t. s = t @ [CHR 0x0A] \<and> pattern_ident t)"
proof -
  have "re_match STEP_ID_PATTERN s \<longleftrightarrow>
      (\<exists>x xs. (s = x # xs \<or> s = x # xs @ [CHR 0x0A]) \<and> pattern_ident (x # xs))"
    by (simp add: STEP_ID_PATTERN_def re_match_ident_re conj_ac)
  also have "\<dots> \<longleftrightarrow> pattern_ident s \<or> (\<exists>t. s = t @ [CHR 0x0A] \<and> pattern_ident t)"
    by (metis append_Cons pattern_ident.elims(2))
  finally show ?thesis .
qed

lemma ERROR_CLASSES_code: "map_of ERROR_CLASSES k = Some c \<Longrightarrow> error_code c = k"
  by (drule map_of_SomeD) (auto simp: ERROR_CLASSES_def)

end
