(* ===== verification/Scheduler.thy ===== *)
theory Scheduler
  imports Models
begin

text \<open>
  \<open>workflows/scheduler.py\<close>: dependency edges, the stable topological order (Kahn with the
  declaration order as tie-break), the cycle report, failure propagation and the workflow
  deadline. The lemmas show that an order is a permutation of the declared steps that respects
  every edge and always takes the earliest ready step, that ordering fails exactly on a cyclic
  graph and then names exactly the steps on a cycle, and that a failure blocks exactly the
  transitive dependents of the failed step.
\<close>

section \<open>Edges\<close>

definition input_source_step :: "string \<Rightarrow> string option" where
  "input_source_step source = (let parts = split_on (CHR ''.'') source in
     if length parts = 4 \<and> parts ! 0 = ''steps'' \<and> parts ! 2 = ''outputs''
     then Some (parts ! 1) else None)"

text \<open>
  The loop state: the problems so far and the step's dependencies so far. The code's \<open>seen\<close>
  set always holds the members of \<open>deps\<close>.
\<close>

type_synonym edge_state = "string list \<times> string list"

definition add_ref :: "string list \<Rightarrow> string \<Rightarrow> string \<Rightarrow> string \<Rightarrow> string \<Rightarrow> edge_state \<Rightarrow> edge_state" where
  "add_ref ids step_id path self_msg ref st = (case st of (problems, deps) \<Rightarrow>
     if ref \<notin> set ids then (problems @ [path @ '': references unknown step '' @ py_repr ref], deps)
     else if ref = step_id then (problems @ [path @ self_msg], deps)
     else if ref \<in> set deps then (problems, deps)
     else (problems, deps @ [ref]))"

fun add_depends :: "string list \<Rightarrow> string \<Rightarrow> string list \<Rightarrow> edge_state \<Rightarrow> edge_state" where
  "add_depends ids step_id [] st = st"
| "add_depends ids step_id (ref # refs) st =
     add_depends ids step_id refs
       (add_ref ids step_id (''steps.'' @ step_id @ ''.depends_on'') '': step depends on itself'' ref st)"

fun add_inputs :: "string list \<Rightarrow> string \<Rightarrow> (string \<times> string) list \<Rightarrow> edge_state \<Rightarrow> edge_state" where
  "add_inputs ids step_id [] st = st"
| "add_inputs ids step_id ((name, source) # ins) st =
     (case input_source_step source of
        None \<Rightarrow> add_inputs ids step_id ins st
      | Some src \<Rightarrow> add_inputs ids step_id ins
          (add_ref ids step_id (''steps.'' @ step_id @ ''.inputs.'' @ name)
             '': step cannot consume its own output'' src st))"

fun collect_edges ::
  "string list \<Rightarrow> (string \<times> step_def) list \<Rightarrow> string list \<Rightarrow> string list \<times> (string \<times> string list) list" where
  "collect_edges ids [] problems = (problems, [])"
| "collect_edges ids ((step_id, step) # rest) problems =
     (case add_inputs ids step_id (s_inputs step)
             (add_depends ids step_id (s_depends_on step) (problems, [])) of
        (problems', deps) \<Rightarrow>
          (case collect_edges ids rest problems' of (ps, edges) \<Rightarrow> (ps, (step_id, deps) # edges)))"

definition step_edges :: "workflow_def \<Rightarrow> zerror + (string \<times> string list) list" where
  "step_edges w = (case collect_edges (keys (w_steps w)) (w_steps w) [] of (problems, edges) \<Rightarrow>
     bindE (raise_problems problems) (\<lambda>_. Inr edges))"

section \<open>Cycles\<close>

abbreviation edge_of :: "('k \<times> 'k list) list \<Rightarrow> 'k \<Rightarrow> 'k list" where
  "edge_of edges k \<equiv> get_or [] edges k"

text \<open>
  The depth-first search of \<open>reaches\<close>. The Python list \<open>stack\<close> grows at its end; here its
  top is the head, so \<open>stack.extend\<close> puts the reversed dependencies in front.
\<close>

function search :: "('k \<times> 'k list) list \<Rightarrow> 'k list \<Rightarrow> 'k \<Rightarrow> 'k list \<Rightarrow> 'k list \<Rightarrow> bool" where
  "search edges remaining start [] visited = False"
| "search edges remaining start (node # stack) visited =
     (if node = start then True
      else if node \<in> set visited then search edges remaining start stack visited
      else search edges remaining start
             (rev (filter (\<lambda>d. d \<in> set remaining) (edge_of edges node)) @ stack) (node # visited))"
  by pat_completeness auto

termination
proof (relation "measures [\<lambda>(edges, remaining, start, stack, visited).
            card ((set remaining \<union> set stack) - set visited),
          \<lambda>(edges, remaining, start, stack, visited). length stack]", goal_cases)
  case 1
  then show ?case by simp
next
  case (2 edges remaining start node stack visited)
  have "card (set remaining \<union> set stack - set visited)
          \<le> card (set remaining \<union> set (node # stack) - set visited)"
    by (rule card_mono) auto
  then show ?case by (auto simp: le_less)
next
  case (3 edges remaining start node stack visited)
  let ?new = "rev (filter (\<lambda>d. d \<in> set remaining) (edge_of edges node)) @ stack"
  have "set remaining \<union> set ?new - set (node # visited)
          \<subset> set remaining \<union> set (node # stack) - set visited"
    using 3 by auto
  then have "card (set remaining \<union> set ?new - set (node # visited))
          < card (set remaining \<union> set (node # stack) - set visited)"
    by (intro psubset_card_mono) auto
  then show ?case by simp
qed

definition reaches_self :: "('k \<times> 'k list) list \<Rightarrow> 'k list \<Rightarrow> 'k \<Rightarrow> bool" where
  "reaches_self edges remaining start =
     search edges remaining start
       (rev (filter (\<lambda>d. d \<in> set remaining) (edge_of edges start))) []"

definition cycle_members :: "('k \<times> 'k list) list \<Rightarrow> 'k list \<Rightarrow> 'k list" where
  "cycle_members edges remaining =
     (let members = filter (reaches_self edges remaining) remaining
      in if members = [] then remaining else members)"

section \<open>The order\<close>

definition ready :: "('k \<times> 'k list) list \<Rightarrow> 'k list \<Rightarrow> 'k \<Rightarrow> bool" where
  "ready edges scheduled s \<longleftrightarrow>
     s \<notin> set scheduled \<and> list_all (\<lambda>d. d \<in> set scheduled) (edge_of edges s)"

definition cycle_error :: "string list \<Rightarrow> zerror" where
  "cycle_error members =
     \<lparr>err_class = ValidationError,
      message = ''steps: dependency cycle detected among steps: '' @ join '', '' members,
      details = [(''cycle'', PList (map PStr members))]\<rparr>"

text \<open>The scheduled set of the code always holds the members of \<open>order\<close>.\<close>

function topo_loop ::
  "(string \<times> string list) list \<Rightarrow> string list \<Rightarrow> string list \<Rightarrow> zerror + string list" where
  "topo_loop edges declaration order =
     (if length order < length declaration then
        (case find (ready edges order) declaration of
           None \<Rightarrow> Inl (cycle_error
             (cycle_members edges (filter (\<lambda>s. s \<notin> set order) declaration)))
         | Some s \<Rightarrow> topo_loop edges declaration (order @ [s]))
      else Inr order)"
  by pat_completeness auto
termination
  by (relation "measure (\<lambda>(edges, declaration, order). length declaration - length order)") auto

declare topo_loop.simps [simp del]

definition topo_order :: "workflow_def \<Rightarrow> zerror + string list" where
  "topo_order w = bindE (step_edges w) (\<lambda>edges. topo_loop edges (keys (w_steps w)) [])"

section \<open>Failure propagation\<close>

fun poison :: "('k \<times> 'k list) list \<Rightarrow> 'k set \<Rightarrow> 'k list \<Rightarrow> ('k \<times> step_status) list" where
  "poison edges poisoned [] = []"
| "poison edges poisoned (s # rest) =
     (if list_ex (\<lambda>d. d \<in> poisoned) (edge_of edges s)
      then (s, Blocked) # poison edges (insert s poisoned) rest
      else (s, Skipped) # poison edges poisoned rest)"

text \<open>\<open>None\<close> is the ValueError for a step that is not in the order.\<close>

definition propagate_failure ::
  "'k list \<Rightarrow> ('k \<times> 'k list) list \<Rightarrow> 'k \<Rightarrow> ('k \<times> step_status) list option" where
  "propagate_failure order edges failed_step =
     (if failed_step \<notin> set order then None
      else Some (poison edges {failed_step} (tl (dropWhile (\<lambda>s. s \<noteq> failed_step) order))))"

section \<open>The deadline\<close>

text \<open>Times are exact numbers; every operation takes the clock's current reading.\<close>

record 'a deadline =
  timeout_seconds :: 'a
  started_at :: 'a

definition new_deadline :: "'a \<Rightarrow> 'a \<Rightarrow> 'a deadline" where
  "new_deadline timeout now = \<lparr>timeout_seconds = timeout, started_at = now\<rparr>"

definition elapsed_seconds :: "'a::linordered_idom deadline \<Rightarrow> 'a \<Rightarrow> 'a" where
  "elapsed_seconds d now = max (now - started_at d) 0"

definition remaining_seconds :: "'a::linordered_idom deadline \<Rightarrow> 'a \<Rightarrow> 'a" where
  "remaining_seconds d now = max (timeout_seconds d - elapsed_seconds d now) 0"

definition exceeded :: "'a::linordered_idom deadline \<Rightarrow> 'a \<Rightarrow> bool" where
  "exceeded d now \<longleftrightarrow> remaining_seconds d now \<le> 0"

definition clamp :: "'a::linordered_idom deadline \<Rightarrow> 'a \<Rightarrow> 'a \<Rightarrow> 'a" where
  "clamp d now step_timeout = min step_timeout (remaining_seconds d now)"

section \<open>Edges are the declared dependencies\<close>

text \<open>What a step depends on: its \<open>depends_on\<close> entries and the producers of its inputs.\<close>

definition declared_deps :: "step_def \<Rightarrow> string set" where
  "declared_deps s = set (s_depends_on s)
     \<union> {src. \<exists>(n, source) \<in> set (s_inputs s). input_source_step source = Some src}"

lemma add_ref_ok:
  assumes "add_ref ids sid p m ref (ps, deps) = ([], deps')"
  shows "ps = [] \<and> ref \<in> set ids \<and> ref \<noteq> sid \<and> set deps' = insert ref (set deps)
    \<and> (distinct deps \<longrightarrow> distinct deps')"
  using assms by (auto simp: add_ref_def split: if_splits)

lemma add_depends_ok:
  "add_depends ids sid refs (ps, deps) = ([], deps') \<Longrightarrow>
     ps = [] \<and> set refs \<subseteq> set ids - {sid} \<and> set deps' = set deps \<union> set refs
     \<and> (distinct deps \<longrightarrow> distinct deps')"
proof (induction refs arbitrary: ps deps)
  case (Cons ref refs)
  obtain qs ds where q: "add_ref ids sid (''steps.'' @ sid @ ''.depends_on'')
      '': step depends on itself'' ref (ps, deps) = (qs, ds)"
    by (cases "add_ref ids sid (''steps.'' @ sid @ ''.depends_on'')
      '': step depends on itself'' ref (ps, deps)")
  from Cons.prems have "add_depends ids sid refs (qs, ds) = ([], deps')"
    by (simp only: add_depends.simps q)
  from Cons.IH[OF this] add_ref_ok[of ids sid _ _ ref ps deps ds] q show ?case by auto
qed simp

lemma add_inputs_ok:
  "add_inputs ids sid ins (ps, deps) = ([], deps') \<Longrightarrow>
     (let new = {src. \<exists>(n, source) \<in> set ins. input_source_step source = Some src} in
       ps = [] \<and> new \<subseteq> set ids - {sid} \<and> set deps' = set deps \<union> new
       \<and> (distinct deps \<longrightarrow> distinct deps'))"
proof (induction ins arbitrary: ps deps)
  case (Cons i ins)
  obtain name source where i: "i = (name, source)" by (cases i)
  show ?case
  proof (cases "input_source_step source")
    case None
    with Cons i show ?thesis by (simp add: Let_def)
  next
    case (Some src)
    define path where "path = ''steps.'' @ sid @ ''.inputs.'' @ name"
    define msg where "msg = '': step cannot consume its own output''"
    obtain qs ds where q: "add_ref ids sid path msg src (ps, deps) = (qs, ds)"
      by (cases "add_ref ids sid path msg src (ps, deps)")
    from Cons.prems i Some q have "add_inputs ids sid ins (qs, ds) = ([], deps')"
      by (simp add: path_def msg_def)
    from Cons.IH[OF this] add_ref_ok[of ids sid path msg src ps deps ds] q i Some
    show ?thesis by (auto simp: Let_def)
  qed
qed simp

lemma collect_edges_ok:
  "collect_edges ids steps ps = ([], edges) \<Longrightarrow>
     ps = [] \<and> keys edges = keys steps
     \<and> list_all2 (\<lambda>(sid, step) (sid', deps). sid' = sid \<and> distinct deps
          \<and> set deps = declared_deps step \<and> set deps \<subseteq> set ids - {sid}) steps edges"
proof (induction steps arbitrary: ps edges)
  case (Cons s rest)
  obtain sid step where s: "s = (sid, step)" by (cases s)
  obtain qs ds where d: "add_depends ids sid (s_depends_on step) (ps, []) = (qs, ds)"
    by (cases "add_depends ids sid (s_depends_on step) (ps, [])")
  obtain ps' deps where i: "add_inputs ids sid (s_inputs step) (qs, ds) = (ps', deps)"
    by (cases "add_inputs ids sid (s_inputs step) (qs, ds)")
  obtain ps'' es where c: "collect_edges ids rest ps' = (ps'', es)"
    by (cases "collect_edges ids rest ps'")
  from Cons.prems s d i c have e: "ps'' = []" "edges = (sid, deps) # es" by auto
  note IH = Cons.IH[of ps' es, unfolded c e(1), OF refl]
  from IH add_inputs_ok[of ids sid "s_inputs step" qs ds deps] i
    add_depends_ok[of ids sid "s_depends_on step" ps "[]" ds] d
  show ?case by (auto simp: e s declared_deps_def Let_def)
qed simp

lemma edge_of_all2:
  assumes "list_all2 (\<lambda>(k, x) (k', y). k' = k \<and> P k x y) xs ys" and "map_of xs k = Some x"
  shows "P k x (edge_of ys k)"
  using assms by (induction rule: list_all2_induct) (auto simp: get_or_def split: if_splits)

lemma step_edges_ok:
  assumes "step_edges w = Inr edges" and "map_of (w_steps w) sid = Some step"
  shows "distinct (edge_of edges sid)" and "set (edge_of edges sid) = declared_deps step"
    and "set (edge_of edges sid) \<subseteq> set (keys (w_steps w)) - {sid}"
proof -
  have "collect_edges (keys (w_steps w)) (w_steps w) [] = ([], edges)"
    using assms(1) by (auto simp: step_edges_def raise_problems_def split: prod.splits if_splits)
  from collect_edges_ok[OF this] have
    "list_all2 (\<lambda>(sid, step) (sid', deps). sid' = sid \<and> (distinct deps
          \<and> set deps = declared_deps step \<and> set deps \<subseteq> set (keys (w_steps w)) - {sid}))
       (w_steps w) edges"
    by (auto elim!: list_all2_mono)
  from edge_of_all2[OF this assms(2)] show "distinct (edge_of edges sid)"
    "set (edge_of edges sid) = declared_deps step"
    "set (edge_of edges sid) \<subseteq> set (keys (w_steps w)) - {sid}"
    by auto
qed

lemma step_edges_known:
  assumes "step_edges w = Inr edges"
  shows "set (edge_of edges sid) \<subseteq> set (keys (w_steps w))"
proof (cases "map_of (w_steps w) sid")
  case None
  have "keys edges = keys (w_steps w)"
    using assms collect_edges_ok
    by (fastforce simp: step_edges_def raise_problems_def split: prod.splits if_splits)
  moreover from None have "sid \<notin> set (keys (w_steps w))" by (simp add: map_of_eq_None_iff)
  ultimately have "map_of edges sid = None" by (metis list.set_map map_of_eq_None_iff)
  then show ?thesis by (simp add: get_or_def)
next
  case (Some step)
  with step_edges_ok(3)[OF assms] show ?thesis by blast
qed

section \<open>The cycle search\<close>

text \<open>The dependency graph, and its restriction to the steps that could not be scheduled.\<close>

definition dep_rel :: "('k \<times> 'k list) list \<Rightarrow> 'k rel" where
  "dep_rel edges = {(a, b). b \<in> set (edge_of edges a)}"

definition dep_rel_on :: "('k \<times> 'k list) list \<Rightarrow> 'k set \<Rightarrow> 'k rel" where
  "dep_rel_on edges R = {(a, b). b \<in> set (edge_of edges a) \<and> b \<in> R}"

lemma search_sound:
  "search edges remaining start stack visited \<Longrightarrow>
     \<exists>n \<in> set stack. (n, start) \<in> (dep_rel_on edges (set remaining))\<^sup>*"
proof (induction edges remaining start stack visited rule: search.induct)
  case (2 edges remaining start node stack visited)
  show ?case
  proof (cases "node = start \<or> node \<in> set visited")
    case True
    with 2 show ?thesis by (auto split: if_splits)
  next
    case False
    with 2 obtain n where n: "n \<in> set (rev (filter (\<lambda>d. d \<in> set remaining) (edge_of edges node)) @ stack)"
        "(n, start) \<in> (dep_rel_on edges (set remaining))\<^sup>*"
      by auto
    show ?thesis
    proof (cases "n \<in> set stack")
      case True
      with n show ?thesis by auto
    next
      case False
      with n(1) have "(node, n) \<in> dep_rel_on edges (set remaining)"
        by (auto simp: dep_rel_on_def)
      with n(2) show ?thesis by (auto intro: converse_rtrancl_into_rtrancl)
    qed
  qed
qed simp

lemma search_complete:
  "\<not> search edges remaining start stack visited \<Longrightarrow>
   \<forall>v \<in> set visited. v \<noteq> start
     \<and> dep_rel_on edges (set remaining) `` {v} \<subseteq> set visited \<union> set stack \<Longrightarrow>
   \<exists>V. set visited \<union> set stack \<subseteq> V \<and> start \<notin> V \<and> dep_rel_on edges (set remaining) `` V \<subseteq> V"
proof (induction edges remaining start stack visited rule: search.induct)
  case (1 edges remaining start visited)
  then show ?case by (intro exI[of _ "set visited"]) fastforce
next
  case (2 edges remaining start node stack visited)
  from "2.prems"(1) have ne: "node \<noteq> start" by auto
  show ?case
  proof (cases "node \<in> set visited")
    case True
    with "2.prems" ne have "\<not> search edges remaining start stack visited" by simp
    moreover have "\<forall>v \<in> set visited. v \<noteq> start
        \<and> dep_rel_on edges (set remaining) `` {v} \<subseteq> set visited \<union> set stack"
      using "2.prems"(2) True by auto
    ultimately obtain V where V: "set visited \<union> set stack \<subseteq> V" "start \<notin> V"
        "dep_rel_on edges (set remaining) `` V \<subseteq> V"
      using "2.IH"(1)[OF ne True] by blast
    from V(1) True have "set visited \<union> set (node # stack) \<subseteq> V" by auto
    with V(2,3) show ?thesis by blast
  next
    case False
    let ?new = "rev (filter (\<lambda>d. d \<in> set remaining) (edge_of edges node)) @ stack"
    from False "2.prems" ne have n: "\<not> search edges remaining start ?new (node # visited)" by simp
    have "dep_rel_on edges (set remaining) `` {node} \<subseteq> set (node # visited) \<union> set ?new"
      by (auto simp: dep_rel_on_def)
    moreover have "\<forall>v \<in> set visited. v \<noteq> start
        \<and> dep_rel_on edges (set remaining) `` {v} \<subseteq> set (node # visited) \<union> set ?new"
      using "2.prems"(2) by auto
    ultimately have "\<forall>v \<in> set (node # visited). v \<noteq> start
        \<and> dep_rel_on edges (set remaining) `` {v} \<subseteq> set (node # visited) \<union> set ?new"
      using ne by simp
    from "2.IH"(2)[OF ne False n this] obtain V where V: "set (node # visited) \<union> set ?new \<subseteq> V"
        "start \<notin> V" "dep_rel_on edges (set remaining) `` V \<subseteq> V"
      by blast
    from V(1) have "set visited \<union> set (node # stack) \<subseteq> V" by auto
    with V(2,3) show ?thesis by blast
  qed
qed

text \<open>A step is reported iff it can reach itself through unscheduled steps.\<close>

lemma reaches_self_iff:
  "reaches_self edges remaining s \<longleftrightarrow> (s, s) \<in> (dep_rel_on edges (set remaining))\<^sup>+"
    (is "_ \<longleftrightarrow> _ \<in> ?E\<^sup>+")
proof
  let ?stack = "rev (filter (\<lambda>d. d \<in> set remaining) (edge_of edges s))"
  have stack: "n \<in> set ?stack \<longleftrightarrow> (s, n) \<in> ?E" for n
    by (auto simp: dep_rel_on_def)
  show "(s, s) \<in> ?E\<^sup>+" if "reaches_self edges remaining s"
    using search_sound that[unfolded reaches_self_def] stack by (meson rtrancl_into_trancl2)
  show "reaches_self edges remaining s" if "(s, s) \<in> ?E\<^sup>+"
  proof (rule ccontr)
    assume "\<not> reaches_self edges remaining s"
    then obtain V where V: "set ?stack \<subseteq> V" "s \<notin> V" "?E `` V \<subseteq> V"
      using search_complete[of edges remaining s ?stack "[]"] by (auto simp: reaches_self_def)
    from that obtain n where n: "(s, n) \<in> ?E" "(n, s) \<in> ?E\<^sup>*" by (meson tranclD)
    have "n \<in> V" using n(1) stack V(1) by blast
    with n(2) V(3) have "s \<in> V" by (induction rule: rtrancl_induct) auto
    with V(2) show False by simp
  qed
qed

text \<open>When every unscheduled step waits for another unscheduled step, some step is on a cycle.\<close>

lemma stalled_has_cycle:
  assumes "remaining \<noteq> []"
    and "\<forall>s \<in> set remaining. \<exists>d \<in> set remaining. d \<in> set (edge_of edges s)"
  shows "\<exists>s \<in> set remaining. reaches_self edges remaining s"
proof (rule ccontr)
  define R where "R = set remaining"
  define E where "E = dep_rel_on edges R \<inter> R \<times> R"
  assume no: "\<not> ?thesis"
  have "(x, x) \<notin> E\<^sup>+" for x
  proof
    assume x: "(x, x) \<in> E\<^sup>+"
    then have "x \<in> R" using tranclD[OF x] by (auto simp: E_def)
    moreover have "E \<subseteq> dep_rel_on edges R" by (auto simp: E_def)
    with x have "(x, x) \<in> (dep_rel_on edges R)\<^sup>+" by (rule trancl_mono)
    ultimately show False using no by (simp add: reaches_self_iff R_def)
  qed
  then have "acyclic E" by (simp add: acyclic_def)
  moreover have "finite E"
    by (rule finite_subset[of _ "R \<times> R"]) (auto simp: E_def R_def)
  ultimately have "wf (E\<inverse>)" by (intro finite_acyclic_wf_converse)
  moreover have "R \<noteq> {}" using assms(1) by (simp add: R_def)
  ultimately obtain x where x: "x \<in> R" "\<And>y. (y, x) \<in> E\<inverse> \<Longrightarrow> y \<notin> R"
    by (rule wfE_min') (rule that)
  from assms(2) x(1) obtain d where "d \<in> R" "d \<in> set (edge_of edges x)"
    by (auto simp: R_def)
  with x(1) have "(d, x) \<in> E\<inverse>" by (auto simp: E_def dep_rel_on_def)
  with x(2) \<open>d \<in> R\<close> show False by blast
qed

section \<open>The order is a schedule\<close>

lemma dep_on_closed:
  assumes "\<And>a. set (edge_of edges a) \<subseteq> R"
  shows "dep_rel_on edges R = dep_rel edges"
  using assms by (auto simp: dep_rel_def dep_rel_on_def)

text \<open>Every step of a partial order was the earliest ready one when it was taken.\<close>

definition greedy :: "(string \<times> string list) list \<Rightarrow> string list \<Rightarrow> string list \<Rightarrow> bool" where
  "greedy edges declaration order \<longleftrightarrow>
     (\<forall>i < length order. find (ready edges (take i order)) declaration = Some (order ! i))"

lemma greedy_snoc:
  "greedy edges decl order \<Longrightarrow> find (ready edges order) decl = Some s \<Longrightarrow> greedy edges decl (order @ [s])"
  by (auto simp: greedy_def nth_append less_Suc_eq)

lemma topo_loop_greedy:
  "greedy edges decl order \<Longrightarrow> length order \<le> length decl \<Longrightarrow> topo_loop edges decl order = Inr order'
    \<Longrightarrow> greedy edges decl order' \<and> length order' = length decl"
proof (induction edges decl order rule: topo_loop.induct)
  case (1 edges decl order)
  show ?case
  proof (cases "length order < length decl")
    case True
    with "1.prems"(3) obtain s where s: "find (ready edges order) decl = Some s"
        and r: "topo_loop edges decl (order @ [s]) = Inr order'"
      by (subst (asm) topo_loop.simps) (auto split: option.splits)
    show ?thesis
      using "1.IH"[OF True s greedy_snoc[OF "1.prems"(1) s]] True r by simp
  next
    case False
    with "1.prems"(3) have "order' = order" by (simp add: topo_loop.simps[of edges decl order])
    with False "1.prems"(1,2) show ?thesis by simp
  qed
qed

lemma greedyD:
  assumes "greedy edges decl order" and "i < length order"
  shows "order ! i \<in> set decl" and "order ! i \<notin> set (take i order)"
    and "set (edge_of edges (order ! i)) \<subseteq> set (take i order)"
proof -
  have f: "find (ready edges (take i order)) decl = Some (order ! i)"
    using assms by (simp add: greedy_def)
  then have "ready edges (take i order) (order ! i)" "order ! i \<in> set decl"
    by (auto simp: find_Some_iff)
  then show "order ! i \<in> set decl" "order ! i \<notin> set (take i order)"
    "set (edge_of edges (order ! i)) \<subseteq> set (take i order)"
    by (auto simp: ready_def list_all_iff)
qed

lemma greedy_distinct: "greedy edges decl order \<Longrightarrow> distinct order"
proof (induction order rule: rev_induct)
  case (snoc s order)
  have "greedy edges decl order"
    using snoc.prems by (auto simp: greedy_def nth_append split: if_splits)
  with snoc.IH greedyD(2)[OF snoc.prems, of "length order"] show ?case by simp
qed simp

text \<open>A scheduled step only depends on steps before it, so it is on no cycle.\<close>

lemma greedy_deps_before:
  assumes "greedy edges decl order" and "i < length order"
    and "(order ! i, t) \<in> (dep_rel edges)\<^sup>+"
  shows "t \<in> set (take i order)"
  using assms(3)
proof (induction rule: trancl_induct)
  case (base y)
  with greedyD(3)[OF assms(1,2)] show ?case by (auto simp: dep_rel_def)
next
  case (step y z)
  then obtain j where j: "j < i" "j < length order" "y = order ! j"
    by (auto simp: in_set_conv_nth)
  with step.hyps(2) greedyD(3)[OF assms(1) j(2)] have "z \<in> set (take j order)"
    by (auto simp: dep_rel_def)
  moreover have "set (take j order) \<subseteq> set (take i order)"
    using j(1) by (simp add: set_take_subset_set_take)
  ultimately show ?case by blast
qed

lemma greedy_no_cycle:
  assumes "greedy edges decl order" and "s \<in> set order"
  shows "(s, s) \<notin> (dep_rel edges)\<^sup>+"
  using assms greedy_deps_before[OF assms(1)] greedyD(2)[OF assms(1)]
  by (metis in_set_conv_nth)

lemma cycle_restrict:
  assumes "\<And>b. (b, b) \<in> (dep_rel edges)\<^sup>+ \<Longrightarrow> b \<in> R"
  shows "(s, t) \<in> (dep_rel edges)\<^sup>+ \<Longrightarrow> (t, s) \<in> (dep_rel edges)\<^sup>* \<Longrightarrow> (s, t) \<in> (dep_rel_on edges R)\<^sup>+"
proof (induction rule: trancl_induct)
  case (base y)
  then have "(y, y) \<in> (dep_rel edges)\<^sup>+" by (meson rtrancl_into_trancl1)
  with base assms show ?case by (auto simp: dep_rel_def dep_rel_on_def)
next
  case (step y z)
  from step.hyps step.prems have "(z, z) \<in> (dep_rel edges)\<^sup>+"
    by (meson rtrancl_trancl_trancl trancl_into_trancl)
  with step.hyps(2) assms have "(y, z) \<in> dep_rel_on edges R"
    by (auto simp: dep_rel_def dep_rel_on_def)
  moreover have "(y, s) \<in> (dep_rel edges)\<^sup>*"
    using step.hyps(2) step.prems by (rule converse_rtrancl_into_rtrancl)
  ultimately show ?case using step.IH by (meson trancl_into_trancl)
qed

text \<open>The steps a cycle error names: exactly those on a cycle, in declaration order.\<close>

definition on_cycle :: "('k \<times> 'k list) list \<Rightarrow> 'k \<Rightarrow> bool" where
  "on_cycle edges s \<longleftrightarrow> (s, s) \<in> (dep_rel edges)\<^sup>+"

lemma stalled_members:
  assumes g: "greedy edges decl order" and lt: "length order < length decl" and d: "distinct decl"
    and known: "\<And>a. set (edge_of edges a) \<subseteq> set decl"
    and None: "find (ready edges order) decl = None"
  shows "cycle_members edges (filter (\<lambda>s. s \<notin> set order) decl) = filter (on_cycle edges) decl"
    and "filter (on_cycle edges) decl \<noteq> []"
proof -
  define rem where "rem = filter (\<lambda>s. s \<notin> set order) decl"
  have cyc: "s \<in> set rem" if "on_cycle edges s" for s
  proof -
    from that have "\<exists>a. (a, s) \<in> dep_rel edges" by (auto simp: on_cycle_def elim: tranclE)
    with known have "s \<in> set decl" by (auto simp: dep_rel_def)
    moreover have "s \<notin> set order" using greedy_no_cycle[OF g] that by (auto simp: on_cycle_def)
    ultimately show ?thesis by (simp add: rem_def)
  qed
  have E: "reaches_self edges rem s \<longleftrightarrow> on_cycle edges s" for s
  proof
    assume "reaches_self edges rem s"
    moreover have "dep_rel_on edges (set rem) \<subseteq> dep_rel edges"
      by (auto simp: dep_rel_def dep_rel_on_def)
    ultimately show "on_cycle edges s"
      by (auto simp: reaches_self_iff on_cycle_def intro: trancl_mono)
  next
    assume "on_cycle edges s"
    with cycle_restrict[of edges "set rem" s s] cyc show "reaches_self edges rem s"
      by (auto simp: reaches_self_iff on_cycle_def)
  qed
  have "card (set order) < card (set decl)"
    using lt d greedy_distinct[OF g] by (simp add: distinct_card)
  then have "\<not> set decl \<subseteq> set order" by (metis List.finite_set card_mono not_less)
  then have "rem \<noteq> []" by (auto simp: rem_def filter_empty_conv)
  moreover have "\<forall>s \<in> set rem. \<exists>d \<in> set rem. d \<in> set (edge_of edges s)"
    using None known by (fastforce simp: find_None_iff rem_def ready_def list_all_iff)
  ultimately have ne: "filter (reaches_self edges rem) rem \<noteq> []"
    using stalled_has_cycle[of rem edges] by (auto simp: filter_empty_conv)
  have "filter (reaches_self edges rem) rem = filter (on_cycle edges) rem"
    by (rule filter_cong) (simp_all add: E)
  also have "\<dots> = filter (on_cycle edges) decl"
    using cyc by (auto simp: rem_def intro!: filter_cong)
  finally have "filter (reaches_self edges rem) rem = filter (on_cycle edges) decl" .
  with ne show "cycle_members edges (filter (\<lambda>s. s \<notin> set order) decl) = filter (on_cycle edges) decl"
    "filter (on_cycle edges) decl \<noteq> []"
    by (simp_all add: cycle_members_def Let_def flip: rem_def)
qed

lemma topo_loop_error:
  "greedy edges decl order \<Longrightarrow> distinct decl \<Longrightarrow> \<forall>a. set (edge_of edges a) \<subseteq> set decl \<Longrightarrow>
   topo_loop edges decl order = Inl e \<Longrightarrow>
   e = cycle_error (filter (on_cycle edges) decl) \<and> filter (on_cycle edges) decl \<noteq> []"
proof (induction edges decl order rule: topo_loop.induct)
  case (1 edges decl order)
  from "1.prems"(4) have lt: "length order < length decl"
    by (subst (asm) topo_loop.simps) (auto split: if_splits)
  show ?case
  proof (cases "find (ready edges order) decl")
    case (Some s)
    from "1.prems"(4) lt Some have "topo_loop edges decl (order @ [s]) = Inl e"
      by (subst (asm) topo_loop.simps) simp
    with "1.IH"[OF lt Some greedy_snoc[OF "1.prems"(1) Some]] "1.prems"(2,3) show ?thesis
      by blast
  next
    case None
    from "1.prems"(4) lt None have
      "e = cycle_error (cycle_members edges (filter (\<lambda>s. s \<notin> set order) decl))"
      by (subst (asm) topo_loop.simps) simp
    with stalled_members[OF "1.prems"(1) lt "1.prems"(2) _ None] "1.prems"(3) show ?thesis
      by simp
  qed
qed

section \<open>The interface the runner relies on\<close>

text \<open>
  A scheduler turns a work item into an order of its steps. Its contract: an order lists every
  step once, and what a step depends on comes before it.
\<close>

locale scheduling =
  fixes plan :: "'w \<Rightarrow> 'e + 'k list"
    and deps :: "'w \<Rightarrow> 'k \<Rightarrow> 'k list"
    and ids :: "'w \<Rightarrow> 'k list"
    and wf_item :: "'w \<Rightarrow> bool"
  assumes plan_complete: "wf_item w \<Longrightarrow> plan w = Inr order \<Longrightarrow> distinct order \<and> set order = set (ids w)"
    and plan_respects: "wf_item w \<Longrightarrow> plan w = Inr (xs @ s # ys) \<Longrightarrow> set (deps w s) \<subseteq> set xs"
begin

definition depends :: "'w \<Rightarrow> 'k rel" where
  "depends w = {(a, b). b \<in> set (deps w a)}"

lemma depends_before:
  assumes "wf_item w" and "plan w = Inr (xs @ s # ys)" and "(s, t) \<in> (depends w)\<^sup>+"
  shows "t \<in> set xs"
  using assms(3)
proof (induction rule: trancl_induct)
  case (base y)
  with plan_respects[OF assms(1,2)] show ?case by (auto simp: depends_def)
next
  case (step y z)
  then obtain us vs where "xs = us @ y # vs" by (auto simp: in_set_conv_decomp)
  with step.hyps(2) plan_respects[OF assms(1), of us y "vs @ s # ys"] assms(2) show ?case
    by (auto simp: depends_def)
qed

lemma poison_blocks:
  assumes "wf_item w" and "plan w = Inr (before @ rest)"
    and "\<And>s. edge_of edges s = deps w s" and "f \<in> set before"
    and "P = {x \<in> set before. (x, f) \<in> (depends w)\<^sup>*}"
  shows "poison edges P rest =
    map (\<lambda>s. (s, if (s, f) \<in> (depends w)\<^sup>+ then Blocked else Skipped)) rest"
  using assms(2,4,5)
proof (induction rest arbitrary: before P)
  case (Cons s rest)
  have sub: "set (deps w s) \<subseteq> set before"
    using plan_respects[OF assms(1)] Cons.prems(1) by blast
  have "s \<notin> set before"
    using plan_complete[OF assms(1) Cons.prems(1)] by auto
  then have sf: "s \<noteq> f" using Cons.prems(2) by auto
  have "(s, f) \<in> (depends w)\<^sup>+ \<longleftrightarrow> (\<exists>d. (s, d) \<in> depends w \<and> (d, f) \<in> (depends w)\<^sup>*)"
    by (meson rtrancl_into_trancl2 tranclD)
  also have "\<dots> \<longleftrightarrow> (\<exists>d \<in> set (deps w s). (d, f) \<in> (depends w)\<^sup>*)"
    by (auto simp: depends_def)
  finally have hit: "list_ex (\<lambda>d. d \<in> P) (edge_of edges s) \<longleftrightarrow> (s, f) \<in> (depends w)\<^sup>+"
    using sub Cons.prems(3) by (auto simp: list_ex_iff assms(3))
  have P': "(if (s, f) \<in> (depends w)\<^sup>+ then insert s P else P)
      = {x \<in> set (before @ [s]). (x, f) \<in> (depends w)\<^sup>*}"
    using Cons.prems(3) sf by (auto simp: rtrancl_eq_or_trancl)
  from Cons.IH[of "before @ [s]", OF _ _ P'] Cons.prems(1,2) hit show ?case
    by (auto split: if_splits)
qed simp

lemma failure_blocks_dependents:
  assumes "wf_item w" and "plan w = Inr order" and "\<And>s. edge_of edges s = deps w s"
    and "order = before @ f # rest"
  shows "propagate_failure order edges f =
    Some (map (\<lambda>s. (s, if (s, f) \<in> (depends w)\<^sup>+ then Blocked else Skipped)) rest)"
proof -
  have fb: "f \<notin> set before" using plan_complete[OF assms(1,2)] assms(4) by auto
  have "tl (dropWhile (\<lambda>s. s \<noteq> f) order) = rest"
    using fb assms(4) by (simp add: dropWhile_append)
  moreover have "(x, f) \<notin> (depends w)\<^sup>+" if "x \<in> set before" for x
  proof
    assume x: "(x, f) \<in> (depends w)\<^sup>+"
    from that obtain us vs where "before = us @ x # vs" by (auto simp: in_set_conv_decomp)
    with depends_before[OF assms(1) _ x, of us "vs @ f # rest"] assms(2,4) fb show False by auto
  qed
  then have "{f} = {x \<in> set (before @ [f]). (x, f) \<in> (depends w)\<^sup>*}"
    using fb by (auto simp: rtrancl_eq_or_trancl)
  from poison_blocks[OF assms(1) _ assms(3) _ this, of rest] assms(2,4)
  have "poison edges {f} rest =
    map (\<lambda>s. (s, if (s, f) \<in> (depends w)\<^sup>+ then Blocked else Skipped)) rest"
    by simp
  ultimately show ?thesis using assms(4) by (simp add: propagate_failure_def)
qed

end

definition workflow_deps :: "workflow_def \<Rightarrow> string \<Rightarrow> string list" where
  "workflow_deps w s = (case step_edges w of Inl _ \<Rightarrow> [] | Inr edges \<Rightarrow> edge_of edges s)"

definition distinct_steps :: "workflow_def \<Rightarrow> bool" where
  "distinct_steps w \<longleftrightarrow> distinct (keys (w_steps w))"

lemma topo_order_Inr:
  assumes "topo_order w = Inr order"
  obtains edges where "step_edges w = Inr edges" "greedy edges (keys (w_steps w)) order"
    "length order = length (w_steps w)"
proof -
  from assms obtain edges where e: "step_edges w = Inr edges"
    "topo_loop edges (keys (w_steps w)) [] = Inr order"
    by (auto simp: topo_order_def bindE_eq_Inr)
  have "greedy edges (keys (w_steps w)) []" by (simp add: greedy_def)
  from topo_loop_greedy[OF this _ e(2)] e(1) that show ?thesis by auto
qed

interpretation sched: scheduling topo_order workflow_deps "\<lambda>w. keys (w_steps w)" distinct_steps
proof
  fix w order
  assume w: "distinct_steps w" and o: "topo_order w = Inr order"
  from o obtain edges where g: "greedy edges (keys (w_steps w)) order"
    "length order = length (w_steps w)" by (rule topo_order_Inr)
  have d: "distinct order" using g(1) by (rule greedy_distinct)
  have "set order \<subseteq> set (keys (w_steps w))"
    using greedyD(1)[OF g(1)] by (auto simp: in_set_conv_nth simp del: set_map)
  moreover have "card (set order) = card (set (keys (w_steps w)))"
    using d g(2) w by (simp add: distinct_card distinct_steps_def del: set_map)
  ultimately have "set order = set (keys (w_steps w))" by (intro card_subset_eq) auto
  with d show "distinct order \<and> set order = set (keys (w_steps w))" by blast
next
  fix w xs s ys
  assume "topo_order w = Inr (xs @ s # ys)"
  then obtain edges where e: "step_edges w = Inr edges" and
    g: "greedy edges (keys (w_steps w)) (xs @ s # ys)" by (rule topo_order_Inr)
  from greedyD(3)[OF g, of "length xs"] e show "set (workflow_deps w s) \<subseteq> set xs"
    by (simp add: workflow_deps_def)
qed

lemma step_edges_workflow_deps: "step_edges w = Inr edges \<Longrightarrow> edge_of edges s = workflow_deps w s"
  by (simp add: workflow_deps_def)

lemma sched_depends: "step_edges w = Inr edges \<Longrightarrow> sched.depends w = dep_rel edges"
  by (simp add: sched.depends_def dep_rel_def step_edges_workflow_deps)

section \<open>Properties\<close>

text \<open>when \<open>topo_order\<close> returns an order, the order lists every declared step exactly once, and
  each step comes after everything it declares to depend on (its \<open>depends_on\<close> entries and the
  producers of its inputs).\<close>

theorem topo_order_valid:
  assumes "distinct (keys (w_steps w))" and "topo_order w = Inr order"
  shows "distinct order \<and> set order = set (keys (w_steps w))
    \<and> (\<forall>i < length order. \<forall>step. map_of (w_steps w) (order ! i) = Some step \<longrightarrow>
         declared_deps step \<subseteq> set (take i order))"
proof -
  from assms(2) obtain edges where e: "step_edges w = Inr edges"
    and g: "greedy edges (keys (w_steps w)) order" by (rule topo_order_Inr)
  have "declared_deps step \<subseteq> set (take i order)"
    if "i < length order" "map_of (w_steps w) (order ! i) = Some step" for i step
    using step_edges_ok(2)[OF e that(2)] greedyD(3)[OF g that(1)] by simp
  with sched.plan_complete[of w order] assms show ?thesis by (auto simp: distinct_steps_def)
qed

text \<open>the tie-break is the declaration order: every step of the order is the first declared step
  that was unscheduled and had all its dependencies scheduled at that point.\<close>

theorem topo_order_declaration_tie_break:
  assumes "topo_order w = Inr order" and "i < length order"
  shows "find (\<lambda>s. s \<notin> set (take i order) \<and> set (workflow_deps w s) \<subseteq> set (take i order))
           (keys (w_steps w)) = Some (order ! i)"
proof -
  from assms(1) obtain edges where e: "step_edges w = Inr edges"
    and g: "greedy edges (keys (w_steps w)) order" by (rule topo_order_Inr)
  have "ready edges (take i order) =
      (\<lambda>s. s \<notin> set (take i order) \<and> set (workflow_deps w s) \<subseteq> set (take i order))"
    by (auto simp: ready_def list_all_iff workflow_deps_def e fun_eq_iff)
  moreover have "find (ready edges (take i order)) (keys (w_steps w)) = Some (order ! i)"
    using g assms(2) by (simp add: greedy_def)
  ultimately show ?thesis by simp
qed

text \<open>for a workflow whose references are all known, \<open>topo_order\<close> fails exactly when the
  dependency graph has a cycle, and its error then names exactly the steps that lie on a cycle, in
  declaration order (the fallback that names every remaining step is never needed).\<close>

theorem topo_order_reports_cycles:
  assumes "distinct (keys (w_steps w))" and "step_edges w = Inr edges"
  shows "topo_order w = Inl e \<longleftrightarrow>
    filter (on_cycle edges) (keys (w_steps w)) \<noteq> []
    \<and> e = cycle_error (filter (on_cycle edges) (keys (w_steps w)))"
proof
  let ?ids = "keys (w_steps w)"
  have known: "\<forall>a. set (edge_of edges a) \<subseteq> set ?ids"
    using step_edges_known[OF assms(2)] by blast
  have "greedy edges ?ids []" by (simp add: greedy_def)
  note err = topo_loop_error[OF this assms(1) known]
  assume "topo_order w = Inl e"
  then have "topo_loop edges ?ids [] = Inl e" by (simp add: topo_order_def assms(2))
  from err[OF this] show "filter (on_cycle edges) ?ids \<noteq> [] \<and> e = cycle_error (filter (on_cycle edges) ?ids)"
    by blast
next
  let ?ids = "keys (w_steps w)"
  assume c: "filter (on_cycle edges) ?ids \<noteq> [] \<and> e = cycle_error (filter (on_cycle edges) ?ids)"
  have known: "\<forall>a. set (edge_of edges a) \<subseteq> set ?ids"
    using step_edges_known[OF assms(2)] by blast
  have g0: "greedy edges ?ids []" by (simp add: greedy_def)
  show "topo_order w = Inl e"
  proof (cases "topo_order w")
    case (Inl e')
    with topo_loop_error[OF g0 assms(1) known, of e'] c show ?thesis
      by (simp add: topo_order_def assms(2))
  next
    case (Inr order)
    then have g: "greedy edges ?ids order"
      using assms(2) by (auto elim!: topo_order_Inr)
    from c obtain s where "s \<in> set ?ids" "on_cycle edges s" by (auto simp: filter_empty_conv)
    moreover have "set order = set ?ids"
      using sched.plan_complete[OF _ Inr] assms(1) by (simp add: distinct_steps_def)
    ultimately show ?thesis using greedy_no_cycle[OF g] by (auto simp: on_cycle_def)
  qed
qed

text \<open>after a step fails, \<open>propagate_failure\<close> settles exactly the steps after it in the order:
  those that depend on it directly or through other steps become \<open>blocked\<close>, all others
  \<open>skipped\<close>.\<close>

theorem propagate_failure_blocks_dependents:
  assumes "distinct (keys (w_steps w))" and "topo_order w = Inr order"
    and "step_edges w = Inr edges" and "order = before @ failed # rest"
  shows "propagate_failure order edges failed =
    Some (map (\<lambda>s. (s, if (s, failed) \<in> (dep_rel edges)\<^sup>+ then Blocked else Skipped)) rest)"
  using sched.failure_blocks_dependents[OF _ assms(2) step_edges_workflow_deps[OF assms(3)] assms(4)]
    assms(1)
  by (simp add: distinct_steps_def sched_depends[OF assms(3)])

text \<open>a clamped step timeout never runs past the workflow deadline, never exceeds the step's own
  timeout, and is not negative; the deadline counts as exceeded exactly when the elapsed time has
  reached it.\<close>

theorem clamp_respects_deadline:
  fixes d :: "'a::linordered_idom deadline"
  shows "clamp d now t \<le> t
    \<and> (now \<ge> started_at d \<and> \<not> exceeded d now \<longrightarrow> now + clamp d now t \<le> started_at d + timeout_seconds d)
    \<and> (0 \<le> t \<longrightarrow> 0 \<le> clamp d now t)
    \<and> (0 \<le> timeout_seconds d \<longrightarrow> (exceeded d now \<longleftrightarrow> timeout_seconds d \<le> elapsed_seconds d now))"
  by (auto simp: clamp_def exceeded_def remaining_seconds_def elapsed_seconds_def min_def max_def)

section \<open>Concrete workflows\<close>

definition plain_step :: "string \<Rightarrow> (string \<times> string) list \<Rightarrow> string list \<Rightarrow> step_def" where
  "plain_step agent ins deps = \<lparr>s_agent = agent, s_prompt = ''go'', s_inputs = ins,
     s_depends_on = deps, s_working_dir = None, s_timeout_seconds = None, s_policy_profile = None\<rparr>"

definition plain_workflow :: "(string \<times> step_def) list \<Rightarrow> workflow_def" where
  "plain_workflow steps = \<lparr>w_name = ''demo'', w_description = None, w_variables = [], w_steps = steps\<rparr>"

text \<open>Declared \<open>b, a, c, d\<close>: \<open>b\<close> waits for \<open>a\<close>, \<open>d\<close> consumes the output of \<open>b\<close>.\<close>

definition diamond :: workflow_def where
  "diamond = plain_workflow
     [(''b'', plain_step ''x'' [] [''a'']), (''a'', plain_step ''x'' [] []),
      (''c'', plain_step ''x'' [] []),
      (''d'', plain_step ''x'' [(''t'', ''steps.b.outputs.text'')] [''c''])]"

definition looped :: workflow_def where
  "looped = plain_workflow
     [(''a'', plain_step ''x'' [] [''b'']), (''b'', plain_step ''x'' [] [''a'']),
      (''c'', plain_step ''x'' [] [''b''])]"

lemma diamond_edges:
  "step_edges diamond = Inr [(''b'', [''a'']), (''a'', []), (''c'', []), (''d'', [''c'', ''b''])]"
  by code_simp

lemma diamond_order: "topo_order diamond = Inr [''a'', ''b'', ''c'', ''d'']"
  by code_simp

lemma diamond_distinct: "distinct (keys (w_steps diamond))"
  by code_simp

theorem topo_order_valid_witness:
  "distinct (keys (w_steps diamond)) \<and> topo_order diamond = Inr [''a'', ''b'', ''c'', ''d'']
   \<and> set [''a'', ''b'', ''c'', ''d''] = set (keys (w_steps diamond))"
  using topo_order_valid[OF diamond_distinct diamond_order] diamond_order diamond_distinct by blast

theorem topo_order_tie_break_witness:
  "topo_order diamond = Inr [''a'', ''b'', ''c'', ''d''] \<and>
   find (\<lambda>s. s \<notin> set (take 1 [''a'', ''b'', ''c'', ''d''])
       \<and> set (workflow_deps diamond s) \<subseteq> set (take 1 [''a'', ''b'', ''c'', ''d'']))
     (keys (w_steps diamond)) = Some ''b''"
  using topo_order_declaration_tie_break[OF diamond_order, of 1] diamond_order by simp

lemma looped_edges: "step_edges looped = Inr [(''a'', [''b'']), (''b'', [''a'']), (''c'', [''b''])]"
  by code_simp

lemma looped_order: "topo_order looped = Inl (cycle_error [''a'', ''b''])"
  by code_simp

theorem topo_order_reports_cycles_witness:
  "topo_order looped = Inl (cycle_error [''a'', ''b''])
   \<and> filter (on_cycle [(''a'', [''b'']), (''b'', [''a'']), (''c'', [''b''])]) (keys (w_steps looped)) \<noteq> []"
proof -
  have "distinct (keys (w_steps looped))" by code_simp
  from topo_order_reports_cycles[OF this looped_edges] looped_order show ?thesis by blast
qed

theorem propagate_failure_witness:
  "\<exists>edges. step_edges diamond = Inr edges
   \<and> propagate_failure [''a'', ''b'', ''c'', ''d''] edges ''a'' =
       Some (map (\<lambda>s. (s, if (s, ''a'') \<in> (dep_rel edges)\<^sup>+ then Blocked else Skipped)) [''b'', ''c'', ''d''])
   \<and> propagate_failure [''a'', ''b'', ''c'', ''d''] edges ''a'' =
       Some [(''b'', Blocked), (''c'', Skipped), (''d'', Blocked)]"
proof -
  let ?edges = "[(''b'', [''a'']), (''a'', []), (''c'', []), (''d'', [''c'', ''b''])]"
  have "[''a'', ''b'', ''c'', ''d''] = [] @ ''a'' # [''b'', ''c'', ''d'']" by simp
  from propagate_failure_blocks_dependents[OF diamond_distinct diamond_order diamond_edges this]
  have "propagate_failure [''a'', ''b'', ''c'', ''d''] ?edges ''a'' =
       Some (map (\<lambda>s. (s, if (s, ''a'') \<in> (dep_rel ?edges)\<^sup>+ then Blocked else Skipped)) [''b'', ''c'', ''d''])" .
  moreover have "propagate_failure [''a'', ''b'', ''c'', ''d''] ?edges ''a'' =
       Some [(''b'', Blocked), (''c'', Skipped), (''d'', Blocked)]"
    by code_simp
  ultimately show ?thesis using diamond_edges by blast
qed

theorem clamp_respects_deadline_witness:
  "clamp (new_deadline 10 100) 104 (30::int) = 6 \<and> 104 + clamp (new_deadline 10 100) 104 (30::int) \<le> 110"
proof -
  have "(104::int) + clamp (new_deadline 10 100) 104 30 \<le> 100 + 10"
    using clamp_respects_deadline[of "new_deadline 10 100" "104::int" 30]
    by (simp add: new_deadline_def exceeded_def remaining_seconds_def elapsed_seconds_def)
  then show ?thesis
    by (simp add: clamp_def new_deadline_def remaining_seconds_def elapsed_seconds_def)
qed

end
