(* ===== verification/Vars.thy ===== *)
theory Vars
  imports Interpolate
begin

text \<open>
  \<open>workflows/vars.py\<close>: \<open>--var\<close> arguments, typed variable resolution, the gate that keeps
  secret variables from providers that are not allowed to see them, and the values handed to
  the redactor. An exception outside the \<open>ZiggyError\<close> family that leaves a function is the
  outcome \<open>Escapes\<close> with its class name. The lemmas show what a successful resolution
  guarantees of every value, that typed values print and parse back, when resolution leaves
  with a foreign exception, and that past the gate a prompt is independent of every secret its
  provider may not see.
\<close>

section \<open>Operations\<close>

datatype 'a outcome = Returns 'a | Raises zerror | Escapes string

text \<open>\<open>json.loads\<close>: a value, a JSONDecodeError with its text, or another exception.\<close>

datatype json_result = JValue pyval | JDecodeError string | JOther string

fun parse_var_args_from :: "(string \<times> string) list \<Rightarrow> string list \<Rightarrow> zerror + (string \<times> string) list" where
  "parse_var_args_from out [] = Inr out"
| "parse_var_args_from out (pair # pairs) =
     (case partition_on (CHR ''='') pair of (name, sep, raw) \<Rightarrow>
        if \<not> sep \<or> name = []
        then Inl (validation_error (''--var '' @ py_repr pair @ '': expected <name>=<value>''))
        else if name \<in> set (keys out)
        then Inl (validation_error (''--var '' @ py_repr name @ '': variable given more than once''))
        else parse_var_args_from (out @ [(name, raw)]) pairs)"

definition parse_var_args :: "string list \<Rightarrow> zerror + (string \<times> string) list" where
  "parse_var_args pairs = parse_var_args_from [] pairs"

text \<open>\<open>^[+-]?[0-9]+$\<close>\<close>

definition INTEGER_RE :: re where
  "INTEGER_RE = Seq (opt_re (Cls (\<lambda>c. c = CHR ''+'' \<or> c = CHR ''-''))) (Seq (Rep is_digit 1 None) Dollar)"

definition digits_value :: "string \<Rightarrow> int" where
  "digits_value ds = foldl (\<lambda>n c. 10 * n + (of_char c - 48)) 0 ds"

text \<open>
  \<open>int(raw)\<close> of a text the pattern accepts: white space around the number is skipped, and a
  number of more than \<open>sys.int_info.default_max_str_digits = 4300\<close> digits is a ValueError.
\<close>

definition MAX_STR_DIGITS :: nat where "MAX_STR_DIGITS = 4300"

definition py_int :: "string \<Rightarrow> int option" where
  "py_int raw = (let s = strip raw;
       ds = (case s of [] \<Rightarrow> [] | c # cs \<Rightarrow> if c = CHR ''+'' \<or> c = CHR ''-'' then cs else s)
     in if length ds > MAX_STR_DIGITS then None
        else Some (if startswith s ''-'' then - digits_value ds else digits_value ds))"

definition parse_typed ::
  "(string \<Rightarrow> json_result) \<Rightarrow> string \<Rightarrow> variable_def \<Rightarrow> string \<Rightarrow> pyval outcome" where
  "parse_typed loads name d raw =
     (case v_type d of
        TString \<Rightarrow> Returns (PStr raw)
      | TInteger \<Rightarrow>
          if \<not> re_match INTEGER_RE raw
          then Raises (validation_error (''variables.'' @ name @ '': expected an integer, got a non-integer value''))
          else (case py_int raw of None \<Rightarrow> Escapes ''ValueError'' | Some i \<Rightarrow> Returns (PInt i))
      | TBoolean \<Rightarrow>
          if raw = ''true'' then Returns (PBool True)
          else if raw = ''false'' then Returns (PBool False)
          else Raises (validation_error (''variables.'' @ name @ '': expected 'true' or 'false'' @ [CHR 0x27]))
      | TJson \<Rightarrow>
          (case loads raw of
             JValue v \<Rightarrow> Returns v
           | JDecodeError m \<Rightarrow> Raises (validation_error (''variables.'' @ name @ '': invalid JSON: '' @ m))
           | JOther e \<Rightarrow> Escapes e))"

definition default_matches :: "var_type \<Rightarrow> pyval \<Rightarrow> bool" where
  "default_matches t v = (case (t, v) of (TString, PStr s) \<Rightarrow> True | (TInteger, PInt i) \<Rightarrow> True
     | (TBoolean, PBool b) \<Rightarrow> True | (TJson, _) \<Rightarrow> True | _ \<Rightarrow> False)"

definition check_default :: "string \<Rightarrow> variable_def \<Rightarrow> zerror + pyval" where
  "check_default name d =
     (let n = utf8_len (value_to_text (v_default d)) in
      if \<not> default_matches (v_type d) (v_default d)
      then Inl (validation_error (''variables.'' @ name @ '': default value does not match declared type ''
             @ [CHR 0x27] @ var_type_value (v_type d) @ [CHR 0x27]))
      else if int n > v_max_bytes d
      then Inl (validation_error (''variables.'' @ name @ '': default is '' @ str_of_nat n
             @ '' bytes (UTF-8); max_bytes is '' @ str_of_int (v_max_bytes d)))
      else Inr (v_default d))"

text \<open>
  What one declared variable contributes: a problem, a value, or nothing.
\<close>

datatype contribution = Problem string | Value pyval | Nothing | Leaves string

definition resolve_var ::
  "(string \<Rightarrow> json_result) \<Rightarrow> (string \<times> string) list \<Rightarrow> string \<Rightarrow> variable_def \<Rightarrow> contribution" where
  "resolve_var loads cli name d =
     (case map_of cli name of
        Some raw \<Rightarrow>
          if int (utf8_len raw) > v_max_bytes d
          then Problem (''variables.'' @ name @ '': value is '' @ str_of_nat (utf8_len raw)
                 @ '' bytes (UTF-8); max_bytes is '' @ str_of_int (v_max_bytes d))
          else (case parse_typed loads name d raw of
                  Returns v \<Rightarrow> Value v | Raises e \<Rightarrow> Problem (message e) | Escapes e \<Rightarrow> Leaves e)
      | None \<Rightarrow>
          if v_default d \<noteq> PNone
          then (case check_default name d of Inl e \<Rightarrow> Problem (message e) | Inr v \<Rightarrow> Value v)
          else if v_required d
          then Problem (''variables.'' @ name @ '': required variable not provided (--var '' @ name @ ''=...)'')
          else Nothing)"

fun resolve_vars ::
  "(string \<Rightarrow> json_result) \<Rightarrow> (string \<times> string) list \<Rightarrow> (string \<times> variable_def) list
    \<Rightarrow> string list \<Rightarrow> (string \<times> pyval) list \<Rightarrow> (string \<times> pyval) list outcome" where
  "resolve_vars loads cli [] problems vals =
     (if problems \<noteq> [] then Raises (validation_error (join ''; '' problems)) else Returns vals)"
| "resolve_vars loads cli ((name, d) # ds) problems vals =
     (case resolve_var loads cli name d of
        Problem p \<Rightarrow> resolve_vars loads cli ds (problems @ [p]) vals
      | Value v \<Rightarrow> resolve_vars loads cli ds problems (vals @ [(name, v)])
      | Nothing \<Rightarrow> resolve_vars loads cli ds problems vals
      | Leaves e \<Rightarrow> Escapes e)"

definition unknown_vars :: "workflow_def \<Rightarrow> (string \<times> string) list \<Rightarrow> string list" where
  "unknown_vars w cli = sort (filter (\<lambda>n. n \<notin> set (keys (w_variables w))) (remdups (keys cli)))"

definition validate_variables ::
  "(string \<Rightarrow> json_result) \<Rightarrow> workflow_def \<Rightarrow> (string \<times> string) list \<Rightarrow> (string \<times> pyval) list outcome" where
  "validate_variables loads w cli =
     resolve_vars loads cli (w_variables w)
       (map (\<lambda>n. ''--var '' @ n @ '': unknown variable (not declared by the workflow)'') (unknown_vars w cli)) []"

section \<open>Secret variables\<close>

definition is_secret :: "workflow_def \<Rightarrow> string \<Rightarrow> bool" where
  "is_secret w name = (case map_of (w_variables w) name of None \<Rightarrow> False | Some d \<Rightarrow> v_secret d)"

definition secret_names :: "workflow_def \<Rightarrow> step_def \<Rightarrow> string list" where
  "secret_names w step = sort (remdups (filter (is_secret w) (vars_referenced_by_step step)))"

definition secret_problem ::
  "string \<Rightarrow> string option \<Rightarrow> (string \<times> string list) list \<Rightarrow> string \<Rightarrow> string list" where
  "secret_problem step_id provider allowances name =
     (case provider of
        None \<Rightarrow> [''steps.'' @ step_id @ '': secret variable '' @ py_repr name
                 @ '' flows to a step with no resolved provider identity'']
      | Some p \<Rightarrow>
          if p \<in> set (get_or [] allowances name) then []
          else [''steps.'' @ step_id @ '': secret variable '' @ py_repr name @ '' is not allowed for provider ''
                @ py_repr p @ '' (add workflows.secret_variable_allowances.'' @ name @ '' = [''
                @ dquoted p @ ''] to trusted user config)''])"

definition secret_problems ::
  "workflow_def \<Rightarrow> (string \<times> string) list \<Rightarrow> (string \<times> string list) list \<Rightarrow> string list" where
  "secret_problems w step_providers allowances =
     concat (map (\<lambda>(step_id, step).
       concat (map (secret_problem step_id (map_of step_providers step_id) allowances) (secret_names w step)))
       (w_steps w))"

definition check_secret_allowances ::
  "workflow_def \<Rightarrow> (string \<times> string) list \<Rightarrow> (string \<times> string list) list \<Rightarrow> zerror + unit" where
  "check_secret_allowances w step_providers allowances =
     raise_problems (secret_problems w step_providers allowances)"

definition secret_pair ::
  "workflow_def \<Rightarrow> (string \<times> pyval) list \<Rightarrow> string \<Rightarrow> (string \<times> string) list" where
  "secret_pair w vals name =
     (if is_secret w name then
        (case map_of vals name of
           None \<Rightarrow> []
         | Some v \<Rightarrow> if value_to_text v = [] then [] else [(''var:'' @ name, value_to_text v)])
      else [])"

definition secret_redaction_values ::
  "workflow_def \<Rightarrow> (string \<times> pyval) list \<Rightarrow> (string \<times> string) list" where
  "secret_redaction_values w vals = concat (map (secret_pair w vals) (sort (keys (w_variables w))))"

section \<open>Resolution\<close>

text \<open>What the declaration promises of a resolved value.\<close>

definition value_ok :: "(string \<times> string) list \<Rightarrow> string \<Rightarrow> variable_def \<Rightarrow> pyval \<Rightarrow> bool" where
  "value_ok cli name d v \<longleftrightarrow> default_matches (v_type d) v
     \<and> (case map_of cli name of
          Some raw \<Rightarrow> int (utf8_len raw) \<le> v_max_bytes d
        | None \<Rightarrow> v = v_default d \<and> int (utf8_len (value_to_text v)) \<le> v_max_bytes d)"

lemma parse_typed_type: "parse_typed loads name d raw = Returns v \<Longrightarrow> default_matches (v_type d) v"
  by (auto simp: parse_typed_def default_matches_def
      split: var_type.splits if_splits option.splits json_result.splits)

lemma resolve_var_Value: "resolve_var loads cli name d = Value v \<Longrightarrow> value_ok cli name d v"
  by (auto simp: resolve_var_def value_ok_def check_default_def Let_def parse_typed_type
      split: option.splits if_splits outcome.splits sum.splits)

lemma resolve_var_Nothing:
  "resolve_var loads cli name d = Nothing \<Longrightarrow> map_of cli name = None \<and> v_default d = PNone \<and> \<not> v_required d"
  by (auto simp: resolve_var_def split: option.splits if_splits outcome.splits sum.splits)

definition contributed ::
  "(string \<Rightarrow> json_result) \<Rightarrow> (string \<times> string) list \<Rightarrow> (string \<times> variable_def) list \<Rightarrow> (string \<times> pyval) list" where
  "contributed loads cli ds =
     concat (map (\<lambda>(n, d). case resolve_var loads cli n d of Value v \<Rightarrow> [(n, v)] | _ \<Rightarrow> []) ds)"

lemma resolve_vars_Returns:
  "resolve_vars loads cli ds problems vals = Returns out \<Longrightarrow>
   problems = [] \<and> out = vals @ contributed loads cli ds
     \<and> (\<forall>(n, d) \<in> set ds. (\<exists>v. resolve_var loads cli n d = Value v) \<or> resolve_var loads cli n d = Nothing)"
proof (induction loads cli ds problems vals rule: resolve_vars.induct)
  case (1 loads cli problems vals)
  then show ?case by (simp add: contributed_def split: if_splits)
next
  case (2 loads cli name d ds problems vals)
  then show ?case
    by (cases "resolve_var loads cli name d") (simp_all add: contributed_def)
qed

lemma contributed_keys: "n \<in> set (keys (contributed loads cli ds)) \<Longrightarrow> n \<in> set (keys ds)"
  by (force simp: contributed_def split: contribution.splits)

lemma contributed_lookup:
  assumes "distinct (keys ds)" and "(n, d) \<in> set ds"
  shows "map_of (contributed loads cli ds) n =
    (case resolve_var loads cli n d of Value v \<Rightarrow> Some v | _ \<Rightarrow> None)"
  using assms
proof (induction ds)
  case (Cons x ds)
  obtain m e where x: "x = (m, e)" by (cases x)
  have c: "contributed loads cli (x # ds) =
      (case resolve_var loads cli m e of Value v \<Rightarrow> [(m, v)] | _ \<Rightarrow> []) @ contributed loads cli ds"
    by (simp add: contributed_def x)
  show ?case
  proof (cases "n = m")
    case True
    with Cons.prems x have "e = d" and "n \<notin> set (keys ds)"
      by (auto simp: rev_image_eqI)
    with contributed_keys have "map_of (contributed loads cli ds) n = None"
      by (metis map_of_eq_None_iff list.set_map)
    with True \<open>e = d\<close> show ?thesis unfolding c
      by (simp add: map_add_def split: contribution.splits)
  next
    case False
    with Cons x have "map_of (contributed loads cli ds) n =
      (case resolve_var loads cli n d of Value v \<Rightarrow> Some v | _ \<Rightarrow> None)" by auto
    with False show ?thesis unfolding c
      by (simp add: map_add_def split: contribution.splits option.splits)
  qed
qed simp

section \<open>Printing and parsing\<close>

lemma of_char_digit_nat: "d < 10 \<Longrightarrow> (of_char (digit_char d) :: nat) = 48 + d"
  by (simp add: digit_char_def)

lemma of_char_digit: "d < 10 \<Longrightarrow> (of_char (digit_char d) :: int) = 48 + int d"
  by (metis of_char_digit_nat of_nat_add of_nat_numeral of_nat_of_char)

lemma digits_value_snoc: "digits_value (ds @ [c]) = 10 * digits_value ds + (of_char c - 48)"
  by (simp add: digits_value_def)

lemma digits_value_str: "digits_value (str_of_nat n) = int n"
proof (induction n rule: str_of_nat.induct)
  case (1 n)
  show ?case
  proof (cases "n < 10")
    case True
    then have "str_of_nat n = [] @ [digit_char n]" by (subst str_of_nat.simps) simp
    with True show ?thesis by (simp only: digits_value_snoc) (simp add: digits_value_def of_char_digit)
  next
    case False
    then have "str_of_nat n = str_of_nat (n div 10) @ [digit_char (n mod 10)]"
      by (subst str_of_nat.simps) simp
    with False 1 show ?thesis by (simp only: digits_value_snoc) (simp add: of_char_digit zmod_int zdiv_int)
  qed
qed

lemma is_digit_char: "d < 10 \<Longrightarrow> is_digit (digit_char d)"
  by (simp add: in_range_def of_char_digit_nat)

lemma str_of_nat_digits: "list_all is_digit (str_of_nat n) \<and> str_of_nat n \<noteq> []"
proof (induction n rule: str_of_nat.induct)
  case (1 n)
  then show ?case by (subst (1 2) str_of_nat.simps) (auto simp: is_digit_char)
qed

lemma newline_not_digit [simp]: "\<not> is_digit (CHR 0x0A)"
  by (simp add: in_range_def)

text \<open>The texts the integer pattern accepts: an optional sign, digits, and possibly one newline.\<close>

lemma re_match_INTEGER_RE:
  "re_match INTEGER_RE raw \<longleftrightarrow>
    (\<exists>sg ds nl. raw = sg @ ds @ nl \<and> sg \<in> {[], ''+'', ''-''} \<and> ds \<noteq> [] \<and> list_all is_digit ds
       \<and> nl \<in> {[], [CHR 0x0A]})"
proof -
  let ?X = "Seq (Rep is_digit 1 None) Dollar"
  have M: "re_match INTEGER_RE raw \<longleftrightarrow> ms ?X (None, raw, []) \<noteq> []
      \<or> (\<exists>c cs. raw = c # cs \<and> (c = CHR ''+'' \<or> c = CHR ''-'') \<and> ms ?X (Some c, cs, []) \<noteq> [])"
    unfolding re_match_def INTEGER_RE_def by (cases raw) (auto simp del: upt_Suc)
  show ?thesis unfolding M ms_rep_dollar[where g = is_digit, OF newline_not_digit]
    by (auto simp: Suc_le_eq) (metis append_Nil append_Cons append_Nil2)+
qed

lemma is_digit_not_space: "is_digit c \<Longrightarrow> \<not> is_space c"
  by (auto simp: in_range_def is_space_def Let_def)

lemma strip_digits:
  assumes "ds \<noteq> []" and "list_all is_digit ds" and "sg \<in> {[], ''+'', ''-''}" and "nl \<in> {[], [CHR 0x0A]}"
  shows "strip (sg @ ds @ nl) = sg @ ds"
proof -
  have "\<not> is_space (hd (sg @ ds))"
    using assms by (cases ds) (auto simp: is_digit_not_space, auto simp: is_space_def)
  then have d: "dropWhile is_space (sg @ ds @ nl) = sg @ ds @ nl"
    using assms(1) by (cases sg; cases ds) auto
  have "\<not> is_space (last ds)"
    using assms(1,2) by (simp add: is_digit_not_space list_all_iff)
  then have "dropWhile is_space (rev nl @ rev (sg @ ds)) = rev (sg @ ds)"
    using assms(1,4) by (cases ds rule: rev_cases) (auto simp: is_space_def)
  then show ?thesis unfolding strip_def d by simp
qed

lemma py_int_digits:
  assumes "ds \<noteq> []" and "list_all is_digit ds" and "sg \<in> {[], ''+'', ''-''}" and "nl \<in> {[], [CHR 0x0A]}"
  shows "py_int (sg @ ds @ nl) =
    (if length ds > MAX_STR_DIGITS then None
     else Some (if sg = ''-'' then - digits_value ds else digits_value ds))"
proof -
  obtain c cs where ds: "ds = c # cs" using assms(1) by (cases ds) auto
  with assms(2) have "c \<noteq> CHR ''+''" "c \<noteq> CHR ''-''" by (auto simp: in_range_def)
  with ds assms(3) show ?thesis
    unfolding py_int_def strip_digits[OF assms] by (auto simp: Let_def startswith_def)
qed

text \<open>A text that spells an integer: a sign, digits and at most one final newline.\<close>

definition int_text :: "string \<Rightarrow> string \<Rightarrow> string \<Rightarrow> bool" where
  "int_text raw sg ds \<longleftrightarrow> (raw = sg @ ds \<or> raw = sg @ ds @ [CHR 0x0A]) \<and> sg \<in> {[], ''+'', ''-''}
     \<and> ds \<noteq> [] \<and> list_all is_digit ds"

definition int_text_value :: "string \<Rightarrow> string \<Rightarrow> int" where
  "int_text_value sg ds = (if sg = ''-'' then - digits_value ds else digits_value ds)"

lemma re_match_int_text: "re_match INTEGER_RE raw \<longleftrightarrow> (\<exists>sg ds. int_text raw sg ds)"
proof
  assume "re_match INTEGER_RE raw"
  then obtain sg ds nl where "raw = sg @ ds @ nl" "sg \<in> {[], ''+'', ''-''}" "ds \<noteq> []"
    "list_all is_digit ds" "nl \<in> {[], [CHR 0x0A]}"
    unfolding re_match_INTEGER_RE by blast
  then have "int_text raw sg ds" unfolding int_text_def by (cases "nl = []") simp_all
  then show "\<exists>sg ds. int_text raw sg ds" by blast
next
  assume "\<exists>sg ds. int_text raw sg ds"
  then obtain sg ds where t: "int_text raw sg ds" by blast
  then obtain nl where "raw = sg @ ds @ nl" "nl \<in> {[], [CHR 0x0A]}"
    unfolding int_text_def by (metis append_Nil2 insert_iff)
  with t show "re_match INTEGER_RE raw" unfolding re_match_INTEGER_RE int_text_def by blast
qed

lemma py_int_text:
  assumes "int_text raw sg ds"
  shows "py_int raw = (if length ds > MAX_STR_DIGITS then None else Some (int_text_value sg ds))"
proof -
  from assms obtain nl where "raw = sg @ ds @ nl" "nl \<in> {[], [CHR 0x0A]}"
    unfolding int_text_def by (metis append_Nil2 insert_iff)
  moreover from assms have "ds \<noteq> []" "list_all is_digit ds" "sg \<in> {[], ''+'', ''-''}"
    unfolding int_text_def by blast+
  ultimately show ?thesis using py_int_digits[of ds sg nl] unfolding int_text_value_def by blast
qed

lemma parse_typed_integer:
  "v_type d = TInteger \<Longrightarrow> parse_typed loads name d raw =
     (if re_match INTEGER_RE raw
      then (case py_int raw of None \<Rightarrow> Escapes ''ValueError'' | Some i \<Rightarrow> Returns (PInt i))
      else Raises (validation_error (''variables.'' @ name @ '': expected an integer, got a non-integer value'')))"
  by (simp add: parse_typed_def)

lemma integer_outcomes:
  assumes "r = (if m then (case q of None \<Rightarrow> Escapes E | Some i \<Rightarrow> Returns (PInt i)) else Raises x)"
    and "m \<longleftrightarrow> (\<exists>sg ds. T sg ds)"
    and "\<And>sg ds. T sg ds \<Longrightarrow> q = (if N < length ds then None else Some (f sg ds))"
  shows "(r = Returns v \<longleftrightarrow> (\<exists>sg ds. T sg ds \<and> length ds \<le> N \<and> v = PInt (f sg ds)))
    \<and> (r = Escapes e \<longleftrightarrow> e = E \<and> (\<exists>sg ds. T sg ds \<and> N < length ds))"
proof (cases m)
  case True
  with assms(2) obtain sg ds where "T sg ds" by blast
  from assms(3)[OF this] this show ?thesis unfolding assms(1) using True assms(3)
    by (auto split: if_splits) (metis not_le option.distinct(1) option.inject)+
next
  case False
  with assms(2) show ?thesis unfolding assms(1) by auto
qed

section \<open>Properties\<close>

text \<open>an integer variable is parsed exactly: an optional sign, decimal digits and at most one
  trailing newline give the number they spell, a text of more than 4300 digits leaves the function
  with ValueError (it is neither accepted nor reported as a problem), and everything else is
  rejected.\<close>

theorem integer_variable_parse:
  assumes "v_type d = TInteger"
  shows "(parse_typed loads name d raw = Returns v \<longleftrightarrow>
      (\<exists>sg ds. int_text raw sg ds \<and> length ds \<le> MAX_STR_DIGITS \<and> v = PInt (int_text_value sg ds)))
   \<and> (parse_typed loads name d raw = Escapes e \<longleftrightarrow>
      e = ''ValueError'' \<and> (\<exists>sg ds. int_text raw sg ds \<and> length ds > MAX_STR_DIGITS))"
  by (rule integer_outcomes[OF parse_typed_integer[OF assms] re_match_int_text py_int_text])

text \<open>a successful resolution keeps every promise of the declarations: no unknown name was given;
  a declared variable has a value of its declared type, within \<open>max_bytes\<close>, parsed from the given
  text or equal to the default; and a variable without a value is optional, was not given and has
  no default.\<close>

theorem resolved_variables_keep_declarations:
  assumes "validate_variables loads w cli = Returns vals" and "distinct (keys (w_variables w))"
  shows "set (keys cli) \<subseteq> set (keys (w_variables w)) \<and> set (keys vals) \<subseteq> set (keys (w_variables w))
    \<and> (\<forall>(name, d) \<in> set (w_variables w).
         case map_of vals name of
           Some v \<Rightarrow> value_ok cli name d v
         | None \<Rightarrow> map_of cli name = None \<and> v_default d = PNone \<and> \<not> v_required d)"
proof -
  from resolve_vars_Returns[OF assms(1)[unfolded validate_variables_def]]
  have u: "unknown_vars w cli = []" and v: "vals = contributed loads cli (w_variables w)"
    and c: "\<forall>(n, d) \<in> set (w_variables w).
      (\<exists>v. resolve_var loads cli n d = Value v) \<or> resolve_var loads cli n d = Nothing"
    by simp_all
  have "filter (\<lambda>n. n \<notin> set (keys (w_variables w))) (remdups (keys cli)) = []"
    using u unfolding unknown_vars_def by (metis set_empty set_sort)
  then have "set (keys cli) \<subseteq> set (keys (w_variables w))"
    by (auto simp: filter_empty_conv)
  moreover have "set (keys vals) \<subseteq> set (keys (w_variables w))"
    unfolding v using contributed_keys by blast
  moreover have "case map_of vals name of
           Some v \<Rightarrow> value_ok cli name d v
         | None \<Rightarrow> map_of cli name = None \<and> v_default d = PNone \<and> \<not> v_required d"
    if m: "(name, d) \<in> set (w_variables w)" for name d
    using c m contributed_lookup[OF assms(2) m, of loads cli]
    by (auto simp: v resolve_var_Value resolve_var_Nothing)
  ultimately show ?thesis by blast
qed

lemma int_text_str: "int_text (str_of_int i) (if i < 0 then ''-'' else []) (str_of_nat (nat \<bar>i\<bar>))"
  using str_of_nat_digits[of "nat \<bar>i\<bar>"] by (auto simp: int_text_def str_of_int_def)

text \<open>printing and parsing are inverse: what \<open>value_to_text\<close> inserts into a prompt for a
  string, boolean or integer value is parsed back to the same value by a variable of that type, as
  long as an integer has at most 4300 digits.\<close>

theorem typed_value_roundtrip:
  assumes "default_matches (v_type d) v" and "v_type d \<noteq> TJson"
    and "\<forall>i. v = PInt i \<longrightarrow> length (str_of_nat (nat \<bar>i\<bar>)) \<le> MAX_STR_DIGITS"
  shows "parse_typed loads name d (value_to_text v) = Returns v"
proof (cases "v_type d")
  case TString
  with assms(1) obtain s where "v = PStr s" by (auto simp: default_matches_def split: pyval.splits)
  with TString show ?thesis by (simp add: parse_typed_def value_to_text_def)
next
  case TBoolean
  with assms(1) obtain b where "v = PBool b" by (auto simp: default_matches_def split: pyval.splits)
  with TBoolean show ?thesis by (simp add: parse_typed_def value_to_text_def)
next
  case TInteger
  with assms(1) obtain i where v: "v = PInt i" by (auto simp: default_matches_def split: pyval.splits)
  let ?sg = "if i < 0 then ''-'' else []" and ?ds = "str_of_nat (nat \<bar>i\<bar>)"
  have "int_text_value ?sg ?ds = i"
    by (simp add: int_text_value_def digits_value_str)
  moreover from py_int_text[OF int_text_str[of i]] assms(3) v
  have "py_int (str_of_int i) = Some (int_text_value ?sg ?ds)" by (simp add: not_less)
  moreover from int_text_str[of i] have "re_match INTEGER_RE (str_of_int i)"
    unfolding re_match_int_text by blast
  ultimately show ?thesis using v parse_typed_integer[OF TInteger]
    by (simp add: value_to_text_def)
next
  case TJson
  with assms(2) show ?thesis by simp
qed

text \<open>Two assignments that agree except on secrets the provider may not see.\<close>

definition agree_on_visible ::
  "workflow_def \<Rightarrow> string option \<Rightarrow> (string \<times> string list) list
    \<Rightarrow> (string \<times> pyval) list \<Rightarrow> (string \<times> pyval) list \<Rightarrow> bool" where
  "agree_on_visible w provider allowances v1 v2 \<longleftrightarrow>
     (\<forall>name. is_secret w name \<and> (\<forall>p. provider = Some p \<longrightarrow> p \<notin> set (get_or [] allowances name))
        \<or> map_of v1 name = map_of v2 name)"

lemma secret_problem_Nil:
  "secret_problem step_id provider allowances name = [] \<longleftrightarrow>
     (\<exists>p. provider = Some p \<and> p \<in> set (get_or [] allowances name))"
  by (auto simp: secret_problem_def split: option.splits)

lemma secret_gate_visible:
  assumes "check_secret_allowances w step_providers allowances = Inr ()"
    and "(step_id, step) \<in> set (w_steps w)"
    and "name \<in> set (vars_referenced_by_step step)" and "is_secret w name"
  shows "\<exists>p. map_of step_providers step_id = Some p \<and> p \<in> set (get_or [] allowances name)"
proof -
  have "secret_problems w step_providers allowances = []"
    using assms(1) by (simp add: check_secret_allowances_def raise_problems_Inr)
  with assms(2) have "\<forall>n \<in> set (secret_names w step).
      secret_problem step_id (map_of step_providers step_id) allowances n = []"
    by (fastforce simp: secret_problems_def)
  moreover have "name \<in> set (secret_names w step)"
    using assms(3,4) by (simp add: secret_names_def)
  ultimately show ?thesis by (simp add: secret_problem_Nil)
qed

text \<open>C17: past the secret gate a prompt leaks no secret to a provider that may not see it: the prompt
  of a step is the same for any two assignments that differ only in secret variables whose allowances
  do not name the step's provider (and in all secrets, when the step has no provider identity).\<close>

theorem secret_gate_noninterference:
  assumes "check_secret_allowances w step_providers allowances = Inr ()"
    and "(step_id, step) \<in> set (w_steps w)"
    and "agree_on_visible w (map_of step_providers step_id) allowances v1 v2"
    and "render_prompt step v1 upstream nonce = Inr out1"
    and "render_prompt step v2 upstream nonce = Inr out2"
  shows "out1 = out2"
proof (rule render_prompt_cong[OF _ assms(4,5)], rule ballI)
  fix n assume n: "n \<in> set (vars_referenced_by_step step)"
  show "map_of v1 n = map_of v2 n"
  proof (cases "is_secret w n")
    case True
    from secret_gate_visible[OF assms(1,2) n this] assms(3) show ?thesis
      unfolding agree_on_visible_def by (metis option.inject)
  next
    case False
    with assms(3) show ?thesis unfolding agree_on_visible_def by blast
  qed
qed

lemma secret_pair_iff:
  "(kind, tv) \<in> set (secret_pair w vals name) \<longleftrightarrow>
     is_secret w name \<and> (\<exists>v. map_of vals name = Some v \<and> kind = ''var:'' @ name
       \<and> tv = value_to_text v \<and> tv \<noteq> [])"
proof -
  define K where "K = ''var:'' @ name"
  note d = secret_pair_def[of w vals name, folded K_def]
  show ?thesis
  proof (cases "is_secret w name")
    case s: True
    show ?thesis
    proof (cases "map_of vals name")
      case None
      have "secret_pair w vals name = []" unfolding d if_P[OF s] None option.case ..
      with None show ?thesis by simp
    next
      case (Some v)
      have "secret_pair w vals name = (if value_to_text v = [] then [] else [(K, value_to_text v)])"
        unfolding d if_P[OF s] Some option.case ..
      with s Some show ?thesis unfolding K_def[symmetric]
        by (cases "value_to_text v = []") auto
    qed
  next
    case False
    have "secret_pair w vals name = []" unfolding d if_not_P[OF False] ..
    with False show ?thesis by simp
  qed
qed

text \<open>the redactor is told every secret: a secret variable with a non-empty value appears among the
  redaction values under the kind \<open>var:<name>\<close> with exactly the text that rendering inserts, and no
  other value is registered.\<close>

theorem every_secret_value_is_registered:
  "(kind, text_value) \<in> set (secret_redaction_values w vals) \<longleftrightarrow>
    (\<exists>name v. kind = ''var:'' @ name \<and> is_secret w name \<and> map_of vals name = Some v
       \<and> text_value = value_to_text v \<and> text_value \<noteq> [])"
proof -
  have declared: "name \<in> set (keys (w_variables w))" if "is_secret w name" for name
    using that by (auto simp: is_secret_def rev_image_eqI dest: map_of_SomeD split: option.splits)
  have "(kind, text_value) \<in> set (secret_redaction_values w vals) \<longleftrightarrow>
      (\<exists>name \<in> set (keys (w_variables w)). (kind, text_value) \<in> set (secret_pair w vals name))"
    by (simp add: secret_redaction_values_def)
  also have "\<dots> \<longleftrightarrow> (\<exists>name. (kind, text_value) \<in> set (secret_pair w vals name))"
  proof
    assume "\<exists>name. (kind, text_value) \<in> set (secret_pair w vals name)"
    then obtain name where n: "(kind, text_value) \<in> set (secret_pair w vals name)" by blast
    then have "is_secret w name" unfolding secret_pair_iff by blast
    with declared n show "\<exists>name \<in> set (keys (w_variables w)). (kind, text_value) \<in> set (secret_pair w vals name)"
      by blast
  qed blast
  also have "\<dots> \<longleftrightarrow> (\<exists>name v. kind = ''var:'' @ name \<and> is_secret w name \<and> map_of vals name = Some v
       \<and> text_value = value_to_text v \<and> text_value \<noteq> [])"
    unfolding secret_pair_iff by blast
  finally show ?thesis .
qed

section \<open>Concrete variables\<close>

definition plain_var :: "var_type \<Rightarrow> variable_def" where
  "plain_var t = \<lparr>v_type = t, v_required = False, v_default = PNone, v_secret = False,
     v_max_bytes = 65536, v_description = None\<rparr>"

definition demo_step :: step_def where
  "demo_step = \<lparr>s_agent = ''claude'', s_prompt = ''Do {{ vars.x }} with {{inputs.up}}.'',
     s_inputs = [(''up'', ''steps.a.outputs.text'')], s_depends_on = [], s_working_dir = None,
     s_timeout_seconds = None, s_policy_profile = None\<rparr>"

definition demo_workflow :: workflow_def where
  "demo_workflow = \<lparr>w_name = ''demo'', w_description = None,
     w_variables = [(''x'', plain_var TInteger), (''token'', (plain_var TString)\<lparr>v_secret := True\<rparr>)],
     w_steps = [(''s'', demo_step)]\<rparr>"

definition no_json :: "string \<Rightarrow> json_result" where
  "no_json s = JDecodeError ''Expecting value''"

theorem integer_variable_parse_witness:
  "parse_typed no_json ''n'' (plain_var TInteger) (replicate 4301 (CHR ''7'')) = Escapes ''ValueError''
   \<and> parse_typed no_json ''n'' (plain_var TInteger) (''-12'' @ [CHR 0x0A]) = Returns (PInt (- 12))"
proof -
  have t: "v_type (plain_var TInteger) = TInteger" by (simp add: plain_var_def)
  have "int_text (replicate 4301 (CHR ''7'')) [] (replicate 4301 (CHR ''7''))"
    unfolding int_text_def by (simp add: list_all_iff in_range_def)
  moreover have "length (replicate 4301 (CHR ''7'')) > MAX_STR_DIGITS" by (simp add: MAX_STR_DIGITS_def)
  ultimately have "\<exists>sg ds. int_text (replicate 4301 (CHR ''7'')) sg ds \<and> length ds > MAX_STR_DIGITS"
    by blast
  with integer_variable_parse[OF t, of no_json "''n''" "replicate 4301 (CHR ''7'')" PNone "''ValueError''"]
  have long: "parse_typed no_json ''n'' (plain_var TInteger) (replicate 4301 (CHR ''7'')) = Escapes ''ValueError''"
    by (simp only: simp_thms)
  have "int_text (''-12'' @ [CHR 0x0A]) ''-'' ''12''" "length ''12'' \<le> MAX_STR_DIGITS"
    "PInt (- 12) = PInt (int_text_value ''-'' ''12'')"
    by (simp_all add: int_text_def in_range_def MAX_STR_DIGITS_def int_text_value_def digits_value_def)
  then have "\<exists>sg ds. int_text (''-12'' @ [CHR 0x0A]) sg ds \<and> length ds \<le> MAX_STR_DIGITS
      \<and> PInt (- 12) = PInt (int_text_value sg ds)"
    by blast
  with integer_variable_parse[OF t, of no_json "''n''" "''-12'' @ [CHR 0x0A]" "PInt (- 12)" "[]"] long
  show ?thesis by blast
qed

theorem resolved_variables_witness:
  "validate_variables no_json demo_workflow [(''x'', ''7'')] = Returns [(''x'', PInt 7)]
   \<and> value_ok [(''x'', ''7'')] ''x'' (plain_var TInteger) (PInt 7)"
proof -
  have r: "validate_variables no_json demo_workflow [(''x'', ''7'')] = Returns [(''x'', PInt 7)]"
    by code_simp
  moreover have "distinct (keys (w_variables demo_workflow))" by code_simp
  moreover have "(''x'', plain_var TInteger) \<in> set (w_variables demo_workflow)"
    by (simp add: demo_workflow_def)
  ultimately show ?thesis using resolved_variables_keep_declarations by fastforce
qed

theorem typed_value_roundtrip_witness:
  "parse_typed no_json ''n'' (plain_var TInteger) (value_to_text (PInt (- 40))) = Returns (PInt (- 40))"
proof (rule typed_value_roundtrip)
  show "\<forall>i. PInt (- 40) = PInt i \<longrightarrow> length (str_of_nat (nat \<bar>i\<bar>)) \<le> MAX_STR_DIGITS"
    by (auto simp: str_of_nat.simps MAX_STR_DIGITS_def)
qed (simp_all add: default_matches_def plain_var_def)

theorem secret_gate_noninterference_witness:
  "\<exists>out1 out2. check_secret_allowances demo_workflow [(''s'', ''openai'')] [] = Inr ()
   \<and> render_prompt demo_step [(''x'', PInt 1), (''token'', PStr ''a'')] [(''up'', ''u'')] None = Inr out1
   \<and> render_prompt demo_step [(''x'', PInt 1), (''token'', PStr ''b'')] [(''up'', ''u'')] None = Inr out2
   \<and> out1 = out2"
proof -
  have g: "check_secret_allowances demo_workflow [(''s'', ''openai'')] [] = Inr ()" by code_simp
  have m: "(''s'', demo_step) \<in> set (w_steps demo_workflow)" by (simp add: demo_workflow_def)
  have "is_secret demo_workflow ''token''" by code_simp
  then have v: "agree_on_visible demo_workflow (map_of [(''s'', ''openai'')] ''s'') []
      [(''x'', PInt 1), (''token'', PStr ''a'')] [(''x'', PInt 1), (''token'', PStr ''b'')]"
    by (simp add: agree_on_visible_def)
  have "case render_prompt demo_step [(''x'', PInt 1), (''token'', PStr ''a'')] [(''up'', ''u'')] None of
      Inl _ \<Rightarrow> False | Inr _ \<Rightarrow> True"
    and "case render_prompt demo_step [(''x'', PInt 1), (''token'', PStr ''b'')] [(''up'', ''u'')] None of
      Inl _ \<Rightarrow> False | Inr _ \<Rightarrow> True"
    by code_simp+
  then obtain out1 out2 where
    r: "render_prompt demo_step [(''x'', PInt 1), (''token'', PStr ''a'')] [(''up'', ''u'')] None = Inr out1"
    "render_prompt demo_step [(''x'', PInt 1), (''token'', PStr ''b'')] [(''up'', ''u'')] None = Inr out2"
    by (auto split: sum.splits)
  from secret_gate_noninterference[OF g m v r] g r show ?thesis by blast
qed

theorem every_secret_value_witness:
  "(''var:token'', ''abc'') \<in> set (secret_redaction_values demo_workflow [(''token'', PStr ''abc'')])"
proof -
  have "is_secret demo_workflow ''token''" by code_simp
  then have "\<exists>name v. ''var:token'' = ''var:'' @ name \<and> is_secret demo_workflow name
      \<and> map_of [(''token'', PStr ''abc'')] name = Some v \<and> ''abc'' = value_to_text v \<and> ''abc'' \<noteq> []"
    by (intro exI[of _ "''token''"] exI[of _ "PStr ''abc''"]) (simp add: value_to_text_def)
  with every_secret_value_is_registered show ?thesis by blast
qed

end
