(* ===== verification/Config_Schema.thy ===== *)
theory Config_Schema
  imports Models
begin

text \<open>
  \<open>config/schema.py\<close>: the configuration tree as records, with the declared defaults. A float is
  carried as its \<open>repr\<close> text. An agent entry also carries the names of the fields the user set
  (pydantic's \<open>model_fields_set\<close>; \<open>None\<close> for an object without that attribute).
\<close>

record engine_config =
  max_workflow_steps :: int
  max_prompt_bytes :: int
  default_step_timeout_seconds :: int
  default_workflow_timeout_seconds :: int
  cancel_grace_seconds :: string
  max_event_bytes_per_step :: int
  max_artifact_bytes_per_run :: int

definition default_engine_config :: engine_config where
  "default_engine_config = \<lparr>max_workflow_steps = 16, max_prompt_bytes = 262144,
     default_step_timeout_seconds = 1800, default_workflow_timeout_seconds = 3600,
     cancel_grace_seconds = ''5.0'', max_event_bytes_per_step = 10 * 2 ^ 20,
     max_artifact_bytes_per_run = 50 * 2 ^ 20\<rparr>"

record terminal_rule =
  tr_command :: string
  tr_args_prefix :: "string list"

record policy_profile =
  pf_terminal_allowlist :: "terminal_rule list"
  pf_deny_paths :: "string list"

definition default_policy_profile :: policy_profile where
  "default_policy_profile = \<lparr>pf_terminal_allowlist = [], pf_deny_paths = []\<rparr>"

datatype denial_kind = DenyPath | DenyTerminal

record project_denial =
  pj_kind :: denial_kind
  pj_pattern :: string

record permissions_config =
  pc_default_policy :: string
  pc_profiles :: "(string \<times> policy_profile) list"
  pc_project_denials :: "project_denial list"

definition default_permissions_config :: permissions_config where
  "default_permissions_config =
     \<lparr>pc_default_policy = ''guarded'', pc_profiles = [], pc_project_denials = []\<rparr>"

record results_config =
  rc_persist :: bool
  rc_capture :: capture_profile
  rc_retention_days :: int
  rc_auto_prune :: bool
  rc_store_path :: "string option"

definition default_results_config :: results_config where
  "default_results_config = \<lparr>rc_persist = True, rc_capture = Standard, rc_retention_days = 30,
     rc_auto_prune = False, rc_store_path = None\<rparr>"

definition results_config_ok :: "results_config \<Rightarrow> bool" where
  "results_config_ok r \<longleftrightarrow> 1 \<le> rc_retention_days r"

record server_config =
  max_active_runs :: int

record trusted_workflow =
  tw_path :: string
  tw_sha256 :: string

record orchestrator_config =
  oc_agent :: "string option"
  oc_max_inline_steps :: int
  oc_auto_execute :: bool
  oc_allow_uncontained_planner :: bool
  oc_eligible_agents :: "string list"
  oc_trusted_workflows :: "trusted_workflow list"

definition default_orchestrator_config :: orchestrator_config where
  "default_orchestrator_config = \<lparr>oc_agent = None, oc_max_inline_steps = 8, oc_auto_execute = True,
     oc_allow_uncontained_planner = False, oc_eligible_agents = [], oc_trusted_workflows = []\<rparr>"

record custom_pattern_cfg =
  cp_kind :: string
  cp_regex :: string
  cp_max_width :: "int option"

record redaction_config =
  rd_extra_value_env_vars :: "string list"
  rd_patterns :: "custom_pattern_cfg list"

record logs_config =
  lg_retention_days :: int

record workflows_config =
  wc_default_name :: "string option"
  wc_secret_variable_allowances :: "(string \<times> string list) list"

record agent_entry =
  ae_fields_set :: "string list option"
  ae_command :: "string option"
  ae_args :: "string list"
  ae_env :: "(string \<times> string) list"
  ae_inherit_env :: "string list"
  ae_working_dir :: "string option"
  ae_api_key_env :: "string option"
  ae_provider :: "string option"
  ae_orchestration_eligible :: bool

record egress_config =
  eg_acknowledged_provider_sets :: "string list list"

record ziggy_config =
  schema_version :: int
  c_engine :: engine_config
  c_agents :: "(string \<times> agent_entry) list"
  c_permissions :: permissions_config
  c_results :: results_config
  c_server :: server_config
  c_orchestrator :: orchestrator_config
  c_redaction :: redaction_config
  c_logs :: logs_config
  c_workflows :: workflows_config
  c_egress :: egress_config

definition default_config :: ziggy_config where
  "default_config = \<lparr>schema_version = 1, c_engine = default_engine_config, c_agents = [],
     c_permissions = default_permissions_config, c_results = default_results_config,
     c_server = \<lparr>max_active_runs = 1\<rparr>, c_orchestrator = default_orchestrator_config,
     c_redaction = \<lparr>rd_extra_value_env_vars = [], rd_patterns = []\<rparr>,
     c_logs = \<lparr>lg_retention_days = 30\<rparr>,
     c_workflows = \<lparr>wc_default_name = None, wc_secret_variable_allowances = []\<rparr>,
     c_egress = \<lparr>eg_acknowledged_provider_sets = []\<rparr>\<rparr>"

end
