(* ===== verification/Registry.thy ===== *)
theory Registry
  imports Config_Schema "HOL-Library.Multiset"
begin

text \<open>
  \<open>agents/builtins.py\<close> and \<open>agents/registry.py\<close>: the pinned built-in agents, the merge with the
  trusted user table, and the lookup of launchable agents. The text of a pydantic error is the
  parameter \<open>why\<close>.
\<close>

section \<open>Built-in agents\<close>

definition CLAUDE_ADAPTER_PIN :: string where
  "CLAUDE_ADAPTER_PIN = ''@agentclientprotocol/claude-agent-acp@0.64.0''"
definition CODEX_ADAPTER_PIN :: string where
  "CODEX_ADAPTER_PIN = ''@agentclientprotocol/codex-acp@1.1.7''"

definition builtin_agent :: "string \<Rightarrow> string \<Rightarrow> string list \<Rightarrow> string \<Rightarrow> agent_config" where
  "builtin_agent name command args provider = \<lparr>ag_name = name, ag_builtin = True, ag_command = command,
     ag_args = args, ag_env = [], ag_inherit_env = [], ag_working_dir = None, ag_api_key_env = None,
     ag_provider = Some provider, ag_permission_policy = None, ag_orchestration_eligible = False,
     ag_direct_tools_assumed = True\<rparr>"

definition BUILTIN_AGENTS :: "(string \<times> agent_config) list" where
  "BUILTIN_AGENTS =
     [(''claude'', builtin_agent ''claude'' ''npx'' [''--no-install'', CLAUDE_ADAPTER_PIN] ''anthropic''),
      (''codex'', builtin_agent ''codex'' ''npx'' [''--no-install'', CODEX_ADAPTER_PIN] ''openai''),
      (''opencode'', builtin_agent ''opencode'' ''opencode'' [''acp''] ''custom:opencode''),
      (''devin'', builtin_agent ''devin'' ''devin'' [''acp''] ''custom:devin'')]"

section \<open>Merging user entries\<close>

definition BUILTIN_OVERRIDABLE_FIELDS :: "string list" where
  "BUILTIN_OVERRIDABLE_FIELDS = [''command'', ''args'', ''env'', ''inherit_env'', ''working_dir'',
     ''api_key_env'', ''provider'', ''orchestration_eligible'']"

text \<open>The fields an object without \<open>model_fields_set\<close> counts as set: those off their default.\<close>

definition non_default_fields :: "agent_entry \<Rightarrow> string list" where
  "non_default_fields e =
     (if ae_command e \<noteq> None then [''command''] else [])
     @ (if ae_args e \<noteq> [] then [''args''] else [])
     @ (if ae_env e \<noteq> [] then [''env''] else [])
     @ (if ae_inherit_env e \<noteq> [] then [''inherit_env''] else [])
     @ (if ae_working_dir e \<noteq> None then [''working_dir''] else [])
     @ (if ae_api_key_env e \<noteq> None then [''api_key_env''] else [])
     @ (if ae_provider e \<noteq> None then [''provider''] else [])
     @ (if ae_orchestration_eligible e then [''orchestration_eligible''] else [])"

text \<open>\<open>_explicit_overrides\<close>: an explicit \<open>command = None\<close> never overrides.\<close>

definition explicit_overrides :: "agent_entry \<Rightarrow> string list" where
  "explicit_overrides e =
     filter (\<lambda>f. \<not> (f = ''command'' \<and> ae_command e = None))
       (case ae_fields_set e of
          Some fs \<Rightarrow> filter (\<lambda>f. f \<in> set BUILTIN_OVERRIDABLE_FIELDS) fs
        | None \<Rightarrow> non_default_fields e)"

definition apply_overrides :: "agent_entry \<Rightarrow> agent_config \<Rightarrow> agent_config" where
  "apply_overrides e base = (let fs = set (explicit_overrides e) in base
     \<lparr>ag_command := (if ''command'' \<in> fs then the (ae_command e) else ag_command base),
      ag_args := (if ''args'' \<in> fs then ae_args e else ag_args base),
      ag_env := (if ''env'' \<in> fs then ae_env e else ag_env base),
      ag_inherit_env := (if ''inherit_env'' \<in> fs then ae_inherit_env e else ag_inherit_env base),
      ag_working_dir := (if ''working_dir'' \<in> fs then ae_working_dir e else ag_working_dir base),
      ag_api_key_env := (if ''api_key_env'' \<in> fs then ae_api_key_env e else ag_api_key_env base),
      ag_provider := (if ''provider'' \<in> fs then ae_provider e else ag_provider base),
      ag_orchestration_eligible := (if ''orchestration_eligible'' \<in> fs then ae_orchestration_eligible e
                                    else ag_orchestration_eligible base)\<rparr>)"

definition config_error :: "string \<Rightarrow> (string \<times> pyval) list \<Rightarrow> zerror" where
  "config_error m ds = \<lparr>err_class = ConfigError, message = m, details = ds\<rparr>"

text \<open>\<open>AgentConfig.model_validate\<close>: the name pattern is the only constraint the types leave open.\<close>

definition validated :: "(string \<Rightarrow> string) \<Rightarrow> string \<Rightarrow> agent_config \<Rightarrow> zerror + agent_config" where
  "validated why name c =
     (if pattern_ident (ag_name c) then Inr c
      else Inl (config_error (''invalid agent config for '' @ [CHR 0x27] @ name @ [CHR 0x27] @ '': '' @ why name)
             [(''agent'', PStr name)]))"

definition merge_builtin ::
  "(string \<Rightarrow> string) \<Rightarrow> string \<Rightarrow> agent_config \<Rightarrow> agent_entry \<Rightarrow> zerror + agent_config" where
  "merge_builtin why name base e = validated why name (apply_overrides e base)"

definition custom_agent :: "(string \<Rightarrow> string) \<Rightarrow> string \<Rightarrow> agent_entry \<Rightarrow> zerror + agent_config" where
  "custom_agent why name e =
     (case ae_command e of
        Some (c # cs) \<Rightarrow> validated why name
          \<lparr>ag_name = name, ag_builtin = False, ag_command = c # cs, ag_args = ae_args e, ag_env = ae_env e,
           ag_inherit_env = ae_inherit_env e, ag_working_dir = ae_working_dir e,
           ag_api_key_env = ae_api_key_env e, ag_provider = ae_provider e, ag_permission_policy = None,
           ag_orchestration_eligible = ae_orchestration_eligible e, ag_direct_tools_assumed = True\<rparr>
      | _ \<Rightarrow> Inl (config_error (''custom agent '' @ [CHR 0x27] @ name @ [CHR 0x27]
               @ '' requires a command (only builtin agents may omit it)'') [(''agent'', PStr name)]))"

type_synonym registry = "(string \<times> agent_config) list"

definition registered :: "(string \<Rightarrow> string) \<Rightarrow> string \<Rightarrow> agent_entry \<Rightarrow> zerror + agent_config" where
  "registered why name e = (case map_of BUILTIN_AGENTS name of
     Some base \<Rightarrow> merge_builtin why name base e | None \<Rightarrow> custom_agent why name e)"

fun merge_entries :: "(string \<Rightarrow> string) \<Rightarrow> registry \<Rightarrow> (string \<times> agent_entry) list \<Rightarrow> zerror + registry" where
  "merge_entries why reg [] = Inr reg"
| "merge_entries why reg ((name, e) # es) =
     bindE (registered why name e) (\<lambda>c. merge_entries why (AList.update name c reg) es)"

definition from_config :: "(string \<Rightarrow> string) \<Rightarrow> ziggy_config \<Rightarrow> zerror + registry" where
  "from_config why cfg = merge_entries why BUILTIN_AGENTS (c_agents cfg)"

section \<open>Lookup\<close>

definition is_builtin :: "string \<Rightarrow> bool" where
  "is_builtin name \<longleftrightarrow> name \<in> set (keys BUILTIN_AGENTS)"

definition list_agents :: "registry \<Rightarrow> agent_config list" where
  "list_agents reg =
     concat (map (\<lambda>name. case map_of reg name of None \<Rightarrow> [] | Some c \<Rightarrow> [c]) (keys BUILTIN_AGENTS))
     @ sort_key ag_name (map snd (filter (\<lambda>(name, c). \<not> is_builtin name) reg))"

definition names :: "registry \<Rightarrow> string list" where
  "names reg = map ag_name (list_agents reg)"

definition get_agent :: "registry \<Rightarrow> string \<Rightarrow> zerror + agent_config" where
  "get_agent reg name = (case map_of reg name of
     Some c \<Rightarrow> Inr c
   | None \<Rightarrow> Inl (config_error (''unknown agent '' @ [CHR 0x27] @ name @ [CHR 0x27] @ ''; registered agents: ''
                  @ join '', '' (names reg))
                [(''agent'', PStr name), (''registered'', PList (map PStr (names reg)))]))"

section \<open>What a merged registry guarantees\<close>

definition agent_ok :: "string \<times> agent_config \<Rightarrow> bool" where
  "agent_ok nc = (case nc of (name, c) \<Rightarrow>
     ag_name c = name \<and> ag_builtin c = is_builtin name \<and> ag_direct_tools_assumed c
     \<and> ag_permission_policy c = None \<and> pattern_ident name \<and> (is_builtin name \<or> ag_command c \<noteq> []))"

definition registry_ok :: "registry \<Rightarrow> bool" where
  "registry_ok reg \<longleftrightarrow> distinct (keys reg) \<and> set (keys BUILTIN_AGENTS) \<subseteq> set (keys reg)
     \<and> list_all agent_ok reg"

lemma builtins_ok: "registry_ok BUILTIN_AGENTS"
  by code_simp

lemma registered_ok: "registered why name e = Inr c \<Longrightarrow> agent_ok (name, c)"
proof (cases "map_of BUILTIN_AGENTS name")
  case None
  assume "registered why name e = Inr c"
  with None have c: "custom_agent why name e = Inr c" by (simp add: registered_def)
  from None have "\<not> is_builtin name" by (simp add: is_builtin_def map_of_eq_None_iff)
  with c show ?thesis
    by (auto simp: custom_agent_def validated_def agent_ok_def split: option.splits list.splits if_splits)
next
  case (Some base)
  assume "registered why name e = Inr c"
  with Some have c: "c = apply_overrides e base" by (auto simp: registered_def merge_builtin_def validated_def split: if_splits)
  from Some builtins_ok have "agent_ok (name, base)"
    by (auto simp: registry_ok_def list_all_iff dest: map_of_SomeD)
  moreover from Some have "is_builtin name" by (force simp: is_builtin_def dest: map_of_SomeD)
  ultimately show ?thesis unfolding c by (simp add: agent_ok_def apply_overrides_def Let_def)
qed

lemma merge_entries_ok:
  "merge_entries why reg es = Inr reg' \<Longrightarrow> registry_ok reg \<Longrightarrow> registry_ok reg'"
proof (induction why reg es rule: merge_entries.induct)
  case (2 why reg name e es)
  from 2(2) obtain c where c: "registered why name e = Inr c"
    "merge_entries why (AList.update name c reg) es = Inr reg'"
    by (auto simp: bindE_eq_Inr)
  have "registry_ok (AList.update name c reg)"
    unfolding registry_ok_def
  proof (intro conjI)
    show "distinct (keys (AList.update name c reg))" using 2(3)
      by (simp add: registry_ok_def distinct_update)
    show "set (keys BUILTIN_AGENTS) \<subseteq> set (keys (AList.update name c reg))" using 2(3)
      by (auto simp: registry_ok_def dom_update)
    show "list_all agent_ok (AList.update name c reg)"
      using 2(3) registered_ok[OF c(1)] set_update_subset[of name c reg]
      by (auto simp: registry_ok_def list_all_iff)
  qed
  with 2(1)[OF c(2)] show ?case by simp
qed simp

lemma merge_entries_lookup:
  "merge_entries why reg es = Inr reg' \<Longrightarrow> distinct (keys es) \<Longrightarrow>
   (case map_of es name of
      None \<Rightarrow> map_of reg' name = map_of reg name
    | Some e \<Rightarrow> \<exists>c. registered why name e = Inr c \<and> map_of reg' name = Some c)"
proof (induction why reg es rule: merge_entries.induct)
  case (2 why reg n e es)
  from 2(2) obtain c where c: "registered why n e = Inr c"
    "merge_entries why (AList.update n c reg) es = Inr reg'"
    by (auto simp: bindE_eq_Inr)
  from 2(3) have n: "map_of es n = None" by (simp add: map_of_eq_None_iff)
  from 2(1)[OF c(2)] 2(3)
  have IH: "case map_of es name of
      None \<Rightarrow> map_of reg' name = map_of (AList.update n c reg) name
    | Some e \<Rightarrow> \<exists>c. registered why name e = Inr c \<and> map_of reg' name = Some c" by simp
  show ?case
  proof (cases "name = n")
    case True
    with IH n c(1) show ?thesis by (simp add: update_conv')
  next
    case False
    with IH show ?thesis by (simp add: update_conv' split: option.splits)
  qed
qed simp

section \<open>Properties\<close>

text \<open>user configuration cannot change what an agent is. In a registry built from the configuration
  every agent is stored under its own name, is marked built-in exactly for the built-in names, and stays
  marked as having direct tools with no policy of its own; a built-in the user does not mention is the
  pinned one, every user entry yields exactly the agent its merge produced, and nothing else is there.\<close>

theorem registry_is_merge_of_builtins_and_user_table:
  assumes "from_config why cfg = Inr reg" and "distinct (keys (c_agents cfg))"
  shows "(get_agent reg name = Inr c \<longrightarrow> agent_ok (name, c))
    \<and> (case map_of (c_agents cfg) name of
         Some e \<Rightarrow> \<exists>c. registered why name e = Inr c \<and> get_agent reg name = Inr c
       | None \<Rightarrow> (case map_of BUILTIN_AGENTS name of
                   Some c \<Rightarrow> get_agent reg name = Inr c
                 | None \<Rightarrow> \<exists>e. get_agent reg name = Inl e))"
proof -
  note m = assms(1)[unfolded from_config_def]
  have "registry_ok reg" by (rule merge_entries_ok[OF m builtins_ok])
  then have "get_agent reg name = Inr c \<longrightarrow> agent_ok (name, c)"
    by (auto simp: get_agent_def registry_ok_def list_all_iff split: option.splits dest: map_of_SomeD)
  with merge_entries_lookup[OF m assms(2), of name] show ?thesis
    by (auto simp: get_agent_def split: option.splits)
qed

text \<open>an explicit override touches only the fields it may: whatever the user writes, an entry for a
  built-in keeps its name, its built-in mark, its policy and its direct-tools assumption, and a field
  the user did not set keeps the pinned value.\<close>

theorem builtin_override_is_confined:
  assumes "merge_builtin why name base e = Inr c"
  shows "ag_name c = ag_name base \<and> ag_builtin c = ag_builtin base
    \<and> ag_permission_policy c = ag_permission_policy base
    \<and> ag_direct_tools_assumed c = ag_direct_tools_assumed base
    \<and> (ae_fields_set e = Some fs \<longrightarrow>
         (''provider'' \<notin> set fs \<longrightarrow> ag_provider c = ag_provider base)
         \<and> (''orchestration_eligible'' \<notin> set fs \<longrightarrow>
              ag_orchestration_eligible c = ag_orchestration_eligible base)
         \<and> (''command'' \<notin> set fs \<or> ae_command e = None \<longrightarrow> ag_command c = ag_command base)
         \<and> (''env'' \<notin> set fs \<longrightarrow> ag_env c = ag_env base))"
proof -
  have c: "c = apply_overrides e base"
    using assms by (simp add: merge_builtin_def validated_def split: if_splits)
  show ?thesis unfolding c
    by (cases "ae_command e") (simp_all add: apply_overrides_def explicit_overrides_def Let_def)
qed

lemma listed_builtins:
  assumes "registry_ok reg" and "set ns \<subseteq> set (keys reg)"
  shows "map ag_name (concat (map (\<lambda>name. case map_of reg name of None \<Rightarrow> [] | Some c \<Rightarrow> [c]) ns)) = ns"
  using assms(2)
proof (induction ns)
  case (Cons n ns)
  then obtain c where c: "map_of reg n = Some c"
    by (cases "map_of reg n") (auto simp: map_of_eq_None_iff)
  with assms(1) have "ag_name c = n"
    by (auto simp: registry_ok_def list_all_iff agent_ok_def dest!: map_of_SomeD)
  with Cons c show ?case by simp
qed simp

lemma keys_split:
  assumes "registry_ok reg"
  shows "mset (keys reg) = mset (keys BUILTIN_AGENTS) + mset (keys (filter (\<lambda>(n, c). \<not> is_builtin n) reg))"
proof -
  have d: "distinct (keys reg)" and s: "set (keys BUILTIN_AGENTS) \<subseteq> set (keys reg)"
    using assms by (auto simp: registry_ok_def)
  have "distinct (keys BUILTIN_AGENTS)" using builtins_ok by (simp add: registry_ok_def)
  then have "mset (keys BUILTIN_AGENTS) = mset (filter is_builtin (keys reg))"
    using d s by (subst set_eq_iff_mset_eq_distinct[symmetric]) (auto simp: is_builtin_def)
  moreover have "keys (filter (\<lambda>(n, c). \<not> is_builtin n) reg) = filter (\<lambda>n. \<not> is_builtin n) (keys reg)"
    by (simp add: filter_map o_def split_def)
  ultimately show ?thesis by (metis mset_filter multiset_partition)
qed

text \<open>the agent listing is complete and deterministic: it names every registered agent once, the
  built-ins first in their canonical order and then the others in alphabetical order.\<close>

theorem listing_is_ordered_permutation:
  assumes "from_config why cfg = Inr reg" and "distinct (keys (c_agents cfg))"
  shows "mset (names reg) = mset (keys reg)
    \<and> (\<exists>rest. names reg = keys BUILTIN_AGENTS @ rest \<and> sorted rest
         \<and> (\<forall>name \<in> set rest. \<not> is_builtin name))"
proof -
  have ok: "registry_ok reg"
    by (rule merge_entries_ok[OF assms(1)[unfolded from_config_def] builtins_ok])
  let ?others = "filter (\<lambda>(n, c). \<not> is_builtin n) reg"
  let ?rest = "map ag_name (sort_key ag_name (map snd ?others))"
  have n: "names reg = keys BUILTIN_AGENTS @ ?rest"
    using ok listed_builtins[OF ok, of "keys BUILTIN_AGENTS"]
    by (simp add: names_def list_agents_def registry_ok_def)
  have "map ag_name (map snd ?others) = keys ?others"
    using ok by (auto simp: registry_ok_def list_all_iff agent_ok_def)
  then have m: "mset ?rest = mset (keys ?others)"
    by (metis mset_map mset_sort)
  have "sorted ?rest" by (rule sorted_sort_key)
  moreover have "\<forall>name \<in> set ?rest. \<not> is_builtin name"
    using mset_eq_setD[OF m] by auto
  moreover have "mset (names reg) = mset (keys reg)"
    unfolding n keys_split[OF ok] by (simp only: mset_append m)
  ultimately show ?thesis using n by blast
qed

section \<open>A concrete table\<close>

definition demo_entry :: agent_entry where
  "demo_entry = \<lparr>ae_fields_set = Some [''command'', ''provider''], ae_command = Some ''my-agent'', ae_args = [],
     ae_env = [], ae_inherit_env = [], ae_working_dir = None, ae_api_key_env = None,
     ae_provider = Some ''openai'', ae_orchestration_eligible = False\<rparr>"

definition demo_config :: ziggy_config where
  "demo_config = default_config\<lparr>c_agents := [(''zeta'', demo_entry), (''codex'', demo_entry), (''alpha'', demo_entry)]\<rparr>"

definition demo_registry :: registry where
  "demo_registry = (case from_config (\<lambda>n. []) demo_config of Inr r \<Rightarrow> r | Inl _ \<Rightarrow> [])"

lemma demo_registry: "from_config (\<lambda>n. []) demo_config = Inr demo_registry"
  and demo_distinct: "distinct (keys (c_agents demo_config))"
  by code_simp+

theorem registry_is_merge_witness:
  "agent_ok (''zeta'', the (map_of demo_registry ''zeta''))"
proof -
  have "get_agent demo_registry ''zeta'' = Inr (the (map_of demo_registry ''zeta''))" by code_simp
  with registry_is_merge_of_builtins_and_user_table[OF demo_registry demo_distinct] show ?thesis by blast
qed

theorem builtin_override_witness:
  "\<exists>c. merge_builtin (\<lambda>n. []) ''codex'' (the (map_of BUILTIN_AGENTS ''codex'')) demo_entry = Inr c
    \<and> ag_env c = [] \<and> ag_direct_tools_assumed c"
proof -
  have "case merge_builtin (\<lambda>n. []) ''codex'' (the (map_of BUILTIN_AGENTS ''codex'')) demo_entry of
      Inl _ \<Rightarrow> False | Inr _ \<Rightarrow> True" by code_simp
  then obtain c where c: "merge_builtin (\<lambda>n. []) ''codex'' (the (map_of BUILTIN_AGENTS ''codex'')) demo_entry = Inr c"
    by (auto split: sum.splits)
  have "ag_env (the (map_of BUILTIN_AGENTS ''codex'')) = []"
    "ag_direct_tools_assumed (the (map_of BUILTIN_AGENTS ''codex''))" by code_simp+
  with builtin_override_is_confined[OF c, of "[''command'', ''provider'']"] c show ?thesis
    by (auto simp: demo_entry_def)
qed

theorem listing_witness:
  "names demo_registry = [''claude'', ''codex'', ''opencode'', ''devin'', ''alpha'', ''zeta'']
    \<and> mset (names demo_registry) = mset (keys demo_registry)"
proof -
  have "names demo_registry = [''claude'', ''codex'', ''opencode'', ''devin'', ''alpha'', ''zeta'']"
    by code_simp
  with listing_is_ordered_permutation[OF demo_registry demo_distinct] show ?thesis by blast
qed

end
