(* ===== verification/Egress.thy ===== *)
theory Egress
  imports Registry
begin

text \<open>
  \<open>workflows/egress.py\<close>: which providers exchange data in a workflow, how the exact set is
  acknowledged, the records of every step that receives upstream output, and the gate before
  any launch. The lemmas show that the computed set is exactly the set of providers on
  cross-provider data edges, that acknowledgement is exact set equality, and that a workflow
  past the gate has an acknowledgement stamped on every crossing.
\<close>

section \<open>Operations\<close>

definition ACK_BY_CONFIG :: string where "ACK_BY_CONFIG = ''config''"
definition ACK_BY_FLAG :: string where "ACK_BY_FLAG = ''flag:--acknowledge-egress''"

text \<open>\<open>if agent_config.provider:\<close>: an empty provider counts as none.\<close>

definition step_provider :: "agent_config \<Rightarrow> string" where
  "step_provider c = (case ag_provider c of
     Some (p # ps) \<Rightarrow> p # ps | _ \<Rightarrow> ''custom:'' @ ag_name c)"

definition source_step_id :: "string \<Rightarrow> string option" where
  "source_step_id source = (let parts = split_on (CHR ''.'') source in
     if length parts = 4 \<and> parts ! 0 = ''steps'' \<and> parts ! 2 = ''outputs'' then Some (parts ! 1) else None)"

definition step_output_sources :: "step_def \<Rightarrow> string list" where
  "step_output_sources step = filter (\<lambda>source. source_step_id source \<noteq> None) (map snd (s_inputs step))"

fun providers_by_step :: "registry \<Rightarrow> (string \<times> step_def) list \<Rightarrow> zerror + (string \<times> string) list" where
  "providers_by_step reg [] = Inr []"
| "providers_by_step reg ((step_id, step) # steps) =
     bindE (get_agent reg (s_agent step)) (\<lambda>c.
       bindE (providers_by_step reg steps) (\<lambda>ps. Inr ((step_id, step_provider c) # ps)))"

definition crossing_of :: "(string \<times> string) list \<Rightarrow> string \<Rightarrow> string set \<Rightarrow> string \<Rightarrow> string set" where
  "crossing_of providers receiver crossing source =
     (case source_step_id source of
        None \<Rightarrow> crossing
      | Some src_id \<Rightarrow>
          (case map_of providers src_id of
             None \<Rightarrow> crossing
           | Some sender \<Rightarrow> if sender \<noteq> receiver then insert receiver (insert sender crossing) else crossing))"

definition step_crossings ::
  "(string \<times> string) list \<Rightarrow> string set \<Rightarrow> string \<times> step_def \<Rightarrow> string set" where
  "step_crossings providers crossing s = (case s of (step_id, step) \<Rightarrow>
     foldl (crossing_of providers (the (map_of providers step_id))) crossing (map snd (s_inputs step)))"

definition required_provider_set :: "workflow_def \<Rightarrow> registry \<Rightarrow> zerror + string set" where
  "required_provider_set w reg = bindE (providers_by_step reg (w_steps w))
     (\<lambda>providers. Inr (foldl (step_crossings providers) {} (w_steps w)))"

text \<open>The set of the non-blank entries, stripped.\<close>

definition named_set :: "string list \<Rightarrow> string set" where
  "named_set entries = set (map strip (filter (\<lambda>e. strip e \<noteq> []) entries))"

definition is_acknowledged ::
  "string set \<Rightarrow> ziggy_config \<Rightarrow> string list option \<Rightarrow> string option" where
  "is_acknowledged target cfg flag_value =
     (if target = {} then None
      else if (case flag_value of None \<Rightarrow> False | Some fs \<Rightarrow> named_set fs = target) then Some ACK_BY_FLAG
      else if list_ex (\<lambda>entry. named_set entry = target) (eg_acknowledged_provider_sets (c_egress cfg))
      then Some ACK_BY_CONFIG
      else None)"

definition crosses :: "(string \<times> string) list \<Rightarrow> string \<Rightarrow> string \<Rightarrow> bool" where
  "crosses providers receiver source = (case source_step_id source of
     None \<Rightarrow> False | Some src_id \<Rightarrow> get_or receiver providers src_id \<noteq> receiver)"

definition egress_record_of ::
  "(string \<times> string) list \<Rightarrow> string option \<Rightarrow> string \<times> step_def \<Rightarrow> egress_record list" where
  "egress_record_of providers acknowledged_by s = (case s of (step_id, step) \<Rightarrow>
     (let upstream = step_output_sources step; receiver = the (map_of providers step_id) in
      if upstream = [] then []
      else [\<lparr>er_step_id = step_id, er_provider = receiver, er_input_sources = upstream,
             er_acknowledged_by = (if list_ex (crosses providers receiver) upstream
                                   then acknowledged_by else None)\<rparr>]))"

definition build_egress_records ::
  "workflow_def \<Rightarrow> registry \<Rightarrow> string option \<Rightarrow> zerror + egress_record list" where
  "build_egress_records w reg acknowledged_by = bindE (providers_by_step reg (w_steps w))
     (\<lambda>providers. Inr (concat (map (egress_record_of providers acknowledged_by) (w_steps w))))"

text \<open>\<open>f"{ordered}"\<close> of a list of strings.\<close>

definition py_list_repr :: "string list \<Rightarrow> string" where
  "py_list_repr xs = ''['' @ join '', '' (map py_repr xs) @ '']''"

definition not_acknowledged :: "string list \<Rightarrow> zerror" where
  "not_acknowledged ordered = \<lparr>err_class = EgressNotAcknowledgedError,
     message = ''workflow sends step outputs across providers {'' @ join '', '' ordered
       @ ''} and this exact provider set is not acknowledged; re-run with --acknowledge-egress ''
       @ join '','' ordered @ '' or add '' @ py_list_repr ordered
       @ '' to [egress] acknowledged_provider_sets in trusted user config'',
     details = [(''provider_set'', PList (map PStr ordered)),
                (''hint'', PStr (''--acknowledge-egress '' @ join '','' ordered))]\<rparr>"

definition gate_egress :: "string set \<Rightarrow> string option \<Rightarrow> zerror + unit" where
  "gate_egress provider_set acknowledged_by =
     (if provider_set = {} \<or> acknowledged_by \<noteq> None then Inr ()
      else Inl (not_acknowledged (sorted_list_of_set provider_set)))"

section \<open>Data edges\<close>

text \<open>
  A cross-provider data edge: a step with an input from the output of a step of the workflow
  whose provider differs from its own.
\<close>

definition data_crossing ::
  "workflow_def \<Rightarrow> (string \<times> string) list \<Rightarrow> string \<Rightarrow> string \<Rightarrow> string \<Rightarrow> string \<Rightarrow> bool" where
  "data_crossing w providers src_id dst_id sender receiver \<longleftrightarrow>
     (\<exists>step local_name source. (dst_id, step) \<in> set (w_steps w) \<and> (local_name, source) \<in> set (s_inputs step)
        \<and> source_step_id source = Some src_id)
     \<and> map_of providers src_id = Some sender \<and> map_of providers dst_id = Some receiver \<and> sender \<noteq> receiver"

lemma providers_by_step_keys: "providers_by_step reg steps = Inr ps \<Longrightarrow> keys ps = keys steps"
  by (induction reg steps arbitrary: ps rule: providers_by_step.induct) (auto simp: bindE_eq_Inr)

lemma providers_by_step_lookup:
  "providers_by_step reg steps = Inr ps \<Longrightarrow> map_of steps s = Some step \<Longrightarrow>
   \<exists>c. get_agent reg (s_agent step) = Inr c \<and> map_of ps s = Some (step_provider c)"
  by (induction reg steps arbitrary: ps rule: providers_by_step.induct)
    (auto simp: bindE_eq_Inr split: if_splits)

lemma crossing_of_member:
  "p \<in> crossing_of providers receiver crossing source \<longleftrightarrow> p \<in> crossing
     \<or> (\<exists>src_id sender. source_step_id source = Some src_id \<and> map_of providers src_id = Some sender
          \<and> sender \<noteq> receiver \<and> (p = sender \<or> p = receiver))"
  by (auto simp: crossing_of_def split: option.splits)

lemma fold_member:
  assumes "\<And>S x. p \<in> f S x \<longleftrightarrow> p \<in> S \<or> Q x"
  shows "p \<in> foldl f S xs \<longleftrightarrow> p \<in> S \<or> (\<exists>x \<in> set xs. Q x)"
  by (induction xs arbitrary: S) (auto simp: assms)

lemma step_crossings_member:
  "p \<in> step_crossings providers crossing (step_id, step) \<longleftrightarrow> p \<in> crossing
     \<or> (\<exists>source \<in> set (map snd (s_inputs step)). \<exists>src_id sender.
          source_step_id source = Some src_id \<and> map_of providers src_id = Some sender
          \<and> sender \<noteq> the (map_of providers step_id) \<and> (p = sender \<or> p = the (map_of providers step_id)))"
  unfolding step_crossings_def prod.case
  by (rule fold_member) (rule crossing_of_member)

lemma required_provider_set_member:
  assumes "required_provider_set w reg = Inr S" and "providers_by_step reg (w_steps w) = Inr providers"
  shows "p \<in> S \<longleftrightarrow> (\<exists>src_id dst_id sender receiver.
    data_crossing w providers src_id dst_id sender receiver \<and> (p = sender \<or> p = receiver))"
proof -
  let ?R = "\<lambda>(step_id, step). \<exists>source \<in> set (map snd (s_inputs step)). \<exists>src_id sender.
          source_step_id source = Some src_id \<and> map_of providers src_id = Some sender
          \<and> sender \<noteq> the (map_of providers step_id) \<and> (p = sender \<or> p = the (map_of providers step_id))"
  have S: "S = foldl (step_crossings providers) {} (w_steps w)"
    using assms by (simp add: required_provider_set_def)
  have step: "q \<in> step_crossings providers X s \<longleftrightarrow> q \<in> X \<or> ?R s" if "q = p" for q X s
    using that step_crossings_member[of p providers X "fst s" "snd s"]
    by (simp add: split_def)
  have known: "\<exists>r. map_of providers s = Some r" if "(s, step) \<in> set (w_steps w)" for s step
    using that providers_by_step_keys[OF assms(2)]
    by (metis fst_conv image_eqI list.set_map map_of_eq_None_iff not_None_eq)
  have "p \<in> S \<longleftrightarrow> (\<exists>s \<in> set (w_steps w). ?R s)"
    unfolding S using fold_member[of p "step_crossings providers" ?R "{}" "w_steps w"] step by simp
  also have "\<dots> \<longleftrightarrow> (\<exists>src_id dst_id sender receiver.
    data_crossing w providers src_id dst_id sender receiver \<and> (p = sender \<or> p = receiver))"
    (is "?L \<longleftrightarrow> ?D")
  proof
    assume ?L
    then obtain s step ln source src sender where
      "(s, step) \<in> set (w_steps w)" "(ln, source) \<in> set (s_inputs step)" "source_step_id source = Some src"
      "map_of providers src = Some sender" "sender \<noteq> the (map_of providers s)"
      "p = sender \<or> p = the (map_of providers s)" by auto
    moreover from known[OF this(1)] obtain r where "map_of providers s = Some r" by blast
    ultimately show ?D unfolding data_crossing_def by (metis option.sel)
  next
    assume ?D
    then show ?L unfolding data_crossing_def by force
  qed
  finally show ?thesis .
qed

lemma gate_egress_Inr: "gate_egress S ack = Inr () \<longleftrightarrow> S = {} \<or> ack \<noteq> None"
  by (simp add: gate_egress_def)

lemma is_acknowledged_Some:
  "is_acknowledged S cfg flag = Some how \<Longrightarrow> S \<noteq> {} \<and>
     (how = ACK_BY_FLAG \<and> (\<exists>fs. flag = Some fs \<and> named_set fs = S)
      \<or> how = ACK_BY_CONFIG \<and> (\<exists>entry \<in> set (eg_acknowledged_provider_sets (c_egress cfg)). named_set entry = S))"
  by (auto simp: is_acknowledged_def list_ex_iff split: if_splits option.splits)

lemma egress_record_of_member:
  "r \<in> set (egress_record_of providers ack (s, step)) \<longleftrightarrow>
     step_output_sources step \<noteq> [] \<and>
     r = \<lparr>er_step_id = s, er_provider = the (map_of providers s), er_input_sources = step_output_sources step,
          er_acknowledged_by = (if list_ex (crosses providers (the (map_of providers s))) (step_output_sources step)
                                then ack else None)\<rparr>"
  by (simp add: egress_record_of_def Let_def)

lemma build_egress_records_member:
  assumes "build_egress_records w reg ack = Inr records" and "providers_by_step reg (w_steps w) = Inr providers"
  shows "r \<in> set records \<longleftrightarrow> (\<exists>(s, step) \<in> set (w_steps w). r \<in> set (egress_record_of providers ack (s, step)))"
  using assms by (auto simp: build_egress_records_def)

lemma crosses_iff:
  "crosses providers receiver source \<longleftrightarrow> (\<exists>src_id sender. source_step_id source = Some src_id
     \<and> map_of providers src_id = Some sender \<and> sender \<noteq> receiver)"
  by (auto simp: crosses_def get_or_def split: option.splits)

section \<open>Properties\<close>

text \<open>the provider set that must be acknowledged is exactly the set of providers on cross-provider
  data edges: \<open>depends_on\<close> and \<open>vars.\<close> inputs never contribute, and no crossing is missed.\<close>

theorem required_set_is_crossing_providers:
  assumes "required_provider_set w reg = Inr S" and "providers_by_step reg (w_steps w) = Inr providers"
  shows "S = {p. \<exists>src_id dst_id sender receiver.
    data_crossing w providers src_id dst_id sender receiver \<and> (p = sender \<or> p = receiver)}"
  using required_provider_set_member[OF assms] by blast


text \<open>egress records claim no more than happened: a record names a step of the workflow and that
  step's own provider, lists exactly its upstream-output sources in declaration order, at least one,
  and carries an acknowledgement only if one of them comes from another provider.\<close>

theorem egress_records_sound:
  assumes "build_egress_records w reg ack = Inr records" and "providers_by_step reg (w_steps w) = Inr providers"
    and "distinct (keys (w_steps w))" and "r \<in> set records"
  shows "\<exists>step c. (er_step_id r, step) \<in> set (w_steps w) \<and> get_agent reg (s_agent step) = Inr c
    \<and> er_provider r = step_provider c \<and> er_input_sources r = step_output_sources step
    \<and> er_input_sources r \<noteq> []
    \<and> (er_acknowledged_by r \<noteq> None \<longrightarrow> er_acknowledged_by r = ack \<and>
        (\<exists>src_id sender. data_crossing w providers src_id (er_step_id r) sender (er_provider r)))"
proof -
  from assms(4) obtain s step where s: "(s, step) \<in> set (w_steps w)"
    and r: "r \<in> set (egress_record_of providers ack (s, step))"
    unfolding build_egress_records_member[OF assms(1,2)] by blast
  from assms(3) s have "map_of (w_steps w) s = Some step" by simp
  from providers_by_step_lookup[OF assms(2) this] obtain c where
    c: "get_agent reg (s_agent step) = Inr c" "map_of providers s = Some (step_provider c)" by blast
  from r c(2) have f: "er_step_id r = s" "er_provider r = step_provider c"
    "er_input_sources r = step_output_sources step" "step_output_sources step \<noteq> []"
    "er_acknowledged_by r = (if list_ex (crosses providers (step_provider c)) (step_output_sources step)
       then ack else None)"
    by (simp_all add: egress_record_of_member)
  have "er_acknowledged_by r = ack \<and>
        (\<exists>src_id sender. data_crossing w providers src_id s sender (step_provider c))"
    if "er_acknowledged_by r \<noteq> None"
  proof -
    from that f(5) have e: "list_ex (crosses providers (step_provider c)) (step_output_sources step)"
      by (auto split: if_splits)
    then obtain source where source: "source \<in> set (step_output_sources step)"
      "crosses providers (step_provider c) source" by (auto simp: list_ex_iff)
    from source(1) obtain ln where "(ln, source) \<in> set (s_inputs step)"
      by (auto simp: step_output_sources_def)
    with source(2) s c(2) have "\<exists>src_id sender. data_crossing w providers src_id s sender (step_provider c)"
      unfolding crosses_iff data_crossing_def by blast
    with e f(5) show ?thesis by simp
  qed
  with s c(1) f show ?thesis by auto
qed

section \<open>A concrete crossing\<close>

definition egress_workflow :: workflow_def where
  "egress_workflow = \<lparr>w_name = ''demo'', w_description = None, w_variables = [],
     w_steps =
      [(''plan'', \<lparr>s_agent = ''claude'', s_prompt = ''p'', s_inputs = [], s_depends_on = [], s_working_dir = None,
          s_timeout_seconds = None, s_policy_profile = None\<rparr>),
       (''build'', \<lparr>s_agent = ''codex'', s_prompt = ''p'', s_inputs = [(''x'', ''steps.plan.outputs.text'')],
          s_depends_on = [], s_working_dir = None, s_timeout_seconds = None, s_policy_profile = None\<rparr>)]\<rparr>"

definition egress_providers :: "(string \<times> string) list" where
  "egress_providers = [(''plan'', ''anthropic''), (''build'', ''openai'')]"

lemma egress_providers: "providers_by_step BUILTIN_AGENTS (w_steps egress_workflow) = Inr egress_providers"
  by code_simp

lemma egress_required:
  "required_provider_set egress_workflow BUILTIN_AGENTS = Inr {''anthropic'', ''openai''}"
  by (simp add: required_provider_set_def egress_providers)
    (code_simp)

lemma egress_crossing: "data_crossing egress_workflow egress_providers ''plan'' ''build'' ''anthropic'' ''openai''"
proof -
  have "source_step_id ''steps.plan.outputs.text'' = Some ''plan''" by code_simp
  then show ?thesis by (auto simp: data_crossing_def egress_workflow_def egress_providers_def)
qed

theorem required_set_witness:
  "''openai'' \<in> {p. \<exists>src_id dst_id sender receiver.
    data_crossing egress_workflow egress_providers src_id dst_id sender receiver \<and> (p = sender \<or> p = receiver)}"
  using required_set_is_crossing_providers[OF egress_required egress_providers] by blast

definition egress_records :: "egress_record list" where
  "egress_records = [\<lparr>er_step_id = ''build'', er_provider = ''openai'',
     er_input_sources = [''steps.plan.outputs.text''], er_acknowledged_by = Some ACK_BY_FLAG\<rparr>]"

lemma egress_ack:
  "is_acknowledged {''anthropic'', ''openai''} default_config (Some ['' openai'', ''anthropic'', ''openai'']) = Some ACK_BY_FLAG"
  and egress_records: "build_egress_records egress_workflow BUILTIN_AGENTS (Some ACK_BY_FLAG) = Inr egress_records"
  by code_simp+


theorem egress_records_sound_witness:
  "\<exists>src_id sender. data_crossing egress_workflow egress_providers src_id ''build'' sender ''openai''"
proof -
  have "distinct (keys (w_steps egress_workflow))" by code_simp
  from egress_records_sound[OF egress_records egress_providers this, of "hd egress_records"] show ?thesis
    by (fastforce simp: egress_records_def)
qed

end
