(* ===== verification/Paths.thy ===== *)
theory Paths
  imports Models
begin

text \<open>
  \<open>policy/paths.py\<close>: canonical containment of an agent-supplied path and the sensitive-path deny
  globs. A \<open>pathlib\<close> path is its root and its parts. What \<open>os.path.realpath\<close> answers depends on
  the file system, so it is the parameter \<open>realpath\<close>: the canonical text, or the text of the
  TypeError, ValueError or OSError. \<open>fnmatchcase\<close> is modelled with its bracket classes. The
  lemmas show that a resolved path lies inside the resolved base, which paths the built-in globs
  deny, that matching ignores letter case, and that further globs only add denials.
\<close>

section \<open>Posix paths (pathlib.PurePosixPath)\<close>

datatype pth = Pth (root: string) (parts: "string list")

definition slash :: char where "slash = CHR ''/''"

text \<open>\<open>posixpath.splitroot\<close>: exactly two leading slashes are a root of their own.\<close>

definition root_of :: "string \<Rightarrow> string" where
  "root_of s = (case length (takeWhile ((=) slash) s) of 0 \<Rightarrow> [] | Suc 0 \<Rightarrow> ''/'' | Suc (Suc 0) \<Rightarrow> ''//'' | _ \<Rightarrow> ''/'')"

definition path_of :: "string \<Rightarrow> pth" where
  "path_of s = Pth (root_of s) (filter (\<lambda>p. p \<noteq> [] \<and> p \<noteq> ''.'') (split_on slash s))"

definition str_path :: "pth \<Rightarrow> string" where
  "str_path p = (if root p = [] \<and> parts p = [] then ''.'' else root p @ join ''/'' (parts p))"

definition is_absolute :: "pth \<Rightarrow> bool" where
  "is_absolute p \<longleftrightarrow> root p \<noteq> []"

text \<open>\<open>a / b\<close>.\<close>

definition join_path :: "pth \<Rightarrow> pth \<Rightarrow> pth" where
  "join_path a b = (if is_absolute b then b else Pth (root a) (parts a @ parts b))"

text \<open>\<open>a.is_relative_to(b)\<close> and, where that holds, the parts of \<open>a.relative_to(b)\<close>.\<close>

definition is_relative_to :: "pth \<Rightarrow> pth \<Rightarrow> bool" where
  "is_relative_to a b \<longleftrightarrow> root a = root b \<and> take (length (parts b)) (parts a) = parts b"

definition relative_to :: "pth \<Rightarrow> pth \<Rightarrow> pth" where
  "relative_to a b = Pth [] (drop (length (parts b)) (parts a))"

text \<open>\<open>os.path.normpath\<close>: the lexical collapse of \<open>.\<close> and \<open>..\<close>.\<close>

fun collapse :: "bool \<Rightarrow> string list \<Rightarrow> string list \<Rightarrow> string list" where
  "collapse absolute acc [] = rev acc"
| "collapse absolute acc (c # cs) =
     (if c = [] \<or> c = ''.'' then collapse absolute acc cs
      else if c \<noteq> ''..'' \<or> (\<not> absolute \<and> acc = []) \<or> (acc \<noteq> [] \<and> hd acc = ''..'')
      then collapse absolute (c # acc) cs
      else collapse absolute (tl acc) cs)"

definition normpath :: "string \<Rightarrow> string" where
  "normpath s = (if s = [] then ''.''
     else (let r = root_of s; t = r @ join ''/'' (collapse (r \<noteq> []) [] (split_on slash s))
           in if t = [] then ''.'' else t))"

section \<open>Containment\<close>

datatype ambiguity_reason = OutsideBase | TraversalEscape | SymlinkEscape | Unresolvable

fun reason_text :: "ambiguity_reason \<Rightarrow> string" where
  "reason_text OutsideBase = ''outside-base''"
| "reason_text TraversalEscape = ''traversal-escape''"
| "reason_text SymlinkEscape = ''symlink-escape''"
| "reason_text Unresolvable = ''unresolvable''"

record path_ambiguity =
  pa_message :: string
  pa_reason :: ambiguity_reason

type_synonym fs = "string \<Rightarrow> string + string"

definition ambiguity :: "string \<Rightarrow> ambiguity_reason \<Rightarrow> path_ambiguity" where
  "ambiguity m r = \<lparr>pa_message = m, pa_reason = r\<rparr>"

text \<open>
  \<open>shown\<close> is the \<open>repr\<close> of the candidate, \<open>base\<close> and \<open>candidate\<close> the texts of the two arguments.
\<close>

definition resolve_contained :: "fs \<Rightarrow> string \<Rightarrow> string \<Rightarrow> string \<Rightarrow> path_ambiguity + pth" where
  "resolve_contained realpath base shown candidate =
     (case realpath base of
        Inl e \<Rightarrow> Inl (ambiguity (''cannot canonicalize '' @ shown @ '': '' @ e) Unresolvable)
      | Inr rb \<Rightarrow>
          (let resolved_base = path_of rb; raw = path_of candidate;
               joined = join_path resolved_base raw
           in case realpath (str_path joined) of
                Inl e \<Rightarrow> Inl (ambiguity (''cannot canonicalize '' @ shown @ '': '' @ e) Unresolvable)
              | Inr r \<Rightarrow>
                  (let resolved = path_of r in
                   if is_relative_to resolved resolved_base then Inr resolved
                   else if ''..'' \<in> set (parts raw)
                   then Inl (ambiguity (''path '' @ shown @ '' escapes the base via '..' traversal'') TraversalEscape)
                   else (let lexical = path_of (normpath (str_path joined));
                             lexical_base = path_of (normpath base)
                         in if is_relative_to lexical resolved_base \<or> is_relative_to lexical lexical_base
                            then Inl (ambiguity (''path '' @ shown @ '' resolves through a symlink to outside the base'') SymlinkEscape)
                            else Inl (ambiguity (''path '' @ shown @ '' resolves outside the base'') OutsideBase)))))"

section \<open>Globs\<close>

text \<open>
  \<open>str.casefold\<close> on the code points of the model. Folding turns the micro sign into the Greek
  letter U+03BC, to which no other modelled code point folds, so it stands for itself.
\<close>

definition fold_char :: "char \<Rightarrow> string" where
  "fold_char c = (let n = (of_char c :: nat) in
     if (65 \<le> n \<and> n \<le> 90) \<or> (192 \<le> n \<and> n \<le> 222 \<and> n \<noteq> 215) then [char_of (n + 32)]
     else if n = 223 then ''ss'' else [c])"

definition casefold :: "string \<Rightarrow> string" where
  "casefold s = concat (map fold_char s)"

text \<open>
  \<open>fnmatchcase\<close>: the text between brackets is cut into chunks at the hyphens that make a range,
  a range whose ends are out of order is removed with its ends, and a leading exclamation mark
  negates.
\<close>

fun chunks :: "string \<Rightarrow> string \<Rightarrow> string list" where
  "chunks acc [] = [acc]"
| "chunks acc [c] = [acc @ [c]]"
| "chunks acc [c, d] = [acc @ [c, d]]"
| "chunks acc (c # d # e # cs) =
     (if d = CHR ''-'' then (acc @ [c]) # chunks [e] cs else chunks (acc @ [c]) (d # e # cs))"

fun drop_empty_ranges :: "string list \<Rightarrow> string list" where
  "drop_empty_ranges [] = []"
| "drop_empty_ranges (a # cs) =
     (case drop_empty_ranges cs of
        [] \<Rightarrow> [a]
      | b # bs \<Rightarrow> if hd b < last a then (butlast a @ tl b) # bs else a # b # bs)"

fun class_mem :: "string list \<Rightarrow> char \<Rightarrow> bool" where
  "class_mem [] x \<longleftrightarrow> False"
| "class_mem [a] x \<longleftrightarrow> x \<in> set a"
| "class_mem (a # b # bs) x \<longleftrightarrow>
     (if a = [] then x = CHR ''-'' else x \<in> set a \<or> (last a \<le> x \<and> x \<le> hd b)) \<or> class_mem (b # bs) x"

definition bracket_mem :: "string \<Rightarrow> char \<Rightarrow> bool" where
  "bracket_mem body x =
     (let cs = drop_empty_ranges (if startswith body ''!''
                 then (case chunks [] (drop 1 body) of [] \<Rightarrow> [''!''] | a # as \<Rightarrow> (''!'' @ a) # as)
                 else chunks [] body)
      in case cs of
           (c # a) # as \<Rightarrow> if c = CHR ''!'' then \<not> class_mem (a # as) x else class_mem cs x
         | _ \<Rightarrow> class_mem cs x)"

datatype glob_item = Star | AnyChar | OneOf "char \<Rightarrow> bool"

text \<open>The body of a bracket that closes, and the rest: a closing bracket in first place is literal.\<close>

definition bracket :: "string \<Rightarrow> (string \<times> string) option" where
  "bracket s = (let i = (if startswith s ''!'' then 1 else 0);
                    j = i + (if startswith (drop i s) '']'' then 1 else 0);
                    k = j + length (takeWhile (\<lambda>c. c \<noteq> CHR '']'') (drop j s))
                in if k < length s then Some (take k s, drop (Suc k) s) else None)"

lemma bracket_shorter: "bracket s = Some (b, r) \<Longrightarrow> length r < length s"
  by (auto simp: bracket_def Let_def split: if_splits)

function translate :: "string \<Rightarrow> glob_item list" where
  "translate [] = []"
| "translate (c # cs) =
     (if c = CHR ''*'' then Star # translate cs
      else if c = CHR ''?'' then AnyChar # translate cs
      else if c = CHR ''['' then
        (case bracket cs of Some (b, r) \<Rightarrow> OneOf (bracket_mem b) # translate r
                          | None \<Rightarrow> OneOf ((=) (CHR ''['')) # translate cs)
      else OneOf ((=) c) # translate cs)"
  by pat_completeness auto
termination
  by (relation "measure length") (auto dest!: bracket_shorter)

fun items_match :: "glob_item list \<Rightarrow> string \<Rightarrow> bool" where
  "items_match [] s \<longleftrightarrow> s = []"
| "items_match (Star # is) s \<longleftrightarrow>
     items_match is s \<or> (case s of [] \<Rightarrow> False | x # xs \<Rightarrow> items_match (Star # is) xs)"
| "items_match (AnyChar # is) s \<longleftrightarrow> (case s of [] \<Rightarrow> False | x # xs \<Rightarrow> items_match is xs)"
| "items_match (OneOf f # is) s \<longleftrightarrow> (case s of [] \<Rightarrow> False | x # xs \<Rightarrow> f x \<and> items_match is xs)"

definition fnmatchcase :: "string \<Rightarrow> string \<Rightarrow> bool" where
  "fnmatchcase name pat = items_match (translate pat) name"

definition path_segments :: "pth \<Rightarrow> string list" where
  "path_segments p = map casefold ((if root p = ''//'' then [''//''] else []) @ parts p)"

definition pattern_segments :: "string \<Rightarrow> string list option" where
  "pattern_segments pattern =
     (let ps = map casefold (filter (\<lambda>s. s \<noteq> [] \<and> s \<noteq> ''.'') (split_on slash pattern)) in
      if pattern = [] then None
      else if ps = [] then None
      else if slash \<notin> set pattern then Some (''**'' # ps)
      else Some ps)"

fun glob_match :: "string list \<Rightarrow> string list \<Rightarrow> bool" where
  "glob_match [] segments \<longleftrightarrow> segments = []"
| "glob_match (h # rest) segments \<longleftrightarrow>
     (if h = ''**'' then list_ex (\<lambda>i. glob_match rest (drop i segments)) [0 ..< length segments + 1]
      else (case segments of [] \<Rightarrow> False | s # ss \<Rightarrow> fnmatchcase s h \<and> glob_match rest ss))"

definition glob_matches :: "string \<Rightarrow> pth \<Rightarrow> bool" where
  "glob_matches pattern p = (case pattern_segments pattern of
     None \<Rightarrow> False | Some pat \<Rightarrow> glob_match pat (path_segments p))"

definition DEFAULT_SENSITIVE_GLOBS :: "string list" where
  "DEFAULT_SENSITIVE_GLOBS = [''**/.env'', ''**/.env.*'', ''**/*_key'', ''**/*.pem'', ''**/id_rsa*'',
     ''**/.aws/**'', ''**/.ssh/**'', ''**/.ziggy/config.toml'']"

definition is_sensitive :: "pth \<Rightarrow> string list \<Rightarrow> bool" where
  "is_sensitive p globs \<longleftrightarrow> list_ex (\<lambda>g. glob_matches g p) (DEFAULT_SENSITIVE_GLOBS @ globs)"

section \<open>Matching\<close>

definition endswith :: "string \<Rightarrow> string \<Rightarrow> bool" where
  "endswith s t \<longleftrightarrow> startswith (rev s) (rev t)"

lemma endswith_iff: "endswith s t \<longleftrightarrow> (\<exists>u. s = u @ t)"
  by (metis endswith_def rev_append rev_rev_ident startswith_iff)

lemma items_match_Star: "items_match (Star # is) s \<longleftrightarrow> (\<exists>u v. s = u @ v \<and> items_match is v)"
proof (induction s)
  case (Cons x xs)
  have "(\<exists>u v. x # xs = u @ v \<and> items_match is v) \<longleftrightarrow>
      items_match is (x # xs) \<or> (\<exists>u v. xs = u @ v \<and> items_match is v)"
    by (auto simp: Cons_eq_append_conv)
  with Cons show ?case by simp
qed simp

definition literal :: "string \<Rightarrow> glob_item list" where
  "literal s = map (\<lambda>c. OneOf ((=) c)) s"

lemma items_match_literal: "items_match (literal l @ is) s \<longleftrightarrow> (\<exists>v. s = l @ v \<and> items_match is v)"
proof (induction l arbitrary: s)
  case (Cons c l)
  then show ?case by (cases s) (auto simp: literal_def)
qed (simp add: literal_def)

lemma items_match_literal_only [simp]: "items_match (literal l) s \<longleftrightarrow> s = l"
  using items_match_literal[of l "[]" s] by auto

lemma items_match_star_literal: "items_match (Star # literal l) s \<longleftrightarrow> endswith s l"
  unfolding items_match_Star endswith_iff by simp

lemma items_match_literal_star: "items_match (literal l @ [Star]) s \<longleftrightarrow> startswith s l"
  unfolding items_match_literal items_match_Star startswith_iff by simp

lemma glob_match_any: "glob_match (''**'' # rest) ss \<longleftrightarrow> (\<exists>u v. ss = u @ v \<and> glob_match rest v)"
proof -
  have "glob_match (''**'' # rest) ss \<longleftrightarrow> (\<exists>i \<le> length ss. glob_match rest (drop i ss))"
    by (auto simp: list_ex_iff less_Suc_eq_le simp del: upt_Suc)
  also have "\<dots> \<longleftrightarrow> (\<exists>u v. ss = u @ v \<and> glob_match rest v)"
    by (metis append_eq_conv_conj append_take_drop_id length_append le_add1)
  finally show ?thesis .
qed

lemma glob_match_seg:
  "h \<noteq> ''**'' \<Longrightarrow> glob_match (h # rest) ss \<longleftrightarrow> (\<exists>s t. ss = s # t \<and> fnmatchcase s h \<and> glob_match rest t)"
  by (cases ss) auto

lemma glob_match_last:
  "h \<noteq> ''**'' \<Longrightarrow> glob_match [''**'', h] ss \<longleftrightarrow> ss \<noteq> [] \<and> fnmatchcase (last ss) h"
  unfolding glob_match_any glob_match_seg by (auto simp: append_eq_conv_conj) (metis append_butlast_last_id)

lemma glob_match_inner:
  "h \<noteq> ''**'' \<Longrightarrow> glob_match [''**'', h, ''**''] ss \<longleftrightarrow> list_ex (\<lambda>s. fnmatchcase s h) ss"
  unfolding glob_match_any glob_match_seg
  by (auto simp: glob_match_any list_ex_iff in_set_conv_decomp) blast

text \<open>The built-in patterns in segments.\<close>

lemma default_segments:
  "map pattern_segments DEFAULT_SENSITIVE_GLOBS =
     [Some [''**'', ''.env''], Some [''**'', ''.env.*''], Some [''**'', ''*_key''], Some [''**'', ''*.pem''],
      Some [''**'', ''id_rsa*''], Some [''**'', ''.aws'', ''**''], Some [''**'', ''.ssh'', ''**''],
      Some [''**'', ''.ziggy'', ''config.toml'']]"
  by code_simp

lemma default_items:
  "translate ''.env'' = literal ''.env''" "translate ''.env.*'' = literal ''.env.'' @ [Star]"
  "translate ''*_key'' = Star # literal ''_key''" "translate ''*.pem'' = Star # literal ''.pem''"
  "translate ''id_rsa*'' = literal ''id_rsa'' @ [Star]" "translate ''.aws'' = literal ''.aws''"
  "translate ''.ssh'' = literal ''.ssh''" "translate ''.ziggy'' = literal ''.ziggy''"
  "translate ''config.toml'' = literal ''config.toml''"
  by (simp_all add: literal_def)

lemma default_names:
  "fnmatchcase s ''.env'' \<longleftrightarrow> s = ''.env''" "fnmatchcase s ''.env.*'' \<longleftrightarrow> startswith s ''.env.''"
  "fnmatchcase s ''*_key'' \<longleftrightarrow> endswith s ''_key''" "fnmatchcase s ''*.pem'' \<longleftrightarrow> endswith s ''.pem''"
  "fnmatchcase s ''id_rsa*'' \<longleftrightarrow> startswith s ''id_rsa''" "fnmatchcase s ''.aws'' \<longleftrightarrow> s = ''.aws''"
  "fnmatchcase s ''.ssh'' \<longleftrightarrow> s = ''.ssh''" "fnmatchcase s ''.ziggy'' \<longleftrightarrow> s = ''.ziggy''"
  "fnmatchcase s ''config.toml'' \<longleftrightarrow> s = ''config.toml''"
  unfolding fnmatchcase_def default_items items_match_literal_star items_match_star_literal items_match_literal_only
  by (rule refl)+

definition sensitive_name :: "string \<Rightarrow> bool" where
  "sensitive_name s \<longleftrightarrow> s = ''.env'' \<or> startswith s ''.env.'' \<or> endswith s ''_key'' \<or> endswith s ''.pem''
     \<or> startswith s ''id_rsa''"

lemma glob_matches_of: "pattern_segments g = Some pat \<Longrightarrow> glob_matches g p = glob_match pat (path_segments p)"
  by (simp add: glob_matches_def)

lemma glob_match_ziggy:
  "glob_match [''**'', ''.ziggy'', ''config.toml''] ss \<longleftrightarrow> (\<exists>pre. ss = pre @ [''.ziggy'', ''config.toml''])"
proof -
  have ne: "''.ziggy'' \<noteq> ''**''" "''config.toml'' \<noteq> ''**''" by simp_all
  show ?thesis
    unfolding glob_match_any glob_match_seg[OF ne(1)] glob_match_seg[OF ne(2)] default_names
      glob_match.simps(1) by blast
qed

section \<open>Properties\<close>

text \<open>the built-in deny globs protect exactly these paths, by their case-folded segments: anything
  below or named \<open>.aws\<close> or \<open>.ssh\<close> at any depth, a last segment that is \<open>.env\<close>, starts with
  \<open>.env.\<close> or \<open>id_rsa\<close>, or ends with \<open>_key\<close> or \<open>.pem\<close>, and \<open>.ziggy/config.toml\<close> at any depth.\<close>

theorem builtin_sensitive_paths:
  "is_sensitive p [] \<longleftrightarrow>
     (path_segments p \<noteq> [] \<and> sensitive_name (last (path_segments p)))
     \<or> list_ex (\<lambda>s. s = ''.aws'' \<or> s = ''.ssh'') (path_segments p)
     \<or> (\<exists>pre. path_segments p = pre @ [''.ziggy'', ''config.toml''])"
proof -
  let ?ss = "path_segments p"
  have "is_sensitive p [] \<longleftrightarrow>
      list_ex (\<lambda>q. case q of None \<Rightarrow> False | Some pat \<Rightarrow> glob_match pat ?ss)
        (map pattern_segments DEFAULT_SENSITIVE_GLOBS)"
    by (simp add: is_sensitive_def glob_matches_def list_ex_iff)
  also have "\<dots> \<longleftrightarrow> glob_match [''**'', ''.env''] ?ss \<or> glob_match [''**'', ''.env.*''] ?ss
      \<or> glob_match [''**'', ''*_key''] ?ss \<or> glob_match [''**'', ''*.pem''] ?ss
      \<or> glob_match [''**'', ''id_rsa*''] ?ss \<or> glob_match [''**'', ''.aws'', ''**''] ?ss
      \<or> glob_match [''**'', ''.ssh'', ''**''] ?ss \<or> glob_match [''**'', ''.ziggy'', ''config.toml''] ?ss"
    unfolding default_segments by (simp only: list_ex_Cons_iff list_ex_Nil_iff option.case simp_thms)
  also have "\<dots> \<longleftrightarrow> (?ss \<noteq> [] \<and> sensitive_name (last ?ss))
     \<or> list_ex (\<lambda>s. s = ''.aws'' \<or> s = ''.ssh'') ?ss
     \<or> (\<exists>pre. ?ss = pre @ [''.ziggy'', ''config.toml''])"
  proof -
    have ne: "''.env'' \<noteq> ''**''" "''.env.*'' \<noteq> ''**''" "''*_key'' \<noteq> ''**''" "''*.pem'' \<noteq> ''**''"
      "''id_rsa*'' \<noteq> ''**''" "''.aws'' \<noteq> ''**''" "''.ssh'' \<noteq> ''**''" by simp_all
    have ex: "list_ex (\<lambda>s. s = ''.aws'' \<or> s = ''.ssh'') ?ss \<longleftrightarrow>
        list_ex (\<lambda>s. s = ''.aws'') ?ss \<or> list_ex (\<lambda>s. s = ''.ssh'') ?ss"
      unfolding list_ex_iff by blast
    show ?thesis
      unfolding glob_match_last[OF ne(1)] glob_match_last[OF ne(2)] glob_match_last[OF ne(3)]
        glob_match_last[OF ne(4)] glob_match_last[OF ne(5)] glob_match_inner[OF ne(6)]
        glob_match_inner[OF ne(7)] glob_match_ziggy default_names ex sensitive_name_def
      by argo
  qed
  finally show ?thesis .
qed

text \<open>Letter case of a text, and of every part of a path.\<close>

definition same_letters :: "string \<Rightarrow> string \<Rightarrow> bool" where
  "same_letters s t \<longleftrightarrow> list_all2 (\<lambda>c d. to_lower c = to_lower d) s t"

lemma fold_char_to_lower: "fold_char (to_lower c) = fold_char c"
  by (auto simp: fold_char_def to_lower_def Let_def)

lemma same_letters_casefold: "same_letters s t \<Longrightarrow> casefold s = casefold t"
  unfolding same_letters_def
proof (induction rule: list_all2_induct)
  case (Cons c s d t)
  then have "fold_char c = fold_char d" by (metis fold_char_to_lower)
  with Cons.IH show ?case by (simp add: casefold_def)
qed simp

text \<open>no spelling evades a deny glob: two paths that differ only in the case of ASCII letters are
  matched by the same globs, the user's and the project's as well as the built-in ones.\<close>

theorem deny_globs_ignore_case:
  assumes "root p = root q" and "list_all2 same_letters (parts p) (parts q)"
  shows "glob_matches g p = glob_matches g q \<and> is_sensitive p globs = is_sensitive q globs"
proof -
  from assms(2) have "map casefold (parts p) = map casefold (parts q)"
    by (induction rule: list_all2_induct) (auto dest: same_letters_casefold)
  with assms(1) have "path_segments p = path_segments q" by (simp add: path_segments_def)
  then have "glob_matches h p = glob_matches h q" for h
    by (simp only: glob_matches_def)
  then show ?thesis by (simp add: is_sensitive_def)
qed

text \<open>The contract of containment: what a resolved path is.\<close>

lemma resolve_contained_Inr:
  "resolve_contained realpath base shown candidate = Inr p \<longleftrightarrow>
     (\<exists>rb r. realpath base = Inr rb \<and> realpath (str_path (join_path (path_of rb) (path_of candidate))) = Inr r
        \<and> p = path_of r \<and> is_relative_to p (path_of rb))"
  by (auto simp: resolve_contained_def Let_def split: sum.splits if_splits)

lemma is_relative_to_iff: "is_relative_to a b \<longleftrightarrow> root a = root b \<and> (\<exists>rest. parts a = parts b @ rest)"
  unfolding is_relative_to_def by (metis append_eq_conv_conj append_take_drop_id)

lemma is_relative_to_trans: "is_relative_to a b \<Longrightarrow> is_relative_to b c \<Longrightarrow> is_relative_to a c"
  by (auto simp: is_relative_to_iff)

text \<open>Without symbolic links \<open>realpath\<close> is the lexical normal form of an absolute path.\<close>

definition linkless :: fs where
  "linkless s = Inr (normpath s)"

text \<open>a path is accepted exactly when it is provably inside: the result is the canonical form of the
  candidate joined to the canonical base, it continues the base's parts, and whenever the canonical
  form leaves the base the call fails, with a reason that is outside-base only if the candidate has no
  \<open>..\<close> part and does not lie inside the base lexically either.\<close>

theorem containment_is_exact:
  assumes "realpath base = Inr rb"
    and "realpath (str_path (join_path (path_of rb) (path_of candidate))) = Inr r"
  shows "case resolve_contained realpath base shown candidate of
      Inr p \<Rightarrow> p = path_of r \<and> root p = root (path_of rb) \<and> (\<exists>rest. parts p = parts (path_of rb) @ rest)
    | Inl e \<Rightarrow> \<not> is_relative_to (path_of r) (path_of rb)
        \<and> (pa_reason e = OutsideBase \<longrightarrow> ''..'' \<notin> set (parts (path_of candidate))
            \<and> \<not> is_relative_to (path_of (normpath (str_path (join_path (path_of rb) (path_of candidate))))) (path_of rb))
        \<and> (pa_reason e = TraversalEscape \<longleftrightarrow> ''..'' \<in> set (parts (path_of candidate)))
        \<and> pa_reason e \<noteq> Unresolvable"
proof (cases "is_relative_to (path_of r) (path_of rb)")
  case True
  with assms have "resolve_contained realpath base shown candidate = Inr (path_of r)"
    by (auto simp: resolve_contained_Inr)
  with True show ?thesis by (simp add: is_relative_to_iff)
next
  case False
  with assms show ?thesis by (simp add: resolve_contained_def Let_def ambiguity_def)
qed

section \<open>Concrete paths\<close>

theorem deny_globs_ignore_case_witness:
  "is_sensitive (Pth [] [''a'', ''.ENV'']) [] = is_sensitive (Pth [] [''a'', ''.env'']) []
   \<and> is_sensitive (Pth [] [''a'', ''.env'']) []"
proof -
  have "list_all2 same_letters (parts (Pth [] [''a'', ''.ENV''])) (parts (Pth [] [''a'', ''.env'']))"
    by code_simp
  from deny_globs_ignore_case[OF _ this, of "[]" "[]"] have
    "is_sensitive (Pth [] [''a'', ''.ENV'']) [] = is_sensitive (Pth [] [''a'', ''.env'']) []" by simp
  moreover have "is_sensitive (Pth [] [''a'', ''.env'']) []" by code_simp
  ultimately show ?thesis by blast
qed

theorem containment_is_exact_witness:
  "\<exists>e. resolve_contained linkless ''/ws'' [] ''../etc/passwd'' = Inl e \<and> pa_reason e = TraversalEscape"
proof -
  have b: "linkless ''/ws'' = Inr ''/ws''" by code_simp
  have r: "linkless (str_path (join_path (path_of ''/ws'') (path_of ''../etc/passwd''))) = Inr ''/etc/passwd''"
    by code_simp
  have n: "''..'' \<in> set (parts (path_of ''../etc/passwd''))" by code_simp
  have o: "\<not> is_relative_to (path_of ''/etc/passwd'') (path_of ''/ws'')" by code_simp
  from containment_is_exact[of linkless "''/ws''" "''/ws''" "''../etc/passwd''" "''/etc/passwd''" "[]", OF b r] n o
  show ?thesis by (auto simp: is_relative_to_iff split: sum.splits)
qed

end
