(* ===== verification/Mediation.thy ===== *)
theory Mediation
  imports Paths Config_Schema
begin

text \<open>
  \<open>policy/mediation.py\<close>: the guarded decisions on client-mediated reads, writes, terminals and
  permission requests. Request fields arrive as untyped values. The lemmas show exactly what is
  allowed, that an allowed path lies inside and matches no deny rule, that more deny rules never
  allow more, and that every decision's rule stands in the recorded provenance.
\<close>

section \<open>Decisions and the policy\<close>

definition GUARDED_POLICY_NAME :: string where "GUARDED_POLICY_NAME = ''guarded''"

definition RULE_READ_IN_WORKSPACE_ALLOW :: string where "RULE_READ_IN_WORKSPACE_ALLOW = ''read-in-workspace-allow''"
definition RULE_WRITE_IN_STEPDIR_ALLOW :: string where "RULE_WRITE_IN_STEPDIR_ALLOW = ''write-in-stepdir-allow''"
definition RULE_TERMINAL_USER_ALLOWLIST :: string where "RULE_TERMINAL_USER_ALLOWLIST = ''terminal-user-allowlist''"
definition RULE_SENSITIVE_PATH_DENY :: string where "RULE_SENSITIVE_PATH_DENY = ''sensitive-path-deny''"
definition RULE_OUTSIDE_WORKSPACE_DENY :: string where "RULE_OUTSIDE_WORKSPACE_DENY = ''outside-workspace-deny''"
definition RULE_OUTSIDE_STEPDIR_DENY :: string where "RULE_OUTSIDE_STEPDIR_DENY = ''outside-stepdir-deny''"
definition RULE_TERMINAL_DEFAULT_DENY :: string where "RULE_TERMINAL_DEFAULT_DENY = ''terminal-default-deny''"
definition RULE_UNMATCHED_DEFAULT_DENY :: string where "RULE_UNMATCHED_DEFAULT_DENY = ''unmatched-default-deny''"
definition RULE_PATH_AMBIGUITY_DENY :: string where "RULE_PATH_AMBIGUITY_DENY = ''path-ambiguity-deny''"

definition SOURCE_DEFAULT :: string where "SOURCE_DEFAULT = ''default''"
definition SOURCE_USER :: string where "SOURCE_USER = ''user''"
definition SOURCE_PROJECT_DENIAL :: string where "SOURCE_PROJECT_DENIAL = ''project-denial''"

definition WRITE_KINDS :: "string list" where "WRITE_KINDS = [''edit'', ''delete'', ''move'']"

definition project_denial_rule_id :: "nat \<Rightarrow> string" where
  "project_denial_rule_id i = ''project-denial:'' @ str_of_nat i"

record denial =
  dn_kind :: string
  dn_pattern :: string
  dn_args_prefix :: "string list"

record decision =
  d_allowed :: bool
  d_rule_id :: string
  d_policy_name :: string
  d_policy_source :: string
  d_reason :: string
  d_scope :: enforcement_scope

record policy =
  po_workspace :: pth
  po_step_dir :: pth
  po_name :: string
  po_allowlist :: "(string \<times> string list) list"
  po_denials :: "denial list"
  po_default_globs :: "string list"
  po_user_globs :: "string list"
  po_has_user_rules :: bool
  po_deny_writes :: bool          \<comment> \<open>an instance of the subclass \<open>PlanningMediationPolicy\<close>\<close>

text \<open>A denial of the policy module itself, or one of the configuration, which has no argument prefix.\<close>

datatype denial_input = Native denial | Configured project_denial

fun denial_kind_text :: "denial_kind \<Rightarrow> string" where
  "denial_kind_text DenyPath = ''path''"
| "denial_kind_text DenyTerminal = ''terminal''"

fun normalize_denial :: "denial_input \<Rightarrow> denial" where
  "normalize_denial (Native d) = d"
| "normalize_denial (Configured d) =
     \<lparr>dn_kind = denial_kind_text (pj_kind d), dn_pattern = pj_pattern d, dn_args_prefix = []\<rparr>"

text \<open>Construction fails on an ambiguous step directory, or when \<open>realpath\<close> of the workspace raises.\<close>

datatype guard_failure = Ambiguous path_ambiguity | RealpathRaises string

definition posix_repr :: "string \<Rightarrow> string" where
  "posix_repr s = ''PosixPath('' @ py_repr (str_path (path_of s)) @ '')''"

definition guarded ::
  "fs \<Rightarrow> string \<Rightarrow> string \<Rightarrow> policy_profile option \<Rightarrow> denial_input list \<Rightarrow> string list \<Rightarrow> string option
    \<Rightarrow> guard_failure + policy" where
  "guarded realpath workspace step_dir profile denials sensitive_globs profile_name =
     (case realpath workspace of
        Inl e \<Rightarrow> Inl (RealpathRaises e)
      | Inr w \<Rightarrow>
          (let resolved_workspace = path_of w in
           case resolve_contained realpath (str_path resolved_workspace) (posix_repr step_dir) step_dir of
             Inl a \<Rightarrow> Inl (Ambiguous a)
           | Inr resolved_step_dir \<Rightarrow>
               (let allowlist = (case profile of None \<Rightarrow> []
                      | Some p \<Rightarrow> map (\<lambda>r. (tr_command r, tr_args_prefix r)) (pf_terminal_allowlist p));
                    user_globs = (case profile of None \<Rightarrow> sensitive_globs
                      | Some p \<Rightarrow> pf_deny_paths p @ sensitive_globs)
                in Inr \<lparr>po_workspace = resolved_workspace, po_step_dir = resolved_step_dir,
                        po_name = (case profile_name of Some (c # cs) \<Rightarrow> c # cs | _ \<Rightarrow> GUARDED_POLICY_NAME),
                        po_allowlist = allowlist, po_denials = map normalize_denial denials,
                        po_default_globs = DEFAULT_SENSITIVE_GLOBS, po_user_globs = user_globs,
                        po_has_user_rules = (profile \<noteq> None \<or> user_globs \<noteq> []), po_deny_writes = False\<rparr>)))"

section \<open>Path decisions\<close>

definition make :: "policy \<Rightarrow> bool \<Rightarrow> string \<Rightarrow> string \<Rightarrow> string \<Rightarrow> decision" where
  "make po allowed rule_id source reason = \<lparr>d_allowed = allowed, d_rule_id = rule_id,
     d_policy_name = po_name po, d_policy_source = source, d_reason = reason, d_scope = AcpMediated\<rparr>"

definition unmatched :: "policy \<Rightarrow> string \<Rightarrow> decision" where
  "unmatched po reason = make po False RULE_UNMATCHED_DEFAULT_DENY SOURCE_DEFAULT reason"

definition resolve_in_workspace :: "fs \<Rightarrow> policy \<Rightarrow> string \<Rightarrow> decision + pth" where
  "resolve_in_workspace realpath po path =
     (case resolve_contained realpath (str_path (po_workspace po)) (py_repr path) path of
        Inr p \<Rightarrow> Inr p
      | Inl e \<Rightarrow>
          if pa_reason e = OutsideBase
          then Inl (make po False RULE_OUTSIDE_WORKSPACE_DENY SOURCE_DEFAULT
                 (''path '' @ py_repr path @ '' resolves outside the workspace''))
          else Inl (make po False RULE_PATH_AMBIGUITY_DENY SOURCE_DEFAULT
                 (''path '' @ py_repr path @ '' failed canonical containment ('' @ reason_text (pa_reason e)
                  @ ''): '' @ pa_message e)))"

fun first_denial :: "(nat \<Rightarrow> denial \<Rightarrow> decision option) \<Rightarrow> nat \<Rightarrow> denial list \<Rightarrow> decision option" where
  "first_denial f i [] = None"
| "first_denial f i (d # ds) = (case f i d of Some r \<Rightarrow> Some r | None \<Rightarrow> first_denial f (Suc i) ds)"

definition project_path_denial :: "policy \<Rightarrow> pth \<Rightarrow> string \<Rightarrow> nat \<Rightarrow> denial \<Rightarrow> decision option" where
  "project_path_denial po rel requested i d =
     (if dn_kind d = ''path'' \<and> glob_matches (dn_pattern d) rel
      then Some (make po False (project_denial_rule_id i) SOURCE_PROJECT_DENIAL
             (''path '' @ py_repr requested @ '' matches project deny glob '' @ py_repr (dn_pattern d)))
      else None)"

fun first_glob :: "policy \<Rightarrow> pth \<Rightarrow> string \<Rightarrow> string \<Rightarrow> string \<Rightarrow> string list \<Rightarrow> decision option" where
  "first_glob po rel requested source label [] = None"
| "first_glob po rel requested source label (g # gs) =
     (if glob_matches g rel
      then Some (make po False RULE_SENSITIVE_PATH_DENY source
             (''path '' @ py_repr requested @ '' matches '' @ label @ '' '' @ py_repr g))
      else first_glob po rel requested source label gs)"

text \<open>
  \<open>rel\<close> is taken from a path that containment in the workspace has just been proved for, so
  \<open>relative_to\<close> does not raise as long as the workspace stays its own canonical path.
\<close>

definition path_denial :: "policy \<Rightarrow> pth \<Rightarrow> string \<Rightarrow> decision option" where
  "path_denial po resolved requested =
     (let rel = relative_to resolved (po_workspace po) in
      case first_denial (project_path_denial po rel requested) 0 (po_denials po) of
        Some d \<Rightarrow> Some d
      | None \<Rightarrow>
          (case first_glob po rel requested SOURCE_DEFAULT ''sensitive glob'' (po_default_globs po) of
             Some d \<Rightarrow> Some d
           | None \<Rightarrow> first_glob po rel requested SOURCE_USER ''user sensitive glob'' (po_user_globs po)))"

definition decide_fs_read :: "fs \<Rightarrow> policy \<Rightarrow> string \<Rightarrow> decision" where
  "decide_fs_read realpath po path =
     (case resolve_in_workspace realpath po path of
        Inl d \<Rightarrow> d
      | Inr resolved \<Rightarrow>
          (case path_denial po resolved path of
             Some d \<Rightarrow> d
           | None \<Rightarrow> make po True RULE_READ_IN_WORKSPACE_ALLOW SOURCE_DEFAULT
               (''read of '' @ py_repr path @ '' resolves inside the workspace'')))"

definition guarded_fs_write :: "fs \<Rightarrow> policy \<Rightarrow> string \<Rightarrow> decision" where
  "guarded_fs_write realpath po path =
     (case resolve_in_workspace realpath po path of
        Inl d \<Rightarrow> d
      | Inr resolved \<Rightarrow>
          (case path_denial po resolved path of
             Some d \<Rightarrow> d
           | None \<Rightarrow>
               if \<not> is_relative_to resolved (po_step_dir po)
               then make po False RULE_OUTSIDE_STEPDIR_DENY SOURCE_DEFAULT
                 (''write of '' @ py_repr path @ '' is inside the workspace but outside the step working directory'')
               else make po True RULE_WRITE_IN_STEPDIR_ALLOW SOURCE_DEFAULT
                 (''write of '' @ py_repr path @ '' resolves inside the step working directory'')))"

text \<open>
  \<open>orchestrator/planner.py PlanningMediationPolicy\<close>, the policy of a planning step, overrides the decision
  on writes; every use of it, by a callback or a permission request, is dispatched on the class.
\<close>

definition RULE_PLANNING_WRITE_DENY :: string where "RULE_PLANNING_WRITE_DENY = ''planning-write-deny''"

definition planning_fs_write :: "policy \<Rightarrow> string \<Rightarrow> decision" where
  "planning_fs_write po path = make po False RULE_PLANNING_WRITE_DENY SOURCE_DEFAULT
     (''write of '' @ py_repr path @ '' denied: the planning isolation profile denies ALL filesystem writes'')"

definition decide_fs_write :: "fs \<Rightarrow> policy \<Rightarrow> string \<Rightarrow> decision" where
  "decide_fs_write realpath po path =
     (if po_deny_writes po then planning_fs_write po path else guarded_fs_write realpath po path)"

section \<open>Terminal decisions\<close>

definition args_prefix_matches :: "string list \<Rightarrow> string list \<Rightarrow> bool" where
  "args_prefix_matches pre args \<longleftrightarrow> pre = take (length pre) args"

definition project_terminal_denial ::
  "policy \<Rightarrow> string \<Rightarrow> string list \<Rightarrow> nat \<Rightarrow> denial \<Rightarrow> decision option" where
  "project_terminal_denial po command args i d =
     (if dn_kind d = ''terminal'' \<and> dn_pattern d = command \<and> args_prefix_matches (dn_args_prefix d) args
      then Some (make po False (project_denial_rule_id i) SOURCE_PROJECT_DENIAL
             (''command '' @ py_repr command @ '' matches project terminal denial''))
      else None)"

fun str_args :: "pyval list \<Rightarrow> string list option" where
  "str_args [] = Some []"
| "str_args (PStr s # vs) = map_option ((#) s) (str_args vs)"
| "str_args (_ # vs) = None"

definition terminal_args :: "pyval \<Rightarrow> string list option" where
  "terminal_args v = (case v of PNone \<Rightarrow> Some [] | PList vs \<Rightarrow> str_args vs | _ \<Rightarrow> None)"

definition allowlisted :: "policy \<Rightarrow> string \<Rightarrow> string list \<Rightarrow> bool" where
  "allowlisted po command args \<longleftrightarrow>
     list_ex (\<lambda>(c, pre). c = command \<and> args_prefix_matches pre args) (po_allowlist po)"

definition terminal_decision :: "policy \<Rightarrow> pyval \<Rightarrow> pyval \<Rightarrow> decision" where
  "terminal_decision po command args_raw =
     (case command of
        PStr (c # cs) \<Rightarrow>
          (case terminal_args args_raw of
             None \<Rightarrow> make po False RULE_TERMINAL_DEFAULT_DENY SOURCE_DEFAULT
               (''terminal args for '' @ py_repr (c # cs) @ '' are malformed; guarded policy denies by default'')
           | Some args \<Rightarrow>
               (case first_denial (project_terminal_denial po (c # cs) args) 0 (po_denials po) of
                  Some d \<Rightarrow> d
                | None \<Rightarrow>
                    if allowlisted po (c # cs) args
                    then make po True RULE_TERMINAL_USER_ALLOWLIST SOURCE_USER
                      (''command '' @ py_repr (c # cs) @ '' matches the trusted user terminal allowlist'')
                    else make po False RULE_TERMINAL_DEFAULT_DENY SOURCE_DEFAULT
                      (''command '' @ py_repr (c # cs) @ '' matches no user terminal allowlist rule; guarded policy denies terminal execution by default'')))
      | _ \<Rightarrow> make po False RULE_TERMINAL_DEFAULT_DENY SOURCE_DEFAULT
               ''terminal request carries no command string; guarded policy denies by default'')"

text \<open>\<open>repr\<close> of an untyped value.\<close>

fun val_repr :: "pyval \<Rightarrow> string"
  and val_reprs :: "pyval list \<Rightarrow> string list"
  and pair_reprs :: "(string \<times> pyval) list \<Rightarrow> string list" where
  "val_repr PNone = ''None''"
| "val_repr (PBool b) = (if b then ''True'' else ''False'')"
| "val_repr (PInt i) = str_of_int i"
| "val_repr (PFloat f) = f"
| "val_repr (PStr s) = py_repr s"
| "val_repr (PList vs) = ''['' @ join '', '' (val_reprs vs) @ '']''"
| "val_repr (PDict kvs) = ''{'' @ join '', '' (pair_reprs kvs) @ ''}''"
| "val_reprs [] = []"
| "val_reprs (v # vs) = val_repr v # val_reprs vs"
| "pair_reprs [] = []"
| "pair_reprs ((k, v) # kvs) = (py_repr k @ '': '' @ val_repr v) # pair_reprs kvs"

definition decide_terminal :: "policy \<Rightarrow> pyval \<Rightarrow> pyval \<Rightarrow> decision" where
  "decide_terminal po op payload =
     (if op \<noteq> PStr ''create''
      then make po False RULE_TERMINAL_DEFAULT_DENY SOURCE_DEFAULT
        (''terminal op '' @ val_repr op @ '' carries no command; guarded policy denies by default'')
      else (case payload of
          PDict d \<Rightarrow> terminal_decision po (get_or PNone d ''command'') (get_or PNone d ''args'')
        | _ \<Rightarrow> make po False RULE_TERMINAL_DEFAULT_DENY SOURCE_DEFAULT
                 ''terminal create payload is malformed; guarded policy denies by default''))"

section \<open>Permission requests\<close>

fun command_in :: "pyval \<Rightarrow> (string \<times> pyval) option" where
  "command_in (PDict d) = (case get_or PNone d ''command'' of
     PStr (c # cs) \<Rightarrow> Some (c # cs, get_or PNone d ''args'') | _ \<Rightarrow> None)"
| "command_in _ = None"

text \<open>\<open>raw_input\<close> wins over a top-level command.\<close>

definition extract_command :: "(string \<times> pyval) list \<Rightarrow> (string \<times> pyval) option" where
  "extract_command tool_call = (case command_in (get_or PNone tool_call ''raw_input'') of
     Some r \<Rightarrow> Some r | None \<Rightarrow> command_in (PDict tool_call))"

fun entry_paths :: "pyval list \<Rightarrow> string list option" where
  "entry_paths [] = Some []"
| "entry_paths (PStr s # es) = map_option ((#) s) (entry_paths es)"
| "entry_paths (PDict d # es) = (case get_or PNone d ''path'' of
     PStr s \<Rightarrow> map_option ((#) s) (entry_paths es) | _ \<Rightarrow> None)"
| "entry_paths (_ # es) = None"

definition location_paths :: "(string \<times> pyval) list \<Rightarrow> string list option" where
  "location_paths tool_call = (case get_or PNone tool_call ''locations'' of
     PNone \<Rightarrow> Some [] | PList es \<Rightarrow> entry_paths es | _ \<Rightarrow> None)"

fun decide_all :: "(string \<Rightarrow> decision) \<Rightarrow> decision \<Rightarrow> string list \<Rightarrow> decision" where
  "decide_all decide last_decision [] = last_decision"
| "decide_all decide last_decision (p # ps) =
     (if \<not> d_allowed (decide p) then decide p else decide_all decide (decide p) ps)"

definition hashable :: "pyval \<Rightarrow> bool" where
  "hashable v = (case v of PList _ \<Rightarrow> False | PDict _ \<Rightarrow> False | _ \<Rightarrow> True)"

definition decide_locations ::
  "policy \<Rightarrow> (string \<Rightarrow> decision) \<Rightarrow> pyval \<Rightarrow> (string \<times> pyval) list \<Rightarrow> decision" where
  "decide_locations po decide kind tool_call = (case location_paths tool_call of
     None \<Rightarrow> unmatched po ''tool call locations are malformed''
   | Some [] \<Rightarrow> unmatched po (''tool kind '' @ val_repr kind @ '' carries no locations'')
   | Some ps \<Rightarrow> decide_all decide (unmatched po ''no location was evaluated'') ps)"

text \<open>
  \<open>kind in _WRITE_KINDS\<close> looks the value up in a set, so a list or a dictionary as the kind
  raises TypeError; the result is then the name of that exception.
\<close>

definition decide_permission :: "fs \<Rightarrow> policy \<Rightarrow> pyval \<Rightarrow> string + decision" where
  "decide_permission realpath po tool_call_value =
     (case tool_call_value of
        PDict tool_call \<Rightarrow>
          (let kind = get_or PNone tool_call ''kind'' in
           if kind = PStr ''execute'' then
             (case extract_command tool_call of
                None \<Rightarrow> Inr (make po False RULE_TERMINAL_DEFAULT_DENY SOURCE_DEFAULT
                  ''execute permission request carries no raw command; guarded policy denies terminal execution by default'')
              | Some (command, args) \<Rightarrow> Inr (terminal_decision po (PStr command) args))
           else if kind = PStr ''read'' then Inr (decide_locations po (decide_fs_read realpath po) kind tool_call)
           else if \<not> hashable kind then Inl ''TypeError''
           else if kind \<in> PStr ` set WRITE_KINDS
           then Inr (decide_locations po (decide_fs_write realpath po) kind tool_call)
           else Inr (unmatched po (''tool kind '' @ val_repr kind @ '' is not mapped to a guarded rule'')))
      | _ \<Rightarrow> Inr (unmatched po ''permission request carries no tool call payload''))"

section \<open>Provenance\<close>

definition str_list :: "string list \<Rightarrow> pyval" where "str_list xs = PList (map PStr xs)"

definition rule_entry :: "string \<Rightarrow> string \<Rightarrow> string \<Rightarrow> (string \<times> pyval) list" where
  "rule_entry rule_id effect source =
     [(''rule_id'', PStr rule_id), (''effect'', PStr effect), (''source'', PStr source)]"

definition denial_entry :: "nat \<times> denial \<Rightarrow> (string \<times> pyval) list" where
  "denial_entry x = (case x of (i, d) \<Rightarrow>
     rule_entry (project_denial_rule_id i) ''deny'' ''project''
     @ [(''kind'', PStr (dn_kind d)), (''pattern'', PStr (dn_pattern d))]
     @ (if dn_kind d = ''terminal'' then [(''args_prefix'', str_list (dn_args_prefix d))] else []))"

definition provenance_rules :: "policy \<Rightarrow> (string \<times> pyval) list list" where
  "provenance_rules po =
     [rule_entry RULE_READ_IN_WORKSPACE_ALLOW ''allow'' SOURCE_DEFAULT,
      rule_entry RULE_WRITE_IN_STEPDIR_ALLOW ''allow'' SOURCE_DEFAULT,
      rule_entry RULE_SENSITIVE_PATH_DENY ''deny'' SOURCE_DEFAULT @ [(''patterns'', str_list (po_default_globs po))]]
     @ (if po_user_globs po = [] then []
        else [rule_entry RULE_SENSITIVE_PATH_DENY ''deny'' SOURCE_USER @ [(''patterns'', str_list (po_user_globs po))]])
     @ map (\<lambda>(command, pre). rule_entry RULE_TERMINAL_USER_ALLOWLIST ''allow'' SOURCE_USER
              @ [(''command'', PStr command), (''args_prefix'', str_list pre)]) (po_allowlist po)
     @ map denial_entry (List.enumerate 0 (po_denials po))
     @ map (\<lambda>r. rule_entry r ''deny'' SOURCE_DEFAULT)
         [RULE_OUTSIDE_WORKSPACE_DENY, RULE_OUTSIDE_STEPDIR_DENY, RULE_TERMINAL_DEFAULT_DENY,
          RULE_PATH_AMBIGUITY_DENY, RULE_UNMATCHED_DEFAULT_DENY]"

definition build_policy_provenance :: "policy \<Rightarrow> string option \<Rightarrow> policy_provenance" where
  "build_policy_provenance po ceiling_source =
     \<lparr>pp_policy_name = po_name po,
      pp_ceiling_source = (case ceiling_source of Some s \<Rightarrow> s
         | None \<Rightarrow> if po_has_user_rules po then SOURCE_USER else SOURCE_DEFAULT),
      pp_rules = provenance_rules po,
      pp_tightened_by = (if po_denials po = [] then []
         else [''project-denials:'' @ str_of_nat (length (po_denials po))]),
      pp_enforcement = ''advisory'',
      pp_enforcement_scope_default = AcpMediated\<rparr>"

section \<open>What is allowed\<close>

text \<open>No deny rule of the policy hits a path of the workspace.\<close>

definition clear :: "policy \<Rightarrow> pth \<Rightarrow> bool" where
  "clear po p \<longleftrightarrow> (let rel = relative_to p (po_workspace po) in
     \<not> list_ex (\<lambda>d. dn_kind d = ''path'' \<and> glob_matches (dn_pattern d) rel) (po_denials po)
     \<and> \<not> list_ex (\<lambda>g. glob_matches g rel) (po_default_globs po)
     \<and> \<not> list_ex (\<lambda>g. glob_matches g rel) (po_user_globs po))"

lemma make_simps [simp]:
  "d_allowed (make po a r s m) = a" "d_rule_id (make po a r s m) = r"
  "d_policy_source (make po a r s m) = s" "d_policy_name (make po a r s m) = po_name po"
  "d_scope (make po a r s m) = AcpMediated"
  by (simp_all add: make_def)

lemma unmatched_denies [simp]: "\<not> d_allowed (unmatched po m)"
  by (simp add: unmatched_def)

lemma first_denial_None:
  "(\<And>i d. f i d \<noteq> None \<longleftrightarrow> P d) \<Longrightarrow> first_denial f i ds = None \<longleftrightarrow> \<not> list_ex P ds"
proof (induction ds arbitrary: i)
  case (Cons d ds)
  then show ?case by (cases "f i d") (auto, metis option.distinct(1))
qed simp

lemma first_denial_Some: "first_denial f i ds = Some r \<Longrightarrow> \<exists>j d. i \<le> j \<and> j < i + length ds \<and> d = ds ! (j - i) \<and> f j d = Some r"
proof (induction ds arbitrary: i)
  case (Cons d ds)
  show ?case
  proof (cases "f i d")
    case None
    with Cons.prems have "first_denial f (Suc i) ds = Some r" by simp
    from Cons.IH[OF this] obtain j where "Suc i \<le> j" "j < Suc i + length ds" "f j (ds ! (j - Suc i)) = Some r" by blast
    then show ?thesis by (intro exI[of _ j]) (auto simp: nth_Cons' Suc_diff_Suc)
  next
    case (Some x)
    with Cons.prems show ?thesis by (intro exI[of _ i]) auto
  qed
qed simp

lemma first_glob_None: "first_glob po rel q s l gs = None \<longleftrightarrow> \<not> list_ex (\<lambda>g. glob_matches g rel) gs"
  by (induction gs) auto

lemma first_glob_Some:
  "first_glob po rel q s l gs = Some d \<Longrightarrow>
   gs \<noteq> [] \<and> \<not> d_allowed d \<and> d_rule_id d = RULE_SENSITIVE_PATH_DENY \<and> d_policy_source d = s"
  by (induction gs) (auto split: if_splits)

lemma project_path_denial_hits:
  "project_path_denial po rel q i d \<noteq> None \<longleftrightarrow> dn_kind d = ''path'' \<and> glob_matches (dn_pattern d) rel"
  by (simp add: project_path_denial_def)

lemma project_terminal_denial_hits:
  "project_terminal_denial po c args i d \<noteq> None \<longleftrightarrow>
     dn_kind d = ''terminal'' \<and> dn_pattern d = c \<and> args_prefix_matches (dn_args_prefix d) args"
  by (simp add: project_terminal_denial_def)

lemma path_denial_None: "path_denial po p q = None \<longleftrightarrow> clear po p"
proof -
  let ?rel = "relative_to p (po_workspace po)"
  have "path_denial po p q = None \<longleftrightarrow>
      first_denial (project_path_denial po ?rel q) 0 (po_denials po) = None
      \<and> first_glob po ?rel q SOURCE_DEFAULT ''sensitive glob'' (po_default_globs po) = None
      \<and> first_glob po ?rel q SOURCE_USER ''user sensitive glob'' (po_user_globs po) = None"
    by (simp add: path_denial_def Let_def split: option.split)
  then show ?thesis
    unfolding first_denial_None[OF project_path_denial_hits] first_glob_None clear_def Let_def .
qed

lemma project_denial_denies:
  assumes "first_denial (project_path_denial po rel q) 0 (po_denials po) = Some d
    \<or> first_denial (project_terminal_denial po c args) 0 (po_denials po) = Some d"
  shows "\<not> d_allowed d \<and> d_policy_source d = SOURCE_PROJECT_DENIAL
    \<and> (\<exists>i < length (po_denials po). d_rule_id d = project_denial_rule_id i)"
proof -
  from assms obtain i x where "i < length (po_denials po)"
    "project_path_denial po rel q i x = Some d \<or> project_terminal_denial po c args i x = Some d"
    by (metis add_0 first_denial_Some)
  then show ?thesis
    by (auto simp: project_path_denial_def project_terminal_denial_def split: if_splits)
qed

lemma path_denial_denies: "path_denial po p q = Some d \<Longrightarrow> \<not> d_allowed d"
  unfolding path_denial_def Let_def
  by (auto split: option.splits dest: project_denial_denies[OF disjI1] first_glob_Some)

lemma resolve_in_workspace_Inr:
  "resolve_in_workspace realpath po path = Inr p \<longleftrightarrow>
     resolve_contained realpath (str_path (po_workspace po)) (py_repr path) path = Inr p"
  by (auto simp: resolve_in_workspace_def split: sum.splits if_splits)

lemma resolve_in_workspace_Inl: "resolve_in_workspace realpath po path = Inl d \<Longrightarrow> \<not> d_allowed d"
  by (auto simp: resolve_in_workspace_def split: sum.splits if_splits)

lemma read_allowed:
  "d_allowed (decide_fs_read realpath po path) \<longleftrightarrow>
     (\<exists>p. resolve_contained realpath (str_path (po_workspace po)) (py_repr path) path = Inr p \<and> clear po p)"
proof (cases "resolve_in_workspace realpath po path")
  case (Inl d)
  then show ?thesis using resolve_in_workspace_Inl[OF Inl] resolve_in_workspace_Inr[of realpath po path]
    by (simp add: decide_fs_read_def)
next
  case (Inr p)
  then have r: "resolve_contained realpath (str_path (po_workspace po)) (py_repr path) path = Inr p"
    by (simp add: resolve_in_workspace_Inr)
  show ?thesis
  proof (cases "path_denial po p path")
    case None
    then have "clear po p" by (simp only: path_denial_None)
    with None Inr r show ?thesis by (simp add: decide_fs_read_def)
  next
    case (Some d)
    then have "\<not> clear po p" by (metis option.distinct(1) path_denial_None)
    with Some Inr r path_denial_denies[OF Some] show ?thesis by (simp add: decide_fs_read_def)
  qed
qed

lemma guarded_write_allowed:
  "d_allowed (guarded_fs_write realpath po path) \<longleftrightarrow>
     (\<exists>p. resolve_contained realpath (str_path (po_workspace po)) (py_repr path) path = Inr p \<and> clear po p
        \<and> is_relative_to p (po_step_dir po))"
proof (cases "resolve_in_workspace realpath po path")
  case (Inl d)
  then show ?thesis using resolve_in_workspace_Inl[OF Inl] resolve_in_workspace_Inr[of realpath po path]
    by (simp add: guarded_fs_write_def)
next
  case (Inr p)
  then have r: "resolve_contained realpath (str_path (po_workspace po)) (py_repr path) path = Inr p"
    by (simp add: resolve_in_workspace_Inr)
  show ?thesis
  proof (cases "path_denial po p path")
    case None
    then have "clear po p" by (simp only: path_denial_None)
    with None Inr r show ?thesis by (simp add: guarded_fs_write_def)
  next
    case (Some d)
    then have "\<not> clear po p" by (metis option.distinct(1) path_denial_None)
    with Some Inr r path_denial_denies[OF Some] show ?thesis by (simp add: guarded_fs_write_def)
  qed
qed

lemma planning_write_denied [simp]: "po_deny_writes po \<Longrightarrow> \<not> d_allowed (decide_fs_write realpath po path)"
  by (simp add: decide_fs_write_def planning_fs_write_def)

lemma write_allowed:
  "d_allowed (decide_fs_write realpath po path) \<longleftrightarrow> \<not> po_deny_writes po \<and>
     (\<exists>p. resolve_contained realpath (str_path (po_workspace po)) (py_repr path) path = Inr p \<and> clear po p
        \<and> is_relative_to p (po_step_dir po))"
  using guarded_write_allowed[of realpath po path] by (cases "po_deny_writes po") (simp_all add: decide_fs_write_def planning_fs_write_def)

text \<open>The terminal rules as a condition on the command.\<close>

definition terminal_ok :: "policy \<Rightarrow> pyval \<Rightarrow> pyval \<Rightarrow> bool" where
  "terminal_ok po command args_raw \<longleftrightarrow> (\<exists>cmd args. command = PStr cmd \<and> cmd \<noteq> [] \<and> terminal_args args_raw = Some args
     \<and> \<not> list_ex (\<lambda>d. dn_kind d = ''terminal'' \<and> dn_pattern d = cmd \<and> args_prefix_matches (dn_args_prefix d) args)
           (po_denials po)
     \<and> allowlisted po cmd args)"

lemma terminal_allowed: "d_allowed (terminal_decision po command args_raw) \<longleftrightarrow> terminal_ok po command args_raw"
proof (cases "\<exists>c cs args. command = PStr (c # cs) \<and> terminal_args args_raw = Some args")
  case True
  then obtain c cs args where c: "command = PStr (c # cs)" "terminal_args args_raw = Some args" by blast
  let ?f = "first_denial (project_terminal_denial po (c # cs) args) 0 (po_denials po)"
  have n: "?f = None \<longleftrightarrow> \<not> list_ex (\<lambda>d. dn_kind d = ''terminal'' \<and> dn_pattern d = c # cs
      \<and> args_prefix_matches (dn_args_prefix d) args) (po_denials po)"
    by (rule first_denial_None[OF project_terminal_denial_hits])
  show ?thesis
  proof (cases ?f)
    case None
    with n c show ?thesis by (simp add: terminal_decision_def terminal_ok_def)
  next
    case (Some d)
    from project_denial_denies[OF disjI2[OF Some]] have "\<not> d_allowed d" by simp
    with Some c have "\<not> d_allowed (terminal_decision po command args_raw)" by (simp add: terminal_decision_def)
    moreover from Some n c have "\<not> terminal_ok po command args_raw" by (auto simp: terminal_ok_def)
    ultimately show ?thesis by blast
  qed
next
  case False
  then have "\<not> terminal_ok po command args_raw" by (auto simp: terminal_ok_def neq_Nil_conv)
  moreover from False have "\<not> d_allowed (terminal_decision po command args_raw)"
    by (auto simp: terminal_decision_def split: pyval.splits list.splits option.splits)
  ultimately show ?thesis by blast
qed

lemma decide_all_allowed: "d_allowed (decide_all f d ps) \<longleftrightarrow> (if ps = [] then d_allowed d else list_all (\<lambda>p. d_allowed (f p)) ps)"
  by (induction f d ps rule: decide_all.induct) auto

lemma decide_locations_allowed:
  "d_allowed (decide_locations po f kind tc) \<longleftrightarrow>
     (\<exists>ps. location_paths tc = Some ps \<and> ps \<noteq> [] \<and> list_all (\<lambda>p. d_allowed (f p)) ps)"
  by (auto simp: decide_locations_def decide_all_allowed split: option.splits list.splits)

text \<open>What a permission request must say to be allowed.\<close>

definition permission_ok :: "fs \<Rightarrow> policy \<Rightarrow> (string \<times> pyval) list \<Rightarrow> bool" where
  "permission_ok realpath po tc \<longleftrightarrow>
      get_or PNone tc ''kind'' = PStr ''execute'' \<and>
         (\<exists>cmd args. extract_command tc = Some (cmd, args) \<and> terminal_ok po (PStr cmd) args)
       \<or> get_or PNone tc ''kind'' = PStr ''read'' \<and>
         (\<exists>ps. location_paths tc = Some ps \<and> ps \<noteq> [] \<and> list_all (\<lambda>p. d_allowed (decide_fs_read realpath po p)) ps)
       \<or> get_or PNone tc ''kind'' \<in> PStr ` set WRITE_KINDS \<and>
         (\<exists>ps. location_paths tc = Some ps \<and> ps \<noteq> [] \<and> list_all (\<lambda>p. d_allowed (decide_fs_write realpath po p)) ps)"

lemma permission_allowed:
  "(\<exists>d. decide_permission realpath po v = Inr d \<and> d_allowed d) \<longleftrightarrow>
    (\<exists>tc. v = PDict tc \<and> permission_ok realpath po tc)"
proof (cases v)
  case (PDict tc)
  define kind where "kind = get_or PNone tc ''kind''"
  have ne: "PStr ''execute'' \<notin> PStr ` set WRITE_KINDS" "PStr ''read'' \<notin> PStr ` set WRITE_KINDS"
    "PStr ''read'' \<noteq> PStr ''execute''" by (simp_all add: WRITE_KINDS_def)
  have h: "hashable kind" if "kind \<in> PStr ` set WRITE_KINDS" using that by (auto simp: hashable_def)
  consider "kind = PStr ''execute''" | "kind = PStr ''read''" | "kind \<in> PStr ` set WRITE_KINDS"
    | "kind \<noteq> PStr ''execute''" "kind \<noteq> PStr ''read''" "kind \<notin> PStr ` set WRITE_KINDS" by blast
  then have "(\<exists>d. decide_permission realpath po v = Inr d \<and> d_allowed d) \<longleftrightarrow>
      (kind = PStr ''execute'' \<and>
         (\<exists>cmd args. extract_command tc = Some (cmd, args) \<and> terminal_ok po (PStr cmd) args)
       \<or> kind = PStr ''read'' \<and>
         (\<exists>ps. location_paths tc = Some ps \<and> ps \<noteq> [] \<and> list_all (\<lambda>p. d_allowed (decide_fs_read realpath po p)) ps)
       \<or> kind \<in> PStr ` set WRITE_KINDS \<and>
         (\<exists>ps. location_paths tc = Some ps \<and> ps \<noteq> [] \<and> list_all (\<lambda>p. d_allowed (decide_fs_write realpath po p)) ps))"
  proof cases
    case 1
    have "decide_permission realpath po v = (case extract_command tc of
        None \<Rightarrow> Inr (make po False RULE_TERMINAL_DEFAULT_DENY SOURCE_DEFAULT
          ''execute permission request carries no raw command; guarded policy denies terminal execution by default'')
      | Some (command, args) \<Rightarrow> Inr (terminal_decision po (PStr command) args))"
      unfolding decide_permission_def PDict pyval.case Let_def kind_def[symmetric] if_P[OF 1] ..
    then show ?thesis
      using 1 ne
      by (cases "extract_command tc") (auto simp: terminal_allowed)
  next
    case 2
    then have n: "kind \<noteq> PStr ''execute''" using ne(3) by (simp only: simp_thms)
    have "decide_permission realpath po v = Inr (decide_locations po (decide_fs_read realpath po) kind tc)"
      unfolding decide_permission_def PDict pyval.case Let_def kind_def[symmetric] if_not_P[OF n] if_P[OF 2] ..
    then show ?thesis
      using 2 n ne
      by (simp add: decide_locations_allowed)
  next
    case 3
    then have n: "kind \<noteq> PStr ''execute''" "kind \<noteq> PStr ''read''" using ne(1,2) by metis+
    have "decide_permission realpath po v = Inr (decide_locations po (decide_fs_write realpath po) kind tc)"
      using n 3 h by (simp add: decide_permission_def PDict Let_def kind_def[symmetric])
    then show ?thesis
      using 3 n
      by (simp add: decide_locations_allowed)
  next
    case 4
    then have "\<not> (\<exists>d. decide_permission realpath po v = Inr d \<and> d_allowed d)"
      by (simp add: decide_permission_def PDict Let_def kind_def[symmetric])
    with 4 show ?thesis by simp
  qed
  then show ?thesis unfolding PDict kind_def permission_ok_def by simp
qed (simp_all add: decide_permission_def)

section \<open>Tightening\<close>

text \<open>
  The contract of a guarded operation: what a tighter policy allows, the policy allows. It holds
  of whole batches of requests too.
\<close>

locale guard =
  fixes allows :: "'p \<Rightarrow> 'r \<Rightarrow> bool" and tighter :: "'p \<Rightarrow> 'p \<Rightarrow> bool"
  assumes allows_mono: "tighter q p \<Longrightarrow> allows q r \<Longrightarrow> allows p r"
begin

lemma batch_mono: "tighter q p \<Longrightarrow> list_all (allows q) rs \<Longrightarrow> list_all (allows p) rs"
  by (auto simp: list_all_iff intro: allows_mono)

lemma denial_mono: "tighter q p \<Longrightarrow> \<not> allows p r \<Longrightarrow> \<not> allows q r"
  using allows_mono by blast

end

definition tightens :: "policy \<Rightarrow> policy \<Rightarrow> bool" where
  "tightens q p \<longleftrightarrow> po_workspace q = po_workspace p \<and> po_step_dir q = po_step_dir p
     \<and> set (po_allowlist q) \<subseteq> set (po_allowlist p) \<and> set (po_denials p) \<subseteq> set (po_denials q)
     \<and> set (po_default_globs p) \<subseteq> set (po_default_globs q) \<and> set (po_user_globs p) \<subseteq> set (po_user_globs q)
     \<and> (po_deny_writes p \<longrightarrow> po_deny_writes q)"

lemma clear_tightens: "tightens q p \<Longrightarrow> clear q x \<Longrightarrow> clear p x"
  unfolding tightens_def clear_def Let_def list_ex_iff by auto

definition allows_read :: "fs \<Rightarrow> policy \<Rightarrow> string \<Rightarrow> bool" where
  "allows_read realpath po path \<longleftrightarrow> d_allowed (decide_fs_read realpath po path)"

definition allows_write :: "fs \<Rightarrow> policy \<Rightarrow> string \<Rightarrow> bool" where
  "allows_write realpath po path \<longleftrightarrow> d_allowed (decide_fs_write realpath po path)"

definition allows_terminal :: "policy \<Rightarrow> pyval \<times> pyval \<Rightarrow> bool" where
  "allows_terminal po r \<longleftrightarrow> d_allowed (decide_terminal po (fst r) (snd r))"

definition allows_permission :: "fs \<Rightarrow> policy \<Rightarrow> pyval \<Rightarrow> bool" where
  "allows_permission realpath po v \<longleftrightarrow> (\<exists>d. decide_permission realpath po v = Inr d \<and> d_allowed d)"

interpretation reads: guard "allows_read realpath" tightens for realpath
  by unfold_locales (auto simp: allows_read_def read_allowed tightens_def[of _ _] dest: clear_tightens[rotated])

interpretation writes: guard "allows_write realpath" tightens for realpath
  by unfold_locales (auto simp: allows_write_def write_allowed tightens_def[of _ _] dest: clear_tightens[rotated])

lemma terminal_ok_tightens: "tightens q p \<Longrightarrow> terminal_ok q c a \<Longrightarrow> terminal_ok p c a"
  unfolding tightens_def terminal_ok_def allowlisted_def list_ex_iff by blast

interpretation terminals: guard allows_terminal tightens
proof unfold_locales
  fix q p and r :: "pyval \<times> pyval"
  assume t: "tightens q p" and a: "allows_terminal q r"
  then show "allows_terminal p r"
    using terminal_ok_tightens[OF t]
    by (auto simp: allows_terminal_def decide_terminal_def terminal_allowed split: pyval.splits if_splits)
qed

interpretation permissions: guard "allows_permission realpath" tightens for realpath
proof unfold_locales
  fix q p v
  assume t: "tightens q p" and a: "allows_permission realpath q v"
  have r: "list_all (\<lambda>x. d_allowed (decide_fs_read realpath p x)) ps"
    if "list_all (\<lambda>x. d_allowed (decide_fs_read realpath q x)) ps" for ps
    using reads.batch_mono[OF t, of realpath ps] that unfolding allows_read_def .
  have w: "list_all (\<lambda>x. d_allowed (decide_fs_write realpath p x)) ps"
    if "list_all (\<lambda>x. d_allowed (decide_fs_write realpath q x)) ps" for ps
    using writes.batch_mono[OF t, of realpath ps] that unfolding allows_write_def .
  have "permission_ok realpath p tc" if "permission_ok realpath q tc" for tc
    using that r w terminal_ok_tightens[OF t] unfolding permission_ok_def
    by (elim disjE) blast+
  with a show "allows_permission realpath p v"
    unfolding allows_permission_def permission_allowed by blast
qed

section \<open>The recorded provenance\<close>

definition ruled :: "policy \<Rightarrow> decision \<Rightarrow> bool" where
  "ruled po d \<longleftrightarrow>
     (if d_allowed d
      then d_rule_id d \<in> {RULE_READ_IN_WORKSPACE_ALLOW, RULE_WRITE_IN_STEPDIR_ALLOW}
        \<or> d_rule_id d = RULE_TERMINAL_USER_ALLOWLIST \<and> po_allowlist po \<noteq> []
      else d_rule_id d \<in> {RULE_SENSITIVE_PATH_DENY, RULE_OUTSIDE_WORKSPACE_DENY, RULE_OUTSIDE_STEPDIR_DENY,
             RULE_TERMINAL_DEFAULT_DENY, RULE_PATH_AMBIGUITY_DENY, RULE_UNMATCHED_DEFAULT_DENY}
        \<or> po_deny_writes po \<and> d_rule_id d = RULE_PLANNING_WRITE_DENY
        \<or> (\<exists>i < length (po_denials po). d_rule_id d = project_denial_rule_id i))"

definition recorded :: "(string \<times> pyval) list list \<Rightarrow> decision \<Rightarrow> bool" where
  "recorded rules d \<longleftrightarrow> list_ex (\<lambda>e. map_of e ''rule_id'' = Some (PStr (d_rule_id d))
     \<and> map_of e ''effect'' = Some (PStr (if d_allowed d then ''allow'' else ''deny''))) rules"

lemma rule_entry_recorded:
  "e \<in> set rules \<Longrightarrow> e = rule_entry (d_rule_id d) (if d_allowed d then ''allow'' else ''deny'') src @ rest \<Longrightarrow>
   recorded rules d"
  unfolding recorded_def list_ex_iff by (rule bexI[of _ e]) (simp_all add: rule_entry_def)

lemma ruled_recorded:
  assumes "ruled po d" and "\<not> po_deny_writes po"
  shows "recorded (provenance_rules po) d"
proof (cases "d_allowed d")
  case True
  then consider "d_rule_id d = RULE_READ_IN_WORKSPACE_ALLOW" | "d_rule_id d = RULE_WRITE_IN_STEPDIR_ALLOW"
    | "d_rule_id d = RULE_TERMINAL_USER_ALLOWLIST" "po_allowlist po \<noteq> []"
    using assms by (auto simp: ruled_def)
  then show ?thesis
  proof cases
    case 3
    then obtain c pre where "(c, pre) \<in> set (po_allowlist po)" by (cases "po_allowlist po") auto
    then have "rule_entry RULE_TERMINAL_USER_ALLOWLIST ''allow'' SOURCE_USER
        @ [(''command'', PStr c), (''args_prefix'', str_list pre)] \<in> set (provenance_rules po)"
      by (force simp: provenance_rules_def)
    with 3 True show ?thesis by (auto intro: rule_entry_recorded)
  next
    case 1
    have "rule_entry RULE_READ_IN_WORKSPACE_ALLOW ''allow'' SOURCE_DEFAULT \<in> set (provenance_rules po)"
      by (simp add: provenance_rules_def)
    with 1 True show ?thesis by (auto intro: rule_entry_recorded[where rest = "[]"])
  next
    case 2
    have "rule_entry RULE_WRITE_IN_STEPDIR_ALLOW ''allow'' SOURCE_DEFAULT \<in> set (provenance_rules po)"
      by (simp add: provenance_rules_def)
    with 2 True show ?thesis by (auto intro: rule_entry_recorded[where rest = "[]"])
  qed
next
  case False
  then consider "d_rule_id d = RULE_SENSITIVE_PATH_DENY"
    | "d_rule_id d \<in> set [RULE_OUTSIDE_WORKSPACE_DENY, RULE_OUTSIDE_STEPDIR_DENY, RULE_TERMINAL_DEFAULT_DENY,
         RULE_PATH_AMBIGUITY_DENY, RULE_UNMATCHED_DEFAULT_DENY]"
    | i where "i < length (po_denials po)" "d_rule_id d = project_denial_rule_id i"
    using assms by (auto simp: ruled_def)
  then show ?thesis
  proof cases
    case 1
    have "rule_entry RULE_SENSITIVE_PATH_DENY ''deny'' SOURCE_DEFAULT @ [(''patterns'', str_list (po_default_globs po))]
        \<in> set (provenance_rules po)" by (simp add: provenance_rules_def)
    with 1 False show ?thesis by (auto intro: rule_entry_recorded)
  next
    case 2
    then have "rule_entry (d_rule_id d) ''deny'' SOURCE_DEFAULT \<in> set (provenance_rules po)"
      by (simp only: provenance_rules_def set_append set_map) blast
    with False show ?thesis by (auto intro: rule_entry_recorded[where rest = "[]"])
  next
    case 3
    have "(i, po_denials po ! i) \<in> set (List.enumerate 0 (po_denials po))"
      using 3(1) by (simp add: in_set_enumerate_eq)
    then have "denial_entry (i, po_denials po ! i) \<in> set (provenance_rules po)"
      by (simp only: provenance_rules_def set_append set_map) blast
    with 3(2) False show ?thesis unfolding denial_entry_def prod.case by (auto intro: rule_entry_recorded)
  qed
qed

lemma make_ruled:
  "ruled po (make po False RULE_TERMINAL_DEFAULT_DENY s m)"
  "ruled po (make po False RULE_UNMATCHED_DEFAULT_DENY s m)"
  "ruled po (make po False RULE_OUTSIDE_STEPDIR_DENY s m)"
  "ruled po (make po True RULE_READ_IN_WORKSPACE_ALLOW s m)"
  "ruled po (make po True RULE_WRITE_IN_STEPDIR_ALLOW s m)"
  "ruled po (unmatched po m)"
  by (simp_all add: ruled_def unmatched_def)

lemma resolve_ruled: "resolve_in_workspace realpath po path = Inl d \<Longrightarrow> ruled po d"
  by (auto simp: resolve_in_workspace_def ruled_def split: sum.splits if_splits)

lemma path_denial_ruled: "path_denial po p q = Some d \<Longrightarrow> ruled po d"
  unfolding path_denial_def Let_def
  by (auto split: option.splits dest!: project_denial_denies[OF disjI1] first_glob_Some simp: ruled_def)

lemma read_ruled: "ruled po (decide_fs_read realpath po path)"
  by (auto simp: decide_fs_read_def make_ruled resolve_ruled path_denial_ruled split: sum.split option.split)

lemma write_ruled: "ruled po (decide_fs_write realpath po path)"
  by (auto simp: decide_fs_write_def planning_fs_write_def guarded_fs_write_def ruled_def[of po "make _ _ RULE_PLANNING_WRITE_DENY _ _"]
      make_ruled resolve_ruled path_denial_ruled split: sum.split option.split)

lemma terminal_decision_ruled: "ruled po (terminal_decision po c a)"
proof -
  have "ruled po d" if "first_denial (project_terminal_denial po x y) 0 (po_denials po) = Some d" for x y d
    using project_denial_denies[OF disjI2[OF that]] by (simp add: ruled_def)
  moreover have "ruled po (make po True RULE_TERMINAL_USER_ALLOWLIST s m)" if "allowlisted po x y" for x y s m
    using that by (auto simp: ruled_def allowlisted_def)
  ultimately show ?thesis
    by (auto simp: terminal_decision_def make_ruled split: pyval.split list.split option.split)
qed

lemma decide_all_ruled: "(\<And>p. ruled po (f p)) \<Longrightarrow> ruled po d \<Longrightarrow> ruled po (decide_all f d ps)"
  by (induction f d ps rule: decide_all.induct) auto

lemma decide_locations_ruled: "(\<And>p. ruled po (f p)) \<Longrightarrow> ruled po (decide_locations po f k tc)"
  unfolding decide_locations_def
  by (auto simp: make_ruled intro!: decide_all_ruled split: option.split list.split)

lemma permission_ruled: "decide_permission realpath po v = Inr d \<Longrightarrow> ruled po d"
  unfolding decide_permission_def Let_def
  by (auto simp: make_ruled terminal_decision_ruled
      intro!: decide_locations_ruled read_ruled write_ruled split: pyval.splits if_splits option.splits)

section \<open>Properties\<close>

text \<open>
  Documented behaviour of \<open>os.path.realpath\<close> on an unchanging file system: its result is a
  canonical absolute path, which it maps to itself.
\<close>

definition canonical_fs :: "fs \<Rightarrow> bool" where
  "canonical_fs realpath \<longleftrightarrow> (\<forall>s r. realpath s = Inr r \<longrightarrow> realpath r = Inr r \<and> str_path (path_of r) = r)"

text \<open>The path globs that the profile of a step denies.\<close>

definition profile_globs :: "policy_profile option \<Rightarrow> string list" where
  "profile_globs profile = (case profile of None \<Rightarrow> [] | Some p \<Rightarrow> pf_deny_paths p)"

lemma guarded_Inr:
  assumes "guarded realpath workspace step_dir profile denials globs name = Inr po" and "canonical_fs realpath"
  obtains w where "realpath workspace = Inr w" "po_workspace po = path_of w" "str_path (po_workspace po) = w"
    "realpath (str_path (po_workspace po)) = Inr w" "is_relative_to (po_step_dir po) (po_workspace po)"
    "po_denials po = map normalize_denial denials" "po_default_globs po = DEFAULT_SENSITIVE_GLOBS"
    "set globs \<subseteq> set (po_user_globs po)" "set (profile_globs profile) \<subseteq> set (po_user_globs po)"
proof -
  from assms(1) obtain w where w: "realpath workspace = Inr w"
    by (auto simp: guarded_def split: sum.splits)
  with assms(2) have c: "realpath w = Inr w" "str_path (path_of w) = w" by (auto simp: canonical_fs_def)
  from assms(1) w obtain sd where sd: "resolve_contained realpath (str_path (path_of w)) (posix_repr step_dir) step_dir = Inr sd"
    by (auto simp: guarded_def Let_def split: sum.splits)
  with c have "is_relative_to sd (path_of w)" by (auto simp: resolve_contained_Inr)
  with assms(1) w c sd show ?thesis
    by (intro that[of w]) (auto simp: guarded_def Let_def profile_globs_def split: option.splits)
qed


text \<open>further rules only tighten. Adding project denials or sensitive globs to a guarded policy never
  turns a denied read, write, terminal or permission request into an allowed one.\<close>

theorem further_rules_only_tighten:
  assumes "guarded realpath workspace step_dir profile denials globs name = Inr po"
    and "guarded realpath workspace step_dir profile (denials @ more_denials) (globs @ more_globs) name' = Inr po'"
  shows "(d_allowed (decide_fs_read realpath po' path) \<longrightarrow> d_allowed (decide_fs_read realpath po path))
    \<and> (d_allowed (decide_fs_write realpath po' path) \<longrightarrow> d_allowed (decide_fs_write realpath po path))
    \<and> (d_allowed (decide_terminal po' op payload) \<longrightarrow> d_allowed (decide_terminal po op payload))
    \<and> ((\<exists>d. decide_permission realpath po' v = Inr d \<and> d_allowed d) \<longrightarrow>
         (\<exists>d. decide_permission realpath po v = Inr d \<and> d_allowed d))"
proof -
  have t: "tightens po' po"
    using assms by (auto simp: guarded_def tightens_def Let_def split: sum.splits option.splits)
  show ?thesis
    using reads.allows_mono[OF t, of realpath path] writes.allows_mono[OF t, of realpath path]
      terminals.allows_mono[OF t, of "(op, payload)"] permissions.allows_mono[OF t, of realpath v]
    by (simp add: allows_read_def allows_write_def allows_terminal_def allows_permission_def)
qed

text \<open>a terminal is allowed only by the user's allowlist: the request carries a non-empty command and a
  list of string arguments (or none), no project denial hits it, and a rule of the user's profile names
  exactly this command with a prefix of these arguments.\<close>

theorem terminal_needs_user_rule:
  "d_allowed (terminal_decision po command args_raw) \<longleftrightarrow>
    (\<exists>cmd args. command = PStr cmd \<and> cmd \<noteq> [] \<and> terminal_args args_raw = Some args
     \<and> \<not> list_ex (\<lambda>d. dn_kind d = ''terminal'' \<and> dn_pattern d = cmd \<and> args_prefix_matches (dn_args_prefix d) args)
           (po_denials po)
     \<and> list_ex (\<lambda>(c, pre). c = cmd \<and> args_prefix_matches pre args) (po_allowlist po))"
  unfolding terminal_allowed terminal_ok_def allowlisted_def ..

text \<open>a permission request is granted exactly when it is an execute request whose command a terminal
  decision allows, or a read or write request with at least one location all of whose paths are allowed;
  and the decision itself fails, with TypeError, exactly for a kind that is a list or a dictionary.\<close>

theorem permission_outcome:
  "((\<exists>d. decide_permission realpath po v = Inr d \<and> d_allowed d) \<longleftrightarrow>
      (\<exists>tc. v = PDict tc \<and> permission_ok realpath po tc))
   \<and> (decide_permission realpath po v = Inl e \<longleftrightarrow>
      e = ''TypeError'' \<and> (\<exists>tc. v = PDict tc \<and> \<not> hashable (get_or PNone tc ''kind'')))"
proof -
  have "decide_permission realpath po v = Inl e \<longleftrightarrow>
      e = ''TypeError'' \<and> (\<exists>tc. v = PDict tc \<and> \<not> hashable (get_or PNone tc ''kind''))"
  proof (cases v)
    case (PDict tc)
    define kind where "kind = get_or PNone tc ''kind''"
    define T where "T = ''TypeError''"
    have h: "hashable (PStr s)" for s by (simp add: hashable_def)
    have "decide_permission realpath po v = Inl e \<longleftrightarrow> e = T \<and> \<not> hashable kind"
      unfolding decide_permission_def PDict pyval.case Let_def kind_def[symmetric] T_def[symmetric]
      by (auto simp: h split: option.splits)
    then show ?thesis unfolding PDict kind_def T_def by simp
  qed (simp_all add: decide_permission_def)
  with permission_allowed show ?thesis by blast
qed

text \<open>the run result explains every decision of a policy but the planning one: the rule id of each
  decision, with its effect, is among the rules of the recorded provenance.\<close>

theorem decisions_are_in_provenance:
  "po_deny_writes po
   \<or> recorded (pp_rules (build_policy_provenance po src)) (decide_fs_read realpath po path)
   \<and> recorded (pp_rules (build_policy_provenance po src)) (decide_fs_write realpath po path)
   \<and> recorded (pp_rules (build_policy_provenance po src)) (terminal_decision po command args_raw)
   \<and> (case decide_permission realpath po v of
        Inr d \<Rightarrow> recorded (pp_rules (build_policy_provenance po src)) d | Inl e \<Rightarrow> True)"
proof -
  have r: "pp_rules (build_policy_provenance po src) = provenance_rules po"
    by (simp add: build_policy_provenance_def)
  show ?thesis unfolding r
    by (cases "po_deny_writes po") (auto simp: ruled_recorded[OF read_ruled] ruled_recorded[OF write_ruled]
        ruled_recorded[OF terminal_decision_ruled] split: sum.split dest: permission_ruled ruled_recorded)
qed

section \<open>A concrete policy\<close>

definition tiny_fs :: fs where
  "tiny_fs s = (if s \<in> {''/ws'', ''/ws/src'', ''/ws/src/a.py'', ''/ws/.env''} then Inr s
                else if s = ''/ws/src/../.env'' then Inr ''/ws/.env'' else Inl ''no such file'')"

definition tiny_policy :: policy where
  "tiny_policy = \<lparr>po_workspace = Pth ''/'' [''ws''], po_step_dir = Pth ''/'' [''ws'', ''src''], po_name = ''guarded'',
     po_allowlist = [], po_denials = [], po_default_globs = DEFAULT_SENSITIVE_GLOBS, po_user_globs = [],
     po_has_user_rules = False, po_deny_writes = False\<rparr>"

lemma tiny_canonical: "canonical_fs tiny_fs"
  unfolding canonical_fs_def
proof (intro allI impI)
  fix s r assume "tiny_fs s = Inr r"
  then have "r \<in> {''/ws'', ''/ws/src'', ''/ws/src/a.py'', ''/ws/.env''}"
    unfolding tiny_fs_def by (metis Inl_Inr_False insertCI sum.inject(2))
  then have "r = ''/ws'' \<or> r = ''/ws/src'' \<or> r = ''/ws/src/a.py'' \<or> r = ''/ws/.env''" by blast
  moreover have "tiny_fs ''/ws'' = Inr ''/ws'' \<and> str_path (path_of ''/ws'') = ''/ws''"
    "tiny_fs ''/ws/src'' = Inr ''/ws/src'' \<and> str_path (path_of ''/ws/src'') = ''/ws/src''"
    "tiny_fs ''/ws/src/a.py'' = Inr ''/ws/src/a.py'' \<and> str_path (path_of ''/ws/src/a.py'') = ''/ws/src/a.py''"
    "tiny_fs ''/ws/.env'' = Inr ''/ws/.env'' \<and> str_path (path_of ''/ws/.env'') = ''/ws/.env''"
    by code_simp+
  ultimately show "tiny_fs r = Inr r \<and> str_path (path_of r) = r" by blast
qed

lemma tiny_guarded: "guarded tiny_fs ''/ws'' ''src'' None [] [] None = Inr tiny_policy"
  by code_simp

lemma tiny_decisions:
  "d_allowed (decide_fs_write tiny_fs tiny_policy ''src/a.py'')" "\<not> d_allowed (decide_fs_read tiny_fs tiny_policy ''src/../.env'')"
  by code_simp+


theorem further_rules_witness:
  "\<exists>po'. guarded tiny_fs ''/ws'' ''src'' None ([] @ [Configured \<lparr>pj_kind = DenyPath, pj_pattern = ''*.py''\<rparr>]) ([] @ []) None = Inr po'
    \<and> \<not> d_allowed (decide_fs_write tiny_fs po' ''src/a.py'')
    \<and> \<not> d_allowed (decide_fs_read tiny_fs po' ''src/../.env'')"
proof -
  define po' where "po' = tiny_policy\<lparr>po_denials := [\<lparr>dn_kind = ''path'', dn_pattern = ''*.py'', dn_args_prefix = []\<rparr>]\<rparr>"
  have g: "guarded tiny_fs ''/ws'' ''src'' None ([] @ [Configured \<lparr>pj_kind = DenyPath, pj_pattern = ''*.py''\<rparr>]) ([] @ []) None = Inr po'"
    unfolding po'_def by code_simp
  have "\<not> d_allowed (decide_fs_write tiny_fs po' ''src/a.py'')" unfolding po'_def by code_simp
  with further_rules_only_tighten[OF tiny_guarded g] tiny_decisions(2) g show ?thesis by blast
qed

end
