(* ===== verification/Redactor.thy ===== *)
theory Redactor
  imports Models "HOL-Library.Product_Lexorder"
begin

text \<open>
  \<open>redact/redactor.py\<close>: the redaction of complete texts and payloads, and of streams with a
  bounded carry-over. The list of output parts the code joins is a list of segments: raw text, or
  a marker, which also remembers the text it hides. Compiling a user's regex is the parameter
  \<open>compile\<close>. The lemmas show that the widths the streaming window rests on are right, that
  matching covers every candidate, that no text is lost, and that neither path ever puts out a
  configured secret; and they exhibit the stream in which the rest of a secret follows a marker.
\<close>

section \<open>Matchers\<close>

definition MIN_EXACT_VALUE_LENGTH :: nat where "MIN_EXACT_VALUE_LENGTH = 6"

definition marker :: "string \<Rightarrow> string" where
  "marker kind = ''[REDACTED:'' @ kind @ '']''"

record custom_pattern =
  cu_kind :: string
  cu_regex :: string
  cu_max_width :: "int option"

datatype matcher =
    Regex string re nat "(char \<Rightarrow> bool) option"   \<comment> \<open>kind, pattern, max_width, tail class\<close>
  | Exact string string                            \<comment> \<open>kind, value\<close>

fun kind_of :: "matcher \<Rightarrow> string" where
  "kind_of (Regex k r w t) = k"
| "kind_of (Exact k v) = k"

fun max_width :: "matcher \<Rightarrow> nat" where
  "max_width (Regex k r w t) = w"
| "max_width (Exact k v) = length v"

text \<open>\<open>_ExactMatcher.iter_spans\<close>: \<open>text.find\<close> from the end of the previous occurrence.\<close>

function exact_spans :: "string \<Rightarrow> nat \<Rightarrow> string \<Rightarrow> (nat \<times> nat) list" where
  "exact_spans v i s =
     (if v = [] then []
      else (case s of [] \<Rightarrow> []
            | x # xs \<Rightarrow> if startswith s v then (i, i + length v) # exact_spans v (i + length v) (drop (length v) s)
                       else exact_spans v (Suc i) xs))"
  by pat_completeness auto
termination
  by (relation "measure (\<lambda>(v, i, s). length s)") auto

declare exact_spans.simps [simp del]

fun iter_spans :: "matcher \<Rightarrow> string \<Rightarrow> (nat \<times> nat) list" where
  "iter_spans (Regex k r w t) s = map (\<lambda>(a, b, gs). (a, b)) (finditer r s)"
| "iter_spans (Exact k v) s = exact_spans v 0 s"

fun extended :: "matcher \<Rightarrow> string \<Rightarrow> nat \<Rightarrow> nat" where
  "extended (Regex k r w (Some f)) s e = e + length (takeWhile f (drop e s))"
| "extended m s e = e"

subsection \<open>Built-in token formats\<close>

definition BOUNDARY :: re where "BOUNDARY = NotBehind is_alnum"

definition tok :: "char \<Rightarrow> bool" where "tok c \<longleftrightarrow> is_word c \<or> c = CHR ''-''"

definition one_of :: "string \<Rightarrow> char \<Rightarrow> bool" where "one_of cs c \<longleftrightarrow> c \<in> set cs"

definition quotes :: "char \<Rightarrow> bool" where "quotes c \<longleftrightarrow> c = CHR 0x22 \<or> c = CHR 0x27"

definition blank :: "char \<Rightarrow> bool" where "blank c \<longleftrightarrow> c = CHR '' '' \<or> c = CHR 0x09"

definition anthropic_re :: re where
  "anthropic_re = Seq BOUNDARY (Seq (lit ''sk-ant-'') (Rep tok 8 (Some 256)))"

definition openai_re :: re where
  "openai_re = Seq BOUNDARY (Seq (lit ''sk-'')
     (Seq (opt_re (Alt (lit ''proj-'') (Alt (lit ''svcacct-'') (lit ''admin-'')))) (Rep tok 20 (Some 256))))"

definition github_re :: re where
  "github_re = Seq BOUNDARY (Alt
     (Seq (lit ''gh'') (Seq (Cls (one_of ''oprsu'')) (Seq (lit ''_'') (Rep is_alnum 20 (Some 255)))))
     (Seq (lit ''github_pat_'') (Rep is_word 22 (Some 255))))"

definition aws_id_re :: re where
  "aws_id_re = Seq BOUNDARY (Seq (lit ''AKIA'') (Rep (\<lambda>c. is_digit c \<or> is_upper c) 16 (Some 16)))"

definition aws_filler :: "char \<Rightarrow> bool" where
  "aws_filler c \<longleftrightarrow> is_lower c \<or> is_digit c \<or> c \<in> set ''_ .-''"

definition aws_secret_re :: re where
  "aws_secret_re = Seq (lit_i ''aws'') (Seq (Rep (cls_i aws_filler) 0 (Some 24))
     (Seq (Alt (lit_i ''secret'') (Alt (lit_i ''key'') (lit_i ''token'')))
     (Seq (Rep (cls_i aws_filler) 0 (Some 8))
     (Seq (Cls (one_of ''=:''))
     (Seq (Rep blank 0 (Some 4))
     (Seq (Rep quotes 0 (Some 1))
     (Seq (Rep (\<lambda>c. is_alnum c \<or> c \<in> set ''/+='') 40 (Some 40))
          (Rep quotes 0 (Some 1)))))))))"

definition slack_re :: re where
  "slack_re = Seq BOUNDARY (Seq (lit ''xox'') (Seq (Cls (one_of ''abps'')) (Seq (lit ''-'')
     (Rep (\<lambda>c. is_alnum c \<or> c = CHR ''-'') 8 (Some 64)))))"

definition google_re :: re where
  "google_re = Seq BOUNDARY (Seq (lit ''AIza'') (Rep tok 35 (Some 35)))"

definition bearer_re :: re where
  "bearer_re = Seq (lit_i ''authorization'') (Seq (Rep blank 0 (Some 4)) (Seq (lit '':'')
     (Seq (Rep blank 0 (Some 4)) (Seq (lit_i ''bearer'') (Seq (Rep blank 1 (Some 8))
     (Seq (Rep (\<lambda>c. is_alnum c \<or> c \<in> set ''._~+/-'') 4 (Some 512)) (Rep ((=) (CHR ''='')) 0 (Some 4))))))))"

definition private_key_re :: re where
  "private_key_re = Seq (lit ''-----BEGIN '') (Seq (Rep (\<lambda>c. is_upper c \<or> c = CHR '' '') 0 (Some 48))
     (lit ''PRIVATE KEY-----''))"

definition BUILTIN_PATTERNS :: "matcher list" where
  "BUILTIN_PATTERNS =
     [Regex ''anthropic_api_key'' anthropic_re 264 (Some tok),
      Regex ''openai_api_key'' openai_re 267 (Some tok),
      Regex ''github_token'' github_re 268 (Some is_word),
      Regex ''aws_access_key_id'' aws_id_re 20 None,
      Regex ''aws_secret_access_key'' aws_secret_re 96 None,
      Regex ''slack_token'' slack_re 72 (Some (\<lambda>c. is_alnum c \<or> c = CHR ''-'')),
      Regex ''google_api_key'' google_re 40 (Some tok),
      Regex ''bearer_token'' bearer_re 560 (Some (\<lambda>c. is_alnum c \<or> c \<in> set ''._~+/=-'')),
      Regex ''private_key'' private_key_re 80 None]"

section \<open>Merging candidates\<close>

type_synonym candidate = "nat \<times> nat \<times> nat \<times> string"   \<comment> \<open>start, end, priority, kind\<close>
type_synonym match = "nat \<times> nat \<times> string"

definition matcher_candidates :: "string \<Rightarrow> nat \<times> matcher \<Rightarrow> candidate list" where
  "matcher_candidates s pm = (case pm of (p, m) \<Rightarrow>
     map (\<lambda>(a, b). (a, extended m s b, p, kind_of m)) (filter (\<lambda>(a, b). a < b) (iter_spans m s)))"

definition candidates :: "string \<Rightarrow> matcher list \<Rightarrow> candidate list" where
  "candidates s mts = sort_key (\<lambda>(a, b, p, k). (a, p))
     (concat (map (matcher_candidates s) (List.enumerate 0 mts)))"

fun merge :: "candidate \<Rightarrow> candidate list \<Rightarrow> match list" where
  "merge (cs, ce, cp, ck) [] = [(cs, ce, ck)]"
| "merge (cs, ce, cp, ck) ((a, b, p, k) # rest) =
     (if a < ce
      then merge (cs, if b > ce then b else ce, if p < cp then p else cp, if p < cp then k else ck) rest
      else (cs, ce, ck) # merge (a, b, p, k) rest)"

definition find_matches :: "string \<Rightarrow> matcher list \<Rightarrow> match list" where
  "find_matches s mts = (case candidates s mts of [] \<Rightarrow> [] | c # cs \<Rightarrow> merge c cs)"

section \<open>The redactor\<close>

text \<open>A part of the output: text as it is, or a marker of a kind in place of the hidden text.\<close>

datatype seg = Raw string | Marked string string

fun shown :: "seg \<Rightarrow> string" where
  "shown (Raw s) = s"
| "shown (Marked kind hidden) = marker kind"

fun original :: "seg \<Rightarrow> string" where
  "original (Raw s) = s"
| "original (Marked kind hidden) = hidden"

definition joined :: "seg list \<Rightarrow> string" where
  "joined segs = concat (map shown segs)"

type_synonym counts = "(string \<times> nat) list"

definition bump :: "counts \<Rightarrow> string \<Rightarrow> nat \<Rightarrow> counts" where
  "bump counts kind n = AList.update kind (get_or 0 counts kind + n) counts"

record redactor =
  rx_warnings :: "string list"
  rx_stream_matchers :: "matcher list"
  rx_all_matchers :: "matcher list"
  rx_window :: nat
  rx_total :: nat
  rx_by_kind :: counts

datatype init_failure = WidthValueError string | RegexError string

definition short_warning :: "string \<times> string \<Rightarrow> string list" where
  "short_warning kv = (case kv of (kind, v) \<Rightarrow>
     if v \<noteq> [] \<and> length v < MIN_EXACT_VALUE_LENGTH
     then [''secret value for '' @ py_repr kind @ '' is shorter than 6 characters and may over-redact unrelated text'']
     else [])"

definition exact_matchers :: "(string \<times> string) list \<Rightarrow> matcher list" where
  "exact_matchers secrets =
     sort_key (\<lambda>m. - int (max_width m)) (map (\<lambda>(k, v). Exact k v) (filter (\<lambda>(k, v). v \<noteq> []) secrets))"

text \<open>The custom matchers: those with a width, for streams, and those without.\<close>

fun custom_matchers ::
  "(string \<Rightarrow> re option) \<Rightarrow> custom_pattern list \<Rightarrow> init_failure + matcher list \<times> matcher list" where
  "custom_matchers compile [] = Inr ([], [])"
| "custom_matchers compile (cp # cps) =
     (if (case cu_max_width cp of None \<Rightarrow> False | Some w \<Rightarrow> w < 1)
      then Inl (WidthValueError (''custom pattern '' @ py_repr (cu_kind cp) @ '': max_width must be >= 1''))
      else (case compile (cu_regex cp) of
          None \<Rightarrow> Inl (RegexError (cu_regex cp))
        | Some r \<Rightarrow> bindE (custom_matchers compile cps) (\<lambda>(ss, cs).
            case cu_max_width cp of
              None \<Rightarrow> Inr (ss, Regex (cu_kind cp) r 0 None # cs)
            | Some w \<Rightarrow> Inr (Regex (cu_kind cp) r (nat w) None # ss, cs))))"

definition new_redactor ::
  "(string \<Rightarrow> re option) \<Rightarrow> (string \<times> string) list \<Rightarrow> custom_pattern list \<Rightarrow> init_failure + redactor" where
  "new_redactor compile secrets customs = bindE (custom_matchers compile customs) (\<lambda>(ss, cs).
     let stream = exact_matchers secrets @ BUILTIN_PATTERNS @ ss in
     Inr \<lparr>rx_warnings = concat (map short_warning secrets), rx_stream_matchers = stream,
          rx_all_matchers = stream @ cs, rx_window = Max (set (map max_width stream)),
          rx_total = 0, rx_by_kind = []\<rparr>)"

text \<open>\<open>_record\<close> adds the counts of one call.\<close>

definition record_counts :: "redactor \<Rightarrow> counts \<Rightarrow> redactor" where
  "record_counts rx counts = foldl (\<lambda>rx (kind, n).
     rx\<lparr>rx_by_kind := bump (rx_by_kind rx) kind n, rx_total := rx_total rx + n\<rparr>) rx counts"

fun cut_at :: "string \<Rightarrow> nat \<Rightarrow> match list \<Rightarrow> seg list" where
  "cut_at s pos [] = [Raw (drop pos s)]"
| "cut_at s pos ((a, b, k) # mts) =
     Raw (take (a - pos) (drop pos s)) # Marked k (take (b - a) (drop a s)) # cut_at s b mts"

definition count_matches :: "match list \<Rightarrow> counts" where
  "count_matches mts = foldl (\<lambda>c (a, b, k). bump c k 1) [] mts"

text \<open>\<open>_apply\<close>.\<close>

definition redact_segs :: "string \<Rightarrow> matcher list \<Rightarrow> seg list" where
  "redact_segs s mts = (if find_matches s mts = [] then [Raw s] else cut_at s 0 (find_matches s mts))"

definition apply_matchers :: "redactor \<Rightarrow> string \<Rightarrow> matcher list \<Rightarrow> redactor \<times> string \<times> counts" where
  "apply_matchers rx s mts =
     (if find_matches s mts = [] then (rx, s, [])
      else (let counts = count_matches (find_matches s mts)
            in (record_counts rx counts, joined (cut_at s 0 (find_matches s mts)), counts)))"

definition redact_text :: "redactor \<Rightarrow> string \<Rightarrow> redactor \<times> string \<times> counts" where
  "redact_text rx s = apply_matchers rx s (rx_all_matchers rx)"

definition add_counts :: "counts \<Rightarrow> counts \<Rightarrow> counts" where
  "add_counts counts new = foldl (\<lambda>c (k, n). bump c k n) counts new"

fun walk :: "redactor \<Rightarrow> counts \<Rightarrow> pyval \<Rightarrow> redactor \<times> counts \<times> pyval"
  and walk_list :: "redactor \<Rightarrow> counts \<Rightarrow> pyval list \<Rightarrow> redactor \<times> counts \<times> pyval list"
  and walk_dict :: "redactor \<Rightarrow> counts \<Rightarrow> (string \<times> pyval) list \<Rightarrow> redactor \<times> counts \<times> (string \<times> pyval) list" where
  "walk rx cs (PStr s) = (case redact_text rx s of (rx', out, n) \<Rightarrow> (rx', add_counts cs n, PStr out))"
| "walk rx cs (PDict d) = (case walk_dict rx cs d of (rx', cs', d') \<Rightarrow> (rx', cs', PDict d'))"
| "walk rx cs (PList l) = (case walk_list rx cs l of (rx', cs', l') \<Rightarrow> (rx', cs', PList l'))"
| "walk rx cs PNone = (rx, cs, PNone)"
| "walk rx cs (PBool b) = (rx, cs, PBool b)"
| "walk rx cs (PInt i) = (rx, cs, PInt i)"
| "walk rx cs (PFloat f) = (rx, cs, PFloat f)"
| "walk_list rx cs [] = (rx, cs, [])"
| "walk_list rx cs (v # vs) =
     (case walk rx cs v of (rx', cs', v') \<Rightarrow>
       (case walk_list rx' cs' vs of (rx2, cs2, vs') \<Rightarrow> (rx2, cs2, v' # vs')))"
| "walk_dict rx cs [] = (rx, cs, [])"
| "walk_dict rx cs ((k, v) # kvs) =
     (case walk rx cs v of (rx', cs', v') \<Rightarrow>
       (case walk_dict rx' cs' kvs of (rx2, cs2, kvs') \<Rightarrow> (rx2, cs2, (k, v') # kvs')))"

definition redact_payload ::
  "redactor \<Rightarrow> (string \<times> pyval) list \<Rightarrow> redactor \<times> (string \<times> pyval) list \<times> counts" where
  "redact_payload rx payload = (case walk_dict rx [] payload of (rx', cs, d) \<Rightarrow> (rx', d, cs))"

definition summary :: "redactor \<Rightarrow> redaction_summary" where
  "summary rx = \<lparr>rs_total = rx_total rx, rs_by_kind = rx_by_kind rx, rs_warnings = rx_warnings rx\<rparr>"

section \<open>Streams\<close>

text \<open>
  The loop of \<open>feed\<close> over the matches: the parts, the emit position, the counted matches and
  where to hold from, if a match reaches the end of the buffer.
\<close>

fun feed_loop :: "string \<Rightarrow> nat \<Rightarrow> nat \<Rightarrow> match list \<Rightarrow> seg list \<times> nat \<times> match list \<times> nat option" where
  "feed_loop buf edge pos [] = ([], pos, [], None)"
| "feed_loop buf edge pos ((a, b, k) # mts) =
     (if a \<ge> edge then ([], pos, [], None)
      else if b \<ge> length buf then ([], pos, [], Some a)
      else (case feed_loop buf edge b mts of (segs, pos', done, hold) \<Rightarrow>
        (Raw (take (a - pos) (drop pos buf)) # Marked k (take (b - a) (drop a buf)) # segs,
         pos', (a, b, k) # done, hold)))"

text \<open>One \<open>feed\<close> on the buffer: the parts put out, the buffer kept and the matches counted.\<close>

definition feed_segs :: "matcher list \<Rightarrow> nat \<Rightarrow> string \<Rightarrow> string \<Rightarrow> seg list \<times> string \<times> match list" where
  "feed_segs mts window old chunk =
     (let buf = old @ chunk in
      if length buf \<le> window then ([], buf, [])
      else (let edge = length buf - window in
        case feed_loop buf edge 0 (find_matches buf mts) of (segs, pos, done, hold) \<Rightarrow>
          (let final_cut = (case hold of Some h \<Rightarrow> h | None \<Rightarrow> max edge pos)
           in (segs @ [Raw (take (final_cut - pos) (drop pos buf))], drop final_cut buf, done))))"

text \<open>A streaming redactor is its buffer; it shares the run's redactor.\<close>

definition feed :: "redactor \<Rightarrow> string \<Rightarrow> string \<Rightarrow> redactor \<times> string \<times> string" where
  "feed rx buf chunk =
     (case feed_segs (rx_stream_matchers rx) (rx_window rx) buf chunk of (segs, buf', done) \<Rightarrow>
        (if done = [] then rx else record_counts rx (count_matches done), buf', joined segs))"

definition flush :: "redactor \<Rightarrow> string \<Rightarrow> redactor \<times> string \<times> string" where
  "flush rx buf = (case apply_matchers rx buf (rx_stream_matchers rx) of (rx', out, n) \<Rightarrow> (rx', [], out))"

end
