(* ===== verification/Recorder.thy ===== *)
theory Recorder
  imports Redactor
begin

text \<open>
  The run's event recorder (\<open>events/pipeline.py\<close>): redaction, profile reduction, byte ceilings,
  sequence numbers, the write to \<open>events.jsonl\<close>, the aggregates and the capture summary.

  A recorder is a record with the fields of \<open>RunRecorder\<close>. Two fields hold what its calls do
  outside: \<open>rc_file\<close> is the lines in \<open>events.jsonl\<close>, \<open>rc_log\<close> the envelopes handed to
  \<open>_aggregate\<close> and to the render callback, both in order. What the recorder reads from outside is
  the record \<open>surroundings\<close>: the clock's readings, pydantic's \<open>model_dump_json\<close> and lax
  boolean, the outcome of each write, and whether the render callback raises on an envelope. An
  operation returns the new recorder and either the exception it raises or its value; the state
  an exception leaves behind is the one Python leaves.
\<close>

section \<open>Vocabulary\<close>

definition EVENT_TYPES :: "string list" where
  "EVENT_TYPES =
    [''run_started'', ''config_resolved'', ''policy_resolved'', ''agent_launching'',
     ''agent_launched'', ''handshake'', ''session_created'', ''prompt_started'',
     ''message_chunk'', ''thought_chunk'', ''tool_call'', ''tool_call_update'', ''plan'',
     ''usage'', ''mode'', ''unknown_update'', ''permission_requested'', ''permission_decided'',
     ''fs_read'', ''fs_write'', ''terminal_op'', ''file_change'', ''step_started'',
     ''step_finished'', ''egress_notice'', ''lease_acquired'', ''lease_released'',
     ''cancel_requested'', ''terminated'', ''truncation'', ''error'', ''run_finished'',
     ''raw_frame'']"

definition TRANSCRIPT :: string where "TRANSCRIPT = ''transcript''"
definition TOOL_CALLS :: string where "TOOL_CALLS = ''tool_calls''"
definition PERMISSIONS :: string where "PERMISSIONS = ''permissions''"
definition FILE_CHANGES :: string where "FILE_CHANGES = ''file_changes''"

definition ARTIFACT_CLASSES :: "string list" where
  "ARTIFACT_CLASSES = [TRANSCRIPT, TOOL_CALLS, PERMISSIONS, FILE_CHANGES]"

definition CLASS_OF :: "(string \<times> string) list" where
  "CLASS_OF =
    [(''message_chunk'', TRANSCRIPT), (''thought_chunk'', TRANSCRIPT),
     (''tool_call'', TOOL_CALLS), (''tool_call_update'', TOOL_CALLS),
     (''permission_requested'', PERMISSIONS), (''permission_decided'', PERMISSIONS),
     (''fs_write'', FILE_CHANGES), (''file_change'', FILE_CHANGES)]"

definition CLASS_SOURCES :: "(string \<times> string) list" where
  "CLASS_SOURCES =
    [(TRANSCRIPT, ''acp_session_updates''), (TOOL_CALLS, ''acp_tool_calls''),
     (PERMISSIONS, ''policy_engine''), (FILE_CHANGES, ''acp_tool_call_inference'')]"

definition TOOL_CALL_CONTENT_KEYS :: "string list" where
  "TOOL_CALL_CONTENT_KEYS =
    [''raw'', ''raw_input'', ''raw_output'', ''rawInput'', ''rawOutput'', ''content'']"

definition CONTENT_KEYS :: "(string \<times> string list) list" where
  "CONTENT_KEYS =
    [(''message_chunk'', [''text'', ''content'']), (''thought_chunk'', [''text'', ''content'']),
     (''tool_call'', TOOL_CALL_CONTENT_KEYS), (''tool_call_update'', TOOL_CALL_CONTENT_KEYS),
     (''fs_read'', [''content'']), (''fs_write'', [''content'']),
     (''permission_requested'', [''tool_call'']), (''terminal_op'', [''command''])]"

fun severity :: "capture_status \<Rightarrow> nat" where
  "severity Complete = 0"
| "severity Derived = 1"
| "severity Partial = 2"
| "severity Unavailable = 3"

definition MAX_RECORDED_PERSISTENCE_ERRORS :: nat where "MAX_RECORDED_PERSISTENCE_ERRORS = 5"
definition MAX_TRUNCATED_CONTINUATION_LINES :: nat where "MAX_TRUNCATED_CONTINUATION_LINES = 20"
definition CONTINUATION_LINE_OVERHEAD_BYTES :: nat where "CONTINUATION_LINE_OVERHEAD_BYTES = 256"
definition USAGE_TOKEN_KEY :: string where "USAGE_TOKEN_KEY = ''used''"
definition USAGE_SIZE_KEY :: string where "USAGE_SIZE_KEY = ''size''"
definition USAGE_COST_KEY :: string where "USAGE_COST_KEY = ''cost''"
definition USAGE_CURRENCY_KEY :: string where "USAGE_CURRENCY_KEY = ''currency''"
definition USAGE_UNITS :: string where "USAGE_UNITS = ''context_tokens''"

definition worse :: "capture_status \<Rightarrow> capture_status \<Rightarrow> capture_status" where
  "worse a b = (if severity a \<ge> severity b then a else b)"

fun json_bytes :: "pyval \<Rightarrow> nat" where
  "json_bytes (PStr s) = utf8_len s"
| "json_bytes v = utf8_len (json_dumps '','' '':'' v)"

definition truncated_payload :: "nat \<Rightarrow> (string \<times> pyval) list" where
  "truncated_payload n = [(''truncated'', PBool True), (''original_bytes'', PInt (int n))]"

text \<open>\<open>CaptureStatus(value)\<close>; \<open>None\<close> is the ValueError.\<close>

definition capture_status_of :: "string \<Rightarrow> capture_status option" where
  "capture_status_of s =
     (if s = ''complete'' then Some Complete else if s = ''partial'' then Some Partial
      else if s = ''derived'' then Some Derived else if s = ''unavailable'' then Some Unavailable
      else None)"

text \<open>\<open>str(value)\<close> and \<open>repr(value)\<close> of a JSON-like value, and \<open>type(value).__name__\<close>.\<close>

fun repr_val :: "pyval \<Rightarrow> string"
  and repr_items :: "pyval list \<Rightarrow> string list"
  and repr_pairs :: "(string \<times> pyval) list \<Rightarrow> string list" where
  "repr_val PNone = ''None''"
| "repr_val (PBool b) = (if b then ''True'' else ''False'')"
| "repr_val (PInt i) = str_of_int i"
| "repr_val (PFloat f) = f"
| "repr_val (PStr s) = py_repr s"
| "repr_val (PList xs) = ''['' @ join '', '' (repr_items xs) @ '']''"
| "repr_val (PDict d) = ''{'' @ join '', '' (repr_pairs d) @ ''}''"
| "repr_items [] = []"
| "repr_items (x # xs) = repr_val x # repr_items xs"
| "repr_pairs [] = []"
| "repr_pairs ((k, v) # d) = (py_repr k @ '': '' @ repr_val v) # repr_pairs d"

fun str_val :: "pyval \<Rightarrow> string" where
  "str_val (PStr s) = s"
| "str_val v = repr_val v"

fun type_name :: "pyval \<Rightarrow> string" where
  "type_name PNone = ''NoneType''"
| "type_name (PBool b) = ''bool''"
| "type_name (PInt i) = ''int''"
| "type_name (PFloat f) = ''float''"
| "type_name (PStr s) = ''str''"
| "type_name (PList l) = ''list''"
| "type_name (PDict d) = ''dict''"

section \<open>State\<close>

record event_limits =
  max_event_bytes_per_step :: nat
  max_payload_bytes_per_event :: nat
  max_artifact_bytes_per_run :: nat

definition DEFAULT_LIMITS :: event_limits where
  "DEFAULT_LIMITS = \<lparr>max_event_bytes_per_step = 10 * 1024 * 1024,
     max_payload_bytes_per_event = 1 * 1024 * 1024, max_artifact_bytes_per_run = 50 * 1024 * 1024\<rparr>"

datatype write_outcome = Written | WriteRefused zerror | WriteRaised string

record surroundings =
  clock :: "nat \<Rightarrow> string \<times> int"                \<comment> \<open>\<open>utc_now_iso()\<close> and \<open>elapsed_ms()\<close> at the n-th reading\<close>
  dump_json :: "event_envelope \<Rightarrow> string"
  appending :: "nat \<Rightarrow> write_outcome"             \<comment> \<open>of the n-th \<open>append_event\<close>\<close>
  render_raises :: "event_envelope \<Rightarrow> bool"
  lax_bool :: "pyval \<Rightarrow> bool option"
  float_sum :: "pyval list \<Rightarrow> string"

type_synonym step_key = "string option"
type_synonym payload = "(string \<times> pyval) list"

record recorder =
  rc_run_id :: string
  rc_events_path :: "string option"               \<comment> \<open>\<open>None\<close> when there is no writer\<close>
  rc_redactor :: redactor
  rc_profile :: capture_profile
  rc_limits :: event_limits
  rc_has_render_cb :: bool
  rc_ticks :: nat                                 \<comment> \<open>readings of the clock so far\<close>
  rc_seq :: nat
  rc_step_bytes :: "(step_key \<times> nat) list"
  rc_truncated :: "step_key set"
  rc_continuation :: "(step_key \<times> nat) list"
  rc_suppressed_events :: "(step_key \<times> nat) list"
  rc_suppressed_bytes :: "(step_key \<times> nat) list"
  rc_class_counts :: "(string \<times> nat) list"
  rc_class_bytes :: "(string \<times> nat) list"
  rc_class_truncated :: "string set"
  rc_events_written :: nat
  rc_write_failures :: nat
  rc_persistence_errors :: "zerror list"
  rc_appends :: nat                               \<comment> \<open>calls of \<open>append_event\<close> so far\<close>
  rc_render_failures :: nat
  rc_tool_calls :: "(step_key \<times> (string \<times> tool_call_record) list) list"
  rc_file_changes :: "(step_key \<times> file_change list) list"
  rc_fc_seen :: "(step_key \<times> (string \<times> string) set) list"
  rc_permissions :: "(step_key \<times> permission_decision list) list"
  rc_text :: "(step_key \<times> string list) list"
  rc_usage_seen :: nat
  rc_usage_by_step :: "(step_key \<times> payload) list"
  rc_file :: "string list"
  rc_log :: "event_envelope list"

text \<open>\<open>RunRecorder.__init__\<close>; \<open>None\<close> is the ValueError of an unknown profile.\<close>

definition new_recorder ::
  "string \<Rightarrow> string option \<Rightarrow> redactor \<Rightarrow> string \<Rightarrow> event_limits \<Rightarrow> bool \<Rightarrow> recorder option" where
  "new_recorder run_id events_path rx prof limits has_cb =
     (case profile_of prof of
        None \<Rightarrow> None
      | Some p \<Rightarrow> Some \<lparr>rc_run_id = run_id, rc_events_path = events_path, rc_redactor = rx,
          rc_profile = p, rc_limits = limits, rc_has_render_cb = has_cb, rc_ticks = 0, rc_seq = 0,
          rc_step_bytes = [], rc_truncated = {}, rc_continuation = [], rc_suppressed_events = [],
          rc_suppressed_bytes = [], rc_class_counts = map (\<lambda>c. (c, 0)) ARTIFACT_CLASSES,
          rc_class_bytes = map (\<lambda>c. (c, 0)) ARTIFACT_CLASSES, rc_class_truncated = {},
          rc_events_written = 0, rc_write_failures = 0, rc_persistence_errors = [], rc_appends = 0,
          rc_render_failures = 0, rc_tool_calls = [], rc_file_changes = [], rc_fc_seen = [],
          rc_permissions = [], rc_text = [], rc_usage_seen = 0, rc_usage_by_step = [],
          rc_file = [], rc_log = []\<rparr>)"

section \<open>Aggregates\<close>

definition str_at :: "payload \<Rightarrow> string \<Rightarrow> string option" where
  "str_at d k = (case map_of d k of Some (PStr s) \<Rightarrow> Some s | _ \<Rightarrow> None)"

text \<open>Fields of the pydantic models built from a payload; an outer \<open>None\<close> is the validation error.\<close>

definition str_field :: "payload \<Rightarrow> string \<Rightarrow> string option \<Rightarrow> string option" where
  "str_field d k dflt = (case map_of d k of None \<Rightarrow> dflt | Some (PStr s) \<Rightarrow> Some s | Some v \<Rightarrow> None)"

definition opt_str_field :: "payload \<Rightarrow> string \<Rightarrow> string option option" where
  "opt_str_field d k =
     (case map_of d k of None \<Rightarrow> Some None | Some PNone \<Rightarrow> Some None | Some (PStr s) \<Rightarrow> Some (Some s)
      | Some v \<Rightarrow> None)"

fun strings_of :: "pyval list \<Rightarrow> string list option" where
  "strings_of [] = Some []"
| "strings_of (PStr s # vs) = (case strings_of vs of Some ss \<Rightarrow> Some (s # ss) | None \<Rightarrow> None)"
| "strings_of (v # vs) = None"

definition decision_kind_of :: "string \<Rightarrow> permission_decision_kind option" where
  "decision_kind_of s =
     (if s = ''approved'' then Some Approved else if s = ''denied'' then Some Denied else None)"

definition scope_of :: "string \<Rightarrow> enforcement_scope option" where
  "scope_of s =
     (if s = ''acp_mediated'' then Some AcpMediated else if s = ''agent_reported'' then Some AgentReported
      else if s = ''os_enforced'' then Some OsEnforced else None)"

definition enum_field :: "(string \<Rightarrow> 'a option) \<Rightarrow> payload \<Rightarrow> string \<Rightarrow> 'a option \<Rightarrow> 'a option" where
  "enum_field parse d k dflt =
     (case map_of d k of None \<Rightarrow> dflt | Some (PStr s) \<Rightarrow> parse s | Some v \<Rightarrow> None)"

definition file_change_of :: "surroundings \<Rightarrow> payload \<Rightarrow> file_change option" where
  "file_change_of w d =
     Option.bind (str_field d ''path'' None) (\<lambda>path.
     Option.bind (str_field d ''change_type'' None) (\<lambda>ct.
     Option.bind (str_field d ''capture_method'' None) (\<lambda>cm.
     Option.bind (str_field d ''attribution'' (Some ''unknown'')) (\<lambda>attr.
     Option.bind (opt_str_field d ''patch_ref'') (\<lambda>patch.
     Option.bind (case map_of d ''binary'' of None \<Rightarrow> Some False | Some v \<Rightarrow> lax_bool w v) (\<lambda>bin.
     Option.bind (enum_field capture_status_of d ''capture_status'' (Some Derived)) (\<lambda>st.
       Some \<lparr>fc_path = path, fc_change_type = ct, fc_capture_method = cm, fc_attribution = attr,
         fc_patch_ref = patch, fc_binary = bin, fc_capture_status = st\<rparr>)))))))"

definition permission_decision_of :: "payload \<Rightarrow> permission_decision option" where
  "permission_decision_of d =
     Option.bind (str_field d ''request_summary'' None) (\<lambda>summ.
     Option.bind (case map_of d ''options_offered'' of None \<Rightarrow> Some [] | Some (PList l) \<Rightarrow> strings_of l
                  | Some v \<Rightarrow> None) (\<lambda>opts.
     Option.bind (enum_field decision_kind_of d ''decision'' None) (\<lambda>dec.
     Option.bind (str_field d ''rule_id'' None) (\<lambda>rule.
     Option.bind (str_field d ''policy_name'' None) (\<lambda>pol.
     Option.bind (str_field d ''policy_source'' None) (\<lambda>src.
     Option.bind (enum_field scope_of d ''enforcement_scope'' (Some AcpMediated)) (\<lambda>sc.
     Option.bind (str_field d ''ts'' None) (\<lambda>ts.
     Option.bind (opt_str_field d ''client_response'') (\<lambda>cl.
       Some \<lparr>pd_request_summary = summ, pd_options_offered = opts, pd_decision = dec, pd_rule_id = rule,
         pd_policy_name = pol, pd_policy_source = src, pd_enforcement_scope = sc, pd_ts = ts,
         pd_client_response = cl\<rparr>)))))))))"

text \<open>\<open>"step" if step_id else "run"\<close>.\<close>

definition attribution :: "step_key \<Rightarrow> string" where
  "attribution step = (case step of None \<Rightarrow> ''run'' | Some s \<Rightarrow> if s = [] then ''run'' else ''step'')"

definition add_file_change :: "step_key \<Rightarrow> recorder \<Rightarrow> file_change \<Rightarrow> recorder" where
  "add_file_change step rc c =
     (let seen = get_or {} (rc_fc_seen rc) step;
          key = (fc_path c, fc_capture_method c)
      in if key \<in> seen then rc\<lparr>rc_fc_seen := AList.update step seen (rc_fc_seen rc)\<rparr>
         else rc\<lparr>rc_fc_seen := AList.update step (insert key seen) (rc_fc_seen rc),
                rc_file_changes := AList.update step (get_or [] (rc_file_changes rc) step @ [c])
                  (rc_file_changes rc)\<rparr>)"

definition new_tool_call :: "string \<Rightarrow> tool_call_record" where
  "new_tool_call i = \<lparr>tc_id = i, tc_kind = None, tc_title = None, tc_status = None, tc_locations = [],
     tc_capture_status = Complete, tc_payload_ref = None\<rparr>"

definition or_else :: "'a option \<Rightarrow> 'a option \<Rightarrow> 'a option" where
  "or_else a b = (case a of None \<Rightarrow> b | Some x \<Rightarrow> Some x)"

definition update_tool_call :: "payload \<Rightarrow> tool_call_record \<Rightarrow> tool_call_record" where
  "update_tool_call d r = r\<lparr>
     tc_kind := or_else (str_at d ''kind'') (tc_kind r),
     tc_title := or_else (str_at d ''title'') (tc_title r),
     tc_status := or_else (str_at d ''status'') (tc_status r),
     tc_locations := (case map_of d ''locations'' of
        Some (PList l) \<Rightarrow> if l = [] then tc_locations r else map str_val l
      | _ \<Rightarrow> tc_locations r)\<rparr>"

definition merge_tool_call :: "step_key \<Rightarrow> payload \<Rightarrow> recorder \<Rightarrow> recorder" where
  "merge_tool_call step d rc =
     (case str_at d ''tool_call_id'' of
        None \<Rightarrow> rc
      | Some i \<Rightarrow>
          (let table = get_or [] (rc_tool_calls rc) step;
               r = (case map_of table i of None \<Rightarrow> new_tool_call i | Some r \<Rightarrow> r)
           in rc\<lparr>rc_tool_calls := AList.update step (AList.update i (update_tool_call d r) table)
                (rc_tool_calls rc)\<rparr>))"

definition diff_change :: "step_key \<Rightarrow> pyval \<Rightarrow> file_change option" where
  "diff_change step item =
     (case item of
        PDict it \<Rightarrow>
          (if map_of it ''type'' \<noteq> Some (PStr ''diff'') then None
           else case map_of it ''path'' of
             Some (PStr path) \<Rightarrow>
               (let old = (case map_of it ''old_text'' of Some v \<Rightarrow> v | None \<Rightarrow> get_or PNone it ''oldText'')
                in Some \<lparr>fc_path = path,
                   fc_change_type = (if old \<noteq> PNone then ''modified'' else ''created''),
                   fc_capture_method = ''acp_tool_call'', fc_attribution = attribution step,
                   fc_patch_ref = None, fc_binary = False, fc_capture_status = Derived\<rparr>)
           | _ \<Rightarrow> None)
      | _ \<Rightarrow> None)"

definition extract_diff_changes :: "step_key \<Rightarrow> payload \<Rightarrow> recorder \<Rightarrow> recorder" where
  "extract_diff_changes step d rc =
     (let inner = (case map_of d ''raw'' of Some (PDict raw) \<Rightarrow> get_or PNone raw ''content'' | _ \<Rightarrow> PNone);
          content = (if inner = PNone then get_or PNone d ''content'' else inner)
      in case content of
           PList items \<Rightarrow> foldl (add_file_change step) rc (List.map_filter (diff_change step) items)
         | _ \<Rightarrow> rc)"

text \<open>The latest non-None value of each usage gauge wins within a step.\<close>

definition merge_gauges :: "payload \<Rightarrow> payload \<Rightarrow> payload" where
  "merge_gauges d u =
     foldl (\<lambda>u k. case map_of d k of None \<Rightarrow> u | Some v \<Rightarrow> if v = PNone then u else AList.update k v u) u
       [USAGE_TOKEN_KEY, USAGE_SIZE_KEY, USAGE_COST_KEY, USAGE_CURRENCY_KEY]"

definition aggregate :: "surroundings \<Rightarrow> recorder \<Rightarrow> event_envelope \<Rightarrow> recorder" where
  "aggregate w rc e =
     (let t = ev_type e; d = ev_payload e; step = ev_step_id e
      in if t = ''message_chunk'' then
           (case map_of d ''text'' of
              Some (PStr s) \<Rightarrow>
                (if get_or (PStr ''agent'') d ''role'' = PStr ''agent''
                 then rc\<lparr>rc_text := AList.update step (get_or [] (rc_text rc) step @ [s]) (rc_text rc)\<rparr>
                 else rc)
            | _ \<Rightarrow> rc)
         else if t = ''tool_call'' \<or> t = ''tool_call_update'' then
           extract_diff_changes step d (merge_tool_call step d rc)
         else if t = ''fs_write'' then
           (case map_of d ''path'' of
              Some (PStr path) \<Rightarrow> add_file_change step rc
                \<lparr>fc_path = path, fc_change_type = str_val (get_or (PStr ''unknown'') d ''change_type''),
                 fc_capture_method = ''acp_fs_write'', fc_attribution = attribution step,
                 fc_patch_ref = None, fc_binary = False, fc_capture_status = Complete\<rparr>
            | _ \<Rightarrow> rc)
         else if t = ''file_change'' then
           (case file_change_of w d of None \<Rightarrow> rc | Some c \<Rightarrow> add_file_change step rc c)
         else if t = ''permission_decided'' then
           (case permission_decision_of
                (if map_of d ''ts'' = None then d @ [(''ts'', PStr (ev_ts e))] else d) of
              None \<Rightarrow> rc
            | Some p \<Rightarrow> rc\<lparr>rc_permissions :=
                AList.update step (get_or [] (rc_permissions rc) step @ [p]) (rc_permissions rc)\<rparr>)
         else if t = ''usage'' then
           rc\<lparr>rc_usage_seen := rc_usage_seen rc + 1,
             rc_usage_by_step := AList.update step (merge_gauges d (get_or [] (rc_usage_by_step rc) step))
               (rc_usage_by_step rc)\<rparr>
         else rc)"

section \<open>Profile reduction\<close>

definition reduce_for_profile :: "recorder \<Rightarrow> string \<Rightarrow> bool" where
  "reduce_for_profile rc t \<longleftrightarrow>
     t \<in> set (keys CONTENT_KEYS)
     \<and> (rc_profile rc = Metadata \<or> rc_profile rc = Standard \<and> t = ''thought_chunk'')"

definition size_and_type :: "pyval \<Rightarrow> pyval" where
  "size_and_type v = PDict [(''bytes'', PInt (int (json_bytes v))), (''type'', PStr (type_name v))]"

definition reduce_tool_call :: "payload \<Rightarrow> payload" where
  "reduce_tool_call d =
     map (\<lambda>(k, v). if k \<in> set TOOL_CALL_CONTENT_KEYS \<and> v \<noteq> PNone then (k, size_and_type v) else (k, v)) d"

fun reduce_value :: "string \<Rightarrow> pyval \<Rightarrow> pyval" where
  "reduce_value k (PDict d) =
     (if k = ''tool_call'' then PDict (reduce_tool_call d) else size_and_type (PDict d))"
| "reduce_value k v = (if v = PNone then PNone else size_and_type v)"

definition metadata_view :: "string \<Rightarrow> payload \<Rightarrow> payload" where
  "metadata_view t body =
     map (\<lambda>(k, v). if k \<notin> set (get_or [] CONTENT_KEYS t) then (k, v) else (k, reduce_value k v)) body"

definition mark_truncated :: "string \<Rightarrow> step_key \<Rightarrow> recorder \<Rightarrow> recorder" where
  "mark_truncated t step rc =
     (case map_of CLASS_OF t of
        None \<Rightarrow> rc
      | Some cls \<Rightarrow>
          (let rc' = rc\<lparr>rc_class_truncated := insert cls (rc_class_truncated rc)\<rparr>
           in if cls = TOOL_CALLS
              then rc'\<lparr>rc_tool_calls :=
                map (\<lambda>(s, table). if s = step then (s, map (\<lambda>(i, r). (i, r\<lparr>tc_capture_status := Partial\<rparr>)) table)
                                  else (s, table)) (rc_tool_calls rc')\<rparr>
              else rc'))"

section \<open>Recording\<close>

record emission =
  em_type :: string
  em_step :: step_key
  em_attempt :: "int option"
  em_session :: "string option"
  em_payload :: payload
  em_status :: string
  em_ref :: "string option"

datatype emit_error = UnknownEventType string | BadCaptureStatus string | WriteError string

text \<open>\<open>_make_envelope\<close>: reads the clock once.\<close>

definition make_envelope ::
  "surroundings \<Rightarrow> recorder \<Rightarrow> emission \<Rightarrow> string \<Rightarrow> payload \<Rightarrow> capture_status \<Rightarrow> redaction_mark
   \<Rightarrow> string option \<Rightarrow> event_envelope" where
  "make_envelope w rc em t body status mark ref =
     \<lparr>ev_seq = rc_seq rc, ev_ts = fst (clock w (rc_ticks rc)), ev_offset_ms = snd (clock w (rc_ticks rc)),
      ev_run_id = rc_run_id rc, ev_step_id = em_step em, ev_attempt_no = em_attempt em,
      ev_session_id = em_session em, ev_type = t, ev_payload = body, ev_ref = ref,
      ev_capture_status = status, ev_redaction = mark\<rparr>"

definition tick :: "recorder \<Rightarrow> recorder" where "tick rc = rc\<lparr>rc_ticks := rc_ticks rc + 1\<rparr>"

definition line_bytes :: "surroundings \<Rightarrow> event_envelope \<Rightarrow> nat" where
  "line_bytes w e = utf8_len (dump_json w e) + 1"

definition collect_error :: "zerror \<Rightarrow> recorder \<Rightarrow> recorder" where
  "collect_error x rc = rc\<lparr>rc_write_failures := rc_write_failures rc + 1,
     rc_persistence_errors :=
       (if length (rc_persistence_errors rc) < MAX_RECORDED_PERSISTENCE_ERRORS
        then rc_persistence_errors rc @ [x] else rc_persistence_errors rc)\<rparr>"

text \<open>The accounting of \<open>_record\<close> before the write: sequence number, step bytes, class totals.\<close>

definition account :: "surroundings \<Rightarrow> event_envelope \<Rightarrow> recorder \<Rightarrow> recorder" where
  "account w e rc =
     (let n = line_bytes w e; step = ev_step_id e;
          rc1 = rc\<lparr>rc_seq := rc_seq rc + 1,
            rc_step_bytes := AList.update step (get_or 0 (rc_step_bytes rc) step + n) (rc_step_bytes rc)\<rparr>
      in case map_of CLASS_OF (ev_type e) of
           None \<Rightarrow> rc1
         | Some cls \<Rightarrow> rc1\<lparr>
             rc_class_counts := AList.update cls (get_or 0 (rc_class_counts rc) cls + 1) (rc_class_counts rc),
             rc_class_bytes := AList.update cls (get_or 0 (rc_class_bytes rc) cls + n) (rc_class_bytes rc)\<rparr>)"

text \<open>
  The write of \<open>_record\<close>: a \<open>PersistenceError\<close> is collected; any other exception of
  \<open>append_event\<close> leaves \<open>_record\<close>, and so \<open>emit\<close>.
\<close>

definition write_line :: "surroundings \<Rightarrow> event_envelope \<Rightarrow> recorder \<Rightarrow> recorder \<times> emit_error option" where
  "write_line w e rc =
     (if rc_events_path rc = None then (rc, None)
      else (let rc' = rc\<lparr>rc_appends := rc_appends rc + 1\<rparr>
        in case appending w (rc_appends rc) of
             Written \<Rightarrow> (rc'\<lparr>rc_events_written := rc_events_written rc + 1,
                            rc_file := rc_file rc @ [dump_json w e]\<rparr>, None)
           | WriteRefused x \<Rightarrow> (collect_error x rc', None)
           | WriteRaised m \<Rightarrow> (rc', Some (WriteError m))))"

definition hand_over :: "surroundings \<Rightarrow> event_envelope \<Rightarrow> recorder \<Rightarrow> recorder" where
  "hand_over w e rc =
     (let rc1 = (aggregate w rc e)\<lparr>rc_log := rc_log rc @ [e]\<rparr>
      in if rc_has_render_cb rc \<and> render_raises w e
         then rc1\<lparr>rc_render_failures := rc_render_failures rc + 1\<rparr> else rc1)"

definition record_event ::
  "surroundings \<Rightarrow> recorder \<Rightarrow> emission \<Rightarrow> string \<Rightarrow> payload \<Rightarrow> capture_status \<Rightarrow> redaction_mark
   \<Rightarrow> string option \<Rightarrow> recorder \<times> (emit_error + event_envelope)" where
  "record_event w rc em t body status mark ref =
     (let e = make_envelope w rc em t body status mark ref
      in case write_line w e (account w e (tick rc)) of
           (rc', Some x) \<Rightarrow> (rc', Inl x)
         | (rc', None) \<Rightarrow> (hand_over w e rc', Inr e))"

definition no_mark :: redaction_mark where "no_mark = \<lparr>rm_applied = False, rm_counts = []\<rparr>"

text \<open>The event \<open>emit\<close> is about to record, once the payload has been measured and redacted.\<close>

record prepared =
  pr_body :: payload
  pr_mark :: redaction_mark
  pr_status :: capture_status
  pr_original_bytes :: nat
  pr_replaced :: bool

definition prepare_body :: "recorder \<Rightarrow> emission \<Rightarrow> capture_status \<Rightarrow> recorder \<times> prepared" where
  "prepare_body rc em status =
     (let raw_bytes = json_bytes (PDict (em_payload em))
      in if raw_bytes > max_payload_bytes_per_event (rc_limits rc) then
           (mark_truncated (em_type em) (em_step em) rc,
            \<lparr>pr_body = truncated_payload raw_bytes, pr_mark = no_mark, pr_status = Partial,
             pr_original_bytes = raw_bytes, pr_replaced = True\<rparr>)
         else (case redact_payload (rc_redactor rc) (em_payload em) of (rx, red, n) \<Rightarrow>
           (let reduce = reduce_for_profile rc (em_type em);
                body = (if reduce then metadata_view (em_type em) red else red)
            in (rc\<lparr>rc_redactor := rx\<rparr>,
                \<lparr>pr_body = body, pr_mark = \<lparr>rm_applied = n \<noteq> [], rm_counts = n\<rparr>,
                 pr_status = (if reduce then worse status Partial else status),
                 pr_original_bytes = json_bytes (PDict body), pr_replaced = False\<rparr>))))"

definition shortened :: "prepared \<Rightarrow> payload" where
  "shortened p = (if pr_replaced p then pr_body p else truncated_payload (pr_original_bytes p))"

text \<open>An event of a step that crossed its ceiling: the step's end always, 20 others, then none.\<close>

definition continue_truncated ::
  "surroundings \<Rightarrow> recorder \<Rightarrow> emission \<Rightarrow> prepared \<Rightarrow> string option
   \<Rightarrow> recorder \<times> (emit_error + event_envelope option)" where
  "continue_truncated w rc em p ref =
     (let step = em_step em; rc1 = mark_truncated (em_type em) step rc;
          finish = (\<lambda>rc body. case record_event w rc em (em_type em) body Partial (pr_mark p) ref of
            (rc', r) \<Rightarrow> (rc', case r of Inl x \<Rightarrow> Inl x | Inr e \<Rightarrow> Inr (Some e)))
      in if em_type em = ''step_finished'' then
           finish rc1 (AList.update ''suppressed_bytes'' (PInt (int (get_or 0 (rc_suppressed_bytes rc) step)))
             (AList.update ''suppressed_events'' (PInt (int (get_or 0 (rc_suppressed_events rc) step)))
               (shortened p)))
         else (let persisted = get_or 0 (rc_continuation rc) step
           in if persisted \<ge> MAX_TRUNCATED_CONTINUATION_LINES then
                (rc1\<lparr>rc_suppressed_events :=
                      AList.update step (get_or 0 (rc_suppressed_events rc) step + 1) (rc_suppressed_events rc),
                    rc_suppressed_bytes := AList.update step
                      (get_or 0 (rc_suppressed_bytes rc) step + json_bytes (PDict (shortened p))
                        + CONTINUATION_LINE_OVERHEAD_BYTES) (rc_suppressed_bytes rc)\<rparr>, Inr None)
              else finish (rc1\<lparr>rc_continuation := AList.update step (persisted + 1) (rc_continuation rc)\<rparr>)
                     (shortened p)))"

text \<open>An event of a step below its ceiling: recorded whole, or it is the one that crosses.\<close>

definition check_ceiling ::
  "surroundings \<Rightarrow> recorder \<Rightarrow> emission \<Rightarrow> prepared \<Rightarrow> string option
   \<Rightarrow> recorder \<times> (emit_error + event_envelope option)" where
  "check_ceiling w rc em p ref =
     (let step = em_step em; limit = max_event_bytes_per_step (rc_limits rc);
          draft = make_envelope w rc em (em_type em) (pr_body p) (pr_status p) (pr_mark p) ref;
          rc0 = tick rc; used = get_or 0 (rc_step_bytes rc) step;
          finish = (\<lambda>rc body status. case record_event w rc em (em_type em) body status (pr_mark p) ref of
            (rc', r) \<Rightarrow> (rc', case r of Inl x \<Rightarrow> Inl x | Inr e \<Rightarrow> Inr (Some e)))
      in if used + line_bytes w draft \<le> limit then finish rc0 (pr_body p) (pr_status p)
         else (case record_event w (rc0\<lparr>rc_truncated := insert step (rc_truncated rc)\<rparr>) em ''truncation''
                 [(''limit_bytes'', PInt (int limit)), (''bytes_at_truncation'', PInt (int used))]
                 Complete no_mark None of
             (rc', Inl x) \<Rightarrow> (rc', Inl x)
           | (rc', Inr _) \<Rightarrow> finish (mark_truncated (em_type em) step rc') (shortened p) Partial))"

definition emit :: "surroundings \<Rightarrow> recorder \<Rightarrow> emission \<Rightarrow> recorder \<times> (emit_error + event_envelope option)" where
  "emit w rc em =
     (if em_type em \<notin> set EVENT_TYPES then (rc, Inl (UnknownEventType (em_type em)))
      else if rc_profile rc \<noteq> Debug \<and> em_type em = ''raw_frame'' then (rc, Inr None)
      else (let ref = (if rc_profile rc = Debug then em_ref em else None)
        in case capture_status_of (em_status em) of
             None \<Rightarrow> (rc, Inl (BadCaptureStatus (em_status em)))
           | Some status \<Rightarrow>
               (case prepare_body rc em status of (rc1, p) \<Rightarrow>
                  if em_type em = ''truncation'' then
                    (case record_event w rc1 em (em_type em) (pr_body p) (pr_status p) (pr_mark p) ref of
                       (rc', r) \<Rightarrow> (rc', case r of Inl x \<Rightarrow> Inl x | Inr e \<Rightarrow> Inr (Some e)))
                  else if em_step em \<in> rc_truncated rc1 then continue_truncated w rc1 em p ref
                  else check_ceiling w rc1 em p ref)))"

section \<open>What the engine reads\<close>

definition tool_calls :: "recorder \<Rightarrow> step_key \<Rightarrow> tool_call_record list" where
  "tool_calls rc step = map snd (get_or [] (rc_tool_calls rc) step)"

definition file_changes :: "recorder \<Rightarrow> step_key \<Rightarrow> file_change list" where
  "file_changes rc step = get_or [] (rc_file_changes rc) step"

definition permission_decisions :: "recorder \<Rightarrow> step_key \<Rightarrow> permission_decision list" where
  "permission_decisions rc step = get_or [] (rc_permissions rc) step"

definition text_output :: "recorder \<Rightarrow> step_key \<Rightarrow> string" where
  "text_output rc step = concat (get_or [] (rc_text rc) step)"

definition usage_summary_of :: "surroundings \<Rightarrow> recorder \<Rightarrow> usage_summary option" where
  "usage_summary_of w rc =
     (if rc_usage_seen rc = 0 then None
      else (let steps = map snd (rc_usage_by_step rc);
                used = List.map_filter (\<lambda>u. case map_of u USAGE_TOKEN_KEY of Some (PInt i) \<Rightarrow> Some i | _ \<Rightarrow> None) steps;
                costs = List.map_filter (\<lambda>u. case map_of u USAGE_COST_KEY of
                  Some (PInt i) \<Rightarrow> Some (PInt i) | Some (PFloat f) \<Rightarrow> Some (PFloat f) | _ \<Rightarrow> None) steps;
                currencies = List.map_filter (\<lambda>u. str_at u USAGE_CURRENCY_KEY) steps
            in Some \<lparr>us_provider = None, us_units = (if used \<noteq> [] then Some USAGE_UNITS else None),
              us_input_tokens = (if used \<noteq> [] then Some (sum_list used) else None),
              us_output_tokens = None,
              us_cost = (if costs \<noteq> [] then Some (float_sum w costs) else None),
              us_currency = (if currencies \<noteq> [] then Some (last currencies) else None),
              us_capture_status = capture_status_value (if used \<noteq> [] then Derived else Partial),
              us_ceiling_enforceable = False\<rparr>))"

definition class_summary :: "recorder \<Rightarrow> string \<Rightarrow> capture_summary_entry" where
  "class_summary rc cls =
     (let status0 = (if cls = FILE_CHANGES then Derived else Complete);
          content = rc_profile rc = Metadata \<and> cls \<in> set [TRANSCRIPT, TOOL_CALLS, PERMISSIONS];
          status1 = (if content then worse status0 Partial else status0);
          source = (if content then ''metadata_profile'' else get_or [] CLASS_SOURCES cls);
          truncated = cls \<in> rc_class_truncated rc;
          status2 = (if truncated then worse status1 Partial else status1);
          status3 = (if rc_events_path rc \<noteq> None \<and> rc_write_failures rc \<noteq> 0
                     then worse status2 (if rc_events_written rc \<noteq> 0 then Partial else Unavailable)
                     else status2)
      in \<lparr>cse_status = status3, cse_source = source,
          cse_event_count = get_or 0 (rc_class_counts rc) cls,
          cse_byte_count = get_or 0 (rc_class_bytes rc) cls,
          cse_truncated = truncated, cse_path = rc_events_path rc\<rparr>)"

definition capture_summary :: "recorder \<Rightarrow> (string \<times> capture_summary_entry) list" where
  "capture_summary rc = map (\<lambda>cls. (cls, class_summary rc cls)) ARTIFACT_CLASSES"

text \<open>\<open>finalize\<close>: \<open>fsync\<close> is the exception of \<open>fsync_events\<close>, if it raises one that is caught.\<close>

definition finalize :: "zerror option \<Rightarrow> recorder \<Rightarrow> recorder" where
  "finalize fsync rc =
     (if rc_events_path rc = None then rc
      else case fsync of None \<Rightarrow> rc | Some x \<Rightarrow> collect_error x rc)"

end
