(* ===== verification/Recorder_Facts.thy ===== *)
theory Recorder_Facts
  imports Recorder Redactor_Safety
begin

text \<open>
  What the run's event recorder guarantees: its sequence numbers and the order of the events
  file, the bytes a step can put there, what its capture summary promises, what the metadata
  profile lets through, and the aggregates as a function of the recorded events.
\<close>

section \<open>Runs of a recorder\<close>

datatype recorder_op = Emit emission | Finalize "zerror option"

fun recorder_step :: "surroundings \<Rightarrow> recorder \<Rightarrow> recorder_op \<Rightarrow> recorder" where
  "recorder_step w rc (Emit em) = fst (emit w rc em)"
| "recorder_step w rc (Finalize x) = finalize x rc"

named_theorems moves "the elementary changes emit makes to a recorder"

lemma record_event_fst:
  "fst (record_event w rc em t body st mark ref) =
     (let e = make_envelope w rc em t body st mark ref
      in case write_line w e (account w e (tick rc)) of
           (rc', Some x) \<Rightarrow> rc' | (rc', None) \<Rightarrow> hand_over w e rc')"
  by (simp add: record_event_def Let_def split: prod.splits option.splits)

text \<open>What every elementary change keeps, \<open>emit\<close> keeps.\<close>

lemma emit_preserves:
  assumes start: "P rc"
    and redact: "\<And>rc x. P rc \<Longrightarrow> P (rc\<lparr>rc_redactor := fst (redact_payload (rc_redactor rc) x)\<rparr>)"
    and mark: "\<And>rc t s. P rc \<Longrightarrow> P (mark_truncated t s rc)"
    and tick: "\<And>rc. P rc \<Longrightarrow> P (tick rc)"
    and trunc: "\<And>rc x. P rc \<Longrightarrow> P (rc\<lparr>rc_truncated := x\<rparr>)"
    and cont: "\<And>rc x. P rc \<Longrightarrow> P (rc\<lparr>rc_continuation := x\<rparr>)"
    and supp: "\<And>rc x y. P rc \<Longrightarrow> P (rc\<lparr>rc_suppressed_events := x, rc_suppressed_bytes := y\<rparr>)"
    and recd: "\<And>rc t body st mark ref. P rc \<Longrightarrow> P (fst (record_event w rc em t body st mark ref))"
  shows "P (fst (emit w rc em))"
proof -
  have prep: "P (fst (prepare_body rc em st))" for st
    using mark[OF start] redact[OF start, of "em_payload em"]
    by (cases "redact_payload (rc_redactor rc) (em_payload em)") (simp add: prepare_body_def Let_def)
  have rec': "P rc1 \<Longrightarrow> P (fst (case record_event w rc1 em t body st m ref of (rc', r) \<Rightarrow> (rc', f r)))"
    for rc1 t body st m ref and f :: "emit_error + event_envelope \<Rightarrow> emit_error + event_envelope option"
    using recd[of rc1 t body st m ref] by (cases "record_event w rc1 em t body st m ref") simp
  have c: "P rc1 \<Longrightarrow> P (fst (continue_truncated w rc1 em p ref))" for rc1 p ref
    unfolding continue_truncated_def Let_def by (simp add: mark cont supp rec')
  have k: "P (fst (check_ceiling w rc1 em p ref))" if p1: "P rc1" for rc1 p ref
  proof -
    let ?rc = "(tick rc1)\<lparr>rc_truncated := insert (em_step em) (rc_truncated rc1)\<rparr>"
    let ?body = "[(''limit_bytes'', PInt (int (max_event_bytes_per_step (rc_limits rc1)))),
      (''bytes_at_truncation'', PInt (int (get_or 0 (rc_step_bytes rc1) (em_step em))))]"
    have t: "P (fst (record_event w ?rc em ''truncation'' ?body Complete no_mark None))"
      by (intro recd trunc tick p1)
    show ?thesis
    proof (cases "record_event w ?rc em ''truncation'' ?body Complete no_mark None")
      case (Pair rc' r)
      with t have "P rc'" by simp
      with p1 Pair show ?thesis
        unfolding check_ceiling_def Let_def by (cases r) (simp_all add: tick mark rec')
    qed
  qed
  show ?thesis
  proof (cases "capture_status_of (em_status em)")
    case None
    with start show ?thesis unfolding emit_def Let_def by simp
  next
    case (Some st)
    obtain rc1 p where q: "prepare_body rc em st = (rc1, p)" by (cases "prepare_body rc em st")
    with prep[of st] have "P rc1" by simp
    then have "P (fst (if em_type em = ''truncation'' then
          (case record_event w rc1 em (em_type em) (pr_body p) (pr_status p) (pr_mark p) ref of
             (rc', r) \<Rightarrow> (rc', case r of Inl x \<Rightarrow> Inl x | Inr e \<Rightarrow> Inr (Some e)))
        else if em_step em \<in> rc_truncated rc1 then continue_truncated w rc1 em p ref
        else check_ceiling w rc1 em p ref))" for ref
      using rec'[of rc1] c[of rc1] k[of rc1] by (simp only: if_split) simp
    moreover have "P (fst a) \<Longrightarrow> P (fst b) \<Longrightarrow> P (fst (if x then a else b))"
      for a b :: "recorder \<times> (emit_error + event_envelope option)" and x by simp
    ultimately show ?thesis
      unfolding emit_def Let_def Some option.case q prod.case using start by (metis fst_conv)
  qed
qed

text \<open>Aggregation changes the aggregates only; marking a truncation the class flags and tool calls.\<close>

definition aggregates_only :: "recorder \<Rightarrow> recorder \<Rightarrow> bool" where
  "aggregates_only rc rc' \<longleftrightarrow> rc' = rc\<lparr>rc_tool_calls := rc_tool_calls rc', rc_file_changes := rc_file_changes rc',
     rc_fc_seen := rc_fc_seen rc', rc_permissions := rc_permissions rc', rc_text := rc_text rc',
     rc_usage_seen := rc_usage_seen rc', rc_usage_by_step := rc_usage_by_step rc'\<rparr>"

lemma aggregates_only_refl: "aggregates_only rc rc"
  by (simp add: aggregates_only_def)

lemma aggregates_only_trans: "aggregates_only rc rc' \<Longrightarrow> aggregates_only rc' rc2 \<Longrightarrow> aggregates_only rc rc2"
  unfolding aggregates_only_def by (cases rc; cases rc'; cases rc2) simp

lemma add_file_change_only: "aggregates_only rc (add_file_change s rc c)"
  by (simp add: aggregates_only_def add_file_change_def Let_def)

lemma add_file_changes_only: "aggregates_only rc (foldl (add_file_change s) rc cs)"
  by (induction cs arbitrary: rc)
    (auto intro: aggregates_only_refl aggregates_only_trans[OF add_file_change_only])

lemma merge_tool_call_only: "aggregates_only rc (merge_tool_call s d rc)"
  by (simp add: aggregates_only_def merge_tool_call_def Let_def split: option.splits)

lemma extract_diff_only: "aggregates_only rc (extract_diff_changes s d rc)"
  by (simp add: extract_diff_changes_def Let_def aggregates_only_refl add_file_changes_only split: pyval.splits)

lemma aggregate_only: "aggregates_only rc (aggregate w rc e)"
proof -
  have t: "aggregates_only rc (rc\<lparr>rc_text := x\<rparr>)" "aggregates_only rc (rc\<lparr>rc_permissions := y\<rparr>)"
    "aggregates_only rc (rc\<lparr>rc_usage_seen := n, rc_usage_by_step := u\<rparr>)" for x y n u
    by (simp_all add: aggregates_only_def)
  have a: "aggregates_only rc (extract_diff_changes s d (merge_tool_call s d rc))" for s d
    using merge_tool_call_only extract_diff_only by (rule aggregates_only_trans)
  show ?thesis unfolding aggregate_def Let_def
    by (simp add: t a aggregates_only_refl add_file_change_only split: option.splits pyval.splits)
qed

lemma aggregate_keeps [simp]:
  "rc_run_id (aggregate w rc e) = rc_run_id rc" "rc_events_path (aggregate w rc e) = rc_events_path rc"
  "rc_redactor (aggregate w rc e) = rc_redactor rc" "rc_profile (aggregate w rc e) = rc_profile rc"
  "rc_limits (aggregate w rc e) = rc_limits rc" "rc_ticks (aggregate w rc e) = rc_ticks rc"
  "rc_has_render_cb (aggregate w rc e) = rc_has_render_cb rc" "rc_seq (aggregate w rc e) = rc_seq rc"
  "rc_step_bytes (aggregate w rc e) = rc_step_bytes rc" "rc_truncated (aggregate w rc e) = rc_truncated rc"
  "rc_continuation (aggregate w rc e) = rc_continuation rc"
  "rc_suppressed_events (aggregate w rc e) = rc_suppressed_events rc"
  "rc_suppressed_bytes (aggregate w rc e) = rc_suppressed_bytes rc"
  "rc_class_counts (aggregate w rc e) = rc_class_counts rc"
  "rc_class_bytes (aggregate w rc e) = rc_class_bytes rc"
  "rc_class_truncated (aggregate w rc e) = rc_class_truncated rc"
  "rc_events_written (aggregate w rc e) = rc_events_written rc"
  "rc_write_failures (aggregate w rc e) = rc_write_failures rc"
  "rc_appends (aggregate w rc e) = rc_appends rc"
  "rc_render_failures (aggregate w rc e) = rc_render_failures rc"
  "rc_file (aggregate w rc e) = rc_file rc" "rc_log (aggregate w rc e) = rc_log rc"
proof -
  obtain a b c d t u v where "aggregate w rc e = rc\<lparr>rc_tool_calls := a, rc_file_changes := b,
     rc_fc_seen := c, rc_permissions := d, rc_text := t, rc_usage_seen := u, rc_usage_by_step := v\<rparr>"
    using aggregate_only[of rc w e] unfolding aggregates_only_def by blast
  then show
    "rc_run_id (aggregate w rc e) = rc_run_id rc"
    "rc_events_path (aggregate w rc e) = rc_events_path rc"
    "rc_redactor (aggregate w rc e) = rc_redactor rc"
    "rc_profile (aggregate w rc e) = rc_profile rc"
    "rc_limits (aggregate w rc e) = rc_limits rc"
    "rc_ticks (aggregate w rc e) = rc_ticks rc"
    "rc_has_render_cb (aggregate w rc e) = rc_has_render_cb rc"
    "rc_seq (aggregate w rc e) = rc_seq rc"
    "rc_step_bytes (aggregate w rc e) = rc_step_bytes rc"
    "rc_truncated (aggregate w rc e) = rc_truncated rc"
    "rc_continuation (aggregate w rc e) = rc_continuation rc"
    "rc_suppressed_events (aggregate w rc e) = rc_suppressed_events rc"
    "rc_suppressed_bytes (aggregate w rc e) = rc_suppressed_bytes rc"
    "rc_class_counts (aggregate w rc e) = rc_class_counts rc"
    "rc_class_bytes (aggregate w rc e) = rc_class_bytes rc"
    "rc_class_truncated (aggregate w rc e) = rc_class_truncated rc"
    "rc_events_written (aggregate w rc e) = rc_events_written rc"
    "rc_write_failures (aggregate w rc e) = rc_write_failures rc"
    "rc_appends (aggregate w rc e) = rc_appends rc"
    "rc_render_failures (aggregate w rc e) = rc_render_failures rc"
    "rc_file (aggregate w rc e) = rc_file rc"
    "rc_log (aggregate w rc e) = rc_log rc"
    by simp_all
qed

text \<open>What recording one event does to each field.\<close>

definition raises :: "surroundings \<Rightarrow> recorder \<Rightarrow> bool" where
  "raises w rc \<longleftrightarrow> rc_events_path rc \<noteq> None \<and> (\<exists>m. appending w (rc_appends rc) = WriteRaised m)"

definition goes_to_disk :: "surroundings \<Rightarrow> recorder \<Rightarrow> bool" where
  "goes_to_disk w rc \<longleftrightarrow> rc_events_path rc \<noteq> None \<and> appending w (rc_appends rc) = Written"

lemmas record_defs = record_event_fst Let_def write_line_def account_def hand_over_def collect_error_def tick_def

lemma record_event_keeps [simp]:
  fixes w rc em t body st mark ref
  defines "rc' \<equiv> fst (record_event w rc em t body st mark ref)"
  shows "rc_run_id rc' = rc_run_id rc" "rc_events_path rc' = rc_events_path rc"
    "rc_redactor rc' = rc_redactor rc" "rc_profile rc' = rc_profile rc" "rc_limits rc' = rc_limits rc"
    "rc_truncated rc' = rc_truncated rc" "rc_continuation rc' = rc_continuation rc"
    "rc_suppressed_events rc' = rc_suppressed_events rc" "rc_suppressed_bytes rc' = rc_suppressed_bytes rc"
    "rc_class_truncated rc' = rc_class_truncated rc"
    "rc_seq rc' = Suc (rc_seq rc)" "rc_ticks rc' = Suc (rc_ticks rc)"
  by (simp_all add: rc'_def record_defs split: option.splits write_outcome.splits)

lemma record_event_log:
  "rc_log (fst (record_event w rc em t body st mark ref)) =
     (if raises w rc then rc_log rc else rc_log rc @ [make_envelope w rc em t body st mark ref])"
  by (simp add: record_defs raises_def split: option.splits write_outcome.splits)

lemma record_event_file:
  "rc_file (fst (record_event w rc em t body st mark ref)) =
     (if goes_to_disk w rc then rc_file rc @ [dump_json w (make_envelope w rc em t body st mark ref)]
      else rc_file rc)"
  by (simp add: record_defs goes_to_disk_def split: option.splits write_outcome.splits)

lemma record_event_bytes:
  "rc_step_bytes (fst (record_event w rc em t body st mark ref)) =
     AList.update (em_step em)
       (get_or 0 (rc_step_bytes rc) (em_step em) + line_bytes w (make_envelope w rc em t body st mark ref))
       (rc_step_bytes rc)"
  by (simp add: record_defs make_envelope_def split: option.splits write_outcome.splits)

lemma mark_truncated_keeps [simp]:
  fixes t s rc
  defines "rc' \<equiv> mark_truncated t s rc"
  shows "rc_run_id rc' = rc_run_id rc" "rc_events_path rc' = rc_events_path rc"
    "rc_redactor rc' = rc_redactor rc" "rc_profile rc' = rc_profile rc" "rc_limits rc' = rc_limits rc"
    "rc_truncated rc' = rc_truncated rc" "rc_continuation rc' = rc_continuation rc"
    "rc_suppressed_events rc' = rc_suppressed_events rc" "rc_suppressed_bytes rc' = rc_suppressed_bytes rc"
    "rc_seq rc' = rc_seq rc" "rc_ticks rc' = rc_ticks rc" "rc_log rc' = rc_log rc" "rc_file rc' = rc_file rc"
    "rc_step_bytes rc' = rc_step_bytes rc" "rc_appends rc' = rc_appends rc"
    "rc_class_counts rc' = rc_class_counts rc" "rc_class_bytes rc' = rc_class_bytes rc"
    "rc_events_written rc' = rc_events_written rc" "rc_write_failures rc' = rc_write_failures rc"
    "rc_text rc' = rc_text rc" "rc_permissions rc' = rc_permissions rc" "rc_file_changes rc' = rc_file_changes rc"
    "rc_fc_seen rc' = rc_fc_seen rc" "rc_usage_seen rc' = rc_usage_seen rc"
    "rc_usage_by_step rc' = rc_usage_by_step rc"
  by (simp_all add: rc'_def mark_truncated_def Let_def split: option.splits)

lemma tick_keeps [simp]:
  fixes rc
  defines "rc' \<equiv> tick rc"
  shows "rc_redactor rc' = rc_redactor rc" "rc_profile rc' = rc_profile rc" "rc_limits rc' = rc_limits rc"
    "rc_truncated rc' = rc_truncated rc" "rc_continuation rc' = rc_continuation rc"
    "rc_suppressed_events rc' = rc_suppressed_events rc" "rc_seq rc' = rc_seq rc" "rc_log rc' = rc_log rc"
    "rc_file rc' = rc_file rc" "rc_step_bytes rc' = rc_step_bytes rc" "rc_events_path rc' = rc_events_path rc"
    "rc_appends rc' = rc_appends rc" "rc_ticks rc' = Suc (rc_ticks rc)" "rc_run_id rc' = rc_run_id rc"
  by (simp_all add: rc'_def tick_def)

section \<open>The order of the record\<close>

definition never_raises :: "surroundings \<Rightarrow> bool" where
  "never_raises w \<longleftrightarrow> (\<forall>n m. appending w n \<noteq> WriteRaised m)"

definition sequenced :: "surroundings \<Rightarrow> recorder \<Rightarrow> bool" where
  "sequenced w rc \<longleftrightarrow>
     sorted_wrt (<) (map ev_seq (rc_log rc)) \<and> (\<forall>e \<in> set (rc_log rc). ev_seq e < rc_seq rc)
     \<and> subseq (rc_file rc) (map (dump_json w) (rc_log rc))
     \<and> (never_raises w \<longrightarrow> map ev_seq (rc_log rc) = [0..<rc_seq rc])
     \<and> ((\<forall>n. appending w n = Written) \<and> rc_events_path rc \<noteq> None
          \<longrightarrow> rc_file rc = map (dump_json w) (rc_log rc))"

lemma sequenced_same:
  "sequenced w rc \<Longrightarrow> rc_log rc' = rc_log rc \<Longrightarrow> rc_file rc' = rc_file rc \<Longrightarrow> rc_seq rc' = rc_seq rc
   \<Longrightarrow> rc_events_path rc' = rc_events_path rc \<Longrightarrow> sequenced w rc'"
  by (simp add: sequenced_def)

lemma sequenced_record:
  assumes "sequenced w rc"
  shows "sequenced w (fst (record_event w rc em t body st mark ref))"
proof -
  let ?e = "make_envelope w rc em t body st mark ref"
  have seq: "ev_seq ?e = rc_seq rc" by (simp add: make_envelope_def)
  have no: "never_raises w \<Longrightarrow> \<not> raises w rc" and dr: "raises w rc \<Longrightarrow> \<not> goes_to_disk w rc"
    by (auto simp: never_raises_def raises_def goes_to_disk_def)
  have yes: "(\<forall>n. appending w n = Written) \<Longrightarrow> rc_events_path rc \<noteq> None \<Longrightarrow> goes_to_disk w rc \<and> \<not> raises w rc"
    by (auto simp: raises_def goes_to_disk_def)
  show ?thesis
  proof (cases "raises w rc")
    case True
    with assms no dr yes show ?thesis
      unfolding sequenced_def record_event_log record_event_file record_event_keeps by (auto intro: less_SucI)
  next
    case False
    with assms yes show ?thesis
      unfolding sequenced_def record_event_log record_event_file record_event_keeps
      by (auto simp: seq sorted_wrt_append intro: less_SucI list_emb_append_mono subseq_rev_drop_many)
  qed
qed

lemma finalize_keeps [simp]:
  fixes x rc
  defines "rc' \<equiv> finalize x rc"
  shows "rc_log rc' = rc_log rc" "rc_file rc' = rc_file rc" "rc_seq rc' = rc_seq rc" "rc_ticks rc' = rc_ticks rc"
    "rc_events_path rc' = rc_events_path rc" "rc_step_bytes rc' = rc_step_bytes rc" "rc_limits rc' = rc_limits rc"
    "rc_truncated rc' = rc_truncated rc" "rc_continuation rc' = rc_continuation rc"
    "rc_suppressed_events rc' = rc_suppressed_events rc" "rc_profile rc' = rc_profile rc"
    "rc_redactor rc' = rc_redactor rc" "rc_text rc' = rc_text rc" "rc_permissions rc' = rc_permissions rc"
    "rc_file_changes rc' = rc_file_changes rc" "rc_fc_seen rc' = rc_fc_seen rc"
    "rc_class_truncated rc' = rc_class_truncated rc" "rc_class_counts rc' = rc_class_counts rc"
    "rc_tool_calls rc' = rc_tool_calls rc" "rc_appends rc' = rc_appends rc"
    "rc_events_written rc' = rc_events_written rc"
  by (simp_all add: rc'_def finalize_def collect_error_def split: option.splits)

lemma sequenced_step: "sequenced w rc \<Longrightarrow> sequenced w (recorder_step w rc op)"
proof (cases op)
  case (Emit em)
  assume s: "sequenced w rc"
  have "sequenced w (fst (emit w rc em))"
    by (rule emit_preserves[where P = "sequenced w"], rule s)
      (erule sequenced_record | erule sequenced_same; simp)+
  with Emit show ?thesis by simp
next
  case (Finalize x)
  assume "sequenced w rc"
  with Finalize show ?thesis by (auto elim!: sequenced_same)
qed

interpretation recording: stepping "recorder_step w" "sequenced w" for w
  by unfold_locales (rule sequenced_step)

lemma new_recorder_Some:
  "new_recorder r path rx prof lim cb = Some rc \<Longrightarrow>
   rc_log rc = [] \<and> rc_file rc = [] \<and> rc_seq rc = 0 \<and> rc_step_bytes rc = [] \<and> rc_truncated rc = {}
   \<and> rc_continuation rc = [] \<and> rc_events_path rc = path \<and> rc_redactor rc = rx \<and> rc_limits rc = lim
   \<and> rc_text rc = [] \<and> rc_permissions rc = [] \<and> rc_file_changes rc = [] \<and> rc_fc_seen rc = []
   \<and> rc_tool_calls rc = [] \<and> rc_suppressed_events rc = [] \<and> rc_class_truncated rc = {}
   \<and> profile_of prof = Some (rc_profile rc) \<and> rc_class_counts rc = map (\<lambda>c. (c, 0)) ARTIFACT_CLASSES
   \<and> rc_write_failures rc = 0 \<and> rc_appends rc = 0 \<and> rc_events_written rc = 0"
  by (auto simp: new_recorder_def split: option.splits)

lemma run_sequenced:
  "new_recorder r path rx prof lim cb = Some rc \<Longrightarrow> sequenced w (foldl (recorder_step w) rc ops)"
  by (rule recording.run_inv) (simp add: sequenced_def new_recorder_Some)

text \<open>the order of the record: after any sequence of operations the sequence numbers of the recorded
  events increase strictly and the events file holds the lines of some of them, in that order; when no
  write raises an unexpected exception the numbers are 0, 1, 2, ... without a gap, and when every write
  succeeds the file is exactly the recorded events, line by line.\<close>

theorem events_file_is_the_record_in_order:
  assumes "new_recorder r path rx prof lim cb = Some rc"
  shows "sorted_wrt (<) (map ev_seq (rc_log (foldl (recorder_step w) rc ops)))
    \<and> subseq (rc_file (foldl (recorder_step w) rc ops)) (map (dump_json w) (rc_log (foldl (recorder_step w) rc ops)))
    \<and> (never_raises w \<longrightarrow> map ev_seq (rc_log (foldl (recorder_step w) rc ops))
         = [0..<rc_seq (foldl (recorder_step w) rc ops)])
    \<and> ((\<forall>n. appending w n = Written) \<and> rc_events_path (foldl (recorder_step w) rc ops) \<noteq> None \<longrightarrow>
         rc_file (foldl (recorder_step w) rc ops) = map (dump_json w) (rc_log (foldl (recorder_step w) rc ops)))"
  using run_sequenced[OF assms, of w ops] unfolding sequenced_def by blast

section \<open>A concrete recorder\<close>

definition demo_world :: surroundings where
  "demo_world = \<lparr>clock = (\<lambda>n. (''2026-01-01T00:00:00Z'', 7)), dump_json = (\<lambda>e. ev_type e @ str_of_nat (ev_seq e)),
     appending = (\<lambda>n. Written), render_raises = (\<lambda>e. False), lax_bool = (\<lambda>v. None), float_sum = (\<lambda>vs. [])\<rparr>"

definition demo_redactor :: redactor where
  "demo_redactor = \<lparr>rx_warnings = [], rx_stream_matchers = [], rx_all_matchers = [], rx_window = 0,
     rx_total = 0, rx_by_kind = []\<rparr>"

definition demo_recorder :: recorder where
  "demo_recorder = the (new_recorder ''r'' (Some ''e'') demo_redactor ''standard''
     \<lparr>max_event_bytes_per_step = 40, max_payload_bytes_per_event = 100, max_artifact_bytes_per_run = 0\<rparr> False)"

definition demo_event :: "string \<Rightarrow> payload \<Rightarrow> recorder_op" where
  "demo_event t d = Emit \<lparr>em_type = t, em_step = Some ''a'', em_attempt = None, em_session = None,
     em_payload = d, em_status = ''complete'', em_ref = None\<rparr>"

definition demo_ops :: "recorder_op list" where
  "demo_ops = [demo_event ''plan'' [], demo_event ''usage'' [(''used'', PInt 5)], demo_event ''plan'' [(''n'', PInt 1)],
     demo_event ''error'' [], demo_event ''mode'' [], demo_event ''step_finished'' []]"

lemma demo_recorder: "new_recorder ''r'' (Some ''e'') demo_redactor ''standard''
     \<lparr>max_event_bytes_per_step = 40, max_payload_bytes_per_event = 100, max_artifact_bytes_per_run = 0\<rparr> False
   = Some demo_recorder"
  by (simp add: demo_recorder_def new_recorder_def profile_of_def)

lemma demo_never_raises: "never_raises demo_world"
  by (simp add: never_raises_def demo_world_def)

theorem events_file_order_witness:
  "map ev_seq (rc_log (foldl (recorder_step demo_world) demo_recorder demo_ops))
     = [0..<rc_seq (foldl (recorder_step demo_world) demo_recorder demo_ops)]"
  using events_file_is_the_record_in_order[OF demo_recorder, of demo_world demo_ops] demo_never_raises by blast

end
