(* ===== verification/Recorder_Ceiling.thy ===== *)
theory Recorder_Ceiling
  imports Recorder_Facts
begin

text \<open>
  The byte ceiling of a step: what a step can put into the record before it crosses the ceiling,
  and what it can still put there afterwards.
\<close>

abbreviation own :: "step_key \<Rightarrow> event_envelope list \<Rightarrow> event_envelope list" where
  "own s log \<equiv> filter (\<lambda>e. ev_step_id e = s) log"

abbreviation bytes_of :: "surroundings \<Rightarrow> event_envelope list \<Rightarrow> nat" where
  "bytes_of w es \<equiv> sum_list (map (line_bytes w) es)"

definition is_cut :: "event_envelope \<Rightarrow> bool" where
  "is_cut e \<longleftrightarrow> map_of (ev_payload e) ''truncated'' = Some (PBool True)"

definition countable_after :: "event_envelope \<Rightarrow> bool" where
  "countable_after e \<longleftrightarrow> ev_type e \<noteq> ''step_finished''"

text \<open>One step: its events, its byte count, whether it crossed the ceiling, its continuation lines.\<close>

definition before_ok :: "surroundings \<Rightarrow> nat \<Rightarrow> event_envelope list \<Rightarrow> bool" where
  "before_ok w bound es \<longleftrightarrow> bytes_of w es \<le> bound \<and> (\<forall>e \<in> set es. ev_type e \<noteq> ''truncation'')"

definition after_ok :: "nat \<Rightarrow> event_envelope list \<Rightarrow> bool" where
  "after_ok n es \<longleftrightarrow> (\<forall>e \<in> set es. ev_type e \<noteq> ''truncation'' \<and> is_cut e)
     \<and> length (filter countable_after es) \<le> Suc n"

definition step_ok :: "surroundings \<Rightarrow> nat \<Rightarrow> event_envelope list \<Rightarrow> nat \<Rightarrow> bool \<Rightarrow> nat \<Rightarrow> bool" where
  "step_ok w bound es used crossed n \<longleftrightarrow>
     used = bytes_of w es \<and> n \<le> MAX_TRUNCATED_CONTINUATION_LINES
     \<and> (if crossed then \<exists>pre t post. es = pre @ t # post \<and> before_ok w bound pre
            \<and> ev_type t = ''truncation'' \<and> after_ok n post
        else before_ok w bound es)"

definition bounded :: "surroundings \<Rightarrow> nat \<Rightarrow> recorder \<Rightarrow> bool" where
  "bounded w d rc \<longleftrightarrow>
     (\<forall>s. step_ok w (max_event_bytes_per_step (rc_limits rc) + d) (own s (rc_log rc))
        (get_or 0 (rc_step_bytes rc) s) (s \<in> rc_truncated rc) (get_or 0 (rc_continuation rc) s))"

lemma boundedD:
  "bounded w d rc \<Longrightarrow> step_ok w (max_event_bytes_per_step (rc_limits rc) + d) (own s (rc_log rc))
     (get_or 0 (rc_step_bytes rc) s) (s \<in> rc_truncated rc) (get_or 0 (rc_continuation rc) s)"
  unfolding bounded_def by (rule spec)

lemma bounded_same:
  "bounded w d rc \<Longrightarrow> rc_log rc' = rc_log rc \<Longrightarrow> rc_step_bytes rc' = rc_step_bytes rc \<Longrightarrow>
   rc_truncated rc' = rc_truncated rc \<Longrightarrow> rc_continuation rc' = rc_continuation rc \<Longrightarrow>
   rc_limits rc' = rc_limits rc \<Longrightarrow> bounded w d rc'"
  by (simp add: bounded_def)

text \<open>The three ways a step's events grow.\<close>

lemma step_ok_whole:
  "step_ok w b es used False n \<Longrightarrow> ev_type e \<noteq> ''truncation'' \<Longrightarrow> used + line_bytes w e \<le> b \<Longrightarrow>
   step_ok w b (es @ [e]) (used + line_bytes w e) False n"
  by (auto simp: step_ok_def before_ok_def)

lemma step_ok_cross:
  assumes "step_ok w b es used False n" "ev_type t = ''truncation''" "ev_type e \<noteq> ''truncation''" "is_cut e"
  shows "step_ok w b (es @ [t, e]) (used + line_bytes w t + line_bytes w e) True n"
proof -
  have "es @ [t, e] = es @ t # [e]" by simp
  moreover have "after_ok n [e]" using assms by (simp add: after_ok_def)
  ultimately show ?thesis using assms(1,2) unfolding step_ok_def by auto
qed

lemma step_ok_after:
  assumes "step_ok w b es used True n" "ev_type e \<noteq> ''truncation''" "is_cut e"
    and "n \<le> n'" "countable_after e \<Longrightarrow> n < n'" "n' \<le> MAX_TRUNCATED_CONTINUATION_LINES"
  shows "step_ok w b (es @ [e]) (used + line_bytes w e) True n'"
proof -
  from assms(1) obtain pre t post where p: "es = pre @ t # post" "before_ok w b pre"
    "ev_type t = ''truncation''" "after_ok n post" unfolding step_ok_def by auto
  have "after_ok n' (post @ [e])" using p(4) assms by (auto simp: after_ok_def)
  moreover have "es @ [e] = pre @ t # (post @ [e])" using p(1) by simp
  ultimately show ?thesis using assms(1,6) p(2,3) unfolding step_ok_def by auto
qed

section \<open>One event\<close>

text \<open>
  Two readings of the clock that follow each other change the size of a line by at most \<open>d\<close>
  bytes (the texts of the time and of the offset).
\<close>

definition steady :: "surroundings \<Rightarrow> nat \<Rightarrow> bool" where
  "steady w d \<longleftrightarrow> (\<forall>e n.
     line_bytes w (e\<lparr>ev_ts := fst (clock w (Suc n)), ev_offset_ms := snd (clock w (Suc n))\<rparr>)
       \<le> line_bytes w (e\<lparr>ev_ts := fst (clock w n), ev_offset_ms := snd (clock w n)\<rparr>) + d)"

lemma steady_draft:
  assumes "steady w d"
  shows "line_bytes w (make_envelope w (tick rc) em t b st mk ref)
    \<le> line_bytes w (make_envelope w rc em t b st mk ref) + d"
proof -
  let ?e = "make_envelope w rc em t b st mk ref" and ?c = "clock w"
  from assms have "line_bytes w (?e\<lparr>ev_ts := fst (?c (Suc (rc_ticks rc))), ev_offset_ms := snd (?c (Suc (rc_ticks rc)))\<rparr>)
    \<le> line_bytes w (?e\<lparr>ev_ts := fst (?c (rc_ticks rc)), ev_offset_ms := snd (?c (rc_ticks rc))\<rparr>) + d"
    unfolding steady_def by blast
  then show ?thesis by (simp add: make_envelope_def)
qed

lemma record_event_Inr:
  "never_raises w \<Longrightarrow> record_event w rc em t body st mark ref
     = (fst (record_event w rc em t body st mark ref), Inr (make_envelope w rc em t body st mark ref))"
  by (simp add: record_event_def never_raises_def Let_def write_line_def split: prod.splits option.splits write_outcome.splits)

lemma record_event_log': "never_raises w \<Longrightarrow>
  rc_log (fst (record_event w rc em t body st mark ref)) = rc_log rc @ [make_envelope w rc em t body st mark ref]"
  by (auto simp: record_event_log raises_def never_raises_def)

lemma make_envelope_sel [simp]:
  "ev_step_id (make_envelope w rc em t body st mark ref) = em_step em"
  "ev_type (make_envelope w rc em t body st mark ref) = t"
  "ev_payload (make_envelope w rc em t body st mark ref) = body"
  by (simp_all add: make_envelope_def)

lemma prepare_body_keeps:
  fixes rc em st
  defines "rc' \<equiv> fst (prepare_body rc em st)"
  shows "rc_log rc' = rc_log rc" "rc_step_bytes rc' = rc_step_bytes rc" "rc_truncated rc' = rc_truncated rc"
    "rc_continuation rc' = rc_continuation rc" "rc_limits rc' = rc_limits rc"
  by (simp_all add: rc'_def prepare_body_def Let_def split: prod.splits)

lemma prepare_body_replaced: "pr_replaced (snd (prepare_body rc em st)) \<Longrightarrow>
  pr_body (snd (prepare_body rc em st)) = truncated_payload (pr_original_bytes (snd (prepare_body rc em st)))"
  by (simp add: prepare_body_def Let_def split: prod.splits if_splits)

lemma shortened_cut: "(pr_replaced p \<Longrightarrow> pr_body p = truncated_payload (pr_original_bytes p)) \<Longrightarrow>
  shortened p = truncated_payload (pr_original_bytes p)"
  by (simp add: shortened_def)

lemma truncated_payload_cut: "map_of (truncated_payload n) ''truncated'' = Some (PBool True)"
  by (simp add: truncated_payload_def)

lemma bounded_extend:
  assumes "bounded w d rc" and "rc_log rc' = rc_log rc @ es" and "\<forall>e \<in> set es. ev_step_id e = s"
    and "\<And>s'. s' \<noteq> s \<Longrightarrow> get_or 0 (rc_step_bytes rc') s' = get_or 0 (rc_step_bytes rc) s'
      \<and> (s' \<in> rc_truncated rc' \<longleftrightarrow> s' \<in> rc_truncated rc)
      \<and> get_or 0 (rc_continuation rc') s' = get_or 0 (rc_continuation rc) s'"
    and "rc_limits rc' = rc_limits rc"
    and "step_ok w (max_event_bytes_per_step (rc_limits rc) + d) (own s (rc_log rc) @ es)
      (get_or 0 (rc_step_bytes rc') s) (s \<in> rc_truncated rc') (get_or 0 (rc_continuation rc') s)"
  shows "bounded w d rc'"
  unfolding bounded_def
proof
  fix s'
  show "step_ok w (max_event_bytes_per_step (rc_limits rc') + d) (own s' (rc_log rc'))
    (get_or 0 (rc_step_bytes rc') s') (s' \<in> rc_truncated rc') (get_or 0 (rc_continuation rc') s')"
  proof (cases "s' = s")
    case True
    with assms(2,3,5,6) show ?thesis by (simp add: filter_True)
  next
    case False
    with assms(3) have "own s' es = []" by (auto simp: filter_empty_conv)
    with assms(2,5) assms(4)[OF False] boundedD[OF assms(1), of s'] show ?thesis by simp
  qed
qed

lemma bounded_whole:
  assumes b: "bounded w d rc" and log: "rc_log rc' = rc_log rc @ [e]" and ty: "ev_type e \<noteq> ''truncation''"
    and notin: "ev_step_id e \<notin> rc_truncated rc"
    and fits: "get_or 0 (rc_step_bytes rc) (ev_step_id e) + line_bytes w e \<le> max_event_bytes_per_step (rc_limits rc) + d"
    and bytes: "rc_step_bytes rc' = AList.update (ev_step_id e)
      (get_or 0 (rc_step_bytes rc) (ev_step_id e) + line_bytes w e) (rc_step_bytes rc)"
    and same: "rc_truncated rc' = rc_truncated rc" "rc_continuation rc' = rc_continuation rc" "rc_limits rc' = rc_limits rc"
  shows "bounded w d rc'"
proof (rule bounded_extend[OF b log])
  have "step_ok w (max_event_bytes_per_step (rc_limits rc) + d) (own (ev_step_id e) (rc_log rc))
     (get_or 0 (rc_step_bytes rc) (ev_step_id e)) False (get_or 0 (rc_continuation rc) (ev_step_id e))"
    using boundedD[OF b, of "ev_step_id e"] notin by simp
  from step_ok_whole[OF this ty fits]
  show "step_ok w (max_event_bytes_per_step (rc_limits rc) + d) (own (ev_step_id e) (rc_log rc) @ [e])
     (get_or 0 (rc_step_bytes rc') (ev_step_id e)) (ev_step_id e \<in> rc_truncated rc')
     (get_or 0 (rc_continuation rc') (ev_step_id e))"
    using notin unfolding bytes same get_or_update by simp
qed (simp_all add: bytes same)

lemma bounded_cross:
  assumes b: "bounded w d rc" and log: "rc_log rc' = rc_log rc @ [t, e]"
    and ty: "ev_type t = ''truncation''" "ev_type e \<noteq> ''truncation''" "is_cut e" "ev_step_id t = ev_step_id e"
    and notin: "ev_step_id e \<notin> rc_truncated rc"
    and bytes: "get_or 0 (rc_step_bytes rc') = (get_or 0 (rc_step_bytes rc))
      (ev_step_id e := get_or 0 (rc_step_bytes rc) (ev_step_id e) + line_bytes w t + line_bytes w e)"
    and same: "rc_truncated rc' = insert (ev_step_id e) (rc_truncated rc)"
      "rc_continuation rc' = rc_continuation rc" "rc_limits rc' = rc_limits rc"
  shows "bounded w d rc'"
proof (rule bounded_extend[OF b log])
  have "step_ok w (max_event_bytes_per_step (rc_limits rc) + d) (own (ev_step_id e) (rc_log rc))
     (get_or 0 (rc_step_bytes rc) (ev_step_id e)) False (get_or 0 (rc_continuation rc) (ev_step_id e))"
    using boundedD[OF b, of "ev_step_id e"] notin by simp
  from step_ok_cross[OF this ty(1-3)]
  show "step_ok w (max_event_bytes_per_step (rc_limits rc) + d) (own (ev_step_id e) (rc_log rc) @ [t, e])
     (get_or 0 (rc_step_bytes rc') (ev_step_id e)) (ev_step_id e \<in> rc_truncated rc')
     (get_or 0 (rc_continuation rc') (ev_step_id e))"
    unfolding bytes same by simp
qed (simp_all add: bytes same ty(4))

lemma bounded_after:
  assumes b: "bounded w d rc" and log: "rc_log rc' = rc_log rc @ [e]"
    and ty: "ev_type e \<noteq> ''truncation''" "is_cut e" and inn: "ev_step_id e \<in> rc_truncated rc"
    and bytes: "rc_step_bytes rc' = AList.update (ev_step_id e)
      (get_or 0 (rc_step_bytes rc) (ev_step_id e) + line_bytes w e) (rc_step_bytes rc)"
    and cont: "get_or 0 (rc_continuation rc') = (get_or 0 (rc_continuation rc))(ev_step_id e := n)"
      "get_or 0 (rc_continuation rc) (ev_step_id e) \<le> n"
      "countable_after e \<Longrightarrow> get_or 0 (rc_continuation rc) (ev_step_id e) < n"
      "n \<le> MAX_TRUNCATED_CONTINUATION_LINES"
    and same: "rc_truncated rc' = rc_truncated rc" "rc_limits rc' = rc_limits rc"
  shows "bounded w d rc'"
proof (rule bounded_extend[OF b log])
  have "step_ok w (max_event_bytes_per_step (rc_limits rc) + d) (own (ev_step_id e) (rc_log rc))
     (get_or 0 (rc_step_bytes rc) (ev_step_id e)) True (get_or 0 (rc_continuation rc) (ev_step_id e))"
    using boundedD[OF b, of "ev_step_id e"] inn by simp
  from step_ok_after[OF this ty cont(2,3,4)]
  show "step_ok w (max_event_bytes_per_step (rc_limits rc) + d) (own (ev_step_id e) (rc_log rc) @ [e])
     (get_or 0 (rc_step_bytes rc') (ev_step_id e)) (ev_step_id e \<in> rc_truncated rc')
     (get_or 0 (rc_continuation rc') (ev_step_id e))"
    using inn unfolding bytes same get_or_update cont(1) by simp
qed (simp_all add: bytes same cont(1))

lemmas record_event_facts = record_event_bytes record_event_keeps make_envelope_sel

lemma check_ceiling_fst:
  fixes w rc em p ref
  defines "draft \<equiv> make_envelope w rc em (em_type em) (pr_body p) (pr_status p) (pr_mark p) ref"
    and "limit \<equiv> max_event_bytes_per_step (rc_limits rc)"
    and "used \<equiv> get_or 0 (rc_step_bytes rc) (em_step em)"
    and "crossed \<equiv> (tick rc)\<lparr>rc_truncated := insert (em_step em) (rc_truncated rc)\<rparr>"
  assumes nr: "never_raises w"
  shows "fst (check_ceiling w rc em p ref) =
    (if used + line_bytes w draft \<le> limit
     then fst (record_event w (tick rc) em (em_type em) (pr_body p) (pr_status p) (pr_mark p) ref)
     else fst (record_event w (mark_truncated (em_type em) (em_step em)
       (fst (record_event w crossed em ''truncation''
         [(''limit_bytes'', PInt (int limit)), (''bytes_at_truncation'', PInt (int used))] Complete no_mark None)))
       em (em_type em) (shortened p) Partial (pr_mark p) ref))"
proof -
  have r: "fst (case record_event w rc' em t b st m ref of (rc2, r) \<Rightarrow> (rc2, f r)) = fst (record_event w rc' em t b st m ref)"
    for rc' t b st m ref and f :: "emit_error + event_envelope \<Rightarrow> emit_error + event_envelope option"
    by (simp add: split_beta)
  show ?thesis
    unfolding check_ceiling_def Let_def draft_def[symmetric] limit_def[symmetric] used_def[symmetric]
      crossed_def[symmetric]
    by (subst record_event_Inr[OF nr, of crossed]) (simp only: prod.case sum.case if_distrib[of fst] r)
qed

lemma bounded_check_ceiling:
  assumes b: "bounded w d rc" and nr: "never_raises w" and st: "steady w d"
    and notin: "em_step em \<notin> rc_truncated rc" and ty: "em_type em \<noteq> ''truncation''"
    and cut: "shortened p = truncated_payload (pr_original_bytes p)"
  shows "bounded w d (fst (check_ceiling w rc em p ref))"
proof -
  let ?s = "em_step em" and ?t = "em_type em"
  define limit where "limit = max_event_bytes_per_step (rc_limits rc)"
  define used where "used = get_or 0 (rc_step_bytes rc) ?s"
  define draft where "draft = make_envelope w rc em ?t (pr_body p) (pr_status p) (pr_mark p) ref"
  note fst_eq = check_ceiling_fst[OF nr, of rc em p ref, folded limit_def used_def draft_def]
  show ?thesis
  proof (cases "used + line_bytes w draft \<le> limit")
    case True
    define e where "e = make_envelope w (tick rc) em ?t (pr_body p) (pr_status p) (pr_mark p) ref"
    have e: "ev_step_id e = ?s" "ev_type e = ?t" by (simp_all add: e_def)
    have "line_bytes w e \<le> line_bytes w draft + d" unfolding e_def draft_def by (rule steady_draft[OF st])
    with True have le: "get_or 0 (rc_step_bytes rc) ?s + line_bytes w e \<le> max_event_bytes_per_step (rc_limits rc) + d"
      unfolding used_def limit_def by linarith
    show ?thesis unfolding fst_eq if_P[OF True]
      by (rule bounded_whole[OF b, of _ e]; simp only: record_event_log'[OF nr] e_def[symmetric] record_event_facts
          tick_keeps e ty notin le not_False_eq_True simp_thms)
  next
    case False
    define body where "body = [(''limit_bytes'', PInt (int limit)), (''bytes_at_truncation'', PInt (int used))]"
    define rc0 where "rc0 = (tick rc)\<lparr>rc_truncated := insert ?s (rc_truncated rc)\<rparr>"
    define rc1 where "rc1 = mark_truncated ?t ?s (fst (record_event w rc0 em ''truncation'' body Complete no_mark None))"
    define t where "t = make_envelope w rc0 em ''truncation'' body Complete no_mark None"
    define e where "e = make_envelope w rc1 em ?t (shortened p) Partial (pr_mark p) ref"
    have t: "ev_step_id t = ?s" "ev_type t = ''truncation''" by (simp_all add: t_def)
    have e: "ev_step_id e = ?s" "ev_type e = ?t" "is_cut e"
      by (simp_all add: e_def is_cut_def cut truncated_payload_cut)
    have rc0: "rc_log rc0 = rc_log rc" "rc_truncated rc0 = insert ?s (rc_truncated rc)"
      "rc_step_bytes rc0 = rc_step_bytes rc" "rc_continuation rc0 = rc_continuation rc" "rc_limits rc0 = rc_limits rc"
      by (simp_all add: rc0_def tick_def)
    have rc1: "rc_log rc1 = rc_log rc @ [t]" "rc_truncated rc1 = insert ?s (rc_truncated rc)"
      "rc_step_bytes rc1 = AList.update ?s (used + line_bytes w t) (rc_step_bytes rc)"
      "rc_continuation rc1 = rc_continuation rc" "rc_limits rc1 = rc_limits rc"
      by (simp_all only: rc1_def mark_truncated_keeps record_event_facts record_event_log'[OF nr] rc0 t_def used_def)
    show ?thesis unfolding fst_eq if_not_P[OF False] body_def[symmetric] rc0_def[symmetric] rc1_def[symmetric]
    proof (rule bounded_cross[OF b _ _ _ e(3), of _ t])
      show "get_or 0 (rc_step_bytes (fst (record_event w rc1 em ?t (shortened p) Partial (pr_mark p) ref)))
        = (get_or 0 (rc_step_bytes rc))(ev_step_id e :=
            get_or 0 (rc_step_bytes rc) (ev_step_id e) + line_bytes w t + line_bytes w e)"
        by (rule ext) (simp add: record_event_bytes rc1 e used_def e_def[symmetric])
    qed (simp_all add: record_event_log'[OF nr] e_def[symmetric] rc1 e t ty notin)
  qed
qed

lemma fst_finish:
  "fst (case record_event w rc' em t b st m ref of (rc2, r) \<Rightarrow> (rc2, f r)) = fst (record_event w rc' em t b st m ref)"
  by (simp add: split_beta)

lemma bounded_continue:
  assumes b: "bounded w d rc" and nr: "never_raises w"
    and inn: "em_step em \<in> rc_truncated rc" and ty: "em_type em \<noteq> ''truncation''"
    and cut: "shortened p = truncated_payload (pr_original_bytes p)"
  shows "bounded w d (fst (continue_truncated w rc em p ref))"
proof -
  let ?s = "em_step em" and ?t = "em_type em"
  define n where "n = get_or 0 (rc_continuation rc) ?s"
  define rc1 where "rc1 = mark_truncated ?t ?s rc"
  note keeps = mark_truncated_keeps[of ?t ?s rc, folded rc1_def]
  have n20: "n \<le> MAX_TRUNCATED_CONTINUATION_LINES"
    using boundedD[OF b, of ?s] by (simp add: step_ok_def n_def)
  have idem: "(get_or 0 (rc_continuation rc))(?s := n) = get_or 0 (rc_continuation rc)"
    unfolding n_def by (rule fun_upd_triv)
  have cutbody: "map_of (shortened p) ''truncated'' = Some (PBool True)"
    unfolding cut by (rule truncated_payload_cut)
  consider (finish) "?t = ''step_finished''" | (full) "?t \<noteq> ''step_finished''" "n \<ge> MAX_TRUNCATED_CONTINUATION_LINES"
    | (more) "?t \<noteq> ''step_finished''" "n < MAX_TRUNCATED_CONTINUATION_LINES" by linarith
  then show ?thesis
  proof cases
    case finish
    define body where "body = AList.update ''suppressed_bytes'' (PInt (int (get_or 0 (rc_suppressed_bytes rc) ?s)))
             (AList.update ''suppressed_events'' (PInt (int (get_or 0 (rc_suppressed_events rc) ?s))) (shortened p))"
    define e where "e = make_envelope w rc1 em ?t body Partial (pr_mark p) ref"
    have e: "ev_step_id e = ?s" "ev_type e = ?t" "is_cut e"
      using cutbody by (simp_all add: e_def is_cut_def body_def update_conv')
    have r: "fst (continue_truncated w rc em p ref) = fst (record_event w rc1 em ?t body Partial (pr_mark p) ref)"
      unfolding continue_truncated_def Let_def if_P[OF finish] fst_finish rc1_def body_def ..
    show ?thesis unfolding r
    proof (rule bounded_after[OF b _ _ e(3), where n = n])
      show "countable_after e \<Longrightarrow> get_or 0 (rc_continuation rc) (ev_step_id e) < n"
        using finish by (simp add: countable_after_def e)
    qed (simp_all only: record_event_log'[OF nr] record_event_facts keeps e e_def[symmetric] ty inn n_def[symmetric] n20
        idem order_refl simp_thms)
  next
    case full
    have r: "fst (continue_truncated w rc em p ref) = rc1\<lparr>
        rc_suppressed_events := AList.update ?s (get_or 0 (rc_suppressed_events rc) ?s + 1) (rc_suppressed_events rc),
        rc_suppressed_bytes := AList.update ?s (get_or 0 (rc_suppressed_bytes rc) ?s + json_bytes (PDict (shortened p))
          + CONTINUATION_LINE_OVERHEAD_BYTES) (rc_suppressed_bytes rc)\<rparr>"
      unfolding continue_truncated_def Let_def if_not_P[OF full(1)] if_P[OF full(2)[unfolded n_def]] rc1_def fst_conv ..
    show ?thesis unfolding r by (rule bounded_same[OF b]) (simp_all add: keeps)
  next
    case more
    define rc2 where "rc2 = rc1\<lparr>rc_continuation := AList.update ?s (n + 1) (rc_continuation rc)\<rparr>"
    define e where "e = make_envelope w rc2 em ?t (shortened p) Partial (pr_mark p) ref"
    have e: "ev_step_id e = ?s" "ev_type e = ?t" "is_cut e"
      using cutbody by (simp_all add: e_def is_cut_def)
    have rc2: "rc_log rc2 = rc_log rc" "rc_step_bytes rc2 = rc_step_bytes rc" "rc_truncated rc2 = rc_truncated rc"
      "rc_continuation rc2 = AList.update ?s (n + 1) (rc_continuation rc)" "rc_limits rc2 = rc_limits rc"
      by (simp_all add: rc2_def keeps)
    have le: "\<not> MAX_TRUNCATED_CONTINUATION_LINES \<le> get_or 0 (rc_continuation rc) ?s"
      using more(2) by (simp add: n_def)
    have r: "fst (continue_truncated w rc em p ref) = fst (record_event w rc2 em ?t (shortened p) Partial (pr_mark p) ref)"
      unfolding continue_truncated_def Let_def if_not_P[OF more(1)] if_not_P[OF le] fst_finish rc2_def rc1_def n_def ..
    show ?thesis unfolding r
      by (rule bounded_after[OF b _ _ e(3), where n = "n + 1"])
        (use more(2) in \<open>simp_all add: record_event_log'[OF nr] record_event_bytes rc2 e e_def[symmetric] ty inn
          n_def[symmetric] fun_eq_iff\<close>)
  qed
qed

text \<open>An operation other than a \<open>truncation\<close> event from outside (no part of the program emits one).\<close>

fun own_truncation :: "recorder_op \<Rightarrow> bool" where
  "own_truncation (Emit em) \<longleftrightarrow> em_type em = ''truncation''"
| "own_truncation (Finalize x) \<longleftrightarrow> False"

lemma refused_or: "P rc \<Longrightarrow> P (fst y) \<Longrightarrow> P (fst (if a then (rc, x1) else if b then (rc, x2) else y))"
  by simp

lemma bounded_emit:
  assumes b: "bounded w d rc" and nr: "never_raises w" and st: "steady w d" and ty: "em_type em \<noteq> ''truncation''"
  shows "bounded w d (fst (emit w rc em))"
proof (cases "capture_status_of (em_status em)")
  case None
  with b show ?thesis unfolding emit_def Let_def by simp
next
  case (Some s)
  obtain rc1 p where q: "prepare_body rc em s = (rc1, p)" by (cases "prepare_body rc em s")
  note keep = prepare_body_keeps[of rc em s, unfolded q fst_conv]
  have b1: "bounded w d rc1" by (rule bounded_same[OF b]) (simp_all add: keep)
  have cut: "shortened p = truncated_payload (pr_original_bytes p)"
    using prepare_body_replaced[of rc em s] unfolding q snd_conv by (rule shortened_cut)
  have "bounded w d (fst (if em_step em \<in> rc_truncated rc1 then continue_truncated w rc1 em p ref
      else check_ceiling w rc1 em p ref))" for ref
    using bounded_continue[OF b1 nr _ ty cut] bounded_check_ceiling[OF b1 nr st _ ty cut] by simp
  then show ?thesis
    unfolding emit_def Let_def Some option.case q prod.case if_not_P[OF ty] by (rule refused_or[where P = "bounded w d", OF b])
qed

lemma bounded_run:
  assumes "never_raises w" and "steady w d"
  shows "bounded w d rc \<Longrightarrow> \<forall>op \<in> set ops. \<not> own_truncation op \<Longrightarrow> bounded w d (foldl (recorder_step w) rc ops)"
proof (induction ops arbitrary: rc)
  case (Cons op ops)
  have "bounded w d (recorder_step w rc op)"
  proof (cases op)
    case (Emit em)
    with Cons.prems have "em_type em \<noteq> ''truncation''" by simp
    from bounded_emit[OF Cons.prems(1) assms this] Emit show ?thesis by simp
  next
    case (Finalize x)
    then show ?thesis using bounded_same[OF Cons.prems(1)] by simp
  qed
  with Cons show ?case by simp
qed simp

text \<open>C26: the byte ceiling: the events of a step are a part that fits the ceiling (to within what two
  clock readings change the length of one line), followed, once the step crossed it, by at most 22
  lines besides the step's end: the truncation event, the event that crossed and 20 continuation
  lines, each carrying truncation metadata in place of its payload.\<close>

theorem runaway_step_is_bounded:
  assumes "new_recorder r path rx prof lim cb = Some rc" and "never_raises w" and "steady w d"
    and "\<forall>op \<in> set ops. \<not> own_truncation op"
  shows "\<exists>pre post. own s (rc_log (foldl (recorder_step w) rc ops)) = pre @ post
    \<and> bytes_of w pre \<le> max_event_bytes_per_step lim + d
    \<and> length (filter (\<lambda>e. ev_type e \<noteq> ''step_finished'') post) \<le> 22
    \<and> (\<forall>e \<in> set post. ev_type e = ''truncation'' \<or> map_of (ev_payload e) ''truncated'' = Some (PBool True))"
proof -
  let ?rc = "foldl (recorder_step w) rc ops"
  have lim: "rc_limits ?rc = lim"
  proof -
    have "rc_limits (recorder_step w x op) = rc_limits x" for x op
      by (cases op) (simp_all add: emit_preserves[where P = "\<lambda>y. rc_limits y = rc_limits x"])
    then have "rc_limits (foldl (recorder_step w) x ops) = rc_limits x" for x
      by (induction ops arbitrary: x) simp_all
    with assms(1) show ?thesis by (simp add: new_recorder_Some)
  qed
  have "bounded w d rc" using assms(1) by (simp add: bounded_def new_recorder_Some step_ok_def before_ok_def)
  from bounded_run[OF assms(2,3) this assms(4)]
  have ok: "step_ok w (max_event_bytes_per_step lim + d) (own s (rc_log ?rc)) (get_or 0 (rc_step_bytes ?rc) s)
      (s \<in> rc_truncated ?rc) (get_or 0 (rc_continuation ?rc) s)" using boundedD[of w d ?rc s] by (simp add: lim)
  show ?thesis
  proof (cases "s \<in> rc_truncated ?rc")
    case True
    with ok obtain pre t post where p: "own s (rc_log ?rc) = pre @ t # post"
      "before_ok w (max_event_bytes_per_step lim + d) pre" "ev_type t = ''truncation''"
      "after_ok (get_or 0 (rc_continuation ?rc) s) post" "get_or 0 (rc_continuation ?rc) s \<le> 20"
      unfolding step_ok_def MAX_TRUNCATED_CONTINUATION_LINES_def if_P[OF True] by blast
    show ?thesis
      by (rule exI[of _ pre], rule exI[of _ "t # post"])
        (use p in \<open>auto simp: before_ok_def after_ok_def is_cut_def countable_after_def[abs_def]\<close>)
  next
    case False
    with ok show ?thesis
      by (intro exI[of _ "own s (rc_log ?rc)"] exI[of _ "[]"]) (simp add: step_ok_def before_ok_def)
  qed
qed

lemma demo_steady: "steady demo_world 0"
  by (simp add: steady_def demo_world_def)

theorem runaway_step_witness:
  "\<exists>pre post. own (Some ''a'') (rc_log (foldl (recorder_step demo_world) demo_recorder demo_ops)) = pre @ post
    \<and> bytes_of demo_world pre \<le> 40
    \<and> length (filter (\<lambda>e. ev_type e \<noteq> ''step_finished'') post) \<le> 22
    \<and> (\<forall>e \<in> set post. ev_type e = ''truncation'' \<or> map_of (ev_payload e) ''truncated'' = Some (PBool True))"
proof -
  have "\<forall>op \<in> set demo_ops. \<not> own_truncation op" by (simp add: demo_ops_def demo_event_def)
  from runaway_step_is_bounded[OF demo_recorder demo_never_raises demo_steady this, of "Some ''a''"]
  show ?thesis by simp
qed

end
