(* ===== verification/Recorder_Capture.thy ===== *)
theory Recorder_Capture
  imports Recorder_Ceiling
begin

text \<open>
  What the capture summary promises: a class reported complete lost no event, and the events
  file holds every recorded line. What the metadata profile lets through.
\<close>

section \<open>Redaction does not depend on the counts\<close>

definition redacted :: "redactor \<Rightarrow> payload \<Rightarrow> payload" where
  "redacted rx d = fst (snd (redact_payload rx d))"

definition same_matchers :: "redactor \<Rightarrow> redactor \<Rightarrow> bool" where
  "same_matchers rx rx' \<longleftrightarrow> rx_all_matchers rx' = rx_all_matchers rx"

lemma same_matchers_trans: "same_matchers a b \<Longrightarrow> same_matchers b c \<Longrightarrow> same_matchers a c"
  by (simp add: same_matchers_def)

lemma same_matchers_refl: "same_matchers a a"
  by (simp add: same_matchers_def)

lemma record_counts_matchers: "same_matchers rx (record_counts rx c)"
proof -
  have "rx_all_matchers (foldl (\<lambda>r (k, n). r\<lparr>rx_by_kind := bump (rx_by_kind r) k n, rx_total := rx_total r + n\<rparr>) rx c)
    = rx_all_matchers rx"
    by (induction c arbitrary: rx) auto
  then show ?thesis by (simp add: same_matchers_def record_counts_def)
qed

lemma redact_text_matchers:
  "same_matchers rx (fst (redact_text rx s))"
  "same_matchers rx rx' \<Longrightarrow> snd (redact_text rx' s) = snd (redact_text rx s)"
  using record_counts_matchers[of rx]
  by (auto simp: redact_text_def apply_matchers_def Let_def same_matchers_refl same_matchers_def)

lemma walk_matchers:
  "same_matchers rx (fst (walk rx cs v))"
  "same_matchers rx (fst (walk_list rx cs vs))"
  "same_matchers rx (fst (walk_dict rx cs kvs))"
proof (induction rx cs v and rx cs vs and rx cs kvs rule: walk_walk_list_walk_dict.induct)
  case (1 rx cs s)
  from redact_text_matchers(1)[of rx s] show ?case by (cases "redact_text rx s") simp
next
  case (2 rx cs d)
  then show ?case by (cases "walk_dict rx cs d") simp
next
  case (3 rx cs l)
  then show ?case by (cases "walk_list rx cs l") simp
next
  case (9 rx cs v vs)
  obtain rx1 cs1 v1 where w: "walk rx cs v = (rx1, cs1, v1)" by (rule prod_cases3)
  obtain rx2 cs2 vs2 where l: "walk_list rx1 cs1 vs = (rx2, cs2, vs2)" by (rule prod_cases3)
  from 9(1) 9(2)[OF w[symmetric] refl] have "same_matchers rx rx1" "same_matchers rx1 rx2" unfolding w l by simp_all
  then show ?case unfolding walk_list.simps w l prod.case fst_conv by (rule same_matchers_trans)
next
  case (11 rx cs k v kvs)
  obtain rx1 cs1 v1 where w: "walk rx cs v = (rx1, cs1, v1)" by (rule prod_cases3)
  obtain rx2 cs2 vs2 where l: "walk_dict rx1 cs1 kvs = (rx2, cs2, vs2)" by (rule prod_cases3)
  from 11(1) 11(2)[OF w[symmetric] refl] have "same_matchers rx rx1" "same_matchers rx1 rx2" unfolding w l by simp_all
  then show ?case unfolding walk_dict.simps w l prod.case fst_conv by (rule same_matchers_trans)
qed (simp_all add: same_matchers_refl)

text \<open>The walked value as a function of the matchers alone.\<close>

fun swept :: "redactor \<Rightarrow> pyval \<Rightarrow> pyval"
  and swept_list :: "redactor \<Rightarrow> pyval list \<Rightarrow> pyval list"
  and swept_dict :: "redactor \<Rightarrow> payload \<Rightarrow> payload" where
  "swept rx (PStr s) = PStr (fst (snd (redact_text rx s)))"
| "swept rx (PDict d) = PDict (swept_dict rx d)"
| "swept rx (PList l) = PList (swept_list rx l)"
| "swept rx PNone = PNone"
| "swept rx (PBool b) = PBool b"
| "swept rx (PInt i) = PInt i"
| "swept rx (PFloat f) = PFloat f"
| "swept_list rx [] = []"
| "swept_list rx (v # vs) = swept rx v # swept_list rx vs"
| "swept_dict rx [] = []"
| "swept_dict rx ((k, v) # d) = (k, swept rx v) # swept_dict rx d"

lemma walk_scrub:
  "same_matchers rx0 rx \<Longrightarrow> snd (snd (walk rx cs v)) = swept rx0 v"
  "same_matchers rx0 rx \<Longrightarrow> snd (snd (walk_list rx cs vs)) = swept_list rx0 vs"
  "same_matchers rx0 rx \<Longrightarrow> snd (snd (walk_dict rx cs kvs)) = swept_dict rx0 kvs"
proof (induction rx cs v and rx cs vs and rx cs kvs rule: walk_walk_list_walk_dict.induct)
  case (1 rx cs s)
  from redact_text_matchers(2)[OF 1, of s] show ?case by (simp add: split_beta)
next
  case (2 rx cs d)
  then show ?case by (cases "walk_dict rx cs d") simp
next
  case (3 rx cs l)
  then show ?case by (cases "walk_list rx cs l") simp
next
  case (9 rx cs v vs)
  obtain rx1 cs1 v1 where w: "walk rx cs v = (rx1, cs1, v1)" by (rule prod_cases3)
  obtain rx2 cs2 vs2 where l: "walk_list rx1 cs1 vs = (rx2, cs2, vs2)" by (rule prod_cases3)
  have "same_matchers rx0 rx1" using same_matchers_trans[OF 9(3) walk_matchers(1)[of rx cs v]] by (simp add: w)
  from 9(1)[OF 9(3)] 9(2)[OF w[symmetric] refl this] show ?case unfolding walk_list.simps w prod.case l by simp
next
  case (11 rx cs k v kvs)
  obtain rx1 cs1 v1 where w: "walk rx cs v = (rx1, cs1, v1)" by (rule prod_cases3)
  obtain rx2 cs2 vs2 where l: "walk_dict rx1 cs1 kvs = (rx2, cs2, vs2)" by (rule prod_cases3)
  have "same_matchers rx0 rx1" using same_matchers_trans[OF 11(3) walk_matchers(1)[of rx cs v]] by (simp add: w)
  from 11(1)[OF 11(3)] 11(2)[OF w[symmetric] refl this] show ?case unfolding walk_dict.simps w prod.case l by simp
qed simp_all

lemma redact_payload_scrub: "same_matchers rx0 rx \<Longrightarrow> fst (snd (redact_payload rx d)) = swept_dict rx0 d"
  using walk_scrub(3)[of rx0 rx "[]" d] by (simp add: redact_payload_def split_beta)

lemma redacted_cong: "same_matchers rx0 rx \<Longrightarrow> redacted rx d = redacted rx0 d"
  using redact_payload_scrub[of rx0 rx d] redact_payload_scrub[OF same_matchers_refl, of rx0 d]
  by (simp add: redacted_def)

lemma redact_payload_matchers: "same_matchers rx (fst (redact_payload rx d))"
  using walk_matchers(3)[of rx "[]" d] by (simp add: redact_payload_def split_beta)

section \<open>A class that is not cut keeps every event\<close>

definition class_of :: "string \<Rightarrow> string option" where
  "class_of t = map_of CLASS_OF t"

abbreviation of_class :: "string \<Rightarrow> event_envelope list \<Rightarrow> event_envelope list" where
  "of_class cls log \<equiv> filter (\<lambda>e. class_of (ev_type e) = Some cls) log"

text \<open>The events \<open>emit\<close> accepts, and what it records of the payload of one that is not cut.\<close>

definition accepted :: "capture_profile \<Rightarrow> emission \<Rightarrow> bool" where
  "accepted p em \<longleftrightarrow> em_type em \<in> set EVENT_TYPES \<and> (p = Debug \<or> em_type em \<noteq> ''raw_frame'')
     \<and> capture_status_of (em_status em) \<noteq> None"

definition reduces :: "capture_profile \<Rightarrow> string \<Rightarrow> bool" where
  "reduces p t \<longleftrightarrow> t \<in> set (keys CONTENT_KEYS) \<and> (p = Metadata \<or> p = Standard \<and> t = ''thought_chunk'')"

definition whole_body :: "capture_profile \<Rightarrow> redactor \<Rightarrow> emission \<Rightarrow> payload" where
  "whole_body p rx em =
     (let d = redacted rx (em_payload em) in if reduces p (em_type em) then metadata_view (em_type em) d else d)"

type_synonym kept = "string \<times> step_key \<times> payload"

definition kept_of :: "event_envelope \<Rightarrow> kept" where
  "kept_of e = (ev_type e, ev_step_id e, ev_payload e)"

fun expected :: "string \<Rightarrow> capture_profile \<Rightarrow> redactor \<Rightarrow> recorder_op list \<Rightarrow> kept list" where
  "expected cls p rx [] = []"
| "expected cls p rx (Emit em # ops) =
     (if accepted p em \<and> class_of (em_type em) = Some cls
      then (em_type em, em_step em, whole_body p rx em) # expected cls p rx ops else expected cls p rx ops)"
| "expected cls p rx (Finalize x # ops) = expected cls p rx ops"

lemma expected_append: "expected cls p rx (xs @ ys) = expected cls p rx xs @ expected cls p rx ys"
  by (induction cls p rx xs rule: expected.induct) auto

lemma truncation_class: "class_of ''truncation'' = None"
  by (simp add: class_of_def CLASS_OF_def)

lemma make_envelope_kept [simp]:
  "kept_of (make_envelope w rc em t body st mark ref) = (t, em_step em, body)"
  "ev_type (make_envelope w rc em t body st mark ref) = t"
  by (simp_all add: kept_of_def make_envelope_def)

text \<open>
  What one emission does to the classes: of the class \<open>cls\<close> it adds the expected entry, or it
  marks the class as cut.
\<close>

definition adds :: "string \<Rightarrow> recorder \<Rightarrow> recorder \<Rightarrow> kept list \<Rightarrow> bool" where
  "adds cls rc rc' ks \<longleftrightarrow> rc_class_truncated rc \<subseteq> rc_class_truncated rc'
     \<and> (cls \<in> rc_class_truncated rc' \<or>
        map kept_of (of_class cls (rc_log rc')) = map kept_of (of_class cls (rc_log rc)) @ ks)"

lemma adds_cut: "rc_class_truncated rc \<subseteq> rc_class_truncated rc' \<Longrightarrow> cls \<in> rc_class_truncated rc' \<Longrightarrow> adds cls rc rc' ks"
  by (simp add: adds_def)

lemma adds_other: "adds cls rc rc' [] \<Longrightarrow> class_of t \<noteq> Some cls \<Longrightarrow>
   adds cls rc rc' (if class_of t = Some cls then ks else [])"
  by simp

lemma mark_truncated_class: "rc_class_truncated (mark_truncated t s rc) =
   (case class_of t of None \<Rightarrow> rc_class_truncated rc | Some c \<Rightarrow> insert c (rc_class_truncated rc))"
  by (simp add: mark_truncated_def class_of_def Let_def split: option.splits)

lemma record_adds:
  assumes nr: "never_raises w"
  shows "adds cls rc (fst (record_event w rc em t body st mark ref))
    (if class_of t = Some cls then [(t, em_step em, body)] else [])"
  by (simp add: adds_def record_event_log'[OF nr])

lemma adds_trans: "adds cls rc rc' ks \<Longrightarrow> adds cls rc' rc2 ls \<Longrightarrow> adds cls rc rc2 (ks @ ls)"
  by (auto simp: adds_def)

lemma adds_same: "rc_log rc' = rc_log rc \<Longrightarrow> rc_class_truncated rc \<subseteq> rc_class_truncated rc' \<Longrightarrow> adds cls rc rc' []"
  by (simp add: adds_def)

text \<open>Marking the event's class as cut discharges whatever is expected of the event.\<close>

lemma adds_marked:
  assumes "adds cls rc rc' []" and "class_of t = Some cls \<Longrightarrow> cls \<in> rc_class_truncated rc'"
  shows "adds cls rc rc' (if class_of t = Some cls then ks else [])"
  using assms by (auto simp: adds_def)

lemma continue_adds:
  assumes nr: "never_raises w"
  shows "adds cls rc (fst (continue_truncated w rc em p ref)) (if class_of (em_type em) = Some cls then ks else [])"
proof -
  define rc1 where "rc1 = mark_truncated (em_type em) (em_step em) rc"
  have ct: "rc_class_truncated (fst (continue_truncated w rc em p ref)) = rc_class_truncated rc1"
    by (simp add: continue_truncated_def Let_def rc1_def split_beta)
  have sub: "rc_class_truncated rc \<subseteq> rc_class_truncated rc1"
    "class_of (em_type em) = Some cls \<Longrightarrow> cls \<in> rc_class_truncated rc1"
    by (auto simp: rc1_def mark_truncated_class split: option.splits)
  have log: "\<exists>es. rc_log (fst (continue_truncated w rc em p ref)) = rc_log rc @ es \<and> (\<forall>e \<in> set es. ev_type e = em_type em)"
    by (auto simp: continue_truncated_def Let_def split_beta record_event_log'[OF nr])
  show ?thesis
  proof (cases "class_of (em_type em) = Some cls")
    case True
    with sub ct show ?thesis by (auto intro!: adds_cut)
  next
    case False
    with log have "of_class cls (rc_log (fst (continue_truncated w rc em p ref))) = of_class cls (rc_log rc)"
      by (auto simp: filter_empty_conv)
    with False sub ct show ?thesis by (simp add: adds_def)
  qed
qed

lemma ceiling_adds:
  assumes nr: "never_raises w"
  shows "adds cls rc (fst (check_ceiling w rc em p ref))
    (if class_of (em_type em) = Some cls then [(em_type em, em_step em, pr_body p)] else [])"
proof -
  have t: "adds cls rc (tick rc) []" by (rule adds_same) (simp_all add: tick_def)
  have a: "adds cls rc (fst (record_event w (tick rc) em (em_type em) (pr_body p) st mk ref))
    (if class_of (em_type em) = Some cls then [(em_type em, em_step em, pr_body p)] else [])" for st mk
    using adds_trans[OF t record_adds[OF nr]] by simp
  have b: "adds cls rc (fst (record_event w (mark_truncated (em_type em) (em_step em)
       (fst (record_event w ((tick rc)\<lparr>rc_truncated := x\<rparr>) em ''truncation'' tb Complete no_mark None)))
       em (em_type em) body Partial mk ref)) (if class_of (em_type em) = Some cls then ks else [])" (is "adds _ _ ?r _")
    for x tb body mk ks
  proof (cases "class_of (em_type em) = Some cls")
    case True
    then have "cls \<in> rc_class_truncated ?r" "rc_class_truncated rc \<subseteq> rc_class_truncated ?r"
      by (auto simp: mark_truncated_class tick_def)
    then show ?thesis by (intro adds_cut)
  next
    case False
    then have "of_class cls (rc_log ?r) = of_class cls (rc_log rc)"
      by (simp add: record_event_log'[OF nr] truncation_class)
    moreover have "rc_class_truncated rc \<subseteq> rc_class_truncated ?r"
      by (auto simp: mark_truncated_class tick_def split: option.splits)
    ultimately show ?thesis using False by (simp add: adds_def)
  qed
  have if_both: "P x \<Longrightarrow> P y \<Longrightarrow> P (if c then x else y)" for P :: "recorder \<Rightarrow> bool" and x y c by simp
  show ?thesis unfolding check_ceiling_fst[OF nr]
    by (rule if_both[where P = "\<lambda>r. adds cls rc r _", OF a b])
qed

lemma prepare_cases:
  assumes "prepare_body rc em st = (rc1, p)"
  shows "rc_log rc1 = rc_log rc" "rc_class_truncated rc \<subseteq> rc_class_truncated rc1"
    "class_of (em_type em) = Some cls \<Longrightarrow> cls \<in> rc_class_truncated rc1
       \<or> pr_body p = whole_body (rc_profile rc) (rc_redactor rc) em"
  using assms by (auto simp: prepare_body_def Let_def mark_truncated_class whole_body_def reduce_for_profile_def
      reduces_def redacted_def split: if_splits prod.splits option.splits)

lemma emit_adds:
  assumes nr: "never_raises w"
  shows "adds cls rc (fst (emit w rc em))
    (if accepted (rc_profile rc) em \<and> class_of (em_type em) = Some cls
     then [(em_type em, em_step em, whole_body (rc_profile rc) (rc_redactor rc) em)] else [])" (is "adds _ _ _ ?ks")
proof (cases "accepted (rc_profile rc) em")
  case False
  then have "fst (emit w rc em) = rc" by (auto simp: emit_def accepted_def Let_def split: option.splits)
  with False show ?thesis by (simp add: adds_def)
next
  case True
  then obtain st where st: "capture_status_of (em_status em) = Some st"
    and ty: "\<not> em_type em \<notin> set EVENT_TYPES" "\<not> (rc_profile rc \<noteq> Debug \<and> em_type em = ''raw_frame'')"
    by (auto simp: accepted_def)
  obtain rc1 p where q: "prepare_body rc em st = (rc1, p)" by (cases "prepare_body rc em st")
  note pc = prepare_cases(1,2)[OF q] prepare_cases(3)[OF q, of cls]
  define ref where "ref = (if rc_profile rc = Debug then em_ref em else None)"
  have emit: "fst (emit w rc em) = fst (if em_type em = ''truncation'' then
       (case record_event w rc1 em (em_type em) (pr_body p) (pr_status p) (pr_mark p) ref of
          (rc', r) \<Rightarrow> (rc', case r of Inl x \<Rightarrow> Inl x | Inr e \<Rightarrow> Inr (Some e)))
     else if em_step em \<in> rc_truncated rc1 then continue_truncated w rc1 em p ref
     else check_ceiling w rc1 em p ref)"
    unfolding emit_def Let_def st option.case q prod.case ref_def if_not_P[OF ty(1)] if_not_P[OF ty(2)] ..
  have a1: "adds cls rc1 (fst (emit w rc em)) (if class_of (em_type em) = Some cls then [(em_type em, em_step em, pr_body p)] else [])"
  proof (cases "em_type em = ''truncation''")
    case True
    then show ?thesis unfolding emit if_P[OF True] fst_finish
      using record_adds[OF nr, of cls rc1 em "em_type em"] by simp
  next
    case False
    show ?thesis
    proof (cases "em_step em \<in> rc_truncated rc1")
      case True
      show ?thesis unfolding emit if_not_P[OF False] if_P[OF True] by (rule continue_adds[OF nr])
    next
      case notin: False
      show ?thesis unfolding emit if_not_P[OF False] if_not_P[OF notin] by (rule ceiling_adds[OF nr])
    qed
  qed
  then have "adds cls rc (fst (emit w rc em)) (if class_of (em_type em) = Some cls then [(em_type em, em_step em, pr_body p)] else [])"
    using adds_trans[OF adds_same[OF pc(1,2)]] by (metis append_Nil)
  moreover have "rc_class_truncated rc1 \<subseteq> rc_class_truncated (fst (emit w rc em))"
    using a1 by (simp add: adds_def)
  ultimately show ?thesis using True pc by (auto simp: adds_def split: if_splits)
qed

lemma emit_profile: "rc_profile (fst (emit w rc em)) = rc_profile rc"
  by (rule emit_preserves[where P = "\<lambda>y. rc_profile y = rc_profile rc"]) simp_all

lemma emit_matchers: "same_matchers (rc_redactor rc) (rc_redactor (fst (emit w rc em)))"
proof (rule emit_preserves[where P = "\<lambda>y. same_matchers (rc_redactor rc) (rc_redactor y)"])
  show "same_matchers (rc_redactor rc) (rc_redactor (y\<lparr>rc_redactor := fst (redact_payload (rc_redactor y) d)\<rparr>))"
    if "same_matchers (rc_redactor rc) (rc_redactor y)" for y d
    using same_matchers_trans[OF that redact_payload_matchers] by simp
qed (simp_all add: same_matchers_refl)

lemma whole_body_cong: "same_matchers rx0 rx \<Longrightarrow> whole_body p rx em = whole_body p rx0 em"
  unfolding whole_body_def by (simp add: redacted_cong[of rx0 rx])

definition keeps_class :: "string \<Rightarrow> capture_profile \<Rightarrow> redactor \<Rightarrow> recorder_op list \<Rightarrow> recorder \<Rightarrow> bool" where
  "keeps_class cls p rx ops rc \<longleftrightarrow> rc_profile rc = p \<and> same_matchers rx (rc_redactor rc)
     \<and> (cls \<in> rc_class_truncated rc \<or> map kept_of (of_class cls (rc_log rc)) = expected cls p rx ops)"

lemma keeps_class_step:
  assumes nr: "never_raises w" and k: "keeps_class cls p rx ops rc"
  shows "keeps_class cls p rx (ops @ [op]) (recorder_step w rc op)"
proof (cases op)
  case (Emit em)
  from k have p: "rc_profile rc = p" and m: "same_matchers rx (rc_redactor rc)" by (simp_all add: keeps_class_def)
  have b: "whole_body (rc_profile rc) (rc_redactor rc) em = whole_body p rx em"
    unfolding p by (rule whole_body_cong[OF m])
  have "expected cls p rx (ops @ [op]) = expected cls p rx ops @
     (if accepted p em \<and> class_of (em_type em) = Some cls then [(em_type em, em_step em, whole_body p rx em)] else [])"
    by (simp add: expected_append Emit)
  with emit_adds[OF nr, of cls rc em, unfolded b] k
  have "cls \<in> rc_class_truncated (fst (emit w rc em))
      \<or> map kept_of (of_class cls (rc_log (fst (emit w rc em)))) = expected cls p rx (ops @ [op])"
    by (auto simp: keeps_class_def adds_def p)
  then show ?thesis
    unfolding keeps_class_def Emit recorder_step.simps
    using same_matchers_trans[OF m emit_matchers] emit_profile[of w rc em] p by blast
next
  case (Finalize x)
  with k show ?thesis by (simp add: keeps_class_def expected_append)
qed

lemma keeps_class_run:
  assumes "never_raises w" and "keeps_class cls p rx [] rc"
  shows "keeps_class cls p rx ops (foldl (recorder_step w) rc ops)"
  using assms(2) by (induction ops rule: rev_induct) (simp_all add: keeps_class_step[OF assms(1)])

text \<open>The file and the counts.\<close>

definition counted :: "surroundings \<Rightarrow> recorder \<Rightarrow> bool" where
  "counted w rc \<longleftrightarrow>
     (rc_events_path rc \<noteq> None \<and> rc_write_failures rc = 0 \<longrightarrow> rc_file rc = map (dump_json w) (rc_log rc))
     \<and> (\<forall>cls. get_or 0 (rc_class_counts rc) cls = length (of_class cls (rc_log rc)))"

lemma record_event_counts:
  "rc_class_counts (fst (record_event w rc em t body st mark ref)) =
     (case class_of t of None \<Rightarrow> rc_class_counts rc
      | Some cls \<Rightarrow> AList.update cls (get_or 0 (rc_class_counts rc) cls + 1) (rc_class_counts rc))"
  by (simp add: record_defs class_of_def make_envelope_def split: option.splits write_outcome.splits)

lemma record_event_failures:
  "rc_write_failures (fst (record_event w rc em t body st mark ref)) =
     (if rc_events_path rc \<noteq> None \<and> (\<exists>x. appending w (rc_appends rc) = WriteRefused x)
      then Suc (rc_write_failures rc) else rc_write_failures rc)"
  by (simp add: record_defs split: option.splits write_outcome.splits)

lemma never_raises_cases: "never_raises w \<Longrightarrow> appending w n = Written \<or> (\<exists>x. appending w n = WriteRefused x)"
  unfolding never_raises_def by (cases "appending w n") auto

lemma counted_record:
  assumes c: "counted w rc" and nr: "never_raises w"
  shows "counted w (fst (record_event w rc em t body st mark ref))"
proof -
  let ?rc' = "fst (record_event w rc em t body st mark ref)"
  have "rc_events_path ?rc' \<noteq> None \<and> rc_write_failures ?rc' = 0 \<Longrightarrow> rc_file ?rc' = map (dump_json w) (rc_log ?rc')"
    using c never_raises_cases[OF nr, of "rc_appends rc"]
    by (auto simp: counted_def record_event_failures record_event_file record_event_log'[OF nr] goes_to_disk_def
        split: if_splits)
  moreover have "get_or 0 (rc_class_counts ?rc') cls = length (of_class cls (rc_log ?rc'))" for cls
    using c by (auto simp: counted_def record_event_counts record_event_log'[OF nr] split: option.splits)
  ultimately show ?thesis by (simp add: counted_def)
qed

lemma counted_same:
  "counted w rc \<Longrightarrow> rc_log rc' = rc_log rc \<Longrightarrow> rc_file rc' = rc_file rc \<Longrightarrow> rc_class_counts rc' = rc_class_counts rc
   \<Longrightarrow> rc_events_path rc' = rc_events_path rc \<Longrightarrow> rc_write_failures rc \<le> rc_write_failures rc' \<Longrightarrow> counted w rc'"
  by (auto simp: counted_def)

lemma counted_step: "never_raises w \<Longrightarrow> counted w rc \<Longrightarrow> counted w (recorder_step w rc op)"
proof (cases op)
  case (Emit em)
  assume nr: "never_raises w" and c: "counted w rc"
  have "counted w (fst (emit w rc em))"
    by (rule emit_preserves[where P = "counted w"], rule c)
      (erule counted_record[OF _ nr] | erule counted_same; simp add: tick_def)+
  with Emit show ?thesis by simp
next
  case (Finalize x)
  assume "counted w rc"
  with Finalize show ?thesis
    by (auto elim!: counted_same simp: finalize_def collect_error_def split: option.splits)
qed

lemma worse_Complete: "worse a b = Complete \<Longrightarrow> a = Complete \<and> b = Complete"
  by (cases a; cases b) (simp_all add: worse_def)

lemma class_summary_Complete:
  assumes "cse_status (class_summary rc cls) = Complete"
  shows "cls \<notin> rc_class_truncated rc" "rc_events_path rc \<noteq> None \<Longrightarrow> rc_write_failures rc = 0"
  using assms by (auto simp: class_summary_def Let_def dest!: worse_Complete split: if_splits)

lemma class_counts_entry: "cse_event_count (class_summary rc cls) = get_or 0 (rc_class_counts rc) cls"
  by (simp add: class_summary_def Let_def)

lemma new_counts: "get_or 0 (map (\<lambda>c. (c, 0)) xs) k = (0 :: nat)"
  by (induction xs) (simp_all add: get_or_def)

lemma run_events_path: "rc_events_path (foldl (recorder_step w) rc ops) = rc_events_path rc"
proof (induction ops arbitrary: rc)
  case (Cons op ops)
  have "rc_events_path (recorder_step w rc op) = rc_events_path rc"
    by (cases op) (simp_all add: emit_preserves[where P = "\<lambda>y. rc_events_path y = rc_events_path rc"])
  with Cons show ?case by simp
qed simp

text \<open>C30: complete means complete: when the capture summary reports a class complete and no write raised
  an unexpected exception, the recorded events of that class are exactly the accepted emissions of
  that class, in order, each with its whole redacted payload (a thought chunk reduced to sizes
  under the standard profile); the reported count is their number, and the events file holds every
  recorded line.\<close>

theorem complete_capture_lost_nothing:
  assumes "new_recorder r path rx prof lim cb = Some rc" and "never_raises w"
    and "cse_status (class_summary (foldl (recorder_step w) rc ops) cls) = Complete"
  shows "map kept_of (of_class cls (rc_log (foldl (recorder_step w) rc ops))) = expected cls (rc_profile rc) rx ops
    \<and> cse_event_count (class_summary (foldl (recorder_step w) rc ops) cls) = length (expected cls (rc_profile rc) rx ops)
    \<and> (path \<noteq> None \<longrightarrow> rc_file (foldl (recorder_step w) rc ops)
         = map (dump_json w) (rc_log (foldl (recorder_step w) rc ops)))"
proof -
  let ?rc = "foldl (recorder_step w) rc ops"
  note new = new_recorder_Some[OF assms(1)]
  have "keeps_class cls (rc_profile rc) rx [] rc"
    using new by (simp add: keeps_class_def same_matchers_refl)
  from keeps_class_run[OF assms(2) this, of ops] class_summary_Complete(1)[OF assms(3)]
  have k: "map kept_of (of_class cls (rc_log ?rc)) = expected cls (rc_profile rc) rx ops"
    by (simp add: keeps_class_def)
  have "counted w rc" using new by (simp add: counted_def new_counts)
  then have c: "counted w ?rc"
    by (induction ops rule: rev_induct) (simp_all add: counted_step[OF assms(2)])
  have n: "cse_event_count (class_summary ?rc cls) = length (of_class cls (rc_log ?rc))"
    using c unfolding class_counts_entry counted_def by blast
  have "length (of_class cls (rc_log ?rc)) = length (expected cls (rc_profile rc) rx ops)"
    using arg_cong[OF k, of length] by simp
  moreover have "path \<noteq> None \<Longrightarrow> rc_file ?rc = map (dump_json w) (rc_log ?rc)"
    using c class_summary_Complete(2)[OF assms(3)] new unfolding counted_def run_events_path by simp
  ultimately show ?thesis using k n by simp
qed

theorem complete_capture_witness:
  "map kept_of (of_class PERMISSIONS (rc_log (foldl (recorder_step demo_world) demo_recorder
     [demo_event ''permission_decided'' [(''rule_id'', PInt 1)], Finalize None])))
   = [(''permission_decided'', Some ''a'', [(''rule_id'', PInt 1)])]"
proof -
  let ?ops = "[demo_event ''permission_decided'' [(''rule_id'', PInt 1)], Finalize None]"
  have "cse_status (class_summary (foldl (recorder_step demo_world) demo_recorder ?ops) PERMISSIONS) = Complete"
    by code_simp
  from complete_capture_lost_nothing[OF demo_recorder demo_never_raises this]
  have "map kept_of (of_class PERMISSIONS (rc_log (foldl (recorder_step demo_world) demo_recorder ?ops)))
    = expected PERMISSIONS (rc_profile demo_recorder) demo_redactor ?ops" by blast
  also have "\<dots> = [(''permission_decided'', Some ''a'', [(''rule_id'', PInt 1)])]" by code_simp
  finally show ?thesis .
qed

text \<open>
  An exception of \<open>append_event\<close> other than \<open>PersistenceError\<close> leaves \<open>emit\<close>: the event is
  counted and has used up its sequence number, but it is in neither the file nor the aggregates,
  no failure is collected, and the summary still says complete.
\<close>

lemma escaping_write_error_is_not_counted:
  fixes w
  defines "broken \<equiv> demo_world\<lparr>appending := (\<lambda>n. WriteRaised ''No space left on device'')\<rparr>"
    and "rc \<equiv> demo_recorder"
  defines "em \<equiv> \<lparr>em_type = ''permission_decided'', em_step = Some ''a'', em_attempt = None, em_session = None,
     em_payload = [], em_status = ''complete'', em_ref = None\<rparr>"
  shows "snd (emit broken rc em) = Inl (WriteError ''No space left on device'')"
    and "rc_log (fst (emit broken rc em)) = [] \<and> rc_file (fst (emit broken rc em)) = []
      \<and> rc_seq (fst (emit broken rc em)) = 1 \<and> rc_write_failures (fst (emit broken rc em)) = 0"
    and "cse_status (class_summary (fst (emit broken rc em)) PERMISSIONS) = Complete
      \<and> cse_event_count (class_summary (fst (emit broken rc em)) PERMISSIONS) = 1"
  unfolding broken_def rc_def em_def by code_simp+

end
