(* ===== verification/Recorder_Aggregates.thy ===== *)
theory Recorder_Aggregates
  imports Recorder_Capture
begin

text \<open>
  What the metadata profile lets through, and the recorder's aggregates as a function of the
  recorded events.
\<close>

section \<open>The envelopes of one emission\<close>

definition META_KEYS :: "string list" where
  "META_KEYS = [''truncated'', ''original_bytes'', ''suppressed_events'', ''suppressed_bytes'']"

definition envelope_of :: "recorder \<Rightarrow> emission \<Rightarrow> event_envelope \<Rightarrow> bool" where
  "envelope_of rc em e \<longleftrightarrow>
     ev_type e = ''truncation''
     \<or> ev_type e = em_type em \<and> (ev_payload e = whole_body (rc_profile rc) (rc_redactor rc) em
         \<or> set (keys (ev_payload e)) \<subseteq> set META_KEYS)"

definition logs :: "recorder \<Rightarrow> emission \<Rightarrow> recorder \<Rightarrow> recorder \<Rightarrow> bool" where
  "logs rc0 em rc rc' \<longleftrightarrow> (\<exists>es. rc_log rc' = rc_log rc @ es \<and> (\<forall>e \<in> set es. envelope_of rc0 em e))"

lemma logs_same: "rc_log rc' = rc_log rc \<Longrightarrow> logs rc0 em rc rc'"
  by (simp add: logs_def)

lemma logs_trans: "logs rc0 em rc rc' \<Longrightarrow> logs rc0 em rc' rc2 \<Longrightarrow> logs rc0 em rc rc2"
  unfolding logs_def by (metis Un_iff append.assoc set_append)

lemma logs_record:
  assumes "t = ''truncation'' \<or> t = em_type em \<and> (body = whole_body (rc_profile rc0) (rc_redactor rc0) em
      \<or> set (keys body) \<subseteq> set META_KEYS)"
  shows "logs rc0 em rc (fst (record_event w rc em t body st mark ref))"
proof -
  let ?e = "make_envelope w rc em t body st mark ref"
  have "envelope_of rc0 em ?e" using assms by (simp add: envelope_of_def)
  then show ?thesis
    unfolding logs_def record_event_log by (cases "raises w rc") (auto intro: exI[of _ "[?e]"])
qed

lemma truncated_payload_keys: "set (keys (truncated_payload n)) \<subseteq> set META_KEYS"
  by (simp add: truncated_payload_def META_KEYS_def)

lemma update_keys_subset: "set (keys d) \<subseteq> K \<Longrightarrow> k \<in> K \<Longrightarrow> set (keys (AList.update k v d)) \<subseteq> K"
  by (simp add: dom_update)

lemma logs_continue:
  assumes cut: "shortened p = truncated_payload (pr_original_bytes p)"
  shows "logs rc0 em rc (fst (continue_truncated w rc em p ref))"
proof -
  have k: "set (keys (shortened p)) \<subseteq> set META_KEYS" unfolding cut by (rule truncated_payload_keys)
  have k2: "set (keys (AList.update ''suppressed_bytes'' a (AList.update ''suppressed_events'' b (shortened p))))
      \<subseteq> set META_KEYS" for a b
    by (intro update_keys_subset k) (simp_all add: META_KEYS_def)
  have m: "rc_log (mark_truncated (em_type em) (em_step em) rc) = rc_log rc" by simp
  have r: "logs rc0 em rc (fst (record_event w rc1 em (em_type em) body st mk ref))"
    if "rc_log rc1 = rc_log rc" "set (keys body) \<subseteq> set META_KEYS" for rc1 body st mk
    using logs_trans[OF logs_same[OF that(1)] logs_record] that(2) by simp
  show ?thesis
    unfolding continue_truncated_def Let_def
    by (simp only: if_distrib[of fst] fst_finish fst_conv split: if_split)
      (intro conjI impI r k k2 m logs_same; simp)
qed

lemma logs_ceiling:
  assumes cut: "shortened p = truncated_payload (pr_original_bytes p)"
    and body: "pr_body p = whole_body (rc_profile rc0) (rc_redactor rc0) em \<or> set (keys (pr_body p)) \<subseteq> set META_KEYS"
  shows "logs rc0 em rc (fst (check_ceiling w rc em p ref))"
proof -
  have k: "set (keys (shortened p)) \<subseteq> set META_KEYS" unfolding cut by (rule truncated_payload_keys)
  have w: "logs rc0 em rc (fst (record_event w (tick rc) em (em_type em) (pr_body p) st mk ref))" for st mk
    using logs_trans[OF logs_same logs_record] body by simp
  have x: "logs rc0 em rc (fst (record_event w (mark_truncated t s rc1) em (em_type em) (shortened p) st mk ref))"
    if "logs rc0 em rc rc1" for t s rc1 st mk
    using logs_trans[OF that logs_trans[OF logs_same logs_record]] k by simp
  have t: "logs rc0 em rc (fst (record_event w ((tick rc)\<lparr>rc_truncated := y\<rparr>) em ''truncation'' b st mk ref'))"
    for y b st mk ref'
    using logs_trans[OF logs_same logs_record] by simp
  show ?thesis
    unfolding check_ceiling_def Let_def
    using w x t by (auto simp: split_beta split: sum.splits)
qed

lemma prepare_body_or_meta:
  assumes "prepare_body rc em st = (rc1, p)"
  shows "pr_body p = whole_body (rc_profile rc) (rc_redactor rc) em \<or> set (keys (pr_body p)) \<subseteq> set META_KEYS"
proof (cases "pr_replaced p")
  case True
  with prepare_body_replaced[of rc em st] assms truncated_payload_keys show ?thesis by (metis snd_conv)
next
  case False
  with assms show ?thesis
    by (auto simp: prepare_body_def Let_def whole_body_def reduce_for_profile_def reduces_def redacted_def
        split: if_splits prod.splits)
qed

text \<open>Every envelope an emission records is the truncation event, or carries the whole body or metadata only.\<close>

lemma choice_of_three: "P x \<Longrightarrow> P y \<Longrightarrow> P z \<Longrightarrow> P (if a then x else if b then y else z)"
  by simp

lemma emit_logs: "logs rc em rc (fst (emit w rc em))"
proof (cases "capture_status_of (em_status em)")
  case None
  then show ?thesis by (simp add: emit_def Let_def logs_same)
next
  case (Some s)
  obtain rc1 p where q: "prepare_body rc em s = (rc1, p)" by (cases "prepare_body rc em s")
  have cut: "shortened p = truncated_payload (pr_original_bytes p)"
    using prepare_body_replaced[of rc em s] unfolding q snd_conv by (rule shortened_cut)
  note body = prepare_body_or_meta[OF q]
  have r: "logs rc em rc1 (fst (record_event w rc1 em (em_type em) (pr_body p) st mk ref))" for st mk ref
    by (rule logs_record) (use body in blast)
  have "logs rc em rc1 (fst (if em_type em = ''truncation'' then
       (case record_event w rc1 em (em_type em) (pr_body p) (pr_status p) (pr_mark p) ref of
          (rc', r) \<Rightarrow> (rc', case r of Inl x \<Rightarrow> Inl x | Inr e \<Rightarrow> Inr (Some e)))
     else if em_step em \<in> rc_truncated rc1 then continue_truncated w rc1 em p ref
     else check_ceiling w rc1 em p ref))" for ref
    unfolding if_distrib[of fst] fst_finish
    by (rule choice_of_three[where P = "logs rc em rc1", OF r logs_continue[OF cut] logs_ceiling[OF cut body]])
  from logs_trans[OF logs_same[OF prepare_cases(1)[OF q]] this]
  show ?thesis
    unfolding emit_def Let_def Some option.case q prod.case
    by (rule refused_or[where P = "logs rc em rc", OF logs_same[OF refl]])
qed

section \<open>The metadata profile\<close>

fun is_size :: "pyval \<Rightarrow> bool" where
  "is_size (PDict [(a, PInt n), (b, PStr t)]) \<longleftrightarrow> a = ''bytes'' \<and> b = ''type''"
| "is_size v \<longleftrightarrow> False"

text \<open>A content value is absent, a size with a type name, or a tool call without content.\<close>

fun withheld :: "string \<Rightarrow> pyval \<Rightarrow> bool" where
  "withheld k (PDict d) \<longleftrightarrow> is_size (PDict d) \<or>
     k = ''tool_call'' \<and> list_all (\<lambda>(k', v). k' \<in> set TOOL_CALL_CONTENT_KEYS \<longrightarrow> v = PNone \<or> is_size v) d"
| "withheld k v \<longleftrightarrow> v = PNone"

definition content_withheld :: "event_envelope \<Rightarrow> bool" where
  "content_withheld e \<longleftrightarrow>
     list_all (\<lambda>(k, v). k \<in> set (get_or [] CONTENT_KEYS (ev_type e)) \<longrightarrow> withheld k v) (ev_payload e)"

lemma size_and_type_is_size: "is_size (size_and_type v)"
  by (simp add: size_and_type_def)

lemma reduce_value_withheld: "withheld k (reduce_value k v)"
proof (cases v)
  case (PDict d)
  have "list_all (\<lambda>(k', v). k' \<in> set TOOL_CALL_CONTENT_KEYS \<longrightarrow> v = PNone \<or> is_size v) (reduce_tool_call d)"
    by (auto simp: reduce_tool_call_def list_all_iff size_and_type_is_size split: if_splits)
  then show ?thesis by (simp add: PDict size_and_type_def)
qed (simp_all add: size_and_type_def)

lemma metadata_view_withheld: "ev_payload e = metadata_view (ev_type e) d \<Longrightarrow> content_withheld e"
  by (auto simp: content_withheld_def metadata_view_def list_all_iff reduce_value_withheld split: if_splits)

lemma no_content_keys: "t \<notin> set (keys CONTENT_KEYS) \<Longrightarrow> get_or [] CONTENT_KEYS t = []"
  by (auto simp: get_or_def map_of_eq_None_iff[symmetric])

lemma meta_keys_no_content:
  "k \<in> set META_KEYS \<Longrightarrow> k \<notin> set (get_or [] CONTENT_KEYS t)"
proof -
  have all: "list_all (\<lambda>(t, ks). list_all (\<lambda>k. k \<notin> set META_KEYS) ks) CONTENT_KEYS" by code_simp
  assume k: "k \<in> set META_KEYS"
  show ?thesis
  proof (cases "map_of CONTENT_KEYS t")
    case None
    then show ?thesis by (simp add: get_or_def)
  next
    case (Some ks)
    from map_of_SomeD[OF Some] all k show ?thesis
      by (auto simp: get_or_def Some list_all_iff)
  qed
qed

lemma envelope_withheld:
  assumes "envelope_of rc em e" and "rc_profile rc = Metadata"
  shows "content_withheld e"
proof (cases "ev_type e \<in> set (keys CONTENT_KEYS)")
  case False
  then show ?thesis by (auto simp: content_withheld_def no_content_keys list_all_iff)
next
  case True
  have "''truncation'' \<notin> set (keys CONTENT_KEYS)" by code_simp
  with True have "ev_type e \<noteq> ''truncation''" by metis
  with assms(1) have t: "ev_type e = em_type em"
    "ev_payload e = whole_body (rc_profile rc) (rc_redactor rc) em \<or> set (keys (ev_payload e)) \<subseteq> set META_KEYS"
    by (auto simp: envelope_of_def)
  show ?thesis
  proof (cases "set (keys (ev_payload e)) \<subseteq> set META_KEYS")
    case True
    then have "k \<in> set META_KEYS" if "(k, v) \<in> set (ev_payload e)" for k v using that by force
    then show ?thesis
      unfolding content_withheld_def list_all_iff using meta_keys_no_content by blast
  next
    case False
    with t(2) have "ev_payload e = whole_body Metadata (rc_redactor rc) em" using assms(2) by simp
    also have "\<dots> = metadata_view (ev_type e) (redacted (rc_redactor rc) (em_payload em))"
      using True t(1) by (simp add: whole_body_def reduces_def)
    finally show ?thesis by (rule metadata_view_withheld)
  qed
qed

lemma withheld_run:
  "rc_profile rc = Metadata \<Longrightarrow> \<forall>e \<in> set (rc_log rc). content_withheld e \<Longrightarrow>
   \<forall>e \<in> set (rc_log (foldl (recorder_step w) rc ops)). content_withheld e"
proof (induction ops arbitrary: rc)
  case (Cons op ops)
  have "rc_profile (recorder_step w rc op) = Metadata
     \<and> (\<forall>e \<in> set (rc_log (recorder_step w rc op)). content_withheld e)"
  proof (cases op)
    case (Emit em)
    from emit_logs[of rc em w] obtain es where
      "rc_log (fst (emit w rc em)) = rc_log rc @ es" "\<forall>e \<in> set es. envelope_of rc em e"
      by (auto simp: logs_def)
    with Cons.prems envelope_withheld Emit show ?thesis by (auto simp: emit_profile)
  next
    case (Finalize x)
    with Cons.prems show ?thesis by simp
  qed
  with Cons.IH[of "recorder_step w rc op"] show ?case by simp
qed simp

text \<open>the metadata profile keeps content out of the record: whatever is emitted, in every recorded
  event each content key of its type holds nothing, only a byte count with a type name, or a tool
  call whose own content keys hold no more than that.\<close>

theorem metadata_profile_withholds_content:
  assumes "new_recorder r path rx ''metadata'' lim cb = Some rc"
  shows "\<forall>e \<in> set (rc_log (foldl (recorder_step w) rc ops)). content_withheld e"
  using withheld_run[of rc w ops] new_recorder_Some[OF assms] by (simp add: profile_of_def)

definition private_op :: recorder_op where
  "private_op = demo_event ''permission_requested''
     [(''tool_call'', PDict [(''title'', PInt 3), (''rawInput'', PList [PInt 1, PInt 2])])]"

theorem metadata_profile_witness:
  "\<exists>rc. new_recorder ''r'' None demo_redactor ''metadata'' DEFAULT_LIMITS False = Some rc
    \<and> (\<forall>e \<in> set (rc_log (foldl (recorder_step demo_world) rc [private_op])). content_withheld e)"
proof -
  obtain rc where "new_recorder ''r'' None demo_redactor ''metadata'' DEFAULT_LIMITS False = Some rc"
    by (simp add: new_recorder_def profile_of_def)
  with metadata_profile_withholds_content[OF this, of demo_world "[private_op]"] show ?thesis by blast
qed

section \<open>The aggregates replay the record\<close>

text \<open>
  Two recorders with the same view: equal aggregates, the tool calls up to the capture status that
  a truncation may lower.
\<close>

definition fresh :: "tool_call_record \<Rightarrow> tool_call_record" where
  "fresh r = r\<lparr>tc_capture_status := Complete\<rparr>"

definition fresh_table :: "(string \<times> tool_call_record) list \<Rightarrow> (string \<times> tool_call_record) list" where
  "fresh_table tab = map (\<lambda>(i, r). (i, fresh r)) tab"

definition fresh_calls ::
  "(step_key \<times> (string \<times> tool_call_record) list) list \<Rightarrow> (step_key \<times> (string \<times> tool_call_record) list) list" where
  "fresh_calls t = map (\<lambda>(s, tab). (s, fresh_table tab)) t"

definition same_view :: "recorder \<Rightarrow> recorder \<Rightarrow> bool" where
  "same_view rc rc' \<longleftrightarrow> rc_text rc' = rc_text rc \<and> rc_permissions rc' = rc_permissions rc
     \<and> rc_file_changes rc' = rc_file_changes rc \<and> rc_fc_seen rc' = rc_fc_seen rc
     \<and> rc_usage_seen rc' = rc_usage_seen rc \<and> rc_usage_by_step rc' = rc_usage_by_step rc
     \<and> fresh_calls (rc_tool_calls rc') = fresh_calls (rc_tool_calls rc)"

lemma update_map_values: "AList.update k (f v) (map (\<lambda>(k, v). (k, f v)) d) = map (\<lambda>(k, v). (k, f v)) (AList.update k v d)"
  by (induction d) auto

lemma fresh_table_update: "fresh_table (AList.update i r tab) = AList.update i (fresh r) (fresh_table tab)"
  by (simp add: fresh_table_def update_map_values)

lemma fresh_calls_update: "fresh_calls (AList.update s tab t) = AList.update s (fresh_table tab) (fresh_calls t)"
  by (simp add: fresh_calls_def update_map_values)

lemma map_of_values: "map_of (map (\<lambda>(k, v). (k, f v)) d) k = map_option f (map_of d k)"
  by (induction d) auto

lemma fresh_get: "get_or [] (fresh_calls t) s = fresh_table (get_or [] t s)"
  by (auto simp: get_or_def fresh_calls_def map_of_values fresh_table_def split: option.splits)

lemma fresh_update: "fresh (update_tool_call d r) = update_tool_call d (fresh r)"
  by (simp add: fresh_def update_tool_call_def split: option.splits pyval.splits)

lemma fresh_merged:
  "fresh (update_tool_call d (case map_of tab i of None \<Rightarrow> new_tool_call i | Some r \<Rightarrow> r)) =
   update_tool_call d (case map_of (fresh_table tab) i of None \<Rightarrow> new_tool_call i | Some r \<Rightarrow> r)"
  by (simp add: fresh_update fresh_table_def map_of_values split: option.splits)
    (simp add: fresh_def new_tool_call_def)

lemma merged_calls:
  "str_at d ''tool_call_id'' = Some i \<Longrightarrow> fresh_calls (rc_tool_calls (merge_tool_call s d rc)) =
     (let tab = get_or [] (fresh_calls (rc_tool_calls rc)) s in
      AList.update s (AList.update i (update_tool_call d
        (case map_of tab i of None \<Rightarrow> new_tool_call i | Some r \<Rightarrow> r)) tab) (fresh_calls (rc_tool_calls rc)))"
  by (simp add: merge_tool_call_def Let_def fresh_calls_update fresh_table_update fresh_merged fresh_get)

lemma merge_keeps:
  "rc_text (merge_tool_call s d rc) = rc_text rc" "rc_permissions (merge_tool_call s d rc) = rc_permissions rc"
  "rc_file_changes (merge_tool_call s d rc) = rc_file_changes rc" "rc_fc_seen (merge_tool_call s d rc) = rc_fc_seen rc"
  "rc_usage_seen (merge_tool_call s d rc) = rc_usage_seen rc"
  "rc_usage_by_step (merge_tool_call s d rc) = rc_usage_by_step rc"
  by (simp_all add: merge_tool_call_def Let_def split: option.splits)

lemma merge_same_view: "same_view rc rc' \<Longrightarrow> same_view (merge_tool_call s d rc) (merge_tool_call s d rc')"
proof (cases "str_at d ''tool_call_id''")
  case None
  then show "same_view rc rc' \<Longrightarrow> ?thesis" by (simp add: merge_tool_call_def)
next
  case (Some i)
  then show "same_view rc rc' \<Longrightarrow> ?thesis" by (simp add: same_view_def merge_keeps merged_calls)
qed

lemma add_change_same_view: "same_view rc rc' \<Longrightarrow> same_view (add_file_change s rc c) (add_file_change s rc' c)"
  by (simp add: same_view_def add_file_change_def Let_def)

lemma add_changes_same_view:
  "same_view rc rc' \<Longrightarrow> same_view (foldl (add_file_change s) rc cs) (foldl (add_file_change s) rc' cs)"
  by (induction cs arbitrary: rc rc') (simp_all add: add_change_same_view)

lemma extract_same_view: "same_view rc rc' \<Longrightarrow> same_view (extract_diff_changes s d rc) (extract_diff_changes s d rc')"
  by (simp add: extract_diff_changes_def Let_def add_changes_same_view split: pyval.splits)

lemma aggregate_same_view: "same_view rc rc' \<Longrightarrow> same_view (aggregate w rc e) (aggregate w rc' e)"
proof -
  assume v: "same_view rc rc'"
  have eqs: "rc_text rc' = rc_text rc" "rc_permissions rc' = rc_permissions rc"
    "rc_usage_seen rc' = rc_usage_seen rc" "rc_usage_by_step rc' = rc_usage_by_step rc"
    using v by (simp_all add: same_view_def)
  have u: "same_view (rc\<lparr>rc_text := x\<rparr>) (rc'\<lparr>rc_text := x\<rparr>)" "same_view (rc\<lparr>rc_permissions := y\<rparr>) (rc'\<lparr>rc_permissions := y\<rparr>)"
    "same_view (rc\<lparr>rc_usage_seen := n, rc_usage_by_step := z\<rparr>) (rc'\<lparr>rc_usage_seen := n, rc_usage_by_step := z\<rparr>)"
    for x y n z using v by (simp_all add: same_view_def)
  show ?thesis unfolding aggregate_def Let_def eqs
    by (simp add: v u add_change_same_view extract_same_view merge_same_view split: option.splits pyval.splits)
qed

lemma same_view_trans: "same_view a b \<Longrightarrow> same_view b c \<Longrightarrow> same_view a c"
  by (simp add: same_view_def)

lemma mark_same_view: "same_view rc (mark_truncated t s rc)"
proof -
  have "fresh_calls (map (\<lambda>(s', table). if s' = s then (s', map (\<lambda>(i, r). (i, r\<lparr>tc_capture_status := Partial\<rparr>)) table)
      else (s', table)) tc) = fresh_calls tc" for tc
    by (induction tc) (auto simp: fresh_calls_def fresh_table_def fresh_def comp_def split_beta)
  then show ?thesis by (simp add: same_view_def mark_truncated_def Let_def split: option.splits)
qed

lemma same_view_refl: "same_view rc rc"
  by (simp add: same_view_def)

lemma write_same_view: "same_view rc (fst (write_line w e (account w e (tick rc))))"
  by (simp add: same_view_def write_line_def account_def tick_def collect_error_def Let_def
      split: option.splits write_outcome.splits)

lemma hand_over_same_view: "same_view rc rc' \<Longrightarrow> same_view (aggregate w rc e) (hand_over w e rc')"
  using aggregate_same_view[of rc rc' w e] by (simp add: hand_over_def Let_def same_view_def)

lemma record_same_view:
  "same_view (if raises w rc then rc else aggregate w rc (make_envelope w rc em t body st mark ref))
     (fst (record_event w rc em t body st mark ref))"
proof -
  let ?e = "make_envelope w rc em t body st mark ref"
  obtain rc' x where q: "write_line w ?e (account w ?e (tick rc)) = (rc', x)"
    by (cases "write_line w ?e (account w ?e (tick rc))")
  have v: "same_view rc rc'" using write_same_view[of rc w ?e] by (simp add: q)
  have x: "x = None \<longleftrightarrow> \<not> raises w rc"
    using arg_cong[OF q, of snd]
    by (auto simp: write_line_def account_def tick_def raises_def Let_def split: option.splits write_outcome.splits if_splits)
  show ?thesis
  proof (cases "raises w rc")
    case True
    with x obtain m where "x = Some m" by auto
    with True v show ?thesis unfolding record_event_fst Let_def q by simp
  next
    case False
    with x have "x = None" by simp
    with False hand_over_same_view[OF v] show ?thesis unfolding record_event_fst Let_def q by simp
  qed
qed

definition replay :: "surroundings \<Rightarrow> recorder \<Rightarrow> event_envelope list \<Rightarrow> recorder" where
  "replay w rc es = foldl (aggregate w) rc es"

definition replayed :: "surroundings \<Rightarrow> recorder \<Rightarrow> recorder \<Rightarrow> bool" where
  "replayed w rc0 rc \<longleftrightarrow> same_view (replay w rc0 (rc_log rc)) rc"

lemma replayed_view: "replayed w rc0 rc \<Longrightarrow> rc_log rc' = rc_log rc \<Longrightarrow> same_view rc rc' \<Longrightarrow> replayed w rc0 rc'"
  unfolding replayed_def using same_view_trans by metis

lemma replayed_record: "replayed w rc0 rc \<Longrightarrow> replayed w rc0 (fst (record_event w rc em t body st mark ref))"
proof (cases "raises w rc")
  case True
  assume "replayed w rc0 rc"
  then show ?thesis
    by (rule replayed_view) (use record_same_view[of w rc em t body st mark ref] True in \<open>simp_all add: record_event_log\<close>)
next
  case False
  assume r: "replayed w rc0 rc"
  let ?e = "make_envelope w rc em t body st mark ref"
  have "same_view (aggregate w (replay w rc0 (rc_log rc)) ?e) (aggregate w rc ?e)"
    using r unfolding replayed_def by (rule aggregate_same_view)
  with record_same_view[of w rc em t body st mark ref] False show ?thesis
    unfolding replayed_def record_event_log replay_def by (simp add: same_view_trans)
qed

lemma replayed_step: "replayed w rc0 rc \<Longrightarrow> replayed w rc0 (recorder_step w rc op)"
proof (cases op)
  case (Emit em)
  assume r: "replayed w rc0 rc"
  have "replayed w rc0 (fst (emit w rc em))"
    by (rule emit_preserves[where P = "replayed w rc0"], rule r)
      (erule replayed_record | erule replayed_view; (simp add: mark_same_view | simp add: same_view_def tick_def))+
  with Emit show ?thesis by simp
next
  case (Finalize x)
  assume "replayed w rc0 rc"
  with Finalize show ?thesis
    by (auto elim!: replayed_view simp: same_view_def finalize_def collect_error_def split: option.splits)
qed

interpretation replaying: stepping "recorder_step w" "replayed w rc0" for w rc0
  by unfold_locales (rule replayed_step)

lemma same_view_queries:
  assumes "same_view rc rc'"
  shows "text_output rc' s = text_output rc s" "file_changes rc' s = file_changes rc s"
    "permission_decisions rc' s = permission_decisions rc s" "usage_summary_of w rc' = usage_summary_of w rc"
    "map fresh (tool_calls rc' s) = map fresh (tool_calls rc s)"
proof -
  have "map fresh (map snd tab) = map snd (fresh_table tab)" for tab
    by (simp add: fresh_table_def comp_def split_beta)
  then have t: "map fresh (tool_calls x s) = map snd (get_or [] (fresh_calls (rc_tool_calls x)) s)" for x
    unfolding tool_calls_def fresh_get .
  show "map fresh (tool_calls rc' s) = map fresh (tool_calls rc s)"
    unfolding t using assms by (simp add: same_view_def)
qed (use assms in \<open>simp_all add: same_view_def text_output_def file_changes_def permission_decisions_def usage_summary_of_def\<close>)

text \<open>the record is canonical: everything the engine reads from a recorder for its results - the text,
  the file changes, the permission decisions, the usage, and the tool calls up to the capture
  status a truncation lowers - is what aggregating the recorded events in order yields.\<close>

theorem aggregates_replay_the_record:
  assumes "new_recorder r path rx prof lim cb = Some rc0"
  shows "text_output (foldl (recorder_step w) rc0 ops) s
      = text_output (replay w rc0 (rc_log (foldl (recorder_step w) rc0 ops))) s
    \<and> file_changes (foldl (recorder_step w) rc0 ops) s
      = file_changes (replay w rc0 (rc_log (foldl (recorder_step w) rc0 ops))) s
    \<and> permission_decisions (foldl (recorder_step w) rc0 ops) s
      = permission_decisions (replay w rc0 (rc_log (foldl (recorder_step w) rc0 ops))) s
    \<and> usage_summary_of w (foldl (recorder_step w) rc0 ops)
      = usage_summary_of w (replay w rc0 (rc_log (foldl (recorder_step w) rc0 ops)))
    \<and> map fresh (tool_calls (foldl (recorder_step w) rc0 ops) s)
      = map fresh (tool_calls (replay w rc0 (rc_log (foldl (recorder_step w) rc0 ops))) s)"
proof -
  have "replayed w rc0 rc0"
    using new_recorder_Some[OF assms] by (simp add: replayed_def replay_def same_view_refl)
  from replaying.run_inv[OF this, of ops]
  have "same_view (replay w rc0 (rc_log (foldl (recorder_step w) rc0 ops))) (foldl (recorder_step w) rc0 ops)"
    unfolding replayed_def .
  from same_view_queries[OF this] show ?thesis by blast
qed

theorem aggregates_replay_witness:
  "usage_summary_of demo_world (foldl (recorder_step demo_world) demo_recorder demo_ops)
     = usage_summary_of demo_world (replay demo_world demo_recorder
         (rc_log (foldl (recorder_step demo_world) demo_recorder demo_ops)))"
  using aggregates_replay_the_record[OF demo_recorder, of demo_world demo_ops] by blast

end
