(* ===== verification/Catalog.thy ===== *)
theory Catalog
  imports Egress Paths
begin

text \<open>
  \<open>orchestrator/catalog.py\<close>: the execution targets a planning agent may choose from, and the
  prompt that shows them. Agents come from \<open>orchestrator.eligible_agents\<close>, workflows from
  hash-pinned \<open>orchestrator.trusted_workflows\<close>. The file system, SHA-256 and the YAML loader
  are the record \<open>disk\<close>. The lemmas show that every entry descends from trusted configuration,
  and that a description can close the region the prompt puts it in.
\<close>

section \<open>The catalog\<close>

record catalog_agent =
  ca_name :: string
  ca_provider :: string
  ca_capability_line :: string

text \<open>Of a variable's declaration the planner sees type, required, secret and max_bytes.\<close>

record catalog_workflow =
  cw_name :: string
  cw_description :: string
  cw_variables :: "(string \<times> (var_type \<times> bool \<times> bool \<times> int)) list"
  cw_path :: pth

record catalog =
  cat_agents :: "catalog_agent list"
  cat_workflows :: "catalog_workflow list"
  cat_warnings :: "string list"

record disk =
  dk_realpath :: fs
  dk_read :: "pth \<Rightarrow> string + string"          \<comment> \<open>\<open>read_bytes\<close>, or the text of the OSError\<close>
  dk_sha256 :: "string \<Rightarrow> string"               \<comment> \<open>the hex digest\<close>
  dk_load :: "pth \<Rightarrow> string + workflow_def"     \<comment> \<open>\<open>load_workflow\<close>, or the message of its error\<close>
  dk_user_dir :: string

definition or_unknown :: "string option \<Rightarrow> string" where
  "or_unknown p = (case p of Some (c # cs) \<Rightarrow> c # cs | _ \<Rightarrow> ''unknown'')"

definition capability_line :: "agent_config \<Rightarrow> string" where
  "capability_line c = ''provider='' @ or_unknown (ag_provider c)
     @ (if ag_direct_tools_assumed c then ''; direct local tools assumed (advisory mediation)'' else [])"

definition not_registered :: "string \<Rightarrow> zerror" where
  "not_registered name = config_error
     (''orchestrator.eligible_agents: agent '' @ [CHR 0x27] @ name @ [CHR 0x27]
       @ '' is not registered (trusted user [agents.*] config must define it)'')
     [(''agent'', PStr name), (''condition'', PStr ''registered'')]"

definition not_eligible :: "string \<Rightarrow> zerror" where
  "not_eligible name = config_error
     (''orchestrator.eligible_agents: agent '' @ [CHR 0x27] @ name @ [CHR 0x27]
       @ '' is registered but does not set orchestration_eligible = true in trusted user config'')
     [(''agent'', PStr name), (''condition'', PStr ''orchestration_eligible'')]"

fun eligible_from :: "registry \<Rightarrow> string list \<Rightarrow> zerror + catalog_agent list" where
  "eligible_from reg [] = Inr []"
| "eligible_from reg (name # rest) =
     (case get_agent reg name of
        Inl e \<Rightarrow> Inl (not_registered name)
      | Inr c \<Rightarrow>
          if \<not> ag_orchestration_eligible c then Inl (not_eligible name)
          else bindE (eligible_from reg rest) (\<lambda>as. Inr (\<lparr>ca_name = ag_name c,
                 ca_provider = or_unknown (ag_provider c), ca_capability_line = capability_line c\<rparr> # as)))"

definition eligible_agents :: "ziggy_config \<Rightarrow> registry \<Rightarrow> zerror + catalog_agent list" where
  "eligible_agents cfg reg =
     eligible_from reg (sorted_list_of_set (set (oc_eligible_agents (c_orchestrator cfg))))"

text \<open>The first base the path resolves inside.\<close>

fun first_contained :: "fs \<Rightarrow> string list \<Rightarrow> string \<Rightarrow> pth option" where
  "first_contained realpath [] path = None"
| "first_contained realpath (base # bases) path =
     (case resolve_contained realpath base (py_repr path) path of
        Inr p \<Rightarrow> Some p | Inl _ \<Rightarrow> first_contained realpath bases path)"

definition dropped :: "trusted_workflow \<Rightarrow> string \<Rightarrow> string" where
  "dropped e why = ''trusted workflow '' @ py_repr (tw_path e)
     @ '' dropped from the orchestrator catalog: '' @ why"

definition catalog_entry :: "pth \<Rightarrow> workflow_def \<Rightarrow> catalog_workflow" where
  "catalog_entry path w = \<lparr>cw_name = w_name w,
     cw_description = (case w_description w of None \<Rightarrow> [] | Some d \<Rightarrow> d),
     cw_variables = sort_key fst (map (\<lambda>(n, v). (n, v_type v, v_required v, v_secret v, v_max_bytes v)) (w_variables w)),
     cw_path = path\<rparr>"

text \<open>\<open>str.lower\<close>; a hex digest has no other letters.\<close>

definition lower_ascii :: "string \<Rightarrow> string" where "lower_ascii = map to_lower"

text \<open>One entry: the workflow it contributes, or the warning it leaves.\<close>

definition admit :: "disk \<Rightarrow> string \<Rightarrow> string list \<Rightarrow> trusted_workflow \<Rightarrow> string + catalog_workflow" where
  "admit dk workspace seen e =
     (case first_contained (dk_realpath dk) [workspace, dk_user_dir dk] (tw_path e) of
        None \<Rightarrow> Inl (dropped e (''path does not resolve canonically inside the workspace ('' @ workspace
                  @ '') or the user workflows directory ('' @ dk_user_dir dk @ '')''))
      | Some path \<Rightarrow>
          (case dk_read dk path of
             Inl x \<Rightarrow> Inl (dropped e (''unreadable: '' @ x))
           | Inr content \<Rightarrow>
               if dk_sha256 dk content \<noteq> lower_ascii (strip (tw_sha256 e))
               then Inl (dropped e ''content hash does not match the pinned sha256 (re-approve by updating orchestrator.trusted_workflows)'')
               else (case dk_load dk path of
                  Inl m \<Rightarrow> Inl (dropped e (''validation failed: '' @ m))
                | Inr w \<Rightarrow>
                    if w_name w \<in> set seen
                    then Inl (dropped e (''duplicate workflow name '' @ py_repr (w_name w)
                           @ '' (an earlier trusted_workflows entry already provides it)''))
                    else Inr (catalog_entry path w))))"

fun admit_all ::
  "disk \<Rightarrow> string \<Rightarrow> string list \<Rightarrow> trusted_workflow list \<Rightarrow> catalog_workflow list \<times> string list" where
  "admit_all dk workspace seen [] = ([], [])"
| "admit_all dk workspace seen (e # es) =
     (case admit dk workspace seen e of
        Inl m \<Rightarrow> (case admit_all dk workspace seen es of (ws, warns) \<Rightarrow> (ws, m # warns))
      | Inr w \<Rightarrow> (case admit_all dk workspace (cw_name w # seen) es of (ws, warns) \<Rightarrow> (w # ws, warns)))"

definition build_catalog :: "disk \<Rightarrow> ziggy_config \<Rightarrow> registry \<Rightarrow> string \<Rightarrow> zerror + catalog" where
  "build_catalog dk cfg reg workspace =
     bindE (eligible_agents cfg reg) (\<lambda>as.
       case admit_all dk workspace [] (oc_trusted_workflows (c_orchestrator cfg)) of (ws, warns) \<Rightarrow>
         Inr \<lparr>cat_agents = as, cat_workflows = sort_key cw_name ws, cat_warnings = warns\<rparr>)"

section \<open>The meta-prompt\<close>

definition GOAL_OPEN :: string where "GOAL_OPEN = ''<<<ziggy:goal>>>''"
definition GOAL_CLOSE :: string where "GOAL_CLOSE = ''<<<ziggy:end-goal>>>''"
definition DESCRIPTION_OPEN :: string where "DESCRIPTION_OPEN = ''<<<ziggy:untrusted-description>>>''"
definition DESCRIPTION_CLOSE :: string where "DESCRIPTION_CLOSE = ''<<<ziggy:end-untrusted-description>>>''"
definition MAX_DESCRIPTION_CHARS :: nat where "MAX_DESCRIPTION_CHARS = 500"
definition TRUNCATION_MARKER :: string where "TRUNCATION_MARKER = ''[truncated]''"

definition bounded_description :: "string \<Rightarrow> string" where
  "bounded_description s =
     (if length s > MAX_DESCRIPTION_CHARS then take MAX_DESCRIPTION_CHARS s @ TRUNCATION_MARKER else s)"

definition wrap_description :: "string \<Rightarrow> string" where
  "wrap_description s = DESCRIPTION_OPEN @ bounded_description s @ DESCRIPTION_CLOSE"

text \<open>The fixed sections of the prompt; they hold dashes outside the model's characters.\<close>

record meta_prose =
  mp_role :: string
  mp_goal_header :: string
  mp_catalog_header :: string
  mp_output_contract :: string

definition agent_lines :: "catalog_agent \<Rightarrow> string list" where
  "agent_lines a = [''- name: '' @ ca_name a, ''  provider: '' @ ca_provider a,
     ''  capabilities: '' @ wrap_description (ca_capability_line a)]"

definition bool_text :: "bool \<Rightarrow> string" where "bool_text b = (if b then ''true'' else ''false'')"

definition variable_line :: "string \<times> (var_type \<times> bool \<times> bool \<times> int) \<Rightarrow> string" where
  "variable_line v = (case v of (n, t, req, sec, mb) \<Rightarrow> ''    - '' @ n @ '': type='' @ var_type_value t
     @ '', required='' @ bool_text req @ '', secret='' @ bool_text sec @ '', max_bytes='' @ str_of_int mb)"

definition workflow_lines :: "catalog_workflow \<Rightarrow> string list" where
  "workflow_lines w = [''- name: '' @ cw_name w, ''  description: '' @ wrap_description (cw_description w)]
     @ (if cw_variables w = [] then [''  variables: (none)'']
        else ''  variables:'' # map variable_line (sort_key fst (cw_variables w)))"

definition or_none :: "string list \<Rightarrow> string list" where
  "or_none ls = (if ls = [] then [''(none)''] else ls)"

definition limit_lines :: "int \<Rightarrow> int \<Rightarrow> string list" where
  "limit_lines max_inline_steps max_bytes =
     [[], ''## Hard limits'', [],
      ''- An inline_agent_workflow plan may contain at most '' @ str_of_int max_inline_steps @ '' steps.'',
      ''- Steps always execute serially, one at a time; depends_on only orders them.'',
      ''- Prompts and composed inputs are bounded by '' @ str_of_int max_bytes @ '' bytes each.'',
      ''- Plans can NEVER contain: scripts, shell commands, environment'',
      ''  variables, credentials, working directories or filesystem paths,'',
      ''  policy or permission changes, resource or timeout changes, template'',
      ''  expressions beyond declared input placeholders, or nested'',
      ''  orchestration.'',
      ''- Only agents and workflows named in the catalog may be used.'', []]"

definition render_meta_prompt :: "meta_prose \<Rightarrow> catalog \<Rightarrow> string \<Rightarrow> int \<Rightarrow> int \<Rightarrow> string" where
  "render_meta_prompt prose cat goal max_inline_steps max_bytes =
     join [CHR 0x0A]
       ([mp_role prose, [], mp_goal_header prose, [], GOAL_OPEN, goal, GOAL_CLOSE, []]
        @ [mp_catalog_header prose, [], ''### Eligible agents'', []]
        @ or_none (concat (map agent_lines (sort_key ca_name (cat_agents cat))))
        @ [[], ''### Trusted workflows'', []]
        @ or_none (concat (map workflow_lines (sort_key cw_name (cat_workflows cat))))
        @ limit_lines max_inline_steps max_bytes @ [mp_output_contract prose])
     @ [CHR 0x0A]"

section \<open>Everything descends from trusted configuration\<close>

lemma eligible_from_Inr:
  "eligible_from reg xs = Inr as \<Longrightarrow> length as = length xs
     \<and> (\<forall>(name, a) \<in> set (zip xs as). \<exists>c. map_of reg name = Some c \<and> ag_orchestration_eligible c
          \<and> ca_name a = ag_name c \<and> ca_provider a = or_unknown (ag_provider c))"
proof (induction xs arbitrary: as)
  case (Cons name rest)
  from Cons.prems obtain c as' where c: "get_agent reg name = Inr c" "ag_orchestration_eligible c"
    "eligible_from reg rest = Inr as'"
    "as = \<lparr>ca_name = ag_name c, ca_provider = or_unknown (ag_provider c), ca_capability_line = capability_line c\<rparr> # as'"
    by (auto simp: bindE_eq_Inr split: sum.splits if_splits)
  from c(1) have "map_of reg name = Some c" by (auto simp: get_agent_def split: option.splits)
  with c(2,4) Cons.IH[OF c(3)] show ?case by auto
qed simp

text \<open>Where an admitted workflow comes from.\<close>

definition pinned :: "disk \<Rightarrow> string \<Rightarrow> trusted_workflow \<Rightarrow> catalog_workflow \<Rightarrow> bool" where
  "pinned dk workspace e w \<longleftrightarrow>
     (\<exists>base \<in> {workspace, dk_user_dir dk}.
        resolve_contained (dk_realpath dk) base (py_repr (tw_path e)) (tw_path e) = Inr (cw_path w))
     \<and> (\<exists>content wf. dk_read dk (cw_path w) = Inr content \<and> dk_sha256 dk content = lower_ascii (strip (tw_sha256 e))
          \<and> dk_load dk (cw_path w) = Inr wf \<and> w = catalog_entry (cw_path w) wf)"

lemma first_contained_Some:
  "first_contained rp bases path = Some p \<Longrightarrow> \<exists>base \<in> set bases. resolve_contained rp base (py_repr path) path = Inr p"
  by (induction bases) (auto split: sum.splits)

lemma catalog_entry_path: "cw_path (catalog_entry p w) = p" and catalog_entry_name: "cw_name (catalog_entry p w) = w_name w"
  by (simp_all add: catalog_entry_def)

lemma admit_Inr: "admit dk ws seen e = Inr w \<Longrightarrow> pinned dk ws e w \<and> cw_name w \<notin> set seen"
  unfolding admit_def pinned_def
  by (auto simp: catalog_entry_path catalog_entry_name dest!: first_contained_Some
      split: option.splits sum.splits if_splits)

lemma admit_all_facts:
  "admit_all dk ws seen es = (wfs, warns) \<Longrightarrow>
     distinct (map cw_name wfs)
     \<and> (\<forall>w \<in> set wfs. cw_name w \<notin> set seen)
     \<and> (\<forall>w \<in> set wfs. \<exists>e \<in> set es. pinned dk ws e w) \<and> length wfs + length warns = length es"
proof (induction es arbitrary: seen wfs warns)
  case (Cons e es)
  show ?case
  proof (cases "admit dk ws seen e")
    case (Inl m)
    obtain wfs' warns' where r: "admit_all dk ws seen es = (wfs', warns')" by (cases "admit_all dk ws seen es")
    from Cons.IH[OF r] Cons.prems Inl r show ?thesis by auto
  next
    case (Inr w)
    obtain wfs' warns' where r: "admit_all dk ws (cw_name w # seen) es = (wfs', warns')"
      by (cases "admit_all dk ws (cw_name w # seen) es")
    from Cons.IH[OF r] Cons.prems Inr r admit_Inr[OF Inr] show ?thesis by fastforce
  qed
qed simp

text \<open>the catalog descends from trusted configuration: its agents are, in sorted order, exactly the
  configured eligible names, each registered and marked eligible; each workflow resolves inside the
  workspace or the user directory, its file had the pinned hash and loaded; names are distinct and
  sorted; and every pinned entry gave either a workflow or a warning.\<close>

theorem catalog_descends_from_trusted_config:
  assumes "build_catalog dk cfg reg workspace = Inr cat"
  shows "length (cat_agents cat) = length (sorted_list_of_set (set (oc_eligible_agents (c_orchestrator cfg))))
    \<and> (\<forall>(name, a) \<in> set (zip (sorted_list_of_set (set (oc_eligible_agents (c_orchestrator cfg)))) (cat_agents cat)).
         \<exists>c. map_of reg name = Some c \<and> ag_orchestration_eligible c \<and> ca_name a = ag_name c)
    \<and> (\<forall>w \<in> set (cat_workflows cat). \<exists>e \<in> set (oc_trusted_workflows (c_orchestrator cfg)). pinned dk workspace e w)
    \<and> distinct (map cw_name (cat_workflows cat)) \<and> sorted (map cw_name (cat_workflows cat))
    \<and> length (cat_workflows cat) + length (cat_warnings cat) = length (oc_trusted_workflows (c_orchestrator cfg))"
proof -
  obtain wfs warns where a: "admit_all dk workspace [] (oc_trusted_workflows (c_orchestrator cfg)) = (wfs, warns)"
    by (cases "admit_all dk workspace [] (oc_trusted_workflows (c_orchestrator cfg))")
  with assms obtain as where e: "eligible_agents cfg reg = Inr as"
    and c: "cat = \<lparr>cat_agents = as, cat_workflows = sort_key cw_name wfs, cat_warnings = warns\<rparr>"
    by (auto simp: build_catalog_def bindE_eq_Inr)
  have d: "distinct (map cw_name (sort_key cw_name wfs))"
    using admit_all_facts[OF a] by (auto simp: distinct_map)
  from eligible_from_Inr[OF e[unfolded eligible_agents_def]] admit_all_facts[OF a] d
  show ?thesis unfolding c by fastforce
qed

text \<open>
  Descriptions are delimited but not neutralised: one that holds the closing delimiter ends its
  region, and what follows it stands outside any untrusted region.
\<close>

lemma description_can_close_its_region:
  assumes "length s \<le> 400"
  shows "wrap_description (DESCRIPTION_CLOSE @ s @ DESCRIPTION_OPEN) = wrap_description [] @ s @ wrap_description []"
  using assms
  by (simp add: wrap_description_def bounded_description_def MAX_DESCRIPTION_CHARS_def DESCRIPTION_OPEN_def DESCRIPTION_CLOSE_def)

section \<open>A concrete catalog\<close>

definition catalog_config :: ziggy_config where
  "catalog_config = default_config\<lparr>c_orchestrator := default_orchestrator_config\<lparr>
     oc_trusted_workflows := [\<lparr>tw_path = ''w.yaml'', tw_sha256 = ''AB ''\<rparr>, \<lparr>tw_path = ''w.yaml'', tw_sha256 = ''cd''\<rparr>]\<rparr>\<rparr>"

definition catalog_disk :: disk where
  "catalog_disk = \<lparr>dk_realpath = Inr, dk_read = (\<lambda>p. Inr ''x''), dk_sha256 = (\<lambda>c. ''ab''),
     dk_load = (\<lambda>p. Inr egress_workflow), dk_user_dir = ''/u''\<rparr>"

theorem catalog_witness:
  "\<exists>cat. build_catalog catalog_disk catalog_config BUILTIN_AGENTS ''/ws'' = Inr cat
    \<and> length (cat_workflows cat) + length (cat_warnings cat) = 2"
proof -
  have "case build_catalog catalog_disk catalog_config BUILTIN_AGENTS ''/ws'' of Inl _ \<Rightarrow> False | Inr c \<Rightarrow> True"
    by code_simp
  then obtain cat where c: "build_catalog catalog_disk catalog_config BUILTIN_AGENTS ''/ws'' = Inr cat"
    by (auto split: sum.splits)
  have "length (oc_trusted_workflows (c_orchestrator catalog_config)) = 2" by (simp add: catalog_config_def)
  with catalog_descends_from_trusted_config[OF c] c show ?thesis by auto
qed

end
