(* ===== verification/Plan_Validation.thy ===== *)
theory Plan_Validation
  imports Catalog Vars
begin

text \<open>
  The validation half of \<open>orchestrator/validate.py\<close>: the security checks on a shape-valid plan
  of the planning agent, and the providers the planned execution would cross. A plan has one of
  the three shapes of \<open>Models.plan\<close>; the YAML loader is the field \<open>dk_load\<close> of the catalog's
  \<open>disk\<close>.
\<close>

section \<open>Bounds and patterns\<close>

definition MAX_PLAN_ERRORS :: nat where "MAX_PLAN_ERRORS = 10"
definition MAX_PLAN_ERROR_CHARS :: nat where "MAX_PLAN_ERROR_CHARS = 200"

definition bound_error :: "string \<Rightarrow> string" where
  "bound_error e = (if length e > MAX_PLAN_ERROR_CHARS then take (MAX_PLAN_ERROR_CHARS - 3) e @ ''...'' else e)"

definition bound_errors :: "string list \<Rightarrow> string list" where
  "bound_errors es = map bound_error (take MAX_PLAN_ERRORS es)"

definition PLAN_SUSPECT_RE :: re where
  "PLAN_SUSPECT_RE = Alt (lit ''{{'') (Alt (lit ''{%'') (lit ''%}''))"

definition SAFE_KEY_RE :: re where
  "SAFE_KEY_RE = ident_re is_alpha is_ident_char (Some 63)"

record validation_report =
  vr_errors :: "string list"
  vr_provider_set :: "string set"
  vr_acknowledged_by :: "string option"

definition valid :: "validation_report \<Rightarrow> bool" where
  "valid r \<longleftrightarrow> vr_errors r = []"

definition provider_of :: "registry \<Rightarrow> string \<Rightarrow> string option" where
  "provider_of reg name = (case get_agent reg name of Inl e \<Rightarrow> None | Inr c \<Rightarrow> Some (step_provider c))"

section \<open>Schema drift\<close>

text \<open>The keys \<open>model_dump\<close> gives for each variant: the fields the plan contracts declare.\<close>

fun plan_type_of :: "plan \<Rightarrow> string" where
  "plan_type_of (SingleAgentPlan p) = ''single_agent''"
| "plan_type_of (NamedWorkflowPlan p) = ''named_workflow''"
| "plan_type_of (InlineAgentWorkflowPlan p) = ''inline_agent_workflow''"

fun dump_keys :: "plan \<Rightarrow> string list" where
  "dump_keys (SingleAgentPlan p) = [''plan_type'', ''rationale'', ''agent'', ''prompt'']"
| "dump_keys (NamedWorkflowPlan p) = [''plan_type'', ''rationale'', ''workflow_name'', ''variables'']"
| "dump_keys (InlineAgentWorkflowPlan p) = [''plan_type'', ''rationale'', ''steps'']"

definition step_dump_keys :: "string list" where
  "step_dump_keys = [''id'', ''agent'', ''prompt'', ''inputs'', ''depends_on'']"

definition ALLOWED_PLAN_KEYS :: "(string \<times> string list) list" where
  "ALLOWED_PLAN_KEYS =
    [(''single_agent'', [''plan_type'', ''rationale'', ''agent'', ''prompt'']),
     (''named_workflow'', [''plan_type'', ''rationale'', ''workflow_name'', ''variables'']),
     (''inline_agent_workflow'', [''plan_type'', ''rationale'', ''steps''])]"

definition ALLOWED_STEP_KEYS :: "string list" where
  "ALLOWED_STEP_KEYS = [''id'', ''agent'', ''prompt'', ''inputs'', ''depends_on'']"

definition drift :: "string \<Rightarrow> string list \<Rightarrow> string list \<Rightarrow> string list" where
  "drift path allowed ks = map (\<lambda>k. path @ '': unexpected field '' @ py_repr k @ '' (plan schema drift)'')
     (sort (filter (\<lambda>k. k \<notin> set allowed) ks))"

definition schema_drift_errors :: "plan \<Rightarrow> string list" where
  "schema_drift_errors p =
     (case map_of ALLOWED_PLAN_KEYS (plan_type_of p) of
        None \<Rightarrow> [''plan_type: unknown plan variant'']
      | Some allowed \<Rightarrow> drift ''plan'' allowed (dump_keys p)
          @ (case p of
               InlineAgentWorkflowPlan ip \<Rightarrow>
                 concat (map (\<lambda>i. drift (''steps.'' @ str_of_nat i) ALLOWED_STEP_KEYS step_dump_keys)
                   [0..<length (ip_steps ip)])
             | _ \<Rightarrow> []))"

section \<open>Inline templates\<close>

text \<open>The loop over the tokens: the errors and the occurrences per goal-sourced input.\<close>

fun token_errors ::
  "(string \<times> string) list \<Rightarrow> string \<Rightarrow> token list \<Rightarrow> string list \<times> (string \<times> nat) list
   \<Rightarrow> string list \<times> (string \<times> nat) list" where
  "token_errors declared loc [] st = st"
| "token_errors declared loc ((a, b, ns, name) # ts) (errs, n) =
     token_errors declared loc ts
       (if ns = ''vars'' then
          (errs @ [loc @ '': 'vars.*' tokens are not allowed (only '{{ inputs.<name> }}' tokens naming declared inputs)''], n)
        else (case map_of declared name of
          None \<Rightarrow> (errs @ [loc @ '': references undeclared input '' @ [CHR 0x27] @ name @ [CHR 0x27]], n)
        | Some source \<Rightarrow> if source = ''goal'' then (errs, AList.update name (get_or 0 n name + 1) n) else (errs, n)))"

definition template_errors ::
  "string \<Rightarrow> (string \<times> string) list \<Rightarrow> string \<Rightarrow> string list \<times> (string \<times> nat) list" where
  "template_errors prompt declared loc =
     (case token_errors declared loc (tokens prompt) ([], []) of (errs, n) \<Rightarrow>
        (if re_search PLAN_SUSPECT_RE (scrub prompt (tokens prompt))
         then errs @ [loc @ '': unsupported template syntax (only '{{ inputs.<name> }}' tokens naming declared inputs are allowed; no expressions, filters, loops, or other template constructs)'']
         else errs, n))"

section \<open>The three shapes\<close>

definition over_prompt_bytes :: "nat \<Rightarrow> int \<Rightarrow> string list" where
  "over_prompt_bytes n limit = (if int n > limit
     then [''prompt: '' @ str_of_nat n @ '' bytes (UTF-8) exceeds engine.max_prompt_bytes ('' @ str_of_int limit @ '')'']
     else [])"

definition validate_single_agent :: "single_agent_plan \<Rightarrow> string list \<Rightarrow> ziggy_config \<Rightarrow> string list" where
  "validate_single_agent p eligible cfg =
     (if sp_agent p \<notin> set eligible then [''agent: not in the orchestration-eligible agent set''] else [])
     @ (if strip (sp_prompt p) = [] then [''prompt: must be non-empty''] else [])
     @ (if re_search PLAN_SUSPECT_RE (sp_prompt p)
        then [''prompt: template syntax is not allowed in a single_agent prompt (it is sent verbatim; there are no inputs to interpolate)'']
        else [])
     @ over_prompt_bytes (utf8_len (sp_prompt p)) (engine_config.max_prompt_bytes (c_engine cfg))"

fun plan_value_matches :: "var_type \<Rightarrow> pyval \<Rightarrow> bool" where
  "plan_value_matches TString v = (case v of PStr s \<Rightarrow> True | _ \<Rightarrow> False)"
| "plan_value_matches TInteger v = (case v of PInt i \<Rightarrow> True | _ \<Rightarrow> False)"
| "plan_value_matches TBoolean v = (case v of PBool b \<Rightarrow> True | _ \<Rightarrow> False)"
| "plan_value_matches TJson v = True"

definition unknown_variable_errors :: "string list \<Rightarrow> string list" where
  "unknown_variable_errors unknown =
     map (\<lambda>n. ''variables.'' @ n @ '': unknown variable (not declared by the workflow)'')
       (filter (re_match SAFE_KEY_RE) unknown)
     @ (let malformed = length (filter (\<lambda>n. \<not> re_match SAFE_KEY_RE n) unknown) in
        if malformed \<noteq> 0 then [''variables: '' @ str_of_nat malformed
          @ '' provided variable name(s) are not valid identifiers''] else [])"

definition declared_variable_errors :: "(string \<times> pyval) list \<Rightarrow> string \<times> variable_def \<Rightarrow> string list" where
  "declared_variable_errors values nd = (case nd of (name, d) \<Rightarrow>
     (case map_of values name of
        Some v \<Rightarrow>
          if \<not> plan_value_matches (v_type d) v
          then [''variables.'' @ name @ '': expected a value of type '' @ [CHR 0x27] @ var_type_value (v_type d) @ [CHR 0x27]]
          else if int (utf8_len (value_to_text v)) > v_max_bytes d
          then [''variables.'' @ name @ '': value is '' @ str_of_nat (utf8_len (value_to_text v))
                @ '' bytes (UTF-8); max_bytes is '' @ str_of_int (v_max_bytes d)]
          else []
      | None \<Rightarrow>
          if v_required d then [''variables.'' @ name @ '': required variable not provided by the plan''] else []))"

definition validate_plan_variables :: "workflow_def \<Rightarrow> (string \<times> pyval) list \<Rightarrow> string list" where
  "validate_plan_variables w values =
     unknown_variable_errors (sorted_list_of_set (set (keys values) - set (keys (w_variables w))))
     @ concat (map (declared_variable_errors values) (w_variables w))"

definition load_trusted_workflow :: "disk \<Rightarrow> catalog_workflow \<Rightarrow> string list + workflow_def" where
  "load_trusted_workflow dk entry =
     (case dk_load dk (cw_path entry) of
        Inr w \<Rightarrow> Inr w
      | Inl m \<Rightarrow> Inl [''workflow_name: trusted workflow could not be re-loaded for validation (file changed or became unreadable after catalog build)''])"

text \<open>\<open>message.split("; ")\<close>.\<close>

fun split_semi :: "string \<Rightarrow> string list" where
  "split_semi [] = [[]]"
| "split_semi [c] = [[c]]"
| "split_semi (a # b # s) =
     (if a = CHR '';'' \<and> b = CHR '' '' then [] # split_semi s
      else (case split_semi (b # s) of [] \<Rightarrow> [[a]] | p # ps \<Rightarrow> (a # p) # ps))"

definition step_provider_errors :: "registry \<Rightarrow> string \<times> step_def \<Rightarrow> string list" where
  "step_provider_errors reg s = (case s of (step_id, step) \<Rightarrow>
     if provider_of reg (s_agent step) = None
     then [''steps.'' @ step_id @ '': workflow step agent is not registered''] else [])"

definition step_providers_of :: "registry \<Rightarrow> workflow_def \<Rightarrow> (string \<times> string) list" where
  "step_providers_of reg w = List.map_filter
     (\<lambda>(step_id, step). map_option (\<lambda>p. (step_id, p)) (provider_of reg (s_agent step))) (w_steps w)"

definition validate_named_workflow ::
  "disk \<Rightarrow> named_workflow_plan \<Rightarrow> catalog_workflow list \<Rightarrow> ziggy_config \<Rightarrow> registry
   \<Rightarrow> string list \<times> workflow_def option" where
  "validate_named_workflow dk p workflows cfg reg =
     (case map_of (rev (map (\<lambda>w. (cw_name w, w)) workflows)) (np_workflow_name p) of
        None \<Rightarrow> ([''workflow_name: not in the trusted workflow catalog''], None)
      | Some entry \<Rightarrow>
          (case load_trusted_workflow dk entry of
             Inl errs \<Rightarrow> (errs, None)
           | Inr w \<Rightarrow>
               (validate_plan_variables w (np_variables p)
                @ concat (map (step_provider_errors reg) (w_steps w))
                @ (case check_secret_allowances w (step_providers_of reg w)
                         (wc_secret_variable_allowances (c_workflows cfg)) of
                     Inl e \<Rightarrow> split_semi (message e) | Inr _ \<Rightarrow> []),
                Some w)))"

section \<open>Inline workflows\<close>

definition goal_source :: "string \<Rightarrow> string" where
  "goal_source source = (if source = ''goal'' then ''vars.goal'' else source)"

definition synthetic_step :: "inline_step \<Rightarrow> string \<times> step_def" where
  "synthetic_step s = (i_id s, \<lparr>s_agent = i_agent s, s_prompt = ''-'',
     s_inputs = map (\<lambda>(n, source). (n, goal_source source)) (i_inputs s), s_depends_on = i_depends_on s,
     s_working_dir = None, s_timeout_seconds = None, s_policy_profile = None\<rparr>)"

definition synthetic_workflow :: "inline_step list \<Rightarrow> workflow_def" where
  "synthetic_workflow steps = \<lparr>w_name = ''inline-plan'', w_description = None, w_variables = [],
     w_steps = map synthetic_step steps\<rparr>"

definition at_step :: "nat \<Rightarrow> string" where "at_step i = ''steps.'' @ str_of_nat i"

definition plan_source_ok :: "string \<Rightarrow> bool" where
  "plan_source_ok source \<longleftrightarrow> source = ''goal'' \<or> (let ps = split_on (CHR ''.'') source in
     length ps = 4 \<and> ps ! 0 = ''steps'' \<and> ps ! 2 = ''outputs'' \<and> ps ! 3 = ''text'')"

definition source_errors :: "nat \<Rightarrow> string \<times> string \<Rightarrow> string list" where
  "source_errors i ns = (case ns of (name, source) \<Rightarrow>
     if plan_source_ok source then []
     else [at_step i @ ''.inputs.'' @ (if re_match SAFE_KEY_RE name then name else ''<input>'')
           @ '': only 'goal' or 'steps.<id>.outputs.text' sources are allowed''])"

text \<open>The delimiters around a goal-sourced input, without the goal.\<close>

definition goal_overhead :: "string \<Rightarrow> nat" where
  "goal_overhead name = (case wrap_untrusted name ''goal'' [] None of Inl e \<Rightarrow> 0 | Inr t \<Rightarrow> utf8_len t)"

definition estimated_bytes :: "string \<Rightarrow> (string \<times> nat) list \<Rightarrow> nat \<Rightarrow> nat" where
  "estimated_bytes prompt occurrences goal_bytes =
     utf8_len prompt + sum_list (map (\<lambda>(name, n). n * (goal_bytes + goal_overhead name)) occurrences)"

definition inline_step_errors ::
  "string list \<Rightarrow> int \<Rightarrow> nat \<Rightarrow> nat \<Rightarrow> inline_step \<Rightarrow> string list" where
  "inline_step_errors eligible limit goal_bytes i s =
     (if i_agent s \<notin> set eligible then [at_step i @ ''.agent: not in the orchestration-eligible agent set''] else [])
     @ (if strip (i_prompt s) = [] then [at_step i @ ''.prompt: must be non-empty''] else [])
     @ (case template_errors (i_prompt s) (i_inputs s) (at_step i @ ''.prompt'') of (errs, occurrences) \<Rightarrow>
         errs
         @ (if list_ex (\<lambda>(name, source). \<not> re_match SAFE_KEY_RE name) (i_inputs s)
            then [at_step i @ ''.inputs: one or more input names are not valid identifiers''] else [])
         @ concat (map (source_errors i) (i_inputs s))
         @ (let est = estimated_bytes (i_prompt s) occurrences goal_bytes in
            if int est > limit
            then [at_step i @ ''.prompt: estimated composed prompt is '' @ str_of_nat est
                  @ '' bytes (worst-case goal interpolation); engine.max_prompt_bytes is '' @ str_of_int limit]
            else []))"

definition id_errors :: "nat \<Rightarrow> (string \<times> nat) list \<Rightarrow> string \<Rightarrow> string list" where
  "id_errors i seen sid =
     (if sid = ''plan'' then [at_step i @ ''.id: 'plan' is reserved for the planning step (executed steps are namespaced 'execute/<id>')'']
      else [])
     @ (case map_of seen sid of
          Some j \<Rightarrow> [at_step i @ ''.id: duplicate step id (also declared at steps.'' @ str_of_nat j @ '')'']
        | None \<Rightarrow> [])"

text \<open>The loop over the steps: the errors, and whether an id is declared twice.\<close>

fun inline_errors_from ::
  "string list \<Rightarrow> int \<Rightarrow> nat \<Rightarrow> nat \<Rightarrow> (string \<times> nat) list \<Rightarrow> inline_step list \<Rightarrow> string list \<times> bool" where
  "inline_errors_from eligible limit gb i seen [] = ([], False)"
| "inline_errors_from eligible limit gb i seen (s # rest) =
     (case inline_errors_from eligible limit gb (Suc i)
             (if map_of seen (i_id s) = None then seen @ [(i_id s, i)] else seen) rest of (errs, dup) \<Rightarrow>
        (id_errors i seen (i_id s) @ inline_step_errors eligible limit gb i s @ errs,
         map_of seen (i_id s) \<noteq> None \<or> dup))"

definition validate_inline :: "inline_plan \<Rightarrow> string list \<Rightarrow> ziggy_config \<Rightarrow> string \<Rightarrow> string list" where
  "validate_inline p eligible cfg goal =
     (let steps = ip_steps p; most = oc_max_inline_steps (c_orchestrator cfg) in
      (if int (length steps) > most
       then [''steps: '' @ str_of_nat (length steps) @ '' steps exceeds orchestrator.max_inline_steps ('' @ str_of_int most @ '')'']
       else [])
      @ (case inline_errors_from eligible (engine_config.max_prompt_bytes (c_engine cfg)) (utf8_len goal) 0 [] steps of
           (errs, dup) \<Rightarrow> errs
             @ (if dup then [] else (case topo_order (synthetic_workflow steps) of
                  Inl e \<Rightarrow> split_semi (message e) | Inr _ \<Rightarrow> []))))"

section \<open>Providers\<close>

definition crossing_pair :: "string option \<times> string option \<Rightarrow> string set" where
  "crossing_pair p = (case p of (Some a, Some b) \<Rightarrow> if a \<noteq> b then {a, b} else {} | _ \<Rightarrow> {})"

definition crossing_set :: "(string option \<times> string option) list \<Rightarrow> string set" where
  "crossing_set pairs = foldl (\<lambda>S p. S \<union> crossing_pair p) {} pairs"

text \<open>\<open>providers.setdefault\<close>: the first step with an id gives its provider.\<close>

definition inline_providers :: "registry \<Rightarrow> inline_step list \<Rightarrow> (string \<times> string option) list" where
  "inline_providers reg steps =
     foldl (\<lambda>d s. if i_id s \<in> set (keys d) then d else d @ [(i_id s, provider_of reg (i_agent s))]) [] steps"

definition inline_pairs :: "registry \<Rightarrow> inline_step list \<Rightarrow> (string option \<times> string option) list" where
  "inline_pairs reg steps =
     (let ps = inline_providers reg steps in
      concat (map (\<lambda>s. List.map_filter
        (\<lambda>source. map_option (\<lambda>src. (get_or None ps src, get_or None ps (i_id s))) (source_step_id source))
        (map snd (i_inputs s))) steps))"

definition plan_provider_set ::
  "plan \<Rightarrow> workflow_def option \<Rightarrow> registry \<Rightarrow> string \<Rightarrow> string set" where
  "plan_provider_set p wdef reg planner =
     (case p of
        SingleAgentPlan sp \<Rightarrow> crossing_set [(Some planner, provider_of reg (sp_agent sp))]
      | NamedWorkflowPlan np \<Rightarrow>
          (case wdef of
             None \<Rightarrow> crossing_set []
           | Some w \<Rightarrow>
               (case required_provider_set w reg of Inl e \<Rightarrow> {} | Inr S \<Rightarrow> S)
               \<union> crossing_set (map (\<lambda>(sid, s). (Some planner, provider_of reg (s_agent s))) (w_steps w)))
      | InlineAgentWorkflowPlan ip \<Rightarrow>
          crossing_set (map (\<lambda>s. (Some planner, provider_of reg (i_agent s))) (ip_steps ip)
            @ inline_pairs reg (ip_steps ip)))"

section \<open>The report\<close>

definition shape_errors ::
  "disk \<Rightarrow> plan \<Rightarrow> catalog \<Rightarrow> ziggy_config \<Rightarrow> registry \<Rightarrow> string \<Rightarrow> string list \<times> workflow_def option" where
  "shape_errors dk p cat cfg reg goal =
     (let eligible = map ca_name (cat_agents cat) in
      case p of
        SingleAgentPlan sp \<Rightarrow> (validate_single_agent sp eligible cfg, None)
      | NamedWorkflowPlan np \<Rightarrow> validate_named_workflow dk np (cat_workflows cat) cfg reg
      | InlineAgentWorkflowPlan ip \<Rightarrow> (validate_inline ip eligible cfg goal, None))"

definition validate_plan ::
  "disk \<Rightarrow> plan \<Rightarrow> catalog \<Rightarrow> ziggy_config \<Rightarrow> registry \<Rightarrow> string \<Rightarrow> string \<Rightarrow> validation_report" where
  "validate_plan dk p cat cfg reg planner goal =
     (case shape_errors dk p cat cfg reg goal of (errs, wdef) \<Rightarrow>
       (let providers = plan_provider_set p wdef reg planner in
        \<lparr>vr_errors = bound_errors (schema_drift_errors p @ errs), vr_provider_set = providers,
         vr_acknowledged_by = is_acknowledged providers cfg None\<rparr>))"

end
