(* ===== verification/Plan_Parse.thy ===== *)
theory Plan_Parse
  imports Plan_Validation
begin

text \<open>
  The parse half of \<open>orchestrator/validate.py\<close>: a plan is located in the planner's raw text (a
  markdown fence first, then the whole text; the first balanced object that is JSON) and handed
  to strict validation. \<open>json.loads\<close> is the parameter \<open>loads\<close> (its value, its
  \<open>JSONDecodeError\<close>, or another exception, as for an integer of more than 4300 digits), and
  pydantic's \<open>validate_json\<close> the parameter \<open>check\<close> with its errors as locations and types.
\<close>

section \<open>Locating the object\<close>

abbreviation backslash :: char where "backslash \<equiv> CHR 0x5C"
abbreviation dquote :: char where "dquote \<equiv> CHR 0x22"

text \<open>
  The inner loop of \<open>_balanced_spans\<close>: from an opening brace, the number of characters up to and
  including the brace that closes it; \<open>None\<close> when the text ends first.
\<close>

fun close_at :: "nat \<Rightarrow> bool \<Rightarrow> bool \<Rightarrow> string \<Rightarrow> nat option" where
  "close_at depth in_string escaped [] = None"
| "close_at depth in_string escaped (c # cs) =
     (if in_string then
        (if escaped then map_option Suc (close_at depth True False cs)
         else if c = backslash then map_option Suc (close_at depth True True cs)
         else if c = dquote then map_option Suc (close_at depth False False cs)
         else map_option Suc (close_at depth True False cs))
      else if c = dquote then map_option Suc (close_at depth True escaped cs)
      else if c = CHR ''{'' then map_option Suc (close_at (depth + 1) False escaped cs)
      else if c = CHR ''}'' then
        (if depth = 1 then Some 1 else map_option Suc (close_at (depth - 1) False escaped cs))
      else map_option Suc (close_at depth False escaped cs))"

lemma close_at_bound: "close_at d ins esc s = Some n \<Longrightarrow> 0 < n \<and> n \<le> length s"
  by (induction d ins esc s arbitrary: n rule: close_at.induct) (auto split: if_splits)

function balanced_spans :: "string \<Rightarrow> string list" where
  "balanced_spans s =
     (let rest = dropWhile (\<lambda>c. c \<noteq> CHR ''{'') s in
      case close_at 0 False False rest of
        None \<Rightarrow> []
      | Some n \<Rightarrow> take n rest # balanced_spans (drop n rest))"
  by pat_completeness auto
termination
proof (relation "measure length", simp)
  fix s :: string and rest n
  assume r: "rest = dropWhile (\<lambda>c. c \<noteq> CHR ''{'') s" and n: "close_at 0 False False rest = Some n"
  have "length rest \<le> length s" unfolding r by (rule length_dropWhile_le)
  moreover have "0 < n" and "n \<le> length rest" using close_at_bound[OF n] by auto
  ultimately have "length rest - n < length s" by linarith
  thus "(drop n rest, s) \<in> measure length" by simp
qed

declare balanced_spans.simps [simp del]

text \<open>The first markdown fence (three backticks), with a non-greedy body.\<close>

definition fence_blank :: "char \<Rightarrow> bool" where "fence_blank c \<longleftrightarrow> c = CHR '' '' \<or> c = CHR 0x09"
definition backticks :: string where "backticks = replicate 3 (CHR 0x60)"

definition FENCE_RE :: re where
  "FENCE_RE = Seq (lit backticks) (Seq (Rep fence_blank 0 None) (Seq (opt_re (lit_i ''json''))
     (Seq (Rep fence_blank 0 None) (Seq (opt_re (lit [CHR 0x0D])) (Seq (lit [CHR 0x0A])
     (Seq (Grp (Lazy (\<lambda>c. True))) (lit backticks)))))))"

definition fenced_body :: "string \<Rightarrow> string option" where
  "fenced_body raw = (case finditer FENCE_RE raw of [] \<Rightarrow> None | (a, b, gs) # _ \<Rightarrow> Some (gs ! 0))"

datatype extraction = Candidate string | NoObject | Escaped string

text \<open>The loop over the spans: the first that parses, else the first span, if any.\<close>

fun first_parsing :: "(string \<Rightarrow> json_result) \<Rightarrow> string option \<Rightarrow> string list \<Rightarrow> extraction" where
  "first_parsing loads first [] = (case first of None \<Rightarrow> NoObject | Some s \<Rightarrow> Candidate s)"
| "first_parsing loads first (span # spans) =
     (case loads span of
        JValue v \<Rightarrow> Candidate span
      | JDecodeError m \<Rightarrow>
          first_parsing loads (case first of None \<Rightarrow> Some span | Some s \<Rightarrow> Some s) spans
      | JOther e \<Rightarrow> Escaped e)"

definition extract_json_object :: "(string \<Rightarrow> json_result) \<Rightarrow> string \<Rightarrow> extraction" where
  "extract_json_object loads raw =
     first_parsing loads None
       ((case fenced_body raw of None \<Rightarrow> [] | Some body \<Rightarrow> balanced_spans body) @ balanced_spans raw)"

section \<open>Rendering parse errors\<close>

record pydantic_error =
  pe_loc :: "string list"     \<comment> \<open>each part as \<open>str\<close> gives it\<close>
  pe_type :: string

definition VARIANT_TAGS :: "string list" where
  "VARIANT_TAGS = [''single_agent'', ''named_workflow'', ''inline_agent_workflow'']"

definition SAFE_LOC_RE :: re where
  "SAFE_LOC_RE = Seq (Rep is_word 1 None) Dollar"

definition PARSE_PHRASES :: "(string \<times> string) list" where
  "PARSE_PHRASES =
    [(''extra_forbidden'', ''extra fields forbidden''),
     (''missing'', ''field required''),
     (''union_tag_invalid'', ''must be 'single_agent', 'named_workflow', or 'inline_agent_workflow'' @ [CHR 0x27]),
     (''union_tag_not_found'', ''a JSON object with a 'plan_type' field is required''),
     (''json_invalid'', ''invalid JSON''),
     (''model_type'', ''expected an object''),
     (''dict_type'', ''expected an object''),
     (''list_type'', ''expected an array''),
     (''string_type'', ''expected a string''),
     (''string_too_long'', ''string exceeds the maximum length''),
     (''string_pattern_mismatch'', ''does not match the required id pattern''),
     (''too_short'', ''too few items''),
     (''value_error'', ''input sources must be 'goal' or 'steps.<id>.outputs.text'' @ [CHR 0x27])]"

definition safe_loc :: "string list \<Rightarrow> string list" where
  "safe_loc loc = filter (re_match SAFE_LOC_RE)
     (case loc of [] \<Rightarrow> [] | l # ls \<Rightarrow> if l \<in> set VARIANT_TAGS then ls else l # ls)"

definition render_parse_error :: "pydantic_error \<Rightarrow> string" where
  "render_parse_error e =
     (let loc = safe_loc (pe_loc e);
          phrase = (case map_of PARSE_PHRASES (pe_type e) of
            Some p \<Rightarrow> p | None \<Rightarrow> ''invalid value ('' @ pe_type e @ '')'');
          path = (if loc \<noteq> [] then join ''.'' loc
                  else if startswith (pe_type e) ''union_tag'' then ''plan_type'' else ''plan'')
      in path @ '': '' @ phrase)"

datatype parse_outcome = Parsed plan | ParseErrors "string list" | ParseRaises string

definition parse_plan ::
  "(string \<Rightarrow> json_result) \<Rightarrow> (string \<Rightarrow> pydantic_error list + plan) \<Rightarrow> string \<Rightarrow> parse_outcome" where
  "parse_plan loads check raw =
     (case extract_json_object loads raw of
        Escaped e \<Rightarrow> ParseRaises e
      | NoObject \<Rightarrow> ParseErrors [''plan: planner output contains no JSON object'']
      | Candidate s \<Rightarrow>
          (case check s of
             Inl errs \<Rightarrow> ParseErrors (bound_errors (map render_parse_error errs))
           | Inr p \<Rightarrow> Parsed p))"

end
