(* ===== verification/Plan_Extraction.thy ===== *)
theory Plan_Extraction
  imports Plan_Parse
begin

text \<open>
  The scanner of \<open>parse_plan\<close> agrees with the printer: the text of any JSON object is found whole
  in the prose around it. And what a rejected plan leaves in its error entries.
\<close>

section \<open>Text that leaves the scanner where it was\<close>

text \<open>
  Inside an object (\<open>d > 0\<close>) and outside a string, a neutral piece of text is passed over
  without changing the depth or the string flag.
\<close>

definition neutral :: "string \<Rightarrow> bool" where
  "neutral s \<longleftrightarrow> (\<forall>d rest. 0 < d \<longrightarrow>
     close_at d False False (s @ rest) = map_option ((+) (length s)) (close_at d False False rest))"

abbreviation unbraced :: "string \<Rightarrow> bool" where
  "unbraced \<equiv> list_all (\<lambda>c. c \<noteq> dquote \<and> c \<noteq> CHR ''{'' \<and> c \<noteq> CHR ''}'')"

lemma plus_funs [simp]: "(+) (Suc n) = (\<lambda>m. Suc (n + m))" "(+) (0 :: nat) = (\<lambda>m. m)"
  "(+) (a + b) = (\<lambda>m. a + (b + m :: nat))"
  by auto

lemma neutralD:
  "neutral s \<Longrightarrow> 0 < d \<Longrightarrow>
   close_at d False False (s @ rest) = map_option ((+) (length s)) (close_at d False False rest)"
  by (simp add: neutral_def)

lemma neutral_Nil: "neutral []"
  by (simp add: neutral_def option.map_ident)

lemma neutral_append:
  assumes "neutral s" and "neutral t"
  shows "neutral (s @ t)"
  using assms unfolding neutral_def
  by (simp add: option.map_comp comp_def add.assoc)

lemma neutral_unbraced: "unbraced s \<Longrightarrow> neutral s"
proof (induction s)
  case Nil
  show ?case by (rule neutral_Nil)
next
  case (Cons c s)
  then have "neutral s" by simp
  with Cons.prems show ?case by (simp add: neutral_def option.map_comp comp_def)
qed

lemma neutral_join:
  assumes "neutral sep" and "list_all neutral xs"
  shows "neutral (join sep xs)"
  using assms
  by (induction sep xs rule: join.induct) (simp_all add: neutral_Nil neutral_append)

lemma neutral_braces:
  assumes "neutral body"
  shows "neutral (CHR ''{'' # body @ ''}'')"
  unfolding neutral_def
proof (intro allI impI)
  fix d :: nat and rest :: string
  assume d: "0 < d"
  have "close_at d False False ((CHR ''{'' # body @ ''}'') @ rest)
      = map_option Suc (close_at (d + 1) False False (body @ (CHR ''}'' # rest)))" by simp
  also have "\<dots> = map_option Suc (map_option ((+) (length body)) (close_at (d + 1) False False (CHR ''}'' # rest)))"
    by (simp only: neutralD[OF assms] zero_less_Suc add_gr_0 zero_less_one simp_thms)
  also have "close_at (d + 1) False False (CHR ''}'' # rest) = map_option Suc (close_at d False False rest)"
    using d by simp
  finally show "close_at d False False ((CHR ''{'' # body @ ''}'') @ rest)
      = map_option ((+) (length (CHR ''{'' # body @ ''}''))) (close_at d False False rest)"
    by (simp add: option.map_comp comp_def)
qed

lemma closes_at_its_brace:
  assumes "neutral body"
  shows "close_at 0 False False ((CHR ''{'' # body @ ''}'') @ rest) = Some (length body + 2)"
proof -
  have "close_at 0 False False ((CHR ''{'' # body @ ''}'') @ rest)
      = map_option Suc (close_at 1 False False (body @ (CHR ''}'' # rest)))" by simp
  also have "\<dots> = map_option Suc (map_option ((+) (length body)) (close_at 1 False False (CHR ''}'' # rest)))"
    by (simp only: neutralD[OF assms] zero_less_one)
  finally show ?thesis by simp
qed

section \<open>JSON text is neutral\<close>

lemma hex_char_plain: "d < 16 \<Longrightarrow> hex_char d \<noteq> backslash \<and> hex_char d \<noteq> dquote"
proof -
  assume d: "d < 16"
  have "(of_char (hex_char d) :: nat) = (if d < 10 then 48 + d else 87 + d)"
    using d by (auto simp: hex_char_def)
  then have "(of_char (hex_char d) :: nat) \<noteq> 92" and "(of_char (hex_char d) :: nat) \<noteq> 34"
    by (auto split: if_splits)
  then show ?thesis by auto
qed

lemma json_char_in_string:
  "close_at d True False (json_char c @ rest)
   = map_option ((+) (length (json_char c))) (close_at d True False rest)"
proof -
  have h: "hex_char (of_char c mod 16) \<noteq> backslash" "hex_char (of_char c mod 16) \<noteq> dquote"
    using hex_char_plain[of "of_char c mod 16"] by auto
  have g: "of_char c < (32 :: nat) \<Longrightarrow> hex_char (of_char c div 16) \<noteq> backslash \<and> hex_char (of_char c div 16) \<noteq> dquote"
    by (rule hex_char_plain) linarith
  have "(of_char c :: nat) \<noteq> 34 \<Longrightarrow> c \<noteq> dquote" and "(of_char c :: nat) \<noteq> 92 \<Longrightarrow> c \<noteq> backslash"
    by auto
  then show ?thesis
    using h g by (simp add: json_char_def hex2_def Let_def option.map_comp comp_def)
qed

lemma json_chars_in_string:
  "close_at d True False (concat (map json_char s) @ rest)
   = map_option ((+) (length (concat (map json_char s)))) (close_at d True False rest)"
proof (induction s)
  case Nil
  show ?case by (simp add: option.map_ident)
next
  case (Cons c s)
  then show ?case by (simp add: json_char_in_string option.map_comp comp_def add.assoc)
qed

lemma neutral_json_str: "neutral (json_str s)"
  unfolding neutral_def json_str_def
  by (simp add: json_chars_in_string option.map_comp comp_def)

lemma unbraced_str_of_nat: "unbraced (str_of_nat n)"
proof (induction n rule: str_of_nat.induct)
  case (1 n)
  have d: "digit_char d \<noteq> dquote \<and> digit_char d \<noteq> CHR ''{'' \<and> digit_char d \<noteq> CHR ''}''" if "d < 10" for d :: nat
  proof -
    have "(of_char (digit_char d) :: nat) = 48 + d" using that by (simp add: digit_char_def)
    then have "(of_char (digit_char d) :: nat) \<notin> {34, 123, 125}" using that by auto
    then show ?thesis by auto
  qed
  show ?case
    using 1 d[of n] d[of "n mod 10"] by (subst str_of_nat.simps) auto
qed

lemma unbraced_str_of_int: "unbraced (str_of_int i)"
  by (simp add: str_of_int_def unbraced_str_of_nat)

text \<open>Float texts, as \<open>repr\<close> writes them, hold no quote and no brace.\<close>

fun floats_plain :: "pyval \<Rightarrow> bool" where
  "floats_plain (PFloat f) \<longleftrightarrow> unbraced f"
| "floats_plain (PList xs) \<longleftrightarrow> list_all floats_plain xs"
| "floats_plain (PDict kvs) \<longleftrightarrow> list_all (\<lambda>(k, v). floats_plain v) kvs"
| "floats_plain v \<longleftrightarrow> True"

lemma neutral_json:
  shows "neutral sep \<Longrightarrow> neutral ks \<Longrightarrow> floats_plain v \<Longrightarrow> neutral (json_dumps sep ks v)"
    and "neutral sep \<Longrightarrow> neutral ks \<Longrightarrow> list_all floats_plain xs \<Longrightarrow> list_all neutral (json_items sep ks xs)"
    and "neutral sep \<Longrightarrow> neutral ks \<Longrightarrow> list_all (\<lambda>(k, v). floats_plain v) kvs
      \<Longrightarrow> list_all neutral (json_pairs sep ks kvs)"
proof (induction sep ks v and sep ks xs and sep ks kvs rule: json_dumps_json_items_json_pairs.induct)
  case (6 sep ks xs)
  then have "neutral (''['' @ join sep (json_items sep ks xs) @ '']'')"
    by (intro neutral_append neutral_join) (auto intro: neutral_unbraced)
  then show ?case by simp
next
  case (7 sep ks kvs)
  then have "neutral (join sep (json_pairs sep ks kvs))"
    by (intro neutral_join) auto
  from neutral_braces[OF this] show ?case by simp
next
  case (11 sep ks k v kvs)
  then show ?case by (simp add: neutral_append neutral_json_str)
qed (simp_all add: neutral_unbraced unbraced_str_of_int neutral_json_str)

section \<open>The first balanced span\<close>

lemma dropWhile_before:
  "CHR ''{'' \<notin> set before \<Longrightarrow> dropWhile (\<lambda>c. c \<noteq> CHR ''{'') (before @ CHR ''{'' # s) = CHR ''{'' # s"
  by (induction before) auto

lemma first_span_is_the_object:
  assumes "CHR ''{'' \<notin> set before" and "neutral body"
  shows "balanced_spans (before @ (CHR ''{'' # body @ ''}'') @ after)
       = (CHR ''{'' # body @ ''}'') # balanced_spans after"
proof -
  let ?object = "CHR ''{'' # body @ ''}''"
  have d: "dropWhile (\<lambda>c. c \<noteq> CHR ''{'') (before @ ?object @ after) = ?object @ after"
    using dropWhile_before[OF assms(1)] by simp
  show ?thesis
    by (subst balanced_spans.simps)
       (simp only: d Let_def closes_at_its_brace[OF assms(2)] option.case, simp)
qed

text \<open>
  A plan survives the prose around it. Take any JSON object, printed by \<open>json.dumps\<close> with
  separators free of quotes and braces, and put it in the text the scanner reads (the body of
  the first markdown fence if the answer has one, else the whole answer) with no opening brace
  before it and anything after it. Then \<open>parse_plan\<close> hands exactly the object's text to the
  strict validation, and its answer is that validation's answer: nested objects, braces and
  escaped quotes inside strings do not mislead the scan.
\<close>

theorem object_in_prose_is_found:
  assumes "unbraced sep" and "unbraced ks" and "floats_plain (PDict kvs)"
    and "CHR ''{'' \<notin> set before"
    and "(case fenced_body raw of None \<Rightarrow> raw | Some body \<Rightarrow> body)
         = before @ json_dumps sep ks (PDict kvs) @ after"
    and "loads (json_dumps sep ks (PDict kvs)) = JValue v"
  shows "parse_plan loads check raw =
     (case check (json_dumps sep ks (PDict kvs)) of
        Inl errs \<Rightarrow> ParseErrors (bound_errors (map render_parse_error errs))
      | Inr p \<Rightarrow> Parsed p)"
proof -
  let ?body = "join sep (json_pairs sep ks kvs)"
  have "neutral sep" and "neutral ks" using assms(1,2) by (auto intro: neutral_unbraced)
  moreover have "list_all (\<lambda>(k, v). floats_plain v) kvs" using assms(3) by simp
  ultimately have body: "neutral ?body" by (intro neutral_join neutral_json(3))
  have dump: "json_dumps sep ks (PDict kvs) = CHR ''{'' # ?body @ ''}''" by simp
  define source where "source = (case fenced_body raw of None \<Rightarrow> raw | Some body \<Rightarrow> body)"
  have "source = before @ json_dumps sep ks (PDict kvs) @ after"
    unfolding source_def by (rule assms(5))
  then have first: "balanced_spans source = json_dumps sep ks (PDict kvs) # balanced_spans after"
    using first_span_is_the_object[OF assms(4) body, of after] by (simp only: dump)
  obtain tail where "(case fenced_body raw of None \<Rightarrow> [] | Some body \<Rightarrow> balanced_spans body) @ balanced_spans raw
      = balanced_spans source @ tail"
    unfolding source_def by (cases "fenced_body raw") auto
  then have "extract_json_object loads raw = Candidate (json_dumps sep ks (PDict kvs))"
    unfolding extract_json_object_def
    by (simp only: first append_Cons first_parsing.simps assms(6) json_result.case)
  then show ?thesis by (simp only: parse_plan_def extraction.case)
qed

definition boxed_plan :: single_agent_plan where
  "boxed_plan = \<lparr>sp_rationale = [], sp_agent = ''codex'', sp_prompt = ''say '' @ [dquote] @ ''}{''\<rparr>"

definition boxed_object :: "(string \<times> pyval) list" where
  "boxed_object = [(''plan_type'', PStr ''single_agent''), (''agent'', PStr (sp_agent boxed_plan)),
     (''prompt'', PStr (sp_prompt boxed_plan))]"

definition boxed_text :: string where
  "boxed_text = json_dumps '', '' '': '' (PDict boxed_object)"

theorem object_in_prose_witness:
  "parse_plan (\<lambda>s. if s = boxed_text then JValue (PDict boxed_object) else JDecodeError ''no'')
     (\<lambda>s. Inr (SingleAgentPlan boxed_plan)) (''Sure: '' @ boxed_text @ '' then {'')
   = Parsed (SingleAgentPlan boxed_plan)"
proof -
  let ?loads = "\<lambda>s. if s = boxed_text then JValue (PDict boxed_object) else JDecodeError ''no''"
  have "unbraced '', ''" "unbraced '': ''" "floats_plain (PDict boxed_object)" "CHR ''{'' \<notin> set ''Sure: ''"
    by (simp_all add: boxed_object_def)
  moreover have "(case fenced_body (''Sure: '' @ boxed_text @ '' then {'') of
        None \<Rightarrow> ''Sure: '' @ boxed_text @ '' then {'' | Some body \<Rightarrow> body)
      = ''Sure: '' @ json_dumps '', '' '': '' (PDict boxed_object) @ '' then {''"
    by code_simp
  moreover have "?loads (json_dumps '', '' '': '' (PDict boxed_object)) = JValue (PDict boxed_object)"
    by (simp only: boxed_text_def simp_thms if_True)
  ultimately have "parse_plan ?loads (\<lambda>s. Inr (SingleAgentPlan boxed_plan)) (''Sure: '' @ boxed_text @ '' then {'')
      = (case (Inr (SingleAgentPlan boxed_plan) :: pydantic_error list + plan) of
          Inl errs \<Rightarrow> ParseErrors (bound_errors (map render_parse_error errs)) | Inr p \<Rightarrow> Parsed p)"
    by (rule object_in_prose_is_found)
  then show ?thesis by (simp only: sum.case)
qed

section \<open>What a parse error can carry\<close>

abbreviation sigils :: "string \<Rightarrow> nat" where
  "sigils s \<equiv> count_list s (CHR ''<'')"

lemma marker_has_sigils: "contains ''<<<'' s \<Longrightarrow> 3 \<le> sigils s"
proof (induction s)
  case (Cons x xs)
  show ?case
  proof (cases "startswith (x # xs) ''<<<''")
    case True
    then obtain rest where "x # xs = ''<<<'' @ rest"
      unfolding startswith_iff by blast
    then show ?thesis by simp
  next
    case False
    with Cons show ?thesis by auto
  qed
qed simp

lemma word_no_sigil: "is_word c \<Longrightarrow> c \<noteq> CHR ''<''"
  by (auto simp: is_word_def is_alnum_def is_alpha_def in_range_def)

lemma safe_loc_no_sigil:
  assumes "re_match SAFE_LOC_RE p"
  shows "sigils p = 0"
proof -
  from assms have "\<exists>c \<in> set (ms (Rep is_word 1 None) (None, p, [])). ms Dollar c \<noteq> []"
    by (simp add: re_match_def SAFE_LOC_RE_def del: ms.simps(5,8))
  then obtain j where "j < Suc (run_len is_word None p)" and "ms Dollar (advance j (None, p, [])) \<noteq> []"
    by (auto simp del: upt_Suc ms.simps(8))
  then have j: "j \<le> length (takeWhile is_word p)" and d: "drop j p = [] \<or> drop j p = [CHR 0x0A]"
    by (auto simp: advance_def run_len_def split: if_splits)
  from j have "set (take j p) \<subseteq> set (takeWhile is_word p)"
    by (subst takeWhile_eq_take) (rule set_take_subset_set_take)
  then have "set (take j p) \<subseteq> {c. is_word c}" by (blast dest: set_takeWhileD)
  moreover have "set p = set (take j p) \<union> set (drop j p)" by (metis append_take_drop_id set_append)
  moreover have "CHR ''<'' \<notin> set (drop j p)" using d by (elim disjE) simp_all
  moreover have "\<not> is_word (CHR ''<'')" using word_no_sigil by blast
  ultimately have "CHR ''<'' \<notin> set p" by blast
  then show ?thesis by (simp add: count_notin)
qed

lemma sigils_join: "sigils sep = 0 \<Longrightarrow> list_all (\<lambda>p. sigils p = 0) ps \<Longrightarrow> sigils (join sep ps) = 0"
  by (induction sep ps rule: join.induct) simp_all

lemma phrase_sigils: "map_of PARSE_PHRASES t = Some p \<Longrightarrow> sigils p \<le> 1"
proof -
  have "list_all (\<lambda>(t, p). sigils p \<le> 1) PARSE_PHRASES" by (simp add: PARSE_PHRASES_def)
  moreover assume "map_of PARSE_PHRASES t = Some p"
  ultimately show ?thesis by (auto simp: list_all_iff dest: map_of_SomeD)
qed

lemma entry_sigils:
  assumes "list_all is_word (pe_type e)"
  shows "sigils (render_parse_error e) \<le> 1"
proof -
  have "list_all (\<lambda>p. sigils p = 0) (safe_loc (pe_loc e))"
    by (auto simp: list_all_iff safe_loc_def dest: safe_loc_no_sigil)
  then have loc: "sigils (join ''.'' (safe_loc (pe_loc e))) = 0" by (intro sigils_join) simp_all
  have "CHR ''<'' \<notin> set (pe_type e)" using assms word_no_sigil by (auto simp: list_all_iff)
  then have type_free: "sigils (pe_type e) = 0" by (simp add: count_notin)
  have "sigils (case map_of PARSE_PHRASES (pe_type e) of
      Some p \<Rightarrow> p | None \<Rightarrow> ''invalid value ('' @ pe_type e @ '')'') \<le> 1"
    by (cases "map_of PARSE_PHRASES (pe_type e)") (simp_all add: type_free phrase_sigils[simplified])
  with loc show ?thesis by (simp add: render_parse_error_def Let_def)
qed

lemma take_sigils: "sigils (take n s) \<le> sigils s"
  by (metis append_take_drop_id count_list_append le_add1)

lemma bound_sigils: "sigils (bound_error e) \<le> sigils e"
  by (simp add: bound_error_def take_sigils)

text \<open>
  The error entries of a rejected plan are bounded and cannot forge a marker. Whatever the
  planner answered, and whatever field names and keys pydantic reports as error locations: at
  most ten entries of at most 200 characters, none of which contains the \<open><<<\<close> that opens
  every marker of the program, because a location part that is not an identifier is dropped and
  the message text of pydantic is never used (its error types are identifiers).
\<close>

theorem parse_errors_carry_no_marker:
  assumes "parse_plan loads check raw = ParseErrors es"
    and "\<And>s errs. check s = Inl errs \<Longrightarrow> list_all (\<lambda>e. list_all is_word (pe_type e)) errs"
  shows "length es \<le> 10 \<and> list_all (\<lambda>e. length e \<le> 200 \<and> \<not> contains ''<<<'' e) es"
proof (cases "extract_json_object loads raw")
  case NoObject
  then have es: "es = [''plan: planner output contains no JSON object'']"
    using assms(1) by (simp add: parse_plan_def)
  have "sigils ''plan: planner output contains no JSON object'' = 0" by simp
  then have "\<not> contains ''<<<'' ''plan: planner output contains no JSON object''"
    using marker_has_sigils[of "''plan: planner output contains no JSON object''"] by linarith
  then show ?thesis by (simp only: es list.pred_inject simp_thms list.size) simp
next
  case (Candidate s)
  then obtain errs where errs: "check s = Inl errs" and es: "es = bound_errors (map render_parse_error errs)"
    using assms(1) by (auto simp: parse_plan_def split: sum.splits)
  have "\<not> contains ''<<<'' (bound_error (render_parse_error e))" if "e \<in> set errs" for e
  proof -
    have "list_all is_word (pe_type e)" using assms(2)[OF errs] that by (simp add: list_all_iff)
    from le_trans[OF bound_sigils entry_sigils[OF this]] show ?thesis using marker_has_sigils by fastforce
  qed
  moreover have "length (bound_error e) \<le> 200" for e
    by (simp add: bound_error_def MAX_PLAN_ERROR_CHARS_def)
  ultimately have "list_all (\<lambda>e. length e \<le> 200 \<and> \<not> contains ''<<<'' e) es"
    unfolding es bound_errors_def list_all_iff take_map by (auto dest!: in_set_takeD)
  moreover have "length es \<le> 10" by (simp add: es bound_errors_def MAX_PLAN_ERRORS_def)
  ultimately show ?thesis by blast
next
  case (Escaped x)
  then show ?thesis using assms(1) by (simp add: parse_plan_def)
qed

theorem parse_errors_witness:
  "length [''x.y: extra fields forbidden''] \<le> 10
   \<and> list_all (\<lambda>e. length e \<le> 200 \<and> \<not> contains ''<<<'' e) [''x.y: extra fields forbidden'']"
  by (rule parse_errors_carry_no_marker[where loads = "\<lambda>s. JValue PNone" and raw = "''{}''" and
      check = "\<lambda>s. Inl [\<lparr>pe_loc = [''single_agent'', ''x'', ''<<<ziggy:end-goal>>>'', ''y''], pe_type = ''extra_forbidden''\<rparr>]"])
     (code_simp, auto simp: is_word_def is_alnum_def is_alpha_def in_range_def)

end
