(* ===== verification/Config_Dump.thy ===== *)
theory Config_Dump
  imports Config_Schema
begin

text \<open>
  The configuration tree as a JSON-like value: the field annotations of \<open>config/schema.py\<close>, what
  \<open>model_dump(mode="json")\<close> gives, and the tree utilities of \<open>config/loader.py\<close>. A strict decoder
  of dumps shows that a dump determines its configuration; it is the instance at which the
  hypotheses on pydantic's validation are shown to hold.
\<close>

section \<open>Field annotations\<close>

text \<open>\<open>T | None\<close> is the annotation of \<open>T\<close>, as \<open>_strip_optional\<close> leaves it.\<close>

datatype ann =
    AInt | ABool | AFloat | AStr | AOther          \<comment> \<open>\<open>AOther\<close>: a literal\<close>
  | AEnum "string list"
  | AListOf ann
  | ADict ann
  | AModel "(string \<times> ann) list"

definition ENGINE_ANN :: ann where
  "ENGINE_ANN = AModel [(''max_workflow_steps'', AInt), (''max_prompt_bytes'', AInt),
     (''default_step_timeout_seconds'', AInt), (''default_workflow_timeout_seconds'', AInt),
     (''cancel_grace_seconds'', AFloat), (''max_event_bytes_per_step'', AInt),
     (''max_artifact_bytes_per_run'', AInt)]"

definition AGENT_FIELDS :: "string list" where
  "AGENT_FIELDS = [''command'', ''args'', ''env'', ''inherit_env'', ''working_dir'', ''api_key_env'',
     ''provider'', ''orchestration_eligible'']"

definition AGENT_ANN :: ann where
  "AGENT_ANN = AModel (zip AGENT_FIELDS [AStr, AListOf AStr, ADict AStr, AListOf AStr, AStr, AStr, AStr, ABool])"

definition POLICY_ANN :: ann where
  "POLICY_ANN = AModel [(''terminal_allowlist'', AListOf (AModel [(''command'', AStr), (''args_prefix'', AListOf AStr)])),
     (''deny_paths'', AListOf AStr)]"

definition PERMISSIONS_ANN :: ann where
  "PERMISSIONS_ANN = AModel [(''default_policy'', AStr), (''profiles'', ADict POLICY_ANN),
     (''project_denials'', AListOf (AModel [(''kind'', AOther), (''pattern'', AStr)]))]"

definition RESULTS_ANN :: ann where
  "RESULTS_ANN = AModel [(''persist'', ABool), (''capture'', AEnum [''metadata'', ''standard'', ''debug'']),
     (''retention_days'', AInt), (''auto_prune'', ABool), (''store_path'', AStr)]"

definition ORCHESTRATOR_ANN :: ann where
  "ORCHESTRATOR_ANN = AModel [(''agent'', AStr), (''max_inline_steps'', AInt), (''auto_execute'', ABool),
     (''allow_uncontained_planner'', ABool), (''eligible_agents'', AListOf AStr),
     (''trusted_workflows'', AListOf (AModel [(''path'', AStr), (''sha256'', AStr)]))]"

definition REDACTION_ANN :: ann where
  "REDACTION_ANN = AModel [(''extra_value_env_vars'', AListOf AStr),
     (''patterns'', AListOf (AModel [(''kind'', AStr), (''regex'', AStr), (''max_width'', AInt)]))]"

definition WORKFLOWS_ANN :: ann where
  "WORKFLOWS_ANN = AModel [(''default_name'', AStr), (''secret_variable_allowances'', ADict (AListOf AStr))]"

definition CONFIG_FIELDS :: "(string \<times> ann) list" where
  "CONFIG_FIELDS = [(''schema_version'', AOther), (''engine'', ENGINE_ANN), (''agents'', ADict AGENT_ANN),
     (''permissions'', PERMISSIONS_ANN), (''results'', RESULTS_ANN),
     (''server'', AModel [(''max_active_runs'', AInt)]), (''orchestrator'', ORCHESTRATOR_ANN),
     (''redaction'', REDACTION_ANN), (''logs'', AModel [(''retention_days'', AInt)]),
     (''workflows'', WORKFLOWS_ANN), (''egress'', AModel [(''acknowledged_provider_sets'', AListOf (AListOf AStr))])]"

section \<open>Dumps\<close>

definition dump_opt :: "('a \<Rightarrow> pyval) \<Rightarrow> 'a option \<Rightarrow> pyval" where
  "dump_opt f x = (case x of None \<Rightarrow> PNone | Some a \<Rightarrow> f a)"

definition dump_list :: "('a \<Rightarrow> pyval) \<Rightarrow> 'a list \<Rightarrow> pyval" where "dump_list f xs = PList (map f xs)"

definition dump_dict :: "('a \<Rightarrow> pyval) \<Rightarrow> (string \<times> 'a) list \<Rightarrow> pyval" where
  "dump_dict f d = PDict (map (\<lambda>(k, v). (k, f v)) d)"

definition dump_engine :: "engine_config \<Rightarrow> pyval" where
  "dump_engine e = PDict [(''max_workflow_steps'', PInt (max_workflow_steps e)),
     (''max_prompt_bytes'', PInt (max_prompt_bytes e)),
     (''default_step_timeout_seconds'', PInt (default_step_timeout_seconds e)),
     (''default_workflow_timeout_seconds'', PInt (default_workflow_timeout_seconds e)),
     (''cancel_grace_seconds'', PFloat (cancel_grace_seconds e)),
     (''max_event_bytes_per_step'', PInt (max_event_bytes_per_step e)),
     (''max_artifact_bytes_per_run'', PInt (max_artifact_bytes_per_run e))]"

definition dump_agent :: "agent_entry \<Rightarrow> pyval" where
  "dump_agent a = PDict [(''command'', dump_opt PStr (ae_command a)), (''args'', dump_list PStr (ae_args a)),
     (''env'', dump_dict PStr (ae_env a)), (''inherit_env'', dump_list PStr (ae_inherit_env a)),
     (''working_dir'', dump_opt PStr (ae_working_dir a)), (''api_key_env'', dump_opt PStr (ae_api_key_env a)),
     (''provider'', dump_opt PStr (ae_provider a)), (''orchestration_eligible'', PBool (ae_orchestration_eligible a))]"

definition dump_rule :: "terminal_rule \<Rightarrow> pyval" where
  "dump_rule r = PDict [(''command'', PStr (tr_command r)), (''args_prefix'', dump_list PStr (tr_args_prefix r))]"

definition dump_policy :: "policy_profile \<Rightarrow> pyval" where
  "dump_policy p = PDict [(''terminal_allowlist'', dump_list dump_rule (pf_terminal_allowlist p)),
     (''deny_paths'', dump_list PStr (pf_deny_paths p))]"

definition denial_value :: "denial_kind \<Rightarrow> string" where
  "denial_value k = (case k of DenyPath \<Rightarrow> ''path'' | DenyTerminal \<Rightarrow> ''terminal'')"

definition dump_denial :: "project_denial \<Rightarrow> pyval" where
  "dump_denial d = PDict [(''kind'', PStr (denial_value (pj_kind d))), (''pattern'', PStr (pj_pattern d))]"

definition dump_permissions :: "permissions_config \<Rightarrow> pyval" where
  "dump_permissions p = PDict [(''default_policy'', PStr (pc_default_policy p)),
     (''profiles'', dump_dict dump_policy (pc_profiles p)),
     (''project_denials'', dump_list dump_denial (pc_project_denials p))]"

definition dump_results :: "results_config \<Rightarrow> pyval" where
  "dump_results r = PDict [(''persist'', PBool (rc_persist r)), (''capture'', PStr (profile_value (rc_capture r))),
     (''retention_days'', PInt (rc_retention_days r)), (''auto_prune'', PBool (rc_auto_prune r)),
     (''store_path'', dump_opt PStr (rc_store_path r))]"

definition dump_trusted :: "trusted_workflow \<Rightarrow> pyval" where
  "dump_trusted t = PDict [(''path'', PStr (tw_path t)), (''sha256'', PStr (tw_sha256 t))]"

definition dump_orchestrator :: "orchestrator_config \<Rightarrow> pyval" where
  "dump_orchestrator c = PDict [(''agent'', dump_opt PStr (oc_agent c)), (''max_inline_steps'', PInt (oc_max_inline_steps c)),
     (''auto_execute'', PBool (oc_auto_execute c)), (''allow_uncontained_planner'', PBool (oc_allow_uncontained_planner c)),
     (''eligible_agents'', dump_list PStr (oc_eligible_agents c)),
     (''trusted_workflows'', dump_list dump_trusted (oc_trusted_workflows c))]"

definition dump_pattern :: "custom_pattern_cfg \<Rightarrow> pyval" where
  "dump_pattern p = PDict [(''kind'', PStr (cp_kind p)), (''regex'', PStr (cp_regex p)),
     (''max_width'', dump_opt PInt (cp_max_width p))]"

definition dump_redaction :: "redaction_config \<Rightarrow> pyval" where
  "dump_redaction r = PDict [(''extra_value_env_vars'', dump_list PStr (rd_extra_value_env_vars r)),
     (''patterns'', dump_list dump_pattern (rd_patterns r))]"

definition dump_workflows :: "workflows_config \<Rightarrow> pyval" where
  "dump_workflows w = PDict [(''default_name'', dump_opt PStr (wc_default_name w)),
     (''secret_variable_allowances'', dump_dict (dump_list PStr) (wc_secret_variable_allowances w))]"

definition dump_config :: "ziggy_config \<Rightarrow> (string \<times> pyval) list" where
  "dump_config c = [(''schema_version'', PInt (schema_version c)), (''engine'', dump_engine (c_engine c)),
     (''agents'', dump_dict dump_agent (c_agents c)), (''permissions'', dump_permissions (c_permissions c)),
     (''results'', dump_results (c_results c)),
     (''server'', PDict [(''max_active_runs'', PInt (max_active_runs (c_server c)))]),
     (''orchestrator'', dump_orchestrator (c_orchestrator c)), (''redaction'', dump_redaction (c_redaction c)),
     (''logs'', PDict [(''retention_days'', PInt (lg_retention_days (c_logs c)))]),
     (''workflows'', dump_workflows (c_workflows c)),
     (''egress'', PDict [(''acknowledged_provider_sets'', dump_list (dump_list PStr) (eg_acknowledged_provider_sets (c_egress c)))])]"

text \<open>
  An entry built from a dump has every field set (\<open>model_fields_set\<close>), whatever the user wrote.
\<close>

definition every_field_set :: "ziggy_config \<Rightarrow> ziggy_config" where
  "every_field_set c = c\<lparr>c_agents := map (\<lambda>(n, e). (n, e\<lparr>ae_fields_set := Some AGENT_FIELDS\<rparr>)) (c_agents c)\<rparr>"

text \<open>The constraints the field types leave open.\<close>

definition config_ok :: "ziggy_config \<Rightarrow> bool" where
  "config_ok c \<longleftrightarrow> schema_version c = 1 \<and> results_config_ok (c_results c)"

section \<open>Tree utilities\<close>

type_synonym tree = "(string \<times> pyval) list"

definition dict_update :: "tree \<Rightarrow> tree \<Rightarrow> tree" where
  "dict_update out new = foldl (\<lambda>d (k, v). AList.update k v d) out new"

function deep_merge :: "tree \<Rightarrow> tree \<Rightarrow> tree" where
  "deep_merge merged [] = merged"
| "deep_merge merged ((k, v) # overlay) =
     deep_merge (AList.update k (case v of
         PDict d \<Rightarrow> (case map_of merged k of Some (PDict b) \<Rightarrow> PDict (deep_merge b d) | _ \<Rightarrow> v)
       | _ \<Rightarrow> v) merged) overlay"
  by pat_completeness auto
termination
  by (relation "measure (\<lambda>(b, d). size (PDict d))") auto

text \<open>\<open>_leaves\<close> of a raw tree: an empty table contributes nothing.\<close>

function leaves :: "string \<Rightarrow> tree \<Rightarrow> tree" where
  "leaves pre [] = []"
| "leaves pre ((k, v) # t) =
     dict_update (case v of PDict [] \<Rightarrow> [] | PDict d \<Rightarrow> leaves (pre @ k @ ''.'') d | _ \<Rightarrow> [(pre @ k, v)])
       (leaves pre t)"
  by pat_completeness auto
termination
  by (relation "measure (\<lambda>(p, d). size (PDict d))") auto

text \<open>\<open>_dump_leaves\<close> of a model dump: an empty dictionary is a leaf.\<close>

function dump_leaves :: "string \<Rightarrow> tree \<Rightarrow> tree" where
  "dump_leaves pre [] = []"
| "dump_leaves pre ((k, v) # t) =
     dict_update (case v of PDict (x # d) \<Rightarrow> dump_leaves (pre @ k @ ''.'') (x # d) | _ \<Rightarrow> [(pre @ k, v)])
       (dump_leaves pre t)"
  by pat_completeness auto
termination
  by (relation "measure (\<lambda>(p, d). size (PDict d))") auto

text \<open>\<open>None\<close> is the KeyError (or the TypeError of an index into a scalar).\<close>

fun get_parts :: "string list \<Rightarrow> pyval \<Rightarrow> pyval option" where
  "get_parts [] node = Some node"
| "get_parts (p # ps) node =
     (case node of PDict d \<Rightarrow> (case map_of d p of None \<Rightarrow> None | Some n \<Rightarrow> get_parts ps n) | _ \<Rightarrow> None)"

definition get_path :: "tree \<Rightarrow> string \<Rightarrow> pyval option" where
  "get_path t path = get_parts (split_on (CHR ''.'') path) (PDict t)"

text \<open>Missing tables on the way are created.\<close>

fun set_parts :: "string list \<Rightarrow> pyval \<Rightarrow> tree \<Rightarrow> tree option" where
  "set_parts [] v d = Some d"
| "set_parts [p] v d = Some (AList.update p v d)"
| "set_parts (p # q # ps) v d =
     (case (case map_of d p of None \<Rightarrow> PDict [] | Some n \<Rightarrow> n) of
        PDict n \<Rightarrow> map_option (\<lambda>n'. AList.update p (PDict n') d) (set_parts (q # ps) v n)
      | _ \<Rightarrow> None)"

definition set_path :: "tree \<Rightarrow> string \<Rightarrow> pyval \<Rightarrow> tree option" where
  "set_path t path v = set_parts (split_on (CHR ''.'') path) v t"

text \<open>\<open>_schema_allows\<close>.\<close>

fun schema_allows :: "ann \<Rightarrow> string list \<Rightarrow> bool" where
  "schema_allows node [] \<longleftrightarrow> True"
| "schema_allows node (p # ps) \<longleftrightarrow>
     (case node of
        AModel fs \<Rightarrow> (case map_of fs p of None \<Rightarrow> False | Some a \<Rightarrow> schema_allows a ps)
      | ADict a \<Rightarrow> schema_allows a ps
      | _ \<Rightarrow> False)"

end
