(* ===== verification/Config_Loader.thy ===== *)
theory Config_Loader
  imports Config_Dump Registry Redactor Vars
begin

text \<open>
  \<open>config/loader.py\<close>: user file, environment overrides and project file become one resolved
  configuration with the provenance of every field. A parsed file is a tree; reading it and the
  TOML parser are the input. Pydantic's validation, \<open>float()\<close> of a text, \<open>re.compile\<close> and SHA-256
  are the record \<open>library\<close>.
\<close>

section \<open>Inputs and results\<close>

datatype toml_file = NoFile | Toml tree | TomlSyntax string | Unreadable string

record config_issue =
  ci_loc :: "string list"      \<comment> \<open>each part as \<open>str\<close> gives it\<close>
  ci_type :: string
  ci_msg :: string

record library =
  lb_validate :: "tree \<Rightarrow> config_issue list + ziggy_config"   \<comment> \<open>\<open>ZiggyConfig.model_validate\<close>\<close>
  lb_float :: "string \<Rightarrow> string option"                       \<comment> \<open>\<open>repr(float(s))\<close>, or ValueError\<close>
  lb_compile :: "string \<Rightarrow> re option"
  lb_re_error :: "string \<Rightarrow> string"                           \<comment> \<open>the text of \<open>re.error\<close> for a pattern\<close>
  lb_sha256 :: "string \<Rightarrow> string"

record config_files =
  cf_env :: "(string \<times> string) list"
  cf_user_name :: string
  cf_user :: toml_file
  cf_project_name :: string
  cf_project :: toml_file

datatype merge_rule = UserOnly | TightenMin | TightenCapture | ProjectDenials | ProjectOk

definition TIGHTEN_MIN_PATHS :: "string list" where
  "TIGHTEN_MIN_PATHS = [''engine.max_workflow_steps'', ''engine.max_prompt_bytes'',
     ''engine.default_step_timeout_seconds'', ''engine.default_workflow_timeout_seconds'',
     ''engine.max_event_bytes_per_step'', ''engine.max_artifact_bytes_per_run'']"

definition CAPTURE_PATH :: string where "CAPTURE_PATH = ''results.capture''"
definition DENIALS_PATH :: string where "DENIALS_PATH = ''permissions.project_denials''"
definition PROJECT_OK_PATHS :: "string list" where "PROJECT_OK_PATHS = [''workflows.default_name'']"

definition merge_rule_for :: "string \<Rightarrow> merge_rule" where
  "merge_rule_for path =
     (if path \<in> set TIGHTEN_MIN_PATHS then TightenMin
      else if path = CAPTURE_PATH then TightenCapture
      else if path = DENIALS_PATH then ProjectDenials
      else if path \<in> set PROJECT_OK_PATHS then ProjectOk
      else UserOnly)"

record provenance_entry =
  pv_source :: config_source
  pv_action :: project_action

record resolved_config =
  rv_config :: ziggy_config
  rv_provenance :: "(string \<times> provenance_entry) list"
  rv_fingerprint :: string
  rv_warnings :: "string list"

definition config_raise :: "string \<Rightarrow> 'a outcome" where
  "config_raise m = Raises (config_error m [])"

definition bindO :: "'a outcome \<Rightarrow> ('a \<Rightarrow> 'b outcome) \<Rightarrow> 'b outcome" where
  "bindO r f = (case r of Returns x \<Rightarrow> f x | Raises e \<Rightarrow> Raises e | Escapes e \<Rightarrow> Escapes e)"

lemma bindO_Returns [simp]: "bindO (Returns x) f = f x"
  by (simp add: bindO_def)

lemma bindO_eq_Returns: "bindO r f = Returns y \<longleftrightarrow> (\<exists>x. r = Returns x \<and> f x = Returns y)"
  by (cases r) (auto simp: bindO_def)

definition problems_at :: "string \<Rightarrow> string list \<Rightarrow> unit outcome" where
  "problems_at desc problems =
     (if problems = [] then Returns () else config_raise (desc @ '': '' @ join ''; '' problems))"

lemma problems_at_Returns: "problems_at desc ps = Returns u \<longleftrightarrow> ps = []"
  by (simp add: problems_at_def config_raise_def)

section \<open>Files and environment\<close>

definition parse_toml :: "string \<Rightarrow> string \<Rightarrow> toml_file \<Rightarrow> tree option outcome" where
  "parse_toml scope path f =
     (case f of NoFile \<Rightarrow> Returns None | Toml t \<Rightarrow> Returns (Some t)
      | TomlSyntax m \<Rightarrow> config_raise (scope @ '' config '' @ path @ '': TOML parse error: '' @ m)
      | Unreadable m \<Rightarrow> config_raise (scope @ '' config '' @ path @ '': unreadable: '' @ m))"

definition reject_user_scope_denials :: "tree option \<Rightarrow> string \<Rightarrow> unit outcome" where
  "reject_user_scope_denials user_raw user_file =
     (case map_of (case user_raw of None \<Rightarrow> [] | Some t \<Rightarrow> t) ''permissions'' of
        Some (PDict d) \<Rightarrow>
          if ''project_denials'' \<in> set (keys d)
          then config_raise (''user config '' @ user_file
            @ '': permissions.project_denials is allowed only in project scope (<workspace>/.ziggy/config.toml)'')
          else Returns ()
      | _ \<Rightarrow> Returns ())"

definition upper_or_digit :: "char \<Rightarrow> bool" where "upper_or_digit c \<longleftrightarrow> is_upper c \<or> is_digit c"

definition ENV_OVERRIDE_RE :: re where
  "ENV_OVERRIDE_RE = Seq (lit ''ZIGGY_'') (Seq (Grp (Rep upper_or_digit 1 None)) (Seq (lit ''__'')
     (Seq (Grp (Rep (\<lambda>c. upper_or_digit c \<or> c = CHR ''_'') 1 None)) Dollar)))"

text \<open>The groups of \<open>re.match\<close>.\<close>

definition match_groups :: "re \<Rightarrow> string \<Rightarrow> string list option" where
  "match_groups r s = (case ms r (None, s, []) of [] \<Rightarrow> None | (p, rest, gs) # _ \<Rightarrow> Some gs)"

text \<open>
  \<open>int(text)\<close>: a sign, then digits with single underscores between them; more than 4300 digits
  are a ValueError too.
\<close>

definition text_int :: "string \<Rightarrow> int option" where
  "text_int raw = (let s = strip raw;
       body = (case s of [] \<Rightarrow> [] | c # cs \<Rightarrow> if c = CHR ''+'' \<or> c = CHR ''-'' then cs else s)
     in if list_all (\<lambda>p. p \<noteq> [] \<and> list_all is_digit p) (split_on (CHR ''_'') body)
        then py_int (filter (\<lambda>c. c \<noteq> CHR ''_'') s) else None)"

definition coerce_env :: "library \<Rightarrow> string \<Rightarrow> ann \<Rightarrow> string \<Rightarrow> pyval outcome" where
  "coerce_env lb name a raw =
     (case a of
        AListOf _ \<Rightarrow> config_raise (name @ '': list/table values cannot be set via environment overrides'')
      | ADict _ \<Rightarrow> config_raise (name @ '': list/table values cannot be set via environment overrides'')
      | AModel _ \<Rightarrow> config_raise (name @ '': list/table values cannot be set via environment overrides'')
      | ABool \<Rightarrow>
          (let low = map to_lower (strip raw) in
           if low \<in> set [''1'', ''true'', ''yes'', ''on''] then Returns (PBool True)
           else if low \<in> set [''0'', ''false'', ''no'', ''off''] then Returns (PBool False)
           else config_raise (name @ '': expected a boolean (true/false)''))
      | AInt \<Rightarrow> (case text_int (strip raw) of
            None \<Rightarrow> config_raise (name @ '': expected an integer'') | Some i \<Rightarrow> Returns (PInt i))
      | AFloat \<Rightarrow> (case lb_float lb (strip raw) of
            None \<Rightarrow> config_raise (name @ '': expected a number'') | Some f \<Rightarrow> Returns (PFloat f))
      | AEnum vs \<Rightarrow> if strip raw \<in> set vs then Returns (PStr (strip raw))
          else config_raise (name @ '': invalid value; expected one of: '' @ join '', '' vs)
      | AStr \<Rightarrow> Returns (PStr raw)
      | AOther \<Rightarrow> config_raise (name @ '': unsupported value type for environment override''))"

text \<open>One variable: nothing, or the section, the key and the value it sets.\<close>

definition env_override :: "library \<Rightarrow> string \<Rightarrow> string \<Rightarrow> (string \<times> string \<times> pyval) option outcome" where
  "env_override lb name raw =
     (case match_groups ENV_OVERRIDE_RE name of
        None \<Rightarrow> Returns None
      | Some gs \<Rightarrow>
          (let section = map to_lower (gs ! 0); key = map to_lower (gs ! 1) in
           case map_of CONFIG_FIELDS section of
             None \<Rightarrow> config_raise (name @ '': unknown config section '' @ [CHR 0x27] @ section @ [CHR 0x27])
           | Some (AModel fs) \<Rightarrow>
               (case map_of fs key of
                  None \<Rightarrow> config_raise (name @ '': unknown config key '' @ [CHR 0x27] @ section @ ''.'' @ key @ [CHR 0x27])
                | Some a \<Rightarrow> bindO (coerce_env lb name a raw) (\<lambda>v. Returns (Some (section, key, v))))
           | Some _ \<Rightarrow> config_raise (name @ '': section '' @ [CHR 0x27] @ section @ [CHR 0x27]
                @ '' cannot be set via environment overrides (lists/tables are unsupported)'')))"

text \<open>\<open>overlay.setdefault(section, {})[key] = value\<close>\<close>

definition overlay_set :: "tree \<Rightarrow> string \<Rightarrow> string \<Rightarrow> pyval \<Rightarrow> tree" where
  "overlay_set overlay section key v =
     AList.update section (PDict (AList.update key v
       (case map_of overlay section of Some (PDict d) \<Rightarrow> d | _ \<Rightarrow> []))) overlay"

fun env_overrides_from ::
  "library \<Rightarrow> (string \<times> string) list \<Rightarrow> tree \<Rightarrow> (string \<times> string) list
   \<Rightarrow> (tree \<times> (string \<times> string) list) outcome" where
  "env_overrides_from lb [] overlay by_path = Returns (overlay, by_path)"
| "env_overrides_from lb ((name, raw) # env) overlay by_path =
     bindO (env_override lb name raw) (\<lambda>r.
       case r of
         None \<Rightarrow> env_overrides_from lb env overlay by_path
       | Some (section, key, v) \<Rightarrow> env_overrides_from lb env (overlay_set overlay section key v)
           (AList.update (section @ ''.'' @ key) name by_path))"

definition env_overrides ::
  "library \<Rightarrow> (string \<times> string) list \<Rightarrow> (tree \<times> (string \<times> string) list) outcome" where
  "env_overrides lb env = env_overrides_from lb (sort_key fst env) [] []"

section \<open>Literal secrets\<close>

text \<open>The sorted kinds the default redactor finds in a text.\<close>

definition secret_kinds :: "string \<Rightarrow> string list" where
  "secret_kinds s =
     (case new_redactor (\<lambda>_. None) [] [] of
        Inl _ \<Rightarrow> []
      | Inr rx \<Rightarrow> (case redact_text rx s of (rx', out, counts) \<Rightarrow> sort (keys counts)))"

definition secret_hit :: "string \<Rightarrow> string \<Rightarrow> string \<Rightarrow> string list" where
  "secret_hit label path s =
     (if secret_kinds s = [] then []
      else [label @ '': '' @ (if path = [] then ''<root>'' else path)
            @ '': value matches secret pattern(s) ['' @ join '','' (secret_kinds s) @ '']''])"

fun scan_value :: "string \<Rightarrow> string \<Rightarrow> pyval \<Rightarrow> string list"
  and scan_dict :: "string \<Rightarrow> string \<Rightarrow> tree \<Rightarrow> string list"
  and scan_list :: "string \<Rightarrow> string \<Rightarrow> nat \<Rightarrow> pyval list \<Rightarrow> string list" where
  "scan_value label path (PStr s) = secret_hit label path s"
| "scan_value label path (PDict d) = scan_dict label path d"
| "scan_value label path (PList l) = scan_list label path 0 l"
| "scan_value label path PNone = []"
| "scan_value label path (PBool b) = []"
| "scan_value label path (PInt i) = []"
| "scan_value label path (PFloat f) = []"
| "scan_dict label path [] = []"
| "scan_dict label path ((k, v) # d) =
     scan_value label (if path = [] then k else path @ ''.'' @ k) v @ scan_dict label path d"
| "scan_list label path i [] = []"
| "scan_list label path i (v # vs) =
     scan_value label (path @ ''['' @ str_of_nat i @ '']'') v @ scan_list label path (Suc i) vs"

definition scan_file :: "string \<Rightarrow> string \<Rightarrow> tree option \<Rightarrow> string list" where
  "scan_file scope name raw =
     (case raw of None \<Rightarrow> [] | Some t \<Rightarrow> scan_value (scope @ '' config '' @ name) [] (PDict t))"

definition reject_secret_literals ::
  "tree option \<Rightarrow> string \<Rightarrow> tree \<Rightarrow> (string \<times> string) list \<Rightarrow> tree option \<Rightarrow> string \<Rightarrow> unit outcome" where
  "reject_secret_literals user_raw user_file overlay by_path project_raw project_file =
     (let hits = scan_file ''user'' user_file user_raw
        @ concat (map (\<lambda>(path, v). scan_value (''environment override '' @ get_or path by_path path) path v)
            (leaves [] overlay))
        @ scan_file ''project'' project_file project_raw
      in if hits = [] then Returns ()
         else config_raise (''literal secret values are not allowed in config (reference env var names instead): ''
           @ join ''; '' hits))"

section \<open>Validation\<close>

definition issue_text :: "(string \<times> string) list \<Rightarrow> config_issue \<Rightarrow> string" where
  "issue_text by_path i =
     (let path = (if join ''.'' (ci_loc i) = [] then ''<root>'' else join ''.'' (ci_loc i));
          msg = (if ci_type i = ''extra_forbidden'' then ''unknown configuration key''
                 else if ci_type i = ''missing'' \<and> path = ''schema_version'' then ''schema_version = 1 is required''
                 else ci_msg i);
          shown_at = (case map_of by_path path of
            Some name \<Rightarrow> if name = [] then path else path @ '' (from '' @ name @ '')'' | None \<Rightarrow> path)
      in shown_at @ '': '' @ msg)"

definition validate :: "library \<Rightarrow> tree \<Rightarrow> string \<Rightarrow> (string \<times> string) list \<Rightarrow> ziggy_config outcome" where
  "validate lb data source_desc by_path =
     (case lb_validate lb data of
        Inr c \<Rightarrow> Returns c
      | Inl issues \<Rightarrow> config_raise (source_desc @ '': '' @ join ''; '' (map (issue_text by_path) issues)))"

section \<open>The project file\<close>

definition py_is_one :: "pyval option \<Rightarrow> bool" where
  "py_is_one v \<longleftrightarrow> v = Some (PInt 1) \<or> v = Some (PBool True) \<or> v = Some (PFloat ''1.0'')"

definition path_problem :: "string \<Rightarrow> string list" where
  "path_problem path =
     (if \<not> schema_allows (AModel CONFIG_FIELDS) (split_on (CHR ''.'') path) then [path @ '': unknown configuration key'']
      else if merge_rule_for path = UserOnly then [path @ '': forbidden in project scope (user-scope only)'']
      else [])"

record merging =
  mg_final :: tree
  mg_actions :: "(string \<times> project_action) list"
  mg_warnings :: "string list"
  mg_problems :: "string list"

definition merged :: "string \<Rightarrow> pyval \<Rightarrow> project_action \<Rightarrow> merging \<Rightarrow> merging outcome" where
  "merged path v a m =
     (case set_path (mg_final m) path v of
        None \<Rightarrow> Escapes ''TypeError''
      | Some t \<Rightarrow> Returns (m\<lparr>mg_final := t, mg_actions := AList.update path a (mg_actions m)\<rparr>))"

definition tighten_min :: "string \<Rightarrow> pyval \<Rightarrow> pyval \<Rightarrow> merging \<Rightarrow> merging outcome" where
  "tighten_min path value eff m =
     (case (value, eff) of
        (PInt v, PInt e) \<Rightarrow>
          if v < e then merged path value ActTightened m
          else if v = e then Returns (m\<lparr>mg_actions := AList.update path ActIgnored (mg_actions m)\<rparr>)
          else Returns (m\<lparr>mg_problems := mg_problems m @
            [path @ '': project value '' @ str_of_int v @ '' may not raise the user-scope ceiling '' @ str_of_int e]\<rparr>)
      | _ \<Rightarrow> Escapes ''TypeError'')"

definition capture_rejected :: "string \<Rightarrow> capture_profile \<Rightarrow> capture_profile \<Rightarrow> string" where
  "capture_rejected desc p q = desc @ '': results.capture='' @ profile_value p
     @ '' rejected by user-scope ceiling ('' @ profile_value q @ '')''"

definition tighten_capture :: "string \<Rightarrow> string \<Rightarrow> pyval \<Rightarrow> pyval \<Rightarrow> merging \<Rightarrow> merging outcome" where
  "tighten_capture desc path value eff m =
     (case (value, eff) of
        (PStr v, PStr e) \<Rightarrow>
          (case (profile_of v, profile_of e) of
             (Some p, Some q) \<Rightarrow>
               if profile_rank p < profile_rank q then merged path (PStr (profile_value p)) ActTightened m
               else if profile_rank p = profile_rank q
               then Returns (m\<lparr>mg_actions := AList.update path ActIgnored (mg_actions m)\<rparr>)
               else Returns (m\<lparr>mg_actions := AList.update path ActRejected (mg_actions m),
                 mg_warnings := mg_warnings m @ [capture_rejected desc p q]\<rparr>)
           | _ \<Rightarrow> Escapes ''ValueError'')
      | _ \<Rightarrow> Escapes ''ValueError'')"

definition merge_path :: "string \<Rightarrow> tree \<Rightarrow> string \<Rightarrow> merging \<Rightarrow> merging outcome" where
  "merge_path desc project_dump path m =
     (case get_path project_dump path of
        None \<Rightarrow> Escapes ''KeyError''
      | Some value \<Rightarrow>
          (case merge_rule_for path of
             TightenMin \<Rightarrow> (case get_path (mg_final m) path of
               None \<Rightarrow> Escapes ''KeyError'' | Some eff \<Rightarrow> tighten_min path value eff m)
           | TightenCapture \<Rightarrow> (case get_path (mg_final m) path of
               None \<Rightarrow> Escapes ''KeyError'' | Some eff \<Rightarrow> tighten_capture desc path value eff m)
           | ProjectDenials \<Rightarrow> merged path value ActApplied m
           | ProjectOk \<Rightarrow> merged path value ActApplied m
           | UserOnly \<Rightarrow> Returns m))"

fun merge_paths :: "string \<Rightarrow> tree \<Rightarrow> string list \<Rightarrow> merging \<Rightarrow> merging outcome" where
  "merge_paths desc project_dump [] m = Returns m"
| "merge_paths desc project_dump (path # paths) m =
     bindO (merge_path desc project_dump path m) (merge_paths desc project_dump paths)"

definition project_leaves :: "tree \<Rightarrow> tree" where
  "project_leaves raw = leaves [] (filter (\<lambda>(k, v). k \<noteq> ''schema_version'') raw)"

definition project_desc :: "string \<Rightarrow> string" where "project_desc file = ''project config '' @ file"

definition apply_project :: "library \<Rightarrow> tree \<Rightarrow> string \<Rightarrow> tree \<Rightarrow> merging outcome" where
  "apply_project lb raw project_file final =
     (let desc = project_desc project_file; paths = sort (keys (project_leaves raw)) in
      if \<not> py_is_one (map_of raw ''schema_version'') then config_raise (desc @ '': schema_version = 1 is required'')
      else bindO (problems_at desc (concat (map path_problem paths))) (\<lambda>_.
        bindO (validate lb raw desc []) (\<lambda>pc.
        bindO (merge_paths desc (dump_config pc) paths
                 \<lparr>mg_final = final, mg_actions = [], mg_warnings = [], mg_problems = []\<rparr>) (\<lambda>m.
        bindO (problems_at desc (mg_problems m)) (\<lambda>_. Returns m)))))"

section \<open>Semantic checks\<close>

definition AGENT_NAME_RE :: re where "AGENT_NAME_RE = ident_re is_alpha is_ident_char (Some 63)"

definition ENV_VAR_NAME_RE :: re where
  "ENV_VAR_NAME_RE = Seq (Cls is_upper) (Seq (Rep (\<lambda>c. upper_or_digit c \<or> c = CHR ''_'') 0 None) Dollar)"

definition BUILTIN_AGENT_NAMES :: "string list" where "BUILTIN_AGENT_NAMES = keys BUILTIN_AGENTS"

definition agent_problems :: "string \<times> agent_entry \<Rightarrow> string list" where
  "agent_problems ne = (case ne of (name, e) \<Rightarrow>
     (if \<not> re_match AGENT_NAME_RE name then [''agents.'' @ name @ '': invalid agent name''] else [])
     @ (if ae_command e = None \<and> name \<notin> set BUILTIN_AGENT_NAMES
        then [''agents.'' @ name @ '': 'command' is required for custom agents (only builtins [''
              @ join '', '' (sort BUILTIN_AGENT_NAMES) @ ''] may omit it)''] else [])
     @ (case ae_api_key_env e of
          Some v \<Rightarrow> if \<not> re_match ENV_VAR_NAME_RE v
            then [''agents.'' @ name @ ''.api_key_env: must be an environment variable NAME matching ^[A-Z][A-Z0-9_]*$ (value not shown)'']
            else []
        | None \<Rightarrow> []))"

definition semantic_problems :: "ziggy_config \<Rightarrow> string list" where
  "semantic_problems c =
     (let p = c_permissions c; o' = c_orchestrator c; known = set (keys (c_agents c)) \<union> set BUILTIN_AGENT_NAMES in
      concat (map agent_problems (c_agents c))
      @ (if pc_default_policy p \<noteq> ''guarded'' \<and> pc_default_policy p \<notin> set (keys (pc_profiles p))
         then [''permissions.default_policy: unknown policy profile '' @ [CHR 0x27] @ pc_default_policy p @ [CHR 0x27]] else [])
      @ (case oc_agent o' of
           Some a \<Rightarrow> if a \<notin> known then [''orchestrator.agent: unknown agent '' @ [CHR 0x27] @ a @ [CHR 0x27]] else []
         | None \<Rightarrow> [])
      @ concat (map (\<lambda>a. if a \<notin> known
           then [''orchestrator.eligible_agents: unknown agent '' @ [CHR 0x27] @ a @ [CHR 0x27]] else [])
          (oc_eligible_agents o')))"

definition custom_of :: "custom_pattern_cfg \<Rightarrow> custom_pattern" where
  "custom_of p = \<lparr>cu_kind = cp_kind p, cu_regex = cp_regex p, cu_max_width = cp_max_width p\<rparr>"

definition semantic_checks :: "library \<Rightarrow> ziggy_config \<Rightarrow> string \<Rightarrow> unit outcome" where
  "semantic_checks lb c user_desc =
     bindO (problems_at user_desc (semantic_problems c)) (\<lambda>_.
       case new_redactor (lb_compile lb) [] (map custom_of (rd_patterns (c_redaction c))) of
         Inr rx \<Rightarrow> Returns ()
       | Inl f \<Rightarrow> config_raise (user_desc @ '': redaction.patterns: invalid custom pattern: ''
           @ (case f of WidthValueError m \<Rightarrow> m | RegexError r \<Rightarrow> lb_re_error lb r)))"

section \<open>Provenance and fingerprint\<close>

definition source_of ::
  "(string \<times> project_action) list \<Rightarrow> (string \<times> string) list \<Rightarrow> string list \<Rightarrow> string \<Rightarrow> config_source" where
  "source_of actions by_path user_paths path =
     (if get_or ActNone actions path \<in> {ActApplied, ActTightened} then SrcProject
      else if path \<in> set (keys by_path) then SrcEnv
      else if path \<in> set user_paths then SrcUser
      else SrcDefault)"

definition build_provenance ::
  "ziggy_config \<Rightarrow> tree option \<Rightarrow> (string \<times> string) list \<Rightarrow> (string \<times> project_action) list
   \<Rightarrow> (string \<times> provenance_entry) list" where
  "build_provenance c user_raw by_path actions =
     (let user_paths = (case user_raw of None \<Rightarrow> [] | Some t \<Rightarrow> keys (leaves [] t)) in
      map (\<lambda>(path, v). (path, \<lparr>pv_source = source_of actions by_path user_paths path,
          pv_action = get_or ActNone actions path\<rparr>)) (dump_leaves [] (dump_config c)))"

definition source_value :: "config_source \<Rightarrow> string" where
  "source_value s = (case s of SrcDefault \<Rightarrow> ''default'' | SrcUser \<Rightarrow> ''user'' | SrcEnv \<Rightarrow> ''env'' | SrcProject \<Rightarrow> ''project'')"

definition action_value :: "project_action \<Rightarrow> string" where
  "action_value a = (case a of ActNone \<Rightarrow> ''none'' | ActApplied \<Rightarrow> ''applied'' | ActTightened \<Rightarrow> ''tightened''
     | ActIgnored \<Rightarrow> ''ignored'' | ActRejected \<Rightarrow> ''rejected'')"

text \<open>\<open>sort_keys=True\<close>, and the escapes of \<open>ensure_ascii=True\<close>: such characters occur only in strings.\<close>

fun sorted_keys :: "pyval \<Rightarrow> pyval" where
  "sorted_keys (PDict d) = PDict (sort_key fst (map (\<lambda>(k, v). (k, sorted_keys v)) d))"
| "sorted_keys (PList l) = PList (map sorted_keys l)"
| "sorted_keys v = v"

definition ascii_only :: "string \<Rightarrow> string" where
  "ascii_only s = concat (map (\<lambda>c. if (of_char c :: nat) < 127 then [c]
     else [CHR 0x5C, CHR ''u'', CHR ''0'', CHR ''0''] @ hex2 c) s)"

definition fingerprint_of :: "library \<Rightarrow> ziggy_config \<Rightarrow> (string \<times> provenance_entry) list \<Rightarrow> string" where
  "fingerprint_of lb c provenance = lb_sha256 lb (ascii_only (json_dumps '','' '':'' (sorted_keys (PDict
     [(''config'', PDict (dump_config c)),
      (''provenance'', PDict (map (\<lambda>(path, e). (path, PDict [(''source'', PStr (source_value (pv_source e))),
         (''project_action'', PStr (action_value (pv_action e)))])) provenance))]))))"

section \<open>Loading\<close>

definition scope_desc :: "config_files \<Rightarrow> tree option \<Rightarrow> string" where
  "scope_desc fs user_raw = (case user_raw of Some _ \<Rightarrow> ''user config '' @ cf_user_name fs
     | None \<Rightarrow> ''user-scope configuration'')"

definition merge_project :: "library \<Rightarrow> config_files \<Rightarrow> tree option \<Rightarrow> tree \<Rightarrow> merging outcome" where
  "merge_project lb fs project_raw final =
     (case project_raw of
        None \<Rightarrow> Returns \<lparr>mg_final = final, mg_actions = [], mg_warnings = [], mg_problems = []\<rparr>
      | Some raw \<Rightarrow> apply_project lb raw (cf_project_name fs) final)"

definition resolved_from ::
  "library \<Rightarrow> tree option \<Rightarrow> (string \<times> string) list \<Rightarrow> merging \<Rightarrow> ziggy_config \<Rightarrow> resolved_config" where
  "resolved_from lb user_raw by_path m final =
     (let provenance = build_provenance final user_raw by_path (mg_actions m) in
      \<lparr>rv_config = final, rv_provenance = provenance, rv_fingerprint = fingerprint_of lb final provenance,
        rv_warnings = mg_warnings m\<rparr>)"

definition load_with ::
  "library \<Rightarrow> config_files \<Rightarrow> tree option \<Rightarrow> tree option \<Rightarrow> tree \<Rightarrow> (string \<times> string) list \<Rightarrow> resolved_config outcome" where
  "load_with lb fs user_raw project_raw overlay by_path =
     bindO (reject_secret_literals user_raw (cf_user_name fs) overlay by_path project_raw (cf_project_name fs)) (\<lambda>_.
     bindO (validate lb (deep_merge (case user_raw of Some t \<Rightarrow> t | None \<Rightarrow> [(''schema_version'', PInt 1)]) overlay)
              (scope_desc fs user_raw) by_path) (\<lambda>effective.
     bindO (merge_project lb fs project_raw (dump_config effective)) (\<lambda>m.
     bindO (validate lb (mg_final m) ''merged configuration'' by_path) (\<lambda>final.
     bindO (semantic_checks lb final (scope_desc fs user_raw)) (\<lambda>_.
     Returns (resolved_from lb user_raw by_path m final))))))"

definition load_config :: "library \<Rightarrow> config_files \<Rightarrow> resolved_config outcome" where
  "load_config lb fs =
     bindO (parse_toml ''user'' (cf_user_name fs) (cf_user fs)) (\<lambda>user_raw.
     bindO (parse_toml ''project'' (cf_project_name fs) (cf_project fs)) (\<lambda>project_raw.
     bindO (reject_user_scope_denials user_raw (cf_user_name fs)) (\<lambda>_.
     bindO (env_overrides lb (cf_env fs)) (\<lambda>(overlay, by_path).
     load_with lb fs user_raw project_raw overlay by_path))))"

text \<open>\<open>ResolvedConfig.describe\<close>: path, value, source and action of every field.\<close>

definition describe :: "resolved_config \<Rightarrow> (string \<times> pyval \<times> string \<times> string) list" where
  "describe r = (let ls = dump_leaves [] (dump_config (rv_config r)) in
     map (\<lambda>(path, e). (path, get_or PNone ls path, source_value (pv_source e), action_value (pv_action e)))
       (sort_key fst (rv_provenance r)))"

end
