(* ===== verification/Config_Strict.thy ===== *)
theory Config_Strict
  imports Config_Dump "HOL-Library.Monad_Syntax"
begin

text \<open>
  A validator without coercions: unknown keys are refused, absent keys take the declared default,
  every present value must have the declared type. It reads back every dump, so a dump determines
  its configuration and the hypotheses the loader's theorems put on pydantic can hold.
\<close>

section \<open>Decoders\<close>

type_synonym 'a dec = "pyval \<Rightarrow> 'a option"

fun dec_int :: "int dec" where "dec_int (PInt i) = Some i" | "dec_int _ = None"
fun dec_bool :: "bool dec" where "dec_bool (PBool b) = Some b" | "dec_bool _ = None"
fun dec_float :: "string dec" where "dec_float (PFloat f) = Some f" | "dec_float _ = None"
fun dec_str :: "string dec" where "dec_str (PStr s) = Some s" | "dec_str _ = None"

definition dec_opt :: "'a dec \<Rightarrow> 'a option dec" where
  "dec_opt d v = (if v = PNone then Some None else map_option Some (d v))"

definition dec_list :: "'a dec \<Rightarrow> 'a list dec" where
  "dec_list d v = (case v of PList xs \<Rightarrow> those (map d xs) | _ \<Rightarrow> None)"

definition dec_dict :: "'a dec \<Rightarrow> (string \<times> 'a) list dec" where
  "dec_dict d v = (case v of PDict kvs \<Rightarrow> those (map (\<lambda>(k, x). map_option (Pair k) (d x)) kvs) | _ \<Rightarrow> None)"

definition field_or :: "tree \<Rightarrow> string \<Rightarrow> 'a dec \<Rightarrow> 'a \<Rightarrow> 'a option" where
  "field_or t n d x = (case map_of t n of None \<Rightarrow> Some x | Some v \<Rightarrow> d v)"

definition required :: "tree \<Rightarrow> string \<Rightarrow> 'a dec \<Rightarrow> 'a option" where
  "required t n d = Option.bind (map_of t n) d"

definition table :: "string list \<Rightarrow> (tree \<Rightarrow> 'a option) \<Rightarrow> 'a dec" where
  "table ns d v = (case v of PDict t \<Rightarrow> if set (keys t) \<subseteq> set ns then d t else None | _ \<Rightarrow> None)"

named_theorems dec_dump "a decoder reads its dump back"

lemma dec_opt_dump [dec_dump]:
  "(\<And>a. x = Some a \<Longrightarrow> d (f a) = Some a \<and> f a \<noteq> PNone) \<Longrightarrow> dec_opt d (dump_opt f x) = Some x"
  by (cases x) (auto simp: dec_opt_def dump_opt_def)

lemma those_map: "(\<And>a. a \<in> set xs \<Longrightarrow> g a = Some (h a)) \<Longrightarrow> those (map g xs) = Some (map h xs)"
  by (induction xs) auto

lemma dec_list_dump [dec_dump]: "(\<And>a. a \<in> set xs \<Longrightarrow> d (f a) = Some a) \<Longrightarrow> dec_list d (dump_list f xs) = Some xs"
  using those_map[of xs "d \<circ> f" id] by (simp add: dec_list_def dump_list_def)

lemma dec_dict_dump:
  "(\<And>k a. (k, a) \<in> set xs \<Longrightarrow> d (f a) = Some (g a)) \<Longrightarrow>
   dec_dict d (dump_dict f xs) = Some (map (\<lambda>(k, a). (k, g a)) xs)"
  using those_map[of xs "(\<lambda>(k, x). map_option (Pair k) (d x)) \<circ> (\<lambda>(k, v). (k, f v))" "\<lambda>(k, a). (k, g a)"]
  by (auto simp: dec_dict_def dump_dict_def)

lemma dec_dict_same [dec_dump]:
  "(\<And>k a. (k, a) \<in> set xs \<Longrightarrow> d (f a) = Some a) \<Longrightarrow> dec_dict d (dump_dict f xs) = Some xs"
  using dec_dict_dump[of xs d f "\<lambda>a. a"] by simp

section \<open>The schema\<close>

definition dec_engine :: "engine_config dec" where
  "dec_engine = table [''max_workflow_steps'', ''max_prompt_bytes'', ''default_step_timeout_seconds'',
     ''default_workflow_timeout_seconds'', ''cancel_grace_seconds'', ''max_event_bytes_per_step'',
     ''max_artifact_bytes_per_run''] (\<lambda>t. do {
     a \<leftarrow> field_or t ''max_workflow_steps'' dec_int 16;
     b \<leftarrow> field_or t ''max_prompt_bytes'' dec_int 262144;
     c \<leftarrow> field_or t ''default_step_timeout_seconds'' dec_int 1800;
     d \<leftarrow> field_or t ''default_workflow_timeout_seconds'' dec_int 3600;
     e \<leftarrow> field_or t ''cancel_grace_seconds'' dec_float ''5.0'';
     f \<leftarrow> field_or t ''max_event_bytes_per_step'' dec_int (10 * 2 ^ 20);
     g \<leftarrow> field_or t ''max_artifact_bytes_per_run'' dec_int (50 * 2 ^ 20);
     Some \<lparr>max_workflow_steps = a, max_prompt_bytes = b, default_step_timeout_seconds = c,
       default_workflow_timeout_seconds = d, cancel_grace_seconds = e,
       max_event_bytes_per_step = f, max_artifact_bytes_per_run = g\<rparr> })"

definition dec_agent :: "agent_entry dec" where
  "dec_agent = table AGENT_FIELDS (\<lambda>t. do {
     a \<leftarrow> field_or t ''command'' (dec_opt dec_str) None;
     b \<leftarrow> field_or t ''args'' (dec_list dec_str) [];
     c \<leftarrow> field_or t ''env'' (dec_dict dec_str) [];
     d \<leftarrow> field_or t ''inherit_env'' (dec_list dec_str) [];
     e \<leftarrow> field_or t ''working_dir'' (dec_opt dec_str) None;
     f \<leftarrow> field_or t ''api_key_env'' (dec_opt dec_str) None;
     g \<leftarrow> field_or t ''provider'' (dec_opt dec_str) None;
     h \<leftarrow> field_or t ''orchestration_eligible'' dec_bool False;
     Some \<lparr>ae_fields_set = Some (keys t), ae_command = a, ae_args = b, ae_env = c, ae_inherit_env = d,
       ae_working_dir = e, ae_api_key_env = f, ae_provider = g, ae_orchestration_eligible = h\<rparr> })"

definition dec_rule :: "terminal_rule dec" where
  "dec_rule = table [''command'', ''args_prefix''] (\<lambda>t. do {
     a \<leftarrow> required t ''command'' dec_str;
     b \<leftarrow> field_or t ''args_prefix'' (dec_list dec_str) [];
     Some \<lparr>tr_command = a, tr_args_prefix = b\<rparr> })"

definition dec_policy :: "policy_profile dec" where
  "dec_policy = table [''terminal_allowlist'', ''deny_paths''] (\<lambda>t. do {
     a \<leftarrow> field_or t ''terminal_allowlist'' (dec_list dec_rule) [];
     b \<leftarrow> field_or t ''deny_paths'' (dec_list dec_str) [];
     Some \<lparr>pf_terminal_allowlist = a, pf_deny_paths = b\<rparr> })"

definition dec_denial_kind :: "denial_kind dec" where
  "dec_denial_kind v = (if v = PStr ''path'' then Some DenyPath
     else if v = PStr ''terminal'' then Some DenyTerminal else None)"

definition dec_denial :: "project_denial dec" where
  "dec_denial = table [''kind'', ''pattern''] (\<lambda>t. do {
     a \<leftarrow> required t ''kind'' dec_denial_kind;
     b \<leftarrow> required t ''pattern'' dec_str;
     Some \<lparr>pj_kind = a, pj_pattern = b\<rparr> })"

definition dec_permissions :: "permissions_config dec" where
  "dec_permissions = table [''default_policy'', ''profiles'', ''project_denials''] (\<lambda>t. do {
     a \<leftarrow> field_or t ''default_policy'' dec_str ''guarded'';
     b \<leftarrow> field_or t ''profiles'' (dec_dict dec_policy) [];
     c \<leftarrow> field_or t ''project_denials'' (dec_list dec_denial) [];
     Some \<lparr>pc_default_policy = a, pc_profiles = b, pc_project_denials = c\<rparr> })"

definition dec_results :: "results_config dec" where
  "dec_results = table [''persist'', ''capture'', ''retention_days'', ''auto_prune'', ''store_path''] (\<lambda>t. do {
     a \<leftarrow> field_or t ''persist'' dec_bool True;
     b \<leftarrow> field_or t ''capture'' (\<lambda>v. Option.bind (dec_str v) profile_of) Standard;
     c \<leftarrow> field_or t ''retention_days'' dec_int 30;
     d \<leftarrow> field_or t ''auto_prune'' dec_bool False;
     e \<leftarrow> field_or t ''store_path'' (dec_opt dec_str) None;
     if c < 1 then None else
     Some \<lparr>rc_persist = a, rc_capture = b, rc_retention_days = c, rc_auto_prune = d, rc_store_path = e\<rparr> })"

definition dec_trusted :: "trusted_workflow dec" where
  "dec_trusted = table [''path'', ''sha256''] (\<lambda>t. do {
     a \<leftarrow> required t ''path'' dec_str;
     b \<leftarrow> required t ''sha256'' dec_str;
     Some \<lparr>tw_path = a, tw_sha256 = b\<rparr> })"

definition dec_orchestrator :: "orchestrator_config dec" where
  "dec_orchestrator = table [''agent'', ''max_inline_steps'', ''auto_execute'', ''allow_uncontained_planner'',
     ''eligible_agents'', ''trusted_workflows''] (\<lambda>t. do {
     a \<leftarrow> field_or t ''agent'' (dec_opt dec_str) None;
     b \<leftarrow> field_or t ''max_inline_steps'' dec_int 8;
     c \<leftarrow> field_or t ''auto_execute'' dec_bool True;
     d \<leftarrow> field_or t ''allow_uncontained_planner'' dec_bool False;
     e \<leftarrow> field_or t ''eligible_agents'' (dec_list dec_str) [];
     f \<leftarrow> field_or t ''trusted_workflows'' (dec_list dec_trusted) [];
     Some \<lparr>oc_agent = a, oc_max_inline_steps = b, oc_auto_execute = c, oc_allow_uncontained_planner = d,
       oc_eligible_agents = e, oc_trusted_workflows = f\<rparr> })"

definition dec_pattern :: "custom_pattern_cfg dec" where
  "dec_pattern = table [''kind'', ''regex'', ''max_width''] (\<lambda>t. do {
     a \<leftarrow> required t ''kind'' dec_str;
     b \<leftarrow> required t ''regex'' dec_str;
     c \<leftarrow> field_or t ''max_width'' (dec_opt dec_int) None;
     Some \<lparr>cp_kind = a, cp_regex = b, cp_max_width = c\<rparr> })"

definition dec_redaction :: "redaction_config dec" where
  "dec_redaction = table [''extra_value_env_vars'', ''patterns''] (\<lambda>t. do {
     a \<leftarrow> field_or t ''extra_value_env_vars'' (dec_list dec_str) [];
     b \<leftarrow> field_or t ''patterns'' (dec_list dec_pattern) [];
     Some \<lparr>rd_extra_value_env_vars = a, rd_patterns = b\<rparr> })"

definition dec_workflows :: "workflows_config dec" where
  "dec_workflows = table [''default_name'', ''secret_variable_allowances''] (\<lambda>t. do {
     a \<leftarrow> field_or t ''default_name'' (dec_opt dec_str) None;
     b \<leftarrow> field_or t ''secret_variable_allowances'' (dec_dict (dec_list dec_str)) [];
     Some \<lparr>wc_default_name = a, wc_secret_variable_allowances = b\<rparr> })"

definition dec_server :: "server_config dec" where
  "dec_server = table [''max_active_runs''] (\<lambda>t.
     Option.bind (field_or t ''max_active_runs'' dec_int 1) (\<lambda>a. Some \<lparr>max_active_runs = a\<rparr>))"

definition dec_logs :: "logs_config dec" where
  "dec_logs = table [''retention_days''] (\<lambda>t.
     Option.bind (field_or t ''retention_days'' dec_int 30) (\<lambda>a. Some \<lparr>lg_retention_days = a\<rparr>))"

definition dec_egress :: "egress_config dec" where
  "dec_egress = table [''acknowledged_provider_sets''] (\<lambda>t.
     Option.bind (field_or t ''acknowledged_provider_sets'' (dec_list (dec_list dec_str)) [])
       (\<lambda>a. Some \<lparr>eg_acknowledged_provider_sets = a\<rparr>))"

definition strict_config :: "tree \<Rightarrow> ziggy_config option" where
  "strict_config tr = table (keys CONFIG_FIELDS) (\<lambda>t. do {
     v \<leftarrow> required t ''schema_version'' dec_int;
     a \<leftarrow> field_or t ''engine'' dec_engine default_engine_config;
     b \<leftarrow> field_or t ''agents'' (dec_dict dec_agent) [];
     c \<leftarrow> field_or t ''permissions'' dec_permissions default_permissions_config;
     d \<leftarrow> field_or t ''results'' dec_results default_results_config;
     e \<leftarrow> field_or t ''server'' dec_server \<lparr>max_active_runs = 1\<rparr>;
     f \<leftarrow> field_or t ''orchestrator'' dec_orchestrator default_orchestrator_config;
     g \<leftarrow> field_or t ''redaction'' dec_redaction \<lparr>rd_extra_value_env_vars = [], rd_patterns = []\<rparr>;
     h \<leftarrow> field_or t ''logs'' dec_logs \<lparr>lg_retention_days = 30\<rparr>;
     i \<leftarrow> field_or t ''workflows'' dec_workflows \<lparr>wc_default_name = None, wc_secret_variable_allowances = []\<rparr>;
     j \<leftarrow> field_or t ''egress'' dec_egress \<lparr>eg_acknowledged_provider_sets = []\<rparr>;
     if v \<noteq> 1 then None else
     Some \<lparr>schema_version = v, c_engine = a, c_agents = b, c_permissions = c, c_results = d, c_server = e,
       c_orchestrator = f, c_redaction = g, c_logs = h, c_workflows = i, c_egress = j\<rparr> }) (PDict tr)"

section \<open>Reading dumps back\<close>

lemmas dec_defs = table_def field_or_def required_def

lemma dec_engine_dump [dec_dump]: "dec_engine (dump_engine e) = Some e"
  by (cases e) (simp add: dec_engine_def dump_engine_def dec_defs)

lemma dec_agent_dump: "dec_agent (dump_agent a) = Some (a\<lparr>ae_fields_set := Some AGENT_FIELDS\<rparr>)"
  by (cases a) (simp add: dec_agent_def dump_agent_def dec_defs dec_dump AGENT_FIELDS_def)

lemma dec_rule_dump [dec_dump]: "dec_rule (dump_rule r) = Some r"
  by (cases r) (simp add: dec_rule_def dump_rule_def dec_defs dec_dump)

lemma dec_policy_dump [dec_dump]: "dec_policy (dump_policy p) = Some p"
  by (cases p) (simp add: dec_policy_def dump_policy_def dec_defs dec_dump)

lemma dec_denial_dump [dec_dump]: "dec_denial (dump_denial d) = Some d"
  by (cases d; cases "pj_kind d")
    (simp_all add: dec_denial_def dump_denial_def dec_defs dec_denial_kind_def denial_value_def)

lemma dec_permissions_dump [dec_dump]: "dec_permissions (dump_permissions p) = Some p"
  by (cases p) (simp add: dec_permissions_def dump_permissions_def dec_defs dec_dump)

lemma dec_results_dump [dec_dump]: "1 \<le> rc_retention_days r \<Longrightarrow> dec_results (dump_results r) = Some r"
  by (cases r) (simp add: dec_results_def dump_results_def dec_defs dec_dump)

lemma dec_trusted_dump [dec_dump]: "dec_trusted (dump_trusted t) = Some t"
  by (cases t) (simp add: dec_trusted_def dump_trusted_def dec_defs)

lemma dec_orchestrator_dump [dec_dump]: "dec_orchestrator (dump_orchestrator c) = Some c"
  by (cases c) (simp add: dec_orchestrator_def dump_orchestrator_def dec_defs dec_dump)

lemma dec_pattern_dump [dec_dump]: "dec_pattern (dump_pattern p) = Some p"
  by (cases p) (simp add: dec_pattern_def dump_pattern_def dec_defs dec_dump)

lemma dec_redaction_dump [dec_dump]: "dec_redaction (dump_redaction r) = Some r"
  by (cases r) (simp add: dec_redaction_def dump_redaction_def dec_defs dec_dump)

lemma dec_workflows_dump [dec_dump]: "dec_workflows (dump_workflows w) = Some w"
  by (cases w) (simp add: dec_workflows_def dump_workflows_def dec_defs dec_dump)

lemma strict_dump: "config_ok c \<Longrightarrow> strict_config (dump_config c) = Some (every_field_set c)"
  by (cases c) (simp add: strict_config_def dump_config_def dec_defs dec_dump CONFIG_FIELDS_def config_ok_def
      results_config_ok_def every_field_set_def dec_dict_dump[where g = "\<lambda>e. e\<lparr>ae_fields_set := Some AGENT_FIELDS\<rparr>"]
      dec_agent_dump dec_server_def dec_logs_def dec_egress_def)

lemma dec_results_ok: "dec_results v = Some r \<Longrightarrow> results_config_ok r"
  by (auto simp: dec_results_def table_def bind_eq_Some_conv results_config_ok_def
      split: pyval.splits if_splits)

lemma strict_ok:
  assumes "strict_config t = Some c"
  shows "config_ok c"
proof -
  have "field_or t ''results'' dec_results default_results_config = Some (c_results c) \<and> schema_version c = 1"
    using assms unfolding strict_config_def table_def
    by (auto simp: bind_eq_Some_conv split: if_splits)
  moreover have "results_config_ok default_results_config"
    by (simp add: results_config_ok_def default_results_config_def)
  ultimately show ?thesis
    by (auto simp: field_or_def config_ok_def split: option.splits dest: dec_results_ok)
qed

text \<open>A dump determines its configuration, but for which agent fields were set.\<close>

lemma dump_injective:
  assumes "config_ok c" and "config_ok c'" and "dump_config c = dump_config c'"
  shows "every_field_set c = every_field_set c'"
  using strict_dump[OF assms(1)] strict_dump[OF assms(2)] assms(3) by simp

end
