(* ===== verification/Config_Merge.thy ===== *)
theory Config_Merge
  imports Config_Loader Config_Strict
begin

text \<open>
  What a project file can do to the configuration: nine fields, and each only in the tightening
  direction. And what loading does to agent entries.
\<close>

section \<open>What is assumed of pydantic\<close>

text \<open>
  Validation accepts the dump of a valid configuration and gives it back, every field of an agent
  entry counting as set; and what it accepts satisfies the declared constraints.
\<close>

definition validates_dumps :: "library \<Rightarrow> bool" where
  "validates_dumps lb \<longleftrightarrow>
     (\<forall>c. config_ok c \<longrightarrow> lb_validate lb (dump_config c) = Inr (every_field_set c))
     \<and> (\<forall>t c. lb_validate lb t = Inr c \<longrightarrow> config_ok c)"

lemma validate_dump: "validates_dumps lb \<Longrightarrow> config_ok c \<Longrightarrow> validate lb (dump_config c) d b = Returns (every_field_set c)"
  by (simp add: validates_dumps_def validate_def)

lemma validate_ok: "validates_dumps lb \<Longrightarrow> validate lb t d b = Returns c \<Longrightarrow> config_ok c"
  by (auto simp: validates_dumps_def validate_def config_raise_def split: sum.splits)

section \<open>Reading and writing the nine paths\<close>

named_theorems path_get "the value of a dump at a path"
named_theorems path_set "a dump with the value at a path replaced"

lemmas path_defs = get_path_def set_path_def dump_config_def dump_engine_def dump_results_def
  dump_permissions_def dump_workflows_def

lemma get_steps [path_get]: "get_path (dump_config c) ''engine.max_workflow_steps'' = Some (PInt (max_workflow_steps (c_engine c)))"
  and get_prompt [path_get]: "get_path (dump_config c) ''engine.max_prompt_bytes'' = Some (PInt (max_prompt_bytes (c_engine c)))"
  and get_step_timeout [path_get]: "get_path (dump_config c) ''engine.default_step_timeout_seconds'' = Some (PInt (default_step_timeout_seconds (c_engine c)))"
  and get_wf_timeout [path_get]: "get_path (dump_config c) ''engine.default_workflow_timeout_seconds'' = Some (PInt (default_workflow_timeout_seconds (c_engine c)))"
  and get_events [path_get]: "get_path (dump_config c) ''engine.max_event_bytes_per_step'' = Some (PInt (max_event_bytes_per_step (c_engine c)))"
  and get_artifacts [path_get]: "get_path (dump_config c) ''engine.max_artifact_bytes_per_run'' = Some (PInt (max_artifact_bytes_per_run (c_engine c)))"
  and get_capture [path_get]: "get_path (dump_config c) CAPTURE_PATH = Some (PStr (profile_value (rc_capture (c_results c))))"
  and get_denials [path_get]: "get_path (dump_config c) DENIALS_PATH = Some (dump_list dump_denial (pc_project_denials (c_permissions c)))"
  and get_default_name [path_get]: "get_path (dump_config c) ''workflows.default_name'' = Some (dump_opt PStr (wc_default_name (c_workflows c)))"
  by (simp_all add: path_defs CAPTURE_PATH_def DENIALS_PATH_def)

definition with_engine :: "(engine_config \<Rightarrow> engine_config) \<Rightarrow> ziggy_config \<Rightarrow> ziggy_config" where
  "with_engine f c = c\<lparr>c_engine := f (c_engine c)\<rparr>"

lemma set_steps [path_set]: "set_path (dump_config c) ''engine.max_workflow_steps'' (PInt v) = Some (dump_config (with_engine (max_workflow_steps_update (\<lambda>_. v)) c))"
  and set_prompt [path_set]: "set_path (dump_config c) ''engine.max_prompt_bytes'' (PInt v) = Some (dump_config (with_engine (max_prompt_bytes_update (\<lambda>_. v)) c))"
  and set_step_timeout [path_set]: "set_path (dump_config c) ''engine.default_step_timeout_seconds'' (PInt v) = Some (dump_config (with_engine (default_step_timeout_seconds_update (\<lambda>_. v)) c))"
  and set_wf_timeout [path_set]: "set_path (dump_config c) ''engine.default_workflow_timeout_seconds'' (PInt v) = Some (dump_config (with_engine (default_workflow_timeout_seconds_update (\<lambda>_. v)) c))"
  and set_events [path_set]: "set_path (dump_config c) ''engine.max_event_bytes_per_step'' (PInt v) = Some (dump_config (with_engine (max_event_bytes_per_step_update (\<lambda>_. v)) c))"
  and set_artifacts [path_set]: "set_path (dump_config c) ''engine.max_artifact_bytes_per_run'' (PInt v) = Some (dump_config (with_engine (max_artifact_bytes_per_run_update (\<lambda>_. v)) c))"
  and set_capture [path_set]: "set_path (dump_config c) CAPTURE_PATH (PStr (profile_value p)) = Some (dump_config (c\<lparr>c_results := (c_results c)\<lparr>rc_capture := p\<rparr>\<rparr>))"
  and set_denials [path_set]: "set_path (dump_config c) DENIALS_PATH (dump_list dump_denial ds) = Some (dump_config (c\<lparr>c_permissions := (c_permissions c)\<lparr>pc_project_denials := ds\<rparr>\<rparr>))"
  and set_default_name [path_set]: "set_path (dump_config c) ''workflows.default_name'' (dump_opt PStr n) = Some (dump_config (c\<lparr>c_workflows := (c_workflows c)\<lparr>wc_default_name := n\<rparr>\<rparr>))"
  by (simp_all add: path_defs CAPTURE_PATH_def DENIALS_PATH_def with_engine_def)

section \<open>Tightening\<close>

definition engine_tightens :: "engine_config \<Rightarrow> engine_config \<Rightarrow> bool" where
  "engine_tightens u f \<longleftrightarrow> max_workflow_steps f \<le> max_workflow_steps u \<and> max_prompt_bytes f \<le> max_prompt_bytes u
     \<and> default_step_timeout_seconds f \<le> default_step_timeout_seconds u
     \<and> default_workflow_timeout_seconds f \<le> default_workflow_timeout_seconds u
     \<and> cancel_grace_seconds f = cancel_grace_seconds u
     \<and> max_event_bytes_per_step f \<le> max_event_bytes_per_step u
     \<and> max_artifact_bytes_per_run f \<le> max_artifact_bytes_per_run u"

definition only_tightens :: "ziggy_config \<Rightarrow> ziggy_config \<Rightarrow> bool" where
  "only_tightens u f \<longleftrightarrow>
     schema_version f = schema_version u \<and> c_agents f = c_agents u \<and> c_server f = c_server u
     \<and> c_orchestrator f = c_orchestrator u \<and> c_redaction f = c_redaction u \<and> c_logs f = c_logs u
     \<and> c_egress f = c_egress u
     \<and> engine_tightens (c_engine u) (c_engine f)
     \<and> c_results f = (c_results u)\<lparr>rc_capture := rc_capture (c_results f)\<rparr>
     \<and> rc_capture (c_results f) \<le> rc_capture (c_results u)
     \<and> c_permissions f = (c_permissions u)\<lparr>pc_project_denials := pc_project_denials (c_permissions f)\<rparr>
     \<and> c_workflows f = (c_workflows u)\<lparr>wc_default_name := wc_default_name (c_workflows f)\<rparr>"

lemma only_tightens_refl: "only_tightens c c"
  by (simp add: only_tightens_def engine_tightens_def)

lemma only_tightens_trans:
  assumes "only_tightens a b" and "only_tightens b c"
  shows "only_tightens a c"
proof -
  have "c_results c = (c_results a)\<lparr>rc_capture := rc_capture (c_results c)\<rparr>"
    using assms unfolding only_tightens_def by (metis (no_types, lifting) results_config.update_convs(2) results_config.surjective)
  moreover have "c_permissions c = (c_permissions a)\<lparr>pc_project_denials := pc_project_denials (c_permissions c)\<rparr>"
    using assms unfolding only_tightens_def by (metis (no_types, lifting) permissions_config.update_convs(3) permissions_config.surjective)
  moreover have "c_workflows c = (c_workflows a)\<lparr>wc_default_name := wc_default_name (c_workflows c)\<rparr>"
    using assms unfolding only_tightens_def by (metis (no_types, lifting) workflows_config.update_convs(1) workflows_config.surjective)
  ultimately show ?thesis using assms unfolding only_tightens_def engine_tightens_def by (auto dest: order_trans)
qed

definition PROJECT_PATHS :: "string list" where
  "PROJECT_PATHS = TIGHTEN_MIN_PATHS @ [CAPTURE_PATH, DENIALS_PATH] @ PROJECT_OK_PATHS"

text \<open>The first value allows less than the second.\<close>

definition stricter :: "pyval \<Rightarrow> pyval \<Rightarrow> bool" where
  "stricter v w \<longleftrightarrow> (\<exists>a b. v = PInt a \<and> w = PInt b \<and> a < b)
     \<or> (\<exists>p q. v = PStr (profile_value p) \<and> w = PStr (profile_value q) \<and> p < q)"

text \<open>User value, project value and effective value under each action.\<close>

definition fits :: "project_action \<Rightarrow> pyval option \<Rightarrow> pyval option \<Rightarrow> pyval option \<Rightarrow> bool" where
  "fits a u p f \<longleftrightarrow> (case a of
     ActNone \<Rightarrow> f = u
   | ActApplied \<Rightarrow> f = p
   | ActTightened \<Rightarrow> f = p \<and> (\<exists>v w. p = Some v \<and> u = Some w \<and> stricter v w)
   | ActIgnored \<Rightarrow> f = u \<and> p = u
   | ActRejected \<Rightarrow> f = u \<and> (\<exists>v w. u = Some v \<and> p = Some w \<and> stricter v w))"

definition action_at :: "merging \<Rightarrow> string \<Rightarrow> project_action" where
  "action_at m path = get_or ActNone (mg_actions m) path"

definition step_ok :: "ziggy_config \<Rightarrow> string \<Rightarrow> ziggy_config \<Rightarrow> merging \<Rightarrow> merging \<Rightarrow> ziggy_config \<Rightarrow> bool" where
  "step_ok pc q c m m' c' \<longleftrightarrow> mg_final m' = dump_config c' \<and> (config_ok c \<longrightarrow> config_ok c') \<and> only_tightens c c'
     \<and> (\<forall>p \<in> set PROJECT_PATHS. p \<noteq> q \<longrightarrow> get_path (dump_config c') p = get_path (dump_config c) p)
     \<and> (\<forall>p. p \<noteq> q \<longrightarrow> action_at m' p = action_at m p)
     \<and> (action_at m q = ActNone \<longrightarrow> fits (action_at m' q) (get_path (dump_config c) q) (get_path (dump_config pc) q)
            (get_path (dump_config c') q))
     \<and> (action_at m' q \<noteq> ActNone \<or> mg_problems m' \<noteq> []) \<and> (mg_problems m \<noteq> [] \<longrightarrow> mg_problems m' \<noteq> [])"

lemma step_okI:
  assumes "mg_final m' = dump_config c'" and "config_ok c \<Longrightarrow> config_ok c'" and "only_tightens c c'"
    and "\<And>p. p \<in> set PROJECT_PATHS \<Longrightarrow> p \<noteq> q \<Longrightarrow> get_path (dump_config c') p = get_path (dump_config c) p"
    and "mg_actions m' = AList.update q a (mg_actions m)" and "a \<noteq> ActNone"
    and "fits a (get_path (dump_config c) q) (get_path (dump_config pc) q) (get_path (dump_config c') q)"
    and "mg_problems m' = mg_problems m"
  shows "step_ok pc q c m m' c'"
  using assms by (simp add: step_ok_def action_at_def)

lemma step_problem:
  assumes "mg_final m = dump_config c"
  shows "step_ok pc q c m (m\<lparr>mg_problems := mg_problems m @ [e]\<rparr>) c"
  using assms by (simp add: step_ok_def action_at_def only_tightens_refl fits_def)

text \<open>One of the six ceilings.\<close>

lemma tighten_min_step:
  assumes m: "mg_final m = dump_config c"
    and get: "\<And>c. get_path (dump_config c) q = Some (PInt (g c))"
    and upd: "\<And>v c. set_path (dump_config c) q (PInt v) = Some (dump_config (u v c))"
    and gu: "\<And>v. g (u v c) = v"
    and tight: "\<And>v. v \<le> g c \<Longrightarrow> only_tightens c (u v c)"
    and ok: "\<And>v. config_ok (u v c) = config_ok c"
    and rest: "\<And>p v. p \<in> set PROJECT_PATHS \<Longrightarrow> p \<noteq> q \<Longrightarrow> get_path (dump_config (u v c)) p = get_path (dump_config c) p"
  shows "\<exists>m' c'. tighten_min q (PInt (g pc)) (PInt (g c)) m = Returns m' \<and> step_ok pc q c m m' c'"
proof (cases "g pc < g c")
  case True
  let ?m' = "m\<lparr>mg_final := dump_config (u (g pc) c), mg_actions := AList.update q ActTightened (mg_actions m)\<rparr>"
  have "step_ok pc q c m ?m' (u (g pc) c)"
    using True by (intro step_okI[where a = ActTightened]) (auto simp: rest ok tight get gu fits_def stricter_def)
  with True m show ?thesis by (auto simp: tighten_min_def merged_def upd)
next
  case False
  show ?thesis
  proof (cases "g pc = g c")
    case True
    have "step_ok pc q c m (m\<lparr>mg_actions := AList.update q ActIgnored (mg_actions m)\<rparr>) c"
      using True by (intro step_okI[where a = ActIgnored]) (auto simp: m get only_tightens_refl fits_def)
    with True show ?thesis by (auto simp: tighten_min_def)
  next
    case noteq: False
    with False step_problem[OF m] show ?thesis by (auto simp: tighten_min_def)
  qed
qed

text \<open>Each ceiling with its field and update.\<close>

definition ceiling_fields :: "((engine_config \<Rightarrow> int) \<times> (int \<Rightarrow> engine_config \<Rightarrow> engine_config)) list" where
  "ceiling_fields =
     [(max_workflow_steps, \<lambda>v. max_workflow_steps_update (\<lambda>_. v)),
      (max_prompt_bytes, \<lambda>v. max_prompt_bytes_update (\<lambda>_. v)),
      (default_step_timeout_seconds, \<lambda>v. default_step_timeout_seconds_update (\<lambda>_. v)),
      (default_workflow_timeout_seconds, \<lambda>v. default_workflow_timeout_seconds_update (\<lambda>_. v)),
      (max_event_bytes_per_step, \<lambda>v. max_event_bytes_per_step_update (\<lambda>_. v)),
      (max_artifact_bytes_per_run, \<lambda>v. max_artifact_bytes_per_run_update (\<lambda>_. v))]"

definition ceilings :: "(string \<times> (engine_config \<Rightarrow> int) \<times> (int \<Rightarrow> engine_config \<Rightarrow> engine_config)) list" where
  "ceilings = zip TIGHTEN_MIN_PATHS ceiling_fields"

lemma ceiling_for:
  assumes "q \<in> set TIGHTEN_MIN_PATHS"
  obtains g u where "(q, g, u) \<in> set ceilings"
proof -
  have "length TIGHTEN_MIN_PATHS = length ceiling_fields"
    by (simp add: TIGHTEN_MIN_PATHS_def ceiling_fields_def)
  from in_set_impl_in_set_zip1[OF this assms] that show thesis
    unfolding ceilings_def by (metis surj_pair)
qed

lemma ceiling_get:
  assumes "(q, g, u) \<in> set ceilings"
  shows "get_path (dump_config c) q = Some (PInt (g (c_engine c)))"
proof -
  have "list_all (\<lambda>(q, g, u). get_path (dump_config c) q = Some (PInt (g (c_engine c)))) ceilings"
    unfolding ceilings_def ceiling_fields_def TIGHTEN_MIN_PATHS_def
    by (simp only: zip_Cons_Cons zip_Nil list.pred_inject prod.case path_get simp_thms)
  with assms show ?thesis by (auto simp: list_all_iff)
qed

lemma ceiling_set:
  assumes "(q, g, u) \<in> set ceilings"
  shows "set_path (dump_config c) q (PInt v) = Some (dump_config (with_engine (u v) c))"
proof -
  have "list_all (\<lambda>(q, g, u). set_path (dump_config c) q (PInt v) = Some (dump_config (with_engine (u v) c))) ceilings"
    unfolding ceilings_def ceiling_fields_def TIGHTEN_MIN_PATHS_def
    by (simp only: zip_Cons_Cons zip_Nil list.pred_inject prod.case path_set simp_thms)
  with assms show ?thesis by (auto simp: list_all_iff)
qed

lemma ceiling_tightens:
  assumes "(q, g, u) \<in> set ceilings"
  shows "g (u v e) = v \<and> (v \<le> g (c_engine c) \<longrightarrow> only_tightens c (with_engine (u v) c))"
proof -
  have "(g, u) \<in> set ceiling_fields" using assms by (auto simp: ceilings_def dest: set_zip_rightD)
  then have "g (u v e) = v \<and> (v \<le> g (c_engine c) \<longrightarrow> engine_tightens (c_engine c) (u v (c_engine c)))"
    unfolding ceiling_fields_def by (auto simp: engine_tightens_def)
  moreover have "only_tightens c (with_engine (u v) c) = engine_tightens (c_engine c) (u v (c_engine c))"
    by (simp add: only_tightens_def with_engine_def)
  ultimately show ?thesis by simp
qed

lemma ceiling_apart:
  assumes "(q, g, u) \<in> set ceilings" and "(p, g', u') \<in> set ceilings"
  shows "p = q \<or> g' (u v e) = g' e"
proof -
  have "list_all (\<lambda>(q, g, u). list_all (\<lambda>(p, g', u'). p = q \<or> g' (u v e) = g' e) (zip ns ceiling_fields)) (zip ns ceiling_fields)"
    if "length ns = 6" for ns
    using that by (auto simp: ceiling_fields_def numeral_eq_Suc length_Suc_conv)
  from this[of TIGHTEN_MIN_PATHS] assms show ?thesis
    by (auto simp: list_all_iff ceilings_def TIGHTEN_MIN_PATHS_def)
qed

lemma ceiling_rest:
  assumes l: "(q, g, u) \<in> set ceilings" and p: "p \<in> set PROJECT_PATHS" and ne: "p \<noteq> q"
  shows "get_path (dump_config (with_engine (u v) c)) p = get_path (dump_config c) p"
proof (cases "p \<in> set TIGHTEN_MIN_PATHS")
  case True
  then obtain g' u' where l': "(p, g', u') \<in> set ceilings" by (rule ceiling_for)
  have "g' (u v (c_engine c)) = g' (c_engine c)" using ceiling_apart[OF l l'] ne by blast
  then show ?thesis using ceiling_get[OF l'] by (simp add: with_engine_def)
next
  case False
  then have "p = CAPTURE_PATH \<or> p = DENIALS_PATH \<or> p = ''workflows.default_name''"
    using p by (auto simp: PROJECT_PATHS_def PROJECT_OK_PATHS_def)
  then show ?thesis by (elim disjE) (simp_all add: path_get with_engine_def)
qed

text \<open>The other three settings leave every other path alone.\<close>

lemma project_path_cases:
  assumes "p \<in> set PROJECT_PATHS"
  obtains (ceiling) g u where "(p, g, u) \<in> set ceilings" | (capture) "p = CAPTURE_PATH"
    | (denials) "p = DENIALS_PATH" | (name) "p = ''workflows.default_name''"
proof -
  have "p \<in> set TIGHTEN_MIN_PATHS \<or> p = CAPTURE_PATH \<or> p = DENIALS_PATH \<or> p = ''workflows.default_name''"
    using assms by (auto simp: PROJECT_PATHS_def PROJECT_OK_PATHS_def)
  then show thesis using that ceiling_for by blast
qed

lemma other_paths:
  assumes "p \<in> set PROJECT_PATHS"
  shows "p \<noteq> CAPTURE_PATH \<Longrightarrow> get_path (dump_config (c\<lparr>c_results := (c_results c)\<lparr>rc_capture := x\<rparr>\<rparr>)) p = get_path (dump_config c) p"
    and "p \<noteq> DENIALS_PATH \<Longrightarrow> get_path (dump_config (c\<lparr>c_permissions := (c_permissions c)\<lparr>pc_project_denials := ds\<rparr>\<rparr>)) p = get_path (dump_config c) p"
    and "p \<noteq> ''workflows.default_name'' \<Longrightarrow> get_path (dump_config (c\<lparr>c_workflows := (c_workflows c)\<lparr>wc_default_name := n\<rparr>\<rparr>)) p = get_path (dump_config c) p"
  using assms by (cases rule: project_path_cases; simp add: ceiling_get path_get)+

lemma merge_path_step:
  assumes m: "mg_final m = dump_config c" and q: "q \<in> set PROJECT_PATHS"
  shows "\<exists>m' c'. merge_path desc (dump_config pc) q m = Returns m' \<and> step_ok pc q c m m' c'"
proof -
  have caps: "CAPTURE_PATH \<notin> set TIGHTEN_MIN_PATHS" "DENIALS_PATH \<notin> set TIGHTEN_MIN_PATHS" "DENIALS_PATH \<noteq> CAPTURE_PATH"
    by (simp_all add: CAPTURE_PATH_def DENIALS_PATH_def TIGHTEN_MIN_PATHS_def)
  consider (tight) "q \<in> set TIGHTEN_MIN_PATHS" | (capture) "q = CAPTURE_PATH" | (denials) "q = DENIALS_PATH"
    | (name) "q = ''workflows.default_name''"
    using q by (auto simp: PROJECT_PATHS_def PROJECT_OK_PATHS_def)
  then show ?thesis
  proof cases
    case tight
    then obtain g u where l: "(q, g, u) \<in> set ceilings" by (rule ceiling_for)
    have "merge_path desc (dump_config pc) q m = tighten_min q (PInt (g (c_engine pc))) (PInt (g (c_engine c))) m"
      using tight by (simp add: merge_path_def merge_rule_for_def m ceiling_get[OF l])
    then show ?thesis
      using tighten_min_step[OF m, where g = "\<lambda>c. g (c_engine c)" and u = "\<lambda>v. with_engine (u v)" and q = q and pc = pc]
        ceiling_get[OF l] ceiling_set[OF l] ceiling_tightens[OF l] ceiling_rest[OF l]
      by (simp add: with_engine_def config_ok_def)
  next
    case capture
    let ?p = "rc_capture (c_results pc)" and ?u = "rc_capture (c_results c)"
    let ?c = "c\<lparr>c_results := (c_results c)\<lparr>rc_capture := ?p\<rparr>\<rparr>"
    have e: "merge_path desc (dump_config pc) q m
        = tighten_capture desc q (PStr (profile_value ?p)) (PStr (profile_value ?u)) m"
      using caps by (simp add: capture merge_path_def merge_rule_for_def m path_get)
    have rest: "get_path (dump_config ?c) p = get_path (dump_config c) p" if "p \<in> set PROJECT_PATHS" "p \<noteq> q" for p
      using that by (simp add: capture other_paths)
    consider "?p < ?u" | "?p = ?u" | "?u < ?p" by fastforce
    then show ?thesis
    proof cases
      case 1
      let ?m' = "m\<lparr>mg_final := dump_config ?c, mg_actions := AList.update q ActTightened (mg_actions m)\<rparr>"
      have "step_ok pc q c m ?m' ?c"
        using 1 by (intro step_okI[where a = ActTightened])
          (auto simp: rest capture path_get fits_def stricter_def only_tightens_def engine_tightens_def config_ok_def results_config_ok_def)
      with 1 show ?thesis unfolding e
        by (auto simp: tighten_capture_def merged_def capture m path_set less_capture_profile_def)
    next
      case 2
      have "step_ok pc q c m (m\<lparr>mg_actions := AList.update q ActIgnored (mg_actions m)\<rparr>) c"
        using 2 by (intro step_okI[where a = ActIgnored]) (auto simp: m capture path_get fits_def only_tightens_refl)
      with 2 show ?thesis unfolding e by (auto simp: tighten_capture_def)
    next
      case 3
      have "step_ok pc q c m (m\<lparr>mg_actions := AList.update q ActRejected (mg_actions m), mg_warnings := mg_warnings m @ [capture_rejected desc ?p ?u]\<rparr>) c"
        using 3 by (intro step_okI[where a = ActRejected]) (auto simp: m capture path_get fits_def stricter_def only_tightens_refl)
      with 3 show ?thesis unfolding e by (auto simp: tighten_capture_def less_capture_profile_def)
    qed
  next
    case denials
    let ?c = "c\<lparr>c_permissions := (c_permissions c)\<lparr>pc_project_denials := pc_project_denials (c_permissions pc)\<rparr>\<rparr>"
    let ?m' = "m\<lparr>mg_final := dump_config ?c, mg_actions := AList.update q ActApplied (mg_actions m)\<rparr>"
    have "step_ok pc q c m ?m' ?c"
      by (intro step_okI[where a = ActApplied])
        (auto simp: denials path_get other_paths fits_def only_tightens_def engine_tightens_def config_ok_def)
    then show ?thesis
      using caps by (auto simp: denials merge_path_def merge_rule_for_def m path_get path_set merged_def)
  next
    case name
    let ?c = "c\<lparr>c_workflows := (c_workflows c)\<lparr>wc_default_name := wc_default_name (c_workflows pc)\<rparr>\<rparr>"
    let ?m' = "m\<lparr>mg_final := dump_config ?c, mg_actions := AList.update q ActApplied (mg_actions m)\<rparr>"
    have "step_ok pc q c m ?m' ?c"
      by (intro step_okI[where a = ActApplied])
        (auto simp: name path_get other_paths fits_def only_tightens_def engine_tightens_def config_ok_def)
    moreover have "merge_rule_for ''workflows.default_name'' = ProjectOk" by code_simp
    ultimately show ?thesis
      by (auto simp: name merge_path_def m path_get path_set merged_def)
  qed
qed

definition merged_ok :: "ziggy_config \<Rightarrow> string list \<Rightarrow> ziggy_config \<Rightarrow> merging \<Rightarrow> merging \<Rightarrow> ziggy_config \<Rightarrow> bool" where
  "merged_ok pc paths c m m' c' \<longleftrightarrow> mg_final m' = dump_config c' \<and> (config_ok c \<longrightarrow> config_ok c') \<and> only_tightens c c'
     \<and> (\<forall>p \<in> set PROJECT_PATHS. p \<notin> set paths \<longrightarrow> get_path (dump_config c') p = get_path (dump_config c) p)
     \<and> (\<forall>p. p \<notin> set paths \<longrightarrow> action_at m' p = action_at m p)
     \<and> (\<forall>p \<in> set paths. action_at m p = ActNone \<longrightarrow> fits (action_at m' p) (get_path (dump_config c) p)
            (get_path (dump_config pc) p) (get_path (dump_config c') p))
     \<and> (mg_problems m' = [] \<longrightarrow> mg_problems m = [] \<and> (\<forall>p \<in> set paths. action_at m' p \<noteq> ActNone))"

lemma merge_paths_ok:
  assumes "distinct paths" and "set paths \<subseteq> set PROJECT_PATHS" and "mg_final m = dump_config c"
  shows "\<exists>m' c'. merge_paths desc (dump_config pc) paths m = Returns m' \<and> merged_ok pc paths c m m' c'"
  using assms
proof (induction paths arbitrary: m c)
  case Nil
  then show ?case by (auto simp: merged_ok_def only_tightens_refl)
next
  case (Cons q paths)
  obtain m1 c1 where m1: "merge_path desc (dump_config pc) q m = Returns m1" and s: "step_ok pc q c m m1 c1"
    using merge_path_step[OF Cons.prems(3)] Cons.prems(2) by fastforce
  have "mg_final m1 = dump_config c1" using s by (simp add: step_ok_def)
  then obtain m' c' where m': "merge_paths desc (dump_config pc) paths m1 = Returns m'" and t: "merged_ok pc paths c1 m1 m' c'"
    using Cons.IH[of m1 c1] Cons.prems by auto
  have apart: "p \<noteq> q" if "p \<in> set paths" for p using Cons.prems(1) that by auto
  have q: "q \<in> set PROJECT_PATHS" "q \<notin> set paths" using Cons.prems by auto
  have before: "get_path (dump_config c1) p = get_path (dump_config c) p" "action_at m1 p = action_at m p"
    if "p \<in> set paths" for p
    using s apart[OF that] Cons.prems(2) that by (auto simp: step_ok_def)
  have fit: "fits (action_at m' p) (get_path (dump_config c) p) (get_path (dump_config pc) p) (get_path (dump_config c') p)"
    if "p \<in> set (q # paths)" "action_at m p = ActNone" for p
  proof (cases "p = q")
    case True
    with s t q that show ?thesis by (auto simp: step_ok_def merged_ok_def)
  next
    case False
    with that have "p \<in> set paths" by simp
    with t before that show ?thesis by (auto simp: merged_ok_def)
  qed
  have "only_tightens c c'" using s t only_tightens_trans by (auto simp: step_ok_def merged_ok_def)
  moreover have "mg_problems m = [] \<and> (\<forall>p \<in> set (q # paths). action_at m' p \<noteq> ActNone)" if "mg_problems m' = []"
    using s t q that by (auto simp: step_ok_def merged_ok_def)
  ultimately have "merged_ok pc (q # paths) c m m' c'"
    using s t fit unfolding merged_ok_def step_ok_def by auto
  with m1 m' show ?case by auto
qed

section \<open>The project file\<close>

lemma distinct_dict_update: "distinct (keys out) \<Longrightarrow> distinct (keys (dict_update out new))"
  unfolding dict_update_def by (induction new arbitrary: out) (auto intro: distinct_update)

lemma distinct_leaves: "distinct (keys (leaves pre t))"
proof (induction pre t rule: leaves.induct)
  case (1 pre)
  show ?case by simp
next
  case (2 pre k v t)
  have "distinct (keys (case v of PDict [] \<Rightarrow> [] | PDict d \<Rightarrow> leaves (pre @ k @ ''.'') d | _ \<Rightarrow> [(pre @ k, v)]))"
    using 2(1) by (cases v) (auto split: list.split)
  then show ?case unfolding leaves.simps by (rule distinct_dict_update)
qed

lemma path_problem_Nil: "path_problem p = [] \<Longrightarrow> p \<in> set PROJECT_PATHS"
  by (auto simp: path_problem_def merge_rule_for_def PROJECT_PATHS_def split: if_splits)

abbreviation merging_from :: "ziggy_config \<Rightarrow> merging" where
  "merging_from c \<equiv> \<lparr>mg_final = dump_config c, mg_actions = [], mg_warnings = [], mg_problems = []\<rparr>"

lemma apply_project_ok:
  assumes "apply_project lb raw file (dump_config c) = Returns m'"
  obtains pc c' where "lb_validate lb raw = Inr pc" and "set (keys (project_leaves raw)) \<subseteq> set PROJECT_PATHS"
    and "merged_ok pc (sort (keys (project_leaves raw))) c (merging_from c) m' c'" and "mg_problems m' = []"
proof -
  define desc where "desc = project_desc file"
  let ?paths = "sort (keys (project_leaves raw))"
  have "\<exists>pc. concat (map path_problem ?paths) = [] \<and> validate lb raw desc [] = Returns pc
      \<and> merge_paths desc (dump_config pc) ?paths (merging_from c) = Returns m' \<and> mg_problems m' = []"
    using assms by (auto simp: apply_project_def Let_def bindO_eq_Returns problems_at_Returns config_raise_def desc_def[symmetric]
        split: if_splits)
  then obtain pc where p: "concat (map path_problem ?paths) = []" "validate lb raw desc [] = Returns pc"
      "merge_paths desc (dump_config pc) ?paths (merging_from c) = Returns m'" "mg_problems m' = []"
    by blast
  have sub: "set ?paths \<subseteq> set PROJECT_PATHS" using p(1) by (auto intro: path_problem_Nil)
  have "distinct ?paths" by (simp add: project_leaves_def distinct_leaves)
  from merge_paths_ok[OF this sub, of "merging_from c" c desc pc] p(3)
  obtain c' where "merged_ok pc ?paths c (merging_from c) m' c'" by auto
  moreover have "lb_validate lb raw = Inr pc" using p(2) by (auto simp: validate_def config_raise_def split: sum.splits)
  ultimately show thesis using that sub p(4) by simp
qed

section \<open>Loading\<close>

text \<open>A successful load, step by step.\<close>

definition loads ::
  "library \<Rightarrow> config_files \<Rightarrow> tree option \<Rightarrow> tree option \<Rightarrow> (string \<times> string) list \<Rightarrow> ziggy_config \<Rightarrow> merging
   \<Rightarrow> ziggy_config \<Rightarrow> bool" where
  "loads lb fs user_raw project_raw by_path effective m final \<longleftrightarrow>
     parse_toml ''user'' (cf_user_name fs) (cf_user fs) = Returns user_raw
     \<and> parse_toml ''project'' (cf_project_name fs) (cf_project fs) = Returns project_raw
     \<and> reject_user_scope_denials user_raw (cf_user_name fs) = Returns ()
     \<and> (\<exists>overlay. env_overrides lb (cf_env fs) = Returns (overlay, by_path)
          \<and> reject_secret_literals user_raw (cf_user_name fs) overlay by_path project_raw (cf_project_name fs) = Returns ()
          \<and> validate lb (deep_merge (case user_raw of Some t \<Rightarrow> t | None \<Rightarrow> [(''schema_version'', PInt 1)]) overlay)
              (scope_desc fs user_raw) by_path = Returns effective)
     \<and> merge_project lb fs project_raw (dump_config effective) = Returns m
     \<and> validate lb (mg_final m) ''merged configuration'' by_path = Returns final
     \<and> semantic_checks lb final (scope_desc fs user_raw) = Returns ()"

lemma ex_unit: "(\<exists>x :: unit. P x) \<longleftrightarrow> P ()"
  by auto

lemma load_config_Returns:
  "load_config lb fs = Returns r \<longleftrightarrow>
   (\<exists>user_raw project_raw by_path effective m final. loads lb fs user_raw project_raw by_path effective m final
      \<and> r = resolved_from lb user_raw by_path m final)"
proof -
  have with_overlay: "load_with lb fs user_raw project_raw overlay by_path = Returns r \<longleftrightarrow>
     reject_secret_literals user_raw (cf_user_name fs) overlay by_path project_raw (cf_project_name fs) = Returns ()
     \<and> (\<exists>effective m final.
          validate lb (deep_merge (case user_raw of Some t \<Rightarrow> t | None \<Rightarrow> [(''schema_version'', PInt 1)]) overlay)
              (scope_desc fs user_raw) by_path = Returns effective
        \<and> merge_project lb fs project_raw (dump_config effective) = Returns m
        \<and> validate lb (mg_final m) ''merged configuration'' by_path = Returns final
        \<and> semantic_checks lb final (scope_desc fs user_raw) = Returns ()
        \<and> r = resolved_from lb user_raw by_path m final)" for user_raw project_raw overlay by_path
    unfolding load_with_def bindO_eq_Returns outcome.inject ex_unit eq_commute[of _ r] by blast
  show ?thesis
    unfolding load_config_def bindO_eq_Returns split_paired_Ex prod.case with_overlay loads_def ex_unit by blast
qed

end
