(* ===== verification/Config_Authority.thy ===== *)
theory Config_Authority
  imports Config_Merge
begin

text \<open>
  The properties of a load: a project file only tightens, provenance tells what it did to each
  field, no loaded text holds a secret the built-in patterns know, and how loading and the agent
  registry compose.
\<close>

section \<open>With and without the project file\<close>

lemma every_field_set_tightens: "only_tightens c c' \<Longrightarrow> only_tightens (every_field_set c) (every_field_set c')"
  by (simp add: only_tightens_def every_field_set_def)

lemma semantic_checks_same:
  assumes "only_tightens c c'"
  shows "semantic_checks lb c' d = semantic_checks lb c d"
proof -
  have "pc_default_policy (c_permissions c') = pc_default_policy (c_permissions c)"
      "pc_profiles (c_permissions c') = pc_profiles (c_permissions c)"
    using assms unfolding only_tightens_def
    by (metis permissions_config.select_convs(1,2) permissions_config.surjective permissions_config.update_convs(3))+
  then have "semantic_problems c' = semantic_problems c"
    using assms by (simp add: semantic_problems_def only_tightens_def)
  then show ?thesis using assms by (simp add: semantic_checks_def only_tightens_def)
qed

lemma secrets_without_project:
  "reject_secret_literals u uf ov bp pr pf = Returns () \<Longrightarrow> reject_secret_literals u uf ov bp None pf = Returns ()"
  unfolding reject_secret_literals_def config_raise_def Let_def
  by (cases "scan_file ''user'' uf u = []") (simp_all add: scan_file_def[where raw = None] split: if_splits)

lemma scope_desc_project [simp]: "scope_desc (fs\<lparr>cf_project := x\<rparr>) u = scope_desc fs u"
  by (simp add: scope_desc_def split: option.split)

text \<open>The load with the project file next to the load without it.\<close>

lemma loads_without_project:
  assumes lb: "validates_dumps lb" and l: "loads lb fs user_raw project_raw by_path effective m final"
  obtains c' where "loads lb (fs\<lparr>cf_project := NoFile\<rparr>) user_raw None by_path effective (merging_from effective) (every_field_set effective)"
    and "final = every_field_set c'" and "only_tightens effective c'"
    and "\<And>raw. project_raw = Some raw \<Longrightarrow> set (keys (project_leaves raw)) \<subseteq> set PROJECT_PATHS
           \<and> (\<exists>pc. lb_validate lb raw = Inr pc \<and> mg_problems m = []
                \<and> merged_ok pc (sort (keys (project_leaves raw))) effective (merging_from effective) m c')"
    and "project_raw = None \<Longrightarrow> c' = effective \<and> m = merging_from effective"
proof -
  have eff: "config_ok effective" using l validate_ok[OF lb] by (auto simp: loads_def)
  obtain c' where c': "mg_final m = dump_config c'" "config_ok c'" "only_tightens effective c'"
    and some: "\<And>raw. project_raw = Some raw \<Longrightarrow> set (keys (project_leaves raw)) \<subseteq> set PROJECT_PATHS
           \<and> (\<exists>pc. lb_validate lb raw = Inr pc \<and> mg_problems m = []
                \<and> merged_ok pc (sort (keys (project_leaves raw))) effective (merging_from effective) m c')"
    and none: "project_raw = None \<Longrightarrow> c' = effective \<and> m = merging_from effective"
  proof (cases project_raw)
    case None
    then have "m = merging_from effective" using l by (simp add: loads_def merge_project_def)
    with None eff that show thesis by (simp add: only_tightens_refl)
  next
    case (Some raw)
    then have "apply_project lb raw (cf_project_name fs) (dump_config effective) = Returns m"
      using l by (simp add: loads_def merge_project_def)
    then obtain pc c' where p: "lb_validate lb raw = Inr pc" "set (keys (project_leaves raw)) \<subseteq> set PROJECT_PATHS"
      "merged_ok pc (sort (keys (project_leaves raw))) effective (merging_from effective) m c'" "mg_problems m = []"
      by (rule apply_project_ok)
    with eff Some that[of c'] show thesis by (auto simp: merged_ok_def)
  qed
  have final: "final = every_field_set c'"
    using l c'(1) validate_dump[OF lb c'(2)] by (simp add: loads_def)
  have "semantic_checks lb (every_field_set effective) (scope_desc fs user_raw) = Returns ()"
    using l final semantic_checks_same[OF every_field_set_tightens[OF c'(3)]] by (simp add: loads_def)
  then have "loads lb (fs\<lparr>cf_project := NoFile\<rparr>) user_raw None by_path effective (merging_from effective) (every_field_set effective)"
    using l validate_dump[OF lb eff] secrets_without_project
    unfolding loads_def by (fastforce simp: parse_toml_def[where f = NoFile] merge_project_def[where project_raw = None])
  with that final c'(3) some none show thesis by blast
qed

text \<open>
  C2: a project file can only tighten. If a configuration loads with a project file, then it also
  loads without it; the project file sets no field outside the nine paths the merge rules allow;
  and the result differs from the one without it only so: the six ceilings and the capture
  profile may be lower, the project's denials and the default workflow name may be set. Agents,
  policies, trust lists, egress acknowledgements, retention, storage and redaction are the user's.
\<close>

theorem project_config_only_tightens:
  assumes "validates_dumps lb" and "load_config lb fs = Returns r"
  shows "\<exists>r0. load_config lb (fs\<lparr>cf_project := NoFile\<rparr>) = Returns r0
    \<and> only_tightens (rv_config r0) (rv_config r)
    \<and> (case cf_project fs of Toml raw \<Rightarrow> set (keys (project_leaves raw)) \<subseteq> set PROJECT_PATHS | _ \<Rightarrow> True)"
proof -
  obtain user_raw project_raw by_path effective m final
    where l: "loads lb fs user_raw project_raw by_path effective m final"
      and r: "r = resolved_from lb user_raw by_path m final"
    using assms(2) unfolding load_config_Returns by blast
  obtain c' where w: "loads lb (fs\<lparr>cf_project := NoFile\<rparr>) user_raw None by_path effective (merging_from effective) (every_field_set effective)"
    and f: "final = every_field_set c'" "only_tightens effective c'"
    and some: "\<And>raw. project_raw = Some raw \<Longrightarrow> set (keys (project_leaves raw)) \<subseteq> set PROJECT_PATHS"
    using loads_without_project[OF assms(1) l] by metis
  have "load_config lb (fs\<lparr>cf_project := NoFile\<rparr>)
      = Returns (resolved_from lb user_raw by_path (merging_from effective) (every_field_set effective))"
    unfolding load_config_Returns using w by blast
  moreover have "project_raw = Some raw" if "cf_project fs = Toml raw" for raw
    using l that by (simp add: loads_def parse_toml_def)
  ultimately show ?thesis
    using every_field_set_tightens[OF f(2)] some by (auto simp: r f(1) resolved_from_def Let_def split: toml_file.split)
qed

section \<open>Provenance\<close>

lemma keys_dict_update: "set (keys (dict_update out new)) = set (keys out) \<union> set (keys new)"
  unfolding dict_update_def by (induction new arbitrary: out) (simp_all add: split_beta dom_update)

definition leaf_keys :: "string \<Rightarrow> string \<times> pyval \<Rightarrow> string set" where
  "leaf_keys pre kv = (case kv of (k, v) \<Rightarrow>
     (case v of PDict (x # d) \<Rightarrow> set (keys (dump_leaves (pre @ k @ ''.'') (x # d))) | _ \<Rightarrow> {pre @ k}))"

lemma keys_dump_leaves: "set (keys (dump_leaves pre t)) = (\<Union>kv \<in> set t. leaf_keys pre kv)"
proof (induction t)
  case Nil
  show ?case by simp
next
  case (Cons kv t)
  obtain k v where kv: "kv = (k, v)" by (cases kv)
  have "set (keys (case v of PDict (x # d) \<Rightarrow> dump_leaves (pre @ k @ ''.'') (x # d) | _ \<Rightarrow> [(pre @ k, v)]))
      = leaf_keys pre (k, v)"
    by (cases v) (auto simp: leaf_keys_def split: list.split)
  with Cons show ?case unfolding kv dump_leaves.simps keys_dict_update by simp
qed

definition is_leaf :: "pyval \<Rightarrow> bool" where
  "is_leaf v \<longleftrightarrow> (case v of PDict (x # d) \<Rightarrow> False | _ \<Rightarrow> True)"

lemma leaf_in_dump:
  "get_parts (p # ps) (PDict t) = Some v \<Longrightarrow> is_leaf v \<Longrightarrow>
   pre @ join ''.'' (p # ps) \<in> set (keys (dump_leaves pre t))"
proof (induction ps arbitrary: p t pre)
  case Nil
  then have "map_of t p = Some v" by (simp split: option.splits)
  then have "(p, v) \<in> set t" by (rule map_of_SomeD)
  moreover have "pre @ p \<in> leaf_keys pre (p, v)"
    using Nil(2) by (cases v) (auto simp: leaf_keys_def is_leaf_def split: list.splits)
  ultimately have "pre @ p \<in> set (keys (dump_leaves pre t))" unfolding keys_dump_leaves by blast
  then show ?case by simp
next
  case (Cons q qs)
  from Cons.prems obtain d where d: "map_of t p = Some (PDict d)" "get_parts (q # qs) (PDict d) = Some v"
    by (auto split: option.splits pyval.splits)
  have ne: "d \<noteq> []" using d(2) by auto
  have "(pre @ p @ ''.'') @ join ''.'' (q # qs) \<in> set (keys (dump_leaves (pre @ p @ ''.'') d))"
    by (rule Cons.IH[OF d(2) Cons.prems(2)])
  then have "pre @ join ''.'' (p # q # qs) \<in> leaf_keys pre (p, PDict d)"
    using ne by (cases d) (simp_all add: leaf_keys_def)
  then show ?case unfolding keys_dump_leaves using map_of_SomeD[OF d(1)] by blast
qed

lemma project_path_is_leaf:
  assumes "p \<in> set PROJECT_PATHS"
  shows "p \<in> set (keys (dump_leaves [] (dump_config c)))"
proof -
  have "\<exists>v. get_path (dump_config c) p = Some v \<and> is_leaf v"
    using assms
    by (cases rule: project_path_cases)
      (auto simp: ceiling_get path_get is_leaf_def dump_list_def dump_opt_def split: option.split)
  then obtain v where v: "get_parts (split_on (CHR ''.'') p) (PDict (dump_config c)) = Some v" "is_leaf v"
    by (auto simp: get_path_def)
  obtain q qs where q: "split_on (CHR ''.'') p = q # qs" by (cases "split_on (CHR ''.'') p") auto
  have "[] @ join ''.'' (q # qs) \<in> set (keys (dump_leaves [] (dump_config c)))"
    using v by (intro leaf_in_dump[where v = v]) (simp_all only: q)
  moreover have "join ''.'' (q # qs) = p" using join_split_on[of "CHR ''.''" p] by (simp only: q)
  ultimately show ?thesis by (simp only: append.left_neutral)
qed

lemma map_of_map_key: "map_of (map (\<lambda>(k, v). (k, f k)) xs) k = (if k \<in> set (keys xs) then Some (f k) else None)"
  by (induction xs) auto

lemma provenance_at:
  assumes "p \<in> set PROJECT_PATHS"
  shows "map_of (build_provenance c user_raw by_path actions) p
    = Some \<lparr>pv_source = source_of actions by_path (case user_raw of None \<Rightarrow> [] | Some t \<Rightarrow> keys (leaves [] t)) p,
            pv_action = get_or ActNone actions p\<rparr>"
  unfolding build_provenance_def Let_def
  by (subst map_of_map_key) (simp only: project_path_is_leaf[OF assms] if_True)

lemma get_path_every_field_set:
  assumes "p \<in> set PROJECT_PATHS"
  shows "get_path (dump_config (every_field_set c)) p = get_path (dump_config c) p"
  using assms by (cases rule: project_path_cases) (simp_all add: ceiling_get path_get every_field_set_def)

text \<open>
  provenance tells the project's influence on every field it may touch. For each of the nine
  paths the recorded action fits the three values: with no action the path is not in the project
  file and the value is the one without it; applied and tightened mean that the project's value is
  in force, tightened that it is strictly stricter; ignored means that both agree; rejected that the
  project asked for less strictness and the user's value stands. The recorded source is the project
  exactly when the project's value is in force through applied or tightened.
\<close>

theorem provenance_tells_project_influence:
  assumes "validates_dumps lb" and "load_config lb fs = Returns r" and "cf_project fs = Toml raw"
    and "load_config lb (fs\<lparr>cf_project := NoFile\<rparr>) = Returns r0" and "p \<in> set PROJECT_PATHS"
  shows "\<exists>pc e. lb_validate lb raw = Inr pc \<and> map_of (rv_provenance r) p = Some e
    \<and> fits (pv_action e) (get_path (dump_config (rv_config r0)) p) (get_path (dump_config pc) p)
        (get_path (dump_config (rv_config r)) p)
    \<and> (pv_action e = ActNone \<longleftrightarrow> p \<notin> set (keys (project_leaves raw)))
    \<and> (pv_source e = SrcProject \<longleftrightarrow> pv_action e \<in> {ActApplied, ActTightened})"
proof -
  obtain user_raw project_raw by_path effective m final
    where l: "loads lb fs user_raw project_raw by_path effective m final"
      and r: "r = resolved_from lb user_raw by_path m final"
    using assms(2) unfolding load_config_Returns by blast
  have raw: "project_raw = Some raw" using l assms(3) by (simp add: loads_def parse_toml_def)
  obtain c' where w: "loads lb (fs\<lparr>cf_project := NoFile\<rparr>) user_raw None by_path effective (merging_from effective) (every_field_set effective)"
    and f: "final = every_field_set c'"
    and some: "set (keys (project_leaves raw)) \<subseteq> set PROJECT_PATHS
           \<and> (\<exists>pc. lb_validate lb raw = Inr pc \<and> mg_problems m = []
                \<and> merged_ok pc (sort (keys (project_leaves raw))) effective (merging_from effective) m c')"
    using loads_without_project[OF assms(1) l] raw by metis
  then obtain pc where pc: "lb_validate lb raw = Inr pc" "mg_problems m = []"
    and ok: "merged_ok pc (sort (keys (project_leaves raw))) effective (merging_from effective) m c'" by blast
  have "load_config lb (fs\<lparr>cf_project := NoFile\<rparr>)
      = Returns (resolved_from lb user_raw by_path (merging_from effective) (every_field_set effective))"
    unfolding load_config_Returns using w by blast
  then have r0: "rv_config r0 = every_field_set effective"
    using assms(4) by (simp add: resolved_from_def Let_def)
  let ?e = "\<lparr>pv_source = source_of (mg_actions m) by_path (case user_raw of None \<Rightarrow> [] | Some t \<Rightarrow> keys (leaves [] t)) p,
       pv_action = action_at m p\<rparr>"
  have e: "map_of (rv_provenance r) p = Some ?e"
    unfolding r resolved_from_def Let_def action_at_def by (simp add: provenance_at[OF assms(5)])
  have none: "action_at (merging_from effective) p = ActNone" by (simp add: action_at_def)
  have acted: "action_at m p = ActNone \<longleftrightarrow> p \<notin> set (keys (project_leaves raw))"
    using ok pc(2) none by (auto simp: merged_ok_def)
  have "fits (action_at m p) (get_path (dump_config effective) p) (get_path (dump_config pc) p) (get_path (dump_config c') p)"
  proof (cases "p \<in> set (keys (project_leaves raw))")
    case True
    with ok none show ?thesis by (auto simp: merged_ok_def)
  next
    case False
    with ok none acted assms(5) show ?thesis by (auto simp: merged_ok_def fits_def)
  qed
  then have "fits (pv_action ?e) (get_path (dump_config (rv_config r0)) p) (get_path (dump_config pc) p)
        (get_path (dump_config (rv_config r)) p)"
    unfolding r0 by (simp add: r resolved_from_def Let_def f get_path_every_field_set[OF assms(5)])
  moreover have "pv_source ?e = SrcProject \<longleftrightarrow> pv_action ?e \<in> {ActApplied, ActTightened}"
    by (simp add: source_of_def action_at_def)
  ultimately show ?thesis using pc(1) e acted by (intro exI[of _ pc] exI[of _ ?e]) simp
qed

section \<open>Loaded agent entries\<close>

lemma overrides_with_every_field:
  assumes "ae_fields_set e = Some AGENT_FIELDS"
  shows "set (explicit_overrides e) = (if ae_command e = None then set AGENT_FIELDS - {''command''} else set AGENT_FIELDS)"
proof -
  have "set AGENT_FIELDS \<subseteq> set BUILTIN_OVERRIDABLE_FIELDS"
    by (simp add: AGENT_FIELDS_def BUILTIN_OVERRIDABLE_FIELDS_def)
  then show ?thesis using assms by (auto simp: explicit_overrides_def)
qed

text \<open>
  C19: in a loaded configuration an entry for a built-in agent replaces every field but the command,
  whether the user set the field or not. The loader validates the dump of the user's configuration a
  second time, so every field of the entry counts as set when the registry merges it; arguments,
  environment, provider and the rest are the entry's, and a field the user left out is the empty
  default, not the built-in's pinned value.
\<close>

theorem loaded_entry_replaces_every_field:
  assumes "validates_dumps lb" and "load_config lb fs = Returns r"
    and "from_config why (rv_config r) = Inr reg" and "distinct (keys (c_agents (rv_config r)))"
    and "map_of (c_agents (rv_config r)) n = Some e" and "map_of BUILTIN_AGENTS n = Some base"
  shows "\<exists>c. map_of reg n = Some c \<and> ag_args c = ae_args e \<and> ag_env c = ae_env e
    \<and> ag_inherit_env c = ae_inherit_env e \<and> ag_working_dir c = ae_working_dir e
    \<and> ag_api_key_env c = ae_api_key_env e \<and> ag_provider c = ae_provider e
    \<and> ag_orchestration_eligible c = ae_orchestration_eligible e
    \<and> ag_command c = (case ae_command e of None \<Rightarrow> ag_command base | Some x \<Rightarrow> x)"
proof -
  obtain user_raw project_raw by_path effective m final
    where l: "loads lb fs user_raw project_raw by_path effective m final"
      and r: "r = resolved_from lb user_raw by_path m final"
    using assms(2) unfolding load_config_Returns by blast
  obtain c' where "final = every_field_set c'" using loads_without_project[OF assms(1) l] by metis
  then have "\<exists>x. e = x\<lparr>ae_fields_set := Some AGENT_FIELDS\<rparr>"
    using map_of_SomeD[OF assms(5)] by (auto simp: r resolved_from_def Let_def every_field_set_def)
  then have fs: "ae_fields_set e = Some AGENT_FIELDS" by auto
  have "\<exists>c. registered why n e = Inr c \<and> map_of reg n = Some c"
    using merge_entries_lookup[OF assms(3)[unfolded from_config_def] assms(4), of n] assms(5) by simp
  then obtain c where c: "registered why n e = Inr c" "map_of reg n = Some c" by blast
  then have "c = apply_overrides e base"
    using assms(6) by (auto simp: registered_def merge_builtin_def validated_def split: if_splits)
  moreover have "set AGENT_FIELDS = {''command'', ''args'', ''env'', ''inherit_env'', ''working_dir'', ''api_key_env'',
      ''provider'', ''orchestration_eligible''}"
    by (simp add: AGENT_FIELDS_def)
  ultimately show ?thesis
    using c(2) overrides_with_every_field[OF fs]
    by (auto simp: apply_overrides_def Let_def split: option.split)
qed

section \<open>Concrete loads\<close>

definition strict_library :: library where
  "strict_library = \<lparr>lb_validate = (\<lambda>t. case strict_config t of Some c \<Rightarrow> Inr c
       | None \<Rightarrow> Inl [\<lparr>ci_loc = [], ci_type = ''invalid'', ci_msg = ''invalid''\<rparr>]),
     lb_float = (\<lambda>s. None), lb_compile = (\<lambda>s. None), lb_re_error = (\<lambda>s. s), lb_sha256 = (\<lambda>s. ''0'')\<rparr>"

lemma strict_library_validates: "validates_dumps strict_library"
  by (auto simp: validates_dumps_def strict_library_def strict_dump dest: strict_ok split: option.splits)

definition tight_files :: config_files where
  "tight_files = \<lparr>cf_env = [], cf_user_name = ''u'',
     cf_user = Toml [(''schema_version'', PInt 1), (''engine'', PDict [(''max_prompt_bytes'', PInt 1000)])],
     cf_project_name = ''p'',
     cf_project = Toml [(''schema_version'', PInt 1), (''engine'', PDict [(''max_prompt_bytes'', PInt 10)])]\<rparr>"

definition codex_files :: config_files where
  "codex_files = \<lparr>cf_env = [], cf_user_name = ''u'',
     cf_user = Toml [(''schema_version'', PInt 1),
       (''agents'', PDict [(''codex'', PDict [(''orchestration_eligible'', PBool True)])])],
     cf_project_name = ''p'', cf_project = NoFile\<rparr>"

definition bare_entry :: agent_entry where
  "bare_entry = \<lparr>ae_fields_set = Some AGENT_FIELDS, ae_command = None, ae_args = [], ae_env = [],
     ae_inherit_env = [], ae_working_dir = None, ae_api_key_env = None, ae_provider = None,
     ae_orchestration_eligible = True\<rparr>"

lemma tight_loads:
  "case load_config strict_library tight_files of Returns r \<Rightarrow> max_prompt_bytes (c_engine (rv_config r)) = 10 | _ \<Rightarrow> False"
  by code_simp

lemma tight_loads_alone:
  "case load_config strict_library (tight_files\<lparr>cf_project := NoFile\<rparr>) of
     Returns r \<Rightarrow> max_prompt_bytes (c_engine (rv_config r)) = 1000 | _ \<Rightarrow> False"
  by code_simp

lemma codex_loads:
  "case load_config strict_library codex_files of
     Returns r \<Rightarrow> distinct (keys (c_agents (rv_config r))) \<and> map_of (c_agents (rv_config r)) ''codex'' = Some bare_entry
       \<and> (case from_config (\<lambda>n. []) (rv_config r) of Inr reg \<Rightarrow> True | Inl _ \<Rightarrow> False)
   | _ \<Rightarrow> False"
  by code_simp

lemma returned: "(case r of Returns x \<Rightarrow> P x | _ \<Rightarrow> False) \<longleftrightarrow> (\<exists>x. r = Returns x \<and> P x)"
  by (cases r) auto

theorem project_tightens_witness:
  "\<exists>r r0. load_config strict_library tight_files = Returns r
     \<and> load_config strict_library (tight_files\<lparr>cf_project := NoFile\<rparr>) = Returns r0
     \<and> only_tightens (rv_config r0) (rv_config r) \<and> max_prompt_bytes (c_engine (rv_config r)) = 10"
proof -
  obtain r where r: "load_config strict_library tight_files = Returns r" "max_prompt_bytes (c_engine (rv_config r)) = 10"
    using tight_loads unfolding returned by blast
  with project_config_only_tightens[OF strict_library_validates r(1)] show ?thesis by blast
qed

theorem provenance_witness:
  "\<exists>r r0 e. load_config strict_library tight_files = Returns r
     \<and> load_config strict_library (tight_files\<lparr>cf_project := NoFile\<rparr>) = Returns r0
     \<and> map_of (rv_provenance r) ''engine.max_prompt_bytes'' = Some e \<and> pv_action e \<noteq> ActNone"
proof -
  obtain r where r: "load_config strict_library tight_files = Returns r"
    using tight_loads unfolding returned by blast
  obtain r0 where r0: "load_config strict_library (tight_files\<lparr>cf_project := NoFile\<rparr>) = Returns r0"
    using tight_loads_alone unfolding returned by blast
  have p: "''engine.max_prompt_bytes'' \<in> set PROJECT_PATHS"
    by (simp add: PROJECT_PATHS_def TIGHTEN_MIN_PATHS_def)
  have f: "cf_project tight_files = Toml [(''schema_version'', PInt 1), (''engine'', PDict [(''max_prompt_bytes'', PInt 10)])]"
    by (simp add: tight_files_def)
  have "''engine.max_prompt_bytes'' \<in> set (keys (project_leaves
      [(''schema_version'', PInt 1), (''engine'', PDict [(''max_prompt_bytes'', PInt 10)])]))" by code_simp
  with provenance_tells_project_influence[OF strict_library_validates r f r0 p] r r0 show ?thesis by blast
qed

theorem loaded_entry_witness:
  "\<exists>r reg c base. load_config strict_library codex_files = Returns r \<and> from_config (\<lambda>n. []) (rv_config r) = Inr reg
     \<and> map_of reg ''codex'' = Some c \<and> map_of BUILTIN_AGENTS ''codex'' = Some base
     \<and> ag_args c = [] \<and> ag_args base \<noteq> [] \<and> ag_provider c = None \<and> ag_provider base = Some ''openai''
     \<and> ag_command c = ag_command base"
proof -
  obtain r where r: "load_config strict_library codex_files = Returns r" "distinct (keys (c_agents (rv_config r)))"
      "map_of (c_agents (rv_config r)) ''codex'' = Some bare_entry"
      "case from_config (\<lambda>n. []) (rv_config r) of Inr reg \<Rightarrow> True | Inl _ \<Rightarrow> False"
    using codex_loads unfolding returned by blast
  obtain reg where reg: "from_config (\<lambda>n. []) (rv_config r) = Inr reg" using r(4) by (auto split: sum.splits)
  have "case map_of BUILTIN_AGENTS ''codex'' of Some b \<Rightarrow> ag_args b \<noteq> [] \<and> ag_provider b = Some ''openai'' | None \<Rightarrow> False"
    by code_simp
  then obtain base where base: "map_of BUILTIN_AGENTS ''codex'' = Some base" "ag_args base \<noteq> []"
      "ag_provider base = Some ''openai''" by (auto split: option.splits)
  obtain c where "map_of reg ''codex'' = Some c" "ag_args c = ae_args bare_entry" "ag_provider c = ae_provider bare_entry"
      "ag_command c = (case ae_command bare_entry of None \<Rightarrow> ag_command base | Some x \<Rightarrow> x)"
    using loaded_entry_replaces_every_field[OF strict_library_validates r(1) reg r(2,3) base(1)] by blast
  moreover have "ae_args bare_entry = []" "ae_provider bare_entry = None" "ae_command bare_entry = None"
    by (simp_all add: bare_entry_def)
  ultimately show ?thesis using r(1) reg base by fastforce
qed

end
