(* ===== verification/Child_Env.thy ===== *)
theory Child_Env
  imports Config_Dump Registry
begin

text \<open>
  \<open>engine/env.py\<close>: the environment of an agent's child process. Later layers win: the baseline and
  the inherited names present in the parent, the literals of the agent, the credential.
\<close>

definition BASELINE_ENV_VARS :: "string list" where
  "BASELINE_ENV_VARS = [''HOME'', ''PATH'', ''TERM'', ''LANG'']"

definition forward :: "(string \<times> string) list \<Rightarrow> (string \<times> string) list \<Rightarrow> string list \<Rightarrow> (string \<times> string) list" where
  "forward base env ns =
     foldl (\<lambda>env n. case map_of base n of None \<Rightarrow> env | Some v \<Rightarrow> AList.update n v env) env ns"

definition missing_credential :: "agent_config \<Rightarrow> string \<Rightarrow> zerror" where
  "missing_credential a var = config_error
     (''Agent '' @ [CHR 0x27] @ ag_name a @ [CHR 0x27] @ '' requires env var '' @ var @ '' (not set).'')
     [(''agent'', PStr (ag_name a)), (''env_var'', PStr var)]"

definition compose_child_env ::
  "agent_config \<Rightarrow> (string \<times> string) list \<Rightarrow> zerror + (string \<times> string) list \<times> (string \<times> string) list" where
  "compose_child_env a base =
     (let env = foldl (\<lambda>env (n, v). AList.update n v env)
                  (forward base (forward base [] BASELINE_ENV_VARS) (ag_inherit_env a)) (ag_env a) in
      case ag_api_key_env a of
        None \<Rightarrow> Inr (env, [])
      | Some var \<Rightarrow>
          (case get_or [] base var of
             [] \<Rightarrow> Inl (missing_credential a var)
           | v # vs \<Rightarrow> Inr (AList.update var (v # vs) env, [(''env:'' @ var, v # vs)])))"

section \<open>What a child sees\<close>

definition named_vars :: "agent_config \<Rightarrow> string set" where
  "named_vars a = set BASELINE_ENV_VARS \<union> set (ag_inherit_env a) \<union> set_option (ag_api_key_env a)"

lemma map_of_forward:
  "map_of (forward base env ns) n = (if n \<in> set ns \<and> map_of base n \<noteq> None then map_of base n else map_of env n)"
  unfolding forward_def
  by (induction ns arbitrary: env) (auto simp: update_conv' split: option.split)

lemma forward_cong:
  "(\<And>n. n \<in> set ns \<Longrightarrow> map_of base n = map_of base' n) \<Longrightarrow> forward base env ns = forward base' env ns"
  unfolding forward_def by (induction ns arbitrary: env) simp_all

lemma map_of_literals:
  "map_of (foldl (\<lambda>env (n, v). AList.update n v env) env lits) n
   = (case map_of (rev lits) n of Some v \<Rightarrow> Some v | None \<Rightarrow> map_of env n)"
proof (induction lits arbitrary: env)
  case (Cons nv lits)
  obtain m v where nv: "nv = (m, v)" by (cases nv)
  show ?case unfolding nv using Cons[of "AList.update m v env"]
    by (auto simp: update_conv' map_add_def split: option.splits)
qed simp

lemma map_of_named: "n \<in> N \<Longrightarrow> map_of (filter (\<lambda>(n, v). n \<in> N) base) n = map_of base n"
  by (induction base) auto

text \<open>
  a child process sees what is named and nothing else. The composition is the same when the
  parent's environment is cut down to the baseline, the inherited names and the credential
  variable; a variable of the child has the credential's value, or the agent's literal, or, if it is
  named, the parent's value, and is unset otherwise. The credential is the only value registered as
  a secret, and composition fails exactly when a credential is named that is unset or empty.
\<close>

theorem child_env_is_what_is_named:
  "compose_child_env a base = compose_child_env a (filter (\<lambda>(n, v). n \<in> named_vars a) base)
   \<and> (case compose_child_env a base of
        Inl e \<Rightarrow> (\<exists>var. ag_api_key_env a = Some var \<and> get_or [] base var = [] \<and> e = missing_credential a var)
      | Inr (env, secrets) \<Rightarrow>
          (\<forall>n. map_of env n =
             (if ag_api_key_env a = Some n then map_of base n
              else case map_of (rev (ag_env a)) n of
                Some v \<Rightarrow> Some v
              | None \<Rightarrow> if n \<in> set BASELINE_ENV_VARS \<union> set (ag_inherit_env a) then map_of base n else None))
          \<and> secrets = (case ag_api_key_env a of None \<Rightarrow> [] | Some var \<Rightarrow> [(''env:'' @ var, get_or [] base var)])
          \<and> list_all (\<lambda>(k, v). v \<noteq> []) secrets)"
proof
  let ?cut = "filter (\<lambda>(n, v). n \<in> named_vars a) base"
  have named: "map_of ?cut n = map_of base n" if "n \<in> named_vars a" for n
    using that by (rule map_of_named)
  have b: "map_of ?cut n = map_of base n" if "n \<in> set BASELINE_ENV_VARS" for n
    using that by (intro named) (simp add: named_vars_def)
  have i: "map_of ?cut n = map_of base n" if "n \<in> set (ag_inherit_env a)" for n
    using that by (intro named) (simp add: named_vars_def)
  have "forward ?cut (forward ?cut [] BASELINE_ENV_VARS) (ag_inherit_env a)
      = forward base (forward base [] BASELINE_ENV_VARS) (ag_inherit_env a)"
    using forward_cong[OF i] forward_cong[OF b] by simp
  moreover have "get_or [] ?cut var = get_or [] base var" if "ag_api_key_env a = Some var" for var
  proof -
    have "map_of ?cut var = map_of base var" using that by (intro named) (simp add: named_vars_def)
    then show ?thesis by (simp only: get_or_def)
  qed
  ultimately show "compose_child_env a base = compose_child_env a ?cut"
    by (cases "ag_api_key_env a") (simp_all add: compose_child_env_def)
next
  show "case compose_child_env a base of
        Inl e \<Rightarrow> (\<exists>var. ag_api_key_env a = Some var \<and> get_or [] base var = [] \<and> e = missing_credential a var)
      | Inr (env, secrets) \<Rightarrow>
          (\<forall>n. map_of env n =
             (if ag_api_key_env a = Some n then map_of base n
              else case map_of (rev (ag_env a)) n of
                Some v \<Rightarrow> Some v
              | None \<Rightarrow> if n \<in> set BASELINE_ENV_VARS \<union> set (ag_inherit_env a) then map_of base n else None))
          \<and> secrets = (case ag_api_key_env a of None \<Rightarrow> [] | Some var \<Rightarrow> [(''env:'' @ var, get_or [] base var)])
          \<and> list_all (\<lambda>(k, v). v \<noteq> []) secrets"
    by (auto simp: compose_child_env_def Let_def map_of_forward map_of_literals update_conv' get_or_def
        split: option.splits list.splits)
qed

end
