(* ===== verification/Lease.thy ===== *)
theory Lease
  imports Models
begin

text \<open>
  \<open>engine/lease.py\<close>: the lease file that lets one run at a time mutate a workspace. Contenders in
  several processes share one directory entry; a step of a contender is one system call with the
  code up to the next, and a schedule is the order of these steps. A file is an inode, so that a
  write through an open descriptor and an unlink of the path do not meet by accident.
\<close>

section \<open>Processes\<close>

datatype signal_result = Delivered | NoSuchProcess | NotPermitted | SignalError
datatype liveness = Alive | Dead | Ambiguous

text \<open>
  What the code asks the system. \<open>sy_parse\<close> is \<open>WorkspaceLease.model_validate_json\<close> and
  \<open>sy_run_id\<close> the run id of a JSON object (\<open>None\<close> for other content).
\<close>

record system =
  sy_kill :: "int \<Rightarrow> signal_result"              \<comment> \<open>\<open>os.kill(pid, 0)\<close>\<close>
  sy_killpg :: "int \<Rightarrow> signal_result"
  sy_ps :: "int \<Rightarrow> (int \<times> string) option"       \<comment> \<open>return code and output of \<open>ps\<close>, if it ran\<close>
  sy_stat :: "int \<Rightarrow> string option"              \<comment> \<open>\<open>/proc/<pid>/stat\<close>\<close>
  sy_sha256 :: "string \<Rightarrow> string"
  sy_parse :: "string \<Rightarrow> workspace_lease option"
  sy_run_id :: "string \<Rightarrow> string option"
  sy_canonical :: string                         \<comment> \<open>the canonical workspace path\<close>
  sy_lease_path :: string

definition MAX_RECOVERY_ATTEMPTS :: nat where "MAX_RECOVERY_ATTEMPTS = 8"

text \<open>\<open>raw.rpartition(")")[2].split()\<close>\<close>

definition after_last_paren :: "string \<Rightarrow> string" where
  "after_last_paren raw = rev (takeWhile (\<lambda>c. c \<noteq> CHR '')'') (rev raw))"

fun words :: "string \<Rightarrow> string list" where
  "words [] = []"
| "words (c # cs) =
     (if is_space c then words cs
      else (case cs of
              [] \<Rightarrow> [[c]]
            | d # ds \<Rightarrow> if is_space d then [c] # words cs
                else (case words cs of [] \<Rightarrow> [[c]] | w # ws \<Rightarrow> (c # w) # ws)))"

definition procfs_marker :: "system \<Rightarrow> int \<Rightarrow> string option" where
  "procfs_marker sy pid = (case sy_stat sy pid of
     None \<Rightarrow> None
   | Some raw \<Rightarrow> (let fields = words (after_last_paren raw) in
       if length fields < 20 then None else Some (''proc:'' @ fields ! 19)))"

definition process_start_marker :: "system \<Rightarrow> int \<Rightarrow> string option" where
  "process_start_marker sy pid =
     (if pid \<le> 0 then None
      else case sy_ps sy pid of
        Some (code, out) \<Rightarrow>
          if code = 0 \<and> strip out \<noteq> [] then Some (''ps:'' @ sy_sha256 sy (strip out))
          else procfs_marker sy pid
      | None \<Rightarrow> procfs_marker sy pid)"

definition pid_liveness :: "system \<Rightarrow> int \<Rightarrow> liveness" where
  "pid_liveness sy pid =
     (if pid \<le> 0 then Ambiguous
      else case sy_kill sy pid of NoSuchProcess \<Rightarrow> Dead | NotPermitted \<Rightarrow> Ambiguous
        | SignalError \<Rightarrow> Ambiguous | Delivered \<Rightarrow> Alive)"

definition pgid_provably_dead :: "system \<Rightarrow> int \<Rightarrow> bool" where
  "pgid_provably_dead sy pgid =
     (if pgid \<le> 1 then True else sy_killpg sy pgid = NoSuchProcess)"

section \<open>Errors\<close>

definition busy :: "system \<Rightarrow> workspace_lease option \<Rightarrow> string \<Rightarrow> zerror" where
  "busy sy holder reason =
     (let run = map_option wl_run_id holder;
          suffix = (case run of Some (c # cs) \<Rightarrow> '' (held by run '' @ (c # cs) @ '')'' | _ \<Rightarrow> [])
      in \<lparr>err_class = WorkspaceBusyError,
          message = ''workspace '' @ sy_canonical sy @ '' is busy'' @ suffix @ '': '' @ reason,
          details = [(''run_id'', case run of None \<Rightarrow> PNone | Some r \<Rightarrow> PStr r),
            (''workspace'', PStr (sy_canonical sy)),
            (''acquired_at'', case holder of None \<Rightarrow> PNone | Some l \<Rightarrow> PStr (wl_acquired_at l)),
            (''reason'', PStr reason)]\<rparr>)"

definition cannot_create :: "system \<Rightarrow> string \<Rightarrow> zerror" where
  "cannot_create sy why = \<lparr>err_class = PersistenceError, message = ''cannot create workspace lease: '' @ why,
     details = [(''path'', PStr (sy_lease_path sy))]\<rparr>"

section \<open>Contenders\<close>

text \<open>
  Where a contender stands. The number is the attempts left, the string the bytes read; \<open>Holding\<close>
  carries the inode it created. \<open>Crashed\<close> is an OSError that is not wrapped.
\<close>

datatype pc =
    Create nat
  | Write nat
  | Read nat
  | Judge nat string
  | Reread nat string
  | Unlink nat
  | Holding nat
  | Check nat
  | Remove nat
  | Released
  | Refused zerror
  | Crashed

record contender =
  ct_lease :: workspace_lease
  ct_payload :: string

record world =
  w_path :: "nat option"
  w_inodes :: "string list"
  w_pc :: "nat \<Rightarrow> pc"

text \<open>\<open>WorkspaceLease\<close> of the caller, as \<open>acquire\<close> fills it in.\<close>

definition our_lease :: "system \<Rightarrow> string \<Rightarrow> string \<Rightarrow> int \<Rightarrow> int \<Rightarrow> string \<Rightarrow> workspace_lease" where
  "our_lease sy digest run_id pid pgrp now =
     \<lparr>wl_hash = digest, wl_workspace = sy_canonical sy, wl_run_id = run_id, wl_owner_pid = pid,
      wl_owner_process_start = (case process_start_marker sy pid of None \<Rightarrow> [] | Some m \<Rightarrow> m),
      wl_owner_process_group = pgrp, wl_acquired_at = now\<rparr>"

text \<open>\<open>_contend\<close> after the read: the liveness of the holder decides.\<close>

definition judge :: "system \<Rightarrow> nat \<Rightarrow> string \<Rightarrow> pc" where
  "judge sy k raw =
     (case sy_parse sy raw of
        None \<Rightarrow> Refused (busy sy None ''ambiguous'')
      | Some holder \<Rightarrow>
          (case pid_liveness sy (wl_owner_pid holder) of
             Alive \<Rightarrow>
               let recorded = wl_owner_process_start holder;
                   current = process_start_marker sy (wl_owner_pid holder)
               in if recorded \<noteq> [] \<and> current = Some recorded then Refused (busy sy (Some holder) ''held'')
                  else Refused (busy sy (Some holder) ''ambiguous'')
           | Ambiguous \<Rightarrow> Refused (busy sy (Some holder) ''ambiguous'')
           | Dead \<Rightarrow>
               if \<not> pgid_provably_dead sy (wl_owner_process_group holder)
               then Refused (busy sy (Some holder) ''ambiguous'')
               else Reread k raw))"

definition at :: "world \<Rightarrow> nat \<Rightarrow> pc \<Rightarrow> world" where
  "at w p c = w\<lparr>w_pc := (w_pc w)(p := c)\<rparr>"

definition content :: "world \<Rightarrow> string option" where
  "content w = map_option (\<lambda>i. w_inodes w ! i) (w_path w)"

text \<open>
  The system calls of a contender \<open>p\<close>; \<open>fault\<close> is the text of an OSError of the call other than
  FileExistsError and FileNotFoundError, if there is one. \<open>os.write\<close> writes the whole payload.
\<close>

definition try_create :: "system \<Rightarrow> string option \<Rightarrow> world \<Rightarrow> nat \<Rightarrow> nat \<Rightarrow> world" where
  "try_create sy fault w p k =
     (case fault of
        Some why \<Rightarrow> at w p (Refused (cannot_create sy why))
      | None \<Rightarrow>
          (case w_path w of
             Some i \<Rightarrow> at w p (Read k)
           | None \<Rightarrow> at (w\<lparr>w_path := Some (length (w_inodes w)), w_inodes := w_inodes w @ [[]]\<rparr>) p
                       (Write (length (w_inodes w)))))"

definition write_lease :: "contender \<Rightarrow> string option \<Rightarrow> world \<Rightarrow> nat \<Rightarrow> nat \<Rightarrow> world" where
  "write_lease ct fault w p i =
     (if fault \<noteq> None then at w p Crashed
      else at (w\<lparr>w_inodes := (w_inodes w)[i := ct_payload ct]\<rparr>) p (Holding i))"

definition read_raw :: "system \<Rightarrow> string option \<Rightarrow> world \<Rightarrow> nat \<Rightarrow> nat \<Rightarrow> world" where
  "read_raw sy fault w p k =
     (case (if fault \<noteq> None then None else content w) of
        None \<Rightarrow> at w p (Refused (busy sy None ''ambiguous''))
      | Some raw \<Rightarrow> at w p (Judge k raw))"

definition recover_reread :: "system \<Rightarrow> string option \<Rightarrow> world \<Rightarrow> nat \<Rightarrow> nat \<Rightarrow> string \<Rightarrow> world" where
  "recover_reread sy fault w p k stale =
     (if fault \<noteq> None then at w p (Refused (busy sy None ''ambiguous''))
      else case content w of
        None \<Rightarrow> at w p (Create k)
      | Some current \<Rightarrow> if current \<noteq> stale then at w p (Create k) else at w p (Unlink k))"

definition recover_unlink :: "system \<Rightarrow> string option \<Rightarrow> world \<Rightarrow> nat \<Rightarrow> nat \<Rightarrow> world" where
  "recover_unlink sy fault w p k =
     (if fault \<noteq> None then at w p (Refused (busy sy None ''ambiguous''))
      else at (w\<lparr>w_path := None\<rparr>) p (Create k))"

definition release_check :: "system \<Rightarrow> contender \<Rightarrow> string option \<Rightarrow> world \<Rightarrow> nat \<Rightarrow> nat \<Rightarrow> world" where
  "release_check sy ct fault w p i =
     (if fault \<noteq> None then at w p Released
      else case content w of
        None \<Rightarrow> at w p Released
      | Some raw \<Rightarrow> if sy_run_id sy raw = Some (wl_run_id (ct_lease ct)) then at w p (Remove i) else at w p Released)"

definition release_unlink :: "string option \<Rightarrow> world \<Rightarrow> nat \<Rightarrow> world" where
  "release_unlink fault w p = (if fault \<noteq> None then at w p Released else at (w\<lparr>w_path := None\<rparr>) p Released)"

lemmas lease_calls = try_create_def write_lease_def read_raw_def recover_reread_def recover_unlink_def
  release_check_def release_unlink_def

text \<open>One step of contender \<open>p\<close>, by where it stands: the loop of \<open>acquire\<close>, then \<open>release\<close>.\<close>

fun move :: "system \<Rightarrow> contender \<Rightarrow> string option \<Rightarrow> world \<Rightarrow> nat \<Rightarrow> pc \<Rightarrow> world" where
  "move sy ct fault w p (Create 0) = at w p (Refused (busy sy None ''ambiguous''))"
| "move sy ct fault w p (Create (Suc k)) = try_create sy fault w p k"
| "move sy ct fault w p (Write i) = write_lease ct fault w p i"
| "move sy ct fault w p (Read k) = read_raw sy fault w p k"
| "move sy ct fault w p (Judge k raw) = at w p (judge sy k raw)"
| "move sy ct fault w p (Reread k raw) = recover_reread sy fault w p k raw"
| "move sy ct fault w p (Unlink k) = recover_unlink sy fault w p k"
| "move sy ct fault w p (Holding i) = at w p (Check i)"
| "move sy ct fault w p (Check i) = release_check sy ct fault w p i"
| "move sy ct fault w p (Remove i) = release_unlink fault w p"
| "move sy ct fault w p Released = w"
| "move sy ct fault w p (Refused e) = w"
| "move sy ct fault w p Crashed = w"

type_synonym event = "nat \<times> string option"

definition lease_step :: "system \<Rightarrow> (nat \<Rightarrow> contender) \<Rightarrow> world \<Rightarrow> event \<Rightarrow> world" where
  "lease_step sy who w e = (case e of (p, fault) \<Rightarrow> move sy (who p) fault w p (w_pc w p))"

definition run_schedule :: "system \<Rightarrow> (nat \<Rightarrow> contender) \<Rightarrow> world \<Rightarrow> event list \<Rightarrow> world" where
  "run_schedule sy who = foldl (lease_step sy who)"

definition start :: "string option \<Rightarrow> world" where
  "start lease = \<lparr>w_path = (case lease of None \<Rightarrow> None | Some r \<Rightarrow> Some 0),
     w_inodes = (case lease of None \<Rightarrow> [] | Some r \<Rightarrow> [r]), w_pc = (\<lambda>p. Create MAX_RECOVERY_ATTEMPTS)\<rparr>"

text \<open>Between the successful return of \<open>acquire\<close> and the end of \<open>release\<close>.\<close>

definition holds :: "world \<Rightarrow> nat \<Rightarrow> bool" where
  "holds w p \<longleftrightarrow> (case w_pc w p of Holding i \<Rightarrow> True | Check i \<Rightarrow> True | Remove i \<Rightarrow> True | _ \<Rightarrow> False)"

end
