(* ===== verification/Lease_Safety.thy ===== *)
theory Lease_Safety
  imports Lease
begin

text \<open>
  The lease under every interleaving: acquisition ends, a lease nobody may recover has one holder,
  recovery of a stale lease works for a contender alone, and the gap between the second read and
  the unlink lets two contenders win.
\<close>

declare lease_calls [simp]

section \<open>Termination\<close>

fun pc_rank :: "pc \<Rightarrow> nat" where
  "pc_rank (Create k) = 5 * k + 5"
| "pc_rank (Read k) = 5 * k + 9"
| "pc_rank (Judge k raw) = 5 * k + 8"
| "pc_rank (Reread k raw) = 5 * k + 7"
| "pc_rank (Unlink k) = 5 * k + 6"
| "pc_rank (Write i) = 4"
| "pc_rank (Holding i) = 3"
| "pc_rank (Check i) = 2"
| "pc_rank (Remove i) = 1"
| "pc_rank _ = 0"

definition finished :: "pc \<Rightarrow> bool" where
  "finished c \<longleftrightarrow> (case c of Released \<Rightarrow> True | Refused e \<Rightarrow> True | Crashed \<Rightarrow> True | _ \<Rightarrow> False)"

lemma finished_rank: "finished c \<longleftrightarrow> pc_rank c = 0"
  by (cases c) (simp_all add: finished_def)

lemma at_simps [simp]: "w_pc (at w p c) = (w_pc w)(p := c)" "w_path (at w p c) = w_path w"
  "w_inodes (at w p c) = w_inodes w" "content (at w p c) = content w"
  by (simp_all add: at_def content_def)

lemma judge_rank: "pc_rank (judge sy k raw) < 5 * k + 8"
  by (auto simp: judge_def Let_def split: option.split liveness.split)

lemma move_rank: "pc_rank c \<noteq> 0 \<Longrightarrow> w_pc w p = c \<Longrightarrow> pc_rank (w_pc (move sy ct fault w p c) p) < pc_rank c"
  by (cases "(sy, ct, fault, w, p, c)" rule: move.cases) (auto simp: judge_rank split: option.split)

lemma move_other: "q \<noteq> p \<Longrightarrow> w_pc (move sy ct fault w p c) q = w_pc w q"
  by (cases "(sy, ct, fault, w, p, c)" rule: move.cases) (auto split: option.split)

definition own_steps :: "nat \<Rightarrow> event list \<Rightarrow> nat" where
  "own_steps p es = length (filter (\<lambda>e. fst e = p) es)"

lemma rank_decreases:
  "pc_rank (w_pc (run_schedule sy who w es) p) + own_steps p es \<le> pc_rank (w_pc w p)
   \<or> pc_rank (w_pc (run_schedule sy who w es) p) = 0"
proof (induction es arbitrary: w)
  case Nil
  show ?case by (simp add: run_schedule_def own_steps_def)
next
  case (Cons e es)
  obtain q fault where e: "e = (q, fault)" by (cases e)
  let ?w = "lease_step sy who w e"
  have IH: "pc_rank (w_pc (run_schedule sy who ?w es) p) + own_steps p es \<le> pc_rank (w_pc ?w p)
      \<or> pc_rank (w_pc (run_schedule sy who ?w es) p) = 0" by (rule Cons.IH)
  have run: "run_schedule sy who w (e # es) = run_schedule sy who ?w es" by (simp add: run_schedule_def)
  show ?case
  proof (cases "q = p")
    case False
    then show ?thesis using IH unfolding run by (simp add: e lease_step_def move_other own_steps_def)
  next
    case True
    show ?thesis
    proof (cases "pc_rank (w_pc w p) = 0")
      case True
      then have "finished (w_pc w p)" by (simp add: finished_rank)
      then have "?w = w" using \<open>q = p\<close> by (cases "w_pc w p") (simp_all add: e lease_step_def finished_def)
      then show ?thesis using IH True unfolding run by auto
    next
      case False
      have "pc_rank (w_pc ?w p) < pc_rank (w_pc w p)"
        using move_rank[OF False refl, of sy "who p" fault] by (simp add: e True lease_step_def)
      then show ?thesis using IH True unfolding run by (auto simp: e own_steps_def)
    qed
  qed
qed

text \<open>
  acquiring always ends. Under every schedule of any number of contenders, with any of their
  system calls failing, a contender that has made 45 steps of its own has returned: it was refused,
  it failed, or it acquired the lease and released it again. (At most eight attempts of five steps,
  and four steps to write, hold and release.)
\<close>

theorem lease_acquisition_terminates:
  "finished (w_pc (run_schedule sy who (start lease) es) p) \<or> own_steps p es < 45"
proof -
  have "pc_rank (w_pc (start lease) p) = 45" by (simp add: start_def MAX_RECOVERY_ATTEMPTS_def)
  with rank_decreases[of sy who "start lease" es p] show ?thesis
    by (cases "finished (w_pc (run_schedule sy who (start lease) es) p)") (auto simp: finished_rank)
qed

section \<open>One holder\<close>

definition recoverable :: "system \<Rightarrow> string \<Rightarrow> bool" where
  "recoverable sy raw \<longleftrightarrow> (case sy_parse sy raw of None \<Rightarrow> False
     | Some holder \<Rightarrow> pid_liveness sy (wl_owner_pid holder) = Dead
         \<and> pgid_provably_dead sy (wl_owner_process_group holder))"

lemma judge_cases: "judge sy k raw = Reread k raw \<and> recoverable sy raw \<or> (\<exists>e. judge sy k raw = Refused e) \<and> \<not> recoverable sy raw"
  by (auto simp: judge_def recoverable_def Let_def split: option.split liveness.split)

text \<open>The inode of a contender that has created the file and not yet left it.\<close>

fun inode_of :: "pc \<Rightarrow> nat option" where
  "inode_of (Write i) = Some i"
| "inode_of (Holding i) = Some i"
| "inode_of (Check i) = Some i"
| "inode_of (Remove i) = Some i"
| "inode_of _ = None"

lemma holds_inode: "holds w p \<Longrightarrow> inode_of (w_pc w p) \<noteq> None"
  by (simp add: holds_def split: pc.splits)

text \<open>What acquiring rests on when no lease in sight may be recovered.\<close>

fun pc_settled :: "system \<Rightarrow> pc \<Rightarrow> bool" where
  "pc_settled sy (Reread k raw) \<longleftrightarrow> False"
| "pc_settled sy (Unlink k) \<longleftrightarrow> False"
| "pc_settled sy (Judge k raw) \<longleftrightarrow> \<not> recoverable sy raw"
| "pc_settled sy c \<longleftrightarrow> True"

definition sole :: "world \<Rightarrow> nat \<Rightarrow> nat \<Rightarrow> bool" where
  "sole w p i \<longleftrightarrow> w_path w = Some i \<and> (\<forall>q. q \<noteq> p \<longrightarrow> inode_of (w_pc w q) = None)"

definition settled :: "system \<Rightarrow> world \<Rightarrow> bool" where
  "settled sy w \<longleftrightarrow>
     (\<forall>c \<in> set (w_inodes w). \<not> recoverable sy c)
     \<and> (\<forall>i. w_path w = Some i \<longrightarrow> i < length (w_inodes w))
     \<and> (\<forall>p. pc_settled sy (w_pc w p))
     \<and> (\<forall>p i. inode_of (w_pc w p) = Some i \<longrightarrow> sole w p i)"

text \<open>A contender writes a lease that reads back and names a process that is alive while it runs.\<close>

definition live_contender :: "system \<Rightarrow> contender \<Rightarrow> bool" where
  "live_contender sy ct \<longleftrightarrow> sy_parse sy (ct_payload ct) = Some (ct_lease ct)
     \<and> pid_liveness sy (wl_owner_pid (ct_lease ct)) \<noteq> Dead"

lemma live_not_recoverable: "live_contender sy ct \<Longrightarrow> \<not> recoverable sy (ct_payload ct)"
  by (simp add: live_contender_def recoverable_def)

lemma content_member: "settled sy w \<Longrightarrow> content w = Some raw \<Longrightarrow> \<not> recoverable sy raw"
  by (auto simp: settled_def content_def)

lemma settledD:
  assumes "settled sy w"
  shows "pc_settled sy (w_pc w p)" and "inode_of (w_pc w p) = Some i \<Longrightarrow> sole w p i"
  using assms by (simp_all add: settled_def)

text \<open>A step that only moves \<open>p\<close>: to a place without an inode, or keeping it.\<close>

lemma settled_at:
  assumes s: "settled sy w" and c: "pc_settled sy c" "inode_of c = None"
  shows "settled sy (at w p c)"
proof -
  have "sole (at w p c) q i" if "inode_of (w_pc (at w p c) q) = Some i" for q i
    using settledD(2)[OF s, of q i] that c(2) by (auto simp: sole_def split: if_splits)
  then show ?thesis using s c unfolding settled_def by simp
qed

lemma settled_keep:
  assumes s: "settled sy w" and c: "pc_settled sy c" "inode_of (w_pc w p) = inode_of c"
  shows "settled sy (at w p c)"
proof -
  have "inode_of (w_pc (at w p c) q) = inode_of (w_pc w q)" for q using c(2) by simp
  then have "sole (at w p c) q i \<longleftrightarrow> sole w q i" for q i by (simp add: sole_def)
  with s c show ?thesis unfolding settled_def by simp
qed

lemma settled_create:
  assumes s: "settled sy w" and none: "w_path w = None" and empty: "\<not> recoverable sy []"
  shows "settled sy (at (w\<lparr>w_path := Some (length (w_inodes w)), w_inodes := w_inodes w @ [[]]\<rparr>) p (Write (length (w_inodes w))))"
proof -
  have "inode_of (w_pc w q) = None" for q
    using settledD(2)[OF s, of q] none by (cases "inode_of (w_pc w q)") (auto simp: sole_def)
  then show ?thesis using s empty unfolding settled_def sole_def by auto
qed

lemma settled_write:
  assumes s: "settled sy w" and p: "w_pc w p = Write i" and c: "\<not> recoverable sy payload"
  shows "settled sy (at (w\<lparr>w_inodes := (w_inodes w)[i := payload]\<rparr>) p (Holding i))"
proof -
  have "settled sy (w\<lparr>w_inodes := (w_inodes w)[i := payload]\<rparr>)"
    using s c set_update_subset_insert[of "w_inodes w" i payload] unfolding settled_def sole_def by auto
  then show ?thesis using p by (intro settled_keep) simp_all
qed

lemma settled_remove:
  assumes s: "settled sy w" and p: "w_pc w p = Remove i"
  shows "settled sy (at (w\<lparr>w_path := None\<rparr>) p Released)"
proof -
  have "inode_of (w_pc w q) = None" if "q \<noteq> p" for q
    using settledD(2)[OF s, of p i] p that by (simp add: sole_def)
  then show ?thesis using s unfolding settled_def by auto
qed

lemma settled_move:
  assumes s: "settled sy w" and live: "live_contender sy ct" and empty: "\<not> recoverable sy []"
  shows "settled sy (move sy ct fault w p (w_pc w p))"
proof (cases "w_pc w p")
  case (Create n)
  then show ?thesis using settled_create[OF s _ empty, of p]
    by (cases n) (auto intro: settled_at[OF s] split: option.split)
next
  case (Write i)
  then show ?thesis using settled_write[OF s Write live_not_recoverable[OF live]] by (auto intro: settled_at[OF s])
next
  case (Read k)
  then show ?thesis using content_member[OF s] by (auto intro: settled_at[OF s] split: option.split)
next
  case (Judge k raw)
  then show ?thesis using judge_cases[of sy k raw] settledD(1)[OF s, of p] by (auto intro: settled_at[OF s])
next
  case (Holding i)
  then show ?thesis by (auto intro: settled_keep[OF s])
next
  case (Check i)
  then show ?thesis by (auto intro: settled_at[OF s] settled_keep[OF s] split: option.split)
next
  case (Remove i)
  then show ?thesis using settled_remove[OF s Remove] by (auto intro: settled_at[OF s])
qed (use s settledD(1)[OF s, of p] in simp_all)

text \<open>A system whose contenders are all alive, where an empty file is no lease.\<close>

definition contest :: "system \<Rightarrow> (nat \<Rightarrow> contender) \<Rightarrow> bool" where
  "contest sy who \<longleftrightarrow> (\<forall>p. live_contender sy (who p)) \<and> sy_parse sy [] = None"

interpretation lease: stepping "lease_step sy who" "\<lambda>w. contest sy who \<and> settled sy w" for sy who
  by unfold_locales (auto simp: lease_step_def contest_def recoverable_def split: prod.split intro!: settled_move)

lemma settled_start:
  "(case lease of None \<Rightarrow> True | Some raw \<Rightarrow> \<not> recoverable sy raw) \<Longrightarrow> settled sy (start lease)"
  by (auto simp: settled_def start_def split: option.splits)

text \<open>
  C36: a lease nobody may recover has one holder. Start without a lease file, or with one that is not
  provably stale, and let any number of live contenders acquire and release in any interleaving,
  with any of their system calls failing: at no time do two of them hold the lease.
\<close>

theorem at_most_one_holder:
  assumes "contest sy who" and "case lease of None \<Rightarrow> True | Some raw \<Rightarrow> \<not> recoverable sy raw"
    and "holds (run_schedule sy who (start lease) es) p" and "holds (run_schedule sy who (start lease) es) q"
  shows "p = q"
proof -
  let ?w = "run_schedule sy who (start lease) es"
  have "settled sy ?w"
    using lease.run_inv[of sy who "start lease" es] assms(1) settled_start[OF assms(2)] by (simp add: run_schedule_def)
  moreover obtain i where "inode_of (w_pc ?w p) = Some i" using holds_inode[OF assms(3)] by blast
  ultimately have "sole ?w p i" by (rule settledD(2))
  then show ?thesis using holds_inode[OF assms(4)] by (auto simp: sole_def)
qed

section \<open>Recovery\<close>

lemma run_schedule_Cons: "run_schedule sy who w (e # es) = run_schedule sy who (lease_step sy who w e) es"
  and run_schedule_Nil: "run_schedule sy who w [] = w"
  by (simp_all add: run_schedule_def)

lemma judge_recoverable: "recoverable sy raw \<Longrightarrow> judge sy k raw = Reread k raw"
  using judge_cases[of sy k raw] by blast

lemmas follow = run_schedule_Cons run_schedule_Nil lease_step_def start_def MAX_RECOVERY_ATTEMPTS_def content_def
  numeral_eq_Suc judge_recoverable at_def

text \<open>
  a provably stale lease does not block the workspace. A contender that runs alone against a
  lease whose process and process group are gone holds the lease after seven steps, and the file
  then holds its own lease.
\<close>

theorem stale_lease_is_recovered:
  assumes "recoverable sy raw"
  shows "holds (run_schedule sy who (start (Some raw)) (replicate 7 (p, None))) p
    \<and> content (run_schedule sy who (start (Some raw)) (replicate 7 (p, None))) = Some (ct_payload (who p))"
  using assms by (simp add: follow holds_def)

text \<open>The schedule of two contenders: both prove the lease stale, the second recovers it and acquires,
  then the first goes on with its unlink.\<close>

definition overtaken :: "nat \<Rightarrow> nat \<Rightarrow> event list" where
  "overtaken p q = replicate 4 (p, None) @ replicate 7 (q, None) @ replicate 3 (p, None)"

text \<open>
  C37: recovery is not exclusive. Against any provably stale lease, two contenders of different
  processes can both acquire: between the second read, which still finds the stale bytes, and the
  unlink, the other contender recovers and acquires; the unlink then removes that contender's live
  lease, and the create succeeds.
\<close>

theorem two_contenders_can_both_hold:
  assumes "recoverable sy raw" and "p \<noteq> q"
  shows "holds (run_schedule sy who (start (Some raw)) (overtaken p q)) p
    \<and> holds (run_schedule sy who (start (Some raw)) (overtaken p q)) q"
  using assms by (simp add: follow overtaken_def holds_def)

text \<open>What cannot be read as a lease is never recovered.\<close>

lemma unreadable_lease_refuses:
  assumes "sy_parse sy raw = None"
  shows "w_pc (run_schedule sy who (start (Some raw)) (replicate 3 (p, None))) p
    = Refused (busy sy None ''ambiguous'')"
  using assms by (simp add: follow judge_def)

section \<open>A concrete contest\<close>

definition lease_of :: "int \<Rightarrow> workspace_lease" where
  "lease_of pid = \<lparr>wl_hash = ''h'', wl_workspace = ''/w'', wl_run_id = ''r'' @ str_of_int pid, wl_owner_pid = pid,
     wl_owner_process_start = ''m'', wl_owner_process_group = pid, wl_acquired_at = ''t''\<rparr>"

text \<open>Process 7 is gone, every other process is alive.\<close>

definition demo_system :: system where
  "demo_system = \<lparr>sy_kill = (\<lambda>p. if p = 7 then NoSuchProcess else Delivered),
     sy_killpg = (\<lambda>p. if p = 7 then NoSuchProcess else Delivered),
     sy_ps = (\<lambda>p. None), sy_stat = (\<lambda>p. None), sy_sha256 = (\<lambda>s. s),
     sy_parse = (\<lambda>s. case s of [c] \<Rightarrow> Some (lease_of (of_char c)) | _ \<Rightarrow> None),
     sy_run_id = (\<lambda>s. case s of [c] \<Rightarrow> Some (wl_run_id (lease_of (of_char c))) | _ \<Rightarrow> None),
     sy_canonical = ''/w'', sy_lease_path = ''l''\<rparr>"

definition demo_contender :: "nat \<Rightarrow> contender" where
  "demo_contender p = \<lparr>ct_lease = lease_of (if p = 0 then 8 else 9), ct_payload = [if p = 0 then CHR 0x08 else CHR 0x09]\<rparr>"

lemma demo_contest: "contest demo_system demo_contender"
  by (simp add: contest_def live_contender_def demo_system_def demo_contender_def pid_liveness_def lease_of_def)

lemma demo_stale: "recoverable demo_system [CHR 0x07]"
  by (simp add: recoverable_def demo_system_def pid_liveness_def pgid_provably_dead_def lease_of_def)

theorem at_most_one_holder_witness:
  "holds (run_schedule demo_system demo_contender (start None) [(0, None), (0, None)]) 0
   \<and> \<not> holds (run_schedule demo_system demo_contender (start None) [(0, None), (0, None)]) 1"
proof -
  have "holds (run_schedule demo_system demo_contender (start None) [(0, None), (0, None)]) 0"
    by (simp add: follow holds_def)
  moreover from this have "\<not> holds (run_schedule demo_system demo_contender (start None) [(0, None), (0, None)]) 1"
    using at_most_one_holder[OF demo_contest, of None "[(0, None), (0, None)]" 0 1] by auto
  ultimately show ?thesis ..
qed

theorem stale_lease_witness:
  "holds (run_schedule demo_system demo_contender (start (Some [CHR 0x07])) (replicate 7 (0, None))) 0"
  using stale_lease_is_recovered[OF demo_stale, of demo_contender 0] by blast

theorem two_contenders_witness:
  "holds (run_schedule demo_system demo_contender (start (Some [CHR 0x07])) (overtaken 0 1)) 0
   \<and> holds (run_schedule demo_system demo_contender (start (Some [CHR 0x07])) (overtaken 0 1)) 1"
  by (rule two_contenders_can_both_hold[OF demo_stale]) simp

end
