(* ===== verification/Metadata_Log.thy ===== *)
theory Metadata_Log
  imports Vars
begin

text \<open>
  \<open>store/logs.py\<close>: the metadata log. A line carries only keys of a fixed list; a file per day,
  pruned by the date in its name. The JSON text of a line is \<open>json.dumps\<close> with compact separators;
  every value of the model is JSON-serialisable, so the \<open>TypeError\<close> branch does not occur.
\<close>

section \<open>Lines\<close>

definition ALLOWED_DETAIL_FIELDS :: "string list" where
  "ALLOWED_DETAIL_FIELDS = [''status'', ''duration_ms'', ''exit_code'', ''stop_reason'', ''rule_id'',
     ''decision'', ''kind'', ''target'', ''count'', ''path_ref'', ''reason_code'', ''provider_set'', ''route'']"

definition ALLOWED_LEVELS :: "string list" where
  "ALLOWED_LEVELS = [''debug'', ''info'', ''warning'', ''error'']"

text \<open>\<open>repr\<close> of a list of strings.\<close>

definition list_repr :: "string list \<Rightarrow> string" where
  "list_repr xs = ''['' @ join '', '' (map py_repr xs) @ '']''"

text \<open>\<open>_validate\<close>: the text of the ValueError, if it raises one.\<close>

definition validate_line :: "string \<Rightarrow> (string \<times> pyval) list \<Rightarrow> string option" where
  "validate_line level detail =
     (if level \<notin> set ALLOWED_LEVELS
      then Some (''invalid log level '' @ py_repr level @ ''; allowed: '' @ list_repr (sort ALLOWED_LEVELS))
      else (let unknown = sort (filter (\<lambda>k. k \<notin> set ALLOWED_DETAIL_FIELDS) (keys detail))
        in if unknown = [] then None
           else Some (''metadata log detail keys not allowlisted: '' @ join '', '' unknown @ '' (allowed: ''
             @ join '', '' (sort ALLOWED_DETAIL_FIELDS)
             @ ''); metadata logs never carry prompts, payloads, or workspace paths'')))"

record log_call =
  lc_event :: string
  lc_run_id :: "string option"
  lc_step_id :: "string option"
  lc_agent :: "string option"
  lc_level :: string
  lc_detail :: "(string \<times> pyval) list"

definition opt_entry :: "string \<Rightarrow> string option \<Rightarrow> (string \<times> pyval) list" where
  "opt_entry k v = (case v of None \<Rightarrow> [] | Some s \<Rightarrow> [(k, PStr s)])"

text \<open>The \<open>record\<close> dictionary of \<open>log\<close>; \<open>now\<close> is \<open>utc_now_iso()\<close>.\<close>

definition log_record :: "string \<Rightarrow> log_call \<Rightarrow> (string \<times> pyval) list" where
  "log_record now lc =
     [(''ts'', PStr now), (''level'', PStr (lc_level lc)), (''event'', PStr (lc_event lc))]
     @ opt_entry ''run_id'' (lc_run_id lc) @ opt_entry ''step_id'' (lc_step_id lc)
     @ opt_entry ''agent'' (lc_agent lc)
     @ (if lc_detail lc = [] then [] else [(''detail'', PDict (lc_detail lc))])"

text \<open>
  The text as \<open>json.dumps\<close> writes it with its default \<open>ensure_ascii=True\<close>: what lies outside ASCII
  becomes a \<open>\u00xx\<close> escape.
\<close>

definition ascii_char :: "char \<Rightarrow> string" where
  "ascii_char c = (let n = (of_char c :: nat) in
     if n < 127 then [c] else [CHR 0x5C, CHR ''u'', CHR ''0'', CHR ''0''] @ hex2 c)"

definition log_line :: "string \<Rightarrow> log_call \<Rightarrow> string" where
  "log_line now lc = concat (map ascii_char (json_dumps '','' '':'' (PDict (log_record now lc))))"

section \<open>Files\<close>

type_synonym day = "nat \<times> nat \<times> nat"

definition pad :: "nat \<Rightarrow> nat \<Rightarrow> string" where
  "pad n i = (let s = str_of_nat i in replicate (n - length s) (CHR ''0'') @ s)"

fun log_filename :: "day \<Rightarrow> string" where
  "log_filename (y, m, d) = ''ziggy-'' @ pad 4 y @ ''-'' @ pad 2 m @ ''-'' @ pad 2 d @ ''.jsonl''"

text \<open>
  A logger and what it wrote: the open file's day and the lines of each file.
\<close>

record log_store =
  ls_open :: "day option"
  ls_files :: "(string \<times> string list) list"

text \<open>What the file system does to one call: the text of the OSError of the open or of the write.\<close>

record log_weather =
  lw_today :: day
  lw_now :: string
  lw_open_fails :: "string option"
  lw_write_fails :: "string option"

definition log_failed :: "string \<Rightarrow> string \<Rightarrow> string \<Rightarrow> zerror" where
  "log_failed what why path = \<lparr>err_class = PersistenceError, message = what @ why, details = [(''path'', PStr path)]\<rparr>"

text \<open>\<open>_ensure_file\<close>: \<open>dir\<close> is the text of the log directory and the final slash.\<close>

definition ensure_file :: "log_weather \<Rightarrow> string \<Rightarrow> log_store \<Rightarrow> zerror option \<times> log_store" where
  "ensure_file lw dir ls =
     (if ls_open ls = Some (lw_today lw) then (None, ls)
      else (let name = log_filename (lw_today lw); closed = ls\<lparr>ls_open := None\<rparr>
        in case lw_open_fails lw of
             Some why \<Rightarrow> (Some (log_failed ''cannot open metadata log: '' why (dir @ name)), closed)
           | None \<Rightarrow> (None, \<lparr>ls_open = Some (lw_today lw),
               ls_files = AList.update name (get_or [] (ls_files ls) name) (ls_files ls)\<rparr>)))"

text \<open>\<open>MetadataLogger.log\<close>. \<open>Escapes\<close> is the ValueError of \<open>_validate\<close>.\<close>

definition log_write :: "log_weather \<Rightarrow> string \<Rightarrow> log_call \<Rightarrow> log_store \<Rightarrow> unit outcome \<times> log_store" where
  "log_write lw dir lc ls =
     (case validate_line (lc_level lc) (lc_detail lc) of
        Some m \<Rightarrow> (Escapes m, ls)
      | None \<Rightarrow>
          (case ensure_file lw dir ls of
             (Some e, ls1) \<Rightarrow> (Raises e, ls1)
           | (None, ls1) \<Rightarrow> (let name = log_filename (lw_today lw) in
               case lw_write_fails lw of
                 Some why \<Rightarrow> (Raises (log_failed ''metadata log write failed: '' why (dir @ name)), ls1)
               | None \<Rightarrow> (Returns (), ls1\<lparr>ls_files :=
                   AList.update name (get_or [] (ls_files ls1) name @ [log_line (lw_now lw) lc]) (ls_files ls1)\<rparr>))))"

text \<open>\<open>NullLogger.log\<close>.\<close>

definition null_log :: "log_call \<Rightarrow> unit outcome" where
  "null_log lc = (case validate_line (lc_level lc) (lc_detail lc) of Some m \<Rightarrow> Escapes m | None \<Rightarrow> Returns ())"

section \<open>Retention\<close>

definition FILENAME_RE :: re where
  "FILENAME_RE = Seq (lit ''ziggy-'') (Seq (Grp (Rep is_digit 4 (Some 4))) (Seq (lit ''-'')
     (Seq (Grp (Rep is_digit 2 (Some 2))) (Seq (lit ''-'') (Seq (Grp (Rep is_digit 2 (Some 2)))
     (Seq (lit ''.jsonl'') Dollar))))))"

definition leap :: "nat \<Rightarrow> bool" where
  "leap y \<longleftrightarrow> y mod 4 = 0 \<and> (y mod 100 \<noteq> 0 \<or> y mod 400 = 0)"

definition month_days :: "nat \<Rightarrow> nat \<Rightarrow> nat" where
  "month_days y m = (if m = 2 then (if leap y then 29 else 28)
     else if m \<in> {4, 6, 9, 11} then 30 else 31)"

text \<open>\<open>date(y, m, d)\<close> does not raise.\<close>

fun valid_day :: "day \<Rightarrow> bool" where
  "valid_day (y, m, d) \<longleftrightarrow> 1 \<le> y \<and> y \<le> 9999 \<and> 1 \<le> m \<and> m \<le> 12 \<and> 1 \<le> d \<and> d \<le> month_days y m"

definition year_days :: "nat \<Rightarrow> nat" where
  "year_days y = (if leap y then 366 else 365)"

text \<open>\<open>date.toordinal\<close>; a timedelta of days is a difference of ordinals.\<close>

fun ordinal :: "day \<Rightarrow> nat" where
  "ordinal (y, m, d) = sum_list (map year_days [1 ..< y]) + sum_list (map (month_days y) [1 ..< m]) + d"

definition file_day :: "string \<Rightarrow> day option" where
  "file_day name =
     (case ms FILENAME_RE (None, name, []) of
        (p, s, [y, m, d]) # _ \<Rightarrow>
          (let day = (nat (digits_value y), nat (digits_value m), nat (digits_value d))
           in if valid_day day then Some day else None)
      | _ \<Rightarrow> None)"

text \<open>\<open>_prune\<close>: what remains of a directory; \<open>stuck\<close> are the names whose unlink raises an OSError.\<close>

definition expired :: "nat \<Rightarrow> day \<Rightarrow> string \<Rightarrow> bool" where
  "expired retention today name = (case file_day name of
     None \<Rightarrow> False | Some day \<Rightarrow> ordinal day + retention < ordinal today)"

definition prune :: "nat \<Rightarrow> day \<Rightarrow> (string \<Rightarrow> bool) \<Rightarrow> string list \<Rightarrow> string list" where
  "prune retention today stuck entries = filter (\<lambda>n. \<not> expired retention today n \<or> stuck n) entries"

section \<open>Facts\<close>

lemma sort_Nil_iff [simp]: "sort xs = [] \<longleftrightarrow> xs = []"
  by (metis length_0_conv length_sort)

lemma validate_line_None:
  "validate_line level detail = None \<longleftrightarrow> level \<in> set ALLOWED_LEVELS \<and> set (keys detail) \<subseteq> set ALLOWED_DETAIL_FIELDS"
  by (auto simp: validate_line_def Let_def filter_empty_conv)

lemma digit_char_digit: "d < 10 \<Longrightarrow>
  is_digit (digit_char d) \<and> (of_char (digit_char d) :: int) = 48 + int d"
proof -
  assume d: "d < 10"
  then have "(48 + d) mod 256 = 48 + d" by simp
  then have n: "(of_char (digit_char d) :: nat) = 48 + d" by (simp add: digit_char_def)
  have "(of_char (digit_char d) :: int) = int (of_char (digit_char d))" by (metis of_nat_of_char)
  with n d show "is_digit (digit_char d) \<and> (of_char (digit_char d) :: int) = 48 + int d"
    by (simp add: in_range_def)
qed

lemma numeral_snoc: "digits_value (ds @ [c]) = 10 * digits_value ds + (of_char c - 48)"
  by (simp add: digits_value_def)

lemma digits_value_str_of_nat: "digits_value (str_of_nat i) = int i"
proof (induction i rule: str_of_nat.induct)
  case (1 i)
  show ?case
  proof (cases "i < 10")
    case True
    then show ?thesis using digit_char_digit[of i] by (subst str_of_nat.simps) (simp add: digits_value_def)
  next
    case False
    with 1 have "digits_value (str_of_nat i) = 10 * int (i div 10) + int (i mod 10)"
      using digit_char_digit[of "i mod 10"] by (subst str_of_nat.simps) (simp add: numeral_snoc)
    also have "\<dots> = int (10 * (i div 10) + i mod 10)"
      by (simp only: of_nat_add of_nat_mult of_nat_numeral)
    finally show ?thesis by (simp only: mult_div_mod_eq)
  qed
qed

lemma digits_str_of_nat: "list_all is_digit (str_of_nat i)"
proof (induction i rule: str_of_nat.induct)
  case (1 i)
  then show ?case
    using digit_char_digit[of i] digit_char_digit[of "i mod 10"]
    by (subst str_of_nat.simps) simp
qed

lemma length_str_of_nat: "i < 10 ^ n \<Longrightarrow> 0 < n \<Longrightarrow> length (str_of_nat i) \<le> n"
proof (induction n arbitrary: i)
  case (Suc n)
  show ?case
  proof (cases "i < 10")
    case True
    then show ?thesis by (subst str_of_nat.simps) simp
  next
    case False
    with Suc.prems have n: "0 < n" by (cases n) auto
    have "i div 10 < 10 ^ n" using Suc.prems by (simp add: less_mult_imp_div_less)
    from Suc.IH[OF this n] False show ?thesis by (subst str_of_nat.simps) simp
  qed
qed simp

lemma digits_value_zeros: "digits_value (replicate n (CHR ''0'') @ s) = digits_value s"
  by (induction n) (simp_all add: digits_value_def)

lemma pad_digits:
  assumes "i < 10 ^ n" "0 < n"
  shows "length (pad n i) = n" "list_all is_digit (pad n i)" "digits_value (pad n i) = int i"
  using length_str_of_nat[OF assms] digits_str_of_nat[of i]
  by (auto simp: pad_def Let_def digits_value_zeros digits_value_str_of_nat list_all_iff in_range_def)

lemma ms_rep_exact:
  assumes "length ds = n" "list_all f ds" "0 < n"
  shows "ms (Rep f n (Some n)) (p, ds @ s, gs) = [(Some (last ds), s, gs)]"
proof -
  have "takeWhile f (ds @ s) = ds @ takeWhile f s"
    using assms(2) by (simp add: takeWhile_append2 list_all_iff)
  then have "run_len f (Some n) (ds @ s) = n" using assms(1) by (simp add: run_len_def)
  moreover have "(ds @ s) ! (n - 1) = last ds"
    using assms by (cases "ds = []") (auto simp: nth_append last_conv_nth)
  ultimately show ?thesis using assms by (simp add: advance_def)
qed

lemma ms_grp_exact:
  assumes "length ds = n" "list_all f ds" "0 < n"
  shows "ms (Grp (Rep f n (Some n))) (p, ds @ s, gs) = [(Some (last ds), s, gs @ [ds])]"
  using ms_rep_exact[OF assms] by (simp del: ms.simps(5))

lemma lit_consumes: "ms (lit l) (p, l @ s, gs) = [(if l = [] then p else Some (last l), s, gs)]"
proof (induction l arbitrary: p)
  case Nil
  then show ?case by (simp add: lit_def)
next
  case (Cons c l)
  then show ?case unfolding lit_def by simp
qed

lemma month_days_bound: "month_days y m < 100"
  by (simp add: month_days_def)

lemma file_day_of:
  assumes "length y = 4" "list_all is_digit y" "length m = 2" "list_all is_digit m" "length d = 2" "list_all is_digit d"
  shows "file_day (''ziggy-'' @ y @ ''-'' @ m @ ''-'' @ d @ ''.jsonl'') =
    (let day = (nat (digits_value y), nat (digits_value m), nat (digits_value d)) in if valid_day day then Some day else None)"
proof -
  have "ms FILENAME_RE (None, ''ziggy-'' @ y @ ''-'' @ m @ ''-'' @ d @ ''.jsonl'' @ [], []) =
      [(Some (CHR ''l''), [], [y, m, d])]"
    unfolding FILENAME_RE_def ms.simps(3)
    by (simp only: lit_consumes ms_grp_exact[OF assms(1,2)] ms_grp_exact[OF assms(3,4)] ms_grp_exact[OF assms(5,6)]
        list.map concat.simps append_Nil append_Nil2) (simp add: lit_def)
  then show ?thesis by (simp add: file_day_def Let_def)
qed

section \<open>Properties\<close>

text \<open>the name of a day's log file gives the day back: for every date of the calendar the pruning
  pattern accepts the name the logger writes under, and reads the same date from it. So pruning sees
  every file the logger made, by its true age, and a name with an impossible date is left alone.\<close>

theorem log_filename_roundtrip:
  assumes "valid_day day"
  shows "file_day (log_filename day) = Some day
    \<and> (expired retention today (log_filename day) \<longleftrightarrow> ordinal day + retention < ordinal today)"
proof -
  obtain y m d where day: "day = (y, m, d)" by (cases day)
  have "y < 10 ^ 4" "m < 10 ^ 2" "d < 10 ^ 2"
    using assms month_days_bound[of y m] by (auto simp: day)
  then have "file_day (log_filename day) = Some day"
    using assms file_day_of[of "pad 4 y" "pad 2 m" "pad 2 d"] pad_digits[of y 4] pad_digits[of m 2] pad_digits[of d 2]
    by (simp add: day)
  then show ?thesis by (simp add: expired_def)
qed

theorem log_filename_roundtrip_witness:
  "valid_day (2024, 2, 29) \<and> file_day ''ziggy-2024-02-29.jsonl'' = Some (2024, 2, 29)
   \<and> file_day ''ziggy-2023-02-29.jsonl'' = None"
proof -
  have v: "valid_day (2024, 2, 29)" by (simp add: month_days_def leap_def)
  have n: "log_filename (2024, 2, 29) = ''ziggy-2024-02-29.jsonl''" by code_simp
  have "file_day ''ziggy-2023-02-29.jsonl'' = None" by code_simp
  with log_filename_roundtrip[OF v, of 30 "(2024, 3, 1)"] v show ?thesis unfolding n by blast
qed

end
