(* ===== verification/Effects.thy ===== *)
theory Effects
  imports Recorder_Aggregates Metadata_Log
begin

text \<open>
  The effects of the engine's coroutines, shared by the process client, the mediation hooks, the step
  runner and the two run drivers. A computation takes the engine state and gives a result and the new
  state. A result is a value, a Python exception, or \<open>Hang\<close>: an await that nothing ever completes.
  What the outside decides (the agent's answers, the disk, the clock) comes in as an argument.
\<close>

section \<open>State\<close>

datatype exn =
    Zig zerror                       \<comment> \<open>an exception of \<open>errors.py\<close>\<close>
  | PolicyDenied string
  | UnsupportedByPolicy string
  | Python string                    \<comment> \<open>any other, by its text\<close>

datatype 'a res = Ok 'a | Raise exn | Hang

text \<open>What a run does, in order.\<close>

datatype act =
    Emitted emission
  | Logged log_call
  | Spawned int string               \<comment> \<open>the pid and the command\<close>
  | Signalled int string             \<comment> \<open>the process group and the signal\<close>
  | Reaped int
  | DiskRead string
  | DiskWrite string string
  | LeaseTaken
  | LeaseFreed
  | SavedResult
  | Indexed

text \<open>
  The fields from \<open>en_session\<close> on belong to the step that is running: the session and the two stream
  guards of its hooks, \<open>returncode\<close> and \<open>_conn_closed\<close> of its client and the \<open>shutdown_done\<close> of
  \<open>execute_step\<close>.
\<close>

record engine =
  en_rc :: recorder
  en_log :: log_store
  en_log_calls :: nat
  en_acts :: "act list"
  en_session :: "string option"
  en_message :: "string option"
  en_thought :: "string option"
  en_exit :: "int option"
  en_closed :: bool
  en_shut :: bool

type_synonym 'a eng = "engine \<Rightarrow> 'a res \<times> engine"

datatype logger = NoLogger | NullLogger | FileLogger string

text \<open>\<open>se_seconds\<close> is the text of a duration as a float of seconds.\<close>

record setting =
  se_recording :: surroundings
  se_logger :: logger
  se_weather :: "nat \<Rightarrow> log_weather"
  se_seconds :: "int \<Rightarrow> string"

section \<open>Sequencing\<close>

definition ok :: "'a \<Rightarrow> 'a eng" where
  "ok x s = (Ok x, s)"

definition raise :: "exn \<Rightarrow> 'a eng" where
  "raise x s = (Raise x, s)"

definition andthen :: "'a eng \<Rightarrow> ('a \<Rightarrow> 'b eng) \<Rightarrow> 'b eng" where
  "andthen m f s = (case m s of
     (Ok x, s') \<Rightarrow> f x s' | (Raise x, s') \<Rightarrow> (Raise x, s') | (Hang, s') \<Rightarrow> (Hang, s'))"

definition followed :: "unit eng \<Rightarrow> 'b eng \<Rightarrow> 'b eng" where
  "followed m k = andthen m (\<lambda>_. k)"

text \<open>\<open>try: m except E as exc\<close>, where \<open>caught\<close> says what \<open>E\<close> catches: the exception becomes a value.\<close>

definition attempt_of :: "(exn \<Rightarrow> 'e option) \<Rightarrow> 'a eng \<Rightarrow> ('e + 'a) eng" where
  "attempt_of caught m s = (case m s of
     (Ok x, s') \<Rightarrow> (Ok (Inr x), s')
   | (Raise x, s') \<Rightarrow> (case caught x of Some e \<Rightarrow> (Ok (Inl e), s') | None \<Rightarrow> (Raise x, s'))
   | (Hang, s') \<Rightarrow> (Hang, s'))"

definition typed :: "error_class list \<Rightarrow> exn \<Rightarrow> zerror option" where
  "typed cs x = (case x of Zig e \<Rightarrow> if err_class e \<in> set cs then Some e else None | _ \<Rightarrow> None)"

text \<open>\<open>try: m finally: c\<close>: an exception of the cleanup replaces the result.\<close>

definition finally_do :: "'a eng \<Rightarrow> unit eng \<Rightarrow> 'a eng" where
  "finally_do m c s = (case m s of
     (Hang, s') \<Rightarrow> (Hang, s')
   | (r, s') \<Rightarrow> (case c s' of
        (Ok u, s'') \<Rightarrow> (r, s'') | (Raise x, s'') \<Rightarrow> (Raise x, s'') | (Hang, s'') \<Rightarrow> (Hang, s'')))"

definition modify :: "(engine \<Rightarrow> engine) \<Rightarrow> unit eng" where
  "modify f s = (Ok (), f s)"

definition reads :: "(engine \<Rightarrow> 'a) \<Rightarrow> 'a eng" where
  "reads f s = (Ok (f s), s)"

definition act :: "act \<Rightarrow> unit eng" where
  "act a = modify (\<lambda>s. s\<lparr>en_acts := en_acts s @ [a]\<rparr>)"

lemma followed_act: "followed (act a) k s = k (s\<lparr>en_acts := en_acts s @ [a]\<rparr>)"
  by (simp add: followed_def andthen_def act_def modify_def)

text \<open>Running a computation whose first part returns.\<close>

lemma andthen_Ok: "fst (m s) = Ok x \<Longrightarrow> andthen m f s = f x (snd (m s))"
  by (cases "m s") (simp add: andthen_def)

lemma followed_Ok: "fst (m s) = Ok () \<Longrightarrow> followed m k s = k (snd (m s))"
  by (simp add: followed_def andthen_Ok)

fun each :: "('a \<Rightarrow> unit eng) \<Rightarrow> 'a list \<Rightarrow> unit eng" where
  "each f [] = ok ()"
| "each f (x # xs) = followed (f x) (each f xs)"

section \<open>Events and log lines\<close>

definition event :: "string \<Rightarrow> step_key \<Rightarrow> int option \<Rightarrow> string option \<Rightarrow> payload \<Rightarrow> emission" where
  "event t step attempt_no session body = \<lparr>em_type = t, em_step = step, em_attempt = attempt_no,
     em_session = session, em_payload = body, em_status = ''complete'', em_ref = None\<rparr>"

fun emit_error_text :: "emit_error \<Rightarrow> string" where
  "emit_error_text (UnknownEventType t) = ''ValueError: unknown event type '' @ py_repr t"
| "emit_error_text (BadCaptureStatus t) = ''ValueError: capture status '' @ py_repr t"
| "emit_error_text (WriteError m) = m"

definition emit_event :: "setting \<Rightarrow> emission \<Rightarrow> unit eng" where
  "emit_event w em s =
     (case emit (se_recording w) (en_rc s) em of (rc', r) \<Rightarrow>
        (let s' = s\<lparr>en_rc := rc', en_acts := en_acts s @ [Emitted em]\<rparr>
         in case r of Inl x \<Rightarrow> (Raise (Python (emit_error_text x)), s') | Inr e \<Rightarrow> (Ok (), s')))"

definition error_payload :: "zerror \<Rightarrow> payload" where
  "error_payload e = [(''code'', PStr (error_code (err_class e))), (''message'', PStr (message e)),
     (''details'', PDict (details e))]"

text \<open>\<open>_mlog\<close>: a PersistenceError of the write is suppressed, the ValueError of a key is not.\<close>

definition mlog :: "setting \<Rightarrow> log_call \<Rightarrow> unit eng" where
  "mlog w lc s =
     (case se_logger w of
        NoLogger \<Rightarrow> (Ok (), s)
      | NullLogger \<Rightarrow> (case null_log lc of Escapes m \<Rightarrow> (Raise (Python m), s) | _ \<Rightarrow> (Ok (), s))
      | FileLogger dir \<Rightarrow>
          (case log_write (se_weather w (en_log_calls s)) dir lc (en_log s) of (r, ls) \<Rightarrow>
             (let s' = s\<lparr>en_log := ls, en_log_calls := en_log_calls s + 1, en_acts := en_acts s @ [Logged lc]\<rparr>
              in case r of Escapes m \<Rightarrow> (Raise (Python m), s') | _ \<Rightarrow> (Ok (), s'))))"

definition log_entry ::
  "string \<Rightarrow> string option \<Rightarrow> string option \<Rightarrow> string option \<Rightarrow> string \<Rightarrow> payload \<Rightarrow> log_call" where
  "log_entry e run step agent level detail = \<lparr>lc_event = e, lc_run_id = run, lc_step_id = step,
     lc_agent = agent, lc_level = level, lc_detail = detail\<rparr>"

text \<open>
  When no append raises anything but a PersistenceError, which the recorder collects, an emission of
  a known event succeeds.
\<close>

lemma record_event_returns:
  assumes "never_raises v"
  shows "\<exists>e. snd (record_event v rc em t body st mark ref) = Inr e"
  using assms
  by (auto simp: never_raises_def record_event_def write_line_def account_def tick_def Let_def
      split: option.splits prod.splits write_outcome.splits if_splits)

definition sends :: "recorder \<times> ('e + 'a) \<Rightarrow> bool" where
  "sends x \<longleftrightarrow> (\<exists>y. snd x = Inr y)"

lemma sends_finish:
  assumes "never_raises v"
  shows "sends (case record_event v rc em t body st mark ref of (rc', r) \<Rightarrow> (rc', case r of Inl x \<Rightarrow> Inl x | Inr e \<Rightarrow> Inr (Some e)))"
  using record_event_returns[OF assms, of rc em t body st mark ref] by (auto simp: sends_def split: prod.splits)

lemma sends_continue: "never_raises v \<Longrightarrow> sends (continue_truncated v rc em p ref)"
  unfolding continue_truncated_def Let_def
  by (auto intro: sends_finish simp: sends_def[of "(_, Inr None)"])

lemma sends_ceiling:
  assumes nr: "never_raises v"
  shows "sends (check_ceiling v rc em p ref)"
proof -
  obtain rc' e where r: "record_event v ((tick rc)\<lparr>rc_truncated := insert (em_step em) (rc_truncated rc)\<rparr>) em ''truncation''
      [(''limit_bytes'', PInt (int (max_event_bytes_per_step (rc_limits rc)))),
       (''bytes_at_truncation'', PInt (int (get_or 0 (rc_step_bytes rc) (em_step em))))] Complete no_mark None = (rc', Inr e)"
    using record_event_returns[OF nr] by (metis prod.collapse)
  have t: "(tick rc)\<lparr>rc_truncated := insert (em_step em) (rc_truncated (tick rc))\<rparr> =
      (tick rc)\<lparr>rc_truncated := insert (em_step em) (rc_truncated rc)\<rparr>" by (simp add: tick_def)
  show ?thesis
    unfolding check_ceiling_def Let_def
    by (simp only: r prod.case sum.case sends_finish[OF nr] if_True split: if_split) simp
qed

lemma sends_emit:
  assumes "never_raises v" and "em_type em \<in> set EVENT_TYPES" and "em_status em = ''complete''"
  shows "sends (emit v rc em)"
proof -
  obtain rc1 p where p: "prepare_body rc em Complete = (rc1, p)" by fastforce
  have c: "capture_status_of ''complete'' = Some Complete" by (simp add: capture_status_of_def)
  show ?thesis
    using assms(2) unfolding emit_def Let_def assms(3) c option.case p prod.case
    by (auto intro: sends_finish[OF assms(1)] sends_continue[OF assms(1)] sends_ceiling[OF assms(1)]
        simp: sends_def[of "(_, Inr None)"])
qed

lemma emit_event_Ok:
  assumes "never_raises (se_recording w)" and "em_type em \<in> set EVENT_TYPES" and "em_status em = ''complete''"
  shows "fst (emit_event w em s) = Ok ()"
proof -
  obtain rc' e where "emit (se_recording w) (en_rc s) em = (rc', Inr e)"
    using sends_emit[OF assms] unfolding sends_def by (metis prod.collapse)
  then show ?thesis by (simp add: emit_event_def Let_def)
qed

section \<open>What a computation adds to the record of acts\<close>

text \<open>
  \<open>adds P m\<close>: from every state \<open>m\<close> only appends acts, all of which satisfy \<open>P\<close>; \<open>gives Q m\<close>: every
  value \<open>m\<close> returns satisfies \<open>Q\<close>. Both follow the structure of a computation.
\<close>

named_theorems adds_intros "acts of composed computations"

definition adds :: "(act \<Rightarrow> bool) \<Rightarrow> 'a eng \<Rightarrow> bool" where
  "adds P m \<longleftrightarrow> (\<forall>s. \<exists>new. en_acts (snd (m s)) = en_acts s @ new \<and> list_all P new)"

definition gives :: "('a \<Rightarrow> bool) \<Rightarrow> 'a eng \<Rightarrow> bool" where
  "gives Q m \<longleftrightarrow> (\<forall>s x s'. m s = (Ok x, s') \<longrightarrow> Q x)"

lemma addsI: "(\<And>s. \<exists>new. en_acts (snd (m s)) = en_acts s @ new \<and> list_all P new) \<Longrightarrow> adds P m"
  by (simp add: adds_def)

lemma adds_frame: "(\<And>s. en_acts (snd (m s)) = en_acts s) \<Longrightarrow> adds P m"
  by (simp add: adds_def)

lemma adds_append:
  assumes "en_acts t = en_acts s @ new" and "list_all P new" and "\<exists>late. en_acts u = en_acts t @ late \<and> list_all P late"
  shows "\<exists>new. en_acts u = en_acts s @ new \<and> list_all P new"
proof -
  from assms(3) obtain late where "en_acts u = en_acts t @ late" "list_all P late" by blast
  with assms(1,2) have "en_acts u = en_acts s @ (new @ late) \<and> list_all P (new @ late)" by simp
  then show ?thesis by blast
qed

lemma adds_andthen_gives:
  assumes "adds P m" and "gives Q m" and "\<And>x. Q x \<Longrightarrow> adds P (f x)"
  shows "adds P (andthen m f)"
proof (rule addsI)
  fix s
  obtain r s1 where m: "m s = (r, s1)" by (cases "m s")
  from assms(1) m obtain new where new: "en_acts s1 = en_acts s @ new" "list_all P new"
    unfolding adds_def by (metis snd_conv)
  show "\<exists>new. en_acts (snd (andthen m f s)) = en_acts s @ new \<and> list_all P new"
  proof (cases r)
    case (Ok x)
    with assms(2) m have "Q x" unfolding gives_def by blast
    from assms(3)[OF this] have "\<exists>late. en_acts (snd (f x s1)) = en_acts s1 @ late \<and> list_all P late"
      unfolding adds_def by blast
    from adds_append[OF new this] show ?thesis by (simp add: andthen_def m Ok)
  qed (use new m in \<open>auto simp: andthen_def\<close>)
qed

lemma adds_andthen [adds_intros]: "adds P m \<Longrightarrow> (\<And>x. adds P (f x)) \<Longrightarrow> adds P (andthen m f)"
  by (rule adds_andthen_gives[where Q = "\<lambda>_. True"]) (simp_all add: gives_def)

lemma adds_followed [adds_intros]: "adds P m \<Longrightarrow> adds P k \<Longrightarrow> adds P (followed m k)"
  unfolding followed_def by (rule adds_andthen)

lemma adds_ok [adds_intros]: "adds P (ok x)" "adds P (raise e)" "adds P (reads g)"
  by (auto simp: adds_def ok_def raise_def reads_def)

lemma adds_act [adds_intros]: "P a \<Longrightarrow> adds P (act a)"
  by (auto simp: adds_def act_def modify_def)

lemma adds_modify [adds_intros]: "(\<And>s. en_acts (g s) = en_acts s) \<Longrightarrow> adds P (modify g)"
  by (auto simp: adds_def modify_def)

lemma snd_attempt [simp]: "snd (attempt_of c m s) = snd (m s)"
  by (auto simp: attempt_of_def split: prod.splits res.splits option.splits)

lemma adds_attempt [adds_intros]: "adds P m \<Longrightarrow> adds P (attempt_of c m)"
  by (simp add: adds_def)

lemma adds_finally [adds_intros]:
  assumes "adds P m" and "adds P c"
  shows "adds P (finally_do m c)"
proof (rule addsI)
  fix s
  obtain r s1 where m: "m s = (r, s1)" by (cases "m s")
  obtain q s2 where c: "c s1 = (q, s2)" by (cases "c s1")
  from assms(1) m obtain new where new: "en_acts s1 = en_acts s @ new" "list_all P new"
    unfolding adds_def by (metis snd_conv)
  have "\<exists>late. en_acts s2 = en_acts s1 @ late \<and> list_all P late"
    using assms(2) c unfolding adds_def by (metis snd_conv)
  from adds_append[OF new this] new show "\<exists>new. en_acts (snd (finally_do m c s)) = en_acts s @ new \<and> list_all P new"
    by (cases r; cases q) (auto simp: finally_do_def m c)
qed

lemma adds_if [adds_intros]: "(b \<Longrightarrow> adds P m) \<Longrightarrow> (\<not> b \<Longrightarrow> adds P k) \<Longrightarrow> adds P (if b then m else k)"
  by simp

lemma adds_option [adds_intros]:
  "(x = None \<Longrightarrow> adds P m) \<Longrightarrow> (\<And>y. x = Some y \<Longrightarrow> adds P (f y)) \<Longrightarrow>
   adds P (case x of None \<Rightarrow> m | Some y \<Rightarrow> f y)"
  by (cases x) auto

lemma adds_sum [adds_intros]:
  "(\<And>e. x = Inl e \<Longrightarrow> adds P (f e)) \<Longrightarrow> (\<And>y. x = Inr y \<Longrightarrow> adds P (g y)) \<Longrightarrow>
   adds P (case x of Inl e \<Rightarrow> f e | Inr y \<Rightarrow> g y)"
  by (cases x) auto

lemma adds_prod [adds_intros]:
  "(\<And>a b. x = (a, b) \<Longrightarrow> adds P (f a b)) \<Longrightarrow> adds P (case x of (a, b) \<Rightarrow> f a b)"
  by (cases x) auto

lemma adds_emit: "P (Emitted em) \<Longrightarrow> adds P (emit_event w em)"
  by (auto simp: adds_def emit_event_def Let_def split: prod.splits sum.splits)

lemma adds_mlog: "P (Logged lc) \<Longrightarrow> adds P (mlog w lc)"
  by (auto simp: adds_def mlog_def Let_def split: logger.splits outcome.splits prod.splits)

lemma adds_mono: "adds P m \<Longrightarrow> (\<And>a. P a \<Longrightarrow> Q a) \<Longrightarrow> adds Q m"
  unfolding adds_def by (meson list.pred_mono_strong)

lemma gives_andthen: "(\<And>x. gives Q (f x)) \<Longrightarrow> gives Q (andthen m f)"
  by (auto simp: gives_def andthen_def split: prod.splits res.splits)

section \<open>A concrete engine\<close>

definition demo_setting :: setting where
  "demo_setting = \<lparr>se_recording = demo_world, se_logger = FileLogger ''/logs/'',
     se_weather = (\<lambda>n. \<lparr>lw_today = (2026, 1, 1), lw_now = ''2026-01-01T00:00:00Z'', lw_open_fails = None,
       lw_write_fails = None\<rparr>), se_seconds = str_of_int\<rparr>"

text \<open>A recorder with the default limits, in memory.\<close>

definition roomy_recorder :: "redactor \<Rightarrow> recorder" where
  "roomy_recorder rx = the (new_recorder ''r'' None rx ''standard'' DEFAULT_LIMITS False)"

definition engine_of :: "recorder \<Rightarrow> engine" where
  "engine_of rc = \<lparr>en_rc = rc, en_log = \<lparr>ls_open = None, ls_files = []\<rparr>, en_log_calls = 0, en_acts = [],
     en_session = None, en_message = None, en_thought = None, en_exit = None, en_closed = False, en_shut = False\<rparr>"

end
