(* ===== verification/Stream_Guard.thy ===== *)
theory Stream_Guard
  imports Redactor_Safety
begin

text \<open>
  \<open>engine/hooks.py\<close>, the boundary-aware streaming redaction of a step's transcript: \<open>_StreamGuard\<close>
  holds back the tail of a chunk that could still grow into a match and redacts what it lets go as
  a complete text. The lemmas say when that hides a secret that a stream cuts in two, and the last
  section shows two ways in which it does not.
\<close>

section \<open>The guard\<close>

definition PROBE_FILLER :: string where
  "PROBE_FILLER = concat (replicate 56 ''aA0bZ9cX7wK4'')"

text \<open>\<open>_exact_partial_start\<close>: the least position from which the buffer is a proper prefix of the value.\<close>

definition exact_partial_start :: "string \<Rightarrow> string \<Rightarrow> nat \<Rightarrow> nat option" where
  "exact_partial_start v buf lo =
     (let n = length buf in
      find (\<lambda>i. startswith v (drop i buf)) [max lo (n + 1 - length v) ..< n])"

text \<open>\<open>_regex_partial_start\<close>: \<open>pattern.match(probe, i)\<close> sees the text before \<open>i\<close>.\<close>

definition before_at :: "string \<Rightarrow> nat \<Rightarrow> char option" where
  "before_at s i = (if i = 0 then None else Some (s ! (i - 1)))"

definition regex_partial_start :: "re \<Rightarrow> string \<Rightarrow> nat \<Rightarrow> nat \<Rightarrow> nat option" where
  "regex_partial_start r buf lo n =
     (let probe = buf @ PROBE_FILLER in
      find (\<lambda>i. case ms r (before_at probe i, drop i probe, []) of
              [] \<Rightarrow> False
            | (p, s, gs) # _ \<Rightarrow> length probe - length s > n) [lo ..< n])"

fun partial_start :: "string \<Rightarrow> nat \<Rightarrow> nat \<Rightarrow> matcher \<Rightarrow> nat option" where
  "partial_start buf lo n (Exact k v) = exact_partial_start v buf lo"
| "partial_start buf lo n (Regex k r w t) = regex_partial_start r buf lo n"

text \<open>\<open>_safe_emit_len\<close>: the earliest partial start over the matchers, or the end.\<close>

definition earliest :: "('m \<Rightarrow> nat option) \<Rightarrow> nat \<Rightarrow> 'm list \<Rightarrow> nat" where
  "earliest f n mats = foldl (\<lambda>e m. case f m of None \<Rightarrow> e | Some i \<Rightarrow> if i < e then i else e) n mats"

definition safe_emit_len :: "string \<Rightarrow> matcher list \<Rightarrow> nat \<Rightarrow> nat" where
  "safe_emit_len buf mats width =
     (let n = length buf; lo = n - width in
      if n = 0 then 0
      else earliest (partial_start buf lo n) n mats)"

text \<open>\<open>_StreamGuard.feed\<close> and \<open>flush\<close>: a guard is the text it holds; it shares the run's redactor.\<close>

definition guard_feed :: "redactor \<Rightarrow> string \<Rightarrow> string \<Rightarrow> redactor \<times> string \<times> string" where
  "guard_feed rx held chunk =
     (let buf = held @ chunk; n = safe_emit_len buf (rx_stream_matchers rx) (rx_window rx);
          emit_raw = take n buf; held' = drop n buf
      in if emit_raw = [] then (rx, held', [])
         else (case redact_text rx emit_raw of (rx', out, counts) \<Rightarrow> (rx', held', out)))"

definition guard_flush :: "redactor \<Rightarrow> string \<Rightarrow> redactor \<times> string \<times> string" where
  "guard_flush rx held =
     (if held = [] then (rx, held, [])
      else (case redact_text rx held of (rx', out, counts) \<Rightarrow> (rx', [], out)))"

text \<open>A whole stream: the chunks in turn, then the flush at the end of the turn.\<close>

fun guard_run :: "redactor \<Rightarrow> string \<Rightarrow> string list \<Rightarrow> redactor \<times> string" where
  "guard_run rx held [] = (case guard_flush rx held of (rx', h, out) \<Rightarrow> (rx', out))"
| "guard_run rx held (c # cs) = (case guard_feed rx held c of (rx', held', out) \<Rightarrow>
     (case guard_run rx' held' cs of (rx2, rest) \<Rightarrow> (rx2, out @ rest)))"

section \<open>Where the guard cuts\<close>

text \<open>A matcher could be in the middle of a match at position \<open>i\<close>.\<close>

definition partial_at :: "string \<Rightarrow> nat \<Rightarrow> matcher \<Rightarrow> nat \<Rightarrow> bool" where
  "partial_at buf lo m i \<longleftrightarrow> (case m of
     Exact k v \<Rightarrow> lo \<le> i \<and> i < length buf \<and> length buf < i + length v \<and> startswith v (drop i buf)
   | Regex k r w t \<Rightarrow> lo \<le> i \<and> i < length buf
       \<and> (case ms r (before_at (buf @ PROBE_FILLER) i, drop i (buf @ PROBE_FILLER), []) of
            [] \<Rightarrow> False
          | (p, s, gs) # _ \<Rightarrow> length (buf @ PROBE_FILLER) - length s > length buf))"

lemma find_least:
  assumes "\<And>i. Q i \<longleftrightarrow> a \<le> i \<and> i < b \<and> P i"
  shows "(\<forall>i. find P [a ..< b] = Some i \<longrightarrow> Q i \<and> (\<forall>j. Q j \<longrightarrow> i \<le> j))
    \<and> (find P [a ..< b] = None \<longrightarrow> (\<forall>j. \<not> Q j))"
proof (intro conjI allI impI)
  fix i assume "find P [a ..< b] = Some i"
  then obtain k where k: "k < b - a" "P (a + k)" "i = a + k" and first: "\<forall>j < k. \<not> P ([a ..< b] ! j)"
    unfolding find_Some_iff by fastforce
  then show "Q i" using assms[of i] by simp
  fix j assume "Q j"
  then have j: "a \<le> j" "j < b" "P j" using assms[of j] by blast+
  show "i \<le> j"
  proof (rule ccontr)
    assume "\<not> i \<le> j"
    with j k have "j - a < k" "[a ..< b] ! (j - a) = j" by auto
    with first j(3) show False by metis
  qed
next
  fix j assume "find P [a ..< b] = None"
  then have "\<forall>x. a \<le> x \<and> x < b \<longrightarrow> \<not> P x" unfolding find_None_iff by auto
  then show "\<not> Q j" using assms[of j] by blast
qed

lemma partial_start_least:
  "(\<forall>i. partial_start buf lo (length buf) m = Some i \<longrightarrow>
      partial_at buf lo m i \<and> (\<forall>j. partial_at buf lo m j \<longrightarrow> i \<le> j))
   \<and> (partial_start buf lo (length buf) m = None \<longrightarrow> (\<forall>j. \<not> partial_at buf lo m j))"
proof (cases m)
  case (Exact k v)
  show ?thesis
    unfolding Exact partial_start.simps exact_partial_start_def Let_def
    by (rule find_least) (auto simp: partial_at_def)
next
  case (Regex k r w t)
  show ?thesis
    unfolding Regex partial_start.simps regex_partial_start_def Let_def
    by (rule find_least) (simp only: partial_at_def matcher.case conj_assoc)
qed

lemma earliest_least:
  "earliest f n mats \<le> n \<and> (\<forall>m \<in> set mats. \<forall>i. f m = Some i \<longrightarrow> earliest f n mats \<le> i)
   \<and> (earliest f n mats = n \<or> (\<exists>m \<in> set mats. f m = Some (earliest f n mats)))"
proof (induction mats arbitrary: n)
  case Nil
  show ?case by (simp add: earliest_def)
next
  case (Cons m mats)
  define e where "e = (case f m of None \<Rightarrow> n | Some i \<Rightarrow> if i < n then i else n)"
  have s: "earliest f n (m # mats) = earliest f e mats" by (simp add: earliest_def e_def)
  have "e \<le> n" "\<forall>i. f m = Some i \<longrightarrow> e \<le> i" "e = n \<or> f m = Some e"
    by (auto simp: e_def split: option.splits)
  moreover from Cons[of e] have "earliest f e mats \<le> e" "\<forall>m \<in> set mats. \<forall>i. f m = Some i \<longrightarrow> earliest f e mats \<le> i"
    "earliest f e mats = e \<or> (\<exists>m \<in> set mats. f m = Some (earliest f e mats))" by blast+
  ultimately have "earliest f e mats \<le> n" "earliest f e mats = n \<or> (\<exists>m' \<in> set (m # mats). f m' = Some (earliest f e mats))"
    and "\<forall>m' \<in> set (m # mats). \<forall>i. f m' = Some i \<longrightarrow> earliest f e mats \<le> i"
    by (simp, auto)
  then show ?case unfolding s by blast
qed

lemma safe_emit_len_cut:
  fixes buf :: string and mats :: "matcher list" and width :: nat
  defines "c \<equiv> safe_emit_len buf mats width" and "lo \<equiv> length buf - width"
  shows "c \<le> length buf"
    and "m \<in> set mats \<Longrightarrow> partial_at buf lo m i \<Longrightarrow> c \<le> i"
    and "c < length buf \<Longrightarrow> \<exists>m \<in> set mats. partial_at buf lo m c"
proof -
  let ?f = "partial_start buf lo (length buf)"
  have c: "c = earliest ?f (length buf) mats" if "buf \<noteq> []"
    using that by (simp add: c_def safe_emit_len_def lo_def Let_def)
  note least = earliest_least[of ?f "length buf" mats]
  show "c \<le> length buf"
    by (cases "buf = []") (use c least in \<open>auto simp: c_def safe_emit_len_def\<close>)
  show "c \<le> i" if m: "m \<in> set mats" "partial_at buf lo m i"
  proof -
    have "buf \<noteq> []" using m(2) by (auto simp: partial_at_def split: matcher.splits)
    note c = c[OF this]
    from partial_start_least[of buf lo m] m(2) obtain j where "?f m = Some j" "j \<le> i"
      by (cases "?f m") auto
    with least m(1) show ?thesis unfolding c by fastforce
  qed
  show "\<exists>m \<in> set mats. partial_at buf lo m c" if l: "c < length buf"
  proof -
    have "buf \<noteq> []" using l by auto
    note c = c[OF this]
    from least have "c = length buf \<or> (\<exists>m \<in> set mats. ?f m = Some c)" unfolding c by blast
    with l obtain m where "m \<in> set mats" "?f m = Some c" by auto
    with partial_start_least[of buf lo m] show ?thesis by blast
  qed
qed

section \<open>Secrets no matcher starts inside\<close>

text \<open>
  A matcher can begin a match (or the start of one) at a proper tail of \<open>v\<close>, whatever follows it.
\<close>

definition starts_inside :: "matcher \<Rightarrow> string \<Rightarrow> bool" where
  "starts_inside m v \<longleftrightarrow> (\<exists>k. 0 < k \<and> k < length v \<and> (case m of
       Exact kd u \<Rightarrow> startswith u (drop k v)
     | Regex kd r w t \<Rightarrow> \<exists>p rest. ms r (p, drop k v @ rest, []) \<noteq> []))"

lemma partial_inside:
  assumes "partial_at buf lo m c" and "occurs v buf i" and "i < c" and "c < i + length v"
  shows "starts_inside m v"
proof -
  let ?k = "c - i"
  have k: "0 < ?k" "?k < length v" using assms(3,4) by auto
  from assms(2) have v: "v = take (length v) (drop i buf)" by (simp add: occurs_def startswith_def)
  have "drop i buf = v @ drop (length v) (drop i buf)"
    using v by (metis append_take_drop_id)
  then have "drop ?k (drop i buf) = drop ?k (v @ drop (length v) (drop i buf))" by simp
  also have "\<dots> = drop ?k v @ drop (i + length v) buf" using k by (simp add: add.commute)
  finally have tail: "drop c buf = drop ?k v @ drop (i + length v) buf" using assms(3) by simp
  show ?thesis
  proof (cases m)
    case (Exact kd u)
    with assms(1) have "startswith u (drop c buf)" by (simp add: partial_at_def)
    with tail have "startswith u (drop ?k v)" by (auto simp: startswith_iff)
    with k show ?thesis unfolding starts_inside_def Exact matcher.case by blast
  next
    case (Regex kd r w t)
    with assms(1) have "ms r (before_at (buf @ PROBE_FILLER) c, drop c buf @ PROBE_FILLER, []) \<noteq> []"
      by (auto simp: partial_at_def split: list.splits)
    with tail have "\<exists>p rest. ms r (p, drop ?k v @ rest, []) \<noteq> []" by auto
    with k show ?thesis unfolding starts_inside_def Regex matcher.case by blast
  qed
qed

text \<open>No occurrence of \<open>v\<close>, finished or not, crosses the cut.\<close>

lemma cut_avoids:
  assumes "Exact kd v \<in> set mats" and "\<forall>m \<in> set mats. \<not> starts_inside m v" and "length v \<le> width"
    and "i < safe_emit_len buf mats width" and "occurs v (buf @ X) i"
  shows "i + length v \<le> safe_emit_len buf mats width"
proof (rule ccontr)
  let ?c = "safe_emit_len buf mats width" and ?lo = "length buf - width"
  assume cross: "\<not> i + length v \<le> ?c"
  note cut = safe_emit_len_cut[where buf = buf and mats = mats and width = width]
  show False
  proof (cases "i + length v \<le> length buf")
    case True
    with assms(5) have "occurs v buf i" by (rule occurs_prefix)
    moreover from True cross have "?c < length buf" by simp
    then obtain m where "m \<in> set mats" "partial_at buf ?lo m ?c" using cut(3) by blast
    ultimately show False using partial_inside[OF _ _ assms(4)] assms(2) cross by (metis not_le)
  next
    case False
    from assms(5) have "take (length v) (drop i (buf @ X)) = v" by (simp add: occurs_def startswith_def)
    moreover have "i < length buf" using assms(4) cut(1) by simp
    ultimately have "take (length v) (drop i buf @ X) = v" by simp
    moreover have "take (length v) (drop i buf @ X) = drop i buf @ take (length v - length (drop i buf)) X"
      using False by simp
    ultimately have "startswith v (drop i buf)" by (metis startswith_append)
    then have "partial_at buf ?lo (Exact kd v) i"
      using False \<open>i < length buf\<close> assms(3) by (simp add: partial_at_def)
    from cut(2)[OF assms(1) this] assms(4) show False by simp
  qed
qed

text \<open>The raw regions a guard lets go.\<close>

fun guard_regions :: "matcher list \<Rightarrow> nat \<Rightarrow> string \<Rightarrow> string list \<Rightarrow> string list" where
  "guard_regions mats width held [] = [held]"
| "guard_regions mats width held (c # cs) =
     (let n = safe_emit_len (held @ c) mats width
      in take n (held @ c) # guard_regions mats width (drop n (held @ c)) cs)"

lemma guard_regions_text: "concat (guard_regions mats width held cs) = held @ concat cs"
  proof (induction mats width held cs rule: guard_regions.induct)
  case (2 mats width held c cs)
  then show ?case unfolding guard_regions.simps Let_def concat.simps
    by (metis append_assoc append_take_drop_id)
qed simp

definition redact_regions :: "matcher list \<Rightarrow> string list \<Rightarrow> seg list" where
  "redact_regions mats regions = concat (map (\<lambda>s. redact_segs s mats) regions)"

lemma redact_segs_Nil: "joined (redact_segs [] mats) = []"
proof -
  have "ordered_spans 0 0 (spans_of (find_matches [] mats))" using find_matches_ordered[of "[]" mats] by simp
  then have "find_matches [] mats = []" by (cases "find_matches [] mats") (auto split: prod.splits)
  then show ?thesis by (simp add: redact_segs_def joined_def)
qed

lemma redact_text_out:
  "redact_text rx s = (rx', out, counts) \<Longrightarrow> out = joined (redact_segs s (rx_all_matchers rx))
    \<and> rx_all_matchers rx' = rx_all_matchers rx \<and> rx_stream_matchers rx' = rx_stream_matchers rx"
  using apply_matchers_out[of rx s "rx_all_matchers rx"]
  by (auto simp: redact_text_def apply_matchers_def Let_def split: if_splits)

lemma record_counts_window [simp]: "rx_window (record_counts rx c) = rx_window rx"
  by simp

lemma redact_text_window: "redact_text rx s = (rx', out, counts) \<Longrightarrow> rx_window rx' = rx_window rx"
  by (auto simp: redact_text_def apply_matchers_def Let_def split: if_splits)

lemma guard_run_out:
  "snd (guard_run rx held chunks) =
     joined (redact_regions (rx_all_matchers rx) (guard_regions (rx_stream_matchers rx) (rx_window rx) held chunks))"
proof (induction rx held chunks rule: guard_run.induct)
  case (1 rx held)
  obtain rx' out counts where r: "redact_text rx held = (rx', out, counts)" by (metis prod_cases3)
  from redact_text_out[OF r] r show ?case
    by (simp add: guard_flush_def redact_regions_def redact_segs_Nil)
next
  case (2 rx held c cs)
  let ?n = "safe_emit_len (held @ c) (rx_stream_matchers rx) (rx_window rx)"
  let ?raw = "take ?n (held @ c)" and ?held = "drop ?n (held @ c)"
  obtain rx1 out counts where r: "redact_text rx ?raw = (rx1, out, counts)" by (metis prod_cases3)
  define rx' where "rx' = (if ?raw = [] then rx else rx1)"
  have f: "guard_feed rx held c = (rx', ?held, joined (redact_segs ?raw (rx_all_matchers rx)))"
  proof (cases "?raw = []")
    case True
    then show ?thesis unfolding guard_feed_def Let_def rx'_def by (simp only: True redact_segs_Nil if_True simp_thms)
  next
    case False
    then show ?thesis using redact_text_out[OF r] unfolding guard_feed_def Let_def rx'_def
      by (simp only: if_False r prod.case simp_thms)
  qed
  have same: "rx_all_matchers rx' = rx_all_matchers rx" "rx_stream_matchers rx' = rx_stream_matchers rx"
    "rx_window rx' = rx_window rx"
    using redact_text_out[OF r] redact_text_window[OF r] by (simp_all add: rx'_def)
  obtain rx2 rest where g: "guard_run rx' ?held cs = (rx2, rest)" by (cases "guard_run rx' ?held cs")
  from 2[OF f[symmetric] refl] show ?case
    unfolding guard_run.simps f prod.case g snd_conv guard_regions.simps Let_def redact_regions_def same
    by (simp add: joined_append)
qed

text \<open>One region: no open run can still grow into the secret after the cut.\<close>

lemma region_runs:
  assumes "Exact kd v \<in> set mats" and "v \<noteq> []" and "no_start v UNIV r (s @ rest)"
    and "\<And>i X. i < length s \<Longrightarrow> occurs v (s @ rest @ X) i \<Longrightarrow> i + length v \<le> length s"
  shows "(\<forall>q \<in> set (butlast (raw_runs r (redact_segs s mats))). \<not> contains v q)
    \<and> no_start v UNIV (last (raw_runs r (redact_segs s mats))) rest"
proof -
  let ?XS = "range (\<lambda>X. rest @ X)"
  have "(\<forall>q \<in> set (butlast (raw_runs r (redact_segs s mats))). \<not> contains v q)
    \<and> no_start v ?XS (last (raw_runs r (redact_segs s mats))) (drop (length s) s)"
    unfolding redact_segs_cut
  proof (rule cut_to_runs[OF find_matches_ordered])
    fix i X assume i: "i < length s" "\<not> covers (find_matches s mats) i" and "X \<in> ?XS"
    then obtain Y where X: "X = rest @ Y" by blast
    show "\<not> occurs v (s @ X) i"
    proof
      assume occ: "occurs v (s @ X) i"
      with assms(4)[OF i(1)] X have "i + length v \<le> length s" by simp
      with occ have "occurs v s i" by (rule occurs_prefix)
      with occurrence_covered[OF assms(1,2)] i(2) show False by blast
    qed
  qed (use assms(2,3) in \<open>auto simp: no_start_def\<close>)
  then show ?thesis by (auto simp: no_start_def)
qed

lemma guard_runs:
  assumes "Exact kd v \<in> set mats" and "Exact kd v \<in> set all" and "v \<noteq> []" and "length v \<le> width"
    and "\<forall>m \<in> set mats. \<not> starts_inside m v" and "no_start v UNIV r held"
  shows "\<forall>q \<in> set (raw_runs r (redact_regions all (guard_regions mats width held chunks))). \<not> contains v q"
  using assms
proof (induction mats width held chunks arbitrary: r rule: guard_regions.induct)
  case (1 mats width held)
  then have "no_start v {[]} r held" unfolding no_start_def by blast
  with 1 show ?case by (simp add: redact_regions_def redact_segs_runs)
next
  case (2 mats width held c cs)
  let ?buf = "held @ c"
  let ?n = "safe_emit_len ?buf mats width"
  let ?s = "take ?n ?buf" and ?rest = "drop ?n ?buf"
  have n: "?n \<le> length ?buf" by (rule safe_emit_len_cut(1))
  have "i + length v \<le> length ?s" if "i < length ?s" "occurs v (?s @ ?rest @ X) i" for i X
  proof -
    have "occurs v (?buf @ X) i" using that(2) by (metis append_assoc append_take_drop_id)
    moreover have "i < ?n" using that(1) by simp
    ultimately have "i + length v \<le> ?n" using cut_avoids[OF "2.prems"(1,5,4)] by blast
    with n show ?thesis by simp
  qed
  moreover have "no_start v UNIV r (?s @ ?rest)"
    using "2.prems"(6) unfolding append_take_drop_id by (auto simp: no_start_def)
  ultimately have q: "\<forall>q \<in> set (butlast (raw_runs r (redact_segs ?s all))). \<not> contains v q"
    and r: "no_start v UNIV (last (raw_runs r (redact_segs ?s all))) ?rest"
    using region_runs[OF "2.prems"(2,3)] by blast+
  have "\<forall>q \<in> set (raw_runs (last (raw_runs r (redact_segs ?s all)))
      (redact_regions all (guard_regions mats width ?rest cs))). \<not> contains v q"
    using "2.IH"[OF refl "2.prems"(1-5) r] by blast
  with q show ?case
    unfolding guard_regions.simps Let_def redact_regions_def list.map concat.simps raw_runs_split
    by blast
qed

lemma redact_regions_original: "concat (map original (redact_regions mats regions)) = concat regions"
proof -
  have "concat (map original (redact_segs s mats)) = s" for s
    using stream_segs_original[of mats 0 s "[]"] by simp
  then show ?thesis unfolding redact_regions_def by (induction regions) auto
qed

section \<open>Properties\<close>

text \<open>the guard of a transcript stream hides a configured secret however the agent cuts its text
  into chunks, provided no configured pattern or secret can begin inside that secret: the output
  consists of parts that spell the text, and no stretch between two markers contains the secret.\<close>

theorem guard_hides_separate_secrets:
  assumes "new_redactor compile secrets customs = Inr rx" and "(kind, v) \<in> set secrets" and "v \<noteq> []"
    and "\<forall>m \<in> set (rx_stream_matchers rx). \<not> starts_inside m v"
  shows "\<exists>segs. snd (guard_run rx [] chunks) = joined segs \<and> concat (map original segs) = concat chunks
    \<and> (\<forall>q \<in> set (raw_runs [] segs). \<not> contains v q)"
proof -
  let ?segs = "redact_regions (rx_all_matchers rx)
    (guard_regions (rx_stream_matchers rx) (rx_window rx) [] chunks)"
  have m: "Exact kind v \<in> set (rx_stream_matchers rx)" "Exact kind v \<in> set (rx_all_matchers rx)"
    "length v \<le> rx_window rx" using secret_matcher[OF assms(1-3)] by blast+
  have "\<forall>q \<in> set (raw_runs [] ?segs). \<not> contains v q"
    by (rule guard_runs[OF m(1,2) assms(3) m(3) assms(4)]) simp
  moreover have "concat (map original ?segs) = concat chunks"
    by (simp add: redact_regions_original guard_regions_text)
  ultimately show ?thesis using guard_run_out[of rx "[]" chunks] by blast
qed

section \<open>Where the guard lets a secret pass\<close>

text \<open>The redactor of a run with some secrets and no custom patterns.\<close>

definition plain_redactor :: "(string \<times> string) list \<Rightarrow> redactor" where
  "plain_redactor secrets = (case new_redactor (\<lambda>s. None) secrets [] of Inr rx \<Rightarrow> rx | Inl e \<Rightarrow> undefined)"

lemma plain_redactor: "new_redactor (\<lambda>s. None) secrets [] = Inr (plain_redactor secrets)"
  by (simp add: plain_redactor_def new_redactor_def)

definition looped_secret :: string where "looped_secret = ''qzzzzzq''"

definition split_key :: "string list" where "split_key = [''AKIA0123'', ''456789ABCDEF'']"

text \<open>the guard does not keep the promise for every secret. A secret whose last character is also its
  first passes unmarked when a chunk ends with it: the guard takes that last character for the start of
  a new occurrence, lets the rest go and so cuts the finished occurrence in two. The complete path hides
  it.\<close>

theorem guard_leaks_looped_secret:
  "snd (guard_run (plain_redactor [(''k'', looped_secret)]) [] [looped_secret, '' is it'']) = looped_secret @ '' is it''
   \<and> fst (snd (redact_text (plain_redactor [(''k'', looped_secret)]) (looped_secret @ '' is it'')))
       = marker ''k'' @ '' is it''"
  by code_simp

lemma split_key_cuts:
  "safe_emit_len ''AKIA0123'' (rx_stream_matchers (plain_redactor [])) (rx_window (plain_redactor [])) = 8"
  "safe_emit_len ''456789ABCDEF'' (rx_stream_matchers (plain_redactor [])) (rx_window (plain_redactor [])) = 12"
  by code_simp+

lemma split_key_matches:
  "find_matches ''AKIA0123'' (rx_all_matchers (plain_redactor [])) = []"
  "find_matches ''456789ABCDEF'' (rx_all_matchers (plain_redactor [])) = []"
  "find_matches ''AKIA0123456789ABCDEF'' (rx_all_matchers (plain_redactor [])) = [(0, 20, ''aws_access_key_id'')]"
  by code_simp+

text \<open>the probe that detects unfinished tokens does not detect every built-in format: an AWS access
  key id that a chunk boundary cuts passes unmarked, because the probe's lower-case letters cannot
  continue it. The complete path hides it.\<close>

theorem guard_leaks_split_aws_key:
  "snd (guard_run (plain_redactor []) [] split_key) = concat split_key
   \<and> fst (snd (redact_text (plain_redactor []) (concat split_key))) = marker ''aws_access_key_id''"
proof
  have "guard_regions (rx_stream_matchers (plain_redactor [])) (rx_window (plain_redactor [])) [] split_key =
      [''AKIA0123'', ''456789ABCDEF'', []]"
    by (simp add: split_key_def split_key_cuts Let_def)
  then show "snd (guard_run (plain_redactor []) [] split_key) = concat split_key"
    unfolding guard_run_out
    by (simp add: redact_regions_def joined_append redact_segs_Nil)
      (simp add: redact_segs_def split_key_matches joined_def split_key_def)
  show "fst (snd (redact_text (plain_redactor []) (concat split_key))) = marker ''aws_access_key_id''"
    by (simp add: redact_text_def apply_matchers_out redact_segs_def split_key_def split_key_matches joined_def)
qed

text \<open>A secret that no tail of itself and no built-in pattern can begin again.\<close>

lemma short_secret_separate:
  "\<forall>m \<in> set (rx_stream_matchers (plain_redactor [(''k'', short_secret)])). \<not> starts_inside m short_secret"
proof
  fix m assume "m \<in> set (rx_stream_matchers (plain_redactor [(''k'', short_secret)]))"
  then have "m = Exact ''k'' short_secret \<or> m \<in> set BUILTIN_PATTERNS"
    by (auto simp: plain_redactor_def new_redactor_def exact_matchers_def short_secret_def)
  then show "\<not> starts_inside m short_secret"
  proof
    have "list_all (\<lambda>k. \<not> startswith short_secret (drop k short_secret)) [1 ..< 7]" by code_simp
    then have "\<not> startswith short_secret (drop k short_secret)" if "0 < k" "k < length short_secret" for k
      using that by (auto simp: secret_lengths list_all_iff)
    moreover assume "m = Exact ''k'' short_secret"
    ultimately show ?thesis by (simp only: starts_inside_def matcher.case) blast
  next
    assume b: "m \<in> set BUILTIN_PATTERNS"
    have inert: "list_all inert short_secret" by code_simp
    have none: "ms r (p, drop j short_secret @ rest, []) = []"
      if "0 < j" "j < length short_secret" "Regex kd r w t \<in> set BUILTIN_PATTERNS" for j p rest kd r w t
    proof -
      have "drop j short_secret @ rest = (short_secret ! j) # (drop (Suc j) short_secret @ rest)"
        using that(2) by (simp add: Cons_nth_drop_Suc)
      moreover have "inert (short_secret ! j)" using inert that(2) by (simp add: list_all_length)
      ultimately show ?thesis using builtin_ms_none[OF that(3)] by metis
    qed
    obtain kd r w t where m: "m = Regex kd r w t"
      using b unfolding BUILTIN_PATTERNS_def by auto
    from none b show ?thesis unfolding starts_inside_def m matcher.case by blast
  qed
qed

theorem guard_hides_separate_witness:
  "\<exists>segs. snd (guard_run (plain_redactor [(''k'', short_secret)]) [] [''qqqqq'', ''qqw'']) = joined segs
    \<and> concat (map original segs) = ''qqqqqqqw''
    \<and> (\<forall>q \<in> set (raw_runs [] segs). \<not> contains short_secret q)"
  using guard_hides_separate_secrets[OF plain_redactor, of "''k''" short_secret "[(''k'', short_secret)]"
      "[''qqqqq'', ''qqw'']"] short_secret_separate secret_lengths by simp

end
