(* ===== verification/Hooks.thy ===== *)
theory Hooks
  imports Effects Stream_Guard Mediation
begin

text \<open>
  \<open>engine/hooks.py\<close>: what an agent's callbacks do while a step runs. \<open>RecordingHooks\<close> denies and
  records; \<open>PolicyHooks\<close> asks the guarded policy, serves what it allows and records every decision.
  A policy of \<open>None\<close> is the first class, \<open>Some\<close> the second. The file system may change between the
  decision and the service: \<open>circumstances\<close> has one \<open>realpath\<close> for each.
\<close>

section \<open>Requests\<close>

datatype agent_event =
    MessageChunk string string bool                       \<comment> \<open>role, text, thought\<close>
  | ToolCall string bool "string option" "string option" "string option" "string list" bool payload
      \<comment> \<open>id, phase is start, title, kind, status, locations, has_content, raw\<close>
  | PlanUpdate "pyval list"
  | Usage pyval pyval pyval pyval payload                 \<comment> \<open>used, size, cost, currency, raw\<close>
  | Mode string payload
  | UnknownUpdate string payload

record perm_option =
  op_id :: string
  op_name :: string
  op_kind :: string

record perm_request =
  rq_session :: string
  rq_tool_call :: payload
  rq_options :: "perm_option list"

record perm_reply =
  rp_kind :: string
  rp_option :: "string option"

record circumstances =
  ci_decide :: fs
  ci_serve :: fs
  ci_exists :: "pth \<Rightarrow> bool"
  ci_read :: "pth \<Rightarrow> string + nat \<times> string"         \<comment> \<open>the OSError's class, or the size and the decoded text\<close>
  ci_write :: "pth \<Rightarrow> string \<Rightarrow> string option"       \<comment> \<open>the OSError's class\<close>
  ci_now :: string
  ci_decider :: "perm_request \<Rightarrow> exn + perm_reply \<times> payload"

text \<open>The hooks of a step; \<open>hk_override\<close> says that a decider was injected.\<close>

record hooks =
  hk_step :: string
  hk_attempt :: int
  hk_policy :: "policy option"
  hk_override :: bool

definition DEFAULT_DENY_RULE_ID :: string where "DEFAULT_DENY_RULE_ID = ''phase1-default-deny''"
definition DEFAULT_DENY_POLICY_NAME :: string where "DEFAULT_DENY_POLICY_NAME = ''default-deny''"
definition MAX_MEDIATED_READ_BYTES :: nat where "MAX_MEDIATED_READ_BYTES = 5 * 1024 * 1024"
definition RULE_MEDIATED_READ_LIMIT :: string where "RULE_MEDIATED_READ_LIMIT = ''mediated-read-limit''"
definition RULE_MEDIATED_IO_ERROR :: string where "RULE_MEDIATED_IO_ERROR = ''mediated-io-error''"
definition REJECT_KIND_ORDER :: "string list" where "REJECT_KIND_ORDER = [''reject_once'', ''reject_always'']"
definition ALLOW_KIND_ORDER :: "string list" where "ALLOW_KIND_ORDER = [''allow_once'', ''allow_always'']"

text \<open>\<open>_select_option\<close>: the first option of the first kind that is offered, else the cancelled reply.\<close>

fun select_option :: "perm_option list \<Rightarrow> string list \<Rightarrow> perm_reply" where
  "select_option options [] = \<lparr>rp_kind = ''cancelled'', rp_option = None\<rparr>"
| "select_option options (k # ks) = (case find (\<lambda>x. op_kind x = k) options of
     Some x \<Rightarrow> \<lparr>rp_kind = ''selected'', rp_option = Some (op_id x)\<rparr>
   | None \<Rightarrow> select_option options ks)"

definition request_summary :: "payload \<Rightarrow> string" where
  "request_summary tool_call =
     (case get_or PNone tool_call ''title'' of
        PStr (c # cs) \<Rightarrow> c # cs
      | _ \<Rightarrow> (case get_or PNone tool_call ''tool_call_id'' of
            PStr (c # cs) \<Rightarrow> c # cs | _ \<Rightarrow> ''permission request''))"

section \<open>The transcript\<close>

definition hook_emit :: "setting \<Rightarrow> hooks \<Rightarrow> string \<Rightarrow> payload \<Rightarrow> unit eng" where
  "hook_emit w hk t body s =
     emit_event w (event t (Some (hk_step hk)) (Some (hk_attempt hk)) (en_session s) body) s"

definition opt_str :: "string option \<Rightarrow> pyval" where
  "opt_str v = (case v of None \<Rightarrow> PNone | Some s \<Rightarrow> PStr s)"

definition opt_int :: "int option \<Rightarrow> pyval" where
  "opt_int v = (case v of None \<Rightarrow> PNone | Some i \<Rightarrow> PInt i)"

text \<open>\<open>_stream_for(thought).feed(text)\<close>: a guard that does not exist yet holds nothing.\<close>

definition stream_feed :: "bool \<Rightarrow> string \<Rightarrow> string eng" where
  "stream_feed thought chunk s =
     (let held = (case (if thought then en_thought s else en_message s) of None \<Rightarrow> [] | Some h \<Rightarrow> h)
      in case guard_feed (rc_redactor (en_rc s)) held chunk of (rx, held', out) \<Rightarrow>
        (let s1 = s\<lparr>en_rc := (en_rc s)\<lparr>rc_redactor := rx\<rparr>\<rparr>
         in (Ok out, if thought then s1\<lparr>en_thought := Some held'\<rparr> else s1\<lparr>en_message := Some held'\<rparr>)))"

definition stream_flush :: "bool \<Rightarrow> string eng" where
  "stream_flush thought s =
     (case (if thought then en_thought s else en_message s) of
        None \<Rightarrow> (Ok [], s)
      | Some held \<Rightarrow> (case guard_flush (rc_redactor (en_rc s)) held of (rx, held', out) \<Rightarrow>
          (let s1 = s\<lparr>en_rc := (en_rc s)\<lparr>rc_redactor := rx\<rparr>\<rparr>
           in (Ok out, if thought then s1\<lparr>en_thought := Some held'\<rparr> else s1\<lparr>en_message := Some held'\<rparr>))))"

definition chunk_type :: "bool \<Rightarrow> string" where
  "chunk_type thought = (if thought then ''thought_chunk'' else ''message_chunk'')"

definition flush_one :: "setting \<Rightarrow> hooks \<Rightarrow> bool \<Rightarrow> unit eng" where
  "flush_one w hk thought = andthen (stream_flush thought) (\<lambda>rest.
     if rest = [] then ok ()
     else hook_emit w hk (chunk_type thought) [(''role'', PStr ''agent''), (''text'', PStr rest)])"

definition flush_streams :: "setting \<Rightarrow> hooks \<Rightarrow> unit eng" where
  "flush_streams w hk = followed (flush_one w hk False) (flush_one w hk True)"

fun on_event :: "setting \<Rightarrow> hooks \<Rightarrow> agent_event \<Rightarrow> unit eng" where
  "on_event w hk (MessageChunk role chunk thought) = andthen (stream_feed thought chunk) (\<lambda>safe.
     hook_emit w hk (chunk_type thought) [(''role'', PStr role), (''text'', PStr safe)])"
| "on_event w hk (ToolCall i start title kind status locations has_content raw) =
     hook_emit w hk (if start then ''tool_call'' else ''tool_call_update'')
       [(''tool_call_id'', PStr i), (''phase'', PStr (if start then ''start'' else ''update'')),
        (''title'', opt_str title), (''kind'', opt_str kind), (''status'', opt_str status),
        (''locations'', str_list locations), (''has_content'', PBool has_content), (''raw'', PDict raw)]"
| "on_event w hk (PlanUpdate entries) = hook_emit w hk ''plan'' [(''entries'', PList entries)]"
| "on_event w hk (Usage used window cost currency raw) =
     hook_emit w hk ''usage'' [(''used'', used), (''size'', window), (''cost'', cost),
       (''currency'', currency), (''raw'', PDict raw)]"
| "on_event w hk (Mode kind body) = hook_emit w hk ''mode'' [(''kind'', PStr kind), (''payload'', PDict body)]"
| "on_event w hk (UnknownUpdate t body) =
     hook_emit w hk ''unknown_update'' [(''update_type'', PStr t), (''payload'', PDict body)]"

section \<open>Permission requests\<close>

definition option_entry :: "perm_option \<Rightarrow> pyval" where
  "option_entry x = PDict [(''option_id'', PStr (op_id x)), (''name'', PStr (op_name x)), (''kind'', PStr (op_kind x))]"

definition requested :: "perm_request \<Rightarrow> payload" where
  "requested rq = [(''request_summary'', PStr (request_summary (rq_tool_call rq))),
     (''tool_call'', PDict (rq_tool_call rq)), (''options'', PList (map option_entry (rq_options rq)))]"

text \<open>\<open>{**payload, key: value}\<close>\<close>

definition with_entry :: "payload \<Rightarrow> string \<Rightarrow> pyval \<Rightarrow> payload" where
  "with_entry d k v = AList.update k v d"

definition default_denial :: "circumstances \<Rightarrow> perm_request \<Rightarrow> perm_reply \<times> payload" where
  "default_denial ci rq =
     (select_option (rq_options rq) REJECT_KIND_ORDER,
      [(''request_summary'', PStr (request_summary (rq_tool_call rq))),
       (''options_offered'', str_list (map op_kind (rq_options rq))), (''decision'', PStr ''denied''),
       (''rule_id'', PStr DEFAULT_DENY_RULE_ID), (''policy_name'', PStr DEFAULT_DENY_POLICY_NAME),
       (''policy_source'', PStr ''default''), (''enforcement_scope'', PStr ''acp_mediated''),
       (''ts'', PStr (ci_now ci))])"

text \<open>\<open>RecordingHooks.resolve_permission\<close>\<close>

definition recording_permission :: "setting \<Rightarrow> hooks \<Rightarrow> circumstances \<Rightarrow> perm_request \<Rightarrow> perm_reply eng" where
  "recording_permission w hk ci rq =
     followed (hook_emit w hk ''permission_requested'' (requested rq))
     (andthen (if hk_override hk
               then (case ci_decider ci rq of Inl x \<Rightarrow> raise x | Inr d \<Rightarrow> ok d)
               else ok (default_denial ci rq)) (\<lambda>(reply, body).
      followed (hook_emit w hk ''permission_decided'' (with_entry body ''selected_option_id'' (opt_str (rp_option reply))))
      (ok reply)))"

fun scope_value :: "enforcement_scope \<Rightarrow> string" where
  "scope_value AcpMediated = ''acp_mediated''"
| "scope_value AgentReported = ''agent_reported''"
| "scope_value OsEnforced = ''os_enforced''"

definition decision_fields :: "decision \<Rightarrow> payload" where
  "decision_fields d = [(''rule_id'', PStr (d_rule_id d)), (''policy_name'', PStr (d_policy_name d)),
     (''policy_source'', PStr (d_policy_source d)), (''reason'', PStr (d_reason d))]"

definition decision_value :: "decision \<Rightarrow> string" where
  "decision_value d = (if d_allowed d then ''approved'' else ''denied'')"

definition decided :: "circumstances \<Rightarrow> perm_request \<Rightarrow> decision \<Rightarrow> perm_reply \<Rightarrow> payload" where
  "decided ci rq d reply =
     [(''request_summary'', PStr (request_summary (rq_tool_call rq))),
      (''options_offered'', str_list (map op_kind (rq_options rq))), (''decision'', PStr (decision_value d)),
      (''enforcement_scope'', PStr (scope_value (d_scope d))), (''ts'', PStr (ci_now ci)),
      (''selected_option_id'', opt_str (rp_option reply))] @ decision_fields d"

text \<open>\<open>PolicyHooks.resolve_permission\<close>\<close>

definition policy_permission ::
  "setting \<Rightarrow> hooks \<Rightarrow> policy \<Rightarrow> circumstances \<Rightarrow> perm_request \<Rightarrow> perm_reply eng" where
  "policy_permission w hk po ci rq =
     (if hk_override hk then recording_permission w hk ci rq
      else followed (hook_emit w hk ''permission_requested'' (requested rq))
        (case decide_permission (ci_decide ci) po (PDict (rq_tool_call rq)) of
           Inl e \<Rightarrow> raise (Python e)
         | Inr d \<Rightarrow>
             (let reply = select_option (rq_options rq) (if d_allowed d then ALLOW_KIND_ORDER else REJECT_KIND_ORDER)
              in followed (hook_emit w hk ''permission_decided'' (decided ci rq d reply))
                 (andthen (reads (rc_run_id \<circ> en_rc)) (\<lambda>run.
                  followed (mlog w (log_entry ''permission_decided'' (Some run) (Some (hk_step hk)) None ''info''
                    [(''rule_id'', PStr (d_rule_id d)), (''decision'', PStr (decision_value d))]))
                  (ok reply))))))"

definition resolve_permission :: "setting \<Rightarrow> hooks \<Rightarrow> circumstances \<Rightarrow> perm_request \<Rightarrow> perm_reply eng" where
  "resolve_permission w hk ci rq =
     (case hk_policy hk of None \<Rightarrow> recording_permission w hk ci rq | Some po \<Rightarrow> policy_permission w hk po ci rq)"

section \<open>Mediated files\<close>

text \<open>
  \<open>_serve_recheck\<close>: the rule, source and reason of the refusal. \<open>relative_to\<close> follows the check that
  the path lies in the workspace.
\<close>

definition recheck_denial :: "policy \<Rightarrow> pth \<Rightarrow> (string \<times> string \<times> string) option" where
  "recheck_denial po rel =
     (case find (\<lambda>(i, d). dn_kind d = ''path'' \<and> glob_matches (dn_pattern d) rel) (List.enumerate 0 (po_denials po)) of
        None \<Rightarrow> None
      | Some (i, d) \<Rightarrow> Some (project_denial_rule_id i, SOURCE_PROJECT_DENIAL,
          ''resolved path matches project deny glob '' @ py_repr (dn_pattern d)))"

definition serve_recheck :: "policy \<Rightarrow> bool \<Rightarrow> pth \<Rightarrow> (string \<times> string \<times> string) option" where
  "serve_recheck po write resolved =
     (if \<not> is_relative_to resolved (po_workspace po)
      then Some (RULE_OUTSIDE_WORKSPACE_DENY, SOURCE_DEFAULT,
        ''resolved path escaped the workspace between decision and serve'')
      else (let rel = relative_to resolved (po_workspace po) in
        case recheck_denial po rel of
          Some r \<Rightarrow> Some r
        | None \<Rightarrow>
            if is_sensitive rel (po_user_globs po)
            then Some (RULE_SENSITIVE_PATH_DENY, SOURCE_DEFAULT, ''resolved path matches a sensitive-path deny glob'')
            else if write \<and> \<not> is_relative_to resolved (po_step_dir po)
            then Some (RULE_OUTSIDE_STEPDIR_DENY, SOURCE_DEFAULT, ''resolved path is outside the step working directory'')
            else None))"

text \<open>A refusal that is not the policy's own decision: the payload of its event.\<close>

definition refusal :: "string \<Rightarrow> string \<Rightarrow> string \<Rightarrow> string \<Rightarrow> payload" where
  "refusal rule name source reason = [(''decision'', PStr ''denied''), (''rule_id'', PStr rule),
     (''policy_name'', PStr name), (''policy_source'', PStr source), (''reason'', PStr reason)]"

definition refuse :: "setting \<Rightarrow> hooks \<Rightarrow> string \<Rightarrow> payload \<Rightarrow> string \<Rightarrow> 'a eng" where
  "refuse w hk t body reason = andthen (hook_emit w hk t body) (\<lambda>_. raise (PolicyDenied reason))"

text \<open>
  From the decision to the path that is opened, for both kinds of request: the file system is asked
  again at serve time. \<open>verb\<close> is \<open>read\<close> or \<open>write\<close>.
\<close>

definition cleared ::
  "setting \<Rightarrow> hooks \<Rightarrow> policy \<Rightarrow> circumstances \<Rightarrow> string \<Rightarrow> string \<Rightarrow> bool \<Rightarrow> payload \<Rightarrow> string \<Rightarrow> decision \<Rightarrow> pth eng" where
  "cleared w hk po ci t verb write base path d =
     (if \<not> d_allowed d
      then refuse w hk t (base @ (''decision'', PStr ''denied'') # decision_fields d) (d_reason d)
      else (case resolve_contained (ci_serve ci) (str_path (po_workspace po)) (py_repr path) path of
          Inl e \<Rightarrow> refuse w hk t (base @ refusal ''path-ambiguity-deny'' (d_policy_name d) ''default'' (pa_message e))
            (verb @ '' of '' @ py_repr path @ '' failed re-canonicalization: '' @ pa_message e)
        | Inr resolved \<Rightarrow>
            (case serve_recheck po write resolved of
               Some (rule, source, reason) \<Rightarrow>
                 refuse w hk t (base @ refusal rule (d_policy_name d) source reason)
                   (verb @ '' of '' @ py_repr path @ '' denied on serve-time re-check: '' @ reason)
             | None \<Rightarrow> ok resolved)))"

text \<open>\<open>str.splitlines(keepends=True)\<close>\<close>

fun split_lines :: "string \<Rightarrow> string list" where
  "split_lines [] = []"
| "split_lines (c # cs) =
     (if c = CHR 0x0D \<and> cs \<noteq> [] \<and> hd cs = CHR 0x0A then [c, hd cs] # split_lines (tl cs)
      else if is_linebreak c then [c] # split_lines cs
      else (case split_lines cs of [] \<Rightarrow> [[c]] | l # ls \<Rightarrow> (c # l) # ls))"

text \<open>\<open>xs[start:end]\<close> for a non-negative start.\<close>

definition py_slice :: "nat \<Rightarrow> int option \<Rightarrow> 'a list \<Rightarrow> 'a list" where
  "py_slice start stop xs =
     (case stop of
        None \<Rightarrow> drop start xs
      | Some e \<Rightarrow> (let e' = (if e < 0 then nat (int (length xs) + e) else nat e) in drop start (take e' xs)))"

definition select_lines :: "int option \<Rightarrow> int option \<Rightarrow> string \<Rightarrow> string" where
  "select_lines line limit txt =
     (if line = None \<and> limit = None then txt
      else (let first = (case line of None \<Rightarrow> 1 | Some i \<Rightarrow> if i = 0 then 1 else i);
                start = max (first - 1) 0
            in concat (py_slice (nat start) (map_option ((+) start) limit) (split_lines txt))))"

definition read_base :: "string \<Rightarrow> int option \<Rightarrow> int option \<Rightarrow> payload" where
  "read_base path line limit = [(''path'', PStr path), (''line'', opt_int line), (''limit'', opt_int limit)]"

text \<open>\<open>PolicyHooks.read_text_file\<close>\<close>

definition serve_read ::
  "setting \<Rightarrow> hooks \<Rightarrow> circumstances \<Rightarrow> decision \<Rightarrow> string \<Rightarrow> int option \<Rightarrow> int option \<Rightarrow> pth \<Rightarrow> string eng" where
  "serve_read w hk ci d path line limit resolved =
     followed (act (DiskRead (str_path resolved)))
     (case ci_read ci resolved of
        Inl e \<Rightarrow> refuse w hk ''fs_read'' (read_base path line limit
            @ refusal RULE_MEDIATED_IO_ERROR (d_policy_name d) ''default'' (''mediated read failed: '' @ e))
          (''cannot read '' @ py_repr path @ '': '' @ e)
      | Inr (bytes, txt) \<Rightarrow>
          if bytes > MAX_MEDIATED_READ_BYTES
          then refuse w hk ''fs_read'' (read_base path line limit
              @ refusal RULE_MEDIATED_READ_LIMIT (d_policy_name d) ''default''
                  (''file is '' @ str_of_nat bytes @ '' bytes; mediated reads are capped at ''
                   @ str_of_nat MAX_MEDIATED_READ_BYTES @ '' bytes''))
            (''mediated read of '' @ py_repr path @ '' exceeds the '' @ str_of_nat MAX_MEDIATED_READ_BYTES
             @ ''-byte resource cap'')
          else (let shown = select_lines line limit txt in
            followed (hook_emit w hk ''fs_read''
                (AList.update ''path'' (PStr (str_path resolved)) (read_base path line limit)
                 @ [(''decision'', PStr ''allowed''), (''content_bytes'', PInt (int (utf8_len shown)))]
                 @ decision_fields d))
              (ok shown)))"

definition policy_read ::
  "setting \<Rightarrow> hooks \<Rightarrow> policy \<Rightarrow> circumstances \<Rightarrow> string \<Rightarrow> int option \<Rightarrow> int option \<Rightarrow> string eng" where
  "policy_read w hk po ci path line limit =
     (let d = decide_fs_read (ci_decide ci) po path in
      andthen (cleared w hk po ci ''fs_read'' ''read'' False (read_base path line limit) path d)
        (serve_read w hk ci d path line limit))"

text \<open>\<open>RecordingHooks.read_text_file\<close>\<close>

definition recording_read :: "setting \<Rightarrow> hooks \<Rightarrow> string \<Rightarrow> int option \<Rightarrow> int option \<Rightarrow> string eng" where
  "recording_read w hk path line limit =
     refuse w hk ''fs_read'' (read_base path line limit
         @ [(''decision'', PStr ''denied''), (''rule_id'', PStr DEFAULT_DENY_RULE_ID)])
       ''phase1 default-deny: mediated file read is not permitted''"

definition read_text_file ::
  "setting \<Rightarrow> hooks \<Rightarrow> circumstances \<Rightarrow> string \<Rightarrow> int option \<Rightarrow> int option \<Rightarrow> string eng" where
  "read_text_file w hk ci path line limit =
     (case hk_policy hk of None \<Rightarrow> recording_read w hk path line limit
      | Some po \<Rightarrow> policy_read w hk po ci path line limit)"

text \<open>
  \<open>PolicyHooks.write_text_file\<close>. The write is recorded as the attempt to open the file; the parent
  directories are made before it.
\<close>

definition write_base :: "string \<Rightarrow> string \<Rightarrow> payload" where
  "write_base path txt = [(''requested_path'', PStr path), (''content_bytes'', PInt (int (utf8_len txt)))]"

definition serve_write ::
  "setting \<Rightarrow> hooks \<Rightarrow> circumstances \<Rightarrow> decision \<Rightarrow> string \<Rightarrow> string \<Rightarrow> pth \<Rightarrow> unit eng" where
  "serve_write w hk ci d path txt resolved =
     (let change = (if ci_exists ci resolved then ''modified'' else ''created'') in
      followed (act (DiskWrite (str_path resolved) txt))
      (case ci_write ci resolved txt of
         Some e \<Rightarrow> refuse w hk ''fs_write'' (write_base path txt
             @ refusal RULE_MEDIATED_IO_ERROR (d_policy_name d) ''default'' (''mediated write failed: '' @ e))
           (''cannot write '' @ py_repr path @ '': '' @ e)
       | None \<Rightarrow> hook_emit w hk ''fs_write''
           ([(''path'', PStr (str_path resolved)), (''content_bytes'', PInt (int (utf8_len txt))),
             (''change_type'', PStr change), (''decision'', PStr ''allowed'')] @ decision_fields d)))"

definition policy_write :: "setting \<Rightarrow> hooks \<Rightarrow> policy \<Rightarrow> circumstances \<Rightarrow> string \<Rightarrow> string \<Rightarrow> unit eng" where
  "policy_write w hk po ci path txt =
     (let d = decide_fs_write (ci_decide ci) po path in
      andthen (cleared w hk po ci ''fs_write'' ''write'' True (write_base path txt) path d)
        (serve_write w hk ci d path txt))"

text \<open>\<open>RecordingHooks.write_text_file\<close>\<close>

definition recording_write :: "setting \<Rightarrow> hooks \<Rightarrow> string \<Rightarrow> string \<Rightarrow> unit eng" where
  "recording_write w hk path txt =
     refuse w hk ''fs_write'' (write_base path txt
         @ [(''decision'', PStr ''denied''), (''rule_id'', PStr DEFAULT_DENY_RULE_ID)])
       ''phase1 default-deny: mediated file write is not permitted''"

definition write_text_file :: "setting \<Rightarrow> hooks \<Rightarrow> circumstances \<Rightarrow> string \<Rightarrow> string \<Rightarrow> unit eng" where
  "write_text_file w hk ci path txt =
     (case hk_policy hk of None \<Rightarrow> recording_write w hk path txt | Some po \<Rightarrow> policy_write w hk po ci path txt)"

section \<open>The terminal surface\<close>

definition terminal_command :: "payload \<Rightarrow> payload" where
  "terminal_command body = (case get_or PNone body ''command'' of PStr c \<Rightarrow> [(''command'', PStr c)] | _ \<Rightarrow> [])"

definition policy_terminal :: "setting \<Rightarrow> hooks \<Rightarrow> policy \<Rightarrow> string \<Rightarrow> payload \<Rightarrow> unit eng" where
  "policy_terminal w hk po op body =
     (let d = decide_terminal po (PStr op) (PDict body) in
      andthen (hook_emit w hk ''terminal_op''
          ([(''op'', PStr op), (''decision'', PStr (if d_allowed d then ''allowed-unsupported'' else ''denied''))]
           @ decision_fields d @ terminal_command body))
        (\<lambda>_. if d_allowed d
          then raise (UnsupportedByPolicy ''terminal execution matched the trusted user allowlist, but v0.1 does not implement client-side terminal execution'')
          else raise (PolicyDenied (d_reason d))))"

definition recording_terminal :: "setting \<Rightarrow> hooks \<Rightarrow> string \<Rightarrow> payload \<Rightarrow> unit eng" where
  "recording_terminal w hk op body =
     andthen (hook_emit w hk ''terminal_op''
         ([(''op'', PStr op), (''decision'', PStr ''unsupported''), (''rule_id'', PStr DEFAULT_DENY_RULE_ID)]
          @ terminal_command body))
       (\<lambda>_. raise (UnsupportedByPolicy ''phase1: the terminal surface is not supported''))"

definition handle_terminal :: "setting \<Rightarrow> hooks \<Rightarrow> string \<Rightarrow> payload \<Rightarrow> unit eng" where
  "handle_terminal w hk op body =
     (case hk_policy hk of None \<Rightarrow> recording_terminal w hk op body | Some po \<Rightarrow> policy_terminal w hk po op body)"

section \<open>A callback\<close>

datatype hook_call =
    OnEvent agent_event
  | Permission circumstances perm_request
  | FsRead circumstances string "int option" "int option"
  | FsWrite circumstances string string
  | Terminal string payload

text \<open>
  What the connection does with a callback: the exception of one goes to the agent as a JSON-RPC error
  and never reaches the coroutine that waits for the agent.
\<close>

fun callback :: "setting \<Rightarrow> hooks \<Rightarrow> hook_call \<Rightarrow> engine \<Rightarrow> engine" where
  "callback w hk (OnEvent ev) s = snd (on_event w hk ev s)"
| "callback w hk (Permission ci rq) s = snd (resolve_permission w hk ci rq s)"
| "callback w hk (FsRead ci path line limit) s = snd (read_text_file w hk ci path line limit s)"
| "callback w hk (FsWrite ci path txt) s = snd (write_text_file w hk ci path txt s)"
| "callback w hk (Terminal op body) s = snd (handle_terminal w hk op body s)"

definition callbacks :: "setting \<Rightarrow> hooks \<Rightarrow> hook_call list \<Rightarrow> unit eng" where
  "callbacks w hk calls s = (Ok (), fold (callback w hk) calls s)"

end
