(* ===== verification/Hooks_Safety.thy ===== *)
theory Hooks_Safety
  imports Hooks
begin

text \<open>
  What an agent's callbacks can make the program do: which files are opened, what is recorded of every
  request, and which options a permission reply selects.
\<close>

section \<open>Acts of the callbacks\<close>

definition may_open :: "policy \<Rightarrow> bool \<Rightarrow> pth \<Rightarrow> bool" where
  "may_open po write q \<longleftrightarrow>
     is_relative_to q (po_workspace po)
     \<and> \<not> is_sensitive (relative_to q (po_workspace po)) (po_user_globs po)
     \<and> (\<forall>d \<in> set (po_denials po). dn_kind d = ''path'' \<longrightarrow>
          \<not> glob_matches (dn_pattern d) (relative_to q (po_workspace po)))
     \<and> (write \<longrightarrow> is_relative_to q (po_step_dir po))"

text \<open>
  A request that justifies opening a file: the policy allowed it as the file system was when it was decided,
  the path was resolved again when it was served, and what it resolved to may be opened.
\<close>

fun asked :: "policy \<Rightarrow> hook_call \<Rightarrow> act \<Rightarrow> bool" where
  "asked po (FsRead ci path line limit) (DiskRead p) \<longleftrightarrow> d_allowed (decide_fs_read (ci_decide ci) po path)
     \<and> (\<exists>q. resolve_contained (ci_serve ci) (str_path (po_workspace po)) (py_repr path) path = Inr q
          \<and> may_open po False q \<and> p = str_path q)"
| "asked po (FsWrite ci path txt) (DiskWrite p t) \<longleftrightarrow> d_allowed (decide_fs_write (ci_decide ci) po path) \<and> t = txt
     \<and> (\<exists>q. resolve_contained (ci_serve ci) (str_path (po_workspace po)) (py_repr path) path = Inr q
          \<and> may_open po True q \<and> p = str_path q)"
| "asked po _ _ \<longleftrightarrow> False"

text \<open>What the hooks may do in answer to the calls \<open>C\<close>.\<close>

fun permitted :: "hook_call set \<Rightarrow> hooks \<Rightarrow> act \<Rightarrow> bool" where
  "permitted C hk (DiskRead p) \<longleftrightarrow> (\<exists>po call. hk_policy hk = Some po \<and> call \<in> C \<and> asked po call (DiskRead p))"
| "permitted C hk (DiskWrite p txt) \<longleftrightarrow> (\<exists>po call. hk_policy hk = Some po \<and> \<not> po_deny_writes po \<and> call \<in> C
     \<and> asked po call (DiskWrite p txt))"
| "permitted C hk (Emitted em) \<longleftrightarrow> em_step em = Some (hk_step hk) \<and> em_attempt em = Some (hk_attempt hk)"
| "permitted C hk (Logged lc) \<longleftrightarrow> validate_line (lc_level lc) (lc_detail lc) = None \<and> lc_step_id lc = Some (hk_step hk)"
| "permitted C hk _ \<longleftrightarrow> False"

lemma in_enumerate: "d \<in> set xs \<Longrightarrow> \<exists>i. (i, d) \<in> set (List.enumerate n xs)"
  by (metis imageE map_snd_enumerate prod.collapse set_map)

lemma serve_recheck_None: "serve_recheck po write q = None \<Longrightarrow> may_open po write q"
  using in_enumerate[of _ "po_denials po" 0]
  by (fastforce simp: serve_recheck_def recheck_denial_def may_open_def Let_def find_None_iff
      split: if_splits option.splits)

lemma adds_hook_emit:
  "(\<And>em. em_step em = Some (hk_step hk) \<Longrightarrow> em_attempt em = Some (hk_attempt hk) \<Longrightarrow> P (Emitted em)) \<Longrightarrow>
   adds P (hook_emit w hk t body)"
  using adds_emit[of P] unfolding adds_def hook_emit_def by (simp add: event_def)

lemma adds_stream [adds_intros]: "adds P (stream_feed b c)" "adds P (stream_flush b)"
  by (auto simp: adds_def stream_feed_def stream_flush_def Let_def split: option.splits prod.splits)

lemma adds_refuse [adds_intros]: "adds P (hook_emit w hk t body) \<Longrightarrow> adds P (refuse w hk t body reason)"
  unfolding refuse_def by (intro adds_intros)

lemma adds_flush [adds_intros]: "(\<And>t body. adds P (hook_emit w hk t body)) \<Longrightarrow> adds P (flush_streams w hk)"
  unfolding flush_streams_def flush_one_def by (intro adds_intros)

lemma adds_on_event: "(\<And>t body. adds P (hook_emit w hk t body)) \<Longrightarrow> adds P (on_event w hk ev)"
  by (cases ev) (auto intro!: adds_intros)

lemma permitted_emit: "adds (permitted C hk) (hook_emit w hk t body)"
  by (rule adds_hook_emit) simp

lemma permitted_log: "adds (permitted C hk) (mlog w (log_entry ''permission_decided'' r (Some (hk_step hk)) a ''info''
    [(''rule_id'', x), (''decision'', y)]))"
  by (rule adds_mlog) (simp add: log_entry_def validate_line_None ALLOWED_LEVELS_def ALLOWED_DETAIL_FIELDS_def)

lemma permitted_recording: "adds (permitted C hk) (recording_permission w hk ci rq)"
  unfolding recording_permission_def by (auto intro!: adds_intros permitted_emit)

lemma permitted_permission: "adds (permitted C hk) (resolve_permission w hk ci rq)"
proof (cases "hk_policy hk")
  case None
  then show ?thesis by (simp add: resolve_permission_def permitted_recording)
next
  case (Some po)
  have "adds (permitted C hk) (policy_permission w hk po ci rq)"
    unfolding policy_permission_def Let_def
    by (intro adds_intros permitted_recording permitted_emit permitted_log)
  then show ?thesis by (simp add: resolve_permission_def Some)
qed

lemma adds_cleared:
  "(\<And>t body. adds P (hook_emit w hk t body)) \<Longrightarrow> adds P (cleared w hk po ci t verb write base path d)"
  unfolding cleared_def by (intro adds_intros) auto

lemma gives_refuse: "gives Q (refuse w hk t body reason)"
  by (auto simp: refuse_def gives_def andthen_def raise_def split: prod.splits res.splits)

lemma gives_cleared:
  "gives (\<lambda>q. d_allowed d \<and> resolve_contained (ci_serve ci) (str_path (po_workspace po)) (py_repr path) path = Inr q
     \<and> may_open po write q) (cleared w hk po ci t verb write base path d)"
proof (cases "d_allowed d")
  case True
  show ?thesis
  proof (cases "resolve_contained (ci_serve ci) (str_path (po_workspace po)) (py_repr path) path")
    case (Inr q)
    then show ?thesis
    proof (cases "serve_recheck po write q")
      case None
      with Inr True serve_recheck_None[OF None] show ?thesis by (simp add: cleared_def) (simp add: gives_def ok_def)
    qed (simp add: cleared_def gives_refuse True split: prod.split)
  qed (simp add: cleared_def gives_refuse True)
qed (simp add: cleared_def gives_refuse)

lemma permitted_read:
  assumes "FsRead ci path line limit \<in> C"
  shows "adds (permitted C hk) (read_text_file w hk ci path line limit)"
proof (cases "hk_policy hk")
  case None
  then show ?thesis
    by (auto simp: read_text_file_def recording_read_def intro!: adds_intros permitted_emit)
next
  case (Some po)
  let ?d = "decide_fs_read (ci_decide ci) po path"
  have "adds (permitted C hk) (serve_read w hk ci ?d path line limit q)"
    if q: "d_allowed ?d \<and> resolve_contained (ci_serve ci) (str_path (po_workspace po)) (py_repr path) path = Inr q \<and> may_open po False q" for q
  proof -
    have "asked po (FsRead ci path line limit) (DiskRead (str_path q))" using q by auto
    then have "permitted C hk (DiskRead (str_path q))" using assms Some by (auto simp del: asked.simps)
    then show ?thesis unfolding serve_read_def Let_def by (intro adds_intros permitted_emit)
  qed
  then have "adds (permitted C hk) (policy_read w hk po ci path line limit)"
    unfolding policy_read_def Let_def
    by (intro adds_andthen_gives[OF adds_cleared[OF permitted_emit] gives_cleared])
  then show ?thesis by (simp add: read_text_file_def Some)
qed

lemma permitted_write:
  assumes "FsWrite ci path txt \<in> C"
  shows "adds (permitted C hk) (write_text_file w hk ci path txt)"
proof (cases "hk_policy hk")
  case None
  then show ?thesis
    by (auto simp: write_text_file_def recording_write_def intro!: adds_intros permitted_emit)
next
  case (Some po)
  let ?d = "decide_fs_write (ci_decide ci) po path"
  have "adds (permitted C hk) (serve_write w hk ci ?d path txt q)"
    if q: "d_allowed ?d \<and> resolve_contained (ci_serve ci) (str_path (po_workspace po)) (py_repr path) path = Inr q \<and> may_open po True q" for q
  proof -
    have "asked po (FsWrite ci path txt) (DiskWrite (str_path q) txt)" using q by auto
    moreover have "\<not> po_deny_writes po" using q by (auto intro: ccontr)
    ultimately have "permitted C hk (DiskWrite (str_path q) txt)" using assms Some by (auto simp del: asked.simps)
    then show ?thesis unfolding serve_write_def Let_def by (intro adds_intros permitted_emit)
  qed
  then have "adds (permitted C hk) (policy_write w hk po ci path txt)"
    unfolding policy_write_def Let_def
    by (intro adds_andthen_gives[OF adds_cleared[OF permitted_emit] gives_cleared])
  then show ?thesis by (simp add: write_text_file_def Some)
qed

lemma permitted_terminal: "adds (permitted C hk) (handle_terminal w hk op body)"
  unfolding handle_terminal_def policy_terminal_def recording_terminal_def Let_def
  by (intro adds_intros permitted_emit)

lemma permitted_callback:
  assumes "c \<in> C"
  shows "\<exists>new. en_acts (callback w hk c s) = en_acts s @ new \<and> list_all (permitted C hk) new"
proof (cases c)
  case (OnEvent ev)
  with adds_on_event[OF permitted_emit] show ?thesis by (auto simp: adds_def)
next
  case (Permission ci rq)
  with permitted_permission show ?thesis by (auto simp: adds_def)
next
  case (FsRead ci path line limit)
  with permitted_read[of ci path line limit C] assms show ?thesis by (auto simp: adds_def)
next
  case (FsWrite ci path body)
  with permitted_write[of ci path body C] assms show ?thesis by (auto simp: adds_def)
next
  case (Terminal op body)
  with permitted_terminal show ?thesis by (auto simp: adds_def)
qed

lemma permitted_callbacks:
  assumes "set calls \<subseteq> C"
  shows "adds (permitted C hk) (callbacks w hk calls)"
proof (rule addsI)
  fix s
  show "\<exists>new. en_acts (snd (callbacks w hk calls s)) = en_acts s @ new \<and> list_all (permitted C hk) new"
    using assms
  proof (induction calls arbitrary: s)
    case (Cons c calls)
    then have "c \<in> C" "set calls \<subseteq> C" by auto
    from permitted_callback[OF this(1), of w hk s] obtain new where
      new: "en_acts (callback w hk c s) = en_acts s @ new" "list_all (permitted C hk) new" by blast
    from adds_append[OF new] Cons.IH[OF \<open>set calls \<subseteq> C\<close>, of "callback w hk c s"] show ?case by (simp add: callbacks_def)
  qed (simp add: callbacks_def)
qed

section \<open>The audit trail of file requests\<close>

text \<open>The acts of one request: the disk at most once, then one event, whose decision is the outcome.\<close>

definition audited :: "hooks \<Rightarrow> string \<Rightarrow> (act \<Rightarrow> bool) \<Rightarrow> ('a \<Rightarrow> nat) \<Rightarrow> 'a res \<Rightarrow> act list \<Rightarrow> bool" where
  "audited hk t disk len r new \<longleftrightarrow> (\<exists>opened em.
     new = opened @ [Emitted em] \<and> list_all disk opened \<and> length opened \<le> 1
     \<and> em_type em = t \<and> em_step em = Some (hk_step hk)
     \<and> (case r of
          Ok x \<Rightarrow> opened \<noteq> [] \<and> map_of (em_payload em) ''decision'' = Some (PStr ''allowed'')
            \<and> map_of (em_payload em) ''content_bytes'' = Some (PInt (int (len x)))
        | Raise (PolicyDenied why) \<Rightarrow> map_of (em_payload em) ''decision'' = Some (PStr ''denied'')
            \<and> (t = ''fs_write'' \<longrightarrow> map_of (em_payload em) ''path'' = None)
        | Raise (Python m) \<Rightarrow> True
        | _ \<Rightarrow> False))"

lemma hook_emit_acts:
  "\<exists>em. en_acts (snd (hook_emit w hk t body s)) = en_acts s @ [Emitted em] \<and> em_type em = t
     \<and> em_step em = Some (hk_step hk) \<and> em_payload em = body
     \<and> (fst (hook_emit w hk t body s) = Ok () \<or> (\<exists>m. fst (hook_emit w hk t body s) = Raise (Python m)))"
  by (auto simp: hook_emit_def emit_event_def event_def Let_def split: prod.splits sum.splits)

definition denied_body :: "string \<Rightarrow> payload \<Rightarrow> bool" where
  "denied_body t body \<longleftrightarrow> map_of body ''decision'' = Some (PStr ''denied'')
     \<and> (t = ''fs_write'' \<longrightarrow> map_of body ''path'' = None)"

lemma refuse_audited:
  assumes "denied_body t body" and "refuse w hk t body why s = (r, s')" and "list_all disk opened" and "length opened \<le> 1"
  shows "\<exists>new. en_acts s' = en_acts s @ new \<and> audited hk t disk len r (opened @ new)"
proof -
  obtain em where em: "en_acts (snd (hook_emit w hk t body s)) = en_acts s @ [Emitted em]" "em_type em = t"
    "em_step em = Some (hk_step hk)" "em_payload em = body"
    and r: "fst (hook_emit w hk t body s) = Ok () \<or> (\<exists>m. fst (hook_emit w hk t body s) = Raise (Python m))"
    using hook_emit_acts[of w hk t body s] by blast
  from r assms(2) have "(r = Raise (PolicyDenied why) \<or> (\<exists>m. r = Raise (Python m))) \<and> s' = snd (hook_emit w hk t body s)"
    by (auto simp: refuse_def andthen_def raise_def split: prod.splits res.splits)
  with em assms(1,3,4) show ?thesis
    by (auto simp: audited_def denied_body_def intro!: exI[of _ opened])
qed

lemma denied_fields:
  "denied_body ''fs_read'' (read_base path line limit @ (''decision'', PStr ''denied'') # rest)"
  "denied_body ''fs_read'' (read_base path line limit @ refusal a b c d)"
  "denied_body ''fs_write'' (write_base path txt @ (''decision'', PStr ''denied'') # decision_fields dec)"
  "denied_body ''fs_write'' (write_base path txt @ [(''decision'', PStr ''denied''), (''rule_id'', x)])"
  "denied_body ''fs_write'' (write_base path txt @ refusal a b c d)"
  by (simp_all add: denied_body_def read_base_def write_base_def refusal_def decision_fields_def)

lemma cleared_cases:
  assumes "\<And>rest. denied_body t (base @ (''decision'', PStr ''denied'') # decision_fields d)"
    and "\<And>a b c e. denied_body t (base @ refusal a b c e)"
    and "cleared w hk po ci t verb write base path d s = (r, s')"
  shows "(\<exists>q. r = Ok q \<and> s' = s) \<or> (\<exists>body why. denied_body t body \<and> refuse w hk t body why s = (r, s'))"
  using assms unfolding cleared_def ok_def
  by (auto split: if_splits sum.splits option.splits)

lemma serve_read_audited:
  assumes "serve_read w hk ci d path line limit q s = (r, s')"
  shows "\<exists>new. en_acts s' = en_acts s @ new \<and> audited hk ''fs_read'' (\<lambda>a. \<exists>p. a = DiskRead p) utf8_len r new"
proof -
  let ?disk = "\<lambda>a. \<exists>p. a = DiskRead p" and ?open = "[DiskRead (str_path q)]"
  define s1 where "s1 = s\<lparr>en_acts := en_acts s @ ?open\<rparr>"
  have e1: "en_acts s1 = en_acts s @ ?open" by (simp add: s1_def)
  have deny: ?thesis if "refuse w hk ''fs_read'' body why s1 = (r, s')" "denied_body ''fs_read'' body" for body why
    using refuse_audited[OF that(2,1), of ?disk ?open utf8_len] e1 by auto
  have allow: ?thesis
    if "followed (hook_emit w hk ''fs_read'' body) (ok x) s1 = (r, s')"
      "map_of body ''decision'' = Some (PStr ''allowed'')" "map_of body ''content_bytes'' = Some (PInt (int (utf8_len x)))"
    for body x
  proof -
    obtain em where em: "en_acts (snd (hook_emit w hk ''fs_read'' body s1)) = en_acts s1 @ [Emitted em]"
      "em_type em = ''fs_read''" "em_step em = Some (hk_step hk)" "em_payload em = body"
      and f: "fst (hook_emit w hk ''fs_read'' body s1) = Ok () \<or> (\<exists>m. fst (hook_emit w hk ''fs_read'' body s1) = Raise (Python m))"
      using hook_emit_acts[of w hk "''fs_read''" body s1] by blast
    from f that(1) have "(r = Ok x \<or> (\<exists>m. r = Raise (Python m))) \<and> s' = snd (hook_emit w hk ''fs_read'' body s1)"
      by (auto simp: followed_def andthen_def ok_def split: prod.splits res.splits)
    with em that(2,3) e1 show ?thesis by (auto simp: audited_def)
  qed
  have body: "map_of (AList.update ''path'' p (read_base path line limit)
      @ [(''decision'', PStr ''allowed''), (''content_bytes'', n)] @ decision_fields d) ''decision'' = Some (PStr ''allowed'')"
    "map_of (AList.update ''path'' p (read_base path line limit)
      @ [(''decision'', PStr ''allowed''), (''content_bytes'', n)] @ decision_fields d) ''content_bytes'' = Some n" for p n
    by (simp_all add: read_base_def)
  note served = assms[unfolded serve_read_def followed_act Let_def, folded s1_def]
  show ?thesis
  proof (cases "ci_read ci q")
    case (Inl e)
    with served show ?thesis by (intro deny[OF _ denied_fields(2)]) (simp only: sum.case)
  next
    case (Inr c)
    then obtain bytes got where c: "ci_read ci q = Inr (bytes, got)" by (cases c) auto
    show ?thesis
    proof (cases "bytes > MAX_MEDIATED_READ_BYTES")
      case True
      with served show ?thesis
        by (intro deny[OF _ denied_fields(2)]) (simp only: c sum.case prod.case if_True)
    next
      case False
      with served show ?thesis
        by (intro allow[OF _ body]) (simp only: c sum.case prod.case if_False)
    qed
  qed
qed

lemma serve_write_audited:
  assumes "serve_write w hk ci d path txt q s = (r, s')"
  shows "\<exists>new. en_acts s' = en_acts s @ new
    \<and> audited hk ''fs_write'' (\<lambda>a. \<exists>p. a = DiskWrite p txt) (\<lambda>u. utf8_len txt) r new"
proof -
  let ?disk = "\<lambda>a. \<exists>p. a = DiskWrite p txt" and ?open = "[DiskWrite (str_path q) txt]"
  define s1 where "s1 = s\<lparr>en_acts := en_acts s @ ?open\<rparr>"
  have e1: "en_acts s1 = en_acts s @ ?open" by (simp add: s1_def)
  have deny: ?thesis if "refuse w hk ''fs_write'' body why s1 = (r, s')" "denied_body ''fs_write'' body" for body why
    using refuse_audited[OF that(2,1), of ?disk ?open] e1 by auto
  have allow: ?thesis
    if "hook_emit w hk ''fs_write'' body s1 = (r, s')"
      "map_of body ''decision'' = Some (PStr ''allowed'')" "map_of body ''content_bytes'' = Some (PInt (int (utf8_len txt)))"
    for body
  proof -
    obtain em where em: "en_acts (snd (hook_emit w hk ''fs_write'' body s1)) = en_acts s1 @ [Emitted em]"
      "em_type em = ''fs_write''" "em_step em = Some (hk_step hk)" "em_payload em = body"
      and f: "fst (hook_emit w hk ''fs_write'' body s1) = Ok () \<or> (\<exists>m. fst (hook_emit w hk ''fs_write'' body s1) = Raise (Python m))"
      using hook_emit_acts[of w hk "''fs_write''" body s1] by blast
    with that e1 show ?thesis by (auto simp: audited_def)
  qed
  have body: "map_of ([(''path'', p), (''content_bytes'', n), (''change_type'', c), (''decision'', PStr ''allowed'')]
      @ decision_fields d) ''decision'' = Some (PStr ''allowed'')"
    "map_of ([(''path'', p), (''content_bytes'', n), (''change_type'', c), (''decision'', PStr ''allowed'')]
      @ decision_fields d) ''content_bytes'' = Some n" for p n c
    by simp_all
  note served = assms[unfolded serve_write_def followed_act Let_def, folded s1_def]
  show ?thesis
  proof (cases "ci_write ci q txt")
    case None
    with served show ?thesis by (intro allow[OF _ body]) (simp only: option.case)
  next
    case (Some e)
    with served show ?thesis by (intro deny[OF _ denied_fields(5)]) (simp only: option.case)
  qed
qed

text \<open>A request from its decision on.\<close>

lemma cleared_audited:
  assumes "\<And>rest. denied_body t (base @ (''decision'', PStr ''denied'') # decision_fields d)"
    and "\<And>a b c e. denied_body t (base @ refusal a b c e)"
    and "\<And>q r s'. serve q s = (r, s') \<Longrightarrow> \<exists>new. en_acts s' = en_acts s @ new \<and> audited hk t disk len r new"
    and "andthen (cleared w hk po ci t verb write base path d) serve s = (r, s')"
  shows "\<exists>new. en_acts s' = en_acts s @ new \<and> audited hk t disk len r new"
proof -
  obtain q s1 where c: "cleared w hk po ci t verb write base path d s = (q, s1)" by fastforce
  from cleared_cases[OF assms(1,2) c] show ?thesis
  proof
    assume "\<exists>p. q = Ok p \<and> s1 = s"
    with assms(4) c assms(3) show ?thesis by (auto simp: andthen_def)
  next
    assume "\<exists>body why. denied_body t body \<and> refuse w hk t body why s = (q, s1)"
    then obtain body why where b: "denied_body t body" "refuse w hk t body why s = (q, s1)" by blast
    with assms(4) c have "refuse w hk t body why s = (r, s')"
      by (auto simp: andthen_def refuse_def raise_def split: prod.splits res.splits)
    from refuse_audited[OF b(1) this, of disk "[]"] show ?thesis by simp
  qed
qed

lemma read_audited:
  assumes "read_text_file w hk ci path line limit s = (r, s')"
  shows "\<exists>new. en_acts s' = en_acts s @ new \<and> audited hk ''fs_read'' (\<lambda>a. \<exists>p. a = DiskRead p) utf8_len r new"
proof (cases "hk_policy hk")
  case None
  with assms have "recording_read w hk path line limit s = (r, s')" by (simp add: read_text_file_def)
  from refuse_audited[OF denied_fields(1) this[unfolded recording_read_def], where opened = "[]"] show ?thesis by simp
next
  case (Some po)
  with assms show ?thesis
    unfolding read_text_file_def Some option.case policy_read_def Let_def
    by (intro cleared_audited[OF denied_fields(1,2) serve_read_audited])
qed

lemma write_audited:
  assumes "write_text_file w hk ci path txt s = (r, s')"
  shows "\<exists>new. en_acts s' = en_acts s @ new
    \<and> audited hk ''fs_write'' (\<lambda>a. \<exists>p. a = DiskWrite p txt) (\<lambda>u. utf8_len txt) r new"
proof (cases "hk_policy hk")
  case None
  with assms have "recording_write w hk path txt s = (r, s')" by (simp add: write_text_file_def)
  from refuse_audited[OF denied_fields(4) this[unfolded recording_write_def], where opened = "[]"] show ?thesis by simp
next
  case (Some po)
  with assms show ?thesis
    unfolding write_text_file_def Some option.case policy_write_def Let_def
    by (intro cleared_audited[OF denied_fields(3,5) serve_write_audited])
qed

section \<open>File changes of a request\<close>

lemma swept_dict_keys: "keys (swept_dict rx d) = keys d"
  by (induction d) auto

lemma whole_body_keys: "keys (whole_body p rx em) = keys (em_payload em)"
proof -
  have "keys (redacted rx (em_payload em)) = keys (em_payload em)"
    by (simp add: redacted_def redact_payload_def walk_scrub same_matchers_def swept_dict_keys split_beta)
  then show ?thesis by (simp add: whole_body_def Let_def metadata_view_def comp_def split_beta if_distrib cong: if_cong)
qed

text \<open>An engine whose recorder's aggregates are those of its log: every callback keeps it.\<close>

definition consistent :: "setting \<Rightarrow> recorder \<Rightarrow> engine \<Rightarrow> bool" where
  "consistent w rc0 s \<longleftrightarrow> replayed (se_recording w) rc0 (en_rc s)"

definition pathless :: "emission \<Rightarrow> bool" where
  "pathless em \<longleftrightarrow> em_type em = ''fs_write'' \<and> map_of (em_payload em) ''path'' = None"

lemma pathless_aggregate:
  assumes "pathless em" and "envelope_of rc em e"
  shows "aggregate w rc' e = rc'"
proof -
  have "map_of (ev_payload e) ''path'' = None" if "ev_type e \<noteq> ''truncation''"
  proof -
    have "set (keys (ev_payload e)) \<subseteq> set META_KEYS \<or> keys (ev_payload e) = keys (em_payload em)"
      using assms(2) that whole_body_keys[of "rc_profile rc" "rc_redactor rc" em] by (auto simp: envelope_of_def)
    with assms(1) show ?thesis
      by (auto simp: pathless_def map_of_eq_None_iff META_KEYS_def simp flip: set_map)
  qed
  moreover have "ev_type e = ''truncation'' \<or> ev_type e = ''fs_write''"
    using assms by (auto simp: envelope_of_def pathless_def)
  ultimately show ?thesis by (cases "ev_type e = ''truncation''") (simp_all add: aggregate_def Let_def)
qed

lemma pathless_emit:
  assumes "consistent w rc0 s" and "pathless em"
  shows "file_changes (en_rc (snd (emit_event w em s))) k = file_changes (en_rc s) k"
proof -
  let ?v = "se_recording w"
  let ?rc = "en_rc s" and ?rc' = "fst (emit (se_recording w) (en_rc s) em)"
  have r: "replayed ?v rc0 ?rc" using assms(1) by (simp add: consistent_def)
  have r': "replayed ?v rc0 ?rc'" using replayed_step[OF r, of "Emit em"] by simp
  obtain es where es: "rc_log ?rc' = rc_log ?rc @ es" "\<forall>e \<in> set es. envelope_of ?rc em e"
    using emit_logs[of ?rc em ?v] unfolding logs_def by blast
  have "\<forall>e \<in> set es. \<forall>x. aggregate ?v x e = x" using es(2) pathless_aggregate[OF assms(2)] by blast
  then have "replay ?v x es = x" for x unfolding replay_def by (induction es) simp_all
  then have "replay ?v rc0 (rc_log ?rc') = replay ?v rc0 (rc_log ?rc)" by (simp add: es(1) replay_def)
  moreover have "file_changes ?rc k = file_changes (replay ?v rc0 (rc_log ?rc)) k"
    "file_changes ?rc' k = file_changes (replay ?v rc0 (rc_log ?rc')) k"
    by (rule same_view_queries(2)[OF r[unfolded replayed_def]] same_view_queries(2)[OF r'[unfolded replayed_def]])+
  moreover have "en_rc (snd (emit_event w em s)) = ?rc'"
    by (auto simp: emit_event_def Let_def split: prod.splits sum.splits)
  ultimately show ?thesis by simp
qed

lemma refuse_file_changes:
  assumes "consistent w rc0 s" and "denied_body ''fs_write'' body" and "refuse w hk ''fs_write'' body why s = (r, s')"
  shows "file_changes (en_rc s') k = file_changes (en_rc s) k"
proof -
  have "s' = snd (hook_emit w hk ''fs_write'' body s)"
    using assms(3) by (auto simp: refuse_def andthen_def raise_def split: prod.splits res.splits)
  moreover have "pathless (event ''fs_write'' (Some (hk_step hk)) (Some (hk_attempt hk)) (en_session s) body)"
    using assms(2) by (simp add: pathless_def denied_body_def event_def)
  ultimately show ?thesis using pathless_emit[OF assms(1)] by (simp add: hook_emit_def)
qed

lemma hook_emit_not_denied: "hook_emit w hk t body s \<noteq> (Raise (PolicyDenied why), s')"
  using hook_emit_acts[of w hk t body s] by auto

lemma refused_write_refuses:
  assumes "write_text_file w hk ci path txt s = ((Raise (PolicyDenied why) :: unit res), s')"
  shows "\<exists>body s1 why'. denied_body ''fs_write'' body \<and> en_rc s1 = en_rc s
    \<and> refuse w hk ''fs_write'' body why' s1 = ((Raise (PolicyDenied why) :: unit res), s')"
proof (cases "hk_policy hk")
  case None
  have "refuse w hk ''fs_write'' (write_base path txt
      @ [(''decision'', PStr ''denied''), (''rule_id'', PStr DEFAULT_DENY_RULE_ID)])
      ''phase1 default-deny: mediated file write is not permitted'' s = ((Raise (PolicyDenied why) :: unit res), s')"
    using assms by (simp only: write_text_file_def None option.case recording_write_def)
  then show ?thesis using denied_fields(4) by blast
next
  case (Some po)
  define d where "d = decide_fs_write (ci_decide ci) po path"
  let ?c = "cleared w hk po ci ''fs_write'' ''write'' True (write_base path txt) path d"
  obtain q s1 where c: "?c s = (q, s1)" by fastforce
  have a: "andthen ?c (serve_write w hk ci d path txt) s = ((Raise (PolicyDenied why) :: unit res), s')"
    using assms by (simp add: write_text_file_def Some policy_write_def Let_def d_def)
  from cleared_cases[OF denied_fields(3,5) c] show ?thesis
  proof
    assume "\<exists>p. q = Ok p \<and> s1 = s"
    with a c obtain p where sw: "serve_write w hk ci d path txt p s = ((Raise (PolicyDenied why) :: unit res), s')" by (auto simp: andthen_def)
    define s2 where "s2 = s\<lparr>en_acts := en_acts s @ [DiskWrite (str_path p) txt]\<rparr>"
    have "en_rc s2 = en_rc s" by (simp add: s2_def)
    moreover from sw obtain e where "refuse w hk ''fs_write'' (write_base path txt
          @ refusal RULE_MEDIATED_IO_ERROR (d_policy_name d) ''default'' (''mediated write failed: '' @ e))
        (''cannot write '' @ py_repr path @ '': '' @ e) s2 = ((Raise (PolicyDenied why) :: unit res), s')"
      unfolding serve_write_def followed_act Let_def s2_def[symmetric]
      by (cases "ci_write ci p txt") (simp_all only: option.case hook_emit_not_denied)
    ultimately show ?thesis using denied_fields(5) by blast
  next
    assume "\<exists>body why. denied_body ''fs_write'' body \<and> refuse w hk ''fs_write'' body why s = (q, s1)"
    then obtain body why' where b: "denied_body ''fs_write'' body" "refuse w hk ''fs_write'' body why' s = (q, s1)" by blast
    with a c have "refuse w hk ''fs_write'' body why' s = ((Raise (PolicyDenied why) :: unit res), s')"
      by (auto simp: andthen_def refuse_def raise_def split: prod.splits res.splits)
    with b(1) show ?thesis by blast
  qed
qed

section \<open>Permission replies\<close>

lemma select_option_kind:
  "rp_option (select_option options ks) = Some i \<Longrightarrow>
   \<exists>x \<in> set options. op_id x = i \<and> op_kind x \<in> set ks"
  by (induction ks) (auto split: option.splits simp: find_Some_iff)

lemma select_option_first:
  "\<exists>x \<in> set options. op_kind x = k \<Longrightarrow>
   \<exists>x \<in> set options. op_kind x = k \<and> select_option options (k # ks) = \<lparr>rp_kind = ''selected'', rp_option = Some (op_id x)\<rparr>"
proof -
  assume "\<exists>x \<in> set options. op_kind x = k"
  then obtain y where y: "find (\<lambda>x. op_kind x = k) options = Some y"
    by (metis (mono_tags, lifting) find_None_iff option.exhaust)
  then have "y \<in> set options" "op_kind y = k" by (auto simp: find_Some_iff)
  with y show ?thesis by auto
qed

section \<open>Properties\<close>

text \<open>C5: whatever an agent asks through its callbacks, and however the file system changes between a
  decision and its service, the program opens a file only in answer to one of these requests, which the
  policy of the step allowed when it was decided, and only the path that the request resolved to when it
  was served: it lies in the workspace, matches no project denial and no sensitive glob, and for a write
  lies in the step's directory; under the planner's policy no file is written. Besides, the callbacks only
  emit events of their own step and write log lines the metadata log accepts.\<close>

theorem callbacks_stay_in_policy:
  "\<exists>new. en_acts (fold (callback w hk) calls s) = en_acts s @ new \<and> list_all (permitted (set calls) hk) new"
  using permitted_callbacks[of calls "set calls" hk w] unfolding adds_def callbacks_def by auto

text \<open>every file request leaves exactly one event in the audit trail, after the file was opened if it
  was opened, and the event says what happened: allowed with the exact size of the content exactly when
  the request succeeds, denied when the agent is refused, and then a write's event has no path.\<close>

theorem file_requests_are_audited:
  "(\<exists>new. en_acts (snd (read_text_file w hk ci path line limit s)) = en_acts s @ new
      \<and> audited hk ''fs_read'' (\<lambda>a. \<exists>p. a = DiskRead p) utf8_len (fst (read_text_file w hk ci path line limit s)) new)
   \<and> (\<exists>new. en_acts (snd (write_text_file w hk ci path txt s)) = en_acts s @ new
      \<and> audited hk ''fs_write'' (\<lambda>a. \<exists>p. a = DiskWrite p txt) (\<lambda>u. utf8_len txt)
          (fst (write_text_file w hk ci path txt s)) new)"
  by (intro conjI read_audited write_audited) simp_all

text \<open>a write the agent was refused never shows up as a file change: whenever the recorder's
  aggregates are those of its log, a write request that does not open the file leaves the file
  changes of every step as they were.\<close>

theorem refused_write_is_no_file_change:
  assumes "consistent w rc0 s" and "fst (write_text_file w hk ci path txt s) = Raise (PolicyDenied why)"
  shows "file_changes (en_rc (snd (write_text_file w hk ci path txt s))) k = file_changes (en_rc s) k"
proof -
  obtain s' where s': "write_text_file w hk ci path txt s = (Raise (PolicyDenied why), s')"
    using assms(2) by (metis prod.collapse)
  from refused_write_refuses[OF this] obtain body s1 why' where b: "denied_body ''fs_write'' body"
    "en_rc s1 = en_rc s" "refuse w hk ''fs_write'' body why' s1 = ((Raise (PolicyDenied why) :: unit res), s')" by blast
  from assms(1) b(2) have "consistent w rc0 s1" by (simp add: consistent_def)
  from refuse_file_changes[OF this b(1,3)] b(2) s' show ?thesis by simp
qed

text \<open>the reply to a permission request follows the policy's decision: it selects an offered option
  of the decided kind and prefers the one that grants or rejects once; when no such option is offered it
  selects none.\<close>

theorem permission_reply_follows_policy:
  assumes "policy_permission w hk po ci rq s = (Ok reply, s')" and "\<not> hk_override hk"
  shows "\<exists>d. decide_permission (ci_decide ci) po (PDict (rq_tool_call rq)) = Inr d
    \<and> reply = select_option (rq_options rq) (if d_allowed d then ALLOW_KIND_ORDER else REJECT_KIND_ORDER)
    \<and> (\<forall>i. rp_option reply = Some i \<longrightarrow> (\<exists>x \<in> set (rq_options rq). op_id x = i
         \<and> op_kind x \<in> set (if d_allowed d then ALLOW_KIND_ORDER else REJECT_KIND_ORDER)))
    \<and> ((\<exists>x \<in> set (rq_options rq). op_kind x = (if d_allowed d then ''allow_once'' else ''reject_once'')) \<longrightarrow>
         (\<exists>x \<in> set (rq_options rq). op_kind x = (if d_allowed d then ''allow_once'' else ''reject_once'')
            \<and> rp_option reply = Some (op_id x)))"
proof -
  from assms obtain d where d: "decide_permission (ci_decide ci) po (PDict (rq_tool_call rq)) = Inr d"
    and r: "reply = select_option (rq_options rq) (if d_allowed d then ALLOW_KIND_ORDER else REJECT_KIND_ORDER)"
    unfolding policy_permission_def Let_def
    by (auto simp: followed_def andthen_def raise_def ok_def reads_def split: prod.splits res.splits sum.splits if_splits)
  have "rp_option reply = Some i \<Longrightarrow> \<exists>x \<in> set (rq_options rq). op_id x = i
         \<and> op_kind x \<in> set (if d_allowed d then ALLOW_KIND_ORDER else REJECT_KIND_ORDER)" for i
    using select_option_kind r by blast
  moreover have "\<exists>x \<in> set (rq_options rq). op_kind x = (if d_allowed d then ''allow_once'' else ''reject_once'')
            \<and> rp_option reply = Some (op_id x)"
    if offered: "\<exists>x \<in> set (rq_options rq). op_kind x = (if d_allowed d then ''allow_once'' else ''reject_once'')"
  proof -
    let ?ks = "if d_allowed d then [''allow_always''] else [''reject_always'']"
    obtain x where x: "x \<in> set (rq_options rq)" "op_kind x = (if d_allowed d then ''allow_once'' else ''reject_once'')"
      "select_option (rq_options rq) ((if d_allowed d then ''allow_once'' else ''reject_once'') # ?ks)
         = \<lparr>rp_kind = ''selected'', rp_option = Some (op_id x)\<rparr>"
      using select_option_first[OF offered, of ?ks] by blast
    from x(3) r have "reply = \<lparr>rp_kind = ''selected'', rp_option = Some (op_id x)\<rparr>"
      by (cases "d_allowed d") (simp_all only: ALLOW_KIND_ORDER_def REJECT_KIND_ORDER_def if_True if_False)
    with x(1,2) show ?thesis by auto
  qed
  ultimately show ?thesis using d r by blast
qed

section \<open>A concrete exchange\<close>

definition demo_hooks :: hooks where
  "demo_hooks = \<lparr>hk_step = ''main'', hk_attempt = 1, hk_policy = Some tiny_policy, hk_override = False\<rparr>"

definition demo_circumstances :: circumstances where
  "demo_circumstances = \<lparr>ci_decide = tiny_fs, ci_serve = tiny_fs, ci_exists = (\<lambda>p. True),
     ci_read = (\<lambda>p. Inr (2, ''ok'')), ci_write = (\<lambda>p t. None), ci_now = ''now'',
     ci_decider = (\<lambda>rq. Inl (Python ''no decider''))\<rparr>"

definition demo_request :: perm_request where
  "demo_request = \<lparr>rq_session = ''s'', rq_tool_call = [(''kind'', PStr ''fetch'')],
     rq_options = [\<lparr>op_id = ''a'', op_name = ''Always'', op_kind = ''reject_always''\<rparr>,
       \<lparr>op_id = ''b'', op_name = ''Once'', op_kind = ''reject_once''\<rparr>]\<rparr>"

definition demo_engine :: engine where
  "demo_engine = engine_of (roomy_recorder demo_redactor)"

lemma demo_consistent: "consistent demo_setting (roomy_recorder demo_redactor) demo_engine"
proof -
  have "new_recorder ''r'' None demo_redactor ''standard'' DEFAULT_LIMITS False = Some (roomy_recorder demo_redactor)"
    by (simp add: roomy_recorder_def new_recorder_def profile_of_def)
  from new_recorder_Some[OF this] show ?thesis
    by (simp add: consistent_def replayed_def replay_def same_view_refl demo_engine_def engine_of_def)
qed

lemma demo_hook_emit: "t \<in> set EVENT_TYPES \<Longrightarrow> fst (hook_emit demo_setting hk t body s) = Ok ()"
  unfolding hook_emit_def by (rule emit_event_Ok) (simp_all add: demo_setting_def demo_never_raises event_def)

lemma refuse_raises: "fst (hook_emit w hk t body s) = Ok () \<Longrightarrow> fst (refuse w hk t body why s) = Raise (PolicyDenied why)"
  by (simp add: refuse_def andthen_Ok raise_def)

lemma demo_write_refused:
  "fst (write_text_file demo_setting demo_hooks demo_circumstances ''src/../.env'' ''x'' demo_engine)
     = Raise (PolicyDenied (d_reason (decide_fs_write tiny_fs tiny_policy ''src/../.env'')))"
proof -
  define d where "d = decide_fs_write tiny_fs tiny_policy ''src/../.env''"
  have "\<not> d_allowed (decide_fs_write tiny_fs tiny_policy ''src/../.env'')" by code_simp
  then have n: "\<not> d_allowed d" unfolding d_def .
  have t: "''fs_write'' \<in> set EVENT_TYPES" by (simp add: EVENT_TYPES_def)
  let ?b = "write_base ''src/../.env'' ''x'' @ (''decision'', PStr ''denied'') # decision_fields d"
  have "write_text_file demo_setting demo_hooks demo_circumstances ''src/../.env'' ''x'' demo_engine
      = andthen (refuse demo_setting demo_hooks ''fs_write'' ?b (d_reason d))
          (serve_write demo_setting demo_hooks demo_circumstances d ''src/../.env'' ''x'') demo_engine"
    unfolding write_text_file_def policy_write_def Let_def cleared_def
    using n by (simp add: demo_hooks_def demo_circumstances_def d_def del: write_base_def)
  moreover have "fst (andthen (refuse demo_setting demo_hooks ''fs_write'' ?b (d_reason d)) f demo_engine)
      = Raise (PolicyDenied (d_reason d))" for f :: "pth \<Rightarrow> unit eng"
  proof -
    have "fst ((refuse demo_setting demo_hooks ''fs_write'' ?b (d_reason d) :: pth eng) demo_engine) = Raise (PolicyDenied (d_reason d))"
      by (rule refuse_raises[OF demo_hook_emit[OF t]])
    then show ?thesis
      by (cases "(refuse demo_setting demo_hooks ''fs_write'' ?b (d_reason d) :: pth eng) demo_engine") (simp add: andthen_def)
  qed
  ultimately show ?thesis by (simp only: d_def[symmetric])
qed

theorem refused_write_witness:
  "file_changes (en_rc (snd (write_text_file demo_setting demo_hooks demo_circumstances ''src/../.env'' ''x'' demo_engine)))
     (Some ''main'') = file_changes (en_rc demo_engine) (Some ''main'')"
  by (rule refused_write_is_no_file_change[OF demo_consistent demo_write_refused])

lemma demo_denied: "case decide_permission tiny_fs tiny_policy (PDict (rq_tool_call demo_request)) of Inl e \<Rightarrow> False | Inr d \<Rightarrow> \<not> d_allowed d"
  by code_simp

lemma demo_permission:
  "fst (policy_permission demo_setting demo_hooks tiny_policy demo_circumstances demo_request demo_engine)
     = Ok \<lparr>rp_kind = ''selected'', rp_option = Some ''b''\<rparr>"
proof -
  let ?rq = "PDict (rq_tool_call demo_request)"
  obtain d where d: "decide_permission tiny_fs tiny_policy ?rq = Inr d" "\<not> d_allowed d"
    using demo_denied by (auto split: sum.splits)
  have o: "select_option (rq_options demo_request) REJECT_KIND_ORDER = \<lparr>rp_kind = ''selected'', rp_option = Some ''b''\<rparr>"
    by code_simp
  have t: "''permission_requested'' \<in> set EVENT_TYPES" "''permission_decided'' \<in> set EVENT_TYPES"
    by (simp_all add: EVENT_TYPES_def)
  have l: "fst (mlog demo_setting (log_entry ''permission_decided'' (Some r) (Some st) None ''info''
      [(''rule_id'', x), (''decision'', y)]) s) = Ok ()" for r st x y s
  proof -
    have "validate_line ''info'' [(''rule_id'', x), (''decision'', y)] = None"
      by (simp add: validate_line_None ALLOWED_LEVELS_def ALLOWED_DETAIL_FIELDS_def)
    then show ?thesis
      by (auto simp: mlog_def demo_setting_def log_entry_def log_write_def Let_def split: prod.splits option.splits outcome.splits)
  qed
  show ?thesis
    unfolding policy_permission_def Let_def
    by (simp add: followed_Ok[OF demo_hook_emit[OF t(1)]] followed_Ok[OF demo_hook_emit[OF t(2)]] followed_Ok[OF l] d o
        demo_hooks_def demo_circumstances_def andthen_def reads_def ok_def)
qed

theorem permission_reply_witness:
  "\<exists>d. decide_permission tiny_fs tiny_policy (PDict (rq_tool_call demo_request)) = Inr d \<and> \<not> d_allowed d
     \<and> fst (policy_permission demo_setting demo_hooks tiny_policy demo_circumstances demo_request demo_engine)
         = Ok \<lparr>rp_kind = ''selected'', rp_option = Some ''b''\<rparr>"
proof -
  let ?rq = "PDict (rq_tool_call demo_request)"
  obtain d where d: "decide_permission tiny_fs tiny_policy ?rq = Inr d" "\<not> d_allowed d"
    using demo_denied by (auto split: sum.splits)
  from demo_permission obtain s' where r: "policy_permission demo_setting demo_hooks tiny_policy demo_circumstances demo_request demo_engine
      = (Ok \<lparr>rp_kind = ''selected'', rp_option = Some ''b''\<rparr>, s')" by (metis prod.collapse)
  have "\<not> hk_override demo_hooks" by (simp add: demo_hooks_def)
  from permission_reply_follows_policy[OF r this] obtain d' where
    "decide_permission (ci_decide demo_circumstances) tiny_policy ?rq = Inr d'" by blast
  with d r show ?thesis by (auto simp: demo_circumstances_def)
qed

end
