(* ===== verification/Acp_Convert.thy ===== *)
theory Acp_Convert
  imports Hooks
begin

text \<open>
  \<open>acp/convert.py\<close>: the SDK's session updates, handshakes and permission messages to native values,
  and native values to what Ziggy sends when it serves a client. The SDK models are generated by the
  acp library: a model here has the fields the conversions read or set, and \<open>extra\<close> stands for the
  rest of them, which only \<open>_dump\<close> sees. \<open>_dump\<close> and the SDK's vocabularies are parameters.
\<close>

section \<open>SDK models\<close>

datatype content_block = TextBlock string | OtherBlock string      \<comment> \<open>its type\<close>

record plan_entry =
  pe_content :: string
  pe_priority :: string
  pe_status :: string

record tool_update =
  tu_id :: string
  tu_title :: "string option"
  tu_kind :: "string option"
  tu_status :: "string option"
  tu_locations :: "string list option"
  tu_has_content :: bool
  tu_extra :: payload

datatype session_update =
    UserMessageChunk content_block
  | AgentMessageChunk content_block
  | AgentThoughtChunk content_block
  | ToolCallStart tool_update
  | ToolCallProgress tool_update
  | AgentPlanUpdate "plan_entry list"
  | AgentPlanContentUpdate "plan_entry list option" string payload   \<comment> \<open>\<open>None\<close>: a file or markdown plan\<close>
  | AgentPlanRemovedUpdate
  | UsageUpdate int int "(string \<times> string) option" payload           \<comment> \<open>cost: amount and currency\<close>
  | CurrentModeUpdate payload
  | ConfigOptionUpdate payload
  | SessionInfoUpdate payload
  | AvailableCommandsUpdate payload
  | OtherModel string payload
  | NoModel string string                                             \<comment> \<open>its update type and its repr\<close>

record init_response =
  ir_protocol_version :: int
  ir_agent_info :: "(string \<times> string \<times> string option) option"         \<comment> \<open>name, version, title\<close>
  ir_capabilities :: "payload option"                               \<comment> \<open>dumped\<close>
  ir_auth_methods :: "payload list option"                          \<comment> \<open>dumped\<close>

record handshake =
  hs_protocol_version :: int
  hs_agent_name :: string
  hs_agent_version :: "string option"
  hs_agent_title :: "string option"
  hs_capabilities :: payload
  hs_auth_methods :: "payload list"

datatype permission_outcome = OutcomeSelected string | OutcomeCancelled

record vocabulary =
  vo_tool_kinds :: "string list"
  vo_tool_statuses :: "string list"
  vo_priorities :: "string list"
  vo_statuses :: "string list"

section \<open>To native values\<close>

fun content_block_text :: "content_block \<Rightarrow> string" where
  "content_block_text (TextBlock s) = s"
| "content_block_text (OtherBlock t) = ''['' @ t @ '']''"

definition plan_entries :: "plan_entry list \<Rightarrow> pyval list" where
  "plan_entries es = map (\<lambda>e. PDict [(''content'', PStr (pe_content e)), (''priority'', PStr (pe_priority e)),
     (''status'', PStr (pe_status e))]) es"

definition update_locations :: "tool_update \<Rightarrow> string list" where
  "update_locations u = (case tu_locations u of None \<Rightarrow> [] | Some ls \<Rightarrow> ls)"

definition tool_event :: "bool \<Rightarrow> tool_update \<Rightarrow> payload \<Rightarrow> agent_event" where
  "tool_event start u raw = ToolCall (tu_id u) start (tu_title u) (tu_kind u) (tu_status u)
     (update_locations u) (tu_has_content u) raw"

text \<open>\<open>to_agent_event\<close>: every variant has its event.\<close>

fun to_agent_event :: "(session_update \<Rightarrow> payload) \<Rightarrow> session_update \<Rightarrow> agent_event" where
  "to_agent_event dump (UserMessageChunk b) = MessageChunk ''user'' (content_block_text b) False"
| "to_agent_event dump (AgentMessageChunk b) = MessageChunk ''agent'' (content_block_text b) False"
| "to_agent_event dump (AgentThoughtChunk b) = MessageChunk ''agent'' (content_block_text b) True"
| "to_agent_event dump (ToolCallStart u) = tool_event True u (dump (ToolCallStart u))"
| "to_agent_event dump (ToolCallProgress u) = tool_event False u (dump (ToolCallProgress u))"
| "to_agent_event dump (AgentPlanUpdate es) = PlanUpdate (plan_entries es)"
| "to_agent_event dump (AgentPlanContentUpdate (Some es) t x) = PlanUpdate (plan_entries es)"
| "to_agent_event dump (AgentPlanContentUpdate None t x) =
     UnknownUpdate t (dump (AgentPlanContentUpdate None t x))"
| "to_agent_event dump AgentPlanRemovedUpdate = PlanUpdate []"
| "to_agent_event dump (UsageUpdate used window cost x) =
     Usage (PInt used) (PInt window) (case cost of None \<Rightarrow> PNone | Some (a, c) \<Rightarrow> PFloat a)
       (case cost of None \<Rightarrow> PNone | Some (a, c) \<Rightarrow> PStr c) (dump (UsageUpdate used window cost x))"
| "to_agent_event dump (CurrentModeUpdate x) = Mode ''current_mode'' (dump (CurrentModeUpdate x))"
| "to_agent_event dump (ConfigOptionUpdate x) = Mode ''config_option'' (dump (ConfigOptionUpdate x))"
| "to_agent_event dump (SessionInfoUpdate x) = Mode ''session_info'' (dump (SessionInfoUpdate x))"
| "to_agent_event dump (AvailableCommandsUpdate x) =
     Mode ''available_commands'' (dump (AvailableCommandsUpdate x))"
| "to_agent_event dump (OtherModel t x) = UnknownUpdate t (dump (OtherModel t x))"
| "to_agent_event dump (NoModel t r) = UnknownUpdate t [(''repr'', PStr r)]"

definition to_permission_request :: "string \<Rightarrow> payload \<Rightarrow> perm_option list \<Rightarrow> perm_request" where
  "to_permission_request session dumped options =
     \<lparr>rq_session = session, rq_tool_call = dumped, rq_options = options\<rparr>"

text \<open>A selected reply without an option degrades to the denied outcome.\<close>

definition to_permission_response :: "perm_reply \<Rightarrow> permission_outcome" where
  "to_permission_response r = (case rp_option r of
     Some i \<Rightarrow> if rp_kind r = ''selected'' then OutcomeSelected i else OutcomeCancelled
   | None \<Rightarrow> OutcomeCancelled)"

definition to_handshake_info :: "init_response \<Rightarrow> handshake" where
  "to_handshake_info r =
     \<lparr>hs_protocol_version = ir_protocol_version r,
      hs_agent_name = (case ir_agent_info r of None \<Rightarrow> ''unknown'' | Some (n, v, t) \<Rightarrow> n),
      hs_agent_version = (case ir_agent_info r of None \<Rightarrow> None | Some (n, v, t) \<Rightarrow> Some v),
      hs_agent_title = (case ir_agent_info r of None \<Rightarrow> None | Some (n, v, t) \<Rightarrow> t),
      hs_capabilities = (case ir_capabilities r of None \<Rightarrow> [] | Some c \<Rightarrow> c),
      hs_auth_methods = (case ir_auth_methods r of None \<Rightarrow> [] | Some l \<Rightarrow> l)\<rparr>"

section \<open>From native values\<close>

datatype server_update = AgentEvent agent_event | ServerNotice string

definition served_text_chunk :: "string \<Rightarrow> bool \<Rightarrow> session_update" where
  "served_text_chunk s thought =
     (if thought then AgentThoughtChunk (TextBlock s) else AgentMessageChunk (TextBlock s))"

definition known :: "string list \<Rightarrow> string \<Rightarrow> pyval \<Rightarrow> string" where
  "known vocab dflt v = (case v of PStr s \<Rightarrow> if s \<in> set vocab then s else dflt | _ \<Rightarrow> dflt)"

text \<open>\<open>_served_plan_entry\<close>; an entry is a dict by its type.\<close>

definition served_plan_entry :: "vocabulary \<Rightarrow> payload \<Rightarrow> plan_entry" where
  "served_plan_entry vo d =
     \<lparr>pe_content = str_val (get_or (PStr []) d ''content''),
      pe_priority = known (vo_priorities vo) ''medium'' (get_or PNone d ''priority''),
      pe_status = known (vo_statuses vo) ''pending'' (get_or PNone d ''status'')\<rparr>"

definition entry_fields :: "pyval \<Rightarrow> payload" where
  "entry_fields v = (case v of PDict d \<Rightarrow> d | _ \<Rightarrow> [])"

definition spoken :: "string list \<Rightarrow> string option \<Rightarrow> string option" where
  "spoken vocab v = (case v of None \<Rightarrow> None | Some s \<Rightarrow> if s \<in> set vocab then Some s else None)"

definition served_tool :: "vocabulary \<Rightarrow> string \<Rightarrow> string option \<Rightarrow> string option \<Rightarrow> string option \<Rightarrow> string list \<Rightarrow> tool_update" where
  "served_tool vo i title kind status locations =
     \<lparr>tu_id = i, tu_title = title, tu_kind = spoken (vo_tool_kinds vo) kind,
      tu_status = spoken (vo_tool_statuses vo) status,
      tu_locations = (if locations = [] then None else Some locations), tu_has_content = False, tu_extra = []\<rparr>"

definition served_cost :: "pyval \<Rightarrow> pyval \<Rightarrow> (string \<times> string) option" where
  "served_cost cost currency = (case (cost, currency) of (PFloat a, PStr c) \<Rightarrow> Some (a, c) | _ \<Rightarrow> None)"

text \<open>\<open>from_agent_event\<close>; \<open>None\<close> is an event that is skipped.\<close>

fun from_agent_event :: "vocabulary \<Rightarrow> server_update \<Rightarrow> session_update option" where
  "from_agent_event vo (ServerNotice s) = Some (served_text_chunk s False)"
| "from_agent_event vo (AgentEvent (MessageChunk role s thought)) = Some (served_text_chunk s thought)"
| "from_agent_event vo (AgentEvent (ToolCall i start title kind status locations has_content raw)) =
     Some (if start
       then ToolCallStart (served_tool vo i (case title of Some (c # cs) \<Rightarrow> Some (c # cs) | _ \<Rightarrow> Some i) kind status locations)
       else ToolCallProgress (served_tool vo i title kind status locations))"
| "from_agent_event vo (AgentEvent (PlanUpdate entries)) =
     Some (AgentPlanUpdate (map (served_plan_entry vo \<circ> entry_fields) entries))"
| "from_agent_event vo (AgentEvent (Usage used window cost currency raw)) =
     (case (used, window) of
        (PInt u, PInt n) \<Rightarrow> Some (UsageUpdate u n (served_cost cost currency) [])
      | _ \<Rightarrow> None)"
| "from_agent_event vo (AgentEvent (Mode kind body)) = None"
| "from_agent_event vo (AgentEvent (UnknownUpdate t body)) = None"

text \<open>\<open>bool(v)\<close>\<close>

fun truthy :: "pyval \<Rightarrow> bool" where
  "truthy PNone = False"
| "truthy (PBool b) = b"
| "truthy (PInt i) = (i \<noteq> 0)"
| "truthy (PFloat f) = (f \<notin> {''0.0'', ''-0.0''})"
| "truthy (PStr s) = (s \<noteq> [])"
| "truthy (PList l) = (l \<noteq> [])"
| "truthy (PDict d) = (d \<noteq> [])"

text \<open>\<open>from_permission_request\<close>: the payload that \<open>ToolCallUpdate\<close> is validated from, and the options.\<close>

definition from_permission_request :: "perm_request \<Rightarrow> string \<Rightarrow> payload \<times> perm_option list" where
  "from_permission_request rq label =
     (let title = get_or PNone (rq_tool_call rq) ''title'' in
      (with_entry (rq_tool_call rq) ''title''
         (PStr (if truthy title then ''['' @ label @ ''] '' @ str_val title else ''['' @ label @ '']'')),
       rq_options rq))"

definition from_permission_outcome :: "permission_outcome \<Rightarrow> perm_reply" where
  "from_permission_outcome x = (case x of
     OutcomeSelected i \<Rightarrow> \<lparr>rp_kind = ''selected'', rp_option = Some i\<rparr>
   | OutcomeCancelled \<Rightarrow> \<lparr>rp_kind = ''cancelled'', rp_option = None\<rparr>)"

section \<open>Relaying\<close>

text \<open>The events the SDK's vocabulary can carry, and equality but for what only the debug capture keeps.\<close>

fun plain_entry :: "vocabulary \<Rightarrow> pyval \<Rightarrow> bool" where
  "plain_entry vo (PDict [(a, PStr c), (b, PStr p), (d, PStr q)]) \<longleftrightarrow>
     a = ''content'' \<and> b = ''priority'' \<and> d = ''status'' \<and> p \<in> set (vo_priorities vo) \<and> q \<in> set (vo_statuses vo)"
| "plain_entry vo v \<longleftrightarrow> False"

fun speakable :: "vocabulary \<Rightarrow> agent_event \<Rightarrow> bool" where
  "speakable vo (MessageChunk role s thought) \<longleftrightarrow> role = ''agent''"
| "speakable vo (ToolCall i start title kind status locations has_content raw) \<longleftrightarrow>
     (start \<longrightarrow> title \<noteq> None \<and> title \<noteq> Some []) \<and> spoken (vo_tool_kinds vo) kind = kind
     \<and> spoken (vo_tool_statuses vo) status = status"
| "speakable vo (PlanUpdate entries) \<longleftrightarrow> list_all (plain_entry vo) entries"
| "speakable vo (Usage used window cost currency raw) \<longleftrightarrow> (case (used, window, cost, currency) of
     (PInt u, PInt n, PNone, PNone) \<Rightarrow> True | (PInt u, PInt n, PFloat a, PStr c) \<Rightarrow> True | _ \<Rightarrow> False)"
| "speakable vo (Mode kind body) \<longleftrightarrow> False"
| "speakable vo (UnknownUpdate t body) \<longleftrightarrow> False"

fun shows_as :: "agent_event \<Rightarrow> agent_event" where
  "shows_as (ToolCall i start title kind status locations has_content raw) =
     ToolCall i start title kind status locations False []"
| "shows_as (Usage used window cost currency raw) = Usage used window cost currency []"
| "shows_as ev = ev"

lemma spoken_known [simp]: "spoken vocab (spoken vocab v) = spoken vocab v"
  by (cases v) (auto simp: spoken_def)

lemma known_known [simp]: "known vocab dflt (PStr (known vocab dflt v)) = known vocab dflt v"
  by (auto simp: known_def split: pyval.splits)

lemma served_again [simp]:
  "served_plan_entry vo (entry_fields (PDict [(''content'', PStr (pe_content (served_plan_entry vo d))),
     (''priority'', PStr (pe_priority (served_plan_entry vo d))), (''status'', PStr (pe_status (served_plan_entry vo d)))]))
   = served_plan_entry vo d"
  by (simp add: served_plan_entry_def entry_fields_def get_or_def)

lemma served_entries [simp]:
  "map (served_plan_entry vo \<circ> entry_fields) (plan_entries (map (served_plan_entry vo \<circ> entry_fields) es)) =
   map (served_plan_entry vo \<circ> entry_fields) es"
  by (simp add: plan_entries_def)

lemma served_tool_again:
  "served_tool vo (tu_id (served_tool vo i t k q ls)) t' (tu_kind (served_tool vo i t k q ls))
     (tu_status (served_tool vo i t k q ls)) (update_locations (served_tool vo i t k q ls)) = served_tool vo i t' k q ls"
  by (simp add: served_tool_def update_locations_def)

lemma served_cost_again: "served_cost (case served_cost a b of None \<Rightarrow> PNone | Some (x, c) \<Rightarrow> PFloat x)
    (case served_cost a b of None \<Rightarrow> PNone | Some (x, c) \<Rightarrow> PStr c) = served_cost a b"
  by (auto simp: served_cost_def split: option.splits pyval.splits)

lemma speakable_entry:
  assumes "plain_entry vo e"
  shows "hd (plan_entries [served_plan_entry vo (entry_fields e)]) = e"
proof -
  obtain c p q where "e = PDict [(''content'', PStr c), (''priority'', PStr p), (''status'', PStr q)]"
    "p \<in> set (vo_priorities vo)" "q \<in> set (vo_statuses vo)"
    using assms by (cases "(vo, e)" rule: plain_entry.cases) simp_all
  then show ?thesis by (simp add: plan_entries_def served_plan_entry_def entry_fields_def get_or_def known_def)
qed

lemma speakable_plan:
  "speakable vo (PlanUpdate es) \<Longrightarrow> plan_entries (map (served_plan_entry vo \<circ> entry_fields) es) = es"
proof (induction es)
  case (Cons e es)
  then show ?case using speakable_entry[where e = e and vo = vo] by (simp add: plan_entries_def)
qed (simp add: plan_entries_def)

lemma speakable_served:
  assumes "speakable vo ev"
  shows "\<exists>u. from_agent_event vo (AgentEvent ev) = Some u \<and> shows_as (to_agent_event dump u) = shows_as ev"
proof (cases ev)
  case (ToolCall i start title kind status locations has_content raw)
  with assms show ?thesis
    by (cases start) (auto simp: tool_event_def served_tool_def update_locations_def split: list.splits option.splits)
next
  case (PlanUpdate es)
  with assms have "plan_entries (map (served_plan_entry vo \<circ> entry_fields) es) = es"
    by (intro speakable_plan) simp
  with PlanUpdate show ?thesis by simp
next
  case (Usage used window cost currency raw)
  with assms show ?thesis by (auto simp: served_cost_def split: pyval.splits)
qed (use assms in \<open>simp_all add: served_text_chunk_def\<close>)

lemma serving_is_stable:
  assumes "from_agent_event vo x = Some u"
  shows "from_agent_event vo (AgentEvent (to_agent_event dump u)) = Some u"
proof (cases x)
  case (AgentEvent ev)
  show ?thesis
  proof (cases ev)
    case (ToolCall i start title kind status locations has_content raw)
    define t where "t = (case title of Some (c # cs) \<Rightarrow> Some (c # cs) | _ \<Rightarrow> Some i)"
    have t: "(case t of Some (c # cs) \<Rightarrow> Some (c # cs) | _ \<Rightarrow> Some i) = t"
      by (auto simp: t_def split: option.splits list.splits)
    have u: "u = (if start then ToolCallStart (served_tool vo i t kind status locations)
        else ToolCallProgress (served_tool vo i title kind status locations))"
      using assms by (cases start) (simp_all add: AgentEvent ToolCall t_def)
    show ?thesis
      using t by (cases start) (simp_all add: u tool_event_def served_tool_def update_locations_def)
  next
    case (Usage used window cost currency raw)
    with assms AgentEvent show ?thesis by (auto simp: served_cost_again split: pyval.splits)
  qed (use assms AgentEvent in \<open>auto simp: served_text_chunk_def\<close>)
next
  case (ServerNotice s)
  with assms show ?thesis by (auto simp: served_text_chunk_def)
qed

text \<open>relaying an agent's event to a client loses nothing the client's vocabulary can carry: it
  arrives as the same event, and what was once relayed is relayed unchanged by a second server.\<close>

theorem relayed_event_roundtrip:
  assumes "speakable vo ev" and "from_agent_event vo x = Some u"
  shows "(\<exists>v. from_agent_event vo (AgentEvent ev) = Some v \<and> shows_as (to_agent_event dump v) = shows_as ev)
    \<and> from_agent_event vo (AgentEvent (to_agent_event dump u)) = Some u"
  using speakable_served[OF assms(1)] serving_is_stable[OF assms(2)] by blast

text \<open>the answer to a permission request never becomes an approval on the wire: what the agent's side
  reads back is the reply itself, and a malformed reply reads back as no selection.\<close>

theorem permission_reply_roundtrip:
  "from_permission_outcome (to_permission_response r) =
     (if rp_kind r = ''selected'' \<and> rp_option r \<noteq> None then r else \<lparr>rp_kind = ''cancelled'', rp_option = None\<rparr>)"
  by (cases r) (auto simp: from_permission_outcome_def to_permission_response_def split: option.splits)

definition demo_vocabulary :: vocabulary where
  "demo_vocabulary = \<lparr>vo_tool_kinds = [''read''], vo_tool_statuses = [''pending''], vo_priorities = [''high''],
     vo_statuses = [''pending'']\<rparr>"

theorem relayed_event_witness:
  "\<exists>v. from_agent_event demo_vocabulary (AgentEvent (ToolCall ''t1'' True (Some ''Read'') (Some ''read'') None [''a.py''] True []))
     = Some v \<and> shows_as (to_agent_event (\<lambda>u. []) v) =
       shows_as (ToolCall ''t1'' True (Some ''Read'') (Some ''read'') None [''a.py''] True [])"
  using relayed_event_roundtrip[of demo_vocabulary
      "ToolCall ''t1'' True (Some ''Read'') (Some ''read'') None [''a.py''] True []" "ServerNotice ''n''"
      "served_text_chunk ''n'' False" "\<lambda>u. []"]
  by (simp add: demo_vocabulary_def spoken_def)

end
