(* ===== verification/Acp_Client.thy ===== *)
theory Acp_Client
  imports Acp_Convert Hooks_Safety
begin

text \<open>
  \<open>acp/client.py\<close>: the requests an agent sends while it runs (\<open>_ClientImpl\<close>) and the process it runs
  in (\<open>AgentProcessClient\<close>). The acp library and the operating system are outside: what the agent
  answers, what arrives while the program waits, when the process exits and which calls fail are
  arguments. Cancellation of the whole coroutine from above is not modelled.
\<close>

section \<open>Requests of the agent\<close>

text \<open>\<open>RequestError.internal_error\<close> and \<open>RequestError.method_not_found\<close>; the SDK answers any other
  exception of a handler itself.\<close>

datatype wire_error = InternalError payload | MethodNotFound string | Unhandled exn

datatype terminal_call =
    CreateTerminal string string "string list" "(string \<times> string) list" "string option" "int option"
      \<comment> \<open>session, command, args, env, cwd, output byte limit\<close>
  | TerminalOutput string string
  | ReleaseTerminal string string
  | WaitForTerminalExit string string
  | KillTerminal string string

datatype incoming =
    SessionUpdate session_update
  | RequestPermission circumstances string payload "perm_option list"
  | ReadTextFile circumstances string "int option" "int option"
  | WriteTextFile circumstances string string
  | TerminalRequest terminal_call
  | CreateElicitation
  | CompleteElicitation
  | ExtMethod string
  | ExtNotification string

datatype wire_reply =
    Acknowledged
  | PermissionAnswer permission_outcome
  | FileContent string
  | WireFailed wire_error

definition denied_error :: "string \<Rightarrow> wire_error" where
  "denied_error reason = InternalError [(''denied'', PBool True), (''reason'', PStr reason)]"

fun fs_error :: "exn \<Rightarrow> wire_error" where
  "fs_error (PolicyDenied reason) = denied_error reason"
| "fs_error x = Unhandled x"

fun terminal_error :: "string \<Rightarrow> exn \<Rightarrow> wire_error" where
  "terminal_error method (UnsupportedByPolicy reason) = MethodNotFound method"
| "terminal_error method (PolicyDenied reason) = denied_error reason"
| "terminal_error method x = Unhandled x"

text \<open>The method, operation and payload of a terminal request.\<close>

definition terminal_pair :: "string \<Rightarrow> string \<Rightarrow> payload" where
  "terminal_pair session i = [(''session_id'', PStr session), (''terminal_id'', PStr i)]"

fun terminal_parts :: "terminal_call \<Rightarrow> string \<times> string \<times> payload" where
  "terminal_parts (CreateTerminal session command args env cwd limit) =
     (''terminal/create'', ''create'',
      [(''session_id'', PStr session), (''command'', PStr command), (''args'', str_list args),
       (''env'', PDict (map (\<lambda>(k, v). (k, PStr v)) env)), (''cwd'', opt_str cwd), (''output_byte_limit'', opt_int limit)])"
| "terminal_parts (TerminalOutput session i) = (''terminal/output'', ''output'', terminal_pair session i)"
| "terminal_parts (ReleaseTerminal session i) = (''terminal/release'', ''release'', terminal_pair session i)"
| "terminal_parts (WaitForTerminalExit session i) = (''terminal/wait_for_exit'', ''wait_for_exit'', terminal_pair session i)"
| "terminal_parts (KillTerminal session i) = (''terminal/kill'', ''kill'', terminal_pair session i)"

text \<open>The answer of a handler: its exception goes to the agent.\<close>

definition answered :: "(exn \<Rightarrow> wire_error) \<Rightarrow> ('a \<Rightarrow> wire_reply) \<Rightarrow> 'a eng \<Rightarrow> wire_reply eng" where
  "answered f g m = andthen (attempt_of (Some \<circ> f) m) (\<lambda>r. ok (case r of Inl e \<Rightarrow> WireFailed e | Inr x \<Rightarrow> g x))"

text \<open>
  \<open>_ClientImpl\<close>. The hooks never serve a terminal request, so the code that would read a
  \<open>TerminalReply\<close> is never reached. An elicitation's completion and an extension's notification do
  nothing.
\<close>

fun serve_incoming :: "setting \<Rightarrow> hooks \<Rightarrow> (session_update \<Rightarrow> payload) \<Rightarrow> incoming \<Rightarrow> wire_reply eng" where
  "serve_incoming w hk dump (SessionUpdate u) =
     answered Unhandled (\<lambda>_. Acknowledged) (on_event w hk (to_agent_event dump u))"
| "serve_incoming w hk dump (RequestPermission ci session tool_call options) =
     answered Unhandled (PermissionAnswer \<circ> to_permission_response)
       (resolve_permission w hk ci (to_permission_request session tool_call options))"
| "serve_incoming w hk dump (ReadTextFile ci path line limit) =
     answered fs_error FileContent (read_text_file w hk ci path line limit)"
| "serve_incoming w hk dump (WriteTextFile ci path txt) =
     answered fs_error (\<lambda>_. Acknowledged) (write_text_file w hk ci path txt)"
| "serve_incoming w hk dump (TerminalRequest call) =
     (case terminal_parts call of (method, op, body) \<Rightarrow>
        answered (terminal_error method) (\<lambda>_. Acknowledged) (handle_terminal w hk op body))"
| "serve_incoming w hk dump CreateElicitation = ok (WireFailed (MethodNotFound ''elicitation/create''))"
| "serve_incoming w hk dump CompleteElicitation = ok Acknowledged"
| "serve_incoming w hk dump (ExtMethod method) = ok (WireFailed (MethodNotFound method))"
| "serve_incoming w hk dump (ExtNotification method) = ok Acknowledged"

text \<open>The callback of the hooks that a request reaches, if any.\<close>

fun hook_calls :: "(session_update \<Rightarrow> payload) \<Rightarrow> incoming \<Rightarrow> hook_call list" where
  "hook_calls dump (SessionUpdate u) = [OnEvent (to_agent_event dump u)]"
| "hook_calls dump (RequestPermission ci session tool_call options) =
     [Permission ci (to_permission_request session tool_call options)]"
| "hook_calls dump (ReadTextFile ci path line limit) = [FsRead ci path line limit]"
| "hook_calls dump (WriteTextFile ci path txt) = [FsWrite ci path txt]"
| "hook_calls dump (TerminalRequest call) = (case terminal_parts call of (method, op, body) \<Rightarrow> [Terminal op body])"
| "hook_calls dump _ = []"

section \<open>The bounded stderr ring\<close>

record ring =
  rg_chunks :: "string list"
  rg_max_bytes :: nat
  rg_size :: int

definition STDERR_RING_BYTES :: nat where "STDERR_RING_BYTES = 64 * 1024"

definition new_ring :: "nat \<Rightarrow> ring" where
  "new_ring n = \<lparr>rg_chunks = [], rg_max_bytes = n, rg_size = 0\<rparr>"

fun ring_trim :: "nat \<Rightarrow> string list \<Rightarrow> int \<Rightarrow> string list \<times> int" where
  "ring_trim n [] held = ([], held)"
| "ring_trim n (c # cs) held = (if held > int n then ring_trim n cs (held - int (length c)) else (c # cs, held))"

text \<open>A character of a chunk is a byte.\<close>

definition ring_append :: "ring \<Rightarrow> string \<Rightarrow> ring" where
  "ring_append r chunk =
     (case ring_trim (rg_max_bytes r) (rg_chunks r @ [chunk]) (rg_size r + int (length chunk)) of (cs, n) \<Rightarrow>
        r\<lparr>rg_chunks := cs, rg_size := n\<rparr>)"

definition ring_bytes :: "ring \<Rightarrow> string" where "ring_bytes r = concat (rg_chunks r)"

text \<open>What was read: the whole chunks at its end that fit, and the size is theirs.\<close>

definition ring_ok :: "nat \<Rightarrow> string list \<Rightarrow> ring \<Rightarrow> bool" where
  "ring_ok n read r \<longleftrightarrow> rg_max_bytes r = n \<and> rg_size r = int (length (ring_bytes r)) \<and> length (ring_bytes r) \<le> n
     \<and> (\<exists>k \<le> length read. rg_chunks r = drop k read \<and> (k = 0 \<or> n < length (read ! (k - 1)) + length (ring_bytes r)))"

lemma ring_trim_ok:
  assumes "held = int (length (concat cs))"
  shows "\<exists>k \<le> length cs. ring_trim n cs held = (drop k cs, int (length (concat (drop k cs))))
    \<and> length (concat (drop k cs)) \<le> n
    \<and> (k = 0 \<or> n < length (cs ! (k - 1)) + length (concat (drop k cs)))"
  using assms
proof (induction n cs held rule: ring_trim.induct)
  case (2 n c cs held)
  show ?case
  proof (cases "held > int n")
    case True
    from 2(1)[OF True] 2(2) obtain k where k: "k \<le> length cs"
      "ring_trim n cs (held - int (length c)) = (drop k cs, int (length (concat (drop k cs))))"
      "length (concat (drop k cs)) \<le> n"
      "k = 0 \<or> n < length (cs ! (k - 1)) + length (concat (drop k cs))" by auto
    have "n < length ((c # cs) ! k) + length (concat (drop k cs))" using k(4) True 2(2) by (cases k) auto
    with k True show ?thesis by (intro exI[of _ "Suc k"]) auto
  next
    case False
    with 2(2) show ?thesis by (intro exI[of _ 0]) auto
  qed
qed simp

theorem ring_keeps_the_tail: "ring_ok n read (foldl ring_append (new_ring n) read)"
proof (induction read rule: rev_induct)
  case (snoc c read)
  define r where "r = foldl ring_append (new_ring n) read"
  from snoc obtain k where r: "rg_max_bytes r = n" "rg_size r = int (length (ring_bytes r))" "k \<le> length read"
    "rg_chunks r = drop k read" "k = 0 \<or> n < length (read ! (k - 1)) + length (ring_bytes r)"
    by (auto simp: ring_ok_def r_def)
  have ch: "rg_chunks r @ [c] = drop k (read @ [c])" using r(3,4) by simp
  have "rg_size r + int (length c) = int (length (concat (drop k (read @ [c]))))"
    using r(2,3,4) by (simp add: ring_bytes_def)
  from ring_trim_ok[OF this, of n] obtain j where j: "j \<le> length (drop k (read @ [c]))"
    "ring_trim n (drop k (read @ [c])) (rg_size r + int (length c)) =
       (drop j (drop k (read @ [c])), int (length (concat (drop j (drop k (read @ [c]))))))"
    "length (concat (drop j (drop k (read @ [c])))) \<le> n"
    "j = 0 \<or> n < length (drop k (read @ [c]) ! (j - 1)) + length (concat (drop j (drop k (read @ [c]))))" by blast
  define r' where "r' = ring_append r c"
  have r': "rg_max_bytes r' = n" "rg_chunks r' = drop (j + k) (read @ [c])" "rg_size r' = int (length (ring_bytes r'))"
    "ring_bytes r' = concat (drop (j + k) (read @ [c]))"
    using r(1) j(2) by (simp_all add: r'_def ring_append_def ch ring_bytes_def del: drop_append)
  have "j + k = 0 \<or> n < length ((read @ [c]) ! (j + k - 1)) + length (ring_bytes r')"
  proof (cases "j = 0")
    case True
    have "ring_bytes r' = ring_bytes r @ c" using r(3,4) unfolding r'(4) by (simp add: True ring_bytes_def)
    with True r(3,5) show ?thesis by (cases k) (auto simp: nth_append)
  next
    case False
    then have "drop k (read @ [c]) ! (j - 1) = (read @ [c]) ! (k + (j - 1))" using r(3) by (intro nth_drop) simp
    moreover have "k + (j - 1) = j + k - 1" using False by simp
    ultimately show ?thesis using j(4) False unfolding r'(4) drop_drop by (simp only: simp_thms)
  qed
  with r' j(1,3) r(3) have "ring_ok n (read @ [c]) r'"
    unfolding ring_ok_def by (intro conjI exI[of _ "j + k"]) auto
  then show ?case by (simp add: r_def r'_def)
qed (simp add: ring_ok_def new_ring_def ring_bytes_def)

section \<open>The process\<close>

text \<open>What arrives while the program waits: the agent's requests, and the exit code if the process ends.\<close>

record waiting =
  wt_incoming :: "incoming list"
  wt_exit :: "int option"

datatype 'a answer =
    Answer 'a
  | RequestFailed int string          \<comment> \<open>a RequestError: its code and text\<close>
  | Lost string                       \<comment> \<open>a ConnectionError or EOFError\<close>
  | Escaping string                   \<comment> \<open>any other exception\<close>

datatype launching =
    Launched int
  | CommandNotFound
  | NotExecutable
  | LaunchError string                \<comment> \<open>any other OSError\<close>

datatype signalling = Delivered | GroupGone | SignalError string

datatype closing = ClosedWell | CloseSuppressed | CloseError string

text \<open>The outside of the end of a process, of the turn, and of all of one agent process.\<close>

record closing_world =
  cl_wait :: waiting
  cl_how :: closing

record ending =
  ed_grace :: waiting
  ed_term :: signalling
  ed_term_wait :: waiting
  ed_kill :: signalling
  ed_kill_wait :: waiting
  ed_close :: closing_world

record turn =
  tn_wait :: waiting                               \<comment> \<open>until the prompt, the cancel or the timeout\<close>
  tn_prompt :: "string answer option"              \<comment> \<open>the prompt is done by then\<close>
  tn_cancelled :: bool                             \<comment> \<open>the cancel event is set by then\<close>
  tn_notify_wait :: waiting
  tn_grace_wait :: waiting
  tn_grace :: "string answer option"               \<comment> \<open>the prompt is done by the end of the grace wait\<close>
  tn_late :: "string answer option"                \<comment> \<open>it is done after the shutdown\<close>

record agent_world =
  aw_version :: int                                \<comment> \<open>the SDK's \<open>PROTOCOL_VERSION\<close>\<close>
  aw_dump :: "session_update \<Rightarrow> payload"
  aw_launch :: launching
  aw_init_wait :: waiting
  aw_init :: "init_response answer option"         \<comment> \<open>\<open>None\<close>: the agent never answers\<close>
  aw_init_close :: closing_world
  aw_session_wait :: waiting
  aw_session :: "string answer option"
  aw_turn :: turn
  aw_end :: ending
  aw_final :: ending                               \<comment> \<open>of the shutdown in a \<open>finally\<close>\<close>

definition awaiting :: "setting \<Rightarrow> hooks \<Rightarrow> agent_world \<Rightarrow> waiting \<Rightarrow> unit eng" where
  "awaiting w hk aw wt =
     followed (callbacks w hk (concat (map (hook_calls (aw_dump aw)) (wt_incoming wt))))
       (andthen (reads en_exit) (\<lambda>gone. case (gone, wt_exit wt) of
          (None, Some code) \<Rightarrow> followed (modify (\<lambda>s. s\<lparr>en_exit := Some code\<rparr>)) (act (Reaped code))
        | _ \<Rightarrow> ok ()))"

definition answer_of :: "'a answer option \<Rightarrow> ('a answer \<Rightarrow> 'b eng) \<Rightarrow> 'b eng" where
  "answer_of r f s = (case r of None \<Rightarrow> (Hang, s) | Some a \<Rightarrow> f a s)"

definition launch_failed :: "string \<Rightarrow> string \<Rightarrow> string \<Rightarrow> string \<Rightarrow> exn" where
  "launch_failed lead command hint reason = Zig \<lparr>err_class = AgentLaunchError,
     message = lead @ hint, details = [(''command'', PStr command), (''reason'', PStr reason)]\<rparr>"

text \<open>
  \<open>AgentProcessClient.launch\<close>: the new client's pid, which is also its process group's. A process exists
  from here until its exit is seen.
\<close>

definition launch :: "agent_world \<Rightarrow> string \<Rightarrow> int eng" where
  "launch aw command =
     (case aw_launch aw of
        CommandNotFound \<Rightarrow> raise (launch_failed (''Failed to launch agent: command not found: '' @ py_repr command) command
          ''. Install the agent adapter and ensure it is on PATH, or run `ziggy doctor`.'' ''command_not_found'')
      | NotExecutable \<Rightarrow> raise (launch_failed (''Failed to launch agent: '' @ py_repr command) command
          '' is not executable. Check the install (permissions/format) or run `ziggy doctor`.'' ''not_executable'')
      | LaunchError m \<Rightarrow> raise (Python m)
      | Launched pid \<Rightarrow>
          followed (modify (\<lambda>s. s\<lparr>en_exit := None, en_closed := False\<rparr>))
            (followed (act (Spawned pid command)) (ok pid)))"

definition request_failed :: "string \<Rightarrow> int \<Rightarrow> string \<Rightarrow> exn" where
  "request_failed method code m = Zig \<lparr>err_class = ProtocolError, message = method @ '' failed: '' @ m,
     details = [(''code'', PInt code)]\<rparr>"

definition connection_lost :: "string \<Rightarrow> string \<Rightarrow> exn" where
  "connection_lost m reason = Zig \<lparr>err_class = ProtocolError, message = m, details = [(''reason'', PStr reason)]\<rparr>"

text \<open>\<open>_close_connection\<close>\<close>

definition close_connection :: "setting \<Rightarrow> hooks \<Rightarrow> agent_world \<Rightarrow> closing_world \<Rightarrow> unit eng" where
  "close_connection w hk aw cl = andthen (reads en_closed) (\<lambda>closed.
     if closed then ok ()
     else followed (modify (\<lambda>s. s\<lparr>en_closed := True\<rparr>))
       (followed (awaiting w hk aw (cl_wait cl))
         (case cl_how cl of CloseError m \<Rightarrow> raise (Python m) | _ \<Rightarrow> ok ())))"

definition initialize :: "setting \<Rightarrow> hooks \<Rightarrow> agent_world \<Rightarrow> handshake eng" where
  "initialize w hk aw = followed (awaiting w hk aw (aw_init_wait aw))
     (answer_of (aw_init aw) (\<lambda>a. case a of
        RequestFailed code m \<Rightarrow> raise (request_failed ''initialize'' code m)
      | Lost m \<Rightarrow> raise (connection_lost ''agent connection lost during initialize'' m)
      | Escaping m \<Rightarrow> raise (Python m)
      | Answer r \<Rightarrow>
          if ir_protocol_version r \<noteq> aw_version aw
          then followed (close_connection w hk aw (aw_init_close aw)) (raise (Zig \<lparr>err_class = ProtocolError,
            message = ''agent protocol version mismatch'',
            details = [(''client_protocol_version'', PInt (aw_version aw)),
              (''agent_protocol_version'', PInt (ir_protocol_version r))]\<rparr>))
          else ok (to_handshake_info r)))"

definition new_session :: "setting \<Rightarrow> hooks \<Rightarrow> agent_world \<Rightarrow> string eng" where
  "new_session w hk aw = followed (awaiting w hk aw (aw_session_wait aw))
     (answer_of (aw_session aw) (\<lambda>a. case a of
        RequestFailed code m \<Rightarrow> raise (request_failed ''session/new'' code m)
      | Lost m \<Rightarrow> raise (connection_lost ''agent connection lost during session/new'' m)
      | Escaping m \<Rightarrow> raise (Python m)
      | Answer i \<Rightarrow> ok i))"

text \<open>\<open>prompt\<close>, once the agent's answer is there: its stop reason or the exception.\<close>

fun prompt_result :: "string answer \<Rightarrow> exn + string" where
  "prompt_result (RequestFailed code m) = Inl (request_failed ''session/prompt'' code m)"
| "prompt_result (Lost m) = Inl (connection_lost ''agent connection lost'' m)"
| "prompt_result (Escaping m) = Inl (Python m)"
| "prompt_result (Answer stop) = Inr stop"

text \<open>
  \<open>_pgid\<close>: the pid of the process that the client launched, which leads a session and so a process group
  of its own. There is no client without a launch.
\<close>

definition pgid :: "agent_world \<Rightarrow> int" where
  "pgid aw = (case aw_launch aw of Launched pid \<Rightarrow> pid | _ \<Rightarrow> 0)"

text \<open>\<open>_signal_group\<close>\<close>

definition signal_group :: "agent_world \<Rightarrow> string \<Rightarrow> signalling \<Rightarrow> unit eng" where
  "signal_group aw sig how = followed (act (Signalled (pgid aw) sig))
     (case how of SignalError m \<Rightarrow> raise (Python m) | _ \<Rightarrow> ok ())"

text \<open>\<open>if process.returncode is None: ...\<close>\<close>

definition while_alive :: "unit eng \<Rightarrow> unit eng" where
  "while_alive m = andthen (reads en_exit) (\<lambda>gone. if gone = None then m else ok ())"

text \<open>
  \<open>shutdown\<close>: the grace wait, then SIGTERM and a bounded wait, then SIGKILL and a wait without bound,
  each only while the process has not been seen to exit.
\<close>

definition shutdown :: "setting \<Rightarrow> hooks \<Rightarrow> agent_world \<Rightarrow> ending \<Rightarrow> int option eng" where
  "shutdown w hk aw ed =
     followed (while_alive (awaiting w hk aw (ed_grace ed)))
    (followed (while_alive (followed (signal_group aw ''SIGTERM'' (ed_term ed)) (awaiting w hk aw (ed_term_wait ed))))
    (followed (while_alive (followed (signal_group aw ''SIGKILL'' (ed_kill ed))
       (followed (awaiting w hk aw (ed_kill_wait ed)) (while_alive (\<lambda>s. (Hang, s))))))
    (followed (close_connection w hk aw (ed_close ed)) (reads en_exit))))"

end
