(* ===== verification/Step_Runner.thy ===== *)
theory Step_Runner
  imports Acp_Client
begin

text \<open>
  \<open>execute_step\<close> of \<open>engine/runner.py\<close>: one agent process from its launch to its end. Its outcome
  carries every failure of the agent as a typed error; the exceptions that escape it are values of the
  model too.
\<close>

section \<open>Context and outcome\<close>

text \<open>A duration is an integer; \<open>se_seconds\<close> of the setting is its text as a Python number.\<close>

record step_context =
  cx_step :: string
  cx_command :: string
  cx_args :: "string list"
  cx_cwd :: string
  cx_prompt :: string
  cx_timeout :: int
  cx_grace :: int
  cx_label :: string
  cx_policy :: "policy option"
  cx_cancellable :: bool                           \<comment> \<open>there is a \<open>cancel_event\<close>\<close>
  cx_attempt :: int
  cx_override :: bool                              \<comment> \<open>there is a \<open>decide_permission\<close>\<close>

record step_outcome =
  so_status :: step_status
  so_error :: "zerror option"
  so_stop_reason :: "string option"
  so_exit_code :: "int option"
  so_handshake :: "handshake option"
  so_session_id :: "string option"
  so_degraded :: bool

text \<open>\<open>StepExecutionContext.hooks\<close>\<close>

definition context_hooks :: "step_context \<Rightarrow> hooks" where
  "context_hooks cx = \<lparr>hk_step = cx_step cx, hk_attempt = cx_attempt cx, hk_policy = cx_policy cx,
     hk_override = cx_override cx\<rparr>"

section \<open>Records of a step\<close>

definition step_event :: "setting \<Rightarrow> step_context \<Rightarrow> string \<Rightarrow> string option \<Rightarrow> payload \<Rightarrow> unit eng" where
  "step_event w cx t session body = emit_event w (event t (Some (cx_step cx)) (Some (cx_attempt cx)) session body)"

text \<open>\<open>_emit_error\<close>\<close>

definition step_error :: "setting \<Rightarrow> step_context \<Rightarrow> string option \<Rightarrow> zerror \<Rightarrow> unit eng" where
  "step_error w cx session e = step_event w cx ''error'' session (error_payload e)"

definition step_log :: "setting \<Rightarrow> step_context \<Rightarrow> string \<Rightarrow> string \<Rightarrow> payload \<Rightarrow> unit eng" where
  "step_log w cx t level detail = andthen (reads (rc_run_id \<circ> en_rc)) (\<lambda>run.
     mlog w (log_entry t (Some run) (Some (cx_step cx)) (Some (cx_label cx)) level detail))"

definition handshake_payload :: "handshake \<Rightarrow> payload" where
  "handshake_payload h = [(''protocol_version'', PInt (hs_protocol_version h)),
     (''agent_name'', PStr (hs_agent_name h)), (''agent_version'', opt_str (hs_agent_version h)),
     (''agent_title'', opt_str (hs_agent_title h)), (''capabilities'', PDict (hs_capabilities h)),
     (''auth_methods'', PList (map PDict (hs_auth_methods h)))]"

definition terminated :: "setting \<Rightarrow> step_context \<Rightarrow> string \<Rightarrow> int option \<Rightarrow> string \<Rightarrow> payload \<Rightarrow> unit eng" where
  "terminated w cx session code reason extra =
     followed (step_event w cx ''terminated'' (Some session) [(''exit_code'', opt_int code), (''reason'', PStr reason)])
       (step_log w cx ''terminated'' ''info''
         ([(''exit_code'', opt_int code), (''reason_code'', PStr reason)] @ extra))"

section \<open>The end of a turn\<close>

definition stop_details :: "string option \<Rightarrow> payload" where
  "stop_details stop = [(''stop_reason'', opt_str stop)]"

definition denials :: "recorder \<Rightarrow> string \<Rightarrow> permission_decision list" where
  "denials rc step = filter (\<lambda>d. pd_decision d = Denied) (permission_decisions rc (Some step))"

text \<open>The error of a turn that stopped for another reason than its end: \<open>None\<close> for \<open>end_turn\<close>.\<close>

definition stop_error :: "recorder \<Rightarrow> string \<Rightarrow> string \<Rightarrow> zerror option" where
  "stop_error rc step reason =
     (if reason = ''end_turn'' then None
      else if reason = ''cancelled''
      then Some \<lparr>err_class = CancelledError, message = ''agent reported the turn as cancelled'',
        details = stop_details (Some reason)\<rparr>
      else if reason = ''refusal'' \<and> denials rc step \<noteq> []
      then Some \<lparr>err_class = PermissionDeniedError,
        message = ''turn ended in refusal after a policy-denied permission request'',
        details = (''rule_id'', PStr (pd_rule_id (last (denials rc step)))) # stop_details (Some reason)\<rparr>
      else Some \<lparr>err_class = ProtocolError, message = ''turn ended without completing: '' @ reason,
        details = stop_details (Some reason)\<rparr>)"

text \<open>\<open>_stop_outcome\<close>\<close>

definition stop_outcome ::
  "setting \<Rightarrow> step_context \<Rightarrow> string \<Rightarrow> int option \<Rightarrow> handshake \<Rightarrow> string \<Rightarrow> step_outcome eng" where
  "stop_outcome w cx reason code h session = andthen (reads (\<lambda>s. stop_error (en_rc s) (cx_step cx) reason)) (\<lambda>err.
     let out = \<lparr>so_status = (if err = None then Success else if reason = ''cancelled'' then Cancelled else Failed),
       so_error = err, so_stop_reason = Some reason, so_exit_code = code, so_handshake = Some h,
       so_session_id = Some session, so_degraded = (reason = ''cancelled'')\<rparr>
     in case err of None \<Rightarrow> ok out | Some e \<Rightarrow> followed (step_error w cx (Some session) e) (ok out))"

section \<open>Teardown\<close>

text \<open>The nested \<open>shutdown\<close> of \<open>execute_step\<close>.\<close>

definition end_process :: "setting \<Rightarrow> hooks \<Rightarrow> agent_world \<Rightarrow> int option eng" where
  "end_process w hk aw = followed (modify (\<lambda>s. s\<lparr>en_shut := True\<rparr>)) (shutdown w hk aw (aw_end aw))"

text \<open>An awaited prompt task under \<open>suppress(ProtocolError)\<close>; it also may not be done.\<close>

definition settled :: "string answer option \<Rightarrow> string option eng" where
  "settled r = (case r of
     None \<Rightarrow> ok None
   | Some a \<Rightarrow> (case prompt_result a of
        Inr stop \<Rightarrow> ok (Some stop)
      | Inl x \<Rightarrow> (case typed [ProtocolError] x of Some e \<Rightarrow> ok None | None \<Rightarrow> raise x)))"

text \<open>
  \<open>_cancel_ladder\<close>. Whatever becomes of the notification, the ladder goes on. A prompt that was done
  when the grace wait ended is still done when it is reaped; one that is not done is cancelled.
\<close>

definition cancel_ladder :: "setting \<Rightarrow> hooks \<Rightarrow> agent_world \<Rightarrow> (int option \<times> string option) eng" where
  "cancel_ladder w hk aw = (let tn = aw_turn aw in
     followed (awaiting w hk aw (tn_notify_wait tn))
    (followed (awaiting w hk aw (tn_grace_wait tn))
    (andthen (settled (tn_grace tn)) (\<lambda>stop.
     andthen (shutdown w hk aw (aw_end aw)) (\<lambda>code.
     andthen (settled (if tn_grace tn = None then tn_late tn else tn_grace tn)) (\<lambda>late.
       ok (code, if stop = None then late else stop)))))))"

section \<open>The step\<close>

definition failed_early ::
  "zerror \<Rightarrow> int option \<Rightarrow> handshake option \<Rightarrow> string option \<Rightarrow> bool \<Rightarrow> step_outcome" where
  "failed_early e code h session degraded = \<lparr>so_status = Failed, so_error = Some e, so_stop_reason = None,
     so_exit_code = code, so_handshake = h, so_session_id = session, so_degraded = degraded\<rparr>"

text \<open>An exchange before the prompt that fails: the process is ended and the step has failed.\<close>

definition or_fail ::
  "setting \<Rightarrow> step_context \<Rightarrow> agent_world \<Rightarrow> handshake option \<Rightarrow> 'a eng \<Rightarrow> ('a \<Rightarrow> step_outcome eng) \<Rightarrow> step_outcome eng" where
  "or_fail w cx aw h m k = andthen (attempt_of (typed [ProtocolError]) m) (\<lambda>r. case r of
     Inr x \<Rightarrow> k x
   | Inl e \<Rightarrow> followed (step_error w cx None e)
       (andthen (end_process w (context_hooks cx) aw) (\<lambda>code. ok (failed_early e code h None True))))"

text \<open>The prompt is done.\<close>

definition turn_done ::
  "setting \<Rightarrow> step_context \<Rightarrow> agent_world \<Rightarrow> handshake \<Rightarrow> string \<Rightarrow> exn + string \<Rightarrow> step_outcome eng" where
  "turn_done w cx aw h session result = (case result of
     Inl x \<Rightarrow> (case typed [ProtocolError] x of
        None \<Rightarrow> raise x
      | Some e \<Rightarrow> followed (step_error w cx (Some session) e)
          (andthen (end_process w (context_hooks cx) aw) (\<lambda>code.
           followed (terminated w cx session code ''protocol_error'' [])
             (ok (failed_early e code (Some h) (Some session) True)))))
   | Inr reason \<Rightarrow> andthen (end_process w (context_hooks cx) aw) (\<lambda>code.
       followed (terminated w cx session code ''turn_complete'' (stop_details (Some reason)))
         (stop_outcome w cx reason code h session)))"

definition interrupted_error :: "setting \<Rightarrow> step_context \<Rightarrow> bool \<Rightarrow> string option \<Rightarrow> zerror" where
  "interrupted_error w cx cancelled stop =
     (if cancelled
      then \<lparr>err_class = CancelledError, message = ''run cancelled'', details = stop_details stop\<rparr>
      else \<lparr>err_class = StepTimeoutError,
        message = ''step '' @ [CHR 0x27] @ cx_step cx @ [CHR 0x27] @ '' exceeded '' @ se_seconds w (cx_timeout cx) @ ''s'',
        details = (''timeout_seconds'', PFloat (se_seconds w (cx_timeout cx))) # stop_details stop\<rparr>)"

text \<open>The turn is cancelled or has timed out.\<close>

definition turn_interrupted ::
  "setting \<Rightarrow> step_context \<Rightarrow> agent_world \<Rightarrow> handshake \<Rightarrow> string \<Rightarrow> bool \<Rightarrow> step_outcome eng" where
  "turn_interrupted w cx aw h session cancelled = (let reason = (if cancelled then ''cancel'' else ''timeout'') in
     followed (step_event w cx ''cancel_requested'' (Some session)
       [(''reason'', PStr reason), (''grace_seconds'', PFloat (se_seconds w (cx_grace cx)))])
    (followed (step_log w cx ''cancel_requested'' ''info'' [(''reason_code'', PStr reason)])
    (andthen (cancel_ladder w (context_hooks cx) aw) (\<lambda>(code, stop).
     followed (modify (\<lambda>s. s\<lparr>en_shut := True\<rparr>))
    (followed (terminated w cx session code reason [])
    (let e = interrupted_error w cx cancelled stop in
     followed (step_error w cx (Some session) e)
       (ok \<lparr>so_status = (if cancelled then Cancelled else Failed), so_error = Some e, so_stop_reason = stop,
          so_exit_code = code, so_handshake = Some h, so_session_id = Some session, so_degraded = True\<rparr>)))))))"

text \<open>\<open>asyncio.wait\<close> on the prompt and the cancel event: a prompt that is done counts first.\<close>

definition run_turn ::
  "setting \<Rightarrow> step_context \<Rightarrow> agent_world \<Rightarrow> handshake \<Rightarrow> string \<Rightarrow> step_outcome eng" where
  "run_turn w cx aw h session =
     followed (step_event w cx ''prompt_started'' (Some session) [(''text'', PStr (cx_prompt cx))])
    (followed (step_log w cx ''prompt_started'' ''info'' [])
    (followed (awaiting w (context_hooks cx) aw (tn_wait (aw_turn aw)))
      (case tn_prompt (aw_turn aw) of
         Some a \<Rightarrow> turn_done w cx aw h session (prompt_result a)
       | None \<Rightarrow> turn_interrupted w cx aw h session (cx_cancellable cx \<and> tn_cancelled (aw_turn aw)))))"

definition run_session :: "setting \<Rightarrow> step_context \<Rightarrow> agent_world \<Rightarrow> step_outcome eng" where
  "run_session w cx aw = or_fail w cx aw None (initialize w (context_hooks cx) aw) (\<lambda>h.
     followed (step_event w cx ''handshake'' None (handshake_payload h))
    (followed (step_log w cx ''handshake'' ''info'' [])
    (or_fail w cx aw (Some h) (new_session w (context_hooks cx) aw) (\<lambda>session.
       followed (modify (\<lambda>s. s\<lparr>en_session := Some session\<rparr>))
      (followed (step_event w cx ''session_created'' (Some session)
         [(''session_id'', PStr session), (''cwd'', PStr (cx_cwd cx))])
      (followed (step_log w cx ''session_created'' ''info'' [])
         (run_turn w cx aw h session)))))))"

text \<open>The \<open>finally\<close>: the streams are flushed first, then the process is ended unless it was.\<close>

definition clean_up :: "setting \<Rightarrow> step_context \<Rightarrow> agent_world \<Rightarrow> unit eng" where
  "clean_up w cx aw = followed (flush_streams w (context_hooks cx)) (andthen (reads en_shut) (\<lambda>done.
     if done then ok () else andthen (shutdown w (context_hooks cx) aw (aw_final aw)) (\<lambda>_. ok ())))"

definition fresh_step :: "engine \<Rightarrow> engine" where
  "fresh_step s = s\<lparr>en_session := None, en_message := None, en_thought := None, en_exit := None,
     en_closed := False, en_shut := False\<rparr>"

text \<open>\<open>execute_step\<close>\<close>

definition execute_step :: "setting \<Rightarrow> step_context \<Rightarrow> agent_world \<Rightarrow> step_outcome eng" where
  "execute_step w cx aw = followed (modify fresh_step)
    (followed (step_event w cx ''agent_launching'' None [(''command'', PStr (cx_command cx)), (''args'', str_list (cx_args cx))])
    (andthen (attempt_of (typed [AgentLaunchError]) (launch aw (cx_command cx))) (\<lambda>r. case r of
       Inl e \<Rightarrow> followed (step_error w cx None e)
         (followed (step_log w cx ''agent_launch_failed'' ''error'' [(''reason_code'', PStr (error_code (err_class e)))])
           (ok (failed_early e None None None False)))
     | Inr pid \<Rightarrow> followed (step_event w cx ''agent_launched'' None [(''pid'', PInt pid), (''pgid'', PInt pid)])
         (followed (step_log w cx ''agent_launched'' ''info'' [])
           (finally_do (run_session w cx aw) (clean_up w cx aw))))))"

end
