(* ===== verification/Effects_Logic.thy ===== *)
theory Effects_Logic
  imports Acp_Client
begin

text \<open>
  Reasoning about the engine's computations: weakest preconditions with a normal and an exceptional
  postcondition, and the computations that leave the agent's process alone. The exceptional
  postcondition takes \<open>None\<close> for a wait that never ends.
\<close>

section \<open>Weakest preconditions\<close>

definition wp :: "'a eng \<Rightarrow> ('a \<Rightarrow> engine \<Rightarrow> bool) \<Rightarrow> (exn option \<Rightarrow> engine \<Rightarrow> bool) \<Rightarrow> engine \<Rightarrow> bool" where
  "wp m Q E s = (case m s of (Ok x, t) \<Rightarrow> Q x t | (Raise x, t) \<Rightarrow> E (Some x) t | (Hang, t) \<Rightarrow> E None t)"

named_theorems wp_rules "weakest preconditions of the combinators"

lemma wp_ok [wp_rules]: "Q x s \<Longrightarrow> wp (ok x) Q E s"
  by (simp add: wp_def ok_def)

lemma wp_raise [wp_rules]: "E (Some x) s \<Longrightarrow> wp (raise x) Q E s"
  by (simp add: wp_def raise_def)

lemma wp_reads [wp_rules]: "Q (f s) s \<Longrightarrow> wp (reads f) Q E s"
  by (simp add: wp_def reads_def)

lemma wp_modify [wp_rules]: "Q () (f s) \<Longrightarrow> wp (modify f) Q E s"
  by (simp add: wp_def modify_def)

lemma wp_act [wp_rules]: "Q () (s\<lparr>en_acts := en_acts s @ [a]\<rparr>) \<Longrightarrow> wp (act a) Q E s"
  by (simp add: wp_def act_def modify_def)

lemma wp_andthen [wp_rules]: "wp m (\<lambda>x. wp (f x) Q E) E s \<Longrightarrow> wp (andthen m f) Q E s"
  by (auto simp: wp_def andthen_def split: prod.splits res.splits)

lemma wp_followed [wp_rules]: "wp m (\<lambda>_. wp k Q E) E s \<Longrightarrow> wp (followed m k) Q E s"
  by (simp add: followed_def wp_andthen)

lemma wp_followed_eq: "wp (followed m k) Q E = wp m (\<lambda>_. wp k Q E) E"
  by (rule ext) (auto simp: wp_def followed_def andthen_def split: prod.splits res.splits)

lemma wp_andthen_eq: "wp (andthen m f) Q E = wp m (\<lambda>x. wp (f x) Q E) E"
  by (rule ext) (auto simp: wp_def andthen_def split: prod.splits res.splits)

lemma wp_if [wp_rules]: "(b \<Longrightarrow> wp m Q E s) \<Longrightarrow> (\<not> b \<Longrightarrow> wp k Q E s) \<Longrightarrow> wp (if b then m else k) Q E s"
  by simp

definition uncaught :: "(exn \<Rightarrow> 'e option) \<Rightarrow> ('e \<Rightarrow> engine \<Rightarrow> bool) \<Rightarrow> (exn option \<Rightarrow> engine \<Rightarrow> bool) \<Rightarrow> exn option \<Rightarrow> engine \<Rightarrow> bool" where
  "uncaught c H E e t = (case e of
     None \<Rightarrow> E None t | Some x \<Rightarrow> (case c x of None \<Rightarrow> E (Some x) t | Some z \<Rightarrow> H z t))"

lemma wp_attempt [wp_rules]:
  "wp m (\<lambda>x. Q (Inr x)) (uncaught c (\<lambda>z. Q (Inl z)) E) s \<Longrightarrow> wp (attempt_of c m) Q E s"
  by (auto simp: wp_def attempt_of_def uncaught_def split: prod.splits res.splits option.splits)

definition cleaned :: "unit eng \<Rightarrow> (exn option \<Rightarrow> engine \<Rightarrow> bool) \<Rightarrow> exn option \<Rightarrow> engine \<Rightarrow> bool" where
  "cleaned c E e t = (case e of None \<Rightarrow> E None t | Some x \<Rightarrow> wp c (\<lambda>_. E (Some x)) E t)"

lemma wp_finally [wp_rules]:
  "wp m (\<lambda>x. wp c (\<lambda>_. Q x) E) (cleaned c E) s \<Longrightarrow> wp (finally_do m c) Q E s"
  by (auto simp: wp_def finally_do_def cleaned_def split: prod.splits res.splits)

lemma wp_mono:
  "wp m Q E s \<Longrightarrow> (\<And>x t. Q x t \<Longrightarrow> Q' x t) \<Longrightarrow> (\<And>e t. E e t \<Longrightarrow> E' e t) \<Longrightarrow> wp m Q' E' s"
  by (auto simp: wp_def split: prod.splits res.splits)

lemma wpD: "wp m Q E s \<Longrightarrow> m s = (Ok x, t) \<Longrightarrow> Q x t"
  by (simp add: wp_def)

text \<open>A computation that keeps an invariant, and raises only where \<open>E\<close> allows it.\<close>

definition keeps :: "(engine \<Rightarrow> bool) \<Rightarrow> (exn option \<Rightarrow> engine \<Rightarrow> bool) \<Rightarrow> 'a eng \<Rightarrow> bool" where
  "keeps I E m \<longleftrightarrow> (\<forall>s. I s \<longrightarrow> wp m (\<lambda>_. I) E s)"

lemma wp_keeps: "keeps I E m \<Longrightarrow> I s \<Longrightarrow> (\<And>x t. I t \<Longrightarrow> Q x t) \<Longrightarrow> wp m Q E s"
  by (rule wp_mono[of m "\<lambda>_. I" E]) (auto simp: keeps_def)

lemma wp_followed_keeps: "keeps I E m \<Longrightarrow> I s \<Longrightarrow> (\<And>t. I t \<Longrightarrow> wp k Q E t) \<Longrightarrow> wp (followed m k) Q E s"
  by (rule wp_followed) (rule wp_keeps)

section \<open>Computations that leave the process alone\<close>

fun is_process :: "act \<Rightarrow> bool" where
  "is_process (Spawned pid c) = True"
| "is_process (Signalled pg g) = True"
| "is_process (Reaped code) = True"
| "is_process _ = False"

definition same_process :: "engine \<Rightarrow> engine \<Rightarrow> bool" where
  "same_process s t \<longleftrightarrow> filter is_process (en_acts t) = filter is_process (en_acts s)
     \<and> set (en_acts s) \<subseteq> set (en_acts t) \<and> en_exit t = en_exit s \<and> en_shut t = en_shut s"

definition calm :: "'a eng \<Rightarrow> bool" where
  "calm m \<longleftrightarrow> (\<forall>s. same_process s (snd (m s)))"

named_theorems calm_intros "computations that leave the process alone"

lemma same_process_refl [simp]: "same_process s s"
  by (simp add: same_process_def)

lemma same_process_trans: "same_process s t \<Longrightarrow> same_process t u \<Longrightarrow> same_process s u"
  unfolding same_process_def by auto

lemma calmD: "calm m \<Longrightarrow> m s = (r, t) \<Longrightarrow> same_process s t"
  unfolding calm_def by (metis snd_conv)

lemma calm_andthen [calm_intros]:
  assumes "calm m" and "\<And>x. calm (f x)"
  shows "calm (andthen m f)"
  unfolding calm_def
proof
  fix s
  obtain r t where m: "m s = (r, t)" by (cases "m s")
  from calmD[OF assms(1) m] have st: "same_process s t" .
  show "same_process s (snd (andthen m f s))"
  proof (cases r)
    case (Ok x)
    from assms(2) have "same_process t (snd (f x t))" unfolding calm_def by blast
    from same_process_trans[OF st this] show ?thesis by (simp add: andthen_def m Ok)
  qed (simp_all add: andthen_def m st)
qed

lemma calm_followed [calm_intros]: "calm m \<Longrightarrow> calm k \<Longrightarrow> calm (followed m k)"
  unfolding followed_def by (rule calm_andthen)

lemma calm_basic [calm_intros]: "calm (ok x)" "calm (raise e)" "calm (reads f)"
  by (simp_all add: calm_def ok_def raise_def reads_def)

lemma calm_attempt [calm_intros]: "calm m \<Longrightarrow> calm (attempt_of c m)"
  by (simp add: calm_def)

lemma calm_if [calm_intros]: "calm m \<Longrightarrow> calm k \<Longrightarrow> calm (if b then m else k)"
  by simp

lemma calm_option [calm_intros]:
  "calm m \<Longrightarrow> (\<And>y. calm (f y)) \<Longrightarrow> calm (case x of None \<Rightarrow> m | Some y \<Rightarrow> f y)"
  by (cases x) auto

lemma calm_sum [calm_intros]:
  "(\<And>e. calm (f e)) \<Longrightarrow> (\<And>y. calm (g y)) \<Longrightarrow> calm (case x of Inl e \<Rightarrow> f e | Inr y \<Rightarrow> g y)"
  by (cases x) auto

lemma calm_prod [calm_intros]: "(\<And>a b. calm (f a b)) \<Longrightarrow> calm (case x of (a, b) \<Rightarrow> f a b)"
  by (cases x) auto

lemma calm_act [calm_intros]: "\<not> is_process a \<Longrightarrow> calm (act a)"
  by (auto simp: calm_def act_def modify_def same_process_def)

lemma calm_emit [calm_intros]: "calm (emit_event w em)"
  by (auto simp: calm_def emit_event_def same_process_def Let_def split: prod.splits sum.splits)

lemma calm_mlog [calm_intros]: "calm (mlog w lc)"
  by (auto simp: calm_def mlog_def same_process_def Let_def split: logger.splits outcome.splits prod.splits)

lemma calm_hook_emit [calm_intros]: "calm (hook_emit w hk t body)"
proof -
  have "same_process s (snd (hook_emit w hk t body s))" for s
    using calm_emit unfolding calm_def hook_emit_def by blast
  then show ?thesis by (simp add: calm_def)
qed

lemma calm_stream [calm_intros]: "calm (stream_feed b c)" "calm (stream_flush b)"
  by (auto simp: calm_def stream_feed_def stream_flush_def same_process_def Let_def split: option.splits prod.splits)

lemma calm_refuse [calm_intros]: "calm (refuse w hk t body reason)"
  unfolding refuse_def by (intro calm_intros)

lemma calm_flush [calm_intros]: "calm (flush_streams w hk)"
  unfolding flush_streams_def flush_one_def by (intro calm_intros)

lemma calm_on_event [calm_intros]: "calm (on_event w hk ev)"
  by (cases ev) (auto intro!: calm_intros)

lemma calm_permission [calm_intros]: "calm (resolve_permission w hk ci rq)"
proof -
  have r: "calm (recording_permission w hk ci rq)"
    unfolding recording_permission_def by (auto intro!: calm_intros)
  show ?thesis
    unfolding resolve_permission_def policy_permission_def Let_def by (intro calm_intros r)
qed

lemma calm_cleared [calm_intros]: "calm (cleared w hk po ci t verb write base path d)"
  unfolding cleared_def by (intro calm_intros)

lemma calm_read [calm_intros]: "calm (read_text_file w hk ci path line limit)"
  unfolding read_text_file_def recording_read_def policy_read_def serve_read_def Let_def
  by (intro calm_intros) simp_all

lemma calm_write [calm_intros]: "calm (write_text_file w hk ci path txt)"
  unfolding write_text_file_def recording_write_def policy_write_def serve_write_def Let_def
  by (intro calm_intros) simp_all

lemma calm_terminal [calm_intros]: "calm (handle_terminal w hk op body)"
  unfolding handle_terminal_def policy_terminal_def recording_terminal_def Let_def by (intro calm_intros)

lemma same_callback: "same_process s (callback w hk c s)"
proof (cases c)
  case (OnEvent ev)
  then show ?thesis using calm_on_event unfolding calm_def by auto
next
  case (Permission ci rq)
  then show ?thesis using calm_permission unfolding calm_def by auto
next
  case (FsRead ci path line limit)
  then show ?thesis using calm_read unfolding calm_def by auto
next
  case (FsWrite ci path body)
  then show ?thesis using calm_write unfolding calm_def by auto
next
  case (Terminal op body)
  then show ?thesis using calm_terminal unfolding calm_def by auto
qed

lemma calm_callbacks [calm_intros]: "calm (callbacks w hk calls)"
proof -
  have "same_process s (fold (callback w hk) calls s)" for s
  proof (induction calls arbitrary: s)
    case (Cons c calls)
    show ?case using same_process_trans[OF same_callback Cons] by simp
  qed simp
  then show ?thesis by (simp add: calm_def callbacks_def)
qed

lemma callbacks_Ok: "\<exists>t. callbacks w hk calls s = (Ok (), t)"
  by (simp add: callbacks_def)

text \<open>
  An invariant that depends only on the process is kept by a calm computation; \<open>sure\<close> says that it
  returns or that \<open>E\<close> allows it not to.
\<close>

definition about_process :: "(engine \<Rightarrow> bool) \<Rightarrow> bool" where
  "about_process I \<longleftrightarrow> (\<forall>s t. same_process s t \<longrightarrow> I s \<longrightarrow> I t)"

definition sure :: "(engine \<Rightarrow> bool) \<Rightarrow> (exn option \<Rightarrow> engine \<Rightarrow> bool) \<Rightarrow> bool \<Rightarrow> bool" where
  "sure I E b \<longleftrightarrow> b \<or> (\<forall>x t. I t \<longrightarrow> E x t)"

lemma keeps_calm:
  assumes "calm m" and "about_process I" and "sure I E b" and "b \<Longrightarrow> (\<And>s. \<exists>x. fst (m s) = Ok x)"
  shows "keeps I E m"
  unfolding keeps_def
proof (intro allI impI)
  fix s assume I: "I s"
  obtain r t where m: "m s = (r, t)" by (cases "m s")
  from calmD[OF assms(1) m] assms(2) I have t: "I t" unfolding about_process_def by blast
  show "wp m (\<lambda>_. I) E s"
  proof (cases b)
    case True
    with assms(4)[of s] m obtain x where "r = Ok x" by auto
    with m t show ?thesis by (simp add: wp_def)
  next
    case False
    with assms(3) t have "E x t" for x unfolding sure_def by blast
    with m t show ?thesis by (cases r) (simp_all add: wp_def)
  qed
qed

lemma keeps_callbacks: "about_process I \<Longrightarrow> keeps I E (callbacks w hk calls)"
  by (rule keeps_calm[where b = True]) (auto simp: sure_def callbacks_def intro: calm_callbacks)

lemma keeps_emit:
  assumes "about_process I" and "sure I E (never_raises (se_recording w))" and "t \<in> set EVENT_TYPES"
  shows "keeps I E (emit_event w (event t step n session body))"
proof (rule keeps_calm[OF calm_emit assms(1,2)])
  fix s assume "never_raises (se_recording w)"
  from emit_event_Ok[OF this] assms(3) show "\<exists>x. fst (emit_event w (event t step n session body) s) = Ok x"
    by (simp add: event_def)
qed

lemma mlog_Ok: "validate_line (lc_level lc) (lc_detail lc) = None \<Longrightarrow> fst (mlog w lc s) = Ok ()"
  by (auto simp: mlog_def null_log_def log_write_def Let_def split: logger.splits option.splits prod.splits)

lemma keeps_mlog:
  assumes "about_process I" and "validate_line level detail = None"
  shows "keeps I E (mlog w (log_entry t run step agent level detail))"
  by (rule keeps_calm[where b = True]) (auto simp: sure_def log_entry_def assms intro: calm_mlog mlog_Ok)

end
