(* ===== verification/Step_Safety.thy ===== *)
theory Step_Safety
  imports Step_Runner Effects_Logic
begin

text \<open>
  What a step guarantees: the life of the agent's process, the shape of the outcome, the record of its
  error, and that everything done for the agent stays within the policy.
\<close>

section \<open>The life of the process\<close>

definition skeleton :: "engine \<Rightarrow> act list" where
  "skeleton s = filter is_process (en_acts s)"

text \<open>
  A process that was spawned after \<open>base\<close> and signalled so often: it runs, or its exit was seen and
  nothing was sent to it since.
\<close>

definition running :: "agent_world \<Rightarrow> act list \<Rightarrow> string \<Rightarrow> string list \<Rightarrow> engine \<Rightarrow> bool" where
  "running aw base c sigs s \<longleftrightarrow> en_exit s = None \<and> skeleton s = base @ Spawned (pgid aw) c # map (Signalled (pgid aw)) sigs"

definition ended :: "agent_world \<Rightarrow> act list \<Rightarrow> string \<Rightarrow> string list \<Rightarrow> int \<Rightarrow> engine \<Rightarrow> bool" where
  "ended aw base c sigs code s \<longleftrightarrow>
     en_exit s = Some code \<and> skeleton s = base @ Spawned (pgid aw) c # map (Signalled (pgid aw)) sigs @ [Reaped code]"

definition process :: "agent_world \<Rightarrow> act list \<Rightarrow> string \<Rightarrow> string list \<Rightarrow> engine \<Rightarrow> bool" where
  "process aw base c sigs s \<longleftrightarrow> running aw base c sigs s \<or> (\<exists>code. ended aw base c sigs code s)"

definition live :: "agent_world \<Rightarrow> act list \<Rightarrow> string \<Rightarrow> engine \<Rightarrow> bool" where
  "live aw base c s \<longleftrightarrow> (\<exists>sigs. process aw base c sigs s)"

text \<open>What later parts of a step keep of an earlier state.\<close>

definition onward :: "engine \<Rightarrow> engine \<Rightarrow> bool" where
  "onward s t \<longleftrightarrow> set (en_acts s) \<subseteq> set (en_acts t) \<and> en_shut t = en_shut s"

definition rungs :: "string list set" where
  "rungs = {[], [''SIGTERM''], [''SIGTERM'', ''SIGKILL'']}"

lemma skeleton_same: "same_process s t \<Longrightarrow> skeleton t = skeleton s \<and> en_exit t = en_exit s"
  by (simp add: same_process_def skeleton_def)

lemma ended_same: "same_process s t \<Longrightarrow> ended aw base c sigs code s \<Longrightarrow> ended aw base c sigs code t"
  by (simp add: ended_def skeleton_same)

lemma process_same: "same_process s t \<Longrightarrow> process aw base c sigs s \<Longrightarrow> process aw base c sigs t"
  by (simp add: process_def running_def ended_def skeleton_same)

lemma onward_same: "same_process s t \<Longrightarrow> onward s t"
  by (simp add: same_process_def onward_def)

lemma onward_refl [simp]: "onward s s"
  by (simp add: onward_def)

lemma onward_trans: "onward s t \<Longrightarrow> onward t u \<Longrightarrow> onward s u"
  by (auto simp: onward_def)

lemma process_live: "process aw base c sigs s \<Longrightarrow> live aw base c s"
  by (auto simp: live_def)

lemma ended_process: "ended aw base c sigs code s \<Longrightarrow> process aw base c sigs s"
  by (auto simp: process_def)

lemma process_ended: "process aw base c sigs s \<Longrightarrow> en_exit s \<noteq> None \<Longrightarrow> \<exists>code. ended aw base c sigs code s"
  by (auto simp: process_def running_def)

section \<open>Waiting and shutting down\<close>

lemma wp_callbacks:
  assumes "\<And>t. same_process s t \<Longrightarrow> Q () t"
  shows "wp (callbacks w hk calls) Q E s"
proof -
  obtain t where "callbacks w hk calls s = (Ok (), t)" using callbacks_Ok by blast
  then show ?thesis using assms calmD[OF calm_callbacks] by (simp add: wp_def)
qed

lemma wp_awaiting:
  assumes p: "process aw base c sigs s"
    and q: "\<And>t. process aw base c sigs t \<Longrightarrow> onward s t \<Longrightarrow> wt_exit wt \<noteq> None \<or> en_exit s \<noteq> None \<longrightarrow> en_exit t \<noteq> None \<Longrightarrow> Q () t"
  shows "wp (awaiting w hk aw wt) Q E s"
  unfolding awaiting_def
proof (intro wp_followed wp_callbacks wp_andthen wp_reads)
  fix t assume st: "same_process s t"
  note pt = process_same[OF st p]
  have x: "en_exit t = en_exit s" using skeleton_same[OF st] by simp
  show "wp (case (en_exit t, wt_exit wt) of
        (None, Some code) \<Rightarrow> followed (modify (\<lambda>s. s\<lparr>en_exit := Some code\<rparr>)) (act (Reaped code)) | _ \<Rightarrow> ok ()) Q E t"
  proof (cases "en_exit t = None \<and> wt_exit wt \<noteq> None")
    case True
    then obtain code where code: "en_exit t = None" "wt_exit wt = Some code" by auto
    define u where "u = t\<lparr>en_exit := Some code, en_acts := en_acts t @ [Reaped code]\<rparr>"
    have "ended aw base c sigs code u"
      using pt code(1) by (auto simp: process_def running_def ended_def skeleton_def u_def)
    moreover have "onward s u" using onward_same[OF st] by (auto simp: onward_def u_def)
    moreover have "en_exit u \<noteq> None" by (simp add: u_def)
    ultimately have "Q () u" by (intro q ended_process) auto
    then show ?thesis by (simp add: code wp_def followed_def andthen_def modify_def act_def u_def)
  next
    case False
    then have "(case (en_exit t, wt_exit wt) of
        (None, Some code) \<Rightarrow> followed (modify (\<lambda>s. s\<lparr>en_exit := Some code\<rparr>)) (act (Reaped code)) | _ \<Rightarrow> ok ()) = ok ()"
      by (auto split: option.splits)
    moreover have "Q () t" using False x by (intro q pt onward_same st) auto
    ultimately show ?thesis by (simp add: wp_ok)
  qed
qed

lemma wp_while_alive:
  "(en_exit s = None \<Longrightarrow> wp m Q E s) \<Longrightarrow> (en_exit s \<noteq> None \<Longrightarrow> Q () s) \<Longrightarrow> wp (while_alive m) Q E s"
  unfolding while_alive_def by (intro wp_andthen wp_reads wp_if wp_ok) auto

lemma wp_signal:
  assumes "running aw base c sigs s" and "\<And>t. running aw base c (sigs @ [g]) t \<Longrightarrow> onward s t \<Longrightarrow> Q () t"
    and "\<And>t m. how = SignalError m \<Longrightarrow> running aw base c (sigs @ [g]) t \<Longrightarrow> E (Some (Python m)) t"
  shows "wp (signal_group aw g how) Q E s"
proof -
  define t where "t = s\<lparr>en_acts := en_acts s @ [Signalled (pgid aw) g]\<rparr>"
  have t: "running aw base c (sigs @ [g]) t" "onward s t"
    using assms(1) by (auto simp: running_def skeleton_def onward_def t_def)
  show ?thesis
    unfolding signal_group_def
    by (intro wp_followed wp_act, fold t_def) (cases how, auto intro!: wp_ok wp_raise assms(2,3) t)
qed

fun closes :: "closing \<Rightarrow> bool" where
  "closes (CloseError m) = False"
| "closes c = True"

lemma wp_close:
  assumes "process aw base c sigs s"
    and "\<And>t. process aw base c sigs t \<Longrightarrow> onward s t \<Longrightarrow> en_exit s \<noteq> None \<longrightarrow> en_exit t \<noteq> None \<Longrightarrow> Q () t"
    and "\<And>t e. \<not> closes (cl_how cl) \<Longrightarrow> process aw base c sigs t \<Longrightarrow> onward s t \<Longrightarrow> E e t"
  shows "wp (close_connection w hk aw cl) Q E s"
proof -
  define u where "u = s\<lparr>en_closed := True\<rparr>"
  have u: "process aw base c sigs u" "onward s u" "en_exit u = en_exit s"
    using assms(1) by (auto simp: process_def running_def ended_def skeleton_def onward_def u_def)
  have "wp (awaiting w hk aw (cl_wait cl)) (\<lambda>_. wp (case cl_how cl of CloseError m \<Rightarrow> raise (Python m) | _ \<Rightarrow> ok ()) Q E) E u"
  proof (rule wp_awaiting[OF u(1)])
    fix t assume t: "process aw base c sigs t" "onward u t"
      "wt_exit (cl_wait cl) \<noteq> None \<or> en_exit u \<noteq> None \<longrightarrow> en_exit t \<noteq> None"
    with u have "en_exit s \<noteq> None \<longrightarrow> en_exit t \<noteq> None" by auto
    then have "Q () t" by (intro assms(2) t onward_trans[OF u(2)])
    then show "wp (case cl_how cl of CloseError m \<Rightarrow> raise (Python m) | _ \<Rightarrow> ok ()) Q E t"
      using t(1) assms(3)[OF _ t(1) onward_trans[OF u(2) t(2)]] by (cases "cl_how cl") (auto intro: wp_ok wp_raise)
  qed
  moreover have "Q () s" by (rule assms(2)[OF assms(1)]) simp_all
  ultimately show ?thesis
    unfolding close_connection_def by (intro wp_andthen wp_reads wp_if wp_ok wp_followed wp_modify) (auto simp: u_def)
qed

text \<open>An ending in which the signals can be sent, SIGKILL ends the process and the pipes close.\<close>

fun can_send :: "signalling \<Rightarrow> bool" where
  "can_send (SignalError m) = False"
| "can_send g = True"

definition orderly :: "ending \<Rightarrow> bool" where
  "orderly ed \<longleftrightarrow> can_send (ed_term ed) \<and> can_send (ed_kill ed) \<and> wt_exit (ed_kill_wait ed) \<noteq> None \<and> closes (cl_how (ed_close ed))"

lemma wp_rung:
  assumes p: "process aw base c sigs s"
    and alive: "\<And>t. en_exit s = None \<Longrightarrow> process aw base c (sigs @ [g]) t \<Longrightarrow> onward s t
      \<Longrightarrow> wt_exit wt \<noteq> None \<longrightarrow> en_exit t \<noteq> None \<Longrightarrow> wp k Q E t"
    and gone: "en_exit s \<noteq> None \<Longrightarrow> Q () s"
    and fails: "\<And>t e. \<not> can_send how \<Longrightarrow> process aw base c (sigs @ [g]) t \<Longrightarrow> E e t"
  shows "wp (while_alive (followed (signal_group aw g how) (followed (awaiting w hk aw wt) k))) Q E s"
proof (rule wp_while_alive)
  assume x: "en_exit s = None"
  with p have r: "running aw base c sigs s" by (auto simp: process_def ended_def)
  show "wp (followed (signal_group aw g how) (followed (awaiting w hk aw wt) k)) Q E s"
  proof (intro wp_followed wp_signal[OF r])
    fix t assume t: "running aw base c (sigs @ [g]) t" "onward s t"
    then have "process aw base c (sigs @ [g]) t" by (simp add: process_def)
    then show "wp (awaiting w hk aw wt) (\<lambda>_. wp k Q E) E t"
      by (rule wp_awaiting) (auto intro: alive[OF x] onward_trans[OF t(2)])
  next
    fix t m assume "how = SignalError m" "running aw base c (sigs @ [g]) t"
    then show "E (Some (Python m)) t" by (intro fails) (auto simp: process_def)
  qed
qed (rule gone)

lemma followed_ok: "followed m (ok ()) = m"
  by (rule ext) (auto simp: followed_def andthen_def ok_def split: prod.splits res.splits)

text \<open>
  \<open>shutdown\<close> returns only after the exit was seen, sends SIGTERM before SIGKILL and each only to a
  process that was not seen to exit; an orderly ending always returns.
\<close>

lemma wp_shutdown:
  assumes p: "process aw base c sigs s"
    and q: "\<And>code r t. ended aw base c (sigs @ r) code t \<Longrightarrow> r \<in> rungs \<Longrightarrow> onward s t \<Longrightarrow> Q (Some code) t"
    and e: "\<And>t e r. \<not> orderly ed \<Longrightarrow> process aw base c (sigs @ r) t \<Longrightarrow> E e t"
  shows "wp (shutdown w hk aw ed) Q E s"
proof -
  define last_part where "last_part = followed (close_connection w hk aw (ed_close ed)) (reads en_exit)"
  have fin: "wp last_part Q E t" if t: "process aw base c (sigs @ r) t" "r \<in> rungs" "onward s t" "en_exit t \<noteq> None" for t r
    unfolding last_part_def
  proof (intro wp_followed wp_close[OF t(1)] wp_reads)
    fix u assume u: "process aw base c (sigs @ r) u" "onward t u" "en_exit t \<noteq> None \<longrightarrow> en_exit u \<noteq> None"
    then obtain code where code: "ended aw base c (sigs @ r) code u" using process_ended t(4) by blast
    from q[OF this t(2) onward_trans[OF t(3) u(2)]] code show "Q (en_exit u) u" by (simp add: ended_def)
  qed (auto intro: e simp: orderly_def)
  define kill where "kill = while_alive (followed (signal_group aw ''SIGKILL'' (ed_kill ed))
      (followed (awaiting w hk aw (ed_kill_wait ed)) (while_alive (\<lambda>s. (Hang, s)))))"
  have kill: "wp kill (\<lambda>_. wp last_part Q E) E t"
    if t: "process aw base c (sigs @ r) t" "onward s t" "r \<in> rungs" "en_exit t = None \<longrightarrow> r = [''SIGTERM'']" for t r
    unfolding kill_def
  proof (rule wp_rung[OF t(1)])
    fix u assume x: "en_exit t = None" and u: "process aw base c ((sigs @ r) @ [''SIGKILL'']) u" "onward t u"
      "wt_exit (ed_kill_wait ed) \<noteq> None \<longrightarrow> en_exit u \<noteq> None"
    from x t(4) have r: "r = [''SIGTERM'']" by blast
    with u(1) have k: "process aw base c (sigs @ [''SIGTERM'', ''SIGKILL'']) u" by simp
    show "wp (while_alive (\<lambda>s. (Hang, s))) (\<lambda>_. wp last_part Q E) E u"
    proof (rule wp_while_alive)
      assume "en_exit u = None"
      with u(3) have "\<not> orderly ed" by (auto simp: orderly_def)
      from e[OF this k] show "wp (\<lambda>s. (Hang, s)) (\<lambda>_. wp last_part Q E) E u" by (simp add: wp_def)
    next
      assume "en_exit u \<noteq> None"
      with k show "wp last_part Q E u" by (intro fin) (auto simp: rungs_def intro: onward_trans[OF t(2) u(2)])
    qed
  next
    assume "en_exit t \<noteq> None"
    then show "wp last_part Q E t" by (rule fin[OF t(1,3,2)])
  next
    fix u x assume "\<not> can_send (ed_kill ed)" "process aw base c ((sigs @ r) @ [''SIGKILL'']) u"
    then show "E x u" using e[of "r @ [''SIGKILL'']" u x] by (simp add: orderly_def)
  qed
  define term_part where "term_part = while_alive (followed (signal_group aw ''SIGTERM'' (ed_term ed))
      (followed (awaiting w hk aw (ed_term_wait ed)) (ok ())))"
  have term_ok: "wp term_part (\<lambda>_. wp kill (\<lambda>_. wp last_part Q E) E) E t"
    if t: "process aw base c sigs t" "onward s t" for t
    unfolding term_part_def
  proof (rule wp_rung[OF t(1)])
    fix u assume "process aw base c (sigs @ [''SIGTERM'']) u" "onward t u"
    then show "wp (ok ()) (\<lambda>_. wp kill (\<lambda>_. wp last_part Q E) E) E u"
      by (intro wp_ok kill) (auto simp: rungs_def intro: onward_trans[OF t(2)])
  next
    assume "en_exit t \<noteq> None"
    then show "wp kill (\<lambda>_. wp last_part Q E) E t" using t by (intro kill[of "[]"]) (auto simp: rungs_def)
  next
    fix u x assume "\<not> can_send (ed_term ed)" "process aw base c (sigs @ [''SIGTERM'']) u"
    then show "E x u" using e[of "[''SIGTERM'']" u x] by (simp add: orderly_def)
  qed
  have "shutdown w hk aw ed = followed (while_alive (awaiting w hk aw (ed_grace ed)))
      (followed term_part (followed kill last_part))"
    by (simp add: shutdown_def term_part_def kill_def last_part_def followed_ok)
  moreover have "wp (while_alive (awaiting w hk aw (ed_grace ed)))
      (\<lambda>_. wp term_part (\<lambda>_. wp kill (\<lambda>_. wp last_part Q E) E) E) E s"
    by (intro wp_while_alive wp_awaiting[OF p]) (auto intro: term_ok p)
  ultimately show ?thesis by (simp add: wp_followed_eq)
qed

section \<open>Records of a step\<close>

lemma wp_event:
  assumes "t \<in> set EVENT_TYPES"
    and "\<And>u e. \<not> never_raises (se_recording w) \<Longrightarrow> same_process s u \<Longrightarrow> E e u"
    and "\<And>u. same_process s u \<Longrightarrow>
      Emitted (event t (Some (cx_step cx)) (Some (cx_attempt cx)) session body) \<in> set (en_acts u) \<Longrightarrow> Q () u"
  shows "wp (step_event w cx t session body) Q E s"
proof -
  let ?em = "event t (Some (cx_step cx)) (Some (cx_attempt cx)) session body"
  obtain r u where ru: "emit_event w ?em s = (r, u)" by (cases "emit_event w ?em s")
  have u: "same_process s u" by (rule calmD[OF calm_emit ru])
  have "Emitted ?em \<in> set (en_acts (snd (emit_event w ?em s)))"
    by (auto simp: emit_event_def Let_def split: prod.splits sum.splits)
  with ru have em: "Emitted ?em \<in> set (en_acts u)" by simp
  show ?thesis
  proof (cases "never_raises (se_recording w)")
    case True
    then have "fst (emit_event w ?em s) = Ok ()"
      by (rule emit_event_Ok) (simp_all add: event_def assms(1))
    with ru have "r = Ok ()" by simp
    then show ?thesis using assms(3)[OF u em] by (simp add: step_event_def wp_def ru)
  next
    case False
    then show ?thesis using assms(2)[OF False u] assms(3)[OF u em]
      by (cases r) (simp_all add: step_event_def wp_def ru)
  qed
qed

lemma wp_log:
  assumes "validate_line level detail = None" and "\<And>u. same_process s u \<Longrightarrow> Q () u"
  shows "wp (step_log w cx t level detail) Q E s"
  unfolding step_log_def
proof (intro wp_andthen wp_reads)
  let ?lc = "log_entry t (Some ((rc_run_id \<circ> en_rc) s)) (Some (cx_step cx)) (Some (cx_label cx)) level detail"
  obtain r u where ru: "mlog w ?lc s = (r, u)" by (cases "mlog w ?lc s")
  have "fst (mlog w ?lc s) = Ok ()" using assms(1) by (intro mlog_Ok) (simp add: log_entry_def)
  with ru have "r = Ok ()" by simp
  with ru assms(2)[OF calmD[OF calm_mlog ru]] show "wp (mlog w ?lc) Q E s" by (simp add: wp_def)
qed

lemma log_allowed:
  "level \<in> {''info'', ''error'', ''warning''} \<Longrightarrow>
   set (keys detail) \<subseteq> {''exit_code'', ''reason_code'', ''stop_reason''} \<Longrightarrow> validate_line level detail = None"
  by (auto simp: validate_line_None ALLOWED_LEVELS_def ALLOWED_DETAIL_FIELDS_def)

lemma step_event_types:
  "''agent_launching'' \<in> set EVENT_TYPES" "''agent_launched'' \<in> set EVENT_TYPES" "''handshake'' \<in> set EVENT_TYPES"
  "''session_created'' \<in> set EVENT_TYPES" "''prompt_started'' \<in> set EVENT_TYPES" "''error'' \<in> set EVENT_TYPES"
  "''cancel_requested'' \<in> set EVENT_TYPES" "''terminated'' \<in> set EVENT_TYPES"
  by (simp_all add: EVENT_TYPES_def)

section \<open>Postconditions\<close>

text \<open>
  A dutiful world: no append raises anything but a PersistenceError, the agent answers the handshake and
  the session request in some way, and the process can be ended. Exceptions outside the protocol then
  are the only ones that escape.
\<close>

definition dutiful :: "setting \<Rightarrow> agent_world \<Rightarrow> bool" where
  "dutiful w aw \<longleftrightarrow> never_raises (se_recording w) \<and> aw_init aw \<noteq> None \<and> aw_session aw \<noteq> None
     \<and> closes (cl_how (aw_init_close aw)) \<and> orderly (aw_end aw) \<and> orderly (aw_final aw)"

definition escapes :: "agent_world \<Rightarrow> string set" where
  "escapes aw = {m. aw_init aw = Some (Escaping m) \<or> aw_session aw = Some (Escaping m)
     \<or> Some (Escaping m) \<in> {tn_prompt (aw_turn aw), tn_grace (aw_turn aw), tn_late (aw_turn aw)}}"

definition raised :: "setting \<Rightarrow> agent_world \<Rightarrow> act list \<Rightarrow> string \<Rightarrow> exn option \<Rightarrow> engine \<Rightarrow> bool" where
  "raised w aw base c e t \<longleftrightarrow> live aw base c t \<and> (dutiful w aw \<longrightarrow> (\<exists>m \<in> escapes aw. e = Some (Python m)) \<and> \<not> en_shut t)"

fun error_fits :: "step_status \<Rightarrow> zerror option \<Rightarrow> bool" where
  "error_fits Success None = True"
| "error_fits Failed (Some e) =
     (err_class e \<in> {AgentLaunchError, ProtocolError, PermissionDeniedError, StepTimeoutError})"
| "error_fits Cancelled (Some e) = (err_class e = CancelledError)"
| "error_fits st e = False"

definition outcome_typed :: "agent_world \<Rightarrow> step_outcome \<Rightarrow> bool" where
  "outcome_typed aw out \<longleftrightarrow>
     error_fits (so_status out) (so_error out)
     \<and> (so_status out = Success \<longrightarrow> so_stop_reason out = Some ''end_turn'' \<and> so_session_id out \<noteq> None \<and> \<not> so_degraded out)
     \<and> (so_status out = Cancelled \<longrightarrow> so_degraded out)
     \<and> (so_session_id out \<noteq> None \<longrightarrow> so_handshake out \<noteq> None)
     \<and> (so_stop_reason out \<noteq> None \<longrightarrow> so_session_id out \<noteq> None)
     \<and> (\<forall>h. so_handshake out = Some h \<longrightarrow> hs_protocol_version h = aw_version aw)
     \<and> (so_exit_code out = None \<longleftrightarrow> (\<exists>e. so_error out = Some e \<and> err_class e = AgentLaunchError))"

definition error_recorded :: "step_context \<Rightarrow> step_outcome \<Rightarrow> engine \<Rightarrow> bool" where
  "error_recorded cx out t \<longleftrightarrow> (\<forall>e. so_error out = Some e \<longrightarrow> (\<exists>session.
     Emitted (event ''error'' (Some (cx_step cx)) (Some (cx_attempt cx)) session (error_payload e)) \<in> set (en_acts t)))"

definition step_done :: "agent_world \<Rightarrow> step_context \<Rightarrow> act list \<Rightarrow> step_outcome \<Rightarrow> engine \<Rightarrow> bool" where
  "step_done aw cx base out t \<longleftrightarrow> outcome_typed aw out \<and> error_recorded cx out t \<and> en_shut t
     \<and> (\<exists>sigs code. ended aw base (cx_command cx) sigs code t \<and> sigs \<in> rungs \<and> so_exit_code out = Some code)"

lemma raised_unrecorded:
  "\<not> never_raises (se_recording w) \<Longrightarrow> process aw base c sigs t \<Longrightarrow> raised w aw base c e t"
  by (auto simp: raised_def dutiful_def live_def)

lemma raised_disorderly:
  "\<not> orderly (aw_end aw) \<or> \<not> orderly (aw_final aw) \<or> \<not> closes (cl_how (aw_init_close aw)) \<or> aw_init aw = None
     \<or> aw_session aw = None \<Longrightarrow> process aw base c sigs t \<Longrightarrow> raised w aw base c e t"
  by (auto simp: raised_def dutiful_def live_def)

lemma raised_escape: "m \<in> escapes aw \<Longrightarrow> process aw base c sigs t \<Longrightarrow> \<not> en_shut t \<Longrightarrow> raised w aw base c (Some (Python m)) t"
  by (auto simp: raised_def live_def)

text \<open>A process that was never signalled, before its end is asked for.\<close>

definition opened :: "agent_world \<Rightarrow> act list \<Rightarrow> string \<Rightarrow> engine \<Rightarrow> bool" where
  "opened aw base c s \<longleftrightarrow> process aw base c [] s \<and> \<not> en_shut s"

lemma openedD: "opened aw base c s \<Longrightarrow> process aw base c [] s"
  by (simp add: opened_def)

lemma opened_same: "same_process s t \<Longrightarrow> opened aw base c s \<Longrightarrow> opened aw base c t"
  using process_same by (auto simp: opened_def same_process_def)

lemma opened_escape: "m \<in> escapes aw \<Longrightarrow> opened aw base c t \<Longrightarrow> raised w aw base c (Some (Python m)) t"
  by (auto simp: opened_def intro: raised_escape)

lemma wp_awaiting_opened:
  "opened aw base c s \<Longrightarrow> (\<And>t. opened aw base c t \<Longrightarrow> Q () t) \<Longrightarrow> wp (awaiting w hk aw wt) Q E s"
  by (rule wp_awaiting[OF openedD]) (auto simp: opened_def onward_def)

text \<open>An event and a log line of a step whose process is known.\<close>

lemma wp_step_event:
  assumes "process aw base c sigs s" and "t \<in> set EVENT_TYPES"
    and "\<And>u. same_process s u \<Longrightarrow>
      Emitted (event t (Some (cx_step cx)) (Some (cx_attempt cx)) session body) \<in> set (en_acts u) \<Longrightarrow> Q () u"
  shows "wp (step_event w cx t session body) Q (raised w aw base c) s"
proof (rule wp_event[OF assms(2)])
  fix u e assume "\<not> never_raises (se_recording w)" "same_process s u"
  then show "raised w aw base c e u" using process_same[OF _ assms(1)] by (intro raised_unrecorded)
qed (rule assms(3))

lemma wp_terminated:
  assumes "process aw base c sigs s" and "set (keys extra) \<subseteq> {''stop_reason''}"
    and "\<And>u. same_process s u \<Longrightarrow> Q () u"
  shows "wp (terminated w cx session code reason extra) Q (raised w aw base c) s"
  unfolding terminated_def
proof (intro wp_followed wp_step_event[OF assms(1)] wp_log step_event_types)
  show "validate_line ''info'' ([(''exit_code'', opt_int code), (''reason_code'', PStr reason)] @ extra) = None"
    using assms(2) by (intro log_allowed) auto
qed (auto intro: assms(3) same_process_trans)

lemma wp_end_process:
  assumes "process aw base c [] s"
    and "\<And>code r t. ended aw base c r code t \<Longrightarrow> r \<in> rungs \<Longrightarrow> set (en_acts s) \<subseteq> set (en_acts t) \<Longrightarrow> en_shut t
      \<Longrightarrow> Q (Some code) t"
  shows "wp (end_process w hk aw) Q (raised w aw base c) s"
proof -
  define u where "u = s\<lparr>en_shut := True\<rparr>"
  have "process aw base c [] u" using assms(1) by (simp add: process_def running_def ended_def skeleton_def u_def)
  then have "wp (shutdown w hk aw (aw_end aw)) Q (raised w aw base c) u"
    by (rule wp_shutdown) (auto intro!: assms(2) intro: raised_disorderly simp: onward_def u_def)
  then show ?thesis by (simp add: end_process_def wp_followed wp_modify u_def)
qed

section \<open>The parts of a step\<close>

lemma stop_error_None: "stop_error rc step reason = None \<longleftrightarrow> reason = ''end_turn''"
  by (simp add: stop_error_def)

lemma stop_error_class:
  "stop_error rc step reason = Some e \<Longrightarrow>
   err_class e \<in> (if reason = ''cancelled'' then {CancelledError} else {PermissionDeniedError, ProtocolError})"
  by (auto simp: stop_error_def split: if_splits)

lemma step_doneI:
  assumes "ended aw base (cx_command cx) r code t" and "r \<in> rungs" and "en_shut t" and "outcome_typed aw out"
    and "so_exit_code out = Some code" and "error_recorded cx out t"
  shows "step_done aw cx base out t"
  using assms by (auto simp: step_done_def)

lemma error_recordedI:
  "so_error out = None \<or> (\<exists>e session. so_error out = Some e \<and>
     Emitted (event ''error'' (Some (cx_step cx)) (Some (cx_attempt cx)) session (error_payload e)) \<in> set (en_acts t)) \<Longrightarrow>
   error_recorded cx out t"
  by (auto simp: error_recorded_def)

lemma en_shut_same: "same_process s t \<Longrightarrow> en_shut t = en_shut s"
  by (simp add: same_process_def)

text \<open>The last event of a failed step, once the process has ended.\<close>

lemma wp_final_error:
  assumes en: "ended aw base (cx_command cx) r code s" "r \<in> rungs" "en_shut s"
    and out: "outcome_typed aw out" "so_exit_code out = Some code" "so_error out = Some e"
  shows "wp (followed (step_error w cx session e) (ok out)) (step_done aw cx base) (raised w aw base (cx_command cx)) s"
  unfolding step_error_def
proof (intro wp_followed wp_step_event[OF ended_process[OF en(1)]] step_event_types wp_ok)
  fix t assume t: "same_process s t"
    "Emitted (event ''error'' (Some (cx_step cx)) (Some (cx_attempt cx)) session (error_payload e)) \<in> set (en_acts t)"
  show "step_done aw cx base out t"
    using t(2) en(3) en_shut_same[OF t(1)] out
    by (intro step_doneI[OF ended_same[OF t(1) en(1)] en(2)] error_recordedI) auto
qed

lemma wp_stop_outcome:
  assumes en: "ended aw base (cx_command cx) r code s" "r \<in> rungs" "en_shut s"
    and h: "hs_protocol_version h = aw_version aw"
  shows "wp (stop_outcome w cx reason (Some code) h session) (step_done aw cx base) (raised w aw base (cx_command cx)) s"
  unfolding stop_outcome_def
proof (intro wp_andthen wp_reads)
  define err where "err = stop_error (en_rc s) (cx_step cx) reason"
  define out where "out = \<lparr>so_status = (if err = None then Success else if reason = ''cancelled'' then Cancelled else Failed),
       so_error = err, so_stop_reason = Some reason, so_exit_code = Some code, so_handshake = Some h,
       so_session_id = Some session, so_degraded = (reason = ''cancelled'')\<rparr>"
  have typed: "outcome_typed aw out"
  proof (cases err)
    case None
    then have "reason = ''end_turn''" by (simp add: err_def stop_error_None)
    with None h show ?thesis by (simp add: outcome_typed_def out_def)
  next
    case (Some e)
    have "err_class e \<in> (if reason = ''cancelled'' then {CancelledError} else {PermissionDeniedError, ProtocolError})"
      using stop_error_class Some unfolding err_def by blast
    with Some h show ?thesis by (auto simp: outcome_typed_def out_def split: if_splits)
  qed
  have "wp (case err of None \<Rightarrow> ok out | Some e \<Rightarrow> followed (step_error w cx (Some session) e) (ok out))
      (step_done aw cx base) (raised w aw base (cx_command cx)) s"
  proof (cases err)
    case None
    then show ?thesis
      using en typed by (auto intro!: wp_ok step_doneI error_recordedI simp: out_def)
  next
    case (Some e)
    with wp_final_error[OF en typed] show ?thesis by (simp add: out_def)
  qed
  then show "wp (let out = \<lparr>so_status = (if stop_error (en_rc s) (cx_step cx) reason = None then Success
        else if reason = ''cancelled'' then Cancelled else Failed),
       so_error = stop_error (en_rc s) (cx_step cx) reason, so_stop_reason = Some reason, so_exit_code = Some code,
       so_handshake = Some h, so_session_id = Some session, so_degraded = (reason = ''cancelled'')\<rparr>
     in case stop_error (en_rc s) (cx_step cx) reason of
        None \<Rightarrow> ok out | Some e \<Rightarrow> followed (step_error w cx (Some session) e) (ok out))
      (step_done aw cx base) (raised w aw base (cx_command cx)) s"
    by (simp only: Let_def out_def err_def)
qed

lemma early_typed:
  "err_class e \<in> {ProtocolError, PermissionDeniedError, StepTimeoutError} \<Longrightarrow>
   (session \<noteq> None \<longrightarrow> h \<noteq> None) \<Longrightarrow> (\<forall>x. h = Some x \<longrightarrow> hs_protocol_version x = aw_version aw) \<Longrightarrow>
   outcome_typed aw (failed_early e (Some code) h session True)"
  by (auto simp: outcome_typed_def failed_early_def)

text \<open>What a caught exception of the exchange is, and what its handler does.\<close>

lemma typed_Protocol: "typed [ProtocolError] x = Some e \<Longrightarrow> err_class e = ProtocolError"
  by (auto simp: typed_def split: exn.splits if_splits)

lemma wp_fail_early:
  assumes p: "opened aw base (cx_command cx) s" and e: "err_class e = ProtocolError"
    and h: "\<forall>x. h = Some x \<longrightarrow> hs_protocol_version x = aw_version aw"
  shows "wp (followed (step_error w cx None e) (andthen (end_process w (context_hooks cx) aw)
      (\<lambda>code. ok (failed_early e code h None True)))) (step_done aw cx base) (raised w aw base (cx_command cx)) s"
  unfolding step_error_def
proof (intro wp_followed wp_step_event[OF openedD[OF p]] step_event_types wp_andthen wp_end_process wp_ok)
  fix t code r u
  assume t: "same_process s t"
    "Emitted (event ''error'' (Some (cx_step cx)) (Some (cx_attempt cx)) None (error_payload e)) \<in> set (en_acts t)"
    and u: "ended aw base (cx_command cx) r code u" "r \<in> rungs" "set (en_acts t) \<subseteq> set (en_acts u)" "en_shut u"
  show "step_done aw cx base (failed_early e (Some code) h None True) u"
    using t(2) u(3) e h
    by (intro step_doneI[OF u(1,2,4)] early_typed error_recordedI) (auto simp: failed_early_def)
qed (rule process_same[OF _ openedD[OF p]])

lemma wp_or_fail:
  assumes m: "wp m (\<lambda>x t. opened aw base (cx_command cx) t \<and> Q x t)
      (\<lambda>x t. opened aw base (cx_command cx) t \<and> (\<forall>y. x = Some y \<longrightarrow> typed [ProtocolError] y = None \<longrightarrow> raised w aw base (cx_command cx) x t)
         \<and> (x = None \<longrightarrow> raised w aw base (cx_command cx) x t)) s"
    and h: "\<forall>x. h = Some x \<longrightarrow> hs_protocol_version x = aw_version aw"
    and k: "\<And>x t. opened aw base (cx_command cx) t \<Longrightarrow> Q x t \<Longrightarrow> wp (k x) (step_done aw cx base) (raised w aw base (cx_command cx)) t"
  shows "wp (or_fail w cx aw h m k) (step_done aw cx base) (raised w aw base (cx_command cx)) s"
  unfolding or_fail_def
proof (intro wp_andthen wp_attempt, rule wp_mono[OF m], goal_cases)
  case (1 x t)
  then show ?case using k by simp
next
  case (2 x t)
  show ?case
  proof (cases x)
    case None
    with 2 show ?thesis by (simp add: uncaught_def)
  next
    case (Some y)
    with 2 show ?thesis
      using wp_fail_early[OF _ typed_Protocol h] by (auto simp: uncaught_def split: option.splits)
  qed
qed

lemma wp_turn_done:
  assumes p: "opened aw base (cx_command cx) s" and h: "hs_protocol_version h = aw_version aw"
    and a: "tn_prompt (aw_turn aw) = Some a"
  shows "wp (turn_done w cx aw h session (prompt_result a)) (step_done aw cx base) (raised w aw base (cx_command cx)) s"
proof (cases "prompt_result a")
  case (Inr reason)
  show ?thesis
    unfolding turn_done_def Inr sum.case
  proof (intro wp_andthen wp_end_process[OF openedD[OF p]] wp_followed)
    fix code r t assume t: "ended aw base (cx_command cx) r code t" "r \<in> rungs" "en_shut t"
    show "wp (terminated w cx session (Some code) ''turn_complete'' (stop_details (Some reason)))
        (\<lambda>_. wp (stop_outcome w cx reason (Some code) h session) (step_done aw cx base) (raised w aw base (cx_command cx)))
        (raised w aw base (cx_command cx)) t"
      using en_shut_same t(3)
      by (intro wp_terminated[OF ended_process[OF t(1)]] wp_stop_outcome[OF ended_same[OF _ t(1)] t(2) _ h])
        (auto simp: stop_details_def)
  qed
next
  case (Inl x)
  show ?thesis
  proof (cases "typed [ProtocolError] x")
    case None
    with Inl obtain m where m: "a = Escaping m" "x = Python m"
      by (cases a) (auto simp: typed_def request_failed_def connection_lost_def)
    with a have "m \<in> escapes aw" by (simp add: escapes_def)
    with None m(2) show ?thesis by (auto simp: turn_done_def Inl intro!: wp_raise opened_escape[OF _ p])
  next
    case (Some e)
    have "wp (followed (step_error w cx (Some session) e)
          (andthen (end_process w (context_hooks cx) aw) (\<lambda>code.
           followed (terminated w cx session code ''protocol_error'' [])
             (ok (failed_early e code (Some h) (Some session) True)))))
        (step_done aw cx base) (raised w aw base (cx_command cx)) s"
      unfolding step_error_def
    proof (intro wp_followed wp_step_event[OF openedD[OF p]] step_event_types wp_andthen wp_end_process)
      fix t code r u
      assume t: "same_process s t"
        "Emitted (event ''error'' (Some (cx_step cx)) (Some (cx_attempt cx)) (Some session) (error_payload e)) \<in> set (en_acts t)"
        and u: "ended aw base (cx_command cx) r code u" "r \<in> rungs" "set (en_acts t) \<subseteq> set (en_acts u)" "en_shut u"
      show "wp (terminated w cx session (Some code) ''protocol_error'' [])
          (\<lambda>_. wp (ok (failed_early e (Some code) (Some h) (Some session) True)) (step_done aw cx base)
             (raised w aw base (cx_command cx))) (raised w aw base (cx_command cx)) u"
      proof (intro wp_terminated[OF ended_process[OF u(1)]] wp_ok)
        fix v assume v: "same_process u v"
        then have "set (en_acts u) \<subseteq> set (en_acts v)" by (simp add: same_process_def)
        with t(2) u(3) h typed_Protocol[OF Some] show "step_done aw cx base (failed_early e (Some code) (Some h) (Some session) True) v"
          by (intro step_doneI[OF ended_same[OF v u(1)] u(2)] early_typed error_recordedI)
            (auto simp: failed_early_def en_shut_same[OF v] u(4))
      qed simp
    qed (rule process_same[OF _ openedD[OF p]])
    then show ?thesis by (simp add: turn_done_def Inl Some)
  qed
qed

lemma wp_settled:
  assumes "\<And>x. Q x s" and "\<And>m. r = Some (Escaping m) \<Longrightarrow> E (Some (Python m)) s"
  shows "wp (settled r) Q E s"
proof (cases r)
  case (Some a)
  show ?thesis
  proof (cases a)
    case (Escaping m)
    with assms Some show ?thesis by (simp add: settled_def typed_def wp_raise)
  qed (use assms Some in \<open>simp_all add: settled_def typed_def request_failed_def connection_lost_def wp_ok\<close>)
qed (simp add: settled_def wp_ok assms)

lemma wp_cancel_ladder:
  assumes p: "opened aw base c s"
    and q: "\<And>code stop r t. ended aw base c r code t \<Longrightarrow> r \<in> rungs \<Longrightarrow> Q (Some code, stop) t"
  shows "wp (cancel_ladder w hk aw) Q (raised w aw base c) s"
proof -
  let ?E = "raised w aw base c" and ?tn = "aw_turn aw"
  let ?late = "if tn_grace ?tn = None then tn_late ?tn else tn_grace ?tn"
  define rest where "rest = (\<lambda>stop :: string option. andthen (shutdown w hk aw (aw_end aw))
      (\<lambda>code. andthen (settled ?late) (\<lambda>late. ok (code, if stop = None then late else stop))))"
  have rest: "wp (rest stop) Q ?E u" if u: "opened aw base c u" for stop u
    unfolding rest_def wp_andthen_eq
  proof (rule wp_shutdown[OF openedD[OF u]])
    fix code r t assume "ended aw base c ([] @ r) code t" and r: "r \<in> rungs" and on: "onward u t"
    then have t: "ended aw base c r code t" by simp
    from u on have sh: "\<not> en_shut t" by (simp add: opened_def onward_def)
    show "wp (settled ?late) (\<lambda>late. wp (ok (Some code, if stop = None then late else stop)) Q ?E) ?E t"
      by (intro wp_settled wp_ok q[OF t r] raised_escape[OF _ ended_process[OF t] sh])
        (auto simp: escapes_def split: if_splits)
  qed (auto intro: raised_disorderly)
  have ladder: "cancel_ladder w hk aw = followed (awaiting w hk aw (tn_notify_wait ?tn))
      (followed (awaiting w hk aw (tn_grace_wait ?tn)) (andthen (settled (tn_grace ?tn)) rest))"
    by (simp only: cancel_ladder_def rest_def Let_def)
  have "wp (settled (tn_grace ?tn)) (\<lambda>stop. wp (rest stop) Q ?E) ?E u" if u: "opened aw base c u" for u
    by (intro wp_settled rest[OF u] opened_escape[OF _ u]) (auto simp: escapes_def)
  then have "wp (awaiting w hk aw (tn_grace_wait ?tn)) (\<lambda>_. wp (settled (tn_grace ?tn)) (\<lambda>stop. wp (rest stop) Q ?E) ?E) ?E t"
    if "opened aw base c t" for t by (intro wp_awaiting_opened[OF that])
  then show ?thesis unfolding ladder wp_followed_eq wp_andthen_eq by (intro wp_awaiting_opened[OF p])
qed

lemma wp_turn_interrupted:
  assumes p: "opened aw base (cx_command cx) s" and h: "hs_protocol_version h = aw_version aw"
  shows "wp (turn_interrupted w cx aw h session cancelled) (step_done aw cx base) (raised w aw base (cx_command cx)) s"
  unfolding turn_interrupted_def Let_def
proof (intro wp_followed wp_step_event[OF openedD[OF p]] step_event_types wp_log wp_andthen wp_cancel_ladder)
  fix t u assume "same_process s t" "same_process t u"
  then show "opened aw base (cx_command cx) u" using opened_same p by blast
next
  fix t code stop r
  assume t: "ended aw base (cx_command cx) r code t" "r \<in> rungs"
  define reason where "reason = (if cancelled then ''cancel'' else ''timeout'')"
  define e where "e = interrupted_error w cx cancelled stop"
  define out where "out = \<lparr>so_status = (if cancelled then Cancelled else Failed), so_error = Some e, so_stop_reason = stop,
     so_exit_code = Some code, so_handshake = Some h, so_session_id = Some session, so_degraded = True\<rparr>"
  have out: "outcome_typed aw out" "so_exit_code out = Some code" "so_error out = Some e"
    using h by (auto simp: outcome_typed_def out_def e_def interrupted_error_def)
  define u where "u = t\<lparr>en_shut := True\<rparr>"
  have u: "ended aw base (cx_command cx) r code u" "en_shut u" using t(1) by (auto simp: ended_def skeleton_def u_def)
  have "wp (followed (terminated w cx session (Some code) reason []) (followed (step_error w cx (Some session) e) (ok out)))
      (step_done aw cx base) (raised w aw base (cx_command cx)) u"
    using en_shut_same u(2)
    by (intro wp_followed wp_terminated[OF ended_process[OF u(1)]] wp_final_error[OF ended_same[OF _ u(1)] t(2) _ out, unfolded wp_followed_eq])
      auto
  then show "wp (case (Some code, stop) of (code, stop) \<Rightarrow>
      followed (modify (\<lambda>s. s\<lparr>en_shut := True\<rparr>))
        (followed (terminated w cx session code (if cancelled then ''cancel'' else ''timeout'') [])
          (followed (step_error w cx (Some session) (interrupted_error w cx cancelled stop))
            (ok \<lparr>so_status = (if cancelled then Cancelled else Failed), so_error = Some (interrupted_error w cx cancelled stop),
              so_stop_reason = stop, so_exit_code = code, so_handshake = Some h, so_session_id = Some session,
              so_degraded = True\<rparr>))))
      (step_done aw cx base) (raised w aw base (cx_command cx)) t"
    unfolding prod.case reason_def e_def out_def u_def by (rule wp_followed[OF wp_modify])
qed (rule log_allowed; simp)

lemma wp_run_turn:
  assumes p: "opened aw base (cx_command cx) s" and h: "hs_protocol_version h = aw_version aw"
  shows "wp (run_turn w cx aw h session) (step_done aw cx base) (raised w aw base (cx_command cx)) s"
  unfolding run_turn_def
proof (intro wp_followed wp_step_event[OF openedD[OF p]] step_event_types wp_log wp_awaiting_opened[where base = base and c = "cx_command cx"])
  fix t u assume "same_process s t" "same_process t u"
  then show "opened aw base (cx_command cx) u" using opened_same p by blast
next
  fix t assume "opened aw base (cx_command cx) t"
  then show "wp (case tn_prompt (aw_turn aw) of
         Some a \<Rightarrow> turn_done w cx aw h session (prompt_result a)
       | None \<Rightarrow> turn_interrupted w cx aw h session (cx_cancellable cx \<and> tn_cancelled (aw_turn aw)))
      (step_done aw cx base) (raised w aw base (cx_command cx)) t"
    by (cases "tn_prompt (aw_turn aw)") (simp_all add: wp_turn_done[OF _ h] wp_turn_interrupted[OF _ h])
qed (rule log_allowed; simp)

lemma wp_initialize:
  assumes p: "opened aw base c s"
  shows "wp (initialize w hk aw) (\<lambda>h t. opened aw base c t \<and> hs_protocol_version h = aw_version aw)
    (\<lambda>x t. opened aw base c t \<and> (\<forall>y. x = Some y \<longrightarrow> typed [ProtocolError] y = None \<longrightarrow> raised w aw base c x t)
       \<and> (x = None \<longrightarrow> raised w aw base c x t)) s"
  unfolding initialize_def
proof (intro wp_followed wp_awaiting_opened[OF p])
  let ?E = "\<lambda>x t. opened aw base c t \<and> (\<forall>y. x = Some y \<longrightarrow> typed [ProtocolError] y = None \<longrightarrow> raised w aw base c x t)
       \<and> (x = None \<longrightarrow> raised w aw base c x t)"
  fix t assume t: "opened aw base c t"
  show "wp (answer_of (aw_init aw) (\<lambda>a. case a of
        RequestFailed code m \<Rightarrow> raise (request_failed ''initialize'' code m)
      | Lost m \<Rightarrow> raise (connection_lost ''agent connection lost during initialize'' m)
      | Escaping m \<Rightarrow> raise (Python m)
      | Answer r \<Rightarrow>
          if ir_protocol_version r \<noteq> aw_version aw
          then followed (close_connection w hk aw (aw_init_close aw)) (raise (Zig \<lparr>err_class = ProtocolError,
            message = ''agent protocol version mismatch'',
            details = [(''client_protocol_version'', PInt (aw_version aw)),
              (''agent_protocol_version'', PInt (ir_protocol_version r))]\<rparr>))
          else ok (to_handshake_info r)))
      (\<lambda>h t. opened aw base c t \<and> hs_protocol_version h = aw_version aw) ?E t"
  proof (cases "aw_init aw")
    case None
    then have "raised w aw base c x t" for x using raised_disorderly[OF _ openedD[OF t]] by blast
    then show ?thesis using t by (simp add: answer_of_def None wp_def)
  next
    case (Some a)
    have ans: "answer_of (aw_init aw) f = f a" for f :: "init_response answer \<Rightarrow> handshake eng"
      by (rule ext) (simp add: answer_of_def Some)
    show ?thesis
    proof (cases a)
      case (Answer r)
      define z where "z = \<lparr>err_class = ProtocolError, message = ''agent protocol version mismatch'',
            details = [(''client_protocol_version'', PInt (aw_version aw)),
              (''agent_protocol_version'', PInt (ir_protocol_version r))]\<rparr>"
      have "typed [ProtocolError] (Zig z) = Some z" by (simp add: typed_def z_def)
      then have "wp (followed (close_connection w hk aw (aw_init_close aw)) (raise (Zig z)))
          (\<lambda>h t. opened aw base c t \<and> hs_protocol_version h = aw_version aw) ?E t"
        unfolding wp_followed_eq using t by (intro wp_close[OF openedD[OF t]] wp_raise)
            (auto simp: opened_def onward_def intro: raised_disorderly)
      moreover have "wp (ok (to_handshake_info r)) (\<lambda>h t. opened aw base c t \<and> hs_protocol_version h = aw_version aw) ?E t"
        if "\<not> ir_protocol_version r \<noteq> aw_version aw"
        using that t by (intro wp_ok) (simp add: to_handshake_info_def)
      ultimately show ?thesis unfolding ans Answer answer.case z_def by (intro wp_if)
    next
      case (Escaping m)
      with Some have "raised w aw base c (Some (Python m)) t" by (intro opened_escape[OF _ t]) (simp add: escapes_def)
      with t show ?thesis unfolding ans Escaping answer.case by (intro wp_raise) simp
    qed (use t ans in \<open>simp_all add: wp_raise typed_def request_failed_def connection_lost_def\<close>)
  qed
qed

lemma wp_new_session:
  assumes p: "opened aw base c s"
  shows "wp (new_session w hk aw) (\<lambda>i t. opened aw base c t \<and> True)
    (\<lambda>x t. opened aw base c t \<and> (\<forall>y. x = Some y \<longrightarrow> typed [ProtocolError] y = None \<longrightarrow> raised w aw base c x t)
       \<and> (x = None \<longrightarrow> raised w aw base c x t)) s"
  unfolding new_session_def
proof (intro wp_followed wp_awaiting_opened[OF p])
  fix t assume t: "opened aw base c t"
  show "wp (answer_of (aw_session aw) (\<lambda>a. case a of
        RequestFailed code m \<Rightarrow> raise (request_failed ''session/new'' code m)
      | Lost m \<Rightarrow> raise (connection_lost ''agent connection lost during session/new'' m)
      | Escaping m \<Rightarrow> raise (Python m)
      | Answer i \<Rightarrow> ok i)) (\<lambda>i t. opened aw base c t \<and> True)
    (\<lambda>x t. opened aw base c t \<and> (\<forall>y. x = Some y \<longrightarrow> typed [ProtocolError] y = None \<longrightarrow> raised w aw base c x t)
       \<and> (x = None \<longrightarrow> raised w aw base c x t)) t"
  proof (cases "aw_session aw")
    case None
    then have "raised w aw base c x t" for x using raised_disorderly[OF _ openedD[OF t]] by blast
    then show ?thesis using t by (simp add: answer_of_def None wp_def)
  next
    case (Some a)
    have ans: "answer_of (aw_session aw) f = f a" for f :: "string answer \<Rightarrow> string eng"
      by (rule ext) (simp add: answer_of_def Some)
    have "raised w aw base c (Some (Python m)) t" if "a = Escaping m" for m
      using that Some by (intro opened_escape[OF _ t]) (simp add: escapes_def)
    with t show ?thesis
      unfolding ans by (cases a) (simp_all add: wp_raise wp_ok typed_def request_failed_def connection_lost_def)
  qed
qed

lemma wp_run_session:
  assumes p: "opened aw base (cx_command cx) s"
  shows "wp (run_session w cx aw) (step_done aw cx base) (raised w aw base (cx_command cx)) s"
  unfolding run_session_def
proof (rule wp_or_fail[OF wp_initialize[OF p]])
  fix h :: handshake and t assume t: "opened aw base (cx_command cx) t" and h: "hs_protocol_version h = aw_version aw"
  define rest where "rest session = followed (modify (\<lambda>s. s\<lparr>en_session := Some session\<rparr>))
      (followed (step_event w cx ''session_created'' (Some session)
         [(''session_id'', PStr session), (''cwd'', PStr (cx_cwd cx))])
      (followed (step_log w cx ''session_created'' ''info'' [])
         (run_turn w cx aw h session)))" for session
  have rest: "wp (rest i) (step_done aw cx base) (raised w aw base (cx_command cx)) u"
    if u: "opened aw base (cx_command cx) u" for i u
  proof -
    define v where "v = u\<lparr>en_session := Some i\<rparr>"
    have v: "opened aw base (cx_command cx) v"
      using u by (simp add: opened_def process_def running_def ended_def skeleton_def v_def)
    have "wp (followed (step_event w cx ''session_created'' (Some i) [(''session_id'', PStr i), (''cwd'', PStr (cx_cwd cx))])
        (followed (step_log w cx ''session_created'' ''info'' []) (run_turn w cx aw h i)))
        (step_done aw cx base) (raised w aw base (cx_command cx)) v"
    proof (intro wp_followed wp_step_event[OF openedD[OF v]] step_event_types wp_log wp_run_turn[OF _ h])
      fix x y assume "same_process v x" "same_process x y"
      then show "opened aw base (cx_command cx) y" using opened_same v by blast
    qed (rule log_allowed; simp)
    then show ?thesis by (simp add: rest_def wp_followed wp_modify v_def)
  qed
  have "wp (followed (step_event w cx ''handshake'' None (handshake_payload h))
      (followed (step_log w cx ''handshake'' ''info'' [])
        (or_fail w cx aw (Some h) (new_session w (context_hooks cx) aw) rest)))
      (step_done aw cx base) (raised w aw base (cx_command cx)) t"
  proof (intro wp_followed wp_step_event[OF openedD[OF t]] step_event_types wp_log)
    fix x y assume "same_process t x" "same_process x y"
    then have y: "opened aw base (cx_command cx) y" using opened_same t by blast
    show "wp (or_fail w cx aw (Some h) (new_session w (context_hooks cx) aw) rest) (step_done aw cx base)
        (raised w aw base (cx_command cx)) y"
      by (rule wp_or_fail[OF wp_new_session[OF y]]) (use h in \<open>auto intro: rest\<close>)
  qed (rule log_allowed; simp)
  then show "wp (followed (step_event w cx ''handshake'' None (handshake_payload h))
    (followed (step_log w cx ''handshake'' ''info'' [])
    (or_fail w cx aw (Some h) (new_session w (context_hooks cx) aw) (\<lambda>session.
       followed (modify (\<lambda>s. s\<lparr>en_session := Some session\<rparr>))
      (followed (step_event w cx ''session_created'' (Some session)
         [(''session_id'', PStr session), (''cwd'', PStr (cx_cwd cx))])
      (followed (step_log w cx ''session_created'' ''info'' [])
         (run_turn w cx aw h session)))))))
      (step_done aw cx base) (raised w aw base (cx_command cx)) t"
    unfolding rest_def .
qed simp

section \<open>The whole step\<close>

lemma flush_calm_Ok:
  assumes "never_raises (se_recording w)"
  shows "\<exists>x. fst (flush_streams w hk s) = Ok x"
proof -
  have one: "\<exists>x. fst (flush_one w hk b s) = Ok x" for b s
  proof -
    obtain rest t where r: "stream_flush b s = (Ok rest, t)"
    proof (cases "if b then en_thought s else en_message s")
      case (Some held)
      obtain rx held' out where "guard_flush (rc_redactor (en_rc s)) held = (rx, held', out)" by (metis prod_cases3)
      with Some that show ?thesis by (simp add: stream_flush_def Let_def)
    qed (use that in \<open>simp add: stream_flush_def\<close>)
    have "fst (hook_emit w hk (chunk_type b) [(''role'', PStr ''agent''), (''text'', PStr rest)] t) = Ok ()"
      unfolding hook_emit_def using assms by (rule emit_event_Ok) (simp_all add: event_def chunk_type_def EVENT_TYPES_def)
    then show ?thesis by (simp add: flush_one_def andthen_def r ok_def)
  qed
  obtain t where t: "flush_one w hk False s = (Ok (), t)" using one[of False s] by (metis prod.collapse unit.exhaust)
  then show ?thesis using one[of True t] by (simp add: flush_streams_def followed_def andthen_def t)
qed

lemma wp_flush:
  assumes "\<And>t. same_process s t \<Longrightarrow> Q () t" and "\<And>t e. \<not> never_raises (se_recording w) \<Longrightarrow> same_process s t \<Longrightarrow> E e t"
  shows "wp (flush_streams w hk) Q E s"
proof -
  obtain r t where rt: "flush_streams w hk s = (r, t)" by (cases "flush_streams w hk s")
  from calmD[OF calm_flush rt] assms flush_calm_Ok[of w hk s] rt show ?thesis
    by (cases "never_raises (se_recording w)"; cases r) (auto simp: wp_def)
qed

definition step_raised :: "setting \<Rightarrow> agent_world \<Rightarrow> act list \<Rightarrow> string \<Rightarrow> exn option \<Rightarrow> engine \<Rightarrow> bool" where
  "step_raised w aw base c e t \<longleftrightarrow> live aw base c t
     \<and> (dutiful w aw \<longrightarrow> (\<exists>m \<in> escapes aw. e = Some (Python m)) \<and> (\<exists>sigs code. ended aw base c sigs code t))"

lemma step_raised_undutiful: "\<not> dutiful w aw \<Longrightarrow> live aw base c t \<Longrightarrow> step_raised w aw base c e t"
  by (simp add: step_raised_def)

lemma live_same: "same_process s t \<Longrightarrow> live aw base c s \<Longrightarrow> live aw base c t"
  using process_same unfolding live_def by blast

lemma step_done_same: "same_process s t \<Longrightarrow> step_done aw cx base out s \<Longrightarrow> step_done aw cx base out t"
  using ended_same by (fastforce simp: step_done_def error_recorded_def same_process_def)

lemma wp_clean_up_done:
  assumes d: "step_done aw cx base out s"
  shows "wp (clean_up w cx aw) (\<lambda>_. step_done aw cx base out) (step_raised w aw base (cx_command cx)) s"
  unfolding clean_up_def
proof (intro wp_followed wp_flush wp_andthen wp_reads)
  fix t assume t: "same_process s t"
  with d have "en_shut t" by (simp add: step_done_def same_process_def)
  then show "wp (if en_shut t then ok () else andthen (shutdown w (context_hooks cx) aw (aw_final aw)) (\<lambda>_. ok ()))
      (\<lambda>_. step_done aw cx base out) (step_raised w aw base (cx_command cx)) t"
    by (simp add: wp_ok step_done_same[OF t d])
next
  fix t e assume n: "\<not> never_raises (se_recording w)" and t: "same_process s t"
  from d have "live aw base (cx_command cx) s" by (auto simp: step_done_def live_def process_def)
  from live_same[OF t this] n show "step_raised w aw base (cx_command cx) e t"
    by (intro step_raised_undutiful) (simp_all add: dutiful_def)
qed

lemma wp_clean_up_raised:
  assumes r: "raised w aw base (cx_command cx) (Some x) s"
  shows "wp (clean_up w cx aw) (\<lambda>_. step_raised w aw base (cx_command cx) (Some x)) (step_raised w aw base (cx_command cx)) s"
  unfolding clean_up_def
proof (intro wp_followed wp_flush wp_andthen wp_reads)
  fix t assume t: "same_process s t"
  from r obtain sigs where "process aw base (cx_command cx) sigs s" by (auto simp: raised_def live_def)
  from process_same[OF t this] have p: "process aw base (cx_command cx) sigs t" .
  show "wp (if en_shut t then ok () else andthen (shutdown w (context_hooks cx) aw (aw_final aw)) (\<lambda>_. ok ()))
      (\<lambda>_. step_raised w aw base (cx_command cx) (Some x)) (step_raised w aw base (cx_command cx)) t"
  proof (intro wp_if wp_ok wp_andthen wp_shutdown[OF p])
    assume "en_shut t"
    with t r have "\<not> dutiful w aw" by (auto simp: raised_def same_process_def)
    then show "step_raised w aw base (cx_command cx) (Some x) t" using p by (auto simp: step_raised_def live_def)
  next
    fix code r' u assume "ended aw base (cx_command cx) (sigs @ r') code u"
    then show "step_raised w aw base (cx_command cx) (Some x) u"
      using r ended_process by (fastforce simp: step_raised_def raised_def live_def)
  next
    fix u e r' assume "\<not> orderly (aw_final aw)" "process aw base (cx_command cx) (sigs @ r') u"
    then show "step_raised w aw base (cx_command cx) e u" by (auto simp: step_raised_def dutiful_def live_def)
  qed
next
  fix t e assume n: "\<not> never_raises (se_recording w)" and t: "same_process s t"
  from r live_same[OF t] n show "step_raised w aw base (cx_command cx) e t"
    by (intro step_raised_undutiful) (simp_all add: dutiful_def raised_def)
qed

lemma typed_launch: "typed [AgentLaunchError] (launch_failed a b c d) =
    Some \<lparr>err_class = AgentLaunchError, message = a @ c, details = [(''command'', PStr b), (''reason'', PStr d)]\<rparr>"
  by (simp add: typed_def launch_failed_def)

lemma launch_typed: "err_class e = AgentLaunchError \<Longrightarrow> outcome_typed aw (failed_early e None None None False)"
  by (simp add: outcome_typed_def failed_early_def)

definition step_result_ok :: "agent_world \<Rightarrow> step_context \<Rightarrow> act list \<Rightarrow> step_outcome \<Rightarrow> engine \<Rightarrow> bool" where
  "step_result_ok aw cx base out t \<longleftrightarrow> outcome_typed aw out \<and> error_recorded cx out t
     \<and> (so_exit_code out = None \<and> skeleton t = base
        \<or> (\<exists>sigs code. ended aw base (cx_command cx) sigs code t \<and> sigs \<in> rungs \<and> so_exit_code out = Some code))"

definition step_exception :: "setting \<Rightarrow> agent_world \<Rightarrow> act list \<Rightarrow> string \<Rightarrow> exn option \<Rightarrow> engine \<Rightarrow> bool" where
  "step_exception w aw base c e t \<longleftrightarrow>
     skeleton t = base \<and> (dutiful w aw \<longrightarrow> (\<exists>m. aw_launch aw = LaunchError m \<and> e = Some (Python m)))
     \<or> step_raised w aw base c e t"

lemma wp_launch_failed:
  assumes "skeleton s = base" and "err_class e = AgentLaunchError"
  shows "wp (followed (step_error w cx None e)
         (followed (step_log w cx ''agent_launch_failed'' ''error'' [(''reason_code'', PStr (error_code (err_class e)))])
           (ok (failed_early e None None None False)))) (step_result_ok aw cx base) (step_exception w aw base (cx_command cx)) s"
  unfolding step_error_def
proof (intro wp_followed wp_event step_event_types wp_log wp_ok)
  fix t u assume t: "same_process s t"
    "Emitted (event ''error'' (Some (cx_step cx)) (Some (cx_attempt cx)) None (error_payload e)) \<in> set (en_acts t)"
    and u: "same_process t u"
  have "error_recorded cx (failed_early e None None None False) u"
    using t(2) u by (intro error_recordedI) (auto simp: failed_early_def same_process_def)
  moreover have "skeleton u = base" using assms(1) skeleton_same[OF t(1)] skeleton_same[OF u] by simp
  ultimately show "step_result_ok aw cx base (failed_early e None None None False) u"
    using launch_typed[OF assms(2)] by (simp add: step_result_ok_def failed_early_def)
next
  fix t x assume "\<not> never_raises (se_recording w)" "same_process s t"
  then show "step_exception w aw base (cx_command cx) x t"
    using assms(1) skeleton_same by (auto simp: step_exception_def dutiful_def)
qed (rule log_allowed; simp)

lemma wp_launched:
  assumes s: "opened aw base (cx_command cx) s"
  shows "wp (followed (step_event w cx ''agent_launched'' None [(''pid'', PInt pid), (''pgid'', PInt pid)])
         (followed (step_log w cx ''agent_launched'' ''info'' [])
           (finally_do (run_session w cx aw) (clean_up w cx aw))))
     (step_result_ok aw cx base) (step_exception w aw base (cx_command cx)) s"
proof (intro wp_followed wp_event step_event_types wp_log)
  fix t u assume "same_process s t" "same_process t u"
  then have u: "opened aw base (cx_command cx) u" using opened_same s by blast
  have "wp (finally_do (run_session w cx aw) (clean_up w cx aw)) (step_done aw cx base)
      (step_raised w aw base (cx_command cx)) u"
  proof (rule wp_finally, rule wp_mono[OF wp_run_session[OF u]])
    fix x v assume r: "raised w aw base (cx_command cx) x v"
    show "cleaned (clean_up w cx aw) (step_raised w aw base (cx_command cx)) x v"
    proof (cases x)
      case None
      with r show ?thesis by (auto simp: cleaned_def raised_def step_raised_def)
    next
      case (Some y)
      with r wp_clean_up_raised show ?thesis by (simp add: cleaned_def)
    qed
  qed (rule wp_clean_up_done)
  then show "wp (finally_do (run_session w cx aw) (clean_up w cx aw)) (step_result_ok aw cx base)
      (step_exception w aw base (cx_command cx)) u"
    by (rule wp_mono) (auto simp: step_result_ok_def step_done_def step_exception_def)
next
  fix t x assume n: "\<not> never_raises (se_recording w)" and t: "same_process s t"
  from process_live[OF process_same[OF t openedD[OF s]]] n
  show "step_exception w aw base (cx_command cx) x t"
    by (simp add: step_exception_def step_raised_def dutiful_def)
qed (rule log_allowed; simp)

lemma wp_execute_step:
  "wp (execute_step w cx aw) (step_result_ok aw cx (skeleton s)) (step_exception w aw (skeleton s) (cx_command cx)) s"
  unfolding execute_step_def
proof (intro wp_followed wp_modify wp_event step_event_types wp_andthen wp_attempt)
  let ?Q = "step_result_ok aw cx (skeleton s)" and ?E = "step_exception w aw (skeleton s) (cx_command cx)"
  define k where "k r = (case r of
       Inl e \<Rightarrow> followed (step_error w cx None e)
         (followed (step_log w cx ''agent_launch_failed'' ''error'' [(''reason_code'', PStr (error_code (err_class e)))])
           (ok (failed_early e None None None False)))
     | Inr pid \<Rightarrow> followed (step_event w cx ''agent_launched'' None [(''pid'', PInt pid), (''pgid'', PInt pid)])
         (followed (step_log w cx ''agent_launched'' ''info'' [])
           (finally_do (run_session w cx aw) (clean_up w cx aw))))" for r
  fix t assume t: "same_process (fresh_step s) t"
  then have sk: "skeleton t = skeleton s" and fr: "\<not> en_shut t" by (simp_all add: same_process_def skeleton_def fresh_step_def)
  have failed: "uncaught (typed [AgentLaunchError]) (\<lambda>z. wp (k (Inl z)) ?Q ?E) ?E (Some (launch_failed a (cx_command cx) c d)) t" for a c d
    using wp_launch_failed[OF sk] by (simp add: uncaught_def typed_launch k_def)
  have "wp (launch aw (cx_command cx)) (\<lambda>x. wp (k (Inr x)) ?Q ?E) (uncaught (typed [AgentLaunchError]) (\<lambda>z. wp (k (Inl z)) ?Q ?E) ?E) t"
  proof (cases "aw_launch aw")
    case (Launched pid)
    define u where "u = t\<lparr>en_exit := None, en_closed := False, en_acts := en_acts t @ [Spawned pid (cx_command cx)]\<rparr>"
    have "opened aw (skeleton s) (cx_command cx) u"
      using sk fr by (simp add: opened_def process_def running_def skeleton_def u_def pgid_def Launched)
    then have "wp (k (Inr pid)) ?Q ?E u" using wp_launched by (simp add: k_def)
    then show ?thesis by (simp add: launch_def Launched wp_def followed_def andthen_def modify_def act_def ok_def u_def)
  next
    case (LaunchError m)
    have "?E (Some (Python m)) t" using sk LaunchError by (simp add: step_exception_def)
    then show ?thesis by (simp add: launch_def LaunchError wp_raise uncaught_def typed_def)
  qed (use failed in \<open>simp_all add: launch_def wp_raise\<close>)
  then show "wp (launch aw (cx_command cx)) (\<lambda>x. wp (case Inr x of
       Inl e \<Rightarrow> followed (step_error w cx None e)
         (followed (step_log w cx ''agent_launch_failed'' ''error'' [(''reason_code'', PStr (error_code (err_class e)))])
           (ok (failed_early e None None None False)))
     | Inr pid \<Rightarrow> followed (step_event w cx ''agent_launched'' None [(''pid'', PInt pid), (''pgid'', PInt pid)])
         (followed (step_log w cx ''agent_launched'' ''info'' [])
           (finally_do (run_session w cx aw) (clean_up w cx aw)))) ?Q ?E)
     (uncaught (typed [AgentLaunchError]) (\<lambda>z. wp (case Inl z of
       Inl e \<Rightarrow> followed (step_error w cx None e)
         (followed (step_log w cx ''agent_launch_failed'' ''error'' [(''reason_code'', PStr (error_code (err_class e)))])
           (ok (failed_early e None None None False)))
     | Inr pid \<Rightarrow> followed (step_event w cx ''agent_launched'' None [(''pid'', PInt pid), (''pgid'', PInt pid)])
         (followed (step_log w cx ''agent_launched'' ''info'' [])
           (finally_do (run_session w cx aw) (clean_up w cx aw)))) ?Q ?E) ?E) t"
    unfolding k_def .
next
  fix t x assume "\<not> never_raises (se_recording w)" "same_process (fresh_step s) t"
  then show "step_exception w aw (skeleton s) (cx_command cx) x t"
    by (simp add: step_exception_def dutiful_def same_process_def skeleton_def fresh_step_def)
qed

end
