(* ===== verification/Step_Guarantees.thy ===== *)
theory Step_Guarantees
  imports Step_Safety
begin

text \<open>
  The guarantees of one step: the type of its outcome, the end of the agent's process, that a step ends
  whatever the agent does, and that everything done for the agent stays within its policy. The last
  section shows how a process can outlive its step.
\<close>

section \<open>Acts of a step\<close>

text \<open>What an agent can ask for: the callbacks that arrive in one of the waits.\<close>

definition heard :: "agent_world \<Rightarrow> waiting \<Rightarrow> hook_call set" where
  "heard aw wt = set (concat (map (hook_calls (aw_dump aw)) (wt_incoming wt)))"

definition ending_calls :: "agent_world \<Rightarrow> ending \<Rightarrow> hook_call set" where
  "ending_calls aw ed = heard aw (ed_grace ed) \<union> heard aw (ed_term_wait ed) \<union> heard aw (ed_kill_wait ed)
     \<union> heard aw (cl_wait (ed_close ed))"

definition calls_of :: "agent_world \<Rightarrow> hook_call set" where
  "calls_of aw = heard aw (aw_init_wait aw) \<union> heard aw (cl_wait (aw_init_close aw)) \<union> heard aw (aw_session_wait aw)
     \<union> heard aw (tn_wait (aw_turn aw)) \<union> heard aw (tn_notify_wait (aw_turn aw)) \<union> heard aw (tn_grace_wait (aw_turn aw))
     \<union> ending_calls aw (aw_end aw) \<union> ending_calls aw (aw_final aw)"

text \<open>The acts of a step whose agent asks for \<open>C\<close> and was launched as \<open>L\<close>.\<close>

fun step_permitted :: "hook_call set \<Rightarrow> launching \<Rightarrow> step_context \<Rightarrow> act \<Rightarrow> bool" where
  "step_permitted C L cx (Spawned pid c) \<longleftrightarrow> L = Launched pid \<and> c = cx_command cx"
| "step_permitted C L cx (Signalled pg g) \<longleftrightarrow> L = Launched pg \<and> g \<in> {''SIGTERM'', ''SIGKILL''}"
| "step_permitted C L cx (Reaped code) \<longleftrightarrow> True"
| "step_permitted C L cx a \<longleftrightarrow> permitted C (context_hooks cx) a"

text \<open>After the launch no further process is started.\<close>

fun session_permitted :: "hook_call set \<Rightarrow> launching \<Rightarrow> step_context \<Rightarrow> act \<Rightarrow> bool" where
  "session_permitted C L cx (Spawned pid c) \<longleftrightarrow> False"
| "session_permitted C L cx (Signalled pg g) \<longleftrightarrow> L = Launched pg \<and> g \<in> {''SIGTERM'', ''SIGKILL''}"
| "session_permitted C L cx (Reaped code) \<longleftrightarrow> True"
| "session_permitted C L cx a \<longleftrightarrow> permitted C (context_hooks cx) a"

text \<open>An agent that was launched as \<open>Launched pid\<close> and asks for no more than \<open>C\<close>.\<close>

definition heeds :: "hook_call set \<Rightarrow> launching \<Rightarrow> agent_world \<Rightarrow> bool" where
  "heeds C L aw \<longleftrightarrow> calls_of aw \<subseteq> C \<and> aw_launch aw = L \<and> (\<exists>pid. L = Launched pid)"

lemma heeds_waits [adds_intros]:
  assumes "heeds C L aw"
  shows "heard aw (aw_init_wait aw) \<subseteq> C" "heard aw (cl_wait (aw_init_close aw)) \<subseteq> C" "heard aw (aw_session_wait aw) \<subseteq> C"
    "heard aw (tn_wait (aw_turn aw)) \<subseteq> C" "heard aw (tn_notify_wait (aw_turn aw)) \<subseteq> C" "heard aw (tn_grace_wait (aw_turn aw)) \<subseteq> C"
    "ending_calls aw (aw_end aw) \<subseteq> C" "ending_calls aw (aw_final aw) \<subseteq> C"
  using assms by (auto simp: heeds_def calls_of_def)

lemma permitted_session: "permitted C (context_hooks cx) a \<Longrightarrow> session_permitted C L cx a"
  by (cases a) simp_all

lemma adds_callbacks_step:
  "set calls \<subseteq> C \<Longrightarrow> adds (session_permitted C L cx) (callbacks w (context_hooks cx) calls)"
  by (rule adds_mono[OF permitted_callbacks permitted_session])

lemma adds_awaiting [adds_intros]:
  "heard aw wt \<subseteq> C \<Longrightarrow> adds (session_permitted C L cx) (awaiting w (context_hooks cx) aw wt)"
  unfolding awaiting_def heard_def
  by (intro adds_intros adds_callbacks_step) (auto intro!: adds_intros split: option.splits)

lemma adds_step_event [adds_intros]: "adds (session_permitted C L cx) (step_event w cx t session body)"
  unfolding step_event_def by (rule adds_emit) (simp add: event_def context_hooks_def)

lemma adds_step_error [adds_intros]: "adds (session_permitted C L cx) (step_error w cx session e)"
  unfolding step_error_def by (rule adds_step_event)

lemma adds_step_log [adds_intros]:
  "validate_line level detail = None \<Longrightarrow> adds (session_permitted C L cx) (step_log w cx t level detail)"
  unfolding step_log_def
  by (intro adds_andthen adds_intros adds_mlog) (simp add: log_entry_def context_hooks_def)

lemma adds_flush_step [adds_intros]: "adds (session_permitted C L cx) (flush_streams w (context_hooks cx))"
  by (rule adds_mono[OF adds_flush[OF permitted_emit] permitted_session])

lemma adds_close [adds_intros]: "heard aw (cl_wait cl) \<subseteq> C \<Longrightarrow> adds (session_permitted C L cx) (close_connection w (context_hooks cx) aw cl)"
  unfolding close_connection_def by (intro adds_intros) (auto intro!: adds_intros split: closing.splits)

lemma adds_answer [adds_intros]: "(\<And>a. adds P (f a)) \<Longrightarrow> adds P (answer_of r f)"
  by (cases r) (auto simp: answer_of_def adds_def)

lemma adds_initialize [adds_intros]: "heeds C L aw \<Longrightarrow> adds (session_permitted C L cx) (initialize w (context_hooks cx) aw)"
  unfolding initialize_def by (intro adds_intros) (auto intro!: adds_intros split: answer.splits)

lemma adds_new_session [adds_intros]: "heeds C L aw \<Longrightarrow> adds (session_permitted C L cx) (new_session w (context_hooks cx) aw)"
  unfolding new_session_def by (intro adds_intros) (auto intro!: adds_intros split: answer.splits)

lemma adds_signal [adds_intros]:
  "g \<in> {''SIGTERM'', ''SIGKILL''} \<Longrightarrow> heeds C L aw \<Longrightarrow> adds (session_permitted C L cx) (signal_group aw g how)"
  unfolding signal_group_def
  by (intro adds_intros) (auto intro!: adds_intros simp: heeds_def pgid_def split: signalling.splits)

lemma adds_while_alive [adds_intros]: "adds P m \<Longrightarrow> adds P (while_alive m)"
  unfolding while_alive_def by (intro adds_intros)

lemma adds_hang [adds_intros]: "adds P (\<lambda>s. (Hang, s))"
  by (simp add: adds_def)

lemma adds_shutdown [adds_intros]:
  assumes "heeds C L aw" and "ending_calls aw ed \<subseteq> C"
  shows "adds (session_permitted C L cx) (shutdown w (context_hooks cx) aw ed)"
  unfolding shutdown_def using assms by (intro adds_intros) (auto simp: ending_calls_def)

lemma adds_end_process [adds_intros]: "heeds C L aw \<Longrightarrow> adds (session_permitted C L cx) (end_process w (context_hooks cx) aw)"
  unfolding end_process_def by (intro adds_intros) simp

lemma adds_settled [adds_intros]: "adds P (settled r)"
  unfolding settled_def by (auto intro!: adds_intros split: option.splits sum.splits)

lemma adds_terminated [adds_intros]:
  "set (keys extra) \<subseteq> {''stop_reason''} \<Longrightarrow> adds (session_permitted C L cx) (terminated w cx session code reason extra)"
  unfolding terminated_def by (intro adds_intros log_allowed) auto

lemma adds_stop_outcome [adds_intros]: "adds (session_permitted C L cx) (stop_outcome w cx reason code h session)"
  unfolding stop_outcome_def Let_def by (intro adds_intros)

lemma adds_ladder [adds_intros]: "heeds C L aw \<Longrightarrow> adds (session_permitted C L cx) (cancel_ladder w (context_hooks cx) aw)"
  unfolding cancel_ladder_def Let_def by (intro adds_intros)

lemma adds_or_fail [adds_intros]:
  "heeds C L aw \<Longrightarrow> adds (session_permitted C L cx) m \<Longrightarrow> (\<And>x. adds (session_permitted C L cx) (k x)) \<Longrightarrow> adds (session_permitted C L cx) (or_fail w cx aw h m k)"
  unfolding or_fail_def by (intro adds_intros)

lemma adds_turn_done [adds_intros]: "heeds C L aw \<Longrightarrow> adds (session_permitted C L cx) (turn_done w cx aw h session result)"
  unfolding turn_done_def by (intro adds_intros) (simp_all add: stop_details_def)

lemma adds_interrupted [adds_intros]: "heeds C L aw \<Longrightarrow> adds (session_permitted C L cx) (turn_interrupted w cx aw h session cancelled)"
  unfolding turn_interrupted_def Let_def by (intro adds_intros log_allowed) simp_all

lemma adds_run_turn [adds_intros]: "heeds C L aw \<Longrightarrow> adds (session_permitted C L cx) (run_turn w cx aw h session)"
  unfolding run_turn_def by (intro adds_intros log_allowed) simp_all

lemma adds_run_session [adds_intros]: "heeds C L aw \<Longrightarrow> adds (session_permitted C L cx) (run_session w cx aw)"
  unfolding run_session_def by (intro adds_intros log_allowed) simp_all

lemma adds_clean_up [adds_intros]: "heeds C L aw \<Longrightarrow> adds (session_permitted C L cx) (clean_up w cx aw)"
  unfolding clean_up_def by (intro adds_intros)

lemma session_step: "session_permitted C L cx a \<Longrightarrow> step_permitted C L cx a"
  by (cases a) simp_all

lemma adds_session_step: "adds (session_permitted C L cx) m \<Longrightarrow> adds (step_permitted C L cx) m"
  by (erule adds_mono) (rule session_step)

lemma adds_launch [adds_intros]: "adds (step_permitted C (aw_launch aw) cx) (launch aw (cx_command cx))"
  unfolding launch_def by (cases "aw_launch aw") (auto intro!: adds_intros)

lemma gives_launch: "gives (\<lambda>pid. aw_launch aw = Launched pid) (launch aw c)"
  unfolding launch_def by (cases "aw_launch aw") (auto simp: gives_def followed_def andthen_def act_def modify_def ok_def raise_def)

lemma gives_attempt: "gives P m \<Longrightarrow> gives (\<lambda>r. case r of Inl e \<Rightarrow> True | Inr x \<Rightarrow> P x) (attempt_of f m)"
  unfolding gives_def attempt_of_def by (fastforce split: prod.splits res.splits option.splits)

lemma adds_execute_step: "adds (step_permitted (calls_of aw) (aw_launch aw) cx) (execute_step w cx aw)"
proof -
  have launched: "gives (\<lambda>r. case r of Inl e \<Rightarrow> True | Inr pid \<Rightarrow> aw_launch aw = Launched pid)
      (attempt_of (typed [AgentLaunchError]) (launch aw (cx_command cx)))"
    by (rule gives_attempt[OF gives_launch])
  show ?thesis
    unfolding execute_step_def
    by (intro adds_followed adds_andthen_gives[OF adds_attempt[OF adds_launch] launched])
      (auto intro!: adds_followed adds_finally adds_ok adds_modify adds_session_step[OF adds_step_event] adds_session_step[OF adds_step_error]
        adds_session_step[OF adds_step_log] adds_session_step[OF adds_run_session] adds_session_step[OF adds_clean_up] log_allowed
        simp: fresh_step_def heeds_def split: sum.split)
qed

section \<open>Guarantees\<close>

text \<open>C6: in the whole life of an agent process, whatever the agent sends, the program opens a file only
  for a request of the agent that the step's policy allows, starts only the step's command, and sends only
  SIGTERM and SIGKILL, and only to the process group of the process that it started;
  every event it records is the step's, and every line it logs passes the metadata log's checks.\<close>

theorem step_stays_in_policy:
  "\<exists>new. en_acts (snd (execute_step w cx aw s)) = en_acts s @ new \<and> list_all (step_permitted (calls_of aw) (aw_launch aw) cx) new"
  using adds_execute_step[of aw cx w] unfolding adds_def by blast

text \<open>C27: a step that returns gives an outcome whose fields fit together: an error exactly when it did
  not succeed, of the class its status allows; success only after \<open>end_turn\<close>, with a session and
  without degraded capture; a session only after a handshake in the client's protocol version; an exit
  code unless the launch failed. Its error is in the event record.\<close>

theorem step_outcome_typed:
  assumes "execute_step w cx aw s = (Ok out, t)"
  shows "outcome_typed aw out \<and> error_recorded cx out t"
  using wpD[OF wp_execute_step assms] by (simp add: step_result_ok_def)

text \<open>C40: a step that returns leaves no process behind: either it started none, or it started one, saw
  its exit, and sent it at most SIGTERM and then SIGKILL, both before. The outcome has its exit code.\<close>

theorem step_reaps_its_process:
  assumes "execute_step w cx aw s = (Ok out, t)"
  shows "so_exit_code out = None \<and> filter is_process (en_acts t) = filter is_process (en_acts s)
    \<or> (\<exists>sigs code. sigs \<in> {[], [''SIGTERM''], [''SIGTERM'', ''SIGKILL'']} \<and> so_exit_code out = Some code
         \<and> filter is_process (en_acts t) =
             filter is_process (en_acts s) @ Spawned (pgid aw) (cx_command cx) # map (Signalled (pgid aw)) sigs @ [Reaped code])"
  using wpD[OF wp_execute_step assms] by (auto simp: step_result_ok_def ended_def skeleton_def rungs_def)

text \<open>a step ends whatever the agent does with its turn, as long as events can be appended, the agent
  answers the handshake and the session request, and SIGKILL ends it: it returns an outcome, or it raises
  the one exception that came from outside the protocol. In both cases no process is left.\<close>

theorem dutiful_step_ends:
  assumes "dutiful w aw"
  shows "((\<exists>out. fst (execute_step w cx aw s) = Ok out)
      \<or> (\<exists>m. fst (execute_step w cx aw s) = Raise (Python m) \<and> (m \<in> escapes aw \<or> aw_launch aw = LaunchError m)))
    \<and> (filter is_process (en_acts (snd (execute_step w cx aw s))) = filter is_process (en_acts s)
      \<or> (\<exists>sigs code. filter is_process (en_acts (snd (execute_step w cx aw s))) =
           filter is_process (en_acts s) @ Spawned (pgid aw) (cx_command cx) # map (Signalled (pgid aw)) sigs @ [Reaped code]))"
proof -
  obtain r t where rt: "execute_step w cx aw s = (r, t)" by (cases "execute_step w cx aw s")
  show ?thesis
  proof (cases r)
    case (Ok out)
    have "step_result_ok aw cx (skeleton s) out t" using wp_execute_step[of w cx aw s] rt Ok by (simp add: wp_def)
    then show ?thesis using rt Ok by (auto simp: step_result_ok_def ended_def skeleton_def)
  next
    case (Raise x)
    have "step_exception w aw (skeleton s) (cx_command cx) (Some x) t"
      using wp_execute_step[of w cx aw s] rt Raise by (simp add: wp_def)
    then show ?thesis using rt Raise assms by (auto simp: step_exception_def step_raised_def ended_def skeleton_def)
  next
    case Hang
    have "step_exception w aw (skeleton s) (cx_command cx) None t"
      using wp_execute_step[of w cx aw s] rt Hang by (simp add: wp_def)
    then show ?thesis using assms by (auto simp: step_exception_def step_raised_def)
  qed
qed

section \<open>Concrete steps\<close>

definition quiet :: waiting where "quiet = \<lparr>wt_incoming = [], wt_exit = None\<rparr>"

definition demo_ending :: ending where
  "demo_ending = \<lparr>ed_grace = quiet, ed_term = Delivered, ed_term_wait = quiet, ed_kill = Delivered,
     ed_kill_wait = quiet\<lparr>wt_exit := Some (- 9)\<rparr>, ed_close = \<lparr>cl_wait = quiet, cl_how = ClosedWell\<rparr>\<rparr>"

text \<open>An agent that completes its turn and then ignores SIGTERM.\<close>

definition demo_agent :: agent_world where
  "demo_agent = \<lparr>aw_version = 1, aw_dump = (\<lambda>u. []), aw_launch = Launched 42, aw_init_wait = quiet,
     aw_init = Some (Answer \<lparr>ir_protocol_version = 1, ir_agent_info = None, ir_capabilities = None, ir_auth_methods = None\<rparr>),
     aw_init_close = \<lparr>cl_wait = quiet, cl_how = ClosedWell\<rparr>, aw_session_wait = quiet, aw_session = Some (Answer ''s''),
     aw_turn = \<lparr>tn_wait = quiet, tn_prompt = Some (Answer ''end_turn''), tn_cancelled = False, tn_notify_wait = quiet,
       tn_grace_wait = quiet, tn_grace = None, tn_late = None\<rparr>,
     aw_end = demo_ending, aw_final = demo_ending\<rparr>"

definition demo_context :: step_context where
  "demo_context = \<lparr>cx_step = ''main'', cx_command = ''a'', cx_args = [], cx_cwd = ''/w'', cx_prompt = ''hi'',
     cx_timeout = 60, cx_grace = 5, cx_label = ''demo'', cx_policy = None, cx_cancellable = True, cx_attempt = 1,
     cx_override = False\<rparr>"

lemma demo_dutiful: "dutiful demo_setting demo_agent"
  by (simp add: dutiful_def demo_agent_def demo_ending_def orderly_def demo_setting_def demo_never_raises)

lemma demo_escapes: "escapes demo_agent = {}" "aw_launch demo_agent \<noteq> LaunchError m"
  by (simp_all add: escapes_def demo_agent_def)

lemma demo_step_returns: "\<exists>out t. execute_step demo_setting demo_context demo_agent demo_engine = (Ok out, t)"
proof -
  obtain r t where rt: "execute_step demo_setting demo_context demo_agent demo_engine = (r, t)"
    by (cases "execute_step demo_setting demo_context demo_agent demo_engine")
  have "step_exception demo_setting demo_agent (skeleton demo_engine) (cx_command demo_context) e t \<Longrightarrow> False" for e
    using demo_dutiful demo_escapes by (auto simp: step_exception_def step_raised_def)
  then have "\<exists>out. r = Ok out"
    using wp_execute_step[of demo_setting demo_context demo_agent demo_engine] by (cases r) (auto simp: wp_def rt)
  with rt show ?thesis by blast
qed

theorem step_outcome_typed_witness:
  "\<exists>out t. execute_step demo_setting demo_context demo_agent demo_engine = (Ok out, t) \<and> outcome_typed demo_agent out"
proof -
  obtain out t where r: "execute_step demo_setting demo_context demo_agent demo_engine = (Ok out, t)"
    using demo_step_returns by blast
  then show ?thesis using step_outcome_typed[OF r] by blast
qed

definition unlogged_setting :: setting where "unlogged_setting = demo_setting\<lparr>se_logger := NoLogger\<rparr>"

lemma demo_step_run:
  "case execute_step unlogged_setting demo_context demo_agent (engine_of demo_recorder) of
     (Ok out, t) \<Rightarrow> so_exit_code out = Some (- 9)
   | _ \<Rightarrow> False"
  by code_simp

theorem step_reaps_witness:
  "\<exists>out t sigs. execute_step unlogged_setting demo_context demo_agent (engine_of demo_recorder) = (Ok out, t)
     \<and> filter is_process (en_acts t) = Spawned 42 ''a'' # map (Signalled 42) sigs @ [Reaped (- 9)]"
proof -
  obtain out t where r: "execute_step unlogged_setting demo_context demo_agent (engine_of demo_recorder) = (Ok out, t)"
    and c: "so_exit_code out = Some (- 9)"
    using demo_step_run by (auto split: prod.splits res.splits)
  have "filter is_process (en_acts (engine_of demo_recorder)) = []" "cx_command demo_context = ''a''" "pgid demo_agent = 42"
    by (simp_all add: engine_of_def demo_context_def pgid_def demo_agent_def)
  with step_reaps_its_process[OF r] c r show ?thesis by auto
qed

theorem dutiful_step_witness: "\<exists>out. fst (execute_step demo_setting demo_context demo_agent demo_engine) = Ok out"
  using dutiful_step_ends[OF demo_dutiful, of demo_context demo_engine] demo_escapes by blast

section \<open>A process that outlives its step\<close>

text \<open>The second append fails with an error that is not a PersistenceError.\<close>

definition full_disk :: setting where
  "full_disk = demo_setting\<lparr>se_recording := demo_world\<lparr>appending := (\<lambda>n. if n = 1 then WriteRaised ''OSError'' else Written)\<rparr>,
     se_logger := NoLogger\<rparr>"

text \<open>the event that records the launch is emitted before the guarded part of the step begins. When it
  cannot be appended, the step raises and the process it has started is neither signalled nor reaped.\<close>

theorem unrecorded_launch_leaks_process:
  "fst (execute_step full_disk demo_context demo_agent (engine_of demo_recorder)) = Raise (Python ''OSError'')
   \<and> filter is_process (en_acts (snd (execute_step full_disk demo_context demo_agent (engine_of demo_recorder)))) = [Spawned 42 ''a'']"
  by code_simp

end
