(* ===== verification/Run_Common.thy ===== *)
theory Run_Common
  imports Step_Runner
begin

text \<open>
  What the two run drivers (\<open>engine/runner.py\<close>, \<open>workflows/runner.py\<close>) share: opening the run in
  the store, the workspace lease around the steps, settling a step's result, and finishing and saving
  the run's result. The store, the lease and the clock are outside: what each of their calls gives is
  an argument. The lease's own protocol is \<open>Lease\<close>.
\<close>

section \<open>The outside of a run\<close>

datatype booting =
    Booted string                     \<comment> \<open>the run directory\<close>
  | BootRefused zerror                \<comment> \<open>a PersistenceError\<close>
  | BootRaised string                 \<comment> \<open>any other exception\<close>

datatype leasing =
    LeaseGranted string string        \<comment> \<open>workspace and path of the lease\<close>
  | LeaseDenied zerror                \<comment> \<open>a WorkspaceBusyError or PersistenceError\<close>
  | LeaseBroken string string         \<comment> \<open>an OSError: its text and class\<close>

datatype saving = Saved | SaveRefused zerror | SaveRaised string

record run_world =
  rn_id :: string
  rn_started :: string
  rn_ended :: string
  rn_duration :: int
  rn_store :: booting
  rn_lease :: leasing
  rn_fsync :: "zerror option"
  rn_save :: saving                   \<comment> \<open>of the manifest\<close>
  rn_index :: saving                  \<comment> \<open>of the index row\<close>
  rn_compile :: "string \<Rightarrow> re option"
  rn_attempt :: "string \<Rightarrow> string \<times> int \<times> string"     \<comment> \<open>start, duration and end of a step's attempt\<close>
  rn_agent :: "string \<Rightarrow> agent_world"

section \<open>Records of a run\<close>

definition run_event :: "setting \<Rightarrow> string \<Rightarrow> payload \<Rightarrow> unit eng" where
  "run_event w t body = emit_event w (event t None None None body)"

definition run_error :: "setting \<Rightarrow> zerror \<Rightarrow> unit eng" where
  "run_error w e = run_event w ''error'' (error_payload e)"

definition run_log :: "setting \<Rightarrow> run_world \<Rightarrow> string option \<Rightarrow> string \<Rightarrow> string \<Rightarrow> payload \<Rightarrow> unit eng" where
  "run_log w rn agent level t detail = mlog w (log_entry t (Some (rn_id rn)) None agent level detail)"

text \<open>\<open>step_finished\<close> in both records.\<close>

definition step_finished :: "setting \<Rightarrow> run_world \<Rightarrow> string \<Rightarrow> string \<Rightarrow> string option \<Rightarrow> string \<Rightarrow> step_status \<Rightarrow> int \<Rightarrow> unit eng" where
  "step_finished w rn step agent session level st took =
     (let body = [(''status'', PStr (step_status_value st)), (''duration_ms'', PInt took)] in
      followed (emit_event w (event ''step_finished'' (Some step) (Some 1) session body))
        (mlog w (log_entry ''step_finished'' (Some (rn_id rn)) (Some step) (Some agent) level body)))"

section \<open>Opening\<close>

text \<open>The directory of a saved run; a refused store degrades to recording in memory.\<close>

definition open_store :: "run_world \<Rightarrow> bool \<Rightarrow> (string option \<times> typed_error list) eng" where
  "open_store rn no_save =
     (if no_save then ok (None, [])
      else case rn_store rn of
        Booted d \<Rightarrow> ok (Some d, [])
      | BootRefused e \<Rightarrow> ok (None, [to_model e])
      | BootRaised m \<Rightarrow> raise (Python m))"

definition init_text :: "init_failure \<Rightarrow> string" where
  "init_text x = (case x of WidthValueError m \<Rightarrow> ''ValueError: '' @ m | RegexError m \<Rightarrow> ''error: '' @ m)"

definition start_recorder ::
  "run_world \<Rightarrow> (string \<times> string) list \<Rightarrow> custom_pattern list \<Rightarrow> string option \<Rightarrow> capture_profile \<Rightarrow> event_limits \<Rightarrow> bool \<Rightarrow> unit eng" where
  "start_recorder rn secrets patterns dir profile limits has_cb =
     (case new_redactor (rn_compile rn) secrets patterns of
        Inl x \<Rightarrow> raise (Python (init_text x))
      | Inr rx \<Rightarrow>
          (case new_recorder (rn_id rn) (map_option (\<lambda>d. d @ ''/events.jsonl'') dir) rx (profile_value profile) limits has_cb of
             None \<Rightarrow> raise (Python ''ValueError'')
           | Some rc \<Rightarrow> modify (\<lambda>s. s\<lparr>en_rc := rc\<rparr>)))"

definition provenance_payload :: "policy_provenance \<Rightarrow> payload" where
  "provenance_payload pp = [(''policy_name'', PStr (pp_policy_name pp)),
     (''ceiling_source'', PStr (pp_ceiling_source pp)), (''rule_count'', PInt (int (length (pp_rules pp)))),
     (''enforcement'', PStr (pp_enforcement pp))]"

section \<open>The lease\<close>

definition lease_directory_error :: "string \<Rightarrow> string \<Rightarrow> zerror" where
  "lease_directory_error m cls = \<lparr>err_class = PersistenceError, message = ''cannot prepare lease directory: '' @ m,
     details = [(''error'', PStr cls)]\<rparr>"

text \<open>The lease is taken before any step; \<open>Some\<close> is the error that blocks the run.\<close>

definition take_lease :: "setting \<Rightarrow> run_world \<Rightarrow> string option \<Rightarrow> typed_error option eng" where
  "take_lease w rn agent =
     (case rn_lease rn of
        LeaseDenied e \<Rightarrow> followed (run_error w e)
          (followed (run_log w rn agent ''warning'' ''lease_unavailable'' [(''reason_code'', PStr (error_code (err_class e)))])
            (ok (Some (to_model e))))
      | LeaseBroken m cls \<Rightarrow> (let e = lease_directory_error m cls in
          followed (run_error w e) (ok (Some (to_model e))))
      | LeaseGranted workspace path \<Rightarrow> followed (act LeaseTaken)
          (followed (run_event w ''lease_acquired'' [(''workspace'', PStr workspace), (''lease_path'', PStr path)])
          (followed (run_log w rn agent ''info'' ''lease_acquired'' [])
            (ok None))))"

definition free_lease :: "setting \<Rightarrow> run_world \<Rightarrow> string option \<Rightarrow> unit eng" where
  "free_lease w rn agent =
     (case rn_lease rn of
        LeaseGranted workspace path \<Rightarrow> followed (act LeaseFreed)
          (followed (run_event w ''lease_released'' [(''workspace'', PStr workspace)])
            (run_log w rn agent ''info'' ''lease_released'' []))
      | _ \<Rightarrow> ok ())"

text \<open>\<open>try: ... finally: lease.release()\<close> around the steps, which run unless the lease is refused.\<close>

definition under_lease ::
  "setting \<Rightarrow> run_world \<Rightarrow> string option \<Rightarrow> 'a eng \<Rightarrow> (typed_error + 'a) eng" where
  "under_lease w rn agent steps = finally_do
     (andthen (take_lease w rn agent) (\<lambda>refused. case refused of
        Some e \<Rightarrow> ok (Inl e)
      | None \<Rightarrow> andthen steps (\<lambda>x. ok (Inr x))))
     (free_lease w rn agent)"

section \<open>Settling a step\<close>

definition attempt_of_outcome :: "step_outcome \<Rightarrow> string \<times> int \<times> string \<Rightarrow> attempt" where
  "attempt_of_outcome out tm = (case tm of (start_ts, took, end_ts) \<Rightarrow>
     \<lparr>at_no = 1, at_status = so_status out, at_started_at = start_ts, at_ended_at = Some end_ts,
      at_duration_ms = Some took, at_stop_reason = so_stop_reason out, at_exit_code = so_exit_code out,
      at_errors = (case so_error out of None \<Rightarrow> [] | Some e \<Rightarrow> [to_model e])\<rparr>)"

definition agent_info_of :: "string \<Rightarrow> string option \<Rightarrow> handshake \<Rightarrow> agent_info" where
  "agent_info_of name provider h =
     \<lparr>ai_name = name, ai_provider = provider, ai_protocol_version = Some (hs_protocol_version h),
      ai_agent_name = Some (hs_agent_name h), ai_agent_title = hs_agent_title h, ai_agent_version = hs_agent_version h,
      ai_capabilities = hs_capabilities h, ai_auth_methods = map PDict (hs_auth_methods h),
      ai_direct_tools_assumed = True, ai_mediation = ''advisory''\<rparr>"

text \<open>\<open>redactor.redact_text\<close> on the run's redactor, which the recorder shares.\<close>

definition redacting :: "string \<Rightarrow> string eng" where
  "redacting t s = (case redact_text (rc_redactor (en_rc s)) t of (rx, out, n) \<Rightarrow>
     (Ok out, s\<lparr>en_rc := (en_rc s)\<lparr>rc_redactor := rx\<rparr>\<rparr>))"

text \<open>\<open>settle_step_result\<close>\<close>

definition settle_step_result ::
  "step_result \<Rightarrow> step_outcome \<Rightarrow> string \<times> int \<times> string \<Rightarrow> string \<Rightarrow> string option \<Rightarrow> step_result eng" where
  "settle_step_result step out tm agent provider =
     andthen (reads (\<lambda>s. text_output (en_rc s) (Some (sr_step_id step)))) (\<lambda>assembled.
     andthen (redacting assembled) (\<lambda>shown.
     reads (\<lambda>s. let k = Some (sr_step_id step) in step\<lparr>
       sr_agent_info := (case so_handshake out of None \<Rightarrow> sr_agent_info step
         | Some h \<Rightarrow> Some (agent_info_of agent provider h)),
       sr_status := so_status out, sr_attempts := [attempt_of_outcome out tm],
       sr_outputs := [(''text'', PStr shown)], sr_tool_calls := tool_calls (en_rc s) k,
       sr_file_changes := file_changes (en_rc s) k, sr_permission_decisions := permission_decisions (en_rc s) k,
       sr_errors := (case so_error out of None \<Rightarrow> sr_errors step | Some e \<Rightarrow> [to_model e])\<rparr>)))"

section \<open>Finishing\<close>

definition degrade_capture ::
  "(string \<times> capture_summary_entry) list \<Rightarrow> (string \<times> capture_summary_entry) list" where
  "degrade_capture entries = map (\<lambda>(k, e). (k, if severity (cse_status e) < severity Partial
     then e\<lparr>cse_status := Partial\<rparr> else e)) entries"

text \<open>\<open>run_finished\<close>, the flush of the events, and what the result takes from the recorder.\<close>

definition close_record :: "setting \<Rightarrow> run_world \<Rightarrow> bool \<Rightarrow> run_result \<Rightarrow> run_result eng" where
  "close_record w rn degraded rr =
     followed (run_event w ''run_finished'' [(''status'', PStr (run_status_value (rr_status rr)))])
    (followed (modify (\<lambda>s. s\<lparr>en_rc := finalize (rn_fsync rn) (en_rc s)\<rparr>))
    (reads (\<lambda>s. let rc = en_rc s; cs = capture_summary rc in rr\<lparr>
       rr_capture := (if degraded then degrade_capture cs else cs), rr_redaction := summary (rc_redactor rc),
       rr_usage := usage_summary_of (se_recording w) rc, rr_ended_at := Some (rn_ended rn),
       rr_duration_ms := Some (rn_duration rn)\<rparr>)))"

text \<open>\<open>persist_result\<close>: the manifest, then the index row only once the manifest is durable.\<close>

definition persist_result :: "run_world \<Rightarrow> string \<Rightarrow> run_result \<Rightarrow> run_result eng" where
  "persist_result rn dir rr =
     (let there = rr\<lparr>rr_persisted := True, rr_result_path := Some (dir @ ''/result.json''),
        rr_events_path := Some (dir @ ''/events.jsonl'')\<rparr>
      in case rn_save rn of
        SaveRaised m \<Rightarrow> raise (Python m)
      | SaveRefused e \<Rightarrow> ok (there\<lparr>rr_persisted := False, rr_result_path := None, rr_errors := rr_errors there @ [to_model e]\<rparr>)
      | Saved \<Rightarrow> followed (act SavedResult)
          (case rn_index rn of
             SaveRaised m \<Rightarrow> raise (Python m)
           | SaveRefused e \<Rightarrow> ok (there\<lparr>rr_errors := rr_errors there @ [to_model e]\<rparr>)
           | Saved \<Rightarrow> followed (act Indexed) (ok there)))"

text \<open>The recorder's errors, the save and its log line. Releasing the writer never raises.\<close>

definition save_result :: "setting \<Rightarrow> run_world \<Rightarrow> string option \<Rightarrow> string option \<Rightarrow> run_result \<Rightarrow> run_result eng" where
  "save_result w rn agent dir rr =
     andthen (reads (\<lambda>s. rr\<lparr>rr_errors := rr_errors rr @ map to_model (rc_persistence_errors (en_rc s))\<rparr>)) (\<lambda>rr1.
       case dir of
         None \<Rightarrow> ok rr1
       | Some d \<Rightarrow> andthen (persist_result rn d rr1) (\<lambda>rr2.
           followed (if rr_persisted rr2
             then run_log w rn agent ''info'' ''run_persisted'' [(''path_ref'', opt_str (rr_result_path rr2))]
             else run_log w rn agent ''warning'' ''run_persist_failed'' [(''reason_code'', PStr ''PersistenceError'')])
           (ok rr2)))"

end
