(* ===== verification/Direct_Run.thy ===== *)
theory Direct_Run
  imports Run_Common
begin

text \<open>
  \<open>execute_run\<close> of \<open>engine/runner.py\<close>: one agent as the step \<open>main\<close> of a run, from the opening
  of the store to the saved result.
\<close>

definition MAIN_STEP_ID :: string where "MAIN_STEP_ID = ''main''"

definition SECRET_ENV_MARKERS :: "string list" where
  "SECRET_ENV_MARKERS = [''API_KEY'', ''APIKEY'', ''TOKEN'', ''SECRET'', ''PASSWORD'', ''CREDENTIAL'']"

record run_spec =
  ru_agent :: string
  ru_command :: string
  ru_args :: "string list"
  ru_env :: "(string \<times> string) list"
  ru_cwd :: string
  ru_prompt :: string
  ru_profile :: capture_profile
  ru_no_save :: bool
  ru_timeout :: int
  ru_grace :: int
  ru_provider :: "string option"
  ru_limits :: event_limits
  ru_secret_values :: "(string \<times> string) list option"
  ru_patterns :: "custom_pattern list"
  ru_policy :: "policy option"
  ru_provenance :: "policy_provenance option"
  ru_fingerprint :: "string option"
  ru_acknowledged_by :: "string option"
  ru_has_render :: bool                        \<comment> \<open>the arguments of \<open>execute_run\<close> from here on\<close>
  ru_cancellable :: bool
  ru_override :: bool

text \<open>\<open>str.upper\<close> on the characters a variable name is made of in practice.\<close>

definition to_upper :: "char \<Rightarrow> char" where
  "to_upper c = (if is_lower c then char_of ((of_char c :: nat) - 32) else c)"

text \<open>\<open>_secret_env_values\<close>\<close>

definition secret_env_values :: "(string \<times> string) list \<Rightarrow> (string \<times> string) list" where
  "secret_env_values env = map (\<lambda>(n, v). (''env:'' @ n, v))
     (filter (\<lambda>(n, v). v \<noteq> [] \<and> list_ex (\<lambda>m. contains m (map to_upper n)) SECRET_ENV_MARKERS) env)"

definition spec_secrets :: "run_spec \<Rightarrow> (string \<times> string) list" where
  "spec_secrets ru = (case ru_secret_values ru of Some vs \<Rightarrow> vs | None \<Rightarrow> secret_env_values (ru_env ru))"

definition default_provenance :: policy_provenance where
  "default_provenance = \<lparr>pp_policy_name = DEFAULT_DENY_POLICY_NAME, pp_ceiling_source = ''default'',
     pp_rules = [[(''rule_id'', PStr DEFAULT_DENY_RULE_ID), (''action'', PStr ''deny''), (''surface'', PStr ''all'')]],
     pp_tightened_by = [], pp_enforcement = ''advisory'', pp_enforcement_scope_default = AcpMediated\<rparr>"

definition spec_provenance :: "run_spec \<Rightarrow> policy_provenance" where
  "spec_provenance ru = (case ru_policy ru of
     None \<Rightarrow> default_provenance
   | Some po \<Rightarrow> (case ru_provenance ru of Some pp \<Rightarrow> pp | None \<Rightarrow> build_policy_provenance po None))"

definition blank_step :: "string \<Rightarrow> string \<Rightarrow> step_status \<Rightarrow> (string \<times> string) list \<Rightarrow> step_result" where
  "blank_step step agent st sources = \<lparr>sr_step_id = step, sr_agent = Some agent, sr_agent_info = None, sr_status = st,
     sr_inputs_resolved = [], sr_input_sources = sources, sr_attempts = [], sr_outputs = [], sr_tool_calls = [],
     sr_file_changes = [], sr_permission_decisions = [], sr_errors = []\<rparr>"

definition blank_result :: "run_world \<Rightarrow> run_spec \<Rightarrow> run_result" where
  "blank_result rn ru = \<lparr>rr_run_id = rn_id rn, rr_kind = KAgent, rr_target = ru_agent ru, rr_status = RunFailed,
     rr_started_at = rn_started rn, rr_ended_at = None, rr_duration_ms = None, rr_workspace = ru_cwd ru,
     rr_capture_profile = ru_profile ru, rr_persisted = False, rr_config_fingerprint = ru_fingerprint ru,
     rr_policy = Some (spec_provenance ru), rr_steps = [(MAIN_STEP_ID, blank_step MAIN_STEP_ID (ru_agent ru) Failed [])],
     rr_plan = None, rr_plan_validation = None, rr_errors = [], rr_capture = [],
     rr_redaction = \<lparr>rs_total = 0, rs_by_kind = [], rs_warnings = []\<rparr>, rr_egress = [], rr_usage = None,
     rr_result_path = None, rr_events_path = None\<rparr>"

text \<open>The step statuses that \<open>execute_step\<close> gives.\<close>

fun run_status_of_step :: "step_status \<Rightarrow> run_status option" where
  "run_status_of_step Success = Some RunSuccess"
| "run_status_of_step Failed = Some RunFailed"
| "run_status_of_step Cancelled = Some RunCancelled"
| "run_status_of_step _ = None"

definition main_context :: "run_spec \<Rightarrow> step_context" where
  "main_context ru = \<lparr>cx_step = MAIN_STEP_ID, cx_command = ru_command ru, cx_args = ru_args ru, cx_cwd = ru_cwd ru,
     cx_prompt = ru_prompt ru, cx_timeout = ru_timeout ru, cx_grace = ru_grace ru, cx_label = ru_agent ru,
     cx_policy = ru_policy ru, cx_cancellable = ru_cancellable ru, cx_attempt = 1, cx_override = ru_override ru\<rparr>"

text \<open>The run's first events.\<close>

definition announce :: "setting \<Rightarrow> run_world \<Rightarrow> run_spec \<Rightarrow> unit eng" where
  "announce w rn ru =
     followed (run_event w ''run_started'' [(''kind'', PStr ''agent''), (''target'', PStr (ru_agent ru)),
       (''workspace'', PStr (ru_cwd ru)), (''capture_profile'', PStr (profile_value (ru_profile ru)))])
    (followed (run_log w rn (Some (ru_agent ru)) ''info'' ''run_started''
       [(''kind'', PStr ''agent''), (''target'', PStr (ru_agent ru))])
    (followed (case ru_fingerprint ru of None \<Rightarrow> ok ()
       | Some f \<Rightarrow> run_event w ''config_resolved'' [(''fingerprint'', PStr f)])
    (run_event w ''policy_resolved'' (case ru_policy ru of
       Some po \<Rightarrow> provenance_payload (spec_provenance ru)
     | None \<Rightarrow> [(''policy_name'', PStr DEFAULT_DENY_POLICY_NAME), (''rule_id'', PStr DEFAULT_DENY_RULE_ID),
         (''enforcement'', PStr ''advisory'')]))))"

text \<open>The step between its \<open>step_started\<close> and its \<open>step_finished\<close>: the outcome, the step's result
  and the run's status.\<close>

definition main_step :: "setting \<Rightarrow> run_world \<Rightarrow> run_spec \<Rightarrow> (step_outcome \<times> step_result \<times> run_status) eng" where
  "main_step w rn ru =
     followed (emit_event w (event ''step_started'' (Some MAIN_STEP_ID) (Some 1) None [(''agent'', PStr (ru_agent ru))]))
    (andthen (execute_step w (main_context ru) (rn_agent rn MAIN_STEP_ID)) (\<lambda>out.
     andthen (settle_step_result (blank_step MAIN_STEP_ID (ru_agent ru) Failed []) out (rn_attempt rn MAIN_STEP_ID)
       (ru_agent ru) (ru_provider ru)) (\<lambda>step.
     andthen (redacting (ru_prompt ru)) (\<lambda>shown.
     let step1 = step\<lparr>sr_inputs_resolved := [(''prompt'', PStr shown)],
       sr_input_sources := [(''prompt'', ''direct:prompt'')]\<rparr>
     in case run_status_of_step (so_status out) of
          None \<Rightarrow> raise (Python ''KeyError'')
        | Some st \<Rightarrow> followed (step_finished w rn MAIN_STEP_ID (ru_agent ru) (so_session_id out) ''info'' (so_status out)
              (fst (snd (rn_attempt rn MAIN_STEP_ID))))
            (ok (out, step1, st))))))"

text \<open>The lease guards the step only when there is a store: an unsaved run takes none.\<close>

definition guarded_step ::
  "setting \<Rightarrow> run_world \<Rightarrow> run_spec \<Rightarrow> string option \<Rightarrow> (typed_error + step_outcome \<times> step_result \<times> run_status) eng" where
  "guarded_step w rn ru dir =
     (if dir = None then andthen (main_step w rn ru) (\<lambda>x. ok (Inr x))
      else under_lease w rn (Some (ru_agent ru)) (main_step w rn ru))"

text \<open>The result's fields that the step decides.\<close>

definition with_step ::
  "run_spec \<Rightarrow> typed_error + step_outcome \<times> step_result \<times> run_status \<Rightarrow> run_result \<Rightarrow> run_result" where
  "with_step ru x rr = (case x of
     Inl e \<Rightarrow> rr\<lparr>rr_errors := rr_errors rr @ [e]\<rparr>
   | Inr (out, step, st) \<Rightarrow> rr\<lparr>rr_steps := [(MAIN_STEP_ID, step)], rr_status := st\<rparr>)"

definition with_usage ::
  "run_spec \<Rightarrow> typed_error + step_outcome \<times> step_result \<times> run_status \<Rightarrow> run_result \<Rightarrow> run_result" where
  "with_usage ru x rr = rr\<lparr>
     rr_usage := map_option (\<lambda>u. if us_provider u = None then u\<lparr>us_provider := ru_provider ru\<rparr> else u) (rr_usage rr),
     rr_egress := (case (x, ru_provider ru) of
       (Inr y, Some (c # cs)) \<Rightarrow> [\<lparr>er_step_id = MAIN_STEP_ID, er_provider = c # cs, er_input_sources = [],
          er_acknowledged_by = ru_acknowledged_by ru\<rparr>]
     | _ \<Rightarrow> [])\<rparr>"

definition was_degraded :: "typed_error + step_outcome \<times> step_result \<times> run_status \<Rightarrow> bool" where
  "was_degraded x = (case x of Inl e \<Rightarrow> False | Inr (out, step, st) \<Rightarrow> so_degraded out)"

text \<open>\<open>execute_run\<close>\<close>

definition execute_run :: "setting \<Rightarrow> run_world \<Rightarrow> run_spec \<Rightarrow> run_result eng" where
  "execute_run w rn ru =
     andthen (open_store rn (ru_no_save ru)) (\<lambda>(dir, errs).
     followed (start_recorder rn (spec_secrets ru) (ru_patterns ru) dir (ru_profile ru) (ru_limits ru) (ru_has_render ru))
    (followed (announce w rn ru)
    (andthen (guarded_step w rn ru dir) (\<lambda>x.
     andthen (close_record w rn (was_degraded x) (with_step ru x ((blank_result rn ru)\<lparr>rr_errors := errs\<rparr>))) (\<lambda>rr.
     followed (run_log w rn (Some (ru_agent ru)) ''info'' ''run_finished''
       [(''status'', PStr (run_status_value (rr_status rr))), (''duration_ms'', PInt (rn_duration rn))])
    (save_result w rn (Some (ru_agent ru)) dir (with_usage ru x rr)))))))"

end
