(* ===== verification/Workflow_Run.thy ===== *)
theory Workflow_Run
  imports Direct_Run Scheduler Egress
begin

text \<open>
  \<open>workflows/runner.py\<close>: the steps of a prepared workflow, one at a time in the scheduler's order, in
  one run. The steps' results are an association list that the loop updates, as the code does with
  \<open>result.steps\<close>; an exception that leaves the loop loses it. Readings of the clock, the cancel event
  and the file system are arguments.
\<close>

section \<open>What is prepared\<close>

text \<open>The environment of a child is \<open>Child_Env\<close>; it reaches the launch only.\<close>

record prepared_step =
  ps_config :: agent_config
  ps_provider :: string
  ps_env :: "(string \<times> string) list"
  ps_policy :: policy
  ps_timeout :: int

record prepared_workflow =
  pw_workflow :: workflow_def
  pw_variables :: "(string \<times> pyval) list"
  pw_workspace :: string
  pw_order :: "string list"
  pw_steps :: "(string \<times> prepared_step) list"
  pw_provider_set :: "string set"
  pw_acknowledged_by :: "string option"
  pw_records :: "egress_record list"
  pw_limits :: event_limits
  pw_profile :: capture_profile
  pw_no_save :: bool
  pw_fingerprint :: "string option"
  pw_provenance :: "policy_provenance option"
  pw_secrets :: "(string \<times> string) list"
  pw_patterns :: "custom_pattern list"
  pw_timeout :: "int option"
  pw_default_timeout :: int            \<comment> \<open>three settings of the resolved engine configuration\<close>
  pw_grace :: int
  pw_max_prompt :: int
  pw_has_render :: bool                \<comment> \<open>the arguments of \<open>execute_workflow\<close> from here on\<close>
  pw_cancellable :: bool
  pw_override :: bool

text \<open>For each step: whether the cancel event is set before it, and the clock at the deadline check before
  it, when its timeout is clamped and when it has failed.\<close>

record flow_world =
  fw_realpath :: fs
  fw_started :: int
  fw_cancel :: "string \<Rightarrow> bool"
  fw_before :: "string \<Rightarrow> int"
  fw_clamp :: "string \<Rightarrow> int"
  fw_after :: "string \<Rightarrow> int"

text \<open>What the loop has changed so far.\<close>

record flow =
  fl_steps :: "(string \<times> step_result) list"
  fl_errors :: "typed_error list"
  fl_cancelled :: bool
  fl_degraded :: bool

section \<open>Aggregation\<close>

definition aggregate_status :: "step_status list \<Rightarrow> bool \<Rightarrow> run_status" where
  "aggregate_status sts cancelled =
     (if cancelled \<or> list_ex (\<lambda>st. st = Cancelled) sts then RunCancelled
      else if sts \<noteq> [] \<and> list_all (\<lambda>st. st = Success) sts then RunSuccess
      else if list_ex (\<lambda>st. st = Success) sts then RunPartial
      else RunFailed)"

section \<open>Before a launch\<close>

text \<open>An exception of a pure part.\<close>

definition lift :: "exn + 'a \<Rightarrow> 'a eng" where
  "lift r = (case r of Inl x \<Rightarrow> raise x | Inr y \<Rightarrow> ok y)"

definition step_dir_error :: "string \<Rightarrow> string \<Rightarrow> path_ambiguity \<Rightarrow> zerror" where
  "step_dir_error step d e = \<lparr>err_class = ValidationError,
     message = ''steps.'' @ step @ ''.working_dir: '' @ py_repr d @ '' does not resolve canonically inside the workspace: ''
       @ pa_message e,
     details = [(''step_id'', PStr step), (''reason'', PStr (reason_text (pa_reason e)))]\<rparr>"

text \<open>\<open>_resolve_step_dir\<close>\<close>

definition resolve_step_dir :: "fs \<Rightarrow> string \<Rightarrow> string \<Rightarrow> string option \<Rightarrow> exn + pth" where
  "resolve_step_dir realpath workspace step working_dir = (case working_dir of
     None \<Rightarrow> (case realpath workspace of Inl m \<Rightarrow> Inl (Python m) | Inr r \<Rightarrow> Inr (path_of r))
   | Some d \<Rightarrow> (case resolve_contained realpath workspace (py_repr d) d of
       Inl e \<Rightarrow> Inl (Zig (step_dir_error step d e)) | Inr p \<Rightarrow> Inr p))"

text \<open>The text a step has put out. The loop stores only strings there.\<close>

definition output_text :: "step_result \<Rightarrow> string" where
  "output_text r = (case map_of (sr_outputs r) ''text'' of Some (PStr t) \<Rightarrow> t | _ \<Rightarrow> [])"

text \<open>\<open>_upstream_inputs\<close>\<close>

definition upstream_inputs :: "step_def \<Rightarrow> (string \<times> step_result) list \<Rightarrow> (string \<times> string) list" where
  "upstream_inputs step results = concat (map (\<lambda>(local_name, source).
     case input_source_step source of
       None \<Rightarrow> []
     | Some src \<Rightarrow> [(local_name, case map_of results src of Some r \<Rightarrow> output_text r | None \<Rightarrow> [])]) (s_inputs step))"

definition prompt_too_long :: "string \<Rightarrow> int \<Rightarrow> int \<Rightarrow> zerror" where
  "prompt_too_long step n limit = \<lparr>err_class = ResourceLimitError,
     message = ''steps.'' @ step @ '': composed prompt is '' @ str_of_int n @ '' bytes; engine.max_prompt_bytes is ''
       @ str_of_int limit,
     details = [(''step_id'', PStr step), (''prompt_bytes'', PInt n), (''max_prompt_bytes'', PInt limit)]\<rparr>"

definition size_checked :: "string \<Rightarrow> int \<Rightarrow> string \<Rightarrow> exn + string" where
  "size_checked step limit prompt = (let n = int (utf8_len prompt) in
     if limit < n then Inl (Zig (prompt_too_long step n limit)) else Inr prompt)"

text \<open>The \<open>try\<close> of the loop: working directory, upstream values and prompt of a step.\<close>

definition compose ::
  "flow_world \<Rightarrow> prepared_workflow \<Rightarrow> string \<Rightarrow> step_def \<Rightarrow> (string \<times> step_result) list \<Rightarrow> exn + pth \<times> (string \<times> string) list \<times> string" where
  "compose fw pw step sd results =
     bindE (resolve_step_dir (fw_realpath fw) (pw_workspace pw) step (s_working_dir sd)) (\<lambda>cwd.
     let upstream = upstream_inputs sd results in
     case render_prompt sd (pw_variables pw) upstream None of
       Inl e \<Rightarrow> Inl (Zig e)
     | Inr prompt \<Rightarrow> bindE (size_checked step (pw_max_prompt pw) prompt) (\<lambda>p. Inr (cwd, upstream, p)))"

section \<open>After a step\<close>

text \<open>The value of an input, if it has one. \<open>source.split(".", 1)[1]\<close> may have no second part.\<close>

definition input_value ::
  "(string \<times> pyval) list \<Rightarrow> (string \<times> string) list \<Rightarrow> string \<Rightarrow> string \<Rightarrow> exn + string option" where
  "input_value vars upstream local_name source = (case map_of upstream local_name of
     Some v \<Rightarrow> Inr (Some v)
   | None \<Rightarrow> (case after_first (CHR ''.'') source of
       None \<Rightarrow> Inl (Python ''IndexError: list index out of range'')
     | Some n \<Rightarrow> Inr (map_option value_to_text (map_of vars n))))"

primrec redacted_inputs ::
  "(string \<times> pyval) list \<Rightarrow> (string \<times> string) list \<Rightarrow> (string \<times> string) list \<Rightarrow> payload \<Rightarrow> payload eng" where
  "redacted_inputs vars upstream [] acc = ok acc"
| "redacted_inputs vars upstream (inp # ins) acc =
     andthen (lift (input_value vars upstream (fst inp) (snd inp))) (\<lambda>v. case v of
       None \<Rightarrow> redacted_inputs vars upstream ins acc
     | Some t \<Rightarrow> andthen (redacting t) (\<lambda>shown.
         redacted_inputs vars upstream ins (AList.update (fst inp) (PStr shown) acc)))"

text \<open>\<open>_resolved_inputs\<close>\<close>

definition resolved_inputs ::
  "step_def \<Rightarrow> (string \<times> pyval) list \<Rightarrow> (string \<times> string) list \<Rightarrow> string \<Rightarrow> payload eng" where
  "resolved_inputs sd vars upstream prompt =
     andthen (redacted_inputs vars upstream (s_inputs sd) []) (\<lambda>acc.
     andthen (redacting prompt) (\<lambda>shown. ok (AList.update ''prompt'' (PStr shown) acc)))"

text \<open>\<open>_fail_before_launch\<close>\<close>

definition fail_before_launch ::
  "setting \<Rightarrow> run_world \<Rightarrow> string \<Rightarrow> string \<Rightarrow> step_result \<Rightarrow> zerror \<Rightarrow> step_result eng" where
  "fail_before_launch w rn step agent r e =
     followed (emit_event w (event ''error'' (Some step) (Some 1) None (error_payload e)))
    (followed (step_finished w rn step agent None ''warning'' Failed 0)
      (ok (r\<lparr>sr_errors := [to_model e], sr_status := Failed\<rparr>)))"

definition deadline_error :: "setting \<Rightarrow> int \<Rightarrow> string option \<Rightarrow> zerror" where
  "deadline_error w limit active = \<lparr>err_class = StepTimeoutError,
     message = ''workflow deadline of '' @ se_seconds w limit @ ''s exceeded'',
     details = (''deadline_seconds'', PFloat (se_seconds w limit))
       # (case active of None \<Rightarrow> [] | Some step \<Rightarrow> [(''step_id'', PStr step)])\<rparr>"

text \<open>\<open>_deadline_stop\<close>\<close>

definition deadline_stop :: "setting \<Rightarrow> run_world \<Rightarrow> int deadline \<Rightarrow> string option \<Rightarrow> flow \<Rightarrow> flow eng" where
  "deadline_stop w rn d active fl = (let e = deadline_error w (timeout_seconds d) active in
     followed (run_error w e)
    (followed (run_log w rn None ''warning'' ''workflow_deadline_exceeded'' [(''reason_code'', PStr (error_code (err_class e)))])
      (ok (fl\<lparr>fl_errors := fl_errors fl @ [to_model e]\<rparr>))))"

text \<open>The statuses that a failure gives to the steps after it; \<open>None\<close> is the KeyError.\<close>

fun mark_statuses ::
  "(string \<times> step_status) list \<Rightarrow> (string \<times> step_result) list \<Rightarrow> (string \<times> step_result) list option" where
  "mark_statuses [] results = Some results"
| "mark_statuses ((step, st) # marks) results = (case map_of results step of
     None \<Rightarrow> None
   | Some r \<Rightarrow> mark_statuses marks (AList.update step (r\<lparr>sr_status := st\<rparr>) results))"

definition stop_scheduling ::
  "prepared_workflow \<Rightarrow> (string \<times> string list) list \<Rightarrow> string \<Rightarrow> flow \<Rightarrow> flow eng" where
  "stop_scheduling pw edges step fl = (case propagate_failure (pw_order pw) edges step of
     None \<Rightarrow> raise (Python ''ValueError'')
   | Some marks \<Rightarrow> (case mark_statuses marks (fl_steps fl) of
       None \<Rightarrow> raise (Python ''KeyError'')
     | Some results \<Rightarrow> ok (fl\<lparr>fl_steps := results\<rparr>)))"

section \<open>The loop\<close>

definition flow_context ::
  "flow_world \<Rightarrow> prepared_workflow \<Rightarrow> int deadline \<Rightarrow> string \<Rightarrow> step_def \<Rightarrow> prepared_step \<Rightarrow> pth \<Rightarrow> string \<Rightarrow> step_context" where
  "flow_context fw pw d step sd pre cwd prompt = \<lparr>cx_step = step, cx_command = ag_command (ps_config pre),
     cx_args = ag_args (ps_config pre), cx_cwd = str_path cwd, cx_prompt = prompt,
     cx_timeout = clamp d (fw_clamp fw step) (ps_timeout pre), cx_grace = pw_grace pw, cx_label = s_agent sd,
     cx_policy = Some (ps_policy pre), cx_cancellable = pw_cancellable pw, cx_attempt = 1, cx_override = pw_override pw\<rparr>"

definition with_result :: "string \<Rightarrow> step_result \<Rightarrow> flow \<Rightarrow> flow" where
  "with_result step r fl = fl\<lparr>fl_steps := AList.update step r (fl_steps fl)\<rparr>"

text \<open>What follows the \<open>step_finished\<close> of a step; the second component says whether the loop goes on.\<close>

definition after_step ::
  "setting \<Rightarrow> run_world \<Rightarrow> flow_world \<Rightarrow> prepared_workflow \<Rightarrow> (string \<times> string list) list \<Rightarrow> int deadline \<Rightarrow> string
    \<Rightarrow> step_outcome \<Rightarrow> flow \<Rightarrow> (flow \<times> bool) eng" where
  "after_step w rn fw pw edges d step out fl =
     (if so_status out = Success then ok (fl, True)
      else if so_status out = Cancelled then ok (fl\<lparr>fl_cancelled := True\<rparr>, False)
      else andthen
        (if (case so_error out of Some e \<Rightarrow> err_class e = StepTimeoutError | None \<Rightarrow> False) \<and> exceeded d (fw_after fw step)
         then deadline_stop w rn d (Some step) fl else stop_scheduling pw edges step fl)
        (\<lambda>fl'. ok (fl', False)))"

text \<open>A step whose prompt is composed.\<close>

definition launch_step ::
  "setting \<Rightarrow> run_world \<Rightarrow> flow_world \<Rightarrow> prepared_workflow \<Rightarrow> (string \<times> string list) list \<Rightarrow> int deadline \<Rightarrow> string
    \<Rightarrow> step_def \<Rightarrow> prepared_step \<Rightarrow> step_result \<Rightarrow> pth \<Rightarrow> (string \<times> string) list \<Rightarrow> string \<Rightarrow> flow \<Rightarrow> (flow \<times> bool) eng" where
  "launch_step w rn fw pw edges d step sd pre r cwd upstream prompt fl =
     andthen (execute_step w (flow_context fw pw d step sd pre cwd prompt) (rn_agent rn step)) (\<lambda>out.
     andthen (settle_step_result r out (rn_attempt rn step) (s_agent sd) (Some (ps_provider pre))) (\<lambda>r1.
     andthen (resolved_inputs sd (pw_variables pw) upstream prompt) (\<lambda>ins.
     followed (step_finished w rn step (s_agent sd) (so_session_id out) ''info'' (so_status out) (fst (snd (rn_attempt rn step))))
       (after_step w rn fw pw edges d step out
         (with_result step (r1\<lparr>sr_inputs_resolved := ins\<rparr>) (fl\<lparr>fl_degraded := fl_degraded fl \<or> so_degraded out\<rparr>))))))"

text \<open>A step that is due: the result is provisionally failed while it is active.\<close>

definition start_step ::
  "setting \<Rightarrow> run_world \<Rightarrow> flow_world \<Rightarrow> prepared_workflow \<Rightarrow> (string \<times> string list) list \<Rightarrow> int deadline \<Rightarrow> string
    \<Rightarrow> flow \<Rightarrow> (flow \<times> bool) eng" where
  "start_step w rn fw pw edges d step fl =
     (case (map_of (w_steps (pw_workflow pw)) step, map_of (pw_steps pw) step, map_of (fl_steps fl) step) of
        (Some sd, Some pre, Some r0) \<Rightarrow> (let r = r0\<lparr>sr_status := Failed\<rparr> in
          followed (emit_event w (event ''step_started'' (Some step) (Some 1) None
            [(''agent'', PStr (s_agent sd)), (''provider'', PStr (ps_provider pre))]))
          (andthen (attempt_of (typed [ValidationError, ResourceLimitError])
              (lift (compose fw pw step sd (fl_steps (with_result step r fl))))) (\<lambda>c. case c of
             Inl e \<Rightarrow> andthen (fail_before_launch w rn step (s_agent sd) r e) (\<lambda>r1.
               andthen (stop_scheduling pw edges step (with_result step r1 fl)) (\<lambda>fl'. ok (fl', False)))
           | Inr (cwd, upstream, prompt) \<Rightarrow>
               launch_step w rn fw pw edges d step sd pre r cwd upstream prompt (with_result step r fl))))
      | _ \<Rightarrow> raise (Python ''KeyError''))"

text \<open>One pass of the loop: the cancel event and the deadline come first.\<close>

definition next_step ::
  "setting \<Rightarrow> run_world \<Rightarrow> flow_world \<Rightarrow> prepared_workflow \<Rightarrow> (string \<times> string list) list \<Rightarrow> int deadline \<Rightarrow> string
    \<Rightarrow> flow \<Rightarrow> (flow \<times> bool) eng" where
  "next_step w rn fw pw edges d step fl =
     (if pw_cancellable pw \<and> fw_cancel fw step
      then followed (run_event w ''cancel_requested'' [(''reason'', PStr ''cancel''), (''scope'', PStr ''workflow'')])
        (ok (fl\<lparr>fl_cancelled := True\<rparr>, False))
      else if exceeded d (fw_before fw step)
      then andthen (deadline_stop w rn d None fl) (\<lambda>fl'. ok (fl', False))
      else start_step w rn fw pw edges d step fl)"

primrec run_pending ::
  "setting \<Rightarrow> run_world \<Rightarrow> flow_world \<Rightarrow> prepared_workflow \<Rightarrow> (string \<times> string list) list \<Rightarrow> int deadline \<Rightarrow> string list
    \<Rightarrow> flow \<Rightarrow> flow eng" where
  "run_pending w rn fw pw edges d [] fl = ok fl"
| "run_pending w rn fw pw edges d (step # pending) fl =
     andthen (next_step w rn fw pw edges d step fl) (\<lambda>x.
       if snd x then run_pending w rn fw pw edges d pending (fst x) else ok (fst x))"

text \<open>\<open>_run_steps\<close>\<close>

definition run_steps ::
  "setting \<Rightarrow> run_world \<Rightarrow> flow_world \<Rightarrow> prepared_workflow \<Rightarrow> int deadline \<Rightarrow> flow \<Rightarrow> flow eng" where
  "run_steps w rn fw pw d fl =
     (case step_edges (pw_workflow pw) of
        Inl e \<Rightarrow> raise (Zig e) | Inr edges \<Rightarrow> run_pending w rn fw pw edges d (pw_order pw) fl)"

section \<open>The run\<close>

definition scaffold :: "workflow_def \<Rightarrow> (string \<times> step_result) list" where
  "scaffold wf_def = map (\<lambda>(step, sd). (step, blank_step step (s_agent sd) Skipped (s_inputs sd))) (w_steps wf_def)"

definition blank_flow :: "workflow_def \<Rightarrow> typed_error list \<Rightarrow> flow" where
  "blank_flow wf_def errs = \<lparr>fl_steps = scaffold wf_def, fl_errors = errs, fl_cancelled = False, fl_degraded = False\<rparr>"

definition flow_timeout :: "prepared_workflow \<Rightarrow> int" where
  "flow_timeout pw = (case pw_timeout pw of Some t \<Rightarrow> t | None \<Rightarrow> pw_default_timeout pw)"

definition blank_flow_result :: "run_world \<Rightarrow> prepared_workflow \<Rightarrow> run_result" where
  "blank_flow_result rn pw = \<lparr>rr_run_id = rn_id rn, rr_kind = KWorkflow, rr_target = w_name (pw_workflow pw),
     rr_status = RunFailed, rr_started_at = rn_started rn, rr_ended_at = None, rr_duration_ms = None,
     rr_workspace = pw_workspace pw, rr_capture_profile = pw_profile pw, rr_persisted = False,
     rr_config_fingerprint = pw_fingerprint pw, rr_policy = pw_provenance pw, rr_steps = scaffold (pw_workflow pw),
     rr_plan = None, rr_plan_validation = None, rr_errors = [], rr_capture = [],
     rr_redaction = \<lparr>rs_total = 0, rs_by_kind = [], rs_warnings = []\<rparr>, rr_egress = pw_records pw, rr_usage = None,
     rr_result_path = None, rr_events_path = None\<rparr>"

text \<open>\<open>EgressRecord.model_dump()\<close>\<close>

definition egress_dump :: "egress_record \<Rightarrow> pyval" where
  "egress_dump r = PDict [(''step_id'', PStr (er_step_id r)), (''provider'', PStr (er_provider r)),
     (''input_sources'', str_list (er_input_sources r)), (''acknowledged_by'', opt_str (er_acknowledged_by r))]"

definition announce_egress :: "setting \<Rightarrow> run_world \<Rightarrow> prepared_workflow \<Rightarrow> unit eng" where
  "announce_egress w rn pw = (let providers = str_list (sorted_list_of_set (pw_provider_set pw)) in
     if pw_provider_set pw = {} then ok ()
     else followed (run_event w ''egress_notice'' [(''provider_set'', providers),
         (''acknowledged_by'', opt_str (pw_acknowledged_by pw)), (''records'', PList (map egress_dump (pw_records pw)))])
       (run_log w rn None ''info'' ''egress_notice'' [(''provider_set'', providers)]))"

definition announce_flow :: "setting \<Rightarrow> run_world \<Rightarrow> prepared_workflow \<Rightarrow> unit eng" where
  "announce_flow w rn pw =
     followed (run_event w ''run_started'' [(''kind'', PStr ''workflow''), (''target'', PStr (w_name (pw_workflow pw))),
       (''workspace'', PStr (pw_workspace pw)), (''capture_profile'', PStr (profile_value (pw_profile pw))),
       (''step_order'', str_list (pw_order pw))])
    (followed (run_log w rn None ''info'' ''run_started'' [(''kind'', PStr ''workflow''),
       (''target'', PStr (w_name (pw_workflow pw))), (''count'', PInt (int (length (pw_order pw))))])
    (followed (case pw_fingerprint pw of None \<Rightarrow> ok ()
       | Some f \<Rightarrow> run_event w ''config_resolved'' [(''fingerprint'', PStr f)])
    (followed (case pw_provenance pw of None \<Rightarrow> ok ()
       | Some pp \<Rightarrow> run_event w ''policy_resolved'' (provenance_payload pp))
    (announce_egress w rn pw))))"

text \<open>The run's fields that the loop decides; a refused lease leaves every step skipped.\<close>

definition flow_of_lease :: "workflow_def \<Rightarrow> typed_error list \<Rightarrow> typed_error + flow \<Rightarrow> flow" where
  "flow_of_lease wf_def errs x = (case x of
     Inl e \<Rightarrow> blank_flow wf_def (errs @ [e]) | Inr fl \<Rightarrow> fl)"

definition with_flow :: "flow \<Rightarrow> run_result \<Rightarrow> run_result" where
  "with_flow fl rr = rr\<lparr>rr_steps := fl_steps fl, rr_errors := fl_errors fl,
     rr_status := aggregate_status (map (sr_status \<circ> snd) (fl_steps fl)) (fl_cancelled fl)\<rparr>"

text \<open>\<open>execute_workflow\<close>: here the lease is taken also for an unsaved run.\<close>

definition execute_workflow :: "setting \<Rightarrow> run_world \<Rightarrow> flow_world \<Rightarrow> prepared_workflow \<Rightarrow> run_result eng" where
  "execute_workflow w rn fw pw =
     andthen (open_store rn (pw_no_save pw)) (\<lambda>(dir, errs).
     followed (start_recorder rn (pw_secrets pw) (pw_patterns pw) dir (pw_profile pw) (pw_limits pw) (pw_has_render pw))
    (followed (announce_flow w rn pw)
    (andthen (under_lease w rn None (run_steps w rn fw pw (new_deadline (flow_timeout pw) (fw_started fw))
        (blank_flow (pw_workflow pw) errs))) (\<lambda>x.
     let fl = flow_of_lease (pw_workflow pw) errs x in
     andthen (close_record w rn (fl_degraded fl) (with_flow fl (blank_flow_result rn pw))) (\<lambda>rr.
     followed (run_log w rn None ''info'' ''run_finished'' [(''kind'', PStr ''workflow''),
       (''target'', PStr (w_name (pw_workflow pw))), (''status'', PStr (run_status_value (rr_status rr))),
       (''duration_ms'', PInt (rn_duration rn))])
    (save_result w rn None dir rr))))))"

end
