(* ===== verification/Run_Logic.thy ===== *)
theory Run_Logic
  imports Workflow_Run Step_Guarantees
begin

text \<open>
  Reasoning about whole runs. \<open>yields b Q m\<close> says of every value that \<open>m\<close> returns that it satisfies
  \<open>Q\<close>, and with \<open>b\<close> that \<open>m\<close> returns at all: one set of rules for the partial and the total claims.
  The second part says which acts the parts of a run may do.
\<close>

section \<open>Values and returns\<close>

definition yields :: "bool \<Rightarrow> ('a \<Rightarrow> bool) \<Rightarrow> 'a eng \<Rightarrow> bool" where
  "yields b Q m \<longleftrightarrow> (\<forall>s. wp m (\<lambda>x t. Q x) (\<lambda>e t. \<not> b) s)"

named_theorems yields_rules "values of composed computations"

abbreviation finishes :: "bool \<Rightarrow> 'a eng \<Rightarrow> bool" where
  "finishes b m \<equiv> yields b (\<lambda>_. True) m"

lemma yieldsI: "(\<And>s. wp m (\<lambda>x t. Q x) (\<lambda>e t. \<not> b) s) \<Longrightarrow> yields b Q m"
  by (simp add: yields_def)

lemma yields_wp: "yields b Q m \<Longrightarrow> wp m (\<lambda>x t. Q x) (\<lambda>e t. \<not> b) s"
  by (simp add: yields_def)

lemma yieldsD: "yields b Q m \<Longrightarrow> m s = (Ok x, t) \<Longrightarrow> Q x"
  using wpD[OF yields_wp] .

lemma yields_Ok: "yields True Q m \<Longrightarrow> \<exists>x t. m s = (Ok x, t) \<and> Q x"
  using yields_wp[of True Q m s] by (auto simp: wp_def split: prod.splits res.splits)

lemma yields_mono: "yields b P m \<Longrightarrow> (\<And>x. P x \<Longrightarrow> Q x) \<Longrightarrow> yields b Q m"
  by (rule yieldsI, rule wp_mono, rule yields_wp[of b P m])

lemma yields_ok [yields_rules]: "Q x \<Longrightarrow> yields b Q (ok x)"
  by (intro yieldsI wp_ok)

lemma yields_raise: "\<not> b \<Longrightarrow> yields b Q (raise e)"
  by (intro yieldsI wp_raise)

lemma yields_reads [yields_rules]: "(\<And>s. Q (f s)) \<Longrightarrow> yields b Q (reads f)"
  by (intro yieldsI wp_reads)

lemma yields_modify [yields_rules]: "finishes b (modify f)"
  by (intro yieldsI wp_modify) simp

lemma yields_act [yields_rules]: "finishes b (act a)"
  by (simp add: act_def yields_modify)

lemma yields_andthen: "yields b P m \<Longrightarrow> (\<And>x. P x \<Longrightarrow> yields b Q (f x)) \<Longrightarrow> yields b Q (andthen m f)"
  by (intro yieldsI wp_andthen, rule wp_mono, rule yields_wp[of b P m]) (auto intro: yields_wp)

lemma yields_andthen_any [yields_rules]: "finishes b m \<Longrightarrow> (\<And>x. yields b Q (f x)) \<Longrightarrow> yields b Q (andthen m f)"
  by (rule yields_andthen)

lemma yields_followed [yields_rules]: "finishes b m \<Longrightarrow> yields b Q k \<Longrightarrow> yields b Q (followed m k)"
  unfolding followed_def by (rule yields_andthen)

lemma yields_finally [yields_rules]:
  assumes "yields b Q m" and "finishes b c"
  shows "yields b Q (finally_do m c)"
proof (intro yieldsI wp_finally, rule wp_mono[OF yields_wp[OF assms(1)]])
  fix x t assume "Q x"
  then show "wp c (\<lambda>_ t. Q x) (\<lambda>e t. \<not> b) t" by (intro wp_mono[OF yields_wp[OF assms(2)]])
next
  fix e t assume "\<not> b"
  then show "cleaned c (\<lambda>e t. \<not> b) e t"
    by (cases e) (auto simp: cleaned_def intro: wp_mono[OF yields_wp[OF assms(2)]])
qed

lemma yields_if [yields_rules]: "(c \<Longrightarrow> yields b Q m) \<Longrightarrow> (\<not> c \<Longrightarrow> yields b Q k) \<Longrightarrow> yields b Q (if c then m else k)"
  by simp

lemma yields_option [yields_rules]:
  "(x = None \<Longrightarrow> yields b Q m) \<Longrightarrow> (\<And>y. x = Some y \<Longrightarrow> yields b Q (f y)) \<Longrightarrow>
   yields b Q (case x of None \<Rightarrow> m | Some y \<Rightarrow> f y)"
  by (cases x) auto

lemma yields_sum [yields_rules]:
  "(\<And>e. r = Inl e \<Longrightarrow> yields b Q (f e)) \<Longrightarrow> (\<And>y. r = Inr y \<Longrightarrow> yields b Q (g y)) \<Longrightarrow> yields b Q (case r of Inl e \<Rightarrow> f e | Inr y \<Rightarrow> g y)"
  by (cases r) auto

lemma yields_lift: "(\<And>e. r = Inl e \<Longrightarrow> \<not> b) \<Longrightarrow> (\<And>x. r = Inr x \<Longrightarrow> Q x) \<Longrightarrow> yields b Q (lift r)"
  by (cases r) (auto simp: lift_def intro: yields_raise yields_ok)

text \<open>\<open>recording_ok b w\<close>: when returning is claimed, no append raises anything but a PersistenceError.\<close>

definition recording_ok :: "bool \<Rightarrow> setting \<Rightarrow> bool" where
  "recording_ok b w \<longleftrightarrow> (b \<longrightarrow> never_raises (se_recording w))"

lemma yields_emit:
  assumes "recording_ok b w" and "t \<in> set EVENT_TYPES"
  shows "finishes b (emit_event w (event t step n session body))"
proof (rule yieldsI)
  fix s
  have "b \<Longrightarrow> fst (emit_event w (event t step n session body) s) = Ok ()"
    using assms by (intro emit_event_Ok) (simp_all add: recording_ok_def event_def)
  then show "wp (emit_event w (event t step n session body)) (\<lambda>x t. True) (\<lambda>e t. \<not> b) s"
    by (cases "emit_event w (event t step n session body) s"; cases "fst (emit_event w (event t step n session body) s)")
      (auto simp: wp_def)
qed

lemma run_event_types:
  "''run_started'' \<in> set EVENT_TYPES" "''config_resolved'' \<in> set EVENT_TYPES" "''policy_resolved'' \<in> set EVENT_TYPES"
  "''egress_notice'' \<in> set EVENT_TYPES" "''lease_acquired'' \<in> set EVENT_TYPES" "''lease_released'' \<in> set EVENT_TYPES"
  "''step_started'' \<in> set EVENT_TYPES" "''step_finished'' \<in> set EVENT_TYPES" "''run_finished'' \<in> set EVENT_TYPES"
  "''error'' \<in> set EVENT_TYPES" "''cancel_requested'' \<in> set EVENT_TYPES"
  by (simp_all add: EVENT_TYPES_def)

lemma yields_run_event [yields_rules]:
  "recording_ok b w \<Longrightarrow> t \<in> set EVENT_TYPES \<Longrightarrow> finishes b (run_event w t body)"
  unfolding run_event_def by (rule yields_emit)

lemma yields_run_error [yields_rules]: "recording_ok b w \<Longrightarrow> finishes b (run_error w e)"
  unfolding run_error_def by (intro yields_rules run_event_types)

lemma yields_mlog: "validate_line level detail = None \<Longrightarrow> finishes b (mlog w (log_entry t run step agent level detail))"
proof (rule yieldsI)
  fix s assume "validate_line level detail = None"
  then have "fst (mlog w (log_entry t run step agent level detail) s) = Ok ()"
    by (intro mlog_Ok) (simp add: log_entry_def)
  then show "wp (mlog w (log_entry t run step agent level detail)) (\<lambda>x t. True) (\<lambda>e t. \<not> b) s"
    by (cases "mlog w (log_entry t run step agent level detail) s") (simp add: wp_def)
qed

definition run_keys :: "string set" where
  "run_keys = {''kind'', ''target'', ''count'', ''status'', ''duration_ms'', ''reason_code'', ''path_ref'', ''provider_set''}"

lemma run_line:
  "level \<in> {''info'', ''error'', ''warning''} \<Longrightarrow> set (keys detail) \<subseteq> run_keys \<Longrightarrow> validate_line level detail = None"
  by (auto simp: validate_line_None ALLOWED_LEVELS_def ALLOWED_DETAIL_FIELDS_def run_keys_def)

lemma yields_run_log [yields_rules]:
  "level \<in> {''info'', ''error'', ''warning''} \<Longrightarrow> set (keys detail) \<subseteq> run_keys \<Longrightarrow> finishes b (run_log w rn agent level t detail)"
  unfolding run_log_def by (intro yields_mlog run_line)

lemma yields_step_finished [yields_rules]:
  "recording_ok b w \<Longrightarrow> level \<in> {''info'', ''warning''} \<Longrightarrow> finishes b (step_finished w rn step agent session level st took)"
  unfolding step_finished_def Let_def
  by (intro yields_followed yields_emit yields_mlog run_line run_event_types) (auto simp: run_keys_def)

section \<open>The parts of a run\<close>

text \<open>A step returns when the agent's world lets it: it is dutiful and no exception comes from outside
  the protocol.\<close>

definition well_behaved :: "setting \<Rightarrow> agent_world \<Rightarrow> bool" where
  "well_behaved w aw \<longleftrightarrow> dutiful w aw \<and> escapes aw = {} \<and> (\<forall>m. aw_launch aw \<noteq> LaunchError m)"

lemma yields_execute_step:
  assumes "b \<Longrightarrow> well_behaved w aw"
  shows "yields b (outcome_typed aw) (execute_step w cx aw)"
proof (intro yieldsI wp_mono[OF wp_execute_step])
  fix s e t assume "step_exception w aw (skeleton s) (cx_command cx) e t"
  then show "\<not> b" using assms by (auto simp: step_exception_def step_raised_def well_behaved_def)
qed (simp add: step_result_ok_def)

lemma yields_redacting [yields_rules]: "finishes b (redacting t)"
  by (auto simp: yields_def wp_def redacting_def split: prod.splits)

lemma yields_settle: "yields b (\<lambda>r. sr_status r = so_status out \<and> sr_step_id r = sr_step_id step
    \<and> sr_attempts r = [attempt_of_outcome out tm]
    \<and> sr_errors r = (case so_error out of None \<Rightarrow> sr_errors step | Some e \<Rightarrow> [to_model e]))
  (settle_step_result step out tm agent provider)"
  unfolding settle_step_result_def by (intro yields_rules) (auto simp: Let_def)

lemma yields_take_lease [yields_rules]: "recording_ok b w \<Longrightarrow>
    yields b (\<lambda>x. x = None \<longleftrightarrow> (\<exists>u v. rn_lease rn = LeaseGranted u v)) (take_lease w rn agent)"
  unfolding take_lease_def Let_def
  by (cases "rn_lease rn") (auto intro!: yields_rules run_event_types simp: run_keys_def)

lemma yields_free_lease [yields_rules]: "recording_ok b w \<Longrightarrow> finishes b (free_lease w rn agent)"
  unfolding free_lease_def
  by (cases "rn_lease rn") (auto intro!: yields_rules run_event_types simp: run_keys_def)

text \<open>The steps run exactly when the lease is granted.\<close>

definition lease_granted :: "run_world \<Rightarrow> bool" where
  "lease_granted rn \<longleftrightarrow> (\<exists>u v. rn_lease rn = LeaseGranted u v)"

lemma yields_under_lease:
  assumes "recording_ok b w" and "yields b Q steps"
  shows "yields b (\<lambda>x. case x of Inl e \<Rightarrow> \<not> lease_granted rn | Inr y \<Rightarrow> lease_granted rn \<and> Q y)
    (under_lease w rn agent steps)"
  unfolding under_lease_def
proof (intro yields_finally yields_free_lease assms(1) yields_andthen[OF yields_take_lease[OF assms(1)]])
  fix x :: "typed_error option" assume "(x = None) = (\<exists>u v. rn_lease rn = LeaseGranted u v)"
  then show "yields b (\<lambda>x. case x of Inl e \<Rightarrow> \<not> lease_granted rn | Inr y \<Rightarrow> lease_granted rn \<and> Q y)
      (case x of None \<Rightarrow> andthen steps (\<lambda>x. ok (Inr x)) | Some e \<Rightarrow> ok (Inl e))"
    by (cases x) (auto intro!: yields_andthen[OF assms(2)] yields_ok simp: lease_granted_def)
qed

text \<open>What closing and saving leave of the result.\<close>

definition same_run :: "run_result \<Rightarrow> run_result \<Rightarrow> bool" where
  "same_run rr rr' \<longleftrightarrow> rr_steps rr' = rr_steps rr \<and> rr_status rr' = rr_status rr
     \<and> (\<exists>es. rr_errors rr' = rr_errors rr @ es)"

lemma same_run_refl [simp]: "same_run rr rr"
  by (simp add: same_run_def)

lemma yields_close_record: "recording_ok b w \<Longrightarrow> yields b (\<lambda>rr'. same_run rr rr' \<and> \<not> rr_persisted rr' = (\<not> rr_persisted rr)
    \<and> rr_result_path rr' = rr_result_path rr) (close_record w rn degraded rr)"
  unfolding close_record_def by (intro yields_rules run_event_types) (auto simp: Let_def same_run_def)

text \<open>Saving returns unless a write fails with another exception than a PersistenceError.\<close>

definition saving_ok :: "bool \<Rightarrow> run_world \<Rightarrow> bool" where
  "saving_ok b rn \<longleftrightarrow> (b \<longrightarrow> (\<forall>m. rn_save rn \<noteq> SaveRaised m \<and> rn_index rn \<noteq> SaveRaised m))"

lemma yields_persist:
  "saving_ok b rn \<Longrightarrow> yields b (\<lambda>rr'. same_run rr rr' \<and> (rr_persisted rr' \<longleftrightarrow> rn_save rn = Saved)
     \<and> rr_result_path rr' = (if rn_save rn = Saved then Some (dir @ ''/result.json'') else None)) (persist_result rn dir rr)"
  unfolding persist_result_def Let_def saving_ok_def
  by (cases "rn_save rn"; cases "rn_index rn") (auto intro!: yields_rules yields_raise simp: same_run_def)

lemma yields_save_result:
  assumes "saving_ok b rn"
  shows "yields b (\<lambda>rr'. same_run rr rr' \<and> (rr_persisted rr' \<longleftrightarrow> (if dir = None then rr_persisted rr else rn_save rn = Saved)))
    (save_result w rn agent dir rr)"
  unfolding save_result_def
proof (rule yields_andthen[where P = "\<lambda>rr1. same_run rr rr1 \<and> rr_persisted rr1 = rr_persisted rr"])
  show "yields b (\<lambda>rr1. same_run rr rr1 \<and> rr_persisted rr1 = rr_persisted rr)
      (reads (\<lambda>s. rr\<lparr>rr_errors := rr_errors rr @ map to_model (rc_persistence_errors (en_rc s))\<rparr>))"
    by (rule yields_reads) (simp add: same_run_def)
  fix rr1 assume r: "same_run rr rr1 \<and> rr_persisted rr1 = rr_persisted rr"
  show "yields b (\<lambda>rr'. same_run rr rr' \<and> (rr_persisted rr' \<longleftrightarrow> (if dir = None then rr_persisted rr else rn_save rn = Saved)))
      (case dir of None \<Rightarrow> ok rr1 | Some d \<Rightarrow> andthen (persist_result rn d rr1) (\<lambda>rr2.
           followed (if rr_persisted rr2
             then run_log w rn agent ''info'' ''run_persisted'' [(''path_ref'', opt_str (rr_result_path rr2))]
             else run_log w rn agent ''warning'' ''run_persist_failed'' [(''reason_code'', PStr ''PersistenceError'')])
           (ok rr2)))"
  proof (cases dir)
    case (Some d)
    with r show ?thesis
      by (auto intro!: yields_andthen[OF yields_persist[OF assms]] yields_rules simp: run_keys_def same_run_def)
  qed (use r in \<open>auto intro!: yields_ok\<close>)
qed

text \<open>Opening: the store opens or refuses with a PersistenceError, the patterns compile.\<close>

definition opening_ok :: "bool \<Rightarrow> run_world \<Rightarrow> bool \<Rightarrow> (string \<times> string) list \<Rightarrow> custom_pattern list \<Rightarrow> bool" where
  "opening_ok b rn no_save secrets patterns \<longleftrightarrow> (b \<longrightarrow> (no_save \<or> (\<forall>m. rn_store rn \<noteq> BootRaised m))
     \<and> (\<exists>rx. new_redactor (rn_compile rn) secrets patterns = Inr rx))"

lemma yields_open_store:
  "opening_ok b rn no_save secrets patterns \<Longrightarrow>
     yields b (\<lambda>x. fst x = (case rn_store rn of Booted d \<Rightarrow> if no_save then None else Some d | _ \<Rightarrow> None)) (open_store rn no_save)"
  unfolding open_store_def opening_ok_def by (cases "rn_store rn") (auto intro!: yields_ok yields_raise)

lemma yields_start_recorder [yields_rules]:
  "opening_ok b rn no_save secrets patterns \<Longrightarrow> finishes b (start_recorder rn secrets patterns dir prof limits has_cb)"
  unfolding start_recorder_def opening_ok_def
  by (cases b) (auto simp: new_recorder_def intro!: yields_raise yields_modify split: sum.splits option.splits)

section \<open>A clean turn\<close>

text \<open>
  The agent starts, answers the handshake in the client's protocol version and the session request, and
  its turn ends with \<open>end_turn\<close>.
\<close>

definition ready_agent :: "agent_world \<Rightarrow> bool" where
  "ready_agent aw \<longleftrightarrow> (\<exists>r. aw_init aw = Some (Answer r) \<and> ir_protocol_version r = aw_version aw)"

definition clean_turn :: "agent_world \<Rightarrow> bool" where
  "clean_turn aw \<longleftrightarrow> (\<exists>pid. aw_launch aw = Launched pid) \<and> ready_agent aw \<and> (\<exists>i. aw_session aw = Some (Answer i))
     \<and> tn_prompt (aw_turn aw) = Some (Answer ''end_turn'')"

text \<open>Values only: \<open>b\<close> is \<open>False\<close>, and everything that does not return is left open.\<close>

lemma values_any [simp]: "finishes False m"
  by (auto simp: yields_def wp_def split: prod.splits res.splits)

lemma values_hang [simp]: "yields False Q (\<lambda>s. (Hang, s))"
  by (simp add: yields_def wp_def)

lemma values_raise [simp]: "yields False Q (raise e)"
  by (simp add: yields_raise)

lemma values_followed: "yields False Q k \<Longrightarrow> yields False Q (followed m k)"
  by (intro yields_followed) simp_all

lemma values_andthen: "(\<And>x. yields False Q (f x)) \<Longrightarrow> yields False Q (andthen m f)"
  by (intro yields_andthen_any) simp_all

lemma values_after:
  assumes "yields False (\<lambda>x. False) m"
  shows "yields False Q (andthen m f)"
  using assms by (rule yields_andthen) simp

lemma yields_attempt:
  assumes "\<And>s. wp m (\<lambda>x t. Q (Inr x)) (\<lambda>e t. (case e of None \<Rightarrow> \<not> b | Some x \<Rightarrow> (case c x of None \<Rightarrow> \<not> b | Some z \<Rightarrow> Q (Inl z)))) s"
  shows "yields b Q (attempt_of c m)"
proof (intro yieldsI wp_attempt wp_mono[OF assms])
  fix s e and t :: engine
  assume "case e of None \<Rightarrow> \<not> b | Some x \<Rightarrow> (case c x of None \<Rightarrow> \<not> b | Some z \<Rightarrow> Q (Inl z))"
  then show "uncaught c (\<lambda>z t. Q (Inl z)) (\<lambda>e t. \<not> b) e t"
    by (auto simp: uncaught_def split: option.splits)
qed

lemma awaiting_Ok: "\<exists>t. awaiting w hk aw wt s = (Ok (), t)"
proof -
  obtain u where "callbacks w hk (concat (map (hook_calls (aw_dump aw)) (wt_incoming wt))) s = (Ok (), u)"
    using callbacks_Ok by blast
  then show ?thesis
    by (auto simp: awaiting_def followed_def andthen_def reads_def modify_def act_def ok_def split: option.splits)
qed

text \<open>The two requests: a value exactly when the agent gives a good answer.\<close>

lemma values_initialize:
  "yields False (\<lambda>r. (\<exists>h. r = Inr h) \<longleftrightarrow> ready_agent aw) (attempt_of (typed [ProtocolError]) (initialize w hk aw))"
proof (rule yields_attempt)
  fix s
  obtain t where t: "awaiting w hk aw (aw_init_wait aw) s = (Ok (), t)" using awaiting_Ok by blast
  show "wp (initialize w hk aw) (\<lambda>x t. (\<exists>h. Inr x = Inr h) \<longleftrightarrow> ready_agent aw)
     (\<lambda>e t. case e of None \<Rightarrow> \<not> False | Some x \<Rightarrow> (case typed [ProtocolError] x of None \<Rightarrow> \<not> False
       | Some z \<Rightarrow> (\<exists>h. Inl z = Inr h) \<longleftrightarrow> ready_agent aw)) s"
    unfolding initialize_def wp_followed_eq
    by (rule wp_mono[where Q = "\<lambda>_ _. True" and E = "\<lambda>_ _. False"])
      (auto simp: wp_def t answer_of_def ready_agent_def followed_def andthen_def raise_def ok_def
        split: option.splits answer.splits res.splits prod.splits)
qed

lemma values_new_session:
  "yields False (\<lambda>r. (\<exists>h. r = Inr h) \<longleftrightarrow> (\<exists>i. aw_session aw = Some (Answer i))) (attempt_of (typed [ProtocolError]) (new_session w hk aw))"
proof (rule yields_attempt)
  fix s
  obtain t where t: "awaiting w hk aw (aw_session_wait aw) s = (Ok (), t)" using awaiting_Ok by blast
  show "wp (new_session w hk aw) (\<lambda>x t. (\<exists>h. Inr x = Inr h) \<longleftrightarrow> (\<exists>i. aw_session aw = Some (Answer i)))
     (\<lambda>e t. case e of None \<Rightarrow> \<not> False | Some x \<Rightarrow> (case typed [ProtocolError] x of None \<Rightarrow> \<not> False
       | Some z \<Rightarrow> (\<exists>h. Inl z = Inr h) \<longleftrightarrow> (\<exists>i. aw_session aw = Some (Answer i)))) s"
    unfolding new_session_def wp_followed_eq
    by (rule wp_mono[where Q = "\<lambda>_ _. True" and E = "\<lambda>_ _. False"])
      (auto simp: wp_def t answer_of_def raise_def ok_def split: option.splits answer.splits)
qed

lemma values_or_fail:
  assumes "yields False (\<lambda>r. (\<exists>h. r = Inr h) \<longleftrightarrow> good) (attempt_of (typed [ProtocolError]) m)"
    and "\<And>x. good \<Longrightarrow> yields False (\<lambda>out. so_status out = Success \<longleftrightarrow> rest) (k x)"
  shows "yields False (\<lambda>out. so_status out = Success \<longleftrightarrow> good \<and> rest) (or_fail w cx aw h m k)"
  unfolding or_fail_def
proof (rule yields_andthen[OF assms(1)])
  fix r :: "zerror + 'a" assume r: "(\<exists>h. r = Inr h) \<longleftrightarrow> good"
  show "yields False (\<lambda>out. so_status out = Success \<longleftrightarrow> good \<and> rest) (case r of Inr x \<Rightarrow> k x
   | Inl e \<Rightarrow> followed (step_error w cx None e)
       (andthen (end_process w (context_hooks cx) aw) (\<lambda>code. ok (failed_early e code h None True))))"
  proof (cases r)
    case (Inl e)
    with r have "\<not> good" by auto
    then show ?thesis unfolding Inl sum.case
      by (intro values_followed values_andthen yields_ok) (simp add: failed_early_def)
  next
    case (Inr x)
    with r assms(2)[of x] show ?thesis by simp
  qed
qed

lemma values_run_turn:
  "yields False (\<lambda>out. so_status out = Success \<longleftrightarrow> tn_prompt (aw_turn aw) = Some (Answer ''end_turn'')) (run_turn w cx aw h session)"
proof -
  let ?good = "tn_prompt (aw_turn aw) = Some (Answer ''end_turn'')"
  have stop: "yields False (\<lambda>out. so_status out = Success \<longleftrightarrow> reason = ''end_turn'') (stop_outcome w cx reason code h session)" for reason code
    unfolding stop_outcome_def Let_def
  proof (rule yields_andthen[where P = "\<lambda>err. err = None \<longleftrightarrow> reason = ''end_turn''"])
    show "yields False (\<lambda>err. err = None \<longleftrightarrow> reason = ''end_turn'') (reads (\<lambda>s. stop_error (en_rc s) (cx_step cx) reason))"
      by (rule yields_reads) (rule stop_error_None)
  qed (auto intro!: values_followed yields_ok split: option.splits)
  have turn_ended: "yields False (\<lambda>out. so_status out = Success \<longleftrightarrow> result = Inr ''end_turn'') (turn_done w cx aw h session result)" for result
    unfolding turn_done_def by (cases result)
      (auto intro!: values_followed values_andthen yields_mono[OF stop] yields_ok simp: failed_early_def split: option.splits)
  have interrupted: "yields False (\<lambda>out. so_status out \<noteq> Success) (turn_interrupted w cx aw h session c)" for c
    unfolding turn_interrupted_def Let_def
    by (intro values_followed values_andthen) (auto intro!: values_followed yields_ok split: prod.splits)
  have p: "prompt_result a = Inr ''end_turn'' \<longleftrightarrow> a = Answer ''end_turn''" for a by (cases a) auto
  show ?thesis
    unfolding run_turn_def
    by (intro values_followed) (auto intro!: yields_mono[OF turn_ended] yields_mono[OF interrupted] simp: p split: option.splits)
qed

lemma typed_Python: "typed cs (Python m) = None"
  by (simp add: typed_def)

lemma values_execute_step: "yields False (\<lambda>out. so_status out = Success \<longleftrightarrow> clean_turn aw) (execute_step w cx aw)"
proof -
  let ?session = "\<exists>i. aw_session aw = Some (Answer i)"
  let ?turn = "tn_prompt (aw_turn aw) = Some (Answer ''end_turn'')"
  have session: "yields False (\<lambda>out. so_status out = Success \<longleftrightarrow> ready_agent aw \<and> ?session \<and> ?turn) (run_session w cx aw)"
    unfolding run_session_def
    by (intro values_or_fail[OF values_initialize] values_followed values_or_fail[OF values_new_session] values_run_turn)
  have l: "yields False (\<lambda>r. (\<exists>pid. r = Inr pid) \<longleftrightarrow> (\<exists>pid. aw_launch aw = Launched pid))
      (attempt_of (typed [AgentLaunchError]) (launch aw (cx_command cx)))"
    by (rule yields_attempt, cases "aw_launch aw")
      (auto simp: launch_def typed_launch raise_def wp_def followed_def andthen_def modify_def act_def ok_def typed_Python)
  show ?thesis
    unfolding execute_step_def
  proof (intro values_followed yields_andthen[OF l])
    fix r :: "zerror + int" assume r: "(\<exists>pid. r = Inr pid) \<longleftrightarrow> (\<exists>pid. aw_launch aw = Launched pid)"
    show "yields False (\<lambda>out. so_status out = Success \<longleftrightarrow> clean_turn aw) (case r of
       Inl e \<Rightarrow> followed (step_error w cx None e)
         (followed (step_log w cx ''agent_launch_failed'' ''error'' [(''reason_code'', PStr (error_code (err_class e)))])
           (ok (failed_early e None None None False)))
     | Inr pid \<Rightarrow> followed (step_event w cx ''agent_launched'' None [(''pid'', PInt pid), (''pgid'', PInt pid)])
         (followed (step_log w cx ''agent_launched'' ''info'' [])
           (finally_do (run_session w cx aw) (clean_up w cx aw))))"
    proof (cases r)
      case (Inl e)
      with r have "\<not> clean_turn aw" by (auto simp: clean_turn_def)
      then show ?thesis unfolding Inl sum.case by (intro values_followed yields_ok) (simp add: failed_early_def)
    next
      case (Inr pid)
      with r have "clean_turn aw \<longleftrightarrow> ready_agent aw \<and> ?session \<and> ?turn" by (auto simp: clean_turn_def)
      then show ?thesis unfolding Inr sum.case
        by (intro values_followed yields_finally values_any) (simp add: session)
    qed
  qed
qed

end
