(* ===== verification/Flow_Safety.thy ===== *)
theory Flow_Safety
  imports Run_Logic
begin

text \<open>
  The step loop of a workflow against its abstract specification: the final statuses are a function of
  where and why the loop stopped. The same lemmas show that the loop ends.
\<close>

section \<open>Specification\<close>

text \<open>Why a loop stops at a step: before it starts, or because of how it ended.\<close>

datatype stop_cause = CancelledBefore | DeadlineBefore | StepCancelled | DeadlineInStep | StepFailed

fun own_status :: "stop_cause \<Rightarrow> step_status" where
  "own_status StepCancelled = Cancelled"
| "own_status DeadlineInStep = Failed"
| "own_status StepFailed = Failed"
| "own_status _ = Skipped"

definition needs :: "workflow_def \<Rightarrow> string rel" where
  "needs wd = {(a, d). \<exists>sd. map_of (w_steps wd) a = Some sd \<and> d \<in> declared_deps sd}"

text \<open>\<open>None\<close> is a loop that reaches its end. Before the step where it stops every step has succeeded; after
  it, a failure blocks the steps that need the failed one, and everything else is skipped.\<close>

definition final_status :: "workflow_def \<Rightarrow> string list \<Rightarrow> (stop_cause \<times> string) option \<Rightarrow> string \<Rightarrow> step_status" where
  "final_status wd order v x = (case v of
     None \<Rightarrow> Success
   | Some (c, f) \<Rightarrow>
       if x \<in> set (takeWhile (\<lambda>y. y \<noteq> f) order) then Success
       else if x = f then own_status c
       else if c = StepFailed \<and> (x, f) \<in> (needs wd)\<^sup>+ then Blocked else Skipped)"

definition spec_run_status :: "string list \<Rightarrow> (stop_cause \<times> string) option \<Rightarrow> run_status" where
  "spec_run_status order v = (case v of
     None \<Rightarrow> if order = [] then RunFailed else RunSuccess
   | Some (c, f) \<Rightarrow> if c \<in> {CancelledBefore, StepCancelled} then RunCancelled
       else if takeWhile (\<lambda>y. y \<noteq> f) order \<noteq> [] then RunPartial else RunFailed)"

section \<open>The abstraction\<close>

definition status_of :: "(string \<times> step_result) list \<Rightarrow> string \<Rightarrow> step_status option" where
  "status_of results x = map_option sr_status (map_of results x)"

lemma status_of_update [simp]: "status_of (AList.update k r results) = (status_of results)(k \<mapsto> sr_status r)"
  by (auto simp: status_of_def fun_eq_iff update_conv')

lemma keys_update: "k \<in> set (keys results) \<Longrightarrow> keys (AList.update k r results) = keys results"
  by (simp add: update_keys)

lemma map_of_unlisted: "map_of results k = None \<longleftrightarrow> k \<notin> set (keys results)"
  by (metis list.set_map map_of_eq_None_iff)

lemma mark_statuses_Some:
  "mark_statuses marks results = Some results' \<Longrightarrow>
     keys results' = keys results \<and> status_of results' = status_of results ++ map_of (rev marks)"
proof (induction marks results rule: mark_statuses.induct)
  case (2 step st marks results)
  from "2.prems" obtain r where r: "map_of results step = Some r" by (auto split: option.splits)
  with "2.prems" have "mark_statuses marks (AList.update step (r\<lparr>sr_status := st\<rparr>) results) = Some results'" by simp
  from "2.IH"[OF r this] show ?case
    using map_of_unlisted[of results step] r by (auto simp: keys_update map_add_def fun_eq_iff split: option.splits)
qed simp

lemma mark_statuses_known:
  "set (keys marks) \<subseteq> set (keys results) \<Longrightarrow> mark_statuses marks results \<noteq> None"
proof (induction marks results rule: mark_statuses.induct)
  case (2 step st marks results)
  then obtain r where r: "map_of results step = Some r"
    using map_of_unlisted[of results step] by (cases "map_of results step") auto
  have "set (keys marks) \<subseteq> set (keys (AList.update step (r\<lparr>sr_status := st\<rparr>) results))"
    using 2(2) keys_update[of step results] by auto
  from "2.IH"[OF r this] r show ?case by simp
qed simp

lemma keys_poison: "keys (poison edges P xs) = xs"
  by (induction xs arbitrary: P) auto

lemma keys_marks:
  assumes "propagate_failure order edges f = Some marks"
  shows "set (keys marks) \<subseteq> set order"
proof -
  have "keys marks = tl (dropWhile (\<lambda>s. s \<noteq> f) order)"
    using assms by (auto simp: propagate_failure_def keys_poison split: if_splits)
  moreover have "set (tl xs) \<subseteq> set xs" for xs :: "'a list" by (cases xs) auto
  moreover have "set (dropWhile (\<lambda>s. s \<noteq> f) order) \<subseteq> set order" by (auto dest: set_dropWhileD)
  ultimately show ?thesis by (metis subset_trans)
qed

section \<open>One pass\<close>

text \<open>The statuses after a pass that stops, from those before it.\<close>

fun halted :: "string list \<Rightarrow> (string \<times> string list) list \<Rightarrow> string \<Rightarrow> stop_cause \<Rightarrow> (string \<Rightarrow> step_status option)
    \<Rightarrow> (string \<Rightarrow> step_status option) \<Rightarrow> bool" where
  "halted order edges f StepFailed st st' \<longleftrightarrow>
     (\<exists>marks. propagate_failure order edges f = Some marks \<and> st' = st(f \<mapsto> Failed) ++ map_of (rev marks))"
| "halted order edges f StepCancelled st st' \<longleftrightarrow> st' = st(f \<mapsto> Cancelled)"
| "halted order edges f DeadlineInStep st st' \<longleftrightarrow> st' = st(f \<mapsto> Failed)"
| "halted order edges f _ st st' \<longleftrightarrow> st' = st"

definition late :: "flow \<Rightarrow> bool" where
  "late fl \<longleftrightarrow> (\<exists>te \<in> set (fl_errors fl). te_code te = ''StepTimeoutError'')"

definition passes ::
  "string list \<Rightarrow> (string \<times> string list) list \<Rightarrow> string \<Rightarrow> flow \<Rightarrow> flow \<times> bool \<Rightarrow> bool" where
  "passes order edges step fl x \<longleftrightarrow> keys (fl_steps (fst x)) = keys (fl_steps fl)
     \<and> (\<exists>es. fl_errors (fst x) = fl_errors fl @ es)
     \<and> (if snd x
        then status_of (fl_steps (fst x)) = (status_of (fl_steps fl))(step \<mapsto> Success) \<and> fl_cancelled (fst x) = fl_cancelled fl
        else \<exists>c. halted order edges step c (status_of (fl_steps fl)) (status_of (fl_steps (fst x)))
          \<and> (fl_cancelled (fst x) \<longleftrightarrow> fl_cancelled fl \<or> c \<in> {CancelledBefore, StepCancelled})
          \<and> (c \<in> {DeadlineBefore, DeadlineInStep} \<longrightarrow> late (fst x)))"

lemma yields_deadline_stop:
  "recording_ok b w \<Longrightarrow> yields b (\<lambda>fl'. fl_steps fl' = fl_steps fl \<and> fl_cancelled fl' = fl_cancelled fl
      \<and> (\<exists>es. fl_errors fl' = fl_errors fl @ es) \<and> late fl') (deadline_stop w rn d active fl)"
  unfolding deadline_stop_def Let_def
  by (intro yields_rules) (simp_all add: run_keys_def late_def to_model_def deadline_error_def)

lemma yields_stop_scheduling:
  assumes "b \<Longrightarrow> step \<in> set (pw_order pw) \<and> set (pw_order pw) \<subseteq> set (keys (fl_steps fl))"
  shows "yields b (\<lambda>fl'. keys (fl_steps fl') = keys (fl_steps fl) \<and> fl_errors fl' = fl_errors fl \<and> fl_cancelled fl' = fl_cancelled fl
      \<and> (\<exists>marks. propagate_failure (pw_order pw) edges step = Some marks
           \<and> status_of (fl_steps fl') = status_of (fl_steps fl) ++ map_of (rev marks)))
    (stop_scheduling pw edges step fl)"
proof (cases "propagate_failure (pw_order pw) edges step")
  case None
  with assms show ?thesis by (auto simp: stop_scheduling_def propagate_failure_def split: if_splits intro!: yields_raise)
next
  case (Some marks)
  show ?thesis
  proof (cases "mark_statuses marks (fl_steps fl)")
    case None
    with mark_statuses_known[of marks "fl_steps fl"] keys_marks[OF Some] assms have "\<not> b" by blast
    then show ?thesis by (simp add: stop_scheduling_def Some None yields_raise)
  next
    case (Some results)
    with \<open>propagate_failure (pw_order pw) edges step = Some marks\<close> mark_statuses_Some[OF Some]
    show ?thesis by (simp add: stop_scheduling_def yields_ok)
  qed
qed

lemma yields_after_step:
  assumes "recording_ok b w" and "outcome_typed aw out"
    and "b \<Longrightarrow> step \<in> set (pw_order pw) \<and> set (pw_order pw) \<subseteq> set (keys (fl_steps fl'))"
    and fl: "keys (fl_steps fl') = keys (fl_steps fl)" "fl_errors fl' = fl_errors fl" "fl_cancelled fl' = fl_cancelled fl"
    and st: "status_of (fl_steps fl') = (status_of (fl_steps fl))(step \<mapsto> so_status out)"
  shows "yields b (passes (pw_order pw) edges step fl) (after_step w rn fw pw edges d step out fl')"
proof -
  have "so_status out \<in> {Success, Cancelled, Failed}"
    using assms(2) by (cases "so_status out"; cases "so_error out") (auto simp: outcome_typed_def)
  then consider "so_status out = Success" | "so_status out = Cancelled" | (failed) "so_status out = Failed" by blast
  then show ?thesis
  proof cases
    case 1
    then show ?thesis using fl st by (simp add: after_step_def yields_ok passes_def)
  next
    case 2
    have "passes (pw_order pw) edges step fl (fl'\<lparr>fl_cancelled := True\<rparr>, False)"
      unfolding passes_def using fl st 2 by (auto intro!: exI[of _ StepCancelled])
    with 2 show ?thesis by (simp add: after_step_def yields_ok)
  next
    case failed
    have deadline: "yields b (\<lambda>fl2. passes (pw_order pw) edges step fl (fl2, False)) (deadline_stop w rn d (Some step) fl')"
      using fl st failed
      by (intro yields_mono[OF yields_deadline_stop[OF assms(1)]]) (auto simp: passes_def intro!: exI[of _ DeadlineInStep])
    have stop: "yields b (\<lambda>fl2. passes (pw_order pw) edges step fl (fl2, False)) (stop_scheduling pw edges step fl')"
      using fl st failed
      by (intro yields_mono[OF yields_stop_scheduling[OF assms(3)]]) (auto simp: passes_def intro!: exI[of _ StepFailed])
    have "yields b (passes (pw_order pw) edges step fl)
      (andthen (if c then deadline_stop w rn d (Some step) fl' else stop_scheduling pw edges step fl') (\<lambda>fl2. ok (fl2, False)))" for c
      by (rule yields_andthen[where P = "\<lambda>fl2. passes (pw_order pw) edges step fl (fl2, False)"])
        (auto intro!: yields_ok deadline stop)
    then show ?thesis by (simp add: after_step_def failed)
  qed
qed

text \<open>When returning is claimed: what prepare has checked, and an outside that lets every step end.\<close>

definition flow_ok :: "bool \<Rightarrow> setting \<Rightarrow> run_world \<Rightarrow> flow_world \<Rightarrow> prepared_workflow \<Rightarrow> bool" where
  "flow_ok b w rn fw pw \<longleftrightarrow> (b \<longrightarrow> never_raises (se_recording w) \<and> (\<forall>step. well_behaved w (rn_agent rn step))
     \<and> set (pw_order pw) \<subseteq> set (keys (w_steps (pw_workflow pw))) \<and> set (pw_order pw) \<subseteq> set (keys (pw_steps pw))
     \<and> (\<forall>step sd. (step, sd) \<in> set (w_steps (pw_workflow pw)) \<longrightarrow> input_source_shape (s_inputs sd) = None)
     \<and> (\<exists>r. fw_realpath fw (pw_workspace pw) = Inr r))"

lemma flow_ok_recording: "flow_ok b w rn fw pw \<Longrightarrow> recording_ok b w"
  by (auto simp: flow_ok_def recording_ok_def)

lemma after_first_split: "length (split_on c s) \<ge> 2 \<Longrightarrow> after_first c s \<noteq> None"
  by (induction s) (auto split: list.splits)

lemma shape_after_first:
  "input_source_shape ins = None \<Longrightarrow> (n, source) \<in> set ins \<Longrightarrow> after_first (CHR ''.'') source \<noteq> None"
  by (induction ins rule: input_source_shape.induct)
    (use after_first_split[of "CHR ''.''" source] in \<open>auto simp: var_source_def step_source_def Let_def split: if_splits\<close>)

lemma yields_redacted_inputs:
  "(b \<Longrightarrow> \<forall>(n, source) \<in> set ins. after_first (CHR ''.'') source \<noteq> None) \<Longrightarrow>
   finishes b (redacted_inputs vars upstream ins acc)"
proof (induction ins arbitrary: acc)
  case (Cons inp ins)
  then have r: "finishes b (redacted_inputs vars upstream ins acc)" for acc by auto
  have "finishes b (lift (input_value vars upstream (fst inp) (snd inp)))"
    using Cons.prems by (intro yields_lift) (auto simp: input_value_def split: option.splits prod.splits)
  then show ?case using r by (auto intro!: yields_rules)
qed (simp add: yields_ok)

lemma yields_resolved_inputs:
  "(b \<Longrightarrow> input_source_shape (s_inputs sd) = None) \<Longrightarrow> finishes b (resolved_inputs sd vars upstream prompt)"
  unfolding resolved_inputs_def
  by (intro yields_andthen_any yields_redacted_inputs yields_redacting yields_ok) (auto dest: shape_after_first)

lemma yields_launch_step:
  assumes "flow_ok b w rn fw pw" and "b \<Longrightarrow> input_source_shape (s_inputs sd) = None"
    and "b \<Longrightarrow> step \<in> set (pw_order pw) \<and> set (pw_order pw) \<subseteq> set (keys (fl_steps fl))"
    and "step \<in> set (keys (fl_steps fl))"
    and fl': "keys (fl_steps fl') = keys (fl_steps fl)" "fl_errors fl' = fl_errors fl" "fl_cancelled fl' = fl_cancelled fl"
    and st: "\<forall>x. x \<noteq> step \<longrightarrow> status_of (fl_steps fl') x = status_of (fl_steps fl) x"
  shows "yields b (passes (pw_order pw) edges step fl)
    (launch_step w rn fw pw edges d step sd pre r cwd upstream prompt fl')"
  unfolding launch_step_def
proof (rule yields_andthen[OF yields_execute_step[of b w "rn_agent rn step"]])
  show "b \<Longrightarrow> well_behaved w (rn_agent rn step)" using assms(1) by (simp add: flow_ok_def)
  fix out assume out: "outcome_typed (rn_agent rn step) out"
  note rec = flow_ok_recording[OF assms(1)]
  show "yields b (passes (pw_order pw) edges step fl)
     (andthen (settle_step_result r out (rn_attempt rn step) (s_agent sd) (Some (ps_provider pre))) (\<lambda>r1.
     andthen (resolved_inputs sd (pw_variables pw) upstream prompt) (\<lambda>ins.
     followed (step_finished w rn step (s_agent sd) (so_session_id out) ''info'' (so_status out) (fst (snd (rn_attempt rn step))))
       (after_step w rn fw pw edges d step out
         (with_result step (r1\<lparr>sr_inputs_resolved := ins\<rparr>) (fl'\<lparr>fl_degraded := fl_degraded fl' \<or> so_degraded out\<rparr>))))))"
  proof (rule yields_andthen[OF yields_settle], intro yields_andthen_any yields_resolved_inputs assms(2) yields_followed
      yields_step_finished rec yields_after_step[OF rec out])
    fix r1 :: step_result and ins
    assume r1: "sr_status r1 = so_status out \<and> sr_step_id r1 = sr_step_id r \<and> sr_attempts r1 = [attempt_of_outcome out (rn_attempt rn step)]
      \<and> sr_errors r1 = (case so_error out of None \<Rightarrow> sr_errors r | Some e \<Rightarrow> [to_model e])"
    let ?fl = "with_result step (r1\<lparr>sr_inputs_resolved := ins\<rparr>) (fl'\<lparr>fl_degraded := fl_degraded fl' \<or> so_degraded out\<rparr>)"
    show k: "keys (fl_steps ?fl) = keys (fl_steps fl)"
      using assms(4) fl'(1) by (simp add: with_result_def keys_update)
    show "fl_errors ?fl = fl_errors fl" "fl_cancelled ?fl = fl_cancelled fl" using fl' by (simp_all add: with_result_def)
    show "status_of (fl_steps ?fl) = (status_of (fl_steps fl))(step \<mapsto> so_status out)"
      using r1 st by (auto simp: with_result_def fun_eq_iff)
    assume b
    with assms(3) k show "step \<in> set (pw_order pw) \<and> set (pw_order pw) \<subseteq> set (keys (fl_steps ?fl))" by simp
  qed simp_all
qed

lemma input_texts_error:
  "input_texts_of vt up None ins = Inl e \<Longrightarrow> err_class e = ValidationError"
  by (induction ins) (auto simp: bindE_def validation_error_def wrap_untrusted_def Let_def split: sum.splits if_splits option.splits)

lemma render_from_error: "render_from prompt vars ins pos ts = Inl e \<Longrightarrow> err_class e = ValidationError"
  by (induction prompt vars ins pos ts rule: render_from.induct)
    (auto simp: bindE_def validation_error_def split: sum.splits option.splits)

lemma render_prompt_error: "render_prompt sd vars up None = Inl e \<Longrightarrow> err_class e = ValidationError"
  by (auto simp: render_prompt_def render_def bindE_def Let_def intro: input_texts_error render_from_error split: sum.splits)

text \<open>Composing a prompt fails only with an error that the loop catches.\<close>

lemma compose_error:
  assumes "compose fw pw step sd results = Inl x" and "fw_realpath fw (pw_workspace pw) = Inr p"
  shows "\<exists>e. x = Zig e \<and> err_class e \<in> {ValidationError, ResourceLimitError}"
  using assms render_prompt_error[of sd "pw_variables pw" "upstream_inputs sd results"]
  by (auto simp: compose_def bindE_def resolve_step_dir_def size_checked_def Let_def step_dir_error_def prompt_too_long_def
      split: sum.splits option.splits if_splits)

lemma yields_composing:
  assumes "flow_ok b w rn fw pw"
  shows "yields b (\<lambda>c. case c of Inl e \<Rightarrow> True | Inr y \<Rightarrow> compose fw pw step sd results = Inr y)
    (attempt_of (typed [ValidationError, ResourceLimitError]) (lift (compose fw pw step sd results)))"
proof (cases "compose fw pw step sd results")
  case (Inl x)
  have "b \<Longrightarrow> typed [ValidationError, ResourceLimitError] x \<noteq> None"
    using assms compose_error[OF Inl] by (auto simp: flow_ok_def typed_def)
  with Inl show ?thesis
    by (auto simp: lift_def attempt_of_def raise_def yields_def wp_def split: option.splits)
qed (simp add: lift_def attempt_of_def ok_def yields_def wp_def)

lemma yields_fail_before_launch:
  "recording_ok b w \<Longrightarrow> yields b (\<lambda>r1. sr_status r1 = Failed) (fail_before_launch w rn step agent r e)"
  unfolding fail_before_launch_def by (intro yields_followed yields_emit yields_step_finished yields_ok run_event_types) simp_all

lemma yields_start_step:
  assumes ok: "flow_ok b w rn fw pw" and ord: "b \<Longrightarrow> step \<in> set (pw_order pw) \<and> set (pw_order pw) \<subseteq> set (keys (fl_steps fl))"
  shows "yields b (passes (pw_order pw) edges step fl) (start_step w rn fw pw edges d step fl)"
proof (cases "map_of (w_steps (pw_workflow pw)) step = None \<or> map_of (pw_steps pw) step = None \<or> map_of (fl_steps fl) step = None")
  case True
  then have "\<not> b" using ok ord map_of_unlisted unfolding flow_ok_def by (metis subsetD)
  with True show ?thesis by (auto simp: start_step_def yields_raise split: option.splits)
next
  case False
  then obtain sd pre r0 where m: "map_of (w_steps (pw_workflow pw)) step = Some sd" "map_of (pw_steps pw) step = Some pre"
    "map_of (fl_steps fl) step = Some r0" by auto
  have shape: "input_source_shape (s_inputs sd) = None" if b
    using ok map_of_SomeD[OF m(1)] that unfolding flow_ok_def by blast
  have k: "step \<in> set (keys (fl_steps fl))" using m(3) map_of_unlisted[of "fl_steps fl" step] by auto
  note rec = flow_ok_recording[OF ok]
  define r where "r = r0\<lparr>sr_status := Failed\<rparr>"
  have keys: "keys (fl_steps (with_result step r1 fl)) = keys (fl_steps fl)" for r1
    using k by (simp add: with_result_def keys_update)
  have early: "yields b (\<lambda>fl2. passes (pw_order pw) edges step fl (fl2, False)) (stop_scheduling pw edges step (with_result step r1 fl))"
    if "sr_status r1 = Failed" for r1
    using that keys ord
    by (intro yields_mono[OF yields_stop_scheduling]) (auto simp: passes_def with_result_def intro!: exI[of _ StepFailed])
  have fail: "yields b (passes (pw_order pw) edges step fl) (andthen (fail_before_launch w rn step (s_agent sd) r e) (\<lambda>r1.
      andthen (stop_scheduling pw edges step (with_result step r1 fl)) (\<lambda>fl'. ok (fl', False))))" for e
    by (rule yields_andthen[OF yields_fail_before_launch[OF rec]], rule yields_andthen[OF early]) (auto intro: yields_ok)
  have launch: "yields b (passes (pw_order pw) edges step fl)
      (launch_step w rn fw pw edges d step sd pre r cwd upstream prompt (with_result step r fl))" for cwd upstream prompt
    using keys by (intro yields_launch_step ok shape ord k) (auto simp: with_result_def)
  show ?thesis
    unfolding start_step_def m r_def[symmetric] option.case prod.case Let_def
    by (intro yields_followed yields_emit rec run_event_types yields_andthen_any[OF yields_mono[OF yields_composing[OF ok]]])
      (auto intro!: fail launch split: sum.splits)
qed

lemma yields_next_step:
  assumes ok: "flow_ok b w rn fw pw" and ord: "b \<Longrightarrow> step \<in> set (pw_order pw) \<and> set (pw_order pw) \<subseteq> set (keys (fl_steps fl))"
  shows "yields b (passes (pw_order pw) edges step fl) (next_step w rn fw pw edges d step fl)"
proof -
  note rec = flow_ok_recording[OF ok]
  have "passes (pw_order pw) edges step fl (fl\<lparr>fl_cancelled := True\<rparr>, False)"
    by (auto simp: passes_def intro!: exI[of _ CancelledBefore])
  moreover have "yields b (passes (pw_order pw) edges step fl) (andthen (deadline_stop w rn d None fl) (\<lambda>fl'. ok (fl', False)))"
    by (rule yields_andthen[OF yields_deadline_stop[OF rec]], rule yields_ok) (auto simp: passes_def intro!: exI[of _ DeadlineBefore])
  ultimately show ?thesis
    unfolding next_step_def
    by (intro yields_if yields_start_step[OF ok ord] yields_followed yields_run_event rec run_event_types yields_ok) auto
qed

section \<open>The whole loop\<close>

lemma needs_depends:
  assumes "step_edges wd = Inr edges"
  shows "sched.depends wd = needs wd"
proof -
  have "(b \<in> set (workflow_deps wd a)) = ((a, b) \<in> needs wd)" for a b
  proof (cases "map_of (w_steps wd) a")
    case None
    have "keys edges = keys (w_steps wd)"
      using assms collect_edges_ok by (fastforce simp: step_edges_def raise_problems_def split: prod.splits if_splits)
    with None have "map_of edges a = None" using map_of_unlisted[of edges a] map_of_unlisted[of "w_steps wd" a] by simp
    with None show ?thesis using step_edges_workflow_deps[OF assms, of a] by (simp add: needs_def get_or_def)
  next
    case (Some sd)
    with step_edges_ok(2)[OF assms Some] step_edges_workflow_deps[OF assms, of a] show ?thesis by (simp add: needs_def)
  qed
  then show ?thesis by (auto simp: sched.depends_def)
qed

definition settled_flow :: "workflow_def \<Rightarrow> string list \<Rightarrow> (stop_cause \<times> string) option \<Rightarrow> flow \<Rightarrow> bool" where
  "settled_flow wd order v fl \<longleftrightarrow> keys (fl_steps fl) = keys (w_steps wd)
     \<and> (\<forall>x \<in> set order. status_of (fl_steps fl) x = Some (final_status wd order v x))
     \<and> (\<forall>c f. v = Some (c, f) \<longrightarrow> f \<in> set order)
     \<and> (fl_cancelled fl \<longleftrightarrow> (\<exists>c f. v = Some (c, f) \<and> c \<in> {CancelledBefore, StepCancelled}))
     \<and> ((\<exists>c f. v = Some (c, f) \<and> c \<in> {DeadlineBefore, DeadlineInStep}) \<longrightarrow> late fl)"

lemma takeWhile_before: "f \<notin> set xs \<Longrightarrow> takeWhile (\<lambda>y. y \<noteq> f) (xs @ f # ys) = xs"
  by (induction xs) auto

lemma halted_final:
  assumes w: "distinct_steps wd" "topo_order wd = Inr order" "step_edges wd = Inr edges" and o: "order = xs @ f # rest"
    and xs: "\<forall>x \<in> set xs. st x = Some Success" and rest: "\<forall>x \<in> set (f # rest). st x = Some Skipped"
    and h: "halted order edges f c st st'" and x: "x \<in> set order"
  shows "st' x = Some (final_status wd order (Some (c, f)) x)"
proof -
  have d: "distinct order" using sched.plan_complete[OF w(1,2)] by blast
  have f: "takeWhile (\<lambda>y. y \<noteq> f) order = xs" "f \<notin> set xs" "f \<notin> set rest"
    using d o takeWhile_before[of f xs rest] by auto
  have m: "propagate_failure order edges f =
      Some (map (\<lambda>s. (s, if (s, f) \<in> (needs wd)\<^sup>+ then Blocked else Skipped)) rest)"
    using sched.failure_blocks_dependents[OF w(1,2) step_edges_workflow_deps[OF w(3)] o] needs_depends[OF w(3)] by simp
  have late: "map_of (rev (map (\<lambda>s. (s, g s)) rest)) = (\<lambda>s. if s \<in> set rest then Some (g s) else None)"
    for g :: "string \<Rightarrow> step_status"
    using map_of_map_restrict[of g "rev rest"] by (auto simp: rev_map restrict_map_def fun_eq_iff)
  from x o consider (before) "x \<in> set xs" | (self) "x = f" | (after) "x \<in> set rest" by auto
  then show ?thesis
  proof cases
    case before
    with d o have "x \<noteq> f" "x \<notin> set rest" by auto
    with before h xs show ?thesis
      by (cases c) (auto simp: final_status_def f(1) m late map_add_def)
  next
    case self
    with f h rest show ?thesis by (cases c) (auto simp: final_status_def f(1) m late map_add_def)
  next
    case after
    with d o have "x \<noteq> f" "x \<notin> set xs" by auto
    with after h rest show ?thesis by (cases c) (auto simp: final_status_def f(1) m late map_add_def)
  qed
qed

lemma yields_run_pending:
  assumes ok: "flow_ok b w rn fw pw" and w: "distinct_steps (pw_workflow pw)" "topo_order (pw_workflow pw) = Inr (pw_order pw)"
    "step_edges (pw_workflow pw) = Inr edges"
  shows "pw_order pw = xs @ pending \<Longrightarrow> keys (fl_steps fl) = keys (w_steps (pw_workflow pw)) \<Longrightarrow>
    \<forall>x \<in> set xs. status_of (fl_steps fl) x = Some Success \<Longrightarrow>
    \<forall>x \<in> set pending. status_of (fl_steps fl) x = Some Skipped \<Longrightarrow> \<not> fl_cancelled fl \<Longrightarrow>
    yields b (\<lambda>fl'. (\<exists>v. settled_flow (pw_workflow pw) (pw_order pw) v fl') \<and> (\<exists>es. fl_errors fl' = fl_errors fl @ es))
      (run_pending w rn fw pw edges d pending fl)"
proof (induction pending arbitrary: xs fl)
  case Nil
  then have "settled_flow (pw_workflow pw) (pw_order pw) None fl" by (simp add: settled_flow_def final_status_def)
  then show ?case by (auto intro!: yields_ok)
next
  case (Cons step pending)
  let ?wd = "pw_workflow pw" and ?order = "pw_order pw"
  have complete: "distinct ?order" "set ?order = set (keys (w_steps ?wd))" using sched.plan_complete[OF w(1,2)] by auto
  have ord: "b \<Longrightarrow> step \<in> set ?order \<and> set ?order \<subseteq> set (keys (fl_steps fl))"
    using Cons.prems(1) Cons.prems(2) complete(2) by (metis in_set_conv_decomp order_refl)
  have fresh: "step \<notin> set xs" "step \<notin> set pending" using Cons.prems(1) complete(1) by auto
  show ?case
    unfolding run_pending.simps
  proof (rule yields_andthen[OF yields_next_step[OF ok ord]])
    fix x assume p: "passes ?order edges step fl x"
    then obtain es where es: "fl_errors (fst x) = fl_errors fl @ es" and k: "keys (fl_steps (fst x)) = keys (fl_steps fl)"
      by (auto simp: passes_def)
    show "yields b (\<lambda>fl'. (\<exists>v. settled_flow ?wd ?order v fl') \<and> (\<exists>es. fl_errors fl' = fl_errors fl @ es))
        (if snd x then run_pending w rn fw pw edges d pending (fst x) else ok (fst x))"
    proof (cases "snd x")
      case True
      with p have st: "status_of (fl_steps (fst x)) = (status_of (fl_steps fl))(step \<mapsto> Success)" "\<not> fl_cancelled (fst x)"
        using Cons.prems(5) by (simp_all add: passes_def)
      have "yields b (\<lambda>fl'. (\<exists>v. settled_flow ?wd ?order v fl') \<and> (\<exists>es. fl_errors fl' = fl_errors (fst x) @ es))
          (run_pending w rn fw pw edges d pending (fst x))"
        by (rule Cons.IH[of "xs @ [step]"]) (use Cons.prems k st fresh in auto)
      then show ?thesis using True es by (auto elim!: yields_mono)
    next
      case False
      with p obtain c where h: "halted ?order edges step c (status_of (fl_steps fl)) (status_of (fl_steps (fst x)))"
        and c: "fl_cancelled (fst x) \<longleftrightarrow> c \<in> {CancelledBefore, StepCancelled}"
          "c \<in> {DeadlineBefore, DeadlineInStep} \<longrightarrow> late (fst x)"
        using Cons.prems(5) by (auto simp: passes_def)
      have "settled_flow ?wd ?order (Some (c, step)) (fst x)"
        unfolding settled_flow_def
        using k c Cons.prems(1,2) halted_final[OF w Cons.prems(1,3,4) h] by auto
      then show ?thesis using False es by (auto intro!: yields_ok)
    qed
  qed
qed

lemma map_of_scaffold: "map_of (scaffold wd) x = map_option (\<lambda>sd. blank_step x (s_agent sd) Skipped (s_inputs sd)) (map_of (w_steps wd) x)"
proof -
  have "map_of (map (\<lambda>(k, sd). (k, g k sd)) xs) x = map_option (g x) (map_of xs x)" for g :: "string \<Rightarrow> step_def \<Rightarrow> step_result" and xs
    by (induction xs) auto
  then show ?thesis by (simp add: scaffold_def)
qed

lemma status_of_scaffold: "x \<in> set (keys (w_steps wd)) \<Longrightarrow> status_of (scaffold wd) x = Some Skipped"
  using map_of_unlisted[of "w_steps wd" x] by (cases "map_of (w_steps wd) x") (auto simp: status_of_def map_of_scaffold blank_step_def)

lemma keys_scaffold [simp]: "keys (scaffold wd) = keys (w_steps wd)"
  by (simp add: scaffold_def case_prod_beta)

lemma yields_run_steps:
  assumes ok: "flow_ok b w rn fw pw" and w: "distinct_steps (pw_workflow pw)" "topo_order (pw_workflow pw) = Inr (pw_order pw)"
  shows "yields b (\<lambda>fl. (\<exists>v. settled_flow (pw_workflow pw) (pw_order pw) v fl) \<and> (\<exists>es. fl_errors fl = errs @ es))
    (run_steps w rn fw pw d (blank_flow (pw_workflow pw) errs))"
proof -
  from w(2) obtain edges where e: "step_edges (pw_workflow pw) = Inr edges" by (rule topo_order_Inr)
  have "set (pw_order pw) = set (keys (w_steps (pw_workflow pw)))" using sched.plan_complete[OF w] by blast
  then have "\<forall>x \<in> set (pw_order pw). status_of (scaffold (pw_workflow pw)) x = Some Skipped" using status_of_scaffold by blast
  then show ?thesis
    using yields_run_pending[OF ok w e, of "[]" "pw_order pw" "blank_flow (pw_workflow pw) errs"]
    by (simp add: run_steps_def e blank_flow_def)
qed

section \<open>The status of the run\<close>

lemma statuses_settled:
  assumes "distinct (keys results)"
  shows "map (sr_status \<circ> snd) results = map (\<lambda>x. the (status_of results x)) (keys results)"
  using assms by (auto simp: status_of_def)

lemma own_status_cases: "own_status c \<noteq> Success" "own_status c = Cancelled \<longleftrightarrow> c = StepCancelled"
  by (cases c; simp)+

lemma final_success:
  assumes "distinct order" and "x \<in> set order" and "v = Some (c, f)" and "f \<in> set order"
  shows "final_status wd order v x = Success \<longleftrightarrow> x \<in> set (takeWhile (\<lambda>y. y \<noteq> f) order)"
  using assms own_status_cases by (auto simp: final_status_def)

lemma final_cancelled:
  assumes "f \<in> set order"
  shows "(\<exists>x \<in> set order. final_status wd order (Some (c, f)) x = Cancelled) \<longleftrightarrow> c = StepCancelled"
proof -
  have "f \<notin> set (takeWhile (\<lambda>y. y \<noteq> f) order)" by (auto dest: set_takeWhileD)
  then show ?thesis using assms own_status_cases by (auto simp: final_status_def split: if_splits)
qed

lemma aggregate_settled:
  assumes d: "distinct_steps wd" and o: "distinct order" "set order = set (keys (w_steps wd))" and s: "settled_flow wd order v fl"
  shows "aggregate_status (map (sr_status \<circ> snd) (fl_steps fl)) (fl_cancelled fl) = spec_run_status order v"
proof -
  let ?sts = "map (sr_status \<circ> snd) (fl_steps fl)"
  have k: "keys (fl_steps fl) = keys (w_steps wd)" using s by (simp add: settled_flow_def)
  then have "?sts = map (\<lambda>x. the (status_of (fl_steps fl) x)) (keys (w_steps wd))"
    using statuses_settled[of "fl_steps fl"] d by (simp add: distinct_steps_def)
  also have "\<dots> = map (final_status wd order v) (keys (w_steps wd))"
    using s o(2) by (auto simp: settled_flow_def)
  finally have sts: "?sts = map (final_status wd order v) (keys (w_steps wd))" .
  have set: "set ?sts = final_status wd order v ` set order" by (simp only: sts o(2) set_map)
  have ne: "?sts = [] \<longleftrightarrow> order = []" using o(2) by (metis sts Nil_is_map_conv set_empty)
  show ?thesis
  proof (cases v)
    case None
    then have "\<not> fl_cancelled fl" "set ?sts = (if order = [] then {} else {Success})"
      using s set by (simp_all add: settled_flow_def final_status_def image_constant_conv)
    then show ?thesis using ne None unfolding aggregate_status_def list_ex_iff list_all_iff spec_run_status_def by auto
  next
    case (Some cf)
    obtain c f where v: "v = Some (c, f)" using Some by (cases cf) simp
    have f: "f \<in> set order" and can: "fl_cancelled fl \<longleftrightarrow> c \<in> {CancelledBefore, StepCancelled}"
      using s v by (auto simp: settled_flow_def)
    have "list_ex (\<lambda>st. st = Cancelled) ?sts \<longleftrightarrow> c = StepCancelled"
      by (simp only: list_ex_iff set v bex_simps final_cancelled[OF f])
    moreover have "(\<exists>x \<in> set order. final_status wd order v x = Success) \<longleftrightarrow> (\<exists>x. x \<in> set (takeWhile (\<lambda>y. y \<noteq> f) order))"
      using final_success[OF o(1) _ v f] by (meson set_takeWhileD)
    then have "list_ex (\<lambda>st. st = Success) ?sts \<longleftrightarrow> takeWhile (\<lambda>y. y \<noteq> f) order \<noteq> []"
      by (simp only: list_ex_iff set bex_simps ex_in_conv set_empty not_False_eq_True)
    moreover have "\<not> list_all (\<lambda>st. st = Success) ?sts"
      using final_success[OF o(1) f v f] f unfolding list_all_iff set by (auto dest: set_takeWhileD)
    ultimately show ?thesis using can unfolding aggregate_status_def spec_run_status_def v by auto
  qed
qed

section \<open>The whole run\<close>

text \<open>What a workflow's result says, for a lease that is granted and for one that is not.\<close>

definition told :: "workflow_def \<Rightarrow> string list \<Rightarrow> (stop_cause \<times> string) option \<Rightarrow> run_result \<Rightarrow> bool" where
  "told wd order v rr \<longleftrightarrow> (\<forall>x \<in> set order. status_of (rr_steps rr) x = Some (final_status wd order v x))
     \<and> (\<forall>c f. v = Some (c, f) \<longrightarrow> f \<in> set order) \<and> rr_status rr = spec_run_status order v
     \<and> ((\<exists>c f. v = Some (c, f) \<and> c \<in> {DeadlineBefore, DeadlineInStep}) \<longrightarrow>
          (\<exists>te \<in> set (rr_errors rr). te_code te = ''StepTimeoutError''))"

definition reports :: "run_world \<Rightarrow> workflow_def \<Rightarrow> string list \<Rightarrow> run_result \<Rightarrow> bool" where
  "reports rn wd order rr \<longleftrightarrow> keys (rr_steps rr) = keys (w_steps wd)
     \<and> (if lease_granted rn then \<exists>v. told wd order v rr
        else (\<forall>x \<in> set order. status_of (rr_steps rr) x = Some Skipped) \<and> rr_status rr = RunFailed \<and> rr_errors rr \<noteq> [])"

lemma told_same: "told wd order v rr \<Longrightarrow> same_run rr rr' \<Longrightarrow> told wd order v rr'"
  unfolding told_def same_run_def by auto

lemma reports_same: "reports rn wd order rr \<Longrightarrow> same_run rr rr' \<Longrightarrow> reports rn wd order rr'"
  using told_same[of wd order _ rr rr'] unfolding reports_def by (auto simp: same_run_def split: if_splits)

lemma reports_lease:
  assumes w: "distinct_steps wd" "topo_order wd = Inr order"
    and x: "case x of Inl e \<Rightarrow> \<not> lease_granted rn
      | Inr fl \<Rightarrow> lease_granted rn \<and> (\<exists>v. settled_flow wd order v fl)"
  shows "reports rn wd order (with_flow (flow_of_lease wd errs x) rr)"
proof -
  have o: "distinct order" "set order = set (keys (w_steps wd))" using sched.plan_complete[OF w] by auto
  show ?thesis
  proof (cases x)
    case (Inl e)
    have "set (map (sr_status \<circ> snd) (scaffold wd)) \<subseteq> {Skipped}"
      by (auto simp: scaffold_def blank_step_def)
    then have "aggregate_status (map (sr_status \<circ> snd) (scaffold wd)) False = RunFailed"
      by (cases "map (sr_status \<circ> snd) (scaffold wd)") (auto simp: aggregate_status_def list_ex_iff)
    with Inl x o(2) status_of_scaffold[of _ wd] show ?thesis
      by (simp add: reports_def flow_of_lease_def with_flow_def blank_flow_def)
  next
    case (Inr fl)
    with x obtain v where v: "settled_flow wd order v fl" and l: "lease_granted rn" by auto
    from v l aggregate_settled[OF w(1) o v] Inr show ?thesis
      by (auto simp: reports_def told_def flow_of_lease_def with_flow_def settled_flow_def late_def intro!: exI[of _ v])
  qed
qed

definition workflow_ok :: "bool \<Rightarrow> setting \<Rightarrow> run_world \<Rightarrow> flow_world \<Rightarrow> prepared_workflow \<Rightarrow> bool" where
  "workflow_ok b w rn fw pw \<longleftrightarrow> flow_ok b w rn fw pw \<and> saving_ok b rn
     \<and> opening_ok b rn (pw_no_save pw) (pw_secrets pw) (pw_patterns pw)"

lemma yields_announce_flow: "recording_ok b w \<Longrightarrow> finishes b (announce_flow w rn pw)"
  unfolding announce_flow_def announce_egress_def Let_def
  by (intro yields_rules run_event_types) (simp_all add: run_keys_def)

lemma yields_under_flow:
  assumes "flow_ok b w rn fw pw" and "distinct_steps (pw_workflow pw)" "topo_order (pw_workflow pw) = Inr (pw_order pw)"
  shows "yields b (\<lambda>x. case x of Inl e \<Rightarrow> \<not> lease_granted rn
      | Inr fl \<Rightarrow> lease_granted rn \<and> (\<exists>v. settled_flow (pw_workflow pw) (pw_order pw) v fl))
    (under_lease w rn None (run_steps w rn fw pw d (blank_flow (pw_workflow pw) errs)))"
  by (intro yields_under_lease flow_ok_recording[OF assms(1)] yields_mono[OF yields_run_steps[OF assms]]) blast

lemma yields_execute_workflow:
  assumes ok: "workflow_ok b w rn fw pw" and w: "distinct_steps (pw_workflow pw)" "topo_order (pw_workflow pw) = Inr (pw_order pw)"
  shows "yields b (reports rn (pw_workflow pw) (pw_order pw)) (execute_workflow w rn fw pw)"
proof -
  have fo: "flow_ok b w rn fw pw" and so: "saving_ok b rn" and oo: "opening_ok b rn (pw_no_save pw) (pw_secrets pw) (pw_patterns pw)"
    using ok by (auto simp: workflow_ok_def)
  note rec = flow_ok_recording[OF fo]
  have finish: "yields b (reports rn (pw_workflow pw) (pw_order pw))
      (andthen (close_record w rn deg rr0) (\<lambda>rr. followed (run_log w rn None ''info'' ''run_finished'' [(''kind'', PStr ''workflow''),
         (''target'', PStr (w_name (pw_workflow pw))), (''status'', PStr (run_status_value (rr_status rr))),
         (''duration_ms'', PInt (rn_duration rn))]) (save_result w rn None dir rr)))"
    if r: "reports rn (pw_workflow pw) (pw_order pw) rr0" for deg rr0 dir
    using r by (auto intro!: yields_andthen[OF yields_close_record[OF rec]] yields_followed yields_run_log
        yields_mono[OF yields_save_result[OF so]] simp: run_keys_def intro: reports_same)
  show ?thesis
    unfolding execute_workflow_def Let_def
  proof (rule yields_andthen_any)
    show "finishes b (open_store rn (pw_no_save pw))" by (rule yields_mono[OF yields_open_store[OF oo]]) simp
    fix x :: "string option \<times> typed_error list"
    obtain dir errs where x: "x = (dir, errs)" by (cases x)
    show "yields b (reports rn (pw_workflow pw) (pw_order pw)) (case x of (dir, errs) \<Rightarrow>
       followed (start_recorder rn (pw_secrets pw) (pw_patterns pw) dir (pw_profile pw) (pw_limits pw) (pw_has_render pw))
      (followed (announce_flow w rn pw)
      (andthen (under_lease w rn None (run_steps w rn fw pw (new_deadline (flow_timeout pw) (fw_started fw))
          (blank_flow (pw_workflow pw) errs))) (\<lambda>x.
       andthen (close_record w rn (fl_degraded (flow_of_lease (pw_workflow pw) errs x))
         (with_flow (flow_of_lease (pw_workflow pw) errs x) (blank_flow_result rn pw))) (\<lambda>rr.
       followed (run_log w rn None ''info'' ''run_finished'' [(''kind'', PStr ''workflow''),
         (''target'', PStr (w_name (pw_workflow pw))), (''status'', PStr (run_status_value (rr_status rr))),
         (''duration_ms'', PInt (rn_duration rn))])
      (save_result w rn None dir rr))))))"
      unfolding x prod.case
      by (intro yields_followed yields_start_recorder[OF oo] yields_announce_flow rec
          yields_andthen[OF yields_under_flow[OF fo w]] finish reports_lease[OF w])
  qed
qed

end
