(* ===== verification/Run_Acts.thy ===== *)
theory Run_Acts
  imports Flow_Safety
begin

text \<open>
  The acts of a run: what it does beside recording, in which order. The agents' acts lie between taking
  and freeing the lease, and the save comes after both.
\<close>

section \<open>Kinds of acts\<close>

fun idle :: "act \<Rightarrow> bool" where
  "idle (Emitted em) = True"
| "idle (Logged lc) = True"
| "idle _ = False"

fun agent_act :: "act \<Rightarrow> bool" where
  "agent_act (Spawned pid c) = True"
| "agent_act (Signalled pg g) = True"
| "agent_act (Reaped code) = True"
| "agent_act (DiskRead p) = True"
| "agent_act (DiskWrite p t) = True"
| "agent_act _ = False"

abbreviation agentic :: "act \<Rightarrow> bool" where
  "agentic a \<equiv> idle a \<or> agent_act a"

definition weighty :: "engine \<Rightarrow> act list" where
  "weighty s = filter (\<lambda>a. \<not> idle a) (en_acts s)"

lemma wp_idle:
  assumes "adds idle m" and "\<And>x t. weighty t = weighty s \<Longrightarrow> Q x t" and "\<And>e t. weighty t = weighty s \<Longrightarrow> E e t"
  shows "wp m Q E s"
proof -
  obtain r t where m: "m s = (r, t)" by (cases "m s")
  with assms(1) obtain new where n: "en_acts t = en_acts s @ new" "list_all idle new" unfolding adds_def by (metis snd_conv)
  then have "weighty t = weighty s" by (simp add: weighty_def filter_empty_conv list_all_iff)
  with assms(2,3) show ?thesis by (cases r) (simp_all add: wp_def m)
qed

lemma wp_agentic:
  assumes "adds agentic m" and "\<And>x t mid. list_all agent_act mid \<Longrightarrow> weighty t = weighty s @ mid \<Longrightarrow> Q x t"
    and "\<And>e t mid. list_all agent_act mid \<Longrightarrow> weighty t = weighty s @ mid \<Longrightarrow> E e t"
  shows "wp m Q E s"
proof -
  obtain r t where m: "m s = (r, t)" by (cases "m s")
  with assms(1) obtain new where n: "en_acts t = en_acts s @ new" "list_all agentic new" unfolding adds_def by (metis snd_conv)
  let ?mid = "filter (\<lambda>a. \<not> idle a) new"
  have "weighty t = weighty s @ ?mid" "list_all agent_act ?mid" using n by (auto simp: weighty_def list_all_iff)
  with assms(2,3) show ?thesis by (cases r) (auto simp: wp_def m)
qed

lemma wp_act_weighty: "\<not> idle a \<Longrightarrow> (\<And>t. weighty t = weighty s @ [a] \<Longrightarrow> Q () t) \<Longrightarrow> wp (act a) Q E s"
  by (rule wp_act) (simp add: weighty_def)

section \<open>Recording\<close>

lemma adds_idle_basic [adds_intros]:
  "adds idle (emit_event w em)" "adds idle (mlog w lc)" "adds idle (run_event w t body)" "adds idle (run_error w e)"
  "adds idle (run_log w rn agent level t detail)"
  by (simp_all add: run_event_def run_error_def run_log_def adds_emit adds_mlog)

lemma adds_idle_finished [adds_intros]: "adds idle (step_finished w rn step agent session level st took)"
  unfolding step_finished_def Let_def by (intro adds_intros)

lemma adds_redacting [adds_intros]: "adds P (redacting t)"
  by (auto simp: adds_def redacting_def split: prod.splits)

lemma adds_lift [adds_intros]: "adds P (lift r)"
  unfolding lift_def by (cases r) (auto intro: adds_intros)

lemma adds_settle [adds_intros]: "adds P (settle_step_result step out tm agent provider)"
  unfolding settle_step_result_def by (intro adds_intros)

lemma adds_agentic: "adds idle m \<Longrightarrow> adds agentic m"
  by (erule adds_mono) simp

lemma adds_agentic_step [adds_intros]: "adds agentic (execute_step w cx aw)"
proof (rule adds_mono[OF adds_execute_step])
  fix a assume "step_permitted (calls_of aw) (aw_launch aw) cx a"
  then show "agentic a" by (cases a) auto
qed

section \<open>Steps\<close>

lemma adds_main_step: "adds agentic (main_step w rn ru)"
  unfolding main_step_def Let_def by (intro adds_intros adds_agentic[OF adds_idle_basic(1)] adds_agentic[OF adds_idle_finished])

lemma adds_redacted_inputs [adds_intros]: "adds P (redacted_inputs vars upstream ins acc)"
  by (induction ins arbitrary: acc) (auto intro!: adds_intros)

lemma adds_resolved_inputs [adds_intros]: "adds P (resolved_inputs sd vars upstream prompt)"
  unfolding resolved_inputs_def by (intro adds_intros)

lemma adds_fail_before [adds_intros]: "adds idle (fail_before_launch w rn step agent r e)"
  unfolding fail_before_launch_def by (intro adds_intros)

lemma adds_deadline_stop [adds_intros]: "adds idle (deadline_stop w rn d active fl)"
  unfolding deadline_stop_def Let_def by (intro adds_intros)

lemma adds_stop_scheduling [adds_intros]: "adds P (stop_scheduling pw edges step fl)"
  unfolding stop_scheduling_def by (intro adds_intros)

lemma adds_after_step [adds_intros]: "adds idle (after_step w rn fw pw edges d step out fl)"
  unfolding after_step_def by (intro adds_intros)

lemma adds_launch_step [adds_intros]: "adds agentic (launch_step w rn fw pw edges d step sd pre r cwd upstream prompt fl)"
  unfolding launch_step_def by (intro adds_intros adds_agentic[OF adds_idle_finished] adds_agentic[OF adds_after_step])

lemma adds_start_step [adds_intros]: "adds agentic (start_step w rn fw pw edges d step fl)"
  unfolding start_step_def Let_def
  by (intro adds_intros adds_agentic[OF adds_idle_basic(1)] adds_agentic[OF adds_fail_before])

lemma adds_next_step [adds_intros]: "adds agentic (next_step w rn fw pw edges d step fl)"
  unfolding next_step_def
  by (intro adds_intros adds_agentic[OF adds_idle_basic(3)] adds_agentic[OF adds_deadline_stop])

lemma adds_run_pending [adds_intros]: "adds agentic (run_pending w rn fw pw edges d pending fl)"
  by (induction pending arbitrary: fl) (auto intro!: adds_intros)

lemma adds_run_steps: "adds agentic (run_steps w rn fw pw d fl)"
  unfolding run_steps_def by (intro adds_intros)

section \<open>The lease\<close>

text \<open>The agents' acts, closed in by the lease unless the run hangs.\<close>

definition lease_block :: "bool \<Rightarrow> act list \<Rightarrow> bool" where
  "lease_block hung xs \<longleftrightarrow> xs = [] \<or> (\<exists>mid. list_all agent_act mid
     \<and> (xs = LeaseTaken # mid @ [LeaseFreed] \<or> hung \<and> xs = LeaseTaken # mid))"

lemma lease_block_close: "list_all agent_act mid \<Longrightarrow> lease_block hung (LeaseTaken # mid @ [LeaseFreed])"
  by (auto simp: lease_block_def)

lemma lease_block_open: "list_all agent_act mid \<Longrightarrow> lease_block True (LeaseTaken # mid)"
  by (auto simp: lease_block_def)

text \<open>\<open>leased s\<close>: only such a block since \<open>s\<close>, and none if the lease was refused.\<close>

definition leased :: "run_world \<Rightarrow> engine \<Rightarrow> bool \<Rightarrow> engine \<Rightarrow> bool" where
  "leased rn s hung t \<longleftrightarrow> (\<exists>L. weighty t = weighty s @ L \<and> lease_block hung L \<and> (L \<noteq> [] \<longrightarrow> lease_granted rn))"

lemma leased_same: "weighty t = weighty s \<Longrightarrow> leased rn s hung t"
  by (auto simp: leased_def lease_block_def)

lemma leased_trans: "leased rn s hung t \<Longrightarrow> weighty u = weighty t \<Longrightarrow> leased rn s hung u"
  by (simp add: leased_def)

lemma leased_start: "weighty s' = weighty s \<Longrightarrow> leased rn s' = leased rn s"
  by (simp add: leased_def fun_eq_iff)

lemma wp_under_lease:
  assumes "adds agentic steps"
  shows "wp (under_lease w rn agent steps) (\<lambda>x. leased rn s False) (\<lambda>e. leased rn s (e = None)) s"
proof (cases "rn_lease rn")
  case (LeaseGranted u v)
  note granted = LeaseGranted
  let ?held = "\<lambda>t. \<exists>mid. list_all agent_act mid \<and> weighty t = weighty s @ LeaseTaken # mid"
  let ?E = "\<lambda>e. if e = None then leased rn s True else ?held"
  have lg: "lease_granted rn" by (simp add: lease_granted_def granted)
  have hung: "leased rn s True t" if "?held t" for t
    using that lg lease_block_open by (auto simp: leased_def)
  have free: "wp (free_lease w rn agent) (\<lambda>_. leased rn s False) (\<lambda>e. leased rn s (e = None)) t" if h: "?held t" for t
  proof -
    from h obtain mid where mid: "list_all agent_act mid" "weighty t = weighty s @ LeaseTaken # mid" by blast
    have "leased rn s b x" if "weighty x = weighty t @ [LeaseFreed]" for b x
      using lg mid(2) that lease_block_close[OF mid(1)] by (auto simp: leased_def)
    then show ?thesis
      unfolding free_lease_def granted leasing.case
      by (intro wp_followed, intro wp_act_weighty wp_idle) (auto intro!: adds_intros wp_idle simp: idle.simps)
  qed
  have main: "wp (andthen (take_lease w rn agent) (\<lambda>refused. case refused of
        Some e \<Rightarrow> ok (Inl e) | None \<Rightarrow> andthen steps (\<lambda>x. ok (Inr x)))) (\<lambda>x. ?held) ?E s"
    unfolding take_lease_def granted leasing.case wp_andthen_eq wp_followed_eq
  proof (rule wp_act_weighty)
    fix t assume t: "weighty t = weighty s @ [LeaseTaken]"
    have rest: "wp (ok None) (\<lambda>refused. wp (case refused of Some e \<Rightarrow> ok (Inl e)
        | None \<Rightarrow> andthen steps (\<lambda>x. ok (Inr x))) (\<lambda>x. ?held) ?E) ?E x" if x: "weighty x = weighty t" for x
    proof (intro wp_ok, simp, intro wp_andthen wp_agentic[OF assms] wp_ok)
      fix y mid assume "list_all agent_act mid" "weighty y = weighty x @ mid"
      with t x show "?held y" by auto
      then show "?E e y" for e using hung by auto
    qed
    have e: "?E e x" if "weighty x = weighty t" for e x using that t hung by auto
    show "wp (run_event w ''lease_acquired'' [(''workspace'', PStr u), (''lease_path'', PStr v)])
       (\<lambda>_. wp (run_log w rn agent ''info'' ''lease_acquired'' [])
         (\<lambda>_. wp (ok None) (\<lambda>refused. wp (case refused of Some e \<Rightarrow> ok (Inl e)
        | None \<Rightarrow> andthen steps (\<lambda>x. ok (Inr x))) (\<lambda>x. ?held) ?E) ?E) ?E) ?E t"
    proof (rule wp_idle)
      fix x assume x: "weighty x = weighty t"
      then show "?E e x" for e by (rule e)
      show "wp (run_log w rn agent ''info'' ''lease_acquired'' [])
         (\<lambda>_. wp (ok None) (\<lambda>refused. wp (case refused of Some e \<Rightarrow> ok (Inl e)
        | None \<Rightarrow> andthen steps (\<lambda>x. ok (Inr x))) (\<lambda>x. ?held) ?E) ?E) ?E x"
      proof (rule wp_idle)
        fix y assume "weighty y = weighty x"
        with x have y: "weighty y = weighty t" by simp
        then show "?E e y" for e by (rule e)
        from y show "wp (ok None) (\<lambda>refused. wp (case refused of Some e \<Rightarrow> ok (Inl e)
          | None \<Rightarrow> andthen steps (\<lambda>x. ok (Inr x))) (\<lambda>x. ?held) ?E) ?E y" by (rule rest)
      qed (intro adds_intros)
    qed (intro adds_intros)
  qed simp
  show ?thesis
    unfolding under_lease_def
    by (rule wp_finally, rule wp_mono[OF main]) (auto simp: cleaned_def intro: free split: option.splits if_splits)
next
  case (LeaseDenied e)
  have "adds idle (under_lease w rn agent steps)"
    unfolding under_lease_def
  proof (rule adds_finally, rule adds_andthen_gives)
    show "gives (\<lambda>x. x \<noteq> None) (take_lease w rn agent)"
      by (simp add: gives_def take_lease_def LeaseDenied followed_def andthen_def ok_def split: prod.splits res.splits)
  qed (auto simp: take_lease_def free_lease_def LeaseDenied intro!: adds_intros)
  then show ?thesis by (rule wp_idle) (auto intro: leased_same)
next
  case (LeaseBroken m cls)
  have "adds idle (under_lease w rn agent steps)"
    unfolding under_lease_def
  proof (rule adds_finally, rule adds_andthen_gives)
    show "gives (\<lambda>x. x \<noteq> None) (take_lease w rn agent)"
      by (simp add: gives_def take_lease_def LeaseBroken followed_def andthen_def ok_def Let_def split: prod.splits res.splits)
  qed (auto simp: take_lease_def free_lease_def LeaseBroken Let_def intro!: adds_intros)
  then show ?thesis by (rule wp_idle) (auto intro: leased_same)
qed

section \<open>Saving\<close>

definition saves :: "act list set" where
  "saves = {[], [SavedResult], [SavedResult, Indexed]}"

lemma saves_intros [simp]: "[] \<in> saves" "[SavedResult] \<in> saves" "[SavedResult, Indexed] \<in> saves"
  by (simp_all add: saves_def)

lemma wp_persist:
  "wp (persist_result rn dir rr) (\<lambda>rr' t. \<exists>P \<in> saves. weighty t = weighty s @ P \<and> (rr_persisted rr' \<longleftrightarrow> P \<noteq> []))
     (\<lambda>e t. \<exists>P \<in> saves. weighty t = weighty s @ P) s"
proof (cases "rn_save rn")
  case Saved
  then show ?thesis
    unfolding persist_result_def Let_def Saved saving.case
  proof (intro wp_followed wp_act_weighty)
    fix t assume t: "weighty t = weighty s @ [SavedResult]"
    show "wp (case rn_index rn of
        Saved \<Rightarrow> followed (act Indexed) (ok (rr\<lparr>rr_persisted := True, rr_result_path := Some (dir @ ''/result.json''), rr_events_path := Some (dir @ ''/events.jsonl'')\<rparr>))
      | SaveRefused e \<Rightarrow> ok (rr\<lparr>rr_persisted := True, rr_result_path := Some (dir @ ''/result.json''), rr_events_path := Some (dir @ ''/events.jsonl''),
          rr_errors := rr_errors (rr\<lparr>rr_persisted := True, rr_result_path := Some (dir @ ''/result.json''), rr_events_path := Some (dir @ ''/events.jsonl'')\<rparr>) @ [to_model e]\<rparr>)
      | SaveRaised m \<Rightarrow> raise (Python m))
      (\<lambda>rr' t. \<exists>P \<in> saves. weighty t = weighty s @ P \<and> (rr_persisted rr' \<longleftrightarrow> P \<noteq> [])) (\<lambda>e t. \<exists>P \<in> saves. weighty t = weighty s @ P) t"
    proof (cases "rn_index rn")
      case Saved
      then show ?thesis using t by (auto intro!: wp_followed wp_act_weighty wp_ok bexI[of _ "[SavedResult, Indexed]"])
    qed (use t in \<open>auto intro!: wp_ok wp_raise bexI[of _ "[SavedResult]"]\<close>)
  qed simp
qed (auto simp: persist_result_def Let_def intro!: wp_ok wp_raise bexI[of _ "[]"])

lemma wp_save_result:
  assumes "\<not> rr_persisted rr"
  shows "wp (save_result w rn agent dir rr) (\<lambda>rr' t. \<exists>P \<in> saves. weighty t = weighty s @ P \<and> (rr_persisted rr' \<longleftrightarrow> P \<noteq> []))
     (\<lambda>e t. \<exists>P \<in> saves. weighty t = weighty s @ P) s"
  unfolding save_result_def
proof (intro wp_andthen wp_reads)
  let ?rr = "rr\<lparr>rr_errors := rr_errors rr @ map to_model (rc_persistence_errors (en_rc s))\<rparr>"
  show "wp (case dir of None \<Rightarrow> ok ?rr | Some d \<Rightarrow> andthen (persist_result rn d ?rr) (\<lambda>rr2.
           followed (if rr_persisted rr2
             then run_log w rn agent ''info'' ''run_persisted'' [(''path_ref'', opt_str (rr_result_path rr2))]
             else run_log w rn agent ''warning'' ''run_persist_failed'' [(''reason_code'', PStr ''PersistenceError'')])
           (ok rr2)))
     (\<lambda>rr' t. \<exists>P \<in> saves. weighty t = weighty s @ P \<and> (rr_persisted rr' \<longleftrightarrow> P \<noteq> [])) (\<lambda>e t. \<exists>P \<in> saves. weighty t = weighty s @ P) s"
  proof (cases dir)
    case (Some d)
    show ?thesis
      unfolding Some option.case
      by (intro wp_andthen wp_mono[OF wp_persist] wp_followed wp_idle adds_intros wp_ok) auto
  qed (use assms in \<open>auto intro!: wp_ok bexI[of _ "[]"]\<close>)
qed

section \<open>Whole runs\<close>

text \<open>With a lease its block, without one the bare acts of the agents; then the save.\<close>

definition guarded_block :: "bool \<Rightarrow> bool \<Rightarrow> act list \<Rightarrow> bool" where
  "guarded_block locked hung L \<longleftrightarrow> (if locked then lease_block hung L else list_all agent_act L)"

definition run_acts :: "bool \<Rightarrow> engine \<Rightarrow> bool \<Rightarrow> engine \<Rightarrow> bool" where
  "run_acts locked s hung t \<longleftrightarrow> (\<exists>L P. weighty t = weighty s @ L @ P \<and> guarded_block locked hung L \<and> P \<in> saves)"

definition run_done :: "bool \<Rightarrow> engine \<Rightarrow> run_result \<Rightarrow> engine \<Rightarrow> bool" where
  "run_done locked s rr t \<longleftrightarrow> (\<exists>L P. weighty t = weighty s @ L @ P \<and> guarded_block locked False L \<and> P \<in> saves
     \<and> (rr_persisted rr \<longleftrightarrow> P \<noteq> []))"

text \<open>The part of a run before its save.\<close>

definition unsaved :: "bool \<Rightarrow> engine \<Rightarrow> bool \<Rightarrow> engine \<Rightarrow> bool" where
  "unsaved locked s hung t \<longleftrightarrow> (\<exists>L. weighty t = weighty s @ L \<and> guarded_block locked hung L)"

lemma unsaved_run: "unsaved locked s hung t \<Longrightarrow> run_acts locked s hung t"
  unfolding unsaved_def run_acts_def by (metis append_Nil2 saves_intros(1))

lemma unsaved_start: "weighty t = weighty s \<Longrightarrow> unsaved locked s hung t"
  by (auto simp: unsaved_def guarded_block_def lease_block_def)

lemma unsaved_same: "unsaved locked s hung t \<Longrightarrow> weighty u = weighty t \<Longrightarrow> unsaved locked s hung u"
  by (simp add: unsaved_def)

lemma guarded_hung: "guarded_block locked False L \<Longrightarrow> guarded_block locked hung L"
  by (auto simp: guarded_block_def lease_block_def)

lemma unsaved_hung: "unsaved locked s False t \<Longrightarrow> unsaved locked s hung t"
  unfolding unsaved_def using guarded_hung by blast

text \<open>Closing and saving after the guarded part; \<open>f\<close> and \<open>g\<close> only change the result.\<close>

lemma adds_close_record [adds_intros]: "adds idle (close_record w rn degraded rr)"
  unfolding close_record_def Let_def by (intro adds_intros) simp

lemma wp_close_record:
  "unsaved locked s False t \<Longrightarrow>
   wp (close_record w rn degraded rr) (\<lambda>rr' u. rr_persisted rr' = rr_persisted rr \<and> unsaved locked s False u)
     (\<lambda>e u. unsaved locked s False u) t"
  unfolding close_record_def Let_def
proof (rule wp_followed, rule wp_idle[OF adds_idle_basic(3)])
  fix x assume "unsaved locked s False t" and x: "weighty x = weighty t"
  then have "unsaved locked s False x" by (rule unsaved_same)
  then show "unsaved locked s False x"
    and "wp (followed (modify (\<lambda>s. s\<lparr>en_rc := finalize (rn_fsync rn) (en_rc s)\<rparr>)) (reads (\<lambda>s. rr\<lparr>
       rr_capture := (if degraded then degrade_capture (capture_summary (en_rc s)) else capture_summary (en_rc s)),
       rr_redaction := summary (rc_redactor (en_rc s)), rr_usage := usage_summary_of (se_recording w) (en_rc s),
       rr_ended_at := Some (rn_ended rn), rr_duration_ms := Some (rn_duration rn)\<rparr>)))
      (\<lambda>rr' u. rr_persisted rr' = rr_persisted rr \<and> unsaved locked s False u) (\<lambda>e u. unsaved locked s False u) x"
    by (auto intro!: wp_followed wp_modify wp_reads simp: unsaved_def weighty_def)
qed

lemma wp_finish_run:
  assumes u: "unsaved locked s False t" and p: "\<not> rr_persisted rr" and f: "\<And>rr'. rr_persisted (f rr') = rr_persisted rr'"
  shows "wp (andthen (close_record w rn degraded rr) (\<lambda>rr'. followed (run_log w rn agent level e (detail rr'))
      (save_result w rn agent dir (f rr')))) (run_done locked s) (\<lambda>e. run_acts locked s (e = None)) t"
proof (rule wp_andthen, rule wp_mono[OF wp_close_record[OF u]])
  fix e x assume "unsaved locked s False x"
  then show "run_acts locked s (e = None) x" by (rule unsaved_run[OF unsaved_hung])
next
  fix rr' :: run_result and x assume x: "rr_persisted rr' = rr_persisted rr \<and> unsaved locked s False x"
  show "wp (followed (run_log w rn agent level e (detail rr')) (save_result w rn agent dir (f rr')))
     (run_done locked s) (\<lambda>e. run_acts locked s (e = None)) x"
  proof (rule wp_followed, rule wp_idle[OF adds_idle_basic(5)])
    fix y assume y: "weighty y = weighty x"
    with x have uy: "unsaved locked s False y" by (auto elim: unsaved_same)
    then show "run_acts locked s (e = None) y" for e by (rule unsaved_run[OF unsaved_hung])
    from uy obtain L where L: "weighty y = weighty s @ L" "guarded_block locked False L" by (auto simp: unsaved_def)
    show "wp (save_result w rn agent dir (f rr')) (run_done locked s) (\<lambda>e. run_acts locked s (e = None)) y"
    proof (rule wp_mono[OF wp_save_result])
      show "\<not> rr_persisted (f rr')" using x p f by simp
      fix rr2 :: run_result and z assume "\<exists>P \<in> saves. weighty z = weighty y @ P \<and> (rr_persisted rr2 \<longleftrightarrow> P \<noteq> [])"
      with L show "run_done locked s rr2 z" unfolding run_done_def by auto
    next
      fix e z assume "\<exists>P \<in> saves. weighty z = weighty y @ P"
      then obtain P where "P \<in> saves" "weighty z = weighty s @ L @ P" using L by auto
      with guarded_hung[OF L(2)] show "run_acts locked s (e = None) z" unfolding run_acts_def by blast
    qed
  qed
qed

lemma adds_open_store [adds_intros]: "adds P (open_store rn no_save)"
  unfolding open_store_def by (cases "rn_store rn") (auto intro!: adds_intros)

lemma adds_start_recorder [adds_intros]: "adds P (start_recorder rn secrets patterns dir prof limits has_cb)"
  unfolding start_recorder_def by (intro adds_intros) simp

lemma adds_announce_flow [adds_intros]: "adds idle (announce_flow w rn pw)"
  unfolding announce_flow_def announce_egress_def Let_def by (intro adds_intros)

lemma adds_announce [adds_intros]: "adds idle (announce w rn ru)"
  unfolding announce_def by (intro adds_intros)

lemma unsaved_lease: "leased rn s hung t \<Longrightarrow> unsaved True s hung t"
  by (auto simp: leased_def unsaved_def guarded_block_def)

lemma unsaved_trans: "unsaved locked t hung u \<Longrightarrow> weighty t = weighty s \<Longrightarrow> unsaved locked s hung u"
  by (simp add: unsaved_def)

lemma wp_under_lease_unsaved:
  assumes "adds agentic steps" and "weighty t = weighty s"
  shows "wp (under_lease w rn agent steps) (\<lambda>x. unsaved True s False) (\<lambda>e. run_acts True s (e = None)) t"
proof (rule wp_mono[OF wp_under_lease[OF assms(1)]])
  fix e x assume "leased rn t (e = None) x"
  from unsaved_trans[OF unsaved_lease[OF this] assms(2)] show "run_acts True s (e = None) x" by (rule unsaved_run)
next
  fix x and y :: "typed_error + 'a" assume "leased rn t False x"
  from unsaved_trans[OF unsaved_lease[OF this] assms(2)] show "unsaved True s False x" .
qed

lemma wp_execute_workflow: "wp (execute_workflow w rn fw pw) (run_done True s) (\<lambda>e. run_acts True s (e = None)) s"
  unfolding execute_workflow_def Let_def
proof (rule wp_andthen, rule wp_idle[OF adds_open_store], goal_cases)
  case (1 x t)
  obtain dir errs where x: "x = (dir, errs)" by (cases x)
  show ?case
    unfolding x prod.case
  proof (rule wp_followed, rule wp_idle[OF adds_start_recorder], goal_cases)
    case (1 y u)
    show ?case
    proof (rule wp_followed, rule wp_idle[OF adds_announce_flow], goal_cases)
      case (1 z v)
      with \<open>weighty u = weighty t\<close> \<open>weighty t = weighty s\<close> have v: "weighty v = weighty s" by simp
      show ?case
        by (rule wp_andthen, rule wp_mono[OF wp_under_lease_unsaved[OF adds_run_steps v]])
          (auto intro!: wp_finish_run[where f = "\<lambda>rr. rr"] simp: with_flow_def blank_flow_result_def)
    next
      case (2 e v)
      with \<open>weighty u = weighty t\<close> \<open>weighty t = weighty s\<close> show ?case by (intro unsaved_run unsaved_start) simp
    qed
  next
    case (2 e u)
    with \<open>weighty t = weighty s\<close> show ?case by (intro unsaved_run unsaved_start) simp
  qed
next
  case (2 e t)
  then show ?case by (intro unsaved_run unsaved_start)
qed

text \<open>A direct run takes the lease when its store is open.\<close>

definition run_locked :: "run_world \<Rightarrow> run_spec \<Rightarrow> bool" where
  "run_locked rn ru \<longleftrightarrow> \<not> ru_no_save ru \<and> (\<exists>d. rn_store rn = Booted d)"

lemma wp_open_store:
  "(\<And>dir errs. (dir \<noteq> None) = run_locked rn ru \<Longrightarrow> Q (dir, errs) s) \<Longrightarrow> (\<And>e. E e s) \<Longrightarrow> wp (open_store rn (ru_no_save ru)) Q E s"
  unfolding open_store_def run_locked_def by (cases "rn_store rn") (auto intro!: wp_ok wp_raise)

lemma wp_guarded_step:
  assumes "(dir \<noteq> None) = locked" and "weighty t = weighty s"
  shows "wp (guarded_step w rn ru dir) (\<lambda>x. unsaved locked s False) (\<lambda>e. run_acts locked s (e = None)) t"
proof (cases "dir = None")
  case True
  have u: "unsaved False s hung u" if "list_all agent_act mid" "weighty u = weighty t @ mid" for hung mid u
    using that assms(2) by (auto simp: unsaved_def guarded_block_def)
  have "adds agentic (andthen (main_step w rn ru) (\<lambda>x. ok (Inr x)))" by (intro adds_intros adds_main_step)
  then show ?thesis
    unfolding guarded_step_def using True assms(1) by (auto intro!: wp_agentic u unsaved_run[OF u])
next
  case False
  then show ?thesis
    using wp_under_lease_unsaved[OF adds_main_step assms(2)] assms(1) by (cases dir) (simp_all add: guarded_step_def)
qed

lemma wp_execute_run:
  "wp (execute_run w rn ru) (run_done (run_locked rn ru) s) (\<lambda>e. run_acts (run_locked rn ru) s (e = None)) s"
  unfolding execute_run_def
proof (rule wp_andthen, rule wp_open_store, goal_cases)
  case (1 dir errs)
  show ?case
    unfolding prod.case
  proof (rule wp_followed, rule wp_idle[OF adds_start_recorder], goal_cases)
    case (1 y u)
    show ?case
    proof (rule wp_followed, rule wp_idle[OF adds_announce], goal_cases)
      case (1 z v)
      with \<open>weighty u = weighty s\<close> have v: "weighty v = weighty s" by simp
      have p: "\<not> rr_persisted (with_step ru x ((blank_result rn ru)\<lparr>rr_errors := errs\<rparr>))" for x
        by (cases x) (auto simp: with_step_def blank_result_def)
      show ?case
        by (rule wp_andthen, rule wp_mono[OF wp_guarded_step[OF \<open>(dir \<noteq> None) = run_locked rn ru\<close> v]])
          (auto intro!: wp_finish_run p simp: with_usage_def)
    next
      case (2 e v)
      with \<open>weighty u = weighty s\<close> show ?case by (intro unsaved_run unsaved_start) simp
    qed
  next
    case (2 e u)
    then show ?case by (intro unsaved_run unsaved_start)
  qed
next
  case (2 e)
  then show ?case by (intro unsaved_run unsaved_start) simp
qed

end
