(* ===== verification/Run_Guarantees.thy ===== *)
theory Run_Guarantees
  imports Run_Acts
begin

text \<open>
  The guarantees of whole runs: the result of a workflow refines the specification of \<open>Flow_Safety\<close>, a
  step runs only after everything it needs, both drivers return in a well-behaved world, and the
  agents act under the workspace lease.
\<close>

section \<open>Direct runs\<close>

text \<open>The step of a run that got to it, with the run's status.\<close>

definition main_result :: "run_world \<Rightarrow> step_outcome \<times> step_result \<times> run_status \<Rightarrow> bool" where
  "main_result rn x \<longleftrightarrow> (case x of (out, step, st) \<Rightarrow> outcome_typed (rn_agent rn MAIN_STEP_ID) out
     \<and> (so_status out = Success \<longleftrightarrow> clean_turn (rn_agent rn MAIN_STEP_ID))
     \<and> sr_status step = so_status out \<and> run_status_of_step (so_status out) = Some st
     \<and> sr_attempts step = [attempt_of_outcome out (rn_attempt rn MAIN_STEP_ID)]
     \<and> sr_errors step = (case so_error out of None \<Rightarrow> [] | Some e \<Rightarrow> [to_model e]))"

text \<open>What the result of a direct run says.\<close>

definition direct_reports :: "run_world \<Rightarrow> run_spec \<Rightarrow> run_result \<Rightarrow> bool" where
  "direct_reports rn ru rr \<longleftrightarrow>
     (if run_locked rn ru \<and> \<not> lease_granted rn
      then rr_status rr = RunFailed \<and> rr_errors rr \<noteq> []
        \<and> rr_steps rr = [(MAIN_STEP_ID, blank_step MAIN_STEP_ID (ru_agent ru) Failed [])]
      else \<exists>out step. rr_steps rr = [(MAIN_STEP_ID, step)] \<and> main_result rn (out, step, rr_status rr))"

lemma direct_same: "direct_reports rn ru rr \<Longrightarrow> same_run rr rr' \<Longrightarrow> direct_reports rn ru rr'"
  unfolding direct_reports_def same_run_def by (simp split: if_splits) auto

lemma yields_conj:
  assumes "yields b P m" and "yields False Q m"
  shows "yields b (\<lambda>x. P x \<and> Q x) m"
proof (rule yieldsI)
  fix s show "wp m (\<lambda>x t. P x \<and> Q x) (\<lambda>e t. \<not> b) s"
    using yields_wp[OF assms(1), of s] yields_wp[OF assms(2), of s] by (auto simp: wp_def split: prod.splits res.splits)
qed

lemma outcome_run_status: "outcome_typed aw out \<Longrightarrow> \<exists>st. run_status_of_step (so_status out) = Some st"
  by (cases "so_status out"; cases "so_error out") (auto simp: outcome_typed_def)

lemma yields_main_step:
  assumes rec: "recording_ok b w" and b: "b \<Longrightarrow> well_behaved w (rn_agent rn MAIN_STEP_ID)"
  shows "yields b (main_result rn) (main_step w rn ru)"
  unfolding main_step_def
proof (intro yields_followed yields_emit rec run_event_types
    yields_andthen[OF yields_conj[OF yields_execute_step[OF b] values_execute_step]] yields_andthen[OF yields_settle] yields_andthen_any yields_redacting)
  fix out and step :: step_result and shown
  assume out: "outcome_typed (rn_agent rn MAIN_STEP_ID) out \<and> (so_status out = Success \<longleftrightarrow> clean_turn (rn_agent rn MAIN_STEP_ID))"
    and step: "sr_status step = so_status out \<and> sr_step_id step = sr_step_id (blank_step MAIN_STEP_ID (ru_agent ru) Failed [])
      \<and> sr_attempts step = [attempt_of_outcome out (rn_attempt rn MAIN_STEP_ID)]
      \<and> sr_errors step = (case so_error out of None \<Rightarrow> sr_errors (blank_step MAIN_STEP_ID (ru_agent ru) Failed []) | Some e \<Rightarrow> [to_model e])"
  obtain st where st: "run_status_of_step (so_status out) = Some st" using outcome_run_status out by blast
  show "yields b (main_result rn) (let step1 = step\<lparr>sr_inputs_resolved := [(''prompt'', PStr shown)],
       sr_input_sources := [(''prompt'', ''direct:prompt'')]\<rparr>
     in case run_status_of_step (so_status out) of
          None \<Rightarrow> raise (Python ''KeyError'')
        | Some st \<Rightarrow> followed (step_finished w rn MAIN_STEP_ID (ru_agent ru) (so_session_id out) ''info'' (so_status out)
              (fst (snd (rn_attempt rn MAIN_STEP_ID)))) (ok (out, step1, st)))"
    unfolding st option.case Let_def
    by (intro yields_followed yields_step_finished rec yields_ok)
      (use out step st in \<open>auto simp: main_result_def blank_step_def split: option.splits\<close>)
qed assumption

definition direct_ok :: "bool \<Rightarrow> setting \<Rightarrow> run_world \<Rightarrow> run_spec \<Rightarrow> bool" where
  "direct_ok b w rn ru \<longleftrightarrow> recording_ok b w \<and> (b \<longrightarrow> well_behaved w (rn_agent rn MAIN_STEP_ID)) \<and> saving_ok b rn
     \<and> opening_ok b rn (ru_no_save ru) (spec_secrets ru) (ru_patterns ru)"

lemma yields_announce: "recording_ok b w \<Longrightarrow> finishes b (announce w rn ru)"
  unfolding announce_def by (intro yields_rules run_event_types) (simp_all add: run_keys_def)

text \<open>\<open>dir\<close> is there exactly when the run takes the lease.\<close>

lemma yields_guarded_step:
  assumes "recording_ok b w" and "b \<Longrightarrow> well_behaved w (rn_agent rn MAIN_STEP_ID)" and "(dir \<noteq> None) = run_locked rn ru"
  shows "yields b (\<lambda>x. case x of Inl e \<Rightarrow> run_locked rn ru \<and> \<not> lease_granted rn
      | Inr y \<Rightarrow> (run_locked rn ru \<longrightarrow> lease_granted rn) \<and> main_result rn y) (guarded_step w rn ru dir)"
proof (cases "dir = None")
  case True
  then show ?thesis using assms(3)
    by (auto simp: guarded_step_def intro!: yields_andthen[OF yields_main_step[OF assms(1,2)]] yields_ok)
next
  case False
  have "yields b (\<lambda>x. case x of Inl e \<Rightarrow> \<not> lease_granted rn | Inr y \<Rightarrow> lease_granted rn \<and> main_result rn y)
      (under_lease w rn (Some (ru_agent ru)) (main_step w rn ru))"
    by (rule yields_under_lease[OF assms(1) yields_main_step[OF assms(1,2)]])
  then show ?thesis using False assms(3) by (cases dir) (auto simp: guarded_step_def elim!: yields_mono split: sum.splits)
qed

lemma direct_reports_step:
  assumes "case x of Inl e \<Rightarrow> run_locked rn ru \<and> \<not> lease_granted rn
      | Inr y \<Rightarrow> (run_locked rn ru \<longrightarrow> lease_granted rn) \<and> main_result rn y"
  shows "direct_reports rn ru (with_step ru x ((blank_result rn ru)\<lparr>rr_errors := errs\<rparr>))"
proof (cases x)
  case (Inr y)
  obtain out step st where "y = (out, step, st)" by (cases y)
  with Inr assms show ?thesis by (auto simp: direct_reports_def with_step_def)
qed (use assms in \<open>simp add: direct_reports_def with_step_def blank_result_def\<close>)

lemma direct_usage: "direct_reports rn ru rr \<Longrightarrow> direct_reports rn ru (with_usage ru x rr)"
  by (simp add: direct_reports_def with_usage_def)

lemma yields_open_direct:
  "opening_ok b rn (ru_no_save ru) secrets patterns \<Longrightarrow>
     yields b (\<lambda>x. (fst x \<noteq> None) = run_locked rn ru) (open_store rn (ru_no_save ru))"
  by (rule yields_mono[OF yields_open_store]) (auto simp: run_locked_def split: booting.splits)

lemma yields_execute_run:
  assumes "direct_ok b w rn ru"
  shows "yields b (direct_reports rn ru) (execute_run w rn ru)"
proof -
  have rec: "recording_ok b w" and wb: "b \<Longrightarrow> well_behaved w (rn_agent rn MAIN_STEP_ID)" and so: "saving_ok b rn"
    and oo: "opening_ok b rn (ru_no_save ru) (spec_secrets ru) (ru_patterns ru)" using assms by (auto simp: direct_ok_def)
  have finish: "yields b (direct_reports rn ru) (andthen (close_record w rn deg rr0) (\<lambda>rr.
      followed (run_log w rn (Some (ru_agent ru)) ''info'' ''run_finished''
        [(''status'', PStr (run_status_value (rr_status rr))), (''duration_ms'', PInt (rn_duration rn))])
      (save_result w rn (Some (ru_agent ru)) dir (with_usage ru x rr))))" if r: "direct_reports rn ru rr0" for deg rr0 dir x
    by (rule yields_andthen[OF yields_close_record[OF rec]])
      (auto intro!: yields_followed yields_run_log yields_mono[OF yields_save_result[OF so]] simp: run_keys_def
        intro: direct_same[OF direct_usage[OF direct_same[OF r]]])
  show ?thesis
    unfolding execute_run_def
  proof (rule yields_andthen[OF yields_open_direct[OF oo]])
    fix x :: "string option \<times> typed_error list" assume d: "(fst x \<noteq> None) = run_locked rn ru"
    obtain dir errs where x: "x = (dir, errs)" by (cases x)
    show "yields b (direct_reports rn ru) (case x of (dir, errs) \<Rightarrow>
       followed (start_recorder rn (spec_secrets ru) (ru_patterns ru) dir (ru_profile ru) (ru_limits ru) (ru_has_render ru))
      (followed (announce w rn ru)
      (andthen (guarded_step w rn ru dir) (\<lambda>x.
       andthen (close_record w rn (was_degraded x) (with_step ru x ((blank_result rn ru)\<lparr>rr_errors := errs\<rparr>))) (\<lambda>rr.
       followed (run_log w rn (Some (ru_agent ru)) ''info'' ''run_finished''
         [(''status'', PStr (run_status_value (rr_status rr))), (''duration_ms'', PInt (rn_duration rn))])
      (save_result w rn (Some (ru_agent ru)) dir (with_usage ru x rr)))))))"
      using d unfolding x prod.case fst_conv
      by (intro yields_followed yields_start_recorder[OF oo] yields_announce rec
          yields_andthen[OF yields_guarded_step[OF rec wb]] finish direct_reports_step)
  qed
qed

section \<open>Undisturbed workflows\<close>

text \<open>Nobody cancels, no deadline passes, every prompt can be composed and every agent has a clean turn.\<close>

definition undisturbed :: "run_world \<Rightarrow> flow_world \<Rightarrow> prepared_workflow \<Rightarrow> int deadline \<Rightarrow> bool" where
  "undisturbed rn fw pw d \<longleftrightarrow> (\<forall>step \<in> set (pw_order pw). \<not> fw_cancel fw step \<and> \<not> exceeded d (fw_before fw step)
     \<and> clean_turn (rn_agent rn step) \<and> (\<forall>sd results. map_of (w_steps (pw_workflow pw)) step = Some sd \<longrightarrow>
          (\<exists>y. compose fw pw step sd results = Inr y)))"

lemma values_launch_step:
  "clean_turn (rn_agent rn step) \<Longrightarrow> yields False snd (launch_step w rn fw pw edges d step sd pre r cwd upstream prompt fl)"
  unfolding launch_step_def
  by (rule yields_andthen[OF values_execute_step], intro values_andthen values_followed)
    (simp add: after_step_def yields_ok)

lemma values_next_step:
  assumes "undisturbed rn fw pw d" and "step \<in> set (pw_order pw)"
  shows "yields False snd (next_step w rn fw pw edges d step fl)"
proof -
  have u: "\<not> fw_cancel fw step" "\<not> exceeded d (fw_before fw step)" "clean_turn (rn_agent rn step)"
    using assms by (auto simp: undisturbed_def)
  have "yields False snd (start_step w rn fw pw edges d step fl)"
  proof (cases "\<exists>sd pre r0. map_of (w_steps (pw_workflow pw)) step = Some sd \<and> map_of (pw_steps pw) step = Some pre
      \<and> map_of (fl_steps fl) step = Some r0")
    case True
    then obtain sd pre r0 where m: "map_of (w_steps (pw_workflow pw)) step = Some sd" "map_of (pw_steps pw) step = Some pre"
      "map_of (fl_steps fl) step = Some r0" by blast
    define r where "r = r0\<lparr>sr_status := Failed\<rparr>"
    obtain cwd upstream prompt where c: "compose fw pw step sd (fl_steps (with_result step r fl)) = Inr (cwd, upstream, prompt)"
      using assms m(1) unfolding undisturbed_def by (metis prod_cases3)
    have a: "yields False (\<lambda>x. x = Inr (cwd, upstream, prompt)) (attempt_of (typed [ValidationError, ResourceLimitError])
        (lift (compose fw pw step sd (fl_steps (with_result step r fl)))))"
      by (simp add: c lift_def attempt_of_def ok_def yields_def wp_def)
    show ?thesis
      unfolding start_step_def m option.case prod.case Let_def r_def[symmetric]
      by (rule values_followed, rule yields_andthen[OF a]) (simp add: values_launch_step[OF u(3)])
  qed (auto simp: start_step_def split: option.splits)
  then show ?thesis using u by (simp add: next_step_def)
qed

lemma values_run_pending:
  assumes u: "undisturbed rn fw pw d"
  shows "set pending \<subseteq> set (pw_order pw) \<Longrightarrow> distinct pending \<Longrightarrow>
    yields False (\<lambda>fl'. \<forall>x. status_of (fl_steps fl') x = (if x \<in> set pending then Some Success else status_of (fl_steps fl) x))
      (run_pending w rn fw pw edges d pending fl)"
proof (induction pending arbitrary: fl)
  case (Cons step pending)
  have ok: "flow_ok False w rn fw pw" by (simp add: flow_ok_def)
  have step: "step \<in> set (pw_order pw)" using Cons.prems(1) by simp
  show ?case
    unfolding run_pending.simps
  proof (rule yields_andthen[OF yields_conj[OF yields_next_step[OF ok] values_next_step[OF u step]]])
    fix x assume x: "passes (pw_order pw) edges step fl x \<and> snd x"
    then have st: "status_of (fl_steps (fst x)) = (status_of (fl_steps fl))(step \<mapsto> Success)" by (simp add: passes_def)
    have "yields False (\<lambda>fl'. \<forall>y. status_of (fl_steps fl') y = (if y \<in> set pending then Some Success else status_of (fl_steps (fst x)) y))
        (run_pending w rn fw pw edges d pending (fst x))"
      using Cons by auto
    then show "yields False (\<lambda>fl'. \<forall>y. status_of (fl_steps fl') y = (if y \<in> set (step # pending) then Some Success else status_of (fl_steps fl) y))
        (if snd x then run_pending w rn fw pw edges d pending (fst x) else ok (fst x))"
      using x st Cons.prems(2) by (auto elim!: yields_mono)
  qed simp
qed (simp add: yields_ok)

lemma values_run_steps:
  assumes "undisturbed rn fw pw d" and "distinct_steps (pw_workflow pw)" "topo_order (pw_workflow pw) = Inr (pw_order pw)"
  shows "yields False (\<lambda>fl. \<forall>x \<in> set (pw_order pw). status_of (fl_steps fl) x = Some Success) (run_steps w rn fw pw d fl0)"
proof -
  from assms(3) obtain edges where e: "step_edges (pw_workflow pw) = Inr edges" by (rule topo_order_Inr)
  have "distinct (pw_order pw)" using sched.plan_complete[OF assms(2,3)] by blast
  from values_run_pending[OF assms(1) order_refl this] show ?thesis
    unfolding run_steps_def e sum.case by (rule yields_mono) simp
qed

section \<open>Guarantees\<close>

text \<open>a step has the status success exactly when the agent starts, answers the handshake in the
  client's protocol version and the session request, and its turn stops with \<open>end_turn\<close>.\<close>

theorem step_succeeds_on_clean_turn:
  assumes "execute_step w cx aw s = (Ok out, t)"
  shows "so_status out = Success \<longleftrightarrow> clean_turn aw"
  using yieldsD[OF values_execute_step assms] .

text \<open>C8: the result of a workflow that returns follows the specification: every declared step is in it;
  with the lease, one cause and one step where the loop stopped determine every step's status (success
  before it; after it blocked for what needs a failed step, skipped for the rest) and the run's status,
  and a crossed deadline is among the errors; without the lease every step is skipped and the run has
  failed with an error.\<close>

theorem workflow_result_refines_spec:
  assumes "distinct (keys (w_steps (pw_workflow pw)))" and "topo_order (pw_workflow pw) = Inr (pw_order pw)"
    and "execute_workflow w rn fw pw s = (Ok rr, t)"
  shows "reports rn (pw_workflow pw) (pw_order pw) rr"
proof -
  have "workflow_ok False w rn fw pw" by (simp add: workflow_ok_def flow_ok_def saving_ok_def opening_ok_def)
  from yieldsD[OF yields_execute_workflow[OF this] assms(3)] assms(1,2) show ?thesis by (simp add: distinct_steps_def)
qed

lemma final_needs:
  assumes w: "distinct_steps wd" "topo_order wd = Inr order" and n: "(x, y) \<in> (needs wd)\<^sup>+" and x: "x \<in> set order"
    and st: "final_status wd order v x \<notin> {Blocked, Skipped}" and v: "\<forall>c f. v = Some (c, f) \<longrightarrow> f \<in> set order"
  shows "y \<in> set order \<and> final_status wd order v y = Success"
proof -
  from w(2) obtain edges where e: "step_edges wd = Inr edges" by (rule topo_order_Inr)
  obtain xs ys where o: "order = xs @ x # ys" using x by (auto simp: in_set_conv_decomp)
  have y: "y \<in> set xs" using sched.depends_before[OF w(1) _ n[folded needs_depends[OF e]]] w(2) o by blast
  have d: "distinct order" using sched.plan_complete[OF w] by blast
  show ?thesis
  proof (cases v)
    case None
    with y o show ?thesis by (simp add: final_status_def)
  next
    case (Some cf)
    obtain c f where cf: "v = Some (c, f)" using Some by (cases cf) simp
    have "x \<in> set (takeWhile (\<lambda>z. z \<noteq> f) order) \<or> x = f"
      using st cf by (auto simp: final_status_def split: if_splits)
    then have "y \<in> set (takeWhile (\<lambda>z. z \<noteq> f) order)"
    proof
      assume "x = f"
      then show ?thesis using y o d takeWhile_before[of f xs ys] by auto
    next
      assume xt: "x \<in> set (takeWhile (\<lambda>z. z \<noteq> f) order)"
      obtain zs where "order = takeWhile (\<lambda>z. z \<noteq> f) order @ zs" by (metis takeWhile_dropWhile_id)
      moreover obtain us vs where u: "takeWhile (\<lambda>z. z \<noteq> f) order = us @ x # vs" using xt by (auto simp: in_set_conv_decomp)
      ultimately have "order = us @ x # vs @ zs" by simp
      with o d have "us = xs" by (metis append_Cons_eq_iff distinct_append distinct.simps(2) not_distinct_conv_prefix)
      with y u show ?thesis by simp
    qed
    with cf y o show ?thesis by (simp add: final_status_def)
  qed
qed

text \<open>C20: in the loop of a workflow a step that ran, whatever its outcome, had everything it needs, directly
  or through other steps (its \<open>depends_on\<close> entries and the producers of its inputs), succeed before.\<close>

theorem steps_run_after_their_needs:
  assumes "distinct (keys (w_steps (pw_workflow pw)))" and "topo_order (pw_workflow pw) = Inr (pw_order pw)"
    and "run_steps w rn fw pw d (blank_flow (pw_workflow pw) errs) s = (Ok fl, t)"
    and "status_of (fl_steps fl) x = Some st" and "st \<notin> {Blocked, Skipped}" and "(x, y) \<in> (needs (pw_workflow pw))\<^sup>+"
  shows "status_of (fl_steps fl) y = Some Success"
proof -
  have "flow_ok False w rn fw pw" by (simp add: flow_ok_def)
  from yieldsD[OF yields_run_steps[OF this] assms(3)] assms(1,2) obtain v where v: "settled_flow (pw_workflow pw) (pw_order pw) v fl"
    by (auto simp: distinct_steps_def)
  have "x \<in> set (keys (fl_steps fl))" using assms(4) map_of_unlisted[of "fl_steps fl" x] by (auto simp: status_of_def)
  moreover have "set (pw_order pw) = set (keys (w_steps (pw_workflow pw)))"
    using sched.plan_complete[OF _ assms(2)] assms(1) by (simp add: distinct_steps_def)
  ultimately have x: "x \<in> set (pw_order pw)" using v unfolding settled_flow_def by metis
  with v assms(4,5) have "final_status (pw_workflow pw) (pw_order pw) v x \<notin> {Blocked, Skipped}"
    by (auto simp: settled_flow_def)
  from final_needs[OF _ assms(2,6) x this] v assms(1) show ?thesis by (auto simp: settled_flow_def distinct_steps_def)
qed

text \<open>a prepared workflow always returns a result when events can be appended, the agents answer the
  handshake and can be killed, the store either opens or refuses with a PersistenceError, and no
  exception comes from outside the protocol; whatever becomes of the lease, of the steps, of the
  deadline and of a cancellation.\<close>

theorem workflow_always_returns:
  assumes "workflow_ok True w rn fw pw" and "distinct (keys (w_steps (pw_workflow pw)))"
    and "topo_order (pw_workflow pw) = Inr (pw_order pw)"
  shows "\<exists>rr t. execute_workflow w rn fw pw s = (Ok rr, t) \<and> keys (rr_steps rr) = keys (w_steps (pw_workflow pw))"
  using yields_Ok[OF yields_execute_workflow[OF assms(1)], of s] assms(2,3) by (auto simp: distinct_steps_def reports_def)

text \<open>a direct run in such a world always returns a result, whose one step and whose status say how
  the agent's turn ended; only a refused lease keeps the step from running, and then the result has an
  error.\<close>

theorem direct_run_always_returns:
  assumes "direct_ok True w rn ru"
  shows "\<exists>rr t. execute_run w rn ru s = (Ok rr, t) \<and> direct_reports rn ru rr"
  using yields_Ok[OF yields_execute_run[OF assms]] .

text \<open>C14: in a workflow run, saved or not, the agents' processes and files are touched only between taking
  and freeing the workspace lease, both of which happen at most once, and not at all when the lease is
  refused; the lease is freed unless the run hangs; the result is saved after that, indexed only once
  it is saved, and reported as persisted exactly when it is saved.\<close>

theorem workflow_acts_under_lease:
  "\<exists>L P. weighty (snd (execute_workflow w rn fw pw s)) = weighty s @ L @ P
     \<and> lease_block (fst (execute_workflow w rn fw pw s) = Hang) L \<and> P \<in> {[], [SavedResult], [SavedResult, Indexed]}
     \<and> (case fst (execute_workflow w rn fw pw s) of Ok rr \<Rightarrow> rr_persisted rr = (P \<noteq> []) | _ \<Rightarrow> True)"
proof -
  obtain r t where rt: "execute_workflow w rn fw pw s = (r, t)" by (cases "execute_workflow w rn fw pw s")
  show ?thesis
    using wp_execute_workflow[of w rn fw pw s] rt
    by (cases r) (auto simp: wp_def run_done_def run_acts_def guarded_block_def saves_def)
qed

text \<open>the same holds of a direct run whose store is open; without a store it takes no lease at all, and
  the agent acts unguarded.\<close>

theorem direct_run_acts_under_lease:
  "\<exists>L P. weighty (snd (execute_run w rn ru s)) = weighty s @ L @ P
     \<and> (if ru_no_save ru \<or> (\<forall>d. rn_store rn \<noteq> Booted d) then list_all agent_act L
        else lease_block (fst (execute_run w rn ru s) = Hang) L)
     \<and> P \<in> {[], [SavedResult], [SavedResult, Indexed]}
     \<and> (case fst (execute_run w rn ru s) of Ok rr \<Rightarrow> rr_persisted rr = (P \<noteq> []) | _ \<Rightarrow> True)"
proof -
  obtain r t where rt: "execute_run w rn ru s = (r, t)" by (cases "execute_run w rn ru s")
  have l: "run_locked rn ru \<longleftrightarrow> \<not> (ru_no_save ru \<or> (\<forall>d. rn_store rn \<noteq> Booted d))" by (auto simp: run_locked_def)
  show ?thesis
    unfolding if_not_P[symmetric] using wp_execute_run[of w rn ru s] rt
    by (cases r) (auto simp: wp_def run_done_def run_acts_def guarded_block_def saves_def l split: if_splits)
qed

section \<open>Concrete runs\<close>

definition demo_run :: run_world where
  "demo_run = \<lparr>rn_id = ''r'', rn_started = ''t0'', rn_ended = ''t1'', rn_duration = 5, rn_store = Booted ''/runs/r'',
     rn_lease = LeaseGranted ''/w'' ''/l'', rn_fsync = None, rn_save = Saved, rn_index = Saved,
     rn_compile = (\<lambda>_. None), rn_attempt = (\<lambda>_. (''t0'', 5, ''t1'')), rn_agent = (\<lambda>_. demo_agent)\<rparr>"

definition demo_config :: agent_config where
  "demo_config = \<lparr>ag_name = ''x'', ag_builtin = False, ag_command = ''a'', ag_args = [], ag_env = [], ag_inherit_env = [],
     ag_working_dir = None, ag_api_key_env = None, ag_provider = None, ag_permission_policy = None,
     ag_orchestration_eligible = True, ag_direct_tools_assumed = True\<rparr>"

text \<open>\<open>b\<close> waits for \<open>a\<close>.\<close>

definition chain :: workflow_def where
  "chain = plain_workflow [(''b'', plain_step ''x'' [] [''a'']), (''a'', plain_step ''x'' [] [])]"

definition demo_prepared :: prepared_workflow where
  "demo_prepared = \<lparr>pw_workflow = chain, pw_variables = [], pw_workspace = ''/w'', pw_order = [''a'', ''b''],
     pw_steps = map (\<lambda>s. (s, \<lparr>ps_config = demo_config, ps_provider = ''p'', ps_env = [], ps_policy = tiny_policy, ps_timeout = 60\<rparr>)) [''a'', ''b''],
     pw_provider_set = {}, pw_acknowledged_by = None, pw_records = [], pw_limits = rc_limits demo_recorder,
     pw_profile = Standard, pw_no_save = False, pw_fingerprint = None, pw_provenance = None, pw_secrets = [], pw_patterns = [],
     pw_timeout = None, pw_default_timeout = 100, pw_grace = 5, pw_max_prompt = 1000, pw_has_render = False,
     pw_cancellable = True, pw_override = False\<rparr>"

definition demo_flow :: flow_world where
  "demo_flow = \<lparr>fw_realpath = Inr, fw_started = 0, fw_cancel = (\<lambda>s. False), fw_before = (\<lambda>s. 0),
     fw_clamp = (\<lambda>s. 0), fw_after = (\<lambda>s. 0)\<rparr>"

definition demo_spec :: run_spec where
  "demo_spec = \<lparr>ru_agent = ''x'', ru_command = ''a'', ru_args = [], ru_env = [], ru_cwd = ''/w'', ru_prompt = ''hi'',
     ru_profile = Standard, ru_no_save = False, ru_timeout = 60, ru_grace = 5, ru_provider = None,
     ru_limits = rc_limits demo_recorder, ru_secret_values = None, ru_patterns = [], ru_policy = None, ru_provenance = None,
     ru_fingerprint = None, ru_acknowledged_by = None, ru_has_render = False, ru_cancellable = True, ru_override = False\<rparr>"

lemma demo_well_behaved: "well_behaved demo_setting demo_agent"
  using demo_dutiful demo_escapes by (simp add: well_behaved_def)

lemma demo_saving: "saving_ok True demo_run"
  by (simp add: saving_ok_def demo_run_def)

lemma demo_opening: "opening_ok True demo_run no_save [] []"
  by (simp add: opening_ok_def demo_run_def new_redactor_def)

lemma demo_direct_ok: "direct_ok True demo_setting demo_run demo_spec"
  using demo_well_behaved demo_saving demo_opening
  by (simp add: direct_ok_def recording_ok_def demo_spec_def spec_secrets_def secret_env_values_def demo_setting_def demo_never_raises)
    (simp add: demo_run_def)

lemma chain_distinct: "distinct (keys (w_steps (pw_workflow demo_prepared)))"
  by (simp add: demo_prepared_def chain_def plain_workflow_def)

lemma chain_order: "topo_order (pw_workflow demo_prepared) = Inr (pw_order demo_prepared)"
  by code_simp

lemma demo_flow_ok: "flow_ok True demo_setting demo_run demo_flow demo_prepared"
  using demo_well_behaved
  by (auto simp: flow_ok_def demo_prepared_def chain_def plain_workflow_def plain_step_def demo_flow_def demo_setting_def
      demo_never_raises) (simp add: demo_run_def)

lemma demo_workflow_ok: "workflow_ok True demo_setting demo_run demo_flow demo_prepared"
  using demo_flow_ok demo_saving demo_opening by (simp add: workflow_ok_def demo_prepared_def)

lemma demo_workflow_returns: "\<exists>rr t. execute_workflow demo_setting demo_run demo_flow demo_prepared demo_engine = (Ok rr, t)"
  using yields_Ok[OF yields_execute_workflow[OF demo_workflow_ok], of demo_engine] chain_distinct chain_order
  by (auto simp: distinct_steps_def)

theorem workflow_refines_witness:
  "\<exists>rr t. execute_workflow demo_setting demo_run demo_flow demo_prepared demo_engine = (Ok rr, t)
     \<and> reports demo_run chain [''a'', ''b''] rr"
proof -
  obtain rr t where r: "execute_workflow demo_setting demo_run demo_flow demo_prepared demo_engine = (Ok rr, t)"
    using demo_workflow_returns by blast
  from workflow_result_refines_spec[OF chain_distinct chain_order r] r show ?thesis by (auto simp: demo_prepared_def)
qed

theorem workflow_returns_witness:
  "\<exists>rr t. execute_workflow demo_setting demo_run demo_flow demo_prepared demo_engine = (Ok rr, t) \<and> keys (rr_steps rr) = [''b'', ''a'']"
  using workflow_always_returns[OF demo_workflow_ok chain_distinct chain_order, of demo_engine]
  by (simp add: demo_prepared_def chain_def plain_workflow_def)

theorem direct_run_witness:
  "\<exists>rr t. execute_run demo_setting demo_run demo_spec demo_engine = (Ok rr, t) \<and> direct_reports demo_run demo_spec rr"
  using direct_run_always_returns[OF demo_direct_ok] .

theorem clean_turn_witness:
  "\<exists>out t. execute_step demo_setting demo_context demo_agent demo_engine = (Ok out, t) \<and> so_status out = Success"
proof -
  obtain out t where r: "execute_step demo_setting demo_context demo_agent demo_engine = (Ok out, t)"
    using demo_step_returns by blast
  have "clean_turn demo_agent" by (simp add: clean_turn_def ready_agent_def demo_agent_def)
  with step_succeeds_on_clean_turn[OF r] r show ?thesis by blast
qed

lemma chain_needs: "(''b'', ''a'') \<in> (needs chain)\<^sup>+"
  by (rule trancl.r_into_trancl) (simp add: needs_def chain_def plain_workflow_def plain_step_def declared_deps_def)

lemma chain_composes: "map_of (w_steps chain) step = Some sd \<Longrightarrow> \<exists>y. compose demo_flow demo_prepared step sd results = Inr y"
proof -
  assume "map_of (w_steps chain) step = Some sd"
  then have sd: "s_inputs sd = []" "s_working_dir sd = None" "s_prompt sd = ''go''"
    by (auto simp: chain_def plain_workflow_def plain_step_def split: if_splits)
  have "tokens ''go'' = []" by code_simp
  then show ?thesis
    by (simp add: compose_def resolve_step_dir_def demo_flow_def sd upstream_inputs_def render_prompt_def render_def
        size_checked_def Let_def demo_prepared_def utf8_len_def)
qed

lemma demo_undisturbed: "undisturbed demo_run demo_flow demo_prepared (new_deadline 100 0)"
proof -
  have "clean_turn demo_agent" by (simp add: clean_turn_def ready_agent_def demo_agent_def)
  moreover have "\<not> exceeded (new_deadline 100 0) (0 :: int)"
    by (simp add: exceeded_def remaining_seconds_def elapsed_seconds_def new_deadline_def)
  ultimately show ?thesis
    using chain_composes unfolding undisturbed_def
    by (simp add: demo_run_def demo_prepared_def) (simp add: demo_flow_def)
qed

lemma demo_loop: "\<exists>fl t. run_steps demo_setting demo_run demo_flow demo_prepared (new_deadline 100 0) (blank_flow chain []) demo_engine = (Ok fl, t)
   \<and> status_of (fl_steps fl) ''b'' = Some Success"
proof -
  have c: "pw_workflow demo_prepared = chain" by (simp add: demo_prepared_def)
  have d: "distinct_steps (pw_workflow demo_prepared)" using chain_distinct by (simp add: distinct_steps_def)
  obtain fl t where r: "run_steps demo_setting demo_run demo_flow demo_prepared (new_deadline 100 0) (blank_flow chain []) demo_engine = (Ok fl, t)"
    using yields_Ok[OF yields_run_steps[OF demo_flow_ok d chain_order]] c by metis
  have "''b'' \<in> set (pw_order demo_prepared)" by (simp add: demo_prepared_def)
  with yieldsD[OF values_run_steps[OF demo_undisturbed d chain_order] r] r show ?thesis by blast
qed

theorem steps_run_witness:
  "\<exists>fl t. run_steps demo_setting demo_run demo_flow demo_prepared (new_deadline 100 0) (blank_flow chain []) demo_engine = (Ok fl, t)
    \<and> status_of (fl_steps fl) ''b'' = Some Success \<and> status_of (fl_steps fl) ''a'' = Some Success"
proof -
  obtain fl t where r: "run_steps demo_setting demo_run demo_flow demo_prepared (new_deadline 100 0) (blank_flow chain []) demo_engine = (Ok fl, t)"
    and b: "status_of (fl_steps fl) ''b'' = Some Success"
    using demo_loop by blast
  have c: "pw_workflow demo_prepared = chain" by (simp add: demo_prepared_def)
  from steps_run_after_their_needs[OF chain_distinct chain_order, unfolded c, OF r b _ chain_needs] r b show ?thesis by simp
qed

end
