(* ===== verification/Run_Files.thy ===== *)
theory Run_Files
  imports Recorder Lease Metadata_Log
begin

text \<open>
  \<open>store/runstore.py\<close>: the directories of runs, the writer's sentinel, the atomic write of a manifest
  and its reading. A directory is an association list from file names to bytes; what the file system
  does to a call is an argument. The theorems are in \<open>Store_Safety\<close>.
\<close>

section \<open>Directories\<close>

definition WRITER_SENTINEL :: string where "WRITER_SENTINEL = ''.writer''"
definition RESULT_FILENAME :: string where "RESULT_FILENAME = ''result.json''"
definition EVENTS_FILENAME :: string where "EVENTS_FILENAME = ''events.jsonl''"
definition RESULT_SCHEMA_VERSION :: int where "RESULT_SCHEMA_VERSION = 1"
definition SUPPORTED_RESULT_SCHEMAS :: "int list" where "SUPPORTED_RESULT_SCHEMAS = [RESULT_SCHEMA_VERSION]"

type_synonym files = "(string \<times> string) list"

text \<open>
  A run directory: its files, the modification time (\<open>None\<close> when \<open>stat\<close> fails) and the files that
  cannot be read, with the text of their OSError.
\<close>

record run_dir =
  rd_files :: files
  rd_mtime :: "int option"
  rd_denied :: "(string \<times> string) list"

text \<open>The root of the store is the text of \<open>runs_dir\<close>; its entries by name.\<close>

type_synonym store = "(string \<times> run_dir) list"

text \<open>
  What the store takes from outside: ULID validity, JSON and the decoding of text; \<open>sl_decode\<close> fails
  on bytes that are not UTF-8, \<open>sl_lossy\<close> replaces them.
\<close>

record store_library =
  sl_run_id :: "string \<Rightarrow> bool"
  sl_loads :: "string \<Rightarrow> json_result"             \<comment> \<open>of text\<close>
  sl_loads_bytes :: "string \<Rightarrow> json_result"
  sl_decode :: "string \<Rightarrow> string option"
  sl_lossy :: "string \<Rightarrow> string"
  sl_iso :: "int \<Rightarrow> string"                       \<comment> \<open>a time stamp in ISO form\<close>

text \<open>\<open>s.encode("utf-8")\<close>.\<close>

definition utf8_char :: "char \<Rightarrow> string" where
  "utf8_char c = (let n = (of_char c :: nat) in
     if n < 128 then [c] else [char_of (192 + n div 64), char_of (128 + n mod 64)])"

definition utf8 :: "string \<Rightarrow> string" where
  "utf8 s = concat (map utf8_char s)"

text \<open>Text mode translates the line ends it reads.\<close>

definition universal_newlines :: "string \<Rightarrow> string" where
  "universal_newlines s = py_replace [CHR 0x0D] [CHR 0x0A] (py_replace [CHR 0x0D, CHR 0x0A] [CHR 0x0A] s)"

definition in_dir :: "string \<Rightarrow> string \<Rightarrow> string" where
  "in_dir path name = path @ ''/'' @ name"

datatype reading = Missing | Unreadable string | Bytes string

definition read_file :: "run_dir \<Rightarrow> string \<Rightarrow> reading" where
  "read_file d name =
     (case map_of (rd_files d) name of
        None \<Rightarrow> Missing
      | Some b \<Rightarrow> (case map_of (rd_denied d) name of Some m \<Rightarrow> Unreadable m | None \<Rightarrow> Bytes b))"

definition put_file :: "string \<Rightarrow> string \<Rightarrow> run_dir \<Rightarrow> run_dir" where
  "put_file name b d = d\<lparr>rd_files := AList.update name b (rd_files d)\<rparr>"

definition drop_file :: "string \<Rightarrow> run_dir \<Rightarrow> run_dir" where
  "drop_file name d = d\<lparr>rd_files := AList.delete name (rd_files d)\<rparr>"

definition has_file :: "string \<Rightarrow> run_dir \<Rightarrow> bool" where
  "has_file name d \<longleftrightarrow> map_of (rd_files d) name \<noteq> None"

section \<open>The atomic write\<close>

text \<open>
  What happens to one atomic write: the unique part of the temporary name, the texts of the OSErrors
  of its calls (a failed write leaves the first bytes), and whether the temporary file can be removed.
\<close>

record write_weather =
  ww_unique :: string
  ww_create :: "string option"
  ww_write :: "(nat \<times> string) option"
  ww_replace :: "string option"
  ww_sync :: "string option"
  ww_unlink :: bool

definition tmp_name :: "write_weather \<Rightarrow> string \<Rightarrow> string" where
  "tmp_name ww name = ''.'' @ name @ ''.'' @ ww_unique ww @ ''.tmp''"

definition exists_text :: "string \<Rightarrow> string" where
  "exists_text path = ''[Errno 17] File exists: '' @ py_repr path"

definition write_failed :: "string \<Rightarrow> string \<Rightarrow> string \<Rightarrow> zerror" where
  "write_failed path name why = \<lparr>err_class = PersistenceError,
     message = ''atomic write of '' @ name @ '' failed: '' @ why, details = [(''path'', PStr (in_dir path name))]\<rparr>"

text \<open>
  The \<open>try\<close> block: the directory after each of its effects, any number of bytes of the temporary file
  having reached it in between, and the OSError that ends it.
\<close>

definition write_steps :: "write_weather \<Rightarrow> string \<Rightarrow> string \<Rightarrow> string \<Rightarrow> run_dir \<Rightarrow> run_dir list \<times> string option" where
  "write_steps ww path name data d =
     (let tmp = tmp_name ww name; at_byte = (\<lambda>k. put_file tmp (take k data) d) in
      case ww_create ww of Some why \<Rightarrow> ([], Some why)
    | None \<Rightarrow>
        if has_file tmp d then ([], Some (exists_text (in_dir path tmp)))
        else case ww_write ww of Some (n, why) \<Rightarrow> (map at_byte [0..<Suc n], Some why)
    | None \<Rightarrow> (let written = map at_byte [0..<Suc (length data)] in
        case ww_replace ww of Some why \<Rightarrow> (written, Some why)
      | None \<Rightarrow> (written @ [put_file name data (drop_file tmp d)], ww_sync ww)))"

text \<open>\<open>atomic_write_bytes\<close>: every directory the write goes through, the last one it leaves, and its result.\<close>

definition atomic_write_bytes ::
  "write_weather \<Rightarrow> string \<Rightarrow> string \<Rightarrow> string \<Rightarrow> run_dir \<Rightarrow> run_dir list \<times> string outcome" where
  "atomic_write_bytes ww path name data d =
     (case write_steps ww path name data d of
        (ds, None) \<Rightarrow> (d # ds, Returns (in_dir path name))
      | (ds, Some why) \<Rightarrow> (let left = last (d # ds) in
          (d # ds @ [if ww_unlink ww then drop_file (tmp_name ww name) left else left],
           Raises (write_failed path name why))))"

section \<open>Opening a run\<close>

record open_weather =
  ow_mkdir :: "string option"          \<comment> \<open>of \<open>_ensure_dir\<close>, for any of the three directories\<close>
  ow_create :: "string option"         \<comment> \<open>of the sentinel, when it does not exist\<close>
  ow_write :: "string option"          \<comment> \<open>of the payload: nothing has reached the file\<close>
  ow_pid :: int
  ow_now :: string                     \<comment> \<open>\<open>utc_now_iso()\<close>\<close>
  ow_mtime :: int                      \<comment> \<open>of a directory that is created now\<close>

definition default_dumps :: "pyval \<Rightarrow> string" where
  "default_dumps v = concat (map ascii_char (json_dumps '', '' '': '' v))"

definition sentinel_value :: "system \<Rightarrow> open_weather \<Rightarrow> string \<Rightarrow> (string \<times> pyval) list" where
  "sentinel_value sy ow run_id =
     [(''pid'', PInt (ow_pid ow)), (''run_id'', PStr run_id), (''started_at'', PStr (ow_now ow)),
      (''process_start'', PStr (case process_start_marker sy (ow_pid ow) of None \<Rightarrow> [] | Some m \<Rightarrow> m))]"

definition sentinel_payload :: "system \<Rightarrow> open_weather \<Rightarrow> string \<Rightarrow> string" where
  "sentinel_payload sy ow run_id = default_dumps (PDict (sentinel_value sy ow run_id))"

text \<open>The handle of a writer: its buffered text, whether the events file is open, whether it is finalized.\<close>

record run_writer =
  rw_run_id :: string
  rw_path :: string                    \<comment> \<open>of the run directory\<close>
  rw_open :: bool
  rw_buffer :: string
  rw_finalized :: bool

definition invalid_run_id :: "string \<Rightarrow> zerror" where
  "invalid_run_id run_id = \<lparr>err_class = PersistenceError,
     message = ''invalid run id '' @ py_repr run_id @ '' (run ids are ULIDs)'', details = [(''run_id'', PStr run_id)]\<rparr>"

definition active_writer :: "string \<Rightarrow> string \<Rightarrow> zerror" where
  "active_writer path run_id = \<lparr>err_class = PersistenceError, message = ''run directory already has an active writer'',
     details = [(''run_id'', PStr run_id), (''sentinel'', PStr (in_dir path WRITER_SENTINEL))]\<rparr>"

definition no_sentinel :: "string \<Rightarrow> string \<Rightarrow> zerror" where
  "no_sentinel why run_id = \<lparr>err_class = PersistenceError, message = ''cannot create writer sentinel: '' @ why,
     details = [(''run_id'', PStr run_id)]\<rparr>"

text \<open>\<open>RunDirWriter.__init__\<close> with \<open>_acquire_sentinel\<close>.\<close>

definition new_writer :: "system \<Rightarrow> open_weather \<Rightarrow> string \<Rightarrow> string \<Rightarrow> run_dir \<Rightarrow> run_writer outcome \<times> run_dir" where
  "new_writer sy ow run_id path d =
     (if has_file WRITER_SENTINEL d then (Raises (active_writer path run_id), d)
      else case ow_create ow of Some why \<Rightarrow> (Raises (no_sentinel why run_id), d)
      | None \<Rightarrow>
          (case ow_write ow of Some why \<Rightarrow> (Escapes why, put_file WRITER_SENTINEL [] d)
           | None \<Rightarrow> (Returns \<lparr>rw_run_id = run_id, rw_path = path, rw_open = False, rw_buffer = [], rw_finalized = False\<rparr>,
               put_file WRITER_SENTINEL (utf8 (sentinel_payload sy ow run_id)) d)))"

text \<open>\<open>RunStore.open_run\<close>; \<open>root\<close> is the path of \<open>runs_dir\<close>.\<close>

definition open_run :: "store_library \<Rightarrow> system \<Rightarrow> open_weather \<Rightarrow> string \<Rightarrow> string \<Rightarrow> store \<Rightarrow> run_writer outcome \<times> store" where
  "open_run sl sy ow root run_id st =
     (if \<not> sl_run_id sl run_id then (Raises (invalid_run_id run_id), st)
      else case ow_mkdir ow of Some why \<Rightarrow> (Escapes why, st)
      | None \<Rightarrow>
          (let d = get_or \<lparr>rd_files = [], rd_mtime = Some (ow_mtime ow), rd_denied = []\<rparr> st run_id in
           case new_writer sy ow run_id (in_dir root run_id) d of (r, d1) \<Rightarrow> (r, AList.update run_id d1 st)))"

section \<open>The writer\<close>

definition already_finalized :: "run_writer \<Rightarrow> zerror" where
  "already_finalized wr = \<lparr>err_class = PersistenceError, message = ''run writer already finalized'',
     details = [(''run_id'', PStr (rw_run_id wr))]\<rparr>"

definition cannot_open_events :: "run_writer \<Rightarrow> string \<Rightarrow> zerror" where
  "cannot_open_events wr why = \<lparr>err_class = PersistenceError, message = ''cannot open events file: '' @ why,
     details = [(''path'', PStr (in_dir (rw_path wr) EVENTS_FILENAME))]\<rparr>"

text \<open>What an append or a flush meets: the OSErrors of the open and of the write, and how much of the buffer goes out.\<close>

record file_weather =
  fw_open :: "string option"
  fw_write :: "string option"
  fw_out :: nat

definition spill :: "nat \<Rightarrow> run_writer \<Rightarrow> run_dir \<Rightarrow> run_writer \<times> run_dir" where
  "spill n wr d =
     (wr\<lparr>rw_buffer := drop n (rw_buffer wr)\<rparr>,
      put_file EVENTS_FILENAME (get_or [] (rd_files d) EVENTS_FILENAME @ take n (rw_buffer wr)) d)"

definition event_text :: "string \<Rightarrow> string" where
  "event_text line = utf8 (if suffix [CHR 0x0A] line then line else line @ [CHR 0x0A])"

definition append_event :: "file_weather \<Rightarrow> string \<Rightarrow> run_writer \<Rightarrow> run_dir \<Rightarrow> unit outcome \<times> run_writer \<times> run_dir" where
  "append_event fw line wr d =
     (if rw_finalized wr then (Raises (already_finalized wr), wr, d)
      else case (if rw_open wr then None else fw_open fw) of
        Some why \<Rightarrow> (Raises (cannot_open_events wr why), wr, d)
      | None \<Rightarrow>
          (let d1 = (if has_file EVENTS_FILENAME d then d else put_file EVENTS_FILENAME [] d);
               wr1 = wr\<lparr>rw_open := True, rw_buffer := rw_buffer wr @ event_text line\<rparr>
           in case fw_write fw of
                Some why \<Rightarrow> (Escapes why, spill (fw_out fw) wr1 d1)
              | None \<Rightarrow> (Returns (), spill (fw_out fw) wr1 d1)))"

text \<open>\<open>flush\<close> and \<open>fsync_events\<close>: an error may leave a part of the buffer.\<close>

definition flush_events :: "file_weather \<Rightarrow> run_writer \<Rightarrow> run_dir \<Rightarrow> unit outcome \<times> run_writer \<times> run_dir" where
  "flush_events fw wr d =
     (if \<not> rw_open wr then (Returns (), wr, d)
      else case fw_write fw of
        Some why \<Rightarrow> (Escapes why, spill (fw_out fw) wr d)
      | None \<Rightarrow> (Returns (), spill (length (rw_buffer wr)) wr d))"

definition write_result :: "write_weather \<Rightarrow> string \<Rightarrow> run_writer \<Rightarrow> run_dir \<Rightarrow> run_dir list \<times> string outcome" where
  "write_result ww result_json wr d =
     (if rw_finalized wr then ([d], Raises (already_finalized wr))
      else atomic_write_bytes ww (rw_path wr) RESULT_FILENAME (utf8 result_json) d)"

text \<open>\<open>finalize\<close>: closing drops what could not be flushed; the last argument is whether the sentinel can be removed.\<close>

definition finalize_writer :: "file_weather \<Rightarrow> bool \<Rightarrow> run_writer \<Rightarrow> run_dir \<Rightarrow> run_writer \<times> run_dir" where
  "finalize_writer fw unlinks wr d =
     (if rw_finalized wr then (wr, d)
      else case flush_events fw wr d of (_, wr1, d1) \<Rightarrow>
        (wr1\<lparr>rw_open := False, rw_buffer := [], rw_finalized := True\<rparr>,
         if unlinks then drop_file WRITER_SENTINEL d1 else d1))"

section \<open>Reading\<close>

text \<open>\<open>iter_run_dirs\<close>: the store holds directories only.\<close>

definition iter_run_dirs :: "store_library \<Rightarrow> store \<Rightarrow> string list" where
  "iter_run_dirs sl st = filter (sl_run_id sl) (sort (remdups (keys st)))"

definition manifest_error :: "string \<Rightarrow> string \<Rightarrow> (string \<times> pyval) list \<Rightarrow> zerror" where
  "manifest_error path m extra = \<lparr>err_class = PersistenceError, message = m, details = (''path'', PStr path) # extra\<rparr>"

definition manifest_missing :: "string \<Rightarrow> string" where
  "manifest_missing run_id = ''result manifest missing for run '' @ run_id"

definition manifest_unreadable :: "string \<Rightarrow> string \<Rightarrow> string" where
  "manifest_unreadable run_id why = ''result manifest unreadable for run '' @ run_id @ '': '' @ why"

definition manifest_for :: "string \<Rightarrow> string \<Rightarrow> string" where
  "manifest_for run_id what = ''result manifest for run '' @ run_id @ what"

definition supported_text :: string where
  "supported_text = ''['' @ join '', '' (map str_of_int (sort SUPPORTED_RESULT_SCHEMAS)) @ '']''"

definition unsupported_version :: "string \<Rightarrow> int \<Rightarrow> string" where
  "unsupported_version run_id v = ''unsupported schema version '' @ str_of_int v @ '' in result manifest for run ''
     @ run_id @ ''; this ziggy supports '' @ supported_text"

text \<open>The object read, once its version is checked.\<close>

definition check_manifest :: "string \<Rightarrow> string \<Rightarrow> (string \<times> pyval) list \<Rightarrow> (string \<times> pyval) list outcome" where
  "check_manifest path run_id data =
     (case get_or PNone data ''schema_version'' of
        PInt v \<Rightarrow>
          if v \<in> set SUPPORTED_RESULT_SCHEMAS then Returns data
          else Raises (manifest_error path (unsupported_version run_id v) [(''schema_version'', PInt v)])
      | v \<Rightarrow> Raises (manifest_error path (manifest_for run_id '' has an invalid schema_version'')
               [(''schema_version'', PStr (repr_val v))]))"

definition read_result :: "store_library \<Rightarrow> string \<Rightarrow> string \<Rightarrow> store \<Rightarrow> (string \<times> pyval) list outcome" where
  "read_result sl root run_id st =
     (let path = in_dir (in_dir root run_id) RESULT_FILENAME in
      case (case map_of st run_id of None \<Rightarrow> Missing | Some d \<Rightarrow> read_file d RESULT_FILENAME) of
        Missing \<Rightarrow> Raises (manifest_error path (manifest_missing run_id) [])
      | Unreadable why \<Rightarrow> Raises (manifest_error path (manifest_unreadable run_id why) [])
      | Bytes b \<Rightarrow>
          (case sl_loads_bytes sl b of
             JOther m \<Rightarrow> Escapes m
           | JDecodeError m \<Rightarrow> Raises (manifest_error path (manifest_for run_id '' is not valid JSON'') [])
           | JValue v \<Rightarrow> (case v of PDict data \<Rightarrow> check_manifest path run_id data
               | _ \<Rightarrow> Raises (manifest_error path (manifest_for run_id '' is not a JSON object'') []))))"

end
