(* ===== verification/Run_Index.thy ===== *)
theory Run_Index
  imports Run_Files Run_Common
begin

text \<open>
  \<open>store/index.py\<close>: the SQLite index of runs, derived from the manifests, and the recovery of runs
  whose writer died. The table is an association list from run ids to rows; the errors SQLite may
  give to a statement are arguments. The theorems are in \<open>Store_Safety\<close>.
\<close>

section \<open>Rows\<close>

record index_row =
  ix_run_id :: string
  ix_kind :: string
  ix_target :: string
  ix_status :: string
  ix_started_at :: string
  ix_ended_at :: "string option"
  ix_duration_ms :: "int option"
  ix_workspace :: string
  ix_result_path :: string

type_synonym table = "(string \<times> index_row) list"

definition FAILED_STATUSES :: "string list" where
  "FAILED_STATUSES = map run_status_value [RunFailed, RunPartial, RunAbandoned]"

definition BUSY_TIMEOUT_MS :: int where "BUSY_TIMEOUT_MS = 5000"
definition INDEX_SCHEMA_VERSION :: int where "INDEX_SCHEMA_VERSION = 1"

text \<open>Times are in microseconds: \<open>_NO_SENTINEL_GRACE_SECONDS\<close> is 5 seconds.\<close>

definition NO_SENTINEL_GRACE :: int where "NO_SENTINEL_GRACE = 5000000"

definition required :: "(string \<times> pyval) list \<Rightarrow> string \<Rightarrow> string option" where
  "required data k = (case get_or PNone data k of PStr s \<Rightarrow> if s = [] then None else Some s | _ \<Rightarrow> None)"

definition row_from_manifest :: "(string \<times> pyval) list \<Rightarrow> string \<Rightarrow> index_row option" where
  "row_from_manifest data path =
     (case (required data ''run_id'', required data ''kind'', required data ''target'', required data ''status'',
            required data ''started_at'', required data ''workspace'') of
        (Some run_id, Some kind, Some target, Some st, Some began, Some workspace) \<Rightarrow>
          Some \<lparr>ix_run_id = run_id, ix_kind = kind, ix_target = target, ix_status = st, ix_started_at = began,
            ix_ended_at = (case get_or PNone data ''ended_at'' of PStr s \<Rightarrow> Some s | _ \<Rightarrow> None),
            ix_duration_ms = (case get_or PNone data ''duration_ms'' of PInt i \<Rightarrow> Some i | _ \<Rightarrow> None),
            ix_workspace = workspace, ix_result_path = path\<rparr>
      | _ \<Rightarrow> None)"

section \<open>Statements\<close>

text \<open>An error of SQLite: whether it is an \<open>OperationalError\<close>, and its text.\<close>

type_synonym sqlite_error = "bool \<times> string"

definition query_failed :: "string \<Rightarrow> string \<Rightarrow> zerror" where
  "query_failed path why = \<lparr>err_class = PersistenceError, message = ''run index query failed: '' @ why,
     details = [(''db_path'', PStr path)]\<rparr>"

text \<open>\<open>insert_or_replace\<close>: one row per run id.\<close>

definition insert_or_replace :: "index_row \<Rightarrow> table \<Rightarrow> table" where
  "insert_or_replace row t = AList.update (ix_run_id row) row t"

definition delete_row :: "string \<Rightarrow> table \<Rightarrow> bool \<times> table" where
  "delete_row run_id t = (map_of t run_id \<noteq> None, AList.delete run_id t)"

definition get_row :: "string \<Rightarrow> table \<Rightarrow> index_row option" where
  "get_row run_id t = map_of t run_id"

record listing =
  ls_failed_only :: bool
  ls_kind :: "string option"
  ls_agent_target :: "string option"
  ls_since_iso :: "string option"
  ls_limit :: int

definition listed :: "listing \<Rightarrow> index_row \<Rightarrow> bool" where
  "listed q r \<longleftrightarrow> (ls_failed_only q \<longrightarrow> ix_status r \<in> set FAILED_STATUSES)
     \<and> (case ls_kind q of None \<Rightarrow> True | Some k \<Rightarrow> ix_kind r = k)
     \<and> (case ls_agent_target q of None \<Rightarrow> True | Some a \<Rightarrow> ix_target r = a)
     \<and> (case ls_since_iso q of None \<Rightarrow> True | Some s \<Rightarrow> s \<le> ix_started_at r)"

definition newest_first :: "index_row list \<Rightarrow> index_row list" where
  "newest_first rows = rev (sort_key (\<lambda>r. (ix_started_at r, ix_run_id r)) rows)"

text \<open>A negative \<open>LIMIT\<close> is none.\<close>

definition list_runs :: "listing \<Rightarrow> table \<Rightarrow> index_row list" where
  "list_runs q t = (let rows = newest_first (filter (listed q) (map snd t)) in
     if ls_limit q < 0 then rows else take (nat (ls_limit q)) rows)"

section \<open>Setup\<close>

text \<open>
  The database on disk and what SQLite answers during one setup: the error of each statement, counted
  in program order from 0 (\<open>PRAGMA busy_timeout\<close>) to 9 (\<open>COMMIT\<close>), and the journal mode it reports.
\<close>

record index_db =
  db_version :: "string option"
  db_rows :: table

record setup_weather =
  sw_error :: "nat \<Rightarrow> sqlite_error option"
  sw_mode :: "string option"

fun first_error :: "(nat \<Rightarrow> sqlite_error option) \<Rightarrow> nat list \<Rightarrow> sqlite_error option" where
  "first_error f [] = None"
| "first_error f (i # is) = (case f i of None \<Rightarrow> first_error f is | Some e \<Rightarrow> Some e)"

text \<open>The result of a setup; the flag says whether the retry loop takes the error for a transient one.\<close>

datatype setup_result = Ready | SetupFailed zerror bool

definition looks_transient :: "sqlite_error \<Rightarrow> bool" where
  "looks_transient e \<longleftrightarrow> fst e \<and> (contains ''locked'' (snd e) \<or> contains ''busy'' (snd e))"

definition statement_failed :: "string \<Rightarrow> sqlite_error \<Rightarrow> setup_result" where
  "statement_failed path e = SetupFailed (query_failed path (snd e)) (looks_transient e)"

definition wal_refused :: "string \<Rightarrow> zerror" where
  "wal_refused path = \<lparr>err_class = PersistenceError, message = ''run index requires WAL journal mode; filesystem refused it'',
     details = [(''db_path'', PStr path)]\<rparr>"

definition supported_versions :: "int list" where
  "supported_versions = [INDEX_SCHEMA_VERSION, INDEX_SCHEMA_VERSION - 1]"

definition unsupported_schema :: "string \<Rightarrow> string \<Rightarrow> zerror" where
  "unsupported_schema path v = \<lparr>err_class = PersistenceError,
     message = ''unsupported index schema version '' @ py_repr v @ ''; this ziggy supports ['' @
       join '', '' (map str_of_int (sort (filter (\<lambda>i. 1 \<le> i) supported_versions))) @ '']'',
     details = [(''db_path'', PStr path), (''schema_version'', PStr v)]\<rparr>"

definition check_schema_version :: "string \<Rightarrow> string \<Rightarrow> zerror option" where
  "check_schema_version path v =
     (case py_int v of
        None \<Rightarrow> Some (unsupported_schema path v)
      | Some i \<Rightarrow> if i < 1 \<or> i \<notin> set supported_versions then Some (unsupported_schema path v) else None)"

definition setup_index :: "setup_weather \<Rightarrow> string \<Rightarrow> index_db \<Rightarrow> setup_result \<times> index_db" where
  "setup_index sw path db =
     (case first_error (sw_error sw) [0, 1] of Some e \<Rightarrow> (statement_failed path e, db)
    | None \<Rightarrow>
        if map_option (map to_lower) (sw_mode sw) \<noteq> Some ''wal'' then (SetupFailed (wal_refused path) False, db)
        else case first_error (sw_error sw) [2, 3, 4, 5] of Some e \<Rightarrow> (statement_failed path e, db)
    | None \<Rightarrow>
        (case (case db_version db of None \<Rightarrow> None | Some v \<Rightarrow> check_schema_version path v) of
           Some e \<Rightarrow> (SetupFailed e False, db)
         | None \<Rightarrow>
             (case first_error (sw_error sw) [6, 7, 8, 9] of Some e \<Rightarrow> (statement_failed path e, db)
              | None \<Rightarrow> (Ready, db\<lparr>db_version := (case db_version db of None \<Rightarrow> Some (str_of_int INDEX_SCHEMA_VERSION) | v \<Rightarrow> v)\<rparr>))))"

text \<open>
  \<open>_setup_with_retry\<close>, which may go on for ever on a clock that stands still. The arguments give, for
  each attempt, what SQLite answers, the database it finds and the clock in milliseconds after it; the
  result has the number of the last attempt.
\<close>

partial_function (option) setup_loop ::
  "(nat \<Rightarrow> setup_weather) \<Rightarrow> (nat \<Rightarrow> index_db) \<Rightarrow> (nat \<Rightarrow> int) \<Rightarrow> string \<Rightarrow> int \<Rightarrow> nat \<Rightarrow> (nat \<times> zerror option \<times> index_db) option" where
  "setup_loop tries found clk path deadline i =
     (case setup_index (tries i) path (found i) of
        (Ready, db) \<Rightarrow> Some (i, None, db)
      | (SetupFailed e transient, db) \<Rightarrow>
          if \<not> transient \<or> deadline \<le> clk i then Some (i, Some e, db)
          else setup_loop tries found clk path deadline (Suc i))"

definition setup_with_retry ::
  "(nat \<Rightarrow> setup_weather) \<Rightarrow> (nat \<Rightarrow> index_db) \<Rightarrow> (nat \<Rightarrow> int) \<Rightarrow> string \<Rightarrow> int \<Rightarrow> (nat \<times> zerror option \<times> index_db) option" where
  "setup_with_retry tries found clk path now = setup_loop tries found clk path (now + BUSY_TIMEOUT_MS) 0"

section \<open>Reindexing\<close>

text \<open>The manifests of the store, last writer of a run id winning; \<open>Escapes\<close> when a read does.\<close>

fun scan_manifests :: "store_library \<Rightarrow> string \<Rightarrow> store \<Rightarrow> string list \<Rightarrow> table \<Rightarrow> table outcome" where
  "scan_manifests sl runs st [] t = Returns t"
| "scan_manifests sl runs st (d # ds) t =
     (case read_result sl runs d st of
        Escapes m \<Rightarrow> Escapes m
      | Raises e \<Rightarrow> scan_manifests sl runs st ds t
      | Returns data \<Rightarrow>
          (case row_from_manifest data (in_dir (in_dir runs d) RESULT_FILENAME) of
             None \<Rightarrow> scan_manifests sl runs st ds t
           | Some row \<Rightarrow> scan_manifests sl runs st ds (insert_or_replace row t)))"

text \<open>
  \<open>reindex\<close>: \<open>before\<close> is the table at the snapshot, \<open>t\<close> the table under the write lock, which other
  processes may have changed meanwhile. The last argument is an error of the transaction.
\<close>

definition reindex ::
  "store_library \<Rightarrow> string \<Rightarrow> string \<Rightarrow> store \<Rightarrow> table \<Rightarrow> table \<Rightarrow> sqlite_error option \<Rightarrow> nat outcome \<times> table" where
  "reindex sl runs path st before t err =
     (case scan_manifests sl runs st (iter_run_dirs sl st) [] of
        Escapes m \<Rightarrow> (Escapes m, t)
      | Raises e \<Rightarrow> (Raises e, t)
      | Returns scanned \<Rightarrow>
          (case err of Some e \<Rightarrow> (Raises (query_failed path (snd e)), t)
           | None \<Rightarrow>
               (let stale = filter (\<lambda>k. k \<notin> set (keys scanned)) (keys before);
                    upserted = fold insert_or_replace (map snd scanned) t
                in (Returns (length scanned), fold (\<lambda>k u. snd (delete_row k u)) stale upserted))))"

section \<open>Recovery\<close>

text \<open>\<open>os.kill\<close> raises an OverflowError, which is no OSError, on a pid beyond the C integers.\<close>

definition C_INT_MAX :: int where "C_INT_MAX = 2 ^ 31 - 1"

definition pid_provably_dead :: "system \<Rightarrow> int \<Rightarrow> bool outcome" where
  "pid_provably_dead sy pid =
     (if pid \<le> 0 then Returns False
      else if C_INT_MAX < pid then Escapes ''OverflowError''
      else Returns (sy_kill sy pid = NoSuchProcess))"

text \<open>The \<open>pid\<close> of a sentinel that was read is a positive integer.\<close>

definition owner_pid :: "(string \<times> pyval) list \<Rightarrow> int" where
  "owner_pid owner = (case get_or PNone owner ''pid'' of PInt p \<Rightarrow> p | _ \<Rightarrow> 0)"

definition writer_provably_dead :: "system \<Rightarrow> (string \<times> pyval) list \<Rightarrow> bool outcome" where
  "writer_provably_dead sy owner =
     (let pid = owner_pid owner in
      case pid_provably_dead sy pid of
        Escapes m \<Rightarrow> Escapes m
      | Raises e \<Rightarrow> Raises e
      | Returns True \<Rightarrow> Returns True
      | Returns False \<Rightarrow>
          (case required owner ''process_start'' of
             None \<Rightarrow> Returns False
           | Some noted \<Rightarrow>
               (case process_start_marker sy pid of
                  None \<Rightarrow> Returns False
                | Some marker_now \<Rightarrow> Returns (marker_now \<noteq> noted))))"

text \<open>\<open>_read_sentinel\<close>: \<open>None\<close> for a corrupt one.\<close>

definition sentinel_owner :: "pyval \<Rightarrow> (string \<times> pyval) list option" where
  "sentinel_owner v = (case v of
     PDict data \<Rightarrow> (case get_or PNone data ''pid'' of PInt p \<Rightarrow> if p \<le> 0 then None else Some data | _ \<Rightarrow> None)
   | _ \<Rightarrow> None)"

definition read_sentinel :: "store_library \<Rightarrow> run_dir \<Rightarrow> (string \<times> pyval) list option outcome" where
  "read_sentinel sl d =
     (case read_file d WRITER_SENTINEL of
        Bytes b \<Rightarrow>
          (case sl_decode sl b of
             None \<Rightarrow> Returns None
           | Some s \<Rightarrow>
               (case sl_loads sl (take 4096 (universal_newlines s)) of
                  JOther m \<Rightarrow> Escapes m
                | JDecodeError m \<Rightarrow> Returns None
                | JValue v \<Rightarrow> Returns (sentinel_owner v)))
      | _ \<Rightarrow> Returns None)"

text \<open>\<open>fh.readline(n)\<close>.\<close>

definition readline :: "nat \<Rightarrow> string \<Rightarrow> string" where
  "readline n s = (let line = takeWhile (\<lambda>c. c \<noteq> CHR 0x0A) s in take n (take (Suc (length line)) s))"

definition payload_fact :: "(string \<times> pyval) list \<Rightarrow> string \<Rightarrow> (string \<times> string) list" where
  "payload_fact body k = (case required body k of None \<Rightarrow> [] | Some s \<Rightarrow> [(k, s)])"

definition envelope_facts :: "pyval \<Rightarrow> (string \<times> string) list" where
  "envelope_facts v = (case v of
     PDict envelope \<Rightarrow>
       (case required envelope ''ts'' of None \<Rightarrow> [] | Some s \<Rightarrow> [(''started_at'', s)])
       @ (case get_or PNone envelope ''payload'' of
            PDict body \<Rightarrow> concat (map (payload_fact body) [''kind'', ''target'', ''workspace''])
          | _ \<Rightarrow> [])
   | _ \<Rightarrow> [])"

definition derive_run_facts :: "store_library \<Rightarrow> run_dir \<Rightarrow> (string \<times> string) list outcome" where
  "derive_run_facts sl d =
     (case read_file d EVENTS_FILENAME of
        Bytes b \<Rightarrow>
          (case sl_loads sl (readline 65536 (universal_newlines (sl_lossy sl b))) of
             JOther m \<Rightarrow> Escapes m
           | JDecodeError m \<Rightarrow> Returns []
           | JValue v \<Rightarrow> Returns (envelope_facts v))
      | _ \<Rightarrow> Returns [])"

text \<open>\<open>json.dumps(value, indent=2)\<close> at a depth of \<open>n\<close> blanks, before ASCII escapes.\<close>

definition new_line :: "nat \<Rightarrow> string" where
  "new_line n = CHR 0x0A # replicate n (CHR '' '')"

fun json_indented :: "nat \<Rightarrow> pyval \<Rightarrow> string"
  and indented_items :: "nat \<Rightarrow> pyval list \<Rightarrow> string list"
  and indented_pairs :: "nat \<Rightarrow> (string \<times> pyval) list \<Rightarrow> string list" where
  "json_indented n (PList xs) = (if xs = [] then ''[]'' else ''['' @ new_line (n + 2)
     @ join ('','' @ new_line (n + 2)) (indented_items (n + 2) xs) @ new_line n @ '']'')"
| "json_indented n (PDict kvs) = (if kvs = [] then ''{}'' else ''{'' @ new_line (n + 2)
     @ join ('','' @ new_line (n + 2)) (indented_pairs (n + 2) kvs) @ new_line n @ ''}'')"
| "json_indented n v = json_dumps '', '' '': '' v"
| "indented_items n [] = []"
| "indented_items n (x # xs) = json_indented n x # indented_items n xs"
| "indented_pairs n [] = []"
| "indented_pairs n ((k, v) # kvs) = (json_str k @ '': '' @ json_indented n v) # indented_pairs n kvs"

definition manifest_text :: "(string \<times> pyval) list \<Rightarrow> string" where
  "manifest_text data = concat (map ascii_char (json_indented 0 (PDict data)))"

definition interrupted :: string where
  "interrupted = ''run interrupted before a terminal result was persisted; finalized as abandoned by store inspection''"

definition abandoned_manifest :: "string \<Rightarrow> (string \<times> string) list \<Rightarrow> string \<Rightarrow> string \<Rightarrow> (string \<times> pyval) list" where
  "abandoned_manifest run_id facts began ended_at =
     [(''schema_version'', PInt RESULT_SCHEMA_VERSION), (''run_id'', PStr run_id),
      (''kind'', PStr (get_or ''unknown'' facts ''kind'')), (''target'', PStr (get_or ''unknown'' facts ''target'')),
      (''status'', PStr (run_status_value RunAbandoned)), (''started_at'', PStr began),
      (''ended_at'', PStr ended_at), (''duration_ms'', PNone),
      (''workspace'', PStr (get_or ''unknown'' facts ''workspace'')), (''finalized_by'', PStr ''store_recovery''),
      (''errors'', PList [PDict [(''code'', PStr (error_code AbandonedError)), (''message'', PStr interrupted),
         (''details'', PDict [])]])]"

definition abandoned_row :: "string \<Rightarrow> (string \<times> string) list \<Rightarrow> string \<Rightarrow> string \<Rightarrow> string \<Rightarrow> index_row" where
  "abandoned_row run_id facts began ended_at path =
     \<lparr>ix_run_id = run_id, ix_kind = get_or ''unknown'' facts ''kind'', ix_target = get_or ''unknown'' facts ''target'',
      ix_status = run_status_value RunAbandoned, ix_started_at = began, ix_ended_at = Some ended_at,
      ix_duration_ms = None, ix_workspace = get_or ''unknown'' facts ''workspace'', ix_result_path = path\<rparr>"

text \<open>What a recovery meets: \<open>time.time()\<close> at its start, \<open>utc_now_iso()\<close>, and the calls for each directory.\<close>

record recovery_weather =
  vw_now :: int
  vw_iso :: string
  vw_unlink :: "string \<Rightarrow> bool"
  vw_write :: "string \<Rightarrow> write_weather"
  vw_insert :: "string \<Rightarrow> sqlite_error option"

text \<open>
  The judgement on one directory: \<open>Take\<close> carries the owner of its sentinel, if it has one, and the
  directory without it; removing the sentinel also sets the modification time.
\<close>

datatype judgement = Skip | Abort string | Take "(string \<times> pyval) list option" run_dir

definition judge_dir :: "store_library \<Rightarrow> system \<Rightarrow> recovery_weather \<Rightarrow> string \<Rightarrow> run_dir \<Rightarrow> judgement" where
  "judge_dir sl sy vw run_id d =
     (if has_file RESULT_FILENAME d then Skip
      else if has_file WRITER_SENTINEL d then
        (case read_sentinel sl d of
           Escapes m \<Rightarrow> Abort m
         | Raises e \<Rightarrow> Skip
         | Returns None \<Rightarrow> Skip
         | Returns (Some owner) \<Rightarrow>
             (case writer_provably_dead sy owner of
                Escapes m \<Rightarrow> Abort m
              | Raises e \<Rightarrow> Skip
              | Returns dead \<Rightarrow>
                  if dead \<and> vw_unlink vw run_id
                  then Take (Some owner) ((drop_file WRITER_SENTINEL d)\<lparr>rd_mtime := Some (vw_now vw)\<rparr>) else Skip))
      else case rd_mtime d of
        None \<Rightarrow> Skip
      | Some t \<Rightarrow> if vw_now vw - t < NO_SENTINEL_GRACE then Skip else Take None d)"

definition mtime_iso :: "store_library \<Rightarrow> recovery_weather \<Rightarrow> run_dir \<Rightarrow> string" where
  "mtime_iso sl vw d = (case rd_mtime d of None \<Rightarrow> vw_iso vw | Some t \<Rightarrow> sl_iso sl t)"

definition recovered_start ::
  "store_library \<Rightarrow> recovery_weather \<Rightarrow> (string \<times> pyval) list option \<Rightarrow> (string \<times> string) list \<Rightarrow> run_dir \<Rightarrow> string" where
  "recovered_start sl vw owner facts d =
     (case (case owner of None \<Rightarrow> None | Some data \<Rightarrow> required data ''started_at'') of
        Some s \<Rightarrow> s
      | None \<Rightarrow> (case map_of facts ''started_at'' of Some s \<Rightarrow> s | None \<Rightarrow> mtime_iso sl vw d))"

text \<open>\<open>recover_abandoned\<close>: the store and the table as the loop leaves them, also when an exception ends it.\<close>

fun recover_dirs ::
  "store_library \<Rightarrow> system \<Rightarrow> recovery_weather \<Rightarrow> string \<Rightarrow> string \<Rightarrow> string list \<Rightarrow> store \<Rightarrow> table
    \<Rightarrow> string list outcome \<times> store \<times> table" where
  "recover_dirs sl sy vw runs path [] st t = (Returns [], st, t)"
| "recover_dirs sl sy vw runs path (i # is) st t =
     (case map_of st i of None \<Rightarrow> recover_dirs sl sy vw runs path is st t | Some d \<Rightarrow>
      (case judge_dir sl sy vw i d of
         Skip \<Rightarrow> recover_dirs sl sy vw runs path is st t
       | Abort m \<Rightarrow> (Escapes m, st, t)
       | Take owner d1 \<Rightarrow>
           (case derive_run_facts sl d1 of
              Escapes m \<Rightarrow> (Escapes m, AList.update i d1 st, t)
            | Raises e \<Rightarrow> (Raises e, AList.update i d1 st, t)
            | Returns facts \<Rightarrow>
                (let began = recovered_start sl vw owner facts d1;
                     manifest = abandoned_manifest i facts began (vw_iso vw) in
                 case atomic_write_bytes (vw_write vw i) (in_dir runs i) RESULT_FILENAME (utf8 (manifest_text manifest)) d1 of
                   (ds, Raises e) \<Rightarrow> (Raises e, AList.update i (last ds) st, t)
                 | (ds, Escapes m) \<Rightarrow> (Escapes m, AList.update i (last ds) st, t)
                 | (ds, Returns p) \<Rightarrow>
                     (let st1 = AList.update i (last ds) st in
                      case vw_insert vw i of
                        Some e \<Rightarrow> (Raises (query_failed path (snd e)), st1, t)
                      | None \<Rightarrow>
                          (case recover_dirs sl sy vw runs path is st1
                                  (insert_or_replace (abandoned_row i facts began (vw_iso vw) p) t) of
                             (Returns done_ids, st2, t2) \<Rightarrow> (Returns (i # done_ids), st2, t2)
                           | r \<Rightarrow> r))))))"

definition recover_abandoned ::
  "store_library \<Rightarrow> system \<Rightarrow> recovery_weather \<Rightarrow> string \<Rightarrow> string \<Rightarrow> store \<Rightarrow> table \<Rightarrow> string list outcome \<times> store \<times> table" where
  "recover_abandoned sl sy vw runs path st t = recover_dirs sl sy vw runs path (iter_run_dirs sl st) st t"

end
