(* ===== verification/Store_Safety.thy ===== *)
theory Store_Safety
  imports Run_Index
begin

text \<open>
  What the run store and its index promise: an atomic write shows no partial file, a run has one writer
  and loses no line it acknowledged, a manifest of another schema is never interpreted, reindexing keeps
  what other processes insert, recovery leaves live and finished runs alone, and the setup of the index
  comes to an end.
\<close>

section \<open>Files\<close>

lemma map_of_put_file [simp]:
  "map_of (rd_files (put_file name b d)) k = (if k = name then Some b else map_of (rd_files d) k)"
  by (simp add: put_file_def update_conv')

lemma map_of_drop_file [simp]:
  "map_of (rd_files (drop_file name d)) k = (if k = name then None else map_of (rd_files d) k)"
  by (simp add: drop_file_def delete_conv')

lemma tmp_name_other [simp]: "tmp_name ww name \<noteq> name" "name \<noteq> tmp_name ww name"
proof -
  have "length (tmp_name ww name) > length name" by (simp add: tmp_name_def)
  then show "tmp_name ww name \<noteq> name" "name \<noteq> tmp_name ww name" by (metis less_irrefl)+
qed

lemma last_snoc_if: "last (xs @ [x]) = x"
  by simp

text \<open>What each directory of an atomic write may hold.\<close>

definition between :: "run_dir \<Rightarrow> string \<Rightarrow> string \<Rightarrow> string \<Rightarrow> run_dir \<Rightarrow> bool" where
  "between d tmp name data d1 \<longleftrightarrow>
     map_of (rd_files d1) name \<in> {map_of (rd_files d) name, Some data}
     \<and> (\<forall>k. k \<noteq> name \<and> k \<noteq> tmp \<longrightarrow> map_of (rd_files d1) k = map_of (rd_files d) k)"

lemma between_refl: "between d tmp name data d"
  by (simp add: between_def)

lemma write_steps_between:
  "d1 \<in> set (fst (write_steps ww path name data d)) \<Longrightarrow> between d (tmp_name ww name) name data d1"
  by (auto simp: write_steps_def Let_def between_def split: option.splits if_splits prod.splits)

lemma write_steps_done:
  "snd (write_steps ww path name data d) = None \<Longrightarrow>
     \<exists>ds. fst (write_steps ww path name data d) = ds @ [put_file name data (drop_file (tmp_name ww name) d)]"
  by (auto simp: write_steps_def Let_def split: option.splits if_splits prod.splits)

text \<open>The condition on the file names, and the result at each end.\<close>

lemma atomic_write_cases:
  obtains (written) ds where
      "atomic_write_bytes ww path name data d = (d # ds @ [put_file name data (drop_file (tmp_name ww name) d)], Returns (in_dir path name))"
      "\<forall>d1 \<in> set ds. between d (tmp_name ww name) name data d1"
  | (failed) ds why where
      "atomic_write_bytes ww path name data d = (d # ds @ [if ww_unlink ww then drop_file (tmp_name ww name) (last (d # ds)) else last (d # ds)],
         Raises (write_failed path name why))"
      "\<forall>d1 \<in> set ds. between d (tmp_name ww name) name data d1"
proof (cases "write_steps ww path name data d")
  case (Pair ds r)
  have steps: "\<forall>d1 \<in> set ds. between d (tmp_name ww name) name data d1"
    using write_steps_between[of _ ww path name data d] Pair by simp
  show thesis
  proof (cases r)
    case None
    then obtain ds0 where ds0: "ds = ds0 @ [put_file name data (drop_file (tmp_name ww name) d)]"
      using write_steps_done[of ww path name data d] Pair by auto
    show thesis
      by (rule written[of ds0]) (use Pair None ds0 steps in \<open>auto simp: atomic_write_bytes_def\<close>)
  next
    case (Some why)
    show thesis
      by (rule failed[of ds why]) (use Pair Some steps in \<open>auto simp: atomic_write_bytes_def Let_def\<close>)
  qed
qed

lemma atomic_write_returned:
  assumes "atomic_write_bytes ww path name data d = (ds, Returns p)"
  shows "p = in_dir path name \<and> map_of (rd_files (last ds)) name = Some data"
proof (cases rule: atomic_write_cases[of ww path name data d])
  case (written es)
  have "ds = (d # es) @ [put_file name data (drop_file (tmp_name ww name) d)]" and "p = in_dir path name"
    using written(1) assms by simp_all
  then show ?thesis by (simp del: append_Cons)
next
  case (failed es why)
  then show ?thesis using assms by simp
qed

lemma between_last: "\<forall>d1 \<in> set ds. between d tmp name data d1 \<Longrightarrow> between d tmp name data (last (d # ds))"
  by (cases ds rule: rev_cases) (auto simp: between_refl)

lemma between_drop: "between d tmp name data d1 \<Longrightarrow> tmp \<noteq> name \<Longrightarrow> between d tmp name data (drop_file tmp d1)"
  by (auto simp: between_def)

lemma atomic_write_between:
  assumes "d1 \<in> set (fst (atomic_write_bytes ww path name data d))"
  shows "between d (tmp_name ww name) name data d1"
proof (cases rule: atomic_write_cases[of ww path name data d])
  case (written ds)
  then show ?thesis using assms by (auto simp: between_def)
next
  case (failed ds why)
  then show ?thesis using assms
    by (auto simp: between_refl split: if_splits intro: between_drop between_last
        dest: between_last[OF failed(2), THEN between_drop])
qed

text \<open>
  C39: An atomic write (\<open>store/runstore.py atomic_write_bytes\<close>, through which every manifest goes) never
  shows a partial file. Whatever fails and however many bytes of the temporary file have reached the
  directory, at every moment of the write the target holds its previous content or the whole new one
  and every other file but the temporary one is as it was. When the write returns, the target holds
  the new content and no temporary file remains; when it raises, it is a PersistenceError, and the
  temporary file is gone unless its removal fails too.
\<close>

theorem atomic_write_shows_no_partial_file:
  assumes "atomic_write_bytes ww path name data d = (ds, r)"
  shows "(\<forall>d1 \<in> set ds. map_of (rd_files d1) name \<in> {map_of (rd_files d) name, Some data}
            \<and> (\<forall>k. k \<noteq> name \<and> k \<noteq> tmp_name ww name \<longrightarrow> map_of (rd_files d1) k = map_of (rd_files d) k))
       \<and> (case r of
            Returns p \<Rightarrow> p = in_dir path name \<and> map_of (rd_files (last ds)) name = Some data
              \<and> map_of (rd_files (last ds)) (tmp_name ww name) = None
          | Raises e \<Rightarrow> err_class e = PersistenceError
              \<and> (ww_unlink ww \<longrightarrow> map_of (rd_files (last ds)) (tmp_name ww name) = None)
          | Escapes m \<Rightarrow> False)"
proof (intro conjI ballI)
  fix d1
  assume "d1 \<in> set ds"
  then have "between d (tmp_name ww name) name data d1"
    using atomic_write_between[of d1 ww path name data d] assms by simp
  then show "map_of (rd_files d1) name \<in> {map_of (rd_files d) name, Some data}"
    and "\<forall>k. k \<noteq> name \<and> k \<noteq> tmp_name ww name \<longrightarrow> map_of (rd_files d1) k = map_of (rd_files d) k"
    by (simp_all add: between_def)
next
  show "case r of
      Returns p \<Rightarrow> p = in_dir path name \<and> map_of (rd_files (last ds)) name = Some data
        \<and> map_of (rd_files (last ds)) (tmp_name ww name) = None
    | Raises e \<Rightarrow> err_class e = PersistenceError
        \<and> (ww_unlink ww \<longrightarrow> map_of (rd_files (last ds)) (tmp_name ww name) = None)
    | Escapes m \<Rightarrow> False"
    using assms by (cases rule: atomic_write_cases[of ww path name data d]) (auto simp: write_failed_def)
qed

definition failing_weather :: write_weather where
  "failing_weather = \<lparr>ww_unique = ''7.0a'', ww_create = None, ww_write = Some (1, ''[Errno 28]''), ww_replace = None,
     ww_sync = None, ww_unlink = True\<rparr>"

definition plain_dir :: run_dir where
  "plain_dir = \<lparr>rd_files = [(''result.json'', ''old'')], rd_mtime = Some 0, rd_denied = []\<rparr>"

lemma atomic_write_shows_no_partial_file_witness:
  "map_of (rd_files (last (fst (atomic_write_bytes failing_weather ''r'' ''result.json'' ''new'' plain_dir)))) ''result.json'' = Some ''old''
   \<and> length (fst (atomic_write_bytes failing_weather ''r'' ''result.json'' ''new'' plain_dir)) = 4
   \<and> (\<lambda>d1. map_of (rd_files d1) ''result.json'') ` set (fst (atomic_write_bytes failing_weather ''r'' ''result.json'' ''new'' plain_dir))
        \<subseteq> {Some ''old'', Some ''new''}"
proof -
  let ?w = "atomic_write_bytes failing_weather ''r'' ''result.json'' ''new'' plain_dir"
  have "map_of (rd_files plain_dir) ''result.json'' = Some ''old''" by (simp add: plain_dir_def)
  then have "\<forall>d1 \<in> set (fst ?w). map_of (rd_files d1) ''result.json'' \<in> {Some ''old'', Some ''new''}"
    using atomic_write_shows_no_partial_file[of failing_weather "''r''" "''result.json''" "''new''" plain_dir "fst ?w" "snd ?w"]
    by simp
  then have "(\<lambda>d1. map_of (rd_files d1) ''result.json'') ` set (fst ?w) \<subseteq> {Some ''old'', Some ''new''}" by blast
  moreover have "map_of (rd_files (last (fst ?w))) ''result.json'' = Some ''old'' \<and> length (fst ?w) = 4" by code_simp
  ultimately show ?thesis by (intro conjI) simp_all
qed

text \<open>
  The error of the directory's fsync comes after the rename: the write raises with the new content in
  place. The run then reports \<open>persisted\<close> false, and its manifest on disk says true.
\<close>

theorem failed_sync_leaves_new_content:
  assumes "ww_create ww = None" and "ww_write ww = None" and "ww_replace ww = None" and "ww_sync ww = Some why"
    and "\<not> has_file (tmp_name ww name) d"
  shows "\<exists>ds. atomic_write_bytes ww path name data d = (ds, Raises (write_failed path name why))
     \<and> map_of (rd_files (last ds)) name = Some data"
proof -
  let ?new = "put_file name data (drop_file (tmp_name ww name) d)"
  have "fst (write_steps ww path name data d) \<noteq> []" "last (fst (write_steps ww path name data d)) = ?new"
    "snd (write_steps ww path name data d) = Some why"
    using assms by (simp_all add: write_steps_def Let_def)
  then have "\<exists>ds. atomic_write_bytes ww path name data d
      = (d # ds @ [if ww_unlink ww then drop_file (tmp_name ww name) ?new else ?new], Raises (write_failed path name why))"
    by (cases "write_steps ww path name data d") (auto simp: atomic_write_bytes_def Let_def)
  then show ?thesis by auto
qed

section \<open>Writers\<close>

text \<open>
  A run has one writer (\<open>RunStore.open_run\<close>, \<open>RunDirWriter\<close>). While the handle that one
  \<open>open_run\<close> returned is not finalized, a further \<open>open_run\<close> of the same run, whatever the file system
  does, leaves the directory as it is and returns no second handle; and once the first writer is
  finalized and its sentinel removed, the run can be opened again.
\<close>

theorem one_writer_per_run:
  assumes "open_run sl sy ow runs run_id st = (Returns wr, st1)"
  shows "\<exists>d. map_of st1 run_id = Some d
     \<and> (\<forall>sy2 ow2. case open_run sl sy2 ow2 runs run_id st1 of (r, st2) \<Rightarrow>
          map_of st2 = map_of st1 \<and> (r = Raises (active_writer (in_dir runs run_id) run_id) \<or> (\<exists>m. r = Escapes m)))
     \<and> (\<forall>fw sy2 ow2. ow_mkdir ow2 = None \<and> ow_create ow2 = None \<and> ow_write ow2 = None \<longrightarrow>
          (\<exists>wr2. fst (open_run sl sy2 ow2 runs run_id
             (AList.update run_id (snd (finalize_writer fw True wr d)) st1)) = Returns wr2))"
proof -
  from assms obtain d0 where valid: "sl_run_id sl run_id"
    and d0: "\<not> has_file WRITER_SENTINEL d0"
    and st1: "st1 = AList.update run_id (put_file WRITER_SENTINEL (utf8 (sentinel_payload sy ow run_id)) d0) st"
    and wr: "\<not> rw_finalized wr" "\<not> rw_open wr"
    by (auto simp: open_run_def new_writer_def Let_def split: if_splits option.splits prod.splits)
  let ?d = "put_file WRITER_SENTINEL (utf8 (sentinel_payload sy ow run_id)) d0"
  have d: "map_of st1 run_id = Some ?d" by (simp add: st1 update_conv')
  have "has_file WRITER_SENTINEL ?d" by (simp add: has_file_def)
  then have again: "case open_run sl sy2 ow2 runs run_id st1 of (r, st2) \<Rightarrow>
      map_of st2 = map_of st1 \<and> (r = Raises (active_writer (in_dir runs run_id) run_id) \<or> (\<exists>m. r = Escapes m))"
    for sy2 ow2
    using d valid by (auto simp: open_run_def new_writer_def get_or_def Let_def update_conv' split: option.splits)
  have free: "\<not> has_file WRITER_SENTINEL (snd (finalize_writer fw True wr ?d))" for fw
    using wr by (simp add: finalize_writer_def flush_events_def has_file_def)
  have reopen: "\<exists>wr2. fst (open_run sl sy2 ow2 runs run_id
      (AList.update run_id (snd (finalize_writer fw True wr ?d)) st1)) = Returns wr2"
    if "ow_mkdir ow2 = None \<and> ow_create ow2 = None \<and> ow_write ow2 = None" for fw sy2 ow2
    using that valid free[of fw] by (simp add: open_run_def new_writer_def Let_def)
  show ?thesis using d again reopen by blast
qed

definition plain_system :: system where
  "plain_system = \<lparr>sy_kill = (\<lambda>p. if p = 7 then Lease.NoSuchProcess else Lease.Delivered), sy_killpg = (\<lambda>p. Lease.Delivered),
     sy_ps = (\<lambda>p. Some (0, ''Mon'')), sy_stat = (\<lambda>p. None), sy_sha256 = (\<lambda>s. ''hash of '' @ s),
     sy_parse = (\<lambda>s. None), sy_run_id = (\<lambda>s. None), sy_canonical = ''/w'', sy_lease_path = ''/l''\<rparr>"

text \<open>A library in which every text but the empty one is the same object.\<close>

definition plain_library :: "(string \<times> pyval) list \<Rightarrow> store_library" where
  "plain_library data = \<lparr>sl_run_id = (\<lambda>s. s \<noteq> []), sl_loads = (\<lambda>s. if s = [] then JDecodeError ''empty'' else JValue (PDict data)),
     sl_loads_bytes = (\<lambda>s. if s = [] then JDecodeError ''empty'' else JValue (PDict data)), sl_decode = Some, sl_lossy = (\<lambda>s. s),
     sl_iso = (\<lambda>t. ''T'')\<rparr>"

definition fair_opening :: open_weather where
  "fair_opening = \<lparr>ow_mkdir = None, ow_create = None, ow_write = None, ow_pid = 9, ow_now = ''T0'', ow_mtime = 0\<rparr>"

lemma one_writer_per_run_witness:
  "\<exists>wr st1. open_run (plain_library []) plain_system fair_opening ''r'' ''01A'' [] = (Returns wr, st1)
     \<and> (case open_run (plain_library []) plain_system fair_opening ''r'' ''01A'' st1 of (r, st2) \<Rightarrow>
          r = Raises (active_writer (in_dir ''r'' ''01A'') ''01A'') \<or> (\<exists>m. r = Escapes m))"
proof -
  define sl where "sl = plain_library []"
  have valid: "sl_run_id sl ''01A''" by (simp add: sl_def plain_library_def)
  obtain r st1 where r: "open_run sl plain_system fair_opening ''r'' ''01A'' [] = (r, st1)" by fastforce
  then obtain wr where first: "open_run sl plain_system fair_opening ''r'' ''01A'' [] = (Returns wr, st1)"
    using valid by (auto simp: open_run_def new_writer_def fair_opening_def has_file_def Let_def get_or_def)
  obtain r2 st2 where again: "open_run sl plain_system fair_opening ''r'' ''01A'' st1 = (r2, st2)" by fastforce
  obtain d where "\<forall>sy2 ow2. case open_run sl sy2 ow2 ''r'' ''01A'' st1 of (r, st2) \<Rightarrow>
      map_of st2 = map_of st1 \<and> (r = Raises (active_writer (in_dir ''r'' ''01A'') ''01A'') \<or> (\<exists>m. r = Escapes m))"
    using one_writer_per_run[OF first] by (elim exE conjE)
  from this[THEN spec, THEN spec, of plain_system fair_opening]
  have "r2 = Raises (active_writer (in_dir ''r'' ''01A'') ''01A'') \<or> (\<exists>m. r2 = Escapes m)"
    unfolding again by simp
  then show ?thesis using first again unfolding sl_def[symmetric] by auto
qed

text \<open>The text a writer has taken and not lost: what is in the file and, after it, its buffer.\<close>

definition taken :: "run_writer \<Rightarrow> run_dir \<Rightarrow> string" where
  "taken wr d = get_or [] (rd_files d) EVENTS_FILENAME @ rw_buffer wr"

lemma taken_spill: "taken (fst (spill n wr d)) (snd (spill n wr d)) = taken wr d"
  by (simp add: taken_def spill_def get_or_def)

lemma taken_create:
  "taken wr (if has_file EVENTS_FILENAME d then d else put_file EVENTS_FILENAME [] d) = taken wr d"
  by (auto simp: taken_def get_or_def has_file_def)

lemma append_event_takes:
  assumes "append_event fw line wr d = (r, wr1, d1)"
  shows "taken wr1 d1 = taken wr d @ (case r of Raises e \<Rightarrow> [] | _ \<Rightarrow> event_text line)"
    and "r = Returns () \<Longrightarrow> rw_open wr1 \<and> \<not> rw_finalized wr1"
proof -
  let ?d = "if has_file EVENTS_FILENAME d then d else put_file EVENTS_FILENAME [] d"
  let ?wr = "wr\<lparr>rw_open := True, rw_buffer := rw_buffer wr @ event_text line\<rparr>"
  have grown: "taken ?wr ?d = taken wr d @ event_text line"
    using taken_create[of wr d] by (simp add: taken_def split: if_splits)
  show "taken wr1 d1 = taken wr d @ (case r of Raises e \<Rightarrow> [] | _ \<Rightarrow> event_text line)"
    using assms taken_spill[of "fw_out fw" ?wr ?d] grown
    by (auto simp: append_event_def Let_def split: if_splits option.splits)
  show "r = Returns () \<Longrightarrow> rw_open wr1 \<and> \<not> rw_finalized wr1"
    using assms by (auto simp: append_event_def Let_def spill_def split: if_splits option.splits)
qed

text \<open>A sequence of appends, stopped by the first that raises.\<close>

fun append_events :: "(file_weather \<times> string) list \<Rightarrow> run_writer \<Rightarrow> run_dir \<Rightarrow> unit outcome \<times> run_writer \<times> run_dir" where
  "append_events [] wr d = (Returns (), wr, d)"
| "append_events ((fw, line) # es) wr d =
     (case append_event fw line wr d of
        (Returns _, wr1, d1) \<Rightarrow> append_events es wr1 d1
      | r \<Rightarrow> r)"

lemma append_events_take:
  "append_events es wr d = (Returns (), wr1, d1) \<Longrightarrow>
     taken wr1 d1 = taken wr d @ concat (map (\<lambda>e. event_text (snd e)) es) \<and> (es \<noteq> [] \<longrightarrow> rw_open wr1)"
proof (induction es arbitrary: wr d)
  case Nil
  then show ?case by simp
next
  case (Cons e es)
  obtain fw line where e: "e = (fw, line)" by fastforce
  obtain r wr2 d2 where step: "append_event fw line wr d = (r, wr2, d2)" by (metis prod_cases3)
  have r: "r = Returns ()" using Cons.prems by (cases r) (simp_all add: e step)
  then have rest: "append_events es wr2 d2 = (Returns (), wr1, d1)" using Cons.prems by (simp add: e step)
  show ?case
    using Cons.IH[OF rest] append_event_takes[OF step] r rest by (cases es) (simp_all add: e)
qed

text \<open>
  No acknowledged event line is lost, torn or reordered (\<open>RunDirWriter.append_event\<close>,
  \<open>fsync_events\<close>). After any sequence of appends that return, however much of the buffer each of them
  writes out, and a flush that returns, the events file is what it was followed by the lines in order,
  each ended by one newline; the order holds for the earlier content of a file that is opened again too.
\<close>

theorem appended_lines_reach_the_file:
  assumes "append_events es wr d = (Returns (), wr1, d1)" and "es \<noteq> []" and "rw_buffer wr = []"
    and "flush_events fw wr1 d1 = (Returns (), wr2, d2)"
  shows "map_of (rd_files d2) EVENTS_FILENAME
      = Some (get_or [] (rd_files d) EVENTS_FILENAME @ concat (map (\<lambda>e. event_text (snd e)) es))"
proof -
  have "taken wr1 d1 = get_or [] (rd_files d) EVENTS_FILENAME @ concat (map (\<lambda>e. event_text (snd e)) es)" and "rw_open wr1"
    using append_events_take[OF assms(1)] assms(2,3) by (simp_all add: taken_def)
  then show ?thesis
    using assms(4) by (auto simp: flush_events_def spill_def taken_def split: option.splits)
qed

lemma appended_lines_reach_the_file_witness:
  "map_of (rd_files (snd (snd (let fw = \<lparr>fw_open = None, fw_write = None, fw_out = 3\<rparr>;
       wr = \<lparr>rw_run_id = ''01A'', rw_path = ''r'', rw_open = False, rw_buffer = [], rw_finalized = False\<rparr>
     in case append_events [(fw, ''one''), (fw, ''two'')] wr plain_dir of
          (r, wr1, d1) \<Rightarrow> flush_events fw wr1 d1)))) ''events.jsonl'' = Some (''one'' @ [CHR 0x0A] @ ''two'' @ [CHR 0x0A])"
proof -
  define fw where "fw = \<lparr>fw_open = None, fw_write = None, fw_out = 3\<rparr>"
  define wr where "wr = \<lparr>rw_run_id = ''01A'', rw_path = ''r'', rw_open = False, rw_buffer = [], rw_finalized = False\<rparr>"
  obtain r wr1 d1 where a: "append_events [(fw, ''one''), (fw, ''two'')] wr plain_dir = (r, wr1, d1)" by (metis prod_cases3)
  have r: "r = Returns ()" and open1: "rw_open wr1"
    using a by (auto simp: append_event_def spill_def fw_def wr_def Let_def)
  obtain r2 wr2 d2 where f: "flush_events fw wr1 d1 = (r2, wr2, d2)" by (metis prod_cases3)
  have r2: "r2 = Returns ()" using f open1 by (auto simp: flush_events_def fw_def)
  have "map_of (rd_files d2) EVENTS_FILENAME = Some (get_or [] (rd_files plain_dir) EVENTS_FILENAME
      @ concat (map (\<lambda>e. event_text (snd e)) [(fw, ''one''), (fw, ''two'')]))"
    by (rule appended_lines_reach_the_file[of _ wr _ wr1 d1 fw wr2]) (use a f r r2 in \<open>simp_all add: wr_def\<close>)
  moreover have "concat (map (\<lambda>e. event_text (snd e)) [(fw, ''one''), (fw, ''two'')]) = ''one'' @ [CHR 0x0A] @ ''two'' @ [CHR 0x0A]"
    by (simp add: event_text_def suffix_def utf8_def utf8_char_def)
  ultimately show ?thesis
    unfolding Let_def using a f by (simp add: fw_def[symmetric] wr_def[symmetric] EVENTS_FILENAME_def plain_dir_def get_or_def)
qed

end
