(* ===== verification/Index_Safety.thy ===== *)
theory Index_Safety
  imports Store_Safety
begin

text \<open>
  What the index of runs promises: which manifests are interpreted, what a listing holds, that
  reindexing keeps the rows of concurrent processes, and that the setup of the index ends.
\<close>

section \<open>Manifests\<close>

text \<open>
  A manifest is interpreted whole or not at all (\<open>RunStore.read_result\<close>). A read returns an object
  exactly when the file is there, can be read, is a JSON object and its \<open>schema_version\<close> is the integer
  1, and then the object is all of it; a missing or non-integer version, a boolean and a later version
  are refused. Any other end is a PersistenceError, unless the JSON decoder raises something that is
  no ValueError.
\<close>

theorem manifest_read_whole_or_refused:
  "(read_result sl runs run_id st = Returns data \<longleftrightarrow>
      (\<exists>d b. map_of st run_id = Some d \<and> read_file d RESULT_FILENAME = Bytes b
         \<and> sl_loads_bytes sl b = JValue (PDict data) \<and> map_of data ''schema_version'' = Some (PInt 1)))
   \<and> (case read_result sl runs run_id st of
        Raises e \<Rightarrow> err_class e = PersistenceError
      | Escapes m \<Rightarrow> (\<exists>b. sl_loads_bytes sl b = JOther m)
      | Returns _ \<Rightarrow> True)"
proof
  have check: "check_manifest path run_id kvs = Returns data \<longleftrightarrow>
      data = kvs \<and> map_of kvs ''schema_version'' = Some (PInt 1)" for path kvs
    by (auto simp: check_manifest_def get_or_def SUPPORTED_RESULT_SCHEMAS_def RESULT_SCHEMA_VERSION_def
        split: option.splits pyval.splits)
  show "read_result sl runs run_id st = Returns data \<longleftrightarrow>
      (\<exists>d b. map_of st run_id = Some d \<and> read_file d RESULT_FILENAME = Bytes b
         \<and> sl_loads_bytes sl b = JValue (PDict data) \<and> map_of data ''schema_version'' = Some (PInt 1))"
    by (auto simp: read_result_def Let_def check split: option.splits reading.splits json_result.splits pyval.splits)
next
  have check: "check_manifest path run_id kvs = Raises e \<Longrightarrow> err_class e = PersistenceError"
    "check_manifest path run_id kvs \<noteq> Escapes m" for path kvs e m
    by (auto simp: check_manifest_def manifest_error_def split: pyval.splits if_splits)
  show "case read_result sl runs run_id st of
      Raises e \<Rightarrow> err_class e = PersistenceError
    | Escapes m \<Rightarrow> (\<exists>b. sl_loads_bytes sl b = JOther m)
    | Returns _ \<Rightarrow> True"
    using check
    by (auto simp: read_result_def Let_def manifest_error_def split: option.splits reading.splits json_result.splits
        pyval.splits outcome.splits dest: check(1))
qed

section \<open>Listings\<close>

lemma newest_first_sorted:
  "sorted_wrt (\<lambda>a b. (ix_started_at b, ix_run_id b) \<le> (ix_started_at a, ix_run_id a)) (newest_first rows)"
proof -
  let ?key = "\<lambda>r :: index_row. (ix_started_at r, ix_run_id r)"
  have "sorted_wrt (\<lambda>a b. ?key a \<le> ?key b) (sort_key ?key rows)"
    using sorted_sort_key[of ?key rows] by (simp add: sorted_map)
  then show ?thesis unfolding newest_first_def by (simp add: sorted_wrt_rev)
qed

lemma newest_first_mset [simp]: "set (newest_first rows) = set rows" "length (newest_first rows) = length rows"
  by (simp_all add: newest_first_def)

text \<open>
  A listing (\<open>RunIndex.list_runs\<close>) is what it was asked for, newest first. Its rows are rows of the
  table that pass every filter given, ordered by start and then run id, both descending; it has as
  many of them as the limit allows, and a row that passes the filters and is left out is no newer than
  any row listed. Without a limit nothing is left out.
\<close>

theorem listing_newest_first:
  "set (list_runs q t) \<subseteq> {r \<in> set (map snd t). listed q r}
   \<and> sorted_wrt (\<lambda>a b. (ix_started_at b, ix_run_id b) \<le> (ix_started_at a, ix_run_id a)) (list_runs q t)
   \<and> length (list_runs q t) = (let n = length (filter (listed q) (map snd t)) in
        if ls_limit q < 0 then n else min n (nat (ls_limit q)))
   \<and> (\<forall>r \<in> set (map snd t). listed q r \<and> r \<notin> set (list_runs q t) \<longrightarrow>
        0 \<le> ls_limit q \<and> (\<forall>a \<in> set (list_runs q t). (ix_started_at r, ix_run_id r) \<le> (ix_started_at a, ix_run_id a)))"
proof -
  define rows where "rows = newest_first (filter (listed q) (map snd t))"
  have set_rows: "set rows = {r \<in> set (map snd t). listed q r}" by (auto simp: rows_def)
  have len: "length rows = length (filter (listed q) (map snd t))" by (simp add: rows_def)
  have sorted: "sorted_wrt (\<lambda>a b. (ix_started_at b, ix_run_id b) \<le> (ix_started_at a, ix_run_id a)) rows"
    unfolding rows_def by (rule newest_first_sorted)
  have split: "sorted_wrt (\<lambda>a b. (ix_started_at b, ix_run_id b) \<le> (ix_started_at a, ix_run_id a)) (take n rows @ drop n rows)" for n
    using sorted by simp
  show ?thesis
  proof (cases "ls_limit q < 0")
    case True
    then have "list_runs q t = rows" by (simp add: list_runs_def Let_def rows_def)
    then show ?thesis using True set_rows len sorted by (simp add: Let_def)
  next
    case False
    then have lst: "list_runs q t = take (nat (ls_limit q)) rows" by (simp add: list_runs_def Let_def rows_def)
    have left_out: "(ix_started_at r, ix_run_id r) \<le> (ix_started_at a, ix_run_id a)"
      if "r \<in> set rows" "r \<notin> set (list_runs q t)" "a \<in> set (list_runs q t)" for r a
    proof -
      have "r \<in> set (drop (nat (ls_limit q)) rows)"
        using that(1,2) unfolding lst by (metis Un_iff append_take_drop_id set_append)
      then show ?thesis using that(3) split[of "nat (ls_limit q)"] unfolding lst sorted_wrt_append by blast
    qed
    have "set (list_runs q t) \<subseteq> set rows" unfolding lst by (rule set_take_subset)
    moreover have "sorted_wrt (\<lambda>a b. (ix_started_at b, ix_run_id b) \<le> (ix_started_at a, ix_run_id a)) (list_runs q t)"
      unfolding lst using split[of "nat (ls_limit q)"] unfolding sorted_wrt_append by blast
    moreover have "length (list_runs q t) = min (length rows) (nat (ls_limit q))" unfolding lst by simp
    ultimately show ?thesis using False set_rows len left_out by (auto simp: Let_def)
  qed
qed

section \<open>Setup\<close>

text \<open>How the retry loop may end at attempt \<open>k\<close>.\<close>

definition setup_ends ::
  "(nat \<Rightarrow> setup_weather) \<Rightarrow> (nat \<Rightarrow> index_db) \<Rightarrow> (nat \<Rightarrow> int) \<Rightarrow> string \<Rightarrow> int \<Rightarrow> nat \<Rightarrow> zerror option \<Rightarrow> index_db \<Rightarrow> bool" where
  "setup_ends tries found clk path deadline k r db \<longleftrightarrow>
     (case r of
        None \<Rightarrow> setup_index (tries k) path (found k) = (Ready, db)
      | Some e \<Rightarrow> (\<exists>transient. setup_index (tries k) path (found k) = (SetupFailed e transient, db)
          \<and> (transient \<longrightarrow> deadline \<le> clk k)))"

definition retried :: "(nat \<Rightarrow> setup_weather) \<Rightarrow> (nat \<Rightarrow> index_db) \<Rightarrow> string \<Rightarrow> nat \<Rightarrow> bool" where
  "retried tries found path j \<longleftrightarrow> (\<exists>e. fst (setup_index (tries j) path (found j)) = SetupFailed e True)"

lemma setup_loop_stops:
  assumes advances: "\<And>j. clk j + 50 \<le> clk (Suc j)"
  shows "deadline \<le> clk i + 50 * int n \<Longrightarrow> \<exists>k r db. setup_loop tries found clk path deadline i = Some (i + k, r, db)
      \<and> k \<le> n \<and> (\<forall>j < k. retried tries found path (i + j)) \<and> setup_ends tries found clk path deadline (i + k) r db"
proof (induction n arbitrary: i)
  case 0
  obtain s db where s: "setup_index (tries i) path (found i) = (s, db)" by fastforce
  show ?case
    by (rule exI[of _ 0], cases s; subst setup_loop.simps) (use 0 s in \<open>auto simp: setup_ends_def\<close>)
next
  case (Suc n)
  obtain s db where s: "setup_index (tries i) path (found i) = (s, db)" by fastforce
  show ?case
  proof (cases "\<exists>e. s = SetupFailed e True \<and> \<not> deadline \<le> clk i")
    case False
    then show ?thesis
      by (intro exI[of _ 0], cases s; subst setup_loop.simps) (use s in \<open>auto simp: setup_ends_def\<close>)
  next
    case True
    then obtain e where e: "s = SetupFailed e True" "\<not> deadline \<le> clk i" by blast
    have step: "setup_loop tries found clk path deadline i = setup_loop tries found clk path deadline (Suc i)"
      by (subst setup_loop.simps) (simp add: s e)
    have near: "deadline \<le> clk (Suc i) + 50 * int n"
      using Suc.prems advances[of i] by simp
    obtain k r db where k: "setup_loop tries found clk path deadline (Suc i) = Some (Suc i + k, r, db)"
      "k \<le> n" "\<forall>j < k. retried tries found path (Suc i + j)" "setup_ends tries found clk path deadline (Suc i + k) r db"
      using Suc.IH[OF near] by blast
    have "retried tries found path i" using s e by (simp add: retried_def)
    then have "retried tries found path (i + j)" if "j < Suc k" for j
      using k(3) that by (cases j) auto
    then show ?thesis using k step
      by (intro exI[of _ "Suc k"] exI[of _ r] exI[of _ db]) simp
  qed
qed

lemma failed_setup_changes_nothing:
  "setup_index sw path db = (SetupFailed e transient, db1) \<Longrightarrow> db1 = db"
  by (auto simp: setup_index_def statement_failed_def split: option.splits if_splits)

lemma ready_setup:
  "setup_index sw path db = (Ready, db1) \<Longrightarrow>
     db_rows db1 = db_rows db \<and> (\<exists>v. db_version db1 = Some v \<and> (db_version db = Some v \<and> check_schema_version path v = None
       \<or> db_version db = None \<and> v = str_of_int INDEX_SCHEMA_VERSION))"
  by (auto simp: setup_index_def statement_failed_def split: option.splits if_splits)

text \<open>
  C31: The setup of the index ends (\<open>RunIndex._setup_with_retry\<close>). Whatever SQLite answers and whatever
  other processes do to the database meanwhile, if each attempt with its sleep takes at least the 50 ms
  it sleeps, the loop returns after at most 101 attempts: every attempt before the last failed with a
  transient busy error, and the last one either is ready or failed for another reason or after the
  deadline. A failed setup leaves the database as it was; a ready one keeps its rows and leaves a
  schema version, the one it found (if that is supported) or the current one.
\<close>

theorem index_setup_terminates:
  assumes advances: "\<And>j. clk j + 50 \<le> clk (Suc j)" and "now \<le> clk 0"
  shows "\<exists>k r db. setup_with_retry tries found clk path now = Some (k, r, db) \<and> k \<le> 100
     \<and> (\<forall>j < k. \<exists>e. fst (setup_index (tries j) path (found j)) = SetupFailed e True)
     \<and> (case r of
          Some e \<Rightarrow> db = found k \<and> (fst (setup_index (tries k) path (found k)) = SetupFailed e True \<longrightarrow> now + 5000 \<le> clk k)
        | None \<Rightarrow> db_rows db = db_rows (found k) \<and> (\<exists>v. db_version db = Some v
            \<and> (db_version (found k) = Some v \<and> check_schema_version path v = None
               \<or> db_version (found k) = None \<and> v = str_of_int INDEX_SCHEMA_VERSION)))"
proof -
  have "now + BUSY_TIMEOUT_MS \<le> clk 0 + 50 * int 100"
    using assms(2) by (simp add: BUSY_TIMEOUT_MS_def)
  then obtain k r db where k: "setup_with_retry tries found clk path now = Some (k, r, db)" "k \<le> 100"
    "\<forall>j < k. retried tries found path j" "setup_ends tries found clk path (now + BUSY_TIMEOUT_MS) k r db"
    using setup_loop_stops[of clk "now + BUSY_TIMEOUT_MS" 0 100 tries found path, OF advances]
    unfolding setup_with_retry_def by auto
  have last: "case r of
      Some e \<Rightarrow> db = found k \<and> (fst (setup_index (tries k) path (found k)) = SetupFailed e True \<longrightarrow> now + 5000 \<le> clk k)
    | None \<Rightarrow> db_rows db = db_rows (found k) \<and> (\<exists>v. db_version db = Some v
        \<and> (db_version (found k) = Some v \<and> check_schema_version path v = None
           \<or> db_version (found k) = None \<and> v = str_of_int INDEX_SCHEMA_VERSION))"
    using k(4) by (auto simp: setup_ends_def BUSY_TIMEOUT_MS_def split: option.splits
        dest: failed_setup_changes_nothing ready_setup)
  show ?thesis using k(1-3) last unfolding retried_def by blast
qed

text \<open>A database that another process keeps locked for the first three attempts.\<close>

definition locked_at_first :: "nat \<Rightarrow> setup_weather" where
  "locked_at_first j = \<lparr>sw_error = (\<lambda>s. if j < 3 \<and> s = 3 then Some (True, ''database is locked'') else None), sw_mode = Some ''wal''\<rparr>"

definition empty_index :: index_db where
  "empty_index = \<lparr>db_version = None, db_rows = []\<rparr>"

lemma index_setup_terminates_witness:
  "\<exists>k r db. setup_with_retry locked_at_first (\<lambda>j. empty_index) (\<lambda>j. 60 * int j) ''index.db'' 0 = Some (k, r, db) \<and> k \<le> 100"
proof -
  have steps: "60 * int j + 50 \<le> 60 * int (Suc j)" for j by simp
  have begins: "0 \<le> 60 * int 0" by simp
  show ?thesis
    using index_setup_terminates[of "\<lambda>j. 60 * int j" 0 locked_at_first "\<lambda>j. empty_index" "''index.db''", OF steps begins]
    by blast
qed

section \<open>Reindexing\<close>

text \<open>The row a directory of the store stands for, and the one that wins for a run id.\<close>

definition dir_row :: "store_library \<Rightarrow> string \<Rightarrow> store \<Rightarrow> string \<Rightarrow> index_row option" where
  "dir_row sl runs st d =
     (case read_result sl runs d st of
        Returns data \<Rightarrow> row_from_manifest data (in_dir (in_dir runs d) RESULT_FILENAME) | _ \<Rightarrow> None)"

definition indexed_row :: "store_library \<Rightarrow> string \<Rightarrow> store \<Rightarrow> string list \<Rightarrow> string \<Rightarrow> index_row option" where
  "indexed_row sl runs st ds k = find (\<lambda>r. ix_run_id r = k) (rev (List.map_filter (dir_row sl runs st) ds))"

definition keyed :: "table \<Rightarrow> bool" where
  "keyed t \<longleftrightarrow> distinct (keys t) \<and> (\<forall>(k, r) \<in> set t. ix_run_id r = k)"

lemma keyed_Nil [simp]: "keyed []"
  by (simp add: keyed_def)

lemma keyed_insert: "keyed t \<Longrightarrow> keyed (insert_or_replace row t)"
  using set_update_subset[of "ix_run_id row" row t]
  by (auto simp: keyed_def insert_or_replace_def distinct_update)

lemma map_of_insert_or_replace [simp]:
  "map_of (insert_or_replace row t) k = (if k = ix_run_id row then Some row else map_of t k)"
  by (simp add: insert_or_replace_def update_conv')

lemma find_append: "find P (xs @ ys) = (case find P xs of Some x \<Rightarrow> Some x | None \<Rightarrow> find P ys)"
  by (induction xs) auto

lemma scan_manifests_map:
  "scan_manifests sl runs st ds t = Returns t1 \<Longrightarrow> keyed t \<Longrightarrow>
     keyed t1 \<and> map_of t1 k = (case indexed_row sl runs st ds k of Some r \<Rightarrow> Some r | None \<Rightarrow> map_of t k)"
proof (induction sl runs st ds t rule: scan_manifests.induct)
  case (1 sl runs st t)
  then show ?case by (simp add: indexed_row_def List.map_filter_def)
next
  case (2 sl runs st d ds t)
  show ?case
  proof (cases "dir_row sl runs st d")
    case None
    then have "scan_manifests sl runs st ds t = Returns t1"
      using "2.prems"(1) by (auto simp: dir_row_def split: outcome.splits option.splits)
    moreover have "indexed_row sl runs st (d # ds) k = indexed_row sl runs st ds k"
      using None by (simp add: indexed_row_def List.map_filter_def)
    ultimately show ?thesis using "2.prems" "2.IH" None
      by (cases "read_result sl runs d st") (auto simp: dir_row_def split: option.splits)
  next
    case (Some row)
    then obtain data where read: "read_result sl runs d st = Returns data"
      and row: "row_from_manifest data (in_dir (in_dir runs d) RESULT_FILENAME) = Some row"
      by (auto simp: dir_row_def split: outcome.splits)
    have rest: "scan_manifests sl runs st ds (insert_or_replace row t) = Returns t1"
      using "2.prems"(1) by (simp add: read row)
    have "indexed_row sl runs st (d # ds) k =
        (case indexed_row sl runs st ds k of Some r \<Rightarrow> Some r | None \<Rightarrow> if k = ix_run_id row then Some row else None)"
      using Some by (simp add: indexed_row_def List.map_filter_def find_append split: option.splits)
    then show ?thesis using "2.IH"(2)[OF read row rest] keyed_insert[OF "2.prems"(2)]
      by (auto split: option.splits)
  qed
qed

lemma scan_manifests_not_Raises: "scan_manifests sl runs st ds t \<noteq> Raises e"
  by (induction sl runs st ds t rule: scan_manifests.induct) (auto split: outcome.splits option.splits)

lemma fold_insert_rows:
  "keyed s \<Longrightarrow> map_of (fold insert_or_replace (map snd s) t) k = (case map_of s k of Some r \<Rightarrow> Some r | None \<Rightarrow> map_of t k)"
proof (induction s arbitrary: t)
  case Nil
  then show ?case by simp
next
  case (Cons kr s)
  obtain k1 r where kr: "kr = (k1, r)" by fastforce
  then have "keyed s" "ix_run_id r = k1" "map_of s k1 = None"
    using Cons.prems by (auto simp: keyed_def map_of_eq_None_iff)
  then show ?case using Cons.IH[of "insert_or_replace r t"] by (auto simp: kr split: option.splits)
qed

lemma fold_delete_rows:
  "map_of (fold (\<lambda>k u. snd (delete_row k u)) ks t) k = (if k \<in> set ks then None else map_of t k)"
  by (induction ks arbitrary: t) (auto simp: delete_row_def delete_conv')

lemma reindex_map:
  assumes "reindex sl runs path st before t err = (Returns n, t1)"
  shows "map_of t1 k = (case indexed_row sl runs st (iter_run_dirs sl st) k of
     Some r \<Rightarrow> Some r | None \<Rightarrow> if k \<in> set (keys before) then None else map_of t k)"
proof -
  from assms obtain scanned where scan: "scan_manifests sl runs st (iter_run_dirs sl st) [] = Returns scanned"
    and t1: "t1 = fold (\<lambda>k u. snd (delete_row k u)) (filter (\<lambda>k. k \<notin> set (keys scanned)) (keys before))
      (fold insert_or_replace (map snd scanned) t)"
    by (auto simp: reindex_def Let_def split: outcome.splits option.splits)
  have keyed: "keyed scanned" and row: "map_of scanned k = indexed_row sl runs st (iter_run_dirs sl st) k"
    using scan_manifests_map[OF scan, of k] by (auto split: option.splits)
  have listed: "k \<in> set (keys scanned) \<longleftrightarrow> map_of scanned k \<noteq> None"
    by (metis domIff dom_map_of_conv_image_fst list.set_map)
  show ?thesis
    unfolding t1 fold_delete_rows fold_insert_rows[OF keyed] using listed row by (auto split: option.splits)
qed

text \<open>
  C33: Reindexing (\<open>RunIndex.reindex\<close>) derives the table from the manifests without losing what other
  processes do meanwhile. When it returns, a run whose manifest was scanned has the row of that
  manifest; a run that was in the table before the scan and has no manifest is gone; and a row that
  another process inserted after the snapshot stays as that process wrote it. Reindexing once more,
  with no other process, leaves exactly the rows of the manifests. A reindexing that fails leaves the
  table as it is.
\<close>

theorem reindex_keeps_concurrent_rows:
  "case reindex sl runs path st before t err of
     (Returns n, t1) \<Rightarrow>
       map_of t1 = (\<lambda>k. case indexed_row sl runs st (iter_run_dirs sl st) k of
          Some r \<Rightarrow> Some r | None \<Rightarrow> if k \<in> set (keys before) then None else map_of t k)
       \<and> fst (reindex sl runs path st t1 t1 None) = Returns n
       \<and> map_of (snd (reindex sl runs path st t1 t1 None)) = indexed_row sl runs st (iter_run_dirs sl st)
   | (r, t1) \<Rightarrow> t1 = t"
proof (cases "\<exists>n. fst (reindex sl runs path st before t err) = Returns n")
  case False
  then show ?thesis
    by (auto simp: reindex_def Let_def split: outcome.splits option.splits)
next
  case True
  then obtain n t1 where first: "reindex sl runs path st before t err = (Returns n, t1)"
    by (metis prod.collapse)
  have rows: "map_of t1 = (\<lambda>k. case indexed_row sl runs st (iter_run_dirs sl st) k of
      Some r \<Rightarrow> Some r | None \<Rightarrow> if k \<in> set (keys before) then None else map_of t k)"
    using reindex_map[OF first] by (rule ext)
  obtain t2 where again: "reindex sl runs path st t1 t1 None = (Returns n, t2)"
    using first by (auto simp: reindex_def Let_def split: outcome.splits option.splits)
  have absent: "k \<notin> set (keys t1) \<Longrightarrow> map_of t1 k = None" for k
    by (simp add: map_of_eq_None_iff)
  have "map_of t2 k = indexed_row sl runs st (iter_run_dirs sl st) k" for k
    unfolding reindex_map[OF again, of k] using absent[of k] by (auto split: option.splits)
  then have "map_of t2 = indexed_row sl runs st (iter_run_dirs sl st)" by (rule ext)
  then show ?thesis by (simp add: first again rows)
qed

end
