(* ===== verification/Recovery_Safety.thy ===== *)
theory Recovery_Safety
  imports Index_Safety
begin

text \<open>
  What the recovery of interrupted runs promises (\<open>store/index.py recover_abandoned\<close>): it touches only
  runs that are provably over, and the row it inserts is the one its manifest stands for.
\<close>

section \<open>The judgement\<close>

text \<open>A run that is over: no manifest, and a dead writer or an old directory without one.\<close>

definition writer_gone :: "system \<Rightarrow> (string \<times> pyval) list \<Rightarrow> bool" where
  "writer_gone sy owner \<longleftrightarrow>
     sy_kill sy (owner_pid owner) = NoSuchProcess
     \<or> (\<exists>noted seen. required owner ''process_start'' = Some noted
          \<and> process_start_marker sy (owner_pid owner) = Some seen \<and> seen \<noteq> noted)"

definition run_is_over :: "store_library \<Rightarrow> system \<Rightarrow> int \<Rightarrow> run_dir \<Rightarrow> bool" where
  "run_is_over sl sy now d \<longleftrightarrow> \<not> has_file RESULT_FILENAME d
     \<and> (if has_file WRITER_SENTINEL d
        then \<exists>owner. read_sentinel sl d = Returns (Some owner) \<and> writer_gone sy owner
        else \<exists>t. rd_mtime d = Some t \<and> NO_SENTINEL_GRACE \<le> now - t)"

lemma provably_dead_gone: "writer_provably_dead sy owner = Returns True \<Longrightarrow> writer_gone sy owner"
  by (auto simp: writer_provably_dead_def pid_provably_dead_def writer_gone_def Let_def
      split: if_splits outcome.splits bool.splits option.splits)

lemma judge_dir_Take:
  assumes "judge_dir sl sy vw i d = Take owner d1"
  shows "run_is_over sl sy (vw_now vw) d" and "owner = None \<Longrightarrow> d1 = d"
    and "\<not> has_file RESULT_FILENAME d1" and "owner \<noteq> None \<Longrightarrow> rd_mtime d1 = Some (vw_now vw)"
proof -
  have "run_is_over sl sy (vw_now vw) d \<and> (owner = None \<longrightarrow> d1 = d) \<and> \<not> has_file RESULT_FILENAME d1
      \<and> (owner \<noteq> None \<longrightarrow> rd_mtime d1 = Some (vw_now vw))"
  proof (cases "has_file WRITER_SENTINEL d")
    case True
    then obtain ow where "read_sentinel sl d = Returns (Some ow)" "writer_provably_dead sy ow = Returns True"
      "d1 = (drop_file WRITER_SENTINEL d)\<lparr>rd_mtime := Some (vw_now vw)\<rparr>" "owner = Some ow" "\<not> has_file RESULT_FILENAME d"
      using assms by (auto simp: judge_dir_def split: if_splits outcome.splits option.splits)
    then show ?thesis
      using True provably_dead_gone[of sy ow] by (auto simp: run_is_over_def has_file_def)
  next
    case False
    then show ?thesis
      using assms by (auto simp: judge_dir_def run_is_over_def split: if_splits option.splits)
  qed
  then show "run_is_over sl sy (vw_now vw) d" "owner = None \<Longrightarrow> d1 = d"
    "\<not> has_file RESULT_FILENAME d1" "owner \<noteq> None \<Longrightarrow> rd_mtime d1 = Some (vw_now vw)" by blast+
qed

section \<open>One directory of the loop\<close>

lemma recover_dirs_cases:
  assumes "recover_dirs sl sy vw runs path (i # is) st t = (r, st1, t1)"
  obtains (left) "recover_dirs sl sy vw runs path is st t = (r, st1, t1)"
  | (aborted) "st1 = st" "t1 = t" "\<forall>ids. r \<noteq> Returns ids"
  | (stopped) d owner d1 d2 where "map_of st i = Some d" "judge_dir sl sy vw i d = Take owner d1"
      "st1 = AList.update i d2 st" "t1 = t" "\<forall>ids. r \<noteq> Returns ids"
  | (taken) d owner d1 facts d2 r2 p where "map_of st i = Some d" "judge_dir sl sy vw i d = Take owner d1"
      "derive_run_facts sl d1 = Returns facts" "p = in_dir (in_dir runs i) RESULT_FILENAME"
      "map_of (rd_files d2) RESULT_FILENAME
         = Some (utf8 (manifest_text (abandoned_manifest i facts (recovered_start sl vw owner facts d1) (vw_iso vw))))"
      "recover_dirs sl sy vw runs path is (AList.update i d2 st)
         (insert_or_replace (abandoned_row i facts (recovered_start sl vw owner facts d1) (vw_iso vw) p) t) = (r2, st1, t1)"
      "r = (case r2 of Returns ids \<Rightarrow> Returns (i # ids) | _ \<Rightarrow> r2)"
proof (cases "map_of st i")
  case None
  then show thesis using assms left by simp
next
  case (Some d)
  show thesis
  proof (cases "judge_dir sl sy vw i d")
    case Skip
    then show thesis using assms left Some by simp
  next
    case (Abort m)
    then show thesis using assms Some by (intro aborted) auto
  next
    case (Take owner d1)
    show thesis
    proof (cases "derive_run_facts sl d1")
      case (Raises e)
      then show thesis using assms Some Take by (intro stopped[of d owner d1 d1]) auto
    next
      case (Escapes m)
      then show thesis using assms Some Take by (intro stopped[of d owner d1 d1]) auto
    next
      case (Returns facts)
      define began where "began = recovered_start sl vw owner facts d1"
      define body where "body = utf8 (manifest_text (abandoned_manifest i facts began (vw_iso vw)))"
      obtain ds w where w: "atomic_write_bytes (vw_write vw i) (in_dir runs i) RESULT_FILENAME body d1 = (ds, w)" by fastforce
      note found = Some and judged = Take and derived = Returns
      have unfolded: "recover_dirs sl sy vw runs path (i # is) st t =
          (case w of
             Raises e \<Rightarrow> (Raises e, AList.update i (last ds) st, t)
           | Escapes m \<Rightarrow> (Escapes m, AList.update i (last ds) st, t)
           | Returns p \<Rightarrow>
               (case vw_insert vw i of
                  Some e \<Rightarrow> (Raises (query_failed path (snd e)), AList.update i (last ds) st, t)
                | None \<Rightarrow>
                    (case recover_dirs sl sy vw runs path is (AList.update i (last ds) st)
                        (insert_or_replace (abandoned_row i facts began (vw_iso vw) p) t) of
                       (Returns done_ids, st2, t2) \<Rightarrow> (Returns (i # done_ids), st2, t2)
                     | x \<Rightarrow> x)))"
        by (simp add: found judged derived began_def[symmetric] body_def[symmetric] w Let_def)
      show thesis
      proof (cases w)
        case (Raises e)
        show thesis
          by (rule stopped[OF found judged]) (use assms unfolded Raises in auto)
      next
        case (Escapes m)
        show thesis
          by (rule stopped[OF found judged]) (use assms unfolded Escapes in auto)
      next
        case (Returns p)
        have p: "p = in_dir (in_dir runs i) RESULT_FILENAME" and body: "map_of (rd_files (last ds)) RESULT_FILENAME = Some body"
          using atomic_write_returned[OF w[unfolded Returns]] by blast+
        show thesis
        proof (cases "vw_insert vw i")
          case (Some e)
          show thesis
            by (rule stopped[OF found judged]) (use assms unfolded Returns Some in auto)
        next
          case None
          obtain r2 st2 t2 where rest: "recover_dirs sl sy vw runs path is (AList.update i (last ds) st)
              (insert_or_replace (abandoned_row i facts began (vw_iso vw) p) t) = (r2, st2, t2)" by (metis prod_cases3)
          have whole: "(r, st1, t1) = (case r2 of Returns ids \<Rightarrow> Returns (i # ids) | _ \<Rightarrow> r2, st2, t2)"
            using assms unfolded[unfolded Returns None outcome.case option.case rest] by (cases r2) simp_all
          have parts: "st2 = st1" "t2 = t1" "r = (case r2 of Returns ids \<Rightarrow> Returns (i # ids) | _ \<Rightarrow> r2)"
            using whole by simp_all
          show thesis
            by (rule taken[OF found judged derived p body[unfolded body_def began_def]
                  rest[unfolded began_def parts(1,2)] parts(3)])
        qed
      qed
    qed
  qed
qed

section \<open>The loop\<close>

lemma recover_dirs_touches:
  assumes "recover_dirs sl sy vw runs path is st t = (r, st1, t1)" and "distinct is"
  shows "(map_of st1 k \<noteq> map_of st k \<longrightarrow> k \<in> set is \<and> (\<exists>d. map_of st k = Some d \<and> run_is_over sl sy (vw_now vw) d))
    \<and> (map_of t1 k \<noteq> map_of t k \<longrightarrow> k \<in> set is \<and> (\<exists>d d1. map_of st k = Some d \<and> \<not> has_file RESULT_FILENAME d
         \<and> map_of st1 k = Some d1 \<and> has_file RESULT_FILENAME d1))"
  using assms
proof (induction "is" arbitrary: st t r)
  case Nil
  then show ?case by simp
next
  case (Cons i "is")
  from Cons.prems(1) show ?case
  proof (cases rule: recover_dirs_cases)
    case left
    then show ?thesis using Cons.IH[of st t r] Cons.prems(2) by auto
  next
    case aborted
    then show ?thesis by simp
  next
    case (stopped d owner d1 d2)
    then show ?thesis using judge_dir_Take(1)[of sl sy vw i d owner d1] by (simp add: update_conv')
  next
    case (taken d owner d1 facts d2 r2 p)
    have over: "run_is_over sl sy (vw_now vw) d" using taken(2) by (rule judge_dir_Take)
    have manifest: "has_file RESULT_FILENAME d2" using taken(5) by (simp add: has_file_def)
    show ?thesis
    proof (cases "k = i")
      case True
      then have "map_of st1 k = Some d2"
        using Cons.IH[OF taken(6)] Cons.prems(2) by (auto simp: update_conv')
      then show ?thesis using True over taken(1) manifest by (auto simp: run_is_over_def)
    next
      case False
      then show ?thesis using Cons.IH[OF taken(6)] Cons.prems(2) by (auto simp: update_conv' abandoned_row_def)
    qed
  qed
qed

lemma iter_run_dirs_distinct: "distinct (iter_run_dirs sl st)"
  by (simp add: iter_run_dirs_def)

text \<open>
  C12: Recovery leaves live and finished runs alone (\<open>RunIndex.recover_abandoned\<close>). However it ends, also
  with an exception half-way, a directory of the store differs from before only if it is a run
  directory that had no manifest and whose run was provably over: its sentinel names a writer whose pid
  does not exist, or whose process start marker is not that of the process now at this pid, or it has
  no sentinel and is at least five seconds old. An index row changes only for a run without a manifest
  that has one when the recovery ends.
\<close>

theorem recovery_leaves_live_runs_alone:
  "case recover_abandoned sl sy vw runs path st t of (r, st1, t1) \<Rightarrow>
     {i. map_of st1 i \<noteq> map_of st i}
       \<subseteq> {i. sl_run_id sl i \<and> (\<exists>d. map_of st i = Some d \<and> run_is_over sl sy (vw_now vw) d)}
     \<and> {i. map_of t1 i \<noteq> map_of t i}
       \<subseteq> {i. sl_run_id sl i \<and> (\<exists>d d1. map_of st i = Some d \<and> \<not> has_file RESULT_FILENAME d
              \<and> map_of st1 i = Some d1 \<and> has_file RESULT_FILENAME d1)}"
proof -
  obtain r st1 t1 where run: "recover_dirs sl sy vw runs path (iter_run_dirs sl st) st t = (r, st1, t1)" by (metis prod_cases3)
  have valid: "i \<in> set (iter_run_dirs sl st) \<Longrightarrow> sl_run_id sl i" for i by (simp add: iter_run_dirs_def)
  show ?thesis
    using recover_dirs_touches[OF run iter_run_dirs_distinct] valid by (auto simp: recover_abandoned_def run)
qed

section \<open>Rows and manifests\<close>

lemma required_not_empty [simp]: "required data k \<noteq> Some []" "Some [] \<noteq> required data k"
  by (auto simp: required_def split: pyval.splits)

lemma required_nonempty: "required data k = Some s \<Longrightarrow> s \<noteq> []"
  by (auto simp: required_def split: pyval.splits if_splits)

lemma envelope_facts_nonempty: "(k, s) \<in> set (envelope_facts v) \<Longrightarrow> s \<noteq> []"
  by (auto simp: envelope_facts_def payload_fact_def split: pyval.splits option.splits dest: required_nonempty)

lemma facts_nonempty:
  assumes "derive_run_facts sl d = Returns facts"
  shows "map_of facts k = Some s \<Longrightarrow> s \<noteq> []"
  using assms by (auto simp: derive_run_facts_def split: reading.splits json_result.splits
      dest!: map_of_SomeD envelope_facts_nonempty)

lemma recovered_start_nonempty:
  assumes "derive_run_facts sl d = Returns facts" and "\<forall>tm. sl_iso sl tm \<noteq> []" and "vw_iso vw \<noteq> []"
  shows "recovered_start sl vw owner facts d \<noteq> []"
  using assms facts_nonempty[OF assms(1)]
  by (auto simp: recovered_start_def mtime_iso_def split: option.splits dest: required_nonempty)

lemma abandoned_row_of_manifest:
  assumes "derive_run_facts sl d = Returns facts" and "i \<noteq> []" and "began \<noteq> []"
  shows "row_from_manifest (abandoned_manifest i facts began ended) p = Some (abandoned_row i facts began ended p)"
proof -
  have fact: "get_or ''unknown'' facts k \<noteq> []" for k
    using facts_nonempty[OF assms(1), of k] by (auto simp: get_or_def split: option.splits)
  show ?thesis
    using fact assms(2,3)
    by (simp add: row_from_manifest_def abandoned_manifest_def required_def get_or_def[of PNone] abandoned_row_def)
qed

lemma recover_dirs_rows:
  assumes "recover_dirs sl sy vw runs path is st t = (Returns ids, st1, t1)" and "distinct is"
    and "[] \<notin> set is" and "\<forall>tm. sl_iso sl tm \<noteq> []" and "vw_iso vw \<noteq> []"
  shows "\<forall>i \<in> set ids. i \<in> set is \<and> (\<exists>d facts began row. map_of st1 i = Some d
      \<and> map_of (rd_files d) RESULT_FILENAME = Some (utf8 (manifest_text (abandoned_manifest i facts began (vw_iso vw))))
      \<and> row_from_manifest (abandoned_manifest i facts began (vw_iso vw)) (in_dir (in_dir runs i) RESULT_FILENAME) = Some row
      \<and> map_of t1 i = Some row)"
  using assms(1-3)
proof (induction "is" arbitrary: st t ids)
  case Nil
  then show ?case by simp
next
  case (Cons i "is")
  from Cons.prems(1) show ?case
  proof (cases rule: recover_dirs_cases)
    case left
    then show ?thesis using Cons.IH[of st t ids] Cons.prems(2,3) by auto
  next
    case aborted
    then show ?thesis by simp
  next
    case (stopped d owner d1 d2)
    then show ?thesis by simp
  next
    case (taken d owner d1 facts d2 r2 p)
    let ?began = "recovered_start sl vw owner facts d1"
    obtain ids2 where r2: "r2 = Returns ids2" and ids: "ids = i # ids2"
      using taken(7) by (cases r2) auto
    note rest = taken(6)[unfolded r2]
    have "map_of st1 i = Some d2" and "map_of t1 i = Some (abandoned_row i facts ?began (vw_iso vw) p)"
      using recover_dirs_touches[OF rest, of i] Cons.prems(2) by (auto simp: update_conv' abandoned_row_def)
    moreover have "row_from_manifest (abandoned_manifest i facts ?began (vw_iso vw)) p
        = Some (abandoned_row i facts ?began (vw_iso vw) p)"
      using Cons.prems(3) recovered_start_nonempty[OF taken(3) assms(4,5)]
      by (intro abandoned_row_of_manifest[OF taken(3)]) auto
    ultimately show ?thesis
      using Cons.IH[OF rest] Cons.prems(2,3) taken(4,5) unfolding ids by fastforce
  qed
qed

text \<open>
  A recovered run is indexed as its manifest says (\<open>RunIndex.recover_abandoned\<close> against
  \<open>RunIndex.reindex\<close>). When a recovery returns, every run it reports has a manifest in its directory,
  of the supported schema and with status \<open>abandoned\<close>, and its index row is the very row that a reindex
  derives from this manifest; run ids and time stamps are never empty text.
\<close>

theorem recovered_row_is_the_manifests:
  assumes "recover_abandoned sl sy vw runs path st t = (Returns ids, st1, t1)"
    and "\<not> sl_run_id sl []" and "\<forall>tm. sl_iso sl tm \<noteq> []" and "vw_iso vw \<noteq> []"
  shows "\<forall>i \<in> set ids. \<exists>d m row. map_of st1 i = Some d \<and> map_of (rd_files d) RESULT_FILENAME = Some (utf8 (manifest_text m))
      \<and> map_of m ''schema_version'' = Some (PInt 1) \<and> map_of m ''status'' = Some (PStr ''abandoned'')
      \<and> row_from_manifest m (in_dir (in_dir runs i) RESULT_FILENAME) = Some row \<and> map_of t1 i = Some row"
proof
  fix i
  assume i: "i \<in> set ids"
  have valid: "[] \<notin> set (iter_run_dirs sl st)" using assms(2) by (simp add: iter_run_dirs_def)
  have fields: "map_of (abandoned_manifest i facts began ended) ''schema_version'' = Some (PInt 1)"
    "map_of (abandoned_manifest i facts began ended) ''status'' = Some (PStr ''abandoned'')" for facts began ended
    by (simp_all add: abandoned_manifest_def RESULT_SCHEMA_VERSION_def)
  show "\<exists>d m row. map_of st1 i = Some d \<and> map_of (rd_files d) RESULT_FILENAME = Some (utf8 (manifest_text m))
      \<and> map_of m ''schema_version'' = Some (PInt 1) \<and> map_of m ''status'' = Some (PStr ''abandoned'')
      \<and> row_from_manifest m (in_dir (in_dir runs i) RESULT_FILENAME) = Some row \<and> map_of t1 i = Some row"
    using bspec[OF recover_dirs_rows[OF assms(1)[unfolded recover_abandoned_def] iter_run_dirs_distinct valid assms(3,4)] i] fields
    by blast
qed

text \<open>A store with one old run that never wrote a manifest or a sentinel.\<close>

definition old_run :: store where
  "old_run = [(''01A'', \<lparr>rd_files = [], rd_mtime = Some 0, rd_denied = []\<rparr>)]"

definition fair_recovery :: recovery_weather where
  "fair_recovery = \<lparr>vw_now = 6000000, vw_iso = ''T6'', vw_unlink = (\<lambda>i. True),
     vw_write = (\<lambda>i. \<lparr>ww_unique = ''7.0a'', ww_create = None, ww_write = None, ww_replace = None, ww_sync = None, ww_unlink = True\<rparr>),
     vw_insert = (\<lambda>i. None)\<rparr>"

lemma recovered_row_is_the_manifests_witness:
  "\<exists>st1 t1 row. recover_abandoned (plain_library []) plain_system fair_recovery ''r'' ''index.db'' old_run [] = (Returns [''01A''], st1, t1)
     \<and> map_of t1 ''01A'' = Some row"
proof -
  define d where "d = \<lparr>rd_files = [], rd_mtime = Some 0, rd_denied = []\<rparr>"
  obtain r st1 t1 where run: "recover_abandoned (plain_library []) plain_system fair_recovery ''r'' ''index.db'' old_run [] = (r, st1, t1)"
    by (metis prod_cases3)
  have lib: "sl_run_id (plain_library []) ''01A''" "\<not> sl_run_id (plain_library []) []" "\<forall>tm. sl_iso (plain_library []) tm \<noteq> []"
    by (simp_all add: plain_library_def)
  have dirs: "iter_run_dirs (plain_library []) old_run = [''01A'']"
    using lib(1) by (simp add: iter_run_dirs_def old_run_def)
  have d: "map_of old_run ''01A'' = Some d" by (simp add: old_run_def d_def)
  have judged: "judge_dir (plain_library []) plain_system fair_recovery ''01A'' d = Take None d"
    by (simp add: judge_dir_def d_def has_file_def fair_recovery_def NO_SENTINEL_GRACE_def)
  have facts: "derive_run_facts (plain_library []) d = Returns []"
    by (simp add: derive_run_facts_def d_def read_file_def)
  have written: "\<exists>ds. atomic_write_bytes (vw_write fair_recovery ''01A'') q RESULT_FILENAME b d
      = (ds, Returns (in_dir q RESULT_FILENAME))" for q b
    by (simp add: atomic_write_bytes_def write_steps_def fair_recovery_def d_def has_file_def Let_def)
  have inserted: "vw_insert fair_recovery ''01A'' = None" by (simp add: fair_recovery_def)
  define m where "m = utf8 (manifest_text (abandoned_manifest ''01A'' []
    (recovered_start (plain_library []) fair_recovery None [] d) (vw_iso fair_recovery)))"
  obtain ds where ds: "atomic_write_bytes (vw_write fair_recovery ''01A'') (in_dir ''r'' ''01A'') RESULT_FILENAME m d
      = (ds, Returns (in_dir (in_dir ''r'' ''01A'') RESULT_FILENAME))"
    using written[of "in_dir ''r'' ''01A''" m] by blast
  have "r = Returns [''01A'']"
    using run unfolding recover_abandoned_def dirs
    by (simp add: d judged facts inserted Let_def m_def[symmetric] ds)
  then have "\<exists>row. map_of t1 ''01A'' = Some row"
    using recovered_row_is_the_manifests[of "plain_library []" plain_system fair_recovery "''r''" "''index.db''" old_run "[]"
        "[''01A'']" st1 t1] run lib(2,3) by (auto simp: fair_recovery_def)
  then show ?thesis using run \<open>r = Returns [''01A'']\<close> by blast
qed

section \<open>Two slips\<close>

text \<open>
  A sentinel with a pid that does not fit a C integer is not treated as corrupt: the OverflowError of
  \<open>os.kill\<close> ends the recovery, and no run after this directory is looked at.
\<close>

theorem huge_pid_ends_recovery:
  assumes "iter_run_dirs sl st = i # is" and "map_of st i = Some d" and "\<not> has_file RESULT_FILENAME d"
    and "has_file WRITER_SENTINEL d" and "read_sentinel sl d = Returns (Some owner)" and "C_INT_MAX < owner_pid owner"
  shows "recover_abandoned sl sy vw runs path st t = (Escapes ''OverflowError'', st, t)"
proof -
  have "\<not> owner_pid owner \<le> 0" using assms(6) by (simp add: C_INT_MAX_def)
  then have "writer_provably_dead sy owner = Escapes ''OverflowError''"
    using assms(6) by (simp add: writer_provably_dead_def pid_provably_dead_def Let_def)
  then show ?thesis
    using assms by (simp add: recover_abandoned_def judge_dir_def)
qed

text \<open>
  The start of a run that falls back on the modification time of its directory is the time of the
  recovery, which has just removed the sentinel.
\<close>

theorem fallback_start_is_the_recovery:
  assumes "judge_dir sl sy vw i d = Take (Some owner) d1" and "required owner ''started_at'' = None"
    and "map_of facts ''started_at'' = None"
  shows "recovered_start sl vw (Some owner) facts d1 = sl_iso sl (vw_now vw)"
  using assms judge_dir_Take(4)[OF assms(1)] by (simp add: recovered_start_def mtime_iso_def)

end
