(* ===== verification/Run_On_Store.thy ===== *)
theory Run_On_Store
  imports Recovery_Safety Direct_Run Workflow_Run
begin

text \<open>
  The run drivers on the model of the store: what \<open>RunStore.open_run\<close> and \<open>RunDirWriter.write_result\<close>
  return is what a run's world holds.
\<close>

definition booting_of :: "run_writer outcome \<Rightarrow> booting" where
  "booting_of r = (case r of Returns wr \<Rightarrow> Booted (rw_path wr) | Raises e \<Rightarrow> BootRefused e | Escapes m \<Rightarrow> BootRaised m)"

definition saving_of :: "'a outcome \<Rightarrow> saving" where
  "saving_of r = (case r of Returns _ \<Rightarrow> Saved | Raises e \<Rightarrow> SaveRefused e | Escapes m \<Rightarrow> SaveRaised m)"

lemma open_store_on_store:
  assumes "rn_store rn = booting_of (fst (open_run sl sy ow runs run_id st))" and "sl_run_id sl run_id"
    and "ow_mkdir ow = Some why"
  shows "open_store rn False = raise (Python why)"
  using assms by (simp add: open_store_def open_run_def booting_of_def)

lemma andthen_raise: "andthen (raise x) f = raise x"
  by (rule ext) (simp add: andthen_def raise_def)

text \<open>
  A store whose directory cannot be created does not degrade a run, it ends it. With saving on, if
  the \<open>mkdir\<close> of \<open>open_run\<close> fails, both \<open>execute_run\<close> and \<open>execute_workflow\<close> raise the OSError before any
  event is recorded, and return no result.
\<close>

theorem run_on_unwritable_store_raises:
  assumes "rn_store rn = booting_of (fst (open_run sl sy ow runs run_id st))" and "sl_run_id sl run_id"
    and "ow_mkdir ow = Some why" and "\<not> ru_no_save ru" and "\<not> pw_no_save pw"
  shows "execute_run w rn ru s = (Raise (Python why), s) \<and> execute_workflow w rn fw pw s = (Raise (Python why), s)"
  using assms(4,5) by (simp add: execute_run_def execute_workflow_def open_store_on_store[OF assms(1-3)] andthen_raise raise_def)

text \<open>Any other refusal of the store is recorded in the result instead.\<close>

lemma refused_sentinel_degrades:
  assumes "rn_store rn = booting_of (fst (open_run sl sy ow runs run_id st))" and "ow_mkdir ow = None" and "ow_write ow = None"
  shows "(\<exists>wr. fst (open_run sl sy ow runs run_id st) = Returns wr) \<or> (\<exists>e. open_store rn False = ok (None, [to_model e]))"
  using assms by (auto simp: open_store_def open_run_def new_writer_def booting_of_def Let_def split: option.splits)

text \<open>The manifest of a run goes through the atomic write, which never raises anything but a PersistenceError.\<close>

lemma manifest_save_never_raises:
  assumes "rn_save rn = saving_of (snd (write_result ww result_json wr d))"
  shows "rn_save rn = Saved \<or> (\<exists>e. rn_save rn = SaveRefused e \<and> err_class e = PersistenceError)"
proof (cases "rw_finalized wr")
  case True
  then show ?thesis using assms by (simp add: write_result_def saving_of_def already_finalized_def)
next
  case False
  then show ?thesis using assms
    by (cases rule: atomic_write_cases[of ww "rw_path wr" RESULT_FILENAME "utf8 result_json" d])
       (simp_all add: write_result_def saving_of_def write_failed_def)
qed

end
