(* ===== verification/Planning_Session.thy ===== *)
theory Planning_Session
  imports Run_Common Plan_Parse Plan_Validation
begin

text \<open>
  \<open>orchestrator/planner.py\<close>, the planning session: the planner is launched in an empty temporary
  directory under a policy that denies every write, asked for a plan, and asked once more in the same
  session when its answer is no valid plan. The agent's answers are arguments, with a second turn for
  the repair; the theorems are in \<open>Planning_Safety\<close>.
\<close>

section \<open>What is prepared\<close>

text \<open>
  \<open>engine/prepare.py PreparedOrchestration\<close>, with the arguments of \<open>run_orchestration\<close> at the end. The
  planner's environment reaches its launch only.
\<close>

record prepared_orchestration =
  og_config :: ziggy_config
  og_registry :: registry
  og_planner :: agent_config
  og_provider :: string
  og_catalog :: catalog
  og_goal :: string
  og_meta_prompt :: string
  og_workspace :: string
  og_plan_only :: bool
  og_auto_execute :: bool
  og_uncontained :: bool
  og_lease_first :: bool
  og_env :: "(string \<times> string) list"
  og_acknowledge :: "string list option"
  og_base_env :: "(string \<times> string) list"
  og_profile :: capture_profile
  og_no_save :: bool
  og_limits :: event_limits
  og_fingerprint :: "string option"
  og_provenance :: policy_provenance
  og_secrets :: "(string \<times> string) list"
  og_patterns :: "custom_pattern list"
  og_timeout :: int
  og_deadline :: int
  og_grace :: int
  og_max_prompt :: int
  og_seconds :: "int \<Rightarrow> int"          \<comment> \<open>a number of seconds in the unit of the timeouts\<close>
  og_has_render :: bool
  og_cancellable :: bool
  og_override :: bool

text \<open>The outside of a planning session: its directory, its agent, the turn of the repair, JSON, the plan schema and the disk.\<close>

record plan_world =
  pl_temp :: "string + string"                     \<comment> \<open>\<open>mkdtemp\<close>: its OSError or the directory\<close>
  pl_realpath :: fs
  pl_agent :: agent_world
  pl_repair :: turn
  pl_loads :: "string \<Rightarrow> json_result"
  pl_check :: "string \<Rightarrow> pydantic_error list + plan"
  pl_disk :: disk

definition PLAN_STEP_ID :: string where "PLAN_STEP_ID = ''plan''"
definition PLANNING_POLICY_NAME :: string where "PLANNING_POLICY_NAME = ''planning-isolation''"

text \<open>\<open>PlanningMediationPolicy.guarded\<close>\<close>

definition planning_policy :: "fs \<Rightarrow> string \<Rightarrow> guard_failure + policy" where
  "planning_policy realpath temp =
     (case guarded realpath temp temp None [] [] (Some PLANNING_POLICY_NAME) of
        Inl e \<Rightarrow> Inl e | Inr po \<Rightarrow> Inr (po\<lparr>po_deny_writes := True\<rparr>))"

definition guard_text :: "guard_failure \<Rightarrow> string" where
  "guard_text e = (case e of RealpathRaises m \<Rightarrow> m | Ambiguous a \<Rightarrow> ''PathAmbiguity: '' @ pa_message a)"

definition planning_context :: "prepared_orchestration \<Rightarrow> string \<Rightarrow> policy \<Rightarrow> step_context" where
  "planning_context og temp po = \<lparr>cx_step = PLAN_STEP_ID, cx_command = ag_command (og_planner og),
     cx_args = ag_args (og_planner og), cx_cwd = temp, cx_prompt = og_meta_prompt og, cx_timeout = og_timeout og,
     cx_grace = og_grace og, cx_label = ag_name (og_planner og), cx_policy = Some po,
     cx_cancellable = og_cancellable og, cx_attempt = 1, cx_override = False\<rparr>"

section \<open>Prompts\<close>

definition REPAIR_HEADER :: string where
  "REPAIR_HEADER = ''Your previous response was not a valid plan. Problems found:''"

definition REPAIR_FOOTER :: string where
  "REPAIR_FOOTER = ''Return the corrected plan now as RAW JSON only: exactly one JSON object ''
     @ ''matching one of the three plan shapes from the original instructions, ''
     @ ''with no prose, no markdown, and no code fences.''"

definition repair_prompt :: "string list \<Rightarrow> string" where
  "repair_prompt errors = join [CHR 0x0A]
     ([REPAIR_HEADER] @ map (\<lambda>e. ''- '' @ e) (bound_errors errors) @ [[], REPAIR_FOOTER])"

section \<open>One turn\<close>

datatype turn_kind = TurnEnded | TurnIncomplete | AgentCancelled | TurnProtocolError zerror | TurnCancelled | TurnTimeout

fun turn_kind_text :: "turn_kind \<Rightarrow> string" where
  "turn_kind_text TurnEnded = ''end_turn''"
| "turn_kind_text TurnIncomplete = ''incomplete''"
| "turn_kind_text AgentCancelled = ''agent_cancelled''"
| "turn_kind_text (TurnProtocolError e) = ''protocol_error''"
| "turn_kind_text TurnCancelled = ''cancelled''"
| "turn_kind_text TurnTimeout = ''timeout''"

record turn_result =
  tu_kind :: turn_kind
  tu_stop :: "string option"
  tu_code :: "int option"
  tu_torn :: bool

definition stopped_turn :: "string \<Rightarrow> turn_result" where
  "stopped_turn stop = \<lparr>tu_kind = (if stop = ''end_turn'' then TurnEnded
       else if stop = ''cancelled'' then AgentCancelled else TurnIncomplete),
     tu_stop = Some stop, tu_code = None, tu_torn = False\<rparr>"

text \<open>A log line of the plan step, with or without the planner's name.\<close>

definition plan_log :: "setting \<Rightarrow> string option \<Rightarrow> string \<Rightarrow> string \<Rightarrow> payload \<Rightarrow> unit eng" where
  "plan_log w agent t level detail = andthen (reads (rc_run_id \<circ> en_rc)) (\<lambda>run.
     mlog w (log_entry t (Some run) (Some PLAN_STEP_ID) agent level detail))"

text \<open>\<open>_prompt_turn\<close>: a prompt that is done counts first; else the ladder ends the process.\<close>

definition prompt_turn :: "setting \<Rightarrow> step_context \<Rightarrow> agent_world \<Rightarrow> string \<Rightarrow> turn_result eng" where
  "prompt_turn w cx aw session =
     followed (awaiting w (context_hooks cx) aw (tn_wait (aw_turn aw)))
     (case tn_prompt (aw_turn aw) of
        Some a \<Rightarrow> (case prompt_result a of
            Inr stop \<Rightarrow> ok (stopped_turn stop)
          | Inl x \<Rightarrow> (case typed [ProtocolError] x of
              None \<Rightarrow> raise x
            | Some e \<Rightarrow> ok \<lparr>tu_kind = TurnProtocolError e, tu_stop = None, tu_code = None, tu_torn = False\<rparr>))
      | None \<Rightarrow> (let cancelled = cx_cancellable cx \<and> tn_cancelled (aw_turn aw);
            reason = (if cancelled then ''cancel'' else ''timeout'') in
          followed (step_event w cx ''cancel_requested'' (Some session)
            [(''reason'', PStr reason), (''grace_seconds'', PFloat (se_seconds w (cx_grace cx)))])
         (followed (plan_log w None ''cancel_requested'' ''info'' [(''reason_code'', PStr reason)])
         (andthen (cancel_ladder w (context_hooks cx) aw) (\<lambda>(code, stop).
            ok \<lparr>tu_kind = (if cancelled then TurnCancelled else TurnTimeout), tu_stop = stop, tu_code = code, tu_torn = True\<rparr>)))))"

text \<open>\<open>_turn_failure\<close>\<close>

definition planning_failure :: "setting \<Rightarrow> step_context \<Rightarrow> turn_result \<Rightarrow> zerror \<times> step_status" where
  "planning_failure w cx tu = (case tu_kind tu of
     TurnProtocolError e \<Rightarrow> (e, Failed)
   | TurnCancelled \<Rightarrow> (\<lparr>err_class = CancelledError, message = ''planning cancelled'', details = stop_details (tu_stop tu)\<rparr>, Cancelled)
   | AgentCancelled \<Rightarrow> (\<lparr>err_class = CancelledError, message = ''planning cancelled'', details = stop_details (tu_stop tu)\<rparr>, Cancelled)
   | TurnTimeout \<Rightarrow> (interrupted_error w cx False (tu_stop tu), Failed)
   | _ \<Rightarrow> (\<lparr>err_class = ProtocolError, message = ''turn ended without completing: ''
        @ (case tu_stop tu of None \<Rightarrow> ''None'' | Some s \<Rightarrow> s), details = stop_details (tu_stop tu)\<rparr>, Failed))"

definition turn_failure :: "setting \<Rightarrow> step_context \<Rightarrow> turn_result \<Rightarrow> handshake \<Rightarrow> string \<Rightarrow> step_outcome eng" where
  "turn_failure w cx tu h session = (case planning_failure w cx tu of (e, st) \<Rightarrow>
     followed (step_error w cx None e)
       (ok \<lparr>so_status = st, so_error = Some e, so_stop_reason = tu_stop tu, so_exit_code = tu_code tu,
          so_handshake = Some h, so_session_id = Some session, so_degraded = True\<rparr>))"

section \<open>The session\<close>

text \<open>\<open>_PlanningResult\<close>\<close>

record planning_result =
  pg_outcome :: step_outcome
  pg_plan :: "(plan \<times> validation_report) option"
  pg_attempts :: int
  pg_repair :: bool
  pg_errors :: "string list"

definition no_plan :: "step_outcome \<Rightarrow> string list \<Rightarrow> planning_result" where
  "no_plan out errors = \<lparr>pg_outcome = out, pg_plan = None, pg_attempts = 1, pg_repair = False, pg_errors = errors\<rparr>"

text \<open>\<open>exit_code = await client.shutdown(0.0); tore_down = True\<close>\<close>

definition end_planner :: "setting \<Rightarrow> step_context \<Rightarrow> agent_world \<Rightarrow> int option eng" where
  "end_planner w cx aw = andthen (shutdown w (context_hooks cx) aw (aw_end aw)) (\<lambda>code.
     followed (modify (\<lambda>s. s\<lparr>en_shut := True\<rparr>)) (ok code))"

text \<open>An exchange before the first prompt that fails.\<close>

definition or_no_plan ::
  "setting \<Rightarrow> step_context \<Rightarrow> agent_world \<Rightarrow> handshake option \<Rightarrow> string \<Rightarrow> 'a eng \<Rightarrow> ('a \<Rightarrow> planning_result eng) \<Rightarrow> planning_result eng" where
  "or_no_plan w cx aw h why m k = andthen (attempt_of (typed [ProtocolError]) m) (\<lambda>r. case r of
     Inr x \<Rightarrow> k x
   | Inl e \<Rightarrow> followed (step_error w cx None e)
       (andthen (end_planner w cx aw) (\<lambda>code. ok (no_plan (failed_early e code h None True) [why]))))"

text \<open>What the turns come to: a turn that did not end, or the plan, if one is valid, with the last errors,
  the number of the last turn, whether a repair was asked for and the last stop reason.\<close>

datatype turns_end =
    TurnsStopped planning_result
  | TurnsDone "(plan \<times> validation_report) option" "string list" int bool "string option"

definition turn_stopped ::
  "setting \<Rightarrow> step_context \<Rightarrow> agent_world \<Rightarrow> handshake \<Rightarrow> string \<Rightarrow> int \<Rightarrow> bool \<Rightarrow> string list \<Rightarrow> turn_result \<Rightarrow> turns_end eng" where
  "turn_stopped w cx aw h session n repair errors tu =
     andthen (if tu_torn tu then followed (modify (\<lambda>s. s\<lparr>en_shut := True\<rparr>)) (ok (tu_code tu)) else end_planner w cx aw) (\<lambda>code.
     followed (terminated w cx session code (turn_kind_text (tu_kind tu)) [])
    (andthen (turn_failure w cx (tu\<lparr>tu_code := code\<rparr>) h session) (\<lambda>out.
       ok (TurnsStopped \<lparr>pg_outcome = out, pg_plan = None, pg_attempts = n, pg_repair = repair,
         pg_errors = bound_errors (errors @ [''plan: planning turn did not complete''])\<rparr>))))"

definition judge_plan :: "prepared_orchestration \<Rightarrow> plan_world \<Rightarrow> plan \<Rightarrow> validation_report" where
  "judge_plan og pl p = validate_plan (pl_disk pl) p (og_catalog og) (og_config og) (og_registry og) (og_provider og) (og_goal og)"

fun plan_turns ::
  "setting \<Rightarrow> prepared_orchestration \<Rightarrow> plan_world \<Rightarrow> step_context \<Rightarrow> handshake \<Rightarrow> string \<Rightarrow> (int \<times> agent_world) list
    \<Rightarrow> string \<Rightarrow> string list \<Rightarrow> int \<Rightarrow> bool \<Rightarrow> string option \<Rightarrow> turns_end eng" where
  "plan_turns w og pl cx h session [] prompt errors n repair last_stop = ok (TurnsDone None errors n repair last_stop)"
| "plan_turns w og pl cx h session ((k, aw) # rest) prompt errors n repair last_stop =
     followed (step_event w cx ''prompt_started'' (Some session) [(''text'', PStr prompt), (''planning_attempt'', PInt k)])
    (followed (step_log w cx ''prompt_started'' ''info'' [(''count'', PInt k)])
    (andthen (reads (\<lambda>s. length (text_output (en_rc s) (Some PLAN_STEP_ID)))) (\<lambda>seen.
     andthen (prompt_turn w cx aw session) (\<lambda>tu.
       if tu_kind tu \<noteq> TurnEnded then turn_stopped w cx aw h session k repair errors tu
       else andthen (reads (\<lambda>s. drop seen (text_output (en_rc s) (Some PLAN_STEP_ID)))) (\<lambda>answer.
         let retry = (\<lambda>errs. if k = 1
            then followed (step_log w cx ''plan_repair_requested'' ''warning'' [(''count'', PInt (int (length errs)))])
              (plan_turns w og pl cx h session rest (repair_prompt errs) errs k True (tu_stop tu))
            else plan_turns w og pl cx h session rest prompt errs k repair (tu_stop tu))
         in case parse_plan (pl_loads pl) (pl_check pl) answer of
              ParseRaises m \<Rightarrow> raise (Python m)
            | ParseErrors errs \<Rightarrow> retry errs
            | Parsed p \<Rightarrow> (let report = judge_plan og pl p in
                if valid report then ok (TurnsDone (Some (p, report)) errors k repair (tu_stop tu))
                else retry (vr_errors report)))))))"

definition end_turns :: "setting \<Rightarrow> step_context \<Rightarrow> agent_world \<Rightarrow> handshake \<Rightarrow> string \<Rightarrow> turns_end \<Rightarrow> planning_result eng" where
  "end_turns w cx aw h session x = (case x of
     TurnsStopped r \<Rightarrow> ok r
   | TurnsDone p errors n repair last_stop \<Rightarrow>
       andthen (end_planner w cx aw) (\<lambda>code.
       followed (terminated w cx session code ''turn_complete'' (stop_details last_stop))
         (ok \<lparr>pg_outcome = \<lparr>so_status = Success, so_error = None, so_stop_reason = last_stop, so_exit_code = code,
              so_handshake = Some h, so_session_id = Some session, so_degraded = False\<rparr>,
            pg_plan = p, pg_attempts = n, pg_repair = repair,
            pg_errors = (if p = None then bound_errors errors else [])\<rparr>)))"

definition planning_session ::
  "setting \<Rightarrow> prepared_orchestration \<Rightarrow> plan_world \<Rightarrow> step_context \<Rightarrow> planning_result eng" where
  "planning_session w og pl cx = (let aw = pl_agent pl in
     or_no_plan w cx aw None ''plan: planning agent handshake failed'' (initialize w (context_hooks cx) aw) (\<lambda>h.
     followed (step_event w cx ''handshake'' None (handshake_payload h))
    (followed (step_log w cx ''handshake'' ''info'' [])
    (or_no_plan w cx aw (Some h) ''plan: planning session could not be created'' (new_session w (context_hooks cx) aw) (\<lambda>session.
       followed (modify (\<lambda>s. s\<lparr>en_session := Some session\<rparr>))
      (followed (step_event w cx ''session_created'' (Some session) [(''session_id'', PStr session), (''cwd'', PStr (cx_cwd cx))])
      (followed (step_log w cx ''session_created'' ''info'' [])
      (andthen (plan_turns w og pl cx h session [(1, aw), (2, aw\<lparr>aw_turn := pl_repair pl\<rparr>)] (og_meta_prompt og) [] 1 False None)
        (end_turns w cx aw h session)))))))))"

text \<open>The \<open>finally\<close>; unlike \<open>execute_step\<close>, it does not flush the streams of the hooks.\<close>

definition planner_clean_up :: "setting \<Rightarrow> step_context \<Rightarrow> agent_world \<Rightarrow> unit eng" where
  "planner_clean_up w cx aw = andthen (reads en_shut) (\<lambda>done.
     if done then ok () else andthen (shutdown w (context_hooks cx) aw (aw_final aw)) (\<lambda>_. ok ()))"

text \<open>\<open>_run_planning\<close>\<close>

definition run_planning :: "setting \<Rightarrow> prepared_orchestration \<Rightarrow> plan_world \<Rightarrow> string \<Rightarrow> planning_result eng" where
  "run_planning w og pl temp = (case planning_policy (pl_realpath pl) temp of
     Inl e \<Rightarrow> raise (Python (guard_text e))
   | Inr po \<Rightarrow> (let cx = planning_context og temp po; aw = pl_agent pl in
       followed (modify fresh_step)
      (followed (step_event w cx ''agent_launching'' None [(''command'', PStr (cx_command cx)), (''args'', str_list (cx_args cx))])
      (andthen (attempt_of (typed [AgentLaunchError]) (launch aw (cx_command cx))) (\<lambda>r. case r of
         Inl e \<Rightarrow> followed (step_error w cx None e)
           (followed (step_log w cx ''agent_launch_failed'' ''error'' [(''reason_code'', PStr (error_code (err_class e)))])
             (ok (no_plan (failed_early e None None None False) [''plan: planning agent failed to launch''])))
       | Inr pid \<Rightarrow> followed (step_event w cx ''agent_launched'' None [(''pid'', PInt pid), (''pgid'', PInt pid)])
           (followed (step_log w cx ''agent_launched'' ''info'' [])
             (finally_do (planning_session w og pl cx) (planner_clean_up w cx aw))))))))"

end
