(* ===== verification/Planning_Safety.thy ===== *)
theory Planning_Safety
  imports Planning_Session Run_Logic
begin

text \<open>
  What a planning session does: it starts the planner and nothing else, writes no file, asks at most
  twice, and its plan is one that validation accepts.
\<close>

section \<open>Acts of the session\<close>

text \<open>
  A planning session after the launch \<open>L\<close>, of an agent that asks for \<open>C\<close>; the policy of \<open>cx\<close> denies writes.
\<close>

definition session_act :: "hook_call set \<Rightarrow> launching \<Rightarrow> step_context \<Rightarrow> act \<Rightarrow> bool" where
  "session_act C L cx a \<longleftrightarrow> session_permitted C L cx a \<and> (\<forall>p t. a \<noteq> DiskWrite p t)"

lemma adds_plan_log [adds_intros]:
  "validate_line level detail = None \<Longrightarrow> cx_step cx = PLAN_STEP_ID \<Longrightarrow> adds (session_permitted C L cx) (plan_log w agent t level detail)"
  unfolding plan_log_def
  by (intro adds_andthen adds_intros adds_mlog) (simp add: log_entry_def context_hooks_def)

lemma adds_prompt_turn [adds_intros]:
  "heeds C L aw \<Longrightarrow> cx_step cx = PLAN_STEP_ID \<Longrightarrow> adds (session_permitted C L cx) (prompt_turn w cx aw session)"
  unfolding prompt_turn_def Let_def by (intro adds_intros log_allowed) simp_all

lemma adds_end_planner [adds_intros]: "heeds C L aw \<Longrightarrow> adds (session_permitted C L cx) (end_planner w cx aw)"
  unfolding end_planner_def by (intro adds_intros) simp_all

lemma adds_or_no_plan [adds_intros]:
  "heeds C L aw \<Longrightarrow> adds (session_permitted C L cx) m \<Longrightarrow> (\<And>x. adds (session_permitted C L cx) (k x)) \<Longrightarrow> adds (session_permitted C L cx) (or_no_plan w cx aw h why m k)"
  unfolding or_no_plan_def by (intro adds_intros)

lemma adds_turn_failure [adds_intros]: "adds (session_permitted C L cx) (turn_failure w cx tu h session)"
  unfolding turn_failure_def by (intro adds_intros)

lemma adds_turn_stopped [adds_intros]: "heeds C L aw \<Longrightarrow> adds (session_permitted C L cx) (turn_stopped w cx aw h session k repair errors tu)"
  unfolding turn_stopped_def by (intro adds_intros) simp_all

lemma adds_plan_turns [adds_intros]:
  "\<forall>x \<in> set turns. heeds C L (snd x) \<Longrightarrow> cx_step cx = PLAN_STEP_ID \<Longrightarrow>
     adds (session_permitted C L cx) (plan_turns w og pl cx h session turns prompt errors n repair last_stop)"
proof (induction turns arbitrary: prompt errors n repair last_stop)
  case (Cons x rest)
  obtain k aw where x: "x = (k, aw)" by (cases x)
  have IH: "adds (session_permitted C L cx) (plan_turns w og pl cx h session rest prompt errors n repair last_stop)"
    for prompt errors n repair last_stop using Cons by simp
  have aw: "heeds C L aw" using Cons.prems(1) x by simp
  have line: "validate_line ''info'' [(''count'', v)] = None" "validate_line ''warning'' [(''count'', v)] = None" for v
    by (simp_all add: validate_line_None ALLOWED_LEVELS_def ALLOWED_DETAIL_FIELDS_def)
  show ?case
    unfolding x plan_turns.simps Let_def
    by (intro adds_intros IH line aw Cons.prems(2)) (auto split: parse_outcome.splits intro!: adds_intros IH line)
qed (simp add: adds_intros)

lemma adds_end_turns [adds_intros]: "heeds C L aw \<Longrightarrow> adds (session_permitted C L cx) (end_turns w cx aw h session x)"
  unfolding end_turns_def by (cases x) (auto intro!: adds_intros simp: stop_details_def)

lemma adds_planning_session [adds_intros]:
  "heeds C L (pl_agent pl) \<Longrightarrow> heeds C L ((pl_agent pl)\<lparr>aw_turn := pl_repair pl\<rparr>) \<Longrightarrow> cx_step cx = PLAN_STEP_ID \<Longrightarrow>
     adds (session_permitted C L cx) (planning_session w og pl cx)"
  unfolding planning_session_def Let_def by (intro adds_intros log_allowed) simp_all

lemma adds_planner_clean_up [adds_intros]: "heeds C L aw \<Longrightarrow> adds (session_permitted C L cx) (planner_clean_up w cx aw)"
  unfolding planner_clean_up_def by (intro adds_intros)

text \<open>The policy denies writes, and every file it lets the planner read is in the temporary directory.\<close>

lemma planning_policy_Inr:
  assumes "planning_policy realpath temp = Inr po"
  shows "po_deny_writes po \<and> (\<exists>dir. realpath temp = Inr dir \<and> po_workspace po = path_of dir)"
  using assms by (auto simp: planning_policy_def guarded_def Let_def split: sum.splits)

lemma session_act_planning:
  assumes "po_deny_writes po" and "session_permitted C L (planning_context og temp po) a"
  shows "session_act C L (planning_context og temp po) a"
  using assms by (cases a) (auto simp: session_act_def planning_context_def context_hooks_def)

section \<open>The launch\<close>

text \<open>What is added before the launch, and around it.\<close>

definition grown :: "(act \<Rightarrow> bool) \<Rightarrow> act list \<Rightarrow> engine \<Rightarrow> bool" where
  "grown P base t \<longleftrightarrow> (\<exists>new. en_acts t = base @ new \<and> list_all P new)"

definition launched :: "(act \<Rightarrow> bool) \<Rightarrow> launching \<Rightarrow> string \<Rightarrow> act list \<Rightarrow> engine \<Rightarrow> bool" where
  "launched P L c base t \<longleftrightarrow> (\<exists>pid early late. L = Launched pid
     \<and> en_acts t = base @ early @ Spawned pid c # late \<and> list_all P early \<and> list_all P late)"

lemma adds_result: "adds P m \<Longrightarrow> \<exists>r t new. m s = (r, t) \<and> en_acts t = en_acts s @ new \<and> list_all P new"
  unfolding adds_def by (metis prod.collapse)

lemma wp_grown:
  assumes "adds P m" and "grown P base s" and "\<And>x t. grown P base t \<Longrightarrow> Q x t" and "\<And>e t. grown P base t \<Longrightarrow> E e t"
  shows "wp m Q E s"
proof -
  obtain r t new where m: "m s = (r, t)" "en_acts t = en_acts s @ new" "list_all P new" using adds_result[OF assms(1)] by blast
  with assms(2) have "grown P base t" unfolding grown_def by (metis append_assoc list_all_append)
  with assms(3,4) show ?thesis by (cases r) (simp_all add: wp_def m(1))
qed

lemma wp_planner_launched:
  assumes "adds P m" and "launched P L c base s" and "\<And>x t. launched P L c base t \<Longrightarrow> Q x t" and "\<And>e t. launched P L c base t \<Longrightarrow> E e t"
  shows "wp m Q E s"
proof -
  obtain r t new where m: "m s = (r, t)" "en_acts t = en_acts s @ new" "list_all P new" using adds_result[OF assms(1)] by blast
  from assms(2) obtain pid early late where s: "L = Launched pid" "en_acts s = base @ early @ Spawned pid c # late" "list_all P early" "list_all P late"
    unfolding launched_def by blast
  with m have "L = Launched pid \<and> en_acts t = base @ early @ Spawned pid c # (late @ new) \<and> list_all P early \<and> list_all P (late @ new)" by simp
  then have "launched P L c base t" unfolding launched_def by blast
  with assms(3,4) show ?thesis by (cases r) (simp_all add: wp_def m(1))
qed

lemma wp_launch:
  assumes "grown P base s" and "\<And>x t. launched P (aw_launch aw) c base t \<Longrightarrow> Q x t" and "\<And>e t. grown P base t \<Longrightarrow> E e t"
  shows "wp (launch aw c) Q E s"
proof (cases "aw_launch aw")
  case (Launched pid)
  from assms(1) obtain new where "en_acts s = base @ new" "list_all P new" unfolding grown_def by blast
  then have "launched P (aw_launch aw) c base (s\<lparr>en_exit := None, en_closed := False, en_acts := en_acts s @ [Spawned pid c]\<rparr>)"
    unfolding launched_def by (intro exI[of _ pid] exI[of _ new] exI[of _ "[]"]) (simp add: Launched)
  with assms(2) show ?thesis
    unfolding launch_def Launched launching.case by (intro wp_followed wp_modify wp_act wp_ok) simp
qed (use assms in \<open>auto simp: launch_def intro!: wp_raise\<close>)

definition planner_trace :: "(act \<Rightarrow> bool) \<Rightarrow> launching \<Rightarrow> string \<Rightarrow> act list \<Rightarrow> engine \<Rightarrow> bool" where
  "planner_trace P L c base t \<longleftrightarrow> grown P base t \<or> launched P L c base t"

text \<open>What the planner can ask for, in both of its turns.\<close>

definition planner_calls :: "plan_world \<Rightarrow> hook_call set" where
  "planner_calls pl = calls_of (pl_agent pl) \<union> calls_of ((pl_agent pl)\<lparr>aw_turn := pl_repair pl\<rparr>)"

lemma planner_heeds:
  assumes "aw_launch (pl_agent pl) = Launched pid"
  shows "heeds (planner_calls pl) (aw_launch (pl_agent pl)) (pl_agent pl)"
    "heeds (planner_calls pl) (aw_launch (pl_agent pl)) ((pl_agent pl)\<lparr>aw_turn := pl_repair pl\<rparr>)"
  using assms by (simp_all add: heeds_def planner_calls_def)

lemma wp_run_planning:
  assumes po: "planning_policy (pl_realpath pl) temp = Inr po" and P: "P = session_act (planner_calls pl) (aw_launch (pl_agent pl)) (planning_context og temp po)"
  shows "wp (run_planning w og pl temp) (\<lambda>_. planner_trace P (aw_launch (pl_agent pl)) (ag_command (og_planner og)) (en_acts s))
    (\<lambda>_. planner_trace P (aw_launch (pl_agent pl)) (ag_command (og_planner og)) (en_acts s)) s"
proof -
  let ?cx = "planning_context og temp po" and ?c = "ag_command (og_planner og)" and ?L = "aw_launch (pl_agent pl)" and ?g = "grown P (en_acts s)"
    and ?T = "planner_trace P (aw_launch (pl_agent pl)) (ag_command (og_planner og)) (en_acts s)"
  have add: "adds P m" if "adds (session_permitted (planner_calls pl) ?L ?cx) m" for m :: "'a eng"
    using session_act_planning planning_policy_Inr[OF po] unfolding P by (intro adds_mono[OF that]) blast
  have cx [simp]: "cx_step ?cx = PLAN_STEP_ID" "cx_command ?cx = ?c" by (simp_all add: planning_context_def)
  have g: "?g s" by (simp add: grown_def)
  have ev: "adds P (step_event w ?cx t session body)" and er: "adds P (step_error w ?cx session e)" for t session body e
    by (intro add adds_intros)+
  have line: "adds P (step_log w ?cx t ''info'' [])" "adds P (step_log w ?cx t ''error'' [(''reason_code'', v)])" for t v
    by (intro add adds_intros log_allowed; simp)+
  have session: "adds P (finally_do (planning_session w og pl ?cx) (planner_clean_up w ?cx (pl_agent pl)))"
    if "?L = Launched pid" for pid
    by (intro adds_finally add adds_planning_session adds_planner_clean_up planner_heeds[OF that] cx)
  have low: "wp m (\<lambda>_. ?T) (\<lambda>_. ?T) t" if "adds P m" "?g t" for m :: "planning_result eng" and t
    by (rule wp_grown[OF that]) (auto simp: planner_trace_def)
  have high: "wp m (\<lambda>_. ?T) (\<lambda>_. ?T) t" if "adds P m" "launched P ?L ?c (en_acts s) t" for m :: "planning_result eng" and t
    by (rule wp_planner_launched[OF that]) (auto simp: planner_trace_def)
  have fresh: "adds P (modify fresh_step)" by (rule adds_modify) (simp add: fresh_step_def)
  have failed: "adds P (followed (step_error w ?cx None e) (followed (step_log w ?cx ''agent_launch_failed'' ''error''
      [(''reason_code'', PStr (error_code (err_class e)))]) (ok (no_plan (failed_early e None None None False) why))))" for e why
    by (intro adds_followed er line adds_ok)
  show ?thesis
    unfolding run_planning_def po sum.case Let_def cx
  proof (rule wp_followed, rule wp_grown[OF fresh g], rule wp_followed, rule wp_grown[OF ev], assumption,
      rule wp_andthen, rule wp_attempt, rule wp_launch, assumption, goal_cases)
    case (1 x t y u pid v)
    then obtain p where "?L = Launched p" by (auto simp: launched_def)
    with 1 show ?case unfolding sum.case by (intro high adds_followed ev line session)
  next
    case (2 x t y u e v)
    then show ?case
      unfolding uncaught_def by (auto split: option.splits intro: low failed simp: planner_trace_def)
  qed (auto simp: planner_trace_def)
qed

section \<open>What planning comes to\<close>

text \<open>At most two turns, the second exactly for a repair; a plan only after success, and then a valid one.\<close>

definition plan_facts :: "prepared_orchestration \<Rightarrow> plan_world \<Rightarrow> planning_result \<Rightarrow> bool" where
  "plan_facts og pl pg \<longleftrightarrow> pg_attempts pg \<in> {1, 2} \<and> (pg_repair pg \<longleftrightarrow> pg_attempts pg = 2)
     \<and> length (pg_errors pg) \<le> MAX_PLAN_ERRORS
     \<and> (so_error (pg_outcome pg) = None \<longleftrightarrow> so_status (pg_outcome pg) = Success)
     \<and> (case pg_plan pg of
          None \<Rightarrow> so_status (pg_outcome pg) \<noteq> Success \<longrightarrow> pg_errors pg \<noteq> []
        | Some (p, report) \<Rightarrow> so_status (pg_outcome pg) = Success \<and> pg_errors pg = [] \<and> report = judge_plan og pl p \<and> valid report)"

definition turns_facts :: "prepared_orchestration \<Rightarrow> plan_world \<Rightarrow> turns_end \<Rightarrow> bool" where
  "turns_facts og pl x \<longleftrightarrow> (case x of
     TurnsStopped r \<Rightarrow> plan_facts og pl r
   | TurnsDone p errors n repair last_stop \<Rightarrow> n \<in> {1, 2} \<and> (repair \<longleftrightarrow> n = 2)
       \<and> (case p of None \<Rightarrow> True | Some (q, report) \<Rightarrow> report = judge_plan og pl q \<and> valid report))"

lemma bound_errors_le: "length (bound_errors es) \<le> MAX_PLAN_ERRORS"
  by (simp add: bound_errors_def)

lemma no_bound_errors: "bound_errors es = [] \<longleftrightarrow> es = []"
  by (simp add: bound_errors_def MAX_PLAN_ERRORS_def)

lemma no_plan_facts:
  "so_error out \<noteq> None \<Longrightarrow> so_status out \<noteq> Success \<Longrightarrow> plan_facts og pl (no_plan out [why])"
  by (simp add: plan_facts_def no_plan_def MAX_PLAN_ERRORS_def)

lemma failed_early_fails: "so_error (failed_early e code h x d) \<noteq> None \<and> so_status (failed_early e code h x d) \<noteq> Success"
  by (simp add: failed_early_def)

lemma values_turn_stopped:
  assumes "k \<in> {1, 2}" and "repair \<longleftrightarrow> k = 2"
  shows "yields False (turns_facts og pl) (turn_stopped w cx aw h session k repair errors tu)"
proof -
  have f: "yields False (\<lambda>out. so_error out \<noteq> None \<and> so_status out \<noteq> Success) (turn_failure w cx tu' h session)" for tu'
    unfolding turn_failure_def planning_failure_def
    by (cases "tu_kind tu'") (auto intro!: values_followed yields_ok)
  show ?thesis
    unfolding turn_stopped_def
    by (intro values_andthen values_followed yields_andthen[OF f] yields_ok)
      (use assms in \<open>auto simp: turns_facts_def plan_facts_def bound_errors_le no_bound_errors\<close>)
qed

text \<open>One turn, given what the rest of the turns comes to.\<close>

lemma values_one_turn:
  assumes k: "k \<in> {1, 2}" "repair \<longleftrightarrow> k = 2"
    and rest: "\<And>prompt errors stop. yields False (turns_facts og pl)
      (plan_turns w og pl cx h session rest prompt errors k (k = 1 \<or> repair) stop)"
  shows "yields False (turns_facts og pl) (plan_turns w og pl cx h session ((k, aw) # rest) prompt errors n repair last_stop)"
proof -
  have retry: "yields False (turns_facts og pl) (if k = 1
      then followed (step_log w cx ''plan_repair_requested'' ''warning'' [(''count'', PInt (int (length errs)))])
        (plan_turns w og pl cx h session rest (repair_prompt errs) errs k True stop)
      else plan_turns w og pl cx h session rest prompt errs k repair stop)" for errs stop
    using rest[of "repair_prompt errs" errs stop] rest[of prompt errs stop] by (cases "k = 1") (auto intro: values_followed)
  show ?thesis
    unfolding plan_turns.simps Let_def
  proof (intro values_followed values_andthen yields_if values_turn_stopped k)
    fix seen tu answer
    show "yields False (turns_facts og pl) (case parse_plan (pl_loads pl) (pl_check pl) answer of
        Parsed p \<Rightarrow> if valid (judge_plan og pl p) then ok (TurnsDone (Some (p, judge_plan og pl p)) errors k repair (turn_result.tu_stop tu))
          else if k = 1
            then followed (step_log w cx ''plan_repair_requested'' ''warning'' [(''count'', PInt (int (length (vr_errors (judge_plan og pl p)))))])
              (plan_turns w og pl cx h session rest (repair_prompt (vr_errors (judge_plan og pl p))) (vr_errors (judge_plan og pl p)) k True (turn_result.tu_stop tu))
            else plan_turns w og pl cx h session rest prompt (vr_errors (judge_plan og pl p)) k repair (turn_result.tu_stop tu)
      | ParseErrors errs \<Rightarrow> if k = 1
            then followed (step_log w cx ''plan_repair_requested'' ''warning'' [(''count'', PInt (int (length errs)))])
              (plan_turns w og pl cx h session rest (repair_prompt errs) errs k True (turn_result.tu_stop tu))
            else plan_turns w og pl cx h session rest prompt errs k repair (turn_result.tu_stop tu)
      | ParseRaises m \<Rightarrow> raise (Python m))"
    proof (cases "parse_plan (pl_loads pl) (pl_check pl) answer")
      case (Parsed p)
      show ?thesis
        unfolding Parsed parse_outcome.case
        by (rule yields_if[OF yields_ok retry]) (use k in \<open>simp add: turns_facts_def\<close>)
    next
      case (ParseErrors errs)
      show ?thesis unfolding ParseErrors parse_outcome.case by (rule retry)
    qed simp
  qed
qed

lemma values_plan_turns:
  "yields False (turns_facts og pl) (plan_turns w og pl cx h session [(1, aw), (2, aw')] prompt [] 1 False None)"
proof (intro values_one_turn)
  fix prompt errors stop and prompt' errors' stop'
  show "yields False (turns_facts og pl) (plan_turns w og pl cx h session [] prompt' errors' 2
    ((2 :: int) = 1 \<or> (1 :: int) = 1 \<or> False) stop')"
    by (auto intro: yields_ok simp: turns_facts_def)
qed auto

lemma values_end_turns: "turns_facts og pl x \<Longrightarrow> yields False (plan_facts og pl) (end_turns w cx aw h session x)"
  unfolding end_turns_def
  by (cases x) (auto intro!: yields_ok values_andthen values_followed simp: turns_facts_def plan_facts_def bound_errors_le split: option.splits)

lemma values_or_no_plan:
  assumes "\<And>x. yields False (plan_facts og pl) (k x)"
  shows "yields False (plan_facts og pl) (or_no_plan w cx aw h why m k)"
  unfolding or_no_plan_def
  by (intro values_andthen yields_sum values_followed yields_ok assms no_plan_facts) (use failed_early_fails in blast)+

lemma values_run_planning: "yields False (plan_facts og pl) (run_planning w og pl temp)"
proof -
  have "yields False (plan_facts og pl) (planning_session w og pl cx)" for cx
    unfolding planning_session_def Let_def
    by (intro values_or_no_plan values_followed yields_andthen[OF values_plan_turns] values_end_turns)
  then show ?thesis
    unfolding run_planning_def Let_def
    by (intro yields_sum values_raise values_followed values_andthen yields_finally yields_ok no_plan_facts)
      (use failed_early_fails in auto)
qed

section \<open>Properties\<close>

text \<open>C15: whatever the planning agent asks for, and however its turns end, planning starts the planner's
  command and no other process, writes no file, reads files only inside the temporary directory, and
  records only events and log lines of the plan step; a directory that cannot be made into a policy
  ends planning before anything happens.\<close>

theorem planning_is_isolated:
  "case planning_policy (pl_realpath pl) temp of
     Inl e \<Rightarrow> run_planning w og pl temp s = (Raise (Python (guard_text e)), s)
   | Inr po \<Rightarrow> planner_trace (session_act (planner_calls pl) (aw_launch (pl_agent pl)) (planning_context og temp po))
         (aw_launch (pl_agent pl)) (ag_command (og_planner og)) (en_acts s)
         (snd (run_planning w og pl temp s))
       \<and> (\<exists>dir. pl_realpath pl temp = Inr dir \<and> po_workspace po = path_of dir)"
proof (cases "planning_policy (pl_realpath pl) temp")
  case (Inl e)
  then show ?thesis by (simp add: run_planning_def raise_def)
next
  case (Inr po)
  with wp_run_planning[OF Inr refl, of w og s] planning_policy_Inr[OF Inr] show ?thesis
    by (auto simp: wp_def split: prod.splits res.splits)
qed

text \<open>C21: the planner is asked at most twice, the second time exactly when a repair was requested; a plan
  comes out only of a turn that ended well, and only one that the validator accepts against the catalog,
  the goal and the planner's provider; a session that fails carries its error, and at most ten problems
  are reported.\<close>

theorem planning_gives_valid_plans:
  "case fst (run_planning w og pl temp s) of Ok pg \<Rightarrow> plan_facts og pl pg | _ \<Rightarrow> True"
proof (cases "run_planning w og pl temp s")
  case (Pair r t)
  then show ?thesis using yieldsD[OF values_run_planning] by (cases r) auto
qed

end
