(* ===== verification/Workflow_Files.thy ===== *)
theory Workflow_Files
  imports Interpolate Paths Effects
begin

text \<open>
  \<open>workflows/schema.py\<close> and \<open>workflows/discovery.py\<close>: from the bytes of a YAML file to a validated
  workflow, and from a name or a path to a file. PyYAML and pydantic are arguments: \<open>safe_load\<close> gives a
  value, whose keys appear as \<open>str\<close> shows them, \<open>compose\<close> the node graph, and \<open>model_validate\<close> a
  workflow or its errors.
\<close>

section \<open>The node graph\<close>

text \<open>
  A node of \<open>yaml.compose\<close> under its identity: an alias is the number of a node met before. A mapping has
  the value and the line of each scalar key, \<open>None\<close> for another key, and the number of the value.
\<close>

datatype node =
    ScalarNode
  | MappingNode "((string \<times> int) option \<times> nat) list"
  | SequenceNode "nat list"

type_synonym node_graph = "(nat \<times> node) list"

definition index_text :: "string \<Rightarrow> nat \<Rightarrow> string" where
  "index_text path i = path @ ''['' @ str_of_nat i @ '']''"

definition key_path :: "string \<Rightarrow> string \<Rightarrow> string" where
  "key_path path key = (if path = [] then key else path @ ''.'' @ key)"

definition duplicate_key :: "string \<Rightarrow> int \<Rightarrow> int \<Rightarrow> string" where
  "duplicate_key path line1 line2 = path @ '': duplicate mapping key (lines '' @ str_of_int line1 @ '' and ''
     @ str_of_int line2 @ ''; YAML would silently keep the last value)''"

text \<open>What is left of a walk, in order: a problem found, or a node to visit with its path.\<close>

datatype errand = Report string | Visit nat string

fun mapping_errands :: "string \<Rightarrow> (string \<times> int) list \<Rightarrow> ((string \<times> int) option \<times> nat) list \<Rightarrow> errand list" where
  "mapping_errands path seen [] = []"
| "mapping_errands path seen ((None, child) # rest) = Visit child path # mapping_errands path seen rest"
| "mapping_errands path seen ((Some (key, line), child) # rest) =
     (case map_of seen key of
        Some first \<Rightarrow> Report (duplicate_key (key_path path key) first line) # Visit child (key_path path key)
          # mapping_errands path seen rest
      | None \<Rightarrow> Visit child (key_path path key) # mapping_errands path ((key, line) # seen) rest)"

fun node_errands :: "string \<Rightarrow> node \<Rightarrow> errand list" where
  "node_errands path ScalarNode = []"
| "node_errands path (MappingNode pairs) = mapping_errands path [] pairs"
| "node_errands path (SequenceNode items) = map (\<lambda>(i, child). Visit child (index_text path i)) (List.enumerate 0 items)"

text \<open>The inner \<open>walk\<close>, its recursion as a list of errands. Every node of the graph is visited once.\<close>

function node_walk :: "node_graph \<Rightarrow> nat list \<Rightarrow> errand list \<Rightarrow> string list" where
  "node_walk g visited [] = []"
| "node_walk g visited (Report m # rest) = m # node_walk g visited rest"
| "node_walk g visited (Visit n path # rest) =
     (if n \<in> set visited then node_walk g visited rest
      else (case map_of g n of
         None \<Rightarrow> node_walk g visited rest
       | Some node \<Rightarrow> node_walk g (n # visited) (node_errands path node @ rest)))"
  by pat_completeness auto
termination
proof (relation "inv_image (less_than <*lex*> less_than) (\<lambda>(g, visited, todo). (card (set (keys g) - set visited), length todo))")
  fix g :: node_graph and visited n path rest node
  assume "n \<notin> set visited" and "map_of g n = Some node"
  moreover from this have "n \<in> set (keys g)" by (metis domI dom_map_of_conv_image_fst list.set_map)
  ultimately have "set (keys g) - set (n # visited) \<subset> set (keys g) - set visited" by auto
  then have "card (set (keys g) - set (n # visited)) < card (set (keys g) - set visited)" by (simp add: psubset_card_mono)
  then show "((g, n # visited, node_errands path node @ rest), (g, visited, Visit n path # rest))
      \<in> inv_image (less_than <*lex*> less_than) (\<lambda>(g, visited, todo). (card (set (keys g) - set visited), length todo))" by simp
qed auto

section \<open>Loading\<close>

text \<open>
  The outside of a load. PyYAML fails with a YAMLError, or with another exception: it raises a ValueError
  for a scalar that looks like a timestamp or an integer and is none, a RecursionError for deep nesting.
  \<open>yw_repr\<close> is \<open>str\<close> of a value; \<open>yw_compose\<close> gives the root, if any; an error of \<open>model_validate\<close> has its
  location, type and message.
\<close>

datatype yaml_failure = YamlError string | YamlRaises string

record yaml_world =
  yw_decode :: "string \<Rightarrow> string + string"
  yw_safe_load :: "string \<Rightarrow> yaml_failure + pyval"
  yw_type :: "pyval \<Rightarrow> string"
  yw_repr :: "pyval \<Rightarrow> string"
  yw_compose :: "string \<Rightarrow> yaml_failure + nat option \<times> node_graph"
  yw_validate :: "(string \<times> pyval) list \<Rightarrow> (string list \<times> string \<times> string) list + workflow_def"

definition load_error :: "string \<Rightarrow> string \<Rightarrow> (string \<times> pyval) list \<Rightarrow> zerror" where
  "load_error file m d = \<lparr>err_class = ValidationError, message = ''workflow '' @ file @ '': '' @ m, details = d\<rparr>"

definition duplicate_problems :: "nat option \<times> node_graph \<Rightarrow> string list" where
  "duplicate_problems x = (case x of (Some n, g) \<Rightarrow> node_walk g [] [Visit n []] | (None, g) \<Rightarrow> [])"

definition reject_duplicate_mapping_keys :: "yaml_world \<Rightarrow> string \<Rightarrow> string \<Rightarrow> exn + unit" where
  "reject_duplicate_mapping_keys yw t file = (case yw_compose yw t of
     Inl (YamlError m) \<Rightarrow> Inr ()
   | Inl (YamlRaises m) \<Rightarrow> Inl (Python m)
   | Inr x \<Rightarrow> (let problems = duplicate_problems x in
       if problems \<noteq> [] then Inl (Zig (load_error file (join ''; '' problems) [])) else Inr ()))"

definition step_type_error :: "yaml_world \<Rightarrow> string \<times> pyval \<Rightarrow> string option" where
  "step_type_error yw x = (case x of
     (step, PDict members) \<Rightarrow> (let t = get_or (PStr ''agent'') members ''type'' in
        if t \<noteq> PStr ''agent''
        then Some (''steps.'' @ step @ ''.type: step type '' @ [CHR 0x27] @ yw_repr yw t @ [CHR 0x27]
          @ '' is not supported in schema version 1 (deferred post-MVP)'')
        else None)
   | _ \<Rightarrow> None)"

definition reject_non_agent_step_types :: "yaml_world \<Rightarrow> (string \<times> pyval) list \<Rightarrow> string \<Rightarrow> exn + unit" where
  "reject_non_agent_step_types yw data file = (case map_of data ''steps'' of
     Some (PDict steps) \<Rightarrow> (case List.map_filter (step_type_error yw) steps of
        [] \<Rightarrow> Inr () | m # _ \<Rightarrow> Inl (Zig (load_error file m [])))
   | _ \<Rightarrow> Inr ())"

definition model_error :: "string list \<times> string \<times> string \<Rightarrow> string" where
  "model_error e = (case e of (loc, type, msg) \<Rightarrow>
     (let path = (if join ''.'' loc = [] then ''<root>'' else join ''.'' loc) in
      path @ '': '' @ (if type = ''extra_forbidden'' then ''unknown key''
        else if path = ''version'' then ''schema version must be the literal 1'' else msg)))"

text \<open>\<open>Path.stem\<close> and \<open>Path.suffix\<close> of a last component: split at its last dot, unless that begins or ends it.\<close>

definition last_dot :: "string \<Rightarrow> nat option" where
  "last_dot name = (let tail = takeWhile (\<lambda>c. c \<noteq> CHR ''.'') (rev name); i = length name - length tail - 1 in
     if length tail < length name \<and> 0 < i \<and> tail \<noteq> [] then Some i else None)"

definition stem :: "string \<Rightarrow> string" where
  "stem name = (case last_dot name of None \<Rightarrow> name | Some i \<Rightarrow> take i name)"

definition suffix :: "string \<Rightarrow> string" where
  "suffix name = (case last_dot name of None \<Rightarrow> [] | Some i \<Rightarrow> drop i name)"

definition file_name :: "pth \<Rightarrow> string" where
  "file_name p = (if parts p = [] then [] else last (parts p))"

text \<open>\<open>load_workflow_bytes\<close>: of \<open>safe_load\<close> only a YAMLError is caught.\<close>

definition load_workflow_bytes :: "yaml_world \<Rightarrow> string \<Rightarrow> pth \<Rightarrow> exn + workflow_def" where
  "load_workflow_bytes yw content p = (let file = str_path p; invalid = (\<lambda>m d. Inl (Zig (load_error file m d))) in
     (case yw_decode yw content of
        Inl m \<Rightarrow> invalid (''unreadable: '' @ m) []
      | Inr t \<Rightarrow>
     (case yw_safe_load yw t of
        Inl (YamlError m) \<Rightarrow> invalid (''YAML parse error: '' @ m) []
      | Inl (YamlRaises m) \<Rightarrow> Inl (Python m)
      | Inr v \<Rightarrow>
     (case v of
        PDict data \<Rightarrow>
          bindE (reject_duplicate_mapping_keys yw t file) (\<lambda>_.
          bindE (reject_non_agent_step_types yw data file) (\<lambda>_.
          case yw_validate yw data of
            Inl errs \<Rightarrow> invalid (join ''; '' (map model_error errs)) []
          | Inr wd \<Rightarrow>
              if w_name wd \<noteq> stem (file_name p)
              then invalid (''name: '' @ py_repr (w_name wd) @ '' must match the filename stem ''
                     @ py_repr (stem (file_name p))) []
              else (case validate_templates wd of
                 Inl e \<Rightarrow> invalid (message e) (details e)
               | Inr _ \<Rightarrow> Inr wd)))
      | _ \<Rightarrow> invalid (''top-level YAML must be a mapping (got '' @ yw_type yw v @ '')'') []))))"

definition load_workflow :: "yaml_world \<Rightarrow> (pth \<Rightarrow> string + string) \<Rightarrow> pth \<Rightarrow> exn + workflow_def" where
  "load_workflow yw read p = (case read p of
     Inl m \<Rightarrow> Inl (Zig (load_error (str_path p) (''unreadable: '' @ m) []))
   | Inr content \<Rightarrow> load_workflow_bytes yw content p)"

section \<open>Discovery\<close>

definition SCOPE_PROJECT :: string where "SCOPE_PROJECT = ''project''"
definition SCOPE_USER :: string where "SCOPE_USER = ''user''"
definition WORKFLOW_SUFFIXES :: "string list" where "WORKFLOW_SUFFIXES = [''.yaml'', ''.yml'']"

definition NAME_RE :: re where "NAME_RE = ident_re is_alpha (\<lambda>c. is_word c \<or> c = CHR ''-'') (Some 63)"

record discovered_workflow =
  dw_name :: string
  dw_path :: pth
  dw_scope :: string
  dw_definition :: workflow_def

text \<open>
  The directories and files that a lookup meets. \<open>dv_listing\<close> is \<open>None\<close> for no directory, else the OSError of
  the listing or its entries, each with whether it is a file.
\<close>

record directory_view =
  dv_yaml :: yaml_world
  dv_read :: "pth \<Rightarrow> string + string"
  dv_listing :: "string \<Rightarrow> (string + (string \<times> bool) list) option"
  dv_is_file :: "pth \<Rightarrow> bool"
  dv_realpath :: fs
  dv_expanduser :: "string \<Rightarrow> string + string"
  dv_home :: string                          \<comment> \<open>\<open>ziggy_home()\<close>\<close>

definition user_workflows_dir :: "directory_view \<Rightarrow> string" where
  "user_workflows_dir dv = str_path (path_of (dv_home dv @ ''/workflows''))"

definition project_workflows_dir :: "string \<Rightarrow> string" where
  "project_workflows_dir workspace = str_path (path_of (workspace @ ''/.ziggy/workflows''))"

definition workflow_error :: "string \<Rightarrow> exn" where
  "workflow_error m = Zig \<lparr>err_class = ValidationError, message = m, details = []\<rparr>"

text \<open>\<open>_workflow_files\<close>: paths of one directory are sorted by their names.\<close>

definition workflow_files :: "directory_view \<Rightarrow> string \<Rightarrow> exn + pth list" where
  "workflow_files dv dir = (case dv_listing dv dir of
     None \<Rightarrow> Inr []
   | Some (Inl m) \<Rightarrow> Inl (Python m)
   | Some (Inr entries) \<Rightarrow> Inr (map (\<lambda>name. join_path (path_of dir) (path_of name))
       (sort (map fst (filter (\<lambda>(name, is_file). is_file \<and> suffix name \<in> set WORKFLOW_SUFFIXES) entries)))))"

definition loaded :: "directory_view \<Rightarrow> pth \<Rightarrow> exn + workflow_def" where
  "loaded dv p = load_workflow (dv_yaml dv) (dv_read dv) p"

definition duplicate_name :: "string \<Rightarrow> pth \<Rightarrow> pth \<Rightarrow> exn" where
  "duplicate_name name p1 p2 = workflow_error (''duplicate workflow name '' @ py_repr name @ '': '' @ str_path p1
     @ '' and '' @ str_path p2 @ '' (use a direct path to disambiguate)'')"

text \<open>The two loops of \<open>discover\<close>; \<open>found\<close> is a dictionary in the order of the insertions.\<close>

fun discover_files ::
  "directory_view \<Rightarrow> string \<Rightarrow> pth list \<Rightarrow> (string \<times> discovered_workflow) list \<Rightarrow> exn + (string \<times> discovered_workflow) list" where
  "discover_files dv scope [] found = Inr found"
| "discover_files dv scope (p # ps) found = bindE (loaded dv p) (\<lambda>wd.
     case map_of found (w_name wd) of
       Some other \<Rightarrow> Inl (duplicate_name (w_name wd) (dw_path other) p)
     | None \<Rightarrow> discover_files dv scope ps (found @ [(w_name wd, \<lparr>dw_name = w_name wd, dw_path = p, dw_scope = scope, dw_definition = wd\<rparr>)]))"

definition discover :: "directory_view \<Rightarrow> string \<Rightarrow> exn + (string \<times> discovered_workflow) list" where
  "discover dv workspace =
     bindE (workflow_files dv (project_workflows_dir workspace)) (\<lambda>ps.
     bindE (discover_files dv SCOPE_PROJECT ps []) (\<lambda>found.
     bindE (workflow_files dv (user_workflows_dir dv)) (\<lambda>us. discover_files dv SCOPE_USER us found)))"

definition not_found :: "directory_view \<Rightarrow> string \<Rightarrow> string \<Rightarrow> exn" where
  "not_found dv name workspace = workflow_error (''workflow '' @ py_repr name @ '' not found in ''
     @ project_workflows_dir workspace @ '' or '' @ user_workflows_dir dv)"

text \<open>\<open>_resolve_direct_path\<close>\<close>

definition contained_in :: "directory_view \<Rightarrow> string \<Rightarrow> string \<Rightarrow> (string \<times> pth) list" where
  "contained_in dv candidate workspace = List.map_filter
     (\<lambda>(scope, base). case resolve_contained (dv_realpath dv) base (py_repr candidate) candidate of
        Inl _ \<Rightarrow> None | Inr p \<Rightarrow> Some (scope, p))
     [(SCOPE_PROJECT, workspace), (SCOPE_USER, user_workflows_dir dv)]"

definition outside_bases :: "directory_view \<Rightarrow> string \<Rightarrow> string \<Rightarrow> exn" where
  "outside_bases dv raw workspace = workflow_error (''workflow path '' @ py_repr raw
     @ '' must resolve canonically inside the workspace ('' @ workspace @ '') or the user workflows directory (''
     @ user_workflows_dir dv @ '')'')"

definition resolve_direct_path :: "directory_view \<Rightarrow> string \<Rightarrow> string \<Rightarrow> exn + discovered_workflow" where
  "resolve_direct_path dv raw workspace = (case dv_expanduser dv raw of
     Inl m \<Rightarrow> Inl (Python m)
   | Inr candidate \<Rightarrow> (let contained = contained_in dv candidate workspace in
       if contained = [] then Inl (outside_bases dv raw workspace)
       else (case List.find (\<lambda>(scope, p). dv_is_file dv p) contained of
          None \<Rightarrow> Inl (workflow_error (''workflow file not found: '' @ str_path (snd (hd contained))))
        | Some (scope, p) \<Rightarrow> bindE (loaded dv p) (\<lambda>wd.
            Inr \<lparr>dw_name = w_name wd, dw_path = p, dw_scope = scope, dw_definition = wd\<rparr>))))"

text \<open>\<open>resolve\<close>\<close>

definition resolve_workflow :: "directory_view \<Rightarrow> string \<Rightarrow> string \<Rightarrow> exn + discovered_workflow" where
  "resolve_workflow dv name_or_path workspace =
     (if re_match NAME_RE name_or_path
      then bindE (discover dv workspace) (\<lambda>found. case map_of found name_or_path of
         None \<Rightarrow> Inl (not_found dv name_or_path workspace) | Some dw \<Rightarrow> Inr dw)
      else resolve_direct_path dv name_or_path workspace)"

end
