(* ===== verification/Plan_Execution.thy ===== *)
theory Plan_Execution
  imports Planning_Session Workflow_Run Child_Env Workflow_Files
begin

text \<open>
  \<open>orchestrator/execute.py\<close>: a valid plan becomes a graph of steps keyed by raw ids, which runs one step
  at a time like a workflow, its results keyed by \<open>execute/<id>\<close>. The disk is read again here, at
  execution time. What the two loops share is \<open>Workflow_Run\<close>.
\<close>

section \<open>What is prepared\<close>

definition EXECUTE_PREFIX :: string where "EXECUTE_PREFIX = ''execute/''"
definition PLAN_INPUT_SOURCE :: string where "PLAN_INPUT_SOURCE = ''plan''"
definition SINGLE_AGENT_NAME :: string where "SINGLE_AGENT_NAME = ''plan-single-agent''"
definition INLINE_NAME :: string where "INLINE_NAME = ''plan-inline''"
definition SINGLE_AGENT_STEP_ID :: string where "SINGLE_AGENT_STEP_ID = ''main''"

text \<open>\<open>ExecutionPlan\<close>; a \<open>PreparedExecutionStep\<close> is a prepared step under its raw id.\<close>

record execution_plan =
  ex_workflow :: workflow_def
  ex_variables :: "(string \<times> pyval) list"
  ex_order :: "string list"
  ex_steps :: "(string \<times> prepared_step) list"
  ex_records :: "egress_record list"

text \<open>
  The disk at execution time: \<open>xd_read\<close> gives the bytes of a file or the class name of the OSError, which
  \<open>load_workflow_bytes\<close> parses as they are.
\<close>

record execution_disk =
  xd_realpath :: fs
  xd_read :: "pth \<Rightarrow> string + string"
  xd_sha256 :: "string \<Rightarrow> string"
  xd_yaml :: yaml_world
  xd_user_dir :: string

section \<open>The workflow of a plan\<close>

definition trust_refused :: "string \<Rightarrow> string \<Rightarrow> zerror" where
  "trust_refused name m = \<lparr>err_class = TrustPolicyError, message = m, details = [(''workflow'', PStr name)]\<rparr>"

definition changed_after_catalog :: "string \<Rightarrow> zerror" where
  "changed_after_catalog name = trust_refused name (''trusted workflow '' @ py_repr name
     @ '' changed after the catalog was built (content hash no longer matches the trusted user pin); execution ''
     @ ''refused until the pin is re-approved'')"

text \<open>A typed error as an exception.\<close>

definition zig :: "zerror + 'a \<Rightarrow> exn + 'a" where
  "zig r = (case r of Inl e \<Rightarrow> Inl (Zig e) | Inr x \<Rightarrow> Inr x)"

text \<open>One pin, with the bases left to try; \<open>None\<close> goes on to the next pin. Only a ValidationError is caught.\<close>

fun reload_pin ::
  "execution_disk \<Rightarrow> catalog_workflow \<Rightarrow> string \<Rightarrow> string \<Rightarrow> string list \<Rightarrow> (exn + workflow_def) option" where
  "reload_pin xd entry content pin_path [] = None"
| "reload_pin xd entry content pin_path (base # bases) =
     (case resolve_contained (xd_realpath xd) base (py_repr pin_path) pin_path of
        Inl _ \<Rightarrow> reload_pin xd entry content pin_path bases
      | Inr p \<Rightarrow>
          if p \<noteq> cw_path entry then reload_pin xd entry content pin_path bases
          else (case load_workflow_bytes (xd_yaml xd) content p of
             Inl x \<Rightarrow> (case typed [ValidationError] x of
                 Some e \<Rightarrow> Some (Inl (Zig (trust_refused (cw_name entry) (''trusted workflow '' @ py_repr (cw_name entry)
                        @ '' failed to re-load at execution time: '' @ message e))))
               | None \<Rightarrow> Some (Inl x))
           | Inr wd \<Rightarrow> if w_name wd \<noteq> cw_name entry then None else Some (Inr wd)))"

fun reload_from ::
  "execution_disk \<Rightarrow> catalog_workflow \<Rightarrow> string \<Rightarrow> string list \<Rightarrow> trusted_workflow list \<Rightarrow> exn + workflow_def" where
  "reload_from xd entry content bases [] = Inl (Zig (changed_after_catalog (cw_name entry)))"
| "reload_from xd entry content bases (pin # pins) =
     (if lower_ascii (strip (tw_sha256 pin)) \<noteq> xd_sha256 xd content then reload_from xd entry content bases pins
      else (case reload_pin xd entry content (tw_path pin) bases of
         None \<Rightarrow> reload_from xd entry content bases pins
       | Some r \<Rightarrow> r))"

text \<open>\<open>_reverify_trusted_workflow\<close>\<close>

definition reverify_trusted_workflow ::
  "execution_disk \<Rightarrow> prepared_orchestration \<Rightarrow> catalog_workflow \<Rightarrow> exn + workflow_def" where
  "reverify_trusted_workflow xd og entry =
     (case xd_read xd (cw_path entry) of
        Inl cls \<Rightarrow> Inl (Zig (trust_refused (cw_name entry) (''trusted workflow '' @ py_repr (cw_name entry)
                     @ '' could not be re-read at execution time: '' @ cls)))
      | Inr content \<Rightarrow> reload_from xd entry content [og_workspace og, xd_user_dir xd]
          (oc_trusted_workflows (c_orchestrator (og_config og))))"

text \<open>\<open>_resolve_plan_variables\<close>: the problem or the value of one declared variable.\<close>

definition plan_variable :: "(string \<times> pyval) list \<Rightarrow> string \<times> variable_def \<Rightarrow> string list \<times> (string \<times> pyval) list" where
  "plan_variable provided x = (case x of (name, decl) \<Rightarrow>
     (case map_of provided name of
        Some v \<Rightarrow> (let n = int (utf8_len (value_to_text v)) in
          if v_max_bytes decl < n
          then ([''variables.'' @ name @ '': value is '' @ str_of_int n @ '' bytes (UTF-8); max_bytes is ''
                 @ str_of_int (v_max_bytes decl)], [])
          else ([], [(name, v)]))
      | None \<Rightarrow>
          if v_default decl \<noteq> PNone then ([], [(name, v_default decl)])
          else if v_required decl then ([''variables.'' @ name @ '': required variable not provided by the plan''], [])
          else ([], [])))"

definition unknown_plan_variables :: "workflow_def \<Rightarrow> (string \<times> pyval) list \<Rightarrow> string list" where
  "unknown_plan_variables wd provided =
     map (\<lambda>n. ''variables.'' @ n @ '': unknown variable (not declared by the workflow)'')
       (sorted_list_of_set (set (keys provided) - set (keys (w_variables wd))))"

definition resolve_plan_variables :: "workflow_def \<Rightarrow> (string \<times> pyval) list \<Rightarrow> zerror + (string \<times> pyval) list" where
  "resolve_plan_variables wd provided =
     (let declared = map (plan_variable provided) (w_variables wd) in
      bindE (raise_problems (unknown_plan_variables wd provided @ concat (map fst declared)))
        (\<lambda>_. Inr (concat (map snd declared))))"

text \<open>\<open>_inline_workflow\<close>: a dictionary from the ids; a graph the contract of workflows rejects is refused.\<close>

definition inline_step_def :: "inline_step \<Rightarrow> step_def" where
  "inline_step_def s = \<lparr>s_agent = i_agent s, s_prompt = i_prompt s,
     s_inputs = map (\<lambda>(n, source). (n, goal_source source)) (i_inputs s), s_depends_on = i_depends_on s,
     s_working_dir = None, s_timeout_seconds = None, s_policy_profile = None\<rparr>"

definition string_variable :: variable_def where
  "string_variable = \<lparr>v_type = TString, v_required = False, v_default = PNone, v_secret = False,
     v_max_bytes = 65536, v_description = None\<rparr>"

definition checked_graph :: "string \<Rightarrow> workflow_def \<Rightarrow> zerror + workflow_def" where
  "checked_graph what wd =
     (if workflow_def_ok wd then Inr wd else Inl (validation_error (what @ '': ValidationError'')))"

definition inline_workflow :: "inline_plan \<Rightarrow> zerror + workflow_def" where
  "inline_workflow ip = checked_graph ''inline plan could not be mapped to an executable step graph''
     \<lparr>w_name = INLINE_NAME, w_description = None, w_variables = [(''goal'', string_variable)],
      w_steps = fold (\<lambda>s. AList.update (i_id s) (inline_step_def s)) (ip_steps ip) []\<rparr>"

definition single_workflow :: "single_agent_plan \<Rightarrow> zerror + workflow_def" where
  "single_workflow sp = checked_graph ''single_agent plan could not be mapped to an executable step''
     \<lparr>w_name = SINGLE_AGENT_NAME, w_description = None, w_variables = [],
      w_steps = [(SINGLE_AGENT_STEP_ID, \<lparr>s_agent = sp_agent sp, s_prompt = sp_prompt sp, s_inputs = [], s_depends_on = [],
        s_working_dir = None, s_timeout_seconds = None, s_policy_profile = None\<rparr>)]\<rparr>"

definition not_in_catalog :: zerror where
  "not_in_catalog = \<lparr>err_class = TrustPolicyError, message = ''planned workflow is not in the trusted catalog'',
     details = [(''reason'', PStr ''not-in-catalog'')]\<rparr>"

definition too_many_steps :: "string \<Rightarrow> string \<Rightarrow> nat \<Rightarrow> int \<Rightarrow> zerror" where
  "too_many_steps what name n limit = \<lparr>err_class = ResourceLimitError,
     message = what @ '' '' @ py_repr name @ '' declares '' @ str_of_nat n @ '' steps; engine.max_workflow_steps is ''
       @ str_of_int limit,
     details = [(''step_count'', PInt (int n)), (''max_workflow_steps'', PInt limit)]\<rparr>"

definition within_step_limit :: "string \<Rightarrow> ziggy_config \<Rightarrow> workflow_def \<Rightarrow> zerror + workflow_def" where
  "within_step_limit what cfg wd =
     (let limit = max_workflow_steps (c_engine cfg) in
      if limit < int (length (w_steps wd)) then Inl (too_many_steps what (w_name wd) (length (w_steps wd)) limit) else Inr wd)"

text \<open>\<open>_plan_workflow\<close>\<close>

definition plan_workflow ::
  "execution_disk \<Rightarrow> prepared_orchestration \<Rightarrow> plan \<Rightarrow> exn + workflow_def \<times> (string \<times> pyval) list" where
  "plan_workflow xd og p =
     (case p of
        SingleAgentPlan sp \<Rightarrow> bindE (zig (single_workflow sp)) (\<lambda>wd. Inr (wd, []))
      | NamedWorkflowPlan np \<Rightarrow>
          (case map_of (rev (map (\<lambda>w. (cw_name w, w)) (cat_workflows (og_catalog og)))) (np_workflow_name np) of
             None \<Rightarrow> Inl (Zig not_in_catalog)
           | Some entry \<Rightarrow>
               bindE (reverify_trusted_workflow xd og entry) (\<lambda>wd.
               bindE (zig (within_step_limit ''trusted workflow'' (og_config og) wd)) (\<lambda>_.
               bindE (zig (resolve_plan_variables wd (np_variables np))) (\<lambda>vs. Inr (wd, vs)))))
      | InlineAgentWorkflowPlan ip \<Rightarrow> bindE (zig (inline_workflow ip)) (\<lambda>wd. Inr (wd, [(''goal'', PStr (og_goal og))])))"

section \<open>The policy of a step\<close>

definition unknown_profile :: "string \<Rightarrow> string \<Rightarrow> zerror" where
  "unknown_profile step name = \<lparr>err_class = ValidationError,
     message = ''steps.'' @ step @ ''.policy_profile: unknown policy profile '' @ py_repr name
       @ '' (profiles are defined in trusted user config under [permissions.profiles])'',
     details = [(''step_id'', PStr step), (''profile'', PStr name)]\<rparr>"

definition policy_dir_error :: "string \<Rightarrow> string option \<Rightarrow> path_ambiguity \<Rightarrow> zerror" where
  "policy_dir_error step d e = \<lparr>err_class = ValidationError,
     message = ''steps.'' @ step @ ''.working_dir: '' @ (case d of None \<Rightarrow> ''None'' | Some x \<Rightarrow> py_repr x)
       @ '' does not resolve canonically inside the workspace: '' @ pa_message e,
     details = [(''step_id'', PStr step), (''reason'', PStr (reason_text (pa_reason e)))]\<rparr>"

text \<open>\<open>engine/prepare.py _step_policy\<close>. An error of \<open>realpath\<close> on the workspace is no \<open>PathAmbiguity\<close>.\<close>

definition step_policy :: "fs \<Rightarrow> ziggy_config \<Rightarrow> string \<Rightarrow> string \<Rightarrow> step_def \<Rightarrow> exn + policy" where
  "step_policy realpath cfg workspace step sd =
     (let perms = c_permissions cfg;
          name = (case s_policy_profile sd of Some (c # cs) \<Rightarrow> c # cs | _ \<Rightarrow> pc_default_policy perms);
          profile = map_of (pc_profiles perms) name
      in if profile = None \<and> s_policy_profile sd \<notin> {None, Some GUARDED_POLICY_NAME}
         then Inl (Zig (unknown_profile step (the (s_policy_profile sd))))
         else (case guarded realpath workspace (case s_working_dir sd of Some d \<Rightarrow> d | None \<Rightarrow> workspace) profile
                      (map Configured (pc_project_denials perms)) [] (Some name) of
             Inr po \<Rightarrow> Inr po
           | Inl (RealpathRaises m) \<Rightarrow> Inl (Python m)
           | Inl (Ambiguous a) \<Rightarrow> Inl (Zig (policy_dir_error step (s_working_dir sd) a))))"

section \<open>The execution of a plan\<close>

definition prepare_execution_step ::
  "execution_disk \<Rightarrow> prepared_orchestration \<Rightarrow> string \<times> step_def \<Rightarrow> exn + string \<times> prepared_step" where
  "prepare_execution_step xd og x = (case x of (raw, sd) \<Rightarrow>
     bindE (zig (get_agent (og_registry og) (s_agent sd))) (\<lambda>ag.
     bindE (zig (compose_child_env ag (og_base_env og))) (\<lambda>(child, secrets).
     bindE (step_policy (xd_realpath xd) (og_config og) (og_workspace og) raw sd) (\<lambda>po.
       Inr (raw, \<lparr>ps_config = ag, ps_provider = step_provider ag, ps_env = child, ps_policy = po,
         ps_timeout = (case s_timeout_seconds sd of Some t \<Rightarrow> min (og_seconds og t) (og_timeout og) | None \<Rightarrow> og_timeout og)\<rparr>)))))"

fun prepare_all :: "('a \<Rightarrow> 'e + 'b) \<Rightarrow> 'a list \<Rightarrow> 'e + 'b list" where
  "prepare_all f [] = Inr []"
| "prepare_all f (x # xs) = bindE (f x) (\<lambda>y. bindE (prepare_all f xs) (\<lambda>ys. Inr (y # ys)))"

text \<open>\<open>wd\<close> has every id of the order, and \<open>steps\<close> every id of \<open>wd\<close>.\<close>

definition execution_record ::
  "workflow_def \<Rightarrow> (string \<times> prepared_step) list \<Rightarrow> string option \<Rightarrow> string \<Rightarrow> egress_record" where
  "execution_record wd steps acknowledged_by raw =
     \<lparr>er_step_id = EXECUTE_PREFIX @ raw, er_provider = ps_provider (the (map_of steps raw)),
      er_input_sources = PLAN_INPUT_SOURCE # filter (\<lambda>source. input_source_step source \<noteq> None)
        (map snd (s_inputs (the (map_of (w_steps wd) raw)))),
      er_acknowledged_by = acknowledged_by\<rparr>"

text \<open>\<open>build_execution\<close>\<close>

definition build_execution ::
  "execution_disk \<Rightarrow> prepared_orchestration \<Rightarrow> plan \<Rightarrow> string option \<Rightarrow> exn + execution_plan" where
  "build_execution xd og p acknowledged_by =
     bindE (plan_workflow xd og p) (\<lambda>(wd, vs).
     bindE (zig (validate_templates wd)) (\<lambda>_.
     bindE (zig (topo_order wd)) (\<lambda>order.
     bindE (prepare_all (prepare_execution_step xd og) (w_steps wd)) (\<lambda>steps.
     bindE (zig (check_secret_allowances wd (map (\<lambda>(raw, s). (raw, ps_provider s)) steps)
         (wc_secret_variable_allowances (c_workflows (og_config og))))) (\<lambda>_.
       Inr \<lparr>ex_workflow = wd, ex_variables = vs, ex_order = order, ex_steps = steps,
         ex_records = map (execution_record wd steps acknowledged_by) order\<rparr>)))))"

section \<open>The steps\<close>

definition step_key :: "string \<Rightarrow> string" where
  "step_key raw = EXECUTE_PREFIX @ raw"

text \<open>\<open>scaffold_step_results\<close>\<close>

definition scaffold_execution :: "execution_plan \<Rightarrow> (string \<times> step_result) list \<Rightarrow> (string \<times> step_result) list" where
  "scaffold_execution ex results = fold (\<lambda>raw. case map_of (w_steps (ex_workflow ex)) raw of
     None \<Rightarrow> id
   | Some sd \<Rightarrow> AList.update (step_key raw) (blank_step (step_key raw) (s_agent sd) Skipped (s_inputs sd))) (ex_order ex) results"

text \<open>\<open>_upstream_inputs\<close>\<close>

definition execution_inputs :: "step_def \<Rightarrow> (string \<times> step_result) list \<Rightarrow> (string \<times> string) list" where
  "execution_inputs sd results = concat (map (\<lambda>(local_name, source).
     case input_source_step source of
       None \<Rightarrow> []
     | Some src \<Rightarrow> [(local_name, case map_of results (step_key src) of Some r \<Rightarrow> output_text r | None \<Rightarrow> [])]) (s_inputs sd))"

definition execution_too_long :: "string \<Rightarrow> int \<Rightarrow> int \<Rightarrow> zerror" where
  "execution_too_long raw n limit = (prompt_too_long raw n limit)\<lparr>details :=
     [(''step_id'', PStr (step_key raw)), (''prompt_bytes'', PInt n), (''max_prompt_bytes'', PInt limit)]\<rparr>"

definition execution_compose ::
  "fs \<Rightarrow> prepared_orchestration \<Rightarrow> execution_plan \<Rightarrow> string \<Rightarrow> step_def \<Rightarrow> (string \<times> step_result) list
    \<Rightarrow> exn + pth \<times> (string \<times> string) list \<times> string" where
  "execution_compose realpath og ex raw sd results =
     bindE (resolve_step_dir realpath (og_workspace og) raw (s_working_dir sd)) (\<lambda>cwd.
     let upstream = execution_inputs sd results in
     bindE (zig (render_prompt sd (ex_variables ex) upstream None)) (\<lambda>prompt.
     let n = int (utf8_len prompt) in
     if og_max_prompt og < n then Inl (Zig (execution_too_long raw n (og_max_prompt og)))
     else Inr (cwd, upstream, prompt)))"

definition execution_deadline_error :: "setting \<Rightarrow> int \<Rightarrow> string option \<Rightarrow> zerror" where
  "execution_deadline_error w limit active = \<lparr>err_class = StepTimeoutError,
     message = ''execution deadline of '' @ se_seconds w limit @ ''s exceeded'',
     details = (''deadline_seconds'', PFloat (se_seconds w limit))
       # (case active of None \<Rightarrow> [] | Some step \<Rightarrow> [(''step_id'', PStr step)])\<rparr>"

definition execution_deadline_stop :: "setting \<Rightarrow> run_world \<Rightarrow> int deadline \<Rightarrow> string option \<Rightarrow> flow \<Rightarrow> flow eng" where
  "execution_deadline_stop w rn d active fl = (let e = execution_deadline_error w (timeout_seconds d) active in
     followed (run_error w e)
    (followed (run_log w rn None ''warning'' ''workflow_deadline_exceeded'' [(''reason_code'', PStr (error_code (err_class e)))])
      (ok (fl\<lparr>fl_errors := fl_errors fl @ [to_model e]\<rparr>))))"

text \<open>\<open>_propagate\<close>\<close>

definition execution_propagate ::
  "execution_plan \<Rightarrow> (string \<times> string list) list \<Rightarrow> string \<Rightarrow> flow \<Rightarrow> flow eng" where
  "execution_propagate ex edges raw fl = (case propagate_failure (ex_order ex) edges raw of
     None \<Rightarrow> raise (Python ''ValueError'')
   | Some marks \<Rightarrow> (case mark_statuses (map (\<lambda>(k, st). (step_key k, st)) marks) (fl_steps fl) of
       None \<Rightarrow> raise (Python ''KeyError'')
     | Some results \<Rightarrow> ok (fl\<lparr>fl_steps := results\<rparr>)))"

definition execution_context ::
  "flow_world \<Rightarrow> prepared_orchestration \<Rightarrow> int deadline \<Rightarrow> string \<Rightarrow> step_def \<Rightarrow> prepared_step \<Rightarrow> pth \<Rightarrow> string \<Rightarrow> step_context" where
  "execution_context fw og d raw sd pre cwd prompt = \<lparr>cx_step = step_key raw, cx_command = ag_command (ps_config pre),
     cx_args = ag_args (ps_config pre), cx_cwd = str_path cwd, cx_prompt = prompt,
     cx_timeout = clamp d (fw_clamp fw raw) (ps_timeout pre), cx_grace = og_grace og, cx_label = s_agent sd,
     cx_policy = Some (ps_policy pre), cx_cancellable = og_cancellable og, cx_attempt = 1, cx_override = og_override og\<rparr>"

definition execution_after ::
  "setting \<Rightarrow> run_world \<Rightarrow> flow_world \<Rightarrow> execution_plan \<Rightarrow> (string \<times> string list) list \<Rightarrow> int deadline \<Rightarrow> string
    \<Rightarrow> step_outcome \<Rightarrow> flow \<Rightarrow> (flow \<times> bool) eng" where
  "execution_after w rn fw ex edges d raw out fl =
     (if so_status out = Success then ok (fl, True)
      else if so_status out = Cancelled then ok (fl\<lparr>fl_cancelled := True\<rparr>, False)
      else andthen
        (if (case so_error out of Some e \<Rightarrow> err_class e = StepTimeoutError | None \<Rightarrow> False) \<and> exceeded d (fw_after fw raw)
         then execution_deadline_stop w rn d (Some (step_key raw)) fl else execution_propagate ex edges raw fl)
        (\<lambda>fl1. ok (fl1, False)))"

definition execution_launch ::
  "setting \<Rightarrow> run_world \<Rightarrow> flow_world \<Rightarrow> prepared_orchestration \<Rightarrow> execution_plan \<Rightarrow> (string \<times> string list) list \<Rightarrow> int deadline
    \<Rightarrow> string \<Rightarrow> step_def \<Rightarrow> prepared_step \<Rightarrow> step_result \<Rightarrow> pth \<Rightarrow> (string \<times> string) list \<Rightarrow> string \<Rightarrow> flow \<Rightarrow> (flow \<times> bool) eng" where
  "execution_launch w rn fw og ex edges d raw sd pre r cwd upstream prompt fl =
     andthen (execute_step w (execution_context fw og d raw sd pre cwd prompt) (rn_agent rn (step_key raw))) (\<lambda>out.
     andthen (settle_step_result r out (rn_attempt rn (step_key raw)) (s_agent sd) (Some (ps_provider pre))) (\<lambda>r1.
     andthen (resolved_inputs sd (ex_variables ex) upstream prompt) (\<lambda>ins.
     followed (step_finished w rn (step_key raw) (s_agent sd) (so_session_id out) ''info'' (so_status out)
         (fst (snd (rn_attempt rn (step_key raw)))))
       (execution_after w rn fw ex edges d raw out
         (with_result (step_key raw) (r1\<lparr>sr_inputs_resolved := ins\<rparr>) (fl\<lparr>fl_degraded := fl_degraded fl \<or> so_degraded out\<rparr>))))))"

definition execution_start ::
  "setting \<Rightarrow> run_world \<Rightarrow> flow_world \<Rightarrow> prepared_orchestration \<Rightarrow> execution_plan \<Rightarrow> (string \<times> string list) list \<Rightarrow> int deadline
    \<Rightarrow> string \<Rightarrow> flow \<Rightarrow> (flow \<times> bool) eng" where
  "execution_start w rn fw og ex edges d raw fl =
     (case (map_of (w_steps (ex_workflow ex)) raw, map_of (ex_steps ex) raw, map_of (fl_steps fl) (step_key raw)) of
        (Some sd, Some pre, Some r0) \<Rightarrow> (let r = r0\<lparr>sr_status := Failed\<rparr>; active = with_result (step_key raw) r fl in
          followed (emit_event w (event ''step_started'' (Some (step_key raw)) (Some 1) None
            [(''agent'', PStr (s_agent sd)), (''provider'', PStr (ps_provider pre)),
             (''prompt_origin'', PStr ''orchestrator-plan''), (''prompt_trust'', PStr ''untrusted-model-output'')]))
          (andthen (attempt_of (typed [ValidationError, ResourceLimitError])
              (lift (execution_compose (fw_realpath fw) og ex raw sd (fl_steps active)))) (\<lambda>c. case c of
             Inl e \<Rightarrow> andthen (fail_before_launch w rn (step_key raw) (s_agent sd) r e) (\<lambda>r1.
               andthen (execution_propagate ex edges raw (with_result (step_key raw) r1 fl)) (\<lambda>fl1. ok (fl1, False)))
           | Inr (cwd, upstream, prompt) \<Rightarrow>
               execution_launch w rn fw og ex edges d raw sd pre r cwd upstream prompt active)))
      | _ \<Rightarrow> raise (Python ''KeyError''))"

definition execution_next ::
  "setting \<Rightarrow> run_world \<Rightarrow> flow_world \<Rightarrow> prepared_orchestration \<Rightarrow> execution_plan \<Rightarrow> (string \<times> string list) list \<Rightarrow> int deadline
    \<Rightarrow> string \<Rightarrow> flow \<Rightarrow> (flow \<times> bool) eng" where
  "execution_next w rn fw og ex edges d raw fl =
     (if og_cancellable og \<and> fw_cancel fw raw
      then followed (run_event w ''cancel_requested'' [(''reason'', PStr ''cancel''), (''scope'', PStr ''orchestrator-execution'')])
        (ok (fl\<lparr>fl_cancelled := True\<rparr>, False))
      else if exceeded d (fw_before fw raw)
      then andthen (execution_deadline_stop w rn d None fl) (\<lambda>fl1. ok (fl1, False))
      else execution_start w rn fw og ex edges d raw fl)"

primrec execution_pending ::
  "setting \<Rightarrow> run_world \<Rightarrow> flow_world \<Rightarrow> prepared_orchestration \<Rightarrow> execution_plan \<Rightarrow> (string \<times> string list) list \<Rightarrow> int deadline
    \<Rightarrow> string list \<Rightarrow> flow \<Rightarrow> flow eng" where
  "execution_pending w rn fw og ex edges d [] fl = ok fl"
| "execution_pending w rn fw og ex edges d (raw # pending) fl =
     andthen (execution_next w rn fw og ex edges d raw fl) (\<lambda>x.
       if snd x then execution_pending w rn fw og ex edges d pending (fst x) else ok (fst x))"

text \<open>\<open>run_execution\<close>; the flow begins with the results that \<open>run_orchestration\<close> has.\<close>

definition run_execution ::
  "setting \<Rightarrow> run_world \<Rightarrow> flow_world \<Rightarrow> prepared_orchestration \<Rightarrow> execution_plan \<Rightarrow> flow \<Rightarrow> flow eng" where
  "run_execution w rn fw og ex fl =
     (case step_edges (ex_workflow ex) of
        Inl e \<Rightarrow> raise (Zig e)
      | Inr edges \<Rightarrow> execution_pending w rn fw og ex edges (new_deadline (og_deadline og) (fw_started fw)) (ex_order ex) fl)"

end
