(* ===== verification/Execution_Safety.thy ===== *)
theory Execution_Safety
  imports Plan_Execution Plan_Authority Step_Guarantees Recorder_Facts
begin

text \<open>
  What an execution is built from: the workflow file is the pinned one at that moment, and the providers
  of its steps are those the egress gate saw, unless the file changed since validation.
\<close>

section \<open>The pinned file\<close>

definition pin_matches :: "execution_disk \<Rightarrow> prepared_orchestration \<Rightarrow> catalog_workflow \<Rightarrow> string \<Rightarrow> trusted_workflow \<Rightarrow> bool" where
  "pin_matches xd og entry content pin \<longleftrightarrow> lower_ascii (strip (tw_sha256 pin)) = xd_sha256 xd content
     \<and> (\<exists>base \<in> {og_workspace og, xd_user_dir xd}.
          resolve_contained (xd_realpath xd) base (py_repr (tw_path pin)) (tw_path pin) = Inr (cw_path entry))"

text \<open>A typed error of a load is a ValidationError.\<close>

lemma load_bytes_Inl:
  "load_workflow_bytes yw content p = Inl x \<Longrightarrow> (\<exists>e. x = Zig e \<and> err_class e = ValidationError) \<or> (\<exists>m. x = Python m)"
  by (auto simp: load_workflow_bytes_def Let_def bindE_def reject_duplicate_mapping_keys_def reject_non_agent_step_types_def
      load_error_def split: sum.splits pyval.splits if_splits option.splits list.splits yaml_failure.splits)

lemma reload_pin_Inr:
  "reload_pin xd entry content path bases = Some (Inr wd) \<Longrightarrow>
     (\<exists>base \<in> set bases. resolve_contained (xd_realpath xd) base (py_repr path) path = Inr (cw_path entry))
     \<and> load_workflow_bytes (xd_yaml xd) content (cw_path entry) = Inr wd \<and> w_name wd = cw_name entry"
  by (induction bases) (auto split: sum.splits if_splits option.splits)

lemma reload_pin_Inl:
  "reload_pin xd entry content path bases = Some (Inl x) \<Longrightarrow>
     (\<exists>e. x = Zig e \<and> err_class e = TrustPolicyError)
     \<or> (\<exists>m. x = Python m \<and> load_workflow_bytes (xd_yaml xd) content (cw_path entry) = Inl x
        \<and> (\<exists>base \<in> set bases. resolve_contained (xd_realpath xd) base (py_repr path) path = Inr (cw_path entry)))"
  by (induction bases) (auto simp: trust_refused_def typed_def dest: load_bytes_Inl split: sum.splits if_splits option.splits exn.splits)

lemma reload_pin_good:
  assumes "load_workflow_bytes (xd_yaml xd) content (cw_path entry) = Inr wd" and "w_name wd = cw_name entry"
    and "\<exists>base \<in> set bases. resolve_contained (xd_realpath xd) base (py_repr path) path = Inr (cw_path entry)"
  shows "reload_pin xd entry content path bases = Some (Inr wd)"
  using assms(3) by (induction bases) (auto simp: assms(1,2) split: sum.splits if_splits)

lemma reload_pin_only:
  "load_workflow_bytes (xd_yaml xd) content (cw_path entry) = Inr wd \<Longrightarrow> w_name wd = cw_name entry \<Longrightarrow>
     reload_pin xd entry content path bases \<in> {None, Some (Inr wd)}"
  by (induction bases) (auto split: sum.splits if_splits)

text \<open>The bytes that a pin of the configuration answers for, as they load.\<close>

definition pinned_load :: "execution_disk \<Rightarrow> prepared_orchestration \<Rightarrow> catalog_workflow \<Rightarrow> exn + workflow_def \<Rightarrow> bool" where
  "pinned_load xd og entry r \<longleftrightarrow> (\<exists>content pin. xd_read xd (cw_path entry) = Inr content
     \<and> pin \<in> set (oc_trusted_workflows (c_orchestrator (og_config og))) \<and> pin_matches xd og entry content pin
     \<and> load_workflow_bytes (xd_yaml xd) content (cw_path entry) = r)"

definition pin_hit :: "execution_disk \<Rightarrow> catalog_workflow \<Rightarrow> string \<Rightarrow> string list \<Rightarrow> trusted_workflow \<Rightarrow> bool" where
  "pin_hit xd entry content bases pin \<longleftrightarrow> lower_ascii (strip (tw_sha256 pin)) = xd_sha256 xd content
     \<and> (\<exists>base \<in> set bases. resolve_contained (xd_realpath xd) base (py_repr (tw_path pin)) (tw_path pin) = Inr (cw_path entry))"

lemma reload_from_cases:
  "case reload_from xd entry content bases pins of
     Inl x \<Rightarrow> (\<exists>e. x = Zig e \<and> err_class e = TrustPolicyError)
       \<or> (\<exists>m. x = Python m \<and> load_workflow_bytes (xd_yaml xd) content (cw_path entry) = Inl x
            \<and> (\<exists>pin \<in> set pins. pin_hit xd entry content bases pin))
   | Inr wd \<Rightarrow> load_workflow_bytes (xd_yaml xd) content (cw_path entry) = Inr wd \<and> w_name wd = cw_name entry
       \<and> (\<exists>pin \<in> set pins. pin_hit xd entry content bases pin)"
proof (induction pins)
  case (Cons pin pins)
  show ?case
  proof (cases "lower_ascii (strip (tw_sha256 pin)) = xd_sha256 xd content")
    case True
    show ?thesis
    proof (cases "reload_pin xd entry content (tw_path pin) bases")
      case None
      with Cons True show ?thesis by (auto split: sum.splits)
    next
      case (Some r)
      with True reload_pin_Inr[of xd entry content "tw_path pin" bases] reload_pin_Inl[of xd entry content "tw_path pin" bases]
      show ?thesis by (cases r) (auto simp: pin_hit_def)
    qed
  qed (use Cons in \<open>auto split: sum.splits\<close>)
qed (simp add: changed_after_catalog_def trust_refused_def)

lemma reload_from_good:
  assumes "load_workflow_bytes (xd_yaml xd) content (cw_path entry) = Inr wd" and "w_name wd = cw_name entry"
    and "\<exists>pin \<in> set pins. pin_hit xd entry content bases pin"
  shows "reload_from xd entry content bases pins = Inr wd"
  using assms(3)
proof (induction pins)
  case (Cons pin pins)
  show ?case
  proof (cases "pin_hit xd entry content bases pin")
    case True
    with reload_pin_good[OF assms(1,2), of bases "tw_path pin"] show ?thesis by (simp add: pin_hit_def)
  next
    case False
    with Cons have "reload_from xd entry content bases pins = Inr wd" by auto
    with reload_pin_only[OF assms(1,2), of "tw_path pin" bases] show ?thesis by auto
  qed
qed simp

lemma pin_matches_hit: "pin_matches xd og entry content pin \<longleftrightarrow> pin_hit xd entry content [og_workspace og, xd_user_dir xd] pin"
  by (simp add: pin_matches_def pin_hit_def)

lemma reverify_Inr_iff:
  "reverify_trusted_workflow xd og entry = Inr wd \<longleftrightarrow> pinned_load xd og entry (Inr wd) \<and> w_name wd = cw_name entry"
proof
  let ?bases = "[og_workspace og, xd_user_dir xd]" and ?pins = "oc_trusted_workflows (c_orchestrator (og_config og))"
  assume r: "reverify_trusted_workflow xd og entry = Inr wd"
  then obtain content where c: "xd_read xd (cw_path entry) = Inr content" "reload_from xd entry content ?bases ?pins = Inr wd"
    by (auto simp: reverify_trusted_workflow_def split: sum.splits)
  with reload_from_cases[of xd content entry ?pins ?bases] show "pinned_load xd og entry (Inr wd) \<and> w_name wd = cw_name entry"
    by (auto simp: pinned_load_def pin_matches_hit)
next
  let ?bases = "[og_workspace og, xd_user_dir xd]" and ?pins = "oc_trusted_workflows (c_orchestrator (og_config og))"
  assume "pinned_load xd og entry (Inr wd) \<and> w_name wd = cw_name entry"
  then obtain content where c: "xd_read xd (cw_path entry) = Inr content" "load_workflow_bytes (xd_yaml xd) content (cw_path entry) = Inr wd"
    "w_name wd = cw_name entry" and h: "\<exists>pin \<in> set ?pins. pin_hit xd entry content ?bases pin"
    by (auto simp: pinned_load_def pin_matches_hit)
  from reload_from_good[OF c(2,3) h] c(1) show "reverify_trusted_workflow xd og entry = Inr wd"
    by (simp add: reverify_trusted_workflow_def)
qed

lemma reverify_Inl:
  assumes "reverify_trusted_workflow xd og entry = Inl x"
  shows "(\<exists>e. x = Zig e \<and> err_class e = TrustPolicyError) \<or> (\<exists>m. x = Python m \<and> pinned_load xd og entry (Inl x))"
proof -
  let ?bases = "[og_workspace og, xd_user_dir xd]" and ?pins = "oc_trusted_workflows (c_orchestrator (og_config og))"
  show ?thesis
  proof (cases "xd_read xd (cw_path entry)")
    case (Inl cls)
    with assms show ?thesis by (auto simp: reverify_trusted_workflow_def trust_refused_def)
  next
    case (Inr content)
    with assms reload_from_cases[of xd content entry ?pins ?bases] show ?thesis
      by (auto simp: reverify_trusted_workflow_def pinned_load_def pin_matches_hit)
  qed
qed

lemma reverify_Inr:
  assumes "reverify_trusted_workflow xd og entry = Inr wd"
  shows "w_name wd = cw_name entry \<and> (\<exists>content. xd_read xd (cw_path entry) = Inr content
    \<and> load_workflow_bytes (xd_yaml xd) content (cw_path entry) = Inr wd)"
  using assms unfolding reverify_Inr_iff by (auto simp: pinned_load_def)

section \<open>The providers of the steps\<close>

lemma prepare_all_Inr: "prepare_all f xs = Inr ys \<Longrightarrow> y \<in> set ys \<Longrightarrow> \<exists>x \<in> set xs. f x = Inr y"
  by (induction f xs arbitrary: ys rule: prepare_all.induct) (auto simp: bindE_eq_Inr)

lemma zig_Inr [simp]: "zig r = Inr x \<longleftrightarrow> r = Inr x"
  by (cases r) (simp_all add: zig_def)

lemma prepared_provider:
  "prepare_execution_step xd og (raw', sd) = Inr (raw, pre) \<Longrightarrow> raw' = raw \<and> provider_of (og_registry og) (s_agent sd) = Some (ps_provider pre)"
  by (auto simp: prepare_execution_step_def bindE_eq_Inr provider_of_def)

lemma build_execution_Inr:
  assumes "build_execution xd og p ack = Inr ex"
  shows "\<exists>wd vs. plan_workflow xd og p = Inr (wd, vs) \<and> ex_workflow ex = wd \<and> topo_order wd = Inr (ex_order ex)
    \<and> prepare_all (prepare_execution_step xd og) (w_steps wd) = Inr (ex_steps ex)"
  using assms unfolding build_execution_def by (auto simp: bindE_eq_Inr)

lemma inline_steps:
  assumes "(raw, sd) \<in> set (fold (\<lambda>s. AList.update (i_id s) (inline_step_def s)) ss acc)"
  shows "(raw, sd) \<in> set acc \<or> (\<exists>s \<in> set ss. sd = inline_step_def s)"
  using assms
proof (induction ss arbitrary: acc)
  case (Cons s ss)
  from Cons.IH[of "AList.update (i_id s) (inline_step_def s) acc"] Cons.prems
  have "(raw, sd) \<in> set (AList.update (i_id s) (inline_step_def s) acc) \<or> (\<exists>s \<in> set ss. sd = inline_step_def s)" by simp
  with set_update_subset[of "i_id s" "inline_step_def s" acc] show ?case by auto
qed simp

lemma crossing_set_planner:
  "(Some planner, Some q) \<in> set pairs \<Longrightarrow> q = planner \<or> {planner, q} \<subseteq> crossing_set pairs"
  by (auto simp: crossing_set_member)

text \<open>The workflow that validation and execution see is the same.\<close>

definition unchanged :: "execution_disk \<Rightarrow> prepared_orchestration \<Rightarrow> disk \<Rightarrow> bool" where
  "unchanged xd og dk \<longleftrightarrow> (\<forall>entry \<in> set (cat_workflows (og_catalog og)). \<forall>wd.
     reverify_trusted_workflow xd og entry = Inr wd \<longrightarrow> dk_load dk (cw_path entry) = Inr wd)"

lemma checked_graph_Inr: "checked_graph what wd = Inr wd' \<longleftrightarrow> wd' = wd \<and> workflow_def_ok wd"
  by (auto simp: checked_graph_def)

lemma plan_step_provider:
  assumes w: "plan_workflow xd og p = Inr (wd, vs)" and u: "unchanged xd og (pl_disk pl)"
    and sd: "(raw, sd) \<in> set (w_steps wd)" and q: "provider_of (og_registry og) (s_agent sd) = Some q"
  shows "q = og_provider og \<or> {og_provider og, q} \<subseteq> vr_provider_set (judge_plan og pl p)"
proof (cases p)
  case (SingleAgentPlan sp)
  then show ?thesis
    using w sd q
    by (auto simp: plan_workflow_def single_workflow_def checked_graph_Inr bindE_eq_Inr judge_plan_def validate_plan_def
        plan_provider_set_def shape_errors_def Let_def crossing_set_member)
next
  case (NamedWorkflowPlan np)
  obtain entry where e: "map_of (rev (map (\<lambda>w. (cw_name w, w)) (cat_workflows (og_catalog og)))) (np_workflow_name np) = Some entry"
    and r: "reverify_trusted_workflow xd og entry = Inr wd"
    using w NamedWorkflowPlan by (auto simp: plan_workflow_def bindE_eq_Inr split: option.splits)
  have "entry \<in> set (cat_workflows (og_catalog og))" using map_of_SomeD[OF e] by auto
  with u r have l: "dk_load (pl_disk pl) (cw_path entry) = Inr wd" by (auto simp: unchanged_def)
  have v: "vr_provider_set (judge_plan og pl p) = (case required_provider_set wd (og_registry og) of Inl e \<Rightarrow> {} | Inr S \<Rightarrow> S)
      \<union> crossing_set (map (\<lambda>(sid, s). (Some (og_provider og), provider_of (og_registry og) (s_agent s))) (w_steps wd))"
    by (simp add: NamedWorkflowPlan judge_plan_def validate_plan_def shape_errors_def validate_named_workflow_def e
        load_trusted_workflow_def l plan_provider_set_def Let_def split: sum.splits)
  have "(Some (og_provider og), Some q) \<in> set (map (\<lambda>(sid, s). (Some (og_provider og), provider_of (og_registry og) (s_agent s))) (w_steps wd))"
    using sd q by force
  from crossing_set_planner[OF this] v show ?thesis by auto
next
  case (InlineAgentWorkflowPlan ip)
  have "\<exists>s \<in> set (ip_steps ip). sd = inline_step_def s"
    using w sd InlineAgentWorkflowPlan inline_steps[of raw sd "ip_steps ip" "[]"]
    by (auto simp: plan_workflow_def inline_workflow_def checked_graph_Inr bindE_eq_Inr)
  then obtain s where s: "s \<in> set (ip_steps ip)" "s_agent sd = i_agent s" by (auto simp: inline_step_def_def)
  have v: "vr_provider_set (judge_plan og pl p) = crossing_set (map (\<lambda>s. (Some (og_provider og), provider_of (og_registry og) (i_agent s))) (ip_steps ip)
      @ inline_pairs (og_registry og) (ip_steps ip))"
    by (simp add: InlineAgentWorkflowPlan judge_plan_def validate_plan_def shape_errors_def plan_provider_set_def Let_def)
  have "(Some (og_provider og), Some q) \<in> set (map (\<lambda>s. (Some (og_provider og), provider_of (og_registry og) (i_agent s))) (ip_steps ip)
      @ inline_pairs (og_registry og) (ip_steps ip))"
    using s q by force
  from crossing_set_planner[OF this] v show ?thesis by auto
qed

section \<open>Properties\<close>


text \<open>C25: an agent of an executed plan has the planner's provider, or both providers are in the set that the
  egress gate asked to be acknowledged, provided that a workflow of the catalog is read at the execution
  as it was read at the validation.\<close>

theorem execution_stays_within_gated_providers:
  assumes "build_execution xd og p ack = Inr ex" and "unchanged xd og (pl_disk pl)" and "(raw, pre) \<in> set (ex_steps ex)"
  shows "ps_provider pre = og_provider og \<or> {og_provider og, ps_provider pre} \<subseteq> vr_provider_set (judge_plan og pl p)"
proof -
  obtain wd vs where w: "plan_workflow xd og p = Inr (wd, vs)" "prepare_all (prepare_execution_step xd og) (w_steps wd) = Inr (ex_steps ex)"
    using build_execution_Inr[OF assms(1)] by blast
  obtain raw' sd where "(raw', sd) \<in> set (w_steps wd)" "prepare_execution_step xd og (raw', sd) = Inr (raw, pre)"
    using prepare_all_Inr[OF w(2) assms(3)] by auto
  with prepared_provider[of xd og raw' sd raw pre] plan_step_provider[OF w(1) assms(2)] show ?thesis by auto
qed

section \<open>Concrete executions\<close>

text \<open>A workflow with two pinned versions, the second for an agent of another provider than the planner's.\<close>

definition one_agent_flow :: "string \<Rightarrow> workflow_def" where
  "one_agent_flow agent = plain_workflow [(''s'', plain_step agent [] [])]"

definition pinned_config :: ziggy_config where
  "pinned_config = default_config\<lparr>c_orchestrator := (c_orchestrator default_config)\<lparr>oc_trusted_workflows :=
     [\<lparr>tw_path = ''demo.yaml'', tw_sha256 = ''a1''\<rparr>, \<lparr>tw_path = ''demo.yaml'', tw_sha256 = ''b2''\<rparr>]\<rparr>\<rparr>"

definition pinned_catalog :: catalog where
  "pinned_catalog = \<lparr>cat_agents = [\<lparr>ca_name = ''codex'', ca_provider = ''openai'', ca_capability_line = []\<rparr>],
     cat_workflows = [\<lparr>cw_name = ''demo'', cw_description = [], cw_variables = [], cw_path = path_of ''/w/demo.yaml''\<rparr>],
     cat_warnings = []\<rparr>"

definition demo_orchestration :: prepared_orchestration where
  "demo_orchestration = \<lparr>og_config = pinned_config, og_registry = BUILTIN_AGENTS,
     og_planner = the (map_of BUILTIN_AGENTS ''claude''), og_provider = ''anthropic'', og_catalog = pinned_catalog,
     og_goal = ''g'', og_meta_prompt = ''m'', og_workspace = ''/w'', og_plan_only = False, og_auto_execute = True,
     og_uncontained = True, og_lease_first = True, og_env = [], og_acknowledge = None, og_base_env = [],
     og_profile = Standard, og_no_save = True, og_limits = rc_limits demo_recorder, og_fingerprint = None,
     og_provenance = \<lparr>pp_policy_name = ''guarded'', pp_ceiling_source = ''default'', pp_rules = [], pp_tightened_by = [], pp_enforcement = ''advisory'',
       pp_enforcement_scope_default = AgentReported\<rparr>,
     og_secrets = [], og_patterns = [], og_timeout = 60, og_deadline = 100, og_grace = 5, og_max_prompt = 1000, og_seconds = id,
     og_has_render = False, og_cancellable = True, og_override = False\<rparr>"

definition demo_planning :: "string \<Rightarrow> plan_world" where
  "demo_planning agent = \<lparr>pl_temp = Inr ''/t'', pl_realpath = Inr, pl_agent = demo_agent, pl_repair = aw_turn demo_agent,
     pl_loads = (\<lambda>t. JDecodeError ''x''), pl_check = (\<lambda>t. Inl []),
     pl_disk = \<lparr>dk_realpath = Inr, dk_read = (\<lambda>p. Inr ''x''), dk_sha256 = (\<lambda>c. ''a1''),
       dk_load = (\<lambda>p. Inr (one_agent_flow agent)), dk_user_dir = ''/u''\<rparr>\<rparr>"

definition demo_yaml :: yaml_world where
  "demo_yaml = \<lparr>yw_decode = Inr, yw_safe_load = (\<lambda>t. Inr (PDict [])), yw_type = (\<lambda>v. ''dict''), yw_repr = (\<lambda>v. []),
     yw_compose = (\<lambda>t. Inl (YamlError [])), yw_validate = (\<lambda>data. Inr (one_agent_flow ''codex''))\<rparr>"

definition second_version :: execution_disk where
  "second_version = \<lparr>xd_realpath = Inr, xd_read = (\<lambda>p. Inr ''x''), xd_sha256 = (\<lambda>c. ''b2''),
     xd_yaml = demo_yaml, xd_user_dir = ''/u''\<rparr>"

definition demo_plan :: plan where
  "demo_plan = NamedWorkflowPlan \<lparr>np_rationale = [], np_workflow_name = ''demo'', np_variables = []\<rparr>"

text \<open>The check of the pin at the execution does not tie the file to the one that was validated. With two
  pinned versions of a workflow, a plan validated against the first crosses no provider and needs no
  acknowledgement; if the file is replaced by the second before the execution, the agents of the second
  run, here one of another provider than the planner's.\<close>

lemma repinned_workflow_escapes_the_gate:
  "valid (judge_plan demo_orchestration (demo_planning ''claude'') demo_plan)
   \<and> vr_provider_set (judge_plan demo_orchestration (demo_planning ''claude'') demo_plan) = {}
   \<and> (case build_execution second_version demo_orchestration demo_plan None of
        Inl e \<Rightarrow> False
      | Inr ex \<Rightarrow> map (\<lambda>(raw, pre). (raw, ps_provider pre)) (ex_steps ex) = [(''s'', ''openai'')]
          \<and> og_provider demo_orchestration = ''anthropic'')"
  by code_simp

theorem gated_providers_witness:
  "\<exists>ex raw pre. build_execution second_version demo_orchestration demo_plan None = Inr ex \<and> (raw, pre) \<in> set (ex_steps ex)
     \<and> {''anthropic'', ''openai''} \<subseteq> vr_provider_set (judge_plan demo_orchestration (demo_planning ''codex'') demo_plan)"
proof -
  have "case build_execution second_version demo_orchestration demo_plan None of
      Inl e \<Rightarrow> False | Inr ex \<Rightarrow> map (\<lambda>(raw, pre). (raw, ps_provider pre)) (ex_steps ex) = [(''s'', ''openai'')]"
    by code_simp
  then obtain ex where ex: "build_execution second_version demo_orchestration demo_plan None = Inr ex"
    "map (\<lambda>(raw, pre). (raw, ps_provider pre)) (ex_steps ex) = [(''s'', ''openai'')]" by (auto split: sum.splits)
  from ex(2) obtain raw pre where pre: "(raw, pre) \<in> set (ex_steps ex)" "ps_provider pre = ''openai''" by auto
  have u: "unchanged second_version demo_orchestration (pl_disk (demo_planning ''codex''))"
  proof -
    have "wd = one_agent_flow ''codex''" if "load_workflow_bytes demo_yaml content q = Inr wd" for content q wd
      using that by (auto simp: load_workflow_bytes_def Let_def demo_yaml_def bindE_eq_Inr split: sum.splits if_splits)
    then show ?thesis
      unfolding unchanged_def using reverify_Inr by (fastforce simp: second_version_def demo_planning_def)
  qed
  have "og_provider demo_orchestration = ''anthropic''" by (simp add: demo_orchestration_def)
  with execution_stays_within_gated_providers[OF ex(1) u pre(1)] pre(2)
  have "{''anthropic'', ''openai''} \<subseteq> vr_provider_set (judge_plan demo_orchestration (demo_planning ''codex'') demo_plan)" by simp
  with ex(1) pre(1) show ?thesis by blast
qed

end
