(* ===== verification/Orchestration.thy ===== *)
theory Orchestration
  imports Plan_Execution
begin

text \<open>
  \<open>orchestrator/planner.py run_orchestration\<close>: planning, validation, the egress gate and the execution of
  a valid plan, in one run. The workspace lease is held from before the planner's launch when the planner
  is uncontained, else for the execution only.
\<close>

section \<open>What the run changes\<close>

record orchestration =
  oh_flow :: flow
  oh_fatal :: bool
  oh_validation :: plan_validation
  oh_plan :: "plan option"
  oh_egress :: "egress_record list"

definition blank_validation :: plan_validation where
  "blank_validation = \<lparr>pv_attempt_count = 1, pv_repair_requested = False, pv_errors = [], pv_valid = False\<rparr>"

definition plan_sources :: "string list" where "plan_sources = [''goal'', ''catalog'']"

definition plan_egress :: "prepared_orchestration \<Rightarrow> string option \<Rightarrow> egress_record" where
  "plan_egress og ack = \<lparr>er_step_id = PLAN_STEP_ID, er_provider = og_provider og, er_input_sources = plan_sources,
     er_acknowledged_by = ack\<rparr>"

definition blank_plan_step :: "prepared_orchestration \<Rightarrow> step_result" where
  "blank_plan_step og = blank_step PLAN_STEP_ID (ag_name (og_planner og)) Skipped (map (\<lambda>s. (s, s)) plan_sources)"

definition blank_orchestration :: "prepared_orchestration \<Rightarrow> typed_error list \<Rightarrow> orchestration" where
  "blank_orchestration og errs = \<lparr>oh_flow = \<lparr>fl_steps = [(PLAN_STEP_ID, blank_plan_step og)], fl_errors = errs,
       fl_cancelled = False, fl_degraded = False\<rparr>,
     oh_fatal = False, oh_validation = blank_validation, oh_plan = None, oh_egress = [plan_egress og None]\<rparr>"

definition blank_orchestration_result :: "run_world \<Rightarrow> prepared_orchestration \<Rightarrow> run_result" where
  "blank_orchestration_result rn og = \<lparr>rr_run_id = rn_id rn, rr_kind = KOrchestrator, rr_target = ag_name (og_planner og),
     rr_status = RunFailed, rr_started_at = rn_started rn, rr_ended_at = None, rr_duration_ms = None,
     rr_workspace = og_workspace og, rr_capture_profile = og_profile og, rr_persisted = False,
     rr_config_fingerprint = og_fingerprint og, rr_policy = Some (og_provenance og), rr_steps = [],
     rr_plan = None, rr_plan_validation = None, rr_errors = [], rr_capture = [],
     rr_redaction = \<lparr>rs_total = 0, rs_by_kind = [], rs_warnings = []\<rparr>, rr_egress = [], rr_usage = None,
     rr_result_path = None, rr_events_path = None\<rparr>"

text \<open>An error of the run, recorded and kept, that stops it from succeeding.\<close>

definition fatal :: "typed_error \<Rightarrow> orchestration \<Rightarrow> orchestration" where
  "fatal e oh = oh\<lparr>oh_flow := (oh_flow oh)\<lparr>fl_errors := fl_errors (oh_flow oh) @ [e]\<rparr>, oh_fatal := True\<rparr>"

definition with_plan_step :: "step_result \<Rightarrow> orchestration \<Rightarrow> orchestration" where
  "with_plan_step r oh = oh\<lparr>oh_flow := with_result PLAN_STEP_ID r (oh_flow oh)\<rparr>"

section \<open>Beginning\<close>

definition announce_orchestration :: "setting \<Rightarrow> run_world \<Rightarrow> prepared_orchestration \<Rightarrow> unit eng" where
  "announce_orchestration w rn og = (let planner = ag_name (og_planner og) in
     followed (run_event w ''run_started'' [(''kind'', PStr ''orchestrator''), (''target'', PStr planner),
       (''workspace'', PStr (og_workspace og)), (''capture_profile'', PStr (profile_value (og_profile og))),
       (''plan_only'', PBool (og_plan_only og)), (''auto_execute'', PBool (og_auto_execute og))])
    (followed (run_log w rn (Some planner) ''info'' ''run_started'' [(''kind'', PStr ''orchestrator''), (''target'', PStr planner)])
    (followed (case og_fingerprint og of None \<Rightarrow> ok ()
       | Some f \<Rightarrow> run_event w ''config_resolved'' [(''fingerprint'', PStr f)])
    (followed (run_event w ''policy_resolved'' (provenance_payload (og_provenance og)))
    (followed (run_event w ''egress_notice'' [(''step_id'', PStr PLAN_STEP_ID), (''provider'', PStr (og_provider og)),
       (''input_sources'', str_list plan_sources), (''planning'', PBool True)])
    (followed (run_log w rn None ''info'' ''egress_notice'' [(''provider_set'', str_list [og_provider og])])
    (if og_uncontained og
     then run_event w ''egress_notice'' [(''uncontained_planner_ack'', PBool True), (''enforcement'', PStr ''advisory''),
       (''agent'', PStr planner), (''acknowledged_by'', PStr ''config:orchestrator.allow_uncontained_planner'')]
     else ok ())))))))"

section \<open>Planning\<close>

definition plan_invalid :: "planning_result \<Rightarrow> zerror" where
  "plan_invalid pg = \<lparr>err_class = OrchestratorPlanInvalid,
     message = ''planner did not produce a valid plan'' @ (if pg_repair pg then '' after one repair attempt'' else []),
     details = [(''attempt_count'', PInt (pg_attempts pg)), (''errors'', str_list (pg_errors pg))]\<rparr>"

definition validation_of :: "planning_result \<Rightarrow> plan_validation" where
  "validation_of pg = \<lparr>pv_attempt_count = pg_attempts pg, pv_repair_requested = pg_repair pg, pv_errors = pg_errors pg,
     pv_valid = (pg_plan pg \<noteq> None)\<rparr>"

text \<open>The plan step's \<open>step_finished\<close> and its two log lines.\<close>

definition plan_finished :: "setting \<Rightarrow> run_world \<Rightarrow> prepared_orchestration \<Rightarrow> planning_result \<Rightarrow> step_status \<Rightarrow> unit eng" where
  "plan_finished w rn og pg st = (let took = fst (snd (rn_attempt rn PLAN_STEP_ID)); planner = Some (ag_name (og_planner og));
       lines = (\<lambda>t detail. mlog w (log_entry t (Some (rn_id rn)) (Some PLAN_STEP_ID) planner ''info'' detail)) in
     followed (emit_event w (event ''step_finished'' (Some PLAN_STEP_ID) (Some 1) (so_session_id (pg_outcome pg))
       [(''status'', PStr (step_status_value st)), (''duration_ms'', PInt took), (''plan_valid'', PBool (pg_plan pg \<noteq> None)),
        (''attempt_count'', PInt (pg_attempts pg)), (''repair_requested'', PBool (pg_repair pg)),
        (''errors'', str_list (pg_errors pg)), (''semantic_safety'', PStr ''not_validated''),
        (''generated_prompts'', PStr ''untrusted-model-output'')]))
    (followed (lines ''plan_validation'' [(''status'', PStr (if pg_plan pg = None then ''invalid'' else ''valid'')),
       (''count'', PInt (pg_attempts pg))])
    (lines ''step_finished'' [(''status'', PStr (step_status_value st)), (''duration_ms'', PInt took)])))"

text \<open>The plan step as planning leaves it, and the run after it.\<close>

definition planned :: "planning_result \<Rightarrow> step_result \<Rightarrow> orchestration \<Rightarrow> orchestration" where
  "planned pg step oh = (let out = pg_outcome pg;
       oh1 = oh\<lparr>oh_validation := validation_of pg, oh_flow := (oh_flow oh)\<lparr>fl_degraded := fl_degraded (oh_flow oh) \<or> so_degraded out,
         fl_cancelled := fl_cancelled (oh_flow oh) \<or> so_status out = Cancelled\<rparr>\<rparr>
     in if so_status out = Success \<and> pg_plan pg = None
        then fatal (to_model (plan_invalid pg))
          (with_plan_step (step\<lparr>sr_status := Failed, sr_errors := sr_errors step @ [to_model (plan_invalid pg)]\<rparr>) oh1)
        else with_plan_step step oh1)"

definition planning_stage ::
  "setting \<Rightarrow> run_world \<Rightarrow> prepared_orchestration \<Rightarrow> plan_world \<Rightarrow> orchestration \<Rightarrow> (planning_result \<times> orchestration) eng" where
  "planning_stage w rn og pl oh = (case pl_temp pl of
     Inl m \<Rightarrow> raise (Python m)
   | Inr temp \<Rightarrow> (let planner = ag_name (og_planner og) in
       followed (emit_event w (event ''step_started'' (Some PLAN_STEP_ID) (Some 1) None
         [(''agent'', PStr planner), (''provider'', PStr (og_provider og))]))
      (andthen (run_planning w og pl temp) (\<lambda>pg.
       andthen (settle_step_result ((blank_plan_step og)\<lparr>sr_status := Failed\<rparr>) (pg_outcome pg) (rn_attempt rn PLAN_STEP_ID)
         planner (Some (og_provider og))) (\<lambda>step.
       andthen (redacting (og_goal og)) (\<lambda>goal.
       andthen (redacting (og_meta_prompt og)) (\<lambda>prompt.
       let oh1 = planned pg (step\<lparr>sr_inputs_resolved := [(''goal'', PStr goal), (''prompt'', PStr prompt)]\<rparr>) oh in
       followed (if so_status (pg_outcome pg) = Success \<and> pg_plan pg = None
         then emit_event w (event ''error'' (Some PLAN_STEP_ID) (Some 1) None (error_payload (plan_invalid pg))) else ok ())
      (followed (plan_finished w rn og pg (case map_of (fl_steps (oh_flow oh1)) PLAN_STEP_ID of
           Some r \<Rightarrow> sr_status r | None \<Rightarrow> Failed))
         (ok (pg, oh1))))))))))"

section \<open>Execution\<close>

definition plan_not_acknowledged :: "string set \<Rightarrow> zerror" where
  "plan_not_acknowledged providers = (let ordered = sorted_list_of_set providers; joined = join '','' ordered in
     \<lparr>err_class = EgressNotAcknowledgedError,
      message = ''the validated plan sends data across providers {'' @ join '', '' ordered
        @ ''} (planner included) and this exact provider set is not acknowledged; re-run with --acknowledge-egress ''
        @ joined @ '' or add '' @ py_list_repr ordered @ '' to [egress] acknowledged_provider_sets in trusted user config'',
      details = [(''provider_set'', str_list ordered), (''hint'', PStr (''--acknowledge-egress '' @ joined))]\<rparr>)"

definition announce_execution :: "setting \<Rightarrow> run_world \<Rightarrow> string set \<Rightarrow> string option \<Rightarrow> execution_plan \<Rightarrow> unit eng" where
  "announce_execution w rn providers ack ex = (let listed = str_list (sorted_list_of_set providers) in
     if providers = {} then ok ()
     else followed (run_event w ''egress_notice'' [(''provider_set'', listed), (''acknowledged_by'', opt_str ack),
         (''records'', PList (map egress_dump (ex_records ex)))])
       (run_log w rn None ''info'' ''egress_notice'' [(''provider_set'', listed)]))"

text \<open>The execution of a plan whose egress is acknowledged, under the lease.\<close>

definition execution_stage ::
  "setting \<Rightarrow> run_world \<Rightarrow> flow_world \<Rightarrow> execution_disk \<Rightarrow> prepared_orchestration \<Rightarrow> plan \<Rightarrow> string set \<Rightarrow> string option
    \<Rightarrow> orchestration \<Rightarrow> orchestration eng" where
  "execution_stage w rn fw xd og p providers ack oh =
     (case build_execution xd og p ack of
        Inl (Zig e) \<Rightarrow> followed (run_error w e) (ok (fatal (to_model e) oh))
      | Inl x \<Rightarrow> raise x
      | Inr ex \<Rightarrow> (let oh1 = oh\<lparr>oh_flow := (oh_flow oh)\<lparr>fl_steps := scaffold_execution ex (fl_steps (oh_flow oh))\<rparr>,
            oh_egress := oh_egress oh @ ex_records ex\<rparr> in
          followed (announce_execution w rn providers ack ex)
          (andthen (run_execution w rn fw og ex (oh_flow oh1)) (\<lambda>fl.
             ok (oh1\<lparr>oh_flow := fl\<lparr>fl_cancelled := fl_cancelled (oh_flow oh1) \<or> fl_cancelled fl,
               fl_degraded := fl_degraded (oh_flow oh1) \<or> fl_degraded fl\<rparr>\<rparr>)))))"

text \<open>What follows planning: \<open>held\<close> says whether the lease is held already.\<close>

definition after_planning ::
  "setting \<Rightarrow> run_world \<Rightarrow> flow_world \<Rightarrow> execution_disk \<Rightarrow> prepared_orchestration \<Rightarrow> bool \<Rightarrow> planning_result \<times> orchestration
    \<Rightarrow> orchestration eng" where
  "after_planning w rn fw xd og held x = (case x of (pg, oh) \<Rightarrow>
     (case pg_plan pg of
        None \<Rightarrow> ok oh
      | Some (p, report) \<Rightarrow>
          if fl_cancelled (oh_flow oh) then ok oh
          else (let providers = vr_provider_set report; ack = is_acknowledged providers (og_config og) (og_acknowledge og);
                    oh1 = oh\<lparr>oh_plan := Some p, oh_egress := [plan_egress og (if providers = {} then None else ack)]\<rparr> in
            if providers \<noteq> {} \<and> ack = None
            then followed (run_error w (plan_not_acknowledged providers)) (ok (fatal (to_model (plan_not_acknowledged providers)) oh1))
            else if og_plan_only og \<or> \<not> og_auto_execute og then ok oh1
            else (let execute = execution_stage w rn fw xd og p providers (if providers = {} then None else ack) oh1 in
              if held then execute
              else andthen (take_lease w rn None) (\<lambda>refused. case refused of
                 Some e \<Rightarrow> ok (fatal e oh1)
               | None \<Rightarrow> finally_do execute (free_lease w rn None))))))"

definition lease_unavailable :: "typed_error \<Rightarrow> orchestration \<Rightarrow> orchestration" where
  "lease_unavailable e oh = (fatal e oh)\<lparr>oh_validation := (oh_validation oh)\<lparr>pv_errors :=
     bound_errors [''plan: workspace lease unavailable; planning did not run'']\<rparr>\<rparr>"

definition orchestrate ::
  "setting \<Rightarrow> run_world \<Rightarrow> flow_world \<Rightarrow> execution_disk \<Rightarrow> prepared_orchestration \<Rightarrow> plan_world \<Rightarrow> orchestration \<Rightarrow> orchestration eng" where
  "orchestrate w rn fw xd og pl oh =
     (if og_lease_first og
      then andthen (take_lease w rn None) (\<lambda>refused. case refused of
          Some e \<Rightarrow> ok (lease_unavailable e oh)
        | None \<Rightarrow> finally_do (andthen (planning_stage w rn og pl oh) (after_planning w rn fw xd og True)) (free_lease w rn None))
      else andthen (planning_stage w rn og pl oh) (after_planning w rn fw xd og False))"

section \<open>The run\<close>

definition orchestration_status :: "orchestration \<Rightarrow> run_status" where
  "orchestration_status oh = (let st = aggregate_status (map (sr_status \<circ> snd) (fl_steps (oh_flow oh))) (fl_cancelled (oh_flow oh)) in
     if oh_fatal oh \<and> st = RunSuccess then RunFailed else st)"

definition with_orchestration :: "orchestration \<Rightarrow> run_result \<Rightarrow> run_result" where
  "with_orchestration oh rr = rr\<lparr>rr_steps := fl_steps (oh_flow oh), rr_errors := fl_errors (oh_flow oh),
     rr_plan := oh_plan oh, rr_plan_validation := Some (oh_validation oh), rr_egress := oh_egress oh,
     rr_status := orchestration_status oh\<rparr>"

definition planner_usage :: "prepared_orchestration \<Rightarrow> run_result \<Rightarrow> run_result" where
  "planner_usage og rr = rr\<lparr>rr_usage := map_option (\<lambda>u. if us_provider u = None then u\<lparr>us_provider := Some (og_provider og)\<rparr> else u)
     (rr_usage rr)\<rparr>"

definition run_orchestration ::
  "setting \<Rightarrow> run_world \<Rightarrow> flow_world \<Rightarrow> execution_disk \<Rightarrow> prepared_orchestration \<Rightarrow> plan_world \<Rightarrow> run_result eng" where
  "run_orchestration w rn fw xd og pl =
     andthen (open_store rn (og_no_save og)) (\<lambda>(dir, errs).
     followed (start_recorder rn (og_secrets og) (og_patterns og) dir (og_profile og) (og_limits og) (og_has_render og))
    (followed (announce_orchestration w rn og)
    (andthen (orchestrate w rn fw xd og pl (blank_orchestration og errs)) (\<lambda>oh.
     andthen (close_record w rn (fl_degraded (oh_flow oh)) (with_orchestration oh (blank_orchestration_result rn og))) (\<lambda>rr.
     let planner = ag_name (og_planner og); rr1 = planner_usage og rr in
     followed (run_log w rn (Some planner) ''info'' ''run_finished'' [(''kind'', PStr ''orchestrator''), (''target'', PStr planner),
       (''status'', PStr (run_status_value (rr_status rr1))), (''duration_ms'', PInt (rn_duration rn))])
    (save_result w rn (Some planner) dir rr1))))))"

end
