(* ===== verification/Orchestration_Safety.thy ===== *)
theory Orchestration_Safety
  imports Orchestration Planning_Safety Run_Acts
begin

text \<open>
  What an orchestrated run does beside recording: the planner runs alone, an agent of the plan runs only
  behind every gate and under the workspace lease, and the result is saved last.
\<close>

section \<open>Acts of the execution\<close>

lemma adds_execution_deadline [adds_intros]: "adds idle (execution_deadline_stop w rn d active fl)"
  unfolding execution_deadline_stop_def Let_def by (intro adds_intros)

lemma adds_execution_propagate [adds_intros]: "adds P (execution_propagate ex edges raw fl)"
  unfolding execution_propagate_def by (intro adds_intros)

lemma adds_execution_after [adds_intros]: "adds idle (execution_after w rn fw ex edges d raw out fl)"
  unfolding execution_after_def by (intro adds_intros)

lemma adds_execution_launch [adds_intros]:
  "adds agentic (execution_launch w rn fw og ex edges d raw sd pre r cwd upstream prompt fl)"
  unfolding execution_launch_def
  by (intro adds_intros adds_agentic[OF adds_idle_finished] adds_agentic[OF adds_execution_after])

lemma adds_execution_start [adds_intros]: "adds agentic (execution_start w rn fw og ex edges d raw fl)"
  unfolding execution_start_def Let_def
  by (intro adds_intros adds_agentic[OF adds_idle_basic(1)] adds_agentic[OF adds_fail_before])

lemma adds_execution_next [adds_intros]: "adds agentic (execution_next w rn fw og ex edges d raw fl)"
  unfolding execution_next_def
  by (intro adds_intros adds_agentic[OF adds_idle_basic(3)] adds_agentic[OF adds_execution_deadline])

lemma adds_execution_pending [adds_intros]: "adds agentic (execution_pending w rn fw og ex edges d pending fl)"
  by (induction pending arbitrary: fl) (auto intro!: adds_intros)

lemma adds_run_execution [adds_intros]: "adds agentic (run_execution w rn fw og ex fl)"
  unfolding run_execution_def by (intro adds_intros)

lemma adds_announce_execution [adds_intros]: "adds idle (announce_execution w rn providers ack ex)"
  unfolding announce_execution_def Let_def by (intro adds_intros)

lemma adds_announce_orchestration [adds_intros]: "adds idle (announce_orchestration w rn og)"
  unfolding announce_orchestration_def Let_def by (intro adds_intros)

lemma adds_plan_finished [adds_intros]: "adds idle (plan_finished w rn og pg st)"
  unfolding plan_finished_def Let_def by (intro adds_intros)

section \<open>The gates\<close>

text \<open>
  What must hold for an agent of a plan to run: a valid plan, providers that do not cross or a
  crossing that is acknowledged, a run that may execute, the lease, and an execution that can be built
  from the disk of that moment.
\<close>

definition executable :: "execution_disk \<Rightarrow> prepared_orchestration \<Rightarrow> plan \<Rightarrow> validation_report \<Rightarrow> bool" where
  "executable xd og p report \<longleftrightarrow> (let providers = vr_provider_set report;
       ack = is_acknowledged providers (og_config og) (og_acknowledge og) in
     valid report \<and> (providers = {} \<or> ack \<noteq> None) \<and> \<not> og_plan_only og \<and> og_auto_execute og
     \<and> (\<exists>ex. build_execution xd og p (if providers = {} then None else ack) = Inr ex))"

text \<open>
  The plan of a run: what its planning hands over, after the lease that an uncontained planner needs. It
  is the run up to the end of the planning stage, from the state in which the run begins.
\<close>

definition planning_part :: "setting \<Rightarrow> run_world \<Rightarrow> prepared_orchestration \<Rightarrow> plan_world \<Rightarrow> orchestration \<Rightarrow> plan option eng" where
  "planning_part w rn og pl oh =
     andthen (if og_lease_first og then take_lease w rn None else ok None) (\<lambda>refused. case refused of
       Some e \<Rightarrow> ok None
     | None \<Rightarrow> andthen (planning_stage w rn og pl oh) (\<lambda>x. ok (map_option fst (pg_plan (fst x)))))"

definition plan_made :: "setting \<Rightarrow> run_world \<Rightarrow> prepared_orchestration \<Rightarrow> plan_world \<Rightarrow> plan option eng" where
  "plan_made w rn og pl =
     andthen (open_store rn (og_no_save og)) (\<lambda>(dir, errs).
     followed (start_recorder rn (og_secrets og) (og_patterns og) dir (og_profile og) (og_limits og) (og_has_render og))
    (followed (announce_orchestration w rn og)
    (planning_part w rn og pl (blank_orchestration og errs))))"

text \<open>Agents may run: the lease is granted and the plan of this run passes the gates.\<close>

definition permitted_plan :: "run_world \<Rightarrow> execution_disk \<Rightarrow> prepared_orchestration \<Rightarrow> plan_world \<Rightarrow> plan option res \<Rightarrow> bool" where
  "permitted_plan rn xd og pl r \<longleftrightarrow> lease_granted rn \<and> (case r of Ok (Some p) \<Rightarrow> executable xd og p (judge_plan og pl p) | _ \<Rightarrow> False)"

lemma wp_idle_same: "adds idle m \<Longrightarrow> wp m (\<lambda>x t. weighty t = weighty s) (\<lambda>e t. weighty t = weighty s) s"
  by (rule wp_idle)

lemma wp_trace: "wp m Q E s \<Longrightarrow> wp m (\<lambda>x t. Q x t \<and> m s = (Ok x, t)) E s"
  by (auto simp: wp_def split: prod.splits res.splits)

lemma adds_execution_stage:
  "adds (if \<exists>ex. build_execution xd og p ack = Inr ex then agentic else idle) (execution_stage w rn fw xd og p providers ack oh)"
  unfolding execution_stage_def Let_def
  by (auto split: sum.splits exn.splits intro!: adds_intros adds_agentic[OF adds_announce_execution])

section \<open>The lease\<close>

lemma wp_take_lease:
  assumes "\<And>t. lease_granted rn \<Longrightarrow> weighty t = weighty s @ [LeaseTaken] \<Longrightarrow> Q None t"
    and "\<And>e t. weighty t = weighty s \<Longrightarrow> Q (Some e) t"
    and "\<And>e t. weighty t = weighty s \<or> lease_granted rn \<and> weighty t = weighty s @ [LeaseTaken] \<Longrightarrow> E e t"
  shows "wp (take_lease w rn agent) Q E s"
proof (cases "rn_lease rn")
  case (LeaseGranted u v)
  have g: "lease_granted rn" by (simp add: lease_granted_def LeaseGranted)
  have e: "wp (followed (run_event w ''lease_acquired'' [(''workspace'', PStr u), (''lease_path'', PStr v)])
      (followed (run_log w rn agent ''info'' ''lease_acquired'' []) (ok None))) Q E t" if t: "weighty t = weighty s @ [LeaseTaken]" for t
  proof (rule wp_followed, rule wp_idle[OF adds_idle_basic(3)])
    fix x u assume u: "weighty u = weighty t"
    show "wp (followed (run_log w rn agent ''info'' ''lease_acquired'' []) (ok None)) Q E u"
      by (rule wp_followed, rule wp_idle[OF adds_idle_basic(5)], rule wp_ok) (use assms(1,3) g t u in auto)
  qed (use assms(3) g t in auto)
  show ?thesis
    unfolding take_lease_def LeaseGranted leasing.case
    by (rule wp_followed, rule wp_act_weighty, simp, rule e)
next
  case (LeaseDenied e)
  show ?thesis
    unfolding take_lease_def LeaseDenied leasing.case
    by (rule wp_followed, rule wp_idle[OF adds_idle_basic(4)], rule wp_followed, rule wp_idle[OF adds_idle_basic(5)], rule wp_ok)
      (use assms(2,3) in auto)
next
  case (LeaseBroken m cls)
  show ?thesis
    unfolding take_lease_def LeaseBroken leasing.case Let_def
    by (rule wp_followed, rule wp_idle[OF adds_idle_basic(4)], rule wp_ok) (use assms(2,3) in auto)
qed

definition took :: "run_world \<Rightarrow> engine \<Rightarrow> 'e option \<Rightarrow> engine \<Rightarrow> bool" where
  "took rn s refused t \<longleftrightarrow> (case refused of None \<Rightarrow> lease_granted rn \<and> weighty t = weighty s @ [LeaseTaken] | Some e \<Rightarrow> weighty t = weighty s)"

lemma wp_took_lease:
  "wp (take_lease w rn agent) (took rn s) (\<lambda>e t. weighty t = weighty s \<or> lease_granted rn \<and> weighty t = weighty s @ [LeaseTaken]) s"
  by (rule wp_take_lease) (simp_all add: took_def)

lemma wp_free_lease:
  assumes "lease_granted rn" and "\<And>x t. weighty t = weighty s @ [LeaseFreed] \<Longrightarrow> Q x t"
    and "\<And>e t. weighty t = weighty s @ [LeaseFreed] \<Longrightarrow> E e t"
  shows "wp (free_lease w rn agent) Q E s"
proof -
  obtain u v where g: "rn_lease rn = LeaseGranted u v" using assms(1) by (auto simp: lease_granted_def)
  have k: "adds idle (followed (run_event w ''lease_released'' [(''workspace'', PStr u)]) (run_log w rn agent ''info'' ''lease_released'' []))"
    by (intro adds_intros)
  show ?thesis
    unfolding free_lease_def g leasing.case
    by (rule wp_followed, rule wp_act_weighty, simp, rule wp_idle[OF k]) (use assms(2,3) in auto)
qed

text \<open>What runs between taking and freeing the lease; \<open>whole\<close> says that the lease is freed.\<close>

definition within_lease :: "bool \<Rightarrow> (act list \<Rightarrow> bool) \<Rightarrow> act list \<Rightarrow> bool" where
  "within_lease whole good X \<longleftrightarrow> X = [] \<or> (\<exists>M. good M \<and> (X = LeaseTaken # M @ [LeaseFreed] \<or> \<not> whole \<and> X = LeaseTaken # M))"

definition since :: "engine \<Rightarrow> (act list \<Rightarrow> bool) \<Rightarrow> engine \<Rightarrow> bool" where
  "since s good t \<longleftrightarrow> (\<exists>X. weighty t = weighty s @ X \<and> good X)"

lemma since_trans: "since s P t \<Longrightarrow> since t Q u \<Longrightarrow> (\<And>X Y. P X \<Longrightarrow> Q Y \<Longrightarrow> R (X @ Y)) \<Longrightarrow> since s R u"
  unfolding since_def by (metis append_assoc)

lemma since_mono: "since s P t \<Longrightarrow> (\<And>X. P X \<Longrightarrow> Q X) \<Longrightarrow> since s Q t"
  unfolding since_def by blast

lemma since_same: "weighty t = weighty s \<Longrightarrow> P [] \<Longrightarrow> since s P t"
  unfolding since_def by auto

lemma since_onward: "since s P t \<Longrightarrow> weighty u = weighty t \<Longrightarrow> since s P u"
  unfolding since_def by simp

lemma since_start: "since t P u \<Longrightarrow> weighty t = weighty s \<Longrightarrow> since s P u"
  unfolding since_def by simp

lemma wp_with_lease:
  assumes "good []"
    and m: "\<And>t. lease_granted rn \<Longrightarrow> take_lease w rn agent s = (Ok None, t) \<Longrightarrow> wp m (\<lambda>_. since t good) (\<lambda>_. since t good) t"
  shows "wp (andthen (take_lease w rn agent) (\<lambda>refused. case refused of
      Some e \<Rightarrow> ok (k e) | None \<Rightarrow> finally_do m (free_lease w rn agent)))
    (\<lambda>_. since s (within_lease True good)) (\<lambda>_. since s (within_lease False good)) s"
proof (rule wp_andthen, rule wp_mono[OF wp_trace[OF wp_took_lease]])
  fix refused t assume r: "took rn s refused t \<and> take_lease w rn agent s = (Ok refused, t)"
  show "wp (case refused of None \<Rightarrow> finally_do m (free_lease w rn agent) | Some e \<Rightarrow> ok (k e))
      (\<lambda>_. since s (within_lease True good)) (\<lambda>_. since s (within_lease False good)) t"
  proof (cases refused)
    case (Some e)
    with r show ?thesis by (auto intro!: wp_ok since_same simp: took_def within_lease_def)
  next
    case None
    with r have g: "lease_granted rn" and t: "weighty t = weighty s @ [LeaseTaken]" and l: "take_lease w rn agent s = (Ok None, t)"
      by (simp_all add: took_def)
    let ?E = "\<lambda>_. since s (within_lease False good)"
    have freed: "since s (within_lease b good) v" if "since t good u" "weighty v = weighty u @ [LeaseFreed]" for b u v
      using that t by (auto simp: since_def within_lease_def)
    have kept: "since s (within_lease False good) u" if "since t good u" for u
      using that t by (auto simp: since_def within_lease_def)
    have "wp (finally_do m (free_lease w rn agent)) (\<lambda>_. since s (within_lease True good)) ?E t"
    proof (rule wp_finally, rule wp_mono[OF m[OF g l]])
      fix x u assume u: "since t good u"
      show "wp (free_lease w rn agent) (\<lambda>_. since s (within_lease True good)) ?E u"
        by (rule wp_free_lease[OF g]) (use freed[OF u] in auto)
    next
      fix e u assume u: "since t good u"
      show "cleaned (free_lease w rn agent) ?E e u"
        unfolding cleaned_def by (cases e) (auto intro: kept[OF u] wp_free_lease[OF g] freed[OF u])
    qed
    with None show ?thesis by simp
  qed
next
  fix e t assume "weighty t = weighty s \<or> lease_granted rn \<and> weighty t = weighty s @ [LeaseTaken]"
  with assms(1) show "since s (within_lease False good) t" by (auto simp: since_def within_lease_def)
qed

section \<open>Planning\<close>

text \<open>The acts of the planner alone: it is started at most once, and nothing is written.\<close>

fun planner_act :: "string \<Rightarrow> act \<Rightarrow> bool" where
  "planner_act c (Spawned pid d) \<longleftrightarrow> d = c"
| "planner_act c (Signalled pg g) \<longleftrightarrow> True"
| "planner_act c (Reaped code) \<longleftrightarrow> True"
| "planner_act c (DiskRead p) \<longleftrightarrow> True"
| "planner_act c _ \<longleftrightarrow> False"

fun spawns :: "act \<Rightarrow> bool" where
  "spawns (Spawned pid c) \<longleftrightarrow> True"
| "spawns _ \<longleftrightarrow> False"

definition planner_acts :: "string \<Rightarrow> act list \<Rightarrow> bool" where
  "planner_acts c A \<longleftrightarrow> list_all (planner_act c) A \<and> length (filter spawns A) \<le> 1"

lemma planner_acts_Nil [simp]: "planner_acts c []"
  by (simp add: planner_acts_def)

lemma session_acts:
  assumes "list_all (session_act C L cx) new"
  shows "list_all (planner_act c) (filter (\<lambda>a. \<not> idle a) new) \<and> filter spawns (filter (\<lambda>a. \<not> idle a) new) = []"
  using assms
proof (induction new)
  case (Cons a new)
  have "idle a \<or> planner_act c a \<and> \<not> spawns a" using Cons.prems by (cases a) (auto simp: session_act_def)
  with Cons show ?case by auto
qed simp

lemma planner_trace_since:
  assumes "planner_trace (session_act C L cx) L c (en_acts s) t"
  shows "since s (planner_acts c) t"
proof -
  let ?f = "filter (\<lambda>a. \<not> idle a)"
  consider new where "en_acts t = en_acts s @ new" "list_all (session_act C L cx) new"
    | pid early late where "en_acts t = en_acts s @ early @ Spawned pid c # late" "list_all (session_act C L cx) early" "list_all (session_act C L cx) late"
    using assms unfolding planner_trace_def grown_def launched_def by blast
  then show ?thesis
  proof cases
    case 1
    with session_acts[OF 1(2), of c] have "weighty t = weighty s @ ?f new \<and> planner_acts c (?f new)"
      by (simp add: weighty_def planner_acts_def)
    then show ?thesis unfolding since_def by blast
  next
    case 2
    with session_acts[OF 2(2), of c] session_acts[OF 2(3), of c]
    have "weighty t = weighty s @ (?f early @ Spawned pid c # ?f late) \<and> planner_acts c (?f early @ Spawned pid c # ?f late)"
      by (simp add: weighty_def planner_acts_def)
    then show ?thesis unfolding since_def by blast
  qed
qed

lemma wp_run_planning_since:
  "wp (run_planning w og pl temp) (\<lambda>pg t. plan_facts og pl pg \<and> since s (planner_acts (ag_command (og_planner og))) t)
     (\<lambda>e. since s (planner_acts (ag_command (og_planner og)))) s"
proof (cases "planning_policy (pl_realpath pl) temp")
  case (Inl e)
  then show ?thesis by (auto simp: run_planning_def intro!: wp_raise since_same)
next
  case (Inr po)
  show ?thesis
    using wp_run_planning[OF Inr refl, of w og s] yields_wp[OF values_run_planning[of og pl w temp], of s] planner_trace_since
    unfolding wp_def by (auto split: prod.splits res.splits)
qed

lemma wp_planning_stage:
  "wp (planning_stage w rn og pl oh) (\<lambda>x t. plan_facts og pl (fst x) \<and> since s (planner_acts (ag_command (og_planner og))) t)
     (\<lambda>e. since s (planner_acts (ag_command (og_planner og)))) s"
proof (cases "pl_temp pl")
  case (Inl m)
  then show ?thesis by (auto simp: planning_stage_def intro!: wp_raise since_same)
next
  case (Inr temp)
  let ?S = "since s (planner_acts (ag_command (og_planner og)))"
  have rest: "wp m (\<lambda>x t. plan_facts og pl (fst x) \<and> ?S t) (\<lambda>e. ?S) t" if "adds idle m" "?S t" "yields False (\<lambda>x. fst x = pg) m" "plan_facts og pl pg"
    for m :: "(planning_result \<times> orchestration) eng" and t pg
  proof -
    have "wp m (\<lambda>x. ?S) (\<lambda>e. ?S) t"
      by (rule wp_idle[OF that(1)]) (use that(2) in \<open>auto intro: since_onward\<close>)
    with yields_wp[OF that(3), of t] that(4) show ?thesis unfolding wp_def by (auto split: prod.splits res.splits)
  qed
  show ?thesis
    unfolding planning_stage_def Inr sum.case Let_def
  proof (rule wp_followed, rule wp_idle[OF adds_idle_basic(1)], rule wp_andthen, rule wp_mono[OF wp_run_planning_since], goal_cases)
    case (1 x t pg u)
    show ?case
    proof (rule rest[where pg = pg])
      show "?S u" using 1 by (auto intro: since_start)
      show "plan_facts og pl pg" using 1 by simp
    qed (intro adds_intros values_followed values_andthen yields_ok fst_conv)+
  qed (auto intro: since_start since_same)
qed

section \<open>After planning\<close>

text \<open>The acts of the agents of a plan.\<close>

definition agents_acts :: "bool \<Rightarrow> act list \<Rightarrow> bool" where
  "agents_acts permit B \<longleftrightarrow> list_all agent_act B \<and> (B \<noteq> [] \<longrightarrow> permit)"

lemma agents_acts_Nil [simp]: "agents_acts permit []"
  by (simp add: agents_acts_def)

lemma wp_idle_since:
  assumes "adds idle m" and "P []"
  shows "wp m (\<lambda>_. since s P) (\<lambda>_. since s P) s"
  by (rule wp_idle[OF assms(1)]) (use assms(2) in \<open>auto intro: since_same\<close>)

lemma wp_execution_stage:
  assumes "(\<exists>ex. build_execution xd og p ack = Inr ex) \<Longrightarrow> permit"
  shows "wp (execution_stage w rn fw xd og p providers ack oh) (\<lambda>_. since s (agents_acts permit)) (\<lambda>_. since s (agents_acts permit)) s"
proof (cases "\<exists>ex. build_execution xd og p ack = Inr ex")
  case True
  then have "adds agentic (execution_stage w rn fw xd og p providers ack oh)"
    using adds_execution_stage[of xd og p ack w rn fw providers oh] by simp
  then show ?thesis
    by (rule wp_agentic) (use assms[OF True] in \<open>auto simp: since_def agents_acts_def\<close>)
next
  case False
  then have "adds idle (execution_stage w rn fw xd og p providers ack oh)"
    using adds_execution_stage[of xd og p ack w rn fw providers oh] by simp
  then show ?thesis by (rule wp_idle_since) simp
qed

text \<open>With the lease in hand, or taken here.\<close>

definition after_acts :: "bool \<Rightarrow> bool \<Rightarrow> bool \<Rightarrow> act list \<Rightarrow> bool" where
  "after_acts held whole permit X \<longleftrightarrow> (if held then agents_acts permit X else within_lease whole (agents_acts permit) X)"

lemma after_acts_Nil [simp]: "after_acts held whole permit []"
  by (simp add: after_acts_def within_lease_def)

lemma wp_execute_or_lease:
  assumes "lease_granted rn \<Longrightarrow> (\<exists>ex. build_execution xd og p ack = Inr ex) \<Longrightarrow> permit" and "held \<Longrightarrow> lease_granted rn"
  shows "wp (let execute = execution_stage w rn fw xd og p providers ack oh in
      if held then execute
      else andthen (take_lease w rn None) (\<lambda>refused. case refused of
         Some e \<Rightarrow> ok (fatal e oh) | None \<Rightarrow> finally_do execute (free_lease w rn None)))
    (\<lambda>_. since s (after_acts held True permit)) (\<lambda>_. since s (after_acts held False permit)) s"
proof (cases held)
  case True
  with assms have "wp (execution_stage w rn fw xd og p providers ack oh) (\<lambda>_. since s (agents_acts permit)) (\<lambda>_. since s (agents_acts permit)) s"
    by (intro wp_execution_stage) blast
  with True show ?thesis by (simp add: after_acts_def[abs_def])
next
  case False
  have "wp (andthen (take_lease w rn None) (\<lambda>refused. case refused of
         Some e \<Rightarrow> ok (fatal e oh) | None \<Rightarrow> finally_do (execution_stage w rn fw xd og p providers ack oh) (free_lease w rn None)))
      (\<lambda>_. since s (within_lease True (agents_acts permit))) (\<lambda>_. since s (within_lease False (agents_acts permit))) s"
    by (rule wp_with_lease) (use assms(1) in \<open>auto intro: wp_execution_stage\<close>)
  with False show ?thesis by (simp add: after_acts_def[abs_def])
qed

lemma wp_after_planning:
  assumes f: "plan_facts og pl pg" and h: "held \<Longrightarrow> lease_granted rn"
    and P: "\<And>p report. pg_plan pg = Some (p, report) \<Longrightarrow> lease_granted rn \<Longrightarrow> executable xd og p (judge_plan og pl p) \<Longrightarrow> permit"
  shows "wp (after_planning w rn fw xd og held (pg, oh)) (\<lambda>_. since s (after_acts held True permit))
    (\<lambda>_. since s (after_acts held False permit)) s"
proof (cases "pg_plan pg")
  case None
  then show ?thesis by (auto simp: after_planning_def intro!: wp_ok since_same)
next
  case (Some x)
  obtain p report where x: "x = (p, report)" by (cases x)
  have r: "report = judge_plan og pl p" "valid report" using f Some x by (auto simp: plan_facts_def)
  define providers where "providers = vr_provider_set report"
  define ack where "ack = is_acknowledged providers (og_config og) (og_acknowledge og)"
  let ?T = "since s (after_acts held True permit)"
    and ?F = "since s (after_acts held False permit)"
  have stay: "wp (ok oh') (\<lambda>_. ?T) (\<lambda>_. ?F) s" for oh' :: orchestration
    by (intro wp_ok since_same) simp_all
  have refused: "wp (followed (run_error w e) (ok oh')) (\<lambda>_. ?T) (\<lambda>_. ?F) s" for e and oh' :: orchestration
    by (rule wp_followed, rule wp_idle[OF adds_idle_basic(4)], rule wp_ok) (auto intro: since_same)
  show ?thesis
    unfolding after_planning_def Some x option.case prod.case
    unfolding providers_def[symmetric] Let_def ack_def[symmetric]
  proof (rule wp_if[OF stay], rule wp_if[OF refused], rule wp_if[OF stay])
    assume a: "\<not> (providers \<noteq> {} \<and> ack = None)" and b: "\<not> (og_plan_only og \<or> \<not> og_auto_execute og)"
    have "permit" if g: "lease_granted rn" and ex: "\<exists>ex. build_execution xd og p (if providers = {} then None else ack) = Inr ex"
    proof -
      have "executable xd og p report"
        unfolding executable_def Let_def providers_def[symmetric] ack_def[symmetric]
        by (intro conjI r(2) ex) (use a b in auto)
      with P[OF _ g] Some x r(1) show ?thesis by simp
    qed
    then show "wp (if held then execution_stage w rn fw xd og p providers (if providers = {} then None else ack)
          (oh\<lparr>oh_plan := Some p, oh_egress := [plan_egress og (if providers = {} then None else ack)]\<rparr>)
        else andthen (take_lease w rn None) (\<lambda>refused. case refused of
          None \<Rightarrow> finally_do (execution_stage w rn fw xd og p providers (if providers = {} then None else ack)
            (oh\<lparr>oh_plan := Some p, oh_egress := [plan_egress og (if providers = {} then None else ack)]\<rparr>)) (free_lease w rn None)
        | Some e \<Rightarrow> ok (fatal e (oh\<lparr>oh_plan := Some p, oh_egress := [plan_egress og (if providers = {} then None else ack)]\<rparr>))))
      (\<lambda>_. ?T) (\<lambda>_. ?F) s"
      using wp_execute_or_lease[OF _ h, unfolded Let_def] by blast
  qed
qed

section \<open>The whole run\<close>

text \<open>
  An uncontained planner runs under the lease already; a contained one before it. \<open>whole\<close> says that the
  lease is freed, \<open>permit\<close> that agents of a plan may run.
\<close>

definition orchestrated :: "prepared_orchestration \<Rightarrow> bool \<Rightarrow> bool \<Rightarrow> act list \<Rightarrow> bool" where
  "orchestrated og whole permit X \<longleftrightarrow> (let c = ag_command (og_planner og) in
     if og_lease_first og
     then within_lease whole (\<lambda>M. \<exists>A B. M = A @ B \<and> planner_acts c A \<and> agents_acts permit B) X
     else \<exists>A Y. X = A @ Y \<and> planner_acts c A \<and> within_lease whole (agents_acts permit) Y)"

lemma orchestrated_Nil [simp]: "orchestrated og whole permit []"
  by (auto simp: orchestrated_def Let_def within_lease_def intro: exI[of _ "[]"])

lemma within_lease_part: "within_lease True good X \<Longrightarrow> within_lease whole good X"
  by (auto simp: within_lease_def)

lemma orchestrated_part: "orchestrated og True permit X \<Longrightarrow> orchestrated og whole permit X"
  unfolding orchestrated_def Let_def by (auto split: if_splits intro: within_lease_part)

lemma wp_orchestrate:
  assumes permit: "permit = permitted_plan rn xd og pl (fst (planning_part w rn og pl oh s))"
  shows "wp (orchestrate w rn fw xd og pl oh) (\<lambda>_. since s (orchestrated og True permit)) (\<lambda>_. since s (orchestrated og False permit)) s"
proof -
  let ?c = "ag_command (og_planner og)"
  have stages: "wp (andthen (planning_stage w rn og pl oh) (after_planning w rn fw xd og held)) (\<lambda>_. since s R) (\<lambda>_. since s R') s"
    if h: "held \<Longrightarrow> lease_granted rn"
      and M: "\<And>x u. planning_stage w rn og pl oh s = (Ok x, u) \<Longrightarrow> permit = permitted_plan rn xd og pl (Ok (map_option fst (pg_plan (fst x))))"
      and R: "\<And>A Y. planner_acts ?c A \<Longrightarrow> after_acts held True permit Y \<Longrightarrow> R (A @ Y)"
      "\<And>A Y. planner_acts ?c A \<Longrightarrow> after_acts held False permit Y \<Longrightarrow> R' (A @ Y)" for held R R' s
  proof (rule wp_andthen, rule wp_mono[OF wp_trace[OF wp_planning_stage]])
    fix x :: "planning_result \<times> orchestration" and t assume x: "(plan_facts og pl (fst x) \<and> since s (planner_acts ?c) t) \<and> planning_stage w rn og pl oh s = (Ok x, t)"
    obtain pg oh' where p: "x = (pg, oh')" by (cases x)
    have "wp (after_planning w rn fw xd og held (pg, oh')) (\<lambda>_. since t (after_acts held True permit)) (\<lambda>_. since t (after_acts held False permit)) t"
      by (rule wp_after_planning) (use x p h M[of x t] in \<open>auto simp: permitted_plan_def\<close>)
    then show "wp (after_planning w rn fw xd og held x) (\<lambda>_. since s R) (\<lambda>_. since s R') t"
      unfolding p using x R by (elim wp_mono) (blast intro: since_trans)+
  next
    fix e t assume "since s (planner_acts ?c) t"
    then show "since s R' t" using R(2)[of _ "[]"] by (auto elim: since_mono)
  qed
  show ?thesis
  proof (cases "og_lease_first og")
    case True
    let ?good = "\<lambda>M. \<exists>A B. M = A @ B \<and> planner_acts ?c A \<and> agents_acts permit B"
    have "wp (orchestrate w rn fw xd og pl oh) (\<lambda>_. since s (within_lease True ?good)) (\<lambda>_. since s (within_lease False ?good)) s"
      unfolding orchestrate_def if_P[OF True]
    proof (rule wp_with_lease)
      fix t assume l: "lease_granted rn" "take_lease w rn None s = (Ok None, t)"
      have M: "permit = permitted_plan rn xd og pl (Ok (map_option fst (pg_plan (fst x))))" if "planning_stage w rn og pl oh t = (Ok x, u)" for x u
        using that l(2) True by (simp add: permit planning_part_def andthen_def ok_def)
      from l(1) show "wp (andthen (planning_stage w rn og pl oh) (after_planning w rn fw xd og True)) (\<lambda>_. since t ?good) (\<lambda>_. since t ?good) t"
        by (intro stages M) (auto simp: after_acts_def)
    qed (auto intro: exI[of _ "[]"])
    with True show ?thesis by (simp add: orchestrated_def[abs_def] Let_def)
  next
    case False
    have M: "permit = permitted_plan rn xd og pl (Ok (map_option fst (pg_plan (fst x))))" if "planning_stage w rn og pl oh s = (Ok x, u)" for x u
      using that False by (simp add: permit planning_part_def andthen_def ok_def)
    have "wp (andthen (planning_stage w rn og pl oh) (after_planning w rn fw xd og False))
        (\<lambda>_. since s (orchestrated og True permit)) (\<lambda>_. since s (orchestrated og False permit)) s"
      by (rule stages[OF _ M]) (use False in \<open>auto simp: after_acts_def orchestrated_def Let_def\<close>)
    with False show ?thesis by (simp add: orchestrate_def)
  qed
qed

text \<open>Closing and saving.\<close>

lemma wp_conclude:
  assumes p: "\<not> rr_persisted rr" and f: "\<And>rr'. rr_persisted (f rr') = rr_persisted rr'"
  shows "wp (andthen (close_record w rn degraded rr) (\<lambda>rr'. followed (run_log w rn agent level e (detail rr'))
      (save_result w rn agent dir (f rr'))))
    (\<lambda>rr' t. \<exists>P \<in> saves. weighty t = weighty s @ P \<and> (rr_persisted rr' \<longleftrightarrow> P \<noteq> [])) (\<lambda>e t. \<exists>P \<in> saves. weighty t = weighty s @ P) s"
proof -
  have "unsaved False s False s" by (rule unsaved_start) simp
  have c: "wp (close_record w rn degraded rr) (\<lambda>rr' t. rr_persisted rr' = rr_persisted rr \<and> weighty t = weighty s) (\<lambda>e t. weighty t = weighty s) s"
  proof -
    have "wp (close_record w rn degraded rr) (\<lambda>rr' t. weighty t = weighty s) (\<lambda>e t. weighty t = weighty s) s"
      by (rule wp_idle[OF adds_close_record])
    moreover have "wp (close_record w rn degraded rr) (\<lambda>rr' u. rr_persisted rr' = rr_persisted rr \<and> unsaved False s False u) (\<lambda>e. unsaved False s False) s"
      by (rule wp_close_record) fact
    ultimately show ?thesis by (auto simp: wp_def split: prod.splits res.splits)
  qed
  show ?thesis
  proof (rule wp_andthen, rule wp_mono[OF c])
    fix rr' :: run_result and t assume t: "rr_persisted rr' = rr_persisted rr \<and> weighty t = weighty s"
    show "wp (followed (run_log w rn agent level e (detail rr')) (save_result w rn agent dir (f rr')))
      (\<lambda>rr' t. \<exists>P \<in> saves. weighty t = weighty s @ P \<and> (rr_persisted rr' \<longleftrightarrow> P \<noteq> [])) (\<lambda>e t. \<exists>P \<in> saves. weighty t = weighty s @ P) t"
    proof (rule wp_followed, rule wp_idle[OF adds_idle_basic(5)])
      fix u assume u: "weighty u = weighty t"
      show "wp (save_result w rn agent dir (f rr')) (\<lambda>rr' t. \<exists>P \<in> saves. weighty t = weighty s @ P \<and> (rr_persisted rr' \<longleftrightarrow> P \<noteq> []))
        (\<lambda>e t. \<exists>P \<in> saves. weighty t = weighty s @ P) u"
        by (rule wp_mono[OF wp_save_result]) (use t u p f in auto)
    qed (use t in \<open>auto intro: bexI[of _ "[]"]\<close>)
  qed (auto intro: bexI[of _ "[]"])
qed

text \<open>\<open>outcome\<close> is the result of a run that returns.\<close>

definition orchestration_acts ::
  "prepared_orchestration \<Rightarrow> bool \<Rightarrow> run_result option \<Rightarrow> engine \<Rightarrow> engine \<Rightarrow> bool" where
  "orchestration_acts og permit outcome s t \<longleftrightarrow> (\<exists>X P. weighty t = weighty s @ X @ P \<and> P \<in> saves
     \<and> orchestrated og (outcome \<noteq> None) permit X
     \<and> (case outcome of None \<Rightarrow> True | Some rr \<Rightarrow> rr_persisted rr \<longleftrightarrow> P \<noteq> []))"

lemma orchestration_acts_early:
  assumes "since s (orchestrated og whole permit) t"
  shows "orchestration_acts og permit None s t"
proof -
  from assms obtain X where "weighty t = weighty s @ X @ []" "orchestrated og whole permit X"
    by (auto simp: since_def)
  moreover from this have "orchestrated og False permit X"
    by (cases whole) (auto intro: orchestrated_part)
  ultimately show ?thesis unfolding orchestration_acts_def by (intro exI[of _ X] exI[of _ "[]"]) simp
qed

lemma orchestration_acts_start: "weighty t = weighty s \<Longrightarrow> orchestration_acts og permit None s t"
  by (rule orchestration_acts_early[where whole = True]) (auto intro: since_same)

lemma wp_run_orchestration:
  assumes permit: "permit = permitted_plan rn xd og pl (fst (plan_made w rn og pl s))"
  shows "wp (run_orchestration w rn fw xd og pl) (\<lambda>rr. orchestration_acts og permit (Some rr) s)
     (\<lambda>e. orchestration_acts og permit None s) s"
  unfolding run_orchestration_def Let_def
proof (rule wp_andthen, rule wp_mono[OF wp_trace[OF wp_idle_same[OF adds_open_store]]], goal_cases)
  case opened: (1 x t)
  then have "weighty t = weighty s" by simp
  obtain dir errs where x: "x = (dir, errs)" by (cases x)
  show ?case
    unfolding x prod.case
  proof (rule wp_followed, rule wp_mono[OF wp_trace[OF wp_idle_same[OF adds_start_recorder]]], goal_cases)
    case start: (1 y u)
    then have "weighty u = weighty t" by simp
    show ?case
    proof (rule wp_followed, rule wp_mono[OF wp_trace[OF wp_idle_same[OF adds_announce_orchestration]]], goal_cases)
      case announced: (1 z v)
      have "permit = permitted_plan rn xd og pl (fst (planning_part w rn og pl (blank_orchestration og errs) v))"
        using opened start announced x by (simp add: permit plan_made_def andthen_def followed_def)
      note part = this
      from announced \<open>weighty u = weighty t\<close> \<open>weighty t = weighty s\<close> have v: "weighty v = weighty s" by simp
      show ?case
      proof (rule wp_andthen, rule wp_mono[OF wp_orchestrate[OF part]])
        fix oh a assume "since v (orchestrated og True permit) a"
        then obtain X where X: "weighty a = weighty s @ X" "orchestrated og True permit X"
          using v by (auto simp: since_def)
        have p: "\<not> rr_persisted (with_orchestration oh (blank_orchestration_result rn og))"
          by (simp add: with_orchestration_def blank_orchestration_result_def)
        have f: "rr_persisted (planner_usage og rr') = rr_persisted rr'" for rr' by (simp add: planner_usage_def)
        show "wp (andthen (close_record w rn (fl_degraded (oh_flow oh)) (with_orchestration oh (blank_orchestration_result rn og)))
            (\<lambda>rr. followed (run_log w rn (Some (ag_name (og_planner og))) ''info'' ''run_finished''
              [(''kind'', PStr ''orchestrator''), (''target'', PStr (ag_name (og_planner og))),
               (''status'', PStr (run_status_value (rr_status (planner_usage og rr)))), (''duration_ms'', PInt (rn_duration rn))])
              (save_result w rn (Some (ag_name (og_planner og))) dir (planner_usage og rr))))
          (\<lambda>rr. orchestration_acts og permit (Some rr) s) (\<lambda>e. orchestration_acts og permit None s) a"
        proof (rule wp_mono[OF wp_conclude[OF p f]])
          fix rr :: run_result and b assume "\<exists>P \<in> saves. weighty b = weighty a @ P \<and> (rr_persisted rr \<longleftrightarrow> P \<noteq> [])"
          with X show "orchestration_acts og permit (Some rr) s b" unfolding orchestration_acts_def by auto
        next
          fix e and b :: engine assume "\<exists>P \<in> saves. weighty b = weighty a @ P"
          with X orchestrated_part[OF X(2)] show "orchestration_acts og permit None s b" unfolding orchestration_acts_def by auto
        qed
      next
        fix e a assume "since v (orchestrated og False permit) a"
        with v show "orchestration_acts og permit None s a" by (intro orchestration_acts_early) (auto intro: since_start)
      qed
    qed (use \<open>weighty u = weighty t\<close> \<open>weighty t = weighty s\<close> in \<open>auto intro: orchestration_acts_start\<close>)
  qed (use \<open>weighty t = weighty s\<close> in \<open>auto intro: orchestration_acts_start\<close>)
qed (auto intro: orchestration_acts_start)

lemma run_orchestration_acts:
  "orchestration_acts og (permitted_plan rn xd og pl (fst (plan_made w rn og pl s))) (case fst (run_orchestration w rn fw xd og pl s) of Ok rr \<Rightarrow> Some rr | _ \<Rightarrow> None) s
     (snd (run_orchestration w rn fw xd og pl s))"
  using wp_run_orchestration[OF refl, of w rn fw xd og pl s] by (auto simp: wp_def split: prod.splits res.splits)

section \<open>Properties\<close>

text \<open>C7: in an orchestrated run the planner acts first and alone: it is started at most once and nothing is
  written for it. Agents act only if the plan that this run's planning handed over is valid, its provider
  set is empty or exactly acknowledged, the run neither plans only nor has execution switched off, and the
  execution of that plan can be built from the disk; and then only between taking and freeing the workspace
  lease, which an uncontained planner needs as well. A run that returns has freed the lease it took, and is
  reported as persisted exactly when the result is saved, after everything else.\<close>

theorem orchestration_runs_agents_behind_gates:
  "orchestration_acts og (permitted_plan rn xd og pl (fst (plan_made w rn og pl s)))
     (case fst (run_orchestration w rn fw xd og pl s) of Ok rr \<Rightarrow> Some rr | _ \<Rightarrow> None) s
     (snd (run_orchestration w rn fw xd og pl s))"
  by (rule run_orchestration_acts)

end
