(* ===== verification/Workflow_Files_Safety.thy ===== *)
theory Workflow_Files_Safety
  imports Workflow_Files
begin

text \<open>
  What loading and discovery guarantee: a mapping with a repeated key is found wherever it is in the node
  graph, whose aliases may make it cyclic, and a workflow that is found is the validated content of
  exactly one file under its own name.
\<close>

section \<open>Repeated keys\<close>

fun scalar_keys :: "node \<Rightarrow> string list" where
  "scalar_keys (MappingNode pairs) = List.map_filter (\<lambda>(key, child). map_option fst key) pairs"
| "scalar_keys _ = []"

fun children :: "node \<Rightarrow> nat list" where
  "children ScalarNode = []"
| "children (MappingNode pairs) = map snd pairs"
| "children (SequenceNode items) = items"

definition node_edges :: "node_graph \<Rightarrow> nat rel" where
  "node_edges g = {(a, b). \<exists>node. map_of g a = Some node \<and> b \<in> set (children node)}"

definition repeats :: "node_graph \<Rightarrow> nat \<Rightarrow> bool" where
  "repeats g n \<longleftrightarrow> (\<exists>node. map_of g n = Some node \<and> \<not> distinct (scalar_keys node))"

fun visits :: "errand \<Rightarrow> nat set" where
  "visits (Report m) = {}"
| "visits (Visit n path) = {n}"

definition finds :: "errand list \<Rightarrow> bool" where
  "finds todo \<longleftrightarrow> (\<exists>m. Report m \<in> set todo)"

lemma mapping_errands_reports:
  "finds (mapping_errands path seen pairs) \<longleftrightarrow>
     \<not> distinct (scalar_keys (MappingNode pairs)) \<or> set (scalar_keys (MappingNode pairs)) \<inter> set (keys seen) \<noteq> {}"
proof (induction path seen pairs rule: mapping_errands.induct)
  case (3 path seen key line child rest)
  show ?case
  proof (cases "map_of seen key")
    case None
    then have "key \<notin> set (keys seen)" by (simp add: map_of_eq_None_iff)
    with 3(1)[OF None] None show ?thesis by (auto simp: finds_def List.map_filter_simps)
  next
    case (Some l)
    then have "key \<in> set (keys seen)" by (force dest: map_of_SomeD)
    with Some show ?thesis by (auto simp: finds_def List.map_filter_simps)
  qed
qed (auto simp: finds_def List.map_filter_simps)

lemma mapping_errands_visits: "(\<Union>x \<in> set (mapping_errands path seen pairs). visits x) = snd ` set pairs"
  by (induction path seen pairs rule: mapping_errands.induct) (auto split: option.splits)

lemma node_errands_visits: "(\<Union>x \<in> set (node_errands path node). visits x) = set (children node)"
proof (cases node)
  case (SequenceNode items)
  have "snd ` set (List.enumerate 0 items) = set items" by (metis map_snd_enumerate list.set_map)
  then have "(\<Union>x \<in> set (List.enumerate 0 items). {snd x}) = set items" by auto
  then show ?thesis using SequenceNode by (simp add: case_prod_beta)
qed (simp_all add: mapping_errands_visits)

lemma node_errands_reports: "finds (node_errands path node) \<longleftrightarrow> \<not> distinct (scalar_keys node)"
proof (cases node)
  case (MappingNode pairs)
  then show ?thesis by (simp add: mapping_errands_reports)
qed (auto simp: finds_def)

lemma walk_reports: "node_walk g visited todo = [] \<Longrightarrow> \<not> finds todo"
  by (induction g visited todo rule: node_walk.induct) (auto simp: finds_def split: if_splits option.splits)

text \<open>One direction: what the walk finds is reachable from an errand.\<close>

lemma walk_sound:
  "node_walk g visited todo \<noteq> [] \<Longrightarrow> finds todo \<or> (\<exists>x \<in> set todo. \<exists>n \<in> visits x. \<exists>m. (n, m) \<in> (node_edges g)\<^sup>* \<and> repeats g m)"
proof (induction g visited todo rule: node_walk.induct)
  case (3 g visited n path rest)
  show ?case
  proof (cases "n \<in> set visited \<or> map_of g n = None")
    case True
    then show ?thesis using 3 by (auto simp: finds_def split: if_splits option.splits)
  next
    case False
    then obtain node where node: "map_of g n = Some node" by auto
    with False 3(3)[of node] 3(4) have IH: "finds (node_errands path node @ rest) \<or>
      (\<exists>x \<in> set (node_errands path node @ rest). \<exists>n \<in> visits x. \<exists>m. (n, m) \<in> (node_edges g)\<^sup>* \<and> repeats g m)"
      by auto
    have e: "(n, c) \<in> node_edges g" if "c \<in> set (children node)" for c using node that by (auto simp: node_edges_def)
    from IH consider "finds (node_errands path node)" | "finds rest"
      | x c m where "x \<in> set (node_errands path node)" "c \<in> visits x" "(c, m) \<in> (node_edges g)\<^sup>*" "repeats g m"
      | x c m where "x \<in> set rest" "c \<in> visits x" "(c, m) \<in> (node_edges g)\<^sup>*" "repeats g m"
      by (auto simp: finds_def)
    then show ?thesis
    proof cases
      case 1
      with node have "repeats g n" by (simp add: node_errands_reports repeats_def)
      then show ?thesis by auto
    next
      case 3
      then have "c \<in> set (children node)" using node_errands_visits[of path node] by auto
      from converse_rtrancl_into_rtrancl[OF e[OF this] 3(3)] 3(4) show ?thesis by auto
    qed (auto simp: finds_def)
  qed
qed (auto simp: finds_def)

text \<open>The other direction: what was visited has no repeated key, and its children were visited or are due.\<close>

definition covered :: "node_graph \<Rightarrow> nat set \<Rightarrow> nat set \<Rightarrow> bool" where
  "covered g V T \<longleftrightarrow> (\<forall>v \<in> V. \<not> repeats g v \<and> (\<forall>node. map_of g v = Some node \<longrightarrow>
     set (children node) \<subseteq> V \<union> T \<union> {c. map_of g c = None}))"

lemma covered_closed:
  assumes "covered g V {}" and "n \<in> V \<union> {c. map_of g c = None}" and "(n, m) \<in> (node_edges g)\<^sup>*"
  shows "\<not> repeats g m"
proof -
  from assms(3,2) have "m \<in> V \<union> {c. map_of g c = None}"
  proof (induction rule: rtrancl_induct)
    case (step y z)
    then obtain node where "map_of g y = Some node" "z \<in> set (children node)" by (auto simp: node_edges_def)
    moreover from this step.IH[OF assms(2)] have "y \<in> V" by auto
    ultimately show ?case using assms(1) unfolding covered_def by blast
  qed
  with assms(1) show ?thesis by (auto simp: covered_def repeats_def)
qed

lemma walk_complete:
  assumes "node_walk g visited todo = []" and "covered g (set visited) (\<Union>x \<in> set todo. visits x)"
    and "n \<in> set visited \<union> (\<Union>x \<in> set todo. visits x) \<union> {c. map_of g c = None}" and "(n, m) \<in> (node_edges g)\<^sup>*"
  shows "\<not> repeats g m"
  using assms
proof (induction g visited todo arbitrary: n m rule: node_walk.induct)
  case (1 g visited)
  then show ?case using covered_closed[of g "set visited" n m] by auto
next
  case (3 g visited k path rest)
  let ?T = "\<Union>x \<in> set rest. visits x"
  consider "k \<in> set visited" | "k \<notin> set visited" "map_of g k = None" | node where "k \<notin> set visited" "map_of g k = Some node" by auto
  then show ?case
  proof cases
    case 1
    with 3(5) have "covered g (set visited) ?T" by (auto simp: covered_def)
    with 1 3(1,4,6,7) show ?thesis by auto
  next
    case 2
    with 3(5) have "covered g (set visited) ?T" unfolding covered_def by fastforce
    with 2 3(2,4,6,7) show ?thesis by auto
  next
    case (3 node)
    have w: "node_walk g (k # visited) (node_errands path node @ rest) = []" using 3 "3.prems"(1) by simp
    from walk_reports[OF this] have "\<not> repeats g k" using 3 node_errands_reports[of path node] by (auto simp: finds_def repeats_def)
    with "3.prems"(2) have c: "covered g (set (k # visited)) (\<Union>x \<in> set (node_errands path node @ rest). visits x)"
      using 3 node_errands_visits[of path node] unfolding covered_def by (fastforce simp: UN_Un)
    show ?thesis by (rule "3.IH"(3)[OF 3 w c _ "3.prems"(4)]) (use "3.prems"(3) in auto)
  qed
qed simp

section \<open>File names\<close>

text \<open>What \<open>Path.suffix\<close> amounts to for an extension without a dot of its own.\<close>

lemma suffix_ext:
  assumes "CHR ''.'' \<notin> set e" and "e \<noteq> []"
  shows "suffix name = CHR ''.'' # e \<longleftrightarrow> (\<exists>base. base \<noteq> [] \<and> name = base @ CHR ''.'' # e)"
proof
  assume s: "suffix name = CHR ''.'' # e"
  then obtain i where i: "last_dot name = Some i" "drop i name = CHR ''.'' # e" by (auto simp: suffix_def split: option.splits)
  then have "0 < i" by (auto simp: last_dot_def Let_def split: if_splits)
  with i(2) have "take i name \<noteq> []" by auto
  moreover have "name = take i name @ CHR ''.'' # e" using i(2) by (metis append_take_drop_id)
  ultimately show "\<exists>base. base \<noteq> [] \<and> name = base @ CHR ''.'' # e" by blast
next
  assume "\<exists>base. base \<noteq> [] \<and> name = base @ CHR ''.'' # e"
  then obtain base where b: "base \<noteq> []" "name = base @ CHR ''.'' # e" by blast
  have "takeWhile (\<lambda>c. c \<noteq> CHR ''.'') (rev e @ CHR ''.'' # rev base) = rev e"
    using assms(1) by (subst takeWhile_append2) auto
  with b assms(2) have "last_dot name = Some (length base)" by (simp add: last_dot_def Let_def)
  with b(2) show "suffix name = CHR ''.'' # e" by (simp add: suffix_def)
qed

lemma suffix_yaml:
  "suffix name \<in> set WORKFLOW_SUFFIXES \<longleftrightarrow> (\<exists>base. base \<noteq> [] \<and> (name = base @ ''.yaml'' \<or> name = base @ ''.yml''))"
  using suffix_ext[of "''yaml''" name] suffix_ext[of "''yml''" name] by (auto simp: WORKFLOW_SUFFIXES_def)

section \<open>Discovery\<close>

lemma load_workflow_Inr:
  assumes "load_workflow yw read p = Inr wd"
  shows "w_name wd = stem (file_name p) \<and> validate_templates wd = Inr ()
    \<and> (\<exists>content t. read p = Inr content \<and> yw_decode yw content = Inr t
        \<and> (\<forall>x. yw_compose yw t = Inr x \<longrightarrow> duplicate_problems x = []))"
  using assms
  by (auto simp: load_workflow_def load_workflow_bytes_def Let_def bindE_eq_Inr reject_duplicate_mapping_keys_def
      split: sum.splits pyval.splits if_splits yaml_failure.splits)

lemma load_workflow_Inl: "load_workflow yw read p = Inl (Zig e) \<Longrightarrow> err_class e = ValidationError"
  by (auto simp: load_workflow_def load_workflow_bytes_def Let_def bindE_def reject_duplicate_mapping_keys_def
      reject_non_agent_step_types_def load_error_def
      split: sum.splits pyval.splits if_splits option.splits list.splits yaml_failure.splits)

lemma loaded_Inr: "loaded dv p = Inr wd \<longleftrightarrow> load_workflow (dv_yaml dv) (dv_read dv) p = Inr wd"
  by (simp add: loaded_def)

definition valid_entry :: "directory_view \<Rightarrow> string \<times> discovered_workflow \<Rightarrow> bool" where
  "valid_entry dv x \<longleftrightarrow> (case x of (name, dw) \<Rightarrow> dw_name dw = name \<and> w_name (dw_definition dw) = name
     \<and> stem (file_name (dw_path dw)) = name
     \<and> load_workflow (dv_yaml dv) (dv_read dv) (dw_path dw) = Inr (dw_definition dw))"

definition scope_path :: "string \<times> discovered_workflow \<Rightarrow> string \<times> pth" where
  "scope_path x = (dw_scope (snd x), dw_path (snd x))"

lemma discover_files_Inr:
  "discover_files dv scope ps found = Inr found' \<Longrightarrow> distinct (keys found) \<Longrightarrow> list_all (valid_entry dv) found \<Longrightarrow>
     distinct (keys found') \<and> list_all (valid_entry dv) found'
     \<and> map scope_path found' = map scope_path found @ map (Pair scope) ps"
proof (induction dv scope ps found rule: discover_files.induct)
  case (2 dv scope p ps found)
  from 2(2) obtain wd where wd: "loaded dv p = Inr wd" "map_of found (w_name wd) = None"
    "discover_files dv scope ps (found @ [(w_name wd, \<lparr>dw_name = w_name wd, dw_path = p, dw_scope = scope, dw_definition = wd\<rparr>)]) = Inr found'"
    by (auto simp: bindE_eq_Inr split: option.splits)
  define dw where "dw = \<lparr>dw_name = w_name wd, dw_path = p, dw_scope = scope, dw_definition = wd\<rparr>"
  have n: "w_name wd \<notin> set (keys found)" using wd(2) by (simp add: map_of_eq_None_iff)
  have e: "valid_entry dv (w_name wd, dw)"
    using load_workflow_Inr[OF wd(1)[unfolded loaded_Inr]] wd(1)[unfolded loaded_Inr] by (simp add: valid_entry_def dw_def)
  have "distinct (keys (found @ [(w_name wd, dw)]))" "list_all (valid_entry dv) (found @ [(w_name wd, dw)])"
    using n e 2(3,4) by simp_all
  from 2(1)[OF wd(2,3), folded dw_def, OF this] show ?case by (simp add: dw_def scope_path_def)
qed auto

text \<open>The workflow files of a directory: its regular files that have one of the two endings after a name.\<close>

definition workflow_names :: "directory_view \<Rightarrow> string \<Rightarrow> string set" where
  "workflow_names dv dir = {name. \<exists>entries base. dv_listing dv dir = Some (Inr entries) \<and> (name, True) \<in> set entries
     \<and> base \<noteq> [] \<and> (name = base @ ''.yaml'' \<or> name = base @ ''.yml'')}"

definition readable :: "directory_view \<Rightarrow> string \<Rightarrow> bool" where
  "readable dv dir \<longleftrightarrow> (case dv_listing dv dir of Some (Inl m) \<Rightarrow> False | _ \<Rightarrow> True)"

definition file_of :: "string \<Rightarrow> string \<Rightarrow> pth" where
  "file_of dir name = join_path (path_of dir) (path_of name)"

lemma workflow_files_Inr:
  assumes "workflow_files dv dir = Inr ps"
  shows "\<exists>files. ps = map (file_of dir) files \<and> sorted files \<and> set files = workflow_names dv dir \<and> readable dv dir"
proof (cases "dv_listing dv dir")
  case None
  with assms show ?thesis by (auto simp: workflow_files_def workflow_names_def readable_def)
next
  case (Some r)
  with assms obtain entries where r: "r = Inr entries" by (cases r) (auto simp: workflow_files_def)
  define files where "files = sort (map fst (filter (\<lambda>(name, is_file). is_file \<and> suffix name \<in> set WORKFLOW_SUFFIXES) entries))"
  have "ps = map (file_of dir) files" using assms Some r by (simp add: workflow_files_def files_def file_of_def[abs_def])
  moreover have "set files = workflow_names dv dir"
  proof -
    have "name \<in> set files \<longleftrightarrow> (name, True) \<in> set entries \<and> suffix name \<in> set WORKFLOW_SUFFIXES" for name
      by (force simp: files_def)
    moreover have "name \<in> workflow_names dv dir \<longleftrightarrow> (name, True) \<in> set entries
        \<and> (\<exists>base. base \<noteq> [] \<and> (name = base @ ''.yaml'' \<or> name = base @ ''.yml''))" for name
      using Some r by (simp add: workflow_names_def)
    ultimately show ?thesis by (simp only: set_eq_iff suffix_yaml simp_thms)
  qed
  moreover have "sorted files" "readable dv dir" using Some r by (simp_all add: files_def readable_def)
  ultimately show ?thesis by blast
qed

text \<open>What is found is, in this order, the workflow files of the two directories.\<close>

definition finds_files :: "directory_view \<Rightarrow> string \<Rightarrow> (string \<times> discovered_workflow) list \<Rightarrow> bool" where
  "finds_files dv workspace found \<longleftrightarrow> (let project = project_workflows_dir workspace; user = user_workflows_dir dv in
     readable dv project \<and> readable dv user \<and> (\<exists>ps us. set ps = workflow_names dv project \<and> set us = workflow_names dv user
     \<and> sorted_wrt (<) ps \<and> sorted_wrt (<) us
     \<and> map scope_path found = map (\<lambda>name. (SCOPE_PROJECT, file_of project name)) ps @ map (\<lambda>name. (SCOPE_USER, file_of user name)) us))"

lemma discover_Inr:
  assumes "discover dv workspace = Inr found"
  shows "finds_files dv workspace found \<and> distinct (keys found) \<and> list_all (valid_entry dv) found"
proof -
  let ?p = "project_workflows_dir workspace" and ?u = "user_workflows_dir dv"
  from assms obtain ps us found1 where d: "workflow_files dv ?p = Inr ps"
    "discover_files dv SCOPE_PROJECT ps [] = Inr found1" "workflow_files dv ?u = Inr us"
    "discover_files dv SCOPE_USER us found1 = Inr found" by (auto simp: discover_def bindE_eq_Inr)
  with discover_files_Inr[OF d(2)] discover_files_Inr[OF d(4)]
  have f: "map scope_path found = map (Pair SCOPE_PROJECT) ps @ map (Pair SCOPE_USER) us" "distinct (keys found)"
    "list_all (valid_entry dv) found" by auto
  obtain pn un where n: "ps = map (file_of ?p) pn" "sorted pn" "set pn = workflow_names dv ?p" "readable dv ?p"
    "us = map (file_of ?u) un" "sorted un" "set un = workflow_names dv ?u" "readable dv ?u"
    using workflow_files_Inr[OF d(1)] workflow_files_Inr[OF d(3)] by blast
  have "map (stem \<circ> file_name \<circ> snd) (map scope_path found) = keys found"
    using f(3) by (auto simp: list_all_iff valid_entry_def scope_path_def)
  with f(1) have "keys found = map (stem \<circ> file_name) ps @ map (stem \<circ> file_name) us" by (simp add: comp_def)
  with f(2) have "distinct (map (stem \<circ> file_name) ps)" "distinct (map (stem \<circ> file_name) us)" by simp_all
  then have "distinct pn" "distinct un" unfolding n(1,5) map_map by (auto simp: distinct_map)
  with n(2,6) have "sorted_wrt (<) pn" "sorted_wrt (<) un" by (simp_all add: strict_sorted_iff)
  moreover have "map scope_path found = map (\<lambda>name. (SCOPE_PROJECT, file_of ?p name)) pn @ map (\<lambda>name. (SCOPE_USER, file_of ?u name)) un"
    using f(1) n(1,5) by simp
  ultimately show ?thesis using f(2,3) n(3,4,7,8) unfolding finds_files_def Let_def by blast
qed

section \<open>Properties\<close>

text \<open>C24: the walk over the node graph of a workflow file ends although aliases may make the graph cyclic, and
  it finds nothing exactly when no mapping that can be reached from the root, along any path of keys,
  items and aliases, declares a scalar key twice.\<close>

theorem repeated_keys_are_found_in_any_graph:
  "node_walk g [] [Visit r []] = [] \<longleftrightarrow> \<not> (\<exists>n. (r, n) \<in> (node_edges g)\<^sup>* \<and> repeats g n)"
proof
  assume "node_walk g [] [Visit r []] = []"
  from walk_complete[OF this] show "\<not> (\<exists>n. (r, n) \<in> (node_edges g)\<^sup>* \<and> repeats g n)" by (auto simp: covered_def)
next
  assume "\<not> (\<exists>n. (r, n) \<in> (node_edges g)\<^sup>* \<and> repeats g n)"
  then show "node_walk g [] [Visit r []] = []" using walk_sound[of g "[]" "[Visit r []]"] by (auto simp: finds_def)
qed

text \<open>C28: discovery finds every regular file of the project's and then of the user's workflow directory whose
  name ends in \<open>.yaml\<close> or \<open>.yml\<close> after at least one character, each directory sorted by name and each file
  once, or it refuses: what it finds is the validated content of each file under the file's own stem, and
  no name belongs to two files, be it in two scopes or with the two suffixes in one.\<close>

theorem discovery_is_unambiguous:
  "case discover dv workspace of
     Inl e \<Rightarrow> True
   | Inr found \<Rightarrow> distinct (keys found) \<and> list_all (valid_entry dv) found \<and> finds_files dv workspace found"
  using discover_Inr[of dv workspace] by (auto split: sum.splits)

lemma contained_in_base:
  assumes "(scope, p) \<in> set (contained_in dv raw workspace)"
  shows "\<exists>base \<in> {workspace, user_workflows_dir dv}. resolve_contained (dv_realpath dv) base (py_repr raw) raw = Inr p"
  using assms by (auto simp: contained_in_def List.map_filter_simps split: sum.splits)

lemma resolve_workflow_Inr:
  assumes Inr: "resolve_workflow dv s workspace = Inr dw"
  shows "valid_entry dv (dw_name dw, dw)
       \<and> (if re_match NAME_RE s
          then dw_name dw = s \<and> (\<exists>found. discover dv workspace = Inr found \<and> (s, dw) \<in> set found)
          else \<exists>candidate base. dv_expanduser dv s = Inr candidate \<and> (base = workspace \<or> base = user_workflows_dir dv)
            \<and> resolve_contained (dv_realpath dv) base (py_repr candidate) candidate = Inr (dw_path dw))"
proof (cases "re_match NAME_RE s")
  case True
  then obtain found where f: "discover dv workspace = Inr found" "map_of found s = Some dw"
    using Inr by (auto simp: resolve_workflow_def bindE_eq_Inr split: option.splits)
  from map_of_SomeD[OF f(2)] discover_Inr[OF f(1)] f True Inr show ?thesis by (auto simp: list_all_iff valid_entry_def)
next
  case False
  then obtain candidate where c: "dv_expanduser dv s = Inr candidate"
    using Inr by (auto simp: resolve_workflow_def resolve_direct_path_def split: sum.splits)
  with False Inr obtain scope p wd where p: "List.find (\<lambda>(scope, p). dv_is_file dv p) (contained_in dv candidate workspace) = Some (scope, p)"
    "loaded dv p = Inr wd" "dw = \<lparr>dw_name = w_name wd, dw_path = p, dw_scope = scope, dw_definition = wd\<rparr>"
    by (auto simp: resolve_workflow_def resolve_direct_path_def Let_def bindE_eq_Inr split: if_splits option.splits)
  have "(scope, p) \<in> set (contained_in dv candidate workspace)" using p(1) by (auto simp: find_Some_iff in_set_conv_nth)
  from contained_in_base[OF this] c p(2,3) False Inr load_workflow_Inr[of "dv_yaml dv" "dv_read dv" p wd] show ?thesis
    by (auto simp: valid_entry_def loaded_Inr)
qed

lemma load_workflow_validated: "load_workflow yw read p = Inr wd \<Longrightarrow> \<exists>data. yw_validate yw data = Inr wd"
  by (auto simp: load_workflow_def load_workflow_bytes_def Let_def bindE_eq_Inr split: sum.splits pyval.splits if_splits yaml_failure.splits)

text \<open>a workflow that is looked up is the validated content of its file. A name gives the one discovered
  file of that stem; anything else is a path, taken only if it resolves canonically inside the workspace
  or the user's workflow directory.\<close>

theorem lookup_gives_validated_files:
  "case resolve_workflow dv s workspace of
     Inl e \<Rightarrow> True
   | Inr dw \<Rightarrow> valid_entry dv (dw_name dw, dw)
       \<and> (if re_match NAME_RE s
          then dw_name dw = s \<and> (\<exists>found. discover dv workspace = Inr found \<and> (s, dw) \<in> set found)
          else \<exists>candidate base. dv_expanduser dv s = Inr candidate \<and> (base = workspace \<or> base = user_workflows_dir dv)
            \<and> resolve_contained (dv_realpath dv) base (py_repr candidate) candidate = Inr (dw_path dw))"
  using resolve_workflow_Inr[of dv s workspace] by (auto split: sum.splits)

end
