(* ===== verification/Preparation.thy ===== *)
theory Preparation
  imports Plan_Execution Direct_Run Workflow_Files
begin

text \<open>
  \<open>engine/prepare.py\<close>: from the resolved configuration and the flags of the command line to what the three
  drivers run. Everything that can refuse a run refuses it here, in this order, before a process is
  started; the one effect of success is the opening of the metadata log.
\<close>

section \<open>What is given\<close>

record run_overrides =
  ov_no_save :: bool
  ov_capture :: "capture_profile option"
  ov_timeout :: "int option"
  ov_acknowledge :: "string list option"
  ov_plan_only :: bool

text \<open>
  The outside of a preparation. \<open>pr_seconds\<close> and \<open>pr_grace\<close> give the unit of all durations;
  \<open>pr_logger\<close> is the exception of opening the log, and the last field the arguments that the caller will
  hand to the driver.
\<close>

record preparation_world =
  pr_why :: "string \<Rightarrow> string"
  pr_loads :: "string \<Rightarrow> json_result"
  pr_view :: directory_view
  pr_disk :: disk
  pr_prose :: meta_prose
  pr_realpath :: fs
  pr_expanduser :: "string \<Rightarrow> string + string"
  pr_logger :: "string option \<Rightarrow> int \<Rightarrow> exn option"
  pr_seconds :: "int \<Rightarrow> int"
  pr_grace :: "string \<Rightarrow> int"
  pr_driver :: "bool \<times> bool \<times> bool"

section \<open>Shared parts\<close>

text \<open>\<open>_egress_acknowledgement\<close>\<close>

definition egress_acknowledgement :: "ziggy_config \<Rightarrow> string \<Rightarrow> string list option \<Rightarrow> string option" where
  "egress_acknowledgement cfg provider flag_providers =
     (if (case flag_providers of None \<Rightarrow> False | Some fs \<Rightarrow> provider \<in> set fs) then Some ACK_BY_FLAG
      else if list_ex (\<lambda>entry. provider \<in> set entry) (eg_acknowledged_provider_sets (c_egress cfg)) then Some ACK_BY_CONFIG
      else None)"

definition capture_of :: "ziggy_config \<Rightarrow> run_overrides \<Rightarrow> capture_profile" where
  "capture_of cfg ov = (case ov_capture ov of Some p \<Rightarrow> p | None \<Rightarrow> rc_capture (c_results cfg))"

definition step_ceiling :: "preparation_world \<Rightarrow> ziggy_config \<Rightarrow> int" where
  "step_ceiling pr cfg = pr_seconds pr (default_step_timeout_seconds (c_engine cfg))"

definition timeout_of :: "preparation_world \<Rightarrow> ziggy_config \<Rightarrow> run_overrides \<Rightarrow> int" where
  "timeout_of pr cfg ov = (case ov_timeout ov of None \<Rightarrow> step_ceiling pr cfg | Some t \<Rightarrow> min t (step_ceiling pr cfg))"

definition no_save_of :: "ziggy_config \<Rightarrow> run_overrides \<Rightarrow> bool" where
  "no_save_of cfg ov \<longleftrightarrow> ov_no_save ov \<or> \<not> rc_persist (c_results cfg)"

definition patterns_of :: "ziggy_config \<Rightarrow> custom_pattern list" where
  "patterns_of cfg = map (\<lambda>p. \<lparr>cu_kind = cp_kind p, cu_regex = cp_regex p, cu_max_width = cp_max_width p\<rparr>)
     (rd_patterns (c_redaction cfg))"

definition limits_of :: "ziggy_config \<Rightarrow> event_limits" where
  "limits_of cfg = DEFAULT_LIMITS\<lparr>event_limits.max_event_bytes_per_step := nat (engine_config.max_event_bytes_per_step (c_engine cfg)),
     event_limits.max_artifact_bytes_per_run := nat (engine_config.max_artifact_bytes_per_run (c_engine cfg))\<rparr>"

text \<open>The values of the configured variables that are set and not empty.\<close>

definition extra_values :: "ziggy_config \<Rightarrow> (string \<times> string) list \<Rightarrow> (string \<times> string) list" where
  "extra_values cfg env = List.map_filter (\<lambda>name. case map_of env name of
     None \<Rightarrow> None | Some v \<Rightarrow> if v = [] then None else Some (''env:'' @ name, v)) (rd_extra_value_env_vars (c_redaction cfg))"

text \<open>\<open>add_secret\<close>: each pair once, in the order of the first.\<close>

definition add_secrets :: "(string \<times> string) list \<Rightarrow> (string \<times> string) list \<Rightarrow> (string \<times> string) list" where
  "add_secrets acc pairs = foldl (\<lambda>ss pair. if pair \<in> set ss then ss else ss @ [pair]) acc pairs"

text \<open>The policy of the workspace, whose errors are not caught.\<close>

definition run_policy :: "preparation_world \<Rightarrow> ziggy_config \<Rightarrow> string \<Rightarrow> exn + policy" where
  "run_policy pr cfg workspace = (let perms = c_permissions cfg in
     case guarded (pr_realpath pr) workspace workspace (map_of (pc_profiles perms) (pc_default_policy perms))
            (map Configured (pc_project_denials perms)) [] (Some (pc_default_policy perms)) of
       Inl e \<Rightarrow> Inl (Python (guard_text e)) | Inr po \<Rightarrow> Inr po)"

text \<open>Opening the metadata log, the last thing that can fail.\<close>

definition open_log :: "preparation_world \<Rightarrow> ziggy_config \<Rightarrow> run_overrides \<Rightarrow> exn + unit" where
  "open_log pr cfg ov =
     bindE (case rc_store_path (c_results cfg) of None \<Rightarrow> Inr None
       | Some p \<Rightarrow> (case pr_expanduser pr p of Inl m \<Rightarrow> Inl (Python m) | Inr d \<Rightarrow> Inr (Some d))) (\<lambda>store_root.
     if no_save_of cfg ov then Inr ()
     else (case pr_logger pr store_root (lg_retention_days (c_logs cfg)) of Some e \<Rightarrow> Inl e | None \<Rightarrow> Inr ()))"

definition outcome_error :: "'a outcome \<Rightarrow> exn + 'a" where
  "outcome_error x = (case x of Returns v \<Rightarrow> Inr v | Raises e \<Rightarrow> Inl (Zig e) | Escapes m \<Rightarrow> Inl (Python m))"

section \<open>A direct run\<close>

definition prompt_over_limit :: "string \<Rightarrow> ziggy_config \<Rightarrow> zerror" where
  "prompt_over_limit prompt cfg = (let n = int (utf8_len prompt); limit = max_prompt_bytes (c_engine cfg) in
     \<lparr>err_class = ResourceLimitError,
      message = ''prompt is '' @ str_of_int n @ '' bytes; engine.max_prompt_bytes is '' @ str_of_int limit,
      details = [(''prompt_bytes'', PInt n), (''max_prompt_bytes'', PInt limit)]\<rparr>)"

text \<open>\<open>prepare_run\<close>\<close>

definition prepare_run ::
  "preparation_world \<Rightarrow> ziggy_config \<Rightarrow> string \<Rightarrow> string \<Rightarrow> string \<Rightarrow> string \<Rightarrow> run_overrides \<Rightarrow> (string \<times> string) list \<Rightarrow> exn + run_spec" where
  "prepare_run pr cfg fingerprint agent prompt workspace ov env =
     bindE (zig (from_config (pr_why pr) cfg)) (\<lambda>reg.
     bindE (zig (get_agent reg agent)) (\<lambda>ag.
     if max_prompt_bytes (c_engine cfg) < int (utf8_len prompt) then Inl (Zig (prompt_over_limit prompt cfg))
     else bindE (zig (compose_child_env ag env)) (\<lambda>(child, secrets).
     bindE (run_policy pr cfg workspace) (\<lambda>po.
     bindE (open_log pr cfg ov) (\<lambda>_.
       Inr \<lparr>ru_agent = agent, ru_command = ag_command ag, ru_args = ag_args ag, ru_env = child, ru_cwd = workspace,
         ru_prompt = prompt, ru_profile = capture_of cfg ov, ru_no_save = no_save_of cfg ov,
         ru_timeout = timeout_of pr cfg ov, ru_grace = pr_grace pr (cancel_grace_seconds (c_engine cfg)),
         ru_provider = Some (step_provider ag), ru_limits = limits_of cfg,
         ru_secret_values = Some (secrets @ extra_values cfg env), ru_patterns = patterns_of cfg,
         ru_policy = Some po, ru_provenance = Some (build_policy_provenance po None), ru_fingerprint = Some fingerprint,
         ru_acknowledged_by = egress_acknowledgement cfg (step_provider ag) (ov_acknowledge ov),
         ru_has_render = fst (pr_driver pr), ru_cancellable = fst (snd (pr_driver pr)), ru_override = snd (snd (pr_driver pr))\<rparr>)))))"

section \<open>A workflow\<close>

fun agent_configs :: "registry \<Rightarrow> (string \<times> step_def) list \<Rightarrow> zerror + (string \<times> agent_config) list" where
  "agent_configs reg [] = Inr []"
| "agent_configs reg ((step, sd) # steps) =
     bindE (get_agent reg (s_agent sd)) (\<lambda>ag. bindE (agent_configs reg steps) (\<lambda>rest. Inr ((step, ag) # rest)))"

text \<open>One step, with the credentials of its agent; \<open>agents\<close> has every step.\<close>

definition prepare_step ::
  "preparation_world \<Rightarrow> ziggy_config \<Rightarrow> string \<Rightarrow> (string \<times> agent_config) list \<Rightarrow> (string \<times> string) list \<Rightarrow> string \<times> step_def
    \<Rightarrow> exn + (string \<times> prepared_step) \<times> (string \<times> string) list" where
  "prepare_step pr cfg workspace agents env x = (case x of (step, sd) \<Rightarrow> (let ag = the (map_of agents step) in
     bindE (zig (compose_child_env ag env)) (\<lambda>(child, secrets).
     bindE (step_policy (pr_realpath pr) cfg workspace step sd) (\<lambda>po.
       Inr ((step, \<lparr>ps_config = ag, ps_provider = step_provider ag, ps_env = child, ps_policy = po,
         ps_timeout = (case s_timeout_seconds sd of Some t \<Rightarrow> min (pr_seconds pr t) (step_ceiling pr cfg) | None \<Rightarrow> step_ceiling pr cfg)\<rparr>),
         secrets)))))"

definition workflow_too_long :: "ziggy_config \<Rightarrow> workflow_def \<Rightarrow> zerror" where
  "workflow_too_long cfg wd = too_many_steps ''workflow'' (w_name wd) (length (w_steps wd)) (max_workflow_steps (c_engine cfg))"

text \<open>\<open>prepare_workflow\<close>\<close>

definition prepare_workflow ::
  "preparation_world \<Rightarrow> ziggy_config \<Rightarrow> string \<Rightarrow> string \<Rightarrow> (string \<times> string) list \<Rightarrow> string \<Rightarrow> run_overrides \<Rightarrow> (string \<times> string) list
    \<Rightarrow> exn + prepared_workflow" where
  "prepare_workflow pr cfg fingerprint name_or_path cli workspace ov env =
     bindE (resolve_workflow (pr_view pr) name_or_path workspace) (\<lambda>dw. let wd = dw_definition dw in
     bindE (zig (validate_templates wd)) (\<lambda>_.
     if max_workflow_steps (c_engine cfg) < int (length (w_steps wd)) then Inl (Zig (workflow_too_long cfg wd))
     else bindE (zig (topo_order wd)) (\<lambda>order.
     bindE (zig (from_config (pr_why pr) cfg)) (\<lambda>reg.
     bindE (zig (agent_configs reg (w_steps wd))) (\<lambda>agents.
     bindE (outcome_error (validate_variables (pr_loads pr) wd cli)) (\<lambda>vs.
     bindE (zig (check_secret_allowances wd (map (\<lambda>(step, ag). (step, step_provider ag)) agents)
         (wc_secret_variable_allowances (c_workflows cfg)))) (\<lambda>_.
     bindE (prepare_all (prepare_step pr cfg workspace agents env) (w_steps wd)) (\<lambda>steps.
     bindE (zig (required_provider_set wd reg)) (\<lambda>providers. let ack = is_acknowledged providers cfg (ov_acknowledge ov) in
     bindE (zig (gate_egress providers ack)) (\<lambda>_.
     bindE (zig (build_egress_records wd reg ack)) (\<lambda>records.
     bindE (run_policy pr cfg workspace) (\<lambda>po.
     bindE (open_log pr cfg ov) (\<lambda>_.
       Inr \<lparr>pw_workflow = wd, pw_variables = vs, pw_workspace = workspace, pw_order = order, pw_steps = map fst steps,
         pw_provider_set = providers, pw_acknowledged_by = ack, pw_records = records, pw_limits = limits_of cfg,
         pw_profile = capture_of cfg ov, pw_no_save = no_save_of cfg ov, pw_fingerprint = Some fingerprint,
         pw_provenance = Some (build_policy_provenance po None),
         pw_secrets = add_secrets [] (concat (map snd steps) @ extra_values cfg env @ secret_redaction_values wd vs),
         pw_patterns = patterns_of cfg,
         pw_timeout = Some (pr_seconds pr (default_workflow_timeout_seconds (c_engine cfg))),
         pw_default_timeout = pr_seconds pr (default_workflow_timeout_seconds (c_engine cfg)),
         pw_grace = pr_grace pr (cancel_grace_seconds (c_engine cfg)), pw_max_prompt = max_prompt_bytes (c_engine cfg),
         pw_has_render = fst (pr_driver pr), pw_cancellable = fst (snd (pr_driver pr)), pw_override = snd (snd (pr_driver pr))\<rparr>)))))))))))))"

section \<open>An orchestrated run\<close>

definition RULE_UNCONTAINED_PLANNER_ACK :: string where "RULE_UNCONTAINED_PLANNER_ACK = ''uncontained-planner-ack''"

definition no_planner :: zerror where
  "no_planner = config_error (''orchestrator.agent is not configured; set orchestrator.agent to a ''
     @ ''trusted user-registered agent name to enable `ziggy orchestrate`'') [(''key'', PStr ''orchestrator.agent'')]"

definition planner_uncontained :: "agent_config \<Rightarrow> zerror" where
  "planner_uncontained ag = \<lparr>err_class = TrustPolicyError,
     message = ''planner agent '' @ [CHR 0x27] @ ag_name ag @ [CHR 0x27] @ '' is assumed to have direct filesystem/''
       @ ''shell tools that Ziggy cannot disable or OS-contain; planning is refused by default. To accept this ''
       @ ''advisory boundary, set orchestrator.allow_uncontained_planner = true in trusted USER ''
       @ ''config (project config can never set it).'',
     details = [(''agent'', PStr (ag_name ag)), (''key'', PStr ''orchestrator.allow_uncontained_planner''),
       (''enforcement'', PStr ''advisory'')]\<rparr>"

definition meta_prompt_over_limit :: "string \<Rightarrow> string \<Rightarrow> ziggy_config \<Rightarrow> zerror" where
  "meta_prompt_over_limit prompt goal cfg = (let n = int (utf8_len prompt); g = int (utf8_len goal); limit = max_prompt_bytes (c_engine cfg) in
     \<lparr>err_class = ResourceLimitError,
      message = ''planning meta-prompt is '' @ str_of_int n @ '' bytes (goal is '' @ str_of_int g
        @ '' bytes); engine.max_prompt_bytes is '' @ str_of_int limit,
      details = [(''prompt_bytes'', PInt n), (''goal_bytes'', PInt g), (''max_prompt_bytes'', PInt limit)]\<rparr>)"

text \<open>The credentials of every registered agent that the parent environment has.\<close>

definition credential_values :: "registry \<Rightarrow> (string \<times> string) list \<Rightarrow> (string \<times> string) list" where
  "credential_values reg env = List.map_filter (\<lambda>ag. case ag_api_key_env ag of
     None \<Rightarrow> None
   | Some var \<Rightarrow> (let v = get_or [] env var in if var = [] \<or> v = [] then None else Some (''env:'' @ var, v))) (list_agents reg)"

definition uncontained_rule :: "agent_config \<Rightarrow> (string \<times> pyval) list" where
  "uncontained_rule ag = [(''rule_id'', PStr RULE_UNCONTAINED_PLANNER_ACK), (''effect'', PStr ''acknowledge''),
     (''source'', PStr SOURCE_USER), (''uncontained_planner_ack'', PBool True), (''enforcement'', PStr ''advisory''),
     (''agent'', PStr (ag_name ag))]"

definition planning_provenance :: "policy \<Rightarrow> agent_config \<Rightarrow> policy_provenance" where
  "planning_provenance po ag = (let pp = build_policy_provenance po None in
     if ag_direct_tools_assumed ag then pp\<lparr>pp_rules := pp_rules pp @ [uncontained_rule ag]\<rparr> else pp)"

text \<open>\<open>prepare_orchestration\<close>; the planner's \<open>inherit_env\<close> is cleared for its environment only.\<close>

definition prepare_orchestration ::
  "preparation_world \<Rightarrow> ziggy_config \<Rightarrow> string \<Rightarrow> string \<Rightarrow> string \<Rightarrow> run_overrides \<Rightarrow> (string \<times> string) list \<Rightarrow> exn + prepared_orchestration" where
  "prepare_orchestration pr cfg fingerprint goal workspace ov env = (let orch = c_orchestrator cfg in
     case oc_agent orch of
       None \<Rightarrow> Inl (Zig no_planner)
     | Some [] \<Rightarrow> Inl (Zig no_planner)
     | Some (c # cs) \<Rightarrow>
         bindE (zig (from_config (pr_why pr) cfg)) (\<lambda>reg.
         bindE (zig (get_agent reg (c # cs))) (\<lambda>ag.
         if ag_direct_tools_assumed ag \<and> \<not> oc_allow_uncontained_planner orch then Inl (Zig (planner_uncontained ag))
         else bindE (zig (build_catalog (pr_disk pr) cfg reg workspace)) (\<lambda>cat.
         let prompt = render_meta_prompt (pr_prose pr) cat goal (oc_max_inline_steps orch) (max_prompt_bytes (c_engine cfg)) in
         if max_prompt_bytes (c_engine cfg) < int (utf8_len prompt) then Inl (Zig (meta_prompt_over_limit prompt goal cfg))
         else bindE (zig (compose_child_env (ag\<lparr>ag_inherit_env := []\<rparr>) env)) (\<lambda>(child, secrets).
         bindE (run_policy pr cfg workspace) (\<lambda>po.
         bindE (open_log pr cfg ov) (\<lambda>_.
           Inr \<lparr>og_config = cfg, og_registry = reg, og_planner = ag, og_provider = step_provider ag, og_catalog = cat,
             og_goal = goal, og_meta_prompt = prompt, og_workspace = workspace, og_plan_only = ov_plan_only ov,
             og_auto_execute = oc_auto_execute orch, og_uncontained = ag_direct_tools_assumed ag,
             og_lease_first = ag_direct_tools_assumed ag, og_env = child, og_acknowledge = ov_acknowledge ov, og_base_env = env,
             og_profile = capture_of cfg ov, og_no_save = no_save_of cfg ov, og_limits = limits_of cfg,
             og_fingerprint = Some fingerprint, og_provenance = planning_provenance po ag,
             og_secrets = add_secrets secrets (credential_values reg env @ extra_values cfg env), og_patterns = patterns_of cfg,
             og_timeout = timeout_of pr cfg ov, og_deadline = pr_seconds pr (default_workflow_timeout_seconds (c_engine cfg)),
             og_grace = pr_grace pr (cancel_grace_seconds (c_engine cfg)), og_max_prompt = max_prompt_bytes (c_engine cfg),
             og_seconds = pr_seconds pr, og_has_render = fst (pr_driver pr), og_cancellable = fst (snd (pr_driver pr)),
             og_override = snd (snd (pr_driver pr))\<rparr>)))))))"

end
