(* ===== verification/Preparation_Safety.thy ===== *)
theory Preparation_Safety
  imports Preparation Execution_Safety Orchestration_Safety Workflow_Files_Safety Run_Guarantees
begin

text \<open>
  What preparation guarantees of the runs it lets through: the gates they have passed, the limits they
  keep, and that every credential a child process gets is among the values to redact.
\<close>

section \<open>Secrets\<close>

lemma add_secrets_set: "set (add_secrets acc pairs) = set acc \<union> set pairs"
  unfolding add_secrets_def by (induction pairs arbitrary: acc) auto

lemma add_secrets_distinct: "distinct acc \<Longrightarrow> distinct (add_secrets acc pairs)"
  unfolding add_secrets_def by (induction pairs arbitrary: acc) auto

text \<open>The credential of an agent, if it can be composed.\<close>

lemma composed_credential:
  assumes "compose_child_env ag env = Inr (child, secrets)" and "s \<in> set secrets"
  shows "\<exists>var v. ag_api_key_env ag = Some var \<and> map_of env var = Some v \<and> v \<noteq> [] \<and> s = (''env:'' @ var, v)"
  using assms by (auto simp: compose_child_env_def Let_def get_or_def split: option.splits list.splits)

lemma get_agent_listed: "get_agent reg name = Inr ag \<Longrightarrow> ag \<in> set (list_agents reg)"
proof -
  assume "get_agent reg name = Inr ag"
  then have m: "map_of reg name = Some ag" by (auto simp: get_agent_def split: option.splits)
  show ?thesis
  proof (cases "is_builtin name")
    case True
    then show ?thesis using m by (force simp: list_agents_def is_builtin_def)
  next
    case False
    from map_of_SomeD[OF m] False have "(name, ag) \<in> set (filter (\<lambda>(name, c). \<not> is_builtin name) reg)" by simp
    then show ?thesis unfolding list_agents_def by force
  qed
qed

lemma credential_listed:
  assumes "ag \<in> set (list_agents reg)" and "compose_child_env ag env = Inr (child, secrets)" and "[] \<notin> set (keys env)"
  shows "set secrets \<subseteq> set (credential_values reg env)"
proof
  fix s assume "s \<in> set secrets"
  then obtain var v where s: "ag_api_key_env ag = Some var" "map_of env var = Some v" "v \<noteq> []" "s = (''env:'' @ var, v)"
    using composed_credential[OF assms(2)] by blast
  moreover have "var \<noteq> []" using s(2) assms(3) by (force dest: map_of_SomeD)
  ultimately show "s \<in> set (credential_values reg env)"
    using assms(1) unfolding credential_values_def by (force simp: List.map_filter_def get_or_def Let_def)
qed

section \<open>Prepared workflows\<close>

text \<open>
  A prepared step: the agent that the step names, its provider, the composed environment, the policy of the
  step and a time under the ceiling. The steps of a file are a dictionary, so \<open>map_of\<close> gives the one of a name.
\<close>

definition prepared_ok ::
  "preparation_world \<Rightarrow> ziggy_config \<Rightarrow> registry \<Rightarrow> (string \<times> string) list \<Rightarrow> prepared_workflow \<Rightarrow> string \<times> prepared_step \<Rightarrow> bool" where
  "prepared_ok pr cfg reg env pw x \<longleftrightarrow> (case x of (step, pre) \<Rightarrow>
     ps_provider pre = step_provider (ps_config pre) \<and> ps_timeout pre \<le> step_ceiling pr cfg
     \<and> (\<exists>secrets. compose_child_env (ps_config pre) env = Inr (ps_env pre, secrets) \<and> set secrets \<subseteq> set (pw_secrets pw))
     \<and> (\<exists>sd. map_of (w_steps (pw_workflow pw)) step = Some sd \<and> get_agent reg (s_agent sd) = Inr (ps_config pre))
     \<and> (\<exists>sd. (step, sd) \<in> set (w_steps (pw_workflow pw))
          \<and> step_policy (pr_realpath pr) cfg (pw_workspace pw) step sd = Inr (ps_policy pre)))"

text \<open>An acknowledgement answers for exactly the set of providers, by the flag or by one entry of the configuration.\<close>

definition acknowledged :: "ziggy_config \<Rightarrow> run_overrides \<Rightarrow> string set \<Rightarrow> string \<Rightarrow> bool" where
  "acknowledged cfg ov providers how \<longleftrightarrow>
     how = ACK_BY_FLAG \<and> (\<exists>fs. ov_acknowledge ov = Some fs \<and> named_set fs = providers)
     \<or> how = ACK_BY_CONFIG \<and> (\<exists>entry \<in> set (eg_acknowledged_provider_sets (c_egress cfg)). named_set entry = providers)"

lemma is_acknowledged_exactly:
  assumes "is_acknowledged providers cfg (ov_acknowledge ov) = Some how"
  shows "acknowledged cfg ov providers how"
  using assms unfolding is_acknowledged_def acknowledged_def
  by (auto simp: list_ex_iff split: if_splits option.splits)

lemma agent_configs_lookup:
  assumes "agent_configs reg steps = Inr agents" and "step \<in> set (keys steps)"
  shows "\<exists>sd. map_of steps step = Some sd \<and> get_agent reg (s_agent sd) = Inr (the (map_of agents step))"
  using assms
proof (induction reg steps arbitrary: agents rule: agent_configs.induct)
  case (2 reg k sd steps)
  then obtain ag rest where r: "get_agent reg (s_agent sd) = Inr ag" "agent_configs reg steps = Inr rest" "agents = (k, ag) # rest"
    by (auto simp: bindE_eq_Inr)
  show ?case
  proof (cases "step = k")
    case False
    with 2(3) have "step \<in> set (keys steps)" by simp
    from 2(1)[OF r(2) this] False r(3) show ?thesis by simp
  qed (use r in simp)
qed simp

lemma prepare_all_keys:
  assumes "prepare_all f xs = Inr ys" and "\<And>x y. f x = Inr y \<Longrightarrow> h y = g x"
  shows "map h ys = map g xs"
  using assms(1)
proof (induction xs arbitrary: ys)
  case (Cons x xs)
  then show ?case using assms(2) by (auto simp: bindE_eq_Inr)
qed simp

lemma prepare_step_Inr:
  assumes "prepare_step pr cfg workspace agents env (step, sd) = Inr ((step', pre), secrets)"
  shows "step' = step \<and> ps_config pre = the (map_of agents step) \<and> compose_child_env (ps_config pre) env = Inr (ps_env pre, secrets)
    \<and> ps_provider pre = step_provider (ps_config pre) \<and> ps_timeout pre \<le> step_ceiling pr cfg
    \<and> step_policy (pr_realpath pr) cfg workspace step sd = Inr (ps_policy pre)"
  using assms by (auto simp: prepare_step_def Let_def bindE_eq_Inr split: option.splits)

text \<open>What the stages of the preparation say of a prepared workflow.\<close>

lemma prepare_workflow_Inr:
  assumes "prepare_workflow pr cfg fingerprint s cli workspace ov env = Inr pw"
  shows "\<exists>dw reg steps agents vs.
     resolve_workflow (pr_view pr) s workspace = Inr dw \<and> pw_workflow pw = dw_definition dw
     \<and> validate_templates (pw_workflow pw) = Inr () \<and> int (length (w_steps (pw_workflow pw))) \<le> max_workflow_steps (c_engine cfg)
     \<and> topo_order (pw_workflow pw) = Inr (pw_order pw)
     \<and> from_config (pr_why pr) cfg = Inr reg \<and> agent_configs reg (w_steps (pw_workflow pw)) = Inr agents
     \<and> build_egress_records (pw_workflow pw) reg (pw_acknowledged_by pw) = Inr (pw_records pw)
     \<and> check_secret_allowances (pw_workflow pw) (map (\<lambda>(step, ag). (step, step_provider ag)) agents)
         (wc_secret_variable_allowances (c_workflows cfg)) = Inr ()
     \<and> prepare_all (prepare_step pr cfg workspace agents env) (w_steps (pw_workflow pw)) = Inr steps
     \<and> pw_steps pw = map fst steps \<and> pw_workspace pw = workspace
     \<and> required_provider_set (pw_workflow pw) reg = Inr (pw_provider_set pw)
     \<and> pw_acknowledged_by pw = is_acknowledged (pw_provider_set pw) cfg (ov_acknowledge ov)
     \<and> gate_egress (pw_provider_set pw) (pw_acknowledged_by pw) = Inr ()
     \<and> validate_variables (pr_loads pr) (pw_workflow pw) cli = Returns vs \<and> pw_variables pw = vs
     \<and> pw_secrets pw = add_secrets [] (concat (map snd steps) @ extra_values cfg env @ secret_redaction_values (pw_workflow pw) vs)"
proof -
  have o: "outcome_error x = Inr v \<longleftrightarrow> x = Returns v" for x :: "(string \<times> pyval) list outcome" and v
    by (cases x) (simp_all add: outcome_error_def)
  obtain dw order reg agents vs steps providers records po where f:
    "resolve_workflow (pr_view pr) s workspace = Inr dw" "validate_templates (dw_definition dw) = Inr ()"
    "int (length (w_steps (dw_definition dw))) \<le> max_workflow_steps (c_engine cfg)" "topo_order (dw_definition dw) = Inr order"
    "from_config (pr_why pr) cfg = Inr reg" "build_egress_records (dw_definition dw) reg (is_acknowledged providers cfg (ov_acknowledge ov)) = Inr records"
    "agent_configs reg (w_steps (dw_definition dw)) = Inr agents" "validate_variables (pr_loads pr) (dw_definition dw) cli = Returns vs"
    "check_secret_allowances (dw_definition dw) (map (\<lambda>(step, ag). (step, step_provider ag)) agents)
       (wc_secret_variable_allowances (c_workflows cfg)) = Inr ()"
    "prepare_all (prepare_step pr cfg workspace agents env) (w_steps (dw_definition dw)) = Inr steps"
    "required_provider_set (dw_definition dw) reg = Inr providers"
    "gate_egress providers (is_acknowledged providers cfg (ov_acknowledge ov)) = Inr ()"
    "pw = \<lparr>pw_workflow = dw_definition dw, pw_variables = vs, pw_workspace = workspace, pw_order = order, pw_steps = map fst steps,
         pw_provider_set = providers, pw_acknowledged_by = is_acknowledged providers cfg (ov_acknowledge ov),
         pw_records = records, pw_limits = limits_of cfg,
         pw_profile = capture_of cfg ov, pw_no_save = no_save_of cfg ov, pw_fingerprint = Some fingerprint,
         pw_provenance = Some (build_policy_provenance po None),
         pw_secrets = add_secrets [] (concat (map snd steps) @ extra_values cfg env @ secret_redaction_values (dw_definition dw) vs),
         pw_patterns = patterns_of cfg,
         pw_timeout = Some (pr_seconds pr (default_workflow_timeout_seconds (c_engine cfg))),
         pw_default_timeout = pr_seconds pr (default_workflow_timeout_seconds (c_engine cfg)),
         pw_grace = pr_grace pr (cancel_grace_seconds (c_engine cfg)), pw_max_prompt = max_prompt_bytes (c_engine cfg),
         pw_has_render = fst (pr_driver pr), pw_cancellable = fst (snd (pr_driver pr)), pw_override = snd (snd (pr_driver pr))\<rparr>"
    using assms unfolding prepare_workflow_def Let_def by (auto simp: bindE_eq_Inr o split: if_splits)
  then show ?thesis by (intro exI[of _ dw] exI[of _ reg] exI[of _ steps] exI[of _ agents] exI[of _ vs]) simp
qed

text \<open>The gates that need the registry of the configuration.\<close>

definition registry_gates ::
  "preparation_world \<Rightarrow> ziggy_config \<Rightarrow> run_overrides \<Rightarrow> (string \<times> string) list \<Rightarrow> prepared_workflow \<Rightarrow> registry \<Rightarrow> bool" where
  "registry_gates pr cfg ov env pw reg \<longleftrightarrow> from_config (pr_why pr) cfg = Inr reg
     \<and> required_provider_set (pw_workflow pw) reg = Inr (pw_provider_set pw)
     \<and> (pw_provider_set pw = {} \<or> (\<exists>how. pw_acknowledged_by pw = Some how \<and> acknowledged cfg ov (pw_provider_set pw) how))
     \<and> build_egress_records (pw_workflow pw) reg (pw_acknowledged_by pw) = Inr (pw_records pw)
     \<and> keys (pw_steps pw) = keys (w_steps (pw_workflow pw)) \<and> list_all (prepared_ok pr cfg reg env pw) (pw_steps pw)"

lemma prepared_steps_ok:
  assumes "prepare_workflow pr cfg fingerprint s cli workspace ov env = Inr pw"
  shows "\<exists>reg. registry_gates pr cfg ov env pw reg"
proof -
  obtain reg steps agents extra where p: "prepare_all (prepare_step pr cfg workspace agents env) (w_steps (pw_workflow pw)) = Inr steps"
    "pw_steps pw = map fst steps" "pw_workspace pw = workspace" "pw_secrets pw = add_secrets [] (concat (map snd steps) @ extra)"
    and r: "from_config (pr_why pr) cfg = Inr reg" "agent_configs reg (w_steps (pw_workflow pw)) = Inr agents"
      "required_provider_set (pw_workflow pw) reg = Inr (pw_provider_set pw)"
      "build_egress_records (pw_workflow pw) reg (pw_acknowledged_by pw) = Inr (pw_records pw)"
      "pw_acknowledged_by pw = is_acknowledged (pw_provider_set pw) cfg (ov_acknowledge ov)"
      "gate_egress (pw_provider_set pw) (pw_acknowledged_by pw) = Inr ()"
    using prepare_workflow_Inr[OF assms] by blast
  have "map (fst \<circ> fst) steps = map fst (w_steps (pw_workflow pw))"
    using prepare_step_Inr by (intro prepare_all_keys[OF p(1)]) auto
  then have k: "keys (pw_steps pw) = keys (w_steps (pw_workflow pw))" using p(2) by simp
  have "prepared_ok pr cfg reg env pw (step, pre)" if m: "((step, pre), secrets) \<in> set steps" for step pre secrets
  proof -
    obtain sd where sd: "(step, sd) \<in> set (w_steps (pw_workflow pw))"
      "prepare_step pr cfg workspace agents env (step, sd) = Inr ((step, pre), secrets)"
      using prepare_all_Inr[OF p(1) m] prepare_step_Inr by (metis surj_pair)
    have "set secrets \<subseteq> set (pw_secrets pw)" using m p(4) by (force simp: add_secrets_set)
    moreover have "step \<in> set (keys (w_steps (pw_workflow pw)))" using sd(1) by force
    ultimately show ?thesis
      using prepare_step_Inr[OF sd(2)] agent_configs_lookup[OF r(2)] sd(1) p(3) unfolding prepared_ok_def by auto
  qed
  then have l: "list_all (prepared_ok pr cfg reg env pw) (pw_steps pw)" using p(2) by (auto simp: list_all_iff)
  have a: "pw_provider_set pw = {} \<or> (\<exists>how. pw_acknowledged_by pw = Some how \<and> acknowledged cfg ov (pw_provider_set pw) how)"
  proof (cases "pw_acknowledged_by pw")
    case (Some how)
    have "acknowledged cfg ov (pw_provider_set pw) how"
      by (rule is_acknowledged_exactly) (use Some r(5) in simp)
    with Some show ?thesis by blast
  qed (use r(6) in \<open>simp add: gate_egress_Inr\<close>)
  show ?thesis unfolding registry_gates_def using r(1,3,4) a k l by blast
qed

section \<open>Prepared orchestrations\<close>

lemma compose_lookup:
  assumes "compose_child_env ag env = Inr (child, secrets)" and "map_of child n = Some v"
  shows "n \<in> set BASELINE_ENV_VARS \<union> set (ag_inherit_env ag) \<union> set (keys (ag_env ag)) \<union> set_option (ag_api_key_env ag)"
proof (rule ccontr)
  assume n: "\<not> ?thesis"
  then have l: "map_of (rev (ag_env ag)) n = None" by (auto simp: map_of_eq_None_iff)
  let ?c = "foldl (\<lambda>env (n, v). AList.update n v env) (forward env (forward env [] BASELINE_ENV_VARS) (ag_inherit_env ag)) (ag_env ag)"
  have "map_of ?c n = None" unfolding map_of_literals map_of_forward using n l by simp
  moreover have "map_of child n = map_of ?c n"
    using assms(1) n by (auto simp: compose_child_env_def Let_def update_conv' split: option.splits list.splits)
  ultimately show False using assms(2) by simp
qed

lemma compose_keys:
  assumes "compose_child_env ag env = Inr (child, secrets)"
  shows "set (keys child) \<subseteq> set BASELINE_ENV_VARS \<union> set (ag_inherit_env ag) \<union> set (keys (ag_env ag)) \<union> set_option (ag_api_key_env ag)"
proof
  fix n assume "n \<in> set (keys child)"
  then have "map_of child n \<noteq> None" by (simp add: map_of_eq_None_iff)
  then show "n \<in> set BASELINE_ENV_VARS \<union> set (ag_inherit_env ag) \<union> set (keys (ag_env ag)) \<union> set_option (ag_api_key_env ag)"
    using compose_lookup[OF assms] by blast
qed

lemma prepare_orchestration_Inr:
  assumes "prepare_orchestration pr cfg fingerprint goal workspace ov env = Inr og"
  shows "\<exists>name reg child secrets. oc_agent (c_orchestrator cfg) = Some name \<and> from_config (pr_why pr) cfg = Inr reg
    \<and> og_registry og = reg \<and> get_agent reg name = Inr (og_planner og) \<and> og_base_env og = env
    \<and> (ag_direct_tools_assumed (og_planner og) \<longrightarrow> oc_allow_uncontained_planner (c_orchestrator cfg))
    \<and> og_lease_first og = ag_direct_tools_assumed (og_planner og)
    \<and> int (utf8_len (og_meta_prompt og)) \<le> max_prompt_bytes (c_engine cfg)
    \<and> compose_child_env ((og_planner og)\<lparr>ag_inherit_env := []\<rparr>) env = Inr (child, secrets) \<and> og_env og = child
    \<and> og_secrets og = add_secrets secrets (credential_values reg env @ extra_values cfg env)
    \<and> og_timeout og = timeout_of pr cfg ov"
proof (cases "oc_agent (c_orchestrator cfg)")
  case None
  with assms show ?thesis by (simp add: prepare_orchestration_def)
next
  case (Some name)
  show ?thesis
  proof (cases name)
    case Nil
    with Some assms show ?thesis by (simp add: prepare_orchestration_def)
  next
    case (Cons c cs)
    show ?thesis
      using assms unfolding prepare_orchestration_def Some Cons Let_def option.case list.case
      by (auto simp: bindE_eq_Inr split: if_splits)
  qed
qed

text \<open>Every agent of a merged registry has direct tools, so the planner is always an uncontained one.\<close>

lemma planner_uncontained_always:
  assumes "from_config why cfg = Inr reg" and "get_agent reg name = Inr ag"
  shows "ag_direct_tools_assumed ag"
proof -
  have "registry_ok reg" using merge_entries_ok[OF assms(1)[unfolded from_config_def] builtins_ok] .
  moreover have "map_of reg name = Some ag" using assms(2) by (auto simp: get_agent_def split: option.splits)
  ultimately show ?thesis by (auto simp: registry_ok_def list_all_iff agent_ok_def dest!: map_of_SomeD)
qed

text \<open>A run whose planner needs the lease happens in one lease, before its save.\<close>

lemma within_lease_mono: "within_lease whole good X \<Longrightarrow> (\<And>M. good M \<Longrightarrow> good' M) \<Longrightarrow> within_lease whole good' X"
  unfolding within_lease_def by blast

lemma leased_orchestration:
  assumes "og_lease_first og"
  shows "\<exists>X P. weighty (snd (run_orchestration w rn fw xd og pl eng)) = weighty eng @ X @ P \<and> P \<in> saves
    \<and> within_lease (case fst (run_orchestration w rn fw xd og pl eng) of Ok rr \<Rightarrow> True | _ \<Rightarrow> False)
        (\<lambda>M. \<exists>A B. M = A @ B \<and> planner_acts (ag_command (og_planner og)) A \<and> list_all agent_act B) X"
proof -
  let ?r = "fst (run_orchestration w rn fw xd og pl eng)"
  have whole: "((case ?r of Ok rr \<Rightarrow> Some rr | _ \<Rightarrow> None) \<noteq> None) = (case ?r of Ok rr \<Rightarrow> True | _ \<Rightarrow> False)"
    by (cases ?r) simp_all
  obtain X P permit where x: "weighty (snd (run_orchestration w rn fw xd og pl eng)) = weighty eng @ X @ P" "P \<in> saves"
    "orchestrated og (case ?r of Ok rr \<Rightarrow> True | _ \<Rightarrow> False) permit X"
    using run_orchestration_acts[of og rn xd pl w eng fw] unfolding orchestration_acts_def whole by blast
  from x(3) assms have "within_lease (case ?r of Ok rr \<Rightarrow> True | _ \<Rightarrow> False)
      (\<lambda>M. \<exists>A B. M = A @ B \<and> planner_acts (ag_command (og_planner og)) A \<and> agents_acts permit B) X"
    unfolding orchestrated_def Let_def by simp
  then have "within_lease (case ?r of Ok rr \<Rightarrow> True | _ \<Rightarrow> False)
      (\<lambda>M. \<exists>A B. M = A @ B \<and> planner_acts (ag_command (og_planner og)) A \<and> list_all agent_act B) X"
    by (rule within_lease_mono) (auto simp: agents_acts_def)
  with x(1,2) show ?thesis by blast
qed

section \<open>From a prepared workflow to its run\<close>

text \<open>
  What pydantic promises of \<open>WorkflowDef.model_validate\<close>: it returns a model only if every constraint and every
  validator of its classes holds.
\<close>

definition honest_validation :: "yaml_world \<Rightarrow> bool" where
  "honest_validation yw \<longleftrightarrow> (\<forall>data wd. yw_validate yw data = Inr wd \<longrightarrow> workflow_def_ok wd)"

text \<open>The outside of a run that lets it end: what no preparation can check.\<close>

definition obliging :: "setting \<Rightarrow> run_world \<Rightarrow> flow_world \<Rightarrow> prepared_workflow \<Rightarrow> bool" where
  "obliging w rn fw pw \<longleftrightarrow> never_raises (se_recording w) \<and> (\<forall>step. well_behaved w (rn_agent rn step))
     \<and> (\<exists>r. fw_realpath fw (pw_workspace pw) = Inr r) \<and> saving_ok True rn
     \<and> opening_ok True rn (pw_no_save pw) (pw_secrets pw) (pw_patterns pw)"

lemma prepared_workflow_valid:
  assumes "prepare_workflow pr cfg fingerprint s cli workspace ov env = Inr pw" and "honest_validation (dv_yaml (pr_view pr))"
  shows "workflow_def_ok (pw_workflow pw)"
proof -
  obtain dw where dw: "resolve_workflow (pr_view pr) s workspace = Inr dw" "pw_workflow pw = dw_definition dw"
    using prepare_workflow_Inr[OF assms(1)] by blast
  have "load_workflow (dv_yaml (pr_view pr)) (dv_read (pr_view pr)) (dw_path dw) = Inr (dw_definition dw)"
    using resolve_workflow_Inr[OF dw(1)] by (simp add: valid_entry_def)
  from load_workflow_validated[OF this] assms(2) dw(2) show ?thesis by (auto simp: honest_validation_def)
qed

lemma prepared_workflow_ok:
  assumes p: "prepare_workflow pr cfg fingerprint s cli workspace ov env = Inr pw" and v: "honest_validation (dv_yaml (pr_view pr))"
    and out: "obliging w rn fw pw"
  shows "workflow_ok True w rn fw pw \<and> distinct_steps (pw_workflow pw) \<and> topo_order (pw_workflow pw) = Inr (pw_order pw)"
proof -
  have wd: "workflow_def_ok (pw_workflow pw)" by (rule prepared_workflow_valid[OF p v])
  then have d: "distinct_steps (pw_workflow pw)" by (simp add: workflow_def_ok_def distinct_steps_def)
  have t: "topo_order (pw_workflow pw) = Inr (pw_order pw)" using prepare_workflow_Inr[OF p] by blast
  have k: "set (pw_order pw) = set (keys (w_steps (pw_workflow pw)))" using sched.plan_complete[OF d t] by blast
  have "input_source_shape (s_inputs sd) = None" if "(step, sd) \<in> set (w_steps (pw_workflow pw))" for step sd
    using wd that by (fastforce simp: workflow_def_ok_def list_all_iff step_def_ok_def)
  moreover have "keys (pw_steps pw) = keys (w_steps (pw_workflow pw))" using prepared_steps_ok[OF p] by (auto simp: registry_gates_def)
  ultimately have "workflow_ok True w rn fw pw"
    using out k by (simp add: workflow_ok_def flow_ok_def obliging_def)
  with d t show ?thesis by blast
qed

section \<open>Properties\<close>

text \<open>C10: a workflow that is prepared is the validated file that was looked up, its templates are valid, its
  steps fit the configured limit and are ordered by their dependencies; the providers between which its
  data crosses are none, or the flag or an entry of the configuration names exactly these, and the
  egress records carry this acknowledgement. Every step has the agent it names in the registry of the
  configuration, the provider of this agent, its own policy and at most the configured time, and its
  environment is the composed one of that agent, with credentials that are all among the values to
  redact, as is every value derived from a secret variable.\<close>

theorem prepared_workflow_passed_every_gate:
  "case prepare_workflow pr cfg fingerprint s cli workspace ov env of
     Inl e \<Rightarrow> True
   | Inr pw \<Rightarrow> (\<exists>dw. resolve_workflow (pr_view pr) s workspace = Inr dw \<and> valid_entry (pr_view pr) (dw_name dw, dw)
         \<and> pw_workflow pw = dw_definition dw)
       \<and> validate_templates (pw_workflow pw) = Inr ()
       \<and> int (length (w_steps (pw_workflow pw))) \<le> max_workflow_steps (c_engine cfg)
       \<and> topo_order (pw_workflow pw) = Inr (pw_order pw)
       \<and> (\<exists>reg. registry_gates pr cfg ov env pw reg)
       \<and> set (secret_redaction_values (pw_workflow pw) (pw_variables pw)) \<subseteq> set (pw_secrets pw)"
proof (cases "prepare_workflow pr cfg fingerprint s cli workspace ov env")
  case (Inr pw)
  obtain dw :: discovered_workflow and steps :: "((string \<times> prepared_step) \<times> (string \<times> string) list) list" and vs
    where f: "resolve_workflow (pr_view pr) s workspace = Inr dw" "pw_workflow pw = dw_definition dw"
    "validate_templates (pw_workflow pw) = Inr ()" "int (length (w_steps (pw_workflow pw))) \<le> max_workflow_steps (c_engine cfg)"
    "topo_order (pw_workflow pw) = Inr (pw_order pw)" "pw_variables pw = vs"
    "pw_secrets pw = add_secrets [] (concat (map snd steps) @ extra_values cfg env @ secret_redaction_values (pw_workflow pw) vs)"
    using prepare_workflow_Inr[OF Inr] by blast
  have e: "valid_entry (pr_view pr) (dw_name dw, dw)" using resolve_workflow_Inr[OF f(1)] by blast
  have s: "set (secret_redaction_values (pw_workflow pw) (pw_variables pw)) \<subseteq> set (pw_secrets pw)"
    using f(6,7) by (auto simp: add_secrets_set)
  have x: "\<exists>dw. resolve_workflow (pr_view pr) s workspace = Inr dw \<and> valid_entry (pr_view pr) (dw_name dw, dw)
      \<and> pw_workflow pw = dw_definition dw"
    using f(1) e f(2) by blast
  show ?thesis
    unfolding Inr sum.case by (intro conjI x f(3-5) s prepared_steps_ok[OF Inr])
qed simp

text \<open>C16: what prepare accepts, the runner finishes. If pydantic validates and the outside is obliging
  (events can be appended, agents answer the handshake and can be killed, the workspace has a real path,
  the store opens or refuses, the redaction patterns compile), a prepared workflow returns a result for
  exactly the steps of its file.\<close>

theorem prepared_workflow_finishes:
  assumes "prepare_workflow pr cfg fingerprint s cli workspace ov env = Inr pw" and "honest_validation (dv_yaml (pr_view pr))"
    and "obliging w rn fw pw"
  shows "\<exists>rr t. execute_workflow w rn fw pw eng = (Ok rr, t) \<and> keys (rr_steps rr) = keys (w_steps (pw_workflow pw))"
proof -
  from prepared_workflow_ok[OF assms] have ok: "workflow_ok True w rn fw pw" "distinct_steps (pw_workflow pw)"
    "topo_order (pw_workflow pw) = Inr (pw_order pw)" by blast+
  from yields_Ok[OF yields_execute_workflow[OF ok], of eng] show ?thesis by (auto simp: reports_def)
qed

text \<open>C13: in an orchestrated run no credential reaches an agent of the plan unredacted: whenever an execution is
  built from a prepared orchestration, the environment of each of its agents is the composed one, and the
  credential in it is among the values that the redactor of the run, created before there was a plan, hides.\<close>

theorem executed_agents_credentials_are_redacted:
  assumes "prepare_orchestration pr cfg fingerprint goal workspace ov env = Inr og" and "build_execution xd og p ack = Inr ex"
    and "(raw, pre) \<in> set (ex_steps ex)" and "[] \<notin> set (keys env)"
  shows "\<exists>secrets. compose_child_env (ps_config pre) env = Inr (ps_env pre, secrets) \<and> set secrets \<subseteq> set (og_secrets og)"
proof -
  obtain reg ss where og: "og_registry og = reg" "og_base_env og = env"
    "og_secrets og = add_secrets ss (credential_values reg env @ extra_values cfg env)"
    using prepare_orchestration_Inr[OF assms(1)] by blast
  obtain wd :: workflow_def where "prepare_all (prepare_execution_step xd og) (w_steps wd) = Inr (ex_steps ex)"
    using build_execution_Inr[OF assms(2)] by metis
  from prepare_all_Inr[OF this assms(3)] obtain raw' sd where "prepare_execution_step xd og (raw', sd) = Inr (raw, pre)" by auto
  then obtain secrets where c: "get_agent reg (s_agent sd) = Inr (ps_config pre)" "compose_child_env (ps_config pre) env = Inr (ps_env pre, secrets)"
    using og by (auto simp: prepare_execution_step_def bindE_eq_Inr)
  from credential_listed[OF get_agent_listed[OF c(1)] c(2) assms(4)] og(3) c(2) show ?thesis by (auto simp: add_secrets_set)
qed

text \<open>C22: an orchestrated run is prepared only if the trusted configuration accepts an uncontained planner, and
  then all of it happens under the lease: apart from recording and from saving the result at the end, the
  run does nothing, or it takes the workspace lease, lets the planner act and then the agents of the
  plan, and frees the lease; the lease is neither taken nor freed in between, and only a run that does not
  return may leave it. The planner's prompt and its time are within the configured limits, and its
  environment has no inherited variable beside the baseline.\<close>

theorem prepared_orchestration_is_leased:
  "case prepare_orchestration pr cfg fingerprint goal workspace ov env of
     Inl e \<Rightarrow> True
   | Inr og \<Rightarrow> oc_allow_uncontained_planner (c_orchestrator cfg)
       \<and> (\<exists>X P. weighty (snd (run_orchestration w rn fw xd og pl eng)) = weighty eng @ X @ P \<and> P \<in> saves
            \<and> within_lease (case fst (run_orchestration w rn fw xd og pl eng) of Ok rr \<Rightarrow> True | _ \<Rightarrow> False)
                (\<lambda>M. \<exists>A B. M = A @ B \<and> planner_acts (ag_command (og_planner og)) A \<and> list_all agent_act B) X)
       \<and> int (utf8_len (og_meta_prompt og)) \<le> max_prompt_bytes (c_engine cfg) \<and> og_timeout og \<le> step_ceiling pr cfg
       \<and> set (keys (og_env og)) \<subseteq> set BASELINE_ENV_VARS \<union> set (keys (ag_env (og_planner og))) \<union> set_option (ag_api_key_env (og_planner og))"
proof (cases "prepare_orchestration pr cfg fingerprint goal workspace ov env")
  case (Inr og)
  obtain name reg secrets where f: "from_config (pr_why pr) cfg = Inr reg" "get_agent reg name = Inr (og_planner og)"
    "ag_direct_tools_assumed (og_planner og) \<longrightarrow> oc_allow_uncontained_planner (c_orchestrator cfg)"
    "og_lease_first og = ag_direct_tools_assumed (og_planner og)" "int (utf8_len (og_meta_prompt og)) \<le> max_prompt_bytes (c_engine cfg)"
    "compose_child_env ((og_planner og)\<lparr>ag_inherit_env := []\<rparr>) env = Inr (og_env og, secrets)" "og_timeout og = timeout_of pr cfg ov"
    using prepare_orchestration_Inr[OF Inr] by metis
  have u: "ag_direct_tools_assumed (og_planner og)" by (rule planner_uncontained_always[OF f(1,2)])
  have t: "og_timeout og \<le> step_ceiling pr cfg" using f(7) by (simp add: timeout_of_def split: option.splits)
  have l: "og_lease_first og" using u f(4) by simp
  have a: "oc_allow_uncontained_planner (c_orchestrator cfg)" using u f(3) by blast
  note x = leased_orchestration[OF l, of w rn fw xd pl eng]
  show ?thesis unfolding Inr sum.case by (intro conjI a x f(5) t) (use compose_keys[OF f(6)] in simp)
qed simp

section \<open>Concrete preparations\<close>

definition demo_view :: directory_view where
  "demo_view = \<lparr>dv_yaml = demo_yaml, dv_read = (\<lambda>p. Inr ''x''),
     dv_listing = (\<lambda>d. if d = ''/w/.ziggy/workflows'' then Some (Inr [(''demo.yaml'', True), (''notes.txt'', True)]) else None),
     dv_is_file = (\<lambda>p. True), dv_realpath = Inr, dv_expanduser = Inr, dv_home = ''/u''\<rparr>"

definition demo_preparation :: preparation_world where
  "demo_preparation = \<lparr>pr_why = (\<lambda>n. []), pr_loads = (\<lambda>t. JDecodeError ''x''), pr_view = demo_view,
     pr_disk = \<lparr>dk_realpath = Inr, dk_read = (\<lambda>p. Inr ''x''), dk_sha256 = (\<lambda>c. ''a1''),
       dk_load = (\<lambda>p. Inr (one_agent_flow ''codex'')), dk_user_dir = ''/u''\<rparr>,
     pr_prose = \<lparr>mp_role = ''r'', mp_goal_header = ''g'', mp_catalog_header = ''c'', mp_output_contract = ''o''\<rparr>,
     pr_realpath = Inr, pr_expanduser = Inr, pr_logger = (\<lambda>r d. None), pr_seconds = id, pr_grace = (\<lambda>s. 5),
     pr_driver = (False, True, False)\<rparr>"

text \<open>The agent \<open>codex\<close> with a credential, behind the planner \<open>claude\<close>.\<close>

definition keyed_config :: ziggy_config where
  "keyed_config = default_config\<lparr>c_engine := default_engine_config\<lparr>max_prompt_bytes := 900\<rparr>,
     c_agents := [(''codex'', \<lparr>ae_fields_set = Some [''api_key_env''], ae_command = None, ae_args = [],
       ae_env = [], ae_inherit_env = [], ae_working_dir = None, ae_api_key_env = Some ''K'', ae_provider = None,
       ae_orchestration_eligible = False\<rparr>)],
     c_orchestrator := default_orchestrator_config\<lparr>oc_agent := Some ''claude'', oc_allow_uncontained_planner := True\<rparr>\<rparr>"

definition demo_overrides :: run_overrides where
  "demo_overrides = \<lparr>ov_no_save = True, ov_capture = None, ov_timeout = None, ov_acknowledge = None, ov_plan_only = False\<rparr>"

definition keyed_env :: "(string \<times> string) list" where
  "keyed_env = [(''K'', ''s3cret'')]"

definition keyed_registry :: registry where
  "keyed_registry = map (\<lambda>(n, ag). (n, if n = ''codex'' then ag\<lparr>ag_api_key_env := Some ''K''\<rparr> else ag)) BUILTIN_AGENTS"

definition keyed_agent :: agent_config where
  "keyed_agent = the (map_of keyed_registry ''codex'')"

lemma keyed_registry: "from_config (pr_why demo_preparation) keyed_config = Inr keyed_registry"
  by code_simp

lemma keyed_planner: "case get_agent keyed_registry ''claude'' of Inl e \<Rightarrow> False | Inr ag \<Rightarrow>
    (case compose_child_env (ag\<lparr>ag_inherit_env := []\<rparr>) keyed_env of Inl e \<Rightarrow> False | Inr x \<Rightarrow> True)"
  by code_simp

lemma keyed_catalog: "case build_catalog (pr_disk demo_preparation) keyed_config keyed_registry ''/w'' of Inl e \<Rightarrow> False
    | Inr cat \<Rightarrow> int (utf8_len (render_meta_prompt (pr_prose demo_preparation) cat ''go'' 8 900)) \<le> 900"
  by code_simp

lemma keyed_policy: "case run_policy demo_preparation keyed_config ''/w'' of Inl e \<Rightarrow> False | Inr po \<Rightarrow> True"
  by code_simp

lemma keyed_log: "open_log demo_preparation keyed_config demo_overrides = Inr ()"
  by code_simp

lemma keyed_config_values:
  "oc_agent (c_orchestrator keyed_config) = Some ''claude'' \<and> oc_allow_uncontained_planner (c_orchestrator keyed_config)
    \<and> oc_max_inline_steps (c_orchestrator keyed_config) = 8 \<and> max_prompt_bytes (c_engine keyed_config) = 900"
  by code_simp

lemma keyed_prepared:
  "\<exists>og. prepare_orchestration demo_preparation keyed_config ''f'' ''go'' ''/w'' demo_overrides keyed_env = Inr og
    \<and> og_registry og = keyed_registry \<and> og_base_env og = keyed_env \<and> og_config og = keyed_config \<and> og_workspace og = ''/w''"
  using keyed_planner keyed_catalog keyed_policy keyed_log keyed_registry keyed_config_values
  by (auto simp: prepare_orchestration_def zig_def bindE_def Let_def split: sum.splits)

definition keyed_plan :: single_agent_plan where
  "keyed_plan = \<lparr>sp_rationale = [], sp_agent = ''codex'', sp_prompt = ''hi''\<rparr>"

definition keyed_flow :: workflow_def where
  "keyed_flow = \<lparr>w_name = SINGLE_AGENT_NAME, w_description = None, w_variables = [],
     w_steps = [(SINGLE_AGENT_STEP_ID, \<lparr>s_agent = ''codex'', s_prompt = ''hi'', s_inputs = [], s_depends_on = [],
       s_working_dir = None, s_timeout_seconds = None, s_policy_profile = None\<rparr>)]\<rparr>"

lemma keyed_flow: "single_workflow keyed_plan = Inr keyed_flow"
  and keyed_templates: "validate_templates keyed_flow = Inr ()"
  and keyed_order: "topo_order keyed_flow = Inr [SINGLE_AGENT_STEP_ID]"
  and keyed_agent: "get_agent keyed_registry ''codex'' = Inr keyed_agent"
  and keyed_provider: "step_provider keyed_agent = ''openai''"
  and keyed_child: "case compose_child_env keyed_agent keyed_env of Inl e \<Rightarrow> False | Inr (child, secrets) \<Rightarrow> secrets = [(''env:K'', ''s3cret'')]"
  and keyed_allowances: "check_secret_allowances keyed_flow [(SINGLE_AGENT_STEP_ID, ''openai'')] [] = Inr ()"
  and keyed_no_allowances: "wc_secret_variable_allowances (c_workflows keyed_config) = []"
  by code_simp+

lemma keyed_step_policy: "case step_policy Inr keyed_config ''/w'' SINGLE_AGENT_STEP_ID (snd (hd (w_steps keyed_flow))) of
    Inl e \<Rightarrow> False | Inr po \<Rightarrow> True"
  by code_simp

lemma keyed_execution:
  assumes "og_registry og = keyed_registry" "og_base_env og = keyed_env" "og_config og = keyed_config" "og_workspace og = ''/w''"
  shows "\<exists>ex raw pre. build_execution second_version og (SingleAgentPlan keyed_plan) None = Inr ex \<and> (raw, pre) \<in> set (ex_steps ex)
    \<and> ps_config pre = keyed_agent"
proof -
  obtain sd where sd: "w_steps keyed_flow = [(SINGLE_AGENT_STEP_ID, sd)]" "s_agent sd = ''codex''" by (simp add: keyed_flow_def)
  obtain child where c: "compose_child_env keyed_agent keyed_env = Inr (child, [(''env:K'', ''s3cret'')])"
    using keyed_child by (auto split: sum.splits)
  obtain po where po: "step_policy Inr keyed_config ''/w'' SINGLE_AGENT_STEP_ID sd = Inr po"
    using keyed_step_policy sd(1) by (auto split: sum.splits)
  have r: "xd_realpath second_version = Inr" by (simp add: second_version_def)
  define t where "t = (case s_timeout_seconds sd of Some t \<Rightarrow> min (og_seconds og t) (og_timeout og) | None \<Rightarrow> og_timeout og)"
  define pre where "pre = \<lparr>ps_config = keyed_agent, ps_provider = step_provider keyed_agent, ps_env = child, ps_policy = po, ps_timeout = t\<rparr>"
  have s: "prepare_execution_step second_version og (SINGLE_AGENT_STEP_ID, sd) = Inr (SINGLE_AGENT_STEP_ID, pre)"
    using assms sd(2) keyed_agent c po r by (simp add: prepare_execution_step_def zig_def bindE_def pre_def t_def)
  have p: "ps_provider pre = ''openai''" by (simp add: pre_def keyed_provider)
  show ?thesis
    using sd(1) s p assms(3) keyed_flow keyed_templates keyed_order keyed_allowances keyed_no_allowances
    by (simp add: build_execution_def plan_workflow_def zig_def bindE_def pre_def)
qed

theorem redacted_credentials_witness:
  "\<exists>og ex raw pre. prepare_orchestration demo_preparation keyed_config ''f'' ''go'' ''/w'' demo_overrides keyed_env = Inr og
     \<and> build_execution second_version og (SingleAgentPlan keyed_plan) None = Inr ex \<and> (raw, pre) \<in> set (ex_steps ex)
     \<and> (''env:K'', ''s3cret'') \<in> set (og_secrets og)"
proof -
  obtain og where og: "prepare_orchestration demo_preparation keyed_config ''f'' ''go'' ''/w'' demo_overrides keyed_env = Inr og"
    "og_registry og = keyed_registry" "og_base_env og = keyed_env" "og_config og = keyed_config" "og_workspace og = ''/w''"
    using keyed_prepared by blast
  obtain ex raw pre where ex: "build_execution second_version og (SingleAgentPlan keyed_plan) None = Inr ex" "(raw, pre) \<in> set (ex_steps ex)"
    "ps_config pre = keyed_agent" using keyed_execution[OF og(2-5)] by blast
  have e: "[] \<notin> set (keys keyed_env)" by (simp add: keyed_env_def)
  obtain child where c: "compose_child_env keyed_agent keyed_env = Inr (child, [(''env:K'', ''s3cret'')])"
    using keyed_child by (auto split: sum.splits)
  from executed_agents_credentials_are_redacted[OF og(1) ex(1,2) e] ex(3) c
  have "(''env:K'', ''s3cret'') \<in> set (og_secrets og)" by auto
  with og(1) ex(1,2) show ?thesis by blast
qed

text \<open>The workflow \<open>demo\<close> of the project's directory, under the default configuration.\<close>

definition codex :: agent_config where
  "codex = the (map_of BUILTIN_AGENTS ''codex'')"

lemma demo_lookup: "case resolve_workflow demo_view ''demo'' ''/w'' of Inl e \<Rightarrow> False | Inr dw \<Rightarrow> dw_definition dw = one_agent_flow ''codex''"
  by code_simp

lemma demo_templates: "validate_templates (one_agent_flow ''codex'') = Inr ()"
  and demo_step_limit: "int (length (w_steps (one_agent_flow ''codex''))) = 1" "max_workflow_steps (c_engine default_config) = 16"
  and demo_order: "topo_order (one_agent_flow ''codex'') = Inr [''s'']"
  and demo_agents: "agent_configs BUILTIN_AGENTS (w_steps (one_agent_flow ''codex'')) = Inr [(''s'', codex)]"
  and demo_variables: "validate_variables (pr_loads demo_preparation) (one_agent_flow ''codex'') [] = Returns []"
  and demo_allowances: "check_secret_allowances (one_agent_flow ''codex'') [(''s'', step_provider codex)]
    (wc_secret_variable_allowances (c_workflows default_config)) = Inr ()"
  and demo_crossings: "required_provider_set (one_agent_flow ''codex'') BUILTIN_AGENTS = Inr {}"
  by code_simp+

lemma default_registry: "from_config (pr_why demo_preparation) default_config = Inr BUILTIN_AGENTS"
  by code_simp

lemma demo_step: "case prepare_all (prepare_step demo_preparation default_config ''/w'' [(''s'', codex)] []) (w_steps (one_agent_flow ''codex'')) of
    Inl e \<Rightarrow> False | Inr steps \<Rightarrow> map snd steps = [[]]"
  by code_simp

lemma demo_records: "case build_egress_records (one_agent_flow ''codex'') BUILTIN_AGENTS ack of Inl e \<Rightarrow> False | Inr records \<Rightarrow> True"
  by code_simp

lemma demo_policy: "case run_policy demo_preparation default_config ''/w'' of Inl e \<Rightarrow> False | Inr po \<Rightarrow> True"
  by code_simp

lemma demo_log: "open_log demo_preparation default_config demo_overrides = Inr ()"
  by code_simp

lemma demo_extra: "extra_values default_config [] = []" "secret_redaction_values (one_agent_flow ''codex'') [] = []"
    "patterns_of default_config = []" "no_save_of default_config demo_overrides"
  by code_simp+

lemma demo_prepares:
  "\<exists>pw. prepare_workflow demo_preparation default_config ''f'' ''demo'' [] ''/w'' demo_overrides [] = Inr pw
    \<and> pw_secrets pw = [] \<and> pw_patterns pw = [] \<and> pw_no_save pw \<and> keys (w_steps (pw_workflow pw)) = [''s'']"
proof -
  have v: "pr_view demo_preparation = demo_view" by (simp add: demo_preparation_def)
  obtain dw where dw: "resolve_workflow demo_view ''demo'' ''/w'' = Inr dw" "dw_definition dw = one_agent_flow ''codex''"
    using demo_lookup by (auto split: sum.splits)
  obtain steps where st: "prepare_all (prepare_step demo_preparation default_config ''/w'' [(''s'', codex)] []) (w_steps (one_agent_flow ''codex'')) = Inr steps"
    "concat (map snd steps) = []" using demo_step by (fastforce split: sum.splits)
  define ack where "ack = is_acknowledged {} default_config (ov_acknowledge demo_overrides)"
  obtain records where r: "build_egress_records (one_agent_flow ''codex'') BUILTIN_AGENTS ack = Inr records"
    using demo_records[of ack] by (auto split: sum.splits)
  obtain po where po: "run_policy demo_preparation default_config ''/w'' = Inr po" using demo_policy by (auto split: sum.splits)
  have k: "keys (w_steps (one_agent_flow ''codex'')) = [''s'']" by (simp add: one_agent_flow_def plain_workflow_def)
  have g: "gate_egress {} ack = Inr ()" by (simp add: gate_egress_def)
  have z: "zig (Inr x) = (Inr x :: exn + 'a)" for x by (simp add: zig_def)
  show ?thesis
    unfolding prepare_workflow_def v dw bindE_Inr Let_def demo_templates z demo_step_limit demo_order default_registry demo_agents
      demo_variables outcome_error_def outcome.case list.map prod.case demo_allowances st demo_crossings ack_def[symmetric] g r po demo_log
    by (simp add: demo_step_limit demo_extra k add_secrets_def)
qed

lemma demo_obliging:
  assumes "pw_secrets pw = []" and "pw_patterns pw = []"
  shows "obliging demo_setting demo_run demo_flow pw"
proof -
  have "\<exists>r. fw_realpath demo_flow (pw_workspace pw) = Inr r" by (simp add: demo_flow_def)
  moreover have "never_raises (se_recording demo_setting)" by (simp add: demo_setting_def demo_never_raises)
  moreover have "\<forall>step. well_behaved demo_setting (rn_agent demo_run step)" using demo_well_behaved by (simp add: demo_run_def)
  ultimately show ?thesis using demo_saving demo_opening assms by (simp add: obliging_def)
qed

theorem prepared_workflow_finishes_witness:
  "\<exists>pw rr t. prepare_workflow demo_preparation default_config ''f'' ''demo'' [] ''/w'' demo_overrides [] = Inr pw
     \<and> execute_workflow demo_setting demo_run demo_flow pw demo_engine = (Ok rr, t) \<and> keys (rr_steps rr) = [''s'']"
proof -
  obtain pw where p: "prepare_workflow demo_preparation default_config ''f'' ''demo'' [] ''/w'' demo_overrides [] = Inr pw"
    "pw_secrets pw = []" "pw_patterns pw = []" "pw_no_save pw" "keys (w_steps (pw_workflow pw)) = [''s'']"
    using demo_prepares by (elim exE conjE)
  have "workflow_def_ok (one_agent_flow ''codex'')" by code_simp
  then have "honest_validation (dv_yaml (pr_view demo_preparation))"
    by (simp add: honest_validation_def demo_preparation_def demo_view_def demo_yaml_def)
  from prepared_workflow_finishes[OF p(1) this demo_obliging[OF p(2,3)], of demo_engine]
  show ?thesis using p(1,5) by auto
qed

end
