(* ===== verification/Server_Bridge.thy ===== *)
theory Server_Bridge
  imports Acp_Convert Preparation Config_Loader
begin

text \<open>
  The glue between one served run and the client: \<open>server/app.py _RunBridge\<close> with the functions around
  it, and \<open>acp/server.py ServerConnection\<close>. What the client answers, and whether sending an update
  fails, comes in as an argument; the wire is the list of the updates that were sent.
\<close>

section \<open>Constants\<close>

definition GUARDED_FALLBACK_SUFFIX :: string where "GUARDED_FALLBACK_SUFFIX = ''(guarded-fallback)''"
definition RULE_NO_ACTIVE_STEP :: string where "RULE_NO_ACTIVE_STEP = ''server-no-active-step-deny''"
definition RULE_FORWARD_FAILED :: string where "RULE_FORWARD_FAILED = ''server-forward-failed-deny''"

text \<open>\<open>_option_kind\<close>: the first option with the id.\<close>

definition option_kind :: "perm_option list \<Rightarrow> string option \<Rightarrow> string option" where
  "option_kind options i = map_option op_kind (find (\<lambda>x. Some (op_id x) = i) options)"

section \<open>Updates for the client\<close>

definition payload_str :: "payload \<Rightarrow> string \<Rightarrow> string option" where
  "payload_str d k = (case map_of d k of Some (PStr s) \<Rightarrow> Some s | _ \<Rightarrow> None)"

definition payload_int :: "payload \<Rightarrow> string \<Rightarrow> pyval" where
  "payload_int d k = (case map_of d k of Some (PInt i) \<Rightarrow> PInt i | _ \<Rightarrow> PNone)"

definition payload_list :: "payload \<Rightarrow> string \<Rightarrow> pyval list option" where
  "payload_list d k = (case map_of d k of Some (PList vs) \<Rightarrow> Some vs | _ \<Rightarrow> None)"

fun is_dict :: "pyval \<Rightarrow> bool" where
  "is_dict (PDict d) = True"
| "is_dict v = False"

definition payload_shown :: "payload \<Rightarrow> string \<Rightarrow> string \<Rightarrow> string" where
  "payload_shown d k missing = str_val (get_or (PStr missing) d k)"

definition step_text :: "string option \<Rightarrow> string" where
  "step_text s = (case s of None \<Rightarrow> ''None'' | Some i \<Rightarrow> i)"

definition update_chunk :: "bool \<Rightarrow> payload \<Rightarrow> server_update option" where
  "update_chunk thought d = (case payload_str d ''text'' of
     Some (c # cs) \<Rightarrow> Some (AgentEvent (MessageChunk
       (case payload_str d ''role'' of Some r \<Rightarrow> if r \<in> {''agent'', ''user''} then r else ''agent'' | None \<Rightarrow> ''agent'') (c # cs) thought))
   | _ \<Rightarrow> None)"

definition update_tool :: "bool \<Rightarrow> payload \<Rightarrow> server_update option" where
  "update_tool start d = (case payload_str d ''tool_call_id'' of
     Some (c # cs) \<Rightarrow> Some (AgentEvent (ToolCall (c # cs) start (payload_str d ''title'') (payload_str d ''kind'') (payload_str d ''status'')
       (case payload_list d ''locations'' of None \<Rightarrow> [] | Some vs \<Rightarrow> List.map_filter (\<lambda>v. case v of PStr s \<Rightarrow> Some s | _ \<Rightarrow> None) vs)
       (truthy (get_or PNone d ''has_content'')) []))
   | _ \<Rightarrow> None)"

text \<open>\<open>floats\<close> is the text of an integer as a float.\<close>

definition update_usage :: "(int \<Rightarrow> string) \<Rightarrow> payload \<Rightarrow> server_update" where
  "update_usage floats d = AgentEvent (Usage (payload_int d ''used'') (payload_int d ''size'')
     (case map_of d ''cost'' of Some (PInt i) \<Rightarrow> PFloat (floats i) | Some (PFloat x) \<Rightarrow> PFloat x | _ \<Rightarrow> PNone)
     (opt_str (payload_str d ''currency'')) [])"

text \<open>\<open>_update_for\<close>; \<open>None\<close> is an event that stays in the server.\<close>

definition update_for :: "(int \<Rightarrow> string) \<Rightarrow> event_envelope \<Rightarrow> server_update option" where
  "update_for floats env = (let t = ev_type env; d = ev_payload env in
     if t = ''message_chunk'' then update_chunk False d
     else if t = ''thought_chunk'' then update_chunk True d
     else if t = ''tool_call'' then update_tool True d
     else if t = ''tool_call_update'' then update_tool False d
     else if t = ''plan'' then Some (AgentEvent (PlanUpdate
       (case payload_list d ''entries'' of None \<Rightarrow> [] | Some vs \<Rightarrow> filter is_dict vs)))
     else if t = ''usage'' then Some (update_usage floats d)
     else if t = ''permission_decided'' then
       Some (ServerNotice (''[policy] '' @ payload_shown d ''rule_id'' ''?'' @ '': '' @ payload_shown d ''decision'' ''?''))
     else if t = ''step_started'' then
       Some (ServerNotice (''[step '' @ step_text (ev_step_id env) @ ''] started''
         @ (case payload_str d ''agent'' of Some (c # cs) \<Rightarrow> '' (agent: '' @ (c # cs) @ '')'' | _ \<Rightarrow> [])))
     else if t = ''step_finished'' then
       Some (ServerNotice (''[step '' @ step_text (ev_step_id env) @ ''] finished: '' @ payload_shown d ''status'' ''?''))
     else if t = ''egress_notice'' then
       Some (ServerNotice (''[egress] providers: ''
         @ (case payload_list d ''provider_set'' of None \<Rightarrow> ''?'' | Some vs \<Rightarrow> join '', '' (map str_val vs))
         @ '' (acknowledged_by: '' @ str_val (get_or PNone d ''acknowledged_by'') @ '')''))
     else if t = ''truncation'' then
       Some (ServerNotice (''[truncation] step '' @ step_text (ev_step_id env) @ '': event stream truncated (capture degraded)''))
     else if t = ''error'' then
       Some (ServerNotice (''[error] '' @ payload_shown d ''code'' ''ZiggyError'' @ '': '' @ payload_shown d ''message'' []))
     else None)"

section \<open>The connection\<close>

text \<open>
  What the SDK's \<open>request_permission\<close> does: a response, a JSON-RPC error with its code, a lost
  connection, or another exception.
\<close>

datatype sdk_answer = SdkResponse permission_outcome | SdkError int string | SdkLost string | SdkRaises string

datatype forwarded = Forwarded perm_reply | ClientPermissionUnsupported | Failed exn

text \<open>\<open>ServerConnection.forward_permission\<close>\<close>

definition forward_permission :: "(payload \<times> perm_option list \<Rightarrow> sdk_answer) \<Rightarrow> perm_request \<Rightarrow> string \<Rightarrow> forwarded" where
  "forward_permission client rq label = (case client (from_permission_request rq label) of
     SdkResponse x \<Rightarrow> Forwarded (from_permission_outcome x)
   | SdkError code m \<Rightarrow> if code = -32601 then ClientPermissionUnsupported
       else Failed (Zig \<lparr>err_class = ProtocolError, message = ''session/request_permission failed: '' @ m,
         details = [(''code'', PInt code)]\<rparr>)
   | SdkLost m \<Rightarrow> Failed (Zig \<lparr>err_class = ProtocolError, message = ''client connection lost during session/request_permission'',
       details = [(''reason'', PStr m)]\<rparr>)
   | SdkRaises m \<Rightarrow> Failed (Python m))"

text \<open>\<open>ServerConnection.emit_update\<close>: what goes over the wire, with its correlation.\<close>

definition wire_update :: "vocabulary \<Rightarrow> server_update \<Rightarrow> string \<Rightarrow> string option \<Rightarrow> (session_update \<times> string \<times> string option) option" where
  "wire_update vo ev run step = map_option (\<lambda>u. (u, run, step)) (from_agent_event vo ev)"

section \<open>State\<close>

record session_state =
  ss_id :: string
  ss_cwd :: string
  ss_resolved :: resolved_config
  ss_route :: string
  ss_options :: "string list"
  ss_workflows :: "(string \<times> discovered_workflow) list"
  ss_no_forwarding :: bool
  ss_noticed :: bool

text \<open>\<open>_RunBridge\<close>; \<open>br_sent\<close> is what \<open>emit_update\<close> was called with and did not fail on.\<close>

record bridge =
  br_connected :: bool
  br_policies :: "(string \<times> policy) list"
  br_agents :: "(string \<times> string) list"
  br_target :: string
  br_fallback :: "policy option"
  br_current :: "string option"
  br_run :: "string option"
  br_queue :: "event_envelope option list"
  br_failed :: bool
  br_sent :: "(server_update \<times> string \<times> string option) list"

definition new_bridge ::
  "bool \<Rightarrow> (string \<times> policy) list \<Rightarrow> (string \<times> string) list \<Rightarrow> string \<Rightarrow> policy option \<Rightarrow> bridge" where
  "new_bridge connected policies agents target fallback = \<lparr>br_connected = connected, br_policies = policies, br_agents = agents,
     br_target = target, br_fallback = fallback, br_current = None, br_run = None, br_queue = [], br_failed = False, br_sent = []\<rparr>"

section \<open>Streaming\<close>

text \<open>\<open>render_cb\<close>\<close>

definition render_cb :: "event_envelope \<Rightarrow> bridge \<Rightarrow> bridge" where
  "render_cb env br =
     (let br = (if br_run br = None then br\<lparr>br_run := Some (ev_run_id env)\<rparr> else br);
          br = (if ev_type env = ''step_started''
            then (case (payload_str (ev_payload env) ''agent'', ev_step_id env) of
                (Some (c # cs), Some step) \<Rightarrow> if map_of (br_agents br) step = None
                  then br\<lparr>br_current := Some step, br_agents := br_agents br @ [(step, c # cs)]\<rparr> else br\<lparr>br_current := Some step\<rparr>
              | _ \<Rightarrow> br\<lparr>br_current := ev_step_id env\<rparr>)
            else br)
      in if br_connected br then br\<lparr>br_queue := br_queue br @ [Some env]\<rparr> else br)"

text \<open>One turn of the loop of \<open>_drain\<close> on the head of the queue; \<open>breaks\<close> says that the emission raises.\<close>

definition drain_one :: "(int \<Rightarrow> string) \<Rightarrow> bool \<Rightarrow> event_envelope \<Rightarrow> bridge \<Rightarrow> bridge" where
  "drain_one floats breaks env br =
     (if br_failed br then br
      else (case update_for floats env of
        None \<Rightarrow> br
      | Some u \<Rightarrow> if breaks then br\<lparr>br_failed := True\<rparr>
          else br\<lparr>br_sent := br_sent br @ [(u, ev_run_id env, ev_step_id env)]\<rparr>))"

text \<open>\<open>emit_notice\<close>\<close>

definition emit_notice :: "bool \<Rightarrow> string \<Rightarrow> bridge \<Rightarrow> bridge" where
  "emit_notice breaks s br =
     (if \<not> br_connected br \<or> br_failed br then br
      else if breaks then br\<lparr>br_failed := True\<rparr>
      else br\<lparr>br_sent := br_sent br @ [(ServerNotice s, case br_run br of Some (c # cs) \<Rightarrow> c # cs | _ \<Rightarrow> ''pending'', br_current br)]\<rparr>)"

section \<open>Permissions\<close>

text \<open>\<open>_payload\<close> and \<open>_decision_payload\<close>\<close>

definition bridge_payload ::
  "string \<Rightarrow> perm_request \<Rightarrow> bool \<Rightarrow> string \<Rightarrow> string \<Rightarrow> string \<Rightarrow> string option \<Rightarrow> bool \<Rightarrow> payload" where
  "bridge_payload now rq approved rule policy source response fallback =
     [(''request_summary'', PStr (request_summary (rq_tool_call rq))),
      (''options_offered'', str_list (map op_kind (rq_options rq))),
      (''decision'', PStr (if approved then ''approved'' else ''denied'')), (''rule_id'', PStr rule),
      (''policy_name'', PStr policy), (''policy_source'', PStr (source @ (if fallback then GUARDED_FALLBACK_SUFFIX else []))),
      (''enforcement_scope'', PStr ''acp_mediated''), (''ts'', PStr now), (''client_response'', opt_str response)]"

definition decision_payload :: "string \<Rightarrow> perm_request \<Rightarrow> decision \<Rightarrow> bool \<Rightarrow> string option \<Rightarrow> bool \<Rightarrow> payload" where
  "decision_payload now rq d approved response fallback =
     bridge_payload now rq approved (d_rule_id d) (d_policy_name d) (d_policy_source d) response fallback"

text \<open>\<open>_intersect\<close>: the client's answer to a request that the policy allows.\<close>

definition intersect :: "string \<Rightarrow> perm_request \<Rightarrow> decision \<Rightarrow> perm_reply \<Rightarrow> perm_reply \<times> payload" where
  "intersect now rq d reply =
     (if rp_kind reply = ''selected''
      then (case option_kind (rq_options rq) (rp_option reply) of
          Some k \<Rightarrow> if prefix ''allow'' k then (reply, decision_payload now rq d True (Some ''approved'') False)
            else (reply, decision_payload now rq d False (Some ''denied'') False)
        | None \<Rightarrow> (select_option (rq_options rq) REJECT_KIND_ORDER, decision_payload now rq d False (Some ''denied'') False))
      else (reply, decision_payload now rq d False (Some ''denied'') False))"

text \<open>The policy of the active step; \<open>None\<close> also when there is no active step.\<close>

definition bridge_policy :: "bridge \<Rightarrow> policy option" where
  "bridge_policy br = (case br_current br of
     None \<Rightarrow> None
   | Some step \<Rightarrow> (case map_of (br_policies br) step of
        Some po \<Rightarrow> Some po
      | None \<Rightarrow> if prefix EXECUTE_PREFIX step then br_fallback br else None))"

definition local_denial :: "string \<Rightarrow> perm_request \<Rightarrow> string \<Rightarrow> string \<Rightarrow> perm_reply \<times> payload" where
  "local_denial now rq rule policy =
     (select_option (rq_options rq) REJECT_KIND_ORDER, bridge_payload now rq False rule policy ''default'' None False)"

definition guarded_fallback :: "string \<Rightarrow> perm_request \<Rightarrow> decision \<Rightarrow> perm_reply \<times> payload" where
  "guarded_fallback now rq d = (select_option (rq_options rq) ALLOW_KIND_ORDER, decision_payload now rq d True None True)"

definition bridge_label :: "bridge \<Rightarrow> string" where
  "bridge_label br = (let step = the (br_current br) in
     ''agent:'' @ get_or (br_target br) (br_agents br) step @ '' step:'' @ step)"

definition fallback_notice :: string where
  "fallback_notice = ''[policy] the connected client does not support session/request_permission; ''
     @ ''this and subsequent permission requests are resolved by guarded local mediation''"

text \<open>
  \<open>decide_permission\<close>. \<open>realpath\<close> is the file system of the decision, \<open>client\<close> the answer to a forwarded
  request, \<open>breaks\<close> the failure of the notice.
\<close>

definition bridge_permission ::
  "fs \<Rightarrow> string \<Rightarrow> (payload \<times> perm_option list \<Rightarrow> sdk_answer) \<Rightarrow> bool \<Rightarrow> perm_request \<Rightarrow> session_state \<times> bridge
    \<Rightarrow> (exn + perm_reply \<times> payload) \<times> session_state \<times> bridge" where
  "bridge_permission realpath now client breaks rq sb = (case sb of (ss, br) \<Rightarrow>
     (case bridge_policy br of
        None \<Rightarrow> (Inr (local_denial now rq RULE_NO_ACTIVE_STEP ''guarded''), sb)
      | Some po \<Rightarrow> (case decide_permission realpath po (PDict (rq_tool_call rq)) of
          Inl e \<Rightarrow> (Inl (Python e), sb)
        | Inr d \<Rightarrow>
            if \<not> d_allowed d
            then (Inr (select_option (rq_options rq) REJECT_KIND_ORDER, decision_payload now rq d False None False), sb)
            else if br_connected br \<and> \<not> ss_no_forwarding ss
            then (case forward_permission client rq (bridge_label br) of
                Forwarded reply \<Rightarrow> (Inr (intersect now rq d reply), sb)
              | ClientPermissionUnsupported \<Rightarrow>
                  (Inr (guarded_fallback now rq d),
                   ss\<lparr>ss_no_forwarding := True, ss_noticed := True\<rparr>,
                   if ss_noticed ss then br else emit_notice breaks fallback_notice br)
              | Failed (Zig e) \<Rightarrow>
                  if err_class e = ProtocolError then (Inr (local_denial now rq RULE_FORWARD_FAILED (d_policy_name d)), sb)
                  else (Inl (Zig e), sb)
              | Failed e \<Rightarrow> (Inl e, sb))
            else (Inr (guarded_fallback now rq d), sb))))"

end
