(* ===== verification/Server.thy ===== *)
theory Server
  imports Server_Bridge
begin

text \<open>
  \<open>server/app.py ZiggyServer\<close> and \<open>acp/server.py\<close>: sessions, routes, the admission of runs and the answers
  over JSON-RPC. The server is a state machine whose steps are what the event loop runs without giving
  up control: the admission lock is only ever held inside such a step, so it is free whenever it is taken,
  and a prompt is admitted, prepared and started in one step. A handle is an object: \<open>sv_active\<close> and the
  suspended calls of \<open>prompt\<close> refer to it by its index in \<open>sv_handles\<close>.
\<close>

section \<open>State\<close>

definition DEFAULT_ROUTE :: string where "DEFAULT_ROUTE = ''orchestrator''"
definition AGENT_ROUTE_PREFIX :: string where "AGENT_ROUTE_PREFIX = ''agent:''"
definition WORKFLOW_ROUTE_PREFIX :: string where "WORKFLOW_ROUTE_PREFIX = ''workflow:''"

text \<open>What a prompt has prepared and started.\<close>

datatype launched_run = AgentRun run_spec | OrchestratorRun prepared_orchestration | WorkflowRun prepared_workflow

datatype task = NoTask | Running launched_run | Done "exn + run_result"

text \<open>\<open>_ActiveRun\<close>\<close>

record active_run =
  ar_cancelled :: bool
  ar_task :: task

text \<open>
  \<open>sv_handlers\<close> are the calls of \<open>prompt\<close> that await their run, by session and handle, and \<open>sv_closing\<close> the
  handles that \<open>aclose\<close> has copied and awaits.
\<close>

record server =
  sv_override :: "string option"
  sv_agent_routes :: "string list"
  sv_max :: int
  sv_connected :: bool
  sv_sessions :: "(string \<times> session_state) list"
  sv_active :: "(string \<times> nat) list"
  sv_handles :: "active_run list"
  sv_handlers :: "(string \<times> nat) list"
  sv_closing :: "(string \<times> nat) list option"
  sv_closed :: bool

text \<open>The constructor\<close>

definition new_server :: "(string \<Rightarrow> string) \<Rightarrow> ziggy_config \<Rightarrow> string option \<Rightarrow> zerror + server" where
  "new_server why cfg workspace_override = bindE (from_config why cfg) (\<lambda>reg. Inr
     \<lparr>sv_override = workspace_override, sv_agent_routes = map (\<lambda>name. AGENT_ROUTE_PREFIX @ name) (names reg),
      sv_max = max_active_runs (c_server cfg), sv_connected = False, sv_sessions = [], sv_active = [], sv_handles = [],
      sv_handlers = [], sv_closing = None, sv_closed = False\<rparr>)"

section \<open>Sessions\<close>

text \<open>\<open>sw_resolve\<close> is \<open>Path(raw).expanduser().resolve()\<close>; the files that the loader reads depend on the workspace.\<close>

record session_world =
  sw_resolve :: "string \<Rightarrow> exn + string"
  sw_is_dir :: "string \<Rightarrow> bool"
  sw_library :: library
  sw_files :: "string \<Rightarrow> config_files"
  sw_view :: directory_view
  sw_id :: string                                          \<comment> \<open>\<open>ziggy-\<close> and a uuid\<close>

definition not_a_directory :: "string \<Rightarrow> zerror" where
  "not_a_directory cwd = \<lparr>err_class = ValidationError,
     message = ''session cwd '' @ py_repr cwd @ '' must resolve to an existing directory'', details = [(''cwd'', PStr cwd)]\<rparr>"

definition session_routes :: "server \<Rightarrow> (string \<times> discovered_workflow) list \<Rightarrow> string list" where
  "session_routes sv workflows = DEFAULT_ROUTE # sv_agent_routes sv
     @ sort (map (\<lambda>(name, w). WORKFLOW_ROUTE_PREFIX @ name) workflows)"

text \<open>\<open>new_session\<close>: the session with its route and options.\<close>

definition open_session :: "session_world \<Rightarrow> string \<Rightarrow> server \<Rightarrow> (exn + session_state) \<times> server" where
  "open_session sw cwd sv =
     (case bindE (sw_resolve sw (case sv_override sv of Some w \<Rightarrow> w | None \<Rightarrow> cwd)) (\<lambda>canonical.
           if \<not> sw_is_dir sw canonical then Inl (Zig (not_a_directory cwd))
           else bindE (outcome_error (load_config (sw_library sw) (sw_files sw canonical))) (\<lambda>resolved.
           bindE (discover (sw_view sw) canonical) (\<lambda>workflows.
             Inr \<lparr>ss_id = sw_id sw, ss_cwd = canonical, ss_resolved = resolved, ss_route = DEFAULT_ROUTE,
               ss_options = session_routes sv workflows, ss_workflows = workflows, ss_no_forwarding = False, ss_noticed = False\<rparr>))) of
        Inl e \<Rightarrow> (Inl e, sv)
      | Inr ss \<Rightarrow> (Inr ss, sv\<lparr>sv_sessions := AList.update (ss_id ss) ss (sv_sessions sv)\<rparr>))"

text \<open>\<open>set_config_option\<close>: \<open>Inl\<close> is the text of a ValueError.\<close>

definition set_config_option :: "string \<Rightarrow> string \<Rightarrow> string \<Rightarrow> server \<Rightarrow> (string + string \<times> string list) \<times> server" where
  "set_config_option sid config_id v sv = (case map_of (sv_sessions sv) sid of
     None \<Rightarrow> (Inl (''unknown session '' @ py_repr sid), sv)
   | Some ss \<Rightarrow>
       if config_id \<noteq> ''route'' then (Inl (''unknown config option '' @ py_repr config_id), sv)
       else if v \<notin> set (ss_options ss) then (Inl (''unknown route value '' @ py_repr v), sv)
       else (Inr (v, ss_options ss), sv\<lparr>sv_sessions := AList.update sid (ss\<lparr>ss_route := v\<rparr>) (sv_sessions sv)\<rparr>))"

section \<open>Launching\<close>

definition no_overrides :: run_overrides where
  "no_overrides = \<lparr>ov_no_save = False, ov_capture = None, ov_timeout = None, ov_acknowledge = None, ov_plan_only = False\<rparr>"

text \<open>The driver is given a renderer, a cancel event and a decider.\<close>

definition served :: "preparation_world \<Rightarrow> preparation_world" where
  "served pr = pr\<lparr>pr_driver := (True, True, True)\<rparr>"

definition agent_run ::
  "preparation_world \<Rightarrow> (string \<times> string) list \<Rightarrow> bool \<Rightarrow> session_state \<Rightarrow> string \<Rightarrow> string \<Rightarrow> exn + launched_run \<times> bridge" where
  "agent_run pr env connected ss agent prompt =
     bindE (prepare_run (served pr) (rv_config (ss_resolved ss)) (rv_fingerprint (ss_resolved ss)) agent prompt (ss_cwd ss) no_overrides env)
       (\<lambda>ru. Inr (AgentRun ru, new_bridge connected [(MAIN_STEP_ID, the (ru_policy ru))] [(MAIN_STEP_ID, agent)] agent None))"

definition orchestrator_run ::
  "preparation_world \<Rightarrow> (string \<times> string) list \<Rightarrow> bool \<Rightarrow> session_state \<Rightarrow> string \<Rightarrow> exn + launched_run \<times> bridge" where
  "orchestrator_run pr env connected ss goal =
     bindE (prepare_orchestration (served pr) (rv_config (ss_resolved ss)) (rv_fingerprint (ss_resolved ss)) goal (ss_cwd ss) no_overrides env)
       (\<lambda>og. bindE (run_policy pr (rv_config (ss_resolved ss)) (ss_cwd ss)) (\<lambda>ceiling.
         Inr (OrchestratorRun og, new_bridge connected [] [] (ag_name (og_planner og)) (Some ceiling))))"

definition not_discoverable :: "string \<Rightarrow> zerror" where
  "not_discoverable name = \<lparr>err_class = ValidationError,
     message = ''workflow '' @ py_repr name @ '' is not discoverable in this session'', details = [(''workflow'', PStr name)]\<rparr>"

text \<open>The dash of the message is outside the model's characters and written as two hyphens.\<close>

definition needs_variables :: "string \<Rightarrow> string list \<Rightarrow> zerror" where
  "needs_variables name required = \<lparr>err_class = ValidationError,
     message = ''workflow '' @ py_repr name @ '' declares required variables ('' @ join '', '' required
       @ ''); prompts cannot supply workflow variables in v0.1 -- variables must have defaults for server routes'',
     details = [(''workflow'', PStr name), (''required_variables'', str_list required)]\<rparr>"

definition workflow_run ::
  "preparation_world \<Rightarrow> (string \<times> string) list \<Rightarrow> bool \<Rightarrow> session_state \<Rightarrow> string \<Rightarrow> exn + launched_run \<times> bridge" where
  "workflow_run pr env connected ss name = (case map_of (ss_workflows ss) name of
     None \<Rightarrow> Inl (Zig (not_discoverable name))
   | Some dw \<Rightarrow> (let required = sort (map fst (filter (\<lambda>(n, decl). v_required decl) (w_variables (dw_definition dw)))) in
       if required \<noteq> [] then Inl (Zig (needs_variables name required))
       else bindE (prepare_workflow (served pr) (rv_config (ss_resolved ss)) (rv_fingerprint (ss_resolved ss)) name [] (ss_cwd ss) no_overrides env)
         (\<lambda>pw. Inr (WorkflowRun pw, new_bridge connected (map (\<lambda>(step, pre). (step, ps_policy pre)) (pw_steps pw))
           (map (\<lambda>(step, pre). (step, ag_name (ps_config pre))) (pw_steps pw)) name None))))"

definition unknown_route :: "string \<Rightarrow> zerror" where
  "unknown_route route = \<lparr>err_class = ValidationError, message = ''unknown route '' @ py_repr route, details = [(''route'', PStr route)]\<rparr>"

definition launch_route ::
  "preparation_world \<Rightarrow> (string \<times> string) list \<Rightarrow> bool \<Rightarrow> session_state \<Rightarrow> string \<Rightarrow> exn + launched_run \<times> bridge" where
  "launch_route pr env connected ss prompt = (let route = ss_route ss in
     if route = DEFAULT_ROUTE then orchestrator_run pr env connected ss prompt
     else if prefix AGENT_ROUTE_PREFIX route
     then agent_run pr env connected ss (drop (length AGENT_ROUTE_PREFIX) route) prompt
     else if prefix WORKFLOW_ROUTE_PREFIX route
     then workflow_run pr env connected ss (drop (length WORKFLOW_ROUTE_PREFIX) route)
     else Inl (Zig (unknown_route route)))"

section \<open>Runs\<close>

definition server_busy :: "server \<Rightarrow> zerror" where
  "server_busy sv = (let n = int (length (sv_active sv)) in
     \<lparr>err_class = ServerBusyError, message = ''server busy: '' @ str_of_int n @ '' active run(s); server.max_active_runs is ''
       @ str_of_int (sv_max sv), details = [(''max_active_runs'', PInt (sv_max sv)), (''active_runs'', PInt n)]\<rparr>)"

text \<open>\<open>_admit\<close>: the index of the new handle.\<close>

definition admit_run :: "string \<Rightarrow> server \<Rightarrow> zerror + nat \<times> server" where
  "admit_run sid sv =
     (if sv_max sv \<le> int (length (sv_active sv)) \<or> sid \<in> set (keys (sv_active sv)) then Inl (server_busy sv)
      else (let n = length (sv_handles sv) in
        Inr (n, sv\<lparr>sv_active := AList.update sid n (sv_active sv),
          sv_handles := sv_handles sv @ [\<lparr>ar_cancelled = False, ar_task = NoTask\<rparr>]\<rparr>)))"

definition release :: "string \<Rightarrow> server \<Rightarrow> server" where
  "release sid sv = sv\<lparr>sv_active := AList.delete sid (sv_active sv)\<rparr>"

definition set_task :: "nat \<Rightarrow> task \<Rightarrow> server \<Rightarrow> server" where
  "set_task n t sv = sv\<lparr>sv_handles := (sv_handles sv)[n := (sv_handles sv ! n)\<lparr>ar_task := t\<rparr>]\<rparr>"

definition unknown_session :: "string \<Rightarrow> zerror" where
  "unknown_session sid = \<lparr>err_class = ValidationError, message = ''unknown session '' @ py_repr sid, details = [(''session_id'', PStr sid)]\<rparr>"

text \<open>\<open>prompt\<close> up to the await: the bridge and the handle that the call now waits for.\<close>

definition prompt ::
  "preparation_world \<Rightarrow> (string \<times> string) list \<Rightarrow> string \<Rightarrow> string \<Rightarrow> server \<Rightarrow> (exn + nat \<times> bridge) \<times> server" where
  "prompt pr env sid s sv = (case map_of (sv_sessions sv) sid of
     None \<Rightarrow> (Inl (Zig (unknown_session sid)), sv)
   | Some ss \<Rightarrow> (case admit_run sid sv of
       Inl e \<Rightarrow> (Inl (Zig e), sv)
     | Inr (n, sv') \<Rightarrow> (case launch_route pr env (sv_connected sv) ss s of
         Inl e \<Rightarrow> (Inl e, release sid sv')
       | Inr (l, br) \<Rightarrow> (Inr (n, br), (set_task n (Running l) sv')\<lparr>sv_handlers := sv_handlers sv' @ [(sid, n)]\<rparr>))))"

text \<open>A run ends, with a result or an exception.\<close>

definition run_ends :: "nat \<Rightarrow> exn + run_result \<Rightarrow> server \<Rightarrow> server" where
  "run_ends n r sv = set_task n (Done r) sv"

fun is_done :: "task \<Rightarrow> bool" where
  "is_done (Running l) = False"
| "is_done t = True"

text \<open>
  The \<open>finally\<close> of \<open>prompt\<close>, after the await has returned or was cancelled: the session is released only if
  the run is over.
\<close>

definition leave_prompt :: "string \<Rightarrow> nat \<Rightarrow> server \<Rightarrow> server" where
  "leave_prompt sid n sv = (let sv = sv\<lparr>sv_handlers := removeAll (sid, n) (sv_handlers sv)\<rparr> in
     if is_done (ar_task (sv_handles sv ! n)) then release sid sv else sv)"

definition set_cancelled :: "nat \<Rightarrow> server \<Rightarrow> server" where
  "set_cancelled n sv = sv\<lparr>sv_handles := (sv_handles sv)[n := (sv_handles sv ! n)\<lparr>ar_cancelled := True\<rparr>]\<rparr>"

definition cancel :: "string \<Rightarrow> server \<Rightarrow> server" where
  "cancel sid sv = (case map_of (sv_active sv) sid of None \<Rightarrow> sv | Some n \<Rightarrow> set_cancelled n sv)"

text \<open>\<open>aclose\<close> up to its first await, and after the last.\<close>

definition begin_close :: "server \<Rightarrow> server" where
  "begin_close sv = (fold set_cancelled (map snd (sv_active sv)) sv)\<lparr>sv_closing := Some (sv_active sv)\<rparr>"

definition end_close :: "(string \<times> nat) list \<Rightarrow> server \<Rightarrow> server" where
  "end_close hs sv = (fold release (keys hs) sv)\<lparr>sv_closed := True\<rparr>"

section \<open>The end of a prompt\<close>

definition run_first_error :: "run_result \<Rightarrow> typed_error option" where
  "run_first_error rr = (case rr_errors rr of
     e # es \<Rightarrow> Some e
   | [] \<Rightarrow> (case concat (map (sr_errors \<circ> snd) (rr_steps rr)) of e # es \<Rightarrow> Some e | [] \<Rightarrow> None))"

text \<open>\<open>_stop_info\<close>: the stop reason; a failed run is told by a notice.\<close>

definition stop_info :: "bool \<Rightarrow> run_result \<Rightarrow> bridge \<Rightarrow> string \<times> bridge" where
  "stop_info breaks rr br =
     (if rr_status rr = RunCancelled then (''cancelled'', br)
      else if rr_status rr \<in> {RunFailed, RunAbandoned}
      then (''end_turn'', emit_notice breaks (''[error] run '' @ rr_run_id rr @ '' failed''
        @ (case run_first_error rr of None \<Rightarrow> [] | Some e \<Rightarrow> '': '' @ te_code e @ '': '' @ te_message e)) br)
      else (''end_turn'', br))"

section \<open>JSON-RPC\<close>

text \<open>\<open>Unhandled\<close> is an exception that the wrapper does not catch; the SDK answers it.\<close>

datatype rpc_error = InternalError payload | InvalidParams payload | MethodNotFound string | Unhandled exn

definition to_request_error :: "zerror \<Rightarrow> rpc_error" where
  "to_request_error e = InternalError [(''code'', PStr (error_code (err_class e))), (''message'', PStr (message e)),
     (''details'', PDict (details e))]"

definition sdk_call :: "exn + 'a \<Rightarrow> rpc_error + 'a" where
  "sdk_call r = (case r of Inr x \<Rightarrow> Inr x | Inl (Zig e) \<Rightarrow> Inl (to_request_error e) | Inl e \<Rightarrow> Inl (Unhandled e))"

text \<open>\<open>_route_select\<close>: the current value and the options.\<close>

definition route_select :: "string \<Rightarrow> string list \<Rightarrow> string \<times> (string \<times> string) list" where
  "route_select route options = (route, map (\<lambda>x. (x, x)) options)"

definition sdk_new_session ::
  "session_world \<Rightarrow> string \<Rightarrow> server \<Rightarrow> (rpc_error + string \<times> string \<times> (string \<times> string) list) \<times> server" where
  "sdk_new_session sw cwd sv = (case open_session sw cwd sv of (r, sv') \<Rightarrow>
     (bindE (sdk_call r) (\<lambda>ss. Inr (ss_id ss, route_select (ss_route ss) (ss_options ss))), sv'))"

definition sdk_set_config_option ::
  "string \<Rightarrow> string \<Rightarrow> pyval \<Rightarrow> server \<Rightarrow> (rpc_error + string \<times> (string \<times> string) list) \<times> server" where
  "sdk_set_config_option config_id sid v sv =
     (if config_id \<noteq> ''route''
      then (Inl (InvalidParams [(''configId'', PStr config_id), (''reason'', PStr ''unknown config option'')]), sv)
      else (case v of
        PStr s \<Rightarrow> (case set_config_option sid config_id s sv of
            (Inl reason, sv') \<Rightarrow> (Inl (InvalidParams [(''configId'', PStr config_id), (''value'', PStr s), (''reason'', PStr reason)]), sv')
          | (Inr (route, options), sv') \<Rightarrow> (Inr (route_select route options), sv'))
      | _ \<Rightarrow> (Inl (InvalidParams [(''configId'', PStr config_id), (''reason'', PStr ''route value must be a string'')]), sv)))"

text \<open>The text of a prompt: its text blocks, one per line.\<close>

definition prompt_text :: "content_block list \<Rightarrow> string" where
  "prompt_text blocks = join [CHR 0x0a] (List.map_filter (\<lambda>b. case b of TextBlock s \<Rightarrow> Some s | OtherBlock t \<Rightarrow> None) blocks)"

definition sdk_prompt ::
  "preparation_world \<Rightarrow> (string \<times> string) list \<Rightarrow> string \<Rightarrow> content_block list \<Rightarrow> server \<Rightarrow> (rpc_error + nat \<times> bridge) \<times> server" where
  "sdk_prompt pr env sid blocks sv = (case prompt pr env sid (prompt_text blocks) sv of (r, sv') \<Rightarrow> (sdk_call r, sv'))"

text \<open>The methods that every client is refused.\<close>

definition UNSUPPORTED_METHODS :: "string list" where
  "UNSUPPORTED_METHODS = [''session/load'', ''session/list'', ''session/set_mode'', ''session/fork'', ''session/resume'', ''session/close'']"

definition sdk_authenticate :: "rpc_error + unit" where
  "sdk_authenticate = Inl (MethodNotFound ''authenticate'')"

end
