(* ===== verification/Bridge_Safety.thy ===== *)
theory Bridge_Safety
  imports Server
begin

text \<open>
  The bridge between a served run and its client: a client's answer can only narrow what the policy of
  the active step allows, and every recorded event that has a form for the client is sent once, in order.
\<close>

section \<open>Permissions\<close>

text \<open>The reply selects an option that allows.\<close>

definition grants :: "perm_request \<Rightarrow> perm_reply \<Rightarrow> bool" where
  "grants rq reply \<longleftrightarrow> rp_kind reply = ''selected''
     \<and> (case option_kind (rq_options rq) (rp_option reply) of None \<Rightarrow> False | Some k \<Rightarrow> prefix ''allow'' k)"

lemma select_option_Some:
  "rp_option (select_option options ks) = Some i \<Longrightarrow> \<exists>x \<in> set options. op_id x = i \<and> op_kind x \<in> set ks"
  by (induction options ks rule: select_option.induct) (fastforce simp: find_Some_iff split: option.splits)+

lemma option_kind_distinct:
  assumes "distinct (map op_id options)" and "x \<in> set options"
  shows "option_kind options (Some (op_id x)) = Some (op_kind x)"
proof -
  have "find (\<lambda>y. Some (op_id y) = Some (op_id x)) options = Some x"
    using assms by (induction options) auto
  then show ?thesis by (simp add: option_kind_def)
qed

lemma reject_never_grants:
  assumes "distinct (map op_id (rq_options rq))"
  shows "\<not> grants rq (select_option (rq_options rq) REJECT_KIND_ORDER)"
proof (cases "rp_option (select_option (rq_options rq) REJECT_KIND_ORDER)")
  case (Some i)
  from select_option_Some[OF this] obtain x where x: "x \<in> set (rq_options rq)" "op_id x = i" "op_kind x \<in> set REJECT_KIND_ORDER" by blast
  from option_kind_distinct[OF assms x(1)] x(2,3) Some show ?thesis
    by (auto simp: grants_def REJECT_KIND_ORDER_def)
next
  case None
  have "option_kind (rq_options rq) None = None" by (simp add: option_kind_def find_None_iff)
  with None show ?thesis by (simp add: grants_def)
qed

definition policy_allows :: "fs \<Rightarrow> bridge \<Rightarrow> perm_request \<Rightarrow> bool" where
  "policy_allows realpath br rq \<longleftrightarrow> (\<exists>po d. bridge_policy br = Some po
     \<and> decide_permission realpath po (PDict (rq_tool_call rq)) = Inr d \<and> d_allowed d)"

lemma intersect_grants:
  assumes "intersect now rq d r = (reply, body)" and "distinct (map op_id (rq_options rq))" and "grants rq reply"
  shows "reply = r \<and> map_of body ''decision'' = Some (PStr ''approved'')"
  using assms reject_never_grants[OF assms(2)]
  by (auto simp: intersect_def decision_payload_def bridge_payload_def grants_def split: if_splits option.splits)

lemma fallback_approved: "map_of (snd (guarded_fallback now rq d)) ''decision'' = Some (PStr ''approved'')"
  by (simp add: guarded_fallback_def decision_payload_def bridge_payload_def)

text \<open>What a granting reply says of the way it was found.\<close>

lemma bridge_grants:
  assumes b: "bridge_permission realpath now client breaks rq (ss, br) = (Inr (reply, body), st)"
    and d: "distinct (map op_id (rq_options rq))" and g: "grants rq reply"
  shows "policy_allows realpath br rq \<and> map_of body ''decision'' = Some (PStr ''approved'')
    \<and> (br_connected br \<and> \<not> ss_no_forwarding ss \<longrightarrow> forward_permission client rq (bridge_label br) \<in> {Forwarded reply, ClientPermissionUnsupported})"
proof -
  note n = reject_never_grants[OF d]
  obtain po where po: "bridge_policy br = Some po"
    using b g n by (cases "bridge_policy br") (auto simp: bridge_permission_def local_denial_def)
  obtain de where de: "decide_permission realpath po (PDict (rq_tool_call rq)) = Inr de"
    using b po by (cases "decide_permission realpath po (PDict (rq_tool_call rq))") (auto simp: bridge_permission_def)
  have al: "d_allowed de" using b g n po de by (auto simp: bridge_permission_def split: if_splits)
  then have p: "policy_allows realpath br rq" using po de by (auto simp: policy_allows_def)
  show ?thesis
  proof (cases "br_connected br \<and> \<not> ss_no_forwarding ss")
    case False
    with b po de al have "guarded_fallback now rq de = (reply, body)" by (auto simp: bridge_permission_def split: if_splits)
    with p False fallback_approved[of now rq de] show ?thesis by auto
  next
    case True
    show ?thesis
    proof (cases "forward_permission client rq (bridge_label br)")
      case (Forwarded r)
      with b po de al True have "intersect now rq de r = (reply, body)" by (auto simp: bridge_permission_def)
      from intersect_grants[OF this d g] p Forwarded show ?thesis by simp
    next
      case ClientPermissionUnsupported
      with b po de al True have "guarded_fallback now rq de = (reply, body)" by (auto simp: bridge_permission_def)
      with p ClientPermissionUnsupported fallback_approved[of now rq de] show ?thesis by auto
    next
      case (Failed e)
      with b po de al True g n show ?thesis by (auto simp: bridge_permission_def local_denial_def split: exn.splits if_splits)
    qed
  qed
qed


text \<open>a request that the policy denies, or that no active step accounts for, never reaches the client:
  reply, record and state are the same whatever the client would answer.\<close>

theorem denied_requests_are_not_forwarded:
  "policy_allows realpath br rq
   \<or> bridge_permission realpath now client breaks rq (ss, br) = bridge_permission realpath now client' breaks' rq (ss, br)"
  by (auto simp: policy_allows_def bridge_permission_def split: option.splits sum.splits)

lemma policy_permission_Ok:
  assumes "policy_permission w hk po ci rq s = (Ok reply, s')" and "\<not> hk_override hk"
  shows "\<exists>d. decide_permission (ci_decide ci) po (PDict (rq_tool_call rq)) = Inr d
    \<and> reply = select_option (rq_options rq) (if d_allowed d then ALLOW_KIND_ORDER else REJECT_KIND_ORDER)"
  using assms
  by (cases "decide_permission (ci_decide ci) po (PDict (rq_tool_call rq))")
    (auto simp: policy_permission_def Let_def followed_def andthen_def raise_def ok_def reads_def split: prod.splits res.splits)

text \<open>without a client that can be asked, a served run is mediated as any other: the bridge replies what the
  hooks of the step reply by themselves under the same policy.\<close>

theorem fallback_is_local_mediation:
  assumes "policy_permission w hk po ci rq s = (Ok reply, s')" and "\<not> hk_override hk"
    and "bridge_policy br = Some po" and "\<not> br_connected br \<or> ss_no_forwarding ss"
  shows "\<exists>body. bridge_permission (ci_decide ci) now client breaks rq (ss, br) = (Inr (reply, body), ss, br)"
  using policy_permission_Ok[OF assms(1,2)] assms(3,4)
  by (auto simp: bridge_permission_def guarded_fallback_def)

section \<open>Streaming\<close>

text \<open>What an event becomes on the wire.\<close>

definition sent_for :: "(int \<Rightarrow> string) \<Rightarrow> event_envelope \<Rightarrow> (server_update \<times> string \<times> string option) option" where
  "sent_for floats env = map_option (\<lambda>u. (u, ev_run_id env, ev_step_id env)) (update_for floats env)"

text \<open>
  The run renders an event, the drain task takes one from the queue, a notice is sent in between, and
  \<open>aclose\<close> ends the queue. The first three components are the events rendered, the events drained and the
  notices sent so far.
\<close>

inductive streams :: "(int \<Rightarrow> string) \<Rightarrow> event_envelope list \<Rightarrow> event_envelope list \<Rightarrow> (server_update \<times> string \<times> string option) list
    \<Rightarrow> bridge \<Rightarrow> bool" for floats where
  begins: "br_queue br = [] \<Longrightarrow> br_sent br = [] \<Longrightarrow> \<not> br_failed br \<Longrightarrow> br_connected br \<Longrightarrow> streams floats [] [] [] br"
| renders: "streams floats es ds ns br \<Longrightarrow> streams floats (es @ [env]) ds ns (render_cb env br)"
| drains: "streams floats es ds ns br \<Longrightarrow> br_queue br = Some env # q \<Longrightarrow>
    streams floats es (ds @ [env]) ns (drain_one floats breaks env (br\<lparr>br_queue := q\<rparr>))"
| notices: "streams floats es ds ns br \<Longrightarrow>
    streams floats es ds (ns @ drop (length (br_sent br)) (br_sent (emit_notice breaks s br))) (emit_notice breaks s br)"
| ends: "streams floats es ds ns br \<Longrightarrow> streams floats es ds ns (br\<lparr>br_queue := br_queue br @ [None]\<rparr>)"

definition pending :: "bridge \<Rightarrow> event_envelope list" where
  "pending br = List.map_filter id (br_queue br)"

lemma pending_simps [simp]:
  "pending (br\<lparr>br_queue := q @ [Some e]\<rparr>) = pending (br\<lparr>br_queue := q\<rparr>) @ [e]"
  "pending (br\<lparr>br_queue := q @ [None]\<rparr>) = pending (br\<lparr>br_queue := q\<rparr>)"
  "pending (br\<lparr>br_queue := Some e # q\<rparr>) = e # pending (br\<lparr>br_queue := q\<rparr>)"
  by (simp_all add: pending_def List.map_filter_def)

lemma shuffles_last: "ys @ [x] \<in> shuffles [x] ys" "ys @ [x] \<in> shuffles ys [x]"
proof -
  show "ys @ [x] \<in> shuffles [x] ys" by (induction ys) (auto simp: Cons_in_shuffles_iff)
  then show "ys @ [x] \<in> shuffles ys [x]" by (simp only: shuffles_commutes)
qed

lemma shuffles_snoc: "zs \<in> shuffles xs ys \<Longrightarrow> zs @ [x] \<in> shuffles (xs @ [x]) ys \<and> zs @ [x] \<in> shuffles xs (ys @ [x])"
proof (induction xs ys arbitrary: zs rule: shuffles.induct)
  case (3 a xs b ys)
  then show ?case by (auto simp: image_iff Cons_in_shuffles_iff)
qed (auto simp: shuffles_last)

text \<open>Unless an update could not be sent, the wire holds the updates of the drained events and the notices.\<close>

lemma streams_sent:
  assumes "streams floats es ds ns br"
  shows "br_connected br \<and> es = ds @ pending br \<and> (br_failed br \<or> br_sent br \<in> shuffles (List.map_filter (sent_for floats) ds) ns)"
  using assms
proof (induction rule: streams.induct)
  case (begins br)
  then show ?case by (simp add: pending_def List.map_filter_def)
next
  case (renders es ds ns br env)
  then show ?case
    by (auto simp: render_cb_def Let_def pending_def List.map_filter_def split: option.splits list.splits)
next
  case (drains es ds ns br env q breaks)
  have m: "List.map_filter (sent_for floats) (ds @ [env]) = List.map_filter (sent_for floats) ds @ (case sent_for floats env of None \<Rightarrow> [] | Some u \<Rightarrow> [u])"
    by (simp add: List.map_filter_def split: option.split)
  have p: "pending br = env # pending (br\<lparr>br_queue := q\<rparr>)" using drains(2) by (simp add: pending_def List.map_filter_simps)
  have q: "pending (drain_one floats breaks env (br\<lparr>br_queue := q\<rparr>)) = pending (br\<lparr>br_queue := q\<rparr>)"
    by (simp add: drain_one_def pending_def split: option.split)
  have c: "br_connected (drain_one floats breaks env (br\<lparr>br_queue := q\<rparr>)) = br_connected br"
    by (simp add: drain_one_def split: option.split)
  define sent where "sent = List.map_filter (sent_for floats) ds"
  have "br_failed (drain_one floats breaks env (br\<lparr>br_queue := q\<rparr>))
      \<or> br_sent (drain_one floats breaks env (br\<lparr>br_queue := q\<rparr>)) \<in> shuffles (sent @ (case sent_for floats env of None \<Rightarrow> [] | Some u \<Rightarrow> [u])) ns"
    using drains.IH unfolding sent_def[symmetric]
    by (auto simp: drain_one_def sent_for_def shuffles_snoc split: option.split)
  then show ?case using drains.IH unfolding m p q c sent_def by simp
next
  case (notices es ds ns br breaks s)
  then show ?case
    by (auto simp: emit_notice_def pending_def shuffles_snoc)
next
  case (ends es ds ns br)
  then show ?case by (auto simp: pending_def List.map_filter_def)
qed

text \<open>C29: what a run renders reaches the client once and in order: at every moment the events rendered are those
  drained and those still queued, and unless sending an update has failed the wire holds exactly the
  updates of the drained events, each with its run and step, interleaved with the notices of the server.\<close>

theorem rendered_events_are_sent_in_order:
  assumes "streams floats es ds ns br"
  shows "es = ds @ pending br \<and> (br_failed br \<or> br_sent br \<in> shuffles (List.map_filter (sent_for floats) ds) ns)"
  using streams_sent[OF assms] by blast

section \<open>What the client sees of an agent's updates\<close>

text \<open>The type and the payload that the hooks record for an update; a chunk goes through the stream guard first.\<close>

fun event_body :: "agent_event \<Rightarrow> string \<times> payload" where
  "event_body (MessageChunk role chunk thought) = (chunk_type thought, [(''role'', PStr role), (''text'', PStr chunk)])"
| "event_body (ToolCall i start title kind status locations has_content raw) =
     (if start then ''tool_call'' else ''tool_call_update'',
       [(''tool_call_id'', PStr i), (''phase'', PStr (if start then ''start'' else ''update'')),
        (''title'', opt_str title), (''kind'', opt_str kind), (''status'', opt_str status),
        (''locations'', str_list locations), (''has_content'', PBool has_content), (''raw'', PDict raw)])"
| "event_body (PlanUpdate entries) = (''plan'', [(''entries'', PList entries)])"
| "event_body (Usage used window cost currency raw) = (''usage'', [(''used'', used), (''size'', window), (''cost'', cost),
     (''currency'', currency), (''raw'', PDict raw)])"
| "event_body (Mode kind body) = (''mode'', [(''kind'', PStr kind), (''payload'', PDict body)])"
| "event_body (UnknownUpdate t body) = (''unknown_update'', [(''update_type'', PStr t), (''payload'', PDict body)])"

lemma on_event_records:
  assumes "\<not> (\<exists>role chunk thought. ev = MessageChunk role chunk thought)"
  shows "on_event w hk ev = hook_emit w hk (fst (event_body ev)) (snd (event_body ev))"
  using assms by (cases ev) auto

text \<open>Updates that the server passes on as they are.\<close>

fun passed_on :: "agent_event \<Rightarrow> bool" where
  "passed_on (MessageChunk role s thought) \<longleftrightarrow> role \<in> {''agent'', ''user''} \<and> s \<noteq> []"
| "passed_on (ToolCall i start title kind status locations has_content raw) \<longleftrightarrow> i \<noteq> []"
| "passed_on (PlanUpdate entries) \<longleftrightarrow> list_all is_dict entries"
| "passed_on (Usage used window cost currency raw) \<longleftrightarrow> (case (used, window, cost, currency) of
     (PInt u, PInt n, PNone, PNone) \<Rightarrow> True | (PInt u, PInt n, PFloat a, PStr c) \<Rightarrow> True | _ \<Rightarrow> False)"
| "passed_on (Mode kind body) \<longleftrightarrow> False"
| "passed_on (UnknownUpdate t body) \<longleftrightarrow> False"

fun without_raw :: "agent_event \<Rightarrow> agent_event" where
  "without_raw (ToolCall i start title kind status locations has_content raw) =
     ToolCall i start title kind status locations has_content []"
| "without_raw (Usage used window cost currency raw) = Usage used window cost currency []"
| "without_raw ev = ev"

lemma str_entries: "List.map_filter (\<lambda>v. case v of PStr s \<Rightarrow> Some s | _ \<Rightarrow> None) (map PStr ls) = ls"
  by (induction ls) (simp_all add: List.map_filter_simps)

lemma opt_str_again: "(case opt_str v of PStr s \<Rightarrow> Some s | _ \<Rightarrow> None) = v"
  by (cases v) (simp_all add: opt_str_def)

text \<open>C32: an agent's update that was recorded as it came comes out of the server as it went into the hooks, but
  for the raw payload, which never leaves it; session modes and unknown updates are not passed on.\<close>

theorem recorded_update_roundtrip:
  assumes "passed_on ev" and "ev_type env = fst (event_body ev)" and "ev_payload env = snd (event_body ev)"
  shows "update_for floats env = Some (AgentEvent (without_raw ev))"
proof (cases ev)
  case (MessageChunk role s thought)
  then show ?thesis
    using assms by (cases s; cases thought) (auto simp: update_for_def Let_def update_chunk_def payload_str_def chunk_type_def)
next
  case (ToolCall i start title kind status locations has_content raw)
  obtain c cs where i: "i = c # cs" using assms(1) ToolCall by (cases i) auto
  show ?thesis
    using assms(2,3) unfolding ToolCall i
    by (cases start) (simp_all add: update_for_def Let_def update_tool_def payload_str_def payload_list_def str_list_def str_entries opt_str_again get_or_def)
next
  case (PlanUpdate entries)
  have "filter is_dict entries = entries" using assms(1) PlanUpdate by (simp add: list_all_iff filter_id_conv)
  then show ?thesis using assms(2,3) PlanUpdate by (simp add: update_for_def Let_def payload_list_def)
next
  case (Usage used window cost currency raw)
  then show ?thesis
    using assms by (auto simp: update_for_def Let_def update_usage_def payload_int_def payload_str_def opt_str_def split: pyval.splits)
qed (use assms(1) in auto)

section \<open>Concrete exchanges\<close>

text \<open>The main step runs under \<open>tiny_policy\<close>.\<close>

definition main_bridge :: "bool \<Rightarrow> bridge" where
  "main_bridge connected = (new_bridge connected [(''main'', tiny_policy)] [(''main'', ''codex'')] ''codex'' None)\<lparr>br_current := Some ''main''\<rparr>"

definition plain_session :: session_state where
  "plain_session = \<lparr>ss_id = ''s'', ss_cwd = ''/ws'',
     ss_resolved = \<lparr>rv_config = default_config, rv_provenance = [], rv_fingerprint = ''f'', rv_warnings = []\<rparr>,
     ss_route = ''agent:codex'', ss_options = [''orchestrator'', ''agent:codex''], ss_workflows = [], ss_no_forwarding = False, ss_noticed = False\<rparr>"

definition read_request :: perm_request where
  "read_request = \<lparr>rq_session = ''s'', rq_tool_call = [(''kind'', PStr ''read''), (''locations'', PList [PStr ''src/a.py''])],
     rq_options = [\<lparr>op_id = ''n'', op_name = ''No'', op_kind = ''reject_once''\<rparr>, \<lparr>op_id = ''y'', op_name = ''Yes'', op_kind = ''allow_once''\<rparr>]\<rparr>"

definition willing_client :: "payload \<times> perm_option list \<Rightarrow> sdk_answer" where
  "willing_client x = SdkResponse (OutcomeSelected ''y'')"

lemma read_granted:
  "case bridge_permission tiny_fs ''now'' willing_client False read_request (plain_session, main_bridge True) of
     (Inr (reply, body), st) \<Rightarrow> reply = \<lparr>rp_kind = ''selected'', rp_option = Some ''y''\<rparr> | _ \<Rightarrow> False"
  by code_simp


theorem fallback_is_local_mediation_witness:
  "\<exists>body. bridge_permission tiny_fs ''now'' willing_client False demo_request (plain_session, main_bridge False)
     = (Inr (\<lparr>rp_kind = ''selected'', rp_option = Some ''b''\<rparr>, body), plain_session, main_bridge False)"
proof -
  obtain s' where r: "policy_permission demo_setting demo_hooks tiny_policy demo_circumstances demo_request demo_engine
      = (Ok \<lparr>rp_kind = ''selected'', rp_option = Some ''b''\<rparr>, s')" using demo_permission by (metis prod.collapse)
  have h: "\<not> hk_override demo_hooks" by (simp add: demo_hooks_def)
  have p: "bridge_policy (main_bridge False) = Some tiny_policy" by (simp add: bridge_policy_def main_bridge_def new_bridge_def)
  have c: "\<not> br_connected (main_bridge False) \<or> ss_no_forwarding plain_session" by (simp add: main_bridge_def new_bridge_def)
  have "ci_decide demo_circumstances = tiny_fs" by (simp add: demo_circumstances_def)
  with fallback_is_local_mediation[OF r h p c, of "''now''" willing_client False] show ?thesis by simp
qed

definition said :: event_envelope where
  "said = \<lparr>ev_seq = 0, ev_ts = ''t'', ev_offset_ms = 0, ev_run_id = ''r'', ev_step_id = Some ''main'', ev_attempt_no = Some 1,
     ev_session_id = None, ev_type = ''message_chunk'', ev_payload = [(''role'', PStr ''agent''), (''text'', PStr ''hi'')],
     ev_ref = None, ev_capture_status = Complete, ev_redaction = \<lparr>rm_applied = False, rm_counts = []\<rparr>\<rparr>"

theorem recorded_update_roundtrip_witness:
  "update_for (\<lambda>i. []) said = Some (AgentEvent (MessageChunk ''agent'' ''hi'' False))"
  using recorded_update_roundtrip[of "MessageChunk ''agent'' ''hi'' False" said "\<lambda>i. []"]
  by (simp add: said_def chunk_type_def)

theorem rendered_events_witness:
  "\<exists>br. streams (\<lambda>i. []) [said] [said] [] br \<and> br_sent br \<in> shuffles [(AgentEvent (MessageChunk ''agent'' ''hi'' False), ''r'', Some ''main'')] []"
proof -
  let ?b = "main_bridge True"
  let ?d = "drain_one (\<lambda>i. []) False said ((render_cb said ?b)\<lparr>br_queue := []\<rparr>)"
  have "streams (\<lambda>i. []) [] [] [] ?b" by (rule begins) (simp_all add: main_bridge_def new_bridge_def)
  from renders[OF this] have "streams (\<lambda>i. []) [said] [] [] (render_cb said ?b)" by simp
  moreover have "br_queue (render_cb said ?b) = Some said # []"
    by (simp add: render_cb_def main_bridge_def new_bridge_def said_def)
  ultimately have s: "streams (\<lambda>i. []) [said] [said] [] ?d" using drains[of "\<lambda>i. []" "[said]" "[]"] by fastforce
  have u: "update_for (\<lambda>i. []) said = Some (AgentEvent (MessageChunk ''agent'' ''hi'' False))" by code_simp
  have "\<not> br_failed ?d" by (simp add: drain_one_def u) (simp add: render_cb_def main_bridge_def new_bridge_def said_def)
  moreover have "List.map_filter (sent_for (\<lambda>i. [])) [said] = [(AgentEvent (MessageChunk ''agent'' ''hi'' False), ''r'', Some ''main'')]"
    by (simp add: List.map_filter_simps sent_for_def u) (simp add: said_def)
  ultimately show ?thesis using rendered_events_are_sent_in_order[OF s] s by (intro exI[of _ ?d]) simp
qed

end
