(* ===== verification/Server_Safety.thy ===== *)
theory Server_Safety
  imports Bridge_Safety Preparation_Safety Config_Authority
begin

text \<open>
  What the server promises: the admission of runs under every interleaving of its steps, the routes of a
  session, the permission bridge, which can only narrow the policy, and the re-emission of events.
\<close>

section \<open>The server as a transition system\<close>

text \<open>
  One atomic step. \<open>lax\<close> says whether prompts are still taken while \<open>aclose\<close> runs; a call of \<open>prompt\<close> is
  left when its run has ended, or earlier when it is cancelled.
\<close>

inductive server_step :: "bool \<Rightarrow> server \<Rightarrow> server \<Rightarrow> bool" for lax where
  connects: "server_step lax sv (sv\<lparr>sv_connected := True\<rparr>)"
| opens: "open_session sw cwd sv = (r, sv') \<Longrightarrow> server_step lax sv sv'"
| routes: "set_config_option sid config_id v sv = (r', sv') \<Longrightarrow> server_step lax sv sv'"
| asks: "map_of (sv_sessions sv) sid = Some ss \<Longrightarrow>
    bridge_permission realpath now client breaks rq (ss, br) = (reply, ss', br') \<Longrightarrow>
    server_step lax sv (sv\<lparr>sv_sessions := AList.update sid ss' (sv_sessions sv)\<rparr>)"
| prompts: "lax \<or> sv_closing sv = None \<Longrightarrow> prompt pr env sid s sv = (started, sv') \<Longrightarrow> server_step lax sv sv'"
| ends: "n < length (sv_handles sv) \<Longrightarrow> ar_task (sv_handles sv ! n) = Running l \<Longrightarrow> server_step lax sv (run_ends n outcome sv)"
| leaves: "(sid, n) \<in> set (sv_handlers sv) \<Longrightarrow> server_step lax sv (leave_prompt sid n sv)"
| cancels: "server_step lax sv (cancel sid sv)"
| closes: "sv_closing sv = None \<Longrightarrow> server_step lax sv (begin_close sv)"
| closed: "sv_closing sv = Some hs \<Longrightarrow> \<not> sv_closed sv \<Longrightarrow> list_all (\<lambda>(sid, n). is_done (ar_task (sv_handles sv ! n))) hs \<Longrightarrow>
    server_step lax sv (end_close hs sv)"

inductive server_reaches :: "bool \<Rightarrow> server \<Rightarrow> server \<Rightarrow> bool" for lax where
  start: "server_reaches lax sv sv"
| onward: "server_reaches lax sv sv' \<Longrightarrow> server_step lax sv' sv'' \<Longrightarrow> server_reaches lax sv sv''"

definition fresh :: "server \<Rightarrow> bool" where
  "fresh sv \<longleftrightarrow> sv_sessions sv = [] \<and> sv_active sv = [] \<and> sv_handles sv = [] \<and> sv_handlers sv = [] \<and> sv_closing sv = None \<and> \<not> sv_closed sv"

lemma new_server_fresh: "new_server why cfg w = Inr sv \<Longrightarrow> fresh sv \<and> sv_max sv = max_active_runs (c_server cfg)"
  by (auto simp: new_server_def bindE_eq_Inr fresh_def)

definition running :: "server \<Rightarrow> nat \<Rightarrow> bool" where
  "running sv n \<longleftrightarrow> n < length (sv_handles sv) \<and> \<not> is_done (ar_task (sv_handles sv ! n))"

section \<open>What an operation touches\<close>

definition same_runs :: "server \<Rightarrow> server \<Rightarrow> bool" where
  "same_runs sv sv' \<longleftrightarrow> sv_active sv' = sv_active sv \<and> sv_handles sv' = sv_handles sv \<and> sv_handlers sv' = sv_handlers sv
     \<and> sv_closing sv' = sv_closing sv \<and> sv_closed sv' = sv_closed sv \<and> sv_max sv' = sv_max sv"

lemma new_session_runs: "open_session sw cwd sv = (r, sv') \<Longrightarrow> same_runs sv sv'"
  by (auto simp: open_session_def same_runs_def split: sum.splits)

lemma set_config_option_runs: "set_config_option sid c v sv = (r, sv') \<Longrightarrow> same_runs sv sv'"
  by (auto simp: set_config_option_def same_runs_def split: option.splits if_splits)

lemma set_cancelled_runs:
  "sv_active (set_cancelled n sv) = sv_active sv" "sv_handlers (set_cancelled n sv) = sv_handlers sv"
  "sv_closing (set_cancelled n sv) = sv_closing sv" "sv_closed (set_cancelled n sv) = sv_closed sv"
  "sv_max (set_cancelled n sv) = sv_max sv" "length (sv_handles (set_cancelled n sv)) = length (sv_handles sv)"
  "sv_sessions (set_cancelled n sv) = sv_sessions sv"
  by (simp_all add: set_cancelled_def)

lemma set_cancelled_task: "i < length (sv_handles sv) \<Longrightarrow> ar_task (sv_handles (set_cancelled n sv) ! i) = ar_task (sv_handles sv ! i)"
  by (cases "n < length (sv_handles sv)") (auto simp: set_cancelled_def nth_list_update list_update_beyond)

lemma set_cancelled_flag:
  "i < length (sv_handles sv) \<Longrightarrow> ar_cancelled (sv_handles (set_cancelled n sv) ! i) \<longleftrightarrow> n = i \<or> ar_cancelled (sv_handles sv ! i)"
  by (cases "n < length (sv_handles sv)") (auto simp: set_cancelled_def nth_list_update list_update_beyond)

lemma fold_cancelled:
  "sv_active (fold set_cancelled ns sv) = sv_active sv \<and> sv_handlers (fold set_cancelled ns sv) = sv_handlers sv
    \<and> sv_closing (fold set_cancelled ns sv) = sv_closing sv \<and> sv_closed (fold set_cancelled ns sv) = sv_closed sv
    \<and> sv_max (fold set_cancelled ns sv) = sv_max sv \<and> length (sv_handles (fold set_cancelled ns sv)) = length (sv_handles sv)
    \<and> sv_sessions (fold set_cancelled ns sv) = sv_sessions sv
    \<and> (i < length (sv_handles sv) \<longrightarrow> ar_task (sv_handles (fold set_cancelled ns sv) ! i) = ar_task (sv_handles sv ! i)
         \<and> (ar_cancelled (sv_handles (fold set_cancelled ns sv) ! i) \<longleftrightarrow> i \<in> set ns \<or> ar_cancelled (sv_handles sv ! i)))"
  by (induction ns arbitrary: sv) (auto simp: set_cancelled_runs set_cancelled_task set_cancelled_flag)

lemma fold_release:
  "sv_active (fold release sids sv) = filter (\<lambda>(sid, n). sid \<notin> set sids) (sv_active sv) \<and> sv_handles (fold release sids sv) = sv_handles sv
    \<and> sv_handlers (fold release sids sv) = sv_handlers sv \<and> sv_closing (fold release sids sv) = sv_closing sv
    \<and> sv_max (fold release sids sv) = sv_max sv \<and> sv_sessions (fold release sids sv) = sv_sessions sv"
proof (induction sids arbitrary: sv)
  case (Cons sid sids)
  have "filter (\<lambda>(i, n). i \<notin> set sids) (AList.delete sid (sv_active sv)) = filter (\<lambda>(i, n). i \<notin> set (sid # sids)) (sv_active sv)"
    by (induction "sv_active sv" rule: list.induct) (auto simp: AList.delete_eq intro!: filter_cong)
  then show ?case using Cons[of "release sid sv"] by (simp add: release_def)
qed simp

lemma update_fresh: "k \<notin> set (keys d) \<Longrightarrow> AList.update k v d = d @ [(k, v)]"
  by (induction d) auto

lemma delete_fresh: "k \<notin> set (keys d) \<Longrightarrow> AList.delete k (d @ [(k, v)]) = d"
  by (induction d) auto

text \<open>A prompt changes nothing, leaves an unused handle behind, or starts a run.\<close>

lemma prompt_cases:
  assumes "prompt pr env sid s sv = (r, sv')"
  shows "sv' = sv
    \<or> sid \<notin> set (keys (sv_active sv)) \<and> sv' = sv\<lparr>sv_handles := sv_handles sv @ [\<lparr>ar_cancelled = False, ar_task = NoTask\<rparr>]\<rparr>
    \<or> (\<exists>l. sid \<notin> set (keys (sv_active sv)) \<and> int (length (sv_active sv)) < sv_max sv
         \<and> sv' = sv\<lparr>sv_active := sv_active sv @ [(sid, length (sv_handles sv))],
             sv_handles := sv_handles sv @ [\<lparr>ar_cancelled = False, ar_task = Running l\<rparr>],
             sv_handlers := sv_handlers sv @ [(sid, length (sv_handles sv))]\<rparr>)"
  using assms
  by (auto simp: prompt_def admit_run_def Let_def release_def set_task_def update_fresh delete_fresh
      split: option.splits sum.splits if_splits)

section \<open>Invariants\<close>

definition admitted :: "server \<Rightarrow> bool" where
  "admitted sv \<longleftrightarrow> distinct (keys (sv_active sv)) \<and> (sv_active sv = [] \<or> int (length (sv_active sv)) \<le> sv_max sv)"

lemma admitted_less:
  assumes "admitted sv" and "distinct (keys d)" and "length d \<le> length (sv_active sv)" and "sv_active sv' = d" "sv_max sv' = sv_max sv"
  shows "admitted sv'"
  using assms unfolding admitted_def by (cases "sv_active sv = []") auto

lemma admitted_same: "admitted sv \<Longrightarrow> sv_active sv' = sv_active sv \<Longrightarrow> sv_max sv' = sv_max sv \<Longrightarrow> admitted sv'"
  by (simp add: admitted_def)

lemma leave_prompt_runs:
  "sv_handles (leave_prompt sid n sv) = sv_handles sv" "sv_closing (leave_prompt sid n sv) = sv_closing sv"
  "sv_closed (leave_prompt sid n sv) = sv_closed sv" "sv_max (leave_prompt sid n sv) = sv_max sv"
  "sv_handlers (leave_prompt sid n sv) = removeAll (sid, n) (sv_handlers sv)"
  "sv_active (leave_prompt sid n sv)
     = (if is_done (ar_task (sv_handles sv ! n)) then AList.delete sid (sv_active sv) else sv_active sv)"
  by (simp_all add: leave_prompt_def release_def Let_def)

lemma distinct_keys_delete: "distinct (keys d) \<Longrightarrow> distinct (keys (AList.delete k d))"
  by (rule distinct_delete)

lemma length_delete: "length (AList.delete k d) \<le> length d"
  by (simp add: AList.delete_eq)

lemma server_step_max: "server_step lax sv sv' \<Longrightarrow> sv_max sv' = sv_max sv"
proof (induction rule: server_step.induct)
  case (closed sv hs)
  then show ?case by (simp add: end_close_def fold_release)
qed (auto simp: same_runs_def leave_prompt_runs run_ends_def set_task_def cancel_def set_cancelled_runs begin_close_def fold_cancelled
    dest!: new_session_runs set_config_option_runs prompt_cases split: option.splits)

lemma server_step_admitted: "server_step lax sv sv' \<Longrightarrow> admitted sv \<Longrightarrow> admitted sv'"
proof (induction rule: server_step.induct)
  case (prompts sv pr env sid s r sv')
  from prompt_cases[OF prompts(2)] prompts(3) show ?case by (auto simp: admitted_def)
next
  case (leaves sid n sv)
  show ?case
    by (rule admitted_less[OF leaves(2), of "sv_active (leave_prompt sid n sv)"])
      (use leaves in \<open>auto simp: leave_prompt_runs admitted_def distinct_keys_delete length_delete simp del: set_map\<close>)
next
  case (closed sv hs)
  show ?case
    by (rule admitted_less[OF closed(4), of "sv_active (end_close hs sv)"])
      (use closed in \<open>auto simp: end_close_def fold_release admitted_def distinct_map_filter\<close>)
next
  case (closes sv)
  then show ?case by (auto simp: admitted_def begin_close_def fold_cancelled)
next
  case (cancels sv sid)
  then show ?case by (auto simp: admitted_def cancel_def set_cancelled_runs split: option.splits)
next
  case (ends n sv l r)
  then show ?case by (auto simp: admitted_def run_ends_def set_task_def)
qed (auto intro: admitted_same simp: same_runs_def dest!: new_session_runs set_config_option_runs)

text \<open>Where prompts are refused while the server closes: every run that goes on is accounted for.\<close>

definition accounted :: "server \<Rightarrow> bool" where
  "accounted sv \<longleftrightarrow> admitted sv \<and> (\<forall>(sid, n) \<in> set (sv_active sv). n < length (sv_handles sv))
     \<and> (\<forall>(sid, n) \<in> set (sv_handlers sv). sv_closed sv \<or> map_of (sv_active sv) sid = Some n)
     \<and> (\<forall>n. running sv n \<longrightarrow> n \<in> snd ` set (sv_active sv))
     \<and> (\<forall>hs. sv_closing sv = Some hs \<longrightarrow> set (sv_active sv) \<subseteq> set hs
          \<and> (\<forall>(sid, n) \<in> set hs. n < length (sv_handles sv) \<and> ar_cancelled (sv_handles sv ! n)))
     \<and> (sv_closed sv \<longrightarrow> sv_active sv = [] \<and> sv_closing sv \<noteq> None)"

lemma accounted_same: "accounted sv \<Longrightarrow> same_runs sv sv' \<Longrightarrow> accounted sv'"
  unfolding accounted_def same_runs_def running_def by (auto intro: admitted_same)

lemma fresh_accounted: "fresh sv \<Longrightarrow> accounted sv"
  by (simp add: fresh_def accounted_def admitted_def running_def)

lemma running_append:
  "running (sv\<lparr>sv_handles := sv_handles sv @ [\<lparr>ar_cancelled = False, ar_task = t\<rparr>]\<rparr>) n
    \<longleftrightarrow> running sv n \<or> n = length (sv_handles sv) \<and> \<not> is_done t"
  by (auto simp: running_def nth_append)

lemma accounted_prompt:
  assumes a: "accounted sv" and c: "sv_closing sv = None" and p: "prompt pr env sid s sv = (r, sv')"
  shows "accounted sv'"
proof -
  have adm: "admitted sv'"
    using prompts[of False sv pr env sid s r sv'] c p a server_step_admitted unfolding accounted_def by blast
  from prompt_cases[OF p] consider "sv' = sv"
    | "sv' = sv\<lparr>sv_handles := sv_handles sv @ [\<lparr>ar_cancelled = False, ar_task = NoTask\<rparr>]\<rparr>"
    | l where "sid \<notin> set (keys (sv_active sv))" "sv' = sv\<lparr>sv_active := sv_active sv @ [(sid, length (sv_handles sv))],
        sv_handles := sv_handles sv @ [\<lparr>ar_cancelled = False, ar_task = Running l\<rparr>],
        sv_handlers := sv_handlers sv @ [(sid, length (sv_handles sv))]\<rparr>" by blast
  then show ?thesis
  proof cases
    case 1
    with a show ?thesis by simp
  next
    case 2
    have "running sv' n \<longleftrightarrow> running sv n" for n by (auto simp: 2 running_def nth_append)
    then show ?thesis using a adm c unfolding accounted_def by (auto simp: 2)
  next
    case 3
    have r: "running sv' n \<longleftrightarrow> running sv n \<or> n = length (sv_handles sv)" for n by (auto simp: 3 running_def nth_append)
    have "map_of (sv_active sv) i = Some n \<Longrightarrow> map_of (sv_active sv') i = Some n" for i n using 3 by (auto dest: map_of_SomeD)
    moreover have "map_of (sv_active sv') sid = Some (length (sv_handles sv))"
      using 3(1) by (simp add: 3(2) map_add_def map_of_eq_None_iff[THEN iffD2])
    ultimately have h: "\<forall>(i, n) \<in> set (sv_handlers sv'). sv_closed sv' \<or> map_of (sv_active sv') i = Some n"
      using a c unfolding accounted_def by (auto simp: 3(2))
    have b: "\<forall>(i, n) \<in> set (sv_active sv'). n < length (sv_handles sv')" using a unfolding accounted_def by (auto simp: 3(2))
    have "\<forall>n. running sv' n \<longrightarrow> n \<in> snd ` set (sv_active sv')" using a r unfolding accounted_def by (auto simp: 3(2))
    moreover have "sv_closing sv' = None" "sv_closed sv' = sv_closed sv" using c by (simp_all add: 3(2))
    moreover have "\<not> sv_closed sv" using a c unfolding accounted_def by blast
    ultimately show ?thesis using adm h b unfolding accounted_def by simp
  qed
qed

lemma accounted_leave:
  assumes a: "accounted sv" and h: "(sid, n) \<in> set (sv_handlers sv)"
  shows "accounted (leave_prompt sid n sv)"
proof -
  have adm: "admitted (leave_prompt sid n sv)" using server_step_admitted leaves[OF h] a unfolding accounted_def by blast
  have r: "running (leave_prompt sid n sv) m \<longleftrightarrow> running sv m" for m by (simp add: running_def leave_prompt_runs)
  show ?thesis
  proof (cases "is_done (ar_task (sv_handles sv ! n)) \<and> \<not> sv_closed sv")
    case False
    then have "sv_active (leave_prompt sid n sv) = sv_active sv" using a by (auto simp: leave_prompt_runs accounted_def)
    then show ?thesis using a adm r unfolding accounted_def by (auto simp: leave_prompt_runs)
  next
    case True
    then have m: "map_of (sv_active sv) sid = Some n" using a h unfolding accounted_def by blast
    have d: "distinct (keys (sv_active sv))" using a by (simp add: accounted_def admitted_def)
    have other: "i = sid \<or> (i, k) \<in> set (AList.delete sid (sv_active sv))" if "(i, k) \<in> set (sv_active sv)" for i k
      using that by (auto simp: AList.delete_eq)
    have hs: "(i, k) = (sid, n)" if "(i, k) \<in> set (sv_handlers sv)" "i = sid" for i k
      using that a m True unfolding accounted_def by auto
    have run: "m \<in> snd ` set (AList.delete sid (sv_active sv))" if m': "running sv m" for m
    proof -
      obtain i where i: "(i, m) \<in> set (sv_active sv)" using m' a unfolding accounted_def by fastforce
      have "m \<noteq> n" using m' True by (auto simp: running_def)
      then have "i \<noteq> sid" using map_of_is_SomeI[OF d i] m by auto
      with other[OF i] show ?thesis by force
    qed
    have sub: "set (AList.delete sid (sv_active sv)) \<subseteq> set (sv_active sv)" by (auto simp: AList.delete_eq)
    have sub': "(i, k) \<in> set hs" if "sv_closing sv = Some hs" "(i, k) \<in> set (AList.delete sid (sv_active sv))" for hs i k
      using a sub that unfolding accounted_def by blast
    have del: "map_of (AList.delete sid (sv_active sv)) i = map_of (sv_active sv) i" if "i \<noteq> sid" for i
      using that by (simp add: delete_conv')
    have acts: "sv_active (leave_prompt sid n sv) = AList.delete sid (sv_active sv)" using True by (simp add: leave_prompt_runs)
    have hk: "map_of (AList.delete sid (sv_active sv)) i = Some k" if "(i, k) \<in> set (removeAll (sid, n) (sv_handlers sv))" for i k
    proof -
      have "(i, k) \<in> set (sv_handlers sv)" "i \<noteq> sid" using that hs[of i k] by auto
      then show ?thesis using del[of i] a True unfolding accounted_def by auto
    qed
    have hh: "\<forall>(i, k) \<in> set (removeAll (sid, n) (sv_handlers sv)). sv_closed sv \<or> map_of (AList.delete sid (sv_active sv)) i = Some k"
      using hk by blast
    show ?thesis
      unfolding accounted_def acts leave_prompt_runs(1-5) r
      using a adm run sub sub' hh True unfolding accounted_def by auto
  qed
qed

lemma accounted_marks:
  assumes a: "accounted sv" and l: "length (sv_handles sv') = length (sv_handles sv)"
    and t: "\<And>i. i < length (sv_handles sv) \<Longrightarrow> ar_task (sv_handles sv' ! i) = ar_task (sv_handles sv ! i) \<or> is_done (ar_task (sv_handles sv' ! i))"
    and c: "\<And>i. i < length (sv_handles sv) \<Longrightarrow> ar_cancelled (sv_handles sv ! i) \<Longrightarrow> ar_cancelled (sv_handles sv' ! i)"
    and f: "sv_active sv' = sv_active sv" "sv_handlers sv' = sv_handlers sv" "sv_closed sv' = sv_closed sv" "sv_max sv' = sv_max sv"
    and k: "sv_closing sv' = sv_closing sv"
  shows "accounted sv'"
proof -
  have r: "running sv' n \<Longrightarrow> running sv n" for n using t[of n] l by (auto simp: running_def)
  have "admitted sv'" using a f by (simp add: accounted_def admitted_def)
  moreover have "n < length (sv_handles sv') \<and> ar_cancelled (sv_handles sv' ! n)"
    if "sv_closing sv = Some hs" "(sid, n) \<in> set hs" for hs sid n
  proof -
    have "n < length (sv_handles sv)" "ar_cancelled (sv_handles sv ! n)" using a that unfolding accounted_def by auto
    with c l show ?thesis by simp
  qed
  ultimately show ?thesis using a r l unfolding accounted_def f k by auto
qed

lemma server_step_accounted: "server_step False sv sv' \<Longrightarrow> accounted sv \<Longrightarrow> accounted sv'"
proof (induction rule: server_step.induct)
  case (prompts sv pr env sid s r sv')
  then show ?case using accounted_prompt by blast
next
  case (leaves sid n sv)
  then show ?case by (intro accounted_leave)
next
  case (ends n sv l r)
  show ?case
    by (rule accounted_marks[OF ends(3)]) (use ends(1) in \<open>auto simp: run_ends_def set_task_def nth_list_update\<close>)
next
  case (cancels sv sid)
  then show ?case
    by (auto simp: cancel_def set_cancelled_runs set_cancelled_task set_cancelled_flag split: option.splits intro!: accounted_marks[of sv])
next
  case (closes sv)
  let ?s = "fold set_cancelled (map snd (sv_active sv)) sv"
  have s: "accounted ?s" by (rule accounted_marks[OF closes(2)]) (auto simp: fold_cancelled)
  have c: "n < length (sv_handles ?s) \<and> ar_cancelled (sv_handles ?s ! n)" if "(sid, n) \<in> set (sv_active sv)" for sid n
  proof -
    have "n < length (sv_handles sv)" using that closes(2) unfolding accounted_def by auto
    moreover have "n \<in> set (map snd (sv_active sv))" using that by force
    ultimately show ?thesis by (simp add: fold_cancelled)
  qed
  have e: "sv_active ?s = sv_active sv" by (simp add: fold_cancelled)
  have "running (begin_close sv) n \<longleftrightarrow> running ?s n" for n by (simp add: begin_close_def running_def)
  moreover have "admitted (begin_close sv)" using s e by (simp add: accounted_def admitted_def begin_close_def)
  ultimately show ?case
    using s c e closes(1) unfolding accounted_def by (auto simp: begin_close_def fold_cancelled)
next
  case (closed sv hs)
  have sub: "set (sv_active sv) \<subseteq> set hs" using closed unfolding accounted_def by auto
  then have e: "sv_active (end_close hs sv) = []"
    by (force simp: end_close_def fold_release filter_empty_conv)
  have "\<not> running sv n" for n
  proof
    assume "running sv n"
    then obtain sid where "(sid, n) \<in> set (sv_active sv)" using closed(4) unfolding accounted_def by fastforce
    with sub closed(3) \<open>running sv n\<close> show False by (auto simp: list_all_iff running_def)
  qed
  then have "\<not> running (end_close hs sv) n" for n by (simp add: running_def end_close_def fold_release)
  with closed e show ?case
    unfolding accounted_def by (auto simp: end_close_def fold_release admitted_def split: option.splits)
qed (auto intro: accounted_same simp: same_runs_def dest!: new_session_runs set_config_option_runs)

lemma server_reaches_invariant:
  assumes "server_reaches lax sv sv'" and "P sv" and "\<And>sv sv'. server_step lax sv sv' \<Longrightarrow> P sv \<Longrightarrow> P sv'"
  shows "P sv'"
  using assms by (induction rule: server_reaches.induct) auto

lemma server_reaches_max: "server_reaches lax sv sv' \<Longrightarrow> sv_max sv' = sv_max sv"
  by (induction rule: server_reaches.induct) (auto dest: server_step_max)

lemma card_running:
  assumes "accounted sv"
  shows "card {n. running sv n} \<le> length (sv_active sv)"
proof -
  have "{n. running sv n} \<subseteq> snd ` set (sv_active sv)" using assms unfolding accounted_def by blast
  then have "card {n. running sv n} \<le> card (snd ` set (sv_active sv))" by (intro card_mono) auto
  also have "\<dots> \<le> card (set (sv_active sv))" by (rule card_image_le) simp
  also have "\<dots> \<le> length (sv_active sv)" by (rule card_length)
  finally show ?thesis .
qed

lemma running_registered:
  assumes "accounted sv" and "running sv n"
  shows "\<exists>sid. map_of (sv_active sv) sid = Some n \<and> ar_cancelled (sv_handles (cancel sid sv) ! n)"
proof -
  obtain sid where "(sid, n) \<in> set (sv_active sv)" using assms unfolding accounted_def by fastforce
  then have "map_of (sv_active sv) sid = Some n" using assms(1) unfolding accounted_def admitted_def by (auto intro: map_of_is_SomeI)
  moreover have "n < length (sv_handles sv)" using assms(2) by (simp add: running_def)
  ultimately show ?thesis by (intro exI[of _ sid]) (simp add: cancel_def set_cancelled_flag)
qed

section \<open>Sessions\<close>

definition routes_listed :: "server \<Rightarrow> bool" where
  "routes_listed sv \<longleftrightarrow> (\<forall>(sid, ss) \<in> set (sv_sessions sv).
     ss_route ss \<in> set (ss_options ss) \<and> ss_options ss = session_routes sv (ss_workflows ss))"

lemma bridge_permission_flags:
  "bridge_permission realpath now client breaks rq (ss, br) = (reply, ss', br') \<Longrightarrow>
     ss_route ss' = ss_route ss \<and> ss_options ss' = ss_options ss \<and> ss_workflows ss' = ss_workflows ss"
  by (auto simp: bridge_permission_def split: option.splits sum.splits if_splits forwarded.splits exn.splits)

lemma routes_update:
  assumes "routes_listed sv" and "ss_route ss \<in> set (ss_options ss)" "ss_options ss = session_routes sv (ss_workflows ss)"
  shows "routes_listed (sv\<lparr>sv_sessions := AList.update sid ss (sv_sessions sv)\<rparr>)"
proof -
  have r: "session_routes (sv\<lparr>sv_sessions := AList.update sid ss (sv_sessions sv)\<rparr>) ws = session_routes sv ws" for ws
    by (simp add: session_routes_def)
  show ?thesis
    using assms set_update_subset[of sid ss "sv_sessions sv"] unfolding routes_listed_def r by auto
qed

lemma routes_same: "routes_listed sv \<Longrightarrow> sv_sessions sv' = sv_sessions sv \<Longrightarrow> sv_agent_routes sv' = sv_agent_routes sv \<Longrightarrow> routes_listed sv'"
  by (simp add: routes_listed_def session_routes_def)

lemma fold_agent_routes:
  "sv_agent_routes (fold set_cancelled ns sv) = sv_agent_routes sv" "sv_agent_routes (fold release sids sv) = sv_agent_routes sv"
  by (induction ns arbitrary: sv, simp_all add: set_cancelled_def) (induction sids arbitrary: sv, simp_all add: release_def)

lemma server_step_routes: "server_step lax sv sv' \<Longrightarrow> routes_listed sv \<Longrightarrow> routes_listed sv'"
proof (induction rule: server_step.induct)
  case (opens sw cwd sv r sv')
  then show ?case
    by (auto simp: open_session_def bindE_eq_Inr session_routes_def[of sv] DEFAULT_ROUTE_def split: sum.splits if_splits
        intro!: routes_update)
next
  case (routes sid c v sv r sv')
  then show ?case
  proof (cases "map_of (sv_sessions sv) sid")
    case None
    with routes show ?thesis by (simp add: set_config_option_def)
  next
    case (Some ss)
    with routes(2) have "ss_options ss = session_routes sv (ss_workflows ss)"
      unfolding routes_listed_def by (auto dest: map_of_SomeD)
    with routes Some show ?thesis
      by (auto simp: set_config_option_def split: if_splits intro!: routes_update)
  qed
next
  case (asks sv sid ss rp now client breaks rq br reply ss' br')
  have "ss_route ss \<in> set (ss_options ss) \<and> ss_options ss = session_routes sv (ss_workflows ss)"
    using asks(1,3) unfolding routes_listed_def by (auto dest: map_of_SomeD)
  with bridge_permission_flags[OF asks(2)] asks(3) show ?case by (intro routes_update) auto
next
  case (prompts sv pr env sid s r sv')
  from prompt_cases[OF prompts(2)] prompts(3) show ?case by (auto intro: routes_same)
next
  case (closes sv)
  show ?case by (rule routes_same[OF closes(2)]) (simp_all add: begin_close_def fold_cancelled fold_agent_routes)
next
  case (closed sv hs)
  show ?case by (rule routes_same[OF closed(4)]) (simp_all add: end_close_def fold_release fold_agent_routes)
next
  case (cancels sv sid)
  show ?case
    by (rule routes_same[OF cancels]) (auto simp: cancel_def set_cancelled_def split: option.splits)
next
  case (leaves sid n sv)
  show ?case by (rule routes_same[OF leaves(2)]) (simp_all add: leave_prompt_def release_def Let_def)
next
  case (ends n sv l r)
  show ?case by (rule routes_same[OF ends(3)]) (simp_all add: run_ends_def set_task_def)
qed (auto intro: routes_same)

section \<open>The ceilings of a launched run\<close>

text \<open>A step that names neither a working directory nor a profile has the policy of the run.\<close>

lemma plain_step_policy:
  assumes "run_policy pr cfg workspace = Inr po" and "s_working_dir sd = None" "s_policy_profile sd = None"
    and "pc_default_policy (c_permissions cfg) \<noteq> []"
  shows "step_policy (pr_realpath pr) cfg workspace step sd = Inr po"
  using assms by (auto simp: run_policy_def step_policy_def Let_def split: sum.splits)

lemma map_of_steps: "map_of (map (\<lambda>(step, pre). (step, f pre)) steps) step = map_option f (map_of steps step)"
  by (induction steps) auto

definition ceilings_of :: "preparation_world \<Rightarrow> ziggy_config \<Rightarrow> string \<Rightarrow> launched_run \<Rightarrow> bridge \<Rightarrow> bool" where
  "ceilings_of pr cfg workspace l br \<longleftrightarrow> (case l of
     AgentRun ru \<Rightarrow> ru_override ru \<and> br_fallback br = None
       \<and> (\<forall>step. map_of (br_policies br) step = (if step = MAIN_STEP_ID then ru_policy ru else None))
   | WorkflowRun pw \<Rightarrow> pw_override pw \<and> br_fallback br = None
       \<and> (\<forall>step. map_of (br_policies br) step = map_option ps_policy (map_of (pw_steps pw) step))
   | OrchestratorRun og \<Rightarrow> og_override og \<and> br_policies br = []
       \<and> (\<exists>po. br_fallback br = Some po \<and> run_policy pr cfg workspace = Inr po))"

lemma prepare_run_policy: "prepare_run pr cfg f agent s ws ov env = Inr ru \<Longrightarrow> ru_policy ru \<noteq> None \<and> ru_override ru = snd (snd (pr_driver pr))"
  by (auto simp: prepare_run_def bindE_eq_Inr split: if_splits)

lemma prepare_orchestration_override: "prepare_orchestration pr cfg f goal ws ov env = Inr og \<Longrightarrow> og_override og = snd (snd (pr_driver pr))"
  by (auto simp: prepare_orchestration_def Let_def bindE_eq_Inr split: option.splits list.splits if_splits)

lemma prepare_workflow_override:
  assumes "prepare_workflow pr cfg f name cli ws ov env = Inr pw"
  shows "pw_override pw = snd (snd (pr_driver pr))"
  using assms unfolding prepare_workflow_def Let_def by (auto simp: bindE_eq_Inr split: if_splits)

text \<open>What the bridge of a run asks under: the policy of the
  one step of a direct run, those of the steps of a workflow, and for an orchestrated run, whose steps are
  not known yet, the policy of the workspace; the driver always gets the bridge as its decider.\<close>

lemma bridge_has_the_step_policies:
  "case launch_route pr env connected ss s of
     Inl e \<Rightarrow> True
   | Inr (l, br) \<Rightarrow> ceilings_of pr (rv_config (ss_resolved ss)) (ss_cwd ss) l br"
proof (cases "launch_route pr env connected ss s")
  case (Inr x)
  obtain l br where x: "x = (l, br)" by (cases x)
  have d: "snd (snd (pr_driver (served pr)))" by (simp add: served_def)
  have "ceilings_of pr (rv_config (ss_resolved ss)) (ss_cwd ss) l br"
    using Inr d unfolding x
    by (auto simp: launch_route_def Let_def orchestrator_run_def agent_run_def workflow_run_def bindE_eq_Inr ceilings_of_def new_bridge_def
        map_of_steps split: if_splits option.splits dest: prepare_run_policy prepare_orchestration_override prepare_workflow_override)
  with Inr x show ?thesis by simp
qed simp

section \<open>Properties of the server\<close>

lemma reaches_accounted:
  assumes "new_server why cfg workspace_override = Inr sv0" and "server_reaches False sv0 sv"
  shows "accounted sv \<and> sv_max sv = max_active_runs (c_server cfg)"
proof -
  have f: "fresh sv0" "sv_max sv0 = max_active_runs (c_server cfg)" using new_server_fresh[OF assms(1)] by blast+
  have "accounted sv" by (rule server_reaches_invariant[where P = accounted, OF assms(2) fresh_accounted[OF f(1)] server_step_accounted])
  with f(2) server_reaches_max[OF assms(2)] show ?thesis by simp
qed

text \<open>Nothing undoes the beginning of a shutdown, so a server that has not begun one was never restricted.\<close>

lemma server_step_closing:
  assumes "server_step lax sv sv'"
  shows "sv_closing sv' = None \<longrightarrow> sv_closing sv = None \<and> server_step False sv sv'"
    and "sv_closing sv = Some hs \<longrightarrow> sv_closing sv' = Some hs"
proof -
  have k: "sv_closing sv' = (if sv_closing sv = None then sv_closing sv' else sv_closing sv)"
    using assms
  proof (induction rule: server_step.induct)
    case (prompts sv pr env sid s r sv')
    from prompt_cases[OF prompts(2)] show ?case by auto
  qed (auto simp: same_runs_def leave_prompt_runs run_ends_def set_task_def cancel_def set_cancelled_runs begin_close_def end_close_def fold_release
      dest!: new_session_runs set_config_option_runs split: option.splits)
  then show "sv_closing sv = Some hs \<longrightarrow> sv_closing sv' = Some hs" by (auto split: if_splits)
  from k have c: "sv_closing sv = None" if "sv_closing sv' = None" using that by (auto split: if_splits)
  have "server_step False sv sv'" if "sv_closing sv = None"
    using assms that by (cases rule: server_step.cases) (auto intro: server_step.intros)
  with c show "sv_closing sv' = None \<longrightarrow> sv_closing sv = None \<and> server_step False sv sv'" by blast
qed

lemma server_reaches_open: "server_reaches lax sv sv' \<Longrightarrow> sv_closing sv' = None \<Longrightarrow> server_reaches False sv sv'"
proof (induction rule: server_reaches.induct)
  case (onward sv sv' sv'')
  from server_step_closing(1)[OF onward(2)] onward(3,4) show ?case by (blast intro: server_reaches.onward)
qed (rule server_reaches.start)

text \<open>C11: until a shutdown begins, admission accounts for every run in every interleaving, and after that as long
  as no prompt arrives: the runs that go on are never more than \<open>server.max_active_runs\<close>, and each is
  registered under a session, so that cancelling that session sets the run's cancel event.\<close>

theorem served_runs_are_admitted:
  assumes "new_server why cfg workspace_override = Inr sv0" and "server_reaches lax sv0 sv" and "lax \<longrightarrow> sv_closing sv = None"
  shows "(sv_active sv = [] \<or> int (card {n. running sv n}) \<le> max_active_runs (c_server cfg)) \<and> distinct (keys (sv_active sv))
    \<and> (\<forall>n. running sv n \<longrightarrow> (\<exists>sid. map_of (sv_active sv) sid = Some n \<and> ar_cancelled (sv_handles (cancel sid sv) ! n)))"
proof -
  have "server_reaches False sv0 sv"
  proof (cases lax)
    case True
    with assms(2,3) show ?thesis by (intro server_reaches_open[of lax]) blast+
  qed (use assms(2) in simp)
  note a = reaches_accounted[OF assms(1) this]
  then have "admitted sv" by (simp add: accounted_def)
  with a card_running[of sv] running_registered[of sv] show ?thesis unfolding admitted_def by auto
qed

text \<open>What a shutdown has in hand, whatever happens meanwhile: the runs \<open>hs\<close> that were registered when it began.\<close>

definition shutting :: "(string \<times> nat) list \<Rightarrow> server \<Rightarrow> bool" where
  "shutting hs sv \<longleftrightarrow> sv_closing sv = Some hs \<and> (\<forall>(sid, n) \<in> set hs. n < length (sv_handles sv)
     \<and> ar_cancelled (sv_handles sv ! n) \<and> (sv_closed sv \<longrightarrow> is_done (ar_task (sv_handles sv ! n))))"

text \<open>No step withdraws a cancel event or takes up a task that has ended, and only the last one closes.\<close>

definition keeps_marks :: "server \<Rightarrow> server \<Rightarrow> bool" where
  "keeps_marks sv sv' \<longleftrightarrow> length (sv_handles sv) \<le> length (sv_handles sv')
     \<and> (\<forall>i < length (sv_handles sv). (ar_cancelled (sv_handles sv ! i) \<longrightarrow> ar_cancelled (sv_handles sv' ! i))
          \<and> (is_done (ar_task (sv_handles sv ! i)) \<longrightarrow> is_done (ar_task (sv_handles sv' ! i))))"

lemma keeps_marks_same: "sv_handles sv' = sv_handles sv \<Longrightarrow> keeps_marks sv sv'"
  by (simp add: keeps_marks_def)

lemma server_step_marks: "server_step lax sv sv' \<Longrightarrow> keeps_marks sv sv'"
proof (induction rule: server_step.induct)
  case (prompts sv pr env sid s r sv')
  from prompt_cases[OF prompts(2)] show ?case by (auto simp: keeps_marks_def nth_append)
next
  case (ends n sv l outcome)
  then show ?case by (auto simp: keeps_marks_def run_ends_def set_task_def nth_list_update)
next
  case (cancels sv sid)
  show ?case
    by (auto simp: keeps_marks_def cancel_def set_cancelled_runs set_cancelled_task set_cancelled_flag split: option.splits)
next
  case (closes sv)
  show ?case by (auto simp: keeps_marks_def begin_close_def fold_cancelled)
qed (auto intro: keeps_marks_same simp: same_runs_def leave_prompt_runs end_close_def fold_release
    dest!: new_session_runs set_config_option_runs)

lemma server_step_closed:
  "server_step lax sv sv' \<Longrightarrow> sv_closed sv' \<Longrightarrow>
     sv_closed sv \<or> (\<exists>hs. sv_closing sv = Some hs \<and> list_all (\<lambda>(sid, n). is_done (ar_task (sv_handles sv ! n))) hs)"
proof (induction rule: server_step.induct)
  case (prompts sv pr env sid s r sv')
  from prompt_cases[OF prompts(2)] prompts(3) show ?case by auto
qed (auto simp: same_runs_def leave_prompt_runs run_ends_def set_task_def cancel_def set_cancelled_runs begin_close_def fold_cancelled
    dest!: new_session_runs set_config_option_runs split: option.splits)

lemma server_step_shutting:
  assumes st: "server_step lax sv sv'" and h: "shutting hs sv"
  shows "shutting hs sv'"
proof -
  have c: "sv_closing sv = Some hs" using h by (simp add: shutting_def)
  note k = server_step_marks[OF st]
  have "n < length (sv_handles sv') \<and> ar_cancelled (sv_handles sv' ! n) \<and> (sv_closed sv' \<longrightarrow> is_done (ar_task (sv_handles sv' ! n)))"
    if m: "(sid, n) \<in> set hs" for sid n
  proof -
    have n: "n < length (sv_handles sv)" "ar_cancelled (sv_handles sv ! n)" "sv_closed sv \<longrightarrow> is_done (ar_task (sv_handles sv ! n))"
      using h m unfolding shutting_def by auto
    have "is_done (ar_task (sv_handles sv ! n))" if "sv_closed sv'"
      using server_step_closed[OF st that] n(3) c m by (auto simp: list_all_iff)
    with n(1,2) k show ?thesis by (auto simp: keeps_marks_def)
  qed
  with server_step_closing(2)[OF st, of hs] c show ?thesis unfolding shutting_def by blast
qed

lemma begin_close_shutting:
  assumes a: "accounted sv" and c: "sv_closing sv = None"
  shows "shutting (sv_active sv) (begin_close sv)"
proof -
  have f: "sv_closing (begin_close sv) = Some (sv_active sv)" "sv_closed (begin_close sv) = sv_closed sv"
    by (simp_all add: begin_close_def fold_cancelled)
  have "\<not> sv_closed sv" using a c by (auto simp: accounted_def)
  moreover have "\<forall>(sid, n) \<in> set (sv_active sv). n < length (sv_handles (begin_close sv)) \<and> ar_cancelled (sv_handles (begin_close sv) ! n)"
    using server_step_accounted[OF server_step.closes[OF c] a] f(1) unfolding accounted_def by simp
  ultimately show ?thesis using f unfolding shutting_def by auto
qed

text \<open>C18: a shutdown ends every run that goes on when it begins, also if prompts arrive meanwhile: from then on the
  run's cancel event is set, and when the shutdown is through the run has ended. If no prompt arrives
  once it has begun, no other run goes on either: while it waits, every run has its cancel event set, and
  after it no run goes on and no session is busy.\<close>

theorem shutdown_ends_every_run:
  assumes "new_server why cfg workspace_override = Inr sv0" and "server_reaches lax sv0 sv" and "sv_closing sv = None"
    and "server_reaches lax (begin_close sv) sv'"
  shows "(\<forall>n. running sv n \<longrightarrow> ar_cancelled (sv_handles sv' ! n) \<and> (sv_closed sv' \<longrightarrow> \<not> running sv' n))
    \<and> (lax \<or> (\<forall>n. running sv' n \<longrightarrow> ar_cancelled (sv_handles sv' ! n))
         \<and> (sv_closed sv' \<longrightarrow> sv_active sv' = [] \<and> (\<forall>n. \<not> running sv' n)))"
proof -
  have a: "accounted sv" using reaches_accounted[OF assms(1) server_reaches_open[OF assms(2,3)]] by blast
  have h: "shutting (sv_active sv) sv'"
    by (rule server_reaches_invariant[where P = "shutting (sv_active sv)", OF assms(4) begin_close_shutting[OF a assms(3)] server_step_shutting])
  have old: "ar_cancelled (sv_handles sv' ! n) \<and> (sv_closed sv' \<longrightarrow> \<not> running sv' n)" if "running sv n" for n
  proof -
    obtain sid where "(sid, n) \<in> set (sv_active sv)" using a \<open>running sv n\<close> unfolding accounted_def by fastforce
    with h show ?thesis unfolding shutting_def running_def by auto
  qed
  have "accounted sv'" if "\<not> lax"
  proof (rule server_reaches_invariant[where P = accounted])
    show "server_reaches False (begin_close sv) sv'" using assms(4) that by simp
    show "accounted (begin_close sv)" by (rule server_step_accounted[OF server_step.closes[OF assms(3)] a])
  qed (rule server_step_accounted)
  moreover have "sv_closing sv' \<noteq> None" using h by (simp add: shutting_def)
  ultimately have "lax \<or> (\<forall>n. running sv' n \<longrightarrow> ar_cancelled (sv_handles sv' ! n))
      \<and> (sv_closed sv' \<longrightarrow> sv_active sv' = [] \<and> (\<forall>n. \<not> running sv' n))"
    unfolding accounted_def by fastforce
  with old show ?thesis by blast
qed

text \<open>a session can only be routed to an entry of its own catalog: the orchestrator, a registered agent, or a
  workflow that was discovered when the session was opened.\<close>

theorem sessions_stay_on_their_routes:
  assumes "new_server why cfg workspace_override = Inr sv0" and "server_reaches lax sv0 sv" and "(sid, ss) \<in> set (sv_sessions sv)"
  shows "ss_route ss \<in> set (ss_options ss) \<and> ss_options ss = session_routes sv (ss_workflows ss)"
proof -
  have "routes_listed sv0" using new_server_fresh[OF assms(1)] by (simp add: fresh_def routes_listed_def)
  have "routes_listed sv"
    by (rule server_reaches_invariant[where P = routes_listed, OF assms(2) \<open>routes_listed sv0\<close> server_step_routes])
  with assms(3) show ?thesis by (auto simp: routes_listed_def)
qed

section \<open>A concrete server\<close>

definition no_files :: config_files where
  "no_files = \<lparr>cf_env = [], cf_user_name = ''u'', cf_user = NoFile, cf_project_name = ''p'', cf_project = NoFile\<rparr>"

definition demo_session_world :: session_world where
  "demo_session_world = \<lparr>sw_resolve = Inr, sw_is_dir = (\<lambda>d. True), sw_library = strict_library, sw_files = (\<lambda>d. no_files),
     sw_view = demo_view, sw_id = ''s''\<rparr>"

definition first_server :: server where
  "first_server = \<lparr>sv_override = None, sv_agent_routes = [''agent:claude'', ''agent:codex'', ''agent:opencode'', ''agent:devin''],
     sv_max = 1, sv_connected = False, sv_sessions = [], sv_active = [], sv_handles = [], sv_handlers = [], sv_closing = None,
     sv_closed = False\<rparr>"

lemma demo_names: "names BUILTIN_AGENTS = [''claude'', ''codex'', ''opencode'', ''devin'']"
  by code_simp

lemma default_max: "max_active_runs (c_server default_config) = 1"
  by (simp add: default_config_def)

lemma first_server: "new_server (pr_why demo_preparation) default_config None = Inr first_server"
  by (simp add: new_server_def default_registry demo_names default_max first_server_def AGENT_ROUTE_PREFIX_def)

lemma files_load: "case load_config strict_library no_files of Returns r \<Rightarrow> rv_config r = default_config | _ \<Rightarrow> False"
  by code_simp

lemma demo_found: "case discover demo_view ''/w'' of Inl e \<Rightarrow> False | Inr found \<Rightarrow> keys found = [''demo'']"
  by code_simp

definition routed :: "string \<Rightarrow> session_state \<Rightarrow> bool" where
  "routed route ss \<longleftrightarrow> ss_id ss = ''s'' \<and> ss_cwd ss = ''/w'' \<and> rv_config (ss_resolved ss) = default_config \<and> ss_route ss = route
     \<and> ''agent:codex'' \<in> set (ss_options ss)"

definition with_session :: "session_state \<Rightarrow> server" where
  "with_session ss = first_server\<lparr>sv_sessions := [(''s'', ss)]\<rparr>"

lemma demo_opened: "\<exists>ss. routed DEFAULT_ROUTE ss \<and> open_session demo_session_world ''/w'' first_server = (Inr ss, with_session ss)"
proof -
  obtain r where r: "load_config strict_library no_files = Returns r" "rv_config r = default_config"
    using files_load by (auto split: outcome.splits)
  obtain found where f: "discover demo_view ''/w'' = Inr found" using demo_found by (auto split: sum.splits)
  have o: "''agent:codex'' \<in> set (session_routes first_server found)" by (simp add: session_routes_def first_server_def)
  have e: "sv_override first_server = None" "sv_sessions first_server = []" by (simp_all add: first_server_def)
  show ?thesis
    by (simp add: open_session_def demo_session_world_def r f o e outcome_error_def routed_def with_session_def)
qed

lemma demo_rerouted:
  "routed DEFAULT_ROUTE ss \<Longrightarrow> routed ''agent:codex'' (ss\<lparr>ss_route := ''agent:codex''\<rparr>)
    \<and> (\<exists>r. set_config_option ''s'' ''route'' ''agent:codex'' (with_session ss) = (r, with_session (ss\<lparr>ss_route := ''agent:codex''\<rparr>)))"
  by (simp add: routed_def set_config_option_def with_session_def)

lemma default_limit: "max_prompt_bytes (c_engine default_config) = 262144"
  by (simp add: default_config_def default_engine_config_def)

lemma demo_codex: "get_agent BUILTIN_AGENTS ''codex'' = Inr codex"
  and demo_codex_env: "case compose_child_env codex [] of Inl e \<Rightarrow> False | Inr x \<Rightarrow> True"
  and demo_persisted_log: "open_log (served demo_preparation) default_config no_overrides = Inr ()"
  and demo_hi: "utf8_len ''hi'' = 2"
  by code_simp+

lemma demo_served_policy: "case run_policy (served demo_preparation) default_config ''/w'' of Inl e \<Rightarrow> False | Inr po \<Rightarrow> True"
  by code_simp

lemma demo_launched:
  assumes "routed ''agent:codex'' ss"
  shows "\<exists>l br. launch_route demo_preparation [] False ss ''hi'' = Inr (l, br)"
proof -
  obtain child secrets where c: "compose_child_env codex [] = Inr (child, secrets)" using demo_codex_env by (auto split: sum.splits)
  obtain po where po: "run_policy (served demo_preparation) default_config ''/w'' = Inr po"
    using demo_served_policy by (auto split: sum.splits)
  have w: "pr_why (served demo_preparation) = pr_why demo_preparation" by (simp add: served_def)
  have "\<exists>ru. prepare_run (served demo_preparation) default_config fp ''codex'' ''hi'' ''/w'' no_overrides [] = Inr ru" for fp
    by (simp add: prepare_run_def zig_def w default_registry demo_codex c po demo_persisted_log demo_hi default_limit)
  then obtain ru where "prepare_run (served demo_preparation) default_config (rv_fingerprint (ss_resolved ss)) ''codex'' ''hi'' ''/w'' no_overrides [] = Inr ru"
    by blast
  then show ?thesis
    using assms by (simp add: launch_route_def Let_def routed_def DEFAULT_ROUTE_def AGENT_ROUTE_PREFIX_def agent_run_def)
qed

text \<open>A prompt that is admitted and prepared.\<close>

lemma prompt_starts:
  assumes "map_of (sv_sessions sv) sid = Some ss" and "int (length (sv_active sv)) < sv_max sv" and "sid \<notin> set (keys (sv_active sv))"
    and "launch_route pr env (sv_connected sv) ss s = Inr (l, br)"
  shows "prompt pr env sid s sv = (Inr (length (sv_handles sv), br), sv\<lparr>sv_active := sv_active sv @ [(sid, length (sv_handles sv))],
     sv_handles := sv_handles sv @ [\<lparr>ar_cancelled = False, ar_task = Running l\<rparr>],
     sv_handlers := sv_handlers sv @ [(sid, length (sv_handles sv))]\<rparr>)"
  using assms by (simp add: prompt_def admit_run_def Let_def set_task_def update_fresh)

text \<open>The states of one history: a run is started, the server shuts down, and then takes prompts again.\<close>

definition busy_server :: "session_state \<Rightarrow> launched_run \<Rightarrow> server" where
  "busy_server ss l = (with_session ss)\<lparr>sv_active := [(''s'', 0)], sv_handles := [\<lparr>ar_cancelled = False, ar_task = Running l\<rparr>],
     sv_handlers := [(''s'', 0)]\<rparr>"

definition closed_server :: "session_state \<Rightarrow> server" where
  "closed_server ss = (with_session ss)\<lparr>sv_handles := [\<lparr>ar_cancelled = True, ar_task = Done (Inl (Python ''stopped''))\<rparr>],
     sv_handlers := [(''s'', 0)], sv_closing := Some [(''s'', 0)], sv_closed := True\<rparr>"

lemma demo_busy: "\<exists>ss l. routed ''agent:codex'' ss \<and> server_reaches lax first_server (busy_server ss l)"
proof -
  obtain ss0 where o: "routed DEFAULT_ROUTE ss0" "open_session demo_session_world ''/w'' first_server = (Inr ss0, with_session ss0)"
    using demo_opened by blast
  define ss where "ss = ss0\<lparr>ss_route := ''agent:codex''\<rparr>"
  obtain r where r: "routed ''agent:codex'' ss" "set_config_option ''s'' ''route'' ''agent:codex'' (with_session ss0) = (r, with_session ss)"
    using demo_rerouted[OF o(1)] unfolding ss_def by blast
  have "server_reaches lax first_server (with_session ss)"
    using onward[OF onward[OF start opens[OF o(2)]] routes[OF r(2)]] .
  moreover obtain l br where "launch_route demo_preparation [] False ss ''hi'' = Inr (l, br)" using demo_launched[OF r(1)] by blast
  then have "prompt demo_preparation [] ''s'' ''hi'' (with_session ss) = (Inr (0, br), busy_server ss l)"
    using prompt_starts[of "with_session ss" "''s''" ss demo_preparation "[]" "''hi''" l br]
    by (simp add: with_session_def first_server_def busy_server_def)
  moreover have "sv_closing (with_session ss) = None" by (simp add: with_session_def first_server_def)
  ultimately show ?thesis using onward[OF _ prompts] r(1) by blast
qed

lemma demo_closes: "server_reaches lax (begin_close (busy_server ss l)) (closed_server ss)"
proof -
  let ?b = "begin_close (busy_server ss l)"
  let ?c = "run_ends 0 (Inl (Python ''stopped'')) ?b"
  have h: "sv_handles ?b = [\<lparr>ar_cancelled = True, ar_task = Running l\<rparr>]" "sv_closing ?b = Some [(''s'', 0)]" "sv_closed ?b = False"
    by (simp_all add: begin_close_def busy_server_def set_cancelled_def with_session_def first_server_def)
  have c: "server_reaches lax ?b ?c"
    by (rule onward[OF start], rule server_step.ends) (simp_all add: h)
  have "server_reaches lax ?b (end_close [(''s'', 0)] ?c)"
    by (rule onward[OF c], rule server_step.closed) (simp_all add: run_ends_def set_task_def h)
  moreover have "end_close [(''s'', 0)] ?c = closed_server ss"
    by (simp add: end_close_def run_ends_def set_task_def release_def begin_close_def busy_server_def set_cancelled_def closed_server_def
        with_session_def first_server_def)
  ultimately show ?thesis by simp
qed

lemma server_reaches_trans:
  assumes "server_reaches lax sv' sv''" and "server_reaches lax sv sv'"
  shows "server_reaches lax sv sv''"
  using assms by (induction rule: server_reaches.induct) (auto intro: onward)

lemma busy_open: "sv_closing (busy_server ss l) = None"
  by (simp add: busy_server_def with_session_def first_server_def)

lemma demo_closed:
  assumes "server_reaches lax sv (busy_server ss l)"
  shows "server_reaches lax sv (closed_server ss)"
  by (rule server_reaches_trans[OF demo_closes onward[OF assms server_step.closes[OF busy_open]]])

theorem served_runs_witness:
  "\<exists>sv. server_reaches True first_server sv \<and> running sv 0 \<and> (\<exists>sid. map_of (sv_active sv) sid = Some 0)"
proof -
  obtain ss l where b: "server_reaches True first_server (busy_server ss l)" using demo_busy by blast
  have "running (busy_server ss l) 0" by (simp add: running_def busy_server_def)
  with served_runs_are_admitted[OF first_server b] busy_open b show ?thesis by blast
qed

theorem shutdown_witness:
  "\<exists>sv sv'. server_reaches False first_server sv \<and> running sv 0 \<and> server_reaches False (begin_close sv) sv' \<and> sv_closed sv'
     \<and> (\<forall>n. \<not> running sv' n)"
proof -
  obtain ss l where b: "server_reaches False first_server (busy_server ss l)" using demo_busy by blast
  have c: "server_reaches False (begin_close (busy_server ss l)) (closed_server ss)" by (rule demo_closes)
  have "running (busy_server ss l) 0" "sv_closed (closed_server ss)" by (simp_all add: running_def busy_server_def closed_server_def)
  with shutdown_ends_every_run[OF first_server b busy_open c] b c show ?thesis by blast
qed

theorem sessions_witness:
  "\<exists>sv ss. server_reaches False first_server sv \<and> sv_sessions sv = [(''s'', ss)] \<and> ss_route ss = ''agent:codex''
     \<and> ss_options ss = session_routes sv (ss_workflows ss)"
proof -
  obtain ss l where b: "routed ''agent:codex'' ss" "server_reaches False first_server (busy_server ss l)" using demo_busy by blast
  have s: "sv_sessions (busy_server ss l) = [(''s'', ss)]" by (simp add: busy_server_def with_session_def)
  then have "(''s'', ss) \<in> set (sv_sessions (busy_server ss l))" by simp
  from sessions_stay_on_their_routes[OF first_server b(2) this] b s show ?thesis by (auto simp: routed_def)
qed

text \<open>C34: the restriction is needed. A handle is taken out of the registry by its session id alone, so a prompt
  that comes while the server shuts down can lose its handle to the last one: \<open>aclose\<close> releases the
  session, a new prompt is admitted for it, and the old call of \<open>prompt\<close>, which wakes up only then, releases
  the session again. The new run goes on, is not cancelled and no longer counts, and another run is
  admitted although the limit is one.\<close>

theorem late_prompt_escapes_admission:
  "\<exists>sv. server_reaches True first_server sv \<and> sv_max sv = 1 \<and> running sv 1 \<and> running sv 2
     \<and> \<not> ar_cancelled (sv_handles sv ! 1) \<and> (\<forall>sid. map_of (sv_active sv) sid \<noteq> Some 1)"
proof -
  obtain ss l0 where b: "routed ''agent:codex'' ss" "server_reaches True first_server (busy_server ss l0)" using demo_busy by blast
  obtain l br where l: "launch_route demo_preparation [] False ss ''hi'' = Inr (l, br)" using demo_launched[OF b(1)] by blast
  let ?go = "\<lparr>ar_cancelled = False, ar_task = Running l\<rparr>"
  let ?over = "\<lparr>ar_cancelled = True, ar_task = Done (Inl (Python ''stopped''))\<rparr>"
  define one where "one = (closed_server ss)\<lparr>sv_active := [(''s'', 1)], sv_handles := [?over, ?go], sv_handlers := [(''s'', 0), (''s'', 1)]\<rparr>"
  define two where "two = one\<lparr>sv_active := [], sv_handlers := [(''s'', 1)]\<rparr>"
  define three where "three = two\<lparr>sv_active := [(''s'', 2)], sv_handles := [?over, ?go, ?go], sv_handlers := [(''s'', 1), (''s'', 2)]\<rparr>"
  have p1: "prompt demo_preparation [] ''s'' ''hi'' (closed_server ss) = (Inr (1, br), one)"
    using prompt_starts[of "closed_server ss" "''s''" ss demo_preparation "[]" "''hi''" l br] l
    by (simp add: closed_server_def with_session_def first_server_def one_def)
  have r1: "server_reaches True first_server one" by (rule onward[OF demo_closed[OF b(2)] prompts[OF _ p1]]) simp
  have e: "leave_prompt ''s'' 0 one = two"
    by (simp add: leave_prompt_def release_def Let_def one_def two_def closed_server_def)
  have "(''s'', 0) \<in> set (sv_handlers one)" by (simp add: one_def)
  from onward[OF r1 leaves[OF this]] have r2: "server_reaches True first_server two" by (simp add: e)
  have p3: "prompt demo_preparation [] ''s'' ''hi'' two = (Inr (2, br), three)"
    using prompt_starts[of two "''s''" ss demo_preparation "[]" "''hi''" l br] l
    by (simp add: closed_server_def with_session_def first_server_def one_def two_def three_def)
  have "server_reaches True first_server three" by (rule onward[OF r2 prompts[OF _ p3]]) simp
  moreover have "sv_max three = 1" by (simp add: three_def two_def one_def closed_server_def with_session_def first_server_def)
  moreover have "running three 1 \<and> running three 2 \<and> \<not> ar_cancelled (sv_handles three ! 1)" by (simp add: three_def running_def)
  moreover have "\<forall>sid. map_of (sv_active three) sid \<noteq> Some 1" by (simp add: three_def)
  ultimately show ?thesis by blast
qed

section \<open>A planned step with a directory of its own\<close>

definition edit_request :: perm_request where
  "edit_request = \<lparr>rq_session = ''s'', rq_tool_call = [(''kind'', PStr ''edit''), (''locations'', PList [PStr ''x.txt''])],
     rq_options = [\<lparr>op_id = ''n'', op_name = ''No'', op_kind = ''reject_once''\<rparr>, \<lparr>op_id = ''y'', op_name = ''Yes'', op_kind = ''allow_once''\<rparr>]\<rparr>"

definition sub_step :: step_def where
  "sub_step = (plain_step ''codex'' [] [])\<lparr>s_working_dir := Some ''sub''\<rparr>"

text \<open>The bridge of one run, as the run renders, the drain task sends and requests are decided.\<close>

inductive bridge_reaches :: "(int \<Rightarrow> string) \<Rightarrow> bridge \<Rightarrow> bridge \<Rightarrow> bool" for floats br where
  made: "bridge_reaches floats br br"
| rendered: "bridge_reaches floats br br' \<Longrightarrow> bridge_reaches floats br (render_cb env br')"
| drained: "bridge_reaches floats br br' \<Longrightarrow> br_queue br' = Some env # q \<Longrightarrow>
    bridge_reaches floats br (drain_one floats breaks env (br'\<lparr>br_queue := q\<rparr>))"
| decided: "bridge_reaches floats br br' \<Longrightarrow> bridge_permission realpath now client breaks rq (ss, br') = (reply, ss', br'') \<Longrightarrow>
    bridge_reaches floats br br''"

lemma bridge_reaches_policies:
  "bridge_reaches floats br br' \<Longrightarrow> br_policies br' = br_policies br \<and> br_fallback br' = br_fallback br"
proof (induction rule: bridge_reaches.induct)
  case (rendered br' env)
  then show ?case by (auto simp: render_cb_def Let_def split: option.splits list.splits)
next
  case (drained br' env q breaks)
  then show ?case by (simp add: drain_one_def split: option.split)
next
  case (decided br' realpath now client breaks rq ss reply ss' br'')
  then show ?case
    by (auto simp: bridge_permission_def emit_notice_def split: option.splits sum.splits if_splits forwarded.splits exn.splits)
qed simp

lemma bridge_approves:
  assumes "bridge_policy br = Some po" and "decide_permission realpath po (PDict (rq_tool_call rq)) = Inr d" "d_allowed d"
    and "br_connected br \<and> \<not> ss_no_forwarding ss \<longrightarrow> (\<exists>reply. forward_permission client rq (bridge_label br) = Forwarded reply \<and> grants rq reply)"
  shows "\<exists>reply body. fst (bridge_permission realpath now client breaks rq (ss, br)) = Inr (reply, body)
    \<and> map_of body ''decision'' = Some (PStr ''approved'')"
proof (cases "br_connected br \<and> \<not> ss_no_forwarding ss")
  case True
  with assms(4) obtain reply where f: "forward_permission client rq (bridge_label br) = Forwarded reply" "grants rq reply" by blast
  then have "map_of (snd (intersect now rq d reply)) ''decision'' = Some (PStr ''approved'')"
    by (auto simp: intersect_def grants_def decision_payload_def bridge_payload_def split: option.splits)
  with f(1) assms(1-3) True show ?thesis
    by (cases "intersect now rq d reply") (auto simp: bridge_permission_def)
next
  case False
  with assms(1-3) fallback_approved[of now rq d] show ?thesis
    by (cases "guarded_fallback now rq d") (auto simp: bridge_permission_def)
qed

text \<open>C35: for the steps of a plan the bridge asks under a policy that need not be the step's: it is made before there
  is a plan and knows only the policy of the workspace. So whatever the policy \<open>po\<close> of a planned step is, a
  request that it denies and the workspace allows, which the hooks without the bridge would reject, is
  approved and so recorded, by the client if it can be asked and agrees, else by the bridge itself.\<close>

theorem planned_step_is_asked_under_a_wider_policy:
  assumes "launch_route pr env connected ss s = Inr (OrchestratorRun og, br)" and "bridge_reaches floats br br'"
    and "br_current br' = Some (EXECUTE_PREFIX @ step)"
    and "run_policy pr (rv_config (ss_resolved ss)) (ss_cwd ss) = Inr ceiling"
    and "decide_permission (ci_decide ci) ceiling (PDict (rq_tool_call rq)) = Inr d" and "d_allowed d"
    and "decide_permission (ci_decide ci) po (PDict (rq_tool_call rq)) = Inr d'" and "\<not> d_allowed d'"
    and "br_connected br' \<and> \<not> ss_no_forwarding ss' \<longrightarrow>
      (\<exists>reply. forward_permission client rq (bridge_label br') = Forwarded reply \<and> grants rq reply)"
    and "\<not> hk_override hk"
  shows "(\<exists>reply body. fst (bridge_permission (ci_decide ci) now client breaks rq (ss', br')) = Inr (reply, body)
      \<and> map_of body ''decision'' = Some (PStr ''approved''))
    \<and> (case policy_permission w hk po ci rq eng of
         (Ok reply, t) \<Rightarrow> reply = select_option (rq_options rq) REJECT_KIND_ORDER | _ \<Rightarrow> True)"
proof
  have "br_policies br = [] \<and> br_fallback br = Some ceiling"
    using bridge_has_the_step_policies[where pr = pr and env = env and connected = connected and ss = ss and s = s] assms(1,4) by (simp add: ceilings_of_def)
  with bridge_reaches_policies[OF assms(2)] assms(3) have p: "bridge_policy br' = Some ceiling" by (simp add: bridge_policy_def)
  show "\<exists>reply body. fst (bridge_permission (ci_decide ci) now client breaks rq (ss', br')) = Inr (reply, body)
      \<and> map_of body ''decision'' = Some (PStr ''approved'')"
    by (rule bridge_approves[OF p assms(5,6,9)])
  show "case policy_permission w hk po ci rq eng of (Ok reply, t) \<Rightarrow> reply = select_option (rq_options rq) REJECT_KIND_ORDER | _ \<Rightarrow> True"
    using policy_permission_Ok[of w hk po ci rq eng] assms(7,8,10) by (auto split: prod.splits res.splits)
qed

lemma keyed_served_log: "open_log (served demo_preparation) keyed_config no_overrides = Inr ()"
  by code_simp

lemma keyed_served:
  "\<exists>og. prepare_orchestration (served demo_preparation) keyed_config ''f'' ''go'' ''/w'' no_overrides keyed_env = Inr og"
proof -
  have p: "run_policy (served demo_preparation) keyed_config ''/w'' = run_policy demo_preparation keyed_config ''/w''"
    by (simp add: served_def run_policy_def)
  have f: "pr_why (served demo_preparation) = pr_why demo_preparation" "pr_disk (served demo_preparation) = pr_disk demo_preparation"
    "pr_prose (served demo_preparation) = pr_prose demo_preparation" by (simp_all add: served_def)
  show ?thesis
    using keyed_planner keyed_catalog keyed_policy keyed_served_log keyed_registry keyed_config_values
    by (auto simp: prepare_orchestration_def zig_def bindE_def Let_def p f split: sum.splits)
qed

definition planning_session_state :: session_state where
  "planning_session_state = plain_session\<lparr>ss_cwd := ''/w'', ss_route := DEFAULT_ROUTE,
     ss_resolved := \<lparr>rv_config = keyed_config, rv_provenance = [], rv_fingerprint = ''f'', rv_warnings = []\<rparr>\<rparr>"

definition started :: event_envelope where
  "started = said\<lparr>ev_step_id := Some (EXECUTE_PREFIX @ ''s''), ev_type := ''step_started'', ev_payload := [(''agent'', PStr ''codex'')]\<rparr>"

lemma sub_step_decisions:
  "case (run_policy demo_preparation keyed_config ''/w'', step_policy Inr keyed_config ''/w'' ''s'' sub_step) of
     (Inr ceiling, Inr po) \<Rightarrow>
       (case (decide_permission Inr ceiling (PDict (rq_tool_call edit_request)), decide_permission Inr po (PDict (rq_tool_call edit_request))) of
          (Inr d, Inr d') \<Rightarrow> d_allowed d \<and> \<not> d_allowed d' | _ \<Rightarrow> False)
   | _ \<Rightarrow> False"
  by code_simp

lemma started_step: "br_current (render_cb started br) = Some (EXECUTE_PREFIX @ ''s'')" "br_connected (render_cb started br) = br_connected br"
  by (simp_all add: render_cb_def started_def said_def payload_str_def Let_def)

theorem wider_policy_witness:
  "\<exists>og br po reply body. launch_route demo_preparation keyed_env False planning_session_state ''go'' = Inr (OrchestratorRun og, br)
     \<and> step_policy Inr keyed_config ''/w'' ''s'' sub_step = Inr po
     \<and> fst (bridge_permission Inr ''now'' willing_client False edit_request (planning_session_state, render_cb started br)) = Inr (reply, body)
     \<and> map_of body ''decision'' = Some (PStr ''approved'')"
proof -
  obtain og where og: "prepare_orchestration (served demo_preparation) keyed_config ''f'' ''go'' ''/w'' no_overrides keyed_env = Inr og"
    using keyed_served by blast
  obtain ceiling po d d' where p: "run_policy demo_preparation keyed_config ''/w'' = Inr ceiling" "step_policy Inr keyed_config ''/w'' ''s'' sub_step = Inr po"
    "decide_permission Inr ceiling (PDict (rq_tool_call edit_request)) = Inr d" "d_allowed d"
    "decide_permission Inr po (PDict (rq_tool_call edit_request)) = Inr d'" "\<not> d_allowed d'"
    using sub_step_decisions by (auto split: sum.splits)
  define br where "br = new_bridge False [] [] (ag_name (og_planner og)) (Some ceiling)"
  have s: "ss_route planning_session_state = DEFAULT_ROUTE" "ss_cwd planning_session_state = ''/w''"
    "rv_config (ss_resolved planning_session_state) = keyed_config" "rv_fingerprint (ss_resolved planning_session_state) = ''f''"
    by (simp_all add: planning_session_state_def plain_session_def)
  have l: "launch_route demo_preparation keyed_env False planning_session_state ''go'' = Inr (OrchestratorRun og, br)"
    by (simp add: launch_route_def Let_def orchestrator_run_def s og p(1) br_def)
  define ci where "ci = demo_circumstances\<lparr>ci_decide := Inr\<rparr>"
  have c: "ci_decide ci = Inr" by (simp add: ci_def)
  have h: "\<not> hk_override demo_hooks" by (simp add: demo_hooks_def)
  have n: "br_connected (render_cb started br) \<and> \<not> ss_no_forwarding planning_session_state \<longrightarrow>
      (\<exists>reply. forward_permission willing_client edit_request (bridge_label (render_cb started br)) = Forwarded reply \<and> grants edit_request reply)"
    by (simp add: started_step br_def new_bridge_def)
  have "run_policy demo_preparation (rv_config (ss_resolved planning_session_state)) (ss_cwd planning_session_state) = Inr ceiling"
    using p(1) s by simp
  from planned_step_is_asked_under_a_wider_policy[OF l rendered[OF made] started_step(1) this
      p(3)[folded c] p(4) p(5)[folded c] p(6) n h, THEN conjunct1, unfolded c]
  show ?thesis using l p(2) by blast
qed

end
