(* ===== verification/Spec2Isabelle.thy ===== *)
theory Spec2Isabelle
  imports Vars Egress Mediation Recorder_Aggregates Plan_Authority Plan_Extraction Config_Authority Child_Env Lease_Safety Hooks_Safety Acp_Convert Step_Guarantees Run_Guarantees Run_On_Store Planning_Safety Execution_Safety Orchestration_Safety Workflow_Files_Safety Preparation_Safety Server_Safety
begin

text \<open>
  Verification library for Ziggy, the local harness that runs AI coding agents over the Agent Client
  Protocol. The program's promise is a trust boundary: configuration, plans and templates that nobody
  trusts can only tighten what the user allowed; an agent's requests are decided by a policy and recorded;
  secrets are redacted before anything is stored; every run has a typed, bounded, durable result. The
  library models that path from the bytes of a configuration file to the saved result, and proves the
  promises, or exhibits the case in which the code does not keep them. Paths below are relative to
  \<open>src/ziggy\<close>.

  How the parts interact. \<open>config/loader.py\<close> resolves the trusted user file, the environment and the
  untrusted project file into one configuration; \<open>agents/registry.py\<close> merges it with the built-in agents.
  \<open>workflows/discovery.py\<close> finds a workflow file and \<open>workflows/schema.py\<close> validates it.
  \<open>engine/prepare.py\<close> resolves variables, credentials, limits, policies and egress acknowledgements, and
  passes what it built to one of three drivers: \<open>execute_run\<close> for one agent, \<open>execute_workflow\<close> for a
  graph of steps, \<open>run_orchestration\<close> for a planned graph. All three open a run in the store, take the
  workspace lease, call \<open>execute_step\<close> for each agent process, and save one result. A step owns an
  \<open>AgentProcessClient\<close>; the agent's requests reach \<open>PolicyHooks\<close>, which asks \<open>policy/mediation.py\<close> and
  serves what is allowed; every message goes through the \<open>RunRecorder\<close>, which redacts, bounds and appends
  it. \<open>server/app.py\<close> offers the three drivers to an editor, whose answers pass a bridge.

  Foundations.
  \<^item> \<open>Prelude\<close>: Python strings, dictionaries and JSON-like values; the locales \<open>stepping\<close> and \<open>metered\<close>
    for machines that step and keep an invariant; the shared lemma collections.
  \<^item> \<open>PyRegex\<close>: the fragment of \<open>re\<close> the patterns use, with backtracking order.
  \<^item> \<open>Models\<close>: \<open>errors.py\<close> and \<open>models/\<close>; an enum is a datatype, a pydantic model a record with a
    predicate for its validators.

  Configuration and agents.
  \<^item> \<open>Config_Schema\<close>, \<open>Config_Dump\<close>, \<open>Config_Strict\<close>: \<open>config/schema.py\<close> as records, as a tree of
    values, and a decoder that reads every tree back.
  \<^item> \<open>Config_Loader\<close>, with \<open>Config_Merge\<close> and \<open>Config_Authority\<close>: \<open>config/loader.py\<close>. A project file
    changes nine fields and each only in the tightening direction; provenance tells what it did.
  \<^item> \<open>Registry\<close>, \<open>Child_Env\<close>: \<open>agents/\<close> and \<open>engine/env.py\<close>; a child process sees what is named only.

  Workflows.
  \<^item> \<open>Scheduler\<close>, \<open>Interpolate\<close>, \<open>Vars\<close>, \<open>Egress\<close>: the four modules of \<open>workflows/\<close> of the same
    names: the stable topological order, one-pass templates, typed variables with the gate that keeps
    secrets from foreign providers, and the exact set of providers that exchange data.
  \<^item> \<open>Workflow_Files\<close>, with \<open>Workflow_Files_Safety\<close>: \<open>workflows/schema.py\<close> and \<open>workflows/discovery.py\<close>;
    the search for repeated keys ends on any node graph, cyclic ones included.

  Policy and recording.
  \<^item> \<open>Paths\<close>, \<open>Mediation\<close>: \<open>policy/\<close>; the locale \<open>guard\<close> is the contract of a decision that further
    rules only tighten, interpreted for reads, writes, terminals and permission requests.
  \<^item> \<open>Redactor\<close>, with \<open>Redactor_Safety\<close>: \<open>redact/redactor.py\<close>. Output is a list of segments; between
    markers no configured secret remains, over any cutting of a stream into chunks.
  \<^item> \<open>Recorder\<close>, with \<open>Recorder_Facts\<close>, \<open>Recorder_Ceiling\<close>, \<open>Recorder_Capture\<close>,
    \<open>Recorder_Aggregates\<close>: \<open>events/pipeline.py\<close>; sequence numbers, the byte ceiling of a step, the capture
    summary, the metadata profile, and the aggregates as a function of the record.
  \<^item> \<open>Metadata_Log\<close>: \<open>store/logs.py\<close>.

  The engine.
  \<^item> \<open>Effects\<close>, \<open>Effects_Logic\<close>, \<open>Run_Logic\<close>: the state the coroutines share, their results (a value, an
    exception, or a wait that never ends), and the rules to reason about them: weakest preconditions
    for a step, \<open>yields\<close> and the acts of a computation for whole runs.
  \<^item> \<open>Stream_Guard\<close>, \<open>Hooks\<close>, with \<open>Hooks_Safety\<close>: \<open>engine/hooks.py\<close>. An opened file is traced back to the
    request that asked for it, the decision on that request and the check when it was served.
  \<^item> \<open>Acp_Convert\<close>, \<open>Acp_Client\<close>: \<open>acp/convert.py\<close> and \<open>acp/client.py\<close>.
  \<^item> \<open>Step_Runner\<close>, with \<open>Step_Safety\<close> and \<open>Step_Guarantees\<close>: \<open>execute_step\<close> of \<open>engine/runner.py\<close>. A
    launch carries the pid, a signal the process group it goes to.
  \<^item> \<open>Lease\<close>, with \<open>Lease_Safety\<close>: \<open>engine/lease.py\<close> under every interleaving of several processes, a
    step being one system call.
  \<^item> \<open>Run_Files\<close>, \<open>Run_Index\<close>, with \<open>Store_Safety\<close>, \<open>Index_Safety\<close>, \<open>Recovery_Safety\<close>:
    \<open>store/runstore.py\<close> and \<open>store/index.py\<close>.
  \<^item> \<open>Run_Common\<close>, \<open>Direct_Run\<close>, \<open>Workflow_Run\<close>, with \<open>Flow_Safety\<close>, \<open>Run_Acts\<close>,
    \<open>Run_Guarantees\<close>, \<open>Run_On_Store\<close>: \<open>execute_run\<close> and \<open>workflows/runner.py\<close>. The abstract specification
    of a workflow (\<open>Flow_Safety\<close>) gives the final statuses as a function of where and why the loop
    stopped; the driver refines it.
  \<^item> \<open>Preparation\<close>, with \<open>Preparation_Safety\<close>: \<open>engine/prepare.py\<close>, joined to the drivers.

  Orchestration.
  \<^item> \<open>Catalog\<close>, \<open>Plan_Validation\<close>, \<open>Plan_Parse\<close>, with \<open>Plan_Authority\<close> and \<open>Plan_Extraction\<close>:
    \<open>orchestrator/catalog.py\<close> and \<open>orchestrator/validate.py\<close>. \<open>Plan_Authority\<close> states what a plan may do apart
    from the code's error lists, and the two agree.
  \<^item> \<open>Planning_Session\<close>, \<open>Plan_Execution\<close>, \<open>Orchestration\<close>, with \<open>Planning_Safety\<close>,
    \<open>Execution_Safety\<close>, \<open>Orchestration_Safety\<close>: \<open>orchestrator/planner.py\<close> and \<open>orchestrator/execute.py\<close>.
    \<open>plan_made\<close> is the run up to the end of its planning; the gates are stated for the plan it hands over.

  The server.
  \<^item> \<open>Server_Bridge\<close>, \<open>Server\<close>, with \<open>Bridge_Safety\<close> and \<open>Server_Safety\<close>: \<open>server/app.py\<close> and
    \<open>acp/server.py\<close>. The server is a step relation whose steps are what the event loop runs without giving
    up control. Its invariants hold in every reachable state, those of admission until a shutdown begins
    and, if no prompt arrives then, beyond; one history shows that the restriction is needed.

  Conventions. A \<open>str\<close> is a \<open>string\<close> of code points up to U+00FF; a \<open>dict\<close> is an association list in
  insertion order; an \<open>int\<close> is an \<open>int\<close>; a float is carried as its text. An error is a value: a \<open>ZiggyError\<close>
  as a code with its fields, any other Python exception by its class name, so that an exception the code
  does not catch is visible in the result. An \<open>await\<close> that nothing completes is the result \<open>Hang\<close>, and a
  claim that the program returns excludes it.

  Bounds and fuel. No definition needs fuel that could be lacking. Scans over a text, the glob translation
  and the tree merges shrink their input; Kahn's loop counts the steps left to order and the cycle search the
  vertices left to visit; the walk over YAML nodes counts the nodes not yet seen and then the work list. A
  greedy repetition tries at most as many rounds as characters are left. An acquisition of the lease
  returns within 45 system calls. The one loop that only the clock ends, the setup of the index, is a
  \<open>partial_function\<close>, and \<open>Index_Safety\<close> proves that it returns when each sleep advances the clock. The limits
  (4300 digits of an integer, the redaction window, the byte ceiling of a step, one repair of a plan) are
  the code's constants; bounds that the code does not name, like the 22 lines after a crossed ceiling, are
  proved.

  What is outside. Parameters stand for code that is not in the repository: the acp library and the agents,
  PyYAML, pydantic, \<open>json\<close> and TOML parsing of concrete text, compiled user regexes, SHA-256, SQLite's
  answers, the clock, and what the file system gives to a call. A hypothesis on one of them states
  documented behaviour and is discharged on a concrete instance in the witness of the theorem.

  What is not modelled. The command line (\<open>cli/\<close>: argument parsing, rendering of tables, the doctor), the
  random identifiers and packaged schemas, and modules that only re-export. Of \<open>acp/server.py\<close> the JSON-RPC
  transport is not modelled. PyYAML can fail with other exceptions than a YAMLError, and the loader of
  workflow files, the discovery and the check of a pin let them through as the code does; only where the
  catalog and the plan validator call the loader (\<open>dk_load\<close>), its failures are ValidationErrors. Cancellation of a whole coroutine from above is modelled for the server, where
  the program handles it, not inside a step. Code points above U+00FF do not occur.
\<close>

end
